(* ===== verification/Prelude.thy ===== *)
theory Prelude
  imports Main "HOL-Library.Word"
begin

text \<open>
  Shared vocabulary of the development.

  \<^item> Machine integers: \<open>u8\<close> \<dots> \<open>u64\<close> are words of that width (src/src/utils/types.h); a
    signed type is the same word read through \<open>sint\<close>.
  \<^item> The result types \<open>r\<close> and \<open>r_T\<close> of src/src/utils/result.h: a function that can fail
    returns \<open>Inl e\<close> or \<open>Inr x\<close>, and the macros \<open>unwrap\<close> and \<open>check\<close>, which forward the
    error of a callee, are \<open>unwrap\<close>.  An error message of the code is a category tag
    followed by a text for people; only the category is inspected (\<open>err_is\<close>), so a model
    error is the category (\<open>E_plain\<close> for a message without one).  \<open>Fault\<close> is not an error of the code: it stands for behaviour
    that C leaves undefined (an access outside an object, a null dereference), the places
    that the code guards with \<open>assert\<close>.
  \<^item> \<open>for_res\<close> and \<open>foreach_res\<close>: the counted loops and \<open>VEC_FOR_EACH\<close> with the early
    returns of \<open>unwrap\<close>/\<open>check\<close> in the body.
  \<^item> \<open>res_ok Q m\<close>: the computation \<open>m\<close> is free of \<open>Fault\<close>, and if it returns normally its
    value satisfies \<open>Q\<close>.  The component theories prove one such fact per operation and
    compose them with the rules collected in \<open>res_wp\<close>.
\<close>

unbundle bit_operations_syntax

named_theorems res_simps \<open>inversion of unwrap, loops and returns\<close>
named_theorems res_wp \<open>rules that compose res_ok facts\<close>
named_theorems out_wp \<open>rules that compose res_out facts\<close>

section \<open>Machine integers\<close>

type_synonym u8 = "8 word"
type_synonym u16 = "16 word"
type_synonym u32 = "32 word"
type_synonym u64 = "64 word"

section \<open>Results\<close>

datatype err = E_general | E_malformed | E_invalid | E_unlinkable | E_exhaustion | E_trap | E_exit
  | E_plain | Fault

type_synonym 'a res = "err + 'a"

definition unwrap :: "'a res \<Rightarrow> ('a \<Rightarrow> 'b res) \<Rightarrow> 'b res" where
  "unwrap m f = (case m of Inl e \<Rightarrow> Inl e | Inr x \<Rightarrow> f x)"

fun for_res :: "nat \<Rightarrow> nat \<Rightarrow> (nat \<Rightarrow> 's \<Rightarrow> 's res) \<Rightarrow> 's \<Rightarrow> 's res" where
  "for_res i 0 body s = Inr s"
| "for_res i (Suc n) body s = unwrap (body i s) (\<lambda>s'. for_res (Suc i) n body s')"

fun foreach_res :: "('a \<Rightarrow> 's \<Rightarrow> 's res) \<Rightarrow> 'a list \<Rightarrow> 's \<Rightarrow> 's res" where
  "foreach_res body [] s = Inr s"
| "foreach_res body (x # xs) s = unwrap (body x s) (\<lambda>s'. foreach_res body xs s')"

definition res_ok :: "('a \<Rightarrow> bool) \<Rightarrow> 'a res \<Rightarrow> bool" where
  "res_ok Q m = (case m of Inl e \<Rightarrow> e \<noteq> Fault | Inr x \<Rightarrow> Q x)"

subsection \<open>Inversion\<close>

lemma unwrap_Inl [simp]: "unwrap (Inl e) f = Inl e"
  by (simp add: unwrap_def)

lemma unwrap_Inr [simp]: "unwrap (Inr x) f = f x"
  by (simp add: unwrap_def)

lemma unwrap_eq_Inr [res_simps]: "unwrap m f = Inr y \<longleftrightarrow> (\<exists>x. m = Inr x \<and> f x = Inr y)"
  by (cases m) auto

lemma unwrap_eq_Inl [res_simps]:
  "unwrap m f = Inl e \<longleftrightarrow> m = Inl e \<or> (\<exists>x. m = Inr x \<and> f x = Inl e)"
  by (cases m) auto

lemma unwrap_cong [fundef_cong]:
  "m = m' \<Longrightarrow> (\<And>x. m' = Inr x \<Longrightarrow> f x = g x) \<Longrightarrow> unwrap m f = unwrap m' g"
  by (cases m') auto

lemma unwrap_assoc: "unwrap (unwrap m f) g = unwrap m (\<lambda>x. unwrap (f x) g)"
  by (cases m) auto

subsection \<open>Safety and postconditions\<close>

lemma res_ok_simps [simp]:
  "res_ok Q (Inl e) \<longleftrightarrow> e \<noteq> Fault"
  "res_ok Q (Inr x) \<longleftrightarrow> Q x"
  by (simp_all add: res_ok_def)

lemma res_okI:
  "m \<noteq> Inl Fault \<Longrightarrow> (\<And>x. m = Inr x \<Longrightarrow> Q x) \<Longrightarrow> res_ok Q m"
  by (cases m) auto

lemma res_okD: "res_ok Q m \<Longrightarrow> m = Inr x \<Longrightarrow> Q x"
  by simp

lemma res_ok_noFault: "res_ok Q m \<Longrightarrow> m \<noteq> Inl Fault"
  by auto

lemma res_ok_mono: "res_ok P m \<Longrightarrow> (\<And>x. m = Inr x \<Longrightarrow> P x \<Longrightarrow> Q x) \<Longrightarrow> res_ok Q m"
  by (cases m) auto

lemma res_ok_unwrap: "res_ok Q (unwrap m f) \<longleftrightarrow> res_ok (\<lambda>x. res_ok Q (f x)) m"
  by (cases m) auto

lemma res_ok_bind:
  "res_ok P m \<Longrightarrow> (\<And>x. m = Inr x \<Longrightarrow> P x \<Longrightarrow> res_ok Q (f x)) \<Longrightarrow> res_ok Q (unwrap m f)"
  by (cases m) auto

lemma res_ok_bind_pair:
  "res_ok (\<lambda>(a, b). P a b) m \<Longrightarrow> (\<And>a b. m = Inr (a, b) \<Longrightarrow> P a b \<Longrightarrow> res_ok Q (f (a, b))) \<Longrightarrow>
   res_ok Q (unwrap m f)"
  by (cases m) auto

lemma res_ok_conj: "res_ok P m \<Longrightarrow> res_ok Q m \<Longrightarrow> res_ok (\<lambda>x. P x \<and> Q x) m"
  by (cases m) auto

lemma res_ok_if [res_wp]:
  "(b \<Longrightarrow> res_ok Q m) \<Longrightarrow> (\<not> b \<Longrightarrow> res_ok Q m') \<Longrightarrow> res_ok Q (if b then m else m')"
  by simp

text \<open>
  \<open>res_out F Q m\<close>: like \<open>res_ok Q m\<close>, but a fault is excused by \<open>F\<close>.  It is used where the code
  does fault on some inputs, to say exactly on which.
\<close>

definition res_out :: "bool \<Rightarrow> ('a \<Rightarrow> bool) \<Rightarrow> 'a res \<Rightarrow> bool" where
  "res_out F Q m = (case m of Inl e \<Rightarrow> e = Fault \<longrightarrow> F | Inr x \<Rightarrow> Q x)"

lemma res_out_simps [simp]:
  "res_out F Q (Inl e) \<longleftrightarrow> (e = Fault \<longrightarrow> F)"
  "res_out F Q (Inr x) \<longleftrightarrow> Q x"
  by (simp_all add: res_out_def)

lemma res_out_bind:
  "(m = Inl Fault \<Longrightarrow> F) \<Longrightarrow> (\<And>x. m = Inr x \<Longrightarrow> res_out F Q (f x)) \<Longrightarrow> res_out F Q (unwrap m f)"
  by (cases m) auto

lemma res_out_ok_bind:
  "res_ok P m \<Longrightarrow> (\<And>x. m = Inr x \<Longrightarrow> P x \<Longrightarrow> res_out F Q (f x)) \<Longrightarrow> res_out F Q (unwrap m f)"
  by (cases m) auto

lemma res_out_if [out_wp]:
  "(b \<Longrightarrow> res_out F Q m) \<Longrightarrow> (\<not> b \<Longrightarrow> res_out F Q m') \<Longrightarrow> res_out F Q (if b then m else m')"
  by simp

lemma res_outI:
  "(m = Inl Fault \<Longrightarrow> F) \<Longrightarrow> (\<And>x. m = Inr x \<Longrightarrow> Q x) \<Longrightarrow> res_out F Q m"
  by (cases m) auto

lemma res_outD: "res_out F Q m \<Longrightarrow> m = Inr x \<Longrightarrow> Q x"
  by simp

lemma res_out_Fault: "res_out F Q m \<Longrightarrow> m = Inl Fault \<Longrightarrow> F"
  by simp

lemma res_out_mono:
  "res_out G P m \<Longrightarrow> (G \<Longrightarrow> F) \<Longrightarrow> (\<And>x. m = Inr x \<Longrightarrow> P x \<Longrightarrow> Q x) \<Longrightarrow> res_out F Q m"
  by (cases m) auto

lemma res_out_then:
  "res_out G P m \<Longrightarrow> (G \<Longrightarrow> F) \<Longrightarrow> (\<And>x. m = Inr x \<Longrightarrow> P x \<Longrightarrow> res_out F Q (f x)) \<Longrightarrow> res_out F Q (unwrap m f)"
  by (cases m) auto

lemma res_ok_out: "res_ok P m \<Longrightarrow> (\<And>x. m = Inr x \<Longrightarrow> P x \<Longrightarrow> Q x) \<Longrightarrow> res_out F Q m"
  by (cases m) auto

lemma for_res_out:
  assumes "I i s" and "\<And>j s'. i \<le> j \<Longrightarrow> j < i + n \<Longrightarrow> I j s' \<Longrightarrow> res_out F (I (Suc j)) (body j s')"
  shows "res_out F (I (i + n)) (for_res i n body s)"
  using assms
proof (induction n arbitrary: i s)
  case 0
  then show ?case by simp
next
  case (Suc n)
  have body: "res_out F (I (Suc i)) (body i s)"
    using Suc.prems by simp
  have rest: "res_out F (I (Suc i + n)) (for_res (Suc i) n body s')" if "I (Suc i) s'" for s'
    using that by (rule Suc.IH) (use Suc.prems(2) in simp)
  show ?case
    by (simp, rule res_out_then [OF body]) (use rest in simp_all)
qed

lemma foreach_res_out:
  assumes "I s" and "\<And>x s'. x \<in> set xs \<Longrightarrow> I s' \<Longrightarrow> res_out F I (body x s')"
  shows "res_out F I (foreach_res body xs s)"
  using assms
proof (induction xs arbitrary: s)
  case Nil
  then show ?case by simp
next
  case (Cons x xs)
  have "res_out F I (body x s)"
    using Cons.prems by simp
  then show ?case
    by (simp, elim res_out_then) (use Cons in auto)
qed

lemma for_res_ok:
  assumes "I s" and "\<And>j s'. I s' \<Longrightarrow> res_ok I (body j s')"
  shows "res_ok I (for_res i n body s)"
  using assms(1)
proof (induction n arbitrary: i s)
  case 0
  then show ?case by simp
next
  case (Suc n)
  show ?case
    by (simp, rule res_ok_bind [OF assms(2) [OF Suc.prems]]) (rule Suc.IH)
qed

lemma for_res_ok_index:
  assumes "I i s" and "\<And>j s'. i \<le> j \<Longrightarrow> j < i + n \<Longrightarrow> I j s' \<Longrightarrow> res_ok (I (Suc j)) (body j s')"
  shows "res_ok (I (i + n)) (for_res i n body s)"
  using assms
proof (induction n arbitrary: i s)
  case 0
  then show ?case by simp
next
  case (Suc n)
  have "res_ok (I (Suc i)) (body i s)"
    using Suc.prems by simp
  then show ?case
  proof (simp, rule res_ok_bind)
    fix s' assume "I (Suc i) s'"
    then have "res_ok (I (Suc i + n)) (for_res (Suc i) n body s')"
      by (rule Suc.IH) (use Suc.prems(2) in simp)
    then show "res_ok (I (Suc (i + n))) (for_res (Suc i) n body s')"
      by simp
  qed
qed

lemma foreach_res_ok:
  assumes "I s" and "\<And>x s'. x \<in> set xs \<Longrightarrow> I s' \<Longrightarrow> res_ok I (body x s')"
  shows "res_ok I (foreach_res body xs s)"
  using assms
proof (induction xs arbitrary: s)
  case Nil
  then show ?case by simp
next
  case (Cons x xs)
  have "res_ok I (body x s)"
    using Cons.prems by simp
  then show ?case
    by (simp, elim res_ok_bind) (use Cons in auto)
qed

end
