(* ===== verification/Stream.thy ===== *)
theory Stream
  imports Prelude
begin

text \<open>
  Buffers and the reading stream: src/src/utils/str.h, src/src/utils/stream.h and the reads
  of src/src/utils/mem_util.h.

  A \<open>str\<close> is the bytes it refers to (the buffers are read-only and outlive it; the null
  string is \<open>[]\<close>).  A \<open>stream\<close> is a buffer and the offset of its reading position from the
  buffer's start, so \<open>st->p - st->s.ptr\<close> is \<open>st_p st\<close>.  A reader returns the value with
  the stream after the read.  Reading through a stream whose position is outside its
  buffer is \<open>Fault\<close>; the theorems show that no reader leads there.

  The LEB128 decoders exist twice in the code: checked ones, with loops over
  \<open>LEB_MAX_LEN\<close> bytes, for the parser and the validator, and unrolled unchecked ones for
  the interpreters.  Theory \<open>Leb128\<close> relates both to what LEB128 means.  The locale \<open>reader\<close> is what the users of the stream rely on: a reader that
  does not fail moves the position forward inside the same buffer.
\<close>

section \<open>Buffers and streams\<close>

type_synonym str = "u8 list"

definition str_is_null :: "str \<Rightarrow> bool" where
  "str_is_null s = (length s = 0)"

definition str_eq :: "str \<Rightarrow> str \<Rightarrow> bool" where
  "str_eq s1 s2 = (length s1 = length s2 \<and> take (length s1) s1 = take (length s1) s2)"

record stream =
  st_s :: str
  st_p :: nat

definition stream_from :: "str \<Rightarrow> stream" where
  "stream_from s = \<lparr>st_s = s, st_p = 0\<rparr>"

definition stream_is_valid :: "stream \<Rightarrow> bool" where
  "stream_is_valid st = (st_p st \<le> length (st_s st))"

definition stream_remaining :: "stream \<Rightarrow> nat" where
  "stream_remaining st = length (st_s st) - st_p st"

definition stream_advance :: "stream \<Rightarrow> nat \<Rightarrow> stream" where
  "stream_advance st n = st\<lparr>st_p := st_p st + n\<rparr>"

abbreviation byte_at :: "stream \<Rightarrow> nat \<Rightarrow> u8" where
  "byte_at st i \<equiv> st_s st ! (st_p st + i)"

definition stream_read_u32 :: "stream \<Rightarrow> (u32 \<times> stream) res" where
  "stream_read_u32 st =
     (if \<not> stream_is_valid st then Inl Fault
      else if stream_remaining st < 4 then Inl E_malformed
      else Inr (ucast (byte_at st 0) OR push_bit 8 (ucast (byte_at st 1)) OR
                push_bit 16 (ucast (byte_at st 2)) OR push_bit 24 (ucast (byte_at st 3)),
                stream_advance st 4))"

definition stream_peek_u8 :: "stream \<Rightarrow> u8 res" where
  "stream_peek_u8 st =
     (if \<not> stream_is_valid st then Inl Fault
      else if stream_remaining st < 1 then Inl E_malformed
      else Inr (byte_at st 0))"

definition stream_read_u8 :: "stream \<Rightarrow> (u8 \<times> stream) res" where
  "stream_read_u8 st = unwrap (stream_peek_u8 st) (\<lambda>u. Inr (u, stream_advance st 1))"

definition stream_slice :: "stream \<Rightarrow> nat \<Rightarrow> (stream \<times> stream) res" where
  "stream_slice st n =
     (if \<not> stream_is_valid st then Inl Fault
      else if stream_remaining st < n then Inl E_malformed
      else Inr (\<lparr>st_s = take n (drop (st_p st) (st_s st)), st_p = 0\<rparr>, stream_advance st n))"

definition stream_seek :: "stream \<Rightarrow> int \<Rightarrow> stream res" where
  "stream_seek st len =
     (let p = int (st_p st) + len in
      if p < 0 \<or> p > int (length (st_s st)) then Inl E_general
      else Inr (st\<lparr>st_p := nat p\<rparr>))"

definition stream_read_vu7 :: "stream \<Rightarrow> (u8 \<times> stream) res" where
  "stream_read_vu7 st =
     (if \<not> stream_is_valid st then Inl Fault
      else if stream_remaining st < 1 then Inl E_malformed
      else let u = byte_at st 0 in
        if u \<ge> 0x80 then Inl E_malformed else Inr (u, stream_advance st 1))"

text \<open>The \<open>i8\<close> result is given as the integer it denotes.\<close>

definition stream_read_vi7 :: "stream \<Rightarrow> (int \<times> stream) res" where
  "stream_read_vi7 st =
     (if \<not> stream_is_valid st then Inl Fault
      else if stream_remaining st < 1 then Inl E_malformed
      else let u = byte_at st 0 in
        if u \<ge> 0x80 then Inl E_malformed
        else Inr (sint (if u AND 0x40 \<noteq> 0 then u OR 0x80 else u), stream_advance st 1))"

text \<open>Little-endian loads; the code's aligned branch is the same load on its hosts.\<close>

definition mem_read_u16 :: "u8 list \<Rightarrow> nat \<Rightarrow> u16" where
  "mem_read_u16 m i = ucast (m ! i) OR push_bit 8 (ucast (m ! (i + 1)))"

definition mem_read_u32 :: "u8 list \<Rightarrow> nat \<Rightarrow> u32" where
  "mem_read_u32 m i =
     ucast (m ! i) OR push_bit 8 (ucast (m ! (i + 1))) OR
     push_bit 16 (ucast (m ! (i + 2))) OR push_bit 24 (ucast (m ! (i + 3)))"

definition mem_read_u64 :: "u8 list \<Rightarrow> nat \<Rightarrow> u64" where
  "mem_read_u64 m i =
     ucast (m ! i) OR push_bit 8 (ucast (m ! (i + 1))) OR
     push_bit 16 (ucast (m ! (i + 2))) OR push_bit 24 (ucast (m ! (i + 3))) OR
     push_bit 32 (ucast (m ! (i + 4))) OR push_bit 40 (ucast (m ! (i + 5))) OR
     push_bit 48 (ucast (m ! (i + 6))) OR push_bit 56 (ucast (m ! (i + 7)))"

text \<open>A float is its bit pattern.\<close>

definition stream_read_f32 :: "stream \<Rightarrow> (u32 \<times> stream) res" where
  "stream_read_f32 st =
     (if \<not> stream_is_valid st then Inl Fault
      else if stream_remaining st < 4 then Inl E_malformed
      else Inr (mem_read_u32 (st_s st) (st_p st), stream_advance st 4))"

definition stream_read_f64 :: "stream \<Rightarrow> (u64 \<times> stream) res" where
  "stream_read_f64 st =
     (if \<not> stream_is_valid st then Inl Fault
      else if stream_remaining st < 8 then Inl E_malformed
      else Inr (mem_read_u64 (st_s st) (st_p st), stream_advance st 8))"

section \<open>LEB128 decoders\<close>

definition LEB_MAX_LEN :: "'a::len itself \<Rightarrow> nat" where
  "LEB_MAX_LEN t = (LENGTH('a) - 1) div 7 + 1"

definition LEB_LAST_BYTE_MASK :: "'a::len itself \<Rightarrow> int" where
  "LEB_LAST_BYTE_MASK t = NOT (push_bit (LENGTH('a) mod 7) 1 - 1)"

function leb_unsigned_loop ::
  "stream \<Rightarrow> nat \<Rightarrow> nat \<Rightarrow> 'a::len word \<Rightarrow> ('a word \<times> stream) res" where
  "leb_unsigned_loop st offset shift result =
     (if offset < LEB_MAX_LEN TYPE('a) \<and> offset < stream_remaining st then
        let b = byte_at st offset;
            result' = result OR push_bit shift (ucast (b AND 0x7f))
        in if b AND 0x80 = 0 then
             if offset + 1 = LEB_MAX_LEN TYPE('a) \<and> uint b AND LEB_LAST_BYTE_MASK TYPE('a) \<noteq> 0
             then Inl E_malformed
             else Inr (result', stream_advance st (offset + 1))
           else leb_unsigned_loop st (offset + 1) (shift + 7) result'
      else Inl E_malformed)"
  by pat_completeness auto
termination
  by (relation "measure (\<lambda>(st, offset, shift, result :: 'a word). stream_remaining st - offset)") auto

declare leb_unsigned_loop.simps [simp del]

definition stream_read_leb_unsigned :: "stream \<Rightarrow> ('a::len word \<times> stream) res" where
  "stream_read_leb_unsigned st =
     (if \<not> stream_is_valid st then Inl Fault else leb_unsigned_loop st 0 0 0)"

definition stream_read_vu32 :: "stream \<Rightarrow> (u32 \<times> stream) res" where
  "stream_read_vu32 st = stream_read_leb_unsigned st"

definition stream_read_vu64 :: "stream \<Rightarrow> (u64 \<times> stream) res" where
  "stream_read_vu64 st = stream_read_leb_unsigned st"

text \<open>
  The signed decoder computes in \<open>utype = u64\<close>: the accumulator is sign-extended, combined
  and truncated again in every assignment.
\<close>

function leb_signed_loop ::
  "stream \<Rightarrow> nat \<Rightarrow> nat \<Rightarrow> 'a::len word \<Rightarrow> ('a word \<times> stream) res" where
  "leb_signed_loop st offset shift result =
     (if offset < LEB_MAX_LEN TYPE('a) \<and> offset < stream_remaining st then
        let b = byte_at st offset;
            result' = ucast ((scast result :: u64) OR push_bit shift (ucast (b AND 0x7f)));
            shift' = shift + 7
        in if b AND 0x80 = 0 then
             if offset + 1 = LEB_MAX_LEN TYPE('a) \<and>
                (if b AND 0x40 = 0
                 then uint b AND drop_bit 1 (LEB_LAST_BYTE_MASK TYPE('a)) \<noteq> 0
                 else uint (NOT (b OR 0x80)) AND drop_bit 1 (LEB_LAST_BYTE_MASK TYPE('a)) \<noteq> 0)
             then Inl E_malformed
             else Inr (if shift' < LENGTH('a) \<and> b AND 0x40 \<noteq> 0
                       then ucast ((scast result' :: u64) OR push_bit shift' (- 1)) else result',
                       stream_advance st (offset + 1))
           else leb_signed_loop st (offset + 1) shift' result'
      else Inl E_malformed)"
  by pat_completeness auto
termination
  by (relation "measure (\<lambda>(st, offset, shift, result :: 'a word). stream_remaining st - offset)") auto

declare leb_signed_loop.simps [simp del]

definition stream_read_leb_signed :: "stream \<Rightarrow> ('a::len word \<times> stream) res" where
  "stream_read_leb_signed st =
     (if \<not> stream_is_valid st then Inl Fault else leb_signed_loop st 0 0 0)"

definition stream_read_vi32 :: "stream \<Rightarrow> (u32 \<times> stream) res" where
  "stream_read_vi32 st = stream_read_leb_signed st"

definition stream_read_vi64 :: "stream \<Rightarrow> (u64 \<times> stream) res" where
  "stream_read_vi64 st = stream_read_leb_signed st"

text \<open>
  The unchecked decoders are straight-line code, one line per byte at the shifts \<open>0, 7, \<dots>\<close>.
  Every line adds \<open>b << shift\<close>, leaves if the continuation bit is clear and otherwise
  subtracts \<open>0x80 << shift\<close>; the last line does not subtract.  \<open>m\<close> is the memory \<open>ptr\<close>
  points into; a load outside it is \<open>Fault\<close>.
\<close>

fun vu_unchecked_lines :: "nat list \<Rightarrow> u8 list \<Rightarrow> nat \<Rightarrow> 'a::len word \<Rightarrow> ('a word \<times> nat) res" where
  "vu_unchecked_lines [] m ptr result = Inr (result, ptr)"
| "vu_unchecked_lines (s # ss) m ptr result =
     (if length m \<le> ptr then Inl Fault
      else let b = ucast (m ! ptr); result' = result + push_bit s b in
        if b AND 0x80 = 0 then Inr (result', ptr + 1)
        else if ss = [] then Inr (result', ptr + 1)
        else vu_unchecked_lines ss m (ptr + 1) (result' - push_bit s 0x80))"

definition stream_read_vu32_unchecked :: "u8 list \<Rightarrow> nat \<Rightarrow> (u32 \<times> nat) res" where
  "stream_read_vu32_unchecked m p = vu_unchecked_lines [0, 7, 14, 21, 28] m p 0"

definition stream_read_vu64_unchecked :: "u8 list \<Rightarrow> nat \<Rightarrow> (u64 \<times> nat) res" where
  "stream_read_vu64_unchecked m p = vu_unchecked_lines [0, 7, 14, 21, 28, 35, 42, 49, 56, 63] m p 0"

text \<open>
  The signed lines leave with \<open>shift\<close> set to the number of bits read and sign-extend at
  \<open>done\<close>; the last line leaves to \<open>done_last_byte\<close>, past the extension, or falls through
  with \<open>shift = 0\<close> when its continuation bit is set.
\<close>

fun vi_unchecked_lines :: "nat list \<Rightarrow> u8 list \<Rightarrow> nat \<Rightarrow> 'a::len word \<Rightarrow> ('a word \<times> nat) res" where
  "vi_unchecked_lines [] m ptr result = Inr (result, ptr)"
| "vi_unchecked_lines (s # ss) m ptr result =
     (if length m \<le> ptr then Inl Fault
      else let b = ucast (m ! ptr); result' = result + push_bit s b in
        if ss = [] then
          Inr (if b AND 0x80 = 0 then result'
               else if b AND 0x40 \<noteq> 0 then result' OR push_bit 0 (- 1) else result', ptr + 1)
        else if b AND 0x80 = 0 then
          Inr (if b AND 0x40 \<noteq> 0 then result' OR push_bit (s + 7) (- 1) else result', ptr + 1)
        else vi_unchecked_lines ss m (ptr + 1) (result' - push_bit s 0x80))"

definition stream_read_vi32_unchecked :: "u8 list \<Rightarrow> nat \<Rightarrow> (u32 \<times> nat) res" where
  "stream_read_vi32_unchecked m p = vi_unchecked_lines [0, 7, 14, 21, 28] m p 0"

definition stream_read_vi64_unchecked :: "u8 list \<Rightarrow> nat \<Rightarrow> (u64 \<times> nat) res" where
  "stream_read_vi64_unchecked m p = vi_unchecked_lines [0, 7, 14, 21, 28, 35, 42, 49, 56, 63] m p 0"

section \<open>The reader contract\<close>

definition stream_moved :: "stream \<Rightarrow> stream \<Rightarrow> bool" where
  "stream_moved st st' \<longleftrightarrow>
     st_s st' = st_s st \<and> st_p st \<le> st_p st' \<and> st_p st' \<le> length (st_s st)"

lemma stream_moved_refl: "stream_is_valid st \<Longrightarrow> stream_moved st st"
  by (simp add: stream_moved_def stream_is_valid_def)

lemma stream_moved_trans: "stream_moved st st' \<Longrightarrow> stream_moved st' st'' \<Longrightarrow> stream_moved st st''"
  by (auto simp: stream_moved_def)

lemma stream_moved_valid: "stream_moved st st' \<Longrightarrow> stream_is_valid st'"
  by (simp add: stream_moved_def stream_is_valid_def)

lemma stream_from_valid [simp]: "stream_is_valid (stream_from s)"
  by (simp add: stream_is_valid_def stream_from_def)

lemma stream_moved_advance:
  "stream_moved st (stream_advance st n) \<longleftrightarrow> st_p st + n \<le> length (st_s st)"
  by (simp add: stream_moved_def stream_advance_def)

lemma stream_slice_ok:
  "stream_is_valid st \<Longrightarrow>
   res_ok (\<lambda>(sl, st'). stream_moved st st' \<and> st_p st' = st_p st + n \<and> st_p sl = 0 \<and>
              st_s sl = take n (drop (st_p st) (st_s st)) \<and> length (st_s sl) = n \<and> stream_is_valid sl)
     (stream_slice st n)"
  by (auto simp: stream_slice_def stream_moved_def stream_advance_def stream_remaining_def stream_is_valid_def)

lemma stream_seek_forward_ok:
  "stream_is_valid st \<Longrightarrow> 0 \<le> len \<Longrightarrow> res_ok (stream_moved st) (stream_seek st len)"
  by (auto simp: stream_seek_def stream_moved_def stream_is_valid_def Let_def)

lemma stream_peek_u8_ok: "stream_is_valid st \<Longrightarrow> res_ok (\<lambda>_. st_p st < length (st_s st)) (stream_peek_u8 st)"
  by (auto simp: stream_peek_u8_def stream_remaining_def)

text \<open>A reader fails cleanly or moves forward by at least one byte.\<close>

locale reader =
  fixes rd :: "stream \<Rightarrow> ('a \<times> stream) res"
  assumes read_ok:
    "stream_is_valid st \<Longrightarrow> res_ok (\<lambda>(x, st'). stream_moved st st' \<and> st_p st < st_p st') (rd st)"
    and read_defined: "\<not> stream_is_valid st \<Longrightarrow> rd st = Inl Fault"
begin

lemma read_bind:
  assumes "stream_is_valid st"
    and "\<And>x st'. rd st = Inr (x, st') \<Longrightarrow> stream_moved st st' \<Longrightarrow> stream_is_valid st' \<Longrightarrow>
           st_p st < st_p st' \<Longrightarrow> res_ok Q (f (x, st'))"
  shows "res_ok Q (unwrap (rd st) f)"
  by (rule res_ok_bind_pair [OF read_ok [OF assms(1)]]) (auto intro: assms(2) stream_moved_valid)

lemma read_out:
  assumes "stream_is_valid st"
    and "\<And>x st'. rd st = Inr (x, st') \<Longrightarrow> stream_moved st st' \<Longrightarrow> stream_is_valid st' \<Longrightarrow>
           st_p st < st_p st' \<Longrightarrow> res_out F Q (f (x, st'))"
  shows "res_out F Q (unwrap (rd st) f)"
  by (rule res_out_ok_bind [OF read_ok [OF assms(1)]]) (auto intro: assms(2) stream_moved_valid)

lemma read_moved:
  "stream_is_valid st \<Longrightarrow> rd st = Inr (x, st') \<Longrightarrow> stream_moved st st' \<and> st_p st < st_p st'"
  using res_okD [OF read_ok] by fastforce

lemma read_remaining:
  "rd st = Inr (x, st') \<Longrightarrow> stream_remaining st' < stream_remaining st"
  using read_moved [of st x st'] read_defined [of st]
  by (cases "stream_is_valid st") (auto simp: stream_remaining_def stream_moved_def)

lemma read_safe: "stream_is_valid st \<Longrightarrow> rd st \<noteq> Inl Fault"
  by (rule res_ok_noFault [OF read_ok])

lemma read_many_ok:
  assumes "stream_is_valid st"
  shows "res_ok (\<lambda>st'. stream_moved st st' \<and> st_p st + n \<le> st_p st')
    (for_res i n (\<lambda>_ s. unwrap (rd s) (\<lambda>(_, s'). Inr s')) st)"
  using assms
proof (induction n arbitrary: i st)
  case 0
  then show ?case by (simp add: stream_moved_refl)
next
  case (Suc n)
  show ?case
    unfolding for_res.simps unwrap_assoc
  proof (rule read_bind [OF Suc.prems], simp)
    fix st' assume st': "stream_moved st st'" "stream_is_valid st'" "st_p st < st_p st'"
    show "res_ok (\<lambda>s. stream_moved st s \<and> Suc (st_p st + n) \<le> st_p s)
        (for_res (Suc i) n (\<lambda>_ s. unwrap (rd s) (\<lambda>(_, s'). Inr s')) st')"
      by (rule res_ok_mono [OF Suc.IH [OF st'(2)]])
        (use st' in \<open>auto intro: stream_moved_trans\<close>)
  qed
qed

end

lemmas fixed_reads =
  stream_read_u32_def stream_peek_u8_def stream_read_u8_def stream_read_vu7_def stream_read_vi7_def
  stream_read_f32_def stream_read_f64_def stream_moved_def stream_advance_def stream_remaining_def
  stream_is_valid_def

interpretation rd_u32: reader stream_read_u32
  by unfold_locales (auto simp: fixed_reads)

interpretation rd_u8: reader stream_read_u8
  by unfold_locales (auto simp: fixed_reads)

interpretation rd_vu7: reader stream_read_vu7
  by unfold_locales (auto simp: fixed_reads Let_def)

interpretation rd_vi7: reader stream_read_vi7
  by unfold_locales (auto simp: fixed_reads Let_def)

interpretation rd_f32: reader stream_read_f32
  by unfold_locales (auto simp: fixed_reads)

interpretation rd_f64: reader stream_read_f64
  by unfold_locales (auto simp: fixed_reads)

lemma leb_unsigned_loop_ok:
  "stream_is_valid st \<Longrightarrow>
   res_ok (\<lambda>(x, st'). stream_moved st st' \<and> st_p st < st_p st') (leb_unsigned_loop st offset shift result)"
proof (induction st offset shift result rule: leb_unsigned_loop.induct)
  case (1 st offset shift result)
  then show ?case
    by (subst leb_unsigned_loop.simps, unfold Let_def, intro res_ok_if)
      (auto simp: stream_moved_def stream_advance_def stream_remaining_def)
qed

lemma leb_signed_loop_ok:
  "stream_is_valid st \<Longrightarrow>
   res_ok (\<lambda>(x, st'). stream_moved st st' \<and> st_p st < st_p st') (leb_signed_loop st offset shift result)"
proof (induction st offset shift result rule: leb_signed_loop.induct)
  case (1 st offset shift result)
  then show ?case
    by (subst leb_signed_loop.simps, unfold Let_def, intro res_ok_if)
      (auto simp: stream_moved_def stream_advance_def stream_remaining_def)
qed

interpretation rd_vu32: reader stream_read_vu32
  by unfold_locales (simp_all add: stream_read_vu32_def stream_read_leb_unsigned_def leb_unsigned_loop_ok)

interpretation rd_vu64: reader stream_read_vu64
  by unfold_locales (simp_all add: stream_read_vu64_def stream_read_leb_unsigned_def leb_unsigned_loop_ok)

interpretation rd_vi32: reader stream_read_vi32
  by unfold_locales (simp_all add: stream_read_vi32_def stream_read_leb_signed_def leb_signed_loop_ok)

interpretation rd_vi64: reader stream_read_vi64
  by unfold_locales (simp_all add: stream_read_vi64_def stream_read_leb_signed_def leb_signed_loop_ok)

lemmas [res_wp] =
  rd_u32.read_bind rd_u8.read_bind rd_vu7.read_bind rd_vi7.read_bind rd_f32.read_bind rd_f64.read_bind
  rd_vu32.read_bind rd_vu64.read_bind rd_vi32.read_bind rd_vi64.read_bind

lemmas [out_wp] =
  rd_u32.read_out rd_u8.read_out rd_vu7.read_out rd_vi7.read_out rd_f32.read_out rd_f64.read_out
  rd_vu32.read_out rd_vu64.read_out rd_vi32.read_out rd_vi64.read_out

end
