(* ===== verification/Leb128.thy ===== *)
theory Leb128
  imports Stream
begin

text \<open>
  LEB128: what an encoding denotes (\<open>leb_spec\<close>, \<open>sleb_spec\<close>), that the checked decoders of
  src/src/utils/stream.h compute exactly that and reject everything else, and that the
  unrolled unchecked decoders of the interpreters return the same value and position
  wherever the checked ones accept.
\<close>

section \<open>What LEB128 means\<close>

text \<open>The length of the encoding at the head of a byte sequence, and the number it denotes.\<close>

fun leb_len :: "u8 list \<Rightarrow> nat option" where
  "leb_len [] = None"
| "leb_len (b # bs) = (if unat b < 128 then Some 1 else map_option Suc (leb_len bs))"

fun leb_nat :: "u8 list \<Rightarrow> nat" where
  "leb_nat [] = 0"
| "leb_nat (b # bs) = unat b mod 128 + 128 * leb_nat bs"

definition leb_int :: "u8 list \<Rightarrow> int" where
  "leb_int bs =
     (if 64 \<le> unat (last bs) mod 128 then int (leb_nat bs) - 128 ^ length bs else int (leb_nat bs))"

text \<open>
  A reader of \<open>w\<close>-bit integers accepts an encoding of at most \<open>\<lceil>w/7\<rceil>\<close> bytes whose value
  fits, and yields the value and the number of bytes.
\<close>

definition leb_spec :: "nat \<Rightarrow> u8 list \<Rightarrow> (nat \<times> nat) option" where
  "leb_spec w bs =
     (case leb_len bs of
        None \<Rightarrow> None
      | Some n \<Rightarrow> if n \<le> (w - 1) div 7 + 1 \<and> leb_nat (take n bs) < 2 ^ w
                  then Some (leb_nat (take n bs), n) else None)"

definition sleb_spec :: "nat \<Rightarrow> u8 list \<Rightarrow> (int \<times> nat) option" where
  "sleb_spec w bs =
     (case leb_len bs of
        None \<Rightarrow> None
      | Some n \<Rightarrow> if n \<le> (w - 1) div 7 + 1 \<and>
                    - (2 ^ (w - 1)) \<le> leb_int (take n bs) \<and> leb_int (take n bs) < 2 ^ (w - 1)
                  then Some (leb_int (take n bs), n) else None)"


section \<open>Words from digits\<close>

lemma int_or_push_bit:
  fixes v c :: int
  assumes "0 \<le> v" "v < 2 ^ s"
  shows "v OR push_bit s c = v + 2 ^ s * c"
proof -
  have tb: "take_bit s v = v"
    using assms by (simp add: take_bit_int_eq_self_iff)
  have "v + push_bit s c = v OR push_bit s c"
  proof (rule disjunctive_add)
    fix n
    have "bit v n \<Longrightarrow> n < s"
      using tb bit_take_bit_iff [of s v n] by simp
    then show "\<not> bit v n \<or> \<not> bit (push_bit s c) n"
      by (auto simp: bit_push_bit_iff)
  qed
  then show ?thesis
    by (simp add: push_bit_eq_mult mult.commute)
qed

lemma word_or_push_bit:
  assumes "0 \<le> v" "v < 2 ^ s"
  shows "(of_int v :: 'a::len word) OR push_bit s (of_int c) = of_int (v + 2 ^ s * c)"
proof -
  have "(of_int v :: 'a word) OR push_bit s (of_int c) = of_int (v OR push_bit s c)"
    by (simp add: of_int_or_eq push_bit_of_int)
  then show ?thesis
    by (simp only: int_or_push_bit [OF assms])
qed

lemma word_or_push_bit_nat:
  "v < 2 ^ s \<Longrightarrow> (of_nat v :: 'a::len word) OR push_bit s (of_nat c) = of_nat (v + 2 ^ s * c)"
  using word_or_push_bit [of "int v" s "int c", where 'a = 'a] by (simp add: zless_nat_eq_int_zless)

lemma ucast_low7: "(ucast (b AND 0x7f :: u8) :: 'a::len word) = of_nat (unat b mod 128)"
proof -
  have "b AND 0x7f = take_bit 7 b"
    by (simp add: take_bit_eq_mask mask_eq_exp_minus_1)
  then have "unat (b AND 0x7f) = take_bit 7 (unat b)"
    by (simp only: unsigned_take_bit_eq)
  then have "unat (b AND 0x7f) = unat b mod 128"
    by (simp add: take_bit_eq_mod)
  then show ?thesis
    by (simp add: unsigned_word_eqI of_nat_unat flip: \<open>unat (b AND 0x7f) = unat b mod 128\<close>)
qed

lemma bit_u8_iff: "bit (b :: u8) n \<longleftrightarrow> odd (unat b div 2 ^ n)"
proof -
  have "bit b n \<longleftrightarrow> bit (unat b) n"
    by (auto simp: bit_unsigned_iff dest: bit_imp_possible_bit)
  then show ?thesis
    by (simp add: bit_iff_odd)
qed

lemma uint_less_power_iff: "uint (b :: 'a::len word) < 2 ^ k \<longleftrightarrow> unat b < 2 ^ k"
  by (simp only: uint_nat of_nat_less_numeral_power_cancel_iff)

lemma ucast_ucast_u8: "(ucast (ucast (x :: u8) :: u64) :: 'a::len word) = ucast x"
  by (rule bit_word_eqI) (auto simp: bit_simps dest: bit_imp_le_length)

lemma and_80_iff: "(b :: u8) AND 0x80 = 0 \<longleftrightarrow> unat b < 128"
proof -
  have "unat b < 256"
    using unsigned_less [of b, where 'a = nat] by simp
  then have "unat b div 128 = (if 128 \<le> unat b then 1 else 0)"
    by auto
  then show ?thesis
    using and_exp_eq_0_iff_not_bit [of b 7] bit_u8_iff [of b 7] by simp
qed

lemma and_40_iff: "(b :: u8) AND 0x40 = 0 \<longleftrightarrow> unat b mod 128 < 64"
proof -
  have "unat b mod 128 = 64 * (unat b div 64 mod 2) + unat b mod 64"
    using mod_mult2_eq [of "unat b" 64 2] by simp
  then have "odd (unat b div 64) \<longleftrightarrow> 64 \<le> unat b mod 128"
    by (cases "odd (unat b div 64)") (simp_all add: odd_iff_mod_2_eq_one not_le even_iff_mod_2_eq_zero)
  then show ?thesis
    using and_exp_eq_0_iff_not_bit [of b 6] bit_u8_iff [of b 6] by (simp add: not_le)
qed

lemma int_and_not_mask_iff:
  fixes x :: int
  assumes "0 \<le> x"
  shows "x AND NOT (mask r) = 0 \<longleftrightarrow> x < 2 ^ r"
proof -
  have "x AND NOT (mask r) = 0 \<longleftrightarrow> take_bit r x = x"
    by (auto simp: bit_eq_iff bit_simps)
  then show ?thesis
    using assms by (simp add: take_bit_int_eq_self_iff)
qed

section \<open>Values of encodings\<close>

lemma leb_nat_snoc: "leb_nat (bs @ [b]) = leb_nat bs + 128 ^ length bs * (unat b mod 128)"
  by (induction bs) (simp_all add: algebra_simps)

lemma leb_nat_less: "leb_nat bs < 128 ^ length bs"
proof (induction bs)
  case (Cons b bs)
  have "unat b mod 128 + 128 * leb_nat bs < 128 * (leb_nat bs + 1)"
    by simp
  also have "\<dots> \<le> 128 * 128 ^ length bs"
    using Cons by (intro mult_le_mono2) simp
  finally show ?case by simp
qed simp

lemma leb_len_bounds: "leb_len bs = Some n \<Longrightarrow> 0 < n \<and> n \<le> length bs"
  by (induction bs arbitrary: n) (auto split: if_splits)

lemma take_Suc_snoc: "n < length bs \<Longrightarrow> take (Suc n) bs = take n bs @ [bs ! n]"
  by (rule take_Suc_conv_app_nth)

text \<open>Digits of a width \<open>w\<close>: \<open>w = 7 * k + r\<close> with \<open>0 < r < 7\<close>; 32 and 64 are of this shape.\<close>

lemma leb_nat_last_iff:
  assumes "length bs = k" and "unat b < 128"
  shows "leb_nat (bs @ [b]) < 2 ^ (7 * k + r) \<longleftrightarrow> unat b < 2 ^ r"
proof -
  have eq: "leb_nat (bs @ [b]) = leb_nat bs + 128 ^ k * unat b"
    using assms by (simp add: leb_nat_snoc)
  have pow: "(2::nat) ^ (7 * k + r) = 128 ^ k * 2 ^ r"
    by (simp add: power_add power_mult)
  have lt: "leb_nat bs < 128 ^ k"
    using leb_nat_less [of bs] assms by simp
  show ?thesis
  proof
    assume "unat b < 2 ^ r"
    then have "128 ^ k * (unat b + 1) \<le> (128::nat) ^ k * 2 ^ r"
      by (intro mult_le_mono2) simp
    with lt show "leb_nat (bs @ [b]) < 2 ^ (7 * k + r)"
      unfolding eq pow by (simp add: algebra_simps)
  next
    assume "leb_nat (bs @ [b]) < 2 ^ (7 * k + r)"
    then have "128 ^ k * unat b < (128::nat) ^ k * 2 ^ r"
      unfolding eq pow by linarith
    then show "unat b < 2 ^ r" by simp
  qed
qed

section \<open>The checked decoders\<close>

lemma split_by_7: "(w::nat) mod 7 \<noteq> 0 \<Longrightarrow> w = 7 * ((w - 1) div 7) + w mod 7"
proof -
  assume r: "w mod 7 \<noteq> 0"
  have "w - 1 = 7 * (w div 7) + (w mod 7 - 1)"
    using r mult_div_mod_eq [of 7 w] by linarith
  then have "(w - 1) div 7 = w div 7 + (w mod 7 - 1) div 7"
    by simp
  moreover have "(w mod 7 - 1) div 7 = 0"
    using mod_less_divisor [of 7 w] by (intro div_less) linarith
  ultimately show ?thesis
    by simp
qed

lemma leb_max_len_split:
  assumes "LENGTH('a::len) mod 7 \<noteq> 0"
  shows "LENGTH('a) = 7 * (LEB_MAX_LEN TYPE('a) - 1) + LENGTH('a) mod 7"
  using split_by_7 [OF assms] by (simp add: LEB_MAX_LEN_def)

lemma last_byte_mask: "LEB_LAST_BYTE_MASK TYPE('a::len) = NOT (mask (LENGTH('a) mod 7))"
  by (simp add: LEB_LAST_BYTE_MASK_def mask_eq_exp_minus_1)

text \<open>What the loops find from the byte at \<open>offset\<close> on, after \<open>offset\<close> continued bytes.\<close>

definition leb_from :: "nat \<Rightarrow> u8 list \<Rightarrow> nat \<Rightarrow> nat option" where
  "leb_from m bs offset =
     (case leb_len (drop offset bs) of None \<Rightarrow> None
      | Some k \<Rightarrow> if offset + k \<le> m then Some (offset + k) else None)"

lemma leb_from_unfold:
  "leb_from m bs offset =
     (if offset < m \<and> offset < length bs then
        if unat (bs ! offset) < 128 then Some (offset + 1) else leb_from m bs (offset + 1)
      else None)"
proof (cases "offset < length bs")
  case True
  then have "drop offset bs = bs ! offset # drop (offset + 1) bs"
    by (simp add: Cons_nth_drop_Suc)
  then show ?thesis
    using True by (auto simp: leb_from_def split: option.splits dest!: leb_len_bounds)
next
  case False
  then show ?thesis by (simp add: leb_from_def)
qed

lemma leb_from_bounds: "leb_from m bs offset = Some n \<Longrightarrow> offset < n \<and> n \<le> m \<and> n \<le> length bs"
  by (auto simp: leb_from_def split: option.splits if_splits dest: leb_len_bounds)

lemma leb_step:
  assumes "offset < length bs"
  shows "(of_nat (leb_nat (take offset bs)) :: 'a::len word) OR
      push_bit (7 * offset) (ucast (bs ! offset AND 0x7f)) = of_nat (leb_nat (take (offset + 1) bs))"
proof -
  have lt: "leb_nat (take offset bs) < 2 ^ (7 * offset)"
    using leb_nat_less [of "take offset bs"] assms by (simp add: power_mult)
  show ?thesis
    unfolding ucast_low7 word_or_push_bit_nat [OF lt]
    using assms by (simp add: take_Suc_snoc leb_nat_snoc power_mult)
qed

lemma leb_fits_below_max:
  assumes "LENGTH('a::len) mod 7 \<noteq> 0" and "n < LEB_MAX_LEN TYPE('a)" and "length bs = n"
  shows "leb_nat bs < 2 ^ LENGTH('a)"
proof -
  have "leb_nat bs < 2 ^ (7 * n)"
    using leb_nat_less [of bs] assms by (simp add: power_mult)
  also have "(2::nat) ^ (7 * n) \<le> 2 ^ LENGTH('a)"
    by (rule power_increasing) (use assms leb_max_len_split [where 'a = 'a] in linarith)+
  finally show ?thesis .
qed

lemma leb_last_byte_ok:
  assumes w: "LENGTH('a::len) mod 7 \<noteq> 0" and n: "offset + 1 = LEB_MAX_LEN TYPE('a)"
    and len: "offset < length bs" and b: "unat (bs ! offset) < 128"
  shows "uint (bs ! offset) AND LEB_LAST_BYTE_MASK TYPE('a) = 0 \<longleftrightarrow>
    leb_nat (take (offset + 1) bs) < 2 ^ LENGTH('a)"
proof -
  have "uint (bs ! offset) AND LEB_LAST_BYTE_MASK TYPE('a) = 0 \<longleftrightarrow>
      uint (bs ! offset) < 2 ^ (LENGTH('a) mod 7)"
    by (simp add: last_byte_mask int_and_not_mask_iff)
  also have "\<dots> \<longleftrightarrow> unat (bs ! offset) < 2 ^ (LENGTH('a) mod 7)"
    by (rule uint_less_power_iff)
  also have "\<dots> \<longleftrightarrow> leb_nat (take offset bs @ [bs ! offset]) < 2 ^ (7 * offset + LENGTH('a) mod 7)"
    by (rule leb_nat_last_iff [symmetric]) (use len b in auto)
  also have "7 * offset + LENGTH('a) mod 7 = LENGTH('a)"
    by (rule trans [OF _ leb_max_len_split [OF w, symmetric]]) (simp flip: n)
  finally show ?thesis
    using len by (simp add: take_Suc_snoc)
qed

lemma leb_unsigned_loop_eq:
  assumes w: "LENGTH('a::len) mod 7 \<noteq> 0"
    and bs: "bs = drop (st_p st) (st_s st)" "stream_is_valid st"
  shows "offset \<le> length bs \<Longrightarrow>
    leb_unsigned_loop st offset (7 * offset) (of_nat (leb_nat (take offset bs)) :: 'a word) =
    (case leb_from (LEB_MAX_LEN TYPE('a)) bs offset of
       None \<Rightarrow> Inl E_malformed
     | Some n \<Rightarrow> if leb_nat (take n bs) < 2 ^ LENGTH('a)
                 then Inr (of_nat (leb_nat (take n bs)), stream_advance st n) else Inl E_malformed)"
proof (induction "length bs - offset" arbitrary: offset rule: less_induct)
  case less
  have rem: "stream_remaining st = length bs"
    by (simp add: bs stream_remaining_def)
  have byte: "byte_at st offset = bs ! offset" if "offset < length bs"
    using that bs(2) unfolding bs(1) by (simp add: stream_is_valid_def)
  show ?case
  proof (cases "offset < LEB_MAX_LEN TYPE('a) \<and> offset < length bs")
    case False
    then show ?thesis
      by (subst leb_unsigned_loop.simps, subst leb_from_unfold) (auto simp: rem)
  next
    case True
    then have IH: "\<not> unat (bs ! offset) < 128 \<Longrightarrow>
        leb_unsigned_loop st (offset + 1) (7 * (offset + 1)) (of_nat (leb_nat (take (offset + 1) bs)) :: 'a word) =
        (case leb_from (LEB_MAX_LEN TYPE('a)) bs (offset + 1) of
           None \<Rightarrow> Inl E_malformed
         | Some n \<Rightarrow> if leb_nat (take n bs) < 2 ^ LENGTH('a)
                     then Inr (of_nat (leb_nat (take n bs)), stream_advance st n) else Inl E_malformed)"
      by (intro less.hyps) auto
    have last: "offset + 1 \<noteq> LEB_MAX_LEN TYPE('a) \<Longrightarrow> leb_nat (take (offset + 1) bs) < 2 ^ LENGTH('a)"
      by (rule leb_fits_below_max [OF w, of "offset + 1"]) (use True in auto)
    have step: "leb_unsigned_loop st offset (7 * offset) (of_nat (leb_nat (take offset bs)) :: 'a word) =
      (if unat (bs ! offset) < 128 then
         if offset + 1 = LEB_MAX_LEN TYPE('a) \<and> uint (bs ! offset) AND LEB_LAST_BYTE_MASK TYPE('a) \<noteq> 0
         then Inl E_malformed
         else Inr (of_nat (leb_nat (take (offset + 1) bs)), stream_advance st (offset + 1))
       else leb_unsigned_loop st (offset + 1) (7 * (offset + 1)) (of_nat (leb_nat (take (offset + 1) bs))))"
      by (subst leb_unsigned_loop.simps) (use True in \<open>simp add: rem byte Let_def leb_step and_80_iff add.commute [of 7]\<close>)
    show ?thesis
    proof (cases "unat (bs ! offset) < 128")
      case lt: True
      then show ?thesis
        using True last leb_last_byte_ok [OF w _ _ lt] unfolding step leb_from_unfold [of _ _ offset]
        by (cases "offset + 1 = LEB_MAX_LEN TYPE('a)") simp_all
    next
      case False
      then show ?thesis
        using True IH [OF False] unfolding step leb_from_unfold [of _ _ offset] by simp
    qed
  qed
qed

theorem leb_unsigned_eq:
  assumes "LENGTH('a::len) mod 7 \<noteq> 0" and "stream_is_valid st"
  shows "stream_read_leb_unsigned st =
    (case leb_spec LENGTH('a) (drop (st_p st) (st_s st)) of
       None \<Rightarrow> Inl E_malformed
     | Some (v, n) \<Rightarrow> Inr (of_nat v :: 'a word, stream_advance st n))"
proof -
  let ?bs = "drop (st_p st) (st_s st)"
  have "leb_from (LEB_MAX_LEN TYPE('a)) ?bs 0 =
      (case leb_len ?bs of None \<Rightarrow> None
       | Some n \<Rightarrow> if n \<le> (LENGTH('a) - 1) div 7 + 1 then Some n else None)"
    by (auto simp: leb_from_def LEB_MAX_LEN_def split: option.splits)
  then show ?thesis
    using leb_unsigned_loop_eq [OF assms(1) refl assms(2), of 0] assms(2)
    by (auto simp: stream_read_leb_unsigned_def leb_spec_def split: option.splits)
qed

subsection \<open>Signed\<close>

lemma widen_or_narrow:
  assumes "LENGTH('a::len) \<le> 64"
  shows "(ucast ((scast (r :: 'a word) :: u64) OR push_bit s x) :: 'a word) = r OR push_bit s (ucast x)"
  by (rule bit_word_eqI) (use assms in \<open>auto simp: bit_simps\<close>)

lemma narrow_minus_1: "LENGTH('a::len) \<le> 64 \<Longrightarrow> (ucast (- 1 :: u64) :: 'a word) = - 1"
  by (rule bit_word_eqI) (auto simp: bit_simps)

lemma word_sign_extend:
  assumes "v < 2 ^ s"
  shows "(of_nat v :: 'a::len word) OR push_bit s (- 1) = of_int (int v - 2 ^ s)"
  using word_or_push_bit [of "int v" s "- 1", where 'a = 'a] assms
  by simp

lemma leb_int_snoc:
  "leb_int (bs @ [b]) =
     int (leb_nat bs) + 128 ^ length bs * (int (unat b mod 128) - (if 64 \<le> unat b mod 128 then 128 else 0))"
  by (simp add: leb_int_def leb_nat_snoc algebra_simps)

lemma int_power_bound:
  fixes l c :: int
  assumes "0 \<le> l" "l < K"
  shows "l + K * c < K * m \<longleftrightarrow> c < m" and "K * m \<le> l + K * c \<longleftrightarrow> m \<le> c"
proof -
  have K: "0 < K" using assms by linarith
  show lt: "l + K * c < K * m \<longleftrightarrow> c < m"
  proof
    assume "c < m"
    then have "K * (c + 1) \<le> K * m" using K by (intro mult_left_mono) auto
    then show "l + K * c < K * m" using assms by (simp add: algebra_simps)
  next
    assume "l + K * c < K * m"
    then have "K * c < K * m" using assms by linarith
    then show "c < m" using K by simp
  qed
  then show "K * m \<le> l + K * c \<longleftrightarrow> m \<le> c"
    by (meson not_le)
qed

text \<open>The value of an encoding whose last byte is the last one the width allows.\<close>

lemma leb_int_last_iff:
  assumes k: "length bs = k" and b: "unat b < 128" and r: "r < 7"
  shows "- (2 ^ (7 * k + r)) \<le> leb_int (bs @ [b]) \<and> leb_int (bs @ [b]) < 2 ^ (7 * k + r) \<longleftrightarrow>
    (if unat b < 64 then unat b < 2 ^ r else 127 - unat b < 2 ^ r)"
proof -
  let ?K = "(128 :: int) ^ k" and ?l = "int (leb_nat bs)"
  let ?c = "int (unat b) - (if 64 \<le> unat b then 128 else 0)"
  have l: "0 \<le> ?l" "?l < ?K"
    using leb_nat_less [of bs] k by (simp_all add: zless_nat_eq_int_zless)
  have v: "leb_int (bs @ [b]) = ?l + ?K * ?c"
    using k b by (simp add: leb_int_snoc)
  have pow: "(2::int) ^ (7 * k + r) = ?K * 2 ^ r" "- ((2::int) ^ (7 * k + r)) = ?K * (- (2 ^ r))"
    by (simp_all add: power_add power_mult)
  have "- (2 ^ (7 * k + r)) \<le> leb_int (bs @ [b]) \<and> leb_int (bs @ [b]) < 2 ^ (7 * k + r) \<longleftrightarrow>
      - (2 ^ r) \<le> ?c \<and> ?c < 2 ^ r"
    unfolding v pow using int_power_bound(1) [OF l, where c = ?c and m = "2 ^ r"]
      int_power_bound(2) [OF l, where c = ?c and m = "- (2 ^ r)"]
    by (simp only: mult_minus_right)
  also have "\<dots> \<longleftrightarrow> (if unat b < 64 then unat b < 2 ^ r else 127 - unat b < 2 ^ r)"
  proof (cases "unat b < 64")
    case True
    have "- (2 ^ r) \<le> int (unat b)" by (rule order_trans [of _ 0]) simp_all
    with True show ?thesis by (simp add: uint_less_power_iff)
  next
    case False
    then have "127 - unat b < 2 ^ r \<longleftrightarrow> int (127 - unat b) < 2 ^ r"
      by (simp only: of_nat_less_numeral_power_cancel_iff)
    moreover have "?c < 0" "(0::int) < 2 ^ r"
      using False b uint_less_power_iff [of b 7] by simp_all
    ultimately show ?thesis
      using False b by auto
  qed
  finally show ?thesis .
qed

lemma leb_int_fits_below_max:
  assumes w: "LENGTH('a::len) mod 7 \<noteq> 0" and n: "n < LEB_MAX_LEN TYPE('a)" and bs: "length bs = n" "bs \<noteq> []"
    and b: "unat (last bs) < 128"
  shows "- (2 ^ (LENGTH('a) - 1)) \<le> leb_int bs \<and> leb_int bs < 2 ^ (LENGTH('a) - 1)"
proof -
  let ?m = "7 * (n - 1) + 6"
  have split: "bs = butlast bs @ [last bs]" using bs by simp
  have "- (2 ^ ?m) \<le> leb_int bs \<and> leb_int bs < 2 ^ ?m"
    by (subst (1 2) split, subst leb_int_last_iff) (use bs b in auto)
  moreover have "(2::int) ^ ?m \<le> 2 ^ (LENGTH('a) - 1)"
    by (rule power_increasing)
      (use n bs leb_max_len_split [OF w] in \<open>cases n; simp\<close>)+
  ultimately show ?thesis by linarith
qed

lemma signed_last_byte_ok:
  assumes w: "LENGTH('a::len) mod 7 \<noteq> 0" and n: "offset + 1 = LEB_MAX_LEN TYPE('a)"
    and len: "offset < length bs" and b: "unat (bs ! offset) < 128"
  shows "(if bs ! offset AND 0x40 = 0
          then uint (bs ! offset) AND drop_bit 1 (LEB_LAST_BYTE_MASK TYPE('a)) \<noteq> 0
          else uint (NOT (bs ! offset OR 0x80)) AND drop_bit 1 (LEB_LAST_BYTE_MASK TYPE('a)) \<noteq> 0) \<longleftrightarrow>
    \<not> (- (2 ^ (LENGTH('a) - 1)) \<le> leb_int (take (offset + 1) bs) \<and>
       leb_int (take (offset + 1) bs) < 2 ^ (LENGTH('a) - 1))"
proof -
  let ?b = "bs ! offset" and ?r = "LENGTH('a) mod 7 - 1"
  have mask: "drop_bit 1 (LEB_LAST_BYTE_MASK TYPE('a)) = NOT (mask ?r)"
    using w by (auto simp: last_byte_mask bit_eq_iff bit_simps)
  have neg: "unat (NOT (?b OR 0x80)) = 127 - unat ?b"
  proof -
    have "?b OR 0x80 = ?b + 0x80"
      by (rule disjunctive_add_eq_or [symmetric])
        (use b and_80_iff [of ?b] in simp)
    then have "NOT (?b OR 0x80) = 127 - ?b"
      by (simp add: not_eq_complement)
    then show ?thesis
      using b by (simp add: unat_sub word_le_nat_alt)
  qed
  have pos: "uint ?b AND drop_bit 1 (LEB_LAST_BYTE_MASK TYPE('a)) \<noteq> 0 \<longleftrightarrow> \<not> unat ?b < 2 ^ ?r"
    unfolding mask by (simp only: int_and_not_mask_iff uint_ge_0 uint_less_power_iff not_not)
  have neg': "uint (NOT (?b OR 0x80)) AND drop_bit 1 (LEB_LAST_BYTE_MASK TYPE('a)) \<noteq> 0 \<longleftrightarrow>
      \<not> 127 - unat ?b < 2 ^ ?r"
    unfolding mask by (simp only: int_and_not_mask_iff uint_ge_0 uint_less_power_iff neg not_not)
  have len1: "LENGTH('a) - 1 = 7 * offset + ?r"
  proof -
    have "7 * offset + LENGTH('a) mod 7 = LENGTH('a)"
      by (rule trans [OF _ leb_max_len_split [OF w(1), symmetric]]) (simp flip: n)
    then show ?thesis using w by linarith
  qed
  have tk: "take (offset + 1) bs = take offset bs @ [?b]"
    using len by (simp add: take_Suc_snoc)
  have "?r < 7" and "length (take offset bs) = offset"
    using len by auto
  then show ?thesis
    using leb_int_last_iff [of "take offset bs" offset ?b ?r] b
    unfolding pos neg' and_40_iff len1 tk by simp
qed

lemma leb_sign_extended:
  assumes "offset < length bs"
  defines "v \<equiv> leb_nat (take (offset + 1) bs)"
  shows "(if 7 * offset + 7 < LENGTH('a::len) \<and> bs ! offset AND 0x40 \<noteq> 0
          then (of_nat v :: 'a word) OR push_bit (7 * offset + 7) (- 1) else of_nat v) =
    of_int (leb_int (take (offset + 1) bs))"
proof -
  have tk: "take (offset + 1) bs = take offset bs @ [bs ! offset]"
    using assms by (simp add: take_Suc_snoc)
  have int: "leb_int (take (offset + 1) bs) =
      (if bs ! offset AND 0x40 \<noteq> 0 then int v - 2 ^ (7 * offset + 7) else int v)"
    unfolding v_def and_40_iff using assms(1)
    by (simp add: take_Suc_snoc leb_int_def power_add power_mult not_less)
  have lt: "v < 2 ^ (7 * offset + 7)"
    unfolding v_def using leb_nat_less [of "take (offset + 1) bs"] assms(1)
    by (simp add: power_add power_mult)
  have zero: "(2 :: 'a word) ^ (7 * offset + 7) = 0" if "\<not> 7 * offset + 7 < LENGTH('a)"
    using that by (metis not_le_imp_less exp_eq_zero_iff)
  show ?thesis
    unfolding int using word_sign_extend [OF lt, where 'a = 'a] zero by auto
qed

lemma leb_signed_loop_eq:
  assumes w: "LENGTH('a::len) mod 7 \<noteq> 0" "LENGTH('a) \<le> 64"
    and bs: "bs = drop (st_p st) (st_s st)" "stream_is_valid st"
  shows "offset \<le> length bs \<Longrightarrow>
    leb_signed_loop st offset (7 * offset) (of_nat (leb_nat (take offset bs)) :: 'a word) =
    (case leb_from (LEB_MAX_LEN TYPE('a)) bs offset of
       None \<Rightarrow> Inl E_malformed
     | Some n \<Rightarrow> if - (2 ^ (LENGTH('a) - 1)) \<le> leb_int (take n bs) \<and>
                    leb_int (take n bs) < 2 ^ (LENGTH('a) - 1)
                 then Inr (of_int (leb_int (take n bs)), stream_advance st n) else Inl E_malformed)"
    (is "_ \<Longrightarrow> _ = ?rhs offset")
proof (induction "length bs - offset" arbitrary: offset rule: less_induct)
  case less
  have rem: "stream_remaining st = length bs"
    by (simp add: bs stream_remaining_def)
  have byte: "byte_at st offset = bs ! offset" if "offset < length bs"
    using that bs(2) unfolding bs(1) by (simp add: stream_is_valid_def)
  show ?case
  proof (cases "offset < LEB_MAX_LEN TYPE('a) \<and> offset < length bs")
    case False
    then show ?thesis
      by (subst leb_signed_loop.simps, subst leb_from_unfold) (auto simp: rem)
  next
    case True
    let ?b = "bs ! offset" and ?v = "leb_nat (take (offset + 1) bs)"
    let ?bad = "if ?b AND 0x40 = 0
          then uint ?b AND drop_bit 1 (LEB_LAST_BYTE_MASK TYPE('a)) \<noteq> 0
          else uint (NOT (?b OR 0x80)) AND drop_bit 1 (LEB_LAST_BYTE_MASK TYPE('a)) \<noteq> 0"
    have step: "leb_signed_loop st offset (7 * offset) (of_nat (leb_nat (take offset bs)) :: 'a word) =
      (if unat ?b < 128 then
         if offset + 1 = LEB_MAX_LEN TYPE('a) \<and> ?bad then Inl E_malformed
         else Inr (of_int (leb_int (take (offset + 1) bs)), stream_advance st (offset + 1))
       else leb_signed_loop st (offset + 1) (7 * offset + 7) (of_nat ?v))"
      unfolding leb_sign_extended [OF conjunct2 [OF True], symmetric]
      by (subst leb_signed_loop.simps)
        (simp only: True rem byte [OF conjunct2 [OF True]] Let_def and_80_iff simp_thms if_True
           widen_or_narrow [OF w(2)] ucast_ucast_u8 narrow_minus_1 [OF w(2)] leb_step [OF conjunct2 [OF True]])
    show ?thesis
    proof (cases "unat ?b < 128")
      case lt: True
      have fits: "- (2 ^ (LENGTH('a) - 1)) \<le> leb_int (take (offset + 1) bs) \<and>
          leb_int (take (offset + 1) bs) < 2 ^ (LENGTH('a) - 1)"
        if "offset + 1 \<noteq> LEB_MAX_LEN TYPE('a)"
        by (rule leb_int_fits_below_max [OF w(1), of "offset + 1"])
          (use True that lt in \<open>auto simp: take_Suc_snoc\<close>)
      show ?thesis
        using True lt fits signed_last_byte_ok [OF w(1) _ _ lt]
        unfolding step leb_from_unfold [of _ _ offset]
        by (cases "offset + 1 = LEB_MAX_LEN TYPE('a)") simp_all
    next
      case False
      have "length bs - (offset + 1) < length bs - offset"
        using True by linarith
      then have "leb_signed_loop st (offset + 1) (7 * offset + 7) (of_nat ?v) = ?rhs (offset + 1)"
        using less.hyps [of "offset + 1"] True by (simp add: add.commute [of 7])
      with False True show ?thesis
        unfolding step leb_from_unfold [of _ _ offset] by simp
    qed
  qed
qed

theorem leb_signed_eq:
  assumes "LENGTH('a::len) mod 7 \<noteq> 0" "LENGTH('a) \<le> 64" and "stream_is_valid st"
  shows "stream_read_leb_signed st =
    (case sleb_spec LENGTH('a) (drop (st_p st) (st_s st)) of
       None \<Rightarrow> Inl E_malformed
     | Some (v, n) \<Rightarrow> Inr (of_int v :: 'a word, stream_advance st n))"
proof -
  let ?bs = "drop (st_p st) (st_s st)"
  have "leb_from (LEB_MAX_LEN TYPE('a)) ?bs 0 =
      (case leb_len ?bs of None \<Rightarrow> None
       | Some n \<Rightarrow> if n \<le> (LENGTH('a) - 1) div 7 + 1 then Some n else None)"
    by (auto simp: leb_from_def LEB_MAX_LEN_def split: option.splits)
  then show ?thesis
    using leb_signed_loop_eq [OF assms(1,2) refl assms(3), of 0] assms(3)
    by (auto simp: stream_read_leb_signed_def sleb_spec_def split: option.splits)
qed

section \<open>The unchecked decoders\<close>

lemma ucast_and_bit:
  assumes "8 \<le> LENGTH('a::len)"
  shows "(ucast (b :: u8) :: 'a word) AND 0x80 = 0 \<longleftrightarrow> unat b < 128"
    and "(ucast b :: 'a word) AND 0x40 = 0 \<longleftrightarrow> b AND 0x40 = 0"
proof -
  have "bit (ucast b :: 'a word) 7 \<longleftrightarrow> bit b 7" "bit (ucast b :: 'a word) 6 \<longleftrightarrow> bit b 6"
    using assms by (auto simp: bit_simps)
  then show "(ucast b :: 'a word) AND 0x80 = 0 \<longleftrightarrow> unat b < 128"
    and "(ucast b :: 'a word) AND 0x40 = 0 \<longleftrightarrow> b AND 0x40 = 0"
    using and_exp_eq_0_iff_not_bit [of "ucast b :: 'a word" 7] and_exp_eq_0_iff_not_bit [of b 7]
      and_exp_eq_0_iff_not_bit [of "ucast b :: 'a word" 6] and_exp_eq_0_iff_not_bit [of b 6]
      and_80_iff [of b] by simp_all
qed

text \<open>One line of an unchecked decoder adds the same digit as one round of a checked loop.\<close>

lemma unchecked_line:
  assumes "k < length bs"
  shows "unat (bs ! k) < 128 \<Longrightarrow>
      (of_nat (leb_nat (take k bs)) :: 'a::len word) + push_bit (7 * k) (ucast (bs ! k)) =
      of_nat (leb_nat (take (k + 1) bs))"
    and "\<not> unat (bs ! k) < 128 \<Longrightarrow>
      (of_nat (leb_nat (take k bs)) :: 'a::len word) + push_bit (7 * k) (ucast (bs ! k)) - push_bit (7 * k) 0x80 =
      of_nat (leb_nat (take (k + 1) bs))"
proof -
  let ?b = "unat (bs ! k)"
  have ucast: "(ucast (bs ! k) :: 'a word) = of_nat ?b"
    by simp
  have pb: "push_bit (7 * k) x = 128 ^ k * x" for x :: "'a word"
    by (simp only: push_bit_eq_mult power_mult) (simp add: mult.commute)
  have v: "(of_nat (leb_nat (take (k + 1) bs)) :: 'a word) =
      of_nat (leb_nat (take k bs)) + 128 ^ k * of_nat (?b mod 128)"
    using assms by (simp add: take_Suc_snoc leb_nat_snoc)
  show "(of_nat (leb_nat (take k bs)) :: 'a word) + push_bit (7 * k) (ucast (bs ! k)) =
      of_nat (leb_nat (take (k + 1) bs))" if "?b < 128"
    unfolding v pb ucast using that by simp
  have "?b < 256"
    using unsigned_less [of "bs ! k", where 'a = nat] by simp
  then have "\<not> ?b < 128 \<Longrightarrow> ?b = ?b mod 128 + 128"
    by (simp add: le_mod_geq)
  then have "\<not> ?b < 128 \<Longrightarrow> (of_nat ?b :: 'a word) = of_nat (?b mod 128) + 128"
    by (metis of_nat_add of_nat_numeral)
  then show "(of_nat (leb_nat (take k bs)) :: 'a word) + push_bit (7 * k) (ucast (bs ! k)) -
      push_bit (7 * k) 0x80 = of_nat (leb_nat (take (k + 1) bs))" if "\<not> ?b < 128"
    unfolding v pb ucast using that by (simp add: distrib_left)
qed

lemma vu_unchecked_lines_eq:
  assumes w: "8 \<le> LENGTH('a::len)" and bs: "bs = drop p m" "p \<le> length m"
  shows "k \<le> length bs \<Longrightarrow> leb_from M bs k = Some n \<Longrightarrow>
    vu_unchecked_lines (map (\<lambda>i. 7 * i) [k..<M]) m (p + k) (of_nat (leb_nat (take k bs)) :: 'a word) =
    Inr (of_nat (leb_nat (take n bs)), p + n)"
proof (induction "M - k" arbitrary: k rule: less_induct)
  case less
  from less.prems have k: "k < M" "k < length bs"
    by (auto dest: leb_from_bounds)
  then have mem: "\<not> length m \<le> p + k" "m ! (p + k) = bs ! k"
    using bs by (auto simp: add.commute)
  have upt: "map (\<lambda>i. 7 * i) [k..<M] = 7 * k # map (\<lambda>i. 7 * i) [k + 1..<M]"
    using k by (simp add: upt_conv_Cons)
  show ?case
  proof (cases "unat (bs ! k) < 128")
    case True
    then have "n = k + 1"
      using less.prems(2) k by (subst (asm) leb_from_unfold) simp
    with True show ?thesis
      using unchecked_line(1) [OF k(2) True, where 'a = 'a]
      by (simp add: upt mem ucast_and_bit [OF w] Let_def)
  next
    case False
    then have from_next: "leb_from M bs (k + 1) = Some n"
      using less.prems(2) k by (subst (asm) leb_from_unfold) simp
    then have "k + 1 < M"
      by (auto dest: leb_from_bounds)
    then have "vu_unchecked_lines (map (\<lambda>i. 7 * i) [k + 1..<M]) m (p + (k + 1))
        (of_nat (leb_nat (take (k + 1) bs)) :: 'a word) = Inr (of_nat (leb_nat (take n bs)), p + n)"
      using from_next k by (intro less.hyps) auto
    then show ?thesis
      using False \<open>k + 1 < M\<close> unchecked_line(2) [OF k(2) False, where 'a = 'a]
      by (simp add: upt mem ucast_and_bit [OF w] Let_def)
  qed
qed

lemma vi_unchecked_lines_eq:
  assumes w: "8 \<le> LENGTH('a::len)" "LENGTH('a) mod 7 \<noteq> 0" and bs: "bs = drop p m" "p \<le> length m"
    and M: "M = LEB_MAX_LEN TYPE('a)"
  shows "k \<le> length bs \<Longrightarrow> leb_from M bs k = Some n \<Longrightarrow>
    vi_unchecked_lines (map (\<lambda>i. 7 * i) [k..<M]) m (p + k) (of_nat (leb_nat (take k bs)) :: 'a word) =
    Inr (of_int (leb_int (take n bs)), p + n)"
proof (induction "M - k" arbitrary: k rule: less_induct)
  case less
  from less.prems have k: "k < M" "k < length bs"
    by (auto dest: leb_from_bounds)
  then have mem: "\<not> length m \<le> p + k" "m ! (p + k) = bs ! k"
    using bs by (auto simp: add.commute)
  have upt: "map (\<lambda>i. 7 * i) [k..<M] = 7 * k # map (\<lambda>i. 7 * i) [k + 1..<M]"
    using k by (simp add: upt_conv_Cons)
  have last: "[k + 1..<M] = [] \<longleftrightarrow> \<not> 7 * k + 7 < LENGTH('a)"
    using k leb_max_len_split [OF w(2)] mod_less_divisor [of 7 "LENGTH('a)"] w(2) unfolding M by auto
  show ?case
  proof (cases "unat (bs ! k) < 128")
    case True
    then have "n = k + 1"
      using less.prems(2) k by (subst (asm) leb_from_unfold) simp
    with True show ?thesis
      using unchecked_line(1) [OF k(2) True, where 'a = 'a] leb_sign_extended [OF k(2), where 'a = 'a] last
      by (auto simp: upt mem ucast_and_bit [OF w(1)] Let_def simp del: upt_eq_Nil_conv split: if_splits)
  next
    case False
    then have from_next: "leb_from M bs (k + 1) = Some n"
      using less.prems(2) k by (subst (asm) leb_from_unfold) simp
    then have "k + 1 < M"
      by (auto dest: leb_from_bounds)
    then have "vi_unchecked_lines (map (\<lambda>i. 7 * i) [k + 1..<M]) m (p + (k + 1))
        (of_nat (leb_nat (take (k + 1) bs)) :: 'a word) = Inr (of_int (leb_int (take n bs)), p + n)"
      using from_next k by (intro less.hyps) auto
    then show ?thesis
      using False \<open>k + 1 < M\<close> unchecked_line(2) [OF k(2) False, where 'a = 'a]
      by (simp add: upt mem ucast_and_bit [OF w(1)] Let_def)
  qed
qed

lemma leb_spec_from:
  "leb_spec LENGTH('a::len) bs = Some (v, n) \<Longrightarrow>
   leb_from (LEB_MAX_LEN TYPE('a)) bs 0 = Some n \<and> v = leb_nat (take n bs)"
  "sleb_spec LENGTH('a) bs = Some (i, n) \<Longrightarrow>
   leb_from (LEB_MAX_LEN TYPE('a)) bs 0 = Some n \<and> i = leb_int (take n bs)"
  by (auto simp: leb_spec_def sleb_spec_def leb_from_def LEB_MAX_LEN_def split: option.splits if_splits)

lemma leb_widths:
  "LENGTH(32) mod 7 \<noteq> 0" "LENGTH(64) mod 7 \<noteq> 0" "LENGTH(32) \<le> 64" "LENGTH(64) \<le> 64"
  "8 \<le> LENGTH(32)" "8 \<le> LENGTH(64)" "LEB_MAX_LEN TYPE(32) = 5" "LEB_MAX_LEN TYPE(64) = 10"
  by (simp_all add: LEB_MAX_LEN_def)

lemma line_shifts:
  "[0, 7, 14, 21, 28] = map (\<lambda>i. 7 * i :: nat) [0..<5]"
  "[0, 7, 14, 21, 28, 35, 42, 49, 56, 63] = map (\<lambda>i. 7 * i :: nat) [0..<10]"
  by (simp_all add: upt_rec)

lemma vu_unchecked_agrees:
  assumes "8 \<le> LENGTH('a::len)" "LENGTH('a) mod 7 \<noteq> 0" "stream_is_valid st"
    and "stream_read_leb_unsigned st = Inr (v :: 'a word, st')"
  shows "vu_unchecked_lines (map (\<lambda>i. 7 * i) [0..<LEB_MAX_LEN TYPE('a)]) (st_s st) (st_p st) 0 = Inr (v, st_p st')"
  using assms(4) vu_unchecked_lines_eq [OF assms(1) refl, of "st_p st" "st_s st" 0 "LEB_MAX_LEN TYPE('a)"]
  unfolding leb_unsigned_eq [OF assms(2,3)]
  by (auto split: option.splits simp: stream_advance_def assms(3) [unfolded stream_is_valid_def]
      dest!: leb_spec_from(1))

lemma vi_unchecked_agrees:
  assumes "8 \<le> LENGTH('a::len)" "LENGTH('a) mod 7 \<noteq> 0" "LENGTH('a) \<le> 64" "stream_is_valid st"
    and "stream_read_leb_signed st = Inr (v :: 'a word, st')"
  shows "vi_unchecked_lines (map (\<lambda>i. 7 * i) [0..<LEB_MAX_LEN TYPE('a)]) (st_s st) (st_p st) 0 = Inr (v, st_p st')"
  using assms(5) vi_unchecked_lines_eq [OF assms(1,2) refl _ refl, of "st_p st" "st_s st" 0]
  unfolding leb_signed_eq [OF assms(2,3,4)]
  by (auto split: option.splits simp: stream_advance_def assms(4) [unfolded stream_is_valid_def]
      dest!: leb_spec_from(2))

section \<open>Round trip\<close>

text \<open>The canonical (shortest) encoding, as a producer of wasm binaries writes it.\<close>

fun leb_encode :: "nat \<Rightarrow> u8 list" where
  "leb_encode n = (if n < 128 then [of_nat n] else of_nat (128 + n mod 128) # leb_encode (n div 128))"

declare leb_encode.simps [simp del]

lemma leb_encode_len_nat:
  "leb_len (leb_encode n @ rest) = Some (length (leb_encode n)) \<and> leb_nat (leb_encode n) = n"
proof (induction n rule: leb_encode.induct)
  case (1 n)
  show ?case
  proof (cases "n < 128")
    case True
    then show ?thesis
      by (simp add: leb_encode.simps [of n] unat_of_nat)
  next
    case False
    have "(128 + n mod 128) mod 256 = 128 + n mod 128"
      by (rule mod_less) (use mod_less_divisor [of 128 n] in linarith)
    then have "unat (of_nat (128 + n mod 128) :: u8) = 128 + n mod 128"
      by (simp only: unat_of_nat) simp
    with False 1 show ?thesis
      by (simp add: leb_encode.simps [of n] del: of_nat_add)
  qed
qed

lemma leb_encode_length: "n < 128 ^ Suc k \<Longrightarrow> length (leb_encode n) \<le> Suc k"
proof (induction k arbitrary: n)
  case 0
  then show ?case by (simp add: leb_encode.simps)
next
  case (Suc k)
  have "n div 128 < 128 ^ Suc k"
    using Suc.prems by (simp add: less_mult_imp_div_less mult.commute)
  then show ?case
    using Suc.IH [of "n div 128"] by (simp add: leb_encode.simps [of n])
qed

lemma leb_spec_encode:
  assumes "n < 2 ^ w" "0 < w" "w mod 7 \<noteq> 0"
  shows "leb_spec w (leb_encode n @ rest) = Some (n, length (leb_encode n))"
proof -
  have "w \<le> 7 * Suc ((w - 1) div 7)"
  proof -
    have "w mod 7 < 7" by simp
    then have "7 * ((w - 1) div 7) + w mod 7 \<le> 7 * Suc ((w - 1) div 7)" by simp
    then show ?thesis using split_by_7 [OF assms(3)] by (rule ord_eq_le_trans [rotated])
  qed
  then have "(2::nat) ^ w \<le> 2 ^ (7 * Suc ((w - 1) div 7))"
    by (rule power_increasing) simp
  with assms(1) have "n < 2 ^ (7 * Suc ((w - 1) div 7))"
    by (rule less_le_trans)
  also have "(2::nat) ^ (7 * Suc ((w - 1) div 7)) = 128 ^ Suc ((w - 1) div 7)"
    by (simp only: power_mult) simp
  finally have "n < 128 ^ Suc ((w - 1) div 7)" .
  then show ?thesis
    using leb_encode_length leb_encode_len_nat [of n rest] assms(1) by (simp add: leb_spec_def)
qed

section \<open>Properties\<close>

text \<open>
  C1: the four checked decoders of the parser and the validator compute LEB128.  On a valid
  stream each returns the denoted value, reduced to its width, with the position after the
  encoding exactly when an encoding of at most \<open>LEB_MAX_LEN\<close> bytes with a value in the range
  of the type is at the position, and the malformed error otherwise.
\<close>

theorem checked_leb_decoders:
  assumes "stream_is_valid st"
  defines "bs \<equiv> drop (st_p st) (st_s st)"
  shows "stream_read_vu32 st = (case leb_spec 32 bs of None \<Rightarrow> Inl E_malformed
           | Some (v, n) \<Rightarrow> Inr (of_nat v, stream_advance st n)) \<and>
         stream_read_vu64 st = (case leb_spec 64 bs of None \<Rightarrow> Inl E_malformed
           | Some (v, n) \<Rightarrow> Inr (of_nat v, stream_advance st n)) \<and>
         stream_read_vi32 st = (case sleb_spec 32 bs of None \<Rightarrow> Inl E_malformed
           | Some (v, n) \<Rightarrow> Inr (of_int v, stream_advance st n)) \<and>
         stream_read_vi64 st = (case sleb_spec 64 bs of None \<Rightarrow> Inl E_malformed
           | Some (v, n) \<Rightarrow> Inr (of_int v, stream_advance st n))"
  using leb_unsigned_eq [OF leb_widths(1) assms(1)] leb_unsigned_eq [OF leb_widths(2) assms(1)]
    leb_signed_eq [OF leb_widths(1,3) assms(1)] leb_signed_eq [OF leb_widths(2,4) assms(1)]
  unfolding bs_def stream_read_vu32_def stream_read_vu64_def stream_read_vi32_def stream_read_vi64_def
  by simp

theorem checked_leb_decoders_witness:
  "stream_is_valid (stream_from [0xe5, 0x8e, 0x26]) \<and>
   stream_read_vu32 (stream_from [0xe5, 0x8e, 0x26]) =
     Inr (624485, stream_advance (stream_from [0xe5, 0x8e, 0x26]) 3)"
proof -
  have v: "stream_is_valid (stream_from [0xe5, 0x8e, 0x26])"
    by (simp add: stream_is_valid_def stream_from_def)
  show ?thesis
    using v checked_leb_decoders [OF v] by (simp add: stream_from_def leb_spec_def stream_advance_def)
qed

text \<open>
  C2: the unrolled decoders the interpreters use agree with the checked ones: wherever a
  checked decoder accepts, the unchecked one reads no byte outside the buffer and returns
  the same value and the same position.
\<close>

theorem unchecked_leb_agrees:
  assumes "stream_is_valid st"
  shows "(stream_read_vu32 st = Inr (a, st1) \<longrightarrow>
           stream_read_vu32_unchecked (st_s st) (st_p st) = Inr (a, st_p st1)) \<and>
         (stream_read_vi32 st = Inr (b, st2) \<longrightarrow>
           stream_read_vi32_unchecked (st_s st) (st_p st) = Inr (b, st_p st2)) \<and>
         (stream_read_vu64 st = Inr (c, st3) \<longrightarrow>
           stream_read_vu64_unchecked (st_s st) (st_p st) = Inr (c, st_p st3)) \<and>
         (stream_read_vi64 st = Inr (d, st4) \<longrightarrow>
           stream_read_vi64_unchecked (st_s st) (st_p st) = Inr (d, st_p st4))"
  using vu_unchecked_agrees [OF leb_widths(5,1) assms, of a st1]
    vu_unchecked_agrees [OF leb_widths(6,2) assms, of c st3]
    vi_unchecked_agrees [OF leb_widths(5,1,3) assms, of b st2]
    vi_unchecked_agrees [OF leb_widths(6,2,4) assms, of d st4]
  unfolding stream_read_vu32_def stream_read_vu64_def stream_read_vi32_def stream_read_vi64_def
    stream_read_vu32_unchecked_def stream_read_vu64_unchecked_def stream_read_vi32_unchecked_def
    stream_read_vi64_unchecked_def line_shifts leb_widths(7,8)
  by simp

theorem unchecked_leb_agrees_witness:
  "stream_read_vi32_unchecked [0x80, 0x7f] 0 = Inr (- 128, 2) \<and>
   stream_read_vi32 (stream_from [0x80, 0x7f]) = Inr (- 128, stream_advance (stream_from [0x80, 0x7f]) 2)"
proof -
  have v: "stream_is_valid (stream_from [0x80, 0x7f])"
    by (simp add: stream_is_valid_def stream_from_def)
  have c: "stream_read_vi32 (stream_from [0x80, 0x7f]) =
      Inr (- 128, stream_advance (stream_from [0x80, 0x7f]) 2)"
    unfolding stream_read_vi32_def leb_signed_eq [OF leb_widths(1,3) v]
    by (simp add: stream_from_def sleb_spec_def leb_int_def stream_advance_def)
  show ?thesis
    using c unchecked_leb_agrees [OF v, of 0 _ "- 128" "stream_advance (stream_from [0x80, 0x7f]) 2" 0 _ 0]
    by (simp add: stream_from_def stream_advance_def)
qed

lemma stream_read_vu32_encode:
  assumes "n < 2 ^ 32"
  shows "stream_read_vu32 \<lparr>st_s = pre @ leb_encode n @ post, st_p = length pre\<rparr> =
    Inr (of_nat n, \<lparr>st_s = pre @ leb_encode n @ post, st_p = length pre + length (leb_encode n)\<rparr>)"
  using leb_unsigned_eq [OF leb_widths(1), of "\<lparr>st_s = pre @ leb_encode n @ post, st_p = length pre\<rparr>"]
    leb_spec_encode [OF assms, of post]
  by (simp add: stream_read_vu32_def stream_is_valid_def stream_advance_def)

text \<open>
  C3: decoding is the inverse of the canonical encoding, at any place of any buffer and with
  anything behind it, and the position ends right behind the encoding.
\<close>

theorem vu32_roundtrip:
  assumes "n < 2 ^ 32"
  shows "stream_read_vu32 \<lparr>st_s = pre @ leb_encode n @ post, st_p = length pre\<rparr> =
    Inr (of_nat n, \<lparr>st_s = pre @ leb_encode n @ post, st_p = length pre + length (leb_encode n)\<rparr>)"
  by (rule stream_read_vu32_encode [OF assms])

theorem vu32_roundtrip_witness:
  "(300::nat) < 2 ^ 32 \<and> leb_encode 300 = [0xac, 0x02] \<and>
   stream_read_vu32 \<lparr>st_s = [0x0b, 0xac, 0x02, 0x0b], st_p = 1\<rparr> =
     Inr (300, \<lparr>st_s = [0x0b, 0xac, 0x02, 0x0b], st_p = 3\<rparr>)"
proof -
  have e: "leb_encode 300 = [0xac, 0x02]"
    by (simp add: leb_encode.simps)
  have h: "(300::nat) < 2 ^ 32"
    by simp
  show ?thesis
    using e h vu32_roundtrip [OF h, of "[0x0b]" "[0x0b]"] by simp
qed

end
