(* ===== verification/Utf8.thy ===== *)
theory Utf8
  imports Stream
begin

text \<open>
  The UTF-8 validator of src/src/utils/utf8.c, which the parser applies to every import and
  export name.  The specification is the encoder: a byte string is valid exactly when it is
  the concatenation of the encodings of Unicode scalar values (RFC 3629).
\<close>

section \<open>The validator\<close>

text \<open>The table \<open>s_utf8_length\<close>: the length of the sequence a byte starts, 0 for none.\<close>

definition s_utf8_length :: "nat list" where
  "s_utf8_length =
     replicate 128 1 @ replicate 66 0 @ replicate 30 2 @ replicate 16 3 @ replicate 5 4 @ replicate 11 0"

definition is_cont :: "u8 \<Rightarrow> bool" where
  "is_cont c = (c AND 0xc0 = 0x80)"

function is_valid_utf8_loop :: "u8 list \<Rightarrow> nat \<Rightarrow> bool" where
  "is_valid_utf8_loop s p =
     (if p < length s then
        let cu0 = s ! p; len = s_utf8_length ! unat cu0 in
        if p + len > length s then False
        else if len = 0 then False
        else if len = 1 then is_valid_utf8_loop s (p + 1)
        else if len = 2 then
          (if \<not> is_cont (s ! (p + 1)) then False else is_valid_utf8_loop s (p + 2))
        else if len = 3 then
          (let cu1 = s ! (p + 1); cu2 = s ! (p + 2) in
           if \<not> (is_cont cu1 \<and> is_cont cu2) \<or> (cu0 = 0xe0 \<and> cu1 < 0xa0) \<or> (cu0 = 0xed \<and> cu1 \<ge> 0xa0)
           then False else is_valid_utf8_loop s (p + 3))
        else if len = 4 then
          (let cu1 = s ! (p + 1); cu2 = s ! (p + 2); cu3 = s ! (p + 3) in
           if \<not> (is_cont cu1 \<and> is_cont cu2 \<and> is_cont cu3) \<or> (cu0 = 0xf0 \<and> cu1 < 0x90) \<or>
              (cu0 = 0xf4 \<and> cu1 \<ge> 0x90)
           then False else is_valid_utf8_loop s (p + 4))
        else False
      else True)"
  by pat_completeness auto
termination
  by (relation "measure (\<lambda>(s, p). length s - p)") auto

declare is_valid_utf8_loop.simps [simp del]

definition is_valid_utf8 :: "u8 list \<Rightarrow> bool" where
  "is_valid_utf8 s = is_valid_utf8_loop s 0"

section \<open>What UTF-8 means\<close>

definition is_scalar :: "nat \<Rightarrow> bool" where
  "is_scalar c = (c < 0xd800 \<or> 0xe000 \<le> c \<and> c < 0x110000)"

definition utf8_units :: "nat \<Rightarrow> nat list" where
  "utf8_units c =
     (if c < 0x80 then [c]
      else if c < 0x800 then [0xc0 + c div 64, 0x80 + c mod 64]
      else if c < 0x10000 then [0xe0 + c div 4096, 0x80 + c div 64 mod 64, 0x80 + c mod 64]
      else [0xf0 + c div 262144, 0x80 + c div 4096 mod 64, 0x80 + c div 64 mod 64, 0x80 + c mod 64])"

definition utf8_encode :: "nat \<Rightarrow> u8 list" where
  "utf8_encode c = map of_nat (utf8_units c)"

definition is_utf8 :: "u8 list \<Rightarrow> bool" where
  "is_utf8 bs \<longleftrightarrow> (\<exists>cs. list_all is_scalar cs \<and> bs = concat (map utf8_encode cs))"

section \<open>Correctness\<close>

lemma u8_less_256 [simp]: "unat (b :: u8) < 256"
  using unsigned_less [of b, where 'a = nat] by simp

lemma u8_map_of_nat: "list_all (\<lambda>n. n < 256) ns \<Longrightarrow> (bs :: u8 list) = map of_nat ns \<longleftrightarrow> map unat bs = ns"
proof -
  assume ns: "list_all (\<lambda>n. n < 256) ns"
  have "map unat (map of_nat ns :: u8 list) = ns"
    using ns by (induction ns) (auto simp: unat_of_nat)
  moreover have "map of_nat (map unat bs) = bs"
    by (simp add: o_def)
  ultimately show ?thesis
    by metis
qed

lemma utf8_units_bytes: "is_scalar c \<Longrightarrow> list_all (\<lambda>n. n < 256) (utf8_units c)"
  by (auto simp: utf8_units_def is_scalar_def)

lemma eq_utf8_encode: "is_scalar c \<Longrightarrow> bs = utf8_encode c \<longleftrightarrow> map unat bs = utf8_units c"
  unfolding utf8_encode_def by (rule u8_map_of_nat [OF utf8_units_bytes])

lemma is_cont_iff: "is_cont c \<longleftrightarrow> 0x80 \<le> unat c \<and> unat c < 0xc0"
proof -
  have "\<forall>n \<in> set [0..<256]. (of_nat n :: u8) AND 0xc0 = 0x80 \<longleftrightarrow> 0x80 \<le> n \<and> n < 0xc0"
    by code_simp
  then have "(of_nat (unat c) :: u8) AND 0xc0 = 0x80 \<longleftrightarrow> 0x80 \<le> unat c \<and> unat c < 0xc0"
    using u8_less_256 [of c] by (metis atLeastLessThan_iff le0 set_upt)
  then show ?thesis
    by (simp add: is_cont_def)
qed

lemma utf8_length_eq:
  "n < 256 \<Longrightarrow> s_utf8_length ! n =
     (if n < 0x80 then 1 else if n < 0xc2 then 0 else if n < 0xe0 then 2
      else if n < 0xf0 then 3 else if n < 0xf5 then 4 else 0)"
  by (auto simp add: s_utf8_length_def nth_append)

lemma digit64: "d < 64 \<Longrightarrow> (q * 64 + d) div 64 = q" "d < 64 \<Longrightarrow> (q * 64 + d) mod 64 = d" for d :: nat
  by simp_all

lemma div4096: "c div 4096 = c div 64 div 64" "c div 262144 = c div 64 div 64 div 64" for c :: nat
  by (simp_all add: div_mult2_eq [symmetric])

lemma div_mod_lower:
  fixes c n :: nat
  assumes "c div n div 64 = k" and "m \<le> c div n mod 64"
  shows "(k * 64 + m) * n \<le> c"
proof -
  have "k * 64 + m \<le> c div n"
    using assms div_mult_mod_eq [of "c div n" 64] by linarith
  then have "(k * 64 + m) * n \<le> c div n * n"
    by (rule mult_le_mono1)
  also have "\<dots> \<le> c"
    by (rule div_times_less_eq_dividend)
  finally show ?thesis .
qed

text \<open>Which byte sequences encode a scalar value, by their length.\<close>

lemma units2_iff:
  "(\<exists>c. is_scalar c \<and> utf8_units c = [x0, x1]) \<longleftrightarrow>
     0xc2 \<le> x0 \<and> x0 < 0xe0 \<and> 0x80 \<le> x1 \<and> x1 < 0xc0" (is "?l \<longleftrightarrow> ?r")
proof
  assume ?l
  then show ?r
    by (auto simp: utf8_units_def is_scalar_def split: if_splits)
next
  assume r: ?r
  let ?c = "(x0 - 0xc0) * 64 + (x1 - 0x80)"
  obtain a b where ab: "x0 = 0xc0 + a" "x1 = 0x80 + b"
    using r that [of "x0 - 0xc0" "x1 - 0x80"] by simp
  have "?c div 64 = a" "?c mod 64 = b"
    using r ab by auto
  moreover have "0x80 \<le> ?c" "?c < 0x800" "is_scalar ?c"
    using r ab unfolding is_scalar_def by auto
  ultimately show ?l
    using ab by (intro exI [of _ ?c]) (simp add: utf8_units_def)
qed

lemma units3_iff:
  "(\<exists>c. is_scalar c \<and> utf8_units c = [x0, x1, x2]) \<longleftrightarrow>
     0xe0 \<le> x0 \<and> x0 < 0xf0 \<and> 0x80 \<le> x1 \<and> x1 < 0xc0 \<and> 0x80 \<le> x2 \<and> x2 < 0xc0 \<and>
     \<not> (x0 = 0xe0 \<and> x1 < 0xa0) \<and> \<not> (x0 = 0xed \<and> 0xa0 \<le> x1)" (is "?l \<longleftrightarrow> ?r")
proof
  assume ?l
  then obtain c where c: "is_scalar c" "utf8_units c = [x0, x1, x2]"
    by blast
  have "c div 4096 = 13 \<Longrightarrow> 32 \<le> c div 64 mod 64 \<Longrightarrow> 55296 \<le> c"
    using div_mod_lower [of c 64 13 32] by (simp add: div_mult2_eq [symmetric])
  with c show ?r
    by (auto simp: utf8_units_def is_scalar_def split: if_splits)
next
  assume r: ?r
  let ?c = "((x0 - 0xe0) * 64 + (x1 - 0x80)) * 64 + (x2 - 0x80)"
  obtain a b c where abc: "x0 = 0xe0 + a" "x1 = 0x80 + b" "x2 = 0x80 + c"
    using r by (metis le_iff_add)
  have bounds: "b < 64" "c < 64"
    using r abc by simp_all
  have "?c div 4096 = a" "?c div 64 mod 64 = b" "?c mod 64 = c"
    using bounds by (simp_all only: abc add_diff_cancel_left' digit64 div4096)
  moreover have "a < 13 \<or> a = 13 \<or> 14 \<le> a"
    by linarith
  then have "0x800 \<le> ?c" "?c < 0x10000" "is_scalar ?c"
    using r abc unfolding is_scalar_def by auto
  ultimately show ?l
    using abc by (intro exI [of _ ?c]) (simp add: utf8_units_def)
qed

lemma units4_iff:
  "(\<exists>c. is_scalar c \<and> utf8_units c = [x0, x1, x2, x3]) \<longleftrightarrow>
     0xf0 \<le> x0 \<and> x0 < 0xf5 \<and> 0x80 \<le> x1 \<and> x1 < 0xc0 \<and> 0x80 \<le> x2 \<and> x2 < 0xc0 \<and>
     0x80 \<le> x3 \<and> x3 < 0xc0 \<and>
     \<not> (x0 = 0xf0 \<and> x1 < 0x90) \<and> \<not> (x0 = 0xf4 \<and> 0x90 \<le> x1)" (is "?l \<longleftrightarrow> ?r")
proof
  assume ?l
  then obtain c where c: "is_scalar c" "utf8_units c = [x0, x1, x2, x3]"
    by blast
  have "c div 262144 = 4 \<Longrightarrow> 16 \<le> c div 4096 mod 64 \<Longrightarrow> 1114112 \<le> c"
    using div_mod_lower [of c 4096 4 16] by (simp add: div_mult2_eq [symmetric])
  with c show ?r
    by (auto simp: utf8_units_def is_scalar_def split: if_splits)
next
  assume r: ?r
  let ?c = "(((x0 - 0xf0) * 64 + (x1 - 0x80)) * 64 + (x2 - 0x80)) * 64 + (x3 - 0x80)"
  obtain a b c d where abc: "x0 = 0xf0 + a" "x1 = 0x80 + b" "x2 = 0x80 + c" "x3 = 0x80 + d"
    using r by (metis le_iff_add)
  have bounds: "b < 64" "c < 64" "d < 64"
    using r abc by simp_all
  have "?c div 262144 = a" "?c div 4096 mod 64 = b" "?c div 64 mod 64 = c" "?c mod 64 = d"
    using bounds by (simp_all only: abc add_diff_cancel_left' digit64 div4096)
  moreover have "0x10000 \<le> ?c" "?c < 0x110000" "is_scalar ?c"
    using r abc unfolding is_scalar_def by auto
  ultimately show ?l
    using abc by (intro exI [of _ ?c]) (simp add: utf8_units_def)
qed

text \<open>A non-empty valid string starts with exactly one encoded scalar value.\<close>

lemma is_utf8_Nil: "is_utf8 []"
  unfolding is_utf8_def by (rule exI [of _ "[]"]) simp

lemma utf8_encode_Nil [simp]: "utf8_encode c \<noteq> []"
  by (simp add: utf8_encode_def utf8_units_def)

lemma is_utf8_step:
  "bs \<noteq> [] \<Longrightarrow> is_utf8 bs \<longleftrightarrow> (\<exists>n. (\<exists>c. is_scalar c \<and> utf8_units c = map unat (take n bs)) \<and> is_utf8 (drop n bs))"
  (is "_ \<Longrightarrow> _ \<longleftrightarrow> ?r")
proof
  assume "bs \<noteq> []" "is_utf8 bs"
  then obtain c cs where "is_scalar c" "list_all is_scalar cs" "bs = utf8_encode c @ concat (map utf8_encode cs)"
    unfolding is_utf8_def by (elim exE, case_tac cs) auto
  moreover from this have "utf8_units c = map unat (utf8_encode c)"
    using eq_utf8_encode by metis
  ultimately show ?r
    unfolding is_utf8_def
    by (rule_tac exI [of _ "length (utf8_encode c)"]) auto
next
  assume ?r
  then obtain n c cs where "is_scalar c" "take n bs = utf8_encode c" "list_all is_scalar cs"
    "drop n bs = concat (map utf8_encode cs)"
    unfolding is_utf8_def by (metis eq_utf8_encode)
  then have "bs = concat (map utf8_encode (c # cs))" "list_all is_scalar (c # cs)"
    by (simp_all, metis append_take_drop_id)
  then show "is_utf8 bs"
    unfolding is_utf8_def by blast
qed

lemma units_length:
  "utf8_units c = x # xs \<Longrightarrow> is_scalar c \<Longrightarrow> length (x # xs) = s_utf8_length ! x \<and> x < 256 \<and> 0 < s_utf8_length ! x"
  using utf8_units_bytes [of c]
  by (auto simp: utf8_length_eq) (auto simp: utf8_units_def is_scalar_def split: if_splits)

lemma is_utf8_first:
  assumes "bs \<noteq> []"
  defines "len \<equiv> s_utf8_length ! unat (hd bs)"
  shows "is_utf8 bs \<longleftrightarrow> len \<le> length bs \<and> (\<exists>c. is_scalar c \<and> utf8_units c = map unat (take len bs)) \<and>
           is_utf8 (drop len bs)"
proof -
  have "len = length (take n bs) \<and> 0 < len"
    if "is_scalar c" "utf8_units c = map unat (take n bs)" for n c
  proof (cases "take n bs")
    case Nil
    with that show ?thesis by (simp add: utf8_units_def split: if_splits)
  next
    case (Cons b xs)
    then have "unat b = unat (hd bs)"
      by (metis hd_take list.sel(1) take_eq_Nil2 list.distinct(1) neq0_conv)
    with units_length [of c "unat b" "map unat xs"] that Cons show ?thesis
      by (simp add: len_def)
  qed
  note len = this
  have same: "take n bs = take len bs \<and> drop n bs = drop len bs \<and> len \<le> length bs"
    if "len = length (take n bs)" for n
    using that by (auto simp: min_def)
  show ?thesis
    unfolding is_utf8_step [OF assms(1)] by (metis len same)
qed

lemma units0: "utf8_units c \<noteq> []"
  by (simp add: utf8_units_def)

lemma units1_iff: "(\<exists>c. is_scalar c \<and> utf8_units c = [x0]) \<longleftrightarrow> x0 < 0x80"
proof
  assume "x0 < 0x80"
  then show "\<exists>c. is_scalar c \<and> utf8_units c = [x0]"
    by (intro exI [of _ x0]) (simp add: utf8_units_def is_scalar_def)
qed (auto simp: utf8_units_def split: if_splits)

lemma take_Suc_drop: "p < length s \<Longrightarrow> take (Suc n) (drop p s) = s ! p # take n (drop (Suc p) s)"
  by (simp add: Cons_nth_drop_Suc [symmetric])

lemma take_drop_bytes:
  "p + 1 \<le> length s \<Longrightarrow> take 1 (drop p s) = [s ! p]"
  "p + 2 \<le> length s \<Longrightarrow> take 2 (drop p s) = [s ! p, s ! (p + 1)]"
  "p + 3 \<le> length s \<Longrightarrow> take 3 (drop p s) = [s ! p, s ! (p + 1), s ! (p + 2)]"
  "p + 4 \<le> length s \<Longrightarrow> take 4 (drop p s) = [s ! p, s ! (p + 1), s ! (p + 2), s ! (p + 3)]"
  by (simp_all add: take_Suc_drop numeral_eq_Suc)

lemma u8_order: "(a :: u8) < b \<longleftrightarrow> unat a < unat b" "a \<le> b \<longleftrightarrow> unat a \<le> unat b" "a = b \<longleftrightarrow> unat a = unat b"
  by (simp_all add: word_less_nat_alt word_le_nat_alt word_unat_eq_iff)

lemma is_valid_utf8_loop_iff: "p \<le> length s \<Longrightarrow> is_valid_utf8_loop s p \<longleftrightarrow> is_utf8 (drop p s)"
proof (induction s p rule: is_valid_utf8_loop.induct)
  case (1 s p)
  show ?case
  proof (cases "p < length s")
    case False
    with 1 show ?thesis
      by (simp add: is_valid_utf8_loop.simps is_utf8_Nil)
  next
    case True
    let ?len = "s_utf8_length ! unat (s ! p)"
    have first: "is_utf8 (drop p s) \<longleftrightarrow> p + ?len \<le> length s \<and>
        (\<exists>c. is_scalar c \<and> utf8_units c = map unat (take ?len (drop p s))) \<and> is_utf8 (drop (p + ?len) s)"
      using is_utf8_first [of "drop p s"] True by (simp add: hd_drop_conv_nth add.commute le_diff_conv2)
    have len: "?len = 0 \<or> ?len = 1 \<or> ?len = 2 \<or> ?len = 3 \<or> ?len = 4"
      by (simp add: utf8_length_eq)
    show ?thesis
    proof (cases "p + ?len \<le> length s")
      case False
      with first True show ?thesis
        by (simp add: is_valid_utf8_loop.simps [of s p])
    next
      case inside: True
      show ?thesis
        using len
      proof (elim disjE)
        assume "?len = 0"
        with first True inside show ?thesis
          by (simp add: is_valid_utf8_loop.simps [of s p] units0)
      next
        assume l: "?len = 1"
        have "unat (s ! p) < 0x80"
          using l by (auto simp: utf8_length_eq split: if_splits)
        with first True inside l 1 show ?thesis
          by (simp add: is_valid_utf8_loop.simps [of s p] take_drop_bytes [unfolded One_nat_def] units1_iff)
      next
        assume l: "?len = 2"
        have "0xc2 \<le> unat (s ! p)" "unat (s ! p) < 0xe0"
          using l utf8_length_eq [OF u8_less_256, of "s ! p"] by (simp_all split: if_splits)
        with first True inside l 1 show ?thesis
          by (auto simp: is_valid_utf8_loop.simps [of s p] take_drop_bytes units2_iff is_cont_iff)
      next
        assume l: "?len = 3"
        have "0xe0 \<le> unat (s ! p)" "unat (s ! p) < 0xf0"
          using l utf8_length_eq [OF u8_less_256, of "s ! p"] by (simp_all split: if_splits)
        with first True inside l 1 show ?thesis
          by (simp add: is_valid_utf8_loop.simps [of s p] take_drop_bytes units3_iff is_cont_iff u8_order Let_def) auto
      next
        assume l: "?len = 4"
        have "0xf0 \<le> unat (s ! p)" "unat (s ! p) < 0xf5"
          using l utf8_length_eq [OF u8_less_256, of "s ! p"] by (simp_all split: if_splits)
        with first True inside l 1 show ?thesis
          by (simp add: is_valid_utf8_loop.simps [of s p] take_drop_bytes units4_iff is_cont_iff u8_order Let_def) auto
      qed
    qed
  qed
qed

text \<open>
  C4: the validator accepts a byte string exactly when it is the concatenation of the UTF-8
  encodings of Unicode scalar values: overlong forms, surrogates, values above
  \<open>0x10ffff\<close>, stray continuation bytes and truncated sequences are all refused.
\<close>

theorem is_valid_utf8_correct:
  "is_valid_utf8 s \<longleftrightarrow> (\<exists>cs. list_all is_scalar cs \<and> s = concat (map utf8_encode cs))"
  using is_valid_utf8_loop_iff [of 0 s] by (simp add: is_valid_utf8_def is_utf8_def)

end
