(* ===== verification/Vec.thy ===== *)
theory Vec
  imports Prelude
begin

text \<open>
  The generic vector of src/src/utils/vec.h and src/src/utils/vec_impl.h.

  A \<open>vec\<close> record holds the initialised elements (their number is \<open>_size\<close>), the capacity,
  whether \<open>_data\<close> is non-null, and the \<open>fixed\<close> flag.  \<open>malloc\<close> and \<open>realloc\<close> may refuse a
  request: an operation that allocates takes a function \<open>am\<close> that says whether room for
  a number of elements is granted, so that every out-of-memory return of the code is a
  branch of the model.  Unchecked accesses (\<open>vec_at\<close>, \<open>vec_back\<close>, \<open>vec_pop\<close>) outside the
  vector are \<open>Fault\<close>.

  The locale \<open>growable\<close> is the contract that the users of a vector rely on: an abstract
  list, to which a push appends or fails cleanly.  It is interpreted on these operations.
\<close>

section \<open>Operations\<close>

record 'a vec =
  vdata :: "'a list"
  vcap :: nat
  vnonnull :: bool
  vfixed :: bool

definition vec_empty :: "'a vec" where
  "vec_empty = \<lparr>vdata = [], vcap = 0, vnonnull = False, vfixed = False\<rparr>"

definition vec_size :: "'a vec \<Rightarrow> nat" where
  "vec_size v = length (vdata v)"

definition vec_is_valid :: "'a vec \<Rightarrow> bool" where
  "vec_is_valid v =
     (if vnonnull v then 0 < vcap v \<and> vec_size v \<le> vcap v else vcap v = 0 \<and> vec_size v = 0)"

definition VEC_DEFAULT_CAPACITY :: nat where
  "VEC_DEFAULT_CAPACITY = 10"

text \<open>\<open>(size_t)(capacity * 1.5) + 1\<close>; the product in \<open>double\<close> is exact below \<open>2\<^sup>5\<^sup>2\<close>.\<close>

definition vec_grow_capacity :: "nat \<Rightarrow> nat" where
  "vec_grow_capacity c = (3 * c div 2 + 1) mod 2 ^ 64"

definition vec_push :: "(nat \<Rightarrow> bool) \<Rightarrow> 'a vec \<Rightarrow> 'a \<Rightarrow> 'a vec res" where
  "vec_push am v e =
     (if vcap v > vec_size v then Inr (v\<lparr>vdata := vdata v @ [e]\<rparr>)
      else if \<not> vnonnull v then
        (if vfixed v then Inl E_general
         else if \<not> am VEC_DEFAULT_CAPACITY then Inl E_general
         else Inr (v\<lparr>vdata := [e], vcap := VEC_DEFAULT_CAPACITY, vnonnull := True\<rparr>))
      else if vec_size v = vcap v then
        (if vfixed v then Inl E_general
         else let new_capacity = vec_grow_capacity (vcap v) in
           if new_capacity \<le> vcap v then Inl E_general
           else if \<not> am new_capacity then Inl E_general
           else Inr (v\<lparr>vdata := vdata v @ [e], vcap := new_capacity\<rparr>))
      else Inr v)"

definition vec_pop :: "'a vec \<Rightarrow> 'a vec res" where
  "vec_pop v = (if vdata v = [] then Inl Fault else Inr (v\<lparr>vdata := butlast (vdata v)\<rparr>))"

definition vec_at :: "'a vec \<Rightarrow> nat \<Rightarrow> 'a res" where
  "vec_at v i = (if i < vec_size v then Inr (vdata v ! i) else Inl Fault)"

text \<open>\<open>*vec_at(v, i) = x\<close>: a write through the pointer that \<open>vec_at\<close> returns.\<close>

definition vec_set :: "'a vec \<Rightarrow> nat \<Rightarrow> 'a \<Rightarrow> 'a vec res" where
  "vec_set v i x = (if i < vec_size v then Inr (v\<lparr>vdata := (vdata v)[i := x]\<rparr>) else Inl Fault)"

definition vec_back :: "'a vec \<Rightarrow> 'a res" where
  "vec_back v = (if vdata v = [] then Inl Fault else Inr (last (vdata v)))"

definition vec_set_fixed :: "'a vec \<Rightarrow> bool \<Rightarrow> 'a vec" where
  "vec_set_fixed v f = v\<lparr>vfixed := f\<rparr>"

definition vec_clear :: "'a vec \<Rightarrow> 'a vec" where
  "vec_clear v = vec_empty"

definition vec_popall :: "'a vec \<Rightarrow> 'a vec" where
  "vec_popall v = (if vec_size v = 0 then v else v\<lparr>vdata := []\<rparr>)"

definition vec_shrink_to_fit :: "(nat \<Rightarrow> bool) \<Rightarrow> 'a vec \<Rightarrow> 'a vec res" where
  "vec_shrink_to_fit am v =
     (if vfixed v then Inl E_general
      else if \<not> vnonnull v then Inr v
      else if vec_size v = vcap v \<or> vcap v = 1 then Inr v
      else let new_capacity = (if vec_size v = 0 then 1 else vec_size v) in
        if \<not> am new_capacity then Inl E_general
        else Inr (v\<lparr>vcap := new_capacity\<rparr>))"

definition vec_reserve :: "(nat \<Rightarrow> bool) \<Rightarrow> 'a vec \<Rightarrow> nat \<Rightarrow> 'a vec res" where
  "vec_reserve am v reserve_size =
     (if vfixed v then Inl E_general
      else if reserve_size \<le> vcap v then Inr v
      else if \<not> am reserve_size then Inl E_general
      else Inr (v\<lparr>vcap := reserve_size, vnonnull := True\<rparr>))"

text \<open>\<open>z\<close> is the all-zero element that \<open>memset\<close> writes.\<close>

definition vec_resize :: "(nat \<Rightarrow> bool) \<Rightarrow> 'a \<Rightarrow> 'a vec \<Rightarrow> nat \<Rightarrow> 'a vec res" where
  "vec_resize am z v n =
     (if n \<le> vec_size v then Inr (v\<lparr>vdata := take n (vdata v)\<rparr>)
      else unwrap (if n > vcap v then vec_reserve am v n else Inr v)
        (\<lambda>v'. Inr (v'\<lparr>vdata := vdata v' @ replicate (n - vec_size v') z\<rparr>)))"

definition vec_memmove :: "'a vec \<Rightarrow> nat \<Rightarrow> nat \<Rightarrow> nat \<Rightarrow> 'a vec res" where
  "vec_memmove v dst src n =
     (if (src + n) mod 2 ^ 64 > vec_size v \<or> (dst + n) mod 2 ^ 64 > vec_size v then Inl E_general
      else if src + n > vec_size v \<or> dst + n > vec_size v then Inl Fault
      else Inr (v\<lparr>vdata := take dst (vdata v) @ take n (drop src (vdata v)) @
                             drop (dst + n) (vdata v)\<rparr>))"

definition vec_dup :: "(nat \<Rightarrow> bool) \<Rightarrow> 'a vec \<Rightarrow> 'a vec \<Rightarrow> 'a vec res" where
  "vec_dup am dst src =
     (if vec_size src = 0 then Inr dst
      else if \<not> am (vec_size src) then Inl E_general
      else Inr (dst\<lparr>vdata := vdata src, vcap := vec_size src, vnonnull := True\<rparr>))"

text \<open>\<open>VEC_REVERSE\<close>: one round of the loop swaps two elements with three exclusive-ors.\<close>

definition xor_swap :: "int list \<Rightarrow> nat \<Rightarrow> nat \<Rightarrow> int list" where
  "xor_swap xs i j =
     (let xs = xs[i := xs ! i XOR xs ! j];
          xs = xs[j := xs ! j XOR xs ! i]
      in xs[i := xs ! i XOR xs ! j])"

fun vec_reverse_loop :: "nat \<Rightarrow> nat \<Rightarrow> int list \<Rightarrow> int list" where
  "vec_reverse_loop i 0 xs = xs"
| "vec_reverse_loop i (Suc n) xs = vec_reverse_loop (Suc i) n (xor_swap xs i (length xs - 1 - i))"

definition VEC_REVERSE :: "int vec \<Rightarrow> int vec" where
  "VEC_REVERSE v = v\<lparr>vdata := vec_reverse_loop 0 (vec_size v div 2) (vdata v)\<rparr>"

section \<open>Contents and invariant\<close>

lemma vec_size_empty [simp]: "vec_size vec_empty = 0" "vdata vec_empty = []"
  by (simp_all add: vec_size_def vec_empty_def)

lemma vec_is_valid_empty [simp]: "vec_is_valid vec_empty"
  by (simp add: vec_is_valid_def vec_empty_def vec_size_def)

lemma vec_set_fixed_simps [simp]:
  "vdata (vec_set_fixed v f) = vdata v" "vfixed (vec_set_fixed v f) = f"
  "vec_size (vec_set_fixed v f) = vec_size v" "vec_is_valid (vec_set_fixed v f) = vec_is_valid v"
  by (simp_all add: vec_set_fixed_def vec_size_def vec_is_valid_def)

lemma vec_grow_capacity_bounds:
  "0 < c \<Longrightarrow> c < 2 ^ 63 \<Longrightarrow> c < vec_grow_capacity c"
  by (simp add: vec_grow_capacity_def)

lemma vec_push_ok:
  assumes "vec_is_valid v"
  shows "res_ok (\<lambda>v'. vdata v' = vdata v @ [e] \<and> vec_is_valid v' \<and> vfixed v' = vfixed v) (vec_push am v e)"
  using assms
  by (auto simp: vec_push_def vec_is_valid_def vec_size_def VEC_DEFAULT_CAPACITY_def Let_def
      split: if_splits)

lemma vec_pop_ok:
  "vec_is_valid v \<Longrightarrow> vdata v \<noteq> [] \<Longrightarrow>
   res_ok (\<lambda>v'. vdata v' = butlast (vdata v) \<and> vec_is_valid v' \<and> vfixed v' = vfixed v) (vec_pop v)"
  by (auto simp: vec_pop_def vec_is_valid_def vec_size_def split: if_splits)

lemma vec_at_ok: "i < vec_size v \<Longrightarrow> res_ok (\<lambda>x. x = vdata v ! i) (vec_at v i)"
  by (simp add: vec_at_def)

lemma vec_set_ok:
  "vec_is_valid v \<Longrightarrow> i < vec_size v \<Longrightarrow>
   res_ok (\<lambda>v'. vdata v' = (vdata v)[i := x] \<and> vec_is_valid v' \<and> vfixed v' = vfixed v) (vec_set v i x)"
  by (auto simp: vec_set_def vec_is_valid_def vec_size_def split: if_splits)

lemma vec_back_ok: "vdata v \<noteq> [] \<Longrightarrow> res_ok (\<lambda>x. x = last (vdata v)) (vec_back v)"
  by (simp add: vec_back_def)

lemma vec_reserve_ok:
  assumes "vec_is_valid v"
  shows "res_ok (\<lambda>v'. vdata v' = vdata v \<and> vec_is_valid v' \<and> vfixed v' = vfixed v \<and> n \<le> vcap v')
           (vec_reserve am v n)"
  using assms by (auto simp: vec_reserve_def vec_is_valid_def vec_size_def split: if_splits)

lemma vec_shrink_to_fit_ok:
  assumes "vec_is_valid v"
  shows "res_ok (\<lambda>v'. vdata v' = vdata v \<and> vec_is_valid v' \<and> vfixed v' = vfixed v)
           (vec_shrink_to_fit am v)"
  using assms by (auto simp: vec_shrink_to_fit_def vec_is_valid_def vec_size_def Let_def split: if_splits)

lemma vec_resize_ok:
  assumes "vec_is_valid v"
  shows "res_ok (\<lambda>v'. vdata v' = take n (vdata v) @ replicate (n - vec_size v) z \<and>
                      vec_is_valid v' \<and> vfixed v' = vfixed v)
           (vec_resize am z v n)"
  using assms
  by (auto simp: vec_resize_def vec_reserve_def vec_is_valid_def vec_size_def split: if_splits)

lemma vec_memmove_ok:
  assumes "vec_is_valid v" "src + n < 2 ^ 64" "dst + n < 2 ^ 64"
  shows "res_ok (\<lambda>v'. vec_is_valid v' \<and> vec_size v' = vec_size v \<and>
      (\<forall>i < vec_size v. vdata v' ! i =
         (if dst \<le> i \<and> i < dst + n then vdata v ! (src + (i - dst)) else vdata v ! i)))
      (vec_memmove v dst src n)"
proof (cases "src + n > vec_size v \<or> dst + n > vec_size v")
  case True
  with assms show ?thesis by (auto simp: vec_memmove_def)
next
  case False
  then have len: "length (take n (drop src (vdata v))) = n"
    by (auto simp: vec_size_def min_def)
  have len': "length (take dst (vdata v)) = dst"
    using False by (auto simp: vec_size_def min_def)
  show ?thesis
    using assms False len len'
    by (auto simp: vec_memmove_def vec_is_valid_def vec_size_def nth_append simp del: length_take)
qed

lemma vec_dup_ok:
  assumes "vec_is_valid src"
  shows "res_ok (\<lambda>v'. vdata v' = vdata src \<and> vec_is_valid v') (vec_dup am vec_empty src)"
  using assms by (auto simp: vec_dup_def vec_is_valid_def vec_size_def vec_empty_def split: if_splits)

section \<open>The container contract\<close>

locale growable =
  fixes contents :: "'v \<Rightarrow> 'a list"
    and valid :: "'v \<Rightarrow> bool"
    and empty :: "'v"
    and push :: "'v \<Rightarrow> 'a \<Rightarrow> 'v res"
  assumes contents_empty: "contents empty = []"
    and valid_empty: "valid empty"
    and push_contents: "valid v \<Longrightarrow> push v x = Inr v' \<Longrightarrow> contents v' = contents v @ [x]"
    and push_valid: "valid v \<Longrightarrow> push v x = Inr v' \<Longrightarrow> valid v'"
    and push_safe: "valid v \<Longrightarrow> push v x \<noteq> Inl Fault"
begin

lemma push_all_ok:
  "valid v \<Longrightarrow> res_ok (\<lambda>v'. valid v' \<and> contents v' = contents v @ xs)
     (foreach_res (\<lambda>x v. push v x) xs v)"
proof (induction xs arbitrary: v)
  case Nil
  then show ?case by simp
next
  case (Cons x xs)
  have "res_ok (\<lambda>v'. valid v' \<and> contents v' = contents v @ [x]) (push v x)"
    by (rule res_okI) (use Cons.prems push_safe push_valid push_contents in auto)
  then show ?case
  proof (simp, rule res_ok_bind)
    fix v' assume v': "valid v' \<and> contents v' = contents v @ [x]"
    show "res_ok (\<lambda>v'. valid v' \<and> contents v' = contents v @ x # xs)
        (foreach_res (\<lambda>x v. push v x) xs v')"
      by (rule res_ok_mono [OF Cons.IH]) (use v' in auto)
  qed
qed

lemma fill_from_empty:
  "foreach_res (\<lambda>x v. push v x) xs empty = Inr v' \<Longrightarrow> contents v' = xs"
  using res_okD [OF push_all_ok [OF valid_empty]] contents_empty by fastforce

end

interpretation vecs: growable vdata vec_is_valid vec_empty "vec_push am" for am
proof unfold_locales
  fix v :: "'a vec" and x v'
  assume v: "vec_is_valid v"
  show "vec_push am v x \<noteq> Inl Fault"
    by (rule res_ok_noFault [OF vec_push_ok [OF v]])
  show "vdata v' = vdata v @ [x]" "vec_is_valid v'" if "vec_push am v x = Inr v'"
    using res_okD [OF vec_push_ok [OF v] that] by simp_all
qed simp_all

section \<open>Reversal by exclusive-or\<close>

lemma xor_swap_eq:
  "i \<noteq> j \<Longrightarrow> i < length xs \<Longrightarrow> j < length xs \<Longrightarrow> xor_swap xs i j = xs[i := xs ! j, j := xs ! i]"
  by (rule nth_equalityI)
    (auto simp: xor_swap_def Let_def nth_list_update xor.assoc xor.commute xor.left_commute)

lemma length_xor_swap [simp]: "length (xor_swap xs i j) = length xs"
  by (simp add: xor_swap_def Let_def)

lemma vec_reverse_loop_nth:
  assumes "i + n \<le> length xs div 2" and "k < length xs"
  shows "vec_reverse_loop i n xs ! k =
    (if (i \<le> k \<and> k < i + n) \<or> (length xs - (i + n) \<le> k \<and> k < length xs - i)
     then xs ! (length xs - 1 - k) else xs ! k)"
  using assms
proof (induction n arbitrary: i xs)
  case 0
  then show ?case by auto
next
  case (Suc n)
  let ?j = "length xs - Suc i" and ?L = "length xs"
  let ?ys = "xs[i := xs ! ?j, ?j := xs ! i]"
  have len: "2 * (Suc i + n) \<le> ?L"
    using Suc.prems by simp
  have sw: "xor_swap xs i ?j = ?ys"
    by (rule xor_swap_eq) (use len in auto)
  have IH: "vec_reverse_loop (Suc i) n ?ys ! k =
    (if (Suc i \<le> k \<and> k < Suc i + n) \<or> (?L - (Suc i + n) \<le> k \<and> k < ?L - Suc i)
     then ?ys ! (?L - 1 - k) else ?ys ! k)"
    using Suc.IH [of "Suc i" ?ys] Suc.prems by simp
  have mirror: "?ys ! m = xs ! m" if "m \<noteq> i" "m \<noteq> ?j" for m
    using that by simp
  have at_i: "?ys ! i = xs ! ?j" and at_j: "?ys ! ?j = xs ! i"
    using len Suc.prems by (auto simp: nth_list_update)
  consider "k = i" | "k = ?j" | "k \<noteq> i" "k \<noteq> ?j" "?L - 1 - k \<noteq> i" "?L - 1 - k \<noteq> ?j"
    using Suc.prems by linarith
  then have "vec_reverse_loop (Suc i) n ?ys ! k =
    (if (i \<le> k \<and> k < i + Suc n) \<or> (?L - (i + Suc n) \<le> k \<and> k < ?L - i)
     then xs ! (?L - 1 - k) else xs ! k)"
  proof cases
    case 1
    with len show ?thesis unfolding IH by (auto simp: at_i)
  next
    case 2
    with len show ?thesis unfolding IH by (auto simp: at_j)
  next
    case 3
    with len Suc.prems show ?thesis unfolding IH mirror [OF 3(1,2)] mirror [OF 3(3,4)] by auto
  qed
  then show ?case
    by (simp add: sw)
qed

lemma length_vec_reverse_loop [simp]: "length (vec_reverse_loop i n xs) = length xs"
  by (induction i n xs rule: vec_reverse_loop.induct) simp_all

lemma VEC_REVERSE_rev: "vdata (VEC_REVERSE v) = rev (vdata v)"
proof (rule nth_equalityI)
  show "length (vdata (VEC_REVERSE v)) = length (rev (vdata v))"
    by (simp add: VEC_REVERSE_def)
  fix k assume k: "k < length (vdata (VEC_REVERSE v))"
  let ?n = "length (vdata v)"
  have "2 * k + 1 = ?n" if "\<not> (k < ?n div 2 \<or> ?n - ?n div 2 \<le> k)"
    using that k by (simp add: VEC_REVERSE_def) presburger
  then have "?n - 1 - k = k" if "\<not> (k < ?n div 2 \<or> ?n - ?n div 2 \<le> k)"
    using that by simp
  then show "vdata (VEC_REVERSE v) ! k = rev (vdata v) ! k"
    using k vec_reverse_loop_nth [of 0 "?n div 2" "vdata v" k]
    by (auto simp: VEC_REVERSE_def vec_size_def rev_nth)
qed

lemma VEC_REVERSE_simps [simp]:
  "vdata (VEC_REVERSE v) = rev (vdata v)"
  "vec_is_valid (VEC_REVERSE v) = vec_is_valid v"
  by (simp_all add: VEC_REVERSE_rev) (simp add: VEC_REVERSE_def vec_is_valid_def vec_size_def)

end
