(* ===== verification/Vstr.thy ===== *)
theory Vstr
  imports Vec Stream
begin

text \<open>
  The vector-backed string of src/src/utils/vstr.h and src/src/utils/vstr.c: the bytes its
  \<open>s\<close> member shows and the vector that owns storage when the string is not static.
  Pointers are not modelled: after an operation that ends with \<open>vs->s.ptr = vs->v._data\<close> the
  visible bytes are the first \<open>vs->s.len\<close> bytes of the vector.
\<close>

record vstr =
  vs_s :: str
  vs_v :: "u8 vec"

definition VSTR_NULL :: vstr where
  "VSTR_NULL = \<lparr>vs_s = [], vs_v = vec_empty\<rparr>"

definition vstr_is_null :: "vstr \<Rightarrow> bool" where
  "vstr_is_null vs = str_is_null (vs_s vs)"

definition vstr_static :: "str \<Rightarrow> vstr" where
  "vstr_static s = VSTR_NULL\<lparr>vs_s := s\<rparr>"

definition vstr_drop :: "vstr \<Rightarrow> vstr" where
  "vstr_drop vs = VSTR_NULL"

definition vstr_append :: "(nat \<Rightarrow> bool) \<Rightarrow> vstr \<Rightarrow> str \<Rightarrow> vstr res" where
  "vstr_append am vs s =
     (if str_is_null s then Inr vs
      else unwrap (vec_resize am 0 (vs_v vs) (length (vs_s vs) + length s)) (\<lambda>v.
        let n = length (vs_s vs);
            buf = (if vec_size v = 0 then take n (vs_s vs) @ drop n (vdata v) else vdata v);
            buf = take n buf @ s @ drop (n + length s) buf
        in Inr \<lparr>vs_s = take (n + length s) buf, vs_v = v\<lparr>vdata := buf\<rparr>\<rparr>))"

text \<open>
  When the string shows more bytes than its vector holds, the new length would show
  uninitialised storage: \<open>Fault\<close>.
\<close>

definition vstr_append_c :: "(nat \<Rightarrow> bool) \<Rightarrow> vstr \<Rightarrow> u8 \<Rightarrow> vstr res" where
  "vstr_append_c am vs c =
     unwrap (vec_push am (vs_v vs) c) (\<lambda>v.
       if vec_size v < length (vs_s vs) + 1 then Inl Fault
       else Inr \<lparr>vs_s = take (length (vs_s vs) + 1) (vdata v), vs_v = v\<rparr>)"

definition vstr_dup :: "(nat \<Rightarrow> bool) \<Rightarrow> str \<Rightarrow> vstr res" where
  "vstr_dup am s =
     (if str_is_null s then Inr VSTR_NULL
      else unwrap (vec_resize am 0 vec_empty (length s)) (\<lambda>v.
        let buf = s @ drop (length s) (vdata v) in
        Inr \<lparr>vs_s = take (length s) buf, vs_v = v\<lparr>vdata := buf\<rparr>\<rparr>))"

section \<open>Strings that own their bytes\<close>

definition vstr_owned :: "vstr \<Rightarrow> bool" where
  "vstr_owned vs \<longleftrightarrow> vec_is_valid (vs_v vs) \<and> vdata (vs_v vs) = vs_s vs"

lemma vstr_null_owned [simp]: "vstr_owned VSTR_NULL"
  by (simp add: vstr_owned_def VSTR_NULL_def)

lemma vec_valid_same_size:
  "vec_is_valid v \<Longrightarrow> length xs = vec_size v \<Longrightarrow> vec_is_valid (v\<lparr>vdata := xs\<rparr>)"
  by (auto simp: vec_is_valid_def vec_size_def split: if_splits)

lemma vstr_append_ok:
  assumes "vstr_owned vs"
  shows "res_ok (\<lambda>vs'. vstr_owned vs' \<and> vs_s vs' = vs_s vs @ s) (vstr_append am vs s)"
proof (cases "s = []")
  case True
  with assms show ?thesis by (simp add: vstr_append_def str_is_null_def)
next
  case False
  let ?n = "length (vs_s vs) + length s"
  have v: "vec_is_valid (vs_v vs)" "vdata (vs_v vs) = vs_s vs"
    using assms by (auto simp: vstr_owned_def)
  show ?thesis
    unfolding vstr_append_def Let_def
    using False v
    by (auto simp: str_is_null_def vstr_owned_def vec_size_def
        intro!: res_ok_bind [OF vec_resize_ok [OF v(1)]] vec_valid_same_size)
qed

lemma vstr_append_c_ok:
  assumes "vstr_owned vs"
  shows "res_ok (\<lambda>vs'. vstr_owned vs' \<and> vs_s vs' = vs_s vs @ [c]) (vstr_append_c am vs c)"
  unfolding vstr_append_c_def
  by (rule res_ok_bind [OF vec_push_ok]) (use assms in \<open>auto simp: vstr_owned_def vec_size_def\<close>)

lemma vstr_dup_ok: "res_ok (\<lambda>vs'. vstr_owned vs' \<and> vs_s vs' = s) (vstr_dup am s)"
  unfolding vstr_dup_def Let_def
  by (auto simp: str_is_null_def vstr_owned_def vec_size_def VSTR_NULL_def
      intro!: res_ok_bind [OF vec_resize_ok] vec_valid_same_size)

text \<open>
  A static string is not copied into the vector when it is appended to: the test
  \<open>!vs->v._size\<close> comes after the resize, which has made the size non-zero.
\<close>

lemma vstr_append_static:
  assumes "s \<noteq> []"
  shows "res_ok (\<lambda>vs'. vs_s vs' = replicate (length p) 0 @ s) (vstr_append am (vstr_static p) s)"
  unfolding vstr_append_def Let_def
  using assms
  by (auto simp: str_is_null_def vstr_static_def VSTR_NULL_def vec_size_def take_replicate
      intro!: res_ok_bind [OF vec_resize_ok])

end
