(* ===== verification/Module.thy ===== *)
theory Module
  imports Vstr
begin

text \<open>
  The binary format's constants (src/src/common/wasm_format.h) and the module that the
  parser fills (src/src/runtime/module.h, src/src/runtime/module.c).

  Every struct is a record with the code's fields, prefixed where the plain name is taken.
  A \<open>type_id\<close> is the value of the enumerator (a negative \<open>i8\<close>).  Function pointers and
  payloads (\<open>tr\<close>, \<open>host_func\<close>, \<open>resource_payload\<close>) are addresses, 0 for null.
  \<open>elem_ty\<close> names the element types of the vectors: an allocation policy \<open>alloc\<close> says for
  each of them which requests are granted.
\<close>

section \<open>Types and constants\<close>

type_synonym type_id = int

definition TYPE_ID_i32 :: type_id where [simp]: "TYPE_ID_i32 = - 0x01"
definition TYPE_ID_i64 :: type_id where [simp]: "TYPE_ID_i64 = - 0x02"
definition TYPE_ID_f32 :: type_id where [simp]: "TYPE_ID_f32 = - 0x03"
definition TYPE_ID_f64 :: type_id where [simp]: "TYPE_ID_f64 = - 0x04"
definition TYPE_ID_v128 :: type_id where [simp]: "TYPE_ID_v128 = - 0x05"
definition TYPE_ID_funcref :: type_id where [simp]: "TYPE_ID_funcref = - 0x10"
definition TYPE_ID_externref :: type_id where [simp]: "TYPE_ID_externref = - 0x11"
definition TYPE_ID_ref :: type_id where [simp]: "TYPE_ID_ref = - 0x15"
definition TYPE_ID_func :: type_id where [simp]: "TYPE_ID_func = - 0x20"
definition TYPE_ID_void :: type_id where [simp]: "TYPE_ID_void = - 0x40"
definition TYPE_ID_unknown :: type_id where [simp]: "TYPE_ID_unknown = - 0x39"

definition WASM_PAGE_SIZE :: nat where "WASM_PAGE_SIZE = 65536"
definition WASM_MEM_MAX_PAGES :: u32 where "WASM_MEM_MAX_PAGES = 65536"
definition RESULT_TYPE_COUNT_MAX :: u32 where "RESULT_TYPE_COUNT_MAX = 65535"

definition is_num :: "type_id \<Rightarrow> bool" where
  "is_num t = (t = TYPE_ID_i32 \<or> t = TYPE_ID_i64 \<or> t = TYPE_ID_f32 \<or> t = TYPE_ID_f64 \<or> t = TYPE_ID_unknown)"

definition is_vec :: "type_id \<Rightarrow> bool" where
  "is_vec t = (t = TYPE_ID_v128 \<or> t = TYPE_ID_unknown)"

definition is_ref :: "type_id \<Rightarrow> bool" where
  "is_ref t = (t = TYPE_ID_funcref \<or> t = TYPE_ID_externref \<or> t = TYPE_ID_ref \<or> t = TYPE_ID_unknown)"

definition is_value_type :: "type_id \<Rightarrow> bool" where
  "is_value_type t = (is_num t \<or> is_vec t \<or> is_ref t)"

datatype external_kind = EXTERNAL_KIND_Function | EXTERNAL_KIND_Table | EXTERNAL_KIND_Memory
  | EXTERNAL_KIND_Global

text \<open>The kind a byte encodes; \<open>None\<close> where \<open>is_valid_external_kind\<close> is false.\<close>

definition external_kind_of :: "u8 \<Rightarrow> external_kind option" where
  "external_kind_of b =
     (if b = 0 then Some EXTERNAL_KIND_Function else if b = 1 then Some EXTERNAL_KIND_Table
      else if b = 2 then Some EXTERNAL_KIND_Memory else if b = 3 then Some EXTERNAL_KIND_Global
      else None)"

datatype elem_mode = elem_mode_unset | elem_mode_active | elem_mode_passive | elem_mode_declarative

section \<open>Records\<close>

definition linkage_none :: u32 where "linkage_none = 0"
definition linkage_imported :: u32 where "linkage_imported = 1"
definition linkage_exported :: u32 where "linkage_exported = push_bit 1 1"

definition is_imported :: "u32 \<Rightarrow> bool" where "is_imported x = (x AND linkage_imported \<noteq> 0)"
definition is_exported :: "u32 \<Rightarrow> bool" where "is_exported x = (x AND linkage_exported \<noteq> 0)"

record func_type =
  param_count :: u32
  result_count :: u32
  params :: str
  results :: str

record import_path =
  path_module :: str
  path_field :: str

record jump_table =
  jt_pc :: u32
  target_offset :: u32
  stack_offset :: u32
  jt_arity :: u16
  next_idx :: u16

record func =
  fn_type :: func_type
  f_linkage :: u32
  local_count :: u32
  local_types :: "type_id vec"
  f_code :: str
  f_path :: import_path
  f_jt :: "jump_table vec"
  f_stack_size_max :: u32
  f_tr :: nat
  f_host_func :: nat

record limits =
  lim_min :: u32
  lim_max :: u32

record memory =
  mem_lim :: limits
  mem_linkage :: u32
  mem_path :: import_path

record table =
  tab_valtype :: type_id
  tab_lim :: limits
  tab_linkage :: u32
  tab_path :: import_path

record global =
  g_valtype :: type_id
  g_mut :: bool
  g_expr :: str
  g_linkage :: u32
  g_path :: import_path

record export =
  exp_name :: str
  exp_kind :: external_kind
  external_idx :: u32

record element =
  el_mode :: elem_mode
  tableidx :: u32
  el_offset_expr :: str
  el_valtype :: type_id
  data_len :: nat
  v_funcidx :: "u32 vec"
  v_expr :: "str vec"

record data =
  is_active :: bool
  memidx :: u32
  d_offset_expr :: str
  d_bytes :: str

record module =
  names :: "vstr vec"
  wasm_bin :: vstr
  ref_count :: u32
  format_version :: u32
  func_types :: "func_type vec"
  imported_func_count :: u32
  funcs :: "func vec"
  imported_table_count :: u32
  tables :: "table vec"
  imported_mem_count :: u32
  memories :: "memory vec"
  imported_global_count :: u32
  globals :: "global vec"
  exports :: "export vec"
  start_funcidx :: "u32 option"
  elements :: "element vec"
  data_count :: "u32 option"
  m_data :: "data vec"
  resource_payload :: nat
  resource_drop_cb :: nat

text \<open>Zero-initialised values, \<open>{0}\<close> in the code.\<close>

definition path_null :: import_path where
  "path_null = \<lparr>path_module = [], path_field = []\<rparr>"

definition func_type_zero :: func_type where
  "func_type_zero = \<lparr>param_count = 0, result_count = 0, params = [], results = []\<rparr>"

definition func_zero :: func where
  "func_zero = \<lparr>fn_type = func_type_zero, f_linkage = linkage_none, local_count = 0,
     local_types = vec_empty, f_code = [], f_path = path_null, f_jt = vec_empty, f_stack_size_max = 0,
     f_tr = 0, f_host_func = 0\<rparr>"

definition element_zero :: element where
  "element_zero = \<lparr>el_mode = elem_mode_unset, tableidx = 0, el_offset_expr = [], el_valtype = 0,
     data_len = 0, v_funcidx = vec_empty, v_expr = vec_empty\<rparr>"

definition module_zero :: module where
  "module_zero = \<lparr>names = vec_empty, wasm_bin = VSTR_NULL, ref_count = 0, format_version = 0,
     func_types = vec_empty, imported_func_count = 0, funcs = vec_empty, imported_table_count = 0,
     tables = vec_empty, imported_mem_count = 0, memories = vec_empty, imported_global_count = 0,
     globals = vec_empty, exports = vec_empty, start_funcidx = None, elements = vec_empty,
     data_count = None, m_data = vec_empty, resource_payload = 0, resource_drop_cb = 0\<rparr>"

section \<open>Operations\<close>

datatype elem_ty = T_vstr | T_type_id | T_func_type | T_func | T_table | T_memory | T_global | T_export
  | T_element | T_data | T_u32 | T_str | T_jump_table | T_ctrl_frame | T_u8 | T_ref | T_func_inst
  | T_table_inst | T_memory_inst | T_global_inst | T_func_addr | T_mem_addr | T_tab_addr | T_glob_addr
  | T_typed_value | T_module_inst | T_module | T_vm

type_synonym alloc = "elem_ty \<Rightarrow> nat \<Rightarrow> bool"

definition func_type_eq :: "func_type \<Rightarrow> func_type \<Rightarrow> bool" where
  "func_type_eq a b =
     (if param_count a = param_count b \<and> result_count a = result_count b then
        (if str_eq (params a) (params b) \<and> str_eq (results a) (results b) then True else False)
      else False)"

definition module_register_name :: "alloc \<Rightarrow> module \<Rightarrow> vstr \<Rightarrow> module res" where
  "module_register_name am m name =
     unwrap (vec_push (am T_vstr) (names m) name) (\<lambda>v. Inr (m\<lparr>names := v\<rparr>))"

text \<open>The second component says whether \<open>resource_drop_cb\<close> is called on the payload.\<close>

definition module_drop :: "module \<Rightarrow> (module \<times> bool) res" where
  "module_drop m =
     (if ref_count m \<noteq> 0 then Inl E_general
      else let m = m\<lparr>func_types := vec_clear (func_types m), funcs := vec_clear (funcs m),
                     tables := vec_clear (tables m), memories := vec_clear (memories m),
                     globals := vec_clear (globals m), exports := vec_clear (exports m),
                     elements := vec_clear (elements m), m_data := vec_clear (m_data m),
                     names := vec_clear (names m), wasm_bin := vstr_drop (wasm_bin m)\<rparr>
        in if resource_payload m \<noteq> 0 \<and> resource_drop_cb m = 0 then Inl Fault
           else Inr (m, resource_payload m \<noteq> 0))"

lemma or_exported_and_imported: "(l OR linkage_exported) AND linkage_imported = l AND linkage_imported"
  by (rule bit_eqI) (auto simp: bit_simps linkage_exported_def linkage_imported_def)

lemma linkage_simps [simp]:
  "\<not> is_imported linkage_none" "is_imported linkage_imported"
  "is_imported (l OR linkage_exported) = is_imported l"
  by (simp_all add: is_imported_def or_exported_and_imported) (simp_all add: linkage_none_def linkage_imported_def)

lemma func_type_eq_iff:
  "func_type_eq a b \<longleftrightarrow> (a :: func_type) = b"
  by (cases a, cases b) (auto simp: func_type_eq_def str_eq_def)

end
