(* ===== verification/Parser.thy ===== *)
theory Parser
  imports Module Utf8
begin

text \<open>
  The binary parser, src/src/runtime/parser.c.

  A function that takes \<open>stream *\<close> returns its value with the stream after the read; a
  section parser takes its stream by value and returns the module it has filled.  The
  allocation policy \<open>am\<close> decides every \<open>vec_push\<close>, \<open>vec_reserve\<close>, \<open>vec_resize\<close> and
  \<open>vec_shrink_to_fit\<close>.  Calls whose result the code ignores go through \<open>ignore_err\<close>.
  When parsing fails only the error is returned: the caller drops the module.

  Theory \<open>Parser_Correct\<close> has the invariant of a parsed module, one lemma per section parser,
  and the theorems about \<open>parse_module\<close>.
\<close>

section \<open>Parsing of the parts\<close>

definition u32_MAX :: u32 where "u32_MAX = 0xffffffff"

definition ignore_err :: "'a \<Rightarrow> 'a res \<Rightarrow> 'a res" where
  "ignore_err old m = (case m of Inl e \<Rightarrow> if e = Fault then Inl Fault else Inr old | Inr x \<Rightarrow> Inr x)"

definition parse_types_step :: "alloc \<Rightarrow> nat \<Rightarrow> type_id vec \<times> stream \<Rightarrow> (type_id vec \<times> stream) res" where
  "parse_types_step am i s =
     (case s of (v, st) \<Rightarrow>
        unwrap (stream_read_vi7 st) (\<lambda>(t, st).
        if \<not> is_value_type t then Inl E_invalid
        else unwrap (vec_push (am T_type_id) v t) (\<lambda>v. Inr (v, st))))"

definition parse_types :: "alloc \<Rightarrow> u32 \<Rightarrow> str \<Rightarrow> type_id vec res" where
  "parse_types am count types =
     (if count = 0 then Inr vec_empty
      else unwrap (ignore_err vec_empty (vec_reserve (am T_type_id) vec_empty (unat count))) (\<lambda>v.
        unwrap (for_res 0 (unat count) (parse_types_step am) (v, stream_from types)) (\<lambda>(v, _). Inr v)))"

definition parse_limits :: "stream \<Rightarrow> u32 \<Rightarrow> (limits \<times> stream) res" where
  "parse_limits st max_cap =
     unwrap (stream_read_u8 st) (\<lambda>(flag, st).
     if flag \<noteq> 0 \<and> flag \<noteq> 1 then Inl E_malformed
     else unwrap (stream_read_vu32 st) (\<lambda>(min, st).
       unwrap (if flag = 1 then
                 unwrap (stream_read_vu32 st) (\<lambda>(m, st).
                 if m \<le> max_cap then Inr (m, st) else Inl E_invalid)
               else Inr (max_cap, st)) (\<lambda>(max, st).
       if min > max then Inl E_invalid
       else Inr (\<lparr>lim_min = min, lim_max = max\<rparr>, st))))"

text \<open>The scanning loop of \<open>parse_const_expr\<close>; it returns the copy of the stream after \<open>end\<close>.\<close>

function parse_const_expr_loop :: "stream \<Rightarrow> stream res" where
  "parse_const_expr_loop st =
     unwrap (stream_read_u8 st) (\<lambda>(opcode, st).
     if opcode = 0x41 then unwrap (stream_read_vi32 st) (\<lambda>(_, st). parse_const_expr_loop st)
     else if opcode = 0x42 then unwrap (stream_read_vi64 st) (\<lambda>(_, st). parse_const_expr_loop st)
     else if opcode = 0x43 then unwrap (stream_read_f32 st) (\<lambda>(_, st). parse_const_expr_loop st)
     else if opcode = 0x44 then unwrap (stream_read_f64 st) (\<lambda>(_, st). parse_const_expr_loop st)
     else if opcode = 0xd0 then unwrap (stream_read_vi7 st) (\<lambda>(_, st). parse_const_expr_loop st)
     else if opcode = 0xd2 then unwrap (stream_read_vu32 st) (\<lambda>(_, st). parse_const_expr_loop st)
     else if opcode = 0x23 then unwrap (stream_read_vu32 st) (\<lambda>(_, st). parse_const_expr_loop st)
     else if opcode = 0x0b then Inr st
     else parse_const_expr_loop st)"
  by pat_completeness auto
termination
  by (relation "measure stream_remaining")
    (auto dest!: rd_u8.read_remaining rd_vi32.read_remaining rd_vi64.read_remaining rd_f32.read_remaining
      rd_f64.read_remaining rd_vi7.read_remaining rd_vu32.read_remaining)

declare parse_const_expr_loop.simps [simp del]

definition parse_const_expr :: "stream \<Rightarrow> (str \<times> stream) res" where
  "parse_const_expr st =
     unwrap (parse_const_expr_loop st) (\<lambda>st_copy.
     Inr (take (st_p st_copy - st_p st) (drop (st_p st) (st_s st)), st_copy))"

definition parse_name :: "stream \<Rightarrow> (str \<times> stream) res" where
  "parse_name st =
     unwrap (stream_read_vu32 st) (\<lambda>(name_len, st).
     if name_len = 0 then Inr ([], st)
     else unwrap (stream_slice st (unat name_len)) (\<lambda>(name, st).
       if \<not> is_valid_utf8 (st_s name) then Inl E_malformed
       else Inr (st_s name, st)))"

section \<open>Section parsers\<close>

definition parse_section_custom :: "alloc \<Rightarrow> module \<Rightarrow> stream \<Rightarrow> module res" where
  "parse_section_custom am m st = Inr m"

text \<open>\<open>if (stream_remaining(&st)) return err(e_malformed, ...)\<close> at the end of every section.\<close>

definition section_end :: "module \<times> stream \<Rightarrow> module res" where
  "section_end s = (case s of (m, st) \<Rightarrow> if stream_remaining st \<noteq> 0 then Inl E_malformed else Inr m)"

definition check_value_type_step :: "nat \<Rightarrow> stream \<Rightarrow> stream res" where
  "check_value_type_step a st =
     unwrap (stream_read_vi7 st) (\<lambda>(t, st). if \<not> is_value_type t then Inl E_invalid else Inr st)"

text \<open>A count, the bytes at the reading position and the loop that checks them.\<close>

definition parse_type_vec :: "stream \<Rightarrow> ((u32 \<times> str) \<times> stream) res" where
  "parse_type_vec st =
     unwrap (stream_read_vu32 st) (\<lambda>(count, st).
     if count > RESULT_TYPE_COUNT_MAX then Inl E_invalid
     else let s = (if count \<noteq> 0 then take (unat count) (drop (st_p st) (st_s st)) else []) in
       unwrap (for_res 0 (unat count) check_value_type_step st) (\<lambda>st. Inr ((count, s), st)))"

definition parse_section_type_step :: "alloc \<Rightarrow> nat \<Rightarrow> module \<times> stream \<Rightarrow> (module \<times> stream) res" where
  "parse_section_type_step am i s =
     (case s of (m, st) \<Rightarrow>
        unwrap (stream_read_vu7 st) (\<lambda>(form, st).
        if form \<noteq> 0x60 then Inl E_invalid
        else unwrap (parse_type_vec st) (\<lambda>((pc, ps), st).
          unwrap (parse_type_vec st) (\<lambda>((rc, rs), st).
          unwrap (vec_push (am T_func_type) (func_types m)
                   \<lparr>param_count = pc, result_count = rc, params = ps, results = rs\<rparr>) (\<lambda>v.
          Inr (m\<lparr>func_types := v\<rparr>, st))))))"

definition parse_section_type :: "alloc \<Rightarrow> module \<Rightarrow> stream \<Rightarrow> module res" where
  "parse_section_type am m st =
     unwrap (stream_read_vu32 st) (\<lambda>(count, st).
     unwrap (vec_reserve (am T_func_type) (func_types m) (unat count)) (\<lambda>v.
     unwrap (for_res 0 (unat count) (parse_section_type_step am)
              (m\<lparr>func_types := vec_set_fixed v True\<rparr>, st))
       section_end))"

definition parse_import_func :: "alloc \<Rightarrow> import_path \<Rightarrow> module \<Rightarrow> stream \<Rightarrow> (module \<times> stream) res" where
  "parse_import_func am path m st =
     unwrap (stream_read_vu32 st) (\<lambda>(typeidx, st).
     if unat typeidx \<ge> vec_size (func_types m) then Inl E_invalid
     else unwrap (vec_at (func_types m) (unat typeidx)) (\<lambda>ft.
       unwrap (vec_push (am T_func) (funcs m)
                (func_zero\<lparr>fn_type := ft, f_linkage := linkage_imported, f_path := path\<rparr>)) (\<lambda>v.
       Inr (m\<lparr>funcs := v, imported_func_count := imported_func_count m + 1\<rparr>, st))))"

definition parse_import_table :: "alloc \<Rightarrow> import_path \<Rightarrow> module \<Rightarrow> stream \<Rightarrow> (module \<times> stream) res" where
  "parse_import_table am path m st =
     unwrap (stream_read_vi7 st) (\<lambda>(valtype, st).
     if \<not> is_ref valtype then Inl E_invalid
     else unwrap (parse_limits st u32_MAX) (\<lambda>(lim, st).
       unwrap (vec_push (am T_table) (tables m)
                \<lparr>tab_valtype = valtype, tab_lim = lim, tab_linkage = linkage_imported, tab_path = path\<rparr>) (\<lambda>v.
       Inr (m\<lparr>tables := v, imported_table_count := imported_table_count m + 1\<rparr>, st))))"

definition parse_import_memory :: "alloc \<Rightarrow> import_path \<Rightarrow> module \<Rightarrow> stream \<Rightarrow> (module \<times> stream) res" where
  "parse_import_memory am path m st =
     unwrap (parse_limits st WASM_MEM_MAX_PAGES) (\<lambda>(lim, st).
     unwrap (vec_push (am T_memory) (memories m)
              \<lparr>mem_lim = lim, mem_linkage = linkage_imported, mem_path = path\<rparr>) (\<lambda>v.
     Inr (m\<lparr>memories := v, imported_mem_count := imported_mem_count m + 1\<rparr>, st)))"

definition parse_import_global :: "alloc \<Rightarrow> import_path \<Rightarrow> module \<Rightarrow> stream \<Rightarrow> (module \<times> stream) res" where
  "parse_import_global am path m st =
     unwrap (stream_read_vi7 st) (\<lambda>(valtype, st).
     if \<not> is_value_type valtype then Inl E_invalid
     else unwrap (stream_read_u8 st) (\<lambda>(mut, st).
       if mut \<noteq> 0 \<and> mut \<noteq> 1 then Inl E_malformed
       else unwrap (vec_push (am T_global) (globals m)
                     \<lparr>g_valtype = valtype, g_mut = (mut \<noteq> 0), g_expr = [], g_linkage = linkage_imported,
                      g_path = path\<rparr>) (\<lambda>v.
         Inr (m\<lparr>globals := v, imported_global_count := imported_global_count m + 1\<rparr>, st))))"

definition parse_section_import_step :: "alloc \<Rightarrow> nat \<Rightarrow> module \<times> stream \<Rightarrow> (module \<times> stream) res" where
  "parse_section_import_step am i s =
     (case s of (m, st) \<Rightarrow>
        unwrap (parse_name st) (\<lambda>(module_name, st).
        unwrap (parse_name st) (\<lambda>(field_name, st).
        unwrap (stream_read_u8 st) (\<lambda>(kind, st).
        let path = \<lparr>path_module = module_name, path_field = field_name\<rparr> in
        case external_kind_of kind of
          None \<Rightarrow> Inl E_malformed
        | Some EXTERNAL_KIND_Function \<Rightarrow> parse_import_func am path m st
        | Some EXTERNAL_KIND_Table \<Rightarrow> parse_import_table am path m st
        | Some EXTERNAL_KIND_Memory \<Rightarrow> parse_import_memory am path m st
        | Some EXTERNAL_KIND_Global \<Rightarrow> parse_import_global am path m st))))"

definition parse_section_import :: "alloc \<Rightarrow> module \<Rightarrow> stream \<Rightarrow> module res" where
  "parse_section_import am m st =
     unwrap (stream_read_vu32 st) (\<lambda>(count, st).
     unwrap (for_res 0 (unat count) (parse_section_import_step am) (m, st)) section_end)"

definition parse_section_function_step :: "alloc \<Rightarrow> nat \<Rightarrow> module \<times> stream \<Rightarrow> (module \<times> stream) res" where
  "parse_section_function_step am i s =
     (case s of (m, st) \<Rightarrow>
        unwrap (stream_read_vu32 st) (\<lambda>(typeidx, st).
        if unat typeidx \<ge> vec_size (func_types m) then Inl E_invalid
        else unwrap (vec_at (func_types m) (unat typeidx)) (\<lambda>ft.
          unwrap (vec_push (am T_func) (funcs m)
                   (func_zero\<lparr>fn_type := ft, f_linkage := linkage_none, local_count := param_count ft\<rparr>)) (\<lambda>v.
          Inr (m\<lparr>funcs := v\<rparr>, st)))))"

definition parse_section_function :: "alloc \<Rightarrow> module \<Rightarrow> stream \<Rightarrow> module res" where
  "parse_section_function am m st =
     unwrap (stream_read_vu32 st) (\<lambda>(count, st).
     unwrap (vec_reserve (am T_func) (funcs m) (unat count + vec_size (funcs m))) (\<lambda>v.
     unwrap (for_res 0 (unat count) (parse_section_function_step am) (m\<lparr>funcs := vec_set_fixed v True\<rparr>, st))
       section_end))"

definition parse_section_table_step :: "alloc \<Rightarrow> nat \<Rightarrow> module \<times> stream \<Rightarrow> (module \<times> stream) res" where
  "parse_section_table_step am i s =
     (case s of (m, st) \<Rightarrow>
        unwrap (stream_read_vi7 st) (\<lambda>(valtype, st).
        if \<not> is_ref valtype then Inl E_invalid
        else unwrap (parse_limits st u32_MAX) (\<lambda>(lim, st).
          unwrap (vec_push (am T_table) (tables m)
                   \<lparr>tab_valtype = valtype, tab_lim = lim, tab_linkage = linkage_none, tab_path = path_null\<rparr>) (\<lambda>v.
          Inr (m\<lparr>tables := v\<rparr>, st)))))"

definition parse_section_table :: "alloc \<Rightarrow> module \<Rightarrow> stream \<Rightarrow> module res" where
  "parse_section_table am m st =
     unwrap (stream_read_vu32 st) (\<lambda>(count, st).
     unwrap (vec_reserve (am T_table) (tables m) (unat count + vec_size (tables m))) (\<lambda>v.
     unwrap (for_res 0 (unat count) (parse_section_table_step am) (m\<lparr>tables := vec_set_fixed v True\<rparr>, st))
       section_end))"

definition parse_section_memory_step :: "alloc \<Rightarrow> nat \<Rightarrow> module \<times> stream \<Rightarrow> (module \<times> stream) res" where
  "parse_section_memory_step am i s =
     (case s of (m, st) \<Rightarrow>
        unwrap (parse_limits st WASM_MEM_MAX_PAGES) (\<lambda>(lim, st).
        unwrap (vec_push (am T_memory) (memories m)
                 \<lparr>mem_lim = lim, mem_linkage = linkage_none, mem_path = path_null\<rparr>) (\<lambda>v.
        Inr (m\<lparr>memories := v\<rparr>, st))))"

definition parse_section_memory :: "alloc \<Rightarrow> module \<Rightarrow> stream \<Rightarrow> module res" where
  "parse_section_memory am m st =
     unwrap (stream_read_vu32 st) (\<lambda>(count, st).
     unwrap (vec_reserve (am T_memory) (memories m) (unat count + vec_size (memories m))) (\<lambda>v.
     unwrap (for_res 0 (unat count) (parse_section_memory_step am) (m\<lparr>memories := vec_set_fixed v True\<rparr>, st))
       section_end))"

definition parse_section_global_step :: "alloc \<Rightarrow> nat \<Rightarrow> module \<times> stream \<Rightarrow> (module \<times> stream) res" where
  "parse_section_global_step am i s =
     (case s of (m, st) \<Rightarrow>
        unwrap (stream_read_vi7 st) (\<lambda>(valtype, st).
        if \<not> is_value_type valtype then Inl E_invalid
        else unwrap (stream_read_u8 st) (\<lambda>(mut, st).
          if mut \<noteq> 0 \<and> mut \<noteq> 1 then Inl E_malformed
          else unwrap (parse_const_expr st) (\<lambda>(expr, st).
            unwrap (vec_push (am T_global) (globals m)
                     \<lparr>g_valtype = valtype, g_mut = (mut \<noteq> 0), g_expr = expr, g_linkage = linkage_none,
                      g_path = path_null\<rparr>) (\<lambda>v.
            Inr (m\<lparr>globals := v\<rparr>, st))))))"

definition parse_section_global :: "alloc \<Rightarrow> module \<Rightarrow> stream \<Rightarrow> module res" where
  "parse_section_global am m st =
     unwrap (stream_read_vu32 st) (\<lambda>(count, st).
     unwrap (vec_reserve (am T_global) (globals m) (unat count + vec_size (globals m))) (\<lambda>v.
     unwrap (for_res 0 (unat count) (parse_section_global_step am) (m\<lparr>globals := vec_set_fixed v True\<rparr>, st))
       section_end))"

definition mark_exported :: "module \<Rightarrow> external_kind \<Rightarrow> nat \<Rightarrow> module res" where
  "mark_exported m kind idx =
     (case kind of
        EXTERNAL_KIND_Function \<Rightarrow>
          if idx \<ge> vec_size (funcs m) then Inl E_invalid
          else unwrap (vec_at (funcs m) idx) (\<lambda>x.
            unwrap (vec_set (funcs m) idx (x\<lparr>f_linkage := f_linkage x OR linkage_exported\<rparr>)) (\<lambda>v.
            Inr (m\<lparr>funcs := v\<rparr>)))
      | EXTERNAL_KIND_Table \<Rightarrow>
          if idx \<ge> vec_size (tables m) then Inl E_invalid
          else unwrap (vec_at (tables m) idx) (\<lambda>x.
            unwrap (vec_set (tables m) idx (x\<lparr>tab_linkage := tab_linkage x OR linkage_exported\<rparr>)) (\<lambda>v.
            Inr (m\<lparr>tables := v\<rparr>)))
      | EXTERNAL_KIND_Memory \<Rightarrow>
          if idx \<ge> vec_size (memories m) then Inl E_invalid
          else unwrap (vec_at (memories m) idx) (\<lambda>x.
            unwrap (vec_set (memories m) idx (x\<lparr>mem_linkage := mem_linkage x OR linkage_exported\<rparr>)) (\<lambda>v.
            Inr (m\<lparr>memories := v\<rparr>)))
      | EXTERNAL_KIND_Global \<Rightarrow>
          if idx \<ge> vec_size (globals m) then Inl E_invalid
          else unwrap (vec_at (globals m) idx) (\<lambda>x.
            unwrap (vec_set (globals m) idx (x\<lparr>g_linkage := g_linkage x OR linkage_exported\<rparr>)) (\<lambda>v.
            Inr (m\<lparr>globals := v\<rparr>))))"

definition parse_section_export_step :: "alloc \<Rightarrow> nat \<Rightarrow> module \<times> stream \<Rightarrow> (module \<times> stream) res" where
  "parse_section_export_step am i s =
     (case s of (m, st) \<Rightarrow>
        unwrap (parse_name st) (\<lambda>(name, st).
        unwrap (stream_read_u8 st) (\<lambda>(kind, st).
        case external_kind_of kind of
          None \<Rightarrow> Inl E_invalid
        | Some external_kind \<Rightarrow>
            unwrap (stream_read_vu32 st) (\<lambda>(idx, st).
            unwrap (mark_exported m external_kind (unat idx)) (\<lambda>m.
            unwrap (vec_push (am T_export) (exports m)
                     \<lparr>exp_name = name, exp_kind = external_kind, external_idx = idx\<rparr>) (\<lambda>v.
            Inr (m\<lparr>exports := v\<rparr>, st)))))))"

definition parse_section_export :: "alloc \<Rightarrow> module \<Rightarrow> stream \<Rightarrow> module res" where
  "parse_section_export am m st =
     unwrap (stream_read_vu32 st) (\<lambda>(count, st).
     unwrap (vec_reserve (am T_export) (exports m) (unat count)) (\<lambda>v.
     unwrap (for_res 0 (unat count) (parse_section_export_step am) (m\<lparr>exports := vec_set_fixed v True\<rparr>, st))
       section_end))"

definition parse_section_start :: "alloc \<Rightarrow> module \<Rightarrow> stream \<Rightarrow> module res" where
  "parse_section_start am m st =
     unwrap (stream_read_vu32 st) (\<lambda>(idx, st).
     if unat idx \<ge> vec_size (funcs m) then Inl E_invalid
     else unwrap (vec_at (funcs m) (unat idx)) (\<lambda>start_fn.
       if param_count (fn_type start_fn) \<noteq> 0 \<or> result_count (fn_type start_fn) \<noteq> 0 then Inl E_invalid
       else section_end (m\<lparr>start_funcidx := Some idx\<rparr>, st)))"

definition elem_kind_passive :: u8 where "elem_kind_passive = 1"
definition elem_kind_table_idx :: u8 where "elem_kind_table_idx = 2"
definition elem_kind_declarative :: u8 where "elem_kind_declarative = 3"
definition elem_kind_expr :: u8 where "elem_kind_expr = 4"
definition elem_kind_max :: u8 where "elem_kind_max = 7"

definition elem_mode_of :: "u8 \<Rightarrow> elem_mode" where
  "elem_mode_of kind =
     (if kind AND elem_kind_passive = 0 then elem_mode_active
      else if kind AND elem_kind_declarative = elem_kind_declarative then elem_mode_declarative
      else elem_mode_passive)"

text \<open>The table index and the offset expression of an active segment.\<close>

definition parse_elem_target :: "u8 \<Rightarrow> element \<Rightarrow> stream \<Rightarrow> (element \<times> stream) res" where
  "parse_elem_target kind e st =
     unwrap (if kind AND (elem_kind_passive OR elem_kind_table_idx) = elem_kind_table_idx
             then unwrap (stream_read_vu32 st) (\<lambda>(idx, st). Inr (e\<lparr>tableidx := idx\<rparr>, st))
             else Inr (e\<lparr>tableidx := 0\<rparr>, st)) (\<lambda>(e, st).
     if kind AND elem_kind_passive = 0
     then unwrap (parse_const_expr st) (\<lambda>(expr, st). Inr (e\<lparr>el_offset_expr := expr\<rparr>, st))
     else Inr (e, st))"

definition parse_elem_kind :: "u8 \<Rightarrow> element \<Rightarrow> stream \<Rightarrow> (element \<times> stream) res" where
  "parse_elem_kind kind e st =
     (let e = e\<lparr>el_valtype := TYPE_ID_funcref\<rparr> in
      if kind AND (elem_kind_passive OR elem_kind_table_idx) \<noteq> 0 then
        if kind AND elem_kind_expr \<noteq> 0 then
          unwrap (stream_read_vi7 st) (\<lambda>(t, st).
          if \<not> is_ref t then Inl E_malformed else Inr (e\<lparr>el_valtype := t\<rparr>, st))
        else
          unwrap (stream_read_u8 st) (\<lambda>(external_kind, st).
          if external_kind \<noteq> 0 then Inl E_invalid else Inr (e, st))
      else Inr (e, st))"

definition parse_elem_expr_step :: "alloc \<Rightarrow> nat \<Rightarrow> str vec \<times> stream \<Rightarrow> (str vec \<times> stream) res" where
  "parse_elem_expr_step am j s =
     (case s of (v, st) \<Rightarrow>
        unwrap (parse_const_expr st) (\<lambda>(expr, st).
        unwrap (vec_push (am T_str) v expr) (\<lambda>v. Inr (v, st))))"

definition parse_elem_func_step ::
  "alloc \<Rightarrow> nat \<Rightarrow> nat \<Rightarrow> u32 vec \<times> stream \<Rightarrow> (u32 vec \<times> stream) res" where
  "parse_elem_func_step am nfuncs j s =
     (case s of (v, st) \<Rightarrow>
        unwrap (stream_read_vu32 st) (\<lambda>(funcidx, st).
        if unat funcidx \<ge> nfuncs then Inl E_invalid
        else unwrap (ignore_err v (vec_push (am T_u32) v funcidx)) (\<lambda>v. Inr (v, st))))"

definition parse_elem_items :: "alloc \<Rightarrow> nat \<Rightarrow> u8 \<Rightarrow> element \<Rightarrow> stream \<Rightarrow> (element \<times> stream) res" where
  "parse_elem_items am nfuncs kind e st =
     unwrap (stream_read_vu32 st) (\<lambda>(idx_count, st).
     let e = e\<lparr>data_len := unat idx_count\<rparr> in
     if kind AND elem_kind_expr \<noteq> 0 then
       unwrap (vec_reserve (am T_str) (v_expr e) (unat idx_count)) (\<lambda>v.
       unwrap (for_res 0 (unat idx_count) (parse_elem_expr_step am) (vec_set_fixed v True, st)) (\<lambda>(v, st).
       Inr (e\<lparr>v_expr := v\<rparr>, st)))
     else
       unwrap (vec_reserve (am T_u32) (v_funcidx e) (unat idx_count)) (\<lambda>v.
       unwrap (for_res 0 (unat idx_count) (parse_elem_func_step am nfuncs) (vec_set_fixed v True, st)) (\<lambda>(v, st).
       Inr (e\<lparr>v_funcidx := v\<rparr>, st))))"

definition parse_elem :: "alloc \<Rightarrow> nat \<Rightarrow> element \<Rightarrow> stream \<Rightarrow> (element \<times> stream) res" where
  "parse_elem am nfuncs e st =
     unwrap (stream_read_u8 st) (\<lambda>(kind, st).
     if kind > elem_kind_max then Inl E_malformed
     else unwrap (parse_elem_target kind (e\<lparr>el_mode := elem_mode_of kind\<rparr>) st) (\<lambda>(e, st).
       unwrap (parse_elem_kind kind e st) (\<lambda>(e, st).
       parse_elem_items am nfuncs kind e st)))"

definition parse_section_element_step :: "alloc \<Rightarrow> nat \<Rightarrow> module \<times> stream \<Rightarrow> (module \<times> stream) res" where
  "parse_section_element_step am i s =
     (case s of (m, st) \<Rightarrow>
        unwrap (vec_at (elements m) i) (\<lambda>e.
        unwrap (parse_elem am (vec_size (funcs m)) e st) (\<lambda>(e, st).
        unwrap (vec_set (elements m) i e) (\<lambda>v. Inr (m\<lparr>elements := v\<rparr>, st)))))"

definition parse_section_element :: "alloc \<Rightarrow> module \<Rightarrow> stream \<Rightarrow> module res" where
  "parse_section_element am m st =
     unwrap (stream_read_vu32 st) (\<lambda>(count, st).
     unwrap (vec_resize (am T_element) element_zero (elements m) (unat count)) (\<lambda>v.
     unwrap (for_res 0 (vec_size v) (parse_section_element_step am)
              (m\<lparr>elements := vec_set_fixed v True\<rparr>, st))
       section_end))"

text \<open>Counting of the locals, on a copy of the stream, and the declaration loop.\<close>

definition count_locals_step :: "nat \<Rightarrow> u64 \<times> stream \<Rightarrow> (u64 \<times> stream) res" where
  "count_locals_step j s =
     (case s of (total_locals, st) \<Rightarrow>
        unwrap (stream_read_vu32 st) (\<lambda>(n, st).
        unwrap (stream_read_vi7 st) (\<lambda>(_, st).
        let total_locals = total_locals + ucast n in
        if total_locals > ucast u32_MAX then Inl E_malformed else Inr (total_locals, st))))"

definition push_local_step :: "alloc \<Rightarrow> type_id \<Rightarrow> nat \<Rightarrow> func \<Rightarrow> func res" where
  "push_local_step am valtype k fn =
     unwrap (vec_push (am T_type_id) (local_types fn) valtype) (\<lambda>v.
     Inr (fn\<lparr>local_types := v, local_count := local_count fn + 1\<rparr>))"

definition declare_locals_step :: "alloc \<Rightarrow> nat \<Rightarrow> func \<times> stream \<Rightarrow> (func \<times> stream) res" where
  "declare_locals_step am j s =
     (case s of (fn, code) \<Rightarrow>
        unwrap (stream_read_vu32 code) (\<lambda>(n, code).
        unwrap (stream_read_vi7 code) (\<lambda>(valtype, code).
        if \<not> is_value_type valtype then Inl E_invalid
        else unwrap (for_res 0 (unat n) (push_local_step am valtype) fn) (\<lambda>fn. Inr (fn, code)))))"

definition parse_func_body :: "alloc \<Rightarrow> func \<Rightarrow> stream \<Rightarrow> func res" where
  "parse_func_body am fn code =
     unwrap (stream_read_vu32 code) (\<lambda>(local_group_count, code).
     unwrap (for_res 0 (unat local_group_count) count_locals_step (0, code)) (\<lambda>_.
     unwrap (for_res 0 (unat local_group_count) (declare_locals_step am) (fn, code)) (\<lambda>(fn, code).
     if stream_remaining code = 0 then Inl E_invalid
     else unwrap (vec_shrink_to_fit (am T_type_id) (local_types fn)) (\<lambda>v.
       Inr (fn\<lparr>f_code := drop (st_p code) (st_s code), local_types := vec_set_fixed v True\<rparr>)))))"

definition parse_section_code_step :: "alloc \<Rightarrow> nat \<Rightarrow> module \<times> stream \<Rightarrow> (module \<times> stream) res" where
  "parse_section_code_step am i s =
     (case s of (m, st) \<Rightarrow>
        let idx = unat (imported_func_count m + of_nat i) in
        unwrap (vec_at (funcs m) idx) (\<lambda>fn.
        unwrap (stream_read_vu32 st) (\<lambda>(code_size, st).
        unwrap (stream_slice st (unat code_size)) (\<lambda>(code, st).
        unwrap (parse_func_body am fn code) (\<lambda>fn.
        unwrap (vec_set (funcs m) idx fn) (\<lambda>v. Inr (m\<lparr>funcs := v\<rparr>, st)))))))"

definition parse_section_code :: "alloc \<Rightarrow> module \<Rightarrow> stream \<Rightarrow> module res" where
  "parse_section_code am m st =
     unwrap (stream_read_vu32 st) (\<lambda>(count, st).
     if unat (count + imported_func_count m) \<noteq> vec_size (funcs m) then Inl E_malformed
     else unwrap (for_res 0 (unat count) (parse_section_code_step am) (m, st)) section_end)"

definition parse_section_data_step :: "alloc \<Rightarrow> nat \<Rightarrow> module \<times> stream \<Rightarrow> (module \<times> stream) res" where
  "parse_section_data_step am i s =
     (case s of (m, st) \<Rightarrow>
        unwrap (stream_read_vu32 st) (\<lambda>(data_kind, st).
        if data_kind > 2 then Inl E_malformed
        else
          unwrap (if data_kind AND 2 \<noteq> 0 then
                    unwrap (stream_read_vu32 st) (\<lambda>(idx, st). if idx \<noteq> 0 then Inl E_invalid else Inr (idx, st))
                  else Inr (0, st)) (\<lambda>(memidx, st).
          unwrap (if data_kind AND 1 = 0 then parse_const_expr st else Inr ([], st)) (\<lambda>(offset_expr, st).
          unwrap (stream_read_vu32 st) (\<lambda>(byte_len, st).
          unwrap (if byte_len \<noteq> 0 then
                    unwrap (stream_slice st (unat byte_len)) (\<lambda>(b, st). Inr (st_s b, st))
                  else Inr ([], st)) (\<lambda>(bytes, st).
          unwrap (vec_push (am T_data) (m_data m)
                   \<lparr>is_active = (data_kind AND 1 = 0), memidx = memidx, d_offset_expr = offset_expr,
                    d_bytes = bytes\<rparr>) (\<lambda>v.
          Inr (m\<lparr>m_data := v\<rparr>, st))))))))"

definition parse_section_data :: "alloc \<Rightarrow> module \<Rightarrow> stream \<Rightarrow> module res" where
  "parse_section_data am m st =
     unwrap (stream_read_vu32 st) (\<lambda>(count, st).
     if data_count m \<noteq> None \<and> data_count m \<noteq> Some count then Inl E_malformed
     else unwrap (vec_reserve (am T_data) (m_data m) (unat count)) (\<lambda>v.
       unwrap (for_res 0 (unat count) (parse_section_data_step am)
                (m\<lparr>data_count := Some count, m_data := vec_set_fixed v True\<rparr>, st))
         section_end))"

definition parse_section_data_count :: "alloc \<Rightarrow> module \<Rightarrow> stream \<Rightarrow> module res" where
  "parse_section_data_count am m st =
     unwrap (stream_read_vu32 st) (\<lambda>(n, st). section_end (m\<lparr>data_count := Some n\<rparr>, st))"

section \<open>The module\<close>

text \<open>The array \<open>order\<close>: the section identifiers in the order \<open>FOR_EACH_WASM_SECTION\<close> lists them.\<close>

definition section_order :: "nat list" where
  "section_order = [0, 1, 2, 3, 4, 5, 6, 7, 8, 9, 12, 10, 11]"

text \<open>\<open>while (idx < array_len(order) && order[idx] != id) idx++\<close>\<close>

definition order_scan :: "nat \<Rightarrow> nat \<Rightarrow> nat" where
  "order_scan idx sid = idx + length (takeWhile (\<lambda>x. x \<noteq> sid) (drop idx section_order))"

definition parse_section :: "alloc \<Rightarrow> nat \<Rightarrow> module \<Rightarrow> stream \<Rightarrow> module res" where
  "parse_section am sid m st =
     (if sid = 0 then parse_section_custom am m st
      else if sid = 1 then parse_section_type am m st
      else if sid = 2 then parse_section_import am m st
      else if sid = 3 then parse_section_function am m st
      else if sid = 4 then parse_section_table am m st
      else if sid = 5 then parse_section_memory am m st
      else if sid = 6 then parse_section_global am m st
      else if sid = 7 then parse_section_export am m st
      else if sid = 8 then parse_section_start am m st
      else if sid = 9 then parse_section_element am m st
      else if sid = 12 then parse_section_data_count am m st
      else if sid = 10 then parse_section_code am m st
      else if sid = 11 then parse_section_data am m st
      else Inl E_malformed)"

text \<open>One round of the section loop, and the loop.\<close>

definition parse_module_step :: "alloc \<Rightarrow> nat \<Rightarrow> module \<Rightarrow> stream \<Rightarrow> (nat \<times> module \<times> stream) res" where
  "parse_module_step am current_order_idx m st =
     unwrap (stream_read_vu7 st) (\<lambda>(b, st).
     unwrap (stream_read_vu32 st) (\<lambda>(payload_len, st).
     let sid = unat b;
         idx = (if sid \<noteq> 0 then order_scan current_order_idx sid else current_order_idx)
     in if sid \<noteq> 0 \<and> idx = length section_order then Inl E_malformed
        else if payload_len = 0 then Inr (idx, m, st)
        else unwrap (stream_slice st (unat payload_len)) (\<lambda>(section_content, st).
          unwrap (parse_section am sid m section_content) (\<lambda>m. Inr (idx, m, st)))))"

lemma stream_slice_remaining:
  "stream_slice st n = Inr (sl, st') \<Longrightarrow> stream_remaining st' \<le> stream_remaining st"
  by (auto simp: stream_slice_def stream_remaining_def stream_advance_def split: if_splits)

lemma parse_module_step_remaining:
  assumes "parse_module_step am k m st = Inr (k', m', st')"
  shows "stream_remaining st' < stream_remaining st"
proof -
  obtain b st1 n st2 where 1: "stream_read_vu7 st = Inr (b, st1)" "stream_read_vu32 st1 = Inr (n, st2)"
    using assms by (auto simp: parse_module_step_def res_simps simp del: split_paired_Ex)
  have "stream_remaining st' \<le> stream_remaining st2"
    using assms 1
    by (auto simp: parse_module_step_def res_simps Let_def dest: stream_slice_remaining split: if_splits)
  then show ?thesis
    using rd_vu7.read_remaining [OF 1(1)] rd_vu32.read_remaining [OF 1(2)] by linarith
qed

function parse_module_loop :: "alloc \<Rightarrow> nat \<Rightarrow> module \<Rightarrow> stream \<Rightarrow> module res" where
  "parse_module_loop am current_order_idx m st =
     (if stream_remaining st = 0 then Inr m
      else unwrap (parse_module_step am current_order_idx m st) (\<lambda>(idx, m, st).
        parse_module_loop am idx m st))"
  by pat_completeness auto
termination
  by (relation "measure (\<lambda>(am, k, m, st). stream_remaining st)") (auto dest!: parse_module_step_remaining)

declare parse_module_loop.simps [simp del]

definition parse_module :: "alloc \<Rightarrow> module \<Rightarrow> module res" where
  "parse_module am m =
     (if vstr_is_null (wasm_bin m) then Inl E_malformed
      else unwrap (stream_read_u32 (stream_from (vs_s (wasm_bin m)))) (\<lambda>(magic, st).
        if magic \<noteq> 0x6D736100 then Inl E_malformed
        else unwrap (stream_read_u32 st) (\<lambda>(version, st).
          if version \<noteq> 1 then Inl E_malformed
          else parse_module_loop am 0 (m\<lparr>format_version := version\<rparr>) st)))"

definition module_init :: "alloc \<Rightarrow> module \<Rightarrow> vstr \<Rightarrow> vstr \<Rightarrow> module res" where
  "module_init am m bin name =
     (let m = m\<lparr>wasm_bin := bin\<rparr> in
      unwrap (vec_push (am T_vstr) (names m) name) (\<lambda>v.
      unwrap (vec_shrink_to_fit (am T_vstr) v) (\<lambda>v.
      parse_module am (m\<lparr>names := v\<rparr>))))"

end
