(* ===== verification/Parser_Correct.thy ===== *)
theory Parser_Correct
  imports Parser Leb128
begin

text \<open>
  Correctness of the parser.

  The parts (limits, names, constant expressions) are readers in the sense of the locale
  \<open>reader\<close>.  \<open>wf_module\<close> is what a parsed module satisfies; it is kept by every section
  parser, in any order, except that imports may only be appended while nothing has been
  defined (\<open>imports_only\<close>), which the order of the sections guarantees.  \<open>sizes_le\<close> bounds
  the vectors by the bytes read, so that the 32-bit counters of the imports are exact for
  a binary shorter than \<open>2\<^sup>3\<^sup>2\<close> bytes.
\<close>

section \<open>The parts are readers\<close>

lemma parse_limits_ok:
  assumes "stream_is_valid st"
  shows "res_ok (\<lambda>(lim, st'). stream_moved st st' \<and> st_p st < st_p st' \<and>
           lim_min lim \<le> lim_max lim \<and> lim_max lim \<le> cap) (parse_limits st cap)"
  unfolding parse_limits_def
  using assms
  by (auto intro!: res_wp simp: unwrap_assoc not_less stream_moved_def split: prod.splits)

lemma stream_read_u8_value:
  "stream_read_u8 st = Inr (b, st') \<Longrightarrow> b = st_s st ! st_p st \<and> st_p st' = Suc (st_p st)"
  by (auto simp: stream_read_u8_def stream_peek_u8_def stream_advance_def split: if_splits)

lemma parse_const_expr_loop_ok:
  "stream_is_valid st \<Longrightarrow>
   res_ok (\<lambda>st'. stream_moved st st' \<and> st_p st < st_p st' \<and> st_s st ! (st_p st' - 1) = 0x0b)
     (parse_const_expr_loop st)"
proof (induction st rule: measure_induct_rule [of stream_remaining])
  case (less st)
  define Q where "Q st' \<longleftrightarrow> stream_moved st st' \<and> st_p st < st_p st' \<and> st_s st ! (st_p st' - 1) = 0x0b" for st'
  have IH: "res_ok Q (parse_const_expr_loop y)" if "stream_moved st y" "st_p st < st_p y" for y
    unfolding Q_def
    by (rule res_ok_mono [OF less.IH])
      (use that in \<open>auto simp: stream_moved_def stream_remaining_def stream_is_valid_def\<close>)
  have stop: "Q st'" if "stream_read_u8 st = Inr (0x0b, st')" for st'
    using that rd_u8.read_moved [OF less.prems that] stream_read_u8_value [OF that] by (simp add: Q_def)
  have "res_ok Q (parse_const_expr_loop st)"
    using less.prems
    by (subst parse_const_expr_loop.simps) (auto intro!: res_wp IH stop simp: stream_moved_def)
  then show ?case
    unfolding Q_def .
qed

definition const_expr_str :: "str \<Rightarrow> bool" where
  "const_expr_str s \<longleftrightarrow> s \<noteq> [] \<and> last s = 0x0b"

lemma parse_const_expr_ok:
  assumes "stream_is_valid st"
  shows "res_ok (\<lambda>(s, st'). stream_moved st st' \<and> st_p st < st_p st' \<and> const_expr_str s \<and>
           s = take (st_p st' - st_p st) (drop (st_p st) (st_s st))) (parse_const_expr st)"
  unfolding parse_const_expr_def
  by (rule res_ok_bind [OF parse_const_expr_loop_ok [OF assms]])
    (auto simp: const_expr_str_def stream_moved_def last_conv_nth min.absorb2)

lemma parse_name_ok:
  assumes "stream_is_valid st"
  shows "res_ok (\<lambda>(s, st'). stream_moved st st' \<and> st_p st < st_p st' \<and> is_valid_utf8 s) (parse_name st)"
proof -
  have "is_valid_utf8 []"
    by (simp add: is_valid_utf8_def is_valid_utf8_loop.simps)
  then show ?thesis
    unfolding parse_name_def
    using assms
    by (auto intro!: res_wp res_ok_bind_pair [OF stream_slice_ok] simp: stream_moved_def)
qed

interpretation rd_limits: reader "\<lambda>st. parse_limits st cap" for cap
proof
  show "stream_is_valid st \<Longrightarrow> res_ok (\<lambda>(x, st'). stream_moved st st' \<and> st_p st < st_p st') (parse_limits st cap)" for st
    by (rule res_ok_mono [OF parse_limits_ok]) auto
qed (simp add: parse_limits_def stream_read_u8_def stream_peek_u8_def)

interpretation rd_const_expr: reader parse_const_expr
proof
  show "stream_is_valid st \<Longrightarrow> res_ok (\<lambda>(x, st'). stream_moved st st' \<and> st_p st < st_p st') (parse_const_expr st)" for st
    by (rule res_ok_mono [OF parse_const_expr_ok]) auto
qed (simp add: parse_const_expr_def parse_const_expr_loop.simps stream_read_u8_def stream_peek_u8_def)

interpretation rd_name: reader parse_name
proof
  show "stream_is_valid st \<Longrightarrow> res_ok (\<lambda>(x, st'). stream_moved st st' \<and> st_p st < st_p st') (parse_name st)" for st
    by (rule res_ok_mono [OF parse_name_ok]) auto
qed (simp add: parse_name_def stream_read_vu32_def stream_read_leb_unsigned_def)

text \<open>The value a reader returns, for use after the bind rules.\<close>

lemma parse_limits_value:
  "stream_is_valid st \<Longrightarrow> parse_limits st cap = Inr (lim, st') \<Longrightarrow>
   lim_min lim \<le> lim_max lim \<and> lim_max lim \<le> cap"
  using res_okD [OF parse_limits_ok] by fastforce

lemma parse_const_expr_value:
  "stream_is_valid st \<Longrightarrow> parse_const_expr st = Inr (s, st') \<Longrightarrow> const_expr_str s"
  using res_okD [OF parse_const_expr_ok] by fastforce

lemma parse_name_value:
  "stream_is_valid st \<Longrightarrow> parse_name st = Inr (s, st') \<Longrightarrow> is_valid_utf8 s"
  using res_okD [OF parse_name_ok] by fastforce

lemmas [res_wp] = rd_limits.read_bind rd_const_expr.read_bind rd_name.read_bind

section \<open>Function types\<close>

definition type_byte :: "u8 \<Rightarrow> type_id" where
  "type_byte u = sint (if u AND 0x40 \<noteq> 0 then u OR 0x80 else u)"

definition wf_type_str :: "str \<Rightarrow> bool" where
  "wf_type_str s \<longleftrightarrow> list_all (\<lambda>b. b < 0x80 \<and> is_value_type (type_byte b)) s"

definition wf_func_type :: "func_type \<Rightarrow> bool" where
  "wf_func_type ft \<longleftrightarrow>
     length (params ft) = unat (param_count ft) \<and> length (results ft) = unat (result_count ft) \<and>
     param_count ft \<le> RESULT_TYPE_COUNT_MAX \<and> result_count ft \<le> RESULT_TYPE_COUNT_MAX \<and>
     wf_type_str (params ft) \<and> wf_type_str (results ft)"

lemma stream_read_vi7_value:
  "stream_read_vi7 st = Inr (t, st') \<Longrightarrow>
   st_p st < length (st_s st) \<and> t = type_byte (st_s st ! st_p st) \<and> st_s st ! st_p st < 0x80 \<and>
   st' = stream_advance st 1"
  by (auto simp: stream_read_vi7_def type_byte_def Let_def stream_remaining_def split: if_splits)

lemma check_value_types_ok:
  assumes "stream_is_valid st"
  shows "res_ok (\<lambda>st'. stream_moved st st' \<and> st_p st' = st_p st + n \<and>
           wf_type_str (take n (drop (st_p st) (st_s st)))) (for_res 0 n check_value_type_step st)"
proof -
  let ?I = "\<lambda>j st'. stream_moved st st' \<and> st_p st' = st_p st + j \<and> wf_type_str (take j (drop (st_p st) (st_s st)))"
  have "res_ok (?I (0 + n)) (for_res 0 n check_value_type_step st)"
  proof (rule for_res_ok_index)
    show "?I 0 st"
      using assms by (simp add: stream_moved_refl wf_type_str_def)
    fix j st' assume "?I j st'"
    then show "res_ok (?I (Suc j)) (check_value_type_step j st')"
      unfolding check_value_type_step_def
      by (auto intro!: res_wp dest!: stream_read_vi7_value
          simp: stream_moved_def stream_advance_def stream_is_valid_def wf_type_str_def take_Suc_conv_app_nth)
  qed
  then show ?thesis by simp
qed

lemma parse_type_vec_ok:
  assumes "stream_is_valid st"
  shows "res_ok (\<lambda>((count, s), st'). stream_moved st st' \<and> st_p st < st_p st' \<and> count \<le> RESULT_TYPE_COUNT_MAX \<and>
           length s = unat count \<and> wf_type_str s) (parse_type_vec st)"
  unfolding parse_type_vec_def Let_def
  using assms
  by (auto intro!: res_wp res_ok_bind [OF check_value_types_ok] simp: stream_moved_def wf_type_str_def)

section \<open>The invariant of a module under construction\<close>

text \<open>The imported entities come first, and the counter says how many they are.\<close>

definition imported_prefix :: "('a \<Rightarrow> u32) \<Rightarrow> 'a vec \<Rightarrow> u32 \<Rightarrow> bool" where
  "imported_prefix lk v n \<longleftrightarrow> vec_is_valid v \<and> unat n \<le> vec_size v \<and>
     (\<forall>i < vec_size v. is_imported (lk (vdata v ! i)) \<longleftrightarrow> i < unat n)"

definition wf_limits :: "limits \<Rightarrow> u32 \<Rightarrow> bool" where
  "wf_limits l cap \<longleftrightarrow> lim_min l \<le> lim_max l \<and> lim_max l \<le> cap"

definition wf_func :: "func_type list \<Rightarrow> func \<Rightarrow> bool" where
  "wf_func fts f \<longleftrightarrow>
     fn_type f \<in> set fts \<and> vec_is_valid (local_types f) \<and> list_all is_value_type (vdata (local_types f)) \<and>
     f_jt f = vec_empty \<and>
     (\<not> is_imported (f_linkage f) \<longrightarrow>
        local_count f = param_count (fn_type f) + of_nat (vec_size (local_types f)))"

definition wf_element :: "nat \<Rightarrow> element \<Rightarrow> bool" where
  "wf_element nfuncs e \<longleftrightarrow>
     vec_is_valid (v_funcidx e) \<and> vec_is_valid (v_expr e) \<and>
     (\<forall>i \<in> set (vdata (v_funcidx e)). unat i < nfuncs) \<and> list_all const_expr_str (vdata (v_expr e)) \<and>
     (vfixed (v_funcidx e) \<or> v_funcidx e = vec_empty) \<and> (vfixed (v_expr e) \<or> v_expr e = vec_empty) \<and>
     (el_mode e = elem_mode_active \<longrightarrow> const_expr_str (el_offset_expr e)) \<and>
     (data_len e = vec_size (v_funcidx e) \<or> data_len e = vec_size (v_expr e))"

definition wf_data :: "data \<Rightarrow> bool" where
  "wf_data d \<longleftrightarrow> memidx d = 0 \<and> (is_active d \<longrightarrow> const_expr_str (d_offset_expr d))"

definition wf_types :: "func_type vec \<Rightarrow> bool" where
  "wf_types v \<longleftrightarrow> vec_is_valid v \<and> list_all wf_func_type (vdata v)"

definition wf_funcs :: "func_type list \<Rightarrow> func vec \<Rightarrow> u32 \<Rightarrow> bool" where
  "wf_funcs fts v n \<longleftrightarrow> imported_prefix f_linkage v n \<and> list_all (wf_func fts) (vdata v)"

definition wf_tables :: "table vec \<Rightarrow> u32 \<Rightarrow> bool" where
  "wf_tables v n \<longleftrightarrow> imported_prefix tab_linkage v n \<and>
     list_all (\<lambda>t. is_ref (tab_valtype t) \<and> wf_limits (tab_lim t) u32_MAX) (vdata v)"

definition wf_memories :: "memory vec \<Rightarrow> u32 \<Rightarrow> bool" where
  "wf_memories v n \<longleftrightarrow> imported_prefix mem_linkage v n \<and>
     list_all (\<lambda>x. wf_limits (mem_lim x) WASM_MEM_MAX_PAGES) (vdata v)"

definition wf_globals :: "global vec \<Rightarrow> u32 \<Rightarrow> bool" where
  "wf_globals v n \<longleftrightarrow> imported_prefix g_linkage v n \<and>
     list_all (\<lambda>g. is_value_type (g_valtype g) \<and> (\<not> is_imported (g_linkage g) \<longrightarrow> const_expr_str (g_expr g)))
       (vdata v)"

text \<open>The index of an export is in range and the entity it names is marked as exported.\<close>

definition exported_at :: "('a \<Rightarrow> u32) \<Rightarrow> 'a vec \<Rightarrow> u32 \<Rightarrow> bool" where
  "exported_at lk v i \<longleftrightarrow> unat i < vec_size v \<and> is_exported (lk (vdata v ! unat i))"

definition wf_export :: "func vec \<Rightarrow> table vec \<Rightarrow> memory vec \<Rightarrow> global vec \<Rightarrow> export \<Rightarrow> bool" where
  "wf_export fs ts ms gs e \<longleftrightarrow> is_valid_utf8 (exp_name e) \<and>
     (case exp_kind e of
        EXTERNAL_KIND_Function \<Rightarrow> exported_at f_linkage fs (external_idx e)
      | EXTERNAL_KIND_Table \<Rightarrow> exported_at tab_linkage ts (external_idx e)
      | EXTERNAL_KIND_Memory \<Rightarrow> exported_at mem_linkage ms (external_idx e)
      | EXTERNAL_KIND_Global \<Rightarrow> exported_at g_linkage gs (external_idx e))"

definition wf_exports :: "func vec \<Rightarrow> table vec \<Rightarrow> memory vec \<Rightarrow> global vec \<Rightarrow> export vec \<Rightarrow> bool" where
  "wf_exports fs ts ms gs v \<longleftrightarrow> vec_is_valid v \<and> list_all (wf_export fs ts ms gs) (vdata v)"

definition wf_start :: "func vec \<Rightarrow> u32 option \<Rightarrow> bool" where
  "wf_start fs s \<longleftrightarrow> (\<forall>i. s = Some i \<longrightarrow>
     unat i < vec_size fs \<and> param_count (fn_type (vdata fs ! unat i)) = 0 \<and>
     result_count (fn_type (vdata fs ! unat i)) = 0)"

definition wf_elements :: "nat \<Rightarrow> element vec \<Rightarrow> bool" where
  "wf_elements nfuncs v \<longleftrightarrow> vec_is_valid v \<and> list_all (wf_element nfuncs) (vdata v)"

definition wf_datas :: "data vec \<Rightarrow> bool" where
  "wf_datas v \<longleftrightarrow> vec_is_valid v \<and> list_all wf_data (vdata v)"

definition wf_module :: "module \<Rightarrow> bool" where
  "wf_module m \<longleftrightarrow> wf_types (func_types m) \<and> wf_funcs (vdata (func_types m)) (funcs m) (imported_func_count m) \<and>
     wf_tables (tables m) (imported_table_count m) \<and> wf_memories (memories m) (imported_mem_count m) \<and>
     wf_globals (globals m) (imported_global_count m) \<and>
     wf_exports (funcs m) (tables m) (memories m) (globals m) (exports m) \<and>
     wf_start (funcs m) (start_funcidx m) \<and> wf_elements (vec_size (funcs m)) (elements m) \<and>
     wf_datas (m_data m)"

text \<open>No section of defined functions, tables, memories or globals has been parsed yet.\<close>

definition imports_only :: "module \<Rightarrow> bool" where
  "imports_only m \<longleftrightarrow>
     vec_size (funcs m) = unat (imported_func_count m) \<and> vec_size (tables m) = unat (imported_table_count m) \<and>
     vec_size (memories m) = unat (imported_mem_count m) \<and> vec_size (globals m) = unat (imported_global_count m)"

definition sizes_le :: "nat \<Rightarrow> module \<Rightarrow> bool" where
  "sizes_le n m \<longleftrightarrow> vec_size (funcs m) \<le> n \<and> vec_size (tables m) \<le> n \<and> vec_size (memories m) \<le> n \<and>
     vec_size (globals m) \<le> n"

text \<open>
  The state of a section parser: the module is well formed, the stream has moved inside the
  section, and every entity has taken at least one byte.
\<close>

definition sec_inv :: "(module \<Rightarrow> bool) \<Rightarrow> nat \<Rightarrow> stream \<Rightarrow> module \<times> stream \<Rightarrow> bool" where
  "sec_inv R n st0 s \<longleftrightarrow> (case s of (m, st) \<Rightarrow>
     wf_module m \<and> R m \<and> stream_moved st0 st \<and> sizes_le (n + st_p st) m)"

subsection \<open>Growth and update of the parts\<close>

lemma wf_module_zero: "wf_module (module_zero\<lparr>names := ns, wasm_bin := bin\<rparr>)"
  by (simp add: wf_module_def module_zero_def wf_types_def wf_funcs_def wf_tables_def wf_memories_def
      wf_globals_def wf_exports_def wf_start_def wf_elements_def wf_datas_def imported_prefix_def)

lemma sizes_le_mono: "sizes_le n m \<Longrightarrow> n \<le> n' \<Longrightarrow> sizes_le n' m"
  by (auto simp: sizes_le_def)

lemma vec_size_length [simp]: "vec_size v = length (vdata v)"
  by (simp add: vec_size_def)

lemma sizes_le_frame [simp]:
  "sizes_le n (m\<lparr>func_types := a\<rparr>) = sizes_le n m" "sizes_le n (m\<lparr>exports := b\<rparr>) = sizes_le n m"
  "sizes_le n (m\<lparr>start_funcidx := c\<rparr>) = sizes_le n m" "sizes_le n (m\<lparr>elements := d\<rparr>) = sizes_le n m"
  "sizes_le n (m\<lparr>data_count := e\<rparr>) = sizes_le n m" "sizes_le n (m\<lparr>m_data := f\<rparr>) = sizes_le n m"
  "sizes_le n (m\<lparr>format_version := g\<rparr>) = sizes_le n m"
  by (simp_all add: sizes_le_def)

lemma imports_only_frame [simp]:
  "imports_only (m\<lparr>func_types := a\<rparr>) = imports_only m" "imports_only (m\<lparr>format_version := g\<rparr>) = imports_only m"
  by (simp_all add: imports_only_def)

lemma wf_module_frame [simp]:
  "wf_module (m\<lparr>data_count := e\<rparr>) = wf_module m" "wf_module (m\<lparr>format_version := g\<rparr>) = wf_module m"
  by (simp_all add: wf_module_def)

lemma nth_update_if: "j < length xs \<Longrightarrow> xs[i := x] ! j = (if i = j then x else xs ! j)"
  by simp

lemma parse_limits_wf:
  "parse_limits st cap = Inr (lim, st') \<Longrightarrow> stream_is_valid st \<Longrightarrow> wf_limits lim cap"
  using parse_limits_value by (simp add: wf_limits_def)

lemma imported_prefix_push_imported:
  assumes "imported_prefix lk v n" "vec_size v = unat n" "vec_size v + 1 < 2 ^ 32"
    and "vdata v' = vdata v @ [x]" "vec_is_valid v'" "is_imported (lk x)"
  shows "imported_prefix lk v' (n + 1) \<and> vec_size v' = unat (n + 1)"
proof -
  have "unat (n + 1) = unat n + 1"
    using assms(2,3) by (subst unat_add_lem [THEN iffD1]) (simp_all)
  then show ?thesis
    using assms by (auto simp: imported_prefix_def nth_append less_Suc_eq)
qed

lemma imported_prefix_push_none:
  assumes "imported_prefix lk v n" and "vdata v' = vdata v @ [x]" "vec_is_valid v'" "\<not> is_imported (lk x)"
  shows "imported_prefix lk v' n"
  using assms by (auto simp: imported_prefix_def nth_append less_Suc_eq)

lemma imported_prefix_update:
  assumes "imported_prefix lk v n" and "vdata v' = (vdata v)[i := x]" "vec_is_valid v'"
    "is_imported (lk x) = is_imported (lk (vdata v ! i))"
  shows "imported_prefix lk v' n"
  using assms by (auto simp: imported_prefix_def nth_update_if)

lemma imported_prefix_same:
  "imported_prefix lk v n \<Longrightarrow> vdata v' = vdata v \<Longrightarrow> vec_is_valid v' \<Longrightarrow> imported_prefix lk v' n"
  by (auto simp: imported_prefix_def)

text \<open>Vectors that keep their entries: exports stay valid.\<close>

definition keeps :: "('a \<Rightarrow> u32) \<Rightarrow> 'a vec \<Rightarrow> 'a vec \<Rightarrow> bool" where
  "keeps lk v v' \<longleftrightarrow> vec_size v \<le> vec_size v' \<and>
     (\<forall>i < vec_size v. is_exported (lk (vdata v ! i)) \<longrightarrow> is_exported (lk (vdata v' ! i)))"

lemma keeps_refl [simp]: "keeps lk v v"
  by (simp add: keeps_def)

lemma keeps_append: "vdata v' = vdata v @ xs \<Longrightarrow> keeps lk v v'"
  by (auto simp: keeps_def nth_append)

lemma keeps_update:
  "vdata v' = (vdata v)[i := x] \<Longrightarrow> (is_exported (lk (vdata v ! i)) \<Longrightarrow> is_exported (lk x)) \<Longrightarrow> keeps lk v v'"
  by (auto simp: keeps_def nth_update_if)

lemma exported_at_keeps: "exported_at lk v i \<Longrightarrow> keeps lk v v' \<Longrightarrow> exported_at lk v' i"
  by (auto simp: exported_at_def keeps_def)

lemma wf_exports_keeps:
  assumes "wf_exports fs ts ms gs v"
    and "keeps f_linkage fs fs'" "keeps tab_linkage ts ts'" "keeps mem_linkage ms ms'" "keeps g_linkage gs gs'"
  shows "wf_exports fs' ts' ms' gs' v"
  using assms
  by (auto simp: wf_exports_def list_all_iff wf_export_def intro: exported_at_keeps split: external_kind.splits)

lemma wf_start_append: "wf_start fs s \<Longrightarrow> vdata fs' = vdata fs @ xs \<Longrightarrow> wf_start fs' s"
  by (auto simp: wf_start_def nth_append)

lemma wf_start_update:
  "wf_start fs s \<Longrightarrow> vdata fs' = (vdata fs)[i := f] \<Longrightarrow> fn_type f = fn_type (vdata fs ! i) \<Longrightarrow> wf_start fs' s"
  by (auto simp: wf_start_def nth_update_if)

lemma wf_elements_mono: "wf_elements n v \<Longrightarrow> n \<le> n' \<Longrightarrow> wf_elements n' v"
  by (fastforce simp: wf_elements_def wf_element_def list_all_iff)

lemma wf_funcs_mono: "wf_funcs fts v n \<Longrightarrow> set fts \<subseteq> set fts' \<Longrightarrow> wf_funcs fts' v n"
  by (auto simp: wf_funcs_def wf_func_def list_all_iff)

text \<open>A vector replaced by one with the same entries: \<open>vec_reserve\<close> and \<open>vec_set_fixed\<close>.\<close>

lemma wf_same_entries:
  assumes "wf_module m"
  shows "vdata v1 = vdata (func_types m) \<Longrightarrow> vec_is_valid v1 \<Longrightarrow> wf_module (m\<lparr>func_types := v1\<rparr>)"
    and "vdata v2 = vdata (funcs m) \<Longrightarrow> vec_is_valid v2 \<Longrightarrow> wf_module (m\<lparr>funcs := v2\<rparr>)"
    and "vdata v3 = vdata (tables m) \<Longrightarrow> vec_is_valid v3 \<Longrightarrow> wf_module (m\<lparr>tables := v3\<rparr>)"
    and "vdata v4 = vdata (memories m) \<Longrightarrow> vec_is_valid v4 \<Longrightarrow> wf_module (m\<lparr>memories := v4\<rparr>)"
    and "vdata v5 = vdata (globals m) \<Longrightarrow> vec_is_valid v5 \<Longrightarrow> wf_module (m\<lparr>globals := v5\<rparr>)"
    and "vdata v6 = vdata (exports m) \<Longrightarrow> vec_is_valid v6 \<Longrightarrow> wf_module (m\<lparr>exports := v6\<rparr>)"
    and "vdata v7 = vdata (m_data m) \<Longrightarrow> vec_is_valid v7 \<Longrightarrow> wf_module (m\<lparr>m_data := v7\<rparr>)"
  using assms
  by (auto simp: wf_module_def wf_types_def wf_funcs_def wf_tables_def wf_memories_def wf_globals_def
      wf_exports_def wf_export_def wf_start_def wf_datas_def imported_prefix_def exported_at_def list_all_iff
      split: external_kind.splits)

text \<open>An entry appended by \<open>vec_push\<close>.\<close>

lemma wf_push_type:
  assumes "wf_module m" "vdata v = vdata (func_types m) @ [ft]" "vec_is_valid v" "wf_func_type ft"
  shows "wf_module (m\<lparr>func_types := v\<rparr>)"
  using assms by (auto simp: wf_module_def wf_types_def intro: wf_funcs_mono)

lemma wf_push_func:
  assumes "wf_module m" "vdata v = vdata (funcs m) @ [f]" "vec_is_valid v"
    and "imported_prefix f_linkage v n" "wf_func (vdata (func_types m)) f"
  shows "wf_module (m\<lparr>funcs := v, imported_func_count := n\<rparr>)"
  using assms
  by (auto simp: wf_module_def wf_funcs_def
      intro: wf_start_append wf_elements_mono wf_exports_keeps keeps_append)

lemma wf_push_table:
  assumes "wf_module m" "vdata v = vdata (tables m) @ [t]" "vec_is_valid v"
    and "imported_prefix tab_linkage v n" "is_ref (tab_valtype t)" "wf_limits (tab_lim t) u32_MAX"
  shows "wf_module (m\<lparr>tables := v, imported_table_count := n\<rparr>)"
  using assms by (auto simp: wf_module_def wf_tables_def intro: wf_exports_keeps keeps_append)

lemma wf_push_memory:
  assumes "wf_module m" "vdata v = vdata (memories m) @ [x]" "vec_is_valid v"
    and "imported_prefix mem_linkage v n" "wf_limits (mem_lim x) WASM_MEM_MAX_PAGES"
  shows "wf_module (m\<lparr>memories := v, imported_mem_count := n\<rparr>)"
  using assms by (auto simp: wf_module_def wf_memories_def intro: wf_exports_keeps keeps_append)

lemma wf_push_global:
  assumes "wf_module m" "vdata v = vdata (globals m) @ [g]" "vec_is_valid v"
    and "imported_prefix g_linkage v n" "is_value_type (g_valtype g)"
      "\<not> is_imported (g_linkage g) \<Longrightarrow> const_expr_str (g_expr g)"
  shows "wf_module (m\<lparr>globals := v, imported_global_count := n\<rparr>)"
  using assms by (auto simp: wf_module_def wf_globals_def intro: wf_exports_keeps keeps_append)

lemma wf_push_export:
  assumes "wf_module m" "vdata v = vdata (exports m) @ [e]" "vec_is_valid v"
    and "wf_export (funcs m) (tables m) (memories m) (globals m) e"
  shows "wf_module (m\<lparr>exports := v\<rparr>)"
  using assms by (auto simp: wf_module_def wf_exports_def)

lemma wf_push_data:
  assumes "wf_module m" "vdata v = vdata (m_data m) @ [d]" "vec_is_valid v" "wf_data d"
  shows "wf_module (m\<lparr>m_data := v\<rparr>)"
  using assms by (auto simp: wf_module_def wf_datas_def)

lemma wf_module_valid:
  assumes "wf_module m"
  shows "vec_is_valid (func_types m)" "vec_is_valid (funcs m)" "vec_is_valid (tables m)"
    "vec_is_valid (memories m)" "vec_is_valid (globals m)" "vec_is_valid (exports m)"
    "vec_is_valid (elements m)" "vec_is_valid (m_data m)"
  using assms
  by (auto simp: wf_module_def wf_types_def wf_funcs_def wf_tables_def wf_memories_def wf_globals_def
      wf_exports_def wf_elements_def wf_datas_def imported_prefix_def)

section \<open>The section parsers\<close>

lemma section_end_ok: "sec_inv R n st s \<Longrightarrow>
  res_ok (\<lambda>m. wf_module m \<and> R m \<and> sizes_le (n + length (st_s st)) m) (section_end s)"
  by (auto simp: sec_inv_def section_end_def stream_moved_def elim!: sizes_le_mono)

text \<open>
  The shape of all section parsers: the count, a change that keeps the invariant, a loop
  whose body keeps it, and the check that the section is used up.
\<close>

lemma section_loop_ok:
  assumes "sec_inv R n st0 s"
    and "\<And>i s. sec_inv R n st0 s \<Longrightarrow> res_ok (sec_inv R n st0) (body i s)"
  shows "res_ok (\<lambda>m. wf_module m \<and> R m \<and> sizes_le (n + length (st_s st0)) m)
           (unwrap (for_res 0 k body s) section_end)"
  by (rule res_ok_bind [OF for_res_ok [where I = "sec_inv R n st0"]]) (auto intro: assms section_end_ok)

lemma parse_section_type_step_ok:
  assumes "sec_inv imports_only n st0 s"
  shows "res_ok (sec_inv imports_only n st0) (parse_section_type_step am i s)"
proof -
  obtain m st where s: "s = (m, st)" by fastforce
  have inv: "wf_module m" "imports_only m" "stream_moved st0 st" "sizes_le (n + st_p st) m"
    and st: "stream_is_valid st"
    using assms by (auto simp: sec_inv_def s intro: stream_moved_valid)
  show ?thesis
    unfolding parse_section_type_step_def s prod.case
    using st inv
    by (auto intro!: res_wp res_ok_bind [OF parse_type_vec_ok] res_ok_bind [OF vec_push_ok] stream_moved_valid wf_module_valid
        wf_push_type simp: sec_inv_def wf_func_type_def imports_only_def stream_moved_def sizes_le_def)
qed

lemma parse_section_type_ok:
  assumes "wf_module m" "imports_only m" "sizes_le n m" "st_p st = 0"
  shows "res_ok (\<lambda>m'. wf_module m' \<and> imports_only m' \<and> sizes_le (n + length (st_s st)) m') (parse_section_type am m st)"
proof -
  have st: "stream_is_valid st" using assms(4) by (simp add: stream_is_valid_def)
  show ?thesis
    unfolding parse_section_type_def
    using st assms
    by (auto intro!: res_wp res_ok_bind [OF vec_reserve_ok] section_loop_ok parse_section_type_step_ok wf_module_valid
        wf_same_entries simp: sec_inv_def elim!: sizes_le_mono)
qed

subsection \<open>Imports\<close>

definition imp_ok :: "nat \<Rightarrow> module \<Rightarrow> bool" where
  "imp_ok k m \<longleftrightarrow> wf_module m \<and> imports_only m \<and> sizes_le k m"

lemma imp_ok_valid:
  assumes "imp_ok k m"
  shows "vec_is_valid (funcs m)" "vec_is_valid (tables m)" "vec_is_valid (memories m)" "vec_is_valid (globals m)"
  using assms wf_module_valid by (auto simp: imp_ok_def)

lemma import_func_grow:
  assumes "imp_ok k m" "k < 4294967295"
    and "vdata v = vdata (funcs m) @ [f]" "vec_is_valid v" "is_imported (f_linkage f)"
      "wf_func (vdata (func_types m)) f"
  shows "imp_ok (Suc k) (m\<lparr>funcs := v, imported_func_count := imported_func_count m + 1\<rparr>)"
proof -
  have "imported_prefix f_linkage v (imported_func_count m + 1) \<and> vec_size v = unat (imported_func_count m + 1)"
    by (rule imported_prefix_push_imported [where lk = f_linkage, OF _ _ _ assms(3,4,5)])
      (use assms in \<open>auto simp: wf_module_def wf_funcs_def imp_ok_def imports_only_def sizes_le_def\<close>)
  then show ?thesis
    using assms by (auto intro!: wf_push_func simp: imp_ok_def imports_only_def sizes_le_def)
qed

lemma import_table_grow:
  assumes "imp_ok k m" "k < 4294967295"
    and "vdata v = vdata (tables m) @ [x]" "vec_is_valid v" "is_imported (tab_linkage x)"
      "is_ref (tab_valtype x)" "wf_limits (tab_lim x) u32_MAX"
  shows "imp_ok (Suc k) (m\<lparr>tables := v, imported_table_count := imported_table_count m + 1\<rparr>)"
proof -
  have "imported_prefix tab_linkage v (imported_table_count m + 1) \<and> vec_size v = unat (imported_table_count m + 1)"
    by (rule imported_prefix_push_imported [where lk = tab_linkage, OF _ _ _ assms(3,4,5)])
      (use assms in \<open>auto simp: wf_module_def wf_tables_def imp_ok_def imports_only_def sizes_le_def\<close>)
  then show ?thesis
    using assms by (auto intro!: wf_push_table simp: imp_ok_def imports_only_def sizes_le_def)
qed

lemma import_memory_grow:
  assumes "imp_ok k m" "k < 4294967295"
    and "vdata v = vdata (memories m) @ [x]" "vec_is_valid v" "is_imported (mem_linkage x)"
      "wf_limits (mem_lim x) WASM_MEM_MAX_PAGES"
  shows "imp_ok (Suc k) (m\<lparr>memories := v, imported_mem_count := imported_mem_count m + 1\<rparr>)"
proof -
  have "imported_prefix mem_linkage v (imported_mem_count m + 1) \<and> vec_size v = unat (imported_mem_count m + 1)"
    by (rule imported_prefix_push_imported [where lk = mem_linkage, OF _ _ _ assms(3,4,5)])
      (use assms in \<open>auto simp: wf_module_def wf_memories_def imp_ok_def imports_only_def sizes_le_def\<close>)
  then show ?thesis
    using assms by (auto intro!: wf_push_memory simp: imp_ok_def imports_only_def sizes_le_def)
qed

lemma import_global_grow:
  assumes "imp_ok k m" "k < 4294967295"
    and "vdata v = vdata (globals m) @ [x]" "vec_is_valid v" "is_imported (g_linkage x)"
      "is_value_type (g_valtype x)"
  shows "imp_ok (Suc k) (m\<lparr>globals := v, imported_global_count := imported_global_count m + 1\<rparr>)"
proof -
  have "imported_prefix g_linkage v (imported_global_count m + 1) \<and> vec_size v = unat (imported_global_count m + 1)"
    by (rule imported_prefix_push_imported [where lk = g_linkage, OF _ _ _ assms(3,4,5)])
      (use assms in \<open>auto simp: wf_module_def wf_globals_def imp_ok_def imports_only_def sizes_le_def\<close>)
  then show ?thesis
    using assms by (auto intro!: wf_push_global simp: imp_ok_def imports_only_def sizes_le_def)
qed

lemma import_func_bind:
  assumes "imp_ok k m" "k < 4294967295" "is_imported (f_linkage f)" "wf_func (vdata (func_types m)) f"
    and "\<And>v. imp_ok (Suc k) (m\<lparr>funcs := v, imported_func_count := imported_func_count m + 1\<rparr>) \<Longrightarrow> res_ok Q (g v)"
  shows "res_ok Q (unwrap (vec_push a (funcs m) f) g)"
  by (rule res_ok_bind [OF vec_push_ok])
    (use assms import_func_grow [OF assms(1,2)] in \<open>auto intro: imp_ok_valid\<close>)

lemma import_table_bind:
  assumes "imp_ok k m" "k < 4294967295" "is_imported (tab_linkage x)" "is_ref (tab_valtype x)" "wf_limits (tab_lim x) u32_MAX"
    and "\<And>v. imp_ok (Suc k) (m\<lparr>tables := v, imported_table_count := imported_table_count m + 1\<rparr>) \<Longrightarrow> res_ok Q (g v)"
  shows "res_ok Q (unwrap (vec_push a (tables m) x) g)"
  by (rule res_ok_bind [OF vec_push_ok])
    (use assms import_table_grow [OF assms(1,2)] in \<open>auto intro: imp_ok_valid\<close>)

lemma import_memory_bind:
  assumes "imp_ok k m" "k < 4294967295" "is_imported (mem_linkage x)" "wf_limits (mem_lim x) WASM_MEM_MAX_PAGES"
    and "\<And>v. imp_ok (Suc k) (m\<lparr>memories := v, imported_mem_count := imported_mem_count m + 1\<rparr>) \<Longrightarrow> res_ok Q (g v)"
  shows "res_ok Q (unwrap (vec_push a (memories m) x) g)"
  by (rule res_ok_bind [OF vec_push_ok])
    (use assms import_memory_grow [OF assms(1,2)] in \<open>auto intro: imp_ok_valid\<close>)

lemma import_global_bind:
  assumes "imp_ok k m" "k < 4294967295" "is_imported (g_linkage x)" "is_value_type (g_valtype x)"
    and "\<And>v. imp_ok (Suc k) (m\<lparr>globals := v, imported_global_count := imported_global_count m + 1\<rparr>) \<Longrightarrow> res_ok Q (g v)"
  shows "res_ok Q (unwrap (vec_push a (globals m) x) g)"
  by (rule res_ok_bind [OF vec_push_ok])
    (use assms import_global_grow [OF assms(1,2)] in \<open>auto intro: imp_ok_valid\<close>)

text \<open>What an import leaves behind.\<close>

definition imported_one :: "nat \<Rightarrow> stream \<Rightarrow> module \<times> stream \<Rightarrow> bool" where
  "imported_one k st s \<longleftrightarrow> (case s of (m, st') \<Rightarrow>
     imp_ok (Suc k) m \<and> stream_moved st st')"

lemma parse_import_ok:
  assumes "imp_ok k m" "k < 4294967295" "stream_is_valid st"
  shows "res_ok (imported_one k st) (parse_import_func am path m st)"
    and "res_ok (imported_one k st) (parse_import_table am path m st)"
    and "res_ok (imported_one k st) (parse_import_memory am path m st)"
    and "res_ok (imported_one k st) (parse_import_global am path m st)"
  unfolding parse_import_func_def parse_import_table_def parse_import_memory_def parse_import_global_def
  using assms
  by (auto intro!: res_wp res_ok_bind [OF vec_at_ok] import_func_bind [OF assms(1,2)] import_table_bind [OF assms(1,2)]
        import_memory_bind [OF assms(1,2)] import_global_bind [OF assms(1,2)] parse_limits_wf
      simp: imported_one_def stream_moved_def wf_func_def func_zero_def not_le simp del: One_nat_def)

lemma parse_section_import_step_ok:
  assumes "sec_inv imports_only n st0 s" "n + length (st_s st0) < 2 ^ 32"
  shows "res_ok (sec_inv imports_only n st0) (parse_section_import_step am i s)"
proof -
  obtain m st where s: "s = (m, st)" by fastforce
  have inv: "imp_ok (n + st_p st) m" "stream_moved st0 st" and st: "stream_is_valid st"
    using assms(1) by (auto simp: sec_inv_def s imp_ok_def intro: stream_moved_valid)
  have fin: "sec_inv imports_only n st0 s'"
    if "stream_moved st st'" "st_p st < st_p st'" "imported_one (n + st_p st) st' s'" for st' s'
    using that inv by (auto simp: sec_inv_def imported_one_def imp_ok_def stream_moved_def elim!: sizes_le_mono)
  have kinds: "res_ok (sec_inv imports_only n st0) (parse_import_func am path m st')"
      "res_ok (sec_inv imports_only n st0) (parse_import_table am path m st')"
      "res_ok (sec_inv imports_only n st0) (parse_import_memory am path m st')"
      "res_ok (sec_inv imports_only n st0) (parse_import_global am path m st')"
    if "stream_moved st st'" "st_p st < st_p st'" "stream_is_valid st'" for path st'
    by (rule res_ok_mono [OF parse_import_ok(1) [OF inv(1)]] res_ok_mono [OF parse_import_ok(2) [OF inv(1)]]
          res_ok_mono [OF parse_import_ok(3) [OF inv(1)]] res_ok_mono [OF parse_import_ok(4) [OF inv(1)]];
        use that inv assms(2) fin in \<open>auto simp: stream_moved_def\<close>)+
  show ?thesis
    unfolding parse_section_import_step_def s prod.case
    using st
    by (auto intro!: res_wp kinds dest: stream_moved_trans simp: Let_def stream_moved_def
        split: option.splits external_kind.splits)
qed

lemma parse_section_import_ok:
  assumes "wf_module m" "imports_only m" "sizes_le n m" "st_p st = 0" "n + length (st_s st) < 2 ^ 32"
  shows "res_ok (\<lambda>m'. wf_module m' \<and> imports_only m' \<and> sizes_le (n + length (st_s st)) m') (parse_section_import am m st)"
proof -
  have st: "stream_is_valid st" using assms(4) by (simp add: stream_is_valid_def)
  show ?thesis
    unfolding parse_section_import_def
    using st assms
    by (auto intro!: res_wp section_loop_ok parse_section_import_step_ok simp: sec_inv_def elim!: sizes_le_mono)
qed

subsection \<open>Definitions\<close>

definition mod_ok :: "nat \<Rightarrow> module \<Rightarrow> bool" where
  "mod_ok k m \<longleftrightarrow> wf_module m \<and> sizes_le k m"

abbreviation anything :: "'a \<Rightarrow> bool" where
  "anything \<equiv> \<lambda>_. True"

lemma push_func_bind:
  assumes "mod_ok k m" "\<not> is_imported (f_linkage f)" "wf_func (vdata (func_types m)) f"
    and "\<And>v. mod_ok (Suc k) (m\<lparr>funcs := v\<rparr>) \<Longrightarrow> res_ok Q (g v)"
  shows "res_ok Q (unwrap (vec_push a (funcs m) f) g)"
proof (rule res_ok_bind [OF vec_push_ok])
  show v: "vec_is_valid (funcs m)"
    using assms(1) by (simp add: mod_ok_def wf_module_valid)
  fix v assume v: "vdata v = vdata (funcs m) @ [f] \<and> vec_is_valid v \<and> vfixed v = vfixed (funcs m)"
  have "imported_prefix f_linkage v (imported_func_count m)"
    by (rule imported_prefix_push_none [where lk = f_linkage])
      (use assms v in \<open>auto simp: mod_ok_def wf_module_def wf_funcs_def\<close>)
  then have "wf_module (m\<lparr>funcs := v, imported_func_count := imported_func_count m\<rparr>)"
    using assms v by (intro wf_push_func) (auto simp: mod_ok_def)
  then have "mod_ok (Suc k) (m\<lparr>funcs := v\<rparr>)"
    using assms(1) v by (simp add: mod_ok_def sizes_le_def)
  then show "res_ok Q (g v)"
    by (rule assms)
qed

lemma push_table_bind:
  assumes "mod_ok k m" "\<not> is_imported (tab_linkage x)" "is_ref (tab_valtype x)" "wf_limits (tab_lim x) u32_MAX"
    and "\<And>v. mod_ok (Suc k) (m\<lparr>tables := v\<rparr>) \<Longrightarrow> res_ok Q (g v)"
  shows "res_ok Q (unwrap (vec_push a (tables m) x) g)"
proof (rule res_ok_bind [OF vec_push_ok])
  show v: "vec_is_valid (tables m)"
    using assms(1) by (simp add: mod_ok_def wf_module_valid)
  fix v assume v: "vdata v = vdata (tables m) @ [x] \<and> vec_is_valid v \<and> vfixed v = vfixed (tables m)"
  have "imported_prefix tab_linkage v (imported_table_count m)"
    by (rule imported_prefix_push_none [where lk = tab_linkage])
      (use assms v in \<open>auto simp: mod_ok_def wf_module_def wf_tables_def\<close>)
  then have "wf_module (m\<lparr>tables := v, imported_table_count := imported_table_count m\<rparr>)"
    using assms v by (intro wf_push_table) (auto simp: mod_ok_def)
  then have "mod_ok (Suc k) (m\<lparr>tables := v\<rparr>)"
    using assms(1) v by (simp add: mod_ok_def sizes_le_def)
  then show "res_ok Q (g v)"
    by (rule assms)
qed

lemma push_memory_bind:
  assumes "mod_ok k m" "\<not> is_imported (mem_linkage x)" "wf_limits (mem_lim x) WASM_MEM_MAX_PAGES"
    and "\<And>v. mod_ok (Suc k) (m\<lparr>memories := v\<rparr>) \<Longrightarrow> res_ok Q (g v)"
  shows "res_ok Q (unwrap (vec_push a (memories m) x) g)"
proof (rule res_ok_bind [OF vec_push_ok])
  show v: "vec_is_valid (memories m)"
    using assms(1) by (simp add: mod_ok_def wf_module_valid)
  fix v assume v: "vdata v = vdata (memories m) @ [x] \<and> vec_is_valid v \<and> vfixed v = vfixed (memories m)"
  have "imported_prefix mem_linkage v (imported_mem_count m)"
    by (rule imported_prefix_push_none [where lk = mem_linkage])
      (use assms v in \<open>auto simp: mod_ok_def wf_module_def wf_memories_def\<close>)
  then have "wf_module (m\<lparr>memories := v, imported_mem_count := imported_mem_count m\<rparr>)"
    using assms v by (intro wf_push_memory) (auto simp: mod_ok_def)
  then have "mod_ok (Suc k) (m\<lparr>memories := v\<rparr>)"
    using assms(1) v by (simp add: mod_ok_def sizes_le_def)
  then show "res_ok Q (g v)"
    by (rule assms)
qed

lemma push_global_bind:
  assumes "mod_ok k m" "\<not> is_imported (g_linkage x)" "is_value_type (g_valtype x)" "const_expr_str (g_expr x)"
    and "\<And>v. mod_ok (Suc k) (m\<lparr>globals := v\<rparr>) \<Longrightarrow> res_ok Q (g v)"
  shows "res_ok Q (unwrap (vec_push a (globals m) x) g)"
proof (rule res_ok_bind [OF vec_push_ok])
  show v: "vec_is_valid (globals m)"
    using assms(1) by (simp add: mod_ok_def wf_module_valid)
  fix v assume v: "vdata v = vdata (globals m) @ [x] \<and> vec_is_valid v \<and> vfixed v = vfixed (globals m)"
  have "imported_prefix g_linkage v (imported_global_count m)"
    by (rule imported_prefix_push_none [where lk = g_linkage])
      (use assms v in \<open>auto simp: mod_ok_def wf_module_def wf_globals_def\<close>)
  then have "wf_module (m\<lparr>globals := v, imported_global_count := imported_global_count m\<rparr>)"
    using assms v by (intro wf_push_global) (auto simp: mod_ok_def)
  then have "mod_ok (Suc k) (m\<lparr>globals := v\<rparr>)"
    using assms(1) v by (simp add: mod_ok_def sizes_le_def)
  then show "res_ok Q (g v)"
    by (rule assms)
qed

lemma sec_invE:
  assumes "sec_inv R n st0 s"
  obtains m st where "s = (m, st)" "mod_ok (n + st_p st) m" "wf_module m" "R m" "stream_moved st0 st" "stream_is_valid st"
  using assms by (cases s) (auto simp: sec_inv_def mod_ok_def intro: stream_moved_valid)

lemma sec_invI:
  "mod_ok k m \<Longrightarrow> k \<le> n + st_p st \<Longrightarrow> stream_moved st0 st \<Longrightarrow> sec_inv anything n st0 (m, st)"
  by (auto simp: sec_inv_def mod_ok_def elim!: sizes_le_mono)

lemma parse_def_steps_ok:
  assumes "sec_inv anything n st0 s"
  shows "res_ok (sec_inv anything n st0) (parse_section_function_step am i s)"
    and "res_ok (sec_inv anything n st0) (parse_section_table_step am i s)"
    and "res_ok (sec_inv anything n st0) (parse_section_memory_step am i s)"
    and "res_ok (sec_inv anything n st0) (parse_section_global_step am i s)"
proof -
  obtain m st where s: "s = (m, st)" and inv: "mod_ok (n + st_p st) m" "stream_moved st0 st" and st: "stream_is_valid st"
    using assms by (elim sec_invE)
  show "res_ok (sec_inv anything n st0) (parse_section_function_step am i s)"
    "res_ok (sec_inv anything n st0) (parse_section_table_step am i s)"
    "res_ok (sec_inv anything n st0) (parse_section_memory_step am i s)"
    "res_ok (sec_inv anything n st0) (parse_section_global_step am i s)"
    unfolding parse_section_function_step_def parse_section_table_step_def parse_section_memory_step_def
      parse_section_global_step_def s prod.case
    using st inv(2)
    by (auto intro!: res_wp res_ok_bind [OF vec_at_ok] push_func_bind [OF inv(1)] push_table_bind [OF inv(1)]
        push_memory_bind [OF inv(1)] push_global_bind [OF inv(1)] parse_limits_wf
        dest: parse_const_expr_value elim!: sec_invI
        simp: stream_moved_def wf_func_def func_zero_def not_le)
qed

lemma mod_ok_same_entries:
  assumes "mod_ok k m"
  shows "vdata v2 = vdata (funcs m) \<Longrightarrow> vec_is_valid v2 \<Longrightarrow> mod_ok k (m\<lparr>funcs := v2\<rparr>)"
    and "vdata v3 = vdata (tables m) \<Longrightarrow> vec_is_valid v3 \<Longrightarrow> mod_ok k (m\<lparr>tables := v3\<rparr>)"
    and "vdata v4 = vdata (memories m) \<Longrightarrow> vec_is_valid v4 \<Longrightarrow> mod_ok k (m\<lparr>memories := v4\<rparr>)"
    and "vdata v5 = vdata (globals m) \<Longrightarrow> vec_is_valid v5 \<Longrightarrow> mod_ok k (m\<lparr>globals := v5\<rparr>)"
    and "vdata v6 = vdata (exports m) \<Longrightarrow> vec_is_valid v6 \<Longrightarrow> mod_ok k (m\<lparr>exports := v6\<rparr>)"
    and "vdata v7 = vdata (m_data m) \<Longrightarrow> vec_is_valid v7 \<Longrightarrow> mod_ok k (m\<lparr>m_data := v7\<rparr>)"
  using assms by (auto simp: mod_ok_def sizes_le_def intro: wf_same_entries)

lemma mod_ok_valid:
  assumes "mod_ok k m"
  shows "vec_is_valid (func_types m)" "vec_is_valid (funcs m)" "vec_is_valid (tables m)"
    "vec_is_valid (memories m)" "vec_is_valid (globals m)" "vec_is_valid (exports m)"
    "vec_is_valid (elements m)" "vec_is_valid (m_data m)"
  using assms wf_module_valid by (auto simp: mod_ok_def)

lemma def_section_loop_ok:
  assumes "mod_ok n m" "stream_moved st0 st"
    and "\<And>i s. sec_inv anything n st0 s \<Longrightarrow> res_ok (sec_inv anything n st0) (body i s)"
  shows "res_ok (mod_ok (n + length (st_s st0))) (unwrap (for_res 0 k body (m, st)) section_end)"
  by (rule res_ok_mono [OF section_loop_ok [of anything]])
    (use assms sec_invI in \<open>auto simp: mod_ok_def\<close>)

lemma stream_start_valid: "st_p st = 0 \<Longrightarrow> stream_is_valid st"
  by (simp add: stream_is_valid_def)

lemma parse_def_sections_ok:
  assumes "mod_ok n m" "st_p st = 0"
  shows "res_ok (mod_ok (n + length (st_s st))) (parse_section_function am m st)"
    and "res_ok (mod_ok (n + length (st_s st))) (parse_section_table am m st)"
    and "res_ok (mod_ok (n + length (st_s st))) (parse_section_memory am m st)"
    and "res_ok (mod_ok (n + length (st_s st))) (parse_section_global am m st)"
  unfolding parse_section_function_def parse_section_table_def parse_section_memory_def parse_section_global_def
  using stream_start_valid [OF assms(2)] assms
  by (auto intro!: res_wp res_ok_bind [OF vec_reserve_ok] def_section_loop_ok parse_def_steps_ok mod_ok_valid
      mod_ok_same_entries)

subsection \<open>Exports and the start function\<close>

lemma or_exported [simp]: "is_exported (l OR linkage_exported)"
proof -
  have "bit ((l OR linkage_exported) AND linkage_exported) 1"
    by (simp add: bit_simps linkage_exported_def)
  then show ?thesis
    by (metis bit_0_eq bot_apply is_exported_def bot_bool_def)
qed

lemma list_all_update: "list_all P xs \<Longrightarrow> P x \<Longrightarrow> list_all P (xs[i := x])"
  using set_update_subset_insert [of xs i x] by (auto simp: list_all_iff)

lemma mod_ok_update_func:
  assumes "mod_ok k m" "vdata v = (vdata (funcs m))[i := f]" "vec_is_valid v" "i < vec_size (funcs m)"
    and "f_linkage f = f_linkage (vdata (funcs m) ! i) \<or>
      f_linkage f = f_linkage (vdata (funcs m) ! i) OR linkage_exported"
    and "fn_type f = fn_type (vdata (funcs m) ! i)" "wf_func (vdata (func_types m)) f"
  shows "mod_ok k (m\<lparr>funcs := v\<rparr>)"
proof -
  have "imported_prefix f_linkage v (imported_func_count m)"
    by (rule imported_prefix_update [where lk = f_linkage and v = "funcs m" and i = i, OF _ assms(2,3)])
      (use assms in \<open>auto simp: mod_ok_def wf_module_def wf_funcs_def\<close>)
  moreover have "keeps f_linkage (funcs m) v"
    by (rule keeps_update [OF assms(2)]) (use assms in auto)
  ultimately show ?thesis
    using assms
    by (auto simp: mod_ok_def wf_module_def wf_funcs_def sizes_le_def
        intro: wf_exports_keeps wf_start_update list_all_update)
qed

lemma mod_ok_export_table:
  assumes "mod_ok k m" "vdata v = (vdata (tables m))[i := x\<lparr>tab_linkage := tab_linkage x OR linkage_exported\<rparr>]"
    "vec_is_valid v" "i < vec_size (tables m)" "x = vdata (tables m) ! i"
  shows "mod_ok k (m\<lparr>tables := v\<rparr>)"
proof -
  have "imported_prefix tab_linkage v (imported_table_count m)"
    by (rule imported_prefix_update [where lk = tab_linkage and v = "tables m" and i = i, OF _ assms(2,3)])
      (use assms in \<open>auto simp: mod_ok_def wf_module_def wf_tables_def\<close>)
  moreover have "keeps tab_linkage (tables m) v"
    by (rule keeps_update [OF assms(2)]) (use assms in auto)
  moreover have "list_all (\<lambda>t. is_ref (tab_valtype t) \<and> wf_limits (tab_lim t) u32_MAX) (vdata v)"
    unfolding assms(2)
    by (rule list_all_update) (use assms in \<open>auto simp: mod_ok_def wf_module_def wf_tables_def list_all_length\<close>)
  ultimately show ?thesis
    using assms by (auto simp: mod_ok_def wf_module_def wf_tables_def sizes_le_def intro: wf_exports_keeps)
qed

lemma mod_ok_export_memory:
  assumes "mod_ok k m" "vdata v = (vdata (memories m))[i := x\<lparr>mem_linkage := mem_linkage x OR linkage_exported\<rparr>]"
    "vec_is_valid v" "i < vec_size (memories m)" "x = vdata (memories m) ! i"
  shows "mod_ok k (m\<lparr>memories := v\<rparr>)"
proof -
  have "imported_prefix mem_linkage v (imported_mem_count m)"
    by (rule imported_prefix_update [where lk = mem_linkage and v = "memories m" and i = i, OF _ assms(2,3)])
      (use assms in \<open>auto simp: mod_ok_def wf_module_def wf_memories_def\<close>)
  moreover have "keeps mem_linkage (memories m) v"
    by (rule keeps_update [OF assms(2)]) (use assms in auto)
  moreover have "list_all (\<lambda>x. wf_limits (mem_lim x) WASM_MEM_MAX_PAGES) (vdata v)"
    unfolding assms(2)
    by (rule list_all_update) (use assms in \<open>auto simp: mod_ok_def wf_module_def wf_memories_def list_all_length\<close>)
  ultimately show ?thesis
    using assms by (auto simp: mod_ok_def wf_module_def wf_memories_def sizes_le_def intro: wf_exports_keeps)
qed

lemma mod_ok_export_global:
  assumes "mod_ok k m" "vdata v = (vdata (globals m))[i := x\<lparr>g_linkage := g_linkage x OR linkage_exported\<rparr>]"
    "vec_is_valid v" "i < vec_size (globals m)" "x = vdata (globals m) ! i"
  shows "mod_ok k (m\<lparr>globals := v\<rparr>)"
proof -
  have "imported_prefix g_linkage v (imported_global_count m)"
    by (rule imported_prefix_update [where lk = g_linkage and v = "globals m" and i = i, OF _ assms(2,3)])
      (use assms in \<open>auto simp: mod_ok_def wf_module_def wf_globals_def\<close>)
  moreover have "keeps g_linkage (globals m) v"
    by (rule keeps_update [OF assms(2)]) (use assms in auto)
  moreover have "list_all (\<lambda>g. is_value_type (g_valtype g) \<and> (\<not> is_imported (g_linkage g) \<longrightarrow> const_expr_str (g_expr g))) (vdata v)"
    unfolding assms(2)
    by (rule list_all_update) (use assms in \<open>auto simp: mod_ok_def wf_module_def wf_globals_def list_all_length\<close>)
  ultimately show ?thesis
    using assms by (auto simp: mod_ok_def wf_module_def wf_globals_def sizes_le_def intro: wf_exports_keeps)
qed

lemma update_func_bind:
  assumes "mod_ok k m" "i < vec_size (funcs m)" "f_linkage f = f_linkage (vdata (funcs m) ! i) \<or>
      f_linkage f = f_linkage (vdata (funcs m) ! i) OR linkage_exported"
    and "fn_type f = fn_type (vdata (funcs m) ! i)" "wf_func (vdata (func_types m)) f"
    and "\<And>v. mod_ok k (m\<lparr>funcs := v\<rparr>) \<Longrightarrow> vdata v = (vdata (funcs m))[i := f] \<Longrightarrow> res_ok Q (g v)"
  shows "res_ok Q (unwrap (vec_set (funcs m) i f) g)"
  by (rule res_ok_bind [OF vec_set_ok])
    (use assms mod_ok_valid [OF assms(1)] mod_ok_update_func [OF assms(1) _ _ assms(2-5)] in auto)

lemma mod_ok_func: "mod_ok k m \<Longrightarrow> i < length (vdata (funcs m)) \<Longrightarrow> wf_func (vdata (func_types m)) (vdata (funcs m) ! i)"
  by (auto simp: mod_ok_def wf_module_def wf_funcs_def list_all_length)

lemma wf_func_linkage: "wf_func fts f \<Longrightarrow> is_imported l = is_imported (f_linkage f) \<Longrightarrow> wf_func fts (f\<lparr>f_linkage := l\<rparr>)"
  by (auto simp: wf_func_def)

lemma mark_exported_ok:
  assumes "mod_ok k m"
  shows "res_ok (\<lambda>m'. mod_ok k m' \<and> (\<forall>name. is_valid_utf8 name \<longrightarrow>
           wf_export (funcs m') (tables m') (memories m') (globals m')
             \<lparr>exp_name = name, exp_kind = kind, external_idx = idx\<rparr>)) (mark_exported m kind (unat idx))"
proof (cases kind)
  case EXTERNAL_KIND_Function
  show ?thesis
    unfolding mark_exported_def EXTERNAL_KIND_Function external_kind.case
    by (auto intro!: res_wp res_ok_bind [OF vec_at_ok] update_func_bind [OF assms] wf_func_linkage mod_ok_func [OF assms]
        simp: not_le wf_export_def exported_at_def)
next
  case EXTERNAL_KIND_Table
  show ?thesis
    unfolding mark_exported_def EXTERNAL_KIND_Table external_kind.case
    by (auto intro!: res_wp res_ok_bind [OF vec_at_ok] res_ok_bind [OF vec_set_ok] mod_ok_valid [OF assms]
        mod_ok_export_table [OF assms] simp: not_le wf_export_def exported_at_def)
next
  case EXTERNAL_KIND_Memory
  show ?thesis
    unfolding mark_exported_def EXTERNAL_KIND_Memory external_kind.case
    by (auto intro!: res_wp res_ok_bind [OF vec_at_ok] res_ok_bind [OF vec_set_ok] mod_ok_valid [OF assms]
        mod_ok_export_memory [OF assms] simp: not_le wf_export_def exported_at_def)
next
  case EXTERNAL_KIND_Global
  show ?thesis
    unfolding mark_exported_def EXTERNAL_KIND_Global external_kind.case
    by (auto intro!: res_wp res_ok_bind [OF vec_at_ok] res_ok_bind [OF vec_set_ok] mod_ok_valid [OF assms]
        mod_ok_export_global [OF assms] simp: not_le wf_export_def exported_at_def)
qed

lemma parse_section_export_step_ok:
  assumes "sec_inv anything n st0 s"
  shows "res_ok (sec_inv anything n st0) (parse_section_export_step am i s)"
proof -
  obtain m st where s: "s = (m, st)" and inv: "mod_ok (n + st_p st) m" "stream_moved st0 st" and st: "stream_is_valid st"
    using assms by (elim sec_invE)
  let ?k = "n + st_p st"
  have push: "mod_ok ?k m' \<Longrightarrow> wf_export (funcs m') (tables m') (memories m') (globals m') e \<Longrightarrow>
      (\<And>v. mod_ok ?k (m'\<lparr>exports := v\<rparr>) \<Longrightarrow> res_ok Q (g v)) \<Longrightarrow>
      res_ok Q (unwrap (vec_push a (exports m') e) g)" for m' e Q g a
    by (rule res_ok_bind [OF vec_push_ok]) (auto simp: mod_ok_def intro: wf_push_export wf_module_valid)
  show ?thesis
    unfolding parse_section_export_step_def s prod.case
    using st inv(2)
    by (auto intro!: res_wp res_ok_bind [OF mark_exported_ok [OF inv(1)]] push elim!: sec_invI
        dest!: parse_name_value [rotated] simp: stream_moved_def split: option.splits)
qed

lemma parse_section_export_ok:
  assumes "mod_ok n m" "st_p st = 0"
  shows "res_ok (mod_ok (n + length (st_s st))) (parse_section_export am m st)"
  unfolding parse_section_export_def
  using stream_start_valid [OF assms(2)] assms
  by (auto intro!: res_wp res_ok_bind [OF vec_reserve_ok] def_section_loop_ok parse_section_export_step_ok mod_ok_valid
      mod_ok_same_entries)

lemma section_end_mod_ok:
  "mod_ok n m \<Longrightarrow> stream_moved st0 st \<Longrightarrow> res_ok (mod_ok (n + length (st_s st0))) (section_end (m, st))"
  by (auto simp: section_end_def mod_ok_def elim!: sizes_le_mono)

lemma parse_section_start_ok:
  assumes "mod_ok n m" "st_p st = 0"
  shows "res_ok (mod_ok (n + length (st_s st))) (parse_section_start am m st)"
  unfolding parse_section_start_def
  using stream_start_valid [OF assms(2)] assms(1)
  by (auto intro!: res_wp res_ok_bind [OF vec_at_ok] section_end_mod_ok simp: not_le)
    (auto simp: mod_ok_def wf_module_def wf_start_def)

subsection \<open>Elements\<close>

lemma ignore_err_ok: "res_ok Q m \<Longrightarrow> Q old \<Longrightarrow> res_ok Q (ignore_err old m)"
  by (cases m) (auto simp: ignore_err_def)

text \<open>A push into reserved room succeeds, so ignoring its result does no harm.\<close>

lemma vcap_set_fixed [simp]: "vcap (vec_set_fixed v b) = vcap v"
  by (simp add: vec_set_fixed_def)

lemma vec_push_reserved:
  "vec_size v < vcap v \<Longrightarrow> vec_push am v x = Inr (v\<lparr>vdata := vdata v @ [x]\<rparr>)"
  by (simp add: vec_push_def vec_size_def)

lemma elem_funcs_ok:
  assumes "stream_is_valid st" "vdata v = []" "vec_is_valid v" "k \<le> vcap v"
  shows "res_ok (\<lambda>(v', st'). stream_moved st st' \<and> vec_is_valid v' \<and> vfixed v' = vfixed v \<and> vec_size v' = k \<and>
           (\<forall>i \<in> set (vdata v'). unat i < nfuncs)) (for_res 0 k (parse_elem_func_step am nfuncs) (v, st))"
proof -
  let ?I = "\<lambda>j (v', st'). stream_moved st st' \<and> vec_is_valid v' \<and> vfixed v' = vfixed v \<and> vec_size v' = j \<and>
    vcap v' = vcap v \<and> (\<forall>i \<in> set (vdata v'). unat i < nfuncs)"
  have "res_ok (?I (0 + k)) (for_res 0 k (parse_elem_func_step am nfuncs) (v, st))"
  proof (rule for_res_ok_index)
    show "?I 0 (v, st)"
      using assms by (simp add: stream_moved_refl)
    fix j and s :: "u32 vec \<times> stream" assume j: "j < 0 + k" and I: "?I j s"
    obtain v' st' where s: "s = (v', st')" by fastforce
    have v': "vec_push a v' x = Inr (v'\<lparr>vdata := vdata v' @ [x]\<rparr>)" for a x
      by (rule vec_push_reserved) (use I s j assms(4) in auto)
    have valid: "vec_is_valid (v'\<lparr>vdata := vdata v' @ [x]\<rparr>)" for x
      using res_okD [OF vec_push_ok v'] I s by auto
    show "res_ok (?I (Suc j)) (parse_elem_func_step am nfuncs j s)"
      unfolding parse_elem_func_step_def s prod.case
      using I s valid
      by (auto intro!: res_wp simp: v' ignore_err_def stream_moved_def stream_is_valid_def)
  qed
  then show ?thesis
    by (rule res_ok_mono) auto
qed

lemma elem_exprs_ok:
  assumes "stream_is_valid st" "vdata v = []" "vec_is_valid v"
  shows "res_ok (\<lambda>(v', st'). stream_moved st st' \<and> vec_is_valid v' \<and> vfixed v' = vfixed v \<and> vec_size v' = k \<and>
           list_all const_expr_str (vdata v')) (for_res 0 k (parse_elem_expr_step am) (v, st))"
proof -
  let ?I = "\<lambda>j (v', st'). stream_moved st st' \<and> vec_is_valid v' \<and> vfixed v' = vfixed v \<and> vec_size v' = j \<and>
    list_all const_expr_str (vdata v')"
  have "res_ok (?I (0 + k)) (for_res 0 k (parse_elem_expr_step am) (v, st))"
  proof (rule for_res_ok_index)
    show "?I 0 (v, st)"
      using assms by (simp add: stream_moved_refl)
    fix j s assume I: "?I j s"
    obtain v' st' where s: "s = (v', st')" by fastforce
    show "res_ok (?I (Suc j)) (parse_elem_expr_step am j s)"
      unfolding parse_elem_expr_step_def s prod.case
      using I s
      by (auto intro!: res_wp res_ok_bind [OF vec_push_ok] dest!: parse_const_expr_value [rotated]
          simp: stream_moved_def stream_is_valid_def)
  qed
  then show ?thesis
    by simp
qed

definition elem_head_ok :: "element \<Rightarrow> stream \<Rightarrow> element \<times> stream \<Rightarrow> bool" where
  "elem_head_ok e st s \<longleftrightarrow> (case s of (e', st') \<Rightarrow>
     stream_moved st st' \<and> v_funcidx e' = v_funcidx e \<and> v_expr e' = v_expr e \<and>
     (el_mode e' = elem_mode_active \<longrightarrow> const_expr_str (el_offset_expr e')))"

lemma parse_elem_target_ok:
  assumes "stream_is_valid st"
  shows "res_ok (elem_head_ok e st) (parse_elem_target kind (e\<lparr>el_mode := elem_mode_of kind\<rparr>) st)"
  unfolding parse_elem_target_def
  using assms
  by (auto intro!: res_wp dest!: parse_const_expr_value [rotated]
      simp: elem_head_ok_def stream_moved_def unwrap_assoc stream_is_valid_def elem_mode_of_def)

lemma parse_elem_kind_ok:
  assumes "elem_head_ok e0 st0 (e, st)"
  shows "res_ok (elem_head_ok e0 st0) (parse_elem_kind kind e st)"
  unfolding parse_elem_kind_def Let_def
  using assms stream_moved_valid
  by (auto intro!: res_wp simp: elem_head_ok_def stream_moved_def stream_is_valid_def)

lemma parse_elem_items_ok:
  assumes "elem_head_ok e0 st0 (e, st)" "wf_element nfuncs e0"
  shows "res_ok (\<lambda>(e', st'). stream_moved st0 st' \<and> wf_element nfuncs e') (parse_elem_items am nfuncs kind e st)"
proof -
  have st: "stream_is_valid st" "stream_moved st0 st"
    using assms(1) stream_moved_valid by (auto simp: elem_head_ok_def)
  have e: "v_funcidx e = v_funcidx e0" "v_expr e = v_expr e0"
      "el_mode e = elem_mode_active \<longrightarrow> const_expr_str (el_offset_expr e)"
    using assms(1) by (auto simp: elem_head_ok_def)
  have valid: "vec_is_valid (v_funcidx e)" "vec_is_valid (v_expr e)"
    using assms(2) e by (auto simp: wf_element_def)
  have empty: "vdata v = []" if "vec_reserve a (v_funcidx e) n = Inr v" for a n v
    using that assms(2) e by (auto simp: vec_reserve_def wf_element_def split: if_splits)
  have empty': "vdata v = []" if "vec_reserve a (v_expr e) n = Inr v" for a n v
    using that assms(2) e by (auto simp: vec_reserve_def wf_element_def split: if_splits)
  show ?thesis
    unfolding parse_elem_items_def Let_def
  proof (rule rd_vu32.read_bind [OF st(1)], unfold prod.case, rule res_ok_if)
    fix cnt st1 assume st1: "stream_moved st st1" "stream_is_valid st1"
    show "res_ok (\<lambda>(e', st'). stream_moved st0 st' \<and> wf_element nfuncs e')
        (unwrap (vec_reserve (am T_str) (v_expr (e\<lparr>data_len := unat cnt\<rparr>)) (unat cnt)) (\<lambda>v.
         unwrap (for_res 0 (unat cnt) (parse_elem_expr_step am) (vec_set_fixed v True, st1)) (\<lambda>(v, st).
         Inr (e\<lparr>data_len := unat cnt, v_expr := v\<rparr>, st))))" for cnt :: u32
      by (rule res_ok_bind [OF vec_reserve_ok], simp add: valid,
          rule res_ok_bind_pair [OF elem_exprs_ok [OF st1(2)]])
        (use st st1 e assms(2) empty' in \<open>auto simp: wf_element_def intro: stream_moved_trans\<close>)
    show "res_ok (\<lambda>(e', st'). stream_moved st0 st' \<and> wf_element nfuncs e')
        (unwrap (vec_reserve (am T_u32) (v_funcidx (e\<lparr>data_len := unat cnt\<rparr>)) (unat cnt)) (\<lambda>v.
         unwrap (for_res 0 (unat cnt) (parse_elem_func_step am nfuncs) (vec_set_fixed v True, st1)) (\<lambda>(v, st).
         Inr (e\<lparr>data_len := unat cnt, v_funcidx := v\<rparr>, st))))" for cnt :: u32
    proof (rule res_ok_bind [OF vec_reserve_ok], simp add: valid)
      fix v assume v: "vec_reserve (am T_u32) (v_funcidx (e\<lparr>data_len := unat cnt\<rparr>)) (unat cnt) = Inr v"
        "vdata v = vdata (v_funcidx (e\<lparr>data_len := unat cnt\<rparr>)) \<and> vec_is_valid v \<and>
         vfixed v = vfixed (v_funcidx (e\<lparr>data_len := unat cnt\<rparr>)) \<and> unat cnt \<le> vcap v"
      have "vdata v = []" by (rule empty) (use v(1) in simp)
      with v(2) have "res_ok (\<lambda>(v', st'). stream_moved st1 st' \<and> vec_is_valid v' \<and> vfixed v' \<and> vec_size v' = unat cnt \<and>
          (\<forall>i \<in> set (vdata v'). unat i < nfuncs))
          (for_res 0 (unat cnt) (parse_elem_func_step am nfuncs) (vec_set_fixed v True, st1))"
        using elem_funcs_ok [OF st1(2), of "vec_set_fixed v True" "unat cnt" nfuncs am] by simp
      then show "res_ok (\<lambda>(e', st'). stream_moved st0 st' \<and> wf_element nfuncs e')
          (unwrap (for_res 0 (unat cnt) (parse_elem_func_step am nfuncs) (vec_set_fixed v True, st1)) (\<lambda>(v, st).
           Inr (e\<lparr>data_len := unat cnt, v_funcidx := v\<rparr>, st)))"
        by (rule res_ok_bind_pair)
          (use st(2) st1(1) e assms(2) in \<open>simp add: wf_element_def, blast intro: stream_moved_trans\<close>)
    qed
  qed
qed

lemma parse_elem_ok:
  assumes "stream_is_valid st" "wf_element nfuncs e"
  shows "res_ok (\<lambda>(e', st'). stream_moved st st' \<and> wf_element nfuncs e') (parse_elem am nfuncs e st)"
  unfolding parse_elem_def
proof (rule rd_u8.read_bind [OF assms(1)], unfold prod.case, rule res_ok_if, simp)
  fix kind st1 assume st1: "stream_moved st st1" "stream_is_valid st1"
  have "res_ok (\<lambda>(e', st'). stream_moved st1 st' \<and> wf_element nfuncs e')
      (unwrap (parse_elem_target kind (e\<lparr>el_mode := elem_mode_of kind\<rparr>) st1)
        (\<lambda>(e, st). unwrap (parse_elem_kind kind e st) (\<lambda>(e, st). parse_elem_items am nfuncs kind e st)))"
  proof (rule res_ok_bind [OF parse_elem_target_ok [OF st1(2)]], clarify)
    fix e1 st2 assume "elem_head_ok e st1 (e1, st2)"
    then show "res_ok (\<lambda>(e', st'). stream_moved st1 st' \<and> wf_element nfuncs e')
        (unwrap (parse_elem_kind kind e1 st2) (\<lambda>(e, st). parse_elem_items am nfuncs kind e st))"
      by (rule res_ok_bind [OF parse_elem_kind_ok], clarify) (rule parse_elem_items_ok [OF _ assms(2)])
  qed
  then show "res_ok (\<lambda>(e', st'). stream_moved st st' \<and> wf_element nfuncs e')
      (unwrap (parse_elem_target kind (e\<lparr>el_mode := elem_mode_of kind\<rparr>) st1)
        (\<lambda>(e, st). unwrap (parse_elem_kind kind e st) (\<lambda>(e, st). parse_elem_items am nfuncs kind e st)))"
    by (rule res_ok_mono) (use st1 in \<open>auto intro: stream_moved_trans\<close>)
qed

lemma mod_ok_elements:
  assumes "mod_ok k m" "vec_is_valid v" "list_all (wf_element (vec_size (funcs m))) (vdata v)"
  shows "mod_ok k (m\<lparr>elements := v\<rparr>)"
  using assms by (auto simp: mod_ok_def wf_module_def wf_elements_def)

lemma wf_element_zero: "wf_element n element_zero"
  by (simp add: wf_element_def element_zero_def)

lemma mod_ok_element:
  "mod_ok k m \<Longrightarrow> list_all (wf_element (vec_size (funcs m))) (vdata (elements m))"
  by (simp add: mod_ok_def wf_module_def wf_elements_def)

lemma parse_section_element_step_ok:
  assumes "sec_inv anything n st0 s \<and> vec_size (elements (fst s)) = N" "i < N"
  shows "res_ok (\<lambda>s. sec_inv anything n st0 s \<and> vec_size (elements (fst s)) = N) (parse_section_element_step am i s)"
proof -
  obtain m st where s: "s = (m, st)" and inv: "mod_ok (n + st_p st) m" "stream_moved st0 st" and st: "stream_is_valid st"
    using assms by (auto elim: sec_invE)
  have i: "i < length (vdata (elements m))"
    using assms s by simp
  have e: "wf_element (vec_size (funcs m)) (vdata (elements m) ! i)"
    using mod_ok_element [OF inv(1)] i by (simp add: list_all_length)
  show ?thesis
    unfolding parse_section_element_step_def s prod.case
  proof (rule res_ok_bind [OF vec_at_ok], simp add: i, rule res_ok_bind_pair [OF parse_elem_ok [OF st]], simp add: e [simplified])
    fix x e' st' assume e': "stream_moved st st' \<and> wf_element (vec_size (funcs m)) e'"
    show "res_ok (\<lambda>s. sec_inv anything n st0 s \<and> vec_size (elements (fst s)) = N)
        (case (e', st') of (e, st) \<Rightarrow> unwrap (vec_set (elements m) i e) (\<lambda>v. Inr (m\<lparr>elements := v\<rparr>, st)))"
      using inv e' i assms(1) s
      by (auto intro!: res_ok_bind [OF vec_set_ok] mod_ok_valid sec_invI [of "n + st_p st"] mod_ok_elements list_all_update
          mod_ok_element [unfolded vec_size_length] simp: stream_moved_def)
  qed
qed

lemma parse_section_element_ok:
  assumes "mod_ok n m" "st_p st = 0"
  shows "res_ok (mod_ok (n + length (st_s st))) (parse_section_element am m st)"
  unfolding parse_section_element_def
proof (rule rd_vu32.read_bind [OF stream_start_valid [OF assms(2)]], unfold prod.case,
    rule res_ok_bind [OF vec_resize_ok], rule mod_ok_valid [OF assms(1)])
  fix count st' v
  assume st': "stream_moved st st'"
    and v: "vdata v = take (unat count) (vdata (elements m)) @ replicate (unat count - vec_size (elements m)) element_zero \<and>
      vec_is_valid v \<and> vfixed v = vfixed (elements m)"
  let ?s = "(m\<lparr>elements := vec_set_fixed v True\<rparr>, st')"
  have "list_all (wf_element (vec_size (funcs m))) (vdata v)"
    using v mod_ok_element [OF assms(1)] by (auto simp: list_all_iff wf_element_zero dest: in_set_takeD)
  then have I: "sec_inv anything n st ?s \<and> vec_size (elements (fst ?s)) = vec_size v"
    using assms st' v by (auto intro!: sec_invI [of n] mod_ok_elements)
  have "res_ok (\<lambda>s. sec_inv anything n st s \<and> vec_size (elements (fst s)) = vec_size v)
      (for_res 0 (vec_size v) (parse_section_element_step am) ?s)"
    by (rule for_res_ok_index [where I = "\<lambda>_ s. sec_inv anything n st s \<and> vec_size (elements (fst s)) = vec_size v"])
      (use I parse_section_element_step_ok [of n st _ "vec_size v"] in auto)
  then show "res_ok (mod_ok (n + length (st_s st))) (unwrap (for_res 0 (vec_size v) (parse_section_element_step am) ?s) section_end)"
    by (rule res_ok_bind)
      (rule res_ok_mono [OF section_end_ok], auto simp: mod_ok_def)
qed

subsection \<open>Code\<close>

lemma count_locals_ok:
  assumes "stream_is_valid st"
  shows "res_ok anything (for_res 0 k count_locals_step (t, st))"
  by (rule res_ok_mono [OF for_res_ok [where I = "\<lambda>(_, st). stream_is_valid st"]])
    (use assms in \<open>auto intro!: res_wp simp: count_locals_step_def Let_def\<close>)

lemma push_local_ok:
  assumes "wf_func fts fn" "is_value_type t"
  shows "res_ok (\<lambda>fn'. wf_func fts fn' \<and> f_linkage fn' = f_linkage fn \<and> fn_type fn' = fn_type fn)
           (push_local_step am t k fn)"
  unfolding push_local_step_def
  by (rule res_ok_bind [OF vec_push_ok]) (use assms in \<open>auto simp: wf_func_def\<close>)

lemma declare_locals_step_ok:
  assumes "wf_func fts fn" "stream_is_valid st"
  shows "res_ok (\<lambda>(fn', st'). wf_func fts fn' \<and> f_linkage fn' = f_linkage fn \<and> fn_type fn' = fn_type fn \<and>
           stream_is_valid st') (declare_locals_step am j (fn, st))"
proof -
  have push: "res_ok (\<lambda>fn'. wf_func fts fn' \<and> f_linkage fn' = f_linkage fn \<and> fn_type fn' = fn_type fn)
      (for_res 0 n (push_local_step am t) fn)" if "is_value_type t" for n t
    by (rule for_res_ok) (use assms that in \<open>auto intro: res_ok_mono [OF push_local_ok]\<close>)
  show ?thesis
    unfolding declare_locals_step_def prod.case
    using assms by (auto intro!: res_wp res_ok_bind [OF push])
qed

lemma parse_func_body_ok:
  assumes "wf_func fts fn" "stream_is_valid st"
  shows "res_ok (\<lambda>fn'. wf_func fts fn' \<and> f_linkage fn' = f_linkage fn \<and> fn_type fn' = fn_type fn \<and> f_code fn' \<noteq> [])
           (parse_func_body am fn st)"
proof -
  have loop: "res_ok (\<lambda>(fn', st'). wf_func fts fn' \<and> f_linkage fn' = f_linkage fn \<and> fn_type fn' = fn_type fn \<and>
      stream_is_valid st') (for_res 0 n (declare_locals_step am) (fn, st'))" if "stream_is_valid st'" for n st'
    by (rule for_res_ok) (use assms that in \<open>auto intro: res_ok_mono [OF declare_locals_step_ok]\<close>)
  show ?thesis
    unfolding parse_func_body_def
    using assms
    by (auto intro!: res_wp res_ok_bind [OF count_locals_ok] res_ok_bind [OF loop] res_ok_bind [OF vec_shrink_to_fit_ok]
        simp: wf_func_def stream_remaining_def)
qed

text \<open>The guard on the number of bodies: the 32-bit sum cannot wrap past it.\<close>

lemma code_count_exact:
  fixes count imp :: u32
  assumes "unat (count + imp) = n" "unat imp \<le> n"
  shows "unat count + unat imp = n"
proof -
  have "unat count < 2 ^ 32" "unat imp < 2 ^ 32"
    using unsigned_less [of count, where 'a = nat] unsigned_less [of imp, where 'a = nat] by simp_all
  moreover have "(unat count + unat imp) mod 2 ^ 32 = n"
    using assms(1) by (simp add: unat_word_ariths)
  ultimately show ?thesis
    using assms(2) by (cases "unat count + unat imp < 2 ^ 32") (auto simp: le_mod_geq)
qed

lemma parse_section_code_step_ok:
  assumes "sec_inv anything n st0 s \<and> vec_size (funcs (fst s)) = N \<and> imported_func_count (fst s) = imp"
    and "unat imp + i < N" "N < 2 ^ 32"
  shows "res_ok (\<lambda>s. sec_inv anything n st0 s \<and> vec_size (funcs (fst s)) = N \<and> imported_func_count (fst s) = imp)
           (parse_section_code_step am i s)"
proof -
  obtain m st where s: "s = (m, st)" and inv: "mod_ok (n + st_p st) m" "stream_moved st0 st" and st: "stream_is_valid st"
    using assms by (auto elim: sec_invE)
  have m: "imported_func_count m = imp" "length (vdata (funcs m)) = N"
    using assms(1) s by simp_all
  have idx: "unat (imp + of_nat i) = unat imp + i"
    using assms(2,3) by (simp add: unat_word_ariths unat_of_nat)
  have f: "wf_func (vdata (func_types m)) (vdata (funcs m) ! (unat imp + i))"
    using mod_ok_func [OF inv(1)] m assms(2) by simp
  show ?thesis
    unfolding parse_section_code_step_def s prod.case Let_def
    using st inv(2) m assms(2) f
    by (auto intro!: res_wp res_ok_bind [OF vec_at_ok] res_ok_bind_pair [OF stream_slice_ok]
        res_ok_bind [OF parse_func_body_ok] update_func_bind [OF inv(1)] sec_invI [of "n + st_p st"]
        simp: idx stream_moved_def)
qed

lemma parse_section_code_ok:
  assumes "mod_ok n m" "st_p st = 0" "n < 2 ^ 32"
  shows "res_ok (mod_ok (n + length (st_s st))) (parse_section_code am m st)"
  unfolding parse_section_code_def
proof (rule rd_vu32.read_bind [OF stream_start_valid [OF assms(2)]], unfold prod.case, rule res_ok_if, simp)
  fix count st' assume st': "stream_moved st st'"
    and "\<not> unat (count + imported_func_count m) \<noteq> vec_size (funcs m)"
  then have size: "unat count + unat (imported_func_count m) = vec_size (funcs m)"
    using assms(1) by (intro code_count_exact)
      (auto simp: mod_ok_def wf_module_def wf_funcs_def imported_prefix_def)
  let ?I = "\<lambda>s. sec_inv anything n st s \<and> vec_size (funcs (fst s)) = vec_size (funcs m) \<and>
    imported_func_count (fst s) = imported_func_count m"
  have "res_ok ?I (for_res 0 (unat count) (parse_section_code_step am) (m, st'))"
    by (rule for_res_ok_index [where I = "\<lambda>_. ?I"], use assms st' in \<open>auto intro: sec_invI [of n]\<close>,
        rule parse_section_code_step_ok [unfolded vec_size_length fst_conv])
      (use size assms in \<open>auto simp: mod_ok_def sizes_le_def\<close>)
  then show "res_ok (mod_ok (n + length (st_s st)))
      (unwrap (for_res 0 (unat count) (parse_section_code_step am) (m, st')) section_end)"
    by (rule res_ok_bind) (rule res_ok_mono [OF section_end_ok], auto simp: mod_ok_def)
qed

subsection \<open>Data\<close>

lemma parse_section_data_step_ok:
  assumes "sec_inv anything n st0 s"
  shows "res_ok (sec_inv anything n st0) (parse_section_data_step am i s)"
proof -
  obtain m st where s: "s = (m, st)" and inv: "mod_ok (n + st_p st) m" "stream_moved st0 st" and st: "stream_is_valid st"
    using assms by (elim sec_invE)
  have push: "wf_data d \<Longrightarrow> (\<And>v. mod_ok (n + st_p st) (m\<lparr>m_data := v\<rparr>) \<Longrightarrow> res_ok Q (g v)) \<Longrightarrow>
      res_ok Q (unwrap (vec_push a (m_data m) d) g)" for d Q g a
    by (rule res_ok_bind [OF vec_push_ok]) (use inv(1) in \<open>auto simp: mod_ok_def intro: wf_push_data wf_module_valid\<close>)
  show ?thesis
    unfolding parse_section_data_step_def s prod.case
    using st inv(2)
    by (auto intro!: res_wp res_ok_bind_pair [OF stream_slice_ok] push sec_invI [of "n + st_p st"]
        dest!: parse_const_expr_value [rotated] simp: unwrap_assoc stream_moved_def wf_data_def)
qed

lemma parse_section_data_ok:
  assumes "mod_ok n m" "st_p st = 0"
  shows "res_ok (mod_ok (n + length (st_s st))) (parse_section_data am m st)"
    and "res_ok (mod_ok (n + length (st_s st))) (parse_section_data_count am m st)"
  unfolding parse_section_data_def parse_section_data_count_def
  using stream_start_valid [OF assms(2)] assms mod_ok_same_entries(6) [of n "m\<lparr>data_count := Some _\<rparr>"]
  by (auto intro!: res_wp res_ok_bind [OF vec_reserve_ok] def_section_loop_ok parse_section_data_step_ok mod_ok_valid
      section_end_mod_ok simp: mod_ok_def intro: wf_same_entries)

section \<open>The section loop\<close>

lemma order_scan_ge: "k \<le> order_scan k sid"
  by (simp add: order_scan_def)

lemma order_scan_found:
  assumes "order_scan k sid \<noteq> length section_order" "k \<le> length section_order"
  shows "order_scan k sid < length section_order \<and> section_order ! order_scan k sid = sid"
proof -
  let ?n = "length (takeWhile (\<lambda>x. x \<noteq> sid) (drop k section_order))"
  have le: "?n \<le> length (drop k section_order)"
    by (rule length_takeWhile_le)
  with assms have lt: "?n < length (drop k section_order)"
    by (auto simp: order_scan_def le_less)
  then have "\<not> (drop k section_order ! ?n \<noteq> sid)"
    by (rule nth_length_takeWhile)
  with lt show ?thesis
    by (simp add: order_scan_def)
qed

lemma section_order_early: "i \<le> 2 \<Longrightarrow> section_order ! i = i"
  by (auto simp: section_order_def le_Suc_eq numeral_2_eq_2)

lemma section_order_inj: "i < length section_order \<Longrightarrow> section_order ! i \<le> 2 \<Longrightarrow> i = section_order ! i"
  by (auto simp: section_order_def less_Suc_eq)

definition loop_inv :: "nat \<Rightarrow> module \<Rightarrow> stream \<Rightarrow> bool" where
  "loop_inv k m st \<longleftrightarrow> stream_is_valid st \<and> k \<le> length section_order \<and> mod_ok (st_p st) m \<and>
     (k \<le> 2 \<longrightarrow> imports_only m)"

lemma mod_ok_mono: "mod_ok n m \<Longrightarrow> n \<le> n' \<Longrightarrow> mod_ok n' m"
  by (auto simp: mod_ok_def elim!: sizes_le_mono)

lemma parse_section_ok:
  assumes "mod_ok n m" "st_p st = 0" "n + length (st_s st) < 2 ^ 32" "sid = 1 \<or> sid = 2 \<longrightarrow> imports_only m"
  shows "res_ok (\<lambda>m'. mod_ok (n + length (st_s st)) m' \<and> (sid \<le> 2 \<longrightarrow> imports_only m \<longrightarrow> imports_only m'))
           (parse_section am sid m st)"
proof -
  let ?Q = "\<lambda>m'. mod_ok (n + length (st_s st)) m' \<and> (sid \<le> 2 \<longrightarrow> imports_only m \<longrightarrow> imports_only m')"
  have weak: "res_ok ?Q r" if "res_ok (mod_ok (n + length (st_s st))) r" "2 < sid" for r
    using that by (cases r) auto
  have wf: "wf_module m" "sizes_le n m" and n: "n < 2 ^ 32"
    using assms(1,3) by (auto simp: mod_ok_def)
  have 0: "res_ok ?Q (parse_section_custom am m st)"
    using assms(1) by (auto simp: parse_section_custom_def intro: mod_ok_mono)
  have 1: "res_ok ?Q (parse_section_type am m st)" if "imports_only m"
    by (rule res_ok_mono [OF parse_section_type_ok [OF wf(1) that wf(2) assms(2)]]) (simp add: mod_ok_def)
  have 2: "res_ok ?Q (parse_section_import am m st)" if "imports_only m"
    by (rule res_ok_mono [OF parse_section_import_ok [OF wf(1) that wf(2) assms(2,3)]]) (simp add: mod_ok_def)
  show ?thesis
    unfolding parse_section_def
    using 0 1 2 assms(4) parse_def_sections_ok [OF assms(1,2)] parse_section_export_ok [OF assms(1,2)]
      parse_section_start_ok [OF assms(1,2)] parse_section_element_ok [OF assms(1,2)]
      parse_section_code_ok [OF assms(1,2) n] parse_section_data_ok [OF assms(1,2)]
    by (auto intro!: weak)
qed

lemma parse_module_step_ok:
  assumes "loop_inv k m st" "length (st_s st) < 2 ^ 32"
  shows "res_ok (\<lambda>(k', m', st'). loop_inv k' m' st' \<and> stream_moved st st' \<and> k \<le> k') (parse_module_step am k m st)"
  unfolding parse_module_step_def Let_def
proof (rule rd_vu7.read_bind, use assms in \<open>simp add: loop_inv_def\<close>, unfold prod.case,
    rule rd_vu32.read_bind, assumption, unfold prod.case, rule res_ok_if, simp, rule res_ok_if)
  fix b st1 len st2
  assume st: "stream_moved st st1" "stream_moved st1 st2" "stream_is_valid st2"
  let ?idx = "if unat b \<noteq> 0 then order_scan k (unat b) else k"
  have moved: "stream_moved st st2"
    by (rule stream_moved_trans [OF st(1,2)])
  assume "\<not> (unat b \<noteq> 0 \<and> ?idx = length section_order)"
  then have idx: "k \<le> ?idx" "?idx \<le> length section_order" "unat b \<noteq> 0 \<longrightarrow> section_order ! ?idx = unat b"
    using assms(1) order_scan_ge [of k "unat b"] order_scan_found [of k "unat b"] by (auto simp: loop_inv_def)
  have lt: "unat b \<noteq> 0 \<longrightarrow> ?idx < length section_order"
    using \<open>\<not> (unat b \<noteq> 0 \<and> ?idx = length section_order)\<close> idx(2) by auto
  have early: "unat b \<noteq> 0 \<longrightarrow> ?idx \<le> 2 \<longrightarrow> unat b = ?idx"
    using idx(3) section_order_early by metis
  have inv: "mod_ok (st_p st2) m"
    using assms(1) moved by (auto simp: loop_inv_def stream_moved_def elim!: mod_ok_mono)
  show "res_ok (\<lambda>(k', m', st'). loop_inv k' m' st' \<and> stream_moved st st' \<and> k \<le> k') (Inr (?idx, m, st2))"
    using assms(1) inv moved st(3) idx by (auto simp: loop_inv_def)
  show "res_ok (\<lambda>(k', m', st'). loop_inv k' m' st' \<and> stream_moved st st' \<and> k \<le> k')
      (unwrap (stream_slice st2 (unat len)) (\<lambda>(section_content, st).
        unwrap (parse_section am (unat b) m section_content) (\<lambda>m. Inr (?idx, m, st))))"
  proof (rule res_ok_bind_pair [OF stream_slice_ok [OF st(3)]], unfold prod.case)
    fix sl st3 
    assume sl: "stream_moved st2 st3 \<and> st_p st3 = st_p st2 + unat len \<and> st_p sl = 0 \<and>
        st_s sl = take (unat len) (drop (st_p st2) (st_s st2)) \<and> length (st_s sl) = unat len \<and> stream_is_valid sl"
    have bound: "st_p st2 + length (st_s sl) < 2 ^ 32"
      using sl moved assms(2) by (auto simp: stream_moved_def)
    have pre: "unat b = 1 \<or> unat b = 2 \<longrightarrow> imports_only m"
    proof
      assume "unat b = 1 \<or> unat b = 2"
      then have "?idx = unat b" "unat b \<le> 2"
        using section_order_inj [of ?idx] lt idx(3) by auto
      then show "imports_only m"
        using assms(1) idx(1) by (simp add: loop_inv_def)
    qed
    show "res_ok (\<lambda>(k', m', st'). loop_inv k' m' st' \<and> stream_moved st st' \<and> k \<le> k')
        (unwrap (parse_section am (unat b) m sl) (\<lambda>m. Inr (?idx, m, st3)))"
      by (rule res_ok_bind [OF parse_section_ok [OF inv _ bound pre]])
       (use sl moved idx assms(1) early in \<open>auto simp: loop_inv_def intro: stream_moved_trans stream_moved_valid\<close>)
  qed
qed

lemma parse_module_loop_ok:
  "loop_inv k m st \<Longrightarrow> length (st_s st) < 2 ^ 32 \<Longrightarrow> res_ok wf_module (parse_module_loop am k m st)"
proof (induction am k m st rule: parse_module_loop.induct)
  case (1 am k m st)
  show ?case
  proof (subst parse_module_loop.simps, rule res_ok_if)
    show "res_ok wf_module (Inr m)"
      using 1 by (simp add: loop_inv_def mod_ok_def)
    assume rem: "stream_remaining st \<noteq> 0"
    show "res_ok wf_module (unwrap (parse_module_step am k m st) (\<lambda>(idx, m, st). parse_module_loop am idx m st))"
    proof (rule res_ok_bind [OF parse_module_step_ok [OF 1(2,3)]], clarify)
      fix k' m' st' assume step: "parse_module_step am k m st = Inr (k', m', st')"
        "loop_inv k' m' st'" "stream_moved st st'"
      show "res_ok wf_module (parse_module_loop am k' m' st')"
        by (rule 1(1) [OF rem step(1) refl refl]) (use step 1(3) in \<open>auto simp: stream_moved_def\<close>)
    qed
  qed
qed

lemma parse_module_ok:
  assumes "length (vs_s bin) < 2 ^ 32"
  shows "res_ok wf_module (parse_module am (module_zero\<lparr>wasm_bin := bin, names := ns\<rparr>))"
proof -
  have inv: "loop_inv 0 (module_zero\<lparr>wasm_bin := bin, names := ns, format_version := v\<rparr>) st"
    if "stream_is_valid st" for v st
    using that wf_module_zero [where ns = ns and bin = bin]
    by (auto simp: loop_inv_def mod_ok_def sizes_le_def imports_only_def module_zero_def wf_module_def)
  show ?thesis
    unfolding parse_module_def
    using assms
    by (auto intro!: res_wp parse_module_loop_ok inv stream_start_valid simp: stream_moved_def stream_from_def)
qed

section \<open>The theorems\<close>


text \<open>A module with one type, one function that is exported and has the body \<open>end\<close>.\<close>

definition example_bin :: str where
  "example_bin =
     [0, 0x61, 0x73, 0x6d, 1, 0, 0, 0, 1, 4, 1, 0x60, 0, 0, 3, 2, 1, 0, 7, 5, 1, 1, 0x66, 0, 0,
      10, 4, 1, 2, 0, 0x0b]"

lemma example_bin_parses:
  "\<exists>m. module_init (\<lambda>_ _. True) module_zero (vstr_static example_bin) VSTR_NULL = Inr m \<and>
     map f_code (vdata (funcs m)) = [[0x0b]] \<and> map exp_name (vdata (exports m)) = [[0x66]]"
proof -
  have "(case module_init (\<lambda>_ _. True) module_zero (vstr_static example_bin) VSTR_NULL of
      Inl _ \<Rightarrow> False
    | Inr m \<Rightarrow> map f_code (vdata (funcs m)) = [[0x0b]] \<and> map exp_name (vdata (exports m)) = [[0x66]])"
    by code_simp
  then show ?thesis
    by (auto split: sum.splits)
qed


lemma u32_of_bytes:
  fixes a b c d :: u8 and w :: u32
  assumes "w = ucast a OR push_bit 8 (ucast b) OR push_bit 16 (ucast c) OR push_bit 24 (ucast d)"
  shows "ucast w = a" "ucast (drop_bit 8 w) = b" "ucast (drop_bit 16 w) = c" "ucast (drop_bit 24 w) = d"
  unfolding assms
  by (rule bit_word_eqI; force simp: bit_simps dest: bit_imp_le_length)+

lemma stream_read_u32_value:
  assumes "stream_read_u32 st = Inr (w, st')"
  shows "st' = stream_advance st 4" "st_p st + 4 \<le> length (st_s st)"
    "take 4 (drop (st_p st) (st_s st)) =
      [ucast w, ucast (drop_bit 8 w), ucast (drop_bit 16 w), ucast (drop_bit 24 w)]"
proof -
  show le: "st_p st + 4 \<le> length (st_s st)" and "st' = stream_advance st 4"
    using assms by (auto simp: stream_read_u32_def stream_remaining_def split: if_splits)
  have "w = ucast (byte_at st 0) OR push_bit 8 (ucast (byte_at st 1)) OR push_bit 16 (ucast (byte_at st 2)) OR
      push_bit 24 (ucast (byte_at st 3))"
    using assms by (auto simp: stream_read_u32_def split: if_splits)
  then have "[byte_at st 0, byte_at st 1, byte_at st 2, byte_at st 3] =
      [ucast w, ucast (drop_bit 8 w), ucast (drop_bit 16 w), ucast (drop_bit 24 w)]"
    by (simp only: u32_of_bytes)
  then show "take 4 (drop (st_p st) (st_s st)) =
      [ucast w, ucast (drop_bit 8 w), ucast (drop_bit 16 w), ucast (drop_bit 24 w)]"
    using take_drop_bytes(4) [OF le] by simp
qed

text \<open>
  C6: a module is accepted only if its first eight bytes are the magic number and version 1.
\<close>

theorem module_init_header:
  assumes "module_init am m bin name = Inr m'"
  shows "take 8 (vs_s bin) = [0x00, 0x61, 0x73, 0x6d, 0x01, 0x00, 0x00, 0x00]"
proof -
  obtain st1 st2 where "stream_read_u32 (stream_from (vs_s bin)) = Inr (0x6D736100, st1)"
    "stream_read_u32 st1 = Inr (1, st2)"
    using assms
    by (auto simp: module_init_def parse_module_def Let_def res_simps split: if_splits)
  note h = stream_read_u32_value [OF this(1)] stream_read_u32_value [OF this(2)]
  have "take 8 (vs_s bin) = take 4 (vs_s bin) @ take 4 (drop 4 (vs_s bin))"
    using take_add [of 4 4 "vs_s bin"] by simp
  with h show ?thesis
    by (simp add: stream_from_def stream_advance_def)
qed

theorem module_init_header_witness:
  "(\<exists>m. module_init (\<lambda>_ _. True) module_zero (vstr_static example_bin) VSTR_NULL = Inr m) \<and>
   take 8 example_bin = [0x00, 0x61, 0x73, 0x6d, 0x01, 0x00, 0x00, 0x00]"
proof -
  obtain m where m: "module_init (\<lambda>_ _. True) module_zero (vstr_static example_bin) VSTR_NULL = Inr m"
    using example_bin_parses by blast
  show ?thesis
    using m module_init_header [OF m] by (auto simp: vstr_static_def)
qed

text \<open>
  C7: a custom section, with any contents and at any place between sections, is skipped: the
  rest is parsed exactly as without it, in the same order state.
\<close>

theorem custom_section_skipped:
  fixes pre payload post :: str
  assumes "length payload < 2 ^ 32"
  defines "bs \<equiv> pre @ [0] @ leb_encode (length payload) @ payload @ post"
  shows "parse_module_loop am k m \<lparr>st_s = bs, st_p = length pre\<rparr> =
    parse_module_loop am k m \<lparr>st_s = bs, st_p = length bs - length post\<rparr>"
proof -
  let ?n = "length payload"
  have vu7: "stream_read_vu7 \<lparr>st_s = bs, st_p = length pre\<rparr> = Inr (0, \<lparr>st_s = (pre @ [0]) @ leb_encode ?n @ payload @ post, st_p = length (pre @ [0])\<rparr>)"
    by (simp add: bs_def stream_read_vu7_def stream_is_valid_def stream_remaining_def stream_advance_def nth_append)
  have len: "stream_read_vu32 \<lparr>st_s = (pre @ [0]) @ leb_encode ?n @ payload @ post, st_p = length (pre @ [0])\<rparr> =
      Inr (of_nat ?n, \<lparr>st_s = bs, st_p = length (pre @ [0]) + length (leb_encode ?n)\<rparr>)"
    using stream_read_vu32_encode [OF assms(1), of "pre @ [0]" "payload @ post"] by (simp add: bs_def)
  have n: "unat (of_nat ?n :: u32) = ?n" 
    using assms(1) by (simp add: unat_of_nat)
  have zero: "(of_nat ?n :: u32) = 0 \<longleftrightarrow> payload = []"
    by (simp only: unsigned_eq_0_iff [symmetric, where 'a = nat] n length_0_conv)
  have "parse_module_step am k m \<lparr>st_s = bs, st_p = length pre\<rparr> = Inr (k, m, \<lparr>st_s = bs, st_p = length bs - length post\<rparr>)"
    unfolding parse_module_step_def vu7 unwrap_Inr prod.case len Let_def
    using n zero by (simp add: stream_slice_def stream_is_valid_def stream_remaining_def stream_advance_def bs_def
        parse_section_def parse_section_custom_def)
  then show ?thesis
    by (subst parse_module_loop.simps) (simp add: stream_remaining_def bs_def)
qed

theorem custom_section_skipped_witness:
  "length [7 :: u8] < 2 ^ 32 \<and>
   parse_module_loop (\<lambda>_ _. True) 0 module_zero \<lparr>st_s = [9, 0, 1, 7, 5, 0], st_p = 1\<rparr> =
     parse_module_loop (\<lambda>_ _. True) 0 module_zero \<lparr>st_s = [9, 0, 1, 7, 5, 0], st_p = 4\<rparr>"
proof -
  have h: "length [7 :: u8] < 2 ^ 32"
    by simp
  have four: "Suc (Suc (Suc (Suc 0))) = 4"
    by simp
  have "leb_encode 1 = [1]"
    by (simp add: leb_encode.simps)
  with h custom_section_skipped [OF h, of "\<lambda>_ _. True" 0 module_zero "[9]" "[5, 0]"] show ?thesis
    by (simp add: four)
qed

text \<open>
  C8: the sections after the first keep the order of the format.  A round of the loop that
  accepts a section other than a custom one leaves the order state at the place of that
  section's identifier in \<open>section_order\<close>, at or after the place it had before.
\<close>

theorem section_order_enforced:
  assumes "parse_module_step am k m st = Inr (k', m', st')" "k \<le> length section_order"
    and "stream_read_vu7 st = Inr (b, st1)" "b \<noteq> 0"
  shows "k \<le> k' \<and> k' < length section_order \<and> section_order ! k' = unat b"
proof -
  have b: "unat b \<noteq> 0"
    using assms(4) by (simp add: unsigned_eq_0_iff)
  have k': "k' = order_scan k (unat b)" "order_scan k (unat b) \<noteq> length section_order"
    using assms(1,3) b by (auto simp: parse_module_step_def res_simps Let_def split: if_splits)
  then show ?thesis
    using order_scan_ge [of k "unat b"] order_scan_found [OF _ assms(2), of "unat b"] by simp
qed

theorem section_order_enforced_witness:
  "section_order ! 7 = 7 \<and> parse_module_step (\<lambda>_ _. True) 3 module_zero (stream_from [7, 1, 0]) =
     Inr (7, module_zero\<lparr>exports := vec_empty\<lparr>vfixed := True\<rparr>\<rparr>, stream_advance (stream_from [7, 1, 0]) 3)"
proof -
  have step: "parse_module_step (\<lambda>_ _. True) 3 module_zero (stream_from [7, 1, 0]) =
     Inr (7, module_zero\<lparr>exports := vec_empty\<lparr>vfixed := True\<rparr>\<rparr>, stream_advance (stream_from [7, 1, 0]) 3)"
    by code_simp
  have b: "stream_read_vu7 (stream_from [7, 1, 0]) = Inr (7, stream_advance (stream_from [7, 1, 0]) 1)"
    by code_simp
  show ?thesis
    using step section_order_enforced [OF step _ b] by (simp add: section_order_def)
qed

text \<open>
  The order state does not advance past the section it has accepted, so a second section
  with the same identifier is accepted as well.
\<close>

lemma order_scan_repeats: "k < length section_order \<Longrightarrow> order_scan k (section_order ! k) = k"
  by (simp add: order_scan_def Cons_nth_drop_Suc [symmetric])

lemma duplicate_import_sections_accepted:
  "\<exists>m. module_init (\<lambda>_ _. True) module_zero
     (vstr_static [0, 0x61, 0x73, 0x6d, 1, 0, 0, 0, 2, 6, 1, 0, 0, 2, 0, 1, 2, 6, 1, 0, 0, 2, 0, 1]) VSTR_NULL = Inr m \<and>
     imported_mem_count m = 2"
proof -
  have "(case module_init (\<lambda>_ _. True) module_zero
      (vstr_static [0, 0x61, 0x73, 0x6d, 1, 0, 0, 0, 2, 6, 1, 0, 0, 2, 0, 1, 2, 6, 1, 0, 0, 2, 0, 1]) VSTR_NULL of
      Inl _ \<Rightarrow> False | Inr m \<Rightarrow> imported_mem_count m = 2)"
    by code_simp
  then show ?thesis
    by (auto split: sum.splits)
qed

text \<open>A data count without a data section is accepted.\<close>

lemma data_count_without_data_accepted:
  "\<exists>m. module_init (\<lambda>_ _. True) module_zero
     (vstr_static [0, 0x61, 0x73, 0x6d, 1, 0, 0, 0, 12, 1, 5]) VSTR_NULL = Inr m \<and>
     data_count m = Some 5 \<and> vdata (m_data m) = []"
proof -
  have "(case module_init (\<lambda>_ _. True) module_zero
      (vstr_static [0, 0x61, 0x73, 0x6d, 1, 0, 0, 0, 12, 1, 5]) VSTR_NULL of
      Inl _ \<Rightarrow> False | Inr m \<Rightarrow> data_count m = Some 5 \<and> vdata (m_data m) = [])"
    by code_simp
  then show ?thesis
    by (auto split: sum.splits)
qed

text \<open>
  Re-reading the type bytes of a well-formed function type gives the types they encode, or
  fails for lack of memory.
\<close>

lemma parse_types_ok:
  assumes "wf_type_str s" "length s = unat n"
  shows "res_ok (\<lambda>v. vec_is_valid v \<and> vdata v = map type_byte s) (parse_types am n s)"
proof (cases "n = 0")
  case True
  then show ?thesis
    using assms(2) by (simp add: parse_types_def)
next
  case False
  let ?I = "\<lambda>j (v, st). vec_is_valid v \<and> vdata v = map type_byte (take j s) \<and> st = \<lparr>st_s = s, st_p = j\<rparr>"
  have step: "res_ok (?I (Suc j)) (parse_types_step am j x)" if j: "j < length s" and x: "?I j x" for j x
  proof -
    obtain v where v: "x = (v, \<lparr>st_s = s, st_p = j\<rparr>)" "vec_is_valid v" "vdata v = map type_byte (take j s)"
      using x by (cases x) auto
    have "s ! j < 0x80" "is_value_type (type_byte (s ! j))"
      using assms(1) j by (auto simp: wf_type_str_def list_all_length)
    then have "stream_read_vi7 \<lparr>st_s = s, st_p = j\<rparr> = Inr (type_byte (s ! j), \<lparr>st_s = s, st_p = Suc j\<rparr>)"
      "is_value_type (type_byte (s ! j))"
      using j by (auto simp: stream_read_vi7_def stream_is_valid_def stream_remaining_def type_byte_def stream_advance_def
          Let_def not_le [symmetric])
    then show ?thesis
      unfolding parse_types_step_def v(1) prod.case
      by (auto intro!: res_ok_bind [OF vec_push_ok [OF v(2)]] simp: v(3) take_Suc_conv_app_nth j)
  qed
  have loop: "res_ok (?I (0 + length s)) (for_res 0 (length s) (parse_types_step am) (v, stream_from s))"
    if "vec_is_valid v \<and> vdata v = []" for v
    by (rule for_res_ok_index) (use that step in \<open>auto simp: stream_from_def\<close>)
  have res: "res_ok (\<lambda>v. vec_is_valid v \<and> vdata v = []) (ignore_err vec_empty (vec_reserve (am T_type_id) vec_empty (unat n)))"
    by (rule ignore_err_ok [OF res_ok_mono [OF vec_reserve_ok]]) auto
  have "res_ok (\<lambda>v. vec_is_valid v \<and> vdata v = map type_byte s)
      (unwrap (ignore_err vec_empty (vec_reserve (am T_type_id) vec_empty (unat n))) (\<lambda>v.
       unwrap (for_res 0 (length s) (parse_types_step am) (v, stream_from s)) (\<lambda>(v, _). Inr v)))"
    by (rule res_ok_bind [OF res], rule res_ok_bind [OF loop]) auto
  then show ?thesis
    using False assms(2) by (simp add: parse_types_def)
qed

end
