(* ===== verification/Op_Decoder.thy ===== *)
theory Op_Decoder
  imports Parser_Correct
begin

text \<open>
  The instruction decoder, src/src/common/op_decoder.c and src/src/common/op_decoder.h, with
  the opcodes of src/src/common/opcode.h.

  A call of a member of \<open>op_decoder_callbacks\<close> is an \<open>event\<close>: the member's name with the
  arguments of the call.  A table of callbacks is a function from events to payload
  transformers (a null member leaves the payload alone).  The stream argument is the
  position of the immediates.  \<open>decode_function\<close> is one loop around a large \<open>switch\<close>;
  the switch is cut into the groups below, which return the stream after the instruction.

  The locale \<open>decoder_client\<close> is the contract between the decoder and its clients: what a
  client's callbacks keep invariant holds in every state that the decoding reaches.
\<close>

section \<open>Events\<close>

text \<open>The members of \<open>op_decoder_callbacks\<close>, grouped by their type.\<close>

datatype cb_none = on_opcode | on_unreachable | on_nop | on_else | on_end | on_br_table |
  on_return | on_drop | on_select | on_memory_size | on_memory_grow | on_iunop | on_funop |
  on_ibinop | on_fbinop | on_itestop | on_irelop | on_frelop | on_wrapop | on_truncop |
  on_convertop | on_rankop | on_reinterpretop | on_extendop | on_ref_is_null

datatype cb_u32 = on_call | on_local_get | on_local_set | on_local_tee | on_global_get |
  on_global_set | on_table_get | on_table_set | on_ref_func | on_memory_init | on_data_drop |
  on_elem_drop | on_table_grow | on_table_size | on_table_fill

datatype cb_u32_u32 = on_call_indirect | on_table_init | on_table_copy

datatype cb_typeid = on_select_t | on_ref_null

datatype cb_fc_none = on_opcode_fc | on_trunc_sat | on_memory_copy | on_memory_fill

datatype event =
    On_decode_begin
  | On_none cb_none u8 stream
  | On_block u8 stream func_type
  | On_br_or_if u8 stream u8
  | On_u32 cb_u32 stream u32
  | On_u32_u32 cb_u32_u32 stream u32 u32
  | On_typeid cb_typeid u8 stream type_id
  | On_memory_load_store u8 stream u8 u32
  | On_i32_const stream u32
  | On_i64_const stream u64
  | On_f32_const stream u32
  | On_f64_const stream u64
  | On_fc_none cb_fc_none u32 stream
  | On_opcode_fd u32 stream
  | On_decode_end

type_synonym 'c callbacks = "event \<Rightarrow> 'c \<Rightarrow> 'c res"

section \<open>Block types\<close>

definition result_type :: "u8 \<Rightarrow> func_type" where
  "result_type b = func_type_zero\<lparr>result_count := 1, results := [b]\<rparr>"

definition s_block_types :: "func_type list" where
  "s_block_types =
     [result_type 0x6f, result_type 0x70] @ replicate 10 func_type_zero @
     [result_type 0x7b, result_type 0x7c, result_type 0x7d, result_type 0x7e, result_type 0x7f]"

text \<open>\<open>s_block_types[id - TYPE_ID_externref]\<close>; an index outside the array is \<open>Fault\<close>.\<close>

definition to_func_type :: "type_id \<Rightarrow> func_type res" where
  "to_func_type t =
     (let i = t - TYPE_ID_externref in
      if 0 \<le> i \<and> nat i < length s_block_types then Inr (s_block_types ! nat i) else Inl Fault)"

definition get_blocktype :: "stream \<Rightarrow> module \<Rightarrow> (func_type \<times> stream) res" where
  "get_blocktype st m =
     unwrap (stream_read_vi7 st) (\<lambda>(blocktype, st).
     if blocktype \<noteq> TYPE_ID_void then
       if is_value_type blocktype then unwrap (to_func_type blocktype) (\<lambda>ft. Inr (ft, st))
       else if blocktype \<ge> 0 then
         if nat blocktype \<ge> vec_size (func_types m) then Inl E_malformed
         else unwrap (vec_at (func_types m) (nat blocktype)) (\<lambda>ft. Inr (ft, st))
       else Inl E_malformed
     else Inr (func_type_zero, st))"

section \<open>Instructions\<close>

text \<open>An instruction without immediates that makes one call.\<close>

definition plain_class :: "u8 \<Rightarrow> cb_none option" where
  "plain_class op =
     (if op = 0x00 then Some on_unreachable
      else if op = 0x01 then Some on_nop
      else if op = 0x05 then Some on_else
      else if op = 0x0b then Some on_end
      else if op = 0x0f then Some on_return
      else if op = 0x1a then Some on_drop
      else if op = 0x1b then Some on_select
      else if op = 0x45 \<or> op = 0x50 then Some on_itestop
      else if 0x46 \<le> op \<and> op \<le> 0x4f \<or> 0x51 \<le> op \<and> op \<le> 0x5a then Some on_irelop
      else if 0x5b \<le> op \<and> op \<le> 0x66 then Some on_frelop
      else if 0x67 \<le> op \<and> op \<le> 0x69 \<or> 0x79 \<le> op \<and> op \<le> 0x7b then Some on_iunop
      else if 0x6a \<le> op \<and> op \<le> 0x78 \<or> 0x7c \<le> op \<and> op \<le> 0x8a then Some on_ibinop
      else if 0x8b \<le> op \<and> op \<le> 0x91 \<or> 0x99 \<le> op \<and> op \<le> 0x9f then Some on_funop
      else if 0x92 \<le> op \<and> op \<le> 0x98 \<or> 0xa0 \<le> op \<and> op \<le> 0xa6 then Some on_fbinop
      else if op = 0xa7 then Some on_wrapop
      else if 0xa8 \<le> op \<and> op \<le> 0xab \<or> 0xae \<le> op \<and> op \<le> 0xb1 then Some on_truncop
      else if op = 0xac \<or> op = 0xad \<or> 0xc0 \<le> op \<and> op \<le> 0xc4 then Some on_extendop
      else if 0xb2 \<le> op \<and> op \<le> 0xb5 \<or> 0xb7 \<le> op \<and> op \<le> 0xba then Some on_convertop
      else if op = 0xb6 \<or> op = 0xbb then Some on_rankop
      else if 0xbc \<le> op \<and> op \<le> 0xbf then Some on_reinterpretop
      else if op = 0xd1 then Some on_ref_is_null
      else None)"

text \<open>An instruction with one 32-bit index.\<close>

definition index_event :: "u8 \<Rightarrow> stream \<Rightarrow> u32 \<Rightarrow> event option" where
  "index_event op imm x =
     (if op = 0x10 then Some (On_u32 on_call imm x)
      else if op = 0x20 then Some (On_u32 on_local_get imm x)
      else if op = 0x21 then Some (On_u32 on_local_set imm x)
      else if op = 0x22 then Some (On_u32 on_local_tee imm x)
      else if op = 0x23 then Some (On_u32 on_global_get imm x)
      else if op = 0x24 then Some (On_u32 on_global_set imm x)
      else if op = 0x25 then Some (On_u32 on_table_get imm x)
      else if op = 0x26 then Some (On_u32 on_table_set imm x)
      else if op = 0xd2 then Some (On_u32 on_ref_func imm x)
      else None)"

text \<open>Structured control and branches.\<close>

definition decode_control :: "'c callbacks \<Rightarrow> module \<Rightarrow> u8 \<Rightarrow> stream \<Rightarrow> 'c \<Rightarrow> (stream \<times> 'c) res" where
  "decode_control cb m op st c =
     (if op = 0x02 \<or> op = 0x03 \<or> op = 0x04 then
        let imm = st in
        unwrap (get_blocktype st m) (\<lambda>(type, st).
        unwrap (cb (On_block op imm type) c) (\<lambda>c. Inr (st, c)))
      else if op = 0x0c \<or> op = 0x0d then
        let imm = st in
        unwrap (stream_read_u8 st) (\<lambda>(lth, st).
        unwrap (cb (On_br_or_if op imm lth) c) (\<lambda>c. Inr (st, c)))
      else if op = 0x0e then
        unwrap (cb (On_none on_br_table op st) c) (\<lambda>c.
        unwrap (stream_read_vu32 st) (\<lambda>(table_len, st).
        unwrap (stream_seek st (uint (table_len + 1))) (\<lambda>st. Inr (st, c))))
      else if op = 0x11 then
        let imm = st in
        unwrap (stream_read_vu32 st) (\<lambda>(type_idx, st).
        unwrap (stream_read_vu32 st) (\<lambda>(table_idx, st).
        unwrap (cb (On_u32_u32 on_call_indirect imm type_idx table_idx) c) (\<lambda>c. Inr (st, c))))
      else Inl E_malformed)"

text \<open>Constants, typed instructions, loads and stores.\<close>

definition decode_value :: "'c callbacks \<Rightarrow> u8 \<Rightarrow> stream \<Rightarrow> 'c \<Rightarrow> (stream \<times> 'c) res" where
  "decode_value cb op st c =
     (let imm = st in
      if op = 0x1c then
        unwrap (stream_read_vi7 st) (\<lambda>(n, st).
        if n \<noteq> 1 then Inl E_invalid
        else unwrap (stream_read_vi7 st) (\<lambda>(t, st).
          if \<not> is_value_type t then Inl E_invalid
          else unwrap (cb (On_typeid on_select_t op imm t) c) (\<lambda>c. Inr (st, c))))
      else if 0x28 \<le> op \<and> op \<le> 0x3e then
        unwrap (stream_read_vu7 st) (\<lambda>(align, st).
        unwrap (stream_read_vu32 st) (\<lambda>(offset, st).
        unwrap (cb (On_memory_load_store op imm align offset) c) (\<lambda>c. Inr (st, c))))
      else if op = 0x3f \<or> op = 0x40 then
        unwrap (stream_read_vu7 st) (\<lambda>(reserved_byte, st).
        if reserved_byte \<noteq> 0 then Inl E_malformed
        else unwrap (cb (if op = 0x3f then On_none on_memory_size op imm else On_none on_memory_grow op imm) c) (\<lambda>c. Inr (st, c)))
      else if op = 0x41 then
        unwrap (stream_read_vi32 st) (\<lambda>(val, st). unwrap (cb (On_i32_const imm val) c) (\<lambda>c. Inr (st, c)))
      else if op = 0x42 then
        unwrap (stream_read_vi64 st) (\<lambda>(val, st). unwrap (cb (On_i64_const imm val) c) (\<lambda>c. Inr (st, c)))
      else if op = 0x43 then
        unwrap (stream_read_f32 st) (\<lambda>(val, st). unwrap (cb (On_f32_const imm val) c) (\<lambda>c. Inr (st, c)))
      else if op = 0x44 then
        unwrap (stream_read_f64 st) (\<lambda>(val, st). unwrap (cb (On_f64_const imm val) c) (\<lambda>c. Inr (st, c)))
      else if op = 0xd0 then
        unwrap (stream_read_vi7 st) (\<lambda>(ref_type, st).
        if \<not> is_ref ref_type then Inl E_invalid
        else unwrap (cb (On_typeid on_ref_null op imm ref_type) c) (\<lambda>c. Inr (st, c)))
      else Inl E_malformed)"

text \<open>The instructions behind the prefix \<open>0xfc\<close>.\<close>

definition decode_fc :: "'c callbacks \<Rightarrow> stream \<Rightarrow> 'c \<Rightarrow> (stream \<times> 'c) res" where
  "decode_fc cb st c =
     unwrap (stream_read_vu32 st) (\<lambda>(op, st).
     unwrap (cb (On_fc_none on_opcode_fc op st) c) (\<lambda>c.
     let imm = st in
     if op \<le> 0x07 then unwrap (cb (On_fc_none on_trunc_sat op st) c) (\<lambda>c. Inr (st, c))
     else if op = 0x08 then
       unwrap (stream_read_vu32 st) (\<lambda>(data_idx, st).
       unwrap (stream_read_vu7 st) (\<lambda>(reserved_byte, st).
       if reserved_byte \<noteq> 0 then Inl E_malformed
       else unwrap (cb (On_u32 on_memory_init imm data_idx) c) (\<lambda>c. Inr (st, c))))
     else if op = 0x0a then
       unwrap (stream_read_vu7 st) (\<lambda>(mem_idx_src, st).
       unwrap (stream_read_vu7 st) (\<lambda>(mem_idx_dst, st).
       if mem_idx_dst \<noteq> 0 \<or> mem_idx_src \<noteq> 0 then Inl E_malformed
       else unwrap (cb (On_fc_none on_memory_copy op imm) c) (\<lambda>c. Inr (st, c))))
     else if op = 0x0b then
       unwrap (stream_read_vu7 st) (\<lambda>(reserved_byte, st).
       if reserved_byte \<noteq> 0 then Inl E_malformed
       else unwrap (cb (On_fc_none on_memory_fill op imm) c) (\<lambda>c. Inr (st, c)))
     else if op = 0x0c \<or> op = 0x0e then
       unwrap (stream_read_vu32 st) (\<lambda>(i1, st).
       unwrap (stream_read_vu32 st) (\<lambda>(i2, st).
       unwrap (cb (if op = 0x0c then On_u32_u32 on_table_init imm i1 i2 else On_u32_u32 on_table_copy imm i1 i2) c) (\<lambda>c. Inr (st, c))))
     else if op = 0x09 \<or> op = 0x0d \<or> op = 0x0f \<or> op = 0x10 \<or> op = 0x11 then
       unwrap (stream_read_vu32 st) (\<lambda>(idx, st).
       unwrap (cb (if op = 0x09 then On_u32 on_data_drop imm idx
                   else if op = 0x0d then On_u32 on_elem_drop imm idx
                   else if op = 0x0f then On_u32 on_table_grow imm idx
                   else if op = 0x10 then On_u32 on_table_size imm idx
                   else On_u32 on_table_fill imm idx) c) (\<lambda>c. Inr (st, c)))
     else Inl E_invalid))"

definition decode_fd :: "'c callbacks \<Rightarrow> stream \<Rightarrow> 'c \<Rightarrow> (stream \<times> 'c) res" where
  "decode_fd cb st c =
     unwrap (stream_read_vu32 st) (\<lambda>(op, st).
     unwrap (cb (On_opcode_fd op st) c) (\<lambda>c. Inl E_invalid))"

definition decode_op :: "'c callbacks \<Rightarrow> module \<Rightarrow> u8 \<Rightarrow> stream \<Rightarrow> 'c \<Rightarrow> (stream \<times> 'c) res" where
  "decode_op cb m op st c =
     (case plain_class op of
        Some k \<Rightarrow> unwrap (cb (On_none k op st) c) (\<lambda>c. Inr (st, c))
      | None \<Rightarrow>
          if index_event op st 0 \<noteq> None then
            unwrap (stream_read_vu32 st) (\<lambda>(x, st').
            unwrap (cb (the (index_event op st x)) c) (\<lambda>c. Inr (st', c)))
          else if op = 0xfc then decode_fc cb st c
          else if op = 0xfd then decode_fd cb st c
          else if op = 0x02 \<or> op = 0x03 \<or> op = 0x04 \<or> op = 0x0c \<or> op = 0x0d \<or> op = 0x0e \<or> op = 0x11
          then decode_control cb m op st c
          else decode_value cb op st c)"

section \<open>The loop\<close>

text \<open>
  One round: the new state and whether the round ends the decoding (an \<open>end\<close> at the end of
  the code).
\<close>

definition decode_step :: "'c callbacks \<Rightarrow> module \<Rightarrow> stream \<Rightarrow> 'c \<Rightarrow> (bool \<times> stream \<times> 'c) res" where
  "decode_step cb m st c =
     unwrap (stream_read_u8 st) (\<lambda>(op, st).
     unwrap (cb (On_none on_opcode op st) c) (\<lambda>c.
     unwrap (decode_op cb m op st c) (\<lambda>(st, c).
     Inr (op = 0x0b \<and> stream_remaining st = 0, st, c))))"

lemma get_blocktype_remaining:
  "get_blocktype st m = Inr (ft, st') \<Longrightarrow> stream_remaining st' < stream_remaining st"
  by (auto simp: get_blocktype_def res_simps dest!: rd_vi7.read_remaining split: if_splits)

lemma stream_seek_remaining:
  "stream_seek st n = Inr st' \<Longrightarrow> 0 \<le> n \<Longrightarrow> stream_remaining st' \<le> stream_remaining st"
  by (auto simp: stream_seek_def stream_remaining_def Let_def split: if_splits)

lemmas read_remainings =
  rd_u8.read_remaining rd_vu7.read_remaining rd_vi7.read_remaining rd_vu32.read_remaining rd_vi32.read_remaining
  rd_vi64.read_remaining rd_f32.read_remaining rd_f64.read_remaining get_blocktype_remaining

lemma decode_control_remaining:
  "decode_control cb m op st c = Inr (st', c') \<Longrightarrow> stream_remaining st' \<le> stream_remaining st"
  by (auto simp: decode_control_def Let_def res_simps dest!: read_remainings stream_seek_remaining split: if_splits)

lemma decode_value_remaining:
  "decode_value cb op st c = Inr (st', c') \<Longrightarrow> stream_remaining st' \<le> stream_remaining st"
  by (auto simp: decode_value_def Let_def res_simps dest!: read_remainings split: if_splits)

lemma decode_fc_remaining:
  "decode_fc cb st c = Inr (st', c') \<Longrightarrow> stream_remaining st' \<le> stream_remaining st"
  by (auto simp: decode_fc_def Let_def res_simps dest!: read_remainings split: if_splits)

lemma decode_op_remaining:
  "decode_op cb m op st c = Inr (st', c') \<Longrightarrow> stream_remaining st' \<le> stream_remaining st"
  unfolding decode_op_def
  by (auto simp: res_simps decode_fd_def dest!: rd_vu32.read_remaining
      dest: decode_control_remaining decode_value_remaining decode_fc_remaining split: if_splits option.splits)

lemma decode_step_remaining:
  "decode_step cb m st c = Inr (fin, st', c') \<Longrightarrow> stream_remaining st' < stream_remaining st"
  by (auto simp: decode_step_def res_simps dest!: rd_u8.read_remaining decode_op_remaining)

function decode_loop :: "'c callbacks \<Rightarrow> module \<Rightarrow> stream \<Rightarrow> 'c \<Rightarrow> 'c res" where
  "decode_loop cb m st c =
     unwrap (decode_step cb m st c) (\<lambda>(fin, st, c). if fin then Inr c else decode_loop cb m st c)"
  by pat_completeness auto
termination
  by (relation "measure (\<lambda>(cb, m, st, c). stream_remaining st)") (auto dest!: decode_step_remaining)

declare decode_loop.simps [simp del]

definition decode_function :: "'c callbacks \<Rightarrow> module \<Rightarrow> func \<Rightarrow> 'c \<Rightarrow> 'c res" where
  "decode_function cb m f c =
     unwrap (cb On_decode_begin c) (\<lambda>c.
     unwrap (decode_loop cb m (stream_from (f_code f)) c) (\<lambda>c.
     cb On_decode_end c))"

text \<open>The states at the head of the loop.\<close>

inductive reaches :: "'c callbacks \<Rightarrow> module \<Rightarrow> stream \<Rightarrow> 'c \<Rightarrow> stream \<Rightarrow> 'c \<Rightarrow> bool"
  for cb m st0 c0 where
  start: "reaches cb m st0 c0 st0 c0"
| step: "reaches cb m st0 c0 st c \<Longrightarrow> decode_step cb m st c = Inr (False, st', c') \<Longrightarrow>
    reaches cb m st0 c0 st' c'"

inductive_cases reaches_stepE: "reaches cb m st0 c0 st c"

lemma decode_loop_reaches:
  assumes "reaches cb m st0 c0 st c" "decode_loop cb m st c = r"
  shows "\<exists>st' c'. reaches cb m st0 c0 st' c' \<and>
    (case r of Inl e \<Rightarrow> decode_step cb m st' c' = Inl e
             | Inr c'' \<Rightarrow> \<exists>st''. decode_step cb m st' c' = Inr (True, st'', c''))"
  using assms
proof (induction cb m st c rule: decode_loop.induct)
  case (1 cb m st c)
  show ?case
  proof (cases "decode_step cb m st c")
    case (Inl e)
    then show ?thesis
      using 1(2,3) by (intro exI [of _ st] exI [of _ c]) (auto simp: decode_loop.simps [of cb m st c])
  next
    case (Inr x)
    obtain fin st' c' where x: "x = (fin, st', c')" using prod_cases3 by blast
    show ?thesis
    proof (cases fin)
      case True
      then show ?thesis
        using 1(2,3) Inr x by (intro exI [of _ st] exI [of _ c]) (auto simp: decode_loop.simps [of cb m st c])
    next
      case False
      have "decode_loop cb m st' c' = r"
        using 1(3) Inr x False by (simp add: decode_loop.simps [of cb m st c])
      moreover have "reaches cb m st0 c0 st' c'"
        using reaches.step [OF 1(2)] Inr x False by simp
      ultimately show ?thesis
        using 1(1) [OF Inr x [symmetric] refl False] by blast
    qed
  qed
qed

section \<open>The events of a decoding\<close>

text \<open>The immediates lie behind an opcode of the code.\<close>

definition imm_ok :: "str \<Rightarrow> stream \<Rightarrow> bool" where
  "imm_ok code st \<longleftrightarrow> st_s st = code \<and> 0 < st_p st \<and> st_p st \<le> length code"

fun event_ok :: "str \<Rightarrow> event \<Rightarrow> bool" where
  "event_ok code (On_none k op st) \<longleftrightarrow> imm_ok code st \<and>
     (k \<in> {on_opcode, on_memory_size, on_memory_grow} \<or> k = on_br_table \<and> op = 0x0e \<or> plain_class op = Some k)"
| "event_ok code (On_block op st ft) \<longleftrightarrow> imm_ok code st \<and> op \<in> {0x02, 0x03, 0x04} \<and> wf_func_type ft \<and>
     st_p st < length code"
| "event_ok code (On_br_or_if op st lth) \<longleftrightarrow> imm_ok code st \<and> op \<in> {0x0c, 0x0d} \<and> st_p st < length code"
| "event_ok code (On_u32 k st x) \<longleftrightarrow> imm_ok code st"
| "event_ok code (On_u32_u32 k st x y) \<longleftrightarrow> imm_ok code st"
| "event_ok code (On_typeid k op st t) \<longleftrightarrow> imm_ok code st \<and> is_value_type t"
| "event_ok code (On_memory_load_store op st align offset) \<longleftrightarrow> imm_ok code st \<and> 0x28 \<le> op \<and> op \<le> 0x3e"
| "event_ok code (On_i32_const st x) \<longleftrightarrow> imm_ok code st"
| "event_ok code (On_i64_const st y) \<longleftrightarrow> imm_ok code st"
| "event_ok code (On_f32_const st x) \<longleftrightarrow> imm_ok code st"
| "event_ok code (On_f64_const st y) \<longleftrightarrow> imm_ok code st"
| "event_ok code (On_fc_none k op st) \<longleftrightarrow> imm_ok code st \<and> (k = on_trunc_sat \<longrightarrow> op \<le> 0x07)"
| "event_ok code (On_opcode_fd op st) \<longleftrightarrow> imm_ok code st"
| "event_ok code On_decode_begin \<longleftrightarrow> False"
| "event_ok code On_decode_end \<longleftrightarrow> False"

text \<open>The event carries the opcode \<open>op\<close> and the position \<open>st\<close> behind it.\<close>

fun event_at :: "u8 \<Rightarrow> stream \<Rightarrow> event \<Rightarrow> bool" where
  "event_at op st (On_none k op' imm) \<longleftrightarrow> op' = op \<and> imm = st"
| "event_at op st (On_block op' imm ft) \<longleftrightarrow> op' = op \<and> imm = st"
| "event_at op st (On_br_or_if op' imm lth) \<longleftrightarrow> op' = op \<and> imm = st"
| "event_at op st _ \<longleftrightarrow> True"

lemma s_block_types_wf: "list_all wf_func_type s_block_types"
  by code_simp

text \<open>
  The block type is read from one byte.  The value types that are not in the table
  \<open>s_block_types\<close> are \<open>ref\<close> (0x6b) and \<open>unknown\<close> (0x47): their index is negative.
\<close>

definition blocktype_listed :: "stream \<Rightarrow> bool" where
  "blocktype_listed st \<longleftrightarrow> (st_p st < length (st_s st) \<longrightarrow> byte_at st 0 \<noteq> 0x47 \<and> byte_at st 0 \<noteq> 0x6b)"

text \<open>A block instruction at \<open>st\<close> with such a type.\<close>

definition unlisted_block :: "stream \<Rightarrow> bool" where
  "unlisted_block st \<longleftrightarrow> byte_at st 0 \<in> {0x02, 0x03, 0x04} \<and> \<not> blocktype_listed (stream_advance st 1)"

lemma type_byte_unlisted:
  "b < 0x80 \<Longrightarrow> is_value_type (type_byte b) \<Longrightarrow> b \<noteq> 0x47 \<Longrightarrow> b \<noteq> 0x6b \<Longrightarrow>
   0 \<le> type_byte b - TYPE_ID_externref \<and> nat (type_byte b - TYPE_ID_externref) < length s_block_types"
proof -
  have "\<forall>n \<in> set [0..<128]. is_value_type (type_byte (of_nat n)) \<longrightarrow> of_nat n \<noteq> (0x47 :: u8) \<longrightarrow> of_nat n \<noteq> (0x6b :: u8) \<longrightarrow>
      0 \<le> type_byte (of_nat n) - TYPE_ID_externref \<and>
      nat (type_byte (of_nat n) - TYPE_ID_externref) < length s_block_types"
    by code_simp
  note all = bspec [OF this, of "unat b"]
  assume b: "b < 0x80" "is_value_type (type_byte b)" "b \<noteq> 0x47" "b \<noteq> 0x6b"
  then have "unat b \<in> set [0..<128]"
    by (simp add: word_less_nat_alt)
  with all b show ?thesis
    by simp
qed

lemma get_blocktype_ok:
  assumes "stream_is_valid st" "wf_types (func_types m)" "blocktype_listed st"
  shows "res_ok (\<lambda>(ft, st'). stream_moved st st' \<and> st_p st < st_p st' \<and> wf_func_type ft) (get_blocktype st m)"
proof -
  have zero: "wf_func_type func_type_zero"
    by code_simp
  have listed: "res_ok wf_func_type (to_func_type t)" if "stream_read_vi7 st = Inr (t, st')" "is_value_type t" for t st'
    using stream_read_vi7_value [OF that(1)] type_byte_unlisted [of "byte_at st 0"] that(2) assms(3) s_block_types_wf
    by (auto simp: to_func_type_def Let_def blocktype_listed_def list_all_length simp del: TYPE_ID_externref_def)
  have indexed: "wf_func_type (vdata (func_types m) ! i)" if "i < length (vdata (func_types m))" for i
    using assms(2) that by (simp add: wf_types_def list_all_length)
  show ?thesis
    unfolding get_blocktype_def
    using assms(1) zero indexed
    by (auto intro!: res_wp res_ok_bind [OF listed] res_ok_bind [OF vec_at_ok] simp: not_le)
qed

lemma get_blocktype_value:
  assumes "get_blocktype st m = Inr (ft, st')" "wf_types (func_types m)" "stream_is_valid st"
  shows "stream_moved st st' \<and> st_p st < st_p st' \<and> wf_func_type ft"
proof (cases "blocktype_listed st")
  case True
  then show ?thesis
    using res_okD [OF get_blocktype_ok [OF assms(3,2)] assms(1)] by simp
next
  case False
  then have b: "st_p st < length (st_s st)" "byte_at st 0 = 0x47 \<or> byte_at st 0 = 0x6b"
    by (auto simp: blocktype_listed_def)
  have "\<forall>b \<in> {0x47, 0x6b}. b < (0x80 :: u8) \<and> is_value_type (type_byte b) \<and> type_byte b \<noteq> TYPE_ID_void \<and>
      to_func_type (type_byte b) = Inl Fault"
    by code_simp
  then have t: "byte_at st 0 < 0x80" "is_value_type (type_byte (byte_at st 0))" "type_byte (byte_at st 0) \<noteq> TYPE_ID_void"
    "to_func_type (type_byte (byte_at st 0)) = Inl Fault"
    using b(2) by blast+
  have "stream_read_vi7 st = Inr (type_byte (byte_at st 0), stream_advance st 1)"
    using b(1) t(1) assms(3)
    by (simp add: stream_read_vi7_def stream_remaining_def type_byte_def Let_def not_le [symmetric])
  then have "get_blocktype st m = Inl Fault"
    using t(2-4) by (simp add: get_blocktype_def)
  with assms(1) show ?thesis by simp
qed

section \<open>The contract of a client\<close>

text \<open>
  What the decoder asks of a client: the callbacks that only trace leave the payload alone.
  Then a round of the loop is one call of a callback on an event of the code, and a
  round that faults is one whose callback faults or a block with an unlisted type.
\<close>

locale decoder_client =
  fixes cb :: "'c callbacks" and m :: module and code :: str
  assumes trace: "cb (On_none on_opcode op st) c = Inr c" "cb (On_fc_none on_opcode_fc op' st) c = Inr c"
begin

definition at_code :: "stream \<Rightarrow> bool" where
  "at_code st \<longleftrightarrow> st_s st = code \<and> stream_is_valid st"

definition calls :: "u8 \<Rightarrow> stream \<Rightarrow> 'c \<Rightarrow> 'c res \<Rightarrow> bool" where
  "calls op st c r \<longleftrightarrow> (\<exists>e. event_ok code e \<and> event_at op st e \<and> cb e c = r)"

text \<open>The fault of a round, and what it leaves behind.\<close>

definition fault :: "u8 \<Rightarrow> stream \<Rightarrow> 'c \<Rightarrow> bool" where
  "fault op st c \<longleftrightarrow> calls op st c (Inl Fault) \<or> (op \<in> {0x02, 0x03, 0x04} \<and> \<not> blocktype_listed st)"

definition after :: "u8 \<Rightarrow> stream \<Rightarrow> 'c \<Rightarrow> stream \<times> 'c \<Rightarrow> bool" where
  "after op st c s \<longleftrightarrow> (case s of (st', c') \<Rightarrow> calls op st c (Inr c') \<and> imm_ok code st')"

lemma call_out:
  assumes "event_ok code e" "event_at op st e" "\<And>c'. calls op st c (Inr c') \<Longrightarrow> res_out F Q (f c')" "calls op st c (Inl Fault) \<Longrightarrow> F"
  shows "res_out F Q (unwrap (cb e c) f)"
  by (rule res_out_bind) (use assms in \<open>auto simp: calls_def\<close>)

lemma imm_moved: "imm_ok code st \<Longrightarrow> stream_moved st st' \<Longrightarrow> imm_ok code st'"
  by (auto simp: imm_ok_def stream_moved_def)

lemma imm_valid: "imm_ok code st \<Longrightarrow> stream_is_valid st"
  by (simp add: imm_ok_def stream_is_valid_def)

lemma imm_fwd: "stream_moved st st' \<Longrightarrow> imm_ok code st \<Longrightarrow> imm_ok code st'"
  by (rule imm_moved)

lemma imm_before: "st_p st < st_p st' \<Longrightarrow> imm_ok code st' \<Longrightarrow> st_p st < length code"
  by (auto simp: imm_ok_def)

lemma blocktype_out:
  assumes wf: "wf_types (func_types m)" and "stream_is_valid st" "\<not> blocktype_listed st \<Longrightarrow> F"
    and "\<And>ft st'. stream_moved st st' \<Longrightarrow> st_p st < st_p st' \<Longrightarrow> wf_func_type ft \<Longrightarrow> res_out F Q (f (ft, st'))"
  shows "res_out F Q (unwrap (get_blocktype st m) f)"
proof (rule res_out_bind)
  show F if "get_blocktype st m = Inl Fault"
    using that assms(2,3) get_blocktype_ok [OF assms(2) wf] by (cases "blocktype_listed st") auto
  show "res_out F Q (f x)" if "get_blocktype st m = Inr x" for x
    using that assms(4) get_blocktype_value [OF _ wf assms(2)] by (cases x) auto
qed

lemma control_out:
  assumes wf: "wf_types (func_types m)" and "imm_ok code st"
  shows "res_out (fault op st c) (after op st c) (decode_control cb m op st c)"
  unfolding decode_control_def Let_def
  using assms(2) imm_valid [OF assms(2)]
  by (auto intro!: out_wp blocktype_out [OF wf] call_out res_out_ok_bind [OF stream_seek_forward_ok]
      dest!: imm_fwd intro: imm_before simp: after_def fault_def)

lemma value_out:
  assumes "imm_ok code st"
  shows "res_out (fault op st c) (after op st c) (decode_value cb op st c)"
  unfolding decode_value_def Let_def
  using assms imm_valid [OF assms]
  by (auto intro!: out_wp call_out dest!: imm_fwd intro: imm_before simp: after_def fault_def is_value_type_def)

lemma fc_out:
  assumes "imm_ok code st"
  shows "res_out (fault op st c) (after op st c) (decode_fc cb st c)"
  unfolding decode_fc_def Let_def
  using assms imm_valid [OF assms]
  by (auto intro!: out_wp call_out dest!: imm_fwd simp: trace after_def fault_def)

lemma fd_out:
  assumes "imm_ok code st"
  shows "res_out (fault op st c) (after op st c) (decode_fd cb st c)"
  unfolding decode_fd_def
  using assms imm_valid [OF assms]
  by (auto intro!: out_wp call_out dest!: imm_fwd simp: fault_def)

lemma index_event_ok: "imm_ok code st \<Longrightarrow> index_event op st x = Some e \<Longrightarrow> event_ok code e"
  by (auto simp: index_event_def split: if_splits)

lemma index_event_at: "index_event op st x = Some e \<Longrightarrow> event_at op' st' e"
  by (auto simp: index_event_def split: if_splits)

lemma index_event_some: "index_event op st x \<noteq> None \<longleftrightarrow> index_event op st y \<noteq> None"
  by (simp add: index_event_def)

lemma op_out:
  assumes wf: "wf_types (func_types m)" and imm: "imm_ok code st"
  shows "res_out (fault op st c) (after op st c) (decode_op cb m op st c)"
proof (cases "plain_class op")
  case (Some k)
  then show ?thesis
    using assms by (auto simp: decode_op_def after_def fault_def intro!: call_out)
next
  case None
  show ?thesis
  proof (cases "index_event op st 0")
    case i: (Some e)
    have ev: "event_ok code (the (index_event op st x))" "event_at op st (the (index_event op st x))" for x
      using i index_event_some [of op st 0 x] index_event_ok [OF imm, of op x] index_event_at [of op st x] by auto
    show ?thesis
      using None i assms imm_valid [OF imm]
      by (auto simp: decode_op_def after_def fault_def dest!: imm_fwd intro!: call_out out_wp ev)
  next
    case i: None
    show ?thesis
      using None i control_out [OF assms] value_out [OF imm] fc_out [OF imm] fd_out [OF imm]
      by (simp add: decode_op_def)
  qed
qed

lemma step_out:
  assumes wf: "wf_types (func_types m)" and at: "at_code st"
  shows "res_out (calls (byte_at st 0) (stream_advance st 1) c (Inl Fault) \<or> unlisted_block st)
    (\<lambda>(fin, st', c'). calls (byte_at st 0) (stream_advance st 1) c (Inr c') \<and> at_code st' \<and> st_p st < st_p st')
    (decode_step cb m st c)" (is "res_out ?F ?Q _")
  unfolding decode_step_def
proof (rule rd_u8.read_out, use at in \<open>simp add: at_code_def\<close>, simp only: prod.case trace unwrap_Inr)
  fix op st1 assume r: "stream_read_u8 st = Inr (op, st1)" and st1: "stream_moved st st1" "st_p st < st_p st1"
  have adv: "st1 = stream_advance st 1" "op = byte_at st 0"
    using r by (auto simp: stream_read_u8_def stream_peek_u8_def res_simps split: if_splits)
  have imm: "imm_ok code st1"
    using at st1 by (auto simp: at_code_def imm_ok_def stream_moved_def)
  show "res_out ?F ?Q (unwrap (decode_op cb m op st1 c) (\<lambda>(st, c). Inr (op = 0x0b \<and> stream_remaining st = 0, st, c)))"
  proof (rule res_out_then [OF op_out [OF wf imm]])
    show ?F if "fault op st1 c"
      using that by (auto simp: fault_def unlisted_block_def adv)
    fix x assume d: "decode_op cb m op st1 c = Inr x" and a: "after op st1 c x"
    obtain st2 c' where x: "x = (st2, c')" by fastforce
    have "imm_ok code st2" "calls op st1 c (Inr c')"
      using a by (simp_all add: after_def x)
    moreover have "st_p st1 \<le> st_p st2"
      using decode_op_remaining [OF d [unfolded x]] calculation(1) imm by (auto simp: imm_ok_def stream_remaining_def)
    ultimately show "res_out ?F ?Q (case x of (st, c) \<Rightarrow> Inr (op = 0x0b \<and> stream_remaining st = 0, st, c))"
      using st1 by (auto simp: x adv at_code_def imm_ok_def stream_is_valid_def)
  qed
qed

text \<open>
  An invariant of the callbacks holds in every state reached, and a fault of the loop is a
  fault of a callback in such a state or an unlisted block type.
\<close>

definition preserved :: "(stream \<Rightarrow> 'c \<Rightarrow> bool) \<Rightarrow> bool" where
  "preserved Inv \<longleftrightarrow> (\<forall>st c e fin st' c'. Inv st c \<and> at_code st \<and> at_code st' \<and> st_p st < st_p st' \<and>
     event_ok code e \<and> event_at (byte_at st 0) (stream_advance st 1) e \<and> cb e c = Inr c' \<and>
     decode_step cb m st c = Inr (fin, st', c') \<longrightarrow> Inv st' c')"

lemma step_preserved:
  assumes "decode_step cb m st c = Inr (fin, st', c')" "at_code st" "Inv st c" "preserved Inv" "wf_types (func_types m)"
  shows "at_code st' \<and> Inv st' c'"
proof -
  obtain e where "event_ok code e" "event_at (byte_at st 0) (stream_advance st 1) e" "cb e c = Inr c'" "at_code st'" "st_p st < st_p st'"
    using res_outD [OF step_out [OF assms(5,2)] assms(1)] by (auto simp: calls_def)
  then show ?thesis
    using assms(1-4) unfolding preserved_def by blast
qed

lemma reaches_invariant:
  assumes "reaches cb m st0 c0 st c" "at_code st0" "Inv st0 c0" "preserved Inv" "wf_types (func_types m)"
  shows "at_code st \<and> Inv st c"
  using assms(1)
proof induction
  case start
  then show ?case using assms(2,3) by simp
next
  case (step st c st' c')
  then show ?case
    using step_preserved [OF step.hyps(2)] assms(4,5) by blast
qed

lemma loop_result:
  assumes "decode_loop cb m st0 c0 = Inr c''" "at_code st0" "Inv st0 c0" "preserved Inv" "wf_types (func_types m)"
  shows "\<exists>st. at_code st \<and> Inv st c''"
proof -
  obtain st' c' st'' where r: "reaches cb m st0 c0 st' c'" "decode_step cb m st' c' = Inr (True, st'', c'')"
    using decode_loop_reaches [OF reaches.start assms(1)] by auto
  have "at_code st' \<and> Inv st' c'"
    by (rule reaches_invariant [OF r(1) assms(2-5)])
  then show ?thesis
    using step_preserved [OF r(2)] assms(4,5) by blast
qed

lemma loop_fault:
  assumes "decode_loop cb m st0 c0 = Inl Fault" "at_code st0" and wf: "wf_types (func_types m)"
  shows "\<exists>st c. reaches cb m st0 c0 st c \<and> at_code st \<and>
    (calls (byte_at st 0) (stream_advance st 1) c (Inl Fault) \<or> unlisted_block st)"
proof -
  obtain st c where r: "reaches cb m st0 c0 st c" "decode_step cb m st c = Inl Fault"
    using decode_loop_reaches [OF reaches.start assms(1)] by auto
  have st: "at_code st"
    using reaches_invariant [OF r(1) assms(2), of "\<lambda>_ _. True"] wf by (simp add: preserved_def)
  show ?thesis
    using r(1) st res_out_Fault [OF step_out [OF wf st] r(2)] by blast
qed

end

end
