(* ===== verification/Validator.thy ===== *)
theory Validator
  imports Op_Decoder
begin

text \<open>
  The validator, src/src/runtime/validator.c and src/src/runtime/validator.h: a client of the
  decoder that runs the type-checking algorithm over a stack of value types and a stack
  of control frames, and builds the function's jump table on the way.

  The context is a record; a handler takes the context and returns the new one.  The
  function under validation, \<open>ctx->f\<close>, is an element of \<open>ctx->mod->funcs\<close>; the handlers
  write only its \<open>jt\<close> and \<open>stack_size_max\<close> and read neither through \<open>mod\<close>, so the
  context holds both by value and the caller stores the function back.  A pointer to a
  frame is its index.  The tracing of \<open>LOG_INFO_ENABLED\<close> is left out.
\<close>

section \<open>The context\<close>

datatype blocktype = bt_func | bt_block | bt_loop | bt_if | bt_else

record ctrl_frame =
  cf_type :: blocktype
  cf_ftype :: func_type
  start_types :: "type_id vec"
  end_types :: "type_id vec"
  cf_height :: nat
  cf_unreachable :: bool
  pending_jt_slots :: "u32 vec"
  cf_pc :: u32

definition ctrl_frame_zero :: ctrl_frame where
  "ctrl_frame_zero = \<lparr>cf_type = bt_func, cf_ftype = func_type_zero, start_types = vec_empty, end_types = vec_empty,
     cf_height = 0, cf_unreachable = False, pending_jt_slots = vec_empty, cf_pc = 0\<rparr>"

record validator_context =
  locals :: "type_id vec"
  val_stack :: "type_id vec"
  ctrl_stack :: "ctrl_frame vec"
  stack_size_max :: u32
  vc_mod :: module
  vc_f :: func

text \<open>A write through the pointer that \<open>vec_back\<close> or \<open>vec_at\<close> returns.\<close>

definition update_at :: "'a vec \<Rightarrow> nat \<Rightarrow> ('a \<Rightarrow> 'a) \<Rightarrow> 'a vec res" where
  "update_at v i g = unwrap (vec_at v i) (\<lambda>x. vec_set v i (g x))"

definition update_back :: "'a vec \<Rightarrow> ('a \<Rightarrow> 'a) \<Rightarrow> 'a vec res" where
  "update_back v g = (if vdata v = [] then Inl Fault else update_at v (vec_size v - 1) g)"

section \<open>Value stack\<close>

definition push_val :: "alloc \<Rightarrow> type_id \<Rightarrow> validator_context \<Rightarrow> validator_context res" where
  "push_val am type ctx =
     unwrap (vec_push (am T_type_id) (val_stack ctx) type) (\<lambda>v.
     let ctx = ctx\<lparr>val_stack := v\<rparr> in
     Inr (if vec_size v > unat (stack_size_max ctx) then ctx\<lparr>stack_size_max := of_nat (vec_size v)\<rparr> else ctx))"

definition push_vals :: "alloc \<Rightarrow> type_id vec \<Rightarrow> validator_context \<Rightarrow> validator_context res" where
  "push_vals am vals ctx = foreach_res (push_val am) (vdata vals) ctx"

definition pop_val :: "validator_context \<Rightarrow> (type_id \<times> validator_context) res" where
  "pop_val ctx =
     unwrap (vec_back (ctrl_stack ctx)) (\<lambda>frame.
     if cf_unreachable frame \<and> cf_height frame = vec_size (val_stack ctx) then Inr (TYPE_ID_unknown, ctx)
     else if cf_height frame = vec_size (val_stack ctx) then Inl E_invalid
     else unwrap (vec_back (val_stack ctx)) (\<lambda>real_type.
       unwrap (vec_pop (val_stack ctx)) (\<lambda>v. Inr (real_type, ctx\<lparr>val_stack := v\<rparr>))))"

definition pop_val_expect :: "type_id \<Rightarrow> validator_context \<Rightarrow> (type_id \<times> validator_context) res" where
  "pop_val_expect expected_type ctx =
     unwrap (pop_val ctx) (\<lambda>(actual, ctx).
     if actual \<noteq> expected_type \<and> actual \<noteq> TYPE_ID_unknown \<and> expected_type \<noteq> TYPE_ID_unknown \<and>
        \<not> (expected_type = TYPE_ID_ref \<and> is_ref actual)
     then Inl E_invalid
     else Inr (actual, ctx))"

text \<open>\<open>unwrap_drop(type_id, pop_val_expect(...))\<close>\<close>

definition pop_expect :: "type_id \<Rightarrow> validator_context \<Rightarrow> validator_context res" where
  "pop_expect t ctx = unwrap (pop_val_expect t ctx) (\<lambda>(_, ctx). Inr ctx)"

definition pop_vals_to_vec ::
  "alloc \<Rightarrow> type_id vec \<Rightarrow> validator_context \<Rightarrow> (type_id vec \<times> validator_context) res" where
  "pop_vals_to_vec am vals ctx =
     foreach_res (\<lambda>v (popped_vals, ctx).
         unwrap (pop_val_expect v ctx) (\<lambda>(t, ctx).
         unwrap (vec_push (am T_type_id) popped_vals t) (\<lambda>popped_vals. Inr (popped_vals, ctx))))
       (rev (vdata vals)) (vec_empty, ctx)"

definition pop_vals :: "alloc \<Rightarrow> type_id vec \<Rightarrow> validator_context \<Rightarrow> validator_context res" where
  "pop_vals am vals ctx = unwrap (pop_vals_to_vec am vals ctx) (\<lambda>(_, ctx). Inr ctx)"

section \<open>Control stack\<close>

definition push_ctrl :: "alloc \<Rightarrow> blocktype \<Rightarrow> func_type \<Rightarrow> validator_context \<Rightarrow> validator_context res" where
  "push_ctrl am bt ftype ctx =
     unwrap (vec_push (am T_ctrl_frame) (ctrl_stack ctx) ctrl_frame_zero) (\<lambda>v.
     unwrap (update_back v (\<lambda>frame. frame\<lparr>cf_type := bt, cf_ftype := ftype,
              cf_height := vec_size (val_stack ctx), cf_unreachable := False\<rparr>)) (\<lambda>v.
     unwrap (parse_types am (param_count ftype) (params ftype)) (\<lambda>ps.
     unwrap (update_back v (\<lambda>frame. frame\<lparr>start_types := ps\<rparr>)) (\<lambda>v.
     unwrap (parse_types am (result_count ftype) (results ftype)) (\<lambda>rs.
     unwrap (update_back v (\<lambda>frame. frame\<lparr>end_types := rs\<rparr>)) (\<lambda>v.
     push_vals am ps (ctx\<lparr>ctrl_stack := v\<rparr>)))))))"

definition pop_ctrl :: "alloc \<Rightarrow> validator_context \<Rightarrow> (ctrl_frame \<times> validator_context) res" where
  "pop_ctrl am ctx =
     (if vec_size (ctrl_stack ctx) = 0 then Inl E_invalid
      else unwrap (vec_back (ctrl_stack ctx)) (\<lambda>top_frame.
        unwrap (pop_vals am (end_types top_frame) ctx) (\<lambda>ctx.
        unwrap (vec_pop (ctrl_stack ctx)) (\<lambda>v. Inr (top_frame, ctx\<lparr>ctrl_stack := v\<rparr>)))))"

definition label_types :: "ctrl_frame \<Rightarrow> type_id vec" where
  "label_types frame = (if cf_type frame = bt_loop then start_types frame else end_types frame)"

definition unreachable :: "alloc \<Rightarrow> validator_context \<Rightarrow> validator_context res" where
  "unreachable am ctx =
     unwrap (vec_back (ctrl_stack ctx)) (\<lambda>frame.
     if vec_size (val_stack ctx) < cf_height frame then Inl E_invalid
     else unwrap (vec_resize (am T_type_id) 0 (val_stack ctx) (cf_height frame)) (\<lambda>v.
       unwrap (update_back (ctrl_stack ctx) (\<lambda>frame. frame\<lparr>cf_unreachable := True\<rparr>)) (\<lambda>cs.
       Inr (ctx\<lparr>val_stack := v, ctrl_stack := cs\<rparr>))))"

section \<open>Jump table\<close>

definition JUMP_TABLE_IDX_INVALID :: u16 where
  "JUMP_TABLE_IDX_INVALID = 0xffff"

definition jt_of :: "validator_context \<Rightarrow> jump_table vec" where
  "jt_of ctx = f_jt (vc_f ctx)"

definition set_jt :: "validator_context \<Rightarrow> jump_table vec \<Rightarrow> validator_context" where
  "set_jt ctx v = ctx\<lparr>vc_f := (vc_f ctx)\<lparr>f_jt := v\<rparr>\<rparr>"

text \<open>A new slot and the entry in the frame at index \<open>i\<close> that will resolve it.\<close>

definition push_slot ::
  "alloc \<Rightarrow> nat \<Rightarrow> u32 \<Rightarrow> u32 \<Rightarrow> u16 \<Rightarrow> validator_context \<Rightarrow> validator_context res" where
  "push_slot am i pc soff arity ctx =
     unwrap (vec_push (am T_jump_table) (jt_of ctx)
              \<lparr>jt_pc = pc, target_offset = 0, stack_offset = soff, jt_arity = arity,
               next_idx = JUMP_TABLE_IDX_INVALID\<rparr>) (\<lambda>jt.
     unwrap (vec_at (ctrl_stack ctx) i) (\<lambda>frame.
     unwrap (vec_push (am T_u32) (pending_jt_slots frame) (of_nat (vec_size jt - 1))) (\<lambda>slots.
     unwrap (vec_set (ctrl_stack ctx) i (frame\<lparr>pending_jt_slots := slots\<rparr>)) (\<lambda>cs.
     Inr ((set_jt ctx jt)\<lparr>ctrl_stack := cs\<rparr>)))))"

text \<open>\<open>record->target_offset = target - record->pc\<close> for the slot at \<open>slot_idx\<close>.\<close>

definition resolve_slot :: "u32 \<Rightarrow> u32 \<Rightarrow> jump_table vec \<Rightarrow> jump_table vec res" where
  "resolve_slot target slot_idx jt =
     update_at jt (unat slot_idx) (\<lambda>rec. rec\<lparr>target_offset := target - jt_pc rec\<rparr>)"

text \<open>\<open>(u32)(imm.p - imm.s.ptr)\<close>\<close>

definition imm_offset :: "stream \<Rightarrow> u32" where
  "imm_offset imm = of_nat (st_p imm)"

text \<open>\<open>vec_size_ctrl_frame(&ctx->ctrl_stack) - l - 1\<close> as an index; out of range it is \<open>Fault\<close>.\<close>

definition frame_index :: "validator_context \<Rightarrow> nat \<Rightarrow> nat res" where
  "frame_index ctx l =
     (if l < vec_size (ctrl_stack ctx) then Inr (vec_size (ctrl_stack ctx) - l - 1) else Inl Fault)"

section \<open>Callbacks\<close>

definition validator_on_decode_begin :: "alloc \<Rightarrow> validator_context \<Rightarrow> validator_context res" where
  "validator_on_decode_begin am ctx =
     (let f = vc_f ctx in
      unwrap (vec_reserve (am T_type_id) (locals ctx) (unat (local_count f))) (\<lambda>v.
      unwrap (parse_types am (param_count (fn_type f)) (params (fn_type f))) (\<lambda>func_params.
      unwrap (foreach_res (\<lambda>param v. vec_push (am T_type_id) v param) (vdata func_params) v) (\<lambda>v.
      unwrap (foreach_res (\<lambda>l v. vec_push (am T_type_id) v l) (vdata (local_types f)) v) (\<lambda>v.
      unwrap (push_ctrl am bt_func (fn_type f) (ctx\<lparr>locals := v\<rparr>)) (\<lambda>ctx.
      Inr (ctx\<lparr>val_stack := vec_clear (val_stack ctx)\<rparr>)))))))"

definition validator_on_block ::
  "alloc \<Rightarrow> u8 \<Rightarrow> stream \<Rightarrow> func_type \<Rightarrow> validator_context \<Rightarrow> validator_context res" where
  "validator_on_block am opcode imm type ctx =
     unwrap (if opcode = 0x04 then pop_expect TYPE_ID_i32 ctx else Inr ctx) (\<lambda>ctx.
     unwrap (parse_types am (param_count type) (params type)) (\<lambda>param_types.
     unwrap (pop_vals am param_types ctx) (\<lambda>ctx.
     let bt = (if opcode = 0x02 then bt_block else if opcode = 0x03 then bt_loop else bt_if) in
     unwrap (push_ctrl am bt type ctx) (\<lambda>ctx.
     let pc_offset = imm_offset imm in
     if opcode = 0x03 then
       unwrap (update_back (ctrl_stack ctx) (\<lambda>frame. frame\<lparr>cf_pc := pc_offset + 1\<rparr>)) (\<lambda>cs.
       Inr (ctx\<lparr>ctrl_stack := cs\<rparr>))
     else if opcode = 0x04 then push_slot am (vec_size (ctrl_stack ctx) - 1) pc_offset 0 0 ctx
     else Inr ctx))))"

definition else_slot_step ::
  "alloc \<Rightarrow> u32 \<Rightarrow> u32 vec \<Rightarrow> nat \<Rightarrow> validator_context \<Rightarrow> validator_context res" where
  "else_slot_step am pc_offset slots i ctx =
     unwrap (vec_at slots i) (\<lambda>slot_idx.
     if i = 0 then unwrap (resolve_slot pc_offset slot_idx (jt_of ctx)) (\<lambda>jt. Inr (set_jt ctx jt))
     else
       unwrap (vec_back (ctrl_stack ctx)) (\<lambda>else_frame.
       unwrap (vec_push (am T_u32) (pending_jt_slots else_frame) slot_idx) (\<lambda>v.
       unwrap (update_back (ctrl_stack ctx) (\<lambda>frame. frame\<lparr>pending_jt_slots := v\<rparr>)) (\<lambda>cs.
       Inr (ctx\<lparr>ctrl_stack := cs\<rparr>)))))"

definition validator_on_else :: "alloc \<Rightarrow> stream \<Rightarrow> validator_context \<Rightarrow> validator_context res" where
  "validator_on_else am imm ctx =
     unwrap (vec_back (ctrl_stack ctx)) (\<lambda>current_frame.
     if cf_type current_frame \<noteq> bt_if then Inl E_invalid
     else unwrap (pop_ctrl am ctx) (\<lambda>(cf, ctx).
       unwrap (push_ctrl am bt_else (cf_ftype cf) ctx) (\<lambda>ctx.
       let pc_offset = imm_offset imm in
       unwrap (for_res 0 (vec_size (pending_jt_slots cf)) (else_slot_step am pc_offset (pending_jt_slots cf)) ctx) (\<lambda>ctx.
       unwrap (vec_back (ctrl_stack ctx)) (\<lambda>else_frame.
       let arity = of_nat (vec_size (label_types else_frame)) :: u16 in
       push_slot am (vec_size (ctrl_stack ctx) - 1) pc_offset
         (of_nat (vec_size (val_stack ctx)) - ucast arity - of_nat (cf_height else_frame)) arity ctx)))))"

definition end_slot_step :: "ctrl_frame \<Rightarrow> stream \<Rightarrow> u32 \<Rightarrow> jump_table vec \<Rightarrow> jump_table vec res" where
  "end_slot_step cf imm slot_idx jt =
     (if cf_type cf = bt_loop then resolve_slot (cf_pc cf) slot_idx jt
      else unwrap (resolve_slot (imm_offset imm) slot_idx jt) (\<lambda>jt.
        if cf_type cf = bt_func
        then update_at jt (unat slot_idx) (\<lambda>rec. rec\<lparr>target_offset := target_offset rec - 1\<rparr>)
        else Inr jt))"

definition validator_on_end :: "alloc \<Rightarrow> stream \<Rightarrow> validator_context \<Rightarrow> validator_context res" where
  "validator_on_end am imm ctx =
     unwrap (pop_ctrl am ctx) (\<lambda>(cf, ctx).
     unwrap (foreach_res (end_slot_step cf imm) (vdata (pending_jt_slots cf)) (jt_of ctx)) (\<lambda>jt.
     push_vals am (end_types cf) (set_jt ctx jt)))"

definition validator_on_br_or_if ::
  "alloc \<Rightarrow> u8 \<Rightarrow> stream \<Rightarrow> u8 \<Rightarrow> validator_context \<Rightarrow> validator_context res" where
  "validator_on_br_or_if am opcode imm lth ctx =
     (if unat lth \<ge> vec_size (ctrl_stack ctx) then Inl E_invalid
      else unwrap (if opcode = 0x0d then pop_expect TYPE_ID_i32 ctx else Inr ctx) (\<lambda>ctx.
        unwrap (frame_index ctx (unat lth)) (\<lambda>idx.
        unwrap (vec_at (ctrl_stack ctx) idx) (\<lambda>target_frame.
        let arity = of_nat (vec_size (label_types target_frame)) :: u16 in
        unwrap (push_slot am idx (imm_offset imm)
                 (of_nat (vec_size (val_stack ctx)) - ucast arity - of_nat (cf_height target_frame)) arity ctx) (\<lambda>ctx.
        unwrap (pop_vals am (label_types target_frame) ctx) (\<lambda>ctx.
        if opcode = 0x0c then unreachable am ctx else push_vals am (label_types target_frame) ctx))))))"

text \<open>The two passes over the labels of a \<open>br_table\<close>; \<open>None\<close> is the null \<open>m_frame\<close>.\<close>

definition br_table_pass1 ::
  "u32 \<Rightarrow> validator_context \<Rightarrow> nat \<Rightarrow> stream \<times> nat option \<Rightarrow> (stream \<times> nat option) res" where
  "br_table_pass1 table_len ctx i s =
     (case s of (pc_copy, m_frame) \<Rightarrow>
        unwrap (stream_read_vu32 pc_copy) (\<lambda>(l, pc_copy).
        if unat l \<ge> vec_size (ctrl_stack ctx) then Inl E_invalid
        else if i = unat table_len
        then unwrap (frame_index ctx (unat l)) (\<lambda>idx. Inr (pc_copy, Some idx))
        else Inr (pc_copy, m_frame)))"

definition br_table_pass2 ::
  "alloc \<Rightarrow> nat \<Rightarrow> stream \<Rightarrow> nat \<Rightarrow> stream \<times> validator_context \<Rightarrow> (stream \<times> validator_context) res" where
  "br_table_pass2 am arity pc_copy j s =
     (case s of (imm, ctx) \<Rightarrow>
        unwrap (stream_read_vu32 imm) (\<lambda>(l, imm).
        unwrap (frame_index ctx (unat l)) (\<lambda>idx.
        unwrap (vec_at (ctrl_stack ctx) idx) (\<lambda>target_frame.
        if arity \<noteq> vec_size (label_types target_frame) then Inl E_invalid
        else unwrap (push_slot am idx (imm_offset pc_copy)
                (of_nat (vec_size (val_stack ctx)) - of_nat arity - of_nat (cf_height target_frame)) (of_nat arity) ctx) (\<lambda>ctx.
          unwrap (pop_vals_to_vec am (label_types target_frame) ctx) (\<lambda>(popped, ctx).
          unwrap (push_vals am (VEC_REVERSE popped) ctx) (\<lambda>ctx. Inr (imm, ctx))))))))"

definition validator_on_br_table :: "alloc \<Rightarrow> stream \<Rightarrow> validator_context \<Rightarrow> validator_context res" where
  "validator_on_br_table am imm ctx =
     unwrap (pop_expect TYPE_ID_i32 ctx) (\<lambda>ctx.
     unwrap (stream_read_vu32 imm) (\<lambda>(table_len, imm).
     unwrap (for_res 0 (unat (table_len + 1)) (br_table_pass1 table_len ctx) (imm, None)) (\<lambda>(pc_copy, m_frame).
     case m_frame of
       None \<Rightarrow> Inl Fault
     | Some m_idx \<Rightarrow>
         unwrap (vec_at (ctrl_stack ctx) m_idx) (\<lambda>m_frame.
         let arity = vec_size (label_types m_frame) in
         unwrap (for_res 0 (unat (table_len + 1)) (br_table_pass2 am arity pc_copy) (imm, ctx)) (\<lambda>(_, ctx).
         unwrap (vec_at (ctrl_stack ctx) m_idx) (\<lambda>m_frame.
         unwrap (pop_vals am (label_types m_frame) ctx) (\<lambda>ctx.
         unreachable am ctx)))))))"

definition validator_on_return :: "alloc \<Rightarrow> validator_context \<Rightarrow> validator_context res" where
  "validator_on_return am ctx =
     unwrap (vec_at (ctrl_stack ctx) 0) (\<lambda>target_frame.
     unwrap (pop_vals am (label_types target_frame) ctx) (\<lambda>ctx.
     unreachable am ctx))"

definition validator_on_call :: "alloc \<Rightarrow> u32 \<Rightarrow> validator_context \<Rightarrow> validator_context res" where
  "validator_on_call am func_idx ctx =
     (if unat func_idx \<ge> vec_size (funcs (vc_mod ctx)) then Inl E_invalid
      else unwrap (vec_at (funcs (vc_mod ctx)) (unat func_idx)) (\<lambda>fn.
        unwrap (parse_types am (param_count (fn_type fn)) (params (fn_type fn))) (\<lambda>param_types.
        unwrap (pop_vals am param_types ctx) (\<lambda>ctx.
        let required_size = of_nat (vec_size (val_stack ctx)) + local_count fn;
            ctx = (if required_size > stack_size_max ctx then ctx\<lparr>stack_size_max := required_size\<rparr> else ctx) in
        unwrap (parse_types am (result_count (fn_type fn)) (results (fn_type fn))) (\<lambda>result_types.
        push_vals am result_types ctx)))))"

definition validator_on_call_indirect :: "alloc \<Rightarrow> u32 \<Rightarrow> u32 \<Rightarrow> validator_context \<Rightarrow> validator_context res" where
  "validator_on_call_indirect am type_idx table_idx ctx =
     unwrap (pop_expect TYPE_ID_i32 ctx) (\<lambda>ctx.
     if unat table_idx \<ge> vec_size (tables (vc_mod ctx)) then Inl E_invalid
     else if unat type_idx \<ge> vec_size (func_types (vc_mod ctx)) then Inl E_invalid
     else unwrap (vec_at (func_types (vc_mod ctx)) (unat type_idx)) (\<lambda>ft.
       unwrap (parse_types am (param_count ft) (params ft)) (\<lambda>param_types.
       unwrap (pop_vals am param_types ctx) (\<lambda>ctx.
       unwrap (parse_types am (result_count ft) (results ft)) (\<lambda>result_types.
       push_vals am result_types ctx)))))"

definition validator_on_drop :: "validator_context \<Rightarrow> validator_context res" where
  "validator_on_drop ctx = unwrap (pop_val ctx) (\<lambda>(_, ctx). Inr ctx)"

definition validator_on_select :: "alloc \<Rightarrow> validator_context \<Rightarrow> validator_context res" where
  "validator_on_select am ctx =
     unwrap (pop_expect TYPE_ID_i32 ctx) (\<lambda>ctx.
     unwrap (pop_val ctx) (\<lambda>(t1, ctx).
     unwrap (pop_val ctx) (\<lambda>(t2, ctx).
     if \<not> (is_num t1 \<and> is_num t2 \<or> is_vec t1 \<and> is_vec t2) then Inl E_invalid
     else if t1 \<noteq> t2 \<and> t1 \<noteq> TYPE_ID_unknown \<and> t2 \<noteq> TYPE_ID_unknown then Inl E_invalid
     else push_val am (if t1 = TYPE_ID_unknown then t2 else t1) ctx)))"

definition validator_on_select_t :: "alloc \<Rightarrow> type_id \<Rightarrow> validator_context \<Rightarrow> validator_context res" where
  "validator_on_select_t am type ctx =
     unwrap (pop_expect TYPE_ID_i32 ctx) (\<lambda>ctx.
     unwrap (pop_expect type ctx) (\<lambda>ctx.
     unwrap (pop_expect type ctx) (\<lambda>ctx.
     push_val am type ctx)))"

definition validator_on_local_get :: "alloc \<Rightarrow> u32 \<Rightarrow> validator_context \<Rightarrow> validator_context res" where
  "validator_on_local_get am local_idx ctx =
     (if unat local_idx \<ge> vec_size (locals ctx) then Inl E_invalid
      else unwrap (vec_at (locals ctx) (unat local_idx)) (\<lambda>local_type. push_val am local_type ctx))"

definition validator_on_local_set :: "u32 \<Rightarrow> validator_context \<Rightarrow> validator_context res" where
  "validator_on_local_set local_idx ctx =
     (if unat local_idx \<ge> vec_size (locals ctx) then Inl E_invalid
      else unwrap (vec_at (locals ctx) (unat local_idx)) (\<lambda>local_type. pop_expect local_type ctx))"

definition validator_on_local_tee :: "alloc \<Rightarrow> u32 \<Rightarrow> validator_context \<Rightarrow> validator_context res" where
  "validator_on_local_tee am local_idx ctx =
     (if unat local_idx \<ge> vec_size (locals ctx) then Inl E_invalid
      else unwrap (vec_at (locals ctx) (unat local_idx)) (\<lambda>local_type.
        unwrap (pop_expect local_type ctx) (\<lambda>ctx. push_val am local_type ctx)))"

definition validator_on_global_get :: "alloc \<Rightarrow> u32 \<Rightarrow> validator_context \<Rightarrow> validator_context res" where
  "validator_on_global_get am global_idx ctx =
     (if unat global_idx \<ge> vec_size (globals (vc_mod ctx)) then Inl E_invalid
      else unwrap (vec_at (globals (vc_mod ctx)) (unat global_idx)) (\<lambda>g. push_val am (g_valtype g) ctx))"

definition validator_on_global_set :: "u32 \<Rightarrow> validator_context \<Rightarrow> validator_context res" where
  "validator_on_global_set global_idx ctx =
     (if unat global_idx \<ge> vec_size (globals (vc_mod ctx)) then Inl E_invalid
      else unwrap (vec_at (globals (vc_mod ctx)) (unat global_idx)) (\<lambda>g. pop_expect (g_valtype g) ctx))"

definition validator_on_table_get :: "alloc \<Rightarrow> u32 \<Rightarrow> validator_context \<Rightarrow> validator_context res" where
  "validator_on_table_get am table_idx ctx =
     (if unat table_idx \<ge> vec_size (tables (vc_mod ctx)) then Inl E_invalid
      else unwrap (vec_at (tables (vc_mod ctx)) (unat table_idx)) (\<lambda>tab.
        unwrap (pop_expect TYPE_ID_i32 ctx) (\<lambda>ctx. push_val am (tab_valtype tab) ctx)))"

definition validator_on_table_set :: "u32 \<Rightarrow> validator_context \<Rightarrow> validator_context res" where
  "validator_on_table_set table_idx ctx =
     (if unat table_idx \<ge> vec_size (tables (vc_mod ctx)) then Inl E_invalid
      else unwrap (vec_at (tables (vc_mod ctx)) (unat table_idx)) (\<lambda>tab.
        unwrap (pop_expect (tab_valtype tab) ctx) (\<lambda>ctx. pop_expect TYPE_ID_i32 ctx)))"

text \<open>\<open>sizeof\<close> of the four number types.\<close>

definition sizeof_type :: "type_id \<Rightarrow> nat" where
  "sizeof_type t = (if t = TYPE_ID_i32 \<or> t = TYPE_ID_f32 then 4 else 8)"

definition MEM_LOAD :: "alloc \<Rightarrow> type_id \<Rightarrow> u8 \<Rightarrow> validator_context \<Rightarrow> validator_context res" where
  "MEM_LOAD am dst_type align ctx =
     (if unat align > sizeof_type dst_type then Inl E_invalid
      else unwrap (pop_expect TYPE_ID_i32 ctx) (\<lambda>ctx. push_val am dst_type ctx))"

definition MEM_STORE :: "type_id \<Rightarrow> u8 \<Rightarrow> validator_context \<Rightarrow> validator_context res" where
  "MEM_STORE src_type align ctx =
     (if unat align > sizeof_type src_type then Inl E_invalid
      else unwrap (pop_expect src_type ctx) (\<lambda>ctx. pop_expect TYPE_ID_i32 ctx))"

definition validator_on_memory_load_store ::
  "alloc \<Rightarrow> u8 \<Rightarrow> u8 \<Rightarrow> u32 \<Rightarrow> validator_context \<Rightarrow> validator_context res" where
  "validator_on_memory_load_store am opcode align offset ctx =
     (if vec_size (memories (vc_mod ctx)) = 0 then Inl E_invalid
      else if opcode = 0x28 \<or> 0x2c \<le> opcode \<and> opcode \<le> 0x2f then MEM_LOAD am TYPE_ID_i32 align ctx
      else if opcode = 0x29 \<or> 0x30 \<le> opcode \<and> opcode \<le> 0x35 then MEM_LOAD am TYPE_ID_i64 align ctx
      else if opcode = 0x2a then MEM_LOAD am TYPE_ID_f32 align ctx
      else if opcode = 0x2b then MEM_LOAD am TYPE_ID_f64 align ctx
      else if opcode = 0x36 \<or> opcode = 0x3a \<or> opcode = 0x3b then MEM_STORE TYPE_ID_i32 align ctx
      else if opcode = 0x37 \<or> 0x3c \<le> opcode \<and> opcode \<le> 0x3e then MEM_STORE TYPE_ID_i64 align ctx
      else if opcode = 0x38 then MEM_STORE TYPE_ID_f32 align ctx
      else if opcode = 0x39 then MEM_STORE TYPE_ID_f64 align ctx
      else Inr ctx)"

definition POP1_PUSH :: "alloc \<Rightarrow> type_id \<Rightarrow> type_id \<Rightarrow> validator_context \<Rightarrow> validator_context res" where
  "POP1_PUSH am pop_type push_type ctx =
     unwrap (pop_expect pop_type ctx) (\<lambda>ctx. push_val am push_type ctx)"

definition POP2_PUSH :: "alloc \<Rightarrow> type_id \<Rightarrow> type_id \<Rightarrow> validator_context \<Rightarrow> validator_context res" where
  "POP2_PUSH am pop_type push_type ctx =
     unwrap (pop_expect pop_type ctx) (\<lambda>ctx.
     unwrap (pop_expect pop_type ctx) (\<lambda>ctx. push_val am push_type ctx))"

definition validator_on_memory_size :: "alloc \<Rightarrow> validator_context \<Rightarrow> validator_context res" where
  "validator_on_memory_size am ctx = push_val am TYPE_ID_i32 ctx"

definition validator_on_memory_grow :: "alloc \<Rightarrow> validator_context \<Rightarrow> validator_context res" where
  "validator_on_memory_grow am ctx = unwrap (pop_expect TYPE_ID_i32 ctx) (\<lambda>ctx. push_val am TYPE_ID_i32 ctx)"

text \<open>The comparisons and arithmetic of the two integer and the two float types.\<close>

definition validator_on_itestop :: "alloc \<Rightarrow> u8 \<Rightarrow> validator_context \<Rightarrow> validator_context res" where
  "validator_on_itestop am opcode =
     (if opcode = 0x45 then POP1_PUSH am TYPE_ID_i32 TYPE_ID_i32 else POP1_PUSH am TYPE_ID_i64 TYPE_ID_i32)"

definition validator_on_iunop :: "alloc \<Rightarrow> u8 \<Rightarrow> validator_context \<Rightarrow> validator_context res" where
  "validator_on_iunop am opcode =
     (if 0x67 \<le> opcode \<and> opcode \<le> 0x69 then POP1_PUSH am TYPE_ID_i32 TYPE_ID_i32
      else if 0x79 \<le> opcode \<and> opcode \<le> 0x7b then POP1_PUSH am TYPE_ID_i64 TYPE_ID_i64
      else (\<lambda>_. Inl E_general))"

definition validator_on_irelop :: "alloc \<Rightarrow> u8 \<Rightarrow> validator_context \<Rightarrow> validator_context res" where
  "validator_on_irelop am opcode =
     (if 0x46 \<le> opcode \<and> opcode \<le> 0x4f then POP2_PUSH am TYPE_ID_i32 TYPE_ID_i32
      else if 0x51 \<le> opcode \<and> opcode \<le> 0x5a then POP2_PUSH am TYPE_ID_i64 TYPE_ID_i32
      else (\<lambda>_. Inl E_general))"

definition validator_on_ibinop :: "alloc \<Rightarrow> u8 \<Rightarrow> validator_context \<Rightarrow> validator_context res" where
  "validator_on_ibinop am opcode =
     (if 0x6a \<le> opcode \<and> opcode \<le> 0x78 then POP2_PUSH am TYPE_ID_i32 TYPE_ID_i32
      else if 0x7c \<le> opcode \<and> opcode \<le> 0x8a then POP2_PUSH am TYPE_ID_i64 TYPE_ID_i64
      else (\<lambda>_. Inl E_general))"

definition validator_on_funop :: "alloc \<Rightarrow> u8 \<Rightarrow> validator_context \<Rightarrow> validator_context res" where
  "validator_on_funop am opcode =
     (if 0x8b \<le> opcode \<and> opcode \<le> 0x91 then POP1_PUSH am TYPE_ID_f32 TYPE_ID_f32
      else if 0x99 \<le> opcode \<and> opcode \<le> 0x9f then POP1_PUSH am TYPE_ID_f64 TYPE_ID_f64
      else (\<lambda>_. Inl E_general))"

definition validator_on_frelop :: "alloc \<Rightarrow> u8 \<Rightarrow> validator_context \<Rightarrow> validator_context res" where
  "validator_on_frelop am opcode =
     (if 0x5b \<le> opcode \<and> opcode \<le> 0x60 then POP2_PUSH am TYPE_ID_f32 TYPE_ID_i32
      else if 0x61 \<le> opcode \<and> opcode \<le> 0x66 then POP2_PUSH am TYPE_ID_f64 TYPE_ID_i32
      else (\<lambda>_. Inl E_general))"

definition validator_on_fbinop :: "alloc \<Rightarrow> u8 \<Rightarrow> validator_context \<Rightarrow> validator_context res" where
  "validator_on_fbinop am opcode =
     (if 0x92 \<le> opcode \<and> opcode \<le> 0x98 then POP2_PUSH am TYPE_ID_f32 TYPE_ID_f32
      else if 0xa0 \<le> opcode \<and> opcode \<le> 0xa6 then POP2_PUSH am TYPE_ID_f64 TYPE_ID_f64
      else (\<lambda>_. Inl E_general))"

text \<open>The conversions.\<close>

definition validator_on_wrapop :: "alloc \<Rightarrow> validator_context \<Rightarrow> validator_context res" where
  "validator_on_wrapop am = POP1_PUSH am TYPE_ID_i64 TYPE_ID_i32"

definition validator_on_truncop :: "alloc \<Rightarrow> u8 \<Rightarrow> validator_context \<Rightarrow> validator_context res" where
  "validator_on_truncop am opcode =
     (if opcode = 0xa8 \<or> opcode = 0xa9 then POP1_PUSH am TYPE_ID_f32 TYPE_ID_i32
      else if opcode = 0xaa \<or> opcode = 0xab then POP1_PUSH am TYPE_ID_f64 TYPE_ID_i32
      else if opcode = 0xae \<or> opcode = 0xaf then POP1_PUSH am TYPE_ID_f32 TYPE_ID_i64
      else if opcode = 0xb0 \<or> opcode = 0xb1 then POP1_PUSH am TYPE_ID_f64 TYPE_ID_i64
      else (\<lambda>_. Inl E_general))"

definition validator_on_convertop :: "alloc \<Rightarrow> u8 \<Rightarrow> validator_context \<Rightarrow> validator_context res" where
  "validator_on_convertop am opcode =
     (if opcode = 0xb2 \<or> opcode = 0xb3 then POP1_PUSH am TYPE_ID_i32 TYPE_ID_f32
      else if opcode = 0xb4 \<or> opcode = 0xb5 then POP1_PUSH am TYPE_ID_i64 TYPE_ID_f32
      else if opcode = 0xb7 \<or> opcode = 0xb8 then POP1_PUSH am TYPE_ID_i32 TYPE_ID_f64
      else if opcode = 0xb9 \<or> opcode = 0xba then POP1_PUSH am TYPE_ID_i64 TYPE_ID_f64
      else (\<lambda>_. Inl E_general))"

definition validator_on_rankop :: "alloc \<Rightarrow> u8 \<Rightarrow> validator_context \<Rightarrow> validator_context res" where
  "validator_on_rankop am opcode =
     (if opcode = 0xb6 then POP1_PUSH am TYPE_ID_f64 TYPE_ID_f32
      else if opcode = 0xbb then POP1_PUSH am TYPE_ID_f32 TYPE_ID_f64
      else (\<lambda>_. Inl E_general))"

definition validator_on_reinterpretop :: "alloc \<Rightarrow> u8 \<Rightarrow> validator_context \<Rightarrow> validator_context res" where
  "validator_on_reinterpretop am opcode =
     (if opcode = 0xbc then POP1_PUSH am TYPE_ID_f32 TYPE_ID_i32
      else if opcode = 0xbd then POP1_PUSH am TYPE_ID_f64 TYPE_ID_i64
      else if opcode = 0xbe then POP1_PUSH am TYPE_ID_i32 TYPE_ID_f32
      else if opcode = 0xbf then POP1_PUSH am TYPE_ID_i64 TYPE_ID_f64
      else (\<lambda>_. Inl E_general))"

definition validator_on_extendop :: "alloc \<Rightarrow> u8 \<Rightarrow> validator_context \<Rightarrow> validator_context res" where
  "validator_on_extendop am opcode =
     (if opcode = 0xac \<or> opcode = 0xad then POP1_PUSH am TYPE_ID_i32 TYPE_ID_i64
      else if opcode = 0xc0 \<or> opcode = 0xc1 then POP1_PUSH am TYPE_ID_i32 TYPE_ID_i32
      else if 0xc2 \<le> opcode \<and> opcode \<le> 0xc4 then POP1_PUSH am TYPE_ID_i64 TYPE_ID_i64
      else (\<lambda>_. Inl E_general))"

definition validator_on_trunc_sat :: "alloc \<Rightarrow> u32 \<Rightarrow> validator_context \<Rightarrow> validator_context res" where
  "validator_on_trunc_sat am opcode =
     (if opcode = 0x00 \<or> opcode = 0x01 then POP1_PUSH am TYPE_ID_f32 TYPE_ID_i32
      else if opcode = 0x02 \<or> opcode = 0x03 then POP1_PUSH am TYPE_ID_f64 TYPE_ID_i32
      else if opcode = 0x04 \<or> opcode = 0x05 then POP1_PUSH am TYPE_ID_f32 TYPE_ID_i64
      else if opcode = 0x06 \<or> opcode = 0x07 then POP1_PUSH am TYPE_ID_f64 TYPE_ID_i64
      else (\<lambda>_. Inl E_general))"

definition validator_on_ref_null :: "alloc \<Rightarrow> type_id \<Rightarrow> validator_context \<Rightarrow> validator_context res" where
  "validator_on_ref_null am type ctx = push_val am type ctx"

definition validator_on_ref_is_null :: "alloc \<Rightarrow> validator_context \<Rightarrow> validator_context res" where
  "validator_on_ref_is_null am = POP1_PUSH am TYPE_ID_ref TYPE_ID_i32"

definition validator_on_ref_func :: "alloc \<Rightarrow> u32 \<Rightarrow> validator_context \<Rightarrow> validator_context res" where
  "validator_on_ref_func am fref ctx =
     (if unat fref \<ge> vec_size (funcs (vc_mod ctx)) then Inl E_invalid else push_val am TYPE_ID_funcref ctx)"

text \<open>Bulk memory and tables.\<close>

definition pop_three_i32 :: "validator_context \<Rightarrow> validator_context res" where
  "pop_three_i32 ctx =
     unwrap (pop_expect TYPE_ID_i32 ctx) (\<lambda>ctx.
     unwrap (pop_expect TYPE_ID_i32 ctx) (\<lambda>ctx. pop_expect TYPE_ID_i32 ctx))"

definition validator_on_memory_init :: "u32 \<Rightarrow> validator_context \<Rightarrow> validator_context res" where
  "validator_on_memory_init data_idx ctx =
     (if unat data_idx \<ge> vec_size (m_data (vc_mod ctx)) then Inl E_invalid
      else if vec_size (memories (vc_mod ctx)) = 0 then Inl E_invalid
      else pop_three_i32 ctx)"

definition validator_on_memory_copy :: "validator_context \<Rightarrow> validator_context res" where
  "validator_on_memory_copy ctx =
     (if vec_size (memories (vc_mod ctx)) = 0 then Inl E_invalid else pop_three_i32 ctx)"

definition validator_on_data_drop :: "u32 \<Rightarrow> validator_context \<Rightarrow> validator_context res" where
  "validator_on_data_drop data_idx ctx =
     (if unat data_idx \<ge> vec_size (m_data (vc_mod ctx)) then Inl E_invalid else Inr ctx)"

definition validator_on_table_init :: "u32 \<Rightarrow> u32 \<Rightarrow> validator_context \<Rightarrow> validator_context res" where
  "validator_on_table_init elem_idx table_idx ctx =
     (if unat table_idx \<ge> vec_size (tables (vc_mod ctx)) then Inl E_invalid
      else unwrap (vec_at (tables (vc_mod ctx)) (unat table_idx)) (\<lambda>tab.
        if unat elem_idx \<ge> vec_size (elements (vc_mod ctx)) then Inl E_invalid
        else unwrap (vec_at (elements (vc_mod ctx)) (unat elem_idx)) (\<lambda>elem.
          if tab_valtype tab \<noteq> el_valtype elem then Inl E_invalid
          else pop_three_i32 ctx)))"

definition validator_on_elem_drop :: "u32 \<Rightarrow> validator_context \<Rightarrow> validator_context res" where
  "validator_on_elem_drop elem_idx ctx =
     (if unat elem_idx \<ge> vec_size (elements (vc_mod ctx)) then Inl E_invalid else Inr ctx)"

definition validator_on_table_copy :: "u32 \<Rightarrow> u32 \<Rightarrow> validator_context \<Rightarrow> validator_context res" where
  "validator_on_table_copy table_idx_dst table_idx_src ctx =
     (if unat table_idx_src \<ge> vec_size (tables (vc_mod ctx)) then Inl E_invalid
      else unwrap (vec_at (tables (vc_mod ctx)) (unat table_idx_src)) (\<lambda>tab_x.
        if unat table_idx_dst \<ge> vec_size (tables (vc_mod ctx)) then Inl E_invalid
        else unwrap (vec_at (tables (vc_mod ctx)) (unat table_idx_dst)) (\<lambda>tab_y.
          if tab_valtype tab_x \<noteq> tab_valtype tab_y then Inl E_invalid
          else pop_three_i32 ctx)))"

definition validator_on_table_grow :: "alloc \<Rightarrow> u32 \<Rightarrow> validator_context \<Rightarrow> validator_context res" where
  "validator_on_table_grow am table_idx ctx =
     (if unat table_idx \<ge> vec_size (tables (vc_mod ctx)) then Inl E_invalid
      else unwrap (pop_expect TYPE_ID_i32 ctx) (\<lambda>ctx.
        unwrap (pop_expect TYPE_ID_ref ctx) (\<lambda>ctx. push_val am TYPE_ID_i32 ctx)))"

definition validator_on_table_size :: "alloc \<Rightarrow> u32 \<Rightarrow> validator_context \<Rightarrow> validator_context res" where
  "validator_on_table_size am table_idx ctx =
     (if unat table_idx \<ge> vec_size (tables (vc_mod ctx)) then Inl E_invalid else push_val am TYPE_ID_i32 ctx)"

definition validator_on_table_fill :: "u32 \<Rightarrow> validator_context \<Rightarrow> validator_context res" where
  "validator_on_table_fill table_idx ctx =
     (if unat table_idx \<ge> vec_size (tables (vc_mod ctx)) then Inl E_invalid
      else unwrap (pop_expect TYPE_ID_i32 ctx) (\<lambda>ctx.
        unwrap (pop_expect TYPE_ID_ref ctx) (\<lambda>ctx. pop_expect TYPE_ID_i32 ctx)))"

section \<open>Linking\<close>

text \<open>
  The two inner loops of \<open>validator_on_decode_end\<close>: from \<open>j\<close> upwards for the first slot whose
  pc lies behind the target, and from \<open>j\<close> downwards over all slots whose pc does.  \<open>idx\<close> is
  \<open>slot->next_idx\<close>.
\<close>

definition slot_target :: "jump_table \<Rightarrow> u32" where
  "slot_target slot = jt_pc slot + target_offset slot"

function link_forward :: "jump_table list \<Rightarrow> u32 \<Rightarrow> u16 \<Rightarrow> nat \<Rightarrow> u16" where
  "link_forward jt target idx j =
     (if j < length jt then
        if jt_pc (jt ! j) > target then of_nat j else link_forward jt target idx (Suc j)
      else idx)"
  by pat_completeness auto
termination
  by (relation "measure (\<lambda>(jt, target, idx, j). length jt - j)") auto

declare link_forward.simps [simp del]

fun link_backward :: "jump_table list \<Rightarrow> u32 \<Rightarrow> u16 \<Rightarrow> nat \<Rightarrow> u16" where
  "link_backward jt target idx j =
     (if jt_pc (jt ! j) > target
      then case j of 0 \<Rightarrow> of_nat j | Suc j' \<Rightarrow> link_backward jt target (of_nat j) j'
      else idx)"

declare link_backward.simps [simp del]

text \<open>
  The comparison \<open>target_offset > 0\<close> is signed.  The loop downwards counts with an \<open>i32\<close>, which
  is negative at once for an index from \<open>2\<^sup>3\<^sup>1\<close> on.
\<close>

definition link_slot :: "nat \<Rightarrow> jump_table vec \<Rightarrow> jump_table vec res" where
  "link_slot i jt =
     unwrap (vec_at jt i) (\<lambda>slot.
     let idx = (if sint (target_offset slot) > 0
                then link_forward (vdata jt) (slot_target slot) (next_idx slot) (i + 1)
                else if i < 2 ^ 31 then link_backward (vdata jt) (slot_target slot) (next_idx slot) i
                else next_idx slot)
     in vec_set jt i (slot\<lparr>next_idx := idx\<rparr>))"

definition validator_on_decode_end :: "alloc \<Rightarrow> validator_context \<Rightarrow> validator_context res" where
  "validator_on_decode_end am ctx =
     unwrap (vec_shrink_to_fit (am T_jump_table) (jt_of ctx)) (\<lambda>jt.
     unwrap (for_res 0 (vec_size jt) link_slot jt) (\<lambda>jt.
     let ctx = set_jt ctx jt in
     Inr (ctx\<lparr>vc_f := (vc_f ctx)\<lparr>f_stack_size_max := stack_size_max ctx\<rparr>\<rparr>)))"

section \<open>The table of callbacks\<close>

fun validator_cb_none :: "alloc \<Rightarrow> cb_none \<Rightarrow> u8 \<Rightarrow> stream \<Rightarrow> validator_context \<Rightarrow> validator_context res" where
  "validator_cb_none am on_opcode op imm = Inr"
| "validator_cb_none am on_unreachable op imm = unreachable am"
| "validator_cb_none am on_nop op imm = Inr"
| "validator_cb_none am on_else op imm = validator_on_else am imm"
| "validator_cb_none am on_end op imm = validator_on_end am imm"
| "validator_cb_none am on_br_table op imm = validator_on_br_table am imm"
| "validator_cb_none am on_return op imm = validator_on_return am"
| "validator_cb_none am on_drop op imm = validator_on_drop"
| "validator_cb_none am on_select op imm = validator_on_select am"
| "validator_cb_none am on_memory_size op imm = validator_on_memory_size am"
| "validator_cb_none am on_memory_grow op imm = validator_on_memory_grow am"
| "validator_cb_none am on_iunop op imm = validator_on_iunop am op"
| "validator_cb_none am on_funop op imm = validator_on_funop am op"
| "validator_cb_none am on_ibinop op imm = validator_on_ibinop am op"
| "validator_cb_none am on_fbinop op imm = validator_on_fbinop am op"
| "validator_cb_none am on_itestop op imm = validator_on_itestop am op"
| "validator_cb_none am on_irelop op imm = validator_on_irelop am op"
| "validator_cb_none am on_frelop op imm = validator_on_frelop am op"
| "validator_cb_none am on_wrapop op imm = validator_on_wrapop am"
| "validator_cb_none am on_truncop op imm = validator_on_truncop am op"
| "validator_cb_none am on_convertop op imm = validator_on_convertop am op"
| "validator_cb_none am on_rankop op imm = validator_on_rankop am op"
| "validator_cb_none am on_reinterpretop op imm = validator_on_reinterpretop am op"
| "validator_cb_none am on_extendop op imm = validator_on_extendop am op"
| "validator_cb_none am on_ref_is_null op imm = validator_on_ref_is_null am"

fun validator_cb_u32 :: "alloc \<Rightarrow> cb_u32 \<Rightarrow> u32 \<Rightarrow> validator_context \<Rightarrow> validator_context res" where
  "validator_cb_u32 am on_call x = validator_on_call am x"
| "validator_cb_u32 am on_local_get x = validator_on_local_get am x"
| "validator_cb_u32 am on_local_set x = validator_on_local_set x"
| "validator_cb_u32 am on_local_tee x = validator_on_local_tee am x"
| "validator_cb_u32 am on_global_get x = validator_on_global_get am x"
| "validator_cb_u32 am on_global_set x = validator_on_global_set x"
| "validator_cb_u32 am on_table_get x = validator_on_table_get am x"
| "validator_cb_u32 am on_table_set x = validator_on_table_set x"
| "validator_cb_u32 am on_ref_func x = validator_on_ref_func am x"
| "validator_cb_u32 am on_memory_init x = validator_on_memory_init x"
| "validator_cb_u32 am on_data_drop x = validator_on_data_drop x"
| "validator_cb_u32 am on_elem_drop x = validator_on_elem_drop x"
| "validator_cb_u32 am on_table_grow x = validator_on_table_grow am x"
| "validator_cb_u32 am on_table_size x = validator_on_table_size am x"
| "validator_cb_u32 am on_table_fill x = validator_on_table_fill x"

fun validator_callbacks :: "alloc \<Rightarrow> validator_context callbacks" where
  "validator_callbacks am On_decode_begin = validator_on_decode_begin am"
| "validator_callbacks am (On_none k op imm) = validator_cb_none am k op imm"
| "validator_callbacks am (On_block op imm ft) = validator_on_block am op imm ft"
| "validator_callbacks am (On_br_or_if op imm lth) = validator_on_br_or_if am op imm lth"
| "validator_callbacks am (On_u32 k imm x) = validator_cb_u32 am k x"
| "validator_callbacks am (On_u32_u32 k imm x y) =
     (case k of on_call_indirect \<Rightarrow> validator_on_call_indirect am x y
      | on_table_init \<Rightarrow> validator_on_table_init x y
      | on_table_copy \<Rightarrow> validator_on_table_copy x y)"
| "validator_callbacks am (On_typeid k op imm t) =
     (case k of on_select_t \<Rightarrow> validator_on_select_t am t | on_ref_null \<Rightarrow> validator_on_ref_null am t)"
| "validator_callbacks am (On_memory_load_store op imm align offset) =
     validator_on_memory_load_store am op align offset"
| "validator_callbacks am (On_i32_const imm x) = push_val am TYPE_ID_i32"
| "validator_callbacks am (On_i64_const imm y) = push_val am TYPE_ID_i64"
| "validator_callbacks am (On_f32_const imm x) = push_val am TYPE_ID_f32"
| "validator_callbacks am (On_f64_const imm y) = push_val am TYPE_ID_f64"
| "validator_callbacks am (On_fc_none k op imm) =
     (case k of on_opcode_fc \<Rightarrow> Inr
      | on_trunc_sat \<Rightarrow> validator_on_trunc_sat am op
      | on_memory_copy \<Rightarrow> validator_on_memory_copy
      | on_memory_fill \<Rightarrow> validator_on_memory_copy)"
| "validator_callbacks am (On_opcode_fd op imm) = (\<lambda>_. Inl E_invalid)"
| "validator_callbacks am On_decode_end = validator_on_decode_end am"

definition validator_context_zero :: "module \<Rightarrow> func \<Rightarrow> validator_context" where
  "validator_context_zero m f = \<lparr>locals = vec_empty, val_stack = vec_empty, ctrl_stack = vec_empty,
     stack_size_max = 0, vc_mod = m, vc_f = f\<rparr>"

text \<open>The result is the function with its jump table and stack bound, which the caller stores.\<close>

definition validate_func :: "alloc \<Rightarrow> module \<Rightarrow> func \<Rightarrow> func res" where
  "validate_func am m f =
     unwrap (decode_function (validator_callbacks am) m f (validator_context_zero m f)) (\<lambda>ctx. Inr (vc_f ctx))"

end
