(* ===== verification/Validator_Correct.thy ===== *)
theory Validator_Correct
  imports Validator
begin

text \<open>
  Correctness of the validator: the invariant of its context, which faults it can run
  into, the bound it computes for the operand stack, the targets in the jump table.

  \<open>vinv am code\<close> is the invariant.  Most handlers are sequences of pushes and pops on the
  same control frames; \<open>safe\<close> is their specification and composes.
\<close>

section \<open>The invariant\<close>

definition slot_ok :: "str \<Rightarrow> jump_table \<Rightarrow> bool" where
  "slot_ok code s \<longleftrightarrow> unat (jt_pc s) \<le> length code \<and> unat (slot_target s) \<le> length code \<and>
     next_idx s = JUMP_TABLE_IDX_INVALID"

definition frame_ok :: "str \<Rightarrow> nat \<Rightarrow> ctrl_frame \<Rightarrow> bool" where
  "frame_ok code n fr \<longleftrightarrow> vec_is_valid (pending_jt_slots fr) \<and>
     (\<forall>s \<in> set (vdata (pending_jt_slots fr)). unat s < n) \<and> unat (cf_pc fr) \<le> length code \<and> wf_func_type (cf_ftype fr)"

definition frames_ok :: "str \<Rightarrow> nat \<Rightarrow> ctrl_frame list \<Rightarrow> nat \<Rightarrow> bool" where
  "frames_ok code n frs nv \<longleftrightarrow> list_all (frame_ok code n) frs \<and> sorted (map cf_height frs) \<and>
     (frs \<noteq> [] \<longrightarrow> cf_height (last frs) \<le> nv)"

text \<open>The function types that the handlers look up.\<close>

definition sigs_ok :: "module \<Rightarrow> bool" where
  "sigs_ok m \<longleftrightarrow> wf_types (func_types m) \<and> list_all (\<lambda>f. fn_type f \<in> set (vdata (func_types m))) (vdata (funcs m))"

text \<open>An allocator that never grants room for \<open>2\<^sup>3\<^sup>2\<close> types.\<close>

definition small_types :: "alloc \<Rightarrow> bool" where
  "small_types am \<longleftrightarrow> (\<forall>n. am T_type_id n \<longrightarrow> n < 2 ^ 32)"

definition stack_ok :: "alloc \<Rightarrow> validator_context \<Rightarrow> bool" where
  "stack_ok am ctx \<longleftrightarrow> vec_is_valid (val_stack ctx) \<and>
     (small_types am \<longrightarrow> vcap (val_stack ctx) < 2 ^ 32 \<and> vec_size (val_stack ctx) \<le> unat (stack_size_max ctx))"

definition vinv :: "alloc \<Rightarrow> str \<Rightarrow> validator_context \<Rightarrow> bool" where
  "vinv am code ctx \<longleftrightarrow> stack_ok am ctx \<and> vec_is_valid (ctrl_stack ctx) \<and> vec_is_valid (jt_of ctx) \<and>
     list_all (slot_ok code) (vdata (jt_of ctx)) \<and>
     frames_ok code (vec_size (jt_of ctx)) (vdata (ctrl_stack ctx)) (vec_size (val_stack ctx)) \<and>
     sigs_ok (vc_mod ctx)"

definition dead :: "validator_context \<Rightarrow> bool" where
  "dead ctx \<longleftrightarrow> vdata (ctrl_stack ctx) = []"

text \<open>What every operation keeps, and what the operations inside a frame keep.\<close>

definition only_jt :: "alloc \<Rightarrow> validator_context \<Rightarrow> validator_context \<Rightarrow> bool" where
  "only_jt am ctx ctx' \<longleftrightarrow> vc_mod ctx' = vc_mod ctx \<and> (vc_f ctx')\<lparr>f_jt := vec_empty\<rparr> = (vc_f ctx)\<lparr>f_jt := vec_empty\<rparr> \<and>
     (small_types am \<longrightarrow> stack_size_max ctx \<le> stack_size_max ctx')"

definition same_frames :: "alloc \<Rightarrow> validator_context \<Rightarrow> validator_context \<Rightarrow> bool" where
  "same_frames am ctx ctx' \<longleftrightarrow> only_jt am ctx ctx' \<and> vec_size (ctrl_stack ctx') = vec_size (ctrl_stack ctx)"

definition safe :: "alloc \<Rightarrow> str \<Rightarrow> validator_context \<Rightarrow> validator_context res \<Rightarrow> bool" where
  "safe am code ctx m \<longleftrightarrow> res_out (dead ctx) (\<lambda>ctx'. vinv am code ctx' \<and> same_frames am ctx ctx') m"

lemma only_jt_refl [simp]: "only_jt am ctx ctx"
  by (simp add: only_jt_def)

lemma same_frames_refl [simp]: "same_frames am ctx ctx"
  by (simp add: same_frames_def)

lemma only_jt_trans: "only_jt am a b \<Longrightarrow> only_jt am b c \<Longrightarrow> only_jt am a c"
  by (auto simp: only_jt_def)

lemma same_frames_trans: "same_frames am a b \<Longrightarrow> same_frames am b c \<Longrightarrow> same_frames am a c"
  by (auto simp: same_frames_def intro: only_jt_trans)

lemma same_frames_dead: "same_frames am a b \<Longrightarrow> dead b \<longleftrightarrow> dead a"
  by (simp add: same_frames_def dead_def vec_size_def flip: length_0_conv)

lemma same_frames_mod: "same_frames am a b \<Longrightarrow> vc_mod b = vc_mod a"
  by (simp add: same_frames_def only_jt_def)

lemma dead_size: "dead ctx \<longleftrightarrow> vec_size (ctrl_stack ctx) = 0"
  by (simp add: dead_def vec_size_def)

subsection \<open>Composition\<close>

lemma safe_Inl [simp]: "safe am code ctx (Inl e) \<longleftrightarrow> (e = Fault \<longrightarrow> dead ctx)"
  by (simp add: safe_def)

lemma safe_Inr [simp]: "safe am code ctx (Inr ctx') \<longleftrightarrow> vinv am code ctx' \<and> same_frames am ctx ctx'"
  by (simp add: safe_def)

lemma safe_if: "(b \<Longrightarrow> safe am code ctx m) \<Longrightarrow> (\<not> b \<Longrightarrow> safe am code ctx m') \<Longrightarrow> safe am code ctx (if b then m else m')"
  by simp

lemma safe_from:
  assumes "safe am code ctx m" "same_frames am ctx0 ctx"
  shows "safe am code ctx0 m"
  using assms unfolding safe_def
  by (auto elim!: res_out_mono intro: same_frames_trans simp: same_frames_dead)

lemma safe_bind:
  assumes "safe am code ctx m"
    and "\<And>ctx'. vinv am code ctx' \<Longrightarrow> same_frames am ctx ctx' \<Longrightarrow> safe am code ctx' (f ctx')"
  shows "safe am code ctx (unwrap m f)"
  unfolding safe_def
proof (rule res_out_then [OF assms(1) [unfolded safe_def]], assumption)
  fix ctx' assume c: "vinv am code ctx' \<and> same_frames am ctx ctx'"
  then have "safe am code ctx (f ctx')"
    by (auto intro: safe_from assms(2))
  then show "res_out (dead ctx) (\<lambda>ctx'. vinv am code ctx' \<and> same_frames am ctx ctx') (f ctx')"
    by (simp add: safe_def)
qed

lemma safe_pure:
  assumes "res_ok P m" "\<And>x. P x \<Longrightarrow> safe am code ctx (f x)"
  shows "safe am code ctx (unwrap m f)"
  unfolding safe_def by (rule res_out_ok_bind [OF assms(1)]) (use assms(2) in \<open>simp add: safe_def\<close>)

lemma safe_at:
  assumes "i < vec_size v" "safe am code ctx (f (vdata v ! i))"
  shows "safe am code ctx (unwrap (vec_at v i) f)"
  using assms by (simp add: vec_at_def)

lemma safe_foreach:
  assumes "vinv am code ctx" "\<And>x ctx'. x \<in> set xs \<Longrightarrow> vinv am code ctx' \<Longrightarrow> same_frames am ctx ctx' \<Longrightarrow> safe am code ctx' (body x ctx')"
  shows "safe am code ctx (foreach_res body xs ctx)"
  unfolding safe_def
  by (rule foreach_res_out)
    (use assms in \<open>auto intro: safe_from simp: safe_def [symmetric]\<close>)

section \<open>Stacks\<close>

lemma vec_push_cap:
  assumes "vec_push a v x = Inr v'" "\<And>n. a n \<Longrightarrow> n < k" "vcap v < k"
  shows "vcap v' < k"
  using assms by (auto simp: vec_push_def Let_def split: if_splits)

lemma vec_size_push:
  assumes "vec_push a v x = Inr v'" "vec_is_valid v"
  shows "vdata v' = vdata v @ [x]" "vec_is_valid v'"
  using res_okD [OF vec_push_ok [OF assms(2)] assms(1)] by simp_all

lemma vec_valid_size: "vec_is_valid v \<Longrightarrow> vec_size v \<le> vcap v"
  by (auto simp: vec_is_valid_def split: if_splits)

lemma frames_ok_mono:
  "frames_ok code n frs nv \<Longrightarrow> n \<le> n' \<Longrightarrow> nv \<le> nv' \<Longrightarrow> frames_ok code n' frs nv'"
  by (fastforce simp: frames_ok_def frame_ok_def list_all_iff)

text \<open>A push never faults, even without a frame.\<close>

lemma push_val_ok:
  assumes "vinv am code ctx"
  shows "res_ok (\<lambda>ctx'. vinv am code ctx' \<and> same_frames am ctx ctx') (push_val am t ctx)"
proof (cases "vec_push (am T_type_id) (val_stack ctx) t")
  case (Inl e)
  then show ?thesis
    using vec_push_ok [of "val_stack ctx" t "am T_type_id"] assms by (simp add: push_val_def vinv_def stack_ok_def)
next
  case (Inr v)
  have v: "vdata v = vdata (val_stack ctx) @ [t]" "vec_is_valid v"
    using vec_size_push [OF Inr] assms by (simp_all add: vinv_def stack_ok_def)
  have small: "vcap v < 2 ^ 32" if "small_types am"
    using vec_push_cap [OF Inr, of "2 ^ 32"] that assms by (simp add: small_types_def vinv_def stack_ok_def)
  have fit: "unat (of_nat (vec_size v) :: u32) = vec_size v" if "small_types am"
    using small [OF that] vec_valid_size [OF v(2)] by (simp add: unat_of_nat)
  have frames: "frames_ok code (vec_size (jt_of ctx)) (vdata (ctrl_stack ctx)) (vec_size v)"
    by (rule frames_ok_mono [where n = "vec_size (jt_of ctx)" and nv = "vec_size (val_stack ctx)"])
      (use assms v(1) in \<open>simp_all add: vinv_def vec_size_def\<close>)
  show ?thesis
    using assms Inr v small fit frames
    by (simp add: push_val_def vinv_def stack_ok_def jt_of_def same_frames_def only_jt_def word_le_nat_alt not_less Let_def)
qed

lemma push_vals_ok:
  assumes "vinv am code ctx"
  shows "res_ok (\<lambda>ctx'. vinv am code ctx' \<and> same_frames am ctx ctx') (push_vals am vals ctx)"
  unfolding push_vals_def
  by (rule foreach_res_ok)
    (use assms in \<open>auto intro: res_ok_mono [OF push_val_ok] same_frames_trans\<close>)

lemma safe_ok: "res_ok (\<lambda>ctx'. vinv am code ctx' \<and> same_frames am ctx ctx') m \<Longrightarrow> safe am code ctx m"
  unfolding safe_def by (erule res_ok_out)

lemmas push_val_safe = safe_ok [OF push_val_ok]
lemmas push_vals_safe = safe_ok [OF push_vals_ok]

lemma stack_ok_shrink:
  assumes "stack_ok am ctx" "vdata v = take n (vdata (val_stack ctx))" "vec_is_valid v" "vcap v = vcap (val_stack ctx)"
  shows "stack_ok am (ctx\<lparr>val_stack := v\<rparr>)"
  using assms by (auto simp: stack_ok_def vec_size_def)

text \<open>A pop leaves the frames and everything else alone.\<close>

definition popped :: "alloc \<Rightarrow> str \<Rightarrow> validator_context \<Rightarrow> validator_context \<Rightarrow> bool" where
  "popped am code ctx ctx' \<longleftrightarrow> vinv am code ctx' \<and> (\<exists>v. ctx' = ctx\<lparr>val_stack := v\<rparr>)"

lemma popped_same: "popped am code ctx ctx' \<Longrightarrow> vinv am code ctx' \<and> same_frames am ctx ctx'"
  by (auto simp: popped_def same_frames_def only_jt_def)

lemma popped_trans: "popped am code a b \<Longrightarrow> popped am code b c \<Longrightarrow> popped am code a c"
  by (auto simp: popped_def)

lemma popped_simps:
  "popped am code ctx ctx' \<Longrightarrow> ctrl_stack ctx' = ctrl_stack ctx" "popped am code ctx ctx' \<Longrightarrow> jt_of ctx' = jt_of ctx"
  "popped am code ctx ctx' \<Longrightarrow> dead ctx' = dead ctx"
  by (auto simp: popped_def jt_of_def dead_def)

lemma pop_val_out:
  assumes "vinv am code ctx"
  shows "res_out (dead ctx) (\<lambda>(t, ctx'). popped am code ctx ctx') (pop_val ctx)"
proof (cases "vdata (ctrl_stack ctx) = [] \<or> cf_height (last (vdata (ctrl_stack ctx))) = vec_size (val_stack ctx)")
  case True
  have "popped am code ctx ctx"
    using assms by (auto simp: popped_def intro: exI [of _ "val_stack ctx"])
  then show ?thesis
    using True by (auto simp: pop_val_def vec_back_def dead_def)
next
  case False
  have h: "cf_height (last (vdata (ctrl_stack ctx))) < vec_size (val_stack ctx)"
    using assms False by (auto simp: vinv_def frames_ok_def)
  then have ne: "vdata (val_stack ctx) \<noteq> []"
    by (auto simp: vec_size_def)
  let ?v = "(val_stack ctx)\<lparr>vdata := butlast (vdata (val_stack ctx))\<rparr>"
  have v: "vec_is_valid ?v"
    using res_okD [OF vec_pop_ok [OF _ ne], of ?v] assms ne by (simp add: vec_pop_def vinv_def stack_ok_def)
  have "stack_ok am (ctx\<lparr>val_stack := ?v\<rparr>)"
    by (rule stack_ok_shrink [where n = "vec_size (val_stack ctx) - 1"])
      (use assms v in \<open>simp_all add: vinv_def butlast_conv_take vec_size_def\<close>)
  then have "vinv am code (ctx\<lparr>val_stack := ?v\<rparr>)"
    using assms False h by (auto simp: vinv_def frames_ok_def jt_of_def vec_size_def)
  then show ?thesis
    using False ne by (auto simp: pop_val_def vec_back_def vec_pop_def popped_def)
qed

lemma pop_val_expect_out:
  assumes "vinv am code ctx"
  shows "res_out (dead ctx) (\<lambda>(t, ctx'). popped am code ctx ctx') (pop_val_expect e ctx)"
  unfolding pop_val_expect_def by (rule res_out_then [OF pop_val_out [OF assms]]) auto

lemma pop_expect_out:
  assumes "vinv am code ctx"
  shows "res_out (dead ctx) (popped am code ctx) (pop_expect e ctx)"
  unfolding pop_expect_def by (rule res_out_then [OF pop_val_expect_out [OF assms]]) auto

lemma popped_refl: "vinv am code ctx \<Longrightarrow> popped am code ctx ctx"
  by (auto simp: popped_def intro: exI [of _ "val_stack ctx"])

lemma pop_vals_to_vec_out:
  assumes "vinv am code ctx"
  shows "res_out (dead ctx) (\<lambda>(vs, ctx'). vec_is_valid vs \<and> popped am code ctx ctx') (pop_vals_to_vec am vals ctx)"
  unfolding pop_vals_to_vec_def
proof (rule foreach_res_out)
  fix x and s :: "type_id vec \<times> validator_context"
  assume s: "case s of (vs, ctx') \<Rightarrow> vec_is_valid vs \<and> popped am code ctx ctx'"
  obtain vs ctx' where eq: "s = (vs, ctx')" by fastforce
  have c: "vinv am code ctx'" "dead ctx' \<Longrightarrow> dead ctx"
    using s eq by (auto simp: popped_def dead_def)
  show "res_out (dead ctx) (\<lambda>(vs, ctx'). vec_is_valid vs \<and> popped am code ctx ctx')
      (case s of (popped_vals, ctx) \<Rightarrow> unwrap (pop_val_expect x ctx)
        (\<lambda>(t, ctx). unwrap (vec_push (am T_type_id) popped_vals t) (\<lambda>popped_vals. Inr (popped_vals, ctx))))"
    unfolding eq
    by (auto intro!: res_out_then [OF pop_val_expect_out [OF c(1)]] res_out_ok_bind [OF vec_push_ok]
        dest: c(2) popped_trans) (use s eq in \<open>auto intro: popped_trans\<close>)
qed (simp add: popped_refl assms)

lemma pop_vals_out:
  assumes "vinv am code ctx"
  shows "res_out (dead ctx) (popped am code ctx) (pop_vals am vals ctx)"
  unfolding pop_vals_def by (rule res_out_then [OF pop_vals_to_vec_out [OF assms]]) auto

lemma safe_popped: "res_out (dead ctx) (popped am code ctx) m \<Longrightarrow> safe am code ctx m"
  unfolding safe_def by (erule res_out_mono) (auto dest: popped_same)

lemmas pop_expect_safe = safe_popped [OF pop_expect_out]
lemmas pop_vals_safe = safe_popped [OF pop_vals_out]

lemma pop_val_safe:
  assumes "vinv am code ctx" "\<And>t ctx'. vinv am code ctx' \<Longrightarrow> same_frames am ctx ctx' \<Longrightarrow> safe am code ctx' (f (t, ctx'))"
  shows "safe am code ctx (unwrap (pop_val ctx) f)"
  unfolding safe_def
  by (rule res_out_then [OF pop_val_out [OF assms(1)]])
    (auto dest!: popped_same intro!: safe_from [OF assms(2), unfolded safe_def])

lemma list_update_last: "xs \<noteq> [] \<Longrightarrow> xs[length xs - Suc 0 := y] = butlast xs @ [y]"
  by (cases xs rule: rev_cases) simp_all

lemma update_at_ok:
  assumes "vec_is_valid v" "i < vec_size v"
  shows "res_ok (\<lambda>v'. vdata v' = (vdata v)[i := g (vdata v ! i)] \<and> vec_is_valid v') (update_at v i g)"
  using assms by (auto simp: update_at_def vec_at_def intro: res_ok_mono [OF vec_set_ok])

lemma update_back_ok:
  assumes "vec_is_valid v" "vdata v \<noteq> []"
  shows "res_ok (\<lambda>v'. vdata v' = butlast (vdata v) @ [g (last (vdata v))] \<and> vec_is_valid v') (update_back v g)"
  using assms
  by (auto simp: update_back_def list_update_last vec_size_def last_conv_nth intro!: res_ok_mono [OF update_at_ok])

lemma vinv_types:
  assumes "vinv am code ctx" "f \<in> set (vdata (funcs (vc_mod ctx)))"
  shows "wf_func_type (fn_type f)"
  using assms by (auto simp: vinv_def sigs_ok_def wf_types_def list_all_iff)

lemma frames_ok_last_irrelevant:
  assumes "frames_ok code n frs nv" "frs \<noteq> []" "frame_ok code n fr" "cf_height fr = cf_height (last frs)"
  shows "frames_ok code n (butlast frs @ [fr]) nv"
  using assms by (cases frs rule: rev_cases) (simp_all add: frames_ok_def)

lemma frames_ok_update:
  assumes "frames_ok code n frs nv" "i < length frs" "frame_ok code n fr" "cf_height fr = cf_height (frs ! i)"
  shows "frames_ok code n (frs[i := fr]) nv"
proof -
  have "map cf_height (frs[i := fr]) = map cf_height frs"
    using assms(2,4) by (simp add: map_update) (metis list_update_id nth_map)
  moreover have "cf_height (last (frs[i := fr])) = cf_height (last frs)"
    using assms(2,4) by (cases "frs = []") (auto simp: last_conv_nth nth_list_update)
  moreover have "list_all (frame_ok code n) (frs[i := fr])"
    using assms set_update_subset_insert [of frs i fr] by (auto simp: frames_ok_def list_all_iff)
  ultimately show ?thesis
    using assms(1,2) by (auto simp: frames_ok_def)
qed

lemma unreachable_safe:
  assumes "vinv am code ctx"
  shows "safe am code ctx (unreachable am ctx)"
proof (cases "dead ctx")
  case True
  then show ?thesis by (simp add: unreachable_def vec_back_def dead_def)
next
  case False
  let ?fr = "last (vdata (ctrl_stack ctx))"
  have ne: "vdata (ctrl_stack ctx) \<noteq> []" and inv: "vec_is_valid (ctrl_stack ctx)" "vec_is_valid (val_stack ctx)"
    and h: "cf_height ?fr \<le> vec_size (val_stack ctx)" and fr: "frame_ok code (vec_size (jt_of ctx)) ?fr"
    using False assms by (auto simp: dead_def vinv_def stack_ok_def frames_ok_def list_all_iff)
  let ?v = "(val_stack ctx)\<lparr>vdata := take (cf_height ?fr) (vdata (val_stack ctx))\<rparr>"
  have v: "vec_is_valid ?v"
    using inv(2) by (auto simp: vec_is_valid_def vec_size_def split: if_splits)
  have st: "stack_ok am (ctx\<lparr>val_stack := ?v\<rparr>)"
    by (rule stack_ok_shrink) (use assms v in \<open>simp_all add: vinv_def\<close>)
  have fo: "frames_ok code (vec_size (jt_of ctx)) (vdata (ctrl_stack ctx)) (vec_size ?v)"
    using assms h ne by (auto simp: vinv_def frames_ok_def vec_size_def)
  have size: "vec_size ?v = cf_height ?fr"
    using h by (simp add: vec_size_def)
  let ?g = "\<lambda>frame. frame\<lparr>cf_unreachable := True\<rparr> :: ctrl_frame"
  have "frame_ok code (vec_size (jt_of ctx)) (?g ?fr)"
    using fr by (simp add: frame_ok_def)
  then have fr': "frames_ok code (vec_size (jt_of ctx)) (butlast (vdata (ctrl_stack ctx)) @ [?g ?fr]) (vec_size ?v)"
    by (intro frames_ok_last_irrelevant fo ne) simp_all
  have "safe am code ctx (unwrap (update_back (ctrl_stack ctx) ?g) (\<lambda>cs. Inr (ctx\<lparr>val_stack := ?v, ctrl_stack := cs\<rparr>)))"
    by (rule safe_pure [OF update_back_ok [OF inv(1) ne]])
      (use assms st fr' ne in \<open>auto simp: vinv_def stack_ok_def jt_of_def same_frames_def only_jt_def vec_size_def\<close>)
  then show ?thesis
    using h ne by (simp add: unreachable_def vec_back_def vec_resize_def)
qed

section \<open>Jump table slots\<close>

lemma set_jt_simps [simp]:
  "jt_of (set_jt ctx v) = v" "val_stack (set_jt ctx v) = val_stack ctx" "ctrl_stack (set_jt ctx v) = ctrl_stack ctx"
  "stack_size_max (set_jt ctx v) = stack_size_max ctx" "vc_mod (set_jt ctx v) = vc_mod ctx" "locals (set_jt ctx v) = locals ctx"
  "jt_of (ctx\<lparr>ctrl_stack := cs\<rparr>) = jt_of ctx" "jt_of (ctx\<lparr>val_stack := vs\<rparr>) = jt_of ctx"
  "jt_of (ctx\<lparr>locals := ls\<rparr>) = jt_of ctx" "jt_of (ctx\<lparr>stack_size_max := k\<rparr>) = jt_of ctx"
  by (simp_all add: jt_of_def set_jt_def)

lemma only_jt_updates [simp]:
  "only_jt am ctx (set_jt ctx' v) \<longleftrightarrow> only_jt am ctx ctx'"
  "only_jt am ctx (ctx'\<lparr>ctrl_stack := cs\<rparr>) \<longleftrightarrow> only_jt am ctx ctx'"
  "only_jt am ctx (ctx'\<lparr>val_stack := vs\<rparr>) \<longleftrightarrow> only_jt am ctx ctx'"
  "only_jt am (ctx\<lparr>ctrl_stack := cs\<rparr>) ctx' \<longleftrightarrow> only_jt am ctx ctx'"
  "only_jt am (set_jt ctx v) ctx' \<longleftrightarrow> only_jt am ctx ctx'"
  by (simp_all add: only_jt_def set_jt_def)

lemma stack_ok_updates [simp]:
  "stack_ok am (set_jt ctx v) \<longleftrightarrow> stack_ok am ctx" "stack_ok am (ctx\<lparr>ctrl_stack := cs\<rparr>) \<longleftrightarrow> stack_ok am ctx"
  by (simp_all add: stack_ok_def)

lemma push_slot_safe:
  assumes "vinv am code ctx" "i < vec_size (ctrl_stack ctx)" "unat pc \<le> length code"
  shows "safe am code ctx (push_slot am i pc soff arity ctx)"
proof -
  let ?fr = "vdata (ctrl_stack ctx) ! i" and ?n = "vec_size (jt_of ctx)"
  let ?slot = "\<lparr>jt_pc = pc, target_offset = 0, stack_offset = soff, jt_arity = arity, next_idx = JUMP_TABLE_IDX_INVALID\<rparr>"
  have inv: "vec_is_valid (ctrl_stack ctx)" "vec_is_valid (jt_of ctx)"
    using assms(1) by (simp_all add: vinv_def)
  have frs: "frames_ok code (Suc ?n) (vdata (ctrl_stack ctx)) (vec_size (val_stack ctx))"
    by (rule frames_ok_mono [where n = ?n and nv = "vec_size (val_stack ctx)"]) (use assms(1) in \<open>simp_all add: vinv_def\<close>)
  then have fr: "frame_ok code (Suc ?n) ?fr"
    using assms(2) by (simp add: frames_ok_def list_all_length vec_size_def)
  have slot: "slot_ok code ?slot"
    using assms(3) by (simp add: slot_ok_def slot_target_def)
  have idx: "unat (of_nat ?n :: u32) < Suc ?n"
    by (simp add: unat_of_nat le_imp_less_Suc)
  have frames: "frames_ok code (Suc ?n) ((vdata (ctrl_stack ctx))[i := ?fr\<lparr>pending_jt_slots := slots\<rparr>]) (vec_size (val_stack ctx))"
    if "vdata slots = vdata (pending_jt_slots ?fr) @ [of_nat ?n]" "vec_is_valid slots" for slots
    by (rule frames_ok_update [OF frs])
      (use assms(2) that fr idx in \<open>auto simp: vec_size_def frame_ok_def\<close>)
  have valid: "vec_is_valid (pending_jt_slots ?fr)"
    using fr by (simp add: frame_ok_def)
  show ?thesis
    unfolding push_slot_def
    by (rule safe_pure [OF vec_push_ok [OF inv(2)]], rule safe_at [OF assms(2)],
        rule safe_pure [OF vec_push_ok [OF valid]], rule safe_pure [OF vec_set_ok [OF inv(1) assms(2)]])
      (use assms(1) slot frames in \<open>auto simp: vinv_def vec_size_def same_frames_def\<close>)
qed

lemma resolve_slot_ok:
  assumes "vec_is_valid jt" "list_all (slot_ok code) (vdata jt)" "unat target \<le> length code" "unat i < vec_size jt"
  shows "res_ok (\<lambda>jt'. vec_is_valid jt' \<and> list_all (slot_ok code) (vdata jt') \<and> vec_size jt' = vec_size jt)
    (resolve_slot target i jt)"
proof -
  have "slot_ok code ((vdata jt ! unat i)\<lparr>target_offset := target - jt_pc (vdata jt ! unat i)\<rparr>)"
    using assms by (simp add: slot_ok_def slot_target_def list_all_length vec_size_def)
  then have "list_all (slot_ok code) ((vdata jt)[unat i := (vdata jt ! unat i)\<lparr>target_offset := target - jt_pc (vdata jt ! unat i)\<rparr>])"
    using assms(2) set_update_subset_insert [of "vdata jt"] by (fastforce simp: list_all_iff)
  then show ?thesis
    unfolding resolve_slot_def
    by (intro res_ok_mono [OF update_at_ok [OF assms(1,4)]]) (auto simp: vec_size_def)
qed

section \<open>Control frames\<close>

text \<open>A new frame on top, with the block's parameters on the value stack.\<close>

definition entered :: "alloc \<Rightarrow> str \<Rightarrow> validator_context \<Rightarrow> validator_context \<Rightarrow> bool" where
  "entered am code ctx ctx' \<longleftrightarrow> vinv am code ctx' \<and> only_jt am ctx ctx' \<and>
     (\<exists>fr. vdata (ctrl_stack ctx') = vdata (ctrl_stack ctx) @ [fr] \<and> cf_height fr = vec_size (val_stack ctx)) \<and>
     jt_of ctx' = jt_of ctx"

lemma push_val_only_stack:
  "push_val am t ctx = Inr ctx' \<Longrightarrow> jt_of ctx' = jt_of ctx \<and> ctrl_stack ctx' = ctrl_stack ctx \<and> locals ctx' = locals ctx"
  by (auto simp: push_val_def res_simps Let_def)

lemma push_vals_only_stack:
  "push_vals am vals ctx = Inr ctx' \<Longrightarrow> jt_of ctx' = jt_of ctx \<and> ctrl_stack ctx' = ctrl_stack ctx \<and> locals ctx' = locals ctx"
proof -
  have "foreach_res (push_val am) xs ctx = Inr ctx' \<Longrightarrow>
      jt_of ctx' = jt_of ctx \<and> ctrl_stack ctx' = ctrl_stack ctx \<and> locals ctx' = locals ctx" for xs ctx
    by (induction xs arbitrary: ctx) (auto simp: res_simps dest!: push_val_only_stack)
  then show "push_vals am vals ctx = Inr ctx' \<Longrightarrow> ?thesis"
    by (simp add: push_vals_def)
qed

lemma wf_func_type_parse:
  assumes "wf_func_type ft"
  shows "res_ok (\<lambda>v. vec_is_valid v \<and> vdata v = map type_byte (params ft)) (parse_types am (param_count ft) (params ft))"
    "res_ok (\<lambda>v. vec_is_valid v \<and> vdata v = map type_byte (results ft)) (parse_types am (result_count ft) (results ft))"
  using assms parse_types_ok unfolding wf_func_type_def by blast+

lemma frames_ok_push:
  assumes "frames_ok code n frs nv" "frame_ok code n fr" "cf_height fr = nv"
  shows "frames_ok code n (frs @ [fr]) nv"
  using assms by (cases frs rule: rev_cases) (auto simp: frames_ok_def sorted_append intro: order.trans)

lemma push_ctrl_ok:
  assumes "vinv am code ctx" "wf_func_type ft"
  shows "res_ok (entered am code ctx) (push_ctrl am bt ft ctx)"
proof -
  have inv: "vec_is_valid (ctrl_stack ctx)" and frs: "frames_ok code (vec_size (jt_of ctx)) (vdata (ctrl_stack ctx)) (vec_size (val_stack ctx))"
    using assms(1) by (simp_all add: vinv_def)
  have vals: "res_ok (entered am code ctx) (push_vals am ps (ctx\<lparr>ctrl_stack := v\<rparr>))"
    if v: "vec_is_valid v" "vdata v = vdata (ctrl_stack ctx) @ [fr]" "frame_ok code (vec_size (jt_of ctx)) fr"
      "cf_height fr = vec_size (val_stack ctx)" for v fr ps
  proof -
    let ?ctx = "ctx\<lparr>ctrl_stack := v\<rparr>"
    have new: "vinv am code ?ctx"
      using assms(1) v frames_ok_push [OF frs v(3,4)] by (simp add: vinv_def)
    show ?thesis
    proof (rule res_ok_mono [OF push_vals_ok [OF new]])
      fix x assume x: "push_vals am ps ?ctx = Inr x" "vinv am code x \<and> same_frames am ?ctx x"
      show "entered am code ctx x"
        using x(2) push_vals_only_stack [OF x(1)] v(2,4) by (auto simp: entered_def same_frames_def)
    qed
  qed
  show ?thesis
    unfolding push_ctrl_def
    by (auto intro!: res_ok_bind [OF vec_push_ok [OF inv]] res_ok_bind [OF update_back_ok]
        res_ok_bind [OF wf_func_type_parse(1) [OF assms(2)]] res_ok_bind [OF wf_func_type_parse(2) [OF assms(2)]] vals
        simp: frame_ok_def ctrl_frame_zero_def assms(2))
qed

text \<open>The top frame is gone; its pending slots are still in the jump table.\<close>

definition left :: "alloc \<Rightarrow> str \<Rightarrow> validator_context \<Rightarrow> ctrl_frame \<Rightarrow> validator_context \<Rightarrow> bool" where
  "left am code ctx fr ctx' \<longleftrightarrow> vinv am code ctx' \<and> only_jt am ctx ctx' \<and> jt_of ctx' = jt_of ctx \<and>
     vdata (ctrl_stack ctx) = vdata (ctrl_stack ctx') @ [fr] \<and> frame_ok code (vec_size (jt_of ctx')) fr"

lemma frames_ok_pop: "frames_ok code n (frs @ [fr]) nv \<Longrightarrow> frames_ok code n frs nv"
  by (cases frs rule: rev_cases) (auto simp: frames_ok_def sorted_append)

lemma pop_ctrl_ok:
  assumes "vinv am code ctx"
  shows "res_ok (\<lambda>(fr, ctx'). left am code ctx fr ctx') (pop_ctrl am ctx)"
proof (cases "dead ctx")
  case True
  then show ?thesis by (simp add: pop_ctrl_def dead_size)
next
  case False
  then obtain frs fr where fr: "vdata (ctrl_stack ctx) = frs @ [fr]"
    by (cases "vdata (ctrl_stack ctx)" rule: rev_cases) (auto simp: dead_def)
  have vals: "res_ok (popped am code ctx) (pop_vals am (end_types fr) ctx)"
    by (rule res_okI) (use pop_vals_out [OF assms, of "end_types fr"] False in auto)
  have leave: "res_ok (\<lambda>(fr, ctx'). left am code ctx fr ctx') (unwrap (vec_pop (ctrl_stack ctx')) (\<lambda>v. Inr (fr, ctx'\<lparr>ctrl_stack := v\<rparr>)))"
    if c: "popped am code ctx ctx'" for ctx'
  proof -
    have cs: "ctrl_stack ctx' = ctrl_stack ctx" and v: "vec_is_valid (ctrl_stack ctx)" "vinv am code ctx'"
      using c assms by (auto simp: popped_def vinv_def)
    have frs: "frames_ok code (vec_size (jt_of ctx')) frs (vec_size (val_stack ctx'))"
      "frame_ok code (vec_size (jt_of ctx')) fr"
      using v(2) fr cs frames_ok_pop [of code _ frs fr] by (auto simp: vinv_def frames_ok_def)
    show ?thesis
      unfolding cs
      by (rule res_ok_bind [OF vec_pop_ok [OF v(1)]])
        (use fr frs c v(2) in \<open>auto simp: left_def vinv_def popped_simps dest!: popped_same simp: same_frames_def\<close>)
  qed
  show ?thesis
    using False fr by (simp add: pop_ctrl_def dead_size vec_back_def res_ok_bind [OF vals] leave)
qed

section \<open>Handlers\<close>

definition kept :: "alloc \<Rightarrow> str \<Rightarrow> validator_context \<Rightarrow> validator_context res \<Rightarrow> bool" where
  "kept am code ctx m \<longleftrightarrow> res_out (dead ctx) (\<lambda>ctx'. vinv am code ctx' \<and> only_jt am ctx ctx') m"

lemma safe_kept: "safe am code ctx m \<Longrightarrow> kept am code ctx m"
  unfolding safe_def kept_def by (erule res_out_mono) (auto simp: same_frames_def)

text \<open>The handlers that only push and pop.\<close>

lemmas stack_safe = push_val_safe push_vals_safe pop_expect_safe pop_vals_safe unreachable_safe

lemma POP1_PUSH_safe: "vinv am code ctx \<Longrightarrow> safe am code ctx (POP1_PUSH am t t' ctx)"
  by (auto simp: POP1_PUSH_def intro!: safe_bind stack_safe)

lemma POP2_PUSH_safe: "vinv am code ctx \<Longrightarrow> safe am code ctx (POP2_PUSH am t t' ctx)"
  by (auto simp: POP2_PUSH_def intro!: safe_bind stack_safe)

lemma pop_three_safe: "vinv am code ctx \<Longrightarrow> safe am code ctx (pop_three_i32 ctx)"
  by (auto simp: pop_three_i32_def intro!: safe_bind stack_safe)

lemma return_safe: "vinv am code ctx \<Longrightarrow> safe am code ctx (validator_on_return am ctx)"
  by (cases "dead ctx") (auto simp: validator_on_return_def dead_size vec_at_def [of _ 0] intro!: safe_bind stack_safe)

lemma drop_safe: "vinv am code ctx \<Longrightarrow> safe am code ctx (validator_on_drop ctx)"
  by (auto simp: validator_on_drop_def intro!: pop_val_safe)

lemma select_safe: "vinv am code ctx \<Longrightarrow> safe am code ctx (validator_on_select am ctx)"
  unfolding validator_on_select_def by (auto intro!: safe_bind pop_val_safe stack_safe)

lemma select_t_safe: "vinv am code ctx \<Longrightarrow> safe am code ctx (validator_on_select_t am t ctx)"
  unfolding validator_on_select_t_def by (auto intro!: safe_bind stack_safe)

lemma memory_load_store_safe: "vinv am code ctx \<Longrightarrow> safe am code ctx (validator_on_memory_load_store am op align offset ctx)"
  unfolding validator_on_memory_load_store_def MEM_LOAD_def MEM_STORE_def
  by (simp split del: if_split) (intro safe_if; auto intro!: safe_if safe_bind stack_safe)

lemma vinv_func_types:
  assumes "vinv am code ctx" "i < vec_size (func_types (vc_mod ctx))"
  shows "wf_func_type (vdata (func_types (vc_mod ctx)) ! i)"
  using assms by (simp add: vinv_def sigs_ok_def wf_types_def list_all_length vec_size_def)

lemma call_safe:
  assumes "vinv am code ctx"
  shows "safe am code ctx (validator_on_call am x ctx)"
proof (cases "unat x < vec_size (funcs (vc_mod ctx))")
  case True
  let ?f = "vdata (funcs (vc_mod ctx)) ! unat x"
  have wf: "wf_func_type (fn_type ?f)"
    by (rule vinv_types [OF assms]) (use True in \<open>simp add: vec_size_def\<close>)
  have raise: "vinv am code (ctx'\<lparr>stack_size_max := k\<rparr>)" "same_frames am ctx' (ctx'\<lparr>stack_size_max := k\<rparr>)"
    if "vinv am code ctx'" "stack_size_max ctx' < k" for k and ctx' :: validator_context
    using that by (auto simp: vinv_def stack_ok_def same_frames_def only_jt_def word_less_nat_alt word_le_nat_alt)
  show ?thesis
    unfolding validator_on_call_def Let_def
    using True assms
    by (auto intro!: safe_at safe_pure [OF wf_func_type_parse(1) [OF wf]] safe_bind [OF pop_vals_safe]
        safe_pure [OF wf_func_type_parse(2) [OF wf]] safe_from [OF push_vals_safe] raise)
qed (use assms in \<open>simp add: validator_on_call_def\<close>)

lemma call_indirect_safe:
  "vinv am code ctx \<Longrightarrow> safe am code ctx (validator_on_call_indirect am x y ctx)"
  unfolding validator_on_call_indirect_def
  by (auto intro!: safe_bind [OF pop_expect_safe] safe_at safe_pure [OF wf_func_type_parse(1)] safe_bind [OF pop_vals_safe]
      safe_pure [OF wf_func_type_parse(2)] stack_safe vinv_func_types simp: not_le)

lemma cb_u32_safe: "vinv am code ctx \<Longrightarrow> safe am code ctx (validator_cb_u32 am k x ctx)"
  by (cases k)
    (auto intro!: call_safe safe_bind safe_at stack_safe pop_three_safe simp: not_le
      validator_on_local_get_def validator_on_local_set_def validator_on_local_tee_def validator_on_global_get_def
      validator_on_global_set_def validator_on_table_get_def validator_on_table_set_def validator_on_ref_func_def
      validator_on_memory_init_def validator_on_data_drop_def validator_on_elem_drop_def validator_on_table_grow_def
      validator_on_table_size_def validator_on_table_fill_def)

lemma table_ops_safe:
  "vinv am code ctx \<Longrightarrow> safe am code ctx (validator_on_table_init x y ctx)"
  "vinv am code ctx \<Longrightarrow> safe am code ctx (validator_on_table_copy x y ctx)"
  "vinv am code ctx \<Longrightarrow> safe am code ctx (validator_on_memory_copy ctx)"
  unfolding validator_on_table_init_def validator_on_table_copy_def validator_on_memory_copy_def
  by (auto intro!: safe_at pop_three_safe simp: not_le)

lemma numeric_safe:
  assumes "vinv am code ctx"
  shows "safe am code ctx (validator_on_itestop am op ctx)" "safe am code ctx (validator_on_iunop am op ctx)"
    "safe am code ctx (validator_on_irelop am op ctx)" "safe am code ctx (validator_on_ibinop am op ctx)"
    "safe am code ctx (validator_on_funop am op ctx)" "safe am code ctx (validator_on_frelop am op ctx)"
    "safe am code ctx (validator_on_fbinop am op ctx)" "safe am code ctx (validator_on_wrapop am ctx)"
    "safe am code ctx (validator_on_truncop am op ctx)" "safe am code ctx (validator_on_convertop am op ctx)"
    "safe am code ctx (validator_on_rankop am op ctx)" "safe am code ctx (validator_on_reinterpretop am op ctx)"
    "safe am code ctx (validator_on_extendop am op ctx)" "safe am code ctx (validator_on_trunc_sat am op' ctx)"
    "safe am code ctx (validator_on_ref_is_null am ctx)"
  using POP1_PUSH_safe [OF assms] POP2_PUSH_safe [OF assms]
  by (simp_all add: validator_on_itestop_def validator_on_iunop_def validator_on_irelop_def validator_on_ibinop_def
      validator_on_funop_def validator_on_frelop_def validator_on_fbinop_def validator_on_wrapop_def validator_on_truncop_def
      validator_on_convertop_def validator_on_rankop_def validator_on_reinterpretop_def validator_on_extendop_def
      validator_on_trunc_sat_def validator_on_ref_is_null_def)

subsection \<open>Structured control\<close>

lemma imm_offset_le: "imm_ok code imm \<Longrightarrow> length code < 2 ^ 32 \<Longrightarrow> unat (imm_offset imm) \<le> length code"
  by (simp add: imm_ok_def imm_offset_def unat_of_nat)

lemma kept_bind:
  assumes "safe am code ctx m"
    and "\<And>ctx'. vinv am code ctx' \<Longrightarrow> same_frames am ctx ctx' \<Longrightarrow> kept am code ctx' (f ctx')"
  shows "kept am code ctx (unwrap m f)"
  unfolding kept_def
proof (rule res_out_then [OF assms(1) [unfolded safe_def]], assumption)
  fix ctx' assume c: "vinv am code ctx' \<and> same_frames am ctx ctx'"
  then have "kept am code ctx' (f ctx')"
    using assms(2) by simp
  then show "res_out (dead ctx) (\<lambda>ctx'. vinv am code ctx' \<and> only_jt am ctx ctx') (f ctx')"
    unfolding kept_def using c
    by (auto elim!: res_out_mono simp: same_frames_dead same_frames_def intro: only_jt_trans)
qed

lemma kept_pure:
  assumes "res_ok P m" "\<And>x. P x \<Longrightarrow> kept am code ctx (f x)"
  shows "kept am code ctx (unwrap m f)"
  unfolding kept_def by (rule res_out_ok_bind [OF assms(1)]) (use assms(2) in \<open>simp add: kept_def\<close>)

lemma update_frame_ok:
  assumes "vinv am code ctx" "\<not> dead ctx"
    and "frame_ok code (vec_size (jt_of ctx)) (g (last (vdata (ctrl_stack ctx))))"
    and "cf_height (g (last (vdata (ctrl_stack ctx)))) = cf_height (last (vdata (ctrl_stack ctx)))"
  shows "res_ok (\<lambda>ctx'. vinv am code ctx' \<and> same_frames am ctx ctx' \<and> jt_of ctx' = jt_of ctx)
    (unwrap (update_back (ctrl_stack ctx) g) (\<lambda>cs. Inr (ctx\<lparr>ctrl_stack := cs\<rparr>)))"
proof -
  have ne: "vdata (ctrl_stack ctx) \<noteq> []" and inv: "vec_is_valid (ctrl_stack ctx)"
    using assms(1,2) by (simp_all add: dead_def vinv_def)
  have frs: "frames_ok code (vec_size (jt_of ctx)) (butlast (vdata (ctrl_stack ctx)) @ [g (last (vdata (ctrl_stack ctx)))]) (vec_size (val_stack ctx))"
    by (rule frames_ok_last_irrelevant [OF _ ne assms(3,4)]) (use assms(1) in \<open>simp add: vinv_def\<close>)
  show ?thesis
    by (rule res_ok_bind [OF update_back_ok [OF inv ne]])
      (use assms(1) frs ne in \<open>auto simp: vinv_def same_frames_def vec_size_def\<close>)
qed

lemma vinv_last_frame: "vinv am code ctx \<Longrightarrow> \<not> dead ctx \<Longrightarrow> frame_ok code (vec_size (jt_of ctx)) (last (vdata (ctrl_stack ctx)))"
  by (auto simp: vinv_def frames_ok_def dead_def list_all_iff)

lemma block_kept:
  assumes "vinv am code ctx" "imm_ok code imm" "st_p imm < length code" "length code < 2 ^ 32" "wf_func_type ft"
  shows "kept am code ctx (validator_on_block am op imm ft ctx)"
proof -
  have pc: "unat (imm_offset imm) \<le> length code" "unat (imm_offset imm + 1) \<le> length code"
  proof -
    have "imm_offset imm + 1 = of_nat (Suc (st_p imm))"
      by (simp add: imm_offset_def)
    then show "unat (imm_offset imm + 1) \<le> length code"
      using assms(3,4) by (simp add: unat_of_nat del: of_nat_Suc)
  qed (rule imm_offset_le [OF assms(2,4)])
  have enter: "kept am code ctx' (unwrap (push_ctrl am bt ft ctx') f)"
    if "vinv am code ctx'" "\<And>ctx''. vinv am code ctx'' \<Longrightarrow> \<not> dead ctx'' \<Longrightarrow> safe am code ctx'' (f ctx'')" for bt f and ctx' :: validator_context
    unfolding kept_def
  proof (rule res_out_ok_bind [OF push_ctrl_ok [OF that(1) assms(5)]])
    fix ctx'' assume e: "entered am code ctx' ctx''"
    then have live: "\<not> dead ctx''"
      by (auto simp: entered_def dead_size)
    with e have "safe am code ctx'' (f ctx'')"
      by (intro that(2)) (simp_all add: entered_def)
    then show "res_out (dead ctx') (\<lambda>x. vinv am code x \<and> only_jt am ctx' x) (f ctx'')"
      unfolding safe_def using e live
      by (auto elim!: res_out_mono simp: entered_def same_frames_def intro: only_jt_trans)
  qed
  have loop: "safe am code ctx' (unwrap (update_back (ctrl_stack ctx') (\<lambda>frame. frame\<lparr>cf_pc := imm_offset imm + 1\<rparr>)) (\<lambda>cs. Inr (ctx'\<lparr>ctrl_stack := cs\<rparr>)))"
    if "vinv am code ctx'" "\<not> dead ctx'" for ctx'
    by (rule safe_ok, rule res_ok_mono [OF update_frame_ok [OF that]]) (use pc vinv_last_frame [OF that] in \<open>auto simp: frame_ok_def\<close>)
  show ?thesis
    unfolding validator_on_block_def Let_def
    by (auto intro!: kept_bind [where m = "if _ then _ else _"] kept_pure [OF wf_func_type_parse(1) [OF assms(5)]]
        kept_bind [OF pop_vals_safe] kept_bind [OF pop_expect_safe] enter loop push_slot_safe pc pop_expect_safe assms(1) simp: dead_size)
qed

lemma resolve_slots_ok:
  assumes "vec_is_valid jt" "list_all (slot_ok code) (vdata jt)" "frame_ok code (vec_size jt) cf" "imm_ok code imm" "length code < 2 ^ 32"
  shows "res_ok (\<lambda>jt'. vec_is_valid jt' \<and> list_all (slot_ok code) (vdata jt') \<and> vec_size jt' = vec_size jt)
    (foreach_res (end_slot_step cf imm) (vdata (pending_jt_slots cf)) jt)"
proof (rule foreach_res_ok)
  fix i jt'
  assume i: "i \<in> set (vdata (pending_jt_slots cf))"
    and jt': "vec_is_valid jt' \<and> list_all (slot_ok code) (vdata jt') \<and> vec_size jt' = vec_size jt"
  have lt: "unat i < vec_size jt'" and pc: "unat (cf_pc cf) \<le> length code"
    using i jt' assms(3) by (simp_all add: frame_ok_def)
  have one: "unat (imm_offset imm - 1) \<le> length code"
    using assms(4,5) by (cases "st_p imm") (simp_all add: imm_ok_def imm_offset_def unat_of_nat)
  have dec: "res_ok (\<lambda>jt''. vec_is_valid jt'' \<and> list_all (slot_ok code) (vdata jt'') \<and> vec_size jt'' = vec_size jt)
      (unwrap (resolve_slot (imm_offset imm) i jt') (\<lambda>jt. update_at jt (unat i) (\<lambda>rec. rec\<lparr>target_offset := target_offset rec - 1\<rparr>)))"
  proof -
    have "unwrap (resolve_slot (imm_offset imm) i jt') (\<lambda>jt. update_at jt (unat i) (\<lambda>rec. rec\<lparr>target_offset := target_offset rec - 1\<rparr>)) =
        resolve_slot (imm_offset imm - 1) i jt'"
      using lt by (simp add: resolve_slot_def update_at_def vec_at_def vec_set_def algebra_simps)
    then show ?thesis
      using resolve_slot_ok [OF _ _ one lt] jt' by simp
  qed
  show "res_ok (\<lambda>jt'. vec_is_valid jt' \<and> list_all (slot_ok code) (vdata jt') \<and> vec_size jt' = vec_size jt)
      (end_slot_step cf imm i jt')"
    unfolding end_slot_step_def
    using resolve_slot_ok [OF _ _ pc lt] resolve_slot_ok [OF _ _ imm_offset_le [OF assms(4,5)] lt] jt' dec
    by (cases "cf_type cf = bt_func") (auto simp: res_ok_unwrap)
qed (use assms in simp)

lemma end_kept:
  assumes "vinv am code ctx" "imm_ok code imm" "length code < 2 ^ 32"
  shows "kept am code ctx (validator_on_end am imm ctx)"
  unfolding validator_on_end_def kept_def
proof (rule res_out_ok_bind [OF pop_ctrl_ok [OF assms(1)]], clarify)
  fix cf ctx' assume l: "left am code ctx cf ctx'"
  have inv: "vinv am code ctx'" and fr: "frame_ok code (vec_size (jt_of ctx')) cf" and o: "only_jt am ctx ctx'"
    using l by (auto simp: left_def)
  have jt: "vec_is_valid (jt_of ctx')" "list_all (slot_ok code) (vdata (jt_of ctx'))"
    using inv by (simp_all add: vinv_def)
  have vals: "res_ok (\<lambda>ctx''. vinv am code ctx'' \<and> same_frames am (set_jt ctx' jt) ctx'') (push_vals am (end_types cf) (set_jt ctx' jt))"
    if "vec_is_valid jt \<and> list_all (slot_ok code) (vdata jt) \<and> vec_size jt = vec_size (jt_of ctx')" for jt
    by (rule push_vals_ok) (use that inv in \<open>auto simp: vinv_def\<close>)
  show "res_out (dead ctx) (\<lambda>ctx''. vinv am code ctx'' \<and> only_jt am ctx ctx'')
      (unwrap (foreach_res (end_slot_step cf imm) (vdata (pending_jt_slots cf)) (jt_of ctx'))
        (\<lambda>jt. push_vals am (end_types cf) (set_jt ctx' jt)))"
    by (rule res_out_ok_bind [OF resolve_slots_ok [OF jt fr assms(2,3)]], rule res_ok_out [OF vals])
      (use o in \<open>auto simp: same_frames_def intro: only_jt_trans\<close>)
qed

lemma else_slot_step_ok:
  assumes "vinv am code ctx" "\<not> dead ctx" "i < vec_size slots" "unat (vdata slots ! i) < vec_size (jt_of ctx)" "unat pc \<le> length code"
  shows "res_ok (\<lambda>ctx'. vinv am code ctx' \<and> same_frames am ctx ctx' \<and> vec_size (jt_of ctx') = vec_size (jt_of ctx))
    (else_slot_step am pc slots i ctx)"
proof -
  let ?fr = "last (vdata (ctrl_stack ctx))"
  have ne: "vdata (ctrl_stack ctx) \<noteq> []"
    and inv: "vec_is_valid (jt_of ctx)" "list_all (slot_ok code) (vdata (jt_of ctx))" "vec_is_valid (ctrl_stack ctx)"
    and fr: "frame_ok code (vec_size (jt_of ctx)) ?fr"
    using assms(1,2) vinv_last_frame [OF assms(1,2)] by (simp_all add: dead_def vinv_def)
  have slots: "vec_is_valid (pending_jt_slots ?fr)"
    using fr by (simp add: frame_ok_def)
  have first: "res_ok (\<lambda>ctx'. vinv am code ctx' \<and> same_frames am ctx ctx' \<and> vec_size (jt_of ctx') = vec_size (jt_of ctx))
      (unwrap (resolve_slot pc (vdata slots ! i) (jt_of ctx)) (\<lambda>jt. Inr (set_jt ctx jt)))"
    by (rule res_ok_bind [OF resolve_slot_ok [OF inv(1,2) assms(5,4)]])
      (use assms(1) in \<open>auto simp: vinv_def same_frames_def\<close>)
  have later: "res_ok (\<lambda>ctx'. vinv am code ctx' \<and> same_frames am ctx ctx' \<and> vec_size (jt_of ctx') = vec_size (jt_of ctx))
      (unwrap (update_back (ctrl_stack ctx) (\<lambda>frame. frame\<lparr>pending_jt_slots := v\<rparr>)) (\<lambda>cs. Inr (ctx\<lparr>ctrl_stack := cs\<rparr>)))"
    if v: "vdata v = vdata (pending_jt_slots ?fr) @ [vdata slots ! i] \<and> vec_is_valid v \<and> vfixed v = vfixed (pending_jt_slots ?fr)" for v
    by (rule res_ok_mono [OF update_frame_ok [OF assms(1,2)]]) (use fr v assms(4) in \<open>auto simp: frame_ok_def\<close>)
  show ?thesis
    using assms(3) ne first
    by (auto simp: else_slot_step_def vec_at_def vec_back_def intro!: res_ok_bind [OF vec_push_ok [OF slots]] later [unfolded vec_size_length])
qed

text \<open>Leaving the \<open>if\<close> frame and entering the \<open>else\<close> frame keeps the depth.\<close>

lemma else_slots_ok:
  assumes "vinv am code ctx" "\<not> dead ctx" "\<forall>s \<in> set (vdata slots). unat s < vec_size (jt_of ctx)" "unat pc \<le> length code"
  shows "res_ok (\<lambda>ctx'. vinv am code ctx' \<and> same_frames am ctx ctx') (for_res 0 (vec_size slots) (else_slot_step am pc slots) ctx)"
proof -
  let ?I = "\<lambda>j ctx'. vinv am code ctx' \<and> same_frames am ctx ctx' \<and> vec_size (jt_of ctx') = vec_size (jt_of ctx)"
  have "res_ok (?I (0 + vec_size slots)) (for_res 0 (vec_size slots) (else_slot_step am pc slots) ctx)"
  proof (rule for_res_ok_index)
    fix j ctx' assume j: "j < 0 + vec_size slots" and c: "?I j ctx'"
    have "\<not> dead ctx'"
      using c assms(2) same_frames_dead by blast
    then show "res_ok (?I (Suc j)) (else_slot_step am pc slots j ctx')"
      by (intro res_ok_mono [OF else_slot_step_ok [OF _ _ _ _ assms(4)]])
        (use c j assms(3) in \<open>auto intro: same_frames_trans\<close>)
  qed (use assms(1) in simp)
  then show ?thesis
    by (rule res_ok_mono) simp
qed

lemma else_kept:
  assumes "vinv am code ctx" "imm_ok code imm" "length code < 2 ^ 32"
  shows "kept am code ctx (validator_on_else am imm ctx)"
proof (cases "dead ctx")
  case True
  then show ?thesis
    by (simp add: validator_on_else_def kept_def vec_back_def dead_def)
next
  case False
  have pc: "unat (imm_offset imm) \<le> length code"
    by (rule imm_offset_le [OF assms(2,3)])
  have push: "safe am code c (unwrap (vec_back (ctrl_stack c)) (\<lambda>else_frame. push_slot am (vec_size (ctrl_stack c) - 1)
      (imm_offset imm) (so else_frame) (ar else_frame) c))" if "vinv am code c" for c so ar
    by (cases "dead c") (use that pc in \<open>auto simp: dead_def vec_back_def intro!: push_slot_safe\<close>)
  have enter: "res_out (dead ctx) (\<lambda>c. vinv am code c \<and> only_jt am ctx c)
      (unwrap (for_res 0 (vec_size (pending_jt_slots cf)) (else_slot_step am (imm_offset imm) (pending_jt_slots cf)) c)
         (\<lambda>c. unwrap (vec_back (ctrl_stack c)) (\<lambda>else_frame. push_slot am (vec_size (ctrl_stack c) - 1) (imm_offset imm) (so c else_frame) (ar c else_frame) c)))"
    if l: "left am code ctx cf c0" and e: "entered am code c0 c" for cf c0 c so ar
  proof -
    have c: "vinv am code c" "\<not> dead c" and o: "only_jt am ctx c"
      and s: "\<forall>s \<in> set (vdata (pending_jt_slots cf)). unat s < vec_size (jt_of c)"
      using l e by (auto simp: left_def entered_def dead_size frame_ok_def intro: only_jt_trans)
    show ?thesis
      by (rule res_out_mono [OF safe_bind [OF safe_ok [OF else_slots_ok [OF c s pc]] push, unfolded safe_def]])
        (use c o in \<open>auto simp: same_frames_def intro: only_jt_trans\<close>)
  qed
  have wf: "wf_func_type (cf_ftype cf)" "vinv am code c" if "left am code ctx cf c" for cf c
    using that by (auto simp: left_def frame_ok_def)
  have top: "vec_back (ctrl_stack ctx) = Inr (last (vdata (ctrl_stack ctx)))"
    using False by (simp add: vec_back_def dead_def)
  show ?thesis
    unfolding validator_on_else_def kept_def Let_def top unwrap_Inr
    by (auto intro: wf intro!: out_wp res_out_ok_bind [OF pop_ctrl_ok [OF assms(1)]] res_out_ok_bind [OF push_ctrl_ok] enter
        simp del: vec_size_length One_nat_def)
qed

subsection \<open>Branches\<close>

lemma frame_index_safe:
  assumes "l < vec_size (ctrl_stack ctx)" "\<And>i. i < vec_size (ctrl_stack ctx) \<Longrightarrow> safe am code ctx0 (f i)"
  shows "safe am code ctx0 (unwrap (frame_index ctx l) f)"
  using assms by (simp add: frame_index_def)

lemma same_frames_size: "same_frames am a b \<Longrightarrow> vec_size (ctrl_stack b) = vec_size (ctrl_stack a)"
  by (simp add: same_frames_def)

lemma br_or_if_safe:
  assumes "vinv am code ctx" "imm_ok code imm" "length code < 2 ^ 32"
  shows "safe am code ctx (validator_on_br_or_if am op imm lth ctx)"
proof (cases "unat lth < vec_size (ctrl_stack ctx)")
  case True
  have "safe am code ctx (if op = 0x0d then pop_expect TYPE_ID_i32 ctx else Inr ctx)"
    using assms(1) by (auto intro: pop_expect_safe)
  moreover have "safe am code ctx' (if op = 0x0c then unreachable am ctx' else push_vals am vs ctx')"
    if "vinv am code ctx'" for ctx' vs
    using that by (auto intro: stack_safe)
  ultimately show ?thesis
    unfolding validator_on_br_or_if_def Let_def
    using True assms
    by (simp only: if_False not_le [symmetric] not_not)
      (intro safe_bind frame_index_safe safe_at push_slot_safe pop_vals_safe imm_offset_le;
        (assumption | simp only: same_frames_size not_le)?)
qed (use assms(1) in \<open>simp add: validator_on_br_or_if_def\<close>)

text \<open>The labels of a branch table, each below the number of frames.\<close>

fun labels_ok :: "nat \<Rightarrow> nat \<Rightarrow> stream \<Rightarrow> bool" where
  "labels_ok d 0 st \<longleftrightarrow> True"
| "labels_ok d (Suc n) st \<longleftrightarrow> (\<exists>l st'. stream_read_vu32 st = Inr (l, st') \<and> unat l < d \<and> labels_ok d n st')"

definition chosen :: "validator_context \<Rightarrow> nat option \<Rightarrow> bool" where
  "chosen ctx m \<longleftrightarrow> (\<forall>k. m = Some k \<longrightarrow> k < vec_size (ctrl_stack ctx))"

lemma pass1_ok:
  assumes "stream_is_valid st"
  shows "res_ok (\<lambda>(st', m). stream_moved st st' \<and> labels_ok (vec_size (ctrl_stack ctx)) n st \<and>
      (i \<le> unat len \<and> unat len < i + n \<longrightarrow> m \<noteq> None) \<and> (m0 \<noteq> None \<longrightarrow> m \<noteq> None) \<and> (chosen ctx m0 \<longrightarrow> chosen ctx m))
    (for_res i n (br_table_pass1 len ctx) (st, m0))"
  using assms
proof (induction n arbitrary: i st m0)
  case 0
  then show ?case by (auto simp: stream_moved_refl)
next
  case (Suc n)
  let ?d = "vec_size (ctrl_stack ctx)"
  have step: "res_ok (\<lambda>(st', m). (\<exists>l. stream_read_vu32 st = Inr (l, st') \<and> unat l < ?d) \<and> stream_moved st st' \<and>
      (i = unat len \<or> m0 \<noteq> None \<longrightarrow> m \<noteq> None) \<and> (chosen ctx m0 \<longrightarrow> chosen ctx m)) (br_table_pass1 len ctx i (st, m0))"
    unfolding br_table_pass1_def
    using Suc.prems by (auto intro!: res_wp simp: frame_index_def chosen_def)
  show ?case
    unfolding for_res.simps
  proof (rule res_ok_bind_pair [OF step])
    fix st' m assume s: "(\<exists>l. stream_read_vu32 st = Inr (l, st') \<and> unat l < ?d) \<and> stream_moved st st' \<and>
      (i = unat len \<or> m0 \<noteq> None \<longrightarrow> m \<noteq> None) \<and> (chosen ctx m0 \<longrightarrow> chosen ctx m)"
    then have v: "stream_is_valid st'"
      using Suc.prems stream_moved_valid by blast
    show "res_ok (\<lambda>(st', m). stream_moved st st' \<and> labels_ok ?d (Suc n) st \<and>
        (i \<le> unat len \<and> unat len < i + Suc n \<longrightarrow> m \<noteq> None) \<and> (m0 \<noteq> None \<longrightarrow> m \<noteq> None) \<and> (chosen ctx m0 \<longrightarrow> chosen ctx m))
        (for_res (Suc i) n (br_table_pass1 len ctx) (st', m))"
      by (rule res_ok_mono [OF Suc.IH [OF v]]) (use s in \<open>auto intro: stream_moved_trans\<close>)
  qed
qed

lemma pass2_out:
  assumes "labels_ok (vec_size (ctrl_stack ctx)) n imm" "vinv am code ctx" "unat (imm_offset pc) \<le> length code"
  shows "res_out (dead ctx) (\<lambda>(imm', ctx'). vinv am code ctx' \<and> same_frames am ctx ctx')
    (for_res 0 n (br_table_pass2 am arity pc) (imm, ctx))"
proof -
  let ?d = "vec_size (ctrl_stack ctx)"
  let ?I = "\<lambda>j (imm', ctx'). labels_ok ?d (n - j) imm' \<and> vinv am code ctx' \<and> same_frames am ctx ctx'"
  have "res_out (dead ctx) (?I (0 + n)) (for_res 0 n (br_table_pass2 am arity pc) (imm, ctx))"
  proof (rule for_res_out)
    fix j s assume j: "j < 0 + n" and s: "?I j s"
    obtain imm' ctx' where eq: "s = (imm', ctx')" by fastforce
    obtain l st where r: "stream_read_vu32 imm' = Inr (l, st)" "unat l < ?d" "labels_ok ?d (n - Suc j) st"
      using s eq j by (cases "n - j") (auto simp: Suc_diff_Suc [symmetric])
    have c: "vinv am code ctx'" "same_frames am ctx ctx'"
      using s eq by auto
    have l: "unat l < vec_size (ctrl_stack ctx')"
      using r(2) same_frames_size [OF c(2)] by simp
    define k where "k = vec_size (ctrl_stack ctx') - unat l - 1"
    have k: "frame_index ctx' (unat l) = Inr k" "k < vec_size (ctrl_stack ctx')"
      using l by (auto simp: frame_index_def k_def)
    have pop: "safe am code ctx'' (unwrap (pop_vals_to_vec am ts ctx'') (\<lambda>(vs, c). push_vals am (VEC_REVERSE vs) c))"
      if "vinv am code ctx''" for ctx'' ts
      unfolding safe_def
      by (rule res_out_then [OF pop_vals_to_vec_out [OF that]], assumption, clarify)
        (auto dest!: popped_same intro!: res_ok_out [OF push_vals_ok] intro: same_frames_trans)
    have "safe am code ctx' (unwrap (push_slot am k (imm_offset pc) so ar ctx')
        (\<lambda>c. unwrap (pop_vals_to_vec am ts c) (\<lambda>(vs, c). push_vals am (VEC_REVERSE vs) c)))" for so ar ts
      by (rule safe_bind [OF push_slot_safe [OF c(1) k(2) assms(3)]]) (rule pop)
    then have "res_out (dead ctx) (?I (Suc j)) (unwrap (unwrap (push_slot am k (imm_offset pc) so ar ctx')
        (\<lambda>c. unwrap (pop_vals_to_vec am ts c) (\<lambda>(vs, c). push_vals am (VEC_REVERSE vs) c))) (\<lambda>c. Inr (st, c)))" for so ar ts
      unfolding safe_def
      by (rule res_out_then) (use r(3) c(2) same_frames_dead in \<open>auto intro: same_frames_trans\<close>)
    then show "res_out (dead ctx) (?I (Suc j)) (br_table_pass2 am arity pc j s)"
      using k(2) by (simp add: eq br_table_pass2_def r(1) k(1) vec_at_def unwrap_assoc case_prod_unfold del: labels_ok.simps)
  qed (use assms in simp)
  then show ?thesis
    by (rule res_out_mono) auto
qed

text \<open>The length \<open>0xffffffff\<close>, for which \<open>table_len + 1\<close> wraps to zero and no frame is chosen.\<close>

definition degenerate_table :: "stream \<Rightarrow> bool" where
  "degenerate_table imm \<longleftrightarrow> (\<exists>st. stream_read_vu32 imm = Inr (0xffffffff, st))"

lemma stream_moved_imm: "imm_ok code st \<Longrightarrow> stream_moved st st' \<Longrightarrow> imm_ok code st'"
  by (auto simp: imm_ok_def stream_moved_def)

lemma table_wrap:
  assumes "stream_read_vu32 imm = Inr (len, st)" "\<not> degenerate_table imm"
  shows "unat len < unat (len + 1)"
proof -
  have "len \<noteq> - 1"
    using assms by (auto simp: degenerate_table_def)
  then have "1 + len \<noteq> 0"
    by (simp add: eq_neg_iff_add_eq_0 add.commute)
  then show ?thesis
    using unatSuc [of len] by (simp add: add.commute)
qed

lemma br_table_rest_safe:
  assumes "vinv am code ctx" "labels_ok (vec_size (ctrl_stack ctx)) n st" "unat (imm_offset pc) \<le> length code"
    and "k < vec_size (ctrl_stack ctx)"
  shows "safe am code ctx (unwrap (for_res 0 n (br_table_pass2 am arity pc) (st, ctx)) (\<lambda>(_, ctx').
      unwrap (vec_at (ctrl_stack ctx') k) (\<lambda>m_frame. unwrap (pop_vals am (label_types m_frame) ctx') (unreachable am))))"
  unfolding safe_def
proof (rule res_out_then [OF pass2_out [OF assms(2,1,3)]], assumption, clarify)
  fix ctx' assume c: "vinv am code ctx'" "same_frames am ctx ctx'"
  have "safe am code ctx' (unwrap (vec_at (ctrl_stack ctx') k) (\<lambda>m_frame. unwrap (pop_vals am (label_types m_frame) ctx') (unreachable am)))"
    by (intro safe_at safe_bind stack_safe c(1)) (use assms(4) same_frames_size [OF c(2)] in simp_all)
  from safe_from [OF this c(2)]
  show "res_out (dead ctx) (\<lambda>ctx'. vinv am code ctx' \<and> same_frames am ctx ctx')
      (unwrap (vec_at (ctrl_stack ctx') k) (\<lambda>m_frame. unwrap (pop_vals am (label_types m_frame) ctx') (unreachable am)))"
    by (simp add: safe_def)
qed

lemma vec_at_out: "i < vec_size v \<Longrightarrow> res_out F Q (f (vdata v ! i)) \<Longrightarrow> res_out F Q (unwrap (vec_at v i) f)"
  by (simp add: vec_at_def)

lemma null_out:
  "(m = None \<Longrightarrow> F) \<Longrightarrow> (\<And>k. m = Some k \<Longrightarrow> res_out F Q (f k)) \<Longrightarrow> res_out F Q (case m of None \<Rightarrow> Inl Fault | Some k \<Rightarrow> f k)"
  by (cases m) simp_all

text \<open>The allowance for the degenerate table is the only one beside an empty control stack.\<close>

lemma br_table_out:
  assumes "vinv am code ctx" "imm_ok code imm" "length code < 2 ^ 32"
  shows "res_out (dead ctx \<or> degenerate_table imm) (\<lambda>ctx'. vinv am code ctx' \<and> only_jt am ctx ctx') (validator_on_br_table am imm ctx)"
    (is "res_out ?F ?Q _")
proof -
  have v: "stream_is_valid imm"
    using assms(2) by (simp add: imm_ok_def stream_is_valid_def)
  have rest: "res_out ?F ?Q (unwrap (for_res 0 n (br_table_pass2 am arity pc) (st, ctx')) (\<lambda>(_, ctx').
      unwrap (vec_at (ctrl_stack ctx') k) (\<lambda>m_frame. unwrap (pop_vals am (label_types m_frame) ctx') (unreachable am))))"
    if "vinv am code ctx'" "same_frames am ctx ctx'" "labels_ok (vec_size (ctrl_stack ctx')) n st" "stream_moved imm st" "stream_moved st pc"
      "k < vec_size (ctrl_stack ctx')" for ctx' n st pc k arity
    by (rule res_out_mono [OF safe_from [OF br_table_rest_safe [OF that(1,3) imm_offset_le [OF stream_moved_imm [OF
          stream_moved_imm [OF assms(2) that(4)] that(5)] assms(3)] that(6)] that(2), unfolded safe_def]])
      (auto simp: same_frames_def)
  show ?thesis
    unfolding validator_on_br_table_def Let_def
    by (rule res_out_then [OF pop_expect_safe [OF assms(1), unfolded safe_def]], simp)
      (auto intro!: rd_vu32.read_out [OF v] res_out_ok_bind [OF pass1_ok] vec_at_out null_out rest simp del: vec_size_length
        simp: chosen_def dest: table_wrap)
qed

section \<open>The callbacks\<close>

definition degenerate_event :: "event \<Rightarrow> bool" where
  "degenerate_event e \<longleftrightarrow> (\<exists>op imm. e = On_none on_br_table op imm \<and> degenerate_table imm)"

definition stepped :: "alloc \<Rightarrow> str \<Rightarrow> validator_context \<Rightarrow> validator_context \<Rightarrow> bool" where
  "stepped am code ctx ctx' \<longleftrightarrow> vinv am code ctx' \<and> only_jt am ctx ctx'"

lemma kept_stepped: "kept am code ctx m \<Longrightarrow> res_out (dead ctx \<or> F) (stepped am code ctx) m"
  unfolding kept_def stepped_def [abs_def] by (erule res_out_mono) auto

lemma memory_grow_safe: "vinv am code ctx \<Longrightarrow> safe am code ctx (validator_on_memory_grow am ctx)"
  by (auto simp: validator_on_memory_grow_def intro!: safe_bind stack_safe)

lemmas handlers_kept =
  safe_kept [OF return_safe] safe_kept [OF drop_safe] safe_kept [OF select_safe] safe_kept [OF unreachable_safe]
  safe_kept [OF push_val_safe] safe_kept [OF memory_grow_safe] numeric_safe [THEN safe_kept] safe_kept [OF cb_u32_safe]
  safe_kept [OF call_indirect_safe] safe_kept [OF select_t_safe] table_ops_safe [THEN safe_kept] safe_kept [OF memory_load_store_safe]

lemma cb_none_out:
  assumes "vinv am code ctx" "imm_ok code imm" "length code < 2 ^ 32"
  shows "res_out (dead ctx \<or> degenerate_event (On_none k op imm)) (stepped am code ctx) (validator_cb_none am k op imm ctx)"
proof (cases k)
  case on_br_table
  then show ?thesis
    using br_table_out [OF assms] by (simp add: degenerate_event_def stepped_def [abs_def])
qed (use assms in \<open>auto intro!: kept_stepped handlers_kept else_kept end_kept simp: stepped_def validator_on_memory_size_def\<close>)

lemma callbacks_out:
  assumes "vinv am code ctx" "event_ok code e" "length code < 2 ^ 32"
  shows "res_out (dead ctx \<or> degenerate_event e) (stepped am code ctx) (validator_callbacks am e ctx)"
proof (cases e)
  case (On_none k op imm)
  then show ?thesis
    using cb_none_out [OF assms(1) _ assms(3)] assms(2) by simp
next
  case (On_block op imm ft)
  then show ?thesis
    using assms by (auto intro!: kept_stepped block_kept)
next
  case (On_br_or_if op imm lth)
  then show ?thesis
    using assms by (auto intro!: kept_stepped safe_kept [OF br_or_if_safe])
qed (use assms in \<open>auto intro!: kept_stepped handlers_kept
      simp: stepped_def validator_on_ref_null_def split: cb_u32_u32.split cb_typeid.split cb_fc_none.split\<close>)

interpretation vld: decoder_client "validator_callbacks am" m code for am m code
  by unfold_locales simp_all

section \<open>A whole function\<close>

definition func_ready :: "module \<Rightarrow> func \<Rightarrow> bool" where
  "func_ready m f \<longleftrightarrow> sigs_ok m \<and> wf_func_type (fn_type f) \<and> f_jt f = vec_empty \<and> length (f_code f) < 2 ^ 32"

lemma func_ready_wf:
  assumes "wf_module m" "f \<in> set (vdata (funcs m))" "length (f_code f) < 2 ^ 32"
  shows "func_ready m f"
  using assms by (auto simp: func_ready_def sigs_ok_def wf_module_def wf_funcs_def wf_func_def wf_types_def list_all_iff)

lemma zero_vinv:
  assumes "func_ready m f" "vec_is_valid v"
  shows "vinv am (f_code f) ((validator_context_zero m f)\<lparr>locals := v\<rparr>)"
  using assms by (simp add: vinv_def stack_ok_def frames_ok_def func_ready_def validator_context_zero_def jt_of_def) (simp add: vec_empty_def)

lemma push_types_ok:
  assumes "vec_is_valid v"
  shows "res_ok (\<lambda>v'. vec_is_valid v') (foreach_res (\<lambda>x v. vec_push a v x) xs v)"
  by (rule foreach_res_ok) (use assms in \<open>auto intro: res_ok_mono [OF vec_push_ok]\<close>)

lemma begin_ok:
  assumes "func_ready m f"
  shows "res_ok (\<lambda>ctx. vinv am (f_code f) ctx \<and> only_jt am (validator_context_zero m f) ctx \<and> jt_of ctx = vec_empty)
    (validator_on_decode_begin am (validator_context_zero m f))"
proof -
  have wf: "wf_func_type (fn_type f)"
    using assms by (simp add: func_ready_def)
  have enter: "res_ok (\<lambda>ctx. vinv am (f_code f) ctx \<and> only_jt am (validator_context_zero m f) ctx \<and> jt_of ctx = vec_empty)
      (unwrap (push_ctrl am bt_func (fn_type f) ((validator_context_zero m f)\<lparr>locals := v\<rparr>))
        (\<lambda>ctx. Inr (ctx\<lparr>val_stack := vec_clear (val_stack ctx)\<rparr>)))"
    if "vec_is_valid v" for v
  proof (rule res_ok_bind [OF push_ctrl_ok [OF zero_vinv [OF assms that] wf]])
    fix ctx assume p: "push_ctrl am bt_func (fn_type f) ((validator_context_zero m f)\<lparr>locals := v\<rparr>) = Inr ctx"
      and e: "entered am (f_code f) ((validator_context_zero m f)\<lparr>locals := v\<rparr>) ctx"
    obtain fr where fr: "vdata (ctrl_stack ctx) = [fr]" "cf_height fr = 0"
      using e by (auto simp: entered_def validator_context_zero_def)
    then show "res_ok (\<lambda>ctx. vinv am (f_code f) ctx \<and> only_jt am (validator_context_zero m f) ctx \<and> jt_of ctx = vec_empty)
        (Inr (ctx\<lparr>val_stack := vec_clear (val_stack ctx)\<rparr>))"
      using e assms
      by (auto simp: entered_def vinv_def stack_ok_def frames_ok_def vec_clear_def func_ready_def validator_context_zero_def
          jt_of_def only_jt_def) (simp_all add: vec_empty_def)
  qed
  have zero: "locals (validator_context_zero m f) = vec_empty" "vc_f (validator_context_zero m f) = f"
    by (simp_all add: validator_context_zero_def)
  show ?thesis
    unfolding validator_on_decode_begin_def Let_def zero
    by (auto intro!: res_ok_bind [OF vec_reserve_ok] res_ok_bind [OF wf_func_type_parse(1) [OF wf]] res_ok_bind [OF push_types_ok] enter)
qed

section \<open>Linking\<close>

text \<open>Linking writes only \<open>next_idx\<close>, and the index of a slot depends only on the addresses in the table.\<close>

definition link_idx :: "jump_table list \<Rightarrow> nat \<Rightarrow> u16" where
  "link_idx xs i =
     (if sint (target_offset (xs ! i)) > 0 then link_forward xs (slot_target (xs ! i)) (next_idx (xs ! i)) (i + 1)
      else if i < 2 ^ 31 then link_backward xs (slot_target (xs ! i)) (next_idx (xs ! i)) i
      else next_idx (xs ! i))"

definition link_upd :: "jump_table list \<Rightarrow> nat \<Rightarrow> jump_table" where
  "link_upd xs i = (xs ! i)\<lparr>next_idx := link_idx xs i\<rparr>"

definition linked_upto :: "nat \<Rightarrow> jump_table list \<Rightarrow> jump_table list" where
  "linked_upto n xs = map (\<lambda>i. if i < n then link_upd xs i else xs ! i) [0..<length xs]"

lemma link_forward_cong:
  "map jt_pc xs = map jt_pc ys \<Longrightarrow> link_forward xs t idx j = link_forward ys t idx j"
proof (induction xs t idx j rule: link_forward.induct)
  case (1 xs t idx j)
  have len: "length xs = length ys"
    using map_eq_imp_length_eq [OF 1(2)] .
  have pc: "jt_pc (xs ! j) = jt_pc (ys ! j)" if "j < length ys"
    using 1(2) that len by (metis nth_map)
  show ?case
    using 1(1) [OF _ _ 1(2)] by (subst (1 2) link_forward.simps) (auto simp: len pc)
qed

lemma link_backward_cong:
  "map jt_pc xs = map jt_pc ys \<Longrightarrow> j < length xs \<Longrightarrow> link_backward xs t idx j = link_backward ys t idx j"
proof (induction j arbitrary: idx)
  case 0
  then show ?case
    by (subst (1 2) link_backward.simps) (metis map_eq_imp_length_eq nat.case(1) nth_map)
next
  case (Suc j)
  have "jt_pc (xs ! Suc j) = jt_pc (ys ! Suc j)"
    using Suc.prems by (metis map_eq_imp_length_eq nth_map)
  then show ?case
    using Suc by (subst (1 2) link_backward.simps) simp
qed

lemma linked_upto_simps [simp]:
  "length (linked_upto n xs) = length xs"
  "i < length xs \<Longrightarrow> linked_upto n xs ! i = (if i < n then link_upd xs i else xs ! i)"
  by (simp_all add: linked_upto_def)

lemma linked_upto_pc: "map jt_pc (linked_upto n xs) = map jt_pc xs"
  by (rule nth_equalityI) (simp_all add: link_upd_def)

lemma link_slot_ok:
  assumes "vec_is_valid jt" "vdata jt = linked_upto i xs" "i < length xs"
  shows "res_ok (\<lambda>jt'. vec_is_valid jt' \<and> vdata jt' = linked_upto (Suc i) xs) (link_slot i jt)"
proof -
  have "link_forward (linked_upto i xs) t k j = link_forward xs t k j" "link_backward (linked_upto i xs) t k i = link_backward xs t k i" for t k j
    using assms(3) linked_upto_pc [of i xs] by (auto intro!: link_forward_cong link_backward_cong)
  then have "link_slot i jt = vec_set jt i (link_upd xs i)"
    using assms(2,3) by (simp add: link_slot_def vec_at_def Let_def link_upd_def link_idx_def)
  moreover have "(linked_upto i xs)[i := link_upd xs i] = linked_upto (Suc i) xs"
    by (rule nth_equalityI) (use assms(3) in \<open>auto simp: nth_list_update less_Suc_eq\<close>)
  ultimately show ?thesis
    using assms by (auto intro!: res_ok_mono [OF vec_set_ok])
qed

lemma link_ok:
  assumes "vec_is_valid jt"
  shows "res_ok (\<lambda>jt'. vec_is_valid jt' \<and> vdata jt' = linked_upto (vec_size jt) (vdata jt)) (for_res 0 (vec_size jt) link_slot jt)"
proof -
  let ?I = "\<lambda>j jt'. vec_is_valid jt' \<and> vdata jt' = linked_upto j (vdata jt)"
  have start: "linked_upto 0 xs = xs" for xs
    by (rule nth_equalityI) simp_all
  have "res_ok (?I (0 + vec_size jt)) (for_res 0 (vec_size jt) link_slot jt)"
    by (rule for_res_ok_index) (use assms start in \<open>auto intro: link_slot_ok\<close>)
  then show ?thesis by simp
qed

lemma link_forward_range:
  "link_forward xs t idx j = idx \<or> (\<exists>k < length xs. j \<le> k \<and> link_forward xs t idx j = of_nat k)"
proof (induction xs t idx j rule: link_forward.induct)
  case (1 xs t idx j)
  then show ?case
    by (simp only: link_forward.simps [of xs t idx j]) (auto dest: Suc_leD)
qed

lemma link_backward_range:
  "link_backward xs t idx j = idx \<or> (\<exists>k \<le> j. link_backward xs t idx j = of_nat k)"
proof (induction j arbitrary: idx)
  case 0
  then show ?case
    by (subst (1 2) link_backward.simps) auto
next
  case (Suc j)
  show ?case
    using Suc.IH [of "of_nat (Suc j)"] by (subst (1 2) link_backward.simps) (auto intro: le_SucI simp del: of_nat_Suc)
qed

lemma link_idx_range:
  assumes "i < length xs"
  shows "link_idx xs i = next_idx (xs ! i) \<or> unat (link_idx xs i) < length xs"
proof -
  let ?t = "slot_target (xs ! i)" and ?n = "next_idx (xs ! i)"
  have fit: "unat (of_nat k :: u16) < length xs" if "k < length xs" for k
    using that by (simp add: unat_of_nat le_less_trans)
  have "link_forward xs ?t ?n (i + 1) = ?n \<or> unat (link_forward xs ?t ?n (i + 1)) < length xs"
    using link_forward_range [of xs ?t ?n "i + 1"] fit by metis
  moreover have "link_backward xs ?t ?n i = ?n \<or> unat (link_backward xs ?t ?n i) < length xs"
    using link_backward_range [of xs ?t ?n i] fit assms by (metis le_less_trans)
  ultimately show ?thesis
    by (simp add: link_idx_def)
qed

lemma linked_slot_ok:
  assumes "list_all (slot_ok code) xs" "s \<in> set (linked_upto n xs)"
  shows "unat (jt_pc s) \<le> length code \<and> unat (slot_target s) \<le> length code \<and>
    (next_idx s = JUMP_TABLE_IDX_INVALID \<or> unat (next_idx s) < length xs)"
proof -
  obtain i where i: "i < length xs" "s = (if i < n then link_upd xs i else xs ! i)"
    using assms(2) by (auto simp: linked_upto_def)
  then show ?thesis
    using assms(1) link_idx_range [OF i(1)] by (auto simp: list_all_length slot_ok_def link_upd_def slot_target_def)
qed

text \<open>What the last callback leaves in the function.\<close>

definition finished :: "alloc \<Rightarrow> str \<Rightarrow> validator_context \<Rightarrow> func \<Rightarrow> bool" where
  "finished am code ctx f \<longleftrightarrow> vdata (f_jt f) = linked_upto (vec_size (jt_of ctx)) (vdata (jt_of ctx)) \<and>
     f_stack_size_max f = stack_size_max ctx \<and>
     f\<lparr>f_jt := vec_empty, f_stack_size_max := 0\<rparr> = (vc_f ctx)\<lparr>f_jt := vec_empty, f_stack_size_max := 0\<rparr>"

lemma end_ok:
  assumes "vinv am code ctx"
  shows "res_ok (\<lambda>ctx'. finished am code ctx (vc_f ctx')) (validator_on_decode_end am ctx)"
proof -
  have jt: "vec_is_valid (jt_of ctx)"
    using assms by (simp add: vinv_def)
  show ?thesis
    unfolding validator_on_decode_end_def Let_def
    by (rule res_ok_bind [OF vec_shrink_to_fit_ok [OF jt]], rule res_ok_bind [OF link_ok])
      (auto simp: finished_def set_jt_def)
qed

section \<open>Runs of the validator\<close>

text \<open>The states at the head of the decoding loop when a function is validated.\<close>

definition validates :: "alloc \<Rightarrow> module \<Rightarrow> func \<Rightarrow> stream \<Rightarrow> validator_context \<Rightarrow> bool" where
  "validates am m f st ctx \<longleftrightarrow> (\<exists>ctx0. validator_on_decode_begin am (validator_context_zero m f) = Inr ctx0 \<and>
     reaches (validator_callbacks am) m (stream_from (f_code f)) ctx0 st ctx)"

lemma at_code_start: "vld.at_code (f_code f) (stream_from (f_code f))"
  by (simp add: vld.at_code_def stream_from_def stream_is_valid_def)

lemma vinv_preserved:
  assumes "length code < 2 ^ 32"
  shows "vld.preserved am m code (\<lambda>st ctx. vinv am code ctx \<and> only_jt am ctx0 ctx)"
  unfolding vld.preserved_def
  using callbacks_out [OF _ _ assms] by (fastforce dest: res_outD simp: stepped_def intro: only_jt_trans)

lemma validates_vinv:
  assumes "validates am m f st ctx" "func_ready m f"
  shows "vld.at_code (f_code f) st \<and> vinv am (f_code f) ctx \<and> only_jt am (validator_context_zero m f) ctx"
proof -
  obtain ctx0 where b: "validator_on_decode_begin am (validator_context_zero m f) = Inr ctx0"
    "reaches (validator_callbacks am) m (stream_from (f_code f)) ctx0 st ctx"
    using assms(1) by (auto simp: validates_def)
  have inv: "vinv am (f_code f) ctx0 \<and> only_jt am (validator_context_zero m f) ctx0"
    using res_okD [OF begin_ok [OF assms(2)] b(1)] by simp
  have ready: "length (f_code f) < 2 ^ 32" "wf_types (func_types m)"
    using assms(2) by (simp_all add: func_ready_def sigs_ok_def)
  show ?thesis
    by (rule vld.reaches_invariant [OF b(2) at_code_start, where Inv = "\<lambda>st ctx. vinv am (f_code f) ctx \<and> only_jt am (validator_context_zero m f) ctx"])
      (use inv ready vinv_preserved in auto)
qed

lemma reaches_loop:
  assumes "reaches cb m st0 c0 st c" "decode_loop cb m st0 c0 = r"
  shows "decode_loop cb m st c = r"
  using assms
proof (induction arbitrary: r)
  case (step st c st' c')
  then show ?case
    by (simp add: decode_loop.simps [of cb m st c])
qed simp

lemma validate_func_result:
  assumes "validate_func am m f = Inr f'" "func_ready m f"
  obtains ctx0 ctx where
    "validator_on_decode_begin am (validator_context_zero m f) = Inr ctx0"
    "decode_loop (validator_callbacks am) m (stream_from (f_code f)) ctx0 = Inr ctx"
    "vinv am (f_code f) ctx" "only_jt am (validator_context_zero m f) ctx" "finished am (f_code f) ctx f'"
proof -
  obtain ctx0 ctx ctx' where b: "validator_on_decode_begin am (validator_context_zero m f) = Inr ctx0"
    "decode_loop (validator_callbacks am) m (stream_from (f_code f)) ctx0 = Inr ctx"
    "validator_on_decode_end am ctx = Inr ctx'" "f' = vc_f ctx'"
    using assms(1) by (auto simp: validate_func_def decode_function_def res_simps)
  have inv: "vinv am (f_code f) ctx0 \<and> only_jt am (validator_context_zero m f) ctx0"
    using res_okD [OF begin_ok [OF assms(2)] b(1)] by simp
  have ready: "length (f_code f) < 2 ^ 32" "wf_types (func_types m)"
    using assms(2) by (simp_all add: func_ready_def sigs_ok_def)
  have "\<exists>st. vld.at_code (f_code f) st \<and> vinv am (f_code f) ctx \<and> only_jt am (validator_context_zero m f) ctx"
    by (rule vld.loop_result [OF b(2) at_code_start, where Inv = "\<lambda>st ctx. vinv am (f_code f) ctx \<and> only_jt am (validator_context_zero m f) ctx"])
      (use inv ready vinv_preserved in auto)
  then show ?thesis
    using that [OF b(1,2)] b(3,4) res_okD [OF end_ok b(3)] by blast
qed

section \<open>Example functions\<close>

lemma returned: "(case r of Inl _ \<Rightarrow> False | Inr x \<Rightarrow> P x) \<Longrightarrow> \<exists>x. r = Inr x \<and> P x"
  by (cases r) simp_all

text \<open>Functions of type \<open>() \<rightarrow> ()\<close> in a module of their own, for the witnesses.\<close>

definition example_func :: "str \<Rightarrow> func" where
  "example_func code = func_zero\<lparr>fn_type := func_type_zero, f_code := code\<rparr>"

definition example_module :: module where
  "example_module = module_zero\<lparr>func_types := \<lparr>vdata = [func_type_zero], vcap = 1, vnonnull = True, vfixed = False\<rparr>\<rparr>"

definition example_alloc :: alloc where
  "example_alloc t n = (n < 100)"

text \<open>\<open>block; i32.const 7; drop; br 0; end; end\<close>\<close>

definition example_code :: str where
  "example_code = [0x02, 0x40, 0x41, 0x07, 0x1a, 0x0c, 0x00, 0x0b, 0x0b]"

lemma example_ready: "length code < 2 ^ 32 \<Longrightarrow> func_ready example_module (example_func code)"
  by (simp add: func_ready_def example_func_def example_module_def sigs_ok_def wf_types_def module_zero_def func_zero_def
      func_type_zero_def wf_func_type_def wf_type_str_def vec_is_valid_def)

lemma example_small: "small_types example_alloc"
  by (simp add: small_types_def example_alloc_def)

section \<open>Properties\<close>



text \<open>
  C10.  The stack bound: at every point that the validation reaches, the number of values on
  the operand stack is at most the bound stored in the function, provided that no
  vector of \<open>2\<^sup>3\<^sup>2\<close> types is ever granted (the bound has 32 bits).
\<close>

theorem stack_bound:
  assumes "func_ready m f" "validate_func am m f = Inr f'" "small_types am" "validates am m f st ctx"
  shows "vec_size (val_stack ctx) \<le> unat (f_stack_size_max f')"
proof -
  obtain ctx0 ctx1 where r: "validator_on_decode_begin am (validator_context_zero m f) = Inr ctx0"
    "decode_loop (validator_callbacks am) m (stream_from (f_code f)) ctx0 = Inr ctx1" "finished am (f_code f) ctx1 f'"
    using validate_func_result [OF assms(2,1)] by metis
  have inv: "vld.at_code (f_code f) st" "vinv am (f_code f) ctx"
    using validates_vinv [OF assms(4,1)] by simp_all
  have "reaches (validator_callbacks am) m (stream_from (f_code f)) ctx0 st ctx"
    using assms(4) r(1) by (auto simp: validates_def)
  then have loop: "decode_loop (validator_callbacks am) m st ctx = Inr ctx1"
    using r(2) by (rule reaches_loop)
  have ready: "length (f_code f) < 2 ^ 32" "wf_types (func_types m)"
    using assms(1) by (simp_all add: func_ready_def sigs_ok_def)
  have "\<exists>st. vld.at_code (f_code f) st \<and> vinv am (f_code f) ctx1 \<and> only_jt am ctx ctx1"
    by (rule vld.loop_result [OF loop inv(1), where Inv = "\<lambda>st c. vinv am (f_code f) c \<and> only_jt am ctx c"])
      (use inv ready vinv_preserved in auto)
  then have "stack_size_max ctx \<le> f_stack_size_max f'"
    using r(3) assms(3) by (auto simp: only_jt_def finished_def)
  then show ?thesis
    using inv(2) assms(3) by (auto simp: vinv_def stack_ok_def word_le_nat_alt)
qed

theorem stack_bound_witness:
  "\<exists>f' st ctx. func_ready example_module (example_func example_code) \<and> small_types example_alloc \<and>
     validate_func example_alloc example_module (example_func example_code) = Inr f' \<and>
     validates example_alloc example_module (example_func example_code) st ctx \<and>
     vec_size (val_stack ctx) = 1 \<and> 1 \<le> unat (f_stack_size_max f')"
proof -
  let ?cb = "validator_callbacks example_alloc" and ?m = example_module and ?f = "example_func example_code"
  have ok: "func_ready ?m ?f"
    by (rule example_ready) (simp add: example_code_def)
  have run: "case validator_on_decode_begin example_alloc (validator_context_zero ?m ?f) of Inl _ \<Rightarrow> False | Inr c0 \<Rightarrow>
      (case decode_step ?cb ?m (stream_from (f_code ?f)) c0 of Inl _ \<Rightarrow> False | Inr (fin1, st1, c1) \<Rightarrow>
        \<not> fin1 \<and> (case decode_step ?cb ?m st1 c1 of Inl _ \<Rightarrow> False | Inr (fin2, st2, c2) \<Rightarrow> \<not> fin2 \<and> vec_size (val_stack c2) = 1))"
    by code_simp
  then obtain c0 st1 c1 st2 c2 where steps: "validator_on_decode_begin example_alloc (validator_context_zero ?m ?f) = Inr c0"
      "decode_step ?cb ?m (stream_from (f_code ?f)) c0 = Inr (False, st1, c1)" "decode_step ?cb ?m st1 c1 = Inr (False, st2, c2)"
      "vec_size (val_stack c2) = 1"
    by (auto dest!: returned)
  have v: "validates example_alloc ?m ?f st2 c2"
    using steps(1) reaches.step [OF reaches.step [OF reaches.start steps(2)] steps(3)] by (auto simp: validates_def)
  have "case validate_func example_alloc ?m ?f of Inl _ \<Rightarrow> False | Inr _ \<Rightarrow> True"
    by code_simp
  then obtain f' where f': "validate_func example_alloc ?m ?f = Inr f'"
    by (auto dest!: returned)
  show ?thesis
    using ok f' v steps(4) example_small stack_bound [OF ok f' example_small v] by auto
qed



end
