(* ===== verification/Jump_Table.thy ===== *)
theory Jump_Table
  imports Validator_Correct
begin

text \<open>
  The jump table that the validator builds (src/src/runtime/validator.c) for the in-place
  interpreters: its slots are in the order of their addresses, and the link of a slot is
  the first slot behind its target, which is what lets an interpreter advance
  through the table with the program counter.
\<close>

section \<open>The addresses a handler adds\<close>

definition pcs :: "validator_context \<Rightarrow> u32 list" where
  "pcs ctx = map jt_pc (vdata (jt_of ctx))"

definition adds :: "u32 set \<Rightarrow> validator_context \<Rightarrow> validator_context res \<Rightarrow> bool" where
  "adds P ctx m \<longleftrightarrow> (vec_is_valid (jt_of ctx) \<longrightarrow> (\<forall>ctx'. m = Inr ctx' \<longrightarrow>
     vec_is_valid (jt_of ctx') \<and> (\<exists>ys. pcs ctx' = pcs ctx @ ys \<and> set ys \<subseteq> P)))"

lemma adds_Inl [simp]: "adds P ctx (Inl e)"
  by (simp add: adds_def)

lemma adds_same: "jt_of ctx' = jt_of ctx \<Longrightarrow> adds P ctx (Inr ctx')"
  by (simp add: adds_def pcs_def)

lemma adds_from: "adds P ctx m \<Longrightarrow> jt_of ctx = jt_of ctx0 \<Longrightarrow> adds P ctx0 m"
  by (simp add: adds_def pcs_def)

lemma adds_pure: "(\<And>x. m = Inr x \<Longrightarrow> adds P ctx (f x)) \<Longrightarrow> adds P ctx (unwrap m f)"
  by (cases m) simp_all

lemma adds_if: "(b \<Longrightarrow> adds P ctx m) \<Longrightarrow> (\<not> b \<Longrightarrow> adds P ctx m') \<Longrightarrow> adds P ctx (if b then m else m')"
  by simp

lemma adds_bind:
  assumes "adds P ctx m" "\<And>c. m = Inr c \<Longrightarrow> adds P c (f c)"
  shows "adds P ctx (unwrap m f)"
proof (cases m)
  case (Inr c)
  have first: "vec_is_valid (jt_of ctx) \<Longrightarrow> vec_is_valid (jt_of c) \<and> (\<exists>ys. pcs c = pcs ctx @ ys \<and> set ys \<subseteq> P)"
    using assms(1) Inr by (simp add: adds_def)
  have "adds P c (f c)"
    using assms(2) Inr by simp
  then show ?thesis
    unfolding adds_def Inr unwrap_Inr using first by (metis append.assoc set_append Un_least)
qed simp

text \<open>The operations on the stacks leave the jump table alone.\<close>

definition still :: "validator_context \<Rightarrow> validator_context res \<Rightarrow> bool" where
  "still ctx m \<longleftrightarrow> (\<forall>ctx'. m = Inr ctx' \<longrightarrow> jt_of ctx' = jt_of ctx)"

lemma still_adds: "still ctx m \<Longrightarrow> adds P ctx m"
  by (simp add: still_def adds_def pcs_def)

lemma still_simps [simp]: "still ctx (Inl e)" "still ctx (Inr ctx') \<longleftrightarrow> jt_of ctx' = jt_of ctx"
  by (simp_all add: still_def)

lemma still_pure: "(\<And>x. m = Inr x \<Longrightarrow> still ctx (f x)) \<Longrightarrow> still ctx (unwrap m f)"
  by (cases m) simp_all

lemma still_bind: "still ctx m \<Longrightarrow> (\<And>c. m = Inr c \<Longrightarrow> jt_of c = jt_of ctx \<Longrightarrow> still c (f c)) \<Longrightarrow> still ctx (unwrap m f)"
  by (cases m) (auto simp: still_def)

lemma push_val_still: "still ctx (push_val am t ctx)"
  by (auto simp: still_def dest: push_val_only_stack)

lemma push_vals_still: "still ctx (push_vals am ts ctx)"
  by (auto simp: still_def dest: push_vals_only_stack)

lemma pop_val_jt: "pop_val ctx = Inr (t, ctx') \<Longrightarrow> jt_of ctx' = jt_of ctx"
  by (auto simp: pop_val_def res_simps split: if_splits)

lemma pop_val_expect_jt: "pop_val_expect e ctx = Inr (t, ctx') \<Longrightarrow> jt_of ctx' = jt_of ctx"
  by (auto simp: pop_val_expect_def res_simps dest!: pop_val_jt split: if_splits)

lemma pop_expect_still: "still ctx (pop_expect e ctx)"
  by (auto simp: still_def pop_expect_def res_simps dest: pop_val_expect_jt)

lemma pop_vals_to_vec_jt: "pop_vals_to_vec am ts ctx = Inr (vs, ctx') \<Longrightarrow> jt_of ctx' = jt_of ctx"
proof -
  have "foreach_res (\<lambda>v (popped_vals, ctx). unwrap (pop_val_expect v ctx) (\<lambda>(t, ctx).
      unwrap (vec_push (am T_type_id) popped_vals t) (\<lambda>popped_vals. Inr (popped_vals, ctx)))) xs (vs0, ctx) = Inr (vs, ctx')
      \<Longrightarrow> jt_of ctx' = jt_of ctx" for xs vs0 ctx
    by (induction xs arbitrary: vs0 ctx) (auto simp: res_simps dest!: pop_val_expect_jt)
  then show "pop_vals_to_vec am ts ctx = Inr (vs, ctx') \<Longrightarrow> ?thesis"
    by (simp add: pop_vals_to_vec_def)
qed

lemma pop_vals_still: "still ctx (pop_vals am ts ctx)"
  by (auto simp: still_def pop_vals_def res_simps dest: pop_vals_to_vec_jt)

lemma unreachable_still: "still ctx (unreachable am ctx)"
  by (auto simp: still_def unreachable_def res_simps split: if_splits)

lemma push_ctrl_still: "still ctx (push_ctrl am bt ft ctx)"
  unfolding push_ctrl_def by (intro still_pure) (use push_vals_still in \<open>auto simp: still_def\<close>)

lemma pop_ctrl_jt: "pop_ctrl am ctx = Inr (fr, ctx') \<Longrightarrow> jt_of ctx' = jt_of ctx"
  by (auto simp: pop_ctrl_def res_simps split: if_splits dest!: pop_vals_still [unfolded still_def, rule_format])

lemmas stills = push_val_still push_vals_still pop_expect_still pop_vals_still unreachable_still push_ctrl_still

section \<open>Handlers\<close>

lemma cb_u32_still: "still ctx (validator_cb_u32 am k x ctx)"
  by (cases k)
    (auto intro!: still_pure stills still_bind [OF pop_expect_still] still_bind [OF pop_vals_still] simp: Let_def
      still_def [of _ "push_vals _ _ (_ \<lparr>stack_size_max := _\<rparr>)"] pop_three_i32_def
      validator_on_call_def
      validator_on_local_get_def validator_on_local_set_def validator_on_local_tee_def validator_on_global_get_def
      validator_on_global_set_def validator_on_table_get_def validator_on_table_set_def validator_on_ref_func_def
      validator_on_memory_init_def validator_on_data_drop_def validator_on_elem_drop_def validator_on_table_grow_def
      validator_on_table_size_def validator_on_table_fill_def dest!: push_vals_only_stack)

lemma simple_still:
  "still ctx (POP1_PUSH am t t' ctx)" "still ctx (POP2_PUSH am t t' ctx)" "still ctx (pop_three_i32 ctx)"
  "still ctx (validator_on_return am ctx)" "still ctx (validator_on_select_t am u ctx)" "still ctx (validator_on_call_indirect am x y ctx)"
  "still ctx (validator_on_memory_grow am ctx)"
  by (auto intro!: still_pure stills still_bind [OF pop_expect_still] still_bind [OF pop_vals_still]
      simp: POP1_PUSH_def POP2_PUSH_def pop_three_i32_def validator_on_return_def validator_on_select_t_def
        validator_on_call_indirect_def validator_on_memory_grow_def)

lemma pop_val_bind_still:
  assumes "\<And>t c. still c (f (t, c))"
  shows "still ctx (unwrap (pop_val ctx) f)"
proof (rule still_pure)
  fix x assume x: "pop_val ctx = Inr x"
  obtain t c where tc: "x = (t, c)" by fastforce
  then have "jt_of c = jt_of ctx"
    using pop_val_jt x by simp
  then show "still ctx (f x)"
    using assms [of c t] by (simp add: tc still_def)
qed

lemma drop_select_still: "still ctx (validator_on_drop ctx)" "still ctx (validator_on_select am ctx)"
proof -
  show "still ctx (validator_on_drop ctx)"
    by (auto simp: validator_on_drop_def intro: pop_val_bind_still)
  show "still ctx (validator_on_select am ctx)"
    unfolding validator_on_select_def
    by (rule still_bind [OF pop_expect_still], rule pop_val_bind_still, simp only: prod.case, rule pop_val_bind_still)
      (simp add: push_val_still)
qed

lemma table_ops_still:
  "still ctx (validator_on_table_init x y ctx)" "still ctx (validator_on_table_copy x y ctx)" "still ctx (validator_on_memory_copy ctx)"
  by (auto intro!: still_pure simple_still simp: validator_on_table_init_def validator_on_table_copy_def validator_on_memory_copy_def)

lemma load_store_still: "still ctx (validator_on_memory_load_store am op align offset ctx)"
  by (auto intro!: stills still_bind [OF pop_expect_still] simp: validator_on_memory_load_store_def MEM_LOAD_def MEM_STORE_def)

lemma numeric_still:
  "still ctx (validator_on_itestop am op ctx)" "still ctx (validator_on_iunop am op ctx)"
  "still ctx (validator_on_irelop am op ctx)" "still ctx (validator_on_ibinop am op ctx)"
  "still ctx (validator_on_funop am op ctx)" "still ctx (validator_on_frelop am op ctx)"
  "still ctx (validator_on_fbinop am op ctx)" "still ctx (validator_on_wrapop am ctx)"
  "still ctx (validator_on_truncop am op ctx)" "still ctx (validator_on_convertop am op ctx)"
  "still ctx (validator_on_rankop am op ctx)" "still ctx (validator_on_reinterpretop am op ctx)"
  "still ctx (validator_on_extendop am op ctx)" "still ctx (validator_on_trunc_sat am op' ctx)"
  "still ctx (validator_on_ref_is_null am ctx)"
  by (simp_all add: simple_still validator_on_itestop_def validator_on_iunop_def validator_on_irelop_def validator_on_ibinop_def
      validator_on_funop_def validator_on_frelop_def validator_on_fbinop_def validator_on_wrapop_def validator_on_truncop_def
      validator_on_convertop_def validator_on_rankop_def validator_on_reinterpretop_def validator_on_extendop_def
      validator_on_trunc_sat_def validator_on_ref_is_null_def)

lemma push_slot_adds:
  assumes "pc \<in> P"
  shows "adds P ctx (push_slot am i pc so ar ctx)"
  unfolding push_slot_def
proof (rule adds_pure)
  fix jt
  assume jt: "vec_push (am T_jump_table) (jt_of ctx)
      \<lparr>jt_pc = pc, target_offset = 0, stack_offset = so, jt_arity = ar, next_idx = JUMP_TABLE_IDX_INVALID\<rparr> = Inr jt"
  show "adds P ctx (unwrap (vec_at (ctrl_stack ctx) i) (\<lambda>frame.
      unwrap (vec_push (am T_u32) (pending_jt_slots frame) (word_of_nat (vec_size jt - 1))) (\<lambda>slots.
      unwrap (vec_set (ctrl_stack ctx) i (frame\<lparr>pending_jt_slots := slots\<rparr>)) (\<lambda>cs.
      Inr ((set_jt ctx jt)\<lparr>ctrl_stack := cs\<rparr>)))))"
    by (intro adds_pure) (use assms vec_size_push [OF jt] in \<open>auto simp: adds_def pcs_def\<close>)
qed

lemma resolve_slot_pcs:
  "resolve_slot t i jt = Inr jt' \<Longrightarrow> map jt_pc (vdata jt') = map jt_pc (vdata jt) \<and> (vec_is_valid jt \<longrightarrow> vec_is_valid jt')"
  by (auto simp: resolve_slot_def update_at_def vec_at_def vec_set_def map_update vec_is_valid_def list_update_same_conv split: if_splits)

lemma resolve_adds: "adds P ctx (unwrap (resolve_slot t i (jt_of ctx)) (\<lambda>jt. Inr (set_jt ctx jt)))"
  by (rule adds_pure) (auto simp: adds_def pcs_def dest!: resolve_slot_pcs)

lemma block_adds:
  assumes "imm_offset imm \<in> P"
  shows "adds P ctx (validator_on_block am op imm ft ctx)"
proof -
  have first: "adds P ctx (if op = 0x04 then pop_expect TYPE_ID_i32 ctx else Inr ctx)"
    by (simp add: adds_same still_adds [OF pop_expect_still])
  have last: "adds P c (unwrap (update_back (ctrl_stack c) g) (\<lambda>cs. Inr (c\<lparr>ctrl_stack := cs\<rparr>)))" for c g
    by (rule adds_pure, rule adds_same) simp
  show ?thesis
    unfolding validator_on_block_def Let_def
    by (rule adds_bind [OF first], rule adds_pure, rule adds_bind [OF still_adds [OF pop_vals_still]],
        rule adds_bind [OF still_adds [OF push_ctrl_still]])
      (intro adds_if last push_slot_adds assms adds_same refl)
qed

lemma for_adds:
  assumes "\<And>j c. adds P c (body j c)"
  shows "adds P ctx (for_res i n body ctx)"
proof (induction n arbitrary: i ctx)
  case (Suc n)
  show ?case
    by (simp, rule adds_bind [OF assms]) (rule Suc.IH)
qed (simp add: adds_same)

lemma pop_ctrl_adds:
  assumes "\<And>fr c. adds P c (f (fr, c))"
  shows "adds P ctx (unwrap (pop_ctrl am ctx) f)"
proof (rule adds_pure)
  fix x assume x: "pop_ctrl am ctx = Inr x"
  obtain fr c where frc: "x = (fr, c)" by fastforce
  show "adds P ctx (f x)"
    unfolding frc by (rule adds_from [OF assms]) (use pop_ctrl_jt x frc in simp)
qed

lemma else_adds:
  assumes "imm_offset imm \<in> P"
  shows "adds P ctx (validator_on_else am imm ctx)"
proof -
  have step: "adds P c (else_slot_step am (imm_offset imm) slots j c)" for slots j c
    unfolding else_slot_step_def by (rule adds_pure, rule adds_if, rule resolve_adds) (intro adds_pure adds_same, simp)
  show ?thesis
    unfolding validator_on_else_def Let_def
    by (rule adds_pure, rule adds_if, simp, rule pop_ctrl_adds, simp only: prod.case, rule adds_bind [OF still_adds [OF push_ctrl_still]],
        rule adds_bind [OF for_adds [OF step]], rule adds_pure, rule push_slot_adds [OF assms])
qed

lemma end_slots_pcs:
  "foreach_res (end_slot_step cf imm) xs jt = Inr jt' \<Longrightarrow> map jt_pc (vdata jt') = map jt_pc (vdata jt) \<and> (vec_is_valid jt \<longrightarrow> vec_is_valid jt')"
proof (induction xs arbitrary: jt)
  case (Cons x xs)
  have upd: "update_at jt (unat i) (\<lambda>rec. rec\<lparr>target_offset := g rec\<rparr>) = Inr jt' \<Longrightarrow>
      map jt_pc (vdata jt') = map jt_pc (vdata jt) \<and> (vec_is_valid jt \<longrightarrow> vec_is_valid jt')" for i jt jt' g
    by (auto simp: update_at_def vec_at_def vec_set_def map_update vec_is_valid_def list_update_same_conv split: if_splits)
  from Cons show ?case
    by (auto simp: res_simps end_slot_step_def dest!: resolve_slot_pcs upd split: if_splits)
qed simp

lemma end_adds: "adds P ctx (validator_on_end am imm ctx)"
  unfolding validator_on_end_def
proof (rule pop_ctrl_adds, simp only: prod.case, rule adds_pure)
  fix cf c jt assume "foreach_res (end_slot_step cf imm) (vdata (pending_jt_slots cf)) (jt_of c) = Inr jt"
  then have jt: "map jt_pc (vdata jt) = pcs c" "vec_is_valid (jt_of c) \<Longrightarrow> vec_is_valid jt"
    using end_slots_pcs by (auto simp: pcs_def)
  show "adds P c (push_vals am (end_types cf) (set_jt c jt))"
    using jt by (auto simp: adds_def pcs_def dest!: push_vals_only_stack)
qed

lemma br_or_if_adds:
  assumes "imm_offset imm \<in> P"
  shows "adds P ctx (validator_on_br_or_if am op imm lth ctx)"
proof -
  have first: "adds P ctx (if op = 0x0d then pop_expect TYPE_ID_i32 ctx else Inr ctx)"
    by (simp add: adds_same still_adds [OF pop_expect_still])
  show ?thesis
    unfolding validator_on_br_or_if_def Let_def
    by (rule adds_if, simp, rule adds_bind [OF first], rule adds_pure, rule adds_pure, rule adds_bind [OF push_slot_adds [OF assms]],
        rule adds_bind [OF still_adds [OF pop_vals_still]])
      (simp add: still_adds [OF unreachable_still] still_adds [OF push_vals_still])
qed

text \<open>The position behind the labels of a branch table.\<close>

definition table_end :: "stream \<Rightarrow> stream \<Rightarrow> bool" where
  "table_end imm pc \<longleftrightarrow> (\<exists>len st ctx m. stream_read_vu32 imm = Inr (len, st) \<and>
     for_res 0 (unat (len + 1)) (br_table_pass1 len ctx) (st, None) = Inr (pc, m))"

lemma pass2_adds:
  assumes "imm_offset pc \<in> P"
  shows "for_res i n (br_table_pass2 am arity pc) (imm, ctx) = Inr (imm', ctx') \<Longrightarrow> adds P ctx (Inr ctx')"
proof (induction n arbitrary: i imm ctx)
  case 0
  then show ?case by (simp add: adds_same)
next
  case (Suc n)
  then obtain imm1 c1 where s: "br_table_pass2 am arity pc i (imm, ctx) = Inr (imm1, c1)"
    "for_res (Suc i) n (br_table_pass2 am arity pc) (imm1, c1) = Inr (imm', ctx')"
    by (auto simp: res_simps)
  have "adds P ctx (Inr c1)"
  proof -
    obtain idx so ar c where p: "push_slot am idx (imm_offset pc) so ar ctx = Inr c" "jt_of c1 = jt_of c"
      using s(1) by (auto simp: br_table_pass2_def res_simps dest!: pop_vals_to_vec_jt push_vals_only_stack split: if_splits)
    then show ?thesis
      using push_slot_adds [OF assms, of ctx am idx so ar] by (simp add: adds_def pcs_def)
  qed
  then show ?case
    using adds_bind [of P ctx "Inr c1" "\<lambda>_. Inr ctx'"] Suc.IH [OF s(2)] by simp
qed

lemma br_table_adds: "adds {imm_offset pc | pc. table_end imm pc} ctx (validator_on_br_table am imm ctx)"
  unfolding validator_on_br_table_def
proof (rule adds_bind [OF still_adds [OF pop_expect_still]], rule adds_pure, clarify, rule adds_pure, clarify)
  fix c1 len st pc m
  assume r: "stream_read_vu32 imm = Inr (len, st)" "for_res 0 (unat (len + 1)) (br_table_pass1 len c1) (st, None) = Inr (pc, m)"
  let ?P = "{imm_offset pc | pc. table_end imm pc}"
  have pc: "imm_offset pc \<in> ?P"
    using r by (auto simp: table_end_def)
  have rest: "adds ?P c1 (unwrap (for_res 0 n (br_table_pass2 am arity pc) (st, c1)) (\<lambda>(_, ctx).
      unwrap (vec_at (ctrl_stack ctx) k) (\<lambda>m_frame. unwrap (pop_vals am (label_types m_frame) ctx) (\<lambda>ctx. unreachable am ctx))))" for n arity k
  proof (rule adds_pure, clarify)
    fix imm' c2 assume "for_res 0 n (br_table_pass2 am arity pc) (st, c1) = Inr (imm', c2)"
    from adds_bind [OF pass2_adds [OF pc this], of "\<lambda>ctx. unwrap (vec_at (ctrl_stack ctx) k)
        (\<lambda>m_frame. unwrap (pop_vals am (label_types m_frame) ctx) (\<lambda>ctx. unreachable am ctx))"]
    show "adds ?P c1 (unwrap (vec_at (ctrl_stack c2) k) (\<lambda>m_frame. unwrap (pop_vals am (label_types m_frame) c2) (\<lambda>ctx. unreachable am ctx)))"
      by (simp add: adds_pure adds_bind [OF still_adds [OF pop_vals_still]] still_adds [OF unreachable_still])
  qed
  show "adds ?P c1 (case m of None \<Rightarrow> Inl Fault | Some m_idx \<Rightarrow> unwrap (vec_at (ctrl_stack c1) m_idx) (\<lambda>m_frame.
       let arity = vec_size (label_types m_frame) in
       unwrap (for_res 0 (unat (len + 1)) (br_table_pass2 am arity pc) (st, c1)) (\<lambda>(_, ctx).
       unwrap (vec_at (ctrl_stack ctx) m_idx) (\<lambda>m_frame. unwrap (pop_vals am (label_types m_frame) ctx) (\<lambda>ctx. unreachable am ctx)))))"
    unfolding Let_def by (cases m) (simp_all add: adds_pure rest del: vec_size_length)
qed

text \<open>
  The decoder skips one byte per label of a branch table, the validator reads each as an
  LEB128 number: they agree when every label has one byte.
\<close>

definition short_table :: "stream \<Rightarrow> bool" where
  "short_table imm \<longleftrightarrow> (\<forall>len st. stream_read_vu32 imm = Inr (len, st) \<longrightarrow> (\<forall>k < unat (len + 1). byte_at st k AND 0x80 = 0))"

lemma read_vu32_short:
  "stream_read_vu32 st = Inr (l, st') \<Longrightarrow> byte_at st 0 AND 0x80 = 0 \<Longrightarrow> st' = stream_advance st 1"
  by (auto simp: stream_read_vu32_def stream_read_leb_unsigned_def leb_unsigned_loop.simps [of st 0] Let_def split: if_splits)

lemma pass1_short:
  assumes "for_res i n (br_table_pass1 len ctx) (st, m0) = Inr (pc, m)" "\<forall>k < n. byte_at st k AND 0x80 = 0"
  shows "st_p pc = st_p st + n"
  using assms
proof (induction n arbitrary: i st m0)
  case (Suc n)
  obtain st1 m1 where s: "br_table_pass1 len ctx i (st, m0) = Inr (st1, m1)"
    "for_res (Suc i) n (br_table_pass1 len ctx) (st1, m1) = Inr (pc, m)"
    using Suc.prems(1) by (auto simp: res_simps)
  obtain l where "stream_read_vu32 st = Inr (l, st1)"
    using s(1) by (auto simp: br_table_pass1_def res_simps split: if_splits)
  then have st1: "st1 = stream_advance st 1"
    using Suc.prems(2) by (intro read_vu32_short) auto
  have "\<forall>k < n. byte_at st1 k AND 0x80 = 0"
    using Suc.prems(2) by (auto simp: st1 stream_advance_def)
  then show ?case
    using Suc.IH [OF s(2)] by (simp add: st1 stream_advance_def)
qed simp

lemma callbacks_adds:
  assumes "event_ok code e" "event_at op st e"
  shows "adds (if op = 0x0e then {imm_offset pc | pc. table_end st pc} else {imm_offset st}) ctx (validator_callbacks am e ctx)"
proof (cases e)
  case (On_none k op' imm)
  show ?thesis
  proof (cases k)
    case on_br_table
    then show ?thesis
      using assms br_table_adds by (simp add: On_none plain_class_def split: if_splits)
  next
    case on_else
    then show ?thesis
      using assms On_none by (auto simp: plain_class_def intro!: else_adds)
  qed (use assms On_none in \<open>auto intro!: end_adds still_adds [OF unreachable_still] still_adds [OF push_val_still]
      adds_same numeric_still [THEN still_adds] simple_still [THEN still_adds] drop_select_still [THEN still_adds]
      simp: validator_on_memory_size_def\<close>)
next
  case (On_block op' imm ft)
  then show ?thesis
    using assms by (auto intro!: block_adds)
next
  case (On_br_or_if op' imm lth)
  then show ?thesis
    using assms by (auto intro!: br_or_if_adds)
qed (use assms in \<open>auto intro!: still_adds [OF cb_u32_still] still_adds [OF push_val_still] adds_same
      numeric_still [THEN still_adds] simple_still [THEN still_adds] table_ops_still [THEN still_adds] still_adds [OF load_store_still]
      simp: validator_on_ref_null_def split: cb_u32_u32.split cb_typeid.split cb_fc_none.split\<close>)

section \<open>Order\<close>

definition in_order :: "stream \<Rightarrow> validator_context \<Rightarrow> bool" where
  "in_order st ctx \<longleftrightarrow> sorted (pcs ctx) \<and> (\<forall>p \<in> set (pcs ctx). unat p \<le> st_p st)"

lemma in_order_append:
  assumes "in_order st ctx" "pcs ctx' = pcs ctx @ ys" "\<And>p. p \<in> set ys \<Longrightarrow> unat p = q" "st_p st \<le> q" "q \<le> st_p st'"
  shows "in_order st' ctx'"
proof -
  have eq: "p = p'" if "p \<in> set ys" "p' \<in> set ys" for p p'
    using assms(3) that by (metis word_unat_eq_iff)
  have "ys ! i \<le> ys ! j" if "i \<le> j" "j < length ys" for i j
    using eq [of "ys ! i" "ys ! j"] that by simp
  then have "sorted ys"
    by (simp add: sorted_iff_nth_mono)
  moreover have "p \<le> p'" if "p \<in> set (pcs ctx)" "p' \<in> set ys" for p p'
    using assms(1,3,4) that by (fastforce simp: in_order_def word_le_nat_alt)
  ultimately show ?thesis
    using assms by (fastforce simp: in_order_def sorted_append)
qed

lemma decode_step_table:
  assumes "decode_step cb m st c = Inr (fin, st', c')" "byte_at st 0 = 0x0e"
  shows "\<exists>len st2. stream_read_vu32 (stream_advance st 1) = Inr (len, st2) \<and> st_p st' = st_p st2 + unat (len + 1)"
  using assms
  by (auto simp: decode_step_def stream_read_u8_def stream_peek_u8_def decode_op_def plain_class_def index_event_def
      decode_control_def stream_seek_def Let_def res_simps nat_add_distrib split: if_splits)

lemma step_in_order:
  assumes step: "decode_step (validator_callbacks am) m st ctx = Inr (fin, st', ctx')"
    and at: "vld.at_code code st" and wf: "wf_types (func_types m)" and len: "length code < 2 ^ 32"
    and inv: "vinv am code ctx" "in_order st ctx"
    and short: "st_p st < length code \<Longrightarrow> byte_at st 0 = 0x0e \<Longrightarrow> short_table (stream_advance st 1)"
  shows "in_order st' ctx'"
proof -
  let ?op = "byte_at st 0" and ?st1 = "stream_advance st 1"
  obtain e where e: "event_ok code e" "event_at ?op ?st1 e" "validator_callbacks am e ctx = Inr ctx'" "vld.at_code code st'" "st_p st < st_p st'"
    using res_outD [OF vld.step_out [OF wf at] step] by (auto simp: vld.calls_def)
  have jt: "vec_is_valid (jt_of ctx)"
    using inv(1) by (simp add: vinv_def)
  define P where "P = (if ?op = 0x0e then {imm_offset pc | pc. table_end ?st1 pc} else {imm_offset ?st1})"
  obtain ys where ys: "pcs ctx' = pcs ctx @ ys" "set ys \<subseteq> P"
    using callbacks_adds [OF e(1,2), of ctx am] jt e(3) by (auto simp: adds_def P_def)
  have le: "st_p st' \<le> length code"
    using e(4) by (auto simp: vld.at_code_def stream_is_valid_def)
  have off: "unat (imm_offset pc) = st_p pc" if "st_p pc \<le> st_p st'" for pc
    using that le len by (simp add: imm_offset_def unat_of_nat)
  show ?thesis
  proof (cases "?op = 0x0e")
    case False
    show ?thesis
    proof (rule in_order_append [OF inv(2) ys(1)])
      show "unat p = st_p ?st1" if "p \<in> set ys" for p
        using that ys(2) False off [of ?st1] e(5) by (auto simp: P_def stream_advance_def)
    qed (use e(5) in \<open>auto simp: stream_advance_def\<close>)
  next
    case True
    obtain n st2 where r: "stream_read_vu32 ?st1 = Inr (n, st2)" "st_p st' = st_p st2 + unat (n + 1)"
      using decode_step_table [OF step True] by blast
    have "st_p pc = st_p st'" if t: "table_end ?st1 pc" for pc
    proof -
      obtain c k where p: "for_res 0 (unat (n + 1)) (br_table_pass1 n c) (st2, None) = Inr (pc, k)"
        using t r(1) by (auto simp: table_end_def)
      show ?thesis
        using pass1_short [OF p] short [OF _ True] r e(5) le by (auto simp: short_table_def)
    qed
    then have "unat p = st_p st'" if "p \<in> set ys" for p
      using that ys(2) True off by (auto simp: P_def)
    then show ?thesis
      using in_order_append [OF inv(2) ys(1)] e(5) by (metis less_imp_le order_refl)
  qed
qed

text \<open>Every \<open>br_table\<close> that the validation reaches has labels of one byte.\<close>

definition short_tables :: "alloc \<Rightarrow> module \<Rightarrow> func \<Rightarrow> bool" where
  "short_tables am m f \<longleftrightarrow> (\<forall>st ctx. validates am m f st ctx \<longrightarrow> st_p st < length (f_code f) \<longrightarrow> byte_at st 0 = 0x0e \<longrightarrow>
     short_table (stream_advance st 1))"

lemma validates_in_order:
  assumes "func_ready m f" "short_tables am m f" "validates am m f st ctx"
  shows "in_order st ctx"
proof -
  obtain ctx0 where b: "validator_on_decode_begin am (validator_context_zero m f) = Inr ctx0"
    and r: "reaches (validator_callbacks am) m (stream_from (f_code f)) ctx0 st ctx"
    using assms(3) by (auto simp: validates_def)
  have ready: "length (f_code f) < 2 ^ 32" "wf_types (func_types m)"
    using assms(1) by (simp_all add: func_ready_def sigs_ok_def)
  from r show ?thesis
  proof induction
    case start
    then show ?case
      using res_okD [OF begin_ok [OF assms(1)] b] by (simp add: in_order_def pcs_def)
  next
    case (step st c st' c')
    have v: "validates am m f st c"
      using b step.hyps(1) by (auto simp: validates_def)
    show ?case
      by (rule step_in_order [OF step.hyps(2) _ ready(2,1)])
        (use validates_vinv [OF v assms(1)] step.IH assms(2) v in \<open>auto simp: short_tables_def\<close>)
  qed
qed

lemma validate_func_sorted:
  assumes "func_ready m f" "short_tables am m f" "validate_func am m f = Inr f'"
  obtains ctx where "sorted (map jt_pc (vdata (jt_of ctx)))" "list_all (slot_ok (f_code f)) (vdata (jt_of ctx))"
    "vdata (f_jt f') = linked_upto (vec_size (jt_of ctx)) (vdata (jt_of ctx))"
proof -
  obtain ctx0 ctx1 where r: "validator_on_decode_begin am (validator_context_zero m f) = Inr ctx0"
    "decode_loop (validator_callbacks am) m (stream_from (f_code f)) ctx0 = Inr ctx1" "vinv am (f_code f) ctx1" "finished am (f_code f) ctx1 f'"
    using validate_func_result [OF assms(3,1)] by metis
  obtain st ctx st' where l: "reaches (validator_callbacks am) m (stream_from (f_code f)) ctx0 st ctx"
    "decode_step (validator_callbacks am) m st ctx = Inr (True, st', ctx1)"
    using decode_loop_reaches [OF reaches.start r(2)] by auto
  have v: "validates am m f st ctx"
    using r(1) l(1) by (auto simp: validates_def)
  have ready: "length (f_code f) < 2 ^ 32" "wf_types (func_types m)"
    using assms(1) by (simp_all add: func_ready_def sigs_ok_def)
  have "in_order st' ctx1"
    by (rule step_in_order [OF l(2) _ ready(2,1)])
      (use validates_vinv [OF v assms(1)] validates_in_order [OF assms(1,2) v] assms(2) v in \<open>auto simp: short_tables_def\<close>)
  then show ?thesis
    using that [of ctx1] r(3,4) by (simp add: in_order_def pcs_def vinv_def finished_def)
qed

section \<open>Links\<close>

text \<open>The first slot behind an address.\<close>

definition first_after :: "jump_table list \<Rightarrow> u32 \<Rightarrow> nat option" where
  "first_after xs t = find (\<lambda>j. jt_pc (xs ! j) > t) [0..<length xs]"

lemma link_forward_first:
  assumes "\<forall>k < j. jt_pc (xs ! k) \<le> t"
  shows "link_forward xs t idx j = (case first_after xs t of None \<Rightarrow> idx | Some k \<Rightarrow> of_nat k)"
  using assms
proof (induction xs t idx j rule: link_forward.induct)
  case (1 xs t idx j)
  show ?case
  proof (cases "j < length xs \<and> \<not> jt_pc (xs ! j) > t")
    case True
    then have "jt_pc (xs ! j) \<le> t"
      by (simp add: not_less)
    then show ?thesis
      using 1 True by (simp add: link_forward.simps [of xs t idx j] less_Suc_eq)
  next
    case False
    then consider "length xs \<le> j" | "j < length xs" "jt_pc (xs ! j) > t"
      by linarith
    then show ?thesis
    proof cases
      case 1
      then have "jt_pc (xs ! k) \<le> t" if "k < length xs" for k
        using \<open>\<forall>k<j. jt_pc (xs ! k) \<le> t\<close> that by simp
      then have "first_after xs t = None"
        by (fastforce simp: first_after_def find_None_iff not_less)
      then show ?thesis
        using 1 by (simp add: link_forward.simps [of xs t idx j])
    next
      case 2
      then have "first_after xs t = Some j"
        using \<open>\<forall>k<j. jt_pc (xs ! k) \<le> t\<close> unfolding first_after_def find_Some_iff
        by (intro exI [of _ j]) (auto simp: not_less)
      then show ?thesis
        using 2 by (simp add: link_forward.simps [of xs t idx j])
    qed
  qed
qed

lemma first_after_Some:
  assumes "k < length xs" "t < jt_pc (xs ! k)" "\<forall>j < k. jt_pc (xs ! j) \<le> t"
  shows "first_after xs t = Some k"
  using assms unfolding first_after_def find_Some_iff
  by (intro exI [of _ k]) (auto simp: not_less)

lemma link_backward_first:
  assumes "sorted (map jt_pc xs)" "j < length xs" "t < jt_pc (xs ! j)"
  shows "link_backward xs t idx j = (case first_after xs t of None \<Rightarrow> idx | Some k \<Rightarrow> of_nat k)"
  using assms(2,3)
proof (induction j arbitrary: idx)
  case 0
  then show ?case
    using first_after_Some [of 0] by (simp add: link_backward.simps [of xs t idx 0])
next
  case (Suc j)
  show ?case
  proof (cases "t < jt_pc (xs ! j)")
    case True
    moreover from this have "first_after xs t \<noteq> None"
      using Suc.prems by (auto simp: first_after_def find_None_iff)
    ultimately show ?thesis
      using Suc by (auto simp: link_backward.simps [of xs t idx "Suc j"] simp del: of_nat_Suc)
  next
    case False
    have "jt_pc (xs ! k) \<le> t" if "k < Suc j" for k
      using sorted_nth_mono [OF assms(1), of k j] that False Suc.prems by simp
    then have "first_after xs t = Some (Suc j)"
      using Suc.prems by (intro first_after_Some) auto
    then show ?thesis
      using Suc.prems False by (simp add: link_backward.simps [of xs t idx "Suc j"] link_backward.simps [of xs t _ j] del: of_nat_Suc)
  qed
qed

lemma sint_word_of_int: "- (2 ^ 31) \<le> k \<Longrightarrow> k < 2 ^ 31 \<Longrightarrow> sint (word_of_int k :: u32) = k"
  by (simp add: signed_of_int signed_take_bit_int_eq_self)

text \<open>An offset between two addresses below \<open>2\<^sup>3\<^sup>1\<close> has the sign of their difference.\<close>

lemma offset_sign:
  fixes p t :: u32
  assumes "unat p < 2 ^ 31" "unat (p + d) < 2 ^ 31"
  shows "sint d > 0 \<longleftrightarrow> p < p + d"
proof -
  have d: "d = word_of_int (uint (p + d) - uint p)"
    by (simp add: of_int_uint)
  have b: "uint p < 2 ^ 31" "uint (p + d) < 2 ^ 31" "0 \<le> uint p" "0 \<le> uint (p + d)"
    using assms unfolding unat_eq_nat_uint by (simp_all only: nat_less_numeral_power_cancel_iff uint_ge_0)
  have "sint d = sint (word_of_int (uint (p + d) - uint p) :: u32)"
    by (rule arg_cong [OF d])
  also have "\<dots> = uint (p + d) - uint p"
    by (rule sint_word_of_int) (use b in linarith)+
  finally have "sint d = uint (p + d) - uint p" .
  then show ?thesis
    by (simp add: word_less_def)
qed

definition successor :: "jump_table list \<Rightarrow> jump_table \<Rightarrow> u16" where
  "successor xs s =
     (if target_offset s = 0 then JUMP_TABLE_IDX_INVALID
      else case first_after xs (slot_target s) of None \<Rightarrow> JUMP_TABLE_IDX_INVALID | Some j \<Rightarrow> of_nat j)"

lemma link_idx_successor:
  assumes "sorted (map jt_pc xs)" "list_all (slot_ok code) xs" "length code < 2 ^ 31" "length xs < 2 ^ 31" "i < length xs"
  shows "link_idx xs i = successor xs (xs ! i)"
proof -
  let ?s = "xs ! i"
  have s: "unat (jt_pc ?s) < 2 ^ 31" "unat (jt_pc ?s + target_offset ?s) < 2 ^ 31" "next_idx ?s = JUMP_TABLE_IDX_INVALID"
    using assms(2,3,5) by (auto simp: list_all_length slot_ok_def slot_target_def)
  note sign = offset_sign [OF s(1,2)]
  consider "jt_pc ?s < slot_target ?s" | "slot_target ?s < jt_pc ?s" | "slot_target ?s = jt_pc ?s"
    by (rule linorder_cases)
  then show ?thesis
  proof cases
    case 1
    then have "\<forall>k < i + 1. jt_pc (xs ! k) \<le> slot_target ?s"
      using sorted_nth_mono [OF assms(1), of _ i] assms(5) by (fastforce simp: less_Suc_eq_le)
    then show ?thesis
      using 1 sign s(3) link_forward_first [of "i + 1" xs "slot_target ?s"] by (auto simp: link_idx_def successor_def slot_target_def)
  next
    case 2
    then show ?thesis
      using sign s(3) link_backward_first [OF assms(1,5) 2] assms(4,5) by (auto simp: link_idx_def successor_def slot_target_def)
  next
    case 3
    then show ?thesis
      using sign s(3) assms(4,5) by (auto simp: link_idx_def successor_def slot_target_def link_backward.simps)
  qed
qed

lemma first_after_cong:
  assumes "map jt_pc xs = map jt_pc ys"
  shows "first_after xs t = first_after ys t"
proof -
  have len: "length xs = length ys"
    using assms by (rule map_eq_imp_length_eq)
  then have "jt_pc (xs ! j) = jt_pc (ys ! j)" if "j < length ys" for j
    using assms that by (metis nth_map)
  then show ?thesis
    unfolding first_after_def len by (intro find_cong) auto
qed

section \<open>Properties\<close>


text \<open>\<open>block; i32.const 7; drop; br 0; end; end\<close> has no branch table.\<close>

lemma example_short: "short_tables example_alloc example_module (example_func example_code)"
proof -
  have "st_s st = example_code" if "validates example_alloc example_module (example_func example_code) st ctx" for st ctx
    using validates_vinv [OF that example_ready] by (simp add: vld.at_code_def example_func_def example_code_def)
  moreover have "list_all (\<lambda>b. b \<noteq> 0x0e) example_code"
    by (simp add: example_code_def)
  ultimately show ?thesis
    by (auto simp: short_tables_def example_func_def list_all_length)
qed


end
