(* ===== verification/Typing.thy ===== *)
theory Typing
  imports Validator_Correct
begin

text \<open>
  The validator against the typing rules of the format.  An instruction without control flow
  has a signature: the types it takes from the operand stack, the last one first, and the
  types it leaves.  The handler of such an instruction accepts exactly the operand
  stacks that the signature fits.  In a frame whose end cannot be reached the operands
  below those present have any type.
\<close>

section \<open>Operand stacks\<close>

definition fits :: "type_id \<Rightarrow> type_id \<Rightarrow> bool" where
  "fits expected actual \<longleftrightarrow> actual = expected \<or> actual = TYPE_ID_unknown \<or> expected = TYPE_ID_unknown \<or>
     expected = TYPE_ID_ref \<and> is_ref actual"

text \<open>Taking types off an operand stack whose last element is the top.\<close>

fun take_types :: "bool \<Rightarrow> type_id list \<Rightarrow> type_id list \<Rightarrow> type_id list option" where
  "take_types poly [] vs = Some vs"
| "take_types poly (t # ts) vs =
     (if vs = [] then if poly then take_types poly ts [] else None
      else if fits t (last vs) then take_types poly ts (butlast vs) else None)"

definition top_frame :: "validator_context \<Rightarrow> ctrl_frame" where
  "top_frame ctx = last (vdata (ctrl_stack ctx))"

definition beneath :: "validator_context \<Rightarrow> type_id list" where
  "beneath ctx = take (cf_height (top_frame ctx)) (vdata (val_stack ctx))"

definition operands :: "validator_context \<Rightarrow> type_id list" where
  "operands ctx = drop (cf_height (top_frame ctx)) (vdata (val_stack ctx))"

text \<open>
  What a handler of an instruction with this signature returns: \<open>E_invalid\<close> when the operands
  do not fit, the operands replaced when they do, \<open>E_general\<close> when the stack cannot
  grow.
\<close>

definition typed :: "type_id list \<Rightarrow> type_id list \<Rightarrow> validator_context \<Rightarrow> validator_context res \<Rightarrow> bool" where
  "typed ts rs ctx r =
     (case take_types (cf_unreachable (top_frame ctx)) ts (operands ctx) of
        None \<Rightarrow> r = Inl E_invalid
      | Some vs \<Rightarrow> r = Inl E_general \<and> rs \<noteq> [] \<or>
          (\<exists>ctx'. r = Inr ctx' \<and> ctrl_stack ctx' = ctrl_stack ctx \<and> beneath ctx' = beneath ctx \<and> operands ctx' = vs @ rs))"

lemma stack_split: "beneath ctx @ operands ctx = vdata (val_stack ctx)"
  by (simp add: beneath_def operands_def)

lemma vinv_beneath: "vinv am code ctx \<Longrightarrow> \<not> dead ctx \<Longrightarrow> length (beneath ctx) = cf_height (top_frame ctx)"
  by (auto simp: vinv_def frames_ok_def dead_def beneath_def top_frame_def)

lemma push_val_typed:
  assumes "vinv am code ctx" "\<not> dead ctx"
  shows "typed [] [t] ctx (push_val am t ctx)"
proof (cases "vec_push (am T_type_id) (val_stack ctx) t")
  case (Inl e)
  then have "e = E_general"
    by (auto simp: vec_push_def Let_def split: if_splits)
  then show ?thesis
    using Inl by (simp add: typed_def push_val_def)
next
  case (Inr v)
  have "vdata v = vdata (val_stack ctx) @ [t]"
    using vec_size_push [OF Inr] assms(1) by (simp add: vinv_def stack_ok_def)
  moreover have "cf_height (top_frame ctx) \<le> length (vdata (val_stack ctx))"
    using assms by (auto simp: vinv_def frames_ok_def dead_def top_frame_def)
  ultimately show ?thesis
    using Inr by (auto simp: typed_def push_val_def beneath_def operands_def top_frame_def Let_def)
qed

lemma keep_typed: "typed [] [] ctx (Inr ctx)"
  by (simp add: typed_def)

lemma pop_expect_eq:
  assumes "vinv am code ctx" "\<not> dead ctx"
  shows "pop_expect t ctx =
    (if operands ctx = [] then if cf_unreachable (top_frame ctx) then Inr ctx else Inl E_invalid
     else if fits t (last (operands ctx))
     then Inr (ctx\<lparr>val_stack := (val_stack ctx)\<lparr>vdata := butlast (vdata (val_stack ctx))\<rparr>\<rparr>) else Inl E_invalid)"
proof -
  have h: "cf_height (top_frame ctx) \<le> length (vdata (val_stack ctx))" and ne: "vdata (ctrl_stack ctx) \<noteq> []"
    using assms by (auto simp: vinv_def frames_ok_def dead_def top_frame_def)
  have e: "operands ctx = [] \<longleftrightarrow> cf_height (top_frame ctx) = length (vdata (val_stack ctx))"
    using h by (auto simp: operands_def)
  have l: "last (operands ctx) = last (vdata (val_stack ctx))" "vdata (val_stack ctx) \<noteq> []" if "operands ctx \<noteq> []"
    using that by (auto simp: operands_def)
  show ?thesis
    using e l ne by (auto simp: pop_expect_def pop_val_expect_def pop_val_def vec_back_def vec_pop_def top_frame_def fits_def)
qed

lemma pop_typed:
  assumes inv: "vinv am code ctx" "\<not> dead ctx"
    and rest: "\<And>ctx'. vinv am code ctx' \<Longrightarrow> \<not> dead ctx' \<Longrightarrow> typed ts rs ctx' (g ctx')"
  shows "typed (t # ts) rs ctx (unwrap (pop_expect t ctx) g)"
proof (cases "pop_expect t ctx")
  case (Inl e)
  then show ?thesis
    unfolding typed_def pop_expect_eq [OF inv] by (auto split: if_splits)
next
  case (Inr ctx')
  have p: "popped am code ctx ctx'"
    using pop_expect_out [OF inv(1), of t] Inr by simp
  have same: "top_frame ctx' = top_frame ctx" "vinv am code ctx'" "\<not> dead ctx'" "ctrl_stack ctx' = ctrl_stack ctx"
    using p inv(2) by (auto simp: popped_def top_frame_def dead_def)
  have below: "beneath ctx' = beneath ctx"
    and above: "operands ctx' = (if operands ctx = [] then [] else butlast (operands ctx))"
    using Inr unfolding pop_expect_eq [OF inv]
    by (auto simp: operands_def beneath_def top_frame_def drop_butlast take_butlast split: if_splits)
  have "take_types (cf_unreachable (top_frame ctx)) (t # ts) (operands ctx) =
      take_types (cf_unreachable (top_frame ctx)) ts (operands ctx')"
    using Inr above unfolding pop_expect_eq [OF inv] by (auto split: if_splits)
  then show ?thesis
    using rest [OF same(2,3)] Inr same(1,4) below
    by (auto simp: typed_def simp del: take_types.simps split: option.splits)
qed

lemma unwrap_Inr_id: "unwrap m Inr = m"
  by (cases m) simp_all

lemma last_pop_typed: "vinv am code ctx \<Longrightarrow> \<not> dead ctx \<Longrightarrow> typed [t] [] ctx (pop_expect t ctx)"
  using pop_typed [where ts = "[]" and rs = "[]" and g = Inr] keep_typed by (metis unwrap_Inr_id)

lemmas typed_intros = pop_typed last_pop_typed push_val_typed keep_typed

lemma POP_PUSH_typed:
  assumes "vinv am code ctx" "\<not> dead ctx"
  shows "typed [t] [t'] ctx (POP1_PUSH am t t' ctx)" "typed [t, t] [t'] ctx (POP2_PUSH am t t' ctx)"
    "typed [TYPE_ID_i32, TYPE_ID_i32, TYPE_ID_i32] [] ctx (pop_three_i32 ctx)"
  unfolding POP1_PUSH_def POP2_PUSH_def pop_three_i32_def
  by (rule typed_intros assms | assumption)+

section \<open>Signatures\<close>

text \<open>The numeric instructions, by their operand and result types.\<close>

definition numeric_sig :: "u8 \<Rightarrow> type_id list \<times> type_id list" where
  "numeric_sig op =
     (let within = (\<lambda>rs. \<exists>(a, b) \<in> set rs. a \<le> op \<and> op \<le> b) in
      if within [(0x45, 0x45), (0x67, 0x69), (0xc0, 0xc1)] then ([TYPE_ID_i32], [TYPE_ID_i32])
      else if within [(0x46, 0x4f), (0x6a, 0x78)] then ([TYPE_ID_i32, TYPE_ID_i32], [TYPE_ID_i32])
      else if within [(0x50, 0x50), (0xa7, 0xa7)] then ([TYPE_ID_i64], [TYPE_ID_i32])
      else if within [(0x51, 0x5a)] then ([TYPE_ID_i64, TYPE_ID_i64], [TYPE_ID_i32])
      else if within [(0x5b, 0x60)] then ([TYPE_ID_f32, TYPE_ID_f32], [TYPE_ID_i32])
      else if within [(0x61, 0x66)] then ([TYPE_ID_f64, TYPE_ID_f64], [TYPE_ID_i32])
      else if within [(0x79, 0x7b), (0xc2, 0xc4)] then ([TYPE_ID_i64], [TYPE_ID_i64])
      else if within [(0x7c, 0x8a)] then ([TYPE_ID_i64, TYPE_ID_i64], [TYPE_ID_i64])
      else if within [(0x8b, 0x91)] then ([TYPE_ID_f32], [TYPE_ID_f32])
      else if within [(0x92, 0x98)] then ([TYPE_ID_f32, TYPE_ID_f32], [TYPE_ID_f32])
      else if within [(0x99, 0x9f)] then ([TYPE_ID_f64], [TYPE_ID_f64])
      else if within [(0xa0, 0xa6)] then ([TYPE_ID_f64, TYPE_ID_f64], [TYPE_ID_f64])
      else if within [(0xa8, 0xa9), (0xbc, 0xbc)] then ([TYPE_ID_f32], [TYPE_ID_i32])
      else if within [(0xaa, 0xab)] then ([TYPE_ID_f64], [TYPE_ID_i32])
      else if within [(0xac, 0xad)] then ([TYPE_ID_i32], [TYPE_ID_i64])
      else if within [(0xae, 0xaf)] then ([TYPE_ID_f32], [TYPE_ID_i64])
      else if within [(0xb0, 0xb1), (0xbd, 0xbd)] then ([TYPE_ID_f64], [TYPE_ID_i64])
      else if within [(0xb2, 0xb3), (0xbe, 0xbe)] then ([TYPE_ID_i32], [TYPE_ID_f32])
      else if within [(0xb4, 0xb5)] then ([TYPE_ID_i64], [TYPE_ID_f32])
      else if within [(0xb6, 0xb6)] then ([TYPE_ID_f64], [TYPE_ID_f32])
      else if within [(0xb7, 0xb8)] then ([TYPE_ID_i32], [TYPE_ID_f64])
      else if within [(0xb9, 0xba), (0xbf, 0xbf)] then ([TYPE_ID_i64], [TYPE_ID_f64])
      else if within [(0xbb, 0xbb)] then ([TYPE_ID_f32], [TYPE_ID_f64])
      else ([], []))"

definition numeric_ops :: "u8 list" where
  "numeric_ops = map of_nat [0x45..<0xc5]"

text \<open>The four saturating conversions of each integer type.\<close>

definition trunc_sat_sig :: "u32 \<Rightarrow> type_id list \<times> type_id list" where
  "trunc_sat_sig op = ([if op AND 2 = 0 then TYPE_ID_f32 else TYPE_ID_f64], [if op < 4 then TYPE_ID_i32 else TYPE_ID_i64])"

definition nth_opt :: "'a vec \<Rightarrow> u32 \<Rightarrow> 'a option" where
  "nth_opt v i = (if unat i < length (vdata v) then Some (vdata v ! unat i) else None)"

text \<open>
  The signature of an instruction without control flow in a module, given the types of the
  locals; \<open>None\<close> when an index or an alignment is out of range.
\<close>

fun index_sig :: "type_id vec \<Rightarrow> module \<Rightarrow> cb_u32 \<Rightarrow> u32 \<Rightarrow> (type_id list \<times> type_id list) option" where
  "index_sig ls m on_local_get x = map_option (\<lambda>t. ([], [t])) (nth_opt ls x)"
| "index_sig ls m on_local_set x = map_option (\<lambda>t. ([t], [])) (nth_opt ls x)"
| "index_sig ls m on_local_tee x = map_option (\<lambda>t. ([t], [t])) (nth_opt ls x)"
| "index_sig ls m on_global_get x = map_option (\<lambda>g. ([], [g_valtype g])) (nth_opt (globals m) x)"
| "index_sig ls m on_global_set x = map_option (\<lambda>g. ([g_valtype g], [])) (nth_opt (globals m) x)"
| "index_sig ls m on_table_get x = map_option (\<lambda>t. ([TYPE_ID_i32], [tab_valtype t])) (nth_opt (tables m) x)"
| "index_sig ls m on_table_set x = map_option (\<lambda>t. ([tab_valtype t, TYPE_ID_i32], [])) (nth_opt (tables m) x)"
| "index_sig ls m on_ref_func x = map_option (\<lambda>_. ([], [TYPE_ID_funcref])) (nth_opt (funcs m) x)"
| "index_sig ls m on_memory_init x =
     (if vdata (memories m) = [] then None
      else map_option (\<lambda>_. ([TYPE_ID_i32, TYPE_ID_i32, TYPE_ID_i32], [])) (nth_opt (m_data m) x))"
| "index_sig ls m on_data_drop x = map_option (\<lambda>_. ([], [])) (nth_opt (m_data m) x)"
| "index_sig ls m on_elem_drop x = map_option (\<lambda>_. ([], [])) (nth_opt (elements m) x)"
| "index_sig ls m on_table_grow x = map_option (\<lambda>_. ([TYPE_ID_i32, TYPE_ID_ref], [TYPE_ID_i32])) (nth_opt (tables m) x)"
| "index_sig ls m on_table_size x = map_option (\<lambda>_. ([], [TYPE_ID_i32])) (nth_opt (tables m) x)"
| "index_sig ls m on_table_fill x = map_option (\<lambda>_. ([TYPE_ID_i32, TYPE_ID_ref, TYPE_ID_i32], [])) (nth_opt (tables m) x)"
| "index_sig ls m on_call x = None"

definition access_type :: "u8 \<Rightarrow> type_id" where
  "access_type op =
     (if op \<in> set [0x28, 0x2c, 0x2d, 0x2e, 0x2f, 0x36, 0x3a, 0x3b] then TYPE_ID_i32
      else if op \<in> set [0x2a, 0x38] then TYPE_ID_f32
      else if op \<in> set [0x2b, 0x39] then TYPE_ID_f64
      else TYPE_ID_i64)"

text \<open>The code takes the alignment exponent for a size; an exponent up to the size of the value type is accepted.\<close>

definition access_sig :: "module \<Rightarrow> u8 \<Rightarrow> u8 \<Rightarrow> (type_id list \<times> type_id list) option" where
  "access_sig m op align =
     (let t = access_type op in
      if vdata (memories m) = [] \<or> sizeof_type t < unat align then None
      else if op < 0x36 then Some ([TYPE_ID_i32], [t]) else Some ([t, TYPE_ID_i32], []))"

fun instr_sig :: "type_id vec \<Rightarrow> module \<Rightarrow> event \<Rightarrow> (type_id list \<times> type_id list) option" where
  "instr_sig ls m (On_none k op imm) =
     Some (if k = on_nop then ([], []) else if k = on_memory_size then ([], [TYPE_ID_i32])
       else if k = on_memory_grow then ([TYPE_ID_i32], [TYPE_ID_i32])
       else if k = on_ref_is_null then ([TYPE_ID_ref], [TYPE_ID_i32]) else numeric_sig op)"
| "instr_sig ls m (On_u32 k imm x) = index_sig ls m k x"
| "instr_sig ls m (On_u32_u32 k imm x y) =
     (case k of
        on_table_init \<Rightarrow> (case (nth_opt (elements m) x, nth_opt (tables m) y) of
            (Some e, Some t) \<Rightarrow> if tab_valtype t = el_valtype e then Some ([TYPE_ID_i32, TYPE_ID_i32, TYPE_ID_i32], []) else None
          | _ \<Rightarrow> None)
      | on_table_copy \<Rightarrow> (case (nth_opt (tables m) x, nth_opt (tables m) y) of
            (Some t, Some t') \<Rightarrow> if tab_valtype t = tab_valtype t' then Some ([TYPE_ID_i32, TYPE_ID_i32, TYPE_ID_i32], []) else None
          | _ \<Rightarrow> None)
      | on_call_indirect \<Rightarrow> None)"
| "instr_sig ls m (On_typeid k op imm t) =
     Some (case k of on_select_t \<Rightarrow> ([TYPE_ID_i32, t, t], [t]) | on_ref_null \<Rightarrow> ([], [t]))"
| "instr_sig ls m (On_memory_load_store op imm align offset) = access_sig m op align"
| "instr_sig ls m (On_i32_const imm x) = Some ([], [TYPE_ID_i32])"
| "instr_sig ls m (On_i64_const imm y) = Some ([], [TYPE_ID_i64])"
| "instr_sig ls m (On_f32_const imm x) = Some ([], [TYPE_ID_f32])"
| "instr_sig ls m (On_f64_const imm y) = Some ([], [TYPE_ID_f64])"
| "instr_sig ls m (On_fc_none k op imm) =
     (if k = on_trunc_sat then Some (trunc_sat_sig op)
      else if vdata (memories m) = [] then None else Some ([TYPE_ID_i32, TYPE_ID_i32, TYPE_ID_i32], []))"
| "instr_sig ls m _ = None"

text \<open>The events of the instructions without control flow, as the decoder produces them.\<close>

fun straight :: "event \<Rightarrow> bool" where
  "straight (On_none k op imm) \<longleftrightarrow> k \<in> {on_nop, on_memory_size, on_memory_grow, on_ref_is_null} \<or>
     0x45 \<le> op \<and> op \<le> 0xc4 \<and> plain_class op = Some k"
| "straight (On_u32 k imm x) \<longleftrightarrow> k \<noteq> on_call"
| "straight (On_u32_u32 k imm x y) \<longleftrightarrow> k \<noteq> on_call_indirect"
| "straight (On_typeid k op imm t) \<longleftrightarrow> True"
| "straight (On_memory_load_store op imm align offset) \<longleftrightarrow> 0x28 \<le> op \<and> op \<le> 0x3e"
| "straight (On_i32_const imm x) \<longleftrightarrow> True"
| "straight (On_i64_const imm y) \<longleftrightarrow> True"
| "straight (On_f32_const imm x) \<longleftrightarrow> True"
| "straight (On_f64_const imm y) \<longleftrightarrow> True"
| "straight (On_fc_none k op imm) \<longleftrightarrow> k \<noteq> on_opcode_fc \<and> (k = on_trunc_sat \<longrightarrow> op < 8)"
| "straight _ \<longleftrightarrow> False"

definition well_typed :: "(type_id list \<times> type_id list) option \<Rightarrow> validator_context \<Rightarrow> validator_context res \<Rightarrow> bool" where
  "well_typed sig ctx r = (case sig of None \<Rightarrow> r = Inl E_invalid | Some (ts, rs) \<Rightarrow> typed ts rs ctx r)"

text \<open>The handler of a numeric instruction is one of the two macros.\<close>

definition numeric_handler :: "u8 \<Rightarrow> alloc \<Rightarrow> validator_context \<Rightarrow> validator_context res" where
  "numeric_handler op am = (case numeric_sig op of
      ([t], [t']) \<Rightarrow> POP1_PUSH am t t' | ([t, _], [t']) \<Rightarrow> POP2_PUSH am t t' | _ \<Rightarrow> (\<lambda>_. Inl E_general))"

lemma op_cases:
  assumes "0x45 \<le> op" "op \<le> (0xc4 :: u8)"
  obtains n where "op = of_nat n" "n \<in> set [0x45..<0xc5]"
proof
  show "op = of_nat (unat op)" by simp
  show "unat op \<in> set [0x45..<0xc5]"
    using assms unfolding set_upt by (simp add: word_le_nat_alt)
qed

lemma numeric_class:
  assumes "0x45 \<le> op" "op \<le> 0xc4" "plain_class op = Some k"
  shows "validator_cb_none am k op imm = numeric_handler op am"
proof -
  obtain n where op: "op = of_nat n" and n: "n \<in> set [0x45..<0xc5]"
    using op_cases [OF assms(1,2)] .
  have "list_all (\<lambda>n. \<forall>k. plain_class (of_nat n) = Some k \<longrightarrow>
      validator_cb_none am k (of_nat n) imm = numeric_handler (of_nat n) am) [0x45..<0xc5]"
    by (simp add: plain_class_def numeric_handler_def numeric_sig_def Let_def validator_on_itestop_def validator_on_iunop_def
      validator_on_irelop_def validator_on_ibinop_def
      validator_on_funop_def validator_on_frelop_def validator_on_fbinop_def validator_on_wrapop_def validator_on_truncop_def
      validator_on_convertop_def validator_on_rankop_def validator_on_reinterpretop_def validator_on_extendop_def)
  then show ?thesis
    using assms(3) n op by (simp only: list_all_iff)
qed

lemma numeric_shape: "list_all (\<lambda>n. case numeric_sig (of_nat n) of
    ([t], [t']) \<Rightarrow> True | ([t, s], [t']) \<Rightarrow> t = s | _ \<Rightarrow> False) [0x45..<0xc5]"
  by code_simp

lemma numeric_typed:
  assumes "vinv am code ctx" "\<not> dead ctx" "0x45 \<le> op" "op \<le> 0xc4" "plain_class op = Some k"
  shows "well_typed (Some (numeric_sig op)) ctx (validator_cb_none am k op imm ctx)"
proof -
  have "case numeric_sig op of ([t], [t']) \<Rightarrow> True | ([t, s], [t']) \<Rightarrow> t = s | _ \<Rightarrow> False"
    using numeric_shape op_cases [OF assms(3,4)] by (metis (mono_tags, lifting) list_all_iff)
  then obtain t t' where "numeric_sig op = ([t], [t']) \<or> numeric_sig op = ([t, t], [t'])"
    by (simp split: prod.splits list.splits)
  then show ?thesis
    unfolding numeric_class [OF assms(3-5)] numeric_handler_def well_typed_def
    using POP_PUSH_typed(1,2) [OF assms(1,2)] by auto
qed

lemma index_typed:
  assumes "vinv am code ctx" "\<not> dead ctx" "k \<noteq> on_call"
  shows "well_typed (index_sig (locals ctx) (vc_mod ctx) k x) ctx (validator_cb_u32 am k x ctx)"
proof -
  note push_val_typed [OF assms(1,2), simp] keep_typed [simp] last_pop_typed [OF assms(1,2), simp]
  have [simp]: "typed [t] [t'] ctx (unwrap (pop_expect t ctx) (push_val am t'))"
    "typed [t, u] [t'] ctx (unwrap (pop_expect t ctx) (\<lambda>ctx. unwrap (pop_expect u ctx) (push_val am t')))"
    "typed [t, u] [] ctx (unwrap (pop_expect t ctx) (pop_expect u))"
    "typed [t, u, v] [] ctx (unwrap (pop_expect t ctx) (\<lambda>ctx. unwrap (pop_expect u ctx) (pop_expect v)))" for t u v t'
    by (rule typed_intros assms(1,2) | assumption)+
  show ?thesis
    using assms(3) POP_PUSH_typed(3) [OF assms(1,2)]
    by (cases k)
      (auto simp: well_typed_def validator_on_local_get_def validator_on_local_set_def validator_on_local_tee_def
        validator_on_global_get_def validator_on_global_set_def validator_on_table_get_def validator_on_table_set_def
        validator_on_ref_func_def validator_on_memory_init_def validator_on_data_drop_def validator_on_elem_drop_def
        validator_on_table_grow_def validator_on_table_size_def validator_on_table_fill_def vec_at_def nth_opt_def)
qed

lemma access_typed:
  assumes "vinv am code ctx" "\<not> dead ctx" "0x28 \<le> op" "op \<le> 0x3e"
  shows "well_typed (access_sig (vc_mod ctx) op align) ctx (validator_on_memory_load_store am op align offset ctx)"
proof -
  have load: "typed [t] [t'] ctx (unwrap (pop_expect t ctx) (push_val am t'))"
    and store: "typed [t, u] [] ctx (unwrap (pop_expect t ctx) (pop_expect u))" for t t' u
    by (rule typed_intros assms(1,2) | assumption)+
  have "list_all (\<lambda>n. \<forall>am align offset. validator_on_memory_load_store am (of_nat n) align offset ctx =
      (if vdata (memories (vc_mod ctx)) = [] then Inl E_invalid
       else if (of_nat n :: u8) < 0x36 then MEM_LOAD am (access_type (of_nat n)) align ctx
       else MEM_STORE (access_type (of_nat n)) align ctx)) [0x28..<0x3f]"
    by (simp add: validator_on_memory_load_store_def access_type_def)
  moreover have "unat op \<in> set [0x28..<0x3f]"
    using assms(3,4) unfolding set_upt by (simp add: word_le_nat_alt)
  ultimately have "\<forall>am align offset. validator_on_memory_load_store am (of_nat (unat op)) align offset ctx =
      (if vdata (memories (vc_mod ctx)) = [] then Inl E_invalid
       else if (of_nat (unat op) :: u8) < 0x36 then MEM_LOAD am (access_type (of_nat (unat op))) align ctx
       else MEM_STORE (access_type (of_nat (unat op))) align ctx)"
    unfolding list_all_iff by (rule bspec)
  then show ?thesis
    using load store by (simp add: well_typed_def access_sig_def Let_def MEM_LOAD_def MEM_STORE_def)
qed

lemma trunc_sat_typed:
  assumes "vinv am code ctx" "\<not> dead ctx" "op < 8"
  shows "well_typed (Some (trunc_sat_sig op)) ctx (validator_on_trunc_sat am op ctx)"
proof -
  have "unat op \<in> {0..<8}"
    using assms(3) by (simp add: word_less_nat_alt)
  then have "op \<in> {0, 1, 2, 3, 4, 5, 6, 7}"
    by (auto simp: word_unat_eq_iff atLeastLessThan_def)
  then show ?thesis
    using POP_PUSH_typed(1) [OF assms(1,2)] by (auto simp: well_typed_def trunc_sat_sig_def validator_on_trunc_sat_def)
qed



end
