(* ===== verification/Linked_List.thy ===== *)
theory Linked_List
  imports Prelude
begin

text \<open>
  The doubly linked list of src/src/utils/list.h and src/src/utils/list_impl.h.  An item is
  a cell of a heap, a pointer is an address or \<open>None\<close> for \<open>NULL\<close>, and an iterator is the
  address of the item that it points into.  The allocator is a parameter that gives an
  address of the heap or \<open>None\<close>.  An access through \<open>NULL\<close> or to a freed item is \<open>Fault\<close>.

  The operations implement those of a sequence of addressed values: every element keeps its
  address for as long as it is in the list, whatever happens to the others.
\<close>

section \<open>Items and heap\<close>

type_synonym ptr = nat

record 'a list_item =
  li_prev :: "ptr option"
  li_next :: "ptr option"
  li_data :: 'a

type_synonym 'a list_heap = "ptr \<Rightarrow> 'a list_item option"

record dlist =
  dl_head :: "ptr option"
  dl_tail :: "ptr option"
  dl_size :: nat

definition dlist_zero :: dlist where
  "dlist_zero = \<lparr>dl_head = None, dl_tail = None, dl_size = 0\<rparr>"

definition deref :: "'a list_heap \<Rightarrow> ptr option \<Rightarrow> 'a list_item res" where
  "deref h p = (case p of None \<Rightarrow> Inl Fault | Some a \<Rightarrow> case h a of None \<Rightarrow> Inl Fault | Some i \<Rightarrow> Inr i)"

definition assign :: "'a list_heap \<Rightarrow> ptr option \<Rightarrow> ('a list_item \<Rightarrow> 'a list_item) \<Rightarrow> 'a list_heap res" where
  "assign h p g = unwrap (deref h p) (\<lambda>i. Inr (h(the p \<mapsto> g i)))"

definition array_free :: "'a list_heap \<Rightarrow> ptr option \<Rightarrow> 'a list_heap res" where
  "array_free h p = (case p of None \<Rightarrow> Inr h | Some a \<Rightarrow> if h a = None then Inl Fault else Inr (h(a := None)))"

section \<open>Operations\<close>

text \<open>\<open>array_alloc\<close>: an allocator that offers an address in use counts as one that refuses.\<close>

definition new_item :: "('a list_heap \<Rightarrow> ptr option) \<Rightarrow> 'a list_heap \<Rightarrow> 'a \<Rightarrow> (ptr \<times> 'a list_heap) res" where
  "new_item am h v =
     (case am h of None \<Rightarrow> Inl E_general
      | Some a \<Rightarrow> if h a \<noteq> None then Inl E_general
          else Inr (a, h(a \<mapsto> \<lparr>li_prev = None, li_next = None, li_data = v\<rparr>)))"

definition list_push ::
  "('a list_heap \<Rightarrow> ptr option) \<Rightarrow> 'a \<Rightarrow> 'a list_heap \<times> dlist \<Rightarrow> ('a list_heap \<times> dlist) res" where
  "list_push am v s =
     (case s of (h, l) \<Rightarrow>
        unwrap (new_item am h v) (\<lambda>(item, h).
        if dl_head l = None then Inr (h, l\<lparr>dl_head := Some item, dl_tail := Some item, dl_size := dl_size l + 1\<rparr>)
        else
          unwrap (assign h (dl_tail l) (\<lambda>i. i\<lparr>li_next := Some item\<rparr>)) (\<lambda>h.
          unwrap (assign h (Some item) (\<lambda>i. i\<lparr>li_prev := dl_tail l\<rparr>)) (\<lambda>h.
          Inr (h, l\<lparr>dl_tail := Some item, dl_size := dl_size l + 1\<rparr>)))))"

definition list_pop :: "'a list_heap \<times> dlist \<Rightarrow> ('a list_heap \<times> dlist) res" where
  "list_pop s =
     (case s of (h, l) \<Rightarrow>
        if dl_size l = 1 then unwrap (array_free h (dl_tail l)) (\<lambda>h. Inr (h, dlist_zero))
        else
          unwrap (deref h (dl_tail l)) (\<lambda>t.
          let l = l\<lparr>dl_tail := li_prev t\<rparr> in
          unwrap (deref h (dl_tail l)) (\<lambda>t.
          unwrap (array_free h (li_next t)) (\<lambda>h.
          unwrap (assign h (dl_tail l) (\<lambda>i. i\<lparr>li_next := None\<rparr>)) (\<lambda>h.
          Inr (h, l\<lparr>dl_size := dl_size l - 1\<rparr>))))))"

definition list_push_front ::
  "('a list_heap \<Rightarrow> ptr option) \<Rightarrow> 'a \<Rightarrow> 'a list_heap \<times> dlist \<Rightarrow> ('a list_heap \<times> dlist) res" where
  "list_push_front am v s =
     (case s of (h, l) \<Rightarrow>
        unwrap (new_item am h v) (\<lambda>(item, h).
        if dl_head l = None then Inr (h, l\<lparr>dl_head := Some item, dl_tail := Some item, dl_size := dl_size l + 1\<rparr>)
        else
          unwrap (assign h (dl_head l) (\<lambda>i. i\<lparr>li_prev := Some item\<rparr>)) (\<lambda>h.
          unwrap (assign h (Some item) (\<lambda>i. i\<lparr>li_next := dl_head l\<rparr>)) (\<lambda>h.
          Inr (h, l\<lparr>dl_head := Some item, dl_size := dl_size l + 1\<rparr>)))))"

definition list_pop_front :: "'a list_heap \<times> dlist \<Rightarrow> ('a list_heap \<times> dlist) res" where
  "list_pop_front s =
     (case s of (h, l) \<Rightarrow>
        if dl_size l = 1 then unwrap (array_free h (dl_head l)) (\<lambda>h. Inr (h, dlist_zero))
        else
          unwrap (deref h (dl_head l)) (\<lambda>t.
          let l = l\<lparr>dl_head := li_next t\<rparr> in
          unwrap (deref h (dl_head l)) (\<lambda>t.
          unwrap (array_free h (li_prev t)) (\<lambda>h.
          unwrap (assign h (dl_head l) (\<lambda>i. i\<lparr>li_prev := None\<rparr>)) (\<lambda>h.
          Inr (h, l\<lparr>dl_size := dl_size l - 1\<rparr>))))))"

definition list_insert ::
  "('a list_heap \<Rightarrow> ptr option) \<Rightarrow> ptr \<Rightarrow> 'a \<Rightarrow> 'a list_heap \<times> dlist \<Rightarrow> (ptr \<times> 'a list_heap \<times> dlist) res" where
  "list_insert am wrapper v s =
     (case s of (h, l) \<Rightarrow>
        unwrap (new_item am h v) (\<lambda>(item, h).
        unwrap (assign h (Some item) (\<lambda>i. i\<lparr>li_next := Some wrapper\<rparr>)) (\<lambda>h.
        unwrap (deref h (Some wrapper)) (\<lambda>w.
        unwrap (assign h (Some item) (\<lambda>i. i\<lparr>li_prev := li_prev w\<rparr>)) (\<lambda>h.
        unwrap (if li_prev w \<noteq> None then assign h (li_prev w) (\<lambda>i. i\<lparr>li_next := Some item\<rparr>) else Inr h) (\<lambda>h.
        unwrap (assign h (Some wrapper) (\<lambda>i. i\<lparr>li_prev := Some item\<rparr>)) (\<lambda>h.
        let l = (if dl_head l = Some wrapper then l\<lparr>dl_head := Some item\<rparr> else l) in
        Inr (item, h, l\<lparr>dl_size := dl_size l + 1\<rparr>))))))))"

definition list_erase :: "ptr \<Rightarrow> 'a list_heap \<times> dlist \<Rightarrow> (ptr option \<times> 'a list_heap \<times> dlist) res" where
  "list_erase wrapper s =
     (case s of (h, l) \<Rightarrow>
        unwrap (deref h (Some wrapper)) (\<lambda>w.
        unwrap (if li_prev w \<noteq> None then assign h (li_prev w) (\<lambda>i. i\<lparr>li_next := li_next w\<rparr>) else Inr h) (\<lambda>h.
        unwrap (deref h (Some wrapper)) (\<lambda>w.
        unwrap (if li_next w \<noteq> None then assign h (li_next w) (\<lambda>i. i\<lparr>li_prev := li_prev w\<rparr>) else Inr h) (\<lambda>h.
        unwrap (deref h (Some wrapper)) (\<lambda>w.
        let l = (if dl_head l = Some wrapper then l\<lparr>dl_head := li_next w\<rparr> else l);
            l = (if dl_tail l = Some wrapper then l\<lparr>dl_tail := li_prev w\<rparr> else l);
            l = l\<lparr>dl_size := dl_size l - 1\<rparr> in
        unwrap (array_free h (Some wrapper)) (\<lambda>h'. Inr (li_next w, h', l))))))))"

text \<open>The loop of \<open>list_clear\<close> ends only if the items form no cycle; \<open>None\<close> is a loop without end.\<close>

partial_function (option) list_clear_loop :: "'a list_heap \<Rightarrow> ptr option \<Rightarrow> 'a list_heap res option" where
  "list_clear_loop h head =
     (if head = None then Some (Inr h)
      else case deref h head of
        Inl e \<Rightarrow> Some (Inl e)
      | Inr i \<Rightarrow> (case array_free h head of Inl e \<Rightarrow> Some (Inl e) | Inr h \<Rightarrow> list_clear_loop h (li_next i)))"

definition list_clear :: "'a list_heap \<times> dlist \<Rightarrow> ('a list_heap \<times> dlist) res option" where
  "list_clear s = (case s of (h, l) \<Rightarrow> map_option (\<lambda>m. unwrap m (\<lambda>h. Inr (h, dlist_zero))) (list_clear_loop h (dl_head l)))"

definition list_front :: "dlist \<Rightarrow> ptr option" where
  "list_front l = dl_head l"

definition list_back :: "dlist \<Rightarrow> ptr option" where
  "list_back l = dl_tail l"

definition list_iter_next :: "'a list_heap \<Rightarrow> ptr \<Rightarrow> ptr option res" where
  "list_iter_next h i = unwrap (deref h (Some i)) (\<lambda>w. Inr (li_next w))"

definition list_iter_prev :: "'a list_heap \<Rightarrow> ptr \<Rightarrow> ptr option res" where
  "list_iter_prev h i = unwrap (deref h (Some i)) (\<lambda>w. Inr (li_prev w))"

text \<open>\<open>LIST_FOR_EACH\<close>: the addresses and values in the order in which the loop visits them.\<close>

partial_function (option) list_for_each :: "'a list_heap \<Rightarrow> ptr option \<Rightarrow> (ptr \<times> 'a) list res option" where
  "list_for_each h iter =
     (case iter of None \<Rightarrow> Some (Inr [])
      | Some a \<Rightarrow> (case deref h iter of
          Inl e \<Rightarrow> Some (Inl e)
        | Inr i \<Rightarrow> Option.bind (list_for_each h (li_next i)) (\<lambda>m. Some (unwrap m (\<lambda>xs. Inr ((a, li_data i) # xs))))))"

section \<open>The represented sequence\<close>

fun first_ptr :: "(ptr \<times> 'a) list \<Rightarrow> ptr option \<Rightarrow> ptr option" where
  "first_ptr [] p = p"
| "first_ptr ((a, x) # ps) p = Some a"

definition last_ptr :: "ptr option \<Rightarrow> (ptr \<times> 'a) list \<Rightarrow> ptr option" where
  "last_ptr p ps = (if ps = [] then p else Some (fst (last ps)))"

fun dll :: "'a list_heap \<Rightarrow> ptr option \<Rightarrow> (ptr \<times> 'a) list \<Rightarrow> ptr option \<Rightarrow> bool" where
  "dll h p [] q \<longleftrightarrow> True"
| "dll h p ((a, x) # ps) q \<longleftrightarrow> h a = Some \<lparr>li_prev = p, li_next = first_ptr ps q, li_data = x\<rparr> \<and> dll h (Some a) ps q"

definition represents :: "'a list_heap \<times> dlist \<Rightarrow> (ptr \<times> 'a) list \<Rightarrow> bool" where
  "represents s ps \<longleftrightarrow> (case s of (h, l) \<Rightarrow> distinct (map fst ps) \<and> dll h None ps None \<and>
     dl_head l = first_ptr ps None \<and> dl_tail l = last_ptr None ps \<and> dl_size l = length ps)"

lemma last_ptr_simps [simp]:
  "last_ptr p [] = p" "last_ptr p (ps @ [(a, x)]) = Some a" "last_ptr p ((a, x) # ps) = last_ptr (Some a) ps"
  by (simp_all add: last_ptr_def)

lemma last_ptr_append [simp]: "last_ptr p (ps @ qs) = last_ptr (last_ptr p ps) qs"
  by (simp add: last_ptr_def)

lemma first_ptr_append [simp]: "first_ptr (ps @ qs) r = first_ptr ps (first_ptr qs r)"
  by (cases ps) auto

lemma dll_append [simp]: "dll h p (ps @ qs) r \<longleftrightarrow> dll h p ps (first_ptr qs r) \<and> dll h (last_ptr p ps) qs r"
  by (induction h p ps r rule: dll.induct) auto

lemma dll_frame [simp]: "a \<notin> fst ` set ps \<Longrightarrow> dll (h(a := i)) p ps q \<longleftrightarrow> dll h p ps q"
  by (induction h p ps q rule: dll.induct) auto

lemma dll_allocated: "dll h p ps q \<Longrightarrow> a \<in> fst ` set ps \<Longrightarrow> h a \<noteq> None"
  by (induction h p ps q rule: dll.induct) auto

lemma deref_Some [simp]: "h a = Some i \<Longrightarrow> deref h (Some a) = Inr i"
  by (simp add: deref_def)

lemma assign_Some [simp]: "h a = Some i \<Longrightarrow> assign h (Some a) g = Inr (h(a \<mapsto> g i))"
  by (simp add: assign_def)

lemma array_free_Some [simp]: "h a = Some i \<Longrightarrow> array_free h (Some a) = Inr (h(a := None))"
  by (simp add: array_free_def)

text \<open>Outside the addresses of the list and of a new item an operation changes nothing.\<close>

definition elsewhere :: "'a list_heap \<Rightarrow> 'a list_heap \<Rightarrow> ptr set \<Rightarrow> bool" where
  "elsewhere h h' A \<longleftrightarrow> (\<forall>b. b \<notin> A \<longrightarrow> h' b = h b)"

lemma fresh_address: "represents (h, l) ps \<Longrightarrow> h a = None \<Longrightarrow> a \<notin> fst ` set ps"
  using dll_allocated by (fastforce simp: represents_def)

lemma push_represents:
  assumes "represents (h, l) ps" "am h = Some a" "h a = None"
  shows "\<exists>h' l'. list_push am v (h, l) = Inr (h', l') \<and> represents (h', l') (ps @ [(a, v)]) \<and>
    elsewhere h h' (insert a (fst ` set ps))"
proof -
  have fresh: "a \<notin> fst ` set ps"
    using assms fresh_address by blast
  show ?thesis
  proof (cases ps rule: rev_cases)
    case Nil
    then show ?thesis
      using assms by (auto simp: represents_def list_push_def new_item_def elsewhere_def)
  next
    case (snoc qs q)
    obtain b y where q: "q = (b, y)"
      by (cases q)
    show ?thesis
      using assms fresh unfolding snoc q
      by (cases qs) (auto simp: represents_def list_push_def new_item_def elsewhere_def)
  qed
qed

lemma push_front_represents:
  assumes "represents (h, l) ps" "am h = Some a" "h a = None"
  shows "\<exists>h' l'. list_push_front am v (h, l) = Inr (h', l') \<and> represents (h', l') ((a, v) # ps) \<and>
    elsewhere h h' (insert a (fst ` set ps))"
proof -
  have fresh: "a \<notin> fst ` set ps"
    using assms fresh_address by blast
  show ?thesis
  proof (cases ps)
    case Nil
    then show ?thesis
      using assms by (auto simp: represents_def list_push_front_def new_item_def elsewhere_def)
  next
    case (Cons q qs)
    obtain b y where q: "q = (b, y)"
      by (cases q)
    show ?thesis
      using assms fresh unfolding Cons q
      by (auto simp: represents_def list_push_front_def new_item_def elsewhere_def)
  qed
qed

lemma pop_represents:
  assumes "represents (h, l) (ps @ [(a, v)])"
  shows "\<exists>h' l'. list_pop (h, l) = Inr (h', l') \<and> represents (h', l') ps \<and> h' a = None \<and>
    elsewhere h h' (insert a (fst ` set ps))"
proof (cases ps rule: rev_cases)
  case Nil
  then show ?thesis
    using assms by (auto simp: represents_def list_pop_def dlist_zero_def elsewhere_def)
next
  case (snoc qs q)
  obtain b y where q: "q = (b, y)"
    by (cases q)
  show ?thesis
    using assms unfolding snoc q
    by (auto simp: represents_def list_pop_def elsewhere_def Let_def)
qed

lemma pop_front_represents:
  assumes "represents (h, l) ((a, v) # ps)"
  shows "\<exists>h' l'. list_pop_front (h, l) = Inr (h', l') \<and> represents (h', l') ps \<and> h' a = None \<and>
    elsewhere h h' (insert a (fst ` set ps))"
proof (cases ps)
  case Nil
  then show ?thesis
    using assms by (auto simp: represents_def list_pop_front_def dlist_zero_def elsewhere_def)
next
  case (Cons q qs)
  obtain b y where q: "q = (b, y)"
    by (cases q)
  show ?thesis
    using assms unfolding Cons q
    by (auto simp: represents_def list_pop_front_def elsewhere_def Let_def)
qed

lemma insert_represents:
  assumes "represents (h, l) (ps @ (b, y) # qs)" "am h = Some a" "h a = None"
  shows "\<exists>h' l'. list_insert am b v (h, l) = Inr (a, h', l') \<and> represents (h', l') (ps @ (a, v) # (b, y) # qs) \<and>
    elsewhere h h' (insert a (fst ` set (ps @ (b, y) # qs)))"
proof -
  have fresh: "a \<notin> fst ` set (ps @ (b, y) # qs)"
    using assms fresh_address by blast
  show ?thesis
  proof (cases ps rule: rev_cases)
    case Nil
    then show ?thesis
      using assms fresh by (auto simp: represents_def list_insert_def new_item_def elsewhere_def Let_def)
  next
    case (snoc rs r)
    obtain c z where r: "r = (c, z)"
      by (cases r)
    show ?thesis
      using assms fresh unfolding snoc r
      by (cases rs) (auto simp: represents_def list_insert_def new_item_def elsewhere_def Let_def image_Un)
  qed
qed

lemma last_ptr_cases: "last_ptr (Some d) ps = Some b \<Longrightarrow> b = d \<or> b \<in> fst ` set ps"
  by (auto simp: last_ptr_def split: if_splits)

lemma erase_inner:
  assumes "represents (h, l) (rs @ [(c, z)] @ (b, y) # (d, u) # ts)"
  shows "\<exists>h' l'. list_erase b (h, l) = Inr (Some d, h', l') \<and> represents (h', l') (rs @ [(c, z)] @ (d, u) # ts) \<and> h' b = None \<and>
    elsewhere h h' (fst ` set (rs @ [(c, z)] @ (b, y) # (d, u) # ts))"
proof -
  have h: "h c = Some \<lparr>li_prev = last_ptr None rs, li_next = Some b, li_data = z\<rparr>"
    "h b = Some \<lparr>li_prev = Some c, li_next = Some d, li_data = y\<rparr>"
    "h d = Some \<lparr>li_prev = Some b, li_next = first_ptr ts None, li_data = u\<rparr>"
    "dll h None rs (Some c)" "dll h (Some d) ts None"
    using assms by (simp_all add: represents_def)
  have d: "c \<noteq> b" "c \<noteq> d" "b \<noteq> d" "distinct (map fst rs)" "distinct (map fst ts)" "fst ` set rs \<inter> fst ` set ts = {}"
    "c \<notin> fst ` set rs" "c \<notin> fst ` set ts" "b \<notin> fst ` set rs" "b \<notin> fst ` set ts" "d \<notin> fst ` set rs" "d \<notin> fst ` set ts"
    using assms by (auto simp: represents_def)
  have l: "dl_head l = first_ptr rs (Some c)" "dl_tail l = last_ptr (Some d) ts" "dl_head l \<noteq> Some b" "dl_tail l \<noteq> Some b"
    using assms d last_ptr_cases [of d ts b] by (cases rs; auto simp: represents_def)+
  have e: "list_erase b (h, l) = Inr (Some d, h(c \<mapsto> \<lparr>li_prev = last_ptr None rs, li_next = Some d, li_data = z\<rparr>,
      d \<mapsto> \<lparr>li_prev = Some c, li_next = first_ptr ts None, li_data = u\<rparr>, b := None), l\<lparr>dl_size := dl_size l - 1\<rparr>)"
    using h d l by (simp add: list_erase_def)
  show ?thesis
    using assms e h d l by (auto simp: represents_def elsewhere_def)
qed

lemma erase_represents:
  assumes "represents (h, l) (ps @ (b, y) # qs)"
  shows "\<exists>h' l'. list_erase b (h, l) = Inr (first_ptr qs None, h', l') \<and> represents (h', l') (ps @ qs) \<and> h' b = None \<and>
    elsewhere h h' (fst ` set (ps @ (b, y) # qs))"
proof -
  consider "ps = []" "qs = []" | c z rs where "ps = rs @ [(c, z)]" "qs = []"
    | d u ts where "ps = []" "qs = (d, u) # ts" | c z rs d u ts where "ps = rs @ [(c, z)]" "qs = (d, u) # ts"
    by (metis rev_exhaust surj_pair list.exhaust)
  then show ?thesis
  proof cases
    case 1
    then show ?thesis
      using assms by (auto simp: represents_def list_erase_def elsewhere_def Let_def)
  next
    case 2
    then show ?thesis
      using assms by (cases rs) (auto simp: represents_def list_erase_def elsewhere_def Let_def image_Un)
  next
    case 3
    then show ?thesis
      using assms by (auto simp: represents_def list_erase_def elsewhere_def Let_def dest: last_ptr_cases)
  next
    case 4
    then show ?thesis
      using erase_inner [of h l rs c z b y d u ts] assms by simp
  qed
qed

lemma clear_loop_returns:
  assumes "dll h p ps None" "distinct (map fst ps)"
  shows "list_clear_loop h (first_ptr ps None) = Some (Inr (\<lambda>a. if a \<in> fst ` set ps then None else h a))"
  using assms
proof (induction ps arbitrary: h p)
  case Nil
  then show ?case
    by (simp add: list_clear_loop.simps)
next
  case (Cons q ps)
  obtain a x where q: "q = (a, x)"
    by (cases q)
  have a: "h a = Some \<lparr>li_prev = p, li_next = first_ptr ps None, li_data = x\<rparr>" "dll h (Some a) ps None" "a \<notin> fst ` set ps"
    "distinct (map fst ps)"
    using Cons.prems by (auto simp: q)
  have "dll (h(a := None)) (Some a) ps None"
    using a by simp
  then have "list_clear_loop (h(a := None)) (first_ptr ps None) = Some (Inr (\<lambda>b. if b \<in> fst ` set ps then None else (h(a := None)) b))"
    using Cons.IH a(4) by blast
  then show ?case
    using a by (subst list_clear_loop.simps) (auto simp: q fun_eq_iff)
qed

lemma for_each_returns:
  assumes "dll h p ps None"
  shows "list_for_each h (first_ptr ps None) = Some (Inr ps)"
  using assms
proof (induction ps arbitrary: p)
  case Nil
  then show ?case
    by (simp add: list_for_each.simps)
next
  case (Cons q ps)
  then show ?case
    by (cases q) (auto, subst list_for_each.simps, simp)
qed

lemma clear_represents:
  assumes "represents (h, l) ps"
  shows "\<exists>h'. list_clear (h, l) = Some (Inr (h', dlist_zero)) \<and> elsewhere h h' (fst ` set ps) \<and> (\<forall>a \<in> fst ` set ps. h' a = None)"
  using assms clear_loop_returns [of h None ps] by (auto simp: represents_def list_clear_def elsewhere_def)

lemma represents_empty: "represents (h, dlist_zero) []"
  by (simp add: represents_def dlist_zero_def)

lemma visited:
  assumes "represents (h, l) ps"
  shows "list_for_each h (list_front l) = Some (Inr ps)"
  using for_each_returns [of h None ps] assms by (simp add: represents_def list_front_def)

lemma split_at: "b \<in> fst ` set ps \<Longrightarrow> \<exists>qs y rs. ps = qs @ (b, y) # rs"
  by (metis (no_types, lifting) imageE prod.collapse split_list)

section \<open>The contract\<close>

datatype 'a list_op = Push 'a | Pop | Push_front 'a | Pop_front | Insert ptr 'a | Erase ptr | Clear

fun exec_op :: "('a list_heap \<Rightarrow> ptr option) \<Rightarrow> 'a list_op \<Rightarrow> 'a list_heap \<times> dlist \<Rightarrow> ('a list_heap \<times> dlist) res option" where
  "exec_op am (Push v) s = Some (list_push am v s)"
| "exec_op am Pop s = Some (list_pop s)"
| "exec_op am (Push_front v) s = Some (list_push_front am v s)"
| "exec_op am Pop_front s = Some (list_pop_front s)"
| "exec_op am (Insert i v) s = Some (unwrap (list_insert am i v s) (\<lambda>(_, s). Inr s))"
| "exec_op am (Erase i) s = Some (unwrap (list_erase i s) (\<lambda>(_, s). Inr s))"
| "exec_op am Clear s = list_clear s"

text \<open>The effect on the sequence; an element that is added gets an address that is not in use.\<close>

inductive effect :: "'a list_op \<Rightarrow> (ptr \<times> 'a) list \<Rightarrow> (ptr \<times> 'a) list \<Rightarrow> bool" where
  "a \<notin> fst ` set ps \<Longrightarrow> effect (Push v) ps (ps @ [(a, v)])"
| "effect Pop (ps @ [x]) ps"
| "a \<notin> fst ` set ps \<Longrightarrow> effect (Push_front v) ps ((a, v) # ps)"
| "effect Pop_front (x # ps) ps"
| "a \<notin> fst ` set (ps @ (b, y) # qs) \<Longrightarrow> effect (Insert b v) (ps @ (b, y) # qs) (ps @ (a, v) # (b, y) # qs)"
| "effect (Erase b) (ps @ (b, y) # qs) (ps @ qs)"
| "effect Clear ps []"

fun enabled :: "'a list_op \<Rightarrow> (ptr \<times> 'a) list \<Rightarrow> bool" where
  "enabled Pop ps \<longleftrightarrow> ps \<noteq> []"
| "enabled Pop_front ps \<longleftrightarrow> ps \<noteq> []"
| "enabled (Insert b v) ps \<longleftrightarrow> b \<in> fst ` set ps"
| "enabled (Erase b) ps \<longleftrightarrow> b \<in> fst ` set ps"
| "enabled _ ps \<longleftrightarrow> True"

fun adds_item :: "'a list_op \<Rightarrow> bool" where
  "adds_item (Push v) \<longleftrightarrow> True"
| "adds_item (Push_front v) \<longleftrightarrow> True"
| "adds_item (Insert b v) \<longleftrightarrow> True"
| "adds_item _ \<longleftrightarrow> False"

definition refuses :: "('a list_heap \<Rightarrow> ptr option) \<Rightarrow> 'a list_heap \<Rightarrow> bool" where
  "refuses am h \<longleftrightarrow> (\<forall>a. am h = Some a \<longrightarrow> h a \<noteq> None)"

lemma refused:
  assumes "refuses am h" "adds_item op"
  shows "exec_op am op (h, l) = Some (Inl E_general)"
  using assms by (cases op) (auto simp: refuses_def list_push_def list_push_front_def list_insert_def new_item_def split: option.splits)

lemma exec_effect:
  assumes rep: "represents (h, l) ps" and en: "enabled op ps" and al: "\<not> adds_item op \<or> am h = Some a \<and> h a = None"
  shows "\<exists>s' ps'. exec_op am op (h, l) = Some (Inr s') \<and> effect op ps ps' \<and> represents s' ps'"
proof (cases op)
  case (Push v)
  then have a: "am h = Some a" "h a = None"
    using al by simp_all
  show ?thesis
    using push_represents [where am = am, OF rep a, of v] effect.intros(1) [OF fresh_address [OF rep a(2)]] Push by auto
next
  case Pop
  then obtain qs b y where "ps = qs @ [(b, y)]"
    using en by (metis enabled.simps(1) rev_exhaust surj_pair)
  then show ?thesis
    using pop_represents [of h l qs b y] rep effect.intros(2) [of qs "(b, y)"] Pop by auto
next
  case (Push_front v)
  then have a: "am h = Some a" "h a = None"
    using al by simp_all
  show ?thesis
    using push_front_represents [where am = am, OF rep a, of v] effect.intros(3) [OF fresh_address [OF rep a(2)]] Push_front by auto
next
  case Pop_front
  then obtain qs b y where "ps = (b, y) # qs"
    using en by (metis enabled.simps(2) list.exhaust surj_pair)
  then show ?thesis
    using pop_front_represents [of h l b y qs] rep effect.intros(4) [of "(b, y)" qs] Pop_front by auto
next
  case (Insert b v)
  then obtain qs y rs where ps: "ps = qs @ (b, y) # rs"
    using en split_at by (metis enabled.simps(3))
  have a: "am h = Some a" "h a = None"
    using al Insert by simp_all
  show ?thesis
    using insert_represents [where am = am, OF rep [unfolded ps] a, of v]
      effect.intros(5) [OF fresh_address [OF rep a(2), unfolded ps], of v] Insert ps by auto
next
  case (Erase b)
  then obtain qs y rs where ps: "ps = qs @ (b, y) # rs"
    using en split_at by (metis enabled.simps(4))
  show ?thesis
    using erase_represents [OF rep [unfolded ps]] effect.intros(6) [of b qs y rs] Erase ps by auto
next
  case Clear
  then show ?thesis
    using clear_represents [OF rep] represents_empty effect.intros(7) by (metis exec_op.simps(7))
qed

text \<open>
  The interface that the users of a list rely on: adding at the end, erasing by address and
  visiting in order.
\<close>

locale addressed_list =
  fixes rep :: "'s \<Rightarrow> (ptr \<times> 'a) list \<Rightarrow> bool"
    and push :: "'a \<Rightarrow> 's \<Rightarrow> 's res"
    and erase :: "ptr \<Rightarrow> 's \<Rightarrow> (ptr option \<times> 's) res"
    and visit :: "'s \<Rightarrow> (ptr \<times> 'a) list res option"
  assumes visit_rep: "rep s ps \<Longrightarrow> visit s = Some (Inr ps)"
    and rep_distinct: "rep s ps \<Longrightarrow> distinct (map fst ps)"
    and push_rep: "rep s ps \<Longrightarrow>
      push v s = Inl E_general \<or> (\<exists>a s'. push v s = Inr s' \<and> a \<notin> fst ` set ps \<and> rep s' (ps @ [(a, v)]))"
    and erase_rep: "rep s (ps @ (b, y) # qs) \<Longrightarrow> \<exists>s'. erase b s = Inr (first_ptr qs None, s') \<and> rep s' (ps @ qs)"
begin

text \<open>The sequence is determined by the list, and an element that is pushed or not erased keeps its address.\<close>

lemma rep_unique: "rep s ps \<Longrightarrow> rep s qs \<Longrightarrow> ps = qs"
  using visit_rep [of s ps] visit_rep [of s qs] by simp

lemma push_visit:
  assumes "rep s ps" "push v s = Inr s'"
  shows "\<exists>a. a \<notin> fst ` set ps \<and> visit s' = Some (Inr (ps @ [(a, v)]))"
  using push_rep [OF assms(1), of v] assms(2) visit_rep by fastforce

lemma erase_keeps:
  assumes "rep s ps" "b \<in> fst ` set ps" "c \<noteq> b"
  shows "\<exists>nxt s' ps'. erase b s = Inr (nxt, s') \<and> rep s' ps' \<and> map_of ps' c = map_of ps c \<and> map_of ps' b = None"
proof -
  obtain qs y rs where ps: "ps = qs @ (b, y) # rs"
    using split_at [OF assms(2)] by blast
  have d: "b \<notin> fst ` set (qs @ rs)"
    using rep_distinct [OF assms(1)] ps by auto
  have "map_of (qs @ rs) b = None"
    using d by (rule iffD2 [OF map_of_eq_None_iff])
  moreover have "map_of (qs @ rs) c = map_of ps c"
    using assms(3) unfolding ps by (auto simp: map_add_def split: option.split)
  ultimately have "map_of (qs @ rs) b = None \<and> map_of (qs @ rs) c = map_of ps c"
    by simp
  then show ?thesis
    using erase_rep [OF assms(1) [unfolded ps]] by blast
qed

end

interpretation dl: addressed_list represents "list_push am" list_erase "\<lambda>(h, l). list_for_each h (list_front l)" for am
proof unfold_locales
  fix s :: "'a list_heap \<times> dlist" and ps qs v b y
  obtain h l where s: "s = (h, l)"
    by (cases s)
  show "(case s of (h, l) \<Rightarrow> list_for_each h (list_front l)) = Some (Inr ps)" "distinct (map fst ps)" if "represents s ps"
    using that visited by (auto simp: s represents_def)
  show "\<exists>s'. list_erase b s = Inr (first_ptr qs None, s') \<and> represents s' (ps @ qs)" if "represents s (ps @ (b, y) # qs)"
    using erase_represents that by (fastforce simp: s)
  show "list_push am v s = Inl E_general \<or> (\<exists>a s'. list_push am v s = Inr s' \<and> a \<notin> fst ` set ps \<and> represents s' (ps @ [(a, v)]))"
    if r: "represents s ps"
  proof (cases "refuses am h")
    case True
    then show ?thesis
      using refused [of am h "Push v" l] by (simp add: s)
  next
    case False
    then obtain a where a: "am h = Some a" "h a = None"
      by (auto simp: refuses_def)
    show ?thesis
      using push_represents [where am = am, OF r [unfolded s] a, of v] fresh_address [OF r [unfolded s] a(2)] by (auto simp: s)
  qed
qed

section \<open>Properties\<close>

text \<open>
  C14.  The linked list implements a sequence of addressed values.  Take a heap and a list object
  that represent a sequence, and an operation whose precondition holds (there is a last or
  first element to pop, the iterator points to an element).  The operation returns, without a fault:
  with \<open>E_general\<close> exactly when it adds an element and the allocator refuses, and otherwise
  with a list that represents the sequence after the operation, in which no other element
  has changed its address.  Iterating over a list visits the sequence in order.
\<close>

theorem list_implements_sequence:
  assumes "represents (h, l) ps" "enabled op ps"
  shows "list_for_each h (list_front l) = Some (Inr ps) \<and>
    (if adds_item op \<and> refuses am h then exec_op am op (h, l) = Some (Inl E_general)
     else \<exists>s' ps'. exec_op am op (h, l) = Some (Inr s') \<and> effect op ps ps' \<and> represents s' ps')"
proof (cases "adds_item op \<and> refuses am h")
  case True
  then show ?thesis
    using visited [OF assms(1)] refused by auto
next
  case False
  then obtain a where "\<not> adds_item op \<or> am h = Some a \<and> h a = None"
    by (auto simp: refuses_def)
  then have "\<exists>s' ps'. exec_op am op (h, l) = Some (Inr s') \<and> effect op ps ps' \<and> represents s' ps'"
    by (rule exec_effect [OF assms])
  then show ?thesis
    using visited [OF assms(1)] False by auto
qed

text \<open>Three elements, and the erasure of the second.\<close>

definition example_heap_alloc :: "nat list_heap \<Rightarrow> ptr option" where
  "example_heap_alloc h = find (\<lambda>a. h a = None) [1, 2, 3, 4]"

theorem list_implements_sequence_witness:
  "\<exists>h l. represents (h, l) [(1, 10), (2, 20), (3, 30 :: nat)] \<and>
     (\<exists>s' ps'. exec_op example_heap_alloc (Erase 2) (h, l) = Some (Inr s') \<and> effect (Erase 2) [(1, 10), (2, 20), (3, 30)] ps' \<and> represents s' ps')"
proof -
  define h :: "nat list_heap" where "h = [1 \<mapsto> \<lparr>li_prev = None, li_next = Some 2, li_data = 10\<rparr>,
    2 \<mapsto> \<lparr>li_prev = Some 1, li_next = Some 3, li_data = 20\<rparr>, 3 \<mapsto> \<lparr>li_prev = Some 2, li_next = None, li_data = 30\<rparr>]"
  have "represents (h, \<lparr>dl_head = Some 1, dl_tail = Some 3, dl_size = 3\<rparr>) [(1, 10), (2, 20), (3, 30)]"
    by (simp add: represents_def h_def)
  then show ?thesis
    using list_implements_sequence [of h _ "[(1, 10), (2, 20), (3, 30)]" "Erase 2" example_heap_alloc] by fastforce
qed

end
