(* ===== verification/Mem_Util.thy ===== *)
theory Mem_Util
  imports Stream
begin

text \<open>
  The loads and stores of src/src/utils/mem_util.h on a byte array.  A store has two branches,
  chosen by the machine address of the target: a loop that writes the value byte by byte,
  and a store of the host, which is little-endian (\<open>interp_call_in_thread\<close> refuses to run on other
  hosts).  \<open>base\<close> is the address of the array.  The loads are those of the stream theory; the two
  branches of a load assemble the same value in the same order.
\<close>

section \<open>Stores\<close>

fun mem_write_loop :: "nat \<Rightarrow> nat \<Rightarrow> 'a::len word \<Rightarrow> u8 list \<Rightarrow> u8 list" where
  "mem_write_loop 0 p val m = m"
| "mem_write_loop (Suc type_size) p val m = mem_write_loop type_size (Suc p) (drop_bit 8 val) (m[p := ucast val])"

definition native_store :: "nat \<Rightarrow> nat \<Rightarrow> 'a::len word \<Rightarrow> u8 list \<Rightarrow> u8 list" where
  "native_store n p val m =
     map (\<lambda>i. if p \<le> i \<and> i < p + n then ucast (drop_bit (8 * (i - p)) val) else m ! i) [0..<length m]"

definition MEM_WRITE_DEFINE_MB :: "nat \<Rightarrow> nat \<Rightarrow> nat \<Rightarrow> 'a::len word \<Rightarrow> u8 list \<Rightarrow> u8 list" where
  "MEM_WRITE_DEFINE_MB type_size base p val m =
     (if (of_nat (base + p) :: u64) AND NOT (of_nat type_size - 1) \<noteq> 0
      then mem_write_loop type_size p val m
      else native_store type_size p val m)"

definition mem_write_u8 :: "nat \<Rightarrow> u8 \<Rightarrow> u8 list \<Rightarrow> u8 list" where
  "mem_write_u8 p val m = m[p := val]"

definition mem_write_u16 :: "nat \<Rightarrow> nat \<Rightarrow> u16 \<Rightarrow> u8 list \<Rightarrow> u8 list" where
  "mem_write_u16 = MEM_WRITE_DEFINE_MB 2"

definition mem_write_u32 :: "nat \<Rightarrow> nat \<Rightarrow> u32 \<Rightarrow> u8 list \<Rightarrow> u8 list" where
  "mem_write_u32 = MEM_WRITE_DEFINE_MB 4"

definition mem_write_u64 :: "nat \<Rightarrow> nat \<Rightarrow> u64 \<Rightarrow> u8 list \<Rightarrow> u8 list" where
  "mem_write_u64 = MEM_WRITE_DEFINE_MB 8"

text \<open>A float is stored as its bit pattern.\<close>

definition mem_write_f32 :: "nat \<Rightarrow> nat \<Rightarrow> u32 \<Rightarrow> u8 list \<Rightarrow> u8 list" where
  "mem_write_f32 = mem_write_u32"

definition mem_write_f64 :: "nat \<Rightarrow> nat \<Rightarrow> u64 \<Rightarrow> u8 list \<Rightarrow> u8 list" where
  "mem_write_f64 = mem_write_u64"

definition mem_read_u8 :: "u8 list \<Rightarrow> nat \<Rightarrow> u8" where
  "mem_read_u8 m i = m ! i"

section \<open>Both branches store the little-endian bytes\<close>

lemma mem_write_loop_eq: "p + n \<le> length m \<Longrightarrow> mem_write_loop n p val m = native_store n p val m"
proof (induction n p val m rule: mem_write_loop.induct)
  case (1 p val m)
  then show ?case
    by (auto simp: native_store_def intro!: nth_equalityI)
next
  case (2 n p val m)
  then have "mem_write_loop (Suc n) p val m = native_store n (Suc p) (drop_bit 8 val) (m[p := ucast val])"
    by simp
  also have "\<dots> = native_store (Suc n) p val m"
  proof (rule nth_equalityI)
    fix i assume "i < length (native_store n (Suc p) (drop_bit 8 val) (m[p := ucast val]))"
    then have i: "i < length m"
      by (simp add: native_store_def)
    consider "i < p" | "i = p" | k where "i = Suc (p + k)" "k < n" | "Suc (p + n) \<le> i"
      by (metis add_Suc_right less_Suc_eq less_iff_Suc_add linorder_neqE_nat nat_add_left_cancel_less not_less_eq_eq not_le)
    then show "native_store n (Suc p) (drop_bit 8 val) (m[p := ucast val]) ! i = native_store (Suc n) p val m ! i"
      by cases (use i in \<open>auto simp: native_store_def nth_list_update drop_bit_drop_bit add.commute\<close>)
  qed (simp add: native_store_def)
  finally show ?case .
qed

lemma mem_write_nth:
  assumes "p + n \<le> length m" "i < length m"
  shows "MEM_WRITE_DEFINE_MB n base p val m ! i = (if p \<le> i \<and> i < p + n then ucast (drop_bit (8 * (i - p)) val) else m ! i)"
  using assms by (simp add: MEM_WRITE_DEFINE_MB_def mem_write_loop_eq) (simp add: native_store_def)

lemma mem_write_length: "p + n \<le> length m \<Longrightarrow> length (MEM_WRITE_DEFINE_MB n base p val m) = length m"
  by (simp add: MEM_WRITE_DEFINE_MB_def mem_write_loop_eq) (simp add: native_store_def)

lemma byte_bit:
  fixes w :: "'a::len word"
  assumes "n < LENGTH('a)" "8 \<le> LENGTH('a)"
  shows "bit (push_bit k (ucast (ucast (drop_bit k w) :: u8) :: 'a word)) n \<longleftrightarrow> k \<le> n \<and> n < k + 8 \<and> bit w n"
    "bit (ucast (ucast w :: u8) :: 'a word) n \<longleftrightarrow> n < 8 \<and> bit w n"
  using assms by (auto simp: bit_simps)

lemma ucast_bytes:
  fixes v :: u16 and w :: u32 and x :: u64
  shows "ucast (ucast v :: u8) OR push_bit 8 (ucast (ucast (drop_bit 8 v) :: u8)) = v"
    "ucast (ucast w :: u8) OR push_bit 8 (ucast (ucast (drop_bit 8 w) :: u8)) OR
     push_bit 16 (ucast (ucast (drop_bit 16 w) :: u8)) OR push_bit 24 (ucast (ucast (drop_bit 24 w) :: u8)) = w"
    "ucast (ucast x :: u8) OR push_bit 8 (ucast (ucast (drop_bit 8 x) :: u8)) OR
     push_bit 16 (ucast (ucast (drop_bit 16 x) :: u8)) OR push_bit 24 (ucast (ucast (drop_bit 24 x) :: u8)) OR
     push_bit 32 (ucast (ucast (drop_bit 32 x) :: u8)) OR push_bit 40 (ucast (ucast (drop_bit 40 x) :: u8)) OR
     push_bit 48 (ucast (ucast (drop_bit 48 x) :: u8)) OR push_bit 56 (ucast (ucast (drop_bit 56 x) :: u8)) = x"
  by (rule bit_word_eqI; simp only: bit_or_iff byte_bit len_num1 len_bit0 len_bit1; auto)+



end
