(* ===== verification/Store.thy ===== *)
theory Store
  imports Op_Decoder Linked_List
begin

text \<open>
  The store: module instances and what they share (src/src/runtime/vm.h), and the reduction of
  constant expressions over it (src/src/interpreter/const_expr_eval.c).

  Pointers.  A module is owned by the runtime's list of modules and is known by the address of
  its item; \<open>mods\<close> is the sequence that the list represents.  A module instance is an item of the
  vm's list, which only ever grows at its end before it is cleared as a whole, so a pointer to an
  instance is its index.  A \<open>func_addr\<close> and the other address types point to an element of a
  vector of an instance: a pair of the index of the instance and the index in its vector, \<open>None\<close>
  for \<open>NULL\<close>.  A pointer to a function, table, memory or global of a module is an index of
  the module's vector.

  A \<open>value_u\<close> is a union of eight bytes, a word of 64 bits; a 32-bit member is its lower half.
  A \<open>ref\<close> is the machine address of a function instance or \<open>nullref\<close>; where the instances lie is
  the parameter \<open>lay\<close>.
\<close>

section \<open>Values\<close>

type_synonym value_u = u64
type_synonym ref = u64

definition nullref :: ref where
  "nullref = - 1"

definition nullfidx :: u32 where
  "nullfidx = - 1"

record typed_value =
  tv_type :: type_id
  tv_val :: value_u

section \<open>Instances\<close>

type_synonym addr = "nat \<times> nat"

record func_inst =
  fi_mod :: ptr
  fi_mod_inst :: "nat option"
  fi_fn :: nat

record table_inst =
  ti_tab :: nat
  tdata :: "ref vec"

record memory_inst =
  mi_mem :: nat
  mdata :: "u8 vec"

record global_inst =
  gi_glob :: nat
  gvalue :: value_u

datatype module_inst_state = module_inst_uninitialized | module_inst_init_failed | module_inst_ready

record module_inst =
  mi_state :: module_inst_state
  mi_mod :: ptr
  mi_funcs :: "func_inst vec"
  mi_tables :: "table_inst vec"
  dropped_elements :: "u8 vec"
  mi_memories :: "memory_inst vec"
  dropped_data :: "u8 vec"
  mi_globals :: "global_inst vec"
  f_addrs :: "addr option vec"
  m_addrs :: "addr option vec"
  t_addrs :: "addr option vec"
  g_addrs :: "addr option vec"

record thread =
  trapped :: bool
  frame_depth :: u32
  stack_size :: u32
  th_results :: "typed_value vec"

record vm =
  instances :: "module_inst list"
  vm_thread :: thread

type_synonym mods = "(ptr \<times> module) list"

section \<open>Dereferencing\<close>

definition the_mod :: "mods \<Rightarrow> ptr \<Rightarrow> module res" where
  "the_mod ms p = (case map_of ms p of None \<Rightarrow> Inl Fault | Some m \<Rightarrow> Inr m)"

definition set_mod :: "ptr \<Rightarrow> module \<Rightarrow> mods \<Rightarrow> mods" where
  "set_mod p m ms = map (\<lambda>(q, x). if q = p then (q, m) else (q, x)) ms"

definition the_inst :: "vm \<Rightarrow> nat \<Rightarrow> module_inst res" where
  "the_inst v i = (if i < length (instances v) then Inr (instances v ! i) else Inl Fault)"

definition set_inst :: "nat \<Rightarrow> module_inst \<Rightarrow> vm \<Rightarrow> vm" where
  "set_inst i mi v = v\<lparr>instances := (instances v)[i := mi]\<rparr>"

text \<open>An element of a vector of an instance, through its address.\<close>

definition at_addr :: "(module_inst \<Rightarrow> 'a vec) \<Rightarrow> vm \<Rightarrow> addr option \<Rightarrow> 'a res" where
  "at_addr sel v a =
     (case a of None \<Rightarrow> Inl Fault
      | Some (i, j) \<Rightarrow> unwrap (the_inst v i) (\<lambda>mi. vec_at (sel mi) j))"

definition set_addr ::
  "(module_inst \<Rightarrow> 'a vec) \<Rightarrow> (('a vec \<Rightarrow> 'a vec) \<Rightarrow> module_inst \<Rightarrow> module_inst) \<Rightarrow> 'a \<Rightarrow> vm \<Rightarrow> addr option \<Rightarrow> vm res" where
  "set_addr sel upd x v a =
     (case a of None \<Rightarrow> Inl Fault
      | Some (i, j) \<Rightarrow> unwrap (the_inst v i) (\<lambda>mi.
          unwrap (vec_set (sel mi) j x) (\<lambda>xs. Inr (set_inst i (upd (\<lambda>_. xs) mi) v))))"

text \<open>\<open>addr->fn\<close>, \<open>addr->tab\<close>, \<open>addr->mem\<close> and \<open>addr->glob\<close>.\<close>

definition addr_module :: "mods \<Rightarrow> vm \<Rightarrow> addr option \<Rightarrow> module res" where
  "addr_module ms v a =
     (case a of None \<Rightarrow> Inl Fault | Some (i, j) \<Rightarrow> unwrap (the_inst v i) (\<lambda>mi. the_mod ms (mi_mod mi)))"

definition addr_fn :: "mods \<Rightarrow> vm \<Rightarrow> addr option \<Rightarrow> func res" where
  "addr_fn ms v a =
     unwrap (at_addr mi_funcs v a) (\<lambda>fi. unwrap (the_mod ms (fi_mod fi)) (\<lambda>m. vec_at (funcs m) (fi_fn fi)))"

definition addr_tab :: "mods \<Rightarrow> vm \<Rightarrow> addr option \<Rightarrow> table res" where
  "addr_tab ms v a =
     unwrap (at_addr mi_tables v a) (\<lambda>ti. unwrap (addr_module ms v a) (\<lambda>m. vec_at (tables m) (ti_tab ti)))"

definition addr_mem :: "mods \<Rightarrow> vm \<Rightarrow> addr option \<Rightarrow> memory res" where
  "addr_mem ms v a =
     unwrap (at_addr mi_memories v a) (\<lambda>x. unwrap (addr_module ms v a) (\<lambda>m. vec_at (memories m) (mi_mem x)))"

definition addr_glob :: "mods \<Rightarrow> vm \<Rightarrow> addr option \<Rightarrow> global res" where
  "addr_glob ms v a =
     unwrap (at_addr mi_globals v a) (\<lambda>gi. unwrap (addr_module ms v a) (\<lambda>m. vec_at (globals m) (gi_glob gi)))"

definition to_ref :: "(addr \<Rightarrow> ref) \<Rightarrow> addr option \<Rightarrow> ref" where
  "to_ref lay a = (case a of None \<Rightarrow> 0 | Some x \<Rightarrow> lay x)"

section \<open>Constant expressions\<close>

definition const_instr ::
  "(addr \<Rightarrow> ref) \<Rightarrow> mods \<Rightarrow> vm \<Rightarrow> module_inst \<Rightarrow> u8 \<Rightarrow> stream \<Rightarrow> (typed_value \<times> stream) res" where
  "const_instr lay ms v mi opcode st =
     (if opcode = 0x41 then
        unwrap (stream_read_vi32 st) (\<lambda>(x, st). Inr (\<lparr>tv_type = TYPE_ID_i32, tv_val = ucast x\<rparr>, st))
      else if opcode = 0x42 then
        unwrap (stream_read_vi64 st) (\<lambda>(x, st). Inr (\<lparr>tv_type = TYPE_ID_i64, tv_val = x\<rparr>, st))
      else if opcode = 0x43 then
        unwrap (stream_read_f32 st) (\<lambda>(x, st). Inr (\<lparr>tv_type = TYPE_ID_f32, tv_val = ucast x\<rparr>, st))
      else if opcode = 0x44 then
        unwrap (stream_read_f64 st) (\<lambda>(x, st). Inr (\<lparr>tv_type = TYPE_ID_f64, tv_val = x\<rparr>, st))
      else if opcode = 0xd0 then
        unwrap (stream_read_vi7 st) (\<lambda>(type, st).
        if \<not> is_ref type then Inl E_invalid else Inr (\<lparr>tv_type = type, tv_val = nullref\<rparr>, st))
      else if opcode = 0xd2 then
        unwrap (stream_read_vu32 st) (\<lambda>(f_idx, st).
        unwrap (vec_at (f_addrs mi) (unat f_idx)) (\<lambda>a.
        Inr (\<lparr>tv_type = TYPE_ID_funcref, tv_val = to_ref lay a\<rparr>, st)))
      else if opcode = 0x23 then
        unwrap (stream_read_vu32 st) (\<lambda>(idx, st).
        if unat idx \<ge> vec_size (mi_globals mi) then Inl E_invalid
        else
          unwrap (vec_at (g_addrs mi) (unat idx)) (\<lambda>g_addr.
          unwrap (addr_glob ms v g_addr) (\<lambda>g.
          unwrap (at_addr mi_globals v g_addr) (\<lambda>gi.
          Inr (\<lparr>tv_type = g_valtype g, tv_val = gvalue gi\<rparr>, st)))))
      else Inl E_invalid)"

lemma const_instr_remaining:
  "const_instr lay ms v mi opcode st = Inr (tv, st') \<Longrightarrow> stream_remaining st' \<le> stream_remaining st"
  by (auto simp: const_instr_def res_simps dest!: read_remainings split: if_splits)

function const_expr_loop ::
  "alloc \<Rightarrow> (addr \<Rightarrow> ref) \<Rightarrow> mods \<Rightarrow> vm \<Rightarrow> module_inst \<Rightarrow> bool \<Rightarrow> stream \<Rightarrow> typed_value vec \<Rightarrow> typed_value vec res" where
  "const_expr_loop am lay ms v mi passive_elem code value_stack =
     (if stream_remaining code = 0 then Inr value_stack
      else
        unwrap (stream_read_u8 code) (\<lambda>(opcode, code').
        if passive_elem \<and> opcode \<noteq> 0xd0 \<and> opcode \<noteq> 0xd2 \<and> opcode \<noteq> 0x0b then Inl E_malformed
        else if opcode = 0x0b then Inr value_stack
        else
          unwrap (const_instr lay ms v mi opcode code') (\<lambda>(val, code'').
          unwrap (vec_push (am T_typed_value) value_stack val) (\<lambda>value_stack.
          const_expr_loop am lay ms v mi passive_elem code'' value_stack))))"
  by pat_completeness auto
termination
proof (relation "measure (\<lambda>(am, lay, ms, v, mi, p, code, vs). stream_remaining code)", goal_cases)
  case (2 am lay ms v mi p code vs oc opcode code' ic val code'' vs')
  then show ?case
    by (auto dest!: rd_u8.read_remaining const_instr_remaining)
qed simp

declare const_expr_loop.simps [simp del]

definition interp_reduce_const_expr ::
  "alloc \<Rightarrow> (addr \<Rightarrow> ref) \<Rightarrow> mods \<Rightarrow> vm \<Rightarrow> module_inst \<Rightarrow> stream \<Rightarrow> bool \<Rightarrow> typed_value res" where
  "interp_reduce_const_expr am lay ms v mi code passive_elem =
     unwrap (const_expr_loop am lay ms v mi passive_elem code vec_empty) (\<lambda>value_stack.
     if vec_size value_stack \<noteq> 1 then Inl E_invalid else vec_back value_stack)"

end
