(* ===== verification/Vm.thy ===== *)
theory Vm
  imports Store Validator
begin

text \<open>
  Instantiation and linking, src/src/runtime/vm.c.

  An operation that fails leaves what it has changed so far: a half-initialised instance stays in
  the vm, and segments that were copied into the tables and memories of other instances stay
  there.  So an operation on the vm is an action that returns an error or none together with the
  new state.  \<open>vm_instantiate_module\<close> works on a copy \<open>mod_ins\<close> of the instance that it has
  pushed; the two share the storage of all their vectors, whose sizes are fixed, so the model
  has one instance.

  The call of the start function is the parameter \<open>call\<close>: the thread, the address of the function
  and the arguments, to the error or none, the vm and the thread; \<open>None\<close> when it never
  returns.
\<close>

section \<open>Actions\<close>

type_synonym 's act = "'s \<Rightarrow> err option \<times> 's"

definition act_let :: "'a res \<Rightarrow> ('a \<Rightarrow> 's act) \<Rightarrow> 's act" where
  "act_let r f s = (case r of Inl e \<Rightarrow> (Some e, s) | Inr x \<Rightarrow> f x s)"

definition act_set :: "'s res \<Rightarrow> 's act" where
  "act_set r s = (case r of Inl e \<Rightarrow> (Some e, s) | Inr s' \<Rightarrow> (None, s'))"

definition act_then :: "'s act \<Rightarrow> 's act \<Rightarrow> 's act" where
  "act_then a b s = (case a s of (None, s') \<Rightarrow> b s' | (Some e, s') \<Rightarrow> (Some e, s'))"

definition act_err :: "err \<Rightarrow> 's act" where
  "act_err e s = (Some e, s)"

fun act_for :: "nat \<Rightarrow> nat \<Rightarrow> (nat \<Rightarrow> 's act) \<Rightarrow> 's act" where
  "act_for i 0 body = Pair None"
| "act_for i (Suc n) body = act_then (body i) (act_for (Suc i) n body)"

section \<open>New instances\<close>

definition thread_zero :: thread where
  "thread_zero = \<lparr>trapped = False, frame_depth = 0, stack_size = 0, th_results = vec_empty\<rparr>"

definition module_inst_zero :: "ptr \<Rightarrow> module_inst" where
  "module_inst_zero p = \<lparr>mi_state = module_inst_uninitialized, mi_mod = p, mi_funcs = vec_empty, mi_tables = vec_empty,
     dropped_elements = vec_empty, mi_memories = vec_empty, dropped_data = vec_empty, mi_globals = vec_empty,
     f_addrs = vec_empty, m_addrs = vec_empty, t_addrs = vec_empty, g_addrs = vec_empty\<rparr>"

text \<open>\<open>vec_resize\<close> whose result is not looked at.\<close>

definition try_resize :: "(nat \<Rightarrow> bool) \<Rightarrow> 'a \<Rightarrow> 'a vec \<Rightarrow> nat \<Rightarrow> 'a vec" where
  "try_resize am z v n = (case vec_resize am z v n of Inl _ \<Rightarrow> v | Inr v' \<Rightarrow> v')"

definition new_func_inst :: "ptr \<Rightarrow> nat \<Rightarrow> func_inst vec \<Rightarrow> func_inst vec res" where
  "new_func_inst p i v = update_at v i (\<lambda>fi. fi\<lparr>fi_fn := i, fi_mod := p\<rparr>)"

definition new_table_inst :: "alloc \<Rightarrow> module \<Rightarrow> nat \<Rightarrow> table_inst vec \<Rightarrow> table_inst vec res" where
  "new_table_inst am m i v =
     unwrap (vec_at (tables m) i) (\<lambda>tab.
     update_at v i (\<lambda>ti.
       let ti = ti\<lparr>ti_tab := i\<rparr> in
       if i \<ge> unat (imported_table_count m) then
         let d = try_resize (am T_ref) 0 (tdata ti) (unat (lim_min (tab_lim tab)))
         in ti\<lparr>tdata := d\<lparr>vdata := map (\<lambda>_. nullref) (vdata d)\<rparr>\<rparr>
       else ti))"

text \<open>The size of the memory is computed in 32 bits.\<close>

definition new_memory_inst :: "alloc \<Rightarrow> module \<Rightarrow> nat \<Rightarrow> memory_inst vec \<Rightarrow> memory_inst vec res" where
  "new_memory_inst am m i v =
     unwrap (vec_at (memories m) i) (\<lambda>mem.
     update_at v i (\<lambda>x.
       let x = x\<lparr>mi_mem := i\<rparr> in
       if i \<ge> unat (imported_mem_count m)
       then x\<lparr>mdata := try_resize (am T_u8) 0 (mdata x) (unat (lim_min (mem_lim mem) * of_nat WASM_PAGE_SIZE))\<rparr>
       else x))"

definition new_global_inst :: "nat \<Rightarrow> global_inst vec \<Rightarrow> global_inst vec res" where
  "new_global_inst i v = update_at v i (\<lambda>g. g\<lparr>gi_glob := i\<rparr>)"

definition module_inst_new :: "alloc \<Rightarrow> ptr \<Rightarrow> module \<Rightarrow> (module_inst \<times> module) res" where
  "module_inst_new am p m =
     (let mi = module_inst_zero p;
          m = m\<lparr>ref_count := ref_count m + 1\<rparr> in
      unwrap (vec_resize (am T_func_inst) \<lparr>fi_mod = 0, fi_mod_inst = None, fi_fn = 0\<rparr> vec_empty (vec_size (funcs m))) (\<lambda>fs.
      unwrap (for_res 0 (vec_size (funcs m)) (new_func_inst p) (vec_set_fixed fs True)) (\<lambda>fs.
      unwrap (vec_resize (am T_table_inst) \<lparr>ti_tab = 0, tdata = vec_empty\<rparr> vec_empty (vec_size (tables m))) (\<lambda>ts.
      unwrap (for_res 0 (vec_size (tables m)) (new_table_inst am m) (vec_set_fixed ts True)) (\<lambda>ts.
      unwrap (vec_resize (am T_memory_inst) \<lparr>mi_mem = 0, mdata = vec_empty\<rparr> vec_empty (vec_size (memories m))) (\<lambda>mems.
      unwrap (for_res 0 (vec_size (memories m)) (new_memory_inst am m) (vec_set_fixed mems True)) (\<lambda>mems.
      unwrap (vec_resize (am T_global_inst) \<lparr>gi_glob = 0, gvalue = 0\<rparr> vec_empty (vec_size (globals m))) (\<lambda>gs.
      unwrap (for_res 0 (vec_size (globals m)) new_global_inst (vec_set_fixed gs True)) (\<lambda>gs.
      unwrap (vec_resize (am T_u8) 0 vec_empty (vec_size (elements m))) (\<lambda>de.
      unwrap (vec_resize (am T_u8) 0 vec_empty (vec_size (m_data m))) (\<lambda>dd.
      Inr (mi\<lparr>mi_funcs := fs, mi_tables := ts, mi_memories := mems, mi_globals := gs,
              dropped_elements := vec_set_fixed de True, dropped_data := vec_set_fixed dd True,
              f_addrs := vec_set_fixed (try_resize (am T_func_addr) None vec_empty (vec_size (funcs m))) True,
              m_addrs := vec_set_fixed (try_resize (am T_mem_addr) None vec_empty (vec_size (memories m))) True,
              t_addrs := vec_set_fixed (try_resize (am T_tab_addr) None vec_empty (vec_size (tables m))) True,
              g_addrs := vec_set_fixed (try_resize (am T_glob_addr) None vec_empty (vec_size (globals m))) True\<rparr>, m))))))))))))"

section \<open>Lookup\<close>

text \<open>The \<open>break\<close> leaves the loop over the names only, so the last matching instance is returned.\<close>

definition has_name :: "mods \<Rightarrow> module_inst \<Rightarrow> str \<Rightarrow> bool res" where
  "has_name ms mi name = unwrap (the_mod ms (mi_mod mi)) (\<lambda>m. Inr (list_ex (\<lambda>n. str_eq (vs_s n) name) (vdata (names m))))"

definition vm_find_module_inst :: "mods \<Rightarrow> vm \<Rightarrow> str \<Rightarrow> nat option res" where
  "vm_find_module_inst ms v name =
     foreach_res (\<lambda>(i, mi) inst. unwrap (has_name ms mi name) (\<lambda>b. Inr (if b then Some i else inst)))
       (enumerate 0 (instances v)) None"

definition find_export :: "module \<Rightarrow> external_kind \<Rightarrow> str \<Rightarrow> export option" where
  "find_export m kind name = find (\<lambda>exp. exp_kind exp = kind \<and> str_eq (exp_name exp) name) (vdata (exports m))"

text \<open>The export of an instance that an import path names, and the instance.\<close>

definition find_import :: "mods \<Rightarrow> vm \<Rightarrow> import_path \<Rightarrow> external_kind \<Rightarrow> (module_inst \<times> export) res" where
  "find_import ms v path kind =
     unwrap (vm_find_module_inst ms v (path_module path)) (\<lambda>target.
     case target of
       None \<Rightarrow> Inl E_invalid
     | Some t \<Rightarrow>
         unwrap (the_inst v t) (\<lambda>mi.
         unwrap (the_mod ms (mi_mod mi)) (\<lambda>m.
         case find_export m kind (path_field path) of
           None \<Rightarrow> Inl E_invalid
         | Some exp \<Rightarrow> Inr (mi, exp))))"

section \<open>Linking\<close>

definition set_f_addr :: "nat \<Rightarrow> nat \<Rightarrow> addr option \<Rightarrow> vm \<Rightarrow> vm res" where
  "set_f_addr i k a v =
     unwrap (the_inst v i) (\<lambda>mi. unwrap (vec_set (f_addrs mi) k a) (\<lambda>x. Inr (set_inst i (mi\<lparr>f_addrs := x\<rparr>) v)))"

definition set_g_addr :: "nat \<Rightarrow> nat \<Rightarrow> addr option \<Rightarrow> vm \<Rightarrow> vm res" where
  "set_g_addr i k a v =
     unwrap (the_inst v i) (\<lambda>mi. unwrap (vec_set (g_addrs mi) k a) (\<lambda>x. Inr (set_inst i (mi\<lparr>g_addrs := x\<rparr>) v)))"

definition set_m_addr :: "nat \<Rightarrow> nat \<Rightarrow> addr option \<Rightarrow> vm \<Rightarrow> vm res" where
  "set_m_addr i k a v =
     unwrap (the_inst v i) (\<lambda>mi. unwrap (vec_set (m_addrs mi) k a) (\<lambda>x. Inr (set_inst i (mi\<lparr>m_addrs := x\<rparr>) v)))"

definition set_t_addr :: "nat \<Rightarrow> nat \<Rightarrow> addr option \<Rightarrow> vm \<Rightarrow> vm res" where
  "set_t_addr i k a v =
     unwrap (the_inst v i) (\<lambda>mi. unwrap (vec_set (t_addrs mi) k a) (\<lambda>x. Inr (set_inst i (mi\<lparr>t_addrs := x\<rparr>) v)))"

text \<open>\<open>f_inst->mod_inst = mod_inst\<close>\<close>

definition pin_func :: "nat \<Rightarrow> nat \<Rightarrow> vm \<Rightarrow> vm res" where
  "pin_func i k v =
     unwrap (the_inst v i) (\<lambda>mi.
     unwrap (update_at (mi_funcs mi) k (\<lambda>fi. fi\<lparr>fi_mod_inst := Some i\<rparr>)) (\<lambda>x.
     Inr (set_inst i (mi\<lparr>mi_funcs := x\<rparr>) v)))"

text \<open>The address that a function, a global, a memory or a table of the module is linked to.\<close>

definition link_func_target :: "mods \<Rightarrow> nat \<Rightarrow> func \<Rightarrow> nat \<Rightarrow> vm \<Rightarrow> addr option res" where
  "link_func_target ms i f k v =
     (if \<not> is_imported (f_linkage f) then Inr (Some (i, k))
      else
        unwrap (find_import ms v (f_path f) EXTERNAL_KIND_Function) (\<lambda>(mi, exp).
        unwrap (vec_at (f_addrs mi) (unat (external_idx exp))) (\<lambda>tgt_f_addr.
        unwrap (addr_fn ms v tgt_f_addr) (\<lambda>tgt_f.
        if \<not> func_type_eq (fn_type f) (fn_type tgt_f) then Inl E_invalid else Inr tgt_f_addr))))"

definition link_global_target :: "mods \<Rightarrow> nat \<Rightarrow> global \<Rightarrow> nat \<Rightarrow> vm \<Rightarrow> addr option res" where
  "link_global_target ms i g k v =
     (if \<not> is_imported (g_linkage g) then Inr (Some (i, k))
      else
        unwrap (find_import ms v (g_path g) EXTERNAL_KIND_Global) (\<lambda>(mi, exp).
        unwrap (vec_at (g_addrs mi) (unat (external_idx exp))) (\<lambda>tgt_g_addr.
        unwrap (addr_glob ms v tgt_g_addr) (\<lambda>tgt_g.
        if g_mut tgt_g \<noteq> g_mut g then Inl E_invalid
        else if g_valtype tgt_g \<noteq> g_valtype g then Inl E_invalid
        else Inr tgt_g_addr))))"

definition link_memory_target :: "mods \<Rightarrow> nat \<Rightarrow> memory \<Rightarrow> nat \<Rightarrow> vm \<Rightarrow> addr option res" where
  "link_memory_target ms i mem k v =
     (if \<not> is_imported (mem_linkage mem) then Inr (Some (i, k))
      else
        unwrap (find_import ms v (mem_path mem) EXTERNAL_KIND_Memory) (\<lambda>(mi, exp).
        unwrap (vec_at (m_addrs mi) (unat (external_idx exp))) (\<lambda>tgt_m_addr.
        unwrap (addr_mem ms v tgt_m_addr) (\<lambda>tgt_m.
        unwrap (at_addr mi_memories v tgt_m_addr) (\<lambda>tgt_inst.
        let tgt_curr_pages = vec_size (mdata tgt_inst) div WASM_PAGE_SIZE in
        if unat (lim_min (mem_lim mem)) > tgt_curr_pages then Inl E_invalid
        else if lim_max (mem_lim mem) < lim_max (mem_lim tgt_m) then Inl E_invalid
        else Inr tgt_m_addr)))))"

definition link_table_target :: "mods \<Rightarrow> nat \<Rightarrow> table \<Rightarrow> nat \<Rightarrow> vm \<Rightarrow> addr option res" where
  "link_table_target ms i tab k v =
     (if \<not> is_imported (tab_linkage tab) then Inr (Some (i, k))
      else
        unwrap (find_import ms v (tab_path tab) EXTERNAL_KIND_Table) (\<lambda>(mi, exp).
        unwrap (vec_at (t_addrs mi) (unat (external_idx exp))) (\<lambda>tgt_t_addr.
        unwrap (addr_tab ms v tgt_t_addr) (\<lambda>tgt_t.
        if tab_valtype tab \<noteq> tab_valtype tgt_t then Inl E_invalid
        else if lim_min (tab_lim tab) > lim_min (tab_lim tgt_t) then Inl E_invalid
        else if lim_max (tab_lim tab) < lim_max (tab_lim tgt_t) then Inl E_invalid
        else Inr tgt_t_addr))))"

definition link_func :: "mods \<Rightarrow> module \<Rightarrow> nat \<Rightarrow> nat \<Rightarrow> vm act" where
  "link_func ms m i k =
     act_then (\<lambda>v. act_set (pin_func i k v) v) (\<lambda>v.
     act_let (vec_at (funcs m) k) (\<lambda>f.
     act_let (link_func_target ms i f k v) (\<lambda>a v. act_set (set_f_addr i k a v) v)) v)"

definition link_global :: "mods \<Rightarrow> module \<Rightarrow> nat \<Rightarrow> nat \<Rightarrow> vm act" where
  "link_global ms m i k v =
     act_let (vec_at (globals m) k) (\<lambda>g.
     act_let (link_global_target ms i g k v) (\<lambda>a v. act_set (set_g_addr i k a v) v)) v"

definition link_memory :: "mods \<Rightarrow> module \<Rightarrow> nat \<Rightarrow> nat \<Rightarrow> vm act" where
  "link_memory ms m i k v =
     act_let (vec_at (memories m) k) (\<lambda>mem.
     act_let (link_memory_target ms i mem k v) (\<lambda>a v. act_set (set_m_addr i k a v) v)) v"

definition link_table :: "mods \<Rightarrow> module \<Rightarrow> nat \<Rightarrow> nat \<Rightarrow> vm act" where
  "link_table ms m i k v =
     act_let (vec_at (tables m) k) (\<lambda>tab.
     act_let (link_table_target ms i tab k v) (\<lambda>a v. act_set (set_t_addr i k a v) v)) v"

definition vm_link_module_inst :: "mods \<Rightarrow> nat \<Rightarrow> vm act" where
  "vm_link_module_inst ms i v =
     act_let (the_inst v i) (\<lambda>mi.
     if mi_state mi \<noteq> module_inst_uninitialized then act_err E_general
     else
       act_let (the_mod ms (mi_mod mi)) (\<lambda>m.
       act_then (act_for 0 (vec_size (funcs m)) (link_func ms m i))
      (act_then (act_for 0 (vec_size (globals m)) (link_global ms m i))
      (act_then (act_for 0 (vec_size (memories m)) (link_memory ms m i))
                (act_for 0 (vec_size (tables m)) (link_table ms m i)))))) v"

section \<open>Initialisation\<close>

definition set_global :: "nat \<Rightarrow> nat \<Rightarrow> value_u \<Rightarrow> vm \<Rightarrow> vm res" where
  "set_global i k x v =
     unwrap (the_inst v i) (\<lambda>mi.
     unwrap (update_at (mi_globals mi) k (\<lambda>g. g\<lparr>gvalue := x\<rparr>)) (\<lambda>gs.
     Inr (set_inst i (mi\<lparr>mi_globals := gs\<rparr>) v)))"

definition init_global :: "alloc \<Rightarrow> (addr \<Rightarrow> ref) \<Rightarrow> mods \<Rightarrow> module \<Rightarrow> nat \<Rightarrow> nat \<Rightarrow> vm act" where
  "init_global am lay ms m i k v =
     act_let (the_inst v i) (\<lambda>mi.
     act_let (vec_at (globals m) k) (\<lambda>g.
     act_let (interp_reduce_const_expr am lay ms v mi (stream_from (g_expr g)) False) (\<lambda>val.
     if g_valtype g \<noteq> tv_type val then act_err E_invalid
     else (\<lambda>v. act_set (set_global i k (tv_val val) v) v)))) v"

definition module_inst_init_global :: "alloc \<Rightarrow> (addr \<Rightarrow> ref) \<Rightarrow> mods \<Rightarrow> module \<Rightarrow> nat \<Rightarrow> vm act" where
  "module_inst_init_global am lay ms m i =
     act_for (unat (imported_global_count m)) (vec_size (globals m) - unat (imported_global_count m)) (init_global am lay ms m i)"

text \<open>The offset of an active segment: an expression of type \<open>i32\<close>.\<close>

definition segment_offset :: "alloc \<Rightarrow> (addr \<Rightarrow> ref) \<Rightarrow> mods \<Rightarrow> vm \<Rightarrow> module_inst \<Rightarrow> str \<Rightarrow> u32 res" where
  "segment_offset am lay ms v mi expr =
     unwrap (interp_reduce_const_expr am lay ms v mi (stream_from expr) False) (\<lambda>val.
     if tv_type val \<noteq> TYPE_ID_i32 then Inl E_invalid else Inr (ucast (tv_val val)))"

definition set_tab_elem :: "addr option \<Rightarrow> nat \<Rightarrow> ref \<Rightarrow> vm \<Rightarrow> vm res" where
  "set_tab_elem a n x v =
     unwrap (at_addr mi_tables v a) (\<lambda>ti.
     unwrap (vec_set (tdata ti) n x) (\<lambda>d. set_addr mi_tables mi_tables_update (ti\<lparr>tdata := d\<rparr>) v a))"

text \<open>The reference for a function index of an element segment.\<close>

definition funcidx_ref :: "(addr \<Rightarrow> ref) \<Rightarrow> module_inst \<Rightarrow> u32 \<Rightarrow> ref res" where
  "funcidx_ref lay mi f_idx =
     (if f_idx \<noteq> nullfidx then unwrap (vec_at (f_addrs mi) (unat f_idx)) (\<lambda>a. Inr (to_ref lay a)) else Inr nullref)"

definition elem_funcidx :: "(addr \<Rightarrow> ref) \<Rightarrow> nat \<Rightarrow> element \<Rightarrow> addr option \<Rightarrow> u32 \<Rightarrow> nat \<Rightarrow> vm act" where
  "elem_funcidx lay i elem t_addr offset j v =
     act_let (the_inst v i) (\<lambda>mi.
     act_let (vec_at (v_funcidx elem) j) (\<lambda>f_idx.
     act_let (funcidx_ref lay mi f_idx) (\<lambda>fref v. act_set (set_tab_elem t_addr (unat (offset + of_nat j)) fref v) v))) v"

definition elem_expr :: "alloc \<Rightarrow> (addr \<Rightarrow> ref) \<Rightarrow> mods \<Rightarrow> nat \<Rightarrow> element \<Rightarrow> addr option \<Rightarrow> u32 \<Rightarrow> nat \<Rightarrow> vm act" where
  "elem_expr am lay ms i elem t_addr offset j v =
     act_let (the_inst v i) (\<lambda>mi.
     act_let (vec_at (v_expr elem) j) (\<lambda>expr.
     act_let (interp_reduce_const_expr am lay ms v mi (stream_from expr) False) (\<lambda>val.
     if \<not> is_ref (tv_type val) then act_err E_invalid
     else (\<lambda>v. act_set (set_tab_elem t_addr (unat (offset + of_nat j)) (tv_val val) v) v)))) v"

definition init_active_elem :: "alloc \<Rightarrow> (addr \<Rightarrow> ref) \<Rightarrow> mods \<Rightarrow> module \<Rightarrow> nat \<Rightarrow> element \<Rightarrow> vm act" where
  "init_active_elem am lay ms m i elem v =
     act_let (the_inst v i) (\<lambda>mi.
     if unat (tableidx elem) \<ge> vec_size (t_addrs mi) then act_err E_invalid
     else
       act_let (vec_at (t_addrs mi) (unat (tableidx elem))) (\<lambda>t_addr.
       if unat (tableidx elem) \<ge> vec_size (tables m) then act_err E_invalid
       else
         act_let (if \<not> str_is_null (el_offset_expr elem) then segment_offset am lay ms v mi (el_offset_expr elem) else Inr 0) (\<lambda>offset.
         act_let (at_addr mi_tables v t_addr) (\<lambda>t.
         if unat offset + data_len elem > vec_size (tdata t) then act_err E_invalid
         else if vec_size (v_funcidx elem) \<noteq> 0 then act_for 0 (data_len elem) (elem_funcidx lay i elem t_addr offset)
         else if vec_size (v_expr elem) \<noteq> 0 then act_for 0 (data_len elem) (elem_expr am lay ms i elem t_addr offset)
         else if data_len elem \<noteq> 0 then act_err Fault
         else Pair None)))) v"

definition drop_element :: "nat \<Rightarrow> nat \<Rightarrow> vm \<Rightarrow> vm res" where
  "drop_element i k v =
     unwrap (the_inst v i) (\<lambda>mi. unwrap (vec_set (dropped_elements mi) k 1) (\<lambda>x. Inr (set_inst i (mi\<lparr>dropped_elements := x\<rparr>) v)))"

definition init_elem :: "alloc \<Rightarrow> (addr \<Rightarrow> ref) \<Rightarrow> mods \<Rightarrow> module \<Rightarrow> nat \<Rightarrow> nat \<Rightarrow> vm act" where
  "init_elem am lay ms m i k =
     act_let (vec_at (elements m) k) (\<lambda>elem.
     act_then (if el_mode elem = elem_mode_active then init_active_elem am lay ms m i elem else Pair None)
              (\<lambda>v. if el_mode elem \<noteq> elem_mode_passive then act_set (drop_element i k v) v else (None, v)))"

definition module_inst_init_elem :: "alloc \<Rightarrow> (addr \<Rightarrow> ref) \<Rightarrow> mods \<Rightarrow> module \<Rightarrow> nat \<Rightarrow> vm act" where
  "module_inst_init_elem am lay ms m i = act_for 0 (vec_size (elements m)) (init_elem am lay ms m i)"

text \<open>\<open>memcpy\<close> into a memory.\<close>

definition mem_copy_in :: "addr option \<Rightarrow> nat \<Rightarrow> u8 list \<Rightarrow> vm \<Rightarrow> vm res" where
  "mem_copy_in a dst bytes v =
     unwrap (at_addr mi_memories v a) (\<lambda>x.
     let d = vdata (mdata x) in
     if dst + length bytes > length d then Inl Fault
     else set_addr mi_memories mi_memories_update
            (x\<lparr>mdata := (mdata x)\<lparr>vdata := take dst d @ bytes @ drop (dst + length bytes) d\<rparr>\<rparr>) v a)"

definition drop_data :: "nat \<Rightarrow> nat \<Rightarrow> vm \<Rightarrow> vm res" where
  "drop_data i k v =
     unwrap (the_inst v i) (\<lambda>mi. unwrap (vec_set (dropped_data mi) k 1) (\<lambda>x. Inr (set_inst i (mi\<lparr>dropped_data := x\<rparr>) v)))"

definition init_data :: "alloc \<Rightarrow> (addr \<Rightarrow> ref) \<Rightarrow> mods \<Rightarrow> module \<Rightarrow> nat \<Rightarrow> nat \<Rightarrow> vm act" where
  "init_data am lay ms m i k v =
     act_let (the_inst v i) (\<lambda>mi.
     act_let (vec_at (m_data m) k) (\<lambda>d.
     if \<not> is_active d then Pair None
     else if unat (memidx d) \<ge> vec_size (mi_memories mi) then act_err E_invalid
     else
       act_let (vec_at (m_addrs mi) (unat (memidx d))) (\<lambda>m_addr.
       act_let (segment_offset am lay ms v mi (d_offset_expr d)) (\<lambda>offset.
       act_let (at_addr mi_memories v m_addr) (\<lambda>x.
       if unat offset + length (d_bytes d) > vec_size (mdata x) then act_err E_invalid
       else
         act_then (\<lambda>v. if length (d_bytes d) \<noteq> 0 then act_set (mem_copy_in m_addr (unat offset) (d_bytes d) v) v else (None, v))
                  (\<lambda>v. act_set (drop_data i k v) v)))))) v"

definition module_inst_init_data :: "alloc \<Rightarrow> (addr \<Rightarrow> ref) \<Rightarrow> mods \<Rightarrow> module \<Rightarrow> nat \<Rightarrow> vm act" where
  "module_inst_init_data am lay ms m i = act_for 0 (vec_size (m_data m)) (init_data am lay ms m i)"

type_synonym call = "mods \<Rightarrow> vm \<Rightarrow> thread \<Rightarrow> addr option \<Rightarrow> typed_value vec \<Rightarrow> (err option \<times> vm \<times> thread) option"

definition module_inst_init :: "alloc \<Rightarrow> (addr \<Rightarrow> ref) \<Rightarrow> call \<Rightarrow> mods \<Rightarrow> nat \<Rightarrow> vm \<Rightarrow> (err option \<times> vm) option" where
  "module_inst_init am lay call ms i v =
     (case unwrap (the_inst v i) (\<lambda>mi. the_mod ms (mi_mod mi)) of
        Inl e \<Rightarrow> Some (Some e, v)
      | Inr m \<Rightarrow>
          (case act_then (module_inst_init_global am lay ms m i)
               (act_then (module_inst_init_elem am lay ms m i)
                         (module_inst_init_data am lay ms m i)) v of
             (Some e, v) \<Rightarrow> Some (Some e, v)
           | (None, v) \<Rightarrow>
               (case start_funcidx m of
                  None \<Rightarrow> Some (None, v)
                | Some idx \<Rightarrow>
                    (case unwrap (the_inst v i) (\<lambda>mi. vec_at (f_addrs mi) (unat idx)) of
                       Inl e \<Rightarrow> Some (Some e, v)
                     | Inr f_addr \<Rightarrow> map_option (\<lambda>(e, v, t). (e, v)) (call ms v thread_zero f_addr vec_empty)))))"

section \<open>The vm\<close>

definition drop_ref :: "ptr \<Rightarrow> mods \<Rightarrow> mods res" where
  "drop_ref p ms =
     unwrap (the_mod ms p) (\<lambda>m. if ref_count m = 0 then Inl Fault else Inr (set_mod p (m\<lparr>ref_count := ref_count m - 1\<rparr>) ms))"

text \<open>An instance gives up its module and its storage.\<close>

definition module_inst_drop :: "module_inst \<Rightarrow> mods \<Rightarrow> mods res" where
  "module_inst_drop mi ms = drop_ref (mi_mod mi) ms"

definition validate_step :: "alloc \<Rightarrow> ptr \<Rightarrow> nat \<Rightarrow> mods act" where
  "validate_step am p k ms =
     act_let (the_mod ms p) (\<lambda>m.
     act_let (vec_at (funcs m) k) (\<lambda>fn.
     if f_linkage fn AND linkage_imported \<noteq> 0 then Pair None
     else
       act_let (validate_func am m fn) (\<lambda>fn'.
       act_let (vec_set (funcs m) k fn') (\<lambda>fs ms. (None, set_mod p (m\<lparr>funcs := fs\<rparr>) ms))))) ms"

definition set_state :: "nat \<Rightarrow> module_inst_state \<Rightarrow> vm \<Rightarrow> vm" where
  "set_state i s v = v\<lparr>instances := (instances v)[i := (instances v ! i)\<lparr>mi_state := s\<rparr>]\<rparr>"

definition vm_instantiate_module ::
  "alloc \<Rightarrow> (addr \<Rightarrow> ref) \<Rightarrow> call \<Rightarrow> ptr \<Rightarrow> mods \<times> vm \<Rightarrow> (err option \<times> mods \<times> vm) option" where
  "vm_instantiate_module am lay call p s =
     (case s of (ms, v) \<Rightarrow>
        if list_ex (\<lambda>mi. mi_mod mi = p) (instances v) then Some (None, ms, v)
        else case the_mod ms p of Inl e \<Rightarrow> Some (Some e, ms, v) | Inr m \<Rightarrow>
        (case act_for 0 (vec_size (funcs m)) (validate_step am p) ms of
           (Some e, ms) \<Rightarrow> Some (Some e, ms, v)
         | (None, ms) \<Rightarrow>
             (case unwrap (the_mod ms p) (module_inst_new am p) of
                Inl e \<Rightarrow> Some (Some e, ms, v)
              | Inr (mod_ins, m) \<Rightarrow>
                  if \<not> am T_module_inst 1 then Some (Some E_general, ms, v)
                  else
                    let ms = set_mod p m ms;
                        i = length (instances v);
                        v = v\<lparr>instances := instances v @ [mod_ins]\<rparr> in
                    (case vm_link_module_inst ms i v of
                       (Some e, v) \<Rightarrow> Some (Some e, ms, set_state i module_inst_init_failed v)
                     | (None, v) \<Rightarrow>
                         (case module_inst_init am lay call ms i v of
                            None \<Rightarrow> None
                          | Some (Some e, v) \<Rightarrow> Some (Some e, ms, set_state i module_inst_init_failed v)
                          | Some (None, v) \<Rightarrow> Some (None, ms, set_state i module_inst_ready v))))))"

definition thread_reset :: "thread \<Rightarrow> thread" where
  "thread_reset t = thread_zero"

definition vm_drop :: "mods \<times> vm \<Rightarrow> (mods \<times> vm) res" where
  "vm_drop s =
     (case s of (ms, v) \<Rightarrow>
        unwrap (foreach_res module_inst_drop (instances v) ms) (\<lambda>ms.
        Inr (ms, \<lparr>instances = [], vm_thread = thread_reset (vm_thread v)\<rparr>)))"

definition vm_owns_mod_inst :: "vm \<Rightarrow> nat \<Rightarrow> bool" where
  "vm_owns_mod_inst v i = (i < length (instances v))"

definition vm_find_module_func :: "mods \<Rightarrow> vm \<Rightarrow> nat \<Rightarrow> str \<Rightarrow> addr option res" where
  "vm_find_module_func ms v i func_name =
     (if \<not> vm_owns_mod_inst v i \<or> mi_state (instances v ! i) \<noteq> module_inst_ready then Inr None
      else
        unwrap (the_mod ms (mi_mod (instances v ! i))) (\<lambda>m.
        case find_export m EXTERNAL_KIND_Function func_name of
          None \<Rightarrow> Inr None
        | Some exp \<Rightarrow> vec_at (f_addrs (instances v ! i)) (unat (external_idx exp))))"

definition vm_find_module_global :: "mods \<Rightarrow> vm \<Rightarrow> nat \<Rightarrow> str \<Rightarrow> addr option res" where
  "vm_find_module_global ms v i glob_name =
     (if \<not> vm_owns_mod_inst v i then Inr None
      else
        unwrap (the_mod ms (mi_mod (instances v ! i))) (\<lambda>m.
        case find_export m EXTERNAL_KIND_Global glob_name of
          None \<Rightarrow> Inr None
        | Some exp \<Rightarrow> vec_at (g_addrs (instances v ! i)) (unat (external_idx exp))))"

definition vm_find_func :: "mods \<Rightarrow> vm \<Rightarrow> str \<Rightarrow> str \<Rightarrow> addr option res" where
  "vm_find_func ms v mod_name func_name =
     unwrap (vm_find_module_inst ms v mod_name) (\<lambda>mod_inst.
     case mod_inst of None \<Rightarrow> Inr None | Some i \<Rightarrow> vm_find_module_func ms v i func_name)"

definition vm_get_thread :: "vm \<Rightarrow> thread" where
  "vm_get_thread v = vm_thread v"

end
