(* ===== verification/Vm_Link.thy ===== *)
theory Vm_Link
  imports Vm Validator_Correct
begin

text \<open>
  Linking: what a module instance is connected to when \<open>vm_link_module_inst\<close> returns without an
  error.
\<close>

section \<open>Actions\<close>

lemma act_let_None: "act_let r f s = (None, s') \<longleftrightarrow> (\<exists>x. r = Inr x \<and> f x s = (None, s'))"
  by (cases r) (simp_all add: act_let_def)

lemma act_set_None: "act_set r s = (None, s') \<longleftrightarrow> r = Inr s'"
  by (cases r) (simp_all add: act_set_def)

lemma act_then_None: "act_then a b s = (None, s') \<longleftrightarrow> (\<exists>s1. a s = (None, s1) \<and> b s1 = (None, s'))"
  by (auto simp: act_then_def split: prod.splits option.splits)

lemma act_err_None: "act_err e s \<noteq> (None, s')"
  by (simp add: act_err_def)

lemmas act_None = act_let_None act_set_None act_then_None act_err_None

text \<open>A loop that returns without an error has run every round.\<close>

lemma act_for_None:
  assumes "act_for i n body s = (None, s')" "I i s"
    and "\<And>j s s'. i \<le> j \<Longrightarrow> j < i + n \<Longrightarrow> I j s \<Longrightarrow> body j s = (None, s') \<Longrightarrow> I (Suc j) s'"
  shows "I (i + n) s'"
  using assms
proof (induction n arbitrary: i s)
  case 0
  then show ?case by simp
next
  case (Suc n)
  obtain s1 where s1: "body i s = (None, s1)" "act_for (Suc i) n body s1 = (None, s')"
    using Suc.prems(1) by (auto simp: act_None)
  have "I (Suc i + n) s'"
    by (rule Suc.IH [OF s1(2)]) (use Suc.prems s1(1) in auto)
  then show ?case by simp
qed

section \<open>Shape\<close>

text \<open>
  The instance has an entry for every function, table, memory and global of its module, and
  each entry refers back to it.
\<close>

definition shape_ok :: "module \<Rightarrow> module_inst \<Rightarrow> bool" where
  "shape_ok m mi \<longleftrightarrow>
     map (\<lambda>fi. (fi_mod fi, fi_fn fi)) (vdata (mi_funcs mi)) = map (Pair (mi_mod mi)) [0..<vec_size (funcs m)] \<and>
     map ti_tab (vdata (mi_tables mi)) = [0..<vec_size (tables m)] \<and>
     map mi_mem (vdata (mi_memories mi)) = [0..<vec_size (memories m)] \<and>
     map gi_glob (vdata (mi_globals mi)) = [0..<vec_size (globals m)]"

text \<open>What linking leaves alone: everything but the address tables and the back pointers of the functions.\<close>

definition skel_inst :: "module_inst \<Rightarrow> module_inst" where
  "skel_inst mi = mi\<lparr>mi_funcs := (mi_funcs mi)\<lparr>vdata := map (\<lambda>fi. fi\<lparr>fi_mod_inst := None\<rparr>) (vdata (mi_funcs mi))\<rparr>,
     f_addrs := vec_empty, g_addrs := vec_empty, m_addrs := vec_empty, t_addrs := vec_empty\<rparr>"

definition skel :: "vm \<Rightarrow> vm" where
  "skel v = v\<lparr>instances := map skel_inst (instances v)\<rparr>"

lemma skel_inst_simps [simp]:
  "mi_mod (skel_inst mi) = mi_mod mi" "mi_tables (skel_inst mi) = mi_tables mi" "mi_memories (skel_inst mi) = mi_memories mi"
  "mi_globals (skel_inst mi) = mi_globals mi" "mi_state (skel_inst mi) = mi_state mi"
  by (simp_all add: skel_inst_def)

lemma the_inst_skel: "the_inst (skel v) i = unwrap (the_inst v i) (\<lambda>mi. Inr (skel_inst mi))"
  by (simp add: the_inst_def skel_def)

lemma addr_fn_skel: "addr_fn ms (skel v) a = addr_fn ms v a"
proof (cases a)
  case (Some x)
  then show ?thesis
    by (cases x, cases "the_inst v (fst x)") (auto simp: addr_fn_def at_addr_def the_inst_skel vec_at_def skel_inst_def cong: if_cong)
qed (simp add: addr_fn_def at_addr_def)

lemma addr_skel:
  assumes "\<And>mi. sel (skel_inst mi) = sel mi"
  shows "at_addr sel (skel v) a = at_addr sel v a" "addr_module ms (skel v) a = addr_module ms v a"
  by (cases a; cases "the_inst v (fst (the a))"; auto simp: addr_module_def at_addr_def the_inst_skel assms)+

lemma addr_deref_skel:
  "addr_tab ms (skel v) a = addr_tab ms v a" "addr_mem ms (skel v) a = addr_mem ms v a" "addr_glob ms (skel v) a = addr_glob ms v a"
  by (simp_all add: addr_tab_def addr_mem_def addr_glob_def addr_skel)

lemma deref_same_skel:
  assumes "skel v = skel v'"
  shows "addr_fn ms v a = addr_fn ms v' a" "addr_tab ms v a = addr_tab ms v' a" "addr_mem ms v a = addr_mem ms v' a"
    "addr_glob ms v a = addr_glob ms v' a" "at_addr mi_memories v a = at_addr mi_memories v' a"
    "length (instances v) = length (instances v')" "i < length (instances v) \<Longrightarrow> skel_inst (instances v ! i) = skel_inst (instances v' ! i)"
proof -
  show "addr_fn ms v a = addr_fn ms v' a" "addr_tab ms v a = addr_tab ms v' a" "addr_mem ms v a = addr_mem ms v' a"
    "addr_glob ms v a = addr_glob ms v' a" "at_addr mi_memories v a = at_addr mi_memories v' a"
    using assms by (metis addr_fn_skel addr_deref_skel addr_skel(1) skel_inst_simps(3))+
  have eq: "map skel_inst (instances v) = map skel_inst (instances v')"
    using arg_cong [OF assms, of instances] by (simp add: skel_def)
  then show len: "length (instances v) = length (instances v')"
    by (rule map_eq_imp_length_eq)
  show "skel_inst (instances v ! i) = skel_inst (instances v' ! i)" if "i < length (instances v)"
    using eq that len by (metis nth_map)
qed

lemma shape_skel: "shape_ok m (skel_inst mi) = shape_ok m mi"
  by (simp add: shape_ok_def skel_inst_def comp_def)

section \<open>Links\<close>

definition func_linked :: "mods \<Rightarrow> vm \<Rightarrow> nat \<Rightarrow> nat \<Rightarrow> func \<Rightarrow> addr option \<Rightarrow> bool" where
  "func_linked ms v i k f a \<longleftrightarrow> (\<not> is_imported (f_linkage f) \<longrightarrow> a = Some (i, k)) \<and>
     (\<exists>f'. addr_fn ms v a = Inr f' \<and> fn_type f' = fn_type f)"

definition global_linked :: "mods \<Rightarrow> vm \<Rightarrow> nat \<Rightarrow> nat \<Rightarrow> global \<Rightarrow> addr option \<Rightarrow> bool" where
  "global_linked ms v i k g a \<longleftrightarrow> (\<not> is_imported (g_linkage g) \<longrightarrow> a = Some (i, k)) \<and>
     (\<exists>g'. addr_glob ms v a = Inr g' \<and> g_valtype g' = g_valtype g \<and> g_mut g' = g_mut g)"

definition memory_linked :: "mods \<Rightarrow> vm \<Rightarrow> nat \<Rightarrow> nat \<Rightarrow> memory \<Rightarrow> addr option \<Rightarrow> bool" where
  "memory_linked ms v i k mem a \<longleftrightarrow> (\<not> is_imported (mem_linkage mem) \<longrightarrow> a = Some (i, k)) \<and>
     (\<exists>mem'. addr_mem ms v a = Inr mem' \<and> lim_max (mem_lim mem') \<le> lim_max (mem_lim mem)) \<and>
     (is_imported (mem_linkage mem) \<longrightarrow>
       (\<exists>x. at_addr mi_memories v a = Inr x \<and> unat (lim_min (mem_lim mem)) \<le> length (vdata (mdata x)) div WASM_PAGE_SIZE))"

definition table_linked :: "mods \<Rightarrow> vm \<Rightarrow> nat \<Rightarrow> nat \<Rightarrow> table \<Rightarrow> addr option \<Rightarrow> bool" where
  "table_linked ms v i k tab a \<longleftrightarrow> (\<not> is_imported (tab_linkage tab) \<longrightarrow> a = Some (i, k)) \<and>
     (\<exists>tab'. addr_tab ms v a = Inr tab' \<and> tab_valtype tab' = tab_valtype tab \<and>
       lim_min (tab_lim tab) \<le> lim_min (tab_lim tab') \<and> lim_max (tab_lim tab') \<le> lim_max (tab_lim tab))"

lemma linked_same_skel:
  assumes "skel v = skel v'"
  shows "func_linked ms v i k f a = func_linked ms v' i k f a" "global_linked ms v i k g a = global_linked ms v' i k g a"
    "memory_linked ms v i k mem a = memory_linked ms v' i k mem a" "table_linked ms v i k tab a = table_linked ms v' i k tab a"
  using deref_same_skel [OF assms] by (simp_all add: func_linked_def global_linked_def memory_linked_def table_linked_def)

text \<open>The entities that a module defines itself.\<close>

lemma own_entries:
  assumes i: "i < length (instances v)" and m: "map_of ms (mi_mod (instances v ! i)) = Some m" and s: "shape_ok m (instances v ! i)"
  shows "k < vec_size (funcs m) \<Longrightarrow> addr_fn ms v (Some (i, k)) = Inr (vdata (funcs m) ! k)"
    "k < vec_size (globals m) \<Longrightarrow> addr_glob ms v (Some (i, k)) = Inr (vdata (globals m) ! k)"
    "k < vec_size (memories m) \<Longrightarrow> addr_mem ms v (Some (i, k)) = Inr (vdata (memories m) ! k)"
    "k < vec_size (tables m) \<Longrightarrow> addr_tab ms v (Some (i, k)) = Inr (vdata (tables m) ! k)"
proof -
  let ?mi = "instances v ! i"
  have len: "length (vdata (mi_funcs ?mi)) = vec_size (funcs m)" "length (vdata (mi_globals ?mi)) = vec_size (globals m)"
    "length (vdata (mi_memories ?mi)) = vec_size (memories m)" "length (vdata (mi_tables ?mi)) = vec_size (tables m)"
    using s by (auto simp: shape_ok_def dest!: arg_cong [where f = length])
  have f: "fi_mod (vdata (mi_funcs ?mi) ! k) = mi_mod ?mi" "fi_fn (vdata (mi_funcs ?mi) ! k) = k" if "k < vec_size (funcs m)"
    using s that len(1) by (auto simp: shape_ok_def dest!: arg_cong [where f = "\<lambda>xs. xs ! k"])
  have g: "gi_glob (vdata (mi_globals ?mi) ! k) = k" if "k < vec_size (globals m)"
    using s that len(2) by (auto simp: shape_ok_def dest!: arg_cong [where f = "\<lambda>xs. xs ! k"])
  have mm: "mi_mem (vdata (mi_memories ?mi) ! k) = k" if "k < vec_size (memories m)"
    using s that len(3) by (auto simp: shape_ok_def dest!: arg_cong [where f = "\<lambda>xs. xs ! k"])
  have t: "ti_tab (vdata (mi_tables ?mi) ! k) = k" if "k < vec_size (tables m)"
    using s that len(4) by (auto simp: shape_ok_def dest!: arg_cong [where f = "\<lambda>xs. xs ! k"])
  show "addr_fn ms v (Some (i, k)) = Inr (vdata (funcs m) ! k)" if "k < vec_size (funcs m)"
    using f [OF that] that i m len by (simp add: addr_fn_def at_addr_def the_inst_def the_mod_def vec_at_def vec_size_def)
  show "addr_glob ms v (Some (i, k)) = Inr (vdata (globals m) ! k)" if "k < vec_size (globals m)"
    using g [OF that] that i m len by (simp add: addr_glob_def addr_module_def at_addr_def the_inst_def the_mod_def vec_at_def vec_size_def)
  show "addr_mem ms v (Some (i, k)) = Inr (vdata (memories m) ! k)" if "k < vec_size (memories m)"
    using mm [OF that] that i m len by (simp add: addr_mem_def addr_module_def at_addr_def the_inst_def the_mod_def vec_at_def vec_size_def)
  show "addr_tab ms v (Some (i, k)) = Inr (vdata (tables m) ! k)" if "k < vec_size (tables m)"
    using t [OF that] that i m len by (simp add: addr_tab_def addr_module_def at_addr_def the_inst_def the_mod_def vec_at_def vec_size_def)
qed

text \<open>Linking instance \<open>i\<close> changes nothing but its address tables and back pointers.\<close>

definition relinked :: "nat \<Rightarrow> vm \<Rightarrow> vm \<Rightarrow> bool" where
  "relinked i v v' \<longleftrightarrow> skel v' = skel v \<and> (\<forall>j. j \<noteq> i \<longrightarrow> instances v' ! j = instances v ! j)"

definition inst_links :: "module_inst \<Rightarrow> addr option list \<times> addr option list \<times> addr option list \<times> addr option list" where
  "inst_links mi = (vdata (f_addrs mi), vdata (g_addrs mi), vdata (m_addrs mi), vdata (t_addrs mi))"

lemma skel_set_inst:
  assumes "the_inst v i = Inr mi" "skel_inst mi' = skel_inst mi"
  shows "relinked i v (set_inst i mi' v)"
  using assms by (simp add: relinked_def skel_def set_inst_def the_inst_def map_update list_update_same_conv split: if_splits)

lemma relinked_trans: "relinked i v v' \<Longrightarrow> relinked i v' v'' \<Longrightarrow> relinked i v v''"
  by (simp add: relinked_def)

lemma relinked_length: "relinked i v v' \<Longrightarrow> length (instances v') = length (instances v)"
  by (auto simp: relinked_def dest: deref_same_skel(6))

lemma pin_func_result:
  assumes "pin_func i k v = Inr v'"
  shows "relinked i v v' \<and> i < length (instances v) \<and> inst_links (instances v' ! i) = inst_links (instances v ! i)"
proof -
  obtain mi x where x: "the_inst v i = Inr mi" "update_at (mi_funcs mi) k (\<lambda>fi. fi\<lparr>fi_mod_inst := Some i\<rparr>) = Inr x"
    "v' = set_inst i (mi\<lparr>mi_funcs := x\<rparr>) v"
    using assms by (auto simp: pin_func_def res_simps)
  have "skel_inst (mi\<lparr>mi_funcs := x\<rparr>) = skel_inst mi"
    using x(2) by (auto simp: update_at_def vec_at_def vec_set_def skel_inst_def map_update list_update_same_conv split: if_splits)
  then show ?thesis
    using skel_set_inst [OF x(1)] x(1,3) by (auto simp: the_inst_def set_inst_def inst_links_def split: if_splits)
qed

lemma set_addr_results:
  assumes "i < length (instances v)" "inst_links (instances v ! i) = (fs, gs, mes, ts)"
  shows "set_f_addr i k a v = Inr v' \<Longrightarrow> relinked i v v' \<and> k < length fs \<and> inst_links (instances v' ! i) = (fs[k := a], gs, mes, ts)"
    "set_g_addr i k a v = Inr v' \<Longrightarrow> relinked i v v' \<and> k < length gs \<and> inst_links (instances v' ! i) = (fs, gs[k := a], mes, ts)"
    "set_m_addr i k a v = Inr v' \<Longrightarrow> relinked i v v' \<and> k < length mes \<and> inst_links (instances v' ! i) = (fs, gs, mes[k := a], ts)"
    "set_t_addr i k a v = Inr v' \<Longrightarrow> relinked i v v' \<and> k < length ts \<and> inst_links (instances v' ! i) = (fs, gs, mes, ts[k := a])"
  using assms
  by (auto simp: set_f_addr_def set_g_addr_def set_m_addr_def set_t_addr_def res_simps the_inst_def vec_set_def inst_links_def set_inst_def
      relinked_def skel_def map_update list_update_same_conv skel_inst_def split: if_splits)

section \<open>Targets\<close>

lemma target_linked:
  assumes "i < length (instances v)" "map_of ms (mi_mod (instances v ! i)) = Some m" "shape_ok m (instances v ! i)"
  shows "link_func_target ms i (vdata (funcs m) ! k) k v = Inr a \<Longrightarrow> k < vec_size (funcs m) \<Longrightarrow>
      func_linked ms v i k (vdata (funcs m) ! k) a"
    "link_global_target ms i (vdata (globals m) ! k) k v = Inr a \<Longrightarrow> k < vec_size (globals m) \<Longrightarrow>
      global_linked ms v i k (vdata (globals m) ! k) a"
    "link_memory_target ms i (vdata (memories m) ! k) k v = Inr a \<Longrightarrow> k < vec_size (memories m) \<Longrightarrow>
      memory_linked ms v i k (vdata (memories m) ! k) a"
    "link_table_target ms i (vdata (tables m) ! k) k v = Inr a \<Longrightarrow> k < vec_size (tables m) \<Longrightarrow>
      table_linked ms v i k (vdata (tables m) ! k) a"
  using own_entries [OF assms, of k]
  by (auto simp: link_func_target_def link_global_target_def link_memory_target_def link_table_target_def res_simps func_linked_def
      global_linked_def memory_linked_def table_linked_def func_type_eq_iff Let_def not_less vec_size_def split: if_splits)

section \<open>The loops\<close>

text \<open>The first \<open>nf\<close> functions, \<open>ng\<close> globals, \<open>nm\<close> memories and \<open>nt\<close> tables are linked.\<close>

definition links_ok :: "mods \<Rightarrow> vm \<Rightarrow> nat \<Rightarrow> module \<Rightarrow> nat \<Rightarrow> nat \<Rightarrow> nat \<Rightarrow> nat \<Rightarrow> module_inst \<Rightarrow> bool" where
  "links_ok ms v i m nf ng nm nt mi \<longleftrightarrow>
     (\<forall>k < nf. k < length (vdata (f_addrs mi)) \<and> func_linked ms v i k (vdata (funcs m) ! k) (vdata (f_addrs mi) ! k)) \<and>
     (\<forall>k < ng. k < length (vdata (g_addrs mi)) \<and> global_linked ms v i k (vdata (globals m) ! k) (vdata (g_addrs mi) ! k)) \<and>
     (\<forall>k < nm. k < length (vdata (m_addrs mi)) \<and> memory_linked ms v i k (vdata (memories m) ! k) (vdata (m_addrs mi) ! k)) \<and>
     (\<forall>k < nt. k < length (vdata (t_addrs mi)) \<and> table_linked ms v i k (vdata (tables m) ! k) (vdata (t_addrs mi) ! k))"

lemma links_ok_inst_links:
  "inst_links mi = (fs, gs, mes, ts) \<Longrightarrow> links_ok ms v i m nf ng nm nt mi \<longleftrightarrow>
     (\<forall>k < nf. k < length fs \<and> func_linked ms v i k (vdata (funcs m) ! k) (fs ! k)) \<and>
     (\<forall>k < ng. k < length gs \<and> global_linked ms v i k (vdata (globals m) ! k) (gs ! k)) \<and>
     (\<forall>k < nm. k < length mes \<and> memory_linked ms v i k (vdata (memories m) ! k) (mes ! k)) \<and>
     (\<forall>k < nt. k < length ts \<and> table_linked ms v i k (vdata (tables m) ! k) (ts ! k))"
  by (auto simp: links_ok_def inst_links_def)

definition linkable :: "mods \<Rightarrow> vm \<Rightarrow> nat \<Rightarrow> module \<Rightarrow> bool" where
  "linkable ms v i m \<longleftrightarrow> i < length (instances v) \<and> map_of ms (mi_mod (instances v ! i)) = Some m \<and> shape_ok m (instances v ! i)"

lemma linkable_relinked:
  assumes "linkable ms v i m" "relinked i v v'"
  shows "linkable ms v' i m"
proof -
  have sk: "skel v' = skel v"
    using assms(2) by (simp add: relinked_def)
  have i: "i < length (instances v')" "i < length (instances v)"
    using assms relinked_length by (auto simp: linkable_def)
  have "skel_inst (instances v' ! i) = skel_inst (instances v ! i)"
    using deref_same_skel(7) [OF sk i(1)] .
  then show ?thesis
    using assms(1) i shape_skel skel_inst_simps(1) unfolding linkable_def by metis
qed

lemmas linkable_targets = target_linked [OF linkable_def [THEN iffD1, THEN conjunct1]
    linkable_def [THEN iffD1, THEN conjunct2, THEN conjunct1] linkable_def [THEN iffD1, THEN conjunct2, THEN conjunct2]]

lemma link_func_step:
  assumes "linkable ms v i m" "relinked i v v1" "links_ok ms v i m k ng nm nt (instances v1 ! i)" "k < vec_size (funcs m)"
    and "link_func ms m i k v1 = (None, v2)"
  shows "relinked i v v2 \<and> links_ok ms v i m (Suc k) ng nm nt (instances v2 ! i)"
proof -
  obtain v3 a where v3: "pin_func i k v1 = Inr v3" and a: "link_func_target ms i (vdata (funcs m) ! k) k v3 = Inr a"
    and v2: "set_f_addr i k a v3 = Inr v2"
    using assms(4,5) by (auto simp: link_func_def act_None vec_at_def split: if_splits)
  have p: "relinked i v v3" "inst_links (instances v3 ! i) = inst_links (instances v1 ! i)"
    using pin_func_result [OF v3] assms(2) relinked_trans by blast+
  obtain fs gs mes ts where l: "inst_links (instances v3 ! i) = (fs, gs, mes, ts)"
    by (metis prod_cases4)
  have l1: "inst_links (instances v1 ! i) = (fs, gs, mes, ts)"
    using l p(2) by simp
  have lk: "linkable ms v3 i m"
    using linkable_relinked [OF assms(1) p(1)] .
  have "func_linked ms v i k (vdata (funcs m) ! k) a"
    using linkable_targets(1) [OF lk lk lk a assms(4)] linked_same_skel(1) p(1) unfolding relinked_def by metis
  moreover have "relinked i v3 v2 \<and> k < length fs \<and> inst_links (instances v2 ! i) = (fs[k := a], gs, mes, ts)"
    using set_addr_results(1) [OF _ l v2] lk by (simp add: linkable_def)
  ultimately show ?thesis
    using assms(3) l1 relinked_trans [OF p(1)] by (auto simp: links_ok_inst_links less_Suc_eq nth_list_update)
qed

lemma link_global_step:
  assumes "linkable ms v i m" "relinked i v v1" "links_ok ms v i m nf k nm nt (instances v1 ! i)" "k < vec_size (globals m)"
    and "link_global ms m i k v1 = (None, v2)"
  shows "relinked i v v2 \<and> links_ok ms v i m nf (Suc k) nm nt (instances v2 ! i)"
proof -
  obtain a where a: "link_global_target ms i (vdata (globals m) ! k) k v1 = Inr a" and v2: "set_g_addr i k a v1 = Inr v2"
    using assms(4,5) by (auto simp: link_global_def act_None vec_at_def split: if_splits)
  obtain fs gs mes ts where l: "inst_links (instances v1 ! i) = (fs, gs, mes, ts)"
    by (metis prod_cases4)
  have lk: "linkable ms v1 i m"
    using linkable_relinked [OF assms(1,2)] .
  have "global_linked ms v i k (vdata (globals m) ! k) a"
    using linkable_targets(2) [OF lk lk lk a assms(4)] linked_same_skel(2) assms(2) unfolding relinked_def by metis
  moreover have "relinked i v1 v2 \<and> k < length gs \<and> inst_links (instances v2 ! i) = (fs, gs[k := a], mes, ts)"
    using set_addr_results(2) [OF _ l v2] lk by (simp add: linkable_def)
  ultimately show ?thesis
    using assms(3) l relinked_trans [OF assms(2)] by (auto simp: links_ok_inst_links less_Suc_eq nth_list_update)
qed

lemma link_memory_step:
  assumes "linkable ms v i m" "relinked i v v1" "links_ok ms v i m nf ng k nt (instances v1 ! i)" "k < vec_size (memories m)"
    and "link_memory ms m i k v1 = (None, v2)"
  shows "relinked i v v2 \<and> links_ok ms v i m nf ng (Suc k) nt (instances v2 ! i)"
proof -
  obtain a where a: "link_memory_target ms i (vdata (memories m) ! k) k v1 = Inr a" and v2: "set_m_addr i k a v1 = Inr v2"
    using assms(4,5) by (auto simp: link_memory_def act_None vec_at_def split: if_splits)
  obtain fs gs mes ts where l: "inst_links (instances v1 ! i) = (fs, gs, mes, ts)"
    by (metis prod_cases4)
  have lk: "linkable ms v1 i m"
    using linkable_relinked [OF assms(1,2)] .
  have "memory_linked ms v i k (vdata (memories m) ! k) a"
    using linkable_targets(3) [OF lk lk lk a assms(4)] linked_same_skel(3) assms(2) unfolding relinked_def by metis
  moreover have "relinked i v1 v2 \<and> k < length mes \<and> inst_links (instances v2 ! i) = (fs, gs, mes[k := a], ts)"
    using set_addr_results(3) [OF _ l v2] lk by (simp add: linkable_def)
  ultimately show ?thesis
    using assms(3) l relinked_trans [OF assms(2)] by (auto simp: links_ok_inst_links less_Suc_eq nth_list_update)
qed

lemma link_table_step:
  assumes "linkable ms v i m" "relinked i v v1" "links_ok ms v i m nf ng nm k (instances v1 ! i)" "k < vec_size (tables m)"
    and "link_table ms m i k v1 = (None, v2)"
  shows "relinked i v v2 \<and> links_ok ms v i m nf ng nm (Suc k) (instances v2 ! i)"
proof -
  obtain a where a: "link_table_target ms i (vdata (tables m) ! k) k v1 = Inr a" and v2: "set_t_addr i k a v1 = Inr v2"
    using assms(4,5) by (auto simp: link_table_def act_None vec_at_def split: if_splits)
  obtain fs gs mes ts where l: "inst_links (instances v1 ! i) = (fs, gs, mes, ts)"
    by (metis prod_cases4)
  have lk: "linkable ms v1 i m"
    using linkable_relinked [OF assms(1,2)] .
  have "table_linked ms v i k (vdata (tables m) ! k) a"
    using linkable_targets(4) [OF lk lk lk a assms(4)] linked_same_skel(4) assms(2) unfolding relinked_def by metis
  moreover have "relinked i v1 v2 \<and> k < length ts \<and> inst_links (instances v2 ! i) = (fs, gs, mes, ts[k := a])"
    using set_addr_results(4) [OF _ l v2] lk by (simp add: linkable_def)
  ultimately show ?thesis
    using assms(3) l relinked_trans [OF assms(2)] by (auto simp: links_ok_inst_links less_Suc_eq nth_list_update)
qed

lemma link_result:
  assumes "linkable ms v i m" "vm_link_module_inst ms i v = (None, v')"
  shows "relinked i v v' \<and>
    links_ok ms v i m (vec_size (funcs m)) (vec_size (globals m)) (vec_size (memories m)) (vec_size (tables m)) (instances v' ! i)"
proof -
  have m: "the_inst v i = Inr (instances v ! i)" "the_mod ms (mi_mod (instances v ! i)) = Inr m"
    using assms(1) by (simp_all add: linkable_def the_inst_def the_mod_def)
  obtain v1 v2 v3 where l: "act_for 0 (vec_size (funcs m)) (link_func ms m i) v = (None, v1)"
    "act_for 0 (vec_size (globals m)) (link_global ms m i) v1 = (None, v2)"
    "act_for 0 (vec_size (memories m)) (link_memory ms m i) v2 = (None, v3)"
    "act_for 0 (vec_size (tables m)) (link_table ms m i) v3 = (None, v')"
    using assms(2) unfolding vm_link_module_inst_def m act_let_def
    by (simp add: m act_then_None act_err_None split: if_splits) blast
  have 0: "relinked i v v \<and> links_ok ms v i m 0 0 0 0 (instances v ! i)"
    by (simp add: relinked_def links_ok_def)
  have 1: "relinked i v v1 \<and> links_ok ms v i m (0 + vec_size (funcs m)) 0 0 0 (instances v1 ! i)"
    by (rule act_for_None [OF l(1)]) (use 0 link_func_step [OF assms(1)] in auto)
  have 2: "relinked i v v2 \<and> links_ok ms v i m (vec_size (funcs m)) (0 + vec_size (globals m)) 0 0 (instances v2 ! i)"
    by (rule act_for_None [OF l(2)]) (use 1 link_global_step [OF assms(1)] in auto)
  have 3: "relinked i v v3 \<and> links_ok ms v i m (vec_size (funcs m)) (vec_size (globals m)) (0 + vec_size (memories m)) 0 (instances v3 ! i)"
    by (rule act_for_None [OF l(3)]) (use 2 link_memory_step [OF assms(1)] in auto)
  have 4: "relinked i v v' \<and>
      links_ok ms v i m (vec_size (funcs m)) (vec_size (globals m)) (vec_size (memories m)) (0 + vec_size (tables m)) (instances v' ! i)"
    by (rule act_for_None [OF l(4)]) (use 3 link_table_step [OF assms(1)] in auto)
  then show ?thesis by simp
qed

section \<open>New instances\<close>

lemma update_at_nth:
  "k < length (vdata v) \<Longrightarrow> update_at v k g = Inr (v\<lparr>vdata := (vdata v)[k := g (vdata v ! k)]\<rparr>)"
  by (simp add: update_at_def vec_at_def vec_set_def vec_size_def)

lemma for_update_all:
  fixes v v' :: "'a vec"
  assumes "\<And>j v. j < n \<Longrightarrow> length (vdata v) = n \<Longrightarrow> body j v = update_at v j (g j)"
    and "length (vdata v) = n" "for_res 0 n body v = Inr v'"
  shows "vdata v' = map (\<lambda>k. g k (vdata v ! k)) [0..<n]"
proof -
  let ?I = "\<lambda>j (w :: 'a vec). length (vdata w) = n \<and> (\<forall>k < n. vdata w ! k = (if k < j then g k (vdata v ! k) else vdata v ! k))"
  have "res_ok (?I (0 + n)) (for_res 0 n body v)"
  proof (rule for_res_ok_index)
    fix j w assume j: "j < 0 + n" and w: "?I j w"
    then have "body j w = Inr (w\<lparr>vdata := (vdata w)[j := g j (vdata w ! j)]\<rparr>)"
      using assms(1) [of j w] update_at_nth [of j w "g j"] by simp
    then show "res_ok (?I (Suc j)) (body j w)"
      using w j by (auto simp: nth_list_update less_Suc_eq)
  qed (use assms(2) in simp)
  then show ?thesis
    using assms(3) by (auto intro!: nth_equalityI)
qed

lemma vec_resize_empty: "vec_resize am z vec_empty n = Inr v \<Longrightarrow> vdata v = replicate n z"
  by (auto simp: vec_resize_def vec_reserve_def vec_empty_def vec_size_def res_simps split: if_splits)

lemma module_inst_new_shape:
  assumes "module_inst_new am p m = Inr (mi, m')"
  shows "shape_ok m' mi \<and> mi_mod mi = p \<and> mi_state mi = module_inst_uninitialized \<and> m' = m\<lparr>ref_count := ref_count m + 1\<rparr>"
proof -
  let ?m = "m\<lparr>ref_count := ref_count m + 1\<rparr>"
  obtain fs0 fs ts0 ts mems0 mems gs0 gs where new:
    "vec_resize (am T_func_inst) \<lparr>fi_mod = 0, fi_mod_inst = None, fi_fn = 0\<rparr> vec_empty (vec_size (funcs m)) = Inr fs0"
    "for_res 0 (vec_size (funcs m)) (new_func_inst p) (vec_set_fixed fs0 True) = Inr fs"
    "vec_resize (am T_table_inst) \<lparr>ti_tab = 0, tdata = vec_empty\<rparr> vec_empty (vec_size (tables m)) = Inr ts0"
    "for_res 0 (vec_size (tables m)) (new_table_inst am ?m) (vec_set_fixed ts0 True) = Inr ts"
    "vec_resize (am T_memory_inst) \<lparr>mi_mem = 0, mdata = vec_empty\<rparr> vec_empty (vec_size (memories m)) = Inr mems0"
    "for_res 0 (vec_size (memories m)) (new_memory_inst am ?m) (vec_set_fixed mems0 True) = Inr mems"
    "vec_resize (am T_global_inst) \<lparr>gi_glob = 0, gvalue = 0\<rparr> vec_empty (vec_size (globals m)) = Inr gs0"
    "for_res 0 (vec_size (globals m)) new_global_inst (vec_set_fixed gs0 True) = Inr gs"
    and mi: "mi_funcs mi = fs" "mi_tables mi = ts" "mi_memories mi = mems" "mi_globals mi = gs" "mi_mod mi = p"
      "mi_state mi = module_inst_uninitialized" "m' = ?m"
    using assms by (auto simp: module_inst_new_def Let_def res_simps module_inst_zero_def)
  have f: "map (\<lambda>fi. (fi_mod fi, fi_fn fi)) (vdata fs) = map (Pair p) [0..<vec_size (funcs m)]"
    by (subst for_update_all [OF _ _ new(2), where g = "\<lambda>k fi. fi\<lparr>fi_fn := k, fi_mod := p\<rparr>"])
      (simp_all add: new_func_inst_def vec_resize_empty [OF new(1)])
  have t: "map ti_tab (vdata ts) = [0..<vec_size (tables m)]"
    by (subst for_update_all [OF _ _ new(4)])
      (auto simp: new_table_inst_def vec_at_def vec_resize_empty [OF new(3)] Let_def vec_size_def intro!: nth_equalityI)
  have me: "map mi_mem (vdata mems) = [0..<vec_size (memories m)]"
    by (subst for_update_all [OF _ _ new(6)])
      (auto simp: new_memory_inst_def vec_at_def vec_resize_empty [OF new(5)] Let_def vec_size_def intro!: nth_equalityI)
  have g: "map gi_glob (vdata gs) = [0..<vec_size (globals m)]"
    by (subst for_update_all [OF _ _ new(8), where g = "\<lambda>k g. g\<lparr>gi_glob := k\<rparr>"])
      (auto simp: new_global_inst_def vec_resize_empty [OF new(7)] intro!: nth_equalityI)
  show ?thesis
    using mi f t me g by (simp add: shape_ok_def vec_size_def)
qed

section \<open>Properties\<close>

text \<open>
  C16.  Linking is type-correct.  When a new instance of a module has been linked without an error,
  every function of the module is connected to a function instance of the same type, every global
  to one of the same type and mutability, every memory to one whose maximum is within the declared
  one (and that is large enough, when it is imported) and every table to one of the same
  element type within the declared limits; an entity that the module defines is connected to the
  instance's own.  The instances that were there before are unchanged.
\<close>

theorem link_sound:
  assumes "module_inst_new am p m0 = Inr (mi, m)" "map_of ms p = Some m" "instances v = old @ [mi]"
    and "vm_link_module_inst ms (length old) v = (None, v')"
  shows "\<exists>mi'. instances v' = old @ [mi'] \<and>
    (\<forall>k < length (vdata (funcs m)). func_linked ms v' (length old) k (vdata (funcs m) ! k) (vdata (f_addrs mi') ! k)) \<and>
    (\<forall>k < length (vdata (globals m)). global_linked ms v' (length old) k (vdata (globals m) ! k) (vdata (g_addrs mi') ! k)) \<and>
    (\<forall>k < length (vdata (memories m)). memory_linked ms v' (length old) k (vdata (memories m) ! k) (vdata (m_addrs mi') ! k)) \<and>
    (\<forall>k < length (vdata (tables m)). table_linked ms v' (length old) k (vdata (tables m) ! k) (vdata (t_addrs mi') ! k))"
proof -
  let ?i = "length old"
  have lk: "linkable ms v ?i m"
    using module_inst_new_shape [OF assms(1)] assms(2,3) by (auto simp: linkable_def)
  have r: "relinked ?i v v'"
    "links_ok ms v ?i m (vec_size (funcs m)) (vec_size (globals m)) (vec_size (memories m)) (vec_size (tables m)) (instances v' ! ?i)"
    using link_result [OF lk assms(4)] by simp_all
  have len: "length (instances v') = Suc ?i"
    using relinked_length [OF r(1)] assms(3) by simp
  have "instances v' = old @ [instances v' ! ?i]"
  proof (rule nth_equalityI)
    fix j assume "j < length (instances v')"
    then show "instances v' ! j = (old @ [instances v' ! ?i]) ! j"
      using r(1) assms(3) len by (cases "j = ?i") (auto simp: relinked_def nth_append)
  qed (simp add: len)
  moreover have "links_ok ms v' ?i m (vec_size (funcs m)) (vec_size (globals m)) (vec_size (memories m)) (vec_size (tables m)) (instances v' ! ?i)"
    using r linked_same_skel [of v' v] by (simp add: links_ok_def relinked_def)
  ultimately show ?thesis
    by (auto simp: links_ok_def vec_size_def intro!: exI [of _ "instances v' ! ?i"])
qed

text \<open>A module that exports a function \<open>f\<close> under the name \<open>a\<close>, and one that imports it.\<close>

definition exporter :: module where
  "exporter = module_zero\<lparr>names := \<lparr>vdata = [vstr_static [97]], vcap = 1, vnonnull = True, vfixed = False\<rparr>,
     funcs := \<lparr>vdata = [func_zero\<lparr>f_linkage := linkage_exported\<rparr>], vcap = 1, vnonnull = True, vfixed = False\<rparr>,
     exports := \<lparr>vdata = [\<lparr>exp_name = [102], exp_kind = EXTERNAL_KIND_Function, external_idx = 0\<rparr>], vcap = 1, vnonnull = True, vfixed = False\<rparr>\<rparr>"

definition importer :: module where
  "importer = module_zero\<lparr>names := \<lparr>vdata = [vstr_static [98]], vcap = 1, vnonnull = True, vfixed = False\<rparr>,
     imported_func_count := 1,
     funcs := \<lparr>vdata = [func_zero\<lparr>f_linkage := linkage_imported, f_path := \<lparr>path_module = [97], path_field = [102]\<rparr>\<rparr>],
       vcap = 1, vnonnull = True, vfixed = False\<rparr>\<rparr>"

definition example_vm_alloc :: alloc where
  "example_vm_alloc t n = (n < 100)"

definition instance_of :: "ptr \<Rightarrow> module \<Rightarrow> module_inst \<times> module" where
  "instance_of p m = (case module_inst_new example_vm_alloc p m of Inl _ \<Rightarrow> (module_inst_zero p, m) | Inr x \<Rightarrow> x)"

definition example_mods :: mods where
  "example_mods = [(1, snd (instance_of 1 exporter)), (2, snd (instance_of 2 importer))]"

definition exporter_vm :: vm where
  "exporter_vm = snd (vm_link_module_inst example_mods 0 \<lparr>instances = [fst (instance_of 1 exporter)], vm_thread = thread_zero\<rparr>)"

theorem link_sound_witness:
  "\<exists>mi m v' mi'. module_inst_new example_vm_alloc 2 importer = Inr (mi, m) \<and> map_of example_mods 2 = Some m \<and>
    vm_link_module_inst example_mods 1 (exporter_vm\<lparr>instances := instances exporter_vm @ [mi]\<rparr>) = (None, v') \<and>
    instances v' = instances exporter_vm @ [mi'] \<and> vdata (f_addrs mi') = [Some (0, 0)] \<and>
    func_linked example_mods v' 1 0 (vdata (funcs m) ! 0) (Some (0, 0))"
proof -
  let ?v = "\<lambda>mi. exporter_vm\<lparr>instances := instances exporter_vm @ [mi]\<rparr>"
  have "case module_inst_new example_vm_alloc 2 importer of Inl _ \<Rightarrow> False | Inr (mi, m) \<Rightarrow>
      map_of example_mods 2 = Some m \<and> length (vdata (funcs m)) = 1 \<and> length (instances exporter_vm) = 1 \<and>
      fst (vm_link_module_inst example_mods 1 (?v mi)) = None \<and>
      vdata (f_addrs (instances (snd (vm_link_module_inst example_mods 1 (?v mi))) ! 1)) = [Some (0, 0)]"
    by code_simp
  then obtain mi m v' where r: "module_inst_new example_vm_alloc 2 importer = Inr (mi, m)" "map_of example_mods 2 = Some m"
      "length (vdata (funcs m)) = 1" "length (instances exporter_vm) = 1" "vm_link_module_inst example_mods 1 (?v mi) = (None, v')"
      "vdata (f_addrs (instances v' ! 1)) = [Some (0, 0)]"
    by (auto dest!: returned) (metis prod.collapse)
  obtain mi' where "instances v' = instances exporter_vm @ [mi']"
      "\<forall>k < 1. func_linked example_mods v' 1 k (vdata (funcs m) ! k) (vdata (f_addrs mi') ! k)"
    using link_sound [OF r(1,2), of "?v mi" "instances exporter_vm" v'] r(3-5) by auto
  then show ?thesis
    using r by (auto simp: nth_append)
qed

end
