(* ===== verification/Fp.thy ===== *)
theory Fp
  imports Complex_Main Prelude
begin

text \<open>
  The floating-point arithmetic that the code gets from C: the types \<open>f32\<close> and \<open>f64\<close> are binary32
  and binary64, the operators round to nearest, ties to even, and \<open>math.h\<close> gives \<open>ceil\<close>, \<open>floor\<close>,
  \<open>trunc\<close>, \<open>rint\<close> and \<open>sqrt\<close>.  A float is its bit pattern; \<open>fp_decode\<close> reads it as a \<open>fp\<close> and
  \<open>fp_encode\<close> rounds an exact result to a bit pattern of the format with \<open>e\<close> bits of exponent and
  \<open>m\<close> bits of fraction.  Which of the many NaN patterns an operation returns is up to the machine:
  it is the parameter \<open>fpu\<close>.
\<close>

section \<open>Numbers\<close>

text \<open>\<open>Fin s a x\<close> is \<open>a * 2 ^ x\<close>, negated if \<open>s\<close>; \<open>Num s n d\<close> is the quotient of \<open>n\<close> and \<open>d\<close>.\<close>

datatype fp = NaN | Inf bool | Fin bool int int

datatype exact = Undef | Infinite bool | Num bool int int

definition fp_decode :: "nat \<Rightarrow> nat \<Rightarrow> int \<Rightarrow> fp" where
  "fp_decode e m n =
     (let s = odd (n div 2 ^ (e + m)); x = n div 2 ^ m mod 2 ^ e; f = n mod 2 ^ m; q = 2 - 2 ^ (e - 1) - int m in
      if x = 2 ^ e - 1 then (if f = 0 then Inf s else NaN)
      else if x = 0 then Fin s f q
      else Fin s (2 ^ m + f) (q + x - 1))"

definition f32_of :: "u32 \<Rightarrow> fp" where
  "f32_of w = fp_decode 8 23 (uint w)"

definition f64_of :: "u64 \<Rightarrow> fp" where
  "f64_of w = fp_decode 11 52 (uint w)"

fun fp_neg :: "fp \<Rightarrow> fp" where
  "fp_neg NaN = NaN"
| "fp_neg (Inf s) = Inf (\<not> s)"
| "fp_neg (Fin s a x) = Fin (\<not> s) a x"

text \<open>The integer \<open>\<plusminus>a * 2 ^ k\<close>.\<close>

definition scaled :: "bool \<Rightarrow> int \<Rightarrow> nat \<Rightarrow> int" where
  "scaled s a k = (if s then - (a * 2 ^ k) else a * 2 ^ k)"

fun fp_lt :: "fp \<Rightarrow> fp \<Rightarrow> bool" where
  "fp_lt (Inf s) (Inf t) = (s \<and> \<not> t)"
| "fp_lt (Inf s) (Fin t b y) = s"
| "fp_lt (Fin s a x) (Inf t) = (\<not> t)"
| "fp_lt (Fin s a x) (Fin t b y) = (scaled s a (nat (x - min x y)) < scaled t b (nat (y - min x y)))"
| "fp_lt _ _ = False"

fun fp_eq :: "fp \<Rightarrow> fp \<Rightarrow> bool" where
  "fp_eq (Inf s) (Inf t) = (s = t)"
| "fp_eq (Fin s a x) (Fin t b y) = (scaled s a (nat (x - min x y)) = scaled t b (nat (y - min x y)))"
| "fp_eq _ _ = False"

definition fp_le :: "fp \<Rightarrow> fp \<Rightarrow> bool" where
  "fp_le x y = (fp_lt x y \<or> fp_eq x y)"

section \<open>Rounding\<close>

definition round_div :: "int \<Rightarrow> int \<Rightarrow> int" where
  "round_div n d =
     (let q = n div d; r = n mod d in if 2 * r < d \<or> 2 * r = d \<and> even q then q else q + 1)"

function nbits :: "int \<Rightarrow> int" where
  "nbits n = (if n \<le> 0 then 0 else 1 + nbits (n div 2))"
  by pat_completeness auto
termination
  by (relation "measure nat") auto

declare nbits.simps [simp del]

text \<open>The integer part of the binary logarithm of \<open>n / d\<close>.\<close>

definition ilog :: "int \<Rightarrow> int \<Rightarrow> int" where
  "ilog n d =
     (let l = nbits n - nbits d in
      if n * 2 ^ nat (- l) < d * 2 ^ nat l then l - 1 else l)"

definition fp_round :: "nat \<Rightarrow> nat \<Rightarrow> bool \<Rightarrow> int \<Rightarrow> int \<Rightarrow> int" where
  "fp_round e m s n d =
     (let sb = (if s then 2 ^ (e + m) else 0); q0 = 2 - 2 ^ (e - 1) - int m in
      if n = 0 then sb
      else let q = max (ilog n d - int m) q0;
               sig = round_div (n * 2 ^ nat (- q)) (d * 2 ^ nat q) in
        sb + min ((q - q0) * 2 ^ m + sig) ((2 ^ e - 1) * 2 ^ m))"

definition fp_encode :: "nat \<Rightarrow> nat \<Rightarrow> int \<Rightarrow> exact \<Rightarrow> int" where
  "fp_encode e m nan x =
     (case x of Undef \<Rightarrow> nan
      | Infinite s \<Rightarrow> (if s then 2 ^ (e + m) else 0) + (2 ^ e - 1) * 2 ^ m
      | Num s n d \<Rightarrow> fp_round e m s n d)"

section \<open>Operations\<close>

fun exact_of :: "fp \<Rightarrow> exact" where
  "exact_of NaN = Undef"
| "exact_of (Inf s) = Infinite s"
| "exact_of (Fin s a x) = Num s (a * 2 ^ nat x) (2 ^ nat (- x))"

fun fp_add :: "fp \<Rightarrow> fp \<Rightarrow> exact" where
  "fp_add (Inf s) (Inf t) = (if s = t then Infinite s else Undef)"
| "fp_add (Inf s) (Fin t b y) = Infinite s"
| "fp_add (Fin s a x) (Inf t) = Infinite t"
| "fp_add (Fin s a x) (Fin t b y) =
     (let z = min x y; i = scaled s a (nat (x - z)) + scaled t b (nat (y - z)) in
      exact_of (Fin (if i = 0 then s \<and> t else i < 0) \<bar>i\<bar> z))"
| "fp_add _ _ = Undef"

definition fp_sub :: "fp \<Rightarrow> fp \<Rightarrow> exact" where
  "fp_sub x y = fp_add x (fp_neg y)"

fun fp_mul :: "fp \<Rightarrow> fp \<Rightarrow> exact" where
  "fp_mul (Inf s) (Inf t) = Infinite (s \<noteq> t)"
| "fp_mul (Inf s) (Fin t b y) = (if b = 0 then Undef else Infinite (s \<noteq> t))"
| "fp_mul (Fin s a x) (Inf t) = (if a = 0 then Undef else Infinite (s \<noteq> t))"
| "fp_mul (Fin s a x) (Fin t b y) = exact_of (Fin (s \<noteq> t) (a * b) (x + y))"
| "fp_mul _ _ = Undef"

fun fp_div :: "fp \<Rightarrow> fp \<Rightarrow> exact" where
  "fp_div (Inf s) (Inf t) = Undef"
| "fp_div (Inf s) (Fin t b y) = Infinite (s \<noteq> t)"
| "fp_div (Fin s a x) (Inf t) = Num (s \<noteq> t) 0 1"
| "fp_div (Fin s a x) (Fin t b y) =
     (if b = 0 then if a = 0 then Undef else Infinite (s \<noteq> t)
      else Num (s \<noteq> t) (a * 2 ^ nat (x - y)) (b * 2 ^ nat (y - x)))"
| "fp_div _ _ = Undef"

text \<open>The integer square root, one bit after the other.\<close>

fun isqrt_bits :: "int \<Rightarrow> nat \<Rightarrow> int \<Rightarrow> int" where
  "isqrt_bits n 0 r = r"
| "isqrt_bits n (Suc k) r = isqrt_bits n k (if (r + 2 ^ k) * (r + 2 ^ k) \<le> n then r + 2 ^ k else r)"

definition isqrt :: "int \<Rightarrow> int" where
  "isqrt n = isqrt_bits n (nat (nbits n div 2 + 1)) 0"

text \<open>
  The root is computed with 64 bits behind the point and a half more when it is not exact, which
  rounds like the root itself.
\<close>

fun fp_sqrt :: "fp \<Rightarrow> exact" where
  "fp_sqrt (Inf s) = (if s then Undef else Infinite s)"
| "fp_sqrt (Fin s a x) =
     (if a = 0 then Num s 0 1
      else if s then Undef
      else let b = (if even x then a else 2 * a) * 2 ^ 128; y = x div 2 - 65; r = isqrt b in
        exact_of (Fin s (if r * r = b then 2 * r else 2 * r + 1) y))"
| "fp_sqrt _ = Undef"

text \<open>Rounding to an integer; the sign of a zero is that of the operand.\<close>

fun fp_integral :: "(bool \<Rightarrow> int \<Rightarrow> int \<Rightarrow> int) \<Rightarrow> fp \<Rightarrow> exact" where
  "fp_integral f (Fin s a x) = (if 0 \<le> x then exact_of (Fin s a x) else Num s (f s a (2 ^ nat (- x))) 1)"
| "fp_integral f x = exact_of x"

definition trunc_div :: "bool \<Rightarrow> int \<Rightarrow> int \<Rightarrow> int" where
  "trunc_div s n d = n div d"

definition floor_div :: "bool \<Rightarrow> int \<Rightarrow> int \<Rightarrow> int" where
  "floor_div s n d = (if s \<and> n mod d \<noteq> 0 then n div d + 1 else n div d)"

definition ceil_div :: "bool \<Rightarrow> int \<Rightarrow> int \<Rightarrow> int" where
  "ceil_div s n d = (if \<not> s \<and> n mod d \<noteq> 0 then n div d + 1 else n div d)"

definition rint_div :: "bool \<Rightarrow> int \<Rightarrow> int \<Rightarrow> int" where
  "rint_div s n d = round_div n d"

section \<open>The operators of C\<close>

datatype fp_op = Op_add | Op_sub | Op_mul | Op_div | Op_sqrt | Op_ceil | Op_floor | Op_trunc | Op_rint

record fpu =
  nan32 :: "fp_op \<Rightarrow> u32 list \<Rightarrow> u32"
  nan64 :: "fp_op \<Rightarrow> u64 list \<Rightarrow> u64"
  nan_promote :: "u32 \<Rightarrow> u64"
  nan_demote :: "u64 \<Rightarrow> u32"

definition f32_bin :: "fpu \<Rightarrow> fp_op \<Rightarrow> (fp \<Rightarrow> fp \<Rightarrow> exact) \<Rightarrow> u32 \<Rightarrow> u32 \<Rightarrow> u32" where
  "f32_bin fpu oper f x y = word_of_int (fp_encode 8 23 (uint (nan32 fpu oper [x, y])) (f (f32_of x) (f32_of y)))"

definition f64_bin :: "fpu \<Rightarrow> fp_op \<Rightarrow> (fp \<Rightarrow> fp \<Rightarrow> exact) \<Rightarrow> u64 \<Rightarrow> u64 \<Rightarrow> u64" where
  "f64_bin fpu oper f x y = word_of_int (fp_encode 11 52 (uint (nan64 fpu oper [x, y])) (f (f64_of x) (f64_of y)))"

definition f32_un :: "fpu \<Rightarrow> fp_op \<Rightarrow> (fp \<Rightarrow> exact) \<Rightarrow> u32 \<Rightarrow> u32" where
  "f32_un fpu oper f x = word_of_int (fp_encode 8 23 (uint (nan32 fpu oper [x])) (f (f32_of x)))"

definition f64_un :: "fpu \<Rightarrow> fp_op \<Rightarrow> (fp \<Rightarrow> exact) \<Rightarrow> u64 \<Rightarrow> u64" where
  "f64_un fpu oper f x = word_of_int (fp_encode 11 52 (uint (nan64 fpu oper [x])) (f (f64_of x)))"

definition f32_to_f64 :: "fpu \<Rightarrow> u32 \<Rightarrow> u64" where
  "f32_to_f64 fpu x = word_of_int (fp_encode 11 52 (uint (nan_promote fpu x)) (exact_of (f32_of x)))"

definition f64_to_f32 :: "fpu \<Rightarrow> u64 \<Rightarrow> u32" where
  "f64_to_f32 fpu x = word_of_int (fp_encode 8 23 (uint (nan_demote fpu x)) (exact_of (f64_of x)))"

definition int_to_f32 :: "int \<Rightarrow> u32" where
  "int_to_f32 k = word_of_int (fp_round 8 23 (k < 0) \<bar>k\<bar> 1)"

definition int_to_f64 :: "int \<Rightarrow> u64" where
  "int_to_f64 k = word_of_int (fp_round 11 52 (k < 0) \<bar>k\<bar> 1)"

text \<open>The conversion to an integer type with the given range is undefined outside it.\<close>

fun fp_to_int :: "int \<Rightarrow> int \<Rightarrow> fp \<Rightarrow> int res" where
  "fp_to_int lo hi (Fin s a x) =
     (let k = (if 0 \<le> x then scaled s a (nat x) else if s then - (a div 2 ^ nat (- x)) else a div 2 ^ nat (- x)) in
      if lo \<le> k \<and> k \<le> hi then Inr k else Inl Fault)"
| "fp_to_int lo hi _ = Inl Fault"

section \<open>Meaning\<close>

text \<open>The real number that a finite float denotes, and its integer part.\<close>

definition fin_val :: "bool \<Rightarrow> int \<Rightarrow> int \<Rightarrow> real" where
  "fin_val s a x = (if s then - 1 else 1) * (of_int a * 2 powi x)"

definition toward_zero :: "real \<Rightarrow> int" where
  "toward_zero r = (if 0 \<le> r then \<lfloor>r\<rfloor> else \<lceil>r\<rceil>)"

lemma scaled_val: "y \<le> x \<Longrightarrow> real_of_int (scaled s a (nat (x - y))) = fin_val s a x / 2 powi y"
proof -
  assume "y \<le> x"
  have "2 powi x / 2 powi y = (2 :: real) powi (x - y)"
    by (simp add: power_int_diff)
  also have "\<dots> = 2 ^ nat (x - y)"
    using \<open>y \<le> x\<close> by (simp add: power_int_def)
  finally have "2 powi x / 2 powi y = (2 :: real) ^ nat (x - y)" .
  then show ?thesis
    by (simp add: scaled_def fin_val_def flip: times_divide_eq_right)
qed

lemma quotient_less_iff: "0 < (c :: real) \<Longrightarrow> a / c < b / c \<longleftrightarrow> a < b"
  by (simp add: divide_less_cancel)

lemma fp_lt_val: "fp_lt (Fin s a x) (Fin t b y) \<longleftrightarrow> fin_val s a x < fin_val t b y"
proof -
  let ?z = "min x y"
  have "fp_lt (Fin s a x) (Fin t b y) \<longleftrightarrow> real_of_int (scaled s a (nat (x - ?z))) < real_of_int (scaled t b (nat (y - ?z)))"
    by simp
  also have "\<dots> \<longleftrightarrow> fin_val s a x / 2 powi ?z < fin_val t b y / 2 powi ?z"
    by (subst (1 2) scaled_val) simp_all
  also have "\<dots> \<longleftrightarrow> fin_val s a x < fin_val t b y"
    by (rule quotient_less_iff) simp
  finally show ?thesis .
qed

lemma fp_eq_val: "fp_eq (Fin s a x) (Fin t b y) \<longleftrightarrow> fin_val s a x = fin_val t b y"
proof -
  let ?z = "min x y"
  have "fp_eq (Fin s a x) (Fin t b y) \<longleftrightarrow> real_of_int (scaled s a (nat (x - ?z))) = real_of_int (scaled t b (nat (y - ?z)))"
    by simp
  also have "\<dots> \<longleftrightarrow> fin_val s a x = fin_val t b y"
    by (simp add: scaled_val)
  finally show ?thesis .
qed

lemma fp_le_val: "fp_le (Fin s a x) (Fin t b y) \<longleftrightarrow> fin_val s a x \<le> fin_val t b y"
  unfolding fp_le_def fp_lt_val fp_eq_val by auto

lemma fp_decode_nonneg: "fp_decode e m n = Fin s a x \<Longrightarrow> 0 \<le> a"
  by (auto simp: fp_decode_def Let_def split: if_splits)

lemma toward_zero_neg: "0 \<le> r \<Longrightarrow> toward_zero (- r) = - \<lfloor>r\<rfloor>"
  by (cases "r = 0") (auto simp: toward_zero_def ceiling_minus)

lemma floor_scaled:
  assumes "x < 0"
  shows "\<lfloor>of_int a * (2 :: real) powi x\<rfloor> = a div 2 ^ nat (- x)"
proof -
  have "(2 :: real) powi x = inverse (real_of_int (2 ^ nat (- x)))"
    using assms by (simp add: power_int_def field_simps)
  then have v: "of_int a * 2 powi x = real_of_int a / real_of_int (2 ^ nat (- x))"
    by (simp only: divide_inverse)
  show ?thesis
    unfolding v by (rule floor_divide_of_int_eq)
qed

lemma integer_part: "0 \<le> a \<Longrightarrow>
  (if 0 \<le> x then scaled s a (nat x) else if s then - (a div 2 ^ nat (- x)) else a div 2 ^ nat (- x)) = toward_zero (fin_val s a x)"
proof (cases "0 \<le> x")
  case True
  then have "fin_val s a x = of_int (scaled s a (nat x))"
    by (simp add: fin_val_def scaled_def power_int_def)
  then show ?thesis
    using True by (simp add: toward_zero_def)
next
  case False
  assume "0 \<le> a"
  have "0 \<le> of_int a * (2 :: real) powi x"
    using \<open>0 \<le> a\<close> by simp
  then show ?thesis
    using False floor_scaled [of x a] toward_zero_neg [of "of_int a * 2 powi x"] by (cases s) (simp_all add: fin_val_def toward_zero_def)
qed

lemma fp_to_int_val: "0 \<le> a \<Longrightarrow> fp_to_int lo hi (Fin s a x) =
  (let k = toward_zero (fin_val s a x) in if lo \<le> k \<and> k \<le> hi then Inr k else Inl Fault)"
  by (simp only: fp_to_int.simps integer_part)

lemma toward_zero_le: "toward_zero r \<le> k \<longleftrightarrow> (if 0 \<le> k then r < of_int k + 1 else r \<le> of_int k)"
proof (cases "0 \<le> r")
  case True
  then show ?thesis by (auto simp: toward_zero_def floor_le_iff)
next
  case False
  then show ?thesis by (auto simp: toward_zero_def ceiling_le_iff)
qed

lemma le_toward_zero: "k \<le> toward_zero r \<longleftrightarrow> (if k \<le> 0 then of_int k - 1 < r else of_int k \<le> r)"
proof (cases "0 \<le> r")
  case True
  then show ?thesis by (auto simp: toward_zero_def le_floor_iff)
next
  case False
  then show ?thesis by (auto simp: toward_zero_def le_ceiling_iff)
qed

end
