(* ===== verification/Smath.thy ===== *)
theory Smath
  imports Fp "HOL-Library.Signed_Division"
begin

text \<open>
  The arithmetic of the interpreters: src/src/utils/smath.h and the bit counts of
  src/src/platform/gcc_clang/gcc_clang.h.

  The operators on integers are those of C on the values of the operands; the macros of the
  interpreters convert the result to the type of the slot they store it in, which reduces it
  modulo the width.  (C leaves the overflow of a signed operation undefined; the code relies on
  its reduction.)  A shift by a count outside the width is undefined too; what the machine does is
  the parameter \<open>mc_count\<close>.
\<close>

section \<open>The machine\<close>

record machine =
  mc_fpu :: fpu
  mc_upper :: "u64 \<Rightarrow> u32"
  mc_undef :: u64
  mc_count :: "nat \<Rightarrow> int \<Rightarrow> nat"

section \<open>Integers\<close>

definition s_rotr32 :: "u32 \<Rightarrow> u32 \<Rightarrow> u32" where
  "s_rotr32 v n = drop_bit (unat (n mod 32)) v OR push_bit (unat ((32 - n) mod 32)) v"

definition s_rotl32 :: "u32 \<Rightarrow> u32 \<Rightarrow> u32" where
  "s_rotl32 v n = push_bit (unat (n mod 32)) v OR drop_bit (unat ((32 - n) mod 32)) v"

definition s_rotr64 :: "u64 \<Rightarrow> u64 \<Rightarrow> u64" where
  "s_rotr64 v n = drop_bit (unat (n mod 64)) v OR push_bit (unat ((64 - n) mod 64)) v"

definition s_rotl64 :: "u64 \<Rightarrow> u64 \<Rightarrow> u64" where
  "s_rotl64 v n = push_bit (unat (n mod 64)) v OR drop_bit (unat ((64 - n) mod 64)) v"

definition s_add :: "int \<Rightarrow> int \<Rightarrow> int" where "s_add a b = a + b"
definition s_sub :: "int \<Rightarrow> int \<Rightarrow> int" where "s_sub a b = a - b"
definition s_mul :: "int \<Rightarrow> int \<Rightarrow> int" where "s_mul a b = a * b"
definition s_div :: "int \<Rightarrow> int \<Rightarrow> int" where "s_div a b = a sdiv b"
definition s_rem :: "int \<Rightarrow> int \<Rightarrow> int" where "s_rem a b = a smod b"
definition s_and :: "int \<Rightarrow> int \<Rightarrow> int" where "s_and a b = a AND b"
definition s_or :: "int \<Rightarrow> int \<Rightarrow> int" where "s_or a b = a OR b"
definition s_xor :: "int \<Rightarrow> int \<Rightarrow> int" where "s_xor a b = a XOR b"

definition shift_count :: "machine \<Rightarrow> nat \<Rightarrow> int \<Rightarrow> nat" where
  "shift_count mc w b = (if 0 \<le> b \<and> b < int w then nat b else mc_count mc w b)"

definition s_shl :: "machine \<Rightarrow> nat \<Rightarrow> int \<Rightarrow> int \<Rightarrow> int" where
  "s_shl mc w a b = push_bit (shift_count mc w b) a"

definition s_shr :: "machine \<Rightarrow> nat \<Rightarrow> int \<Rightarrow> int \<Rightarrow> int" where
  "s_shr mc w a b = drop_bit (shift_count mc w b) a"

definition s_eqz :: "int \<Rightarrow> int" where "s_eqz a = of_bool (a = 0)"
definition s_eq :: "int \<Rightarrow> int \<Rightarrow> int" where "s_eq a b = of_bool (a = b)"
definition s_ne :: "int \<Rightarrow> int \<Rightarrow> int" where "s_ne a b = of_bool (a \<noteq> b)"
definition s_lt :: "int \<Rightarrow> int \<Rightarrow> int" where "s_lt a b = of_bool (a < b)"
definition s_gt :: "int \<Rightarrow> int \<Rightarrow> int" where "s_gt a b = of_bool (a > b)"
definition s_le :: "int \<Rightarrow> int \<Rightarrow> int" where "s_le a b = of_bool (a \<le> b)"
definition s_ge :: "int \<Rightarrow> int \<Rightarrow> int" where "s_ge a b = of_bool (a \<ge> b)"
definition s_nop :: "int \<Rightarrow> int" where "s_nop x = x"

text \<open>The bits of a word from the least significant one, and the builtins on them.\<close>

definition bits_of :: "'a::len word \<Rightarrow> bool list" where
  "bits_of w = map (bit w) [0..<LENGTH('a)]"

definition s_clz32 :: "u32 \<Rightarrow> int" where
  "s_clz32 x = (if x = 0 then 32 else int (length (takeWhile Not (rev (bits_of x)))))"

definition s_clz64 :: "u64 \<Rightarrow> int" where
  "s_clz64 x = (if x = 0 then 64 else int (length (takeWhile Not (rev (bits_of x)))))"

definition s_ctz32 :: "u32 \<Rightarrow> int" where
  "s_ctz32 x = (if x = 0 then 32 else int (length (takeWhile Not (bits_of x))))"

definition s_ctz64 :: "u64 \<Rightarrow> int" where
  "s_ctz64 x = (if x = 0 then 64 else int (length (takeWhile Not (bits_of x))))"

definition s_popcnt32 :: "u32 \<Rightarrow> int" where
  "s_popcnt32 x = int (length (filter id (bits_of x)))"

definition s_popcnt64 :: "u64 \<Rightarrow> int" where
  "s_popcnt64 x = int (length (filter id (bits_of x)))"

section \<open>Floats\<close>

definition s_qnan32 :: u32 where "s_qnan32 = 0x7fc00000"
definition s_qnan32_neg :: u32 where "s_qnan32_neg = 0xffc00000"
definition s_qnan64 :: u64 where "s_qnan64 = 0x7ff8000000000000"
definition s_qnan64_neg :: u64 where "s_qnan64_neg = 0xfff8000000000000"

definition s_is_canonical_nan32 :: "u32 \<Rightarrow> bool" where
  "s_is_canonical_nan32 v = (v = s_qnan32 \<or> v = s_qnan32_neg)"

definition s_is_canonical_nan64 :: "u64 \<Rightarrow> bool" where
  "s_is_canonical_nan64 v = (v = s_qnan64 \<or> v = s_qnan64_neg)"

definition s_is_arithmetic_nan32 :: "u32 \<Rightarrow> bool" where
  "s_is_arithmetic_nan32 v = (v = s_qnan32)"

definition s_is_arithmetic_nan64 :: "u64 \<Rightarrow> bool" where
  "s_is_arithmetic_nan64 v = (v = s_qnan64)"

definition s_isnan32 :: "u32 \<Rightarrow> bool" where
  "s_isnan32 v = (v AND 0x7f800000 = 0x7f800000 \<and> v AND 0x7fffffff \<noteq> 0x7f800000)"

definition s_isnan64 :: "u64 \<Rightarrow> bool" where
  "s_isnan64 v = (v AND 0x7ff0000000000000 = 0x7ff0000000000000 \<and> v AND 0x7fffffffffffffff \<noteq> 0x7ff0000000000000)"

definition s_fneg32 :: "u32 \<Rightarrow> u32" where
  "s_fneg32 v = v XOR 0x80000000"

definition s_fneg64 :: "u64 \<Rightarrow> u64" where
  "s_fneg64 v = v XOR 0x8000000000000000"

definition s_fabs32 :: "u32 \<Rightarrow> u32" where
  "s_fabs32 x = x AND 0x7fffffff"

definition s_fabs64 :: "u64 \<Rightarrow> u64" where
  "s_fabs64 x = x AND 0x7fffffffffffffff"

definition s_copysign32 :: "u32 \<Rightarrow> u32 \<Rightarrow> u32" where
  "s_copysign32 x sign = (sign AND 0x80000000) OR (x AND 0x7fffffff)"

definition s_copysign64 :: "u64 \<Rightarrow> u64 \<Rightarrow> u64" where
  "s_copysign64 x sign = (sign AND 0x8000000000000000) OR (x AND 0x7fffffffffffffff)"

text \<open>
  In the conditional expressions of the minimum and the maximum the operands \<open>s_qnan32\<close> and
  \<open>s_qnan64\<close> are integers, which C converts to the floating-point type of the other operands.
\<close>

definition s_fmin32 :: "u32 \<Rightarrow> u32 \<Rightarrow> u32" where
  "s_fmin32 x y =
     (if \<not> fp_eq (f32_of x) (f32_of x) then int_to_f32 (uint s_qnan32)
      else if \<not> fp_eq (f32_of y) (f32_of y) then int_to_f32 (uint s_qnan32)
      else if fp_eq (f32_of x) (Fin False 0 0) \<and> fp_eq (f32_of y) (Fin False 0 0)
        then (if x XOR y = 0 then x else 0x80000000)
      else if fp_lt (f32_of x) (f32_of y) then x else y)"

definition s_fmax32 :: "u32 \<Rightarrow> u32 \<Rightarrow> u32" where
  "s_fmax32 x y =
     (if \<not> fp_eq (f32_of x) (f32_of x) then int_to_f32 (uint s_qnan32)
      else if \<not> fp_eq (f32_of y) (f32_of y) then int_to_f32 (uint s_qnan32)
      else if fp_eq (f32_of x) (Fin False 0 0) \<and> fp_eq (f32_of y) (Fin False 0 0)
        then (if x XOR y = 0 then x else 0)
      else if fp_lt (f32_of y) (f32_of x) then x else y)"

definition s_fmin64 :: "u64 \<Rightarrow> u64 \<Rightarrow> u64" where
  "s_fmin64 x y =
     (if \<not> fp_eq (f64_of x) (f64_of x) then int_to_f64 (uint s_qnan64)
      else if \<not> fp_eq (f64_of y) (f64_of y) then int_to_f64 (uint s_qnan64)
      else if fp_eq (f64_of x) (Fin False 0 0) \<and> fp_eq (f64_of y) (Fin False 0 0)
        then (if x XOR y = 0 then x else 0x8000000000000000)
      else if fp_lt (f64_of x) (f64_of y) then x else y)"

definition s_fmax64 :: "u64 \<Rightarrow> u64 \<Rightarrow> u64" where
  "s_fmax64 x y =
     (if \<not> fp_eq (f64_of x) (f64_of x) then int_to_f64 (uint s_qnan64)
      else if \<not> fp_eq (f64_of y) (f64_of y) then int_to_f64 (uint s_qnan64)
      else if fp_eq (f64_of x) (Fin False 0 0) \<and> fp_eq (f64_of y) (Fin False 0 0)
        then (if x XOR y = 0 then x else 0)
      else if fp_lt (f64_of y) (f64_of x) then x else y)"

text \<open>\<open>ceil\<close>, \<open>floor\<close>, \<open>trunc\<close>, \<open>rint\<close> and \<open>sqrt\<close> are functions on \<open>double\<close>.\<close>

definition s_ceil :: "machine \<Rightarrow> u64 \<Rightarrow> u64" where
  "s_ceil mc = f64_un (mc_fpu mc) Op_ceil (fp_integral ceil_div)"

definition s_floor :: "machine \<Rightarrow> u64 \<Rightarrow> u64" where
  "s_floor mc = f64_un (mc_fpu mc) Op_floor (fp_integral floor_div)"

definition s_trunc :: "machine \<Rightarrow> u64 \<Rightarrow> u64" where
  "s_trunc mc = f64_un (mc_fpu mc) Op_trunc (fp_integral trunc_div)"

definition s_rint :: "machine \<Rightarrow> u64 \<Rightarrow> u64" where
  "s_rint mc = f64_un (mc_fpu mc) Op_rint (fp_integral rint_div)"

definition s_sqrt :: "machine \<Rightarrow> u64 \<Rightarrow> u64" where
  "s_sqrt mc = f64_un (mc_fpu mc) Op_sqrt fp_sqrt"

text \<open>Truncation to a 64-bit integer: \<open>(i64)(truncf(x))\<close> and its variants.\<close>

definition s_truncf32i :: "u32 \<Rightarrow> int res" where
  "s_truncf32i x = fp_to_int (- (2 ^ 63)) (2 ^ 63 - 1) (f32_of x)"

definition s_truncf64i :: "u64 \<Rightarrow> int res" where
  "s_truncf64i x = fp_to_int (- (2 ^ 63)) (2 ^ 63 - 1) (f64_of x)"

definition s_truncf32u :: "u32 \<Rightarrow> int res" where
  "s_truncf32u x = fp_to_int 0 (2 ^ 64 - 1) (f32_of x)"

definition s_truncf64u :: "u64 \<Rightarrow> int res" where
  "s_truncf64u x = fp_to_int 0 (2 ^ 64 - 1) (f64_of x)"

text \<open>The low bytes of an object, sign- or zero-extended.\<close>

definition s_as_i8 :: "u64 \<Rightarrow> int" where "s_as_i8 x = sint (ucast x :: u8)"
definition s_as_i16 :: "u64 \<Rightarrow> int" where "s_as_i16 x = sint (ucast x :: u16)"
definition s_as_i32 :: "u64 \<Rightarrow> int" where "s_as_i32 x = sint (ucast x :: u32)"
definition s_as_i32u :: "u64 \<Rightarrow> int" where "s_as_i32u x = uint (ucast x :: u32)"

end
