(* ===== verification/Dt_Numeric.thy ===== *)
theory Dt_Numeric
  imports Smath Store
begin

text \<open>
  The numeric instructions of the interpreter, src/src/interpreter/in_place_dt.c: the macros
  \<open>UNOP\<close>, \<open>BINOP\<close>, \<open>RELOP\<close>, \<open>CONVERT_OP\<close> and \<open>REINTERPRET_OP\<close>, the instructions that can trap and the
  table of all of them.  An instruction is a function on the slots of the operand stack.

  The members of \<open>value_u\<close> share the eight bytes of a slot.  A store to a 32-bit member leaves the
  other half of the slot unspecified in C; what the machine puts there is the parameter
  \<open>mc_upper\<close>, and no instruction on 32-bit operands reads it.
\<close>

section \<open>Slots\<close>

definition get_w32 :: "value_u \<Rightarrow> u32" where "get_w32 v = ucast v"
definition get_w64 :: "value_u \<Rightarrow> u64" where "get_w64 v = v"
definition get_f32 :: "value_u \<Rightarrow> u32" where "get_f32 v = ucast v"
definition get_f64 :: "value_u \<Rightarrow> u64" where "get_f64 v = v"
definition get_i32 :: "value_u \<Rightarrow> int" where "get_i32 v = sint (ucast v :: u32)"
definition get_u32 :: "value_u \<Rightarrow> int" where "get_u32 v = uint (ucast v :: u32)"
definition get_i64 :: "value_u \<Rightarrow> int" where "get_i64 v = sint v"
definition get_u64 :: "value_u \<Rightarrow> int" where "get_u64 v = uint v"

text \<open>The slot after a store to a member; \<open>old\<close> is what it held.\<close>

definition st_w32 :: "machine \<Rightarrow> value_u \<Rightarrow> u32 \<Rightarrow> value_u" where
  "st_w32 mc old x = push_bit 32 (ucast (mc_upper mc old)) OR ucast x"

definition st_w64 :: "machine \<Rightarrow> value_u \<Rightarrow> u64 \<Rightarrow> value_u" where
  "st_w64 mc old x = x"

definition st_f32 :: "machine \<Rightarrow> value_u \<Rightarrow> u32 \<Rightarrow> value_u" where
  "st_f32 mc old x = st_w32 mc old x"

definition st_f64 :: "machine \<Rightarrow> value_u \<Rightarrow> u64 \<Rightarrow> value_u" where
  "st_f64 mc old x = x"

definition st_i32 :: "machine \<Rightarrow> value_u \<Rightarrow> int \<Rightarrow> value_u" where
  "st_i32 mc old k = st_w32 mc old (word_of_int k)"

definition st_i64 :: "machine \<Rightarrow> value_u \<Rightarrow> int \<Rightarrow> value_u" where
  "st_i64 mc old k = word_of_int k"

section \<open>The macros\<close>

datatype numop = Unop "value_u \<Rightarrow> value_u res" | Binop "value_u \<Rightarrow> value_u \<Rightarrow> value_u res"

definition UNOP :: "(value_u \<Rightarrow> 'b \<Rightarrow> value_u) \<Rightarrow> (value_u \<Rightarrow> 'a) \<Rightarrow> ('a \<Rightarrow> 'b) \<Rightarrow> numop" where
  "UNOP st get oper = Unop (\<lambda>v. Inr (st v (oper (get v))))"

definition BINOP :: "(value_u \<Rightarrow> 'b \<Rightarrow> value_u) \<Rightarrow> (value_u \<Rightarrow> 'a) \<Rightarrow> ('a \<Rightarrow> 'a \<Rightarrow> 'b) \<Rightarrow> machine \<Rightarrow> numop" where
  "BINOP st get oper mc = Binop (\<lambda>v1 v2. Inr (st (mc_undef mc) (oper (get v1) (get v2))))"

definition RELOP :: "machine \<Rightarrow> (value_u \<Rightarrow> 'a) \<Rightarrow> ('a \<Rightarrow> 'a \<Rightarrow> int) \<Rightarrow> numop" where
  "RELOP mc get oper = BINOP (st_i32 mc) get oper mc"

text \<open>The comparisons of C on floats.\<close>

definition c_eq :: "fp \<Rightarrow> fp \<Rightarrow> bool" where "c_eq x y = fp_eq x y"
definition c_ne :: "fp \<Rightarrow> fp \<Rightarrow> bool" where "c_ne x y = (\<not> fp_eq x y)"
definition c_lt :: "fp \<Rightarrow> fp \<Rightarrow> bool" where "c_lt x y = fp_lt x y"
definition c_gt :: "fp \<Rightarrow> fp \<Rightarrow> bool" where "c_gt x y = fp_lt y x"
definition c_le :: "fp \<Rightarrow> fp \<Rightarrow> bool" where "c_le x y = fp_le x y"
definition c_ge :: "fp \<Rightarrow> fp \<Rightarrow> bool" where "c_ge x y = fp_le y x"

definition rel_f32 :: "(fp \<Rightarrow> fp \<Rightarrow> bool) \<Rightarrow> u32 \<Rightarrow> u32 \<Rightarrow> int" where
  "rel_f32 c x y = of_bool (c (f32_of x) (f32_of y))"

definition rel_f64 :: "(fp \<Rightarrow> fp \<Rightarrow> bool) \<Rightarrow> u64 \<Rightarrow> u64 \<Rightarrow> int" where
  "rel_f64 c x y = of_bool (c (f64_of x) (f64_of y))"

text \<open>A function on \<open>double\<close> applied to a \<open>float\<close>, and its result converted back.\<close>

definition via_f64 :: "machine \<Rightarrow> (u64 \<Rightarrow> u64) \<Rightarrow> u32 \<Rightarrow> u32" where
  "via_f64 mc f x = f64_to_f32 (mc_fpu mc) (f (f32_to_f64 (mc_fpu mc) x))"

section \<open>Instructions that can trap\<close>

definition i32_div_s :: "machine \<Rightarrow> value_u \<Rightarrow> value_u \<Rightarrow> value_u res" where
  "i32_div_s mc v1 v2 =
     (if get_i32 v1 = - (2 ^ 31) \<and> get_i32 v2 = - 1 \<or> get_i32 v2 = 0 then Inl E_general
      else Inr (st_i32 mc (mc_undef mc) (s_div (get_i32 v1) (get_i32 v2))))"

definition i32_div_u :: "machine \<Rightarrow> value_u \<Rightarrow> value_u \<Rightarrow> value_u res" where
  "i32_div_u mc v1 v2 =
     (if get_u32 v2 = 0 then Inl E_general
      else Inr (st_i32 mc (mc_undef mc) (s_div (get_u32 v1) (get_u32 v2))))"

definition i32_rem_s :: "machine \<Rightarrow> value_u \<Rightarrow> value_u \<Rightarrow> value_u res" where
  "i32_rem_s mc v1 v2 =
     (if get_i32 v1 = - (2 ^ 31) \<and> get_i32 v2 = - 1 then Inr (st_i32 mc (mc_undef mc) 0)
      else if get_i32 v2 = 0 then Inl E_general
      else Inr (st_i32 mc (mc_undef mc) (s_rem (get_i32 v1) (get_i32 v2))))"

definition i32_rem_u :: "machine \<Rightarrow> value_u \<Rightarrow> value_u \<Rightarrow> value_u res" where
  "i32_rem_u mc v1 v2 =
     (if get_u32 v2 = 0 then Inl E_general
      else Inr (st_i32 mc (mc_undef mc) (s_rem (get_u32 v1) (get_u32 v2))))"

definition i64_div_s :: "value_u \<Rightarrow> value_u \<Rightarrow> value_u res" where
  "i64_div_s v1 v2 =
     (if get_i64 v1 = - (2 ^ 63) \<and> get_i64 v2 = - 1 \<or> get_i64 v2 = 0 then Inl E_general
      else Inr (word_of_int (s_div (get_i64 v1) (get_i64 v2))))"

definition i64_div_u :: "value_u \<Rightarrow> value_u \<Rightarrow> value_u res" where
  "i64_div_u v1 v2 =
     (if get_u64 v2 = 0 then Inl E_general
      else Inr (word_of_int (s_div (get_u64 v1) (get_u64 v2))))"

definition i64_rem_s :: "value_u \<Rightarrow> value_u \<Rightarrow> value_u res" where
  "i64_rem_s v1 v2 =
     (if get_i64 v1 = - (2 ^ 63) \<and> get_i64 v2 = - 1 then Inr 0
      else if get_i64 v2 = 0 then Inl E_general
      else Inr (word_of_int (s_rem (get_i64 v1) (get_i64 v2))))"

definition i64_rem_u :: "value_u \<Rightarrow> value_u \<Rightarrow> value_u res" where
  "i64_rem_u v1 v2 =
     (if get_u64 v2 = 0 then Inl E_general
      else Inr (word_of_int (s_rem (get_u64 v1) (get_u64 v2))))"

text \<open>The floating-point constant of an integer that both formats represent.\<close>

definition lit :: "int \<Rightarrow> fp" where
  "lit k = Fin (k < 0) \<bar>k\<bar> 0"

definition trunc_trap :: "bool \<Rightarrow> int res \<Rightarrow> (int \<Rightarrow> value_u) \<Rightarrow> value_u res" where
  "trunc_trap bad conv st = (if bad then Inl E_general else unwrap conv (\<lambda>k. Inr (st k)))"

definition trunc_sat :: "bool \<Rightarrow> bool \<Rightarrow> bool \<Rightarrow> int \<Rightarrow> int \<Rightarrow> int res \<Rightarrow> (int \<Rightarrow> value_u) \<Rightarrow> value_u res" where
  "trunc_sat nan low high lo hi conv st =
     (if nan then Inr (st 0) else if low then Inr (st lo) else if high then Inr (st hi)
      else unwrap conv (\<lambda>k. Inr (st k)))"

definition i32_trunc_f32_s :: "machine \<Rightarrow> value_u \<Rightarrow> value_u res" where
  "i32_trunc_f32_s mc v =
     trunc_trap (s_isnan32 (get_f32 v) \<or> fp_lt (f32_of (get_f32 v)) (lit (- (2 ^ 31))) \<or> fp_le (lit (2 ^ 31)) (f32_of (get_f32 v)))
       (s_truncf32i (get_f32 v)) (st_i32 mc v)"

definition i32_trunc_sat_f32_s :: "machine \<Rightarrow> value_u \<Rightarrow> value_u res" where
  "i32_trunc_sat_f32_s mc v =
     trunc_sat (s_isnan32 (get_f32 v)) (fp_lt (f32_of (get_f32 v)) (lit (- (2 ^ 31)))) (fp_le (lit (2 ^ 31)) (f32_of (get_f32 v)))
       (- (2 ^ 31)) (2 ^ 31 - 1) (s_truncf32i (get_f32 v)) (st_i32 mc v)"

definition i32_trunc_f32_u :: "machine \<Rightarrow> value_u \<Rightarrow> value_u res" where
  "i32_trunc_f32_u mc v =
     trunc_trap (s_isnan32 (get_f32 v) \<or> fp_le (f32_of (get_f32 v)) (lit (- 1)) \<or> fp_le (lit (2 ^ 32)) (f32_of (get_f32 v)))
       (s_truncf32u (get_f32 v)) (st_i32 mc v)"

definition i32_trunc_sat_f32_u :: "machine \<Rightarrow> value_u \<Rightarrow> value_u res" where
  "i32_trunc_sat_f32_u mc v =
     trunc_sat (s_isnan32 (get_f32 v) \<or> fp_le (f32_of (get_f32 v)) (lit (- 1))) False (fp_le (lit (2 ^ 32)) (f32_of (get_f32 v)))
       0 (2 ^ 32 - 1) (s_truncf32u (get_f32 v)) (st_i32 mc v)"

definition i32_trunc_f64_s :: "machine \<Rightarrow> value_u \<Rightarrow> value_u res" where
  "i32_trunc_f64_s mc v =
     trunc_trap (s_isnan64 (get_f64 v) \<or> fp_le (f64_of (get_f64 v)) (lit (- (2 ^ 31) - 1)) \<or> fp_le (lit (2 ^ 31)) (f64_of (get_f64 v)))
       (s_truncf64i (get_f64 v)) (st_i32 mc v)"

definition i32_trunc_sat_f64_s :: "machine \<Rightarrow> value_u \<Rightarrow> value_u res" where
  "i32_trunc_sat_f64_s mc v =
     trunc_sat (s_isnan64 (get_f64 v)) (fp_le (f64_of (get_f64 v)) (lit (- (2 ^ 31) - 1))) (fp_le (lit (2 ^ 31)) (f64_of (get_f64 v)))
       (- (2 ^ 31)) (2 ^ 31 - 1) (s_truncf64i (get_f64 v)) (st_i32 mc v)"

definition i32_trunc_f64_u :: "machine \<Rightarrow> value_u \<Rightarrow> value_u res" where
  "i32_trunc_f64_u mc v =
     trunc_trap (s_isnan64 (get_f64 v) \<or> fp_le (f64_of (get_f64 v)) (lit (- 1)) \<or> fp_le (lit (2 ^ 32)) (f64_of (get_f64 v)))
       (s_truncf64u (get_f64 v)) (st_i32 mc v)"

definition i32_trunc_sat_f64_u :: "machine \<Rightarrow> value_u \<Rightarrow> value_u res" where
  "i32_trunc_sat_f64_u mc v =
     trunc_sat (s_isnan64 (get_f64 v) \<or> fp_le (f64_of (get_f64 v)) (lit (- 1))) False (fp_le (lit (2 ^ 32)) (f64_of (get_f64 v)))
       0 (2 ^ 32 - 1) (s_truncf64u (get_f64 v)) (st_i32 mc v)"

definition i64_trunc_f32_s :: "machine \<Rightarrow> value_u \<Rightarrow> value_u res" where
  "i64_trunc_f32_s mc v =
     trunc_trap (s_isnan32 (get_f32 v) \<or> fp_lt (f32_of (get_f32 v)) (lit (- (2 ^ 63))) \<or> fp_le (lit (2 ^ 63)) (f32_of (get_f32 v)))
       (s_truncf32i (get_f32 v)) (st_i64 mc v)"

definition i64_trunc_sat_f32_s :: "machine \<Rightarrow> value_u \<Rightarrow> value_u res" where
  "i64_trunc_sat_f32_s mc v =
     trunc_sat (s_isnan32 (get_f32 v)) (fp_lt (f32_of (get_f32 v)) (lit (- (2 ^ 63)))) (fp_le (lit (2 ^ 63)) (f32_of (get_f32 v)))
       (- (2 ^ 63)) (2 ^ 63 - 1) (s_truncf32i (get_f32 v)) (st_i64 mc v)"

definition i64_trunc_f32_u :: "machine \<Rightarrow> value_u \<Rightarrow> value_u res" where
  "i64_trunc_f32_u mc v =
     trunc_trap (s_isnan32 (get_f32 v) \<or> fp_le (f32_of (get_f32 v)) (lit (- 1)) \<or> fp_le (lit (2 ^ 64)) (f32_of (get_f32 v)))
       (s_truncf32u (get_f32 v)) (st_i64 mc v)"

definition i64_trunc_sat_f32_u :: "machine \<Rightarrow> value_u \<Rightarrow> value_u res" where
  "i64_trunc_sat_f32_u mc v =
     trunc_sat (s_isnan32 (get_f32 v) \<or> fp_le (f32_of (get_f32 v)) (lit (- 1))) False (fp_le (lit (2 ^ 64)) (f32_of (get_f32 v)))
       0 (2 ^ 64 - 1) (s_truncf32u (get_f32 v)) (st_i64 mc v)"

definition i64_trunc_f64_s :: "machine \<Rightarrow> value_u \<Rightarrow> value_u res" where
  "i64_trunc_f64_s mc v =
     trunc_trap (s_isnan64 (get_f64 v) \<or> fp_lt (f64_of (get_f64 v)) (lit (- (2 ^ 63))) \<or> fp_le (lit (2 ^ 63)) (f64_of (get_f64 v)))
       (s_truncf64i (get_f64 v)) (st_i64 mc v)"

definition i64_trunc_sat_f64_s :: "machine \<Rightarrow> value_u \<Rightarrow> value_u res" where
  "i64_trunc_sat_f64_s mc v =
     trunc_sat (s_isnan64 (get_f64 v)) (fp_lt (f64_of (get_f64 v)) (lit (- (2 ^ 63)))) (fp_le (lit (2 ^ 63)) (f64_of (get_f64 v)))
       (- (2 ^ 63)) (2 ^ 63 - 1) (s_truncf64i (get_f64 v)) (st_i64 mc v)"

definition i64_trunc_f64_u :: "machine \<Rightarrow> value_u \<Rightarrow> value_u res" where
  "i64_trunc_f64_u mc v =
     trunc_trap (s_isnan64 (get_f64 v) \<or> fp_le (f64_of (get_f64 v)) (lit (- 1)) \<or> fp_le (lit (2 ^ 64)) (f64_of (get_f64 v)))
       (s_truncf64u (get_f64 v)) (st_i64 mc v)"

definition i64_trunc_sat_f64_u :: "machine \<Rightarrow> value_u \<Rightarrow> value_u res" where
  "i64_trunc_sat_f64_u mc v =
     trunc_sat (s_isnan64 (get_f64 v) \<or> fp_le (f64_of (get_f64 v)) (lit (- 1))) False (fp_le (lit (2 ^ 64)) (f64_of (get_f64 v)))
       0 (2 ^ 64 - 1) (s_truncf64u (get_f64 v)) (st_i64 mc v)"

section \<open>The tables\<close>

definition dt_relops :: "machine \<Rightarrow> (u8 \<times> numop) list" where
  "dt_relops mc =
    [(0x45, UNOP (st_i32 mc) get_i32 s_eqz),
     (0x46, RELOP mc get_i32 s_eq),
     (0x47, RELOP mc get_i32 s_ne),
     (0x48, RELOP mc get_i32 s_lt),
     (0x49, RELOP mc get_u32 s_lt),
     (0x4a, RELOP mc get_i32 s_gt),
     (0x4b, RELOP mc get_u32 s_gt),
     (0x4c, RELOP mc get_i32 s_le),
     (0x4d, RELOP mc get_u32 s_le),
     (0x4e, RELOP mc get_i32 s_ge),
     (0x4f, RELOP mc get_u32 s_ge),
     (0x50, UNOP (st_i64 mc) get_i64 s_eqz),
     (0x51, RELOP mc get_i64 s_eq),
     (0x52, RELOP mc get_i64 s_ne),
     (0x53, RELOP mc get_i64 s_lt),
     (0x54, RELOP mc get_u64 s_lt),
     (0x55, RELOP mc get_i64 s_gt),
     (0x56, RELOP mc get_u64 s_gt),
     (0x57, RELOP mc get_i64 s_le),
     (0x58, RELOP mc get_u64 s_le),
     (0x59, RELOP mc get_i64 s_ge),
     (0x5a, RELOP mc get_u64 s_ge),
     (0x5b, RELOP mc get_f32 (rel_f32 c_eq)),
     (0x5c, RELOP mc get_f32 (rel_f32 c_ne)),
     (0x5d, RELOP mc get_f32 (rel_f32 c_lt)),
     (0x5e, RELOP mc get_f32 (rel_f32 c_gt)),
     (0x5f, RELOP mc get_f32 (rel_f32 c_le)),
     (0x60, RELOP mc get_f32 (rel_f32 c_ge)),
     (0x61, RELOP mc get_f64 (rel_f64 c_eq)),
     (0x62, RELOP mc get_f64 (rel_f64 c_ne)),
     (0x63, RELOP mc get_f64 (rel_f64 c_lt)),
     (0x64, RELOP mc get_f64 (rel_f64 c_gt)),
     (0x65, RELOP mc get_f64 (rel_f64 c_le)),
     (0x66, RELOP mc get_f64 (rel_f64 c_ge))]"

definition dt_integer_ops :: "machine \<Rightarrow> (u8 \<times> numop) list" where
  "dt_integer_ops mc =
    [(0x67, UNOP (st_i32 mc) get_w32 s_clz32),
     (0x68, UNOP (st_i32 mc) get_w32 s_ctz32),
     (0x69, UNOP (st_i32 mc) get_w32 s_popcnt32),
     (0x6a, BINOP (st_i32 mc) get_i32 s_add mc),
     (0x6b, BINOP (st_i32 mc) get_i32 s_sub mc),
     (0x6c, BINOP (st_i32 mc) get_i32 s_mul mc),
     (0x6d, Binop (i32_div_s mc)),
     (0x6e, Binop (i32_div_u mc)),
     (0x6f, Binop (i32_rem_s mc)),
     (0x70, Binop (i32_rem_u mc)),
     (0x71, BINOP (st_i32 mc) get_i32 s_and mc),
     (0x72, BINOP (st_i32 mc) get_i32 s_or mc),
     (0x73, BINOP (st_i32 mc) get_i32 s_xor mc),
     (0x74, BINOP (st_i32 mc) get_i32 (s_shl mc 32) mc),
     (0x75, BINOP (st_i32 mc) get_i32 (s_shr mc 32) mc),
     (0x76, BINOP (st_i32 mc) get_u32 (s_shr mc 32) mc),
     (0x77, BINOP (st_w32 mc) get_w32 s_rotl32 mc),
     (0x78, BINOP (st_w32 mc) get_w32 s_rotr32 mc),
     (0x79, UNOP (st_i64 mc) get_w64 s_clz64),
     (0x7a, UNOP (st_i64 mc) get_w64 s_ctz64),
     (0x7b, UNOP (st_i64 mc) get_w64 s_popcnt64),
     (0x7c, BINOP (st_i64 mc) get_i64 s_add mc),
     (0x7d, BINOP (st_i64 mc) get_i64 s_sub mc),
     (0x7e, BINOP (st_i64 mc) get_i64 s_mul mc),
     (0x7f, Binop i64_div_s),
     (0x80, Binop i64_div_u),
     (0x81, Binop i64_rem_s),
     (0x82, Binop i64_rem_u),
     (0x83, BINOP (st_i64 mc) get_i64 s_and mc),
     (0x84, BINOP (st_i64 mc) get_i64 s_or mc),
     (0x85, BINOP (st_i64 mc) get_i64 s_xor mc),
     (0x86, BINOP (st_i64 mc) get_i64 (s_shl mc 64) mc),
     (0x87, BINOP (st_i64 mc) get_i64 (s_shr mc 64) mc),
     (0x88, BINOP (st_i64 mc) get_u64 (s_shr mc 64) mc),
     (0x89, BINOP (st_w64 mc) get_w64 s_rotl64 mc),
     (0x8a, BINOP (st_w64 mc) get_w64 s_rotr64 mc)]"

definition dt_float_ops :: "machine \<Rightarrow> (u8 \<times> numop) list" where
  "dt_float_ops mc =
    [(0x8b, UNOP (st_f32 mc) get_f32 s_fabs32),
     (0x8c, UNOP (st_f32 mc) get_f32 s_fneg32),
     (0x8d, UNOP (st_f32 mc) get_f32 (via_f64 mc (s_ceil mc))),
     (0x8e, UNOP (st_f32 mc) get_f32 (via_f64 mc (s_floor mc))),
     (0x8f, UNOP (st_f32 mc) get_f32 (via_f64 mc (s_trunc mc))),
     (0x90, UNOP (st_f32 mc) get_f32 (via_f64 mc (s_rint mc))),
     (0x91, UNOP (st_f32 mc) get_f32 (via_f64 mc (s_sqrt mc))),
     (0x92, BINOP (st_f32 mc) get_f32 (f32_bin (mc_fpu mc) Op_add fp_add) mc),
     (0x93, BINOP (st_f32 mc) get_f32 (f32_bin (mc_fpu mc) Op_sub fp_sub) mc),
     (0x94, BINOP (st_f32 mc) get_f32 (f32_bin (mc_fpu mc) Op_mul fp_mul) mc),
     (0x95, BINOP (st_f32 mc) get_f32 (f32_bin (mc_fpu mc) Op_div fp_div) mc),
     (0x96, BINOP (st_f32 mc) get_f32 s_fmin32 mc),
     (0x97, BINOP (st_f32 mc) get_f32 s_fmax32 mc),
     (0x98, BINOP (st_f32 mc) get_f32 s_copysign32 mc),
     (0x99, UNOP (st_f64 mc) get_f64 s_fabs64),
     (0x9a, UNOP (st_f64 mc) get_f64 s_fneg64),
     (0x9b, UNOP (st_f64 mc) get_f64 (s_ceil mc)),
     (0x9c, UNOP (st_f64 mc) get_f64 (s_floor mc)),
     (0x9d, UNOP (st_f64 mc) get_f64 (s_trunc mc)),
     (0x9e, UNOP (st_f64 mc) get_f64 (s_rint mc)),
     (0x9f, UNOP (st_f64 mc) get_f64 (s_sqrt mc)),
     (0xa0, BINOP (st_f64 mc) get_f64 (f64_bin (mc_fpu mc) Op_add fp_add) mc),
     (0xa1, BINOP (st_f64 mc) get_f64 (f64_bin (mc_fpu mc) Op_sub fp_sub) mc),
     (0xa2, BINOP (st_f64 mc) get_f64 (f64_bin (mc_fpu mc) Op_mul fp_mul) mc),
     (0xa3, BINOP (st_f64 mc) get_f64 (f64_bin (mc_fpu mc) Op_div fp_div) mc),
     (0xa4, BINOP (st_f64 mc) get_f64 s_fmin64 mc),
     (0xa5, BINOP (st_f64 mc) get_f64 s_fmax64 mc),
     (0xa6, BINOP (st_f64 mc) get_f64 s_copysign64 mc)]"

definition dt_convert_ops :: "machine \<Rightarrow> (u8 \<times> numop) list" where
  "dt_convert_ops mc =
    [(0xa7, UNOP (st_i32 mc) get_i64 s_nop),
     (0xa8, Unop (i32_trunc_f32_s mc)),
     (0xa9, Unop (i32_trunc_f32_u mc)),
     (0xaa, Unop (i32_trunc_f64_s mc)),
     (0xab, Unop (i32_trunc_f64_u mc)),
     (0xac, UNOP (st_i64 mc) id s_as_i32),
     (0xad, UNOP (st_i64 mc) id s_as_i32u),
     (0xae, Unop (i64_trunc_f32_s mc)),
     (0xaf, Unop (i64_trunc_f32_u mc)),
     (0xb0, Unop (i64_trunc_f64_s mc)),
     (0xb1, Unop (i64_trunc_f64_u mc)),
     (0xb2, UNOP (st_f32 mc) get_i32 int_to_f32),
     (0xb3, UNOP (st_f32 mc) get_u32 int_to_f32),
     (0xb4, UNOP (st_f32 mc) get_i64 int_to_f32),
     (0xb5, UNOP (st_f32 mc) get_u64 int_to_f32),
     (0xb6, UNOP (st_f32 mc) get_f64 (f64_to_f32 (mc_fpu mc))),
     (0xb7, UNOP (st_f64 mc) get_i32 int_to_f64),
     (0xb8, UNOP (st_f64 mc) get_u32 int_to_f64),
     (0xb9, UNOP (st_f64 mc) get_i64 int_to_f64),
     (0xba, UNOP (st_f64 mc) get_u64 int_to_f64),
     (0xbb, UNOP (st_f64 mc) get_f32 (f32_to_f64 (mc_fpu mc))),
     (0xbc, UNOP (st_f32 mc) get_f32 id),
     (0xbd, UNOP (st_f64 mc) get_f64 id),
     (0xbe, UNOP (st_f32 mc) get_f32 id),
     (0xbf, UNOP (st_f64 mc) get_f64 id),
     (0xc0, UNOP (st_i32 mc) id s_as_i8),
     (0xc1, UNOP (st_i32 mc) id s_as_i16),
     (0xc2, UNOP (st_i64 mc) id s_as_i8),
     (0xc3, UNOP (st_i64 mc) id s_as_i16),
     (0xc4, UNOP (st_i64 mc) id s_as_i32)]"

definition dt_numeric :: "machine \<Rightarrow> (u8 \<times> numop) list" where
  "dt_numeric mc = dt_relops mc @ dt_integer_ops mc @ dt_float_ops mc @ dt_convert_ops mc"

definition dt_sat_ops :: "machine \<Rightarrow> (u32 \<times> numop) list" where
  "dt_sat_ops mc =
    [(0, Unop (i32_trunc_sat_f32_s mc)),
     (1, Unop (i32_trunc_sat_f32_u mc)),
     (2, Unop (i32_trunc_sat_f64_s mc)),
     (3, Unop (i32_trunc_sat_f64_u mc)),
     (4, Unop (i64_trunc_sat_f32_s mc)),
     (5, Unop (i64_trunc_sat_f32_u mc)),
     (6, Unop (i64_trunc_sat_f64_s mc)),
     (7, Unop (i64_trunc_sat_f64_u mc))]"

end
