(* ===== verification/In_Place_Dt.thy ===== *)
theory In_Place_Dt
  imports Dt_Numeric Vm Mem_Util
begin

text \<open>
  The interpreter: \<open>in_place_dt_call\<close> of src/src/interpreter/in_place_dt.c and
  \<open>interp_call_in_thread\<close> of src/src/interpreter/interpreter.c.

  A call runs on a \<open>frame\<close>.  \<open>fr_local\<close> is the memory that the argument \<open>args\<close> points to: the part of
  the caller's operand stack from the first argument on, or a buffer of its own; the callee keeps
  its locals there and leaves its results there.  \<open>fr_stack\<close> is the operand stack that the call
  allocates, with \<open>fr_sp\<close> slots in use.  \<open>fr_pc\<close> is the offset of \<open>pc\<close> from the start of the
  function's code and \<open>fr_jt\<close> is \<open>next_jt_idx\<close>.  What stays the same during a call is in \<open>dt_env\<close>.
  An access outside an array is \<open>Fault\<close>.

  The loop reads an opcode and executes it; \<open>dt_instr\<close> is one round.  The loop of a call that never
  ends has no result (\<open>None\<close>); \<open>dt_exec\<close> is the loop together with the calls that it makes.
  The dispatch is that of the \<open>switch\<close>; the jump table of the computed \<open>goto\<close> has the same
  entries and no default.

  The machine below the interpreter is the parameter \<open>interp\<close>: its arithmetic, whether memory can
  be allocated, where function instances and memories lie, and the functions of the host.
\<close>

section \<open>State\<close>

record frame =
  fr_local :: "value_u list"
  fr_stack :: "value_u list"
  fr_sp :: nat
  fr_pc :: nat
  fr_jt :: u16

record dt_env =
  de_fn :: func
  de_inst :: nat
  de_mem0 :: "addr option"

type_synonym host = "nat \<Rightarrow> nat \<Rightarrow> mods \<Rightarrow> vm \<Rightarrow> addr \<Rightarrow> value_u list \<Rightarrow> addr option \<Rightarrow> (err option \<times> vm \<times> value_u list) option"

record interp =
  ip_mc :: machine
  ip_am :: alloc
  ip_malloc :: "nat \<Rightarrow> bool"
  ip_alloca :: "nat \<Rightarrow> bool"
  ip_lay :: "addr \<Rightarrow> ref"
  ip_base :: "memory_inst \<Rightarrow> nat"
  ip_little_endian :: bool
  ip_host :: host

definition SILVERFIR_STACK_FRAME_LIMIT :: nat where
  "SILVERFIR_STACK_FRAME_LIMIT = 256"

definition SILVERFIR_STACK_SIZE_LIMIT :: nat where
  "SILVERFIR_STACK_SIZE_LIMIT = 100 * 1024"

text \<open>How a round of the loop ends.\<close>

datatype dt_out =
    Next frame vm
  | Stop err vm
  | Finish frame vm
  | Invoke addr "value_u list" bool frame vm

definition dt_let :: "'a res \<Rightarrow> vm \<Rightarrow> ('a \<Rightarrow> dt_out) \<Rightarrow> dt_out" where
  "dt_let r v f = (case r of Inl e \<Rightarrow> Stop e v | Inr x \<Rightarrow> f x)"

section \<open>The operand stack and the code\<close>

definition pop :: "frame \<Rightarrow> (value_u \<times> frame) res" where
  "pop fr =
     (if fr_sp fr = 0 \<or> length (fr_stack fr) < fr_sp fr then Inl Fault
      else Inr (fr_stack fr ! (fr_sp fr - 1), fr\<lparr>fr_sp := fr_sp fr - 1\<rparr>))"

definition push :: "value_u \<Rightarrow> frame \<Rightarrow> frame res" where
  "push x fr =
     (if fr_sp fr < length (fr_stack fr)
      then Inr (fr\<lparr>fr_stack := (fr_stack fr)[fr_sp fr := x], fr_sp := fr_sp fr + 1\<rparr>) else Inl Fault)"

text \<open>\<open>pop()\<close> of three operands, the last one first.\<close>

definition pop3 :: "frame \<Rightarrow> (value_u \<times> value_u \<times> value_u \<times> frame) res" where
  "pop3 fr =
     unwrap (pop fr) (\<lambda>(a, fr). unwrap (pop fr) (\<lambda>(b, fr). unwrap (pop fr) (\<lambda>(c, fr). Inr (a, b, c, fr))))"

definition stream_seek_unchecked :: "nat \<Rightarrow> frame \<Rightarrow> frame" where
  "stream_seek_unchecked n fr = fr\<lparr>fr_pc := fr_pc fr + n\<rparr>"

definition read_u8 :: "dt_env \<Rightarrow> frame \<Rightarrow> (u8 \<times> frame) res" where
  "read_u8 env fr =
     (if fr_pc fr < length (f_code (de_fn env))
      then Inr (f_code (de_fn env) ! fr_pc fr, fr\<lparr>fr_pc := fr_pc fr + 1\<rparr>) else Inl Fault)"

definition read_vu32 :: "dt_env \<Rightarrow> frame \<Rightarrow> (u32 \<times> frame) res" where
  "read_vu32 env fr = unwrap (stream_read_vu32_unchecked (f_code (de_fn env)) (fr_pc fr)) (\<lambda>(x, p). Inr (x, fr\<lparr>fr_pc := p\<rparr>))"

definition read_vi32 :: "dt_env \<Rightarrow> frame \<Rightarrow> (u32 \<times> frame) res" where
  "read_vi32 env fr = unwrap (stream_read_vi32_unchecked (f_code (de_fn env)) (fr_pc fr)) (\<lambda>(x, p). Inr (x, fr\<lparr>fr_pc := p\<rparr>))"

definition read_vi64 :: "dt_env \<Rightarrow> frame \<Rightarrow> (u64 \<times> frame) res" where
  "read_vi64 env fr = unwrap (stream_read_vi64_unchecked (f_code (de_fn env)) (fr_pc fr)) (\<lambda>(x, p). Inr (x, fr\<lparr>fr_pc := p\<rparr>))"

definition read_f32 :: "dt_env \<Rightarrow> frame \<Rightarrow> (u32 \<times> frame) res" where
  "read_f32 env fr =
     (if fr_pc fr + 4 \<le> length (f_code (de_fn env))
      then Inr (mem_read_u32 (f_code (de_fn env)) (fr_pc fr), fr\<lparr>fr_pc := fr_pc fr + 4\<rparr>) else Inl Fault)"

definition read_f64 :: "dt_env \<Rightarrow> frame \<Rightarrow> (u64 \<times> frame) res" where
  "read_f64 env fr =
     (if fr_pc fr + 8 \<le> length (f_code (de_fn env))
      then Inr (mem_read_u64 (f_code (de_fn env)) (fr_pc fr), fr\<lparr>fr_pc := fr_pc fr + 8\<rparr>) else Inl Fault)"

section \<open>Control\<close>

text \<open>\<open>jump_table * tbl = jt + next_jt_idx\<close> with its two assertions.\<close>

definition slot_here :: "dt_env \<Rightarrow> frame \<Rightarrow> jump_table res" where
  "slot_here env fr =
     unwrap (vec_at (f_jt (de_fn env)) (unat (fr_jt fr))) (\<lambda>tbl.
     if unat (jt_pc tbl) = fr_pc fr then Inr tbl else Inl Fault)"

text \<open>\<open>next_jt_idx = tbl->next_idx; pc += tbl->target_offset\<close>\<close>

definition jump :: "dt_env \<Rightarrow> jump_table \<Rightarrow> frame \<Rightarrow> frame res" where
  "jump env tbl fr =
     (let p = int (fr_pc fr) + sint (target_offset tbl) in
      if p < 0 \<or> p > int (length (f_code (de_fn env))) then Inl Fault
      else Inr (fr\<lparr>fr_jt := next_idx tbl, fr_pc := nat p\<rparr>))"

text \<open>The operands of the target move down over those that the branch discards.\<close>

definition unwind :: "jump_table \<Rightarrow> frame \<Rightarrow> frame res" where
  "unwind tbl fr =
     (if stack_offset tbl = 0 then Inr fr
      else
        let so = unat (stack_offset tbl); ar = unat (jt_arity tbl); sp = fr_sp fr; st = fr_stack fr in
        if 32767 \<le> so \<or> sp < so + ar \<or> length st < sp then Inl Fault
        else Inr (fr\<lparr>fr_stack := take (sp - so - ar) st @ take ar (drop (sp - ar) st) @ drop (sp - so) st, fr_sp := sp - so\<rparr>))"

definition handle_br :: "dt_env \<Rightarrow> frame \<Rightarrow> frame res" where
  "handle_br env fr = unwrap (slot_here env fr) (\<lambda>tbl. unwrap (jump env tbl fr) (unwind tbl))"

definition dt_if :: "dt_env \<Rightarrow> frame \<Rightarrow> frame res" where
  "dt_if env fr =
     unwrap (pop fr) (\<lambda>(c, fr).
     if get_i32 c \<noteq> 0 then Inr (stream_seek_unchecked 1 (fr\<lparr>fr_jt := fr_jt fr + 1\<rparr>))
     else unwrap (slot_here env fr) (\<lambda>tbl. jump env tbl fr))"

definition dt_else :: "dt_env \<Rightarrow> frame \<Rightarrow> frame res" where
  "dt_else env fr = unwrap (slot_here env fr) (\<lambda>tbl. jump env tbl fr)"

definition dt_br_if :: "dt_env \<Rightarrow> frame \<Rightarrow> frame res" where
  "dt_br_if env fr =
     unwrap (pop fr) (\<lambda>(c, fr).
     if get_i32 c \<noteq> 0 then handle_br env fr
     else Inr (stream_seek_unchecked 1 (fr\<lparr>fr_jt := fr_jt fr + 1\<rparr>)))"

definition dt_br_table :: "dt_env \<Rightarrow> frame \<Rightarrow> frame res" where
  "dt_br_table env fr =
     unwrap (pop fr) (\<lambda>(c, fr).
     unwrap (read_vu32 env fr) (\<lambda>(table_len, fr).
     let i = (if get_w32 c > table_len then table_len else get_w32 c);
         fr = stream_seek_unchecked (unat (table_len + 1)) fr in
     handle_br env (fr\<lparr>fr_jt := fr_jt fr + ucast i\<rparr>)))"

definition dt_control :: "dt_env \<Rightarrow> u8 \<Rightarrow> frame \<Rightarrow> vm \<Rightarrow> dt_out option" where
  "dt_control env opcode fr v =
     (let go = (\<lambda>r. Some (dt_let r v (\<lambda>fr. Next fr v))) in
      if opcode = 0x00 then Some (Stop E_general v)
      else if opcode = 0x01 then go (Inr fr)
      else if opcode = 0x02 then go (Inr (stream_seek_unchecked 1 fr))
      else if opcode = 0x03 then go (Inr (stream_seek_unchecked 1 fr))
      else if opcode = 0x04 then go (dt_if env fr)
      else if opcode = 0x05 then go (dt_else env fr)
      else if opcode = 0x0b then (if fr_pc fr = length (f_code (de_fn env)) then Some (Finish fr v) else go (Inr fr))
      else if opcode = 0x0c then go (handle_br env fr)
      else if opcode = 0x0d then go (dt_br_if env fr)
      else if opcode = 0x0e then go (dt_br_table env fr)
      else if opcode = 0x0f then Some (Finish fr v)
      else None)"

section \<open>Calls\<close>

text \<open>\<open>(func_addr)(x)\<close>: the function instance at a machine address.\<close>

definition all_func_addrs :: "vm \<Rightarrow> addr list" where
  "all_func_addrs v =
     concat (map (\<lambda>(i, mi). map (Pair i) [0..<vec_size (mi_funcs mi)]) (enumerate 0 (instances v)))"

definition to_func_addr :: "(addr \<Rightarrow> ref) \<Rightarrow> vm \<Rightarrow> ref \<Rightarrow> addr res" where
  "to_func_addr lay v x = (case find (\<lambda>a. lay a = x) (all_func_addrs v) of None \<Rightarrow> Inl Fault | Some a \<Rightarrow> Inr a)"

text \<open>\<open>sp -= callee_type.param_count\<close>\<close>

definition drop_args :: "func \<Rightarrow> frame \<Rightarrow> frame res" where
  "drop_args callee_fn fr =
     (let n = unat (param_count (fn_type callee_fn)) in
      if fr_sp fr < n \<or> length (fr_stack fr) < fr_sp fr then Inl Fault else Inr (fr\<lparr>fr_sp := fr_sp fr - n\<rparr>))"

definition dt_call :: "mods \<Rightarrow> dt_env \<Rightarrow> frame \<Rightarrow> vm \<Rightarrow> dt_out" where
  "dt_call ms env fr v =
     dt_let (read_vu32 env fr) v (\<lambda>(fn_idx_local, fr).
     dt_let (unwrap (the_inst v (de_inst env)) (\<lambda>mi. vec_at (f_addrs mi) (unat fn_idx_local))) v (\<lambda>callee_addr.
     dt_let (addr_fn ms v callee_addr) v (\<lambda>callee_fn.
     dt_let (drop_args callee_fn fr) v (\<lambda>fr.
     if fr_sp fr + unat (local_count callee_fn) > unat (f_stack_size_max (de_fn env)) then Stop Fault v
     else Invoke (the callee_addr) (drop (fr_sp fr) (fr_stack fr)) False fr v))))"

definition dt_call_indirect :: "interp \<Rightarrow> mods \<Rightarrow> dt_env \<Rightarrow> frame \<Rightarrow> vm \<Rightarrow> dt_out" where
  "dt_call_indirect ip ms env fr v =
     dt_let (read_vu32 env fr) v (\<lambda>(type_idx, fr).
     dt_let (the_inst v (de_inst env)) v (\<lambda>mi.
     dt_let (unwrap (the_mod ms (mi_mod mi)) (\<lambda>m. vec_at (func_types m) (unat type_idx))) v (\<lambda>src_type.
     dt_let (read_vu32 env fr) v (\<lambda>(table_idx, fr).
     dt_let (vec_at (t_addrs mi) (unat table_idx)) v (\<lambda>t_addr.
     dt_let (pop fr) v (\<lambda>(x, fr).
     dt_let (at_addr mi_tables v t_addr) v (\<lambda>ti.
     let i = get_i32 x in
     if i < 0 \<or> nat i \<ge> vec_size (tdata ti) then Stop E_general v
     else
       dt_let (vec_at (tdata ti) (nat i)) v (\<lambda>fref.
       if fref = nullref then Stop E_general v
       else
         dt_let (to_func_addr (ip_lay ip) v fref) v (\<lambda>callee_addr.
         dt_let (addr_fn ms v (Some callee_addr)) v (\<lambda>callee_fn.
         if \<not> func_type_eq (fn_type callee_fn) src_type then Stop E_general v
         else
           dt_let (drop_args callee_fn fr) v (\<lambda>fr.
           let n = unat (param_count (fn_type callee_fn)); args = drop (fr_sp fr) (fr_stack fr) in
           if local_count callee_fn - ucast (param_count (fn_type callee_fn)) \<noteq> 0 then
             if \<not> ip_malloc ip (unat (local_count callee_fn)) then Stop E_general v
             else if unat (local_count callee_fn) < n then Stop Fault v
             else Invoke callee_addr
                    (take n args @ replicate (unat (local_count callee_fn) - n) (mc_undef (ip_mc ip))) True fr v
           else Invoke callee_addr args False fr v)))))))))))"

text \<open>The results of the callee become operands of the caller.\<close>

definition dt_resume :: "func \<Rightarrow> bool \<Rightarrow> value_u list \<Rightarrow> frame \<Rightarrow> frame res" where
  "dt_resume callee_fn own buf fr =
     (let n = unat (result_count (fn_type callee_fn)); sp = fr_sp fr; st = fr_stack fr in
      if own then
        if length buf < n \<or> length st < sp + n then Inl Fault
        else Inr (fr\<lparr>fr_stack := take sp st @ take n buf @ drop (sp + n) st, fr_sp := sp + n\<rparr>)
      else if length st < sp + n then Inl Fault
      else Inr (fr\<lparr>fr_stack := take sp st @ buf, fr_sp := sp + n\<rparr>))"

section \<open>Variables\<close>

definition dt_select :: "frame \<Rightarrow> frame res" where
  "dt_select fr =
     unwrap (pop3 fr) (\<lambda>(cond, false_val, true_val, fr).
     if get_i32 cond \<noteq> 0 then push true_val fr else push false_val fr)"

definition local_read :: "frame \<Rightarrow> u32 \<Rightarrow> value_u res" where
  "local_read fr i = (if unat i < length (fr_local fr) then Inr (fr_local fr ! unat i) else Inl Fault)"

definition local_write :: "u32 \<Rightarrow> value_u \<Rightarrow> frame \<Rightarrow> frame res" where
  "local_write i x fr =
     (if unat i < length (fr_local fr) then Inr (fr\<lparr>fr_local := (fr_local fr)[unat i := x]\<rparr>) else Inl Fault)"

definition dt_local_get :: "dt_env \<Rightarrow> frame \<Rightarrow> frame res" where
  "dt_local_get env fr = unwrap (read_vu32 env fr) (\<lambda>(i, fr). unwrap (local_read fr i) (\<lambda>x. push x fr))"

definition dt_local_set :: "dt_env \<Rightarrow> frame \<Rightarrow> frame res" where
  "dt_local_set env fr = unwrap (pop fr) (\<lambda>(x, fr). unwrap (read_vu32 env fr) (\<lambda>(i, fr). local_write i x fr))"

definition dt_local_tee :: "dt_env \<Rightarrow> frame \<Rightarrow> frame res" where
  "dt_local_tee env fr =
     unwrap (pop fr) (\<lambda>(x, _). unwrap (read_vu32 env fr) (\<lambda>(i, fr). local_write i x fr))"

definition global_addr :: "dt_env \<Rightarrow> vm \<Rightarrow> u32 \<Rightarrow> addr option res" where
  "global_addr env v i =
     unwrap (the_inst v (de_inst env)) (\<lambda>mi.
     if unat i \<ge> vec_size (mi_globals mi) then Inl Fault else vec_at (g_addrs mi) (unat i))"

definition dt_global_get :: "dt_env \<Rightarrow> frame \<Rightarrow> vm \<Rightarrow> frame res" where
  "dt_global_get env fr v =
     unwrap (read_vu32 env fr) (\<lambda>(i, fr).
     unwrap (global_addr env v i) (\<lambda>g_addr.
     unwrap (at_addr mi_globals v g_addr) (\<lambda>gi. push (gvalue gi) fr)))"

definition dt_global_set :: "dt_env \<Rightarrow> frame \<Rightarrow> vm \<Rightarrow> (frame \<times> vm) res" where
  "dt_global_set env fr v =
     unwrap (read_vu32 env fr) (\<lambda>(i, fr).
     unwrap (global_addr env v i) (\<lambda>g_addr.
     unwrap (pop fr) (\<lambda>(x, fr).
     unwrap (at_addr mi_globals v g_addr) (\<lambda>gi.
     unwrap (set_addr mi_globals mi_globals_update (gi\<lparr>gvalue := x\<rparr>) v g_addr) (\<lambda>v. Inr (fr, v))))))"

section \<open>Tables\<close>

definition table_addr :: "dt_env \<Rightarrow> vm \<Rightarrow> u32 \<Rightarrow> addr option res" where
  "table_addr env v i = unwrap (the_inst v (de_inst env)) (\<lambda>mi. vec_at (t_addrs mi) (unat i))"

definition dt_table_get :: "dt_env \<Rightarrow> frame \<Rightarrow> vm \<Rightarrow> frame res" where
  "dt_table_get env fr v =
     unwrap (read_vu32 env fr) (\<lambda>(i, fr).
     unwrap (table_addr env v i) (\<lambda>t_addr.
     unwrap (pop fr) (\<lambda>(x, fr).
     unwrap (at_addr mi_tables v t_addr) (\<lambda>ti.
     if unat (get_w32 x) \<ge> vec_size (tdata ti) then Inl E_general
     else unwrap (vec_at (tdata ti) (unat (get_w32 x))) (\<lambda>y. push y fr)))))"

definition dt_table_set :: "dt_env \<Rightarrow> frame \<Rightarrow> vm \<Rightarrow> (frame \<times> vm) res" where
  "dt_table_set env fr v =
     unwrap (read_vu32 env fr) (\<lambda>(i, fr).
     unwrap (table_addr env v i) (\<lambda>t_addr.
     unwrap (pop fr) (\<lambda>(y, fr).
     unwrap (pop fr) (\<lambda>(x, fr).
     unwrap (at_addr mi_tables v t_addr) (\<lambda>ti.
     if unat (get_w32 x) \<ge> vec_size (tdata ti) then Inl E_general
     else unwrap (set_tab_elem t_addr (unat (get_w32 x)) y v) (\<lambda>v. Inr (fr, v)))))))"

definition dt_variable :: "dt_env \<Rightarrow> u8 \<Rightarrow> frame \<Rightarrow> vm \<Rightarrow> dt_out option" where
  "dt_variable env opcode fr v =
     (let go = (\<lambda>r. Some (dt_let r v (\<lambda>fr. Next fr v))); go2 = (\<lambda>r. Some (dt_let r v (\<lambda>(fr, v). Next fr v))) in
      if opcode = 0x1a then go (unwrap (pop fr) (\<lambda>(x, fr). Inr fr))
      else if opcode = 0x1b then go (dt_select fr)
      else if opcode = 0x1c then go (dt_select (stream_seek_unchecked 2 fr))
      else if opcode = 0x20 then go (dt_local_get env fr)
      else if opcode = 0x21 then go (dt_local_set env fr)
      else if opcode = 0x22 then go (dt_local_tee env fr)
      else if opcode = 0x23 then go (dt_global_get env fr v)
      else if opcode = 0x24 then go2 (dt_global_set env fr v)
      else if opcode = 0x25 then go (dt_table_get env fr v)
      else if opcode = 0x26 then go2 (dt_table_set env fr v)
      else None)"

section \<open>Memory\<close>

text \<open>The byte range that a load or a store touches; \<open>Inl E_general\<close> when it leaves the memory.\<close>

definition mem_range :: "vm \<Rightarrow> addr option \<Rightarrow> value_u \<Rightarrow> u32 \<Rightarrow> nat \<Rightarrow> (memory_inst \<times> nat) res" where
  "mem_range v mem0 x offset n =
     unwrap (at_addr mi_memories v mem0) (\<lambda>m.
     let mem_idx = unat (get_w32 x) + unat offset in
     if mem_idx + n > vec_size (mdata m) then Inl E_general else Inr (m, mem_idx))"

definition dt_MEM_LOAD :: "dt_env \<Rightarrow> nat \<Rightarrow> (u8 list \<Rightarrow> nat \<Rightarrow> value_u) \<Rightarrow> frame \<Rightarrow> vm \<Rightarrow> frame res" where
  "dt_MEM_LOAD env n rd fr v =
     unwrap (read_vu32 env (stream_seek_unchecked 1 fr)) (\<lambda>(offset, fr).
     unwrap (pop fr) (\<lambda>(x, fr).
     unwrap (mem_range v (de_mem0 env) x offset n) (\<lambda>(m, mem_idx).
     push (rd (vdata (mdata m)) mem_idx) fr)))"

definition dt_MEM_STORE ::
  "dt_env \<Rightarrow> nat \<Rightarrow> (memory_inst \<Rightarrow> nat \<Rightarrow> value_u \<Rightarrow> u8 list \<Rightarrow> u8 list) \<Rightarrow> frame \<Rightarrow> vm \<Rightarrow> (frame \<times> vm) res" where
  "dt_MEM_STORE env n wr fr v =
     unwrap (read_vu32 env (stream_seek_unchecked 1 fr)) (\<lambda>(offset, fr).
     unwrap (pop fr) (\<lambda>(val, fr).
     unwrap (pop fr) (\<lambda>(x, fr).
     unwrap (mem_range v (de_mem0 env) x offset n) (\<lambda>(m, mem_idx).
     unwrap (set_addr mi_memories mi_memories_update
               (m\<lparr>mdata := (mdata m)\<lparr>vdata := wr m mem_idx val (vdata (mdata m))\<rparr>\<rparr>) v (de_mem0 env)) (\<lambda>v.
     Inr (fr, v))))))"

text \<open>The size of the access and the value it reads or writes.\<close>

definition dt_loads :: "machine \<Rightarrow> (u8 \<times> nat \<times> (u8 list \<Rightarrow> nat \<Rightarrow> value_u)) list" where
  "dt_loads mc =
    (let i32 = st_i32 mc (mc_undef mc); i64 = st_i64 mc (mc_undef mc) in
     [(0x28, 4, \<lambda>m i. i32 (sint (mem_read_u32 m i))),
      (0x29, 8, \<lambda>m i. i64 (sint (mem_read_u64 m i))),
      (0x2a, 4, \<lambda>m i. st_f32 mc (mc_undef mc) (mem_read_u32 m i)),
      (0x2b, 8, \<lambda>m i. st_f64 mc (mc_undef mc) (mem_read_u64 m i)),
      (0x2c, 1, \<lambda>m i. i32 (sint (mem_read_u8 m i))),
      (0x2d, 1, \<lambda>m i. i32 (uint (mem_read_u8 m i))),
      (0x2e, 2, \<lambda>m i. i32 (sint (mem_read_u16 m i))),
      (0x2f, 2, \<lambda>m i. i32 (uint (mem_read_u16 m i))),
      (0x30, 1, \<lambda>m i. i64 (sint (mem_read_u8 m i))),
      (0x31, 1, \<lambda>m i. i64 (uint (mem_read_u8 m i))),
      (0x32, 2, \<lambda>m i. i64 (sint (mem_read_u16 m i))),
      (0x33, 2, \<lambda>m i. i64 (uint (mem_read_u16 m i))),
      (0x34, 4, \<lambda>m i. i64 (sint (mem_read_u32 m i))),
      (0x35, 4, \<lambda>m i. i64 (uint (mem_read_u32 m i)))])"

definition dt_stores :: "interp \<Rightarrow> (u8 \<times> nat \<times> (memory_inst \<Rightarrow> nat \<Rightarrow> value_u \<Rightarrow> u8 list \<Rightarrow> u8 list)) list" where
  "dt_stores ip =
     [(0x36, 4, \<lambda>m i x. mem_write_u32 (ip_base ip m) i (get_w32 x)),
      (0x37, 8, \<lambda>m i x. mem_write_u64 (ip_base ip m) i (get_w64 x)),
      (0x38, 4, \<lambda>m i x. mem_write_f32 (ip_base ip m) i (get_f32 x)),
      (0x39, 8, \<lambda>m i x. mem_write_f64 (ip_base ip m) i (get_f64 x)),
      (0x3a, 1, \<lambda>m i x. mem_write_u8 i (ucast (get_w32 x))),
      (0x3b, 2, \<lambda>m i x. mem_write_u16 (ip_base ip m) i (ucast (get_w32 x))),
      (0x3c, 1, \<lambda>m i x. mem_write_u8 i (ucast (get_w64 x))),
      (0x3d, 2, \<lambda>m i x. mem_write_u16 (ip_base ip m) i (ucast (get_w64 x))),
      (0x3e, 4, \<lambda>m i x. mem_write_u32 (ip_base ip m) i (ucast (get_w64 x)))]"

definition push_i32 :: "interp \<Rightarrow> int \<Rightarrow> frame \<Rightarrow> frame res" where
  "push_i32 ip k = push (st_i32 (ip_mc ip) (mc_undef (ip_mc ip)) k)"

definition dt_memory_size :: "interp \<Rightarrow> dt_env \<Rightarrow> frame \<Rightarrow> vm \<Rightarrow> frame res" where
  "dt_memory_size ip env fr v =
     unwrap (at_addr mi_memories v (de_mem0 env)) (\<lambda>m.
     push_i32 ip (int (vec_size (mdata m) div WASM_PAGE_SIZE)) (stream_seek_unchecked 1 fr))"

definition dt_memory_grow :: "interp \<Rightarrow> mods \<Rightarrow> dt_env \<Rightarrow> frame \<Rightarrow> vm \<Rightarrow> (frame \<times> vm) res" where
  "dt_memory_grow ip ms env fr v =
     unwrap (at_addr mi_memories v (de_mem0 env)) (\<lambda>m.
     unwrap (pop (stream_seek_unchecked 1 fr)) (\<lambda>(x, fr).
     unwrap (addr_mem ms v (de_mem0 env)) (\<lambda>mem.
     let sz = vec_size (mdata m) div WASM_PAGE_SIZE; n_pages = unat (get_w32 x) in
     case (if sz + n_pages \<le> unat (lim_max (mem_lim mem))
           then vec_resize (ip_am ip T_u8) 0 (mdata m) ((sz + n_pages) * WASM_PAGE_SIZE) else Inl E_general) of
       Inl e \<Rightarrow> unwrap (push_i32 ip (- 1) fr) (\<lambda>fr. Inr (fr, v))
     | Inr d \<Rightarrow>
         unwrap (set_addr mi_memories mi_memories_update (m\<lparr>mdata := d\<rparr>) v (de_mem0 env)) (\<lambda>v.
         unwrap (push_i32 ip (int sz) fr) (\<lambda>fr. Inr (fr, v))))))"

definition dt_memory :: "interp \<Rightarrow> mods \<Rightarrow> dt_env \<Rightarrow> u8 \<Rightarrow> frame \<Rightarrow> vm \<Rightarrow> dt_out option" where
  "dt_memory ip ms env opcode fr v =
     (let go = (\<lambda>r. Some (dt_let r v (\<lambda>fr. Next fr v))); go2 = (\<lambda>r. Some (dt_let r v (\<lambda>(fr, v). Next fr v))) in
      case map_of (dt_loads (ip_mc ip)) opcode of Some (n, rd) \<Rightarrow> go (dt_MEM_LOAD env n rd fr v)
      | None \<Rightarrow>
      (case map_of (dt_stores ip) opcode of Some (n, wr) \<Rightarrow> go2 (dt_MEM_STORE env n wr fr v)
       | None \<Rightarrow>
         if opcode = 0x3f then go (dt_memory_size ip env fr v)
         else if opcode = 0x40 then go2 (dt_memory_grow ip ms env fr v)
         else None))"

section \<open>Values\<close>

text \<open>A numeric instruction on the operand stack.\<close>

definition dt_num :: "numop \<Rightarrow> frame \<Rightarrow> frame res" where
  "dt_num oper fr =
     (case oper of
        Unop f \<Rightarrow> unwrap (pop fr) (\<lambda>(v, fr). unwrap (f v) (\<lambda>x. push x fr))
      | Binop f \<Rightarrow> unwrap (pop fr) (\<lambda>(v2, fr). unwrap (pop fr) (\<lambda>(v1, fr). unwrap (f v1 v2) (\<lambda>x. push x fr))))"

definition dt_value :: "interp \<Rightarrow> dt_env \<Rightarrow> u8 \<Rightarrow> frame \<Rightarrow> vm \<Rightarrow> dt_out option" where
  "dt_value ip env opcode fr v =
     (let mc = ip_mc ip; go = (\<lambda>r. Some (dt_let r v (\<lambda>fr. Next fr v))) in
      if opcode = 0x41 then go (unwrap (read_vi32 env fr) (\<lambda>(x, fr). push (st_w32 mc (mc_undef mc) x) fr))
      else if opcode = 0x42 then go (unwrap (read_vi64 env fr) (\<lambda>(x, fr). push x fr))
      else if opcode = 0x43 then go (unwrap (read_f32 env fr) (\<lambda>(x, fr). push (st_f32 mc (mc_undef mc) x) fr))
      else if opcode = 0x44 then go (unwrap (read_f64 env fr) (\<lambda>(x, fr). push x fr))
      else if opcode = 0xd0 then go (push nullref (stream_seek_unchecked 1 fr))
      else if opcode = 0xd1 then go (dt_num (Unop (\<lambda>x. Inr (st_i32 mc x (of_bool (x = nullref))))) fr)
      else if opcode = 0xd2 then
        go (unwrap (read_vu32 env fr) (\<lambda>(f_idx, fr).
            unwrap (the_inst v (de_inst env)) (\<lambda>mi.
            unwrap (vec_at (f_addrs mi) (unat f_idx)) (\<lambda>a. push (to_ref (ip_lay ip) a) fr))))
      else map_option (\<lambda>oper. dt_let (dt_num oper fr) v (\<lambda>fr. Next fr v)) (map_of (dt_numeric mc) opcode))"

section \<open>Bulk operations\<close>

definition dt_memory_init :: "mods \<Rightarrow> dt_env \<Rightarrow> frame \<Rightarrow> vm \<Rightarrow> (frame \<times> vm) res" where
  "dt_memory_init ms env fr v =
     unwrap (read_vu32 env fr) (\<lambda>(data_idx, fr).
     unwrap (the_inst v (de_inst env)) (\<lambda>mi.
     unwrap (the_mod ms (mi_mod mi)) (\<lambda>m.
     unwrap (vec_at (m_data m) (unat data_idx)) (\<lambda>d.
     unwrap (pop3 (stream_seek_unchecked 1 fr)) (\<lambda>(a, b, c, fr).
     let size = unat (get_w32 a); src = unat (get_w32 b); dst = unat (get_w32 c) in
     unwrap (at_addr mi_memories v (de_mem0 env)) (\<lambda>x.
     if src + size > length (d_bytes d) \<or> dst + size > vec_size (mdata x) then Inl E_general
     else if size = 0 then Inr (fr, v)
     else
       unwrap (vec_at (dropped_data mi) (unat data_idx)) (\<lambda>dropped.
       if dropped \<noteq> 0 then Inl E_general
       else unwrap (mem_copy_in (de_mem0 env) dst (take size (drop src (d_bytes d))) v) (\<lambda>v. Inr (fr, v)))))))))"

definition dt_data_drop :: "dt_env \<Rightarrow> frame \<Rightarrow> vm \<Rightarrow> (frame \<times> vm) res" where
  "dt_data_drop env fr v =
     unwrap (read_vu32 env fr) (\<lambda>(data_idx, fr). unwrap (drop_data (de_inst env) (unat data_idx) v) (\<lambda>v. Inr (fr, v)))"

definition dt_memory_copy :: "dt_env \<Rightarrow> frame \<Rightarrow> vm \<Rightarrow> (frame \<times> vm) res" where
  "dt_memory_copy env fr v =
     unwrap (pop3 (stream_seek_unchecked 2 fr)) (\<lambda>(a, b, c, fr).
     let size = unat (get_w32 a); src = unat (get_w32 b); dst = unat (get_w32 c) in
     unwrap (at_addr mi_memories v (de_mem0 env)) (\<lambda>x.
     if src + size > vec_size (mdata x) \<or> dst + size > vec_size (mdata x) then Inl E_general
     else if size = 0 then Inr (fr, v)
     else unwrap (mem_copy_in (de_mem0 env) dst (take size (drop src (vdata (mdata x)))) v) (\<lambda>v. Inr (fr, v))))"

definition dt_memory_fill :: "dt_env \<Rightarrow> frame \<Rightarrow> vm \<Rightarrow> (frame \<times> vm) res" where
  "dt_memory_fill env fr v =
     unwrap (pop3 (stream_seek_unchecked 1 fr)) (\<lambda>(a, b, c, fr).
     let size = unat (get_w32 a); dst = unat (get_w32 c) in
     unwrap (at_addr mi_memories v (de_mem0 env)) (\<lambda>x.
     if dst + size > vec_size (mdata x) then Inl E_general
     else if size = 0 then Inr (fr, v)
     else unwrap (mem_copy_in (de_mem0 env) dst (replicate size (ucast (get_w32 b))) v) (\<lambda>v. Inr (fr, v))))"

text \<open>A passive element segment allows references only.\<close>

definition init_funcidx :: "(addr \<Rightarrow> ref) \<Rightarrow> nat \<Rightarrow> element \<Rightarrow> addr option \<Rightarrow> nat \<Rightarrow> nat \<Rightarrow> nat \<Rightarrow> vm act" where
  "init_funcidx lay i elem t_addr src dst j v =
     act_let (the_inst v i) (\<lambda>mi.
     act_let (vec_at (v_funcidx elem) (src + j)) (\<lambda>f_idx.
     act_let (funcidx_ref lay mi f_idx) (\<lambda>fref v. act_set (set_tab_elem t_addr (dst + j) fref v) v))) v"

definition init_expr :: "alloc \<Rightarrow> (addr \<Rightarrow> ref) \<Rightarrow> mods \<Rightarrow> nat \<Rightarrow> element \<Rightarrow> addr option \<Rightarrow> nat \<Rightarrow> nat \<Rightarrow> nat \<Rightarrow> vm act" where
  "init_expr am lay ms i elem t_addr src dst j v =
     act_let (the_inst v i) (\<lambda>mi.
     act_let (vec_at (v_expr elem) (src + j)) (\<lambda>expr.
     act_let (interp_reduce_const_expr am lay ms v mi (stream_from expr) True) (\<lambda>val.
     if \<not> is_ref (tv_type val) then act_err E_invalid
     else (\<lambda>v. act_set (set_tab_elem t_addr (dst + j) (tv_val val) v) v)))) v"

definition dt_table_init :: "interp \<Rightarrow> mods \<Rightarrow> dt_env \<Rightarrow> frame \<Rightarrow> vm \<Rightarrow> dt_out" where
  "dt_table_init ip ms env fr v =
     dt_let (read_vu32 env fr) v (\<lambda>(elem_idx, fr).
     dt_let (read_vu32 env fr) v (\<lambda>(table_idx, fr).
     dt_let (the_inst v (de_inst env)) v (\<lambda>mi.
     dt_let (vec_at (t_addrs mi) (unat table_idx)) v (\<lambda>t_addr.
     dt_let (the_mod ms (mi_mod mi)) v (\<lambda>m.
     dt_let (vec_at (elements m) (unat elem_idx)) v (\<lambda>elem.
     dt_let (pop3 fr) v (\<lambda>(a, b, c, fr).
     let size = unat (get_w32 a); src = unat (get_w32 b); dst = unat (get_w32 c) in
     dt_let (at_addr mi_tables v t_addr) v (\<lambda>ti.
     if src + size > data_len elem \<or> dst + size > vec_size (tdata ti) then Stop E_general v
     else if size = 0 then Next fr v
     else
       dt_let (vec_at (dropped_elements mi) (unat elem_idx)) v (\<lambda>dropped.
       if dropped \<noteq> 0 then Stop E_general v
       else
         (case (if vec_size (v_funcidx elem) \<noteq> 0
                then act_for 0 size (init_funcidx (ip_lay ip) (de_inst env) elem t_addr src dst)
                else if vec_size (v_expr elem) \<noteq> 0
                then act_for 0 size (init_expr (ip_am ip) (ip_lay ip) ms (de_inst env) elem t_addr src dst)
                else if data_len elem \<noteq> 0 then act_err Fault else Pair None) v of
            (Some e, v) \<Rightarrow> Stop e v
          | (None, v) \<Rightarrow> Next fr v))))))))))"

definition dt_elem_drop :: "dt_env \<Rightarrow> frame \<Rightarrow> vm \<Rightarrow> (frame \<times> vm) res" where
  "dt_elem_drop env fr v =
     unwrap (read_vu32 env fr) (\<lambda>(elem_idx, fr). unwrap (drop_element (de_inst env) (unat elem_idx) v) (\<lambda>v. Inr (fr, v)))"

text \<open>A copy of references into a table, at an offset.\<close>

definition tab_copy_in :: "addr option \<Rightarrow> nat \<Rightarrow> ref list \<Rightarrow> vm \<Rightarrow> vm res" where
  "tab_copy_in a dst refs v =
     unwrap (at_addr mi_tables v a) (\<lambda>ti.
     let d = vdata (tdata ti) in
     if dst + length refs > length d then Inl Fault
     else set_addr mi_tables mi_tables_update
            (ti\<lparr>tdata := (tdata ti)\<lparr>vdata := take dst d @ refs @ drop (dst + length refs) d\<rparr>\<rparr>) v a)"

definition dt_table_copy :: "dt_env \<Rightarrow> frame \<Rightarrow> vm \<Rightarrow> (frame \<times> vm) res" where
  "dt_table_copy env fr v =
     unwrap (read_vu32 env fr) (\<lambda>(table_idx_dst, fr).
     unwrap (read_vu32 env fr) (\<lambda>(table_idx_src, fr).
     unwrap (table_addr env v table_idx_dst) (\<lambda>t_addr_dst.
     unwrap (table_addr env v table_idx_src) (\<lambda>t_addr_src.
     unwrap (pop3 fr) (\<lambda>(a, b, c, fr).
     let size = unat (get_w32 a); src = unat (get_w32 b); dst = unat (get_w32 c) in
     unwrap (at_addr mi_tables v t_addr_src) (\<lambda>s.
     unwrap (at_addr mi_tables v t_addr_dst) (\<lambda>d.
     if src + size > vec_size (tdata s) \<or> dst + size > vec_size (tdata d) then Inl E_general
     else if size = 0 then Inr (fr, v)
     else unwrap (tab_copy_in t_addr_dst dst (take size (drop src (vdata (tdata s)))) v) (\<lambda>v. Inr (fr, v)))))))))"

definition dt_table_grow :: "interp \<Rightarrow> mods \<Rightarrow> dt_env \<Rightarrow> frame \<Rightarrow> vm \<Rightarrow> (frame \<times> vm) res" where
  "dt_table_grow ip ms env fr v =
     unwrap (read_vu32 env fr) (\<lambda>(table_idx, fr).
     unwrap (pop fr) (\<lambda>(a, fr).
     unwrap (pop fr) (\<lambda>(type, fr).
     unwrap (table_addr env v table_idx) (\<lambda>t_addr.
     unwrap (at_addr mi_tables v t_addr) (\<lambda>ti.
     unwrap (addr_tab ms v t_addr) (\<lambda>tab.
     let size = unat (get_w32 a); curr_size = vec_size (tdata ti) in
     case (if curr_size + size > unat (lim_max (tab_lim tab)) then Inl E_general
           else vec_resize (ip_am ip T_ref) 0 (tdata ti) (curr_size + size)) of
       Inl e \<Rightarrow> unwrap (push_i32 ip (- 1) fr) (\<lambda>fr. Inr (fr, v))
     | Inr d \<Rightarrow>
         unwrap (vec_resize (ip_am ip T_ref) 0 d (curr_size + size)) (\<lambda>d.
         unwrap (for_res 0 size (\<lambda>i d. vec_set d (curr_size + i) type) d) (\<lambda>d.
         unwrap (set_addr mi_tables mi_tables_update (ti\<lparr>tdata := d\<rparr>) v t_addr) (\<lambda>v.
         unwrap (push_i32 ip (int curr_size) fr) (\<lambda>fr. Inr (fr, v)))))))))))"

definition dt_table_size :: "interp \<Rightarrow> dt_env \<Rightarrow> frame \<Rightarrow> vm \<Rightarrow> frame res" where
  "dt_table_size ip env fr v =
     unwrap (read_vu32 env fr) (\<lambda>(table_idx, fr).
     unwrap (table_addr env v table_idx) (\<lambda>t_addr.
     unwrap (at_addr mi_tables v t_addr) (\<lambda>ti. push_i32 ip (int (vec_size (tdata ti))) fr)))"

text \<open>The offset is converted from \<open>i32\<close> to \<open>u64\<close>, the sum is one of \<open>u64\<close>.\<close>

definition dt_table_fill :: "dt_env \<Rightarrow> frame \<Rightarrow> vm \<Rightarrow> (frame \<times> vm) res" where
  "dt_table_fill env fr v =
     unwrap (read_vu32 env fr) (\<lambda>(table_idx, fr).
     unwrap (table_addr env v table_idx) (\<lambda>t_addr.
     unwrap (pop3 fr) (\<lambda>(a, type, c, fr).
     let size = ucast (get_w32 a) :: u64; offset = word_of_int (get_i32 c) :: u64 in
     unwrap (at_addr mi_tables v t_addr) (\<lambda>ti.
     if unat (offset + size) > vec_size (tdata ti) then Inl E_invalid
     else
       unwrap (for_res 0 (unat size) (\<lambda>i d. vec_set d (unat (offset + of_nat i)) type) (tdata ti)) (\<lambda>d.
       unwrap (set_addr mi_tables mi_tables_update (ti\<lparr>tdata := d\<rparr>) v t_addr) (\<lambda>v. Inr (fr, v)))))))"

definition dt_prefix_fc :: "interp \<Rightarrow> mods \<Rightarrow> dt_env \<Rightarrow> frame \<Rightarrow> vm \<Rightarrow> dt_out" where
  "dt_prefix_fc ip ms env fr v =
     dt_let (read_vu32 env fr) v (\<lambda>(opcode_fc, fr).
     let go = (\<lambda>r. dt_let r v (\<lambda>fr. Next fr v)); go2 = (\<lambda>r. dt_let r v (\<lambda>(fr, v). Next fr v)) in
     case map_of (dt_sat_ops (ip_mc ip)) opcode_fc of Some oper \<Rightarrow> go (dt_num oper fr)
     | None \<Rightarrow>
       if opcode_fc = 0x08 then go2 (dt_memory_init ms env fr v)
       else if opcode_fc = 0x09 then go2 (dt_data_drop env fr v)
       else if opcode_fc = 0x0a then go2 (dt_memory_copy env fr v)
       else if opcode_fc = 0x0b then go2 (dt_memory_fill env fr v)
       else if opcode_fc = 0x0c then dt_table_init ip ms env fr v
       else if opcode_fc = 0x0d then go2 (dt_elem_drop env fr v)
       else if opcode_fc = 0x0e then go2 (dt_table_copy env fr v)
       else if opcode_fc = 0x0f then go2 (dt_table_grow ip ms env fr v)
       else if opcode_fc = 0x10 then go (dt_table_size ip env fr v)
       else if opcode_fc = 0x11 then go2 (dt_table_fill env fr v)
       else Stop E_malformed v)"

definition dt_prefix_fd :: "dt_env \<Rightarrow> frame \<Rightarrow> vm \<Rightarrow> dt_out" where
  "dt_prefix_fd env fr v =
     dt_let (read_vu32 env fr) v (\<lambda>(opcode_fd, fr). if opcode_fd = 0 then Next fr v else Stop E_malformed v)"

section \<open>The loop\<close>

definition dt_op :: "interp \<Rightarrow> mods \<Rightarrow> dt_env \<Rightarrow> u8 \<Rightarrow> frame \<Rightarrow> vm \<Rightarrow> dt_out" where
  "dt_op ip ms env opcode fr v =
     (case dt_control env opcode fr v of Some x \<Rightarrow> x | None \<Rightarrow>
      if opcode = 0x10 then dt_call ms env fr v
      else if opcode = 0x11 then dt_call_indirect ip ms env fr v
      else if opcode = 0xfc then dt_prefix_fc ip ms env fr v
      else if opcode = 0xfd then dt_prefix_fd env fr v
      else case dt_variable env opcode fr v of Some x \<Rightarrow> x | None \<Rightarrow>
      (case dt_memory ip ms env opcode fr v of Some x \<Rightarrow> x | None \<Rightarrow>
      (case dt_value ip env opcode fr v of Some x \<Rightarrow> x | None \<Rightarrow> Stop E_malformed v)))"

definition dt_instr :: "interp \<Rightarrow> mods \<Rightarrow> dt_env \<Rightarrow> frame \<Rightarrow> vm \<Rightarrow> dt_out" where
  "dt_instr ip ms env fr v = dt_let (read_u8 env fr) v (\<lambda>(opcode, fr). dt_op ip ms env opcode fr v)"

text \<open>The part of \<open>in_place_dt_call\<close> before the loop; an error comes with the state of the thread.\<close>

definition dt_enter :: "interp \<Rightarrow> mods \<Rightarrow> vm \<Rightarrow> thread \<Rightarrow> addr \<Rightarrow> value_u list \<Rightarrow> (err \<times> thread) + (dt_env \<times> frame \<times> thread)" where
  "dt_enter ip ms v t f_addr args =
     (if unat (frame_depth t) > SILVERFIR_STACK_FRAME_LIMIT then Inl (E_exhaustion, t)
      else if unat (stack_size t) > SILVERFIR_STACK_SIZE_LIMIT then Inl (E_exhaustion, t)
      else
        let t = t\<lparr>frame_depth := frame_depth t + 1\<rparr> in
        case unwrap (addr_fn ms v (Some f_addr)) (\<lambda>fn.
             unwrap (at_addr mi_funcs v (Some f_addr)) (\<lambda>fi.
             case fi_mod_inst fi of None \<Rightarrow> Inl Fault | Some i \<Rightarrow>
             unwrap (the_inst v i) (\<lambda>mi. Inr (fn, i, mi)))) of
          Inl e \<Rightarrow> Inl (e, t)
        | Inr (fn, i, mi) \<Rightarrow>
            let n = unat (param_count (fn_type fn)); l = unat (local_count fn) in
            if l < n \<or> length args < l then Inl (Fault, t)
            else if \<not> ip_alloca ip (unat (f_stack_size_max fn)) then Inl (E_general, t)
            else Inr (\<lparr>de_fn = fn, de_inst = i,
                       de_mem0 = (if vec_size (m_addrs mi) \<noteq> 0 then vdata (m_addrs mi) ! 0 else None)\<rparr>,
                      \<lparr>fr_local = take n args @ replicate (l - n) 0 @ drop l args,
                       fr_stack = replicate (unat (f_stack_size_max fn)) (mc_undef (ip_mc ip)), fr_sp = 0, fr_pc = 0, fr_jt = 0\<rparr>,
                      t\<lparr>stack_size := stack_size t + f_stack_size_max fn\<rparr>))"

text \<open>The part from the label \<open>end\<close> on.\<close>

definition dt_leave :: "dt_env \<Rightarrow> frame \<Rightarrow> thread \<Rightarrow> (err option \<times> thread \<times> value_u list)" where
  "dt_leave env fr t =
     (let n = unat (result_count (fn_type (de_fn env))) in
      if fr_sp fr < n \<or> length (fr_stack fr) < fr_sp fr \<or> length (fr_local fr) < n then (Some Fault, t, fr_local fr)
      else (None, t\<lparr>frame_depth := frame_depth t - 1, stack_size := stack_size t - f_stack_size_max (de_fn env)\<rparr>,
            take n (drop (fr_sp fr - n) (fr_stack fr)) @ drop n (fr_local fr)))"

partial_function (option) dt_exec ::
  "interp \<Rightarrow> mods \<Rightarrow> dt_env \<Rightarrow> frame \<Rightarrow> vm \<Rightarrow> thread \<Rightarrow> (err option \<times> vm \<times> thread \<times> value_u list) option" where
  "dt_exec ip ms env fr v t =
     (case dt_instr ip ms env fr v of
        Next fr v \<Rightarrow> dt_exec ip ms env fr v t
      | Stop e v \<Rightarrow> Some (Some e, v, t, fr_local fr)
      | Finish fr v \<Rightarrow> (case dt_leave env fr t of (e, t, buf) \<Rightarrow> Some (e, v, t, buf))
      | Invoke a args own fr v \<Rightarrow>
          (case addr_fn ms v (Some a) of
             Inl e \<Rightarrow> Some (Some e, v, t, fr_local fr)
           | Inr callee_fn \<Rightarrow>
               Option.bind
                 (if f_tr callee_fn \<noteq> 0
                  then map_option (\<lambda>(e, v, buf). (e, v, t, buf))
                         (ip_host ip (f_tr callee_fn) (f_host_func callee_fn) ms v a args (de_mem0 env))
                  else case dt_enter ip ms v t a args of
                         Inl (e, t) \<Rightarrow> Some (Some e, v, t, args)
                       | Inr (env', fr', t) \<Rightarrow> dt_exec ip ms env' fr' v t)
                 (\<lambda>(e, v, t, buf).
                  case e of
                    Some e \<Rightarrow> Some (Some e, v, t, fr_local fr)
                  | None \<Rightarrow>
                      (case dt_resume callee_fn own buf fr of
                         Inl e \<Rightarrow> Some (Some e, v, t, fr_local fr)
                       | Inr fr \<Rightarrow> dt_exec ip ms env fr v t))))"

definition in_place_dt_call ::
  "interp \<Rightarrow> mods \<Rightarrow> vm \<Rightarrow> thread \<Rightarrow> addr \<Rightarrow> value_u list \<Rightarrow> (err option \<times> vm \<times> thread \<times> value_u list) option" where
  "in_place_dt_call ip ms v t f_addr args =
     (case dt_enter ip ms v t f_addr args of
        Inl (e, t) \<Rightarrow> Some (Some e, v, t, args)
      | Inr (env, fr, t) \<Rightarrow> dt_exec ip ms env fr v t)"

section \<open>Calling a function in a thread\<close>

definition check_arg :: "typed_value vec \<Rightarrow> nat \<Rightarrow> stream \<Rightarrow> stream res" where
  "check_arg argv i st =
     unwrap (stream_read_vi7 st) (\<lambda>(type, st).
     unwrap (vec_at argv i) (\<lambda>arg. if tv_type arg \<noteq> type then Inl E_general else Inr st))"

text \<open>The typed results of the call; an error leaves those that have been pushed.\<close>

fun collect_results :: "alloc \<Rightarrow> value_u list \<Rightarrow> nat \<Rightarrow> nat \<Rightarrow> stream \<Rightarrow> thread \<Rightarrow> err option \<times> thread" where
  "collect_results am stack_base i 0 st t = (None, t)"
| "collect_results am stack_base i (Suc n) st t =
     (case stream_read_vi7 st of
        Inl e \<Rightarrow> (Some e, t)
      | Inr (type, st) \<Rightarrow>
          if length stack_base \<le> i then (Some Fault, t)
          else case vec_push (am T_typed_value) (th_results t) \<lparr>tv_type = type, tv_val = stack_base ! i\<rparr> of
                 Inl e \<Rightarrow> (Some e, t)
               | Inr rs \<Rightarrow> collect_results am stack_base (Suc i) n st (t\<lparr>th_results := rs\<rparr>))"

text \<open>The interpreter that runs the code, \<open>run\<close>, is chosen when the program is built.\<close>

definition interp_call_with ::
  "(addr \<Rightarrow> value_u list \<Rightarrow> (err option \<times> vm \<times> thread \<times> value_u list) option) \<Rightarrow> interp \<Rightarrow> call" where
  "interp_call_with run ip ms v t f_addr argv =
     (if \<not> ip_little_endian ip then Some (Some E_general, v, t)
      else if trapped t then Some (Some E_general, v, t)
      else case addr_fn ms v f_addr of Inl e \<Rightarrow> Some (Some e, v, t) | Inr fn \<Rightarrow>
        let ft = fn_type fn in
        if unat (param_count ft) \<noteq> vec_size argv then Some (Some E_general, v, t)
        else case for_res 0 (unat (param_count ft)) (check_arg argv) (stream_from (params ft)) of
          Inl e \<Rightarrow> Some (Some e, v, t)
        | Inr _ \<Rightarrow>
            let stack_size_needed = max (unat (local_count fn)) (unat (result_count ft)) in
            if \<not> ip_alloca ip stack_size_needed then Some (Some E_general, v, t)
            else if stack_size_needed < vec_size argv then Some (Some Fault, v, t)
            else
              let stack_base = map tv_val (vdata argv) @ replicate (stack_size_needed - vec_size argv) (mc_undef (ip_mc ip)) in
              (case run (the f_addr) stack_base of
                 None \<Rightarrow> None
               | Some (Some e, v, t, _) \<Rightarrow> Some (Some e, v, t\<lparr>trapped := True\<rparr>)
               | Some (None, v, t, stack_base) \<Rightarrow>
                   (case collect_results (ip_am ip) stack_base 0 (unat (result_count ft)) (stream_from (results ft))
                           (t\<lparr>th_results := vec_clear (th_results t)\<rparr>) of
                      (e, t) \<Rightarrow> Some (e, v, t))))"

definition interp_call_in_thread :: "interp \<Rightarrow> call" where
  "interp_call_in_thread ip ms v t = interp_call_with (in_place_dt_call ip ms v t) ip ms v t"

end
