(* ===== verification/Dt_Run.thy ===== *)
theory Dt_Run
  imports In_Place_Dt
begin

text \<open>
  The executions of the interpreter as a relation, by the way each of them proceeds: \<open>dt_run\<close> relates
  a state of a call to its outcome and \<open>dt_called\<close> does so for the call of a function from the
  code.  The relation has the same outcomes as the loop \<open>dt_exec\<close>, so properties of executions are
  shown by rule induction.
\<close>

type_synonym outcome = "err option \<times> vm \<times> thread \<times> value_u list"

inductive dt_run :: "interp \<Rightarrow> mods \<Rightarrow> dt_env \<Rightarrow> frame \<Rightarrow> vm \<Rightarrow> thread \<Rightarrow> outcome \<Rightarrow> bool"
  and dt_called :: "interp \<Rightarrow> mods \<Rightarrow> dt_env \<Rightarrow> func \<Rightarrow> vm \<Rightarrow> thread \<Rightarrow> addr \<Rightarrow> value_u list \<Rightarrow> outcome \<Rightarrow> bool"
  for ip ms where
  run_next: "dt_instr ip ms env fr v = Next fr' v' \<Longrightarrow> dt_run ip ms env fr' v' t y \<Longrightarrow> dt_run ip ms env fr v t y"
| run_stop: "dt_instr ip ms env fr v = Stop e v' \<Longrightarrow> dt_run ip ms env fr v t (Some e, v', t, fr_local fr)"
| run_finish: "dt_instr ip ms env fr v = Finish fr' v' \<Longrightarrow> dt_leave env fr' t = (e, t', buf) \<Longrightarrow> dt_run ip ms env fr v t (e, v', t', buf)"
| run_null: "dt_instr ip ms env fr v = Invoke a args own fr' v' \<Longrightarrow> addr_fn ms v' (Some a) = Inl e \<Longrightarrow>
    dt_run ip ms env fr v t (Some e, v', t, fr_local fr')"
| run_error: "dt_instr ip ms env fr v = Invoke a args own fr' v' \<Longrightarrow> addr_fn ms v' (Some a) = Inr fn \<Longrightarrow>
    dt_called ip ms env fn v' t a args (Some e, w, t', buf) \<Longrightarrow> dt_run ip ms env fr v t (Some e, w, t', fr_local fr')"
| run_overflow: "dt_instr ip ms env fr v = Invoke a args own fr' v' \<Longrightarrow> addr_fn ms v' (Some a) = Inr fn \<Longrightarrow>
    dt_called ip ms env fn v' t a args (None, w, t', buf) \<Longrightarrow> dt_resume fn own buf fr' = Inl e \<Longrightarrow>
    dt_run ip ms env fr v t (Some e, w, t', fr_local fr')"
| run_return: "dt_instr ip ms env fr v = Invoke a args own fr' v' \<Longrightarrow> addr_fn ms v' (Some a) = Inr fn \<Longrightarrow>
    dt_called ip ms env fn v' t a args (None, w, t', buf) \<Longrightarrow> dt_resume fn own buf fr' = Inr fr'' \<Longrightarrow>
    dt_run ip ms env fr'' w t' y \<Longrightarrow> dt_run ip ms env fr v t y"
| called_host: "f_tr fn \<noteq> 0 \<Longrightarrow> ip_host ip (f_tr fn) (f_host_func fn) ms v a args (de_mem0 env) = Some (e, w, buf) \<Longrightarrow>
    dt_called ip ms env fn v t a args (e, w, t, buf)"
| called_refused: "f_tr fn = 0 \<Longrightarrow> dt_enter ip ms v t a args = Inl (e, t') \<Longrightarrow> dt_called ip ms env fn v t a args (Some e, v, t', args)"
| called_run: "f_tr fn = 0 \<Longrightarrow> dt_enter ip ms v t a args = Inr (env', fr', t') \<Longrightarrow> dt_run ip ms env' fr' v t' y \<Longrightarrow>
    dt_called ip ms env fn v t a args y"

lemmas dt_intros = dt_run_dt_called.intros

lemma dt_exec_run: "dt_exec ip ms env fr v t = Some y \<Longrightarrow> dt_run ip ms env fr v t y"
proof (erule dt_exec.raw_induct [where P = dt_run, rotated], goal_cases)
  case (1 exec ip ms env fr v t y)
  note IH = 1(1) and out = 1(2)
  show ?case
  proof (cases "dt_instr ip ms env fr v")
    case (Invoke a args own fr' v')
    show ?thesis
    proof (cases "addr_fn ms v' (Some a)")
      case (Inr fn)
      with Invoke out obtain e w t' buf where m: "(if f_tr fn \<noteq> 0
              then map_option (\<lambda>(e, v, buf). (e, v, t, buf)) (ip_host ip (f_tr fn) (f_host_func fn) ms v' a args (de_mem0 env))
              else case dt_enter ip ms v' t a args of
                     Inl (e, t) \<Rightarrow> Some (Some e, v', t, args)
                   | Inr (env', fr', t) \<Rightarrow> exec ip ms env' fr' v' t) = Some (e, w, t', buf)"
        and k: "(case e of
                Some e \<Rightarrow> Some (Some e, w, t', fr_local fr')
              | None \<Rightarrow>
                  (case dt_resume fn own buf fr' of
                     Inl e \<Rightarrow> Some (Some e, w, t', fr_local fr')
                   | Inr fr \<Rightarrow> exec ip ms env fr w t')) = Some y"
        by (auto simp: bind_eq_Some_conv)
      have "dt_called ip ms env fn v' t a args (e, w, t', buf)"
        using m by (auto simp: map_option_case split: if_splits sum.splits prod.splits option.splits intro: dt_intros dest!: IH)
      then show ?thesis
        using k Invoke Inr by (auto split: option.splits sum.splits intro: dt_intros IH)
    qed (use Invoke out in \<open>auto intro: dt_intros\<close>)
  qed (use out in \<open>auto split: prod.splits intro: dt_intros IH\<close>)
qed

lemma dt_run_exec: "dt_run ip ms env fr v t y \<Longrightarrow> dt_exec ip ms env fr v t = Some y"
  and dt_called_exec: "dt_called ip ms env fn v t a args y \<Longrightarrow>
    (if f_tr fn \<noteq> 0
     then map_option (\<lambda>(e, v, buf). (e, v, t, buf)) (ip_host ip (f_tr fn) (f_host_func fn) ms v a args (de_mem0 env))
     else case dt_enter ip ms v t a args of
            Inl (e, t) \<Rightarrow> Some (Some e, v, t, args)
          | Inr (env', fr', t) \<Rightarrow> dt_exec ip ms env' fr' v t) = Some y"
  by (induction rule: dt_run_dt_called.inducts) (simp_all add: dt_exec.simps [of ip ms])

lemma dt_exec_iff: "dt_exec ip ms env fr v t = Some y \<longleftrightarrow> dt_run ip ms env fr v t y"
  using dt_exec_run dt_run_exec by blast

lemma in_place_dt_call_iff:
  "in_place_dt_call ip ms v t a args = Some y \<longleftrightarrow>
    (case dt_enter ip ms v t a args of
       Inl (e, t') \<Rightarrow> y = (Some e, v, t', args)
     | Inr (env, fr, t') \<Rightarrow> dt_run ip ms env fr v t' y)"
  by (auto simp: in_place_dt_call_def dt_exec_iff split: sum.split prod.split)

text \<open>A call in a thread either fails before it reaches the code, or runs it.\<close>

lemma interp_call_in_thread_cases:
  assumes "interp_call_in_thread ip ms v t a argv = Some (e, w, t')"
  obtains (refused) "e \<noteq> None" "w = v" "t' = t"
  | (trap) args x t'' buf where "\<not> trapped t" "in_place_dt_call ip ms v t (the a) args = Some (Some x, w, t'', buf)"
      "e = Some x" "t' = t''\<lparr>trapped := True\<rparr>"
  | (returned) fn args t'' buf where "\<not> trapped t" "addr_fn ms v a = Inr fn" "in_place_dt_call ip ms v t (the a) args = Some (None, w, t'', buf)"
      "collect_results (ip_am ip) buf 0 (unat (result_count (fn_type fn))) (stream_from (results (fn_type fn)))
         (t''\<lparr>th_results := vec_clear (th_results t'')\<rparr>) = (e, t')"
  using assms unfolding interp_call_in_thread_def interp_call_with_def Let_def
  by (simp split: if_split_asm sum.split_asm) (auto split: option.splits prod.splits)

section \<open>Running with fuel\<close>

text \<open>
  The loop for a bounded number of rounds and nested calls.  Some bound is enough for every
  execution that ends, so this is a way to evaluate one.
\<close>

fun dt_fuel :: "nat \<Rightarrow> interp \<Rightarrow> mods \<Rightarrow> dt_env \<Rightarrow> frame \<Rightarrow> vm \<Rightarrow> thread \<Rightarrow> outcome option" where
  "dt_fuel 0 ip ms env fr v t = None"
| "dt_fuel (Suc n) ip ms env fr v t =
     (case dt_instr ip ms env fr v of
        Next fr v \<Rightarrow> dt_fuel n ip ms env fr v t
      | Stop e v \<Rightarrow> Some (Some e, v, t, fr_local fr)
      | Finish fr v \<Rightarrow> (case dt_leave env fr t of (e, t, buf) \<Rightarrow> Some (e, v, t, buf))
      | Invoke a args own fr v \<Rightarrow>
          (case addr_fn ms v (Some a) of
             Inl e \<Rightarrow> Some (Some e, v, t, fr_local fr)
           | Inr callee_fn \<Rightarrow>
               (case (if f_tr callee_fn \<noteq> 0
                      then map_option (\<lambda>(e, v, buf). (e, v, t, buf))
                             (ip_host ip (f_tr callee_fn) (f_host_func callee_fn) ms v a args (de_mem0 env))
                      else case dt_enter ip ms v t a args of
                             Inl (e, t) \<Rightarrow> Some (Some e, v, t, args)
                           | Inr (env', fr', t) \<Rightarrow> dt_fuel n ip ms env' fr' v t) of
                  None \<Rightarrow> None
                | Some (Some e, v, t, buf) \<Rightarrow> Some (Some e, v, t, fr_local fr)
                | Some (None, v, t, buf) \<Rightarrow>
                    (case dt_resume callee_fn own buf fr of
                       Inl e \<Rightarrow> Some (Some e, v, t, fr_local fr)
                     | Inr fr \<Rightarrow> dt_fuel n ip ms env fr v t))))"

lemma dt_fuel_run: "dt_fuel n ip ms env fr v t = Some y \<Longrightarrow> dt_run ip ms env fr v t y"
proof (induction n arbitrary: env fr v t y)
  case (Suc n)
  show ?case
  proof (cases "dt_instr ip ms env fr v")
    case (Invoke a args own fr' v')
    then show ?thesis
      using Suc.prems by (auto split: sum.splits option.splits prod.splits if_splits intro: dt_intros dest!: Suc.IH)
  qed (use Suc.prems in \<open>auto split: prod.splits intro: dt_intros Suc.IH\<close>)
qed simp

lemma interp_call_mono:
  assumes "\<And>a args y. run a args = Some y \<Longrightarrow> run' a args = Some y" "interp_call_with run ip ms v t f argv = Some r"
  shows "interp_call_with run' ip ms v t f argv = Some r"
  using assms(2) unfolding interp_call_with_def Let_def
  by (simp split: if_split_asm sum.split_asm) (auto split: option.splits prod.splits dest!: assms(1))

definition dt_call_fuel :: "nat \<Rightarrow> interp \<Rightarrow> mods \<Rightarrow> vm \<Rightarrow> thread \<Rightarrow> addr \<Rightarrow> value_u list \<Rightarrow> outcome option" where
  "dt_call_fuel n ip ms v t a args =
     (case dt_enter ip ms v t a args of
        Inl (e, t') \<Rightarrow> Some (Some e, v, t', args)
      | Inr (env, fr, t') \<Rightarrow> dt_fuel n ip ms env fr v t')"

lemma interp_call_run:
  assumes "interp_call_with (dt_call_fuel n ip ms v t) ip ms v t f argv = Some r"
  shows "interp_call_in_thread ip ms v t f argv = Some r"
  unfolding interp_call_in_thread_def
  by (rule interp_call_mono [OF _ assms]) (auto simp: dt_call_fuel_def in_place_dt_call_iff dest: dt_fuel_run split: sum.splits)

section \<open>Dispatch\<close>

abbreviation go :: "vm \<Rightarrow> frame res \<Rightarrow> dt_out" where
  "go v r \<equiv> dt_let r v (\<lambda>fr. Next fr v)"

abbreviation go2 :: "vm \<Rightarrow> (frame \<times> vm) res \<Rightarrow> dt_out" where
  "go2 v r \<equiv> dt_let r v (\<lambda>(fr, v). Next fr v)"

lemma dispatch_control:
  "dt_op ip ms env 0x00 fr v = Stop E_general v" "dt_op ip ms env 0x01 fr v = Next fr v"
  "dt_op ip ms env 0x02 fr v = Next (stream_seek_unchecked 1 fr) v" "dt_op ip ms env 0x03 fr v = Next (stream_seek_unchecked 1 fr) v"
  "dt_op ip ms env 0x04 fr v = go v (dt_if env fr)" "dt_op ip ms env 0x05 fr v = go v (dt_else env fr)"
  "dt_op ip ms env 0x0b fr v = (if fr_pc fr = length (f_code (de_fn env)) then Finish fr v else Next fr v)"
  "dt_op ip ms env 0x0c fr v = go v (handle_br env fr)" "dt_op ip ms env 0x0d fr v = go v (dt_br_if env fr)"
  "dt_op ip ms env 0x0e fr v = go v (dt_br_table env fr)" "dt_op ip ms env 0x0f fr v = Finish fr v"
  "dt_op ip ms env 0x10 fr v = dt_call ms env fr v" "dt_op ip ms env 0x11 fr v = dt_call_indirect ip ms env fr v"
  "dt_op ip ms env 0xfc fr v = dt_prefix_fc ip ms env fr v" "dt_op ip ms env 0xfd fr v = dt_prefix_fd env fr v"
  by (simp_all add: dt_op_def dt_control_def dt_let_def)

lemma dispatch_variable:
  "dt_op ip ms env 0x1a fr v = go v (unwrap (pop fr) (\<lambda>(x, fr). Inr fr))" "dt_op ip ms env 0x1b fr v = go v (dt_select fr)"
  "dt_op ip ms env 0x1c fr v = go v (dt_select (stream_seek_unchecked 2 fr))" "dt_op ip ms env 0x20 fr v = go v (dt_local_get env fr)"
  "dt_op ip ms env 0x21 fr v = go v (dt_local_set env fr)" "dt_op ip ms env 0x22 fr v = go v (dt_local_tee env fr)"
  "dt_op ip ms env 0x23 fr v = go v (dt_global_get env fr v)" "dt_op ip ms env 0x24 fr v = go2 v (dt_global_set env fr v)"
  "dt_op ip ms env 0x25 fr v = go v (dt_table_get env fr v)" "dt_op ip ms env 0x26 fr v = go2 v (dt_table_set env fr v)"
  by (simp_all add: dt_op_def dt_control_def dt_variable_def)

lemma dt_instr_eq: "read_u8 env fr = Inr (opcode, fr') \<Longrightarrow> dt_instr ip ms env fr v = dt_op ip ms env opcode fr' v"
  by (simp add: dt_instr_def dt_let_def)

end
