(* ===== verification/Runtime.thy ===== *)
theory Runtime
  imports Vm_Link
begin

text \<open>
  The runtime, src/src/runtime/runtime.c: the owner of the modules and of the vms.  Its two lists
  are the sequences that the linked lists represent; \<open>list_push_seq\<close>, \<open>list_erase_seq\<close> and
  \<open>list_update_seq\<close> are the effects of a push, of an erasure and of a write through an iterator on such a sequence.
\<close>

section \<open>Lists\<close>

definition list_push_seq :: "((ptr \<times> 'a) list \<Rightarrow> ptr option) \<Rightarrow> 'a \<Rightarrow> (ptr \<times> 'a) list \<Rightarrow> (ptr \<times> 'a) list res" where
  "list_push_seq al x ps =
     (case al ps of None \<Rightarrow> Inl E_general
      | Some a \<Rightarrow> if a \<in> set (map fst ps) then Inl E_general else Inr (ps @ [(a, x)]))"

definition list_erase_seq :: "ptr \<Rightarrow> (ptr \<times> 'a) list \<Rightarrow> (ptr \<times> 'a) list" where
  "list_erase_seq p ps = filter (\<lambda>(q, x). q \<noteq> p) ps"

definition list_update_seq :: "ptr \<Rightarrow> 'a \<Rightarrow> (ptr \<times> 'a) list \<Rightarrow> (ptr \<times> 'a) list" where
  "list_update_seq p x ps = map (\<lambda>(q, y). if q = p then (q, x) else (q, y)) ps"

lemma list_push_seq_effect: "list_push_seq al x ps = Inr ps' \<Longrightarrow> effect (Push x) ps ps'"
  by (auto simp: list_push_seq_def intro: effect.intros split: option.splits if_splits)

lemma list_erase_seq_effect:
  assumes "distinct (map fst ps)" "p \<in> fst ` set ps"
  shows "effect (Erase p) ps (list_erase_seq p ps)"
proof -
  obtain qs y rs where ps: "ps = qs @ (p, y) # rs"
    using split_at [OF assms(2)] by blast
  then have "p \<notin> fst ` set qs" "p \<notin> fst ` set rs"
    using assms(1) by auto
  then have "filter (\<lambda>(q, x). q \<noteq> p) qs = qs" "filter (\<lambda>(q, x). q \<noteq> p) rs = rs"
    by (force simp: filter_id_conv)+
  then show ?thesis
    using effect.intros(6) [of p qs y rs] by (simp add: ps list_erase_seq_def)
qed

section \<open>Operations\<close>

record runtime =
  rt_modules :: mods
  rt_vms :: "(ptr \<times> vm) list"

definition vm_zero :: vm where
  "vm_zero = \<lparr>instances = [], vm_thread = thread_zero\<rparr>"

definition drop_each_vm :: "ptr \<times> vm \<Rightarrow> mods \<Rightarrow> mods res" where
  "drop_each_vm x ms = unwrap (vm_drop (ms, snd x)) (\<lambda>(ms, _). Inr ms)"

definition drop_each_module :: "ptr \<times> module \<Rightarrow> unit \<Rightarrow> unit res" where
  "drop_each_module x u = (if ref_count (snd x) \<noteq> 0 then Inl Fault else unwrap (module_drop (snd x)) (\<lambda>_. Inr ()))"

definition runtime_drop :: "runtime \<Rightarrow> runtime res" where
  "runtime_drop rt =
     unwrap (foreach_res drop_each_vm (rt_vms rt) (rt_modules rt)) (\<lambda>ms.
     unwrap (foreach_res drop_each_module ms ()) (\<lambda>_.
     Inr \<lparr>rt_modules = [], rt_vms = []\<rparr>))"

text \<open>Two modules share a name.\<close>

definition names_clash :: "module \<Rightarrow> module \<Rightarrow> bool" where
  "names_clash m m' = list_ex (\<lambda>n1. list_ex (\<lambda>n2. str_eq (vs_s n1) (vs_s n2)) (vdata (names m'))) (vdata (names m))"

definition runtime_module_add_mod :: "(mods \<Rightarrow> ptr option) \<Rightarrow> module \<Rightarrow> runtime \<Rightarrow> runtime res" where
  "runtime_module_add_mod al m rt =
     (if ref_count m \<noteq> 0 \<or> vec_size (names m) = 0 \<or> vstr_is_null (wasm_bin m) then Inl Fault
      else if list_ex (\<lambda>(p, m'). names_clash m' m) (rt_modules rt) then Inl E_general
      else unwrap (list_push_seq al m (rt_modules rt)) (\<lambda>ms. Inr (rt\<lparr>rt_modules := ms\<rparr>)))"

definition runtime_module_drop :: "ptr \<Rightarrow> runtime \<Rightarrow> runtime res" where
  "runtime_module_drop p rt =
     (case map_of (rt_modules rt) p of
        None \<Rightarrow> Inl E_general
      | Some m \<Rightarrow> unwrap (module_drop m) (\<lambda>_. Inr (rt\<lparr>rt_modules := list_erase_seq p (rt_modules rt)\<rparr>)))"

text \<open>
  A module that \<open>module_init\<close> gives up has no references and no payload, so that dropping it succeeds;
  the drop of a module that is not added is asserted to.
\<close>

definition runtime_module_add :: "alloc \<Rightarrow> (mods \<Rightarrow> ptr option) \<Rightarrow> vstr \<Rightarrow> vstr \<Rightarrow> runtime \<Rightarrow> runtime res" where
  "runtime_module_add am al bin name rt =
     unwrap (module_init am module_zero bin name) (\<lambda>m.
     case runtime_module_add_mod al m rt of
       Inl e \<Rightarrow> (case module_drop m of Inl _ \<Rightarrow> Inl Fault | Inr _ \<Rightarrow> Inl e)
     | Inr rt' \<Rightarrow> Inr rt')"

definition runtime_module_find :: "str \<Rightarrow> runtime \<Rightarrow> ptr option" where
  "runtime_module_find name rt =
     map_option fst (find (\<lambda>(p, m). list_ex (\<lambda>n. str_eq (vs_s n) name) (vdata (names m))) (rt_modules rt))"

definition runtime_vm_new :: "((ptr \<times> vm) list \<Rightarrow> ptr option) \<Rightarrow> runtime \<Rightarrow> (ptr \<times> runtime) res" where
  "runtime_vm_new al rt =
     unwrap (list_push_seq al vm_zero (rt_vms rt)) (\<lambda>vs. Inr (fst (last vs), rt\<lparr>rt_vms := vs\<rparr>))"

definition runtime_vm_drop :: "ptr \<Rightarrow> runtime \<Rightarrow> runtime res" where
  "runtime_vm_drop q rt =
     (case map_of (rt_vms rt) q of
        None \<Rightarrow> Inl E_general
      | Some v \<Rightarrow> unwrap (vm_drop (rt_modules rt, v)) (\<lambda>(ms, _).
          Inr \<lparr>rt_modules = ms, rt_vms = list_erase_seq q (rt_vms rt)\<rparr>))"

text \<open>\<open>vm_instantiate_module\<close> on a vm and a module that the runtime owns.\<close>

definition runtime_instantiate ::
  "alloc \<Rightarrow> (addr \<Rightarrow> ref) \<Rightarrow> call \<Rightarrow> ptr \<Rightarrow> ptr \<Rightarrow> runtime \<Rightarrow> (err option \<times> runtime) option" where
  "runtime_instantiate am lay call q p rt =
     (case map_of (rt_vms rt) q of
        None \<Rightarrow> Some (Some Fault, rt)
      | Some v \<Rightarrow> map_option (\<lambda>(e, ms, v). (e, \<lparr>rt_modules = ms, rt_vms = list_update_seq q v (rt_vms rt)\<rparr>))
          (vm_instantiate_module am lay call p (rt_modules rt, v)))"

section \<open>Reference counts\<close>

text \<open>The modules that the instances of a vm, and of all vms, are instances of.\<close>

definition imods :: "vm \<Rightarrow> ptr list" where
  "imods v = map mi_mod (instances v)"

definition all_imods :: "(ptr \<times> vm) list \<Rightarrow> ptr list" where
  "all_imods vs = concat (map (\<lambda>(q, v). imods v) vs)"

subsection \<open>What an operation keeps of the vm\<close>

definition act_keeps :: "('s \<Rightarrow> 'b) \<Rightarrow> 's act \<Rightarrow> bool" where
  "act_keeps f a \<longleftrightarrow> (\<forall>s. f (snd (a s)) = f s)"

lemma act_keeps_let: "(\<And>x. act_keeps f (g x)) \<Longrightarrow> act_keeps f (act_let r g)"
  by (cases r) (simp_all add: act_keeps_def act_let_def)

lemma act_keeps_then: "act_keeps f a \<Longrightarrow> act_keeps f b \<Longrightarrow> act_keeps f (act_then a b)"
  by (auto simp: act_keeps_def act_then_def split: prod.split option.split) (metis snd_conv)+

lemma act_keeps_for: "(\<And>j. act_keeps f (body j)) \<Longrightarrow> act_keeps f (act_for i n body)"
  by (induction n arbitrary: i) (simp_all add: act_keeps_then, simp add: act_keeps_def)

lemma act_keeps_simps [simp]: "act_keeps f (act_err e)" "act_keeps f (Pair None)"
  by (simp_all add: act_keeps_def act_err_def)

text \<open>The functions that write to the vm keep its instances and their modules.\<close>

definition write_keeps :: "(vm \<Rightarrow> vm res) \<Rightarrow> bool" where
  "write_keeps w \<longleftrightarrow> (\<forall>v v'. w v = Inr v' \<longrightarrow> imods v' = imods v)"

lemma act_keeps_set: "write_keeps w \<Longrightarrow> act_keeps imods (\<lambda>v. act_set (w v) v)"
  by (auto simp: act_keeps_def act_set_def write_keeps_def split: sum.split)

lemma imods_set_inst: "the_inst v i = Inr mi \<Longrightarrow> mi_mod mi' = mi_mod mi \<Longrightarrow> imods (set_inst i mi' v) = imods v"
  by (auto simp: imods_def set_inst_def the_inst_def map_update list_update_same_conv split: if_splits)

lemma imods_set_addr:
  assumes "set_addr sel upd x v a = Inr v'" "\<And>g mi. mi_mod (upd g mi) = mi_mod mi"
  shows "imods v' = imods v"
  using assms by (auto simp: set_addr_def res_simps imods_set_inst split: option.splits prod.splits)

lemma writes_keep:
  "write_keeps (pin_func i k)" "write_keeps (set_f_addr i k a)" "write_keeps (set_g_addr i k a)" "write_keeps (set_m_addr i k a)"
  "write_keeps (set_t_addr i k a)" "write_keeps (set_global i k x)" "write_keeps (drop_element i k)" "write_keeps (drop_data i k)"
  "write_keeps (set_tab_elem a n y)" "write_keeps (mem_copy_in a n bytes)"
  unfolding write_keeps_def pin_func_def set_f_addr_def set_g_addr_def set_m_addr_def set_t_addr_def set_global_def drop_element_def
    drop_data_def set_tab_elem_def mem_copy_in_def
  by (auto simp: res_simps Let_def intro!: imods_set_inst dest!: imods_set_addr split: if_splits)

lemma act_keepsI: "(\<And>s. f (snd (a s)) = f s) \<Longrightarrow> act_keeps f a"
  by (simp add: act_keeps_def)

lemma act_keepsD: "act_keeps f a \<Longrightarrow> f (snd (a s)) = f s"
  by (simp add: act_keeps_def)

lemma act_keeps_if: "act_keeps f a \<Longrightarrow> act_keeps f b \<Longrightarrow> act_keeps f (if c then a else b)"
  by simp

lemma act_keeps_when: "act_keeps f a \<Longrightarrow> act_keeps f (\<lambda>s. if c then a s else (None, s))"
  by (simp add: act_keeps_def)

text \<open>An operation that reads the state before it acts.\<close>

lemma act_keeps_diag: "(\<And>s. a s s = b s) \<Longrightarrow> (\<And>w. act_keeps f (a w)) \<Longrightarrow> act_keeps f b"
  by (metis act_keeps_def)

lemmas keep_rules = act_keeps_if act_keeps_when act_keeps_let act_keeps_then act_keeps_for act_keeps_simps act_keeps_set writes_keep

lemma link_keeps: "act_keeps imods (vm_link_module_inst ms i)"
proof -
  have f: "act_keeps imods (link_func ms m i k)" for m k
    unfolding link_func_def by (intro keep_rules, rule act_keeps_diag, rule refl) (intro keep_rules)
  have g: "act_keeps imods (link_global ms m i k)" for m k
    by (rule act_keeps_diag, rule link_global_def [symmetric]) (intro keep_rules)
  have x: "act_keeps imods (link_memory ms m i k)" for m k
    by (rule act_keeps_diag, rule link_memory_def [symmetric]) (intro keep_rules)
  have t: "act_keeps imods (link_table ms m i k)" for m k
    by (rule act_keeps_diag, rule link_table_def [symmetric]) (intro keep_rules)
  show ?thesis
    by (rule act_keeps_diag, rule vm_link_module_inst_def [symmetric]) (intro keep_rules f g x t)
qed

lemma init_keeps:
  "act_keeps imods (module_inst_init_global am lay ms m i)" "act_keeps imods (module_inst_init_elem am lay ms m i)"
  "act_keeps imods (module_inst_init_data am lay ms m i)"
proof -
  have g: "act_keeps imods (init_global am lay ms m i k)" for k
    by (rule act_keeps_diag, rule init_global_def [symmetric]) (intro keep_rules)
  have f: "act_keeps imods (elem_funcidx lay i elem a n j)" for elem a n j
    by (rule act_keeps_diag, rule elem_funcidx_def [symmetric]) (intro keep_rules)
  have x: "act_keeps imods (elem_expr am lay ms i elem a n j)" for elem a n j
    by (rule act_keeps_diag, rule elem_expr_def [symmetric]) (intro keep_rules)
  have a: "act_keeps imods (init_active_elem am lay ms m i elem)" for elem
    by (rule act_keeps_diag, rule init_active_elem_def [symmetric]) (intro keep_rules f x)
  have e: "act_keeps imods (init_elem am lay ms m i k)" for k
    unfolding init_elem_def by (intro keep_rules a)
  have d: "act_keeps imods (init_data am lay ms m i k)" for k
    by (rule act_keeps_diag, rule init_data_def [symmetric]) (intro keep_rules)
  show "act_keeps imods (module_inst_init_global am lay ms m i)" "act_keeps imods (module_inst_init_elem am lay ms m i)"
    "act_keeps imods (module_inst_init_data am lay ms m i)"
    unfolding module_inst_init_global_def module_inst_init_elem_def module_inst_init_data_def by (intro keep_rules g e d)+
qed

text \<open>The contract of the call of a start function: it keeps the instances and their modules.\<close>

definition call_keeps :: "call \<Rightarrow> bool" where
  "call_keeps call \<longleftrightarrow> (\<forall>ms v t a args e v' t'. call ms v t a args = Some (e, v', t') \<longrightarrow> imods v' = imods v)"

lemma module_inst_init_keeps:
  assumes "call_keeps call" "module_inst_init am lay call ms i v = Some (e, v')"
  shows "imods v' = imods v"
proof -
  have "imods (snd (act_then (module_inst_init_global am lay ms m i)
      (act_then (module_inst_init_elem am lay ms m i) (module_inst_init_data am lay ms m i)) v)) = imods v" for m
    by (rule act_keepsD) (intro keep_rules init_keeps)
  then show ?thesis
    using assms unfolding module_inst_init_def call_keeps_def
    by (auto split: sum.splits prod.splits option.splits) (metis snd_conv)+
qed

subsection \<open>Instantiation\<close>

definition refs :: "mods \<Rightarrow> (ptr \<times> u32) list" where
  "refs ms = map (\<lambda>(p, m). (p, ref_count m)) ms"

lemma map_of_refs: "map_of (refs ms) p = map_option ref_count (map_of ms p)"
  unfolding refs_def by (induction ms) auto

lemma refs_set_mod:
  assumes "distinct (map fst ms)" "map_of ms p = Some m"
  shows "refs (set_mod p m' ms) = list_update_seq p (ref_count m') (refs ms)" "map fst (set_mod p m' ms) = map fst ms"
  by (auto simp: refs_def set_mod_def list_update_seq_def)

lemma list_update_seq_same:
  assumes "distinct (map fst ps)" "map_of ps p = Some x"
  shows "list_update_seq p x ps = ps"
  unfolding list_update_seq_def by (rule map_idI) (use assms in \<open>auto simp: map_of_eq_Some_iff dest: eq_key_imp_eq_value\<close>)

lemma validate_step_refs:
  assumes "distinct (map fst ms)"
  shows "refs (snd (validate_step am p k ms)) = refs ms \<and> map fst (snd (validate_step am p k ms)) = map fst ms"
proof (cases "map_of ms p")
  case None
  then show ?thesis by (simp add: validate_step_def act_let_def the_mod_def)
next
  case (Some m)
  have "refs (set_mod p (m\<lparr>funcs := fs\<rparr>) ms) = refs ms" for fs
    using refs_set_mod(1) [OF assms Some] list_update_seq_same [of "refs ms" p "ref_count m"] assms Some map_of_refs [of ms p]
    by (simp add: refs_def comp_def case_prod_unfold)
  then show ?thesis
    using Some refs_set_mod(2) [OF assms Some]
    by (auto simp: validate_step_def act_let_def the_mod_def split: sum.splits)
qed

lemma validate_all_refs:
  assumes "distinct (map fst ms)"
  shows "refs (snd (act_for i n (validate_step am p) ms)) = refs ms \<and> map fst (snd (act_for i n (validate_step am p) ms)) = map fst ms"
  using assms
proof (induction n arbitrary: i ms)
  case 0
  then show ?case by simp
next
  case (Suc n)
  obtain e ms1 where s: "validate_step am p i ms = (e, ms1)"
    by fastforce
  have "refs ms1 = refs ms" "map fst ms1 = map fst ms"
    using validate_step_refs [OF Suc.prems, of am p i] s by simp_all
  then show ?case
    using Suc.IH [of ms1 "Suc i"] Suc.prems s by (cases e) (simp_all add: act_then_def)
qed

lemma imods_set_state [simp]: "imods (set_state i st v) = imods v"
  by (cases "i < length (instances v)") (simp_all add: imods_def set_state_def map_update list_update_same_conv list_update_beyond)

lemma instantiate_effect:
  assumes d: "distinct (map fst ms)" and call: "call_keeps call"
    and r: "vm_instantiate_module am lay call p (ms, v) = Some (e, ms', v')"
  shows "map fst ms' = map fst ms \<and> (refs ms' = refs ms \<and> imods v' = imods v \<or>
    (\<exists>m. map_of ms p = Some m \<and> p \<notin> set (imods v) \<and> refs ms' = list_update_seq p (ref_count m + 1) (refs ms) \<and> imods v' = imods v @ [p]))"
proof (cases "list_ex (\<lambda>mi. mi_mod mi = p) (instances v)")
  case True
  then show ?thesis
    using r by (simp add: vm_instantiate_module_def)
next
  case False
  then have new: "p \<notin> set (imods v)"
    by (auto simp: imods_def list_ex_iff)
  show ?thesis
  proof (cases "map_of ms p")
    case None
    then show ?thesis
      using r False by (simp add: vm_instantiate_module_def the_mod_def)
  next
    case (Some m)
    obtain e1 ms1 where v1: "act_for 0 (vec_size (funcs m)) (validate_step am p) ms = (e1, ms1)"
      by fastforce
    have k1: "refs ms1 = refs ms" "map fst ms1 = map fst ms"
      using validate_all_refs [OF d, of 0 "vec_size (funcs m)" am p] v1 by simp_all
    have d1: "distinct (map fst ms1)"
      using d k1(2) by simp
    have unchanged: ?thesis if "ms' = ms1" "v' = v"
      using that k1 by simp
    show ?thesis
    proof (cases "e1 = None \<and> am T_module_inst 1")
      case no: False
      then show ?thesis
        using r False Some v1 unchanged
        by (auto simp: vm_instantiate_module_def the_mod_def split: option.splits sum.splits prod.splits)
    next
      case yes: True
      show ?thesis
      proof (cases "unwrap (the_mod ms1 p) (module_inst_new am p)")
        case (Inl e2)
        then show ?thesis
          using r False Some v1 yes unchanged by (simp add: vm_instantiate_module_def the_mod_def)
      next
        case (Inr x)
        obtain mi m2 where x: "x = (mi, m2)"
          by (cases x)
        obtain m1 where m1: "map_of ms1 p = Some m1" and n: "module_inst_new am p m1 = Inr (mi, m2)"
          using Inr by (auto simp: x res_simps the_mod_def split: option.splits)
        have shape: "mi_mod mi = p" "ref_count m2 = ref_count m1 + 1"
          using module_inst_new_shape [OF n] by auto
        have c: "ref_count m1 = ref_count m"
          using map_of_refs [of ms1 p] map_of_refs [of ms p] k1(1) m1 Some by simp
        let ?ms = "set_mod p m2 ms1" and ?i = "length (instances v)" and ?v = "v\<lparr>instances := instances v @ [mi]\<rparr>"
        have ms': "ms' = ?ms" and v': "\<exists>w. imods v' = imods w \<and> (w = snd (vm_link_module_inst ?ms ?i ?v) \<or>
            (\<exists>e4. module_inst_init am lay call ?ms ?i (snd (vm_link_module_inst ?ms ?i ?v)) = Some (e4, w)))"
          using r False Some v1 yes Inr
          by (auto simp: vm_instantiate_module_def the_mod_def Let_def x split: option.splits prod.splits)
        have "imods v' = imods v @ [p]"
          using v' module_inst_init_keeps [OF call] act_keepsD [OF link_keeps] shape(1) by (fastforce simp: imods_def)
        then show ?thesis
          using ms' refs_set_mod [OF d1 m1, of m2] k1 c shape(2) new Some by simp
      qed
    qed
  qed
qed


section \<open>The lifetime of a module\<close>

text \<open>Every module after the instances of the modules \<open>xs\<close> are gone.\<close>

definition release :: "ptr list \<Rightarrow> mods \<Rightarrow> mods" where
  "release xs ms = map (\<lambda>(p, m). (p, m\<lparr>ref_count := ref_count m - of_nat (count_list xs p)\<rparr>)) ms"

lemma release_keys [simp]: "map fst (release xs ms) = map fst ms"
  by (simp add: release_def case_prod_unfold comp_def)

lemma release_domain [simp]: "fst ` set (release xs ms) = fst ` set ms"
  by (metis list.set_map release_keys)

lemma map_of_release [simp]:
  "map_of (release xs ms) p = map_option (\<lambda>m. m\<lparr>ref_count := ref_count m - of_nat (count_list xs p)\<rparr>) (map_of ms p)"
  unfolding release_def by (induction ms) auto

lemma release_Nil [simp]: "release [] ms = ms"
  by (simp add: release_def case_prod_unfold)

lemma release_append: "release ys (release xs ms) = release (xs @ ys) ms"
  by (simp add: release_def case_prod_unfold comp_def count_list_append algebra_simps)

text \<open>The references of the modules cover the instances of \<open>xs\<close>.\<close>

definition covers :: "mods \<Rightarrow> ptr list \<Rightarrow> bool" where
  "covers ms xs \<longleftrightarrow> distinct (map fst ms) \<and> set xs \<subseteq> fst ` set ms \<and>
     (\<forall>p m. map_of ms p = Some m \<longrightarrow> count_list xs p \<le> unat (ref_count m))"

lemma unat_minus_of_nat: "k \<le> unat (x :: 'a::len word) \<Longrightarrow> unat (x - of_nat k) = unat x - k"
proof -
  assume k: "k \<le> unat x"
  then have "unat (of_nat k :: 'a word) = k"
    by (simp add: unat_of_nat take_bit_nat_eq_self order.strict_trans1)
  with k show ?thesis
    by (simp add: unat_sub word_le_nat_alt)
qed

lemma covers_append:
  assumes "covers ms (xs @ ys)"
  shows "covers ms xs" "covers (release xs ms) ys"
proof -
  have le: "count_list xs p + count_list ys p \<le> unat (ref_count m)" if "map_of ms p = Some m" for p m
    using assms that by (simp add: covers_def)
  show "covers ms xs"
    using assms le by (fastforce simp: covers_def)
  have "count_list ys p \<le> unat (ref_count m - of_nat (count_list xs p))" if "map_of ms p = Some m" for p m
    using le [OF that] by (simp add: unat_minus_of_nat)
  then show "covers (release xs ms) ys"
    using assms unfolding covers_def by auto
qed

lemma drop_ref_release:
  assumes "covers ms [p]"
  shows "drop_ref p ms = Inr (release [p] ms)"
proof -
  obtain m where m: "map_of ms p = Some m" and d: "distinct (map fst ms)"
    using assms by (auto simp: covers_def dest: weak_map_of_SomeI)
  then have "ref_count m \<noteq> 0"
    using assms unfolding covers_def by (metis One_nat_def count_list.simps add.commute le_zero_eq nat.simps(3) plus_1_eq_Suc unat_0)
  moreover have "set_mod p (m\<lparr>ref_count := ref_count m - 1\<rparr>) ms = release [p] ms"
    unfolding set_mod_def release_def by (rule map_cong) (use d m in \<open>auto simp: map_of_eq_Some_iff dest: eq_key_imp_eq_value\<close>)
  ultimately show ?thesis
    using m by (simp add: drop_ref_def the_mod_def)
qed

lemma drop_instances: "covers ms (map mi_mod is) \<Longrightarrow> foreach_res module_inst_drop is ms = Inr (release (map mi_mod is) ms)"
proof (induction "is" arbitrary: ms)
  case (Cons mi "is")
  then have "covers ms ([mi_mod mi] @ map mi_mod is)"
    by simp
  note c = covers_append [OF this]
  show ?case
    using Cons.IH [OF c(2)] by (simp add: module_inst_drop_def drop_ref_release [OF c(1)] release_append)
qed simp

lemma vm_drop_release: "covers ms (imods v) \<Longrightarrow> vm_drop (ms, v) = Inr (release (imods v) ms, \<lparr>instances = [], vm_thread = thread_reset (vm_thread v)\<rparr>)"
  by (simp add: vm_drop_def imods_def drop_instances)

lemma drop_vms: "covers ms (all_imods vs) \<Longrightarrow> foreach_res drop_each_vm vs ms = Inr (release (all_imods vs) ms)"
proof (induction vs arbitrary: ms)
  case (Cons x vs)
  then have "covers ms (imods (snd x) @ all_imods vs)"
    by (cases x) (simp add: all_imods_def)
  note c = covers_append [OF this]
  show ?case
    using Cons.IH [OF c(2)] vm_drop_release [OF c(1)] by (cases x) (simp add: drop_each_vm_def release_append all_imods_def)
qed (simp add: all_imods_def)

subsection \<open>The invariant\<close>

definition counted :: "runtime \<Rightarrow> bool" where
  "counted rt \<longleftrightarrow> distinct (map fst (rt_modules rt)) \<and> distinct (map fst (rt_vms rt)) \<and> length (rt_vms rt) < 2 ^ 32 \<and>
     set (all_imods (rt_vms rt)) \<subseteq> fst ` set (rt_modules rt) \<and> (\<forall>x \<in> set (rt_vms rt). distinct (imods (snd x))) \<and>
     (\<forall>p m. map_of (rt_modules rt) p = Some m \<longrightarrow> unat (ref_count m) = count_list (all_imods (rt_vms rt)) p)"

lemma counted_covers: "counted rt \<Longrightarrow> covers (rt_modules rt) (all_imods (rt_vms rt))"
  by (simp add: counted_def covers_def)

lemma all_imods_simps [simp]:
  "all_imods [] = []" "all_imods (x # vs) = imods (snd x) @ all_imods vs" "all_imods (vs @ ws) = all_imods vs @ all_imods ws"
  by (simp_all add: all_imods_def case_prod_unfold)

lemma imods_vm_zero [simp]: "imods vm_zero = []"
  by (simp add: imods_def vm_zero_def)

lemma count_list_distinct: "distinct xs \<Longrightarrow> count_list xs x \<le> 1"
  by (induction xs) auto

text \<open>A vm has at most one instance of a module, so that a reference count is at most the number of vms.\<close>

lemma all_imods_bound:
  assumes "\<forall>x \<in> set vs. distinct (imods (snd x))"
  shows "count_list (all_imods vs) p \<le> length vs"
  using assms
proof (induction vs)
  case (Cons x vs)
  have "count_list (imods (snd x)) p \<le> 1"
    by (rule count_list_distinct) (use Cons.prems in simp)
  then show ?case
    using Cons by simp
qed simp

lemma seq_split:
  assumes "distinct (map fst ps)" "map_of ps q = Some x"
  obtains as bs where "ps = as @ (q, x) # bs" "list_erase_seq q ps = as @ bs" "\<And>y. list_update_seq q y ps = as @ (q, y) # bs"
proof -
  obtain as bs where ps: "ps = as @ (q, x) # bs"
    using assms(2) by (meson map_of_SomeD split_list)
  then have no: "(q, y) \<notin> set as" "(q, y) \<notin> set bs" for y
    using assms(1) by (force simp: image_iff)+
  have "filter (\<lambda>(q', x). q' \<noteq> q) as = as" "filter (\<lambda>(q', x). q' \<noteq> q) bs = bs"
    using no by (auto simp: filter_id_conv)
  moreover have "map (\<lambda>(q', y'). if q' = q then (q', y) else (q', y')) as = as"
      "map (\<lambda>(q', y'). if q' = q then (q', y) else (q', y')) bs = bs" for y
    using no by (auto intro!: map_idI)
  ultimately show thesis
    using ps by (intro that [of as bs]) (simp_all add: list_erase_seq_def list_update_seq_def)
qed

lemma map_of_update_seq:
  "map_of (list_update_seq p x ps) q = (if q = p then map_option (\<lambda>_. x) (map_of ps q) else map_of ps q)"
  unfolding list_update_seq_def by (induction ps) auto

lemma map_of_erase_seq: "map_of (list_erase_seq p ps) q = (if q = p then None else map_of ps q)"
  unfolding list_erase_seq_def by (induction ps) auto

lemma erase_seq_keys: "distinct (map fst ps) \<Longrightarrow> distinct (map fst (list_erase_seq p ps))"
  "fst ` set (list_erase_seq p ps) = fst ` set ps - {p}"
  by (auto simp: list_erase_seq_def distinct_map_filter image_iff split: prod.splits)

lemma counted_add:
  assumes "counted rt" "runtime_module_add_mod al m rt = Inr rt'"
  shows "counted rt'"
proof -
  obtain a where a: "a \<notin> fst ` set (rt_modules rt)" "rt' = rt\<lparr>rt_modules := rt_modules rt @ [(a, m)]\<rparr>" "ref_count m = 0"
    using assms(2) by (auto simp: runtime_module_add_mod_def list_push_seq_def res_simps split: if_splits option.splits)
  then have "a \<notin> set (all_imods (rt_vms rt))"
    using assms(1) by (auto simp: counted_def)
  then show ?thesis
    using assms(1) a by (auto simp: counted_def map_add_def split: option.splits)
qed

lemma counted_module_drop:
  assumes "counted rt" "runtime_module_drop p rt = Inr rt'"
  shows "counted rt'"
proof -
  obtain m where m: "map_of (rt_modules rt) p = Some m" "ref_count m = 0"
      "rt' = rt\<lparr>rt_modules := list_erase_seq p (rt_modules rt)\<rparr>"
    using assms(2) by (auto simp: runtime_module_drop_def module_drop_def res_simps split: if_splits option.splits)
  have "unat (ref_count m) = count_list (all_imods (rt_vms rt)) p"
    using assms(1) m(1) unfolding counted_def by blast
  then have "p \<notin> set (all_imods (rt_vms rt))"
    using m(2) by (metis count_list_0_iff unat_0)
  then show ?thesis
    using assms(1) m(3) by (auto simp: counted_def erase_seq_keys map_of_erase_seq)
qed

lemma counted_vm_new:
  assumes "counted rt" "runtime_vm_new al rt = Inr (q, rt')" "length (rt_vms rt') < 2 ^ 32"
  shows "counted rt'"
proof -
  obtain a where a: "a \<notin> fst ` set (rt_vms rt)" "rt' = rt\<lparr>rt_vms := rt_vms rt @ [(a, vm_zero)]\<rparr>"
    using assms(2) by (auto simp: runtime_vm_new_def list_push_seq_def res_simps split: if_splits option.splits)
  then show ?thesis
    using assms by (auto simp: counted_def)
qed

text \<open>Dropping a vm that the runtime owns succeeds.\<close>

lemma vm_drop_effect:
  assumes "counted rt" "map_of (rt_vms rt) q = Some v"
  shows "runtime_vm_drop q rt = Inr \<lparr>rt_modules = release (imods v) (rt_modules rt), rt_vms = list_erase_seq q (rt_vms rt)\<rparr>"
    "counted \<lparr>rt_modules = release (imods v) (rt_modules rt), rt_vms = list_erase_seq q (rt_vms rt)\<rparr>"
proof -
  obtain as bs where s: "rt_vms rt = as @ (q, v) # bs" "list_erase_seq q (rt_vms rt) = as @ bs"
    using seq_split [OF _ assms(2)] assms(1) unfolding counted_def by metis
  have le: "count_list (all_imods (rt_vms rt)) p = count_list (all_imods (as @ bs)) p + count_list (imods v) p" for p
    by (simp add: s(1))
  have c: "covers (rt_modules rt) (imods v)"
    using counted_covers [OF assms(1)] by (fastforce simp: covers_def s(1))
  show "runtime_vm_drop q rt = Inr \<lparr>rt_modules = release (imods v) (rt_modules rt), rt_vms = list_erase_seq q (rt_vms rt)\<rparr>"
    by (simp add: runtime_vm_drop_def assms(2) vm_drop_release [OF c])
  have "unat (ref_count m - of_nat (count_list (imods v) p)) = count_list (all_imods (as @ bs)) p"
    if "map_of (rt_modules rt) p = Some m" for p m
  proof -
    have "unat (ref_count m) = count_list (all_imods (as @ bs)) p + count_list (imods v) p"
      using assms(1) that le unfolding counted_def by metis
    then show ?thesis
      by (simp add: unat_minus_of_nat)
  qed
  then show "counted \<lparr>rt_modules = release (imods v) (rt_modules rt), rt_vms = list_erase_seq q (rt_vms rt)\<rparr>"
    using assms(1) unfolding counted_def s(2) by (auto simp: s(1))
qed

lemma counted_instantiate:
  assumes "counted rt" "call_keeps call" "runtime_instantiate am lay call q p rt = Some (e, rt')"
  shows "counted rt'"
proof (cases "map_of (rt_vms rt) q")
  case None
  then show ?thesis
    using assms by (simp add: runtime_instantiate_def)
next
  case (Some v)
  let ?ms = "rt_modules rt"
  obtain as bs where s: "rt_vms rt = as @ (q, v) # bs" "\<And>w. list_update_seq q w (rt_vms rt) = as @ (q, w) # bs"
    using seq_split [OF _ Some] assms(1) unfolding counted_def by metis
  obtain ms' v' where i: "vm_instantiate_module am lay call p (?ms, v) = Some (e, ms', v')"
      and rt': "rt' = \<lparr>rt_modules = ms', rt_vms = as @ (q, v') # bs\<rparr>"
    using assms(3) Some by (auto simp: runtime_instantiate_def s(2))
  have d: "distinct (map fst ?ms)"
    using assms(1) by (simp add: counted_def)
  have keys: "map fst ms' = map fst ?ms" "fst ` set ms' = fst ` set ?ms"
    using instantiate_effect [OF d assms(2) i] by (simp_all, metis list.set_map)
  have count: "\<exists>m. map_of ?ms p = Some m \<and> ref_count m = c" if "map_of (refs ?ms) p = Some c" for p c
    using that by (auto simp: map_of_refs)
  show ?thesis
  proof (cases "imods v' = imods v")
    case True
    then have "refs ms' = refs ?ms"
      using instantiate_effect [OF d assms(2) i] by auto
    then have "map_option ref_count (map_of ms' x) = map_option ref_count (map_of ?ms x)" for x
      by (metis map_of_refs)
    then have "\<exists>m'. map_of ?ms x = Some m' \<and> ref_count m' = ref_count m" if "map_of ms' x = Some m" for x m
      by (metis that option.simps(9) map_option_eq_Some)
    then show ?thesis
      using assms(1) keys unfolding counted_def rt' by (auto simp: s(1) True) metis+
  next
    case False
    obtain m where m: "map_of ?ms p = Some m" "p \<notin> set (imods v)" "imods v' = imods v @ [p]"
        "refs ms' = list_update_seq p (ref_count m + 1) (refs ?ms)"
      using instantiate_effect [OF d assms(2) i] False by auto
    have "unat (ref_count x) = count_list (all_imods (as @ (q, v') # bs)) y" if "map_of ms' y = Some x" for y x
    proof (cases "y = p")
      case True
      have old: "unat (ref_count m) = count_list (all_imods (as @ bs)) p"
        using assms(1) m(1,2) unfolding counted_def by (simp add: s(1))
      also have "\<dots> < 2 ^ 32 - 1"
        using assms(1) all_imods_bound [of "as @ bs" p] unfolding counted_def by (auto simp: s(1))
      finally have "unat (ref_count m + 1) = Suc (unat (ref_count m))"
        by (simp add: unat_plus_if')
      moreover have "ref_count x = ref_count m + 1"
        using map_of_refs [of ms' p] map_of_refs [of ?ms p] that True m by (simp add: map_of_update_seq)
      ultimately show ?thesis
        using m(2,3) old by (simp add: True)
    next
      case False
      then have "map_of (refs ?ms) y = Some (ref_count x)"
        using map_of_refs [of ms' y] that m(4) by (simp add: map_of_update_seq)
      then have "unat (ref_count x) = count_list (all_imods (as @ (q, v) # bs)) y"
        using assms(1) count unfolding counted_def s(1) by metis
      then show ?thesis
        using False m(3) by simp
    qed
    moreover have "p \<in> fst ` set ?ms"
      using m(1) by (metis weak_map_of_SomeI map_of_SomeD image_eqI fst_conv)
    ultimately show ?thesis
      using assms(1) keys m(2,3) unfolding counted_def rt' by (auto simp: s(1))
  qed
qed

text \<open>
  The states a client reaches by adding and dropping modules, by creating and dropping vms and by
  instantiating modules, whether an instantiation succeeds or not.
\<close>

inductive runtime_reach :: "call \<Rightarrow> runtime \<Rightarrow> bool" for call where
  start: "runtime_reach call \<lparr>rt_modules = [], rt_vms = []\<rparr>"
| module_add: "runtime_reach call rt \<Longrightarrow> runtime_module_add_mod al m rt = Inr rt' \<Longrightarrow> runtime_reach call rt'"
| module_drop: "runtime_reach call rt \<Longrightarrow> runtime_module_drop p rt = Inr rt' \<Longrightarrow> runtime_reach call rt'"
| vm_new: "runtime_reach call rt \<Longrightarrow> runtime_vm_new al rt = Inr (q, rt') \<Longrightarrow> length (rt_vms rt') < 2 ^ 32 \<Longrightarrow> runtime_reach call rt'"
| vm_drop: "runtime_reach call rt \<Longrightarrow> runtime_vm_drop q rt = Inr rt' \<Longrightarrow> runtime_reach call rt'"
| instantiate: "runtime_reach call rt \<Longrightarrow> runtime_instantiate am lay call q p rt = Some (e, rt') \<Longrightarrow> runtime_reach call rt'"

lemma reach_counted: "runtime_reach call rt \<Longrightarrow> call_keeps call \<Longrightarrow> counted rt"
proof (induction rule: runtime_reach.induct)
  case start
  then show ?case by (simp add: counted_def)
next
  case (vm_drop rt q rt')
  then obtain v where "map_of (rt_vms rt) q = Some v"
    by (auto simp: runtime_vm_drop_def split: option.splits)
  then show ?case
    using vm_drop vm_drop_effect by fastforce
qed (blast intro: counted_add counted_module_drop counted_vm_new counted_instantiate)+

lemma drop_modules:
  "\<forall>x \<in> set ms. ref_count (snd x) = 0 \<and> (resource_payload (snd x) \<noteq> 0 \<longrightarrow> resource_drop_cb (snd x) \<noteq> 0) \<Longrightarrow>
   foreach_res drop_each_module ms () = Inr ()"
  by (induction ms) (auto simp: drop_each_module_def module_drop_def)

lemma runtime_drop_effect:
  assumes "counted rt" "\<forall>x \<in> set (rt_modules rt). resource_payload (snd x) \<noteq> 0 \<longrightarrow> resource_drop_cb (snd x) \<noteq> 0"
  shows "runtime_drop rt = Inr \<lparr>rt_modules = [], rt_vms = []\<rparr>"
proof -
  let ?ms = "release (all_imods (rt_vms rt)) (rt_modules rt)"
  have "ref_count m - of_nat (count_list (all_imods (rt_vms rt)) p) = 0" if "(p, m) \<in> set (rt_modules rt)" for p m
  proof -
    have "unat (ref_count m) = count_list (all_imods (rt_vms rt)) p"
      using assms(1) that unfolding counted_def by (metis map_of_is_SomeI)
    then show ?thesis
      by (simp flip: word_unat_eq_iff add: \<open>unat (ref_count m) = _\<close> [symmetric])
  qed
  then have "foreach_res drop_each_module ?ms () = Inr ()"
    using assms(2) by (intro drop_modules) (auto simp: release_def)
  then show ?thesis
    by (simp add: runtime_drop_def drop_vms [OF counted_covers [OF assms(1)]])
qed

section \<open>Properties\<close>

text \<open>
  C17.  The lifetime of modules and vms.  Whatever a client does with the runtime, the reference
  count of a module is the number of its instances in all vms; every instance is of a module
  that the runtime still owns; a module that is in use is not dropped (and the runtime says so),
  one that is not in use and whose payload has a callback is; a vm that the runtime owns can
  always be dropped; and when every payload has its callback the runtime can be torn down
  without tripping the assertion on the reference counts.
\<close>

theorem module_lifetime:
  assumes "call_keeps call" "runtime_reach call rt"
  shows "(\<forall>p m. map_of (rt_modules rt) p = Some m \<longrightarrow>
      unat (ref_count m) = count_list (all_imods (rt_vms rt)) p \<and>
      (p \<in> set (all_imods (rt_vms rt)) \<longrightarrow> runtime_module_drop p rt = Inl E_general) \<and>
      (p \<notin> set (all_imods (rt_vms rt)) \<and> (resource_payload m \<noteq> 0 \<longrightarrow> resource_drop_cb m \<noteq> 0) \<longrightarrow>
        runtime_module_drop p rt = Inr (rt\<lparr>rt_modules := list_erase_seq p (rt_modules rt)\<rparr>))) \<and>
    (\<forall>q v mi. (q, v) \<in> set (rt_vms rt) \<and> mi \<in> set (instances v) \<longrightarrow> (\<exists>m. map_of (rt_modules rt) (mi_mod mi) = Some m)) \<and>
    (\<forall>q v. map_of (rt_vms rt) q = Some v \<longrightarrow>
      (\<exists>ms. runtime_vm_drop q rt = Inr \<lparr>rt_modules = ms, rt_vms = list_erase_seq q (rt_vms rt)\<rparr> \<and> map fst ms = map fst (rt_modules rt))) \<and>
    ((\<forall>x \<in> set (rt_modules rt). resource_payload (snd x) \<noteq> 0 \<longrightarrow> resource_drop_cb (snd x) \<noteq> 0) \<longrightarrow>
      runtime_drop rt = Inr \<lparr>rt_modules = [], rt_vms = []\<rparr>)"
proof -
  have c: "counted rt"
    by (rule reach_counted) (fact assms)+
  have n: "unat (ref_count m) = count_list (all_imods (rt_vms rt)) p" if "map_of (rt_modules rt) p = Some m" for p m
    using c that unfolding counted_def by blast
  have used: "runtime_module_drop p rt = Inl E_general" if "map_of (rt_modules rt) p = Some m" "p \<in> set (all_imods (rt_vms rt))" for p m
    using n [OF that(1)] that by (auto simp: runtime_module_drop_def module_drop_def count_list_0_iff dest: sym)
  have unused: "runtime_module_drop p rt = Inr (rt\<lparr>rt_modules := list_erase_seq p (rt_modules rt)\<rparr>)"
    if "map_of (rt_modules rt) p = Some m" "p \<notin> set (all_imods (rt_vms rt))" "resource_payload m \<noteq> 0 \<longrightarrow> resource_drop_cb m \<noteq> 0" for p m
    using n [OF that(1)] that by (auto simp: runtime_module_drop_def module_drop_def unsigned_eq_0_iff)
  have "\<exists>m. map_of (rt_modules rt) (mi_mod mi) = Some m" if "(q, v) \<in> set (rt_vms rt)" "mi \<in> set (instances v)" for q v mi
  proof -
    have "mi_mod mi \<in> set (all_imods (rt_vms rt))"
      using that by (force simp: all_imods_def imods_def)
    then show ?thesis
      using c unfolding counted_def by (metis (no_types, lifting) imageE prod.collapse subsetD weak_map_of_SomeI)
  qed
  then show ?thesis
    using n used unused vm_drop_effect(1) [OF c] runtime_drop_effect [OF c] by auto
qed

text \<open>A module without functions, and a runtime that has a vm with an instance of it.\<close>

definition plain_module :: module where
  "plain_module = module_zero\<lparr>names := \<lparr>vdata = [vstr_static [97]], vcap = 1, vnonnull = True, vfixed = False\<rparr>, wasm_bin := vstr_static [0]\<rparr>"

definition plain_call :: call where
  "plain_call ms v t a args = Some (None, v, t)"

definition plain_instantiate :: "runtime \<Rightarrow> (err option \<times> runtime) option" where
  "plain_instantiate = runtime_instantiate example_vm_alloc (\<lambda>_. 0) plain_call 7 5"

definition plain_runtime :: runtime where
  "plain_runtime = \<lparr>rt_modules = [(5, plain_module)], rt_vms = [(7, vm_zero)]\<rparr>"

lemma plain_runtime_reach: "runtime_reach call plain_runtime"
proof -
  have "runtime_module_add_mod (\<lambda>_. Some 5) plain_module \<lparr>rt_modules = [], rt_vms = []\<rparr> =
      Inr \<lparr>rt_modules = [(5, plain_module)], rt_vms = []\<rparr>"
    by (simp add: runtime_module_add_mod_def list_push_seq_def plain_module_def module_zero_def vec_size_def vstr_is_null_def vstr_static_def str_is_null_def)
  moreover have "runtime_vm_new (\<lambda>_. Some 7) \<lparr>rt_modules = [(5, plain_module)], rt_vms = []\<rparr> = Inr (7, plain_runtime)"
    by (simp add: runtime_vm_new_def list_push_seq_def plain_runtime_def)
  ultimately show ?thesis
    by (rule vm_new [OF module_add [OF start]]) (simp add: plain_runtime_def)
qed

theorem module_lifetime_witness:
  "call_keeps plain_call \<and>
   (\<exists>rt. plain_instantiate plain_runtime = Some (None, rt) \<and> runtime_reach plain_call rt \<and> all_imods (rt_vms rt) = [5] \<and>
      runtime_module_drop 5 rt = Inl E_general \<and> (\<exists>rt'. runtime_vm_drop 7 rt = Inr rt'))"
proof -
  have k: "call_keeps plain_call"
    by (simp add: call_keeps_def plain_call_def)
  note r = plain_runtime_reach [of plain_call]
  have "case plain_instantiate plain_runtime of None \<Rightarrow> False | Some (e, rt) \<Rightarrow>
      e = None \<and> all_imods (rt_vms rt) = [5] \<and> map fst (rt_modules rt) = [5] \<and> map fst (rt_vms rt) = [7]"
    by code_simp
  then obtain rt where i: "plain_instantiate plain_runtime = Some (None, rt)"
      and rt: "all_imods (rt_vms rt) = [5]" "map fst (rt_modules rt) = [5]" "map fst (rt_vms rt) = [7]"
    by (auto split: option.splits)
  have reach: "runtime_reach plain_call rt"
    using instantiate [OF r] i unfolding plain_instantiate_def by blast
  obtain m v where "map_of (rt_modules rt) 5 = Some m" "map_of (rt_vms rt) 7 = Some v"
    using rt(2,3) by (cases "rt_modules rt"; cases "rt_vms rt") auto
  then show ?thesis
    using module_lifetime [OF k reach] k i reach rt(1) by auto
qed

end
