(* ===== verification/Dt_Numeric_Correct.thy ===== *)
theory Dt_Numeric_Correct
  imports Dt_Numeric Validator_Correct
begin

text \<open>
  The numeric instructions against the definitions of the WebAssembly specification: the integer
  instructions of both widths, the conversions from floats to integers, the minimum and the
  maximum.
\<close>

section \<open>Slots\<close>

lemma get_st_w32 [simp]: "get_w32 (st_w32 mc old x) = x"
  by (rule bit_word_eqI) (simp add: get_w32_def st_w32_def bit_simps)

lemma get_st_i32: "get_w32 (st_i32 mc old k) = word_of_int k"
  by (simp add: st_i32_def)

lemma len_simps: "31 = LENGTH(32) - 1" "63 = LENGTH(64) - 1"
  by simp_all

lemma get_f32_w32: "get_f32 = get_w32"
  by (simp add: fun_eq_iff get_f32_def get_w32_def)

lemma get_i32_w32: "get_i32 v = sint (get_w32 v)" "get_u32 v = uint (get_w32 v)"
  by (simp_all add: get_i32_def get_u32_def get_w32_def)

lemmas slot_simps = st_i32_def st_i64_def st_f32_def st_f64_def get_w64_def get_i64_def get_u64_def get_f64_def get_f32_w32 get_i32_w32

section \<open>Integer instructions\<close>

text \<open>The integer part of a quotient is the division of C.\<close>

lemma sdiv_toward_zero: "l \<noteq> 0 \<Longrightarrow> k sdiv l = toward_zero (real_of_int k / real_of_int l)"
proof -
  assume l: "l \<noteq> 0"
  have pos: "\<lfloor>real_of_int a / real_of_int b\<rfloor> = a div b" for a b
    by (rule floor_divide_of_int_eq)
  show ?thesis
  proof (cases "0 \<le> real_of_int k / real_of_int l")
    case True
    then have "k = 0 \<or> sgn k = sgn l"
      using l by (auto simp: zero_le_divide_iff sgn_if)
    then have "k sdiv l = k div l"
      using l by (auto simp: signed_divide_int_def sgn_if abs_if)
    then show ?thesis
      using True by (simp add: toward_zero_def pos)
  next
    case False
    then have "k < 0 \<and> 0 < l \<or> 0 < k \<and> l < 0"
      using l by (auto simp: zero_le_divide_iff not_le)
    then have "real_of_int k / real_of_int l = - (real_of_int \<bar>k\<bar> / real_of_int \<bar>l\<bar>)" "sgn k * sgn l = - 1"
      by auto
    moreover have "\<lceil>- (real_of_int \<bar>k\<bar> / real_of_int \<bar>l\<bar>)\<rceil> = - (\<bar>k\<bar> div \<bar>l\<bar>)"
      by (simp only: ceiling_minus pos)
    ultimately show ?thesis
      using False by (simp add: toward_zero_def signed_divide_int_def)
  qed
qed

text \<open>
  The reference definitions, for words of any width: \<open>k\<close> is the position of the instruction in the
  order of the opcodes and \<open>None\<close> is a trap.
\<close>

definition idiv_s :: "'a::len word \<Rightarrow> 'a word \<Rightarrow> 'a word option" where
  "idiv_s x y =
     (let q = toward_zero (real_of_int (sint x) / real_of_int (sint y)) in
      if y = 0 \<or> q = 2 ^ (LENGTH('a) - 1) then None else Some (word_of_int q))"

definition irem_s :: "'a::len word \<Rightarrow> 'a word \<Rightarrow> 'a word option" where
  "irem_s x y =
     (if y = 0 then None
      else Some (word_of_int (sint x - sint y * toward_zero (real_of_int (sint x) / real_of_int (sint y)))))"

definition ibinop :: "nat \<Rightarrow> 'a::len word \<Rightarrow> 'a word \<Rightarrow> 'a word option" where
  "ibinop k x y =
     [Some (x + y), Some (x - y), Some (x * y), idiv_s x y, if y = 0 then None else Some (x div y),
      irem_s x y, if y = 0 then None else Some (x mod y), Some (x AND y), Some (x OR y), Some (x XOR y),
      Some (push_bit (unat y mod LENGTH('a)) x), Some (signed_drop_bit (unat y mod LENGTH('a)) x),
      Some (drop_bit (unat y mod LENGTH('a)) x), Some (word_rotl (unat y) x), Some (word_rotr (unat y) x)] ! k"

definition irelop :: "nat \<Rightarrow> 'a::len word \<Rightarrow> 'a word \<Rightarrow> bool" where
  "irelop k x y =
     [x = y, x \<noteq> y, sint x < sint y, x < y, sint x > sint y, x > y, sint x \<le> sint y, x \<le> y, sint x \<ge> sint y, x \<ge> y] ! k"

definition iunop :: "nat \<Rightarrow> 'a::len word \<Rightarrow> nat" where
  "iunop k x =
     [LENGTH('a) - (LEAST n. unat x < 2 ^ n), Max {n. n \<le> LENGTH('a) \<and> 2 ^ n dvd unat x}, card {n. bit x n}] ! k"

text \<open>A machine that takes a shift count modulo the width, as the instruction sets of the supported hosts do.\<close>

definition mc_masks :: "machine \<Rightarrow> bool" where
  "mc_masks mc \<longleftrightarrow> (\<forall>w n. mc_count mc w n = nat (n mod int w))"

definition implements :: "(value_u \<Rightarrow> 'a) \<Rightarrow> value_u res \<Rightarrow> 'a option \<Rightarrow> bool" where
  "implements get r s \<longleftrightarrow> (case s of None \<Rightarrow> r = Inl E_general | Some x \<Rightarrow> (\<exists>v. r = Inr v \<and> get v = x))"

lemma implements_simps [simp]:
  "implements get (Inr v) (Some x) \<longleftrightarrow> get v = x" "implements get (Inl e) None \<longleftrightarrow> e = E_general"
  "\<not> implements get (Inl e) (Some x)" "\<not> implements get (Inr v) None"
  by (auto simp: implements_def)

subsection \<open>Bit counts\<close>

lemma takeWhile_Not_nth:
  "i < length (takeWhile Not bs) \<Longrightarrow> \<not> bs ! i"
  "length (takeWhile Not bs) < length bs \<Longrightarrow> bs ! length (takeWhile Not bs)"
  using nth_length_takeWhile [of Not bs] set_takeWhileD [OF nth_mem, of i Not bs] by (auto simp: takeWhile_nth)

lemma bits_of_nth: "n < LENGTH('a) \<Longrightarrow> bits_of (w :: 'a::len word) ! n = bit w n"
  by (simp add: bits_of_def)

lemma length_bits_of [simp]: "length (bits_of (w :: 'a::len word)) = LENGTH('a)"
  by (simp add: bits_of_def)

lemma bit_unat [simp]: "bit (unat w) n = bit (w :: 'a::len word) n"
  by (simp add: bit_unsigned_iff)

lemma unat_less_iff: "unat (w :: 'a::len word) < 2 ^ n \<longleftrightarrow> (\<forall>i \<ge> n. \<not> bit w i)"
proof -
  have "unat w < 2 ^ n \<longleftrightarrow> take_bit n (unat w) = unat w"
    by (simp add: take_bit_nat_eq_self_iff)
  also have "\<dots> \<longleftrightarrow> (\<forall>i \<ge> n. \<not> bit w i)"
    unfolding bit_eq_iff [of "take_bit n (unat w)"] bit_take_bit_iff bit_unat by (simp, metis not_less)
  finally show ?thesis .
qed

lemma unat_dvd_iff: "2 ^ n dvd unat (w :: 'a::len word) \<longleftrightarrow> (\<forall>i < n. \<not> bit w i)"
proof -
  have "2 ^ n dvd unat w \<longleftrightarrow> take_bit n (unat w) = 0"
    by (simp add: take_bit_eq_0_iff)
  also have "\<dots> \<longleftrightarrow> (\<forall>i < n. \<not> bit w i)"
    unfolding bit_eq_iff [of "take_bit n (unat w)"] bit_take_bit_iff bit_unat by auto
  finally show ?thesis .
qed

lemma ctz_correct:
  assumes "x \<noteq> 0"
  shows "length (takeWhile Not (bits_of (x :: 'a::len word))) = Max {n. n \<le> LENGTH('a) \<and> 2 ^ n dvd unat x}"
proof (rule Max_eqI [symmetric])
  let ?k = "length (takeWhile Not (bits_of x))"
  have le: "?k \<le> LENGTH('a)"
    using length_takeWhile_le [of Not "bits_of x"] by simp
  show "?k \<in> {n. n \<le> LENGTH('a) \<and> 2 ^ n dvd unat x}"
    using le takeWhile_Not_nth(1) [of _ "bits_of x"] by (auto simp: unat_dvd_iff bits_of_nth)
  show "n \<le> ?k" if "n \<in> {n. n \<le> LENGTH('a) \<and> 2 ^ n dvd unat x}" for n
    using that takeWhile_Not_nth(2) [of "bits_of x"] by (force simp: unat_dvd_iff bits_of_nth not_le [symmetric])
qed simp

lemma clz_correct:
  "length (takeWhile Not (rev (bits_of (x :: 'a::len word)))) = LENGTH('a) - (LEAST n. unat x < 2 ^ n)"
proof -
  let ?k = "length (takeWhile Not (rev (bits_of x)))" and ?N = "LENGTH('a)"
  have le: "?k \<le> ?N"
    using length_takeWhile_le [of Not "rev (bits_of x)"] by simp
  have nth: "rev (bits_of x) ! j = bit x (?N - Suc j)" if "j < ?N" for j
    using that by (simp add: rev_nth bits_of_nth)
  have "(LEAST n. unat x < 2 ^ n) = ?N - ?k"
  proof (rule Least_equality)
    have "\<not> bit x i" if "?N - ?k \<le> i" for i
    proof (cases "i < ?N")
      case True
      then have "?N - Suc i < ?k" "?N - Suc (?N - Suc i) = i"
        using that by linarith+
      then show ?thesis
        using takeWhile_Not_nth(1) [of "?N - Suc i" "rev (bits_of x)"] nth [of "?N - Suc i"] True by simp
    qed (use bit_imp_le_length in blast)
    then show "unat x < 2 ^ (?N - ?k)"
      by (simp add: unat_less_iff)
    show "?N - ?k \<le> n" if "unat x < 2 ^ n" for n
    proof (rule ccontr)
      assume n: "\<not> ?N - ?k \<le> n"
      then have "bit x (?N - Suc ?k)"
        using takeWhile_Not_nth(2) [of "rev (bits_of x)"] nth [of ?k] by simp
      then show False
        using that n by (force simp: unat_less_iff)
    qed
  qed
  then show ?thesis
    using le by simp
qed

lemma popcnt_correct: "length (filter id (bits_of (x :: 'a::len word))) = card {n. bit x n}"
proof -
  have "{n. n < LENGTH('a) \<and> bits_of x ! n} = {n. bit x n}"
    using bit_imp_le_length by (auto simp: bits_of_nth)
  then show ?thesis
    by (simp add: length_filter_conv_card)
qed

subsection \<open>Shifts and rotations\<close>

lemma word_of_int_sint [simp]: "word_of_int (sint x) = (x :: 'a::len word)"
  by (simp flip: scast_eq)

lemma word_of_int_push_bit: "word_of_int (push_bit n k) = (push_bit n (word_of_int k) :: 'a::len word)"
  by (rule bit_word_eqI) (auto simp: bit_simps)

lemma word_of_int_drop_bit_uint: "word_of_int (drop_bit n (uint x)) = (drop_bit n x :: 'a::len word)"
  by (rule bit_word_eqI) (simp add: bit_simps)

lemma word_of_int_drop_bit_sint: "word_of_int (drop_bit n (sint x)) = (signed_drop_bit n x :: 'a::len word)"
  by (simp flip: sint_signed_drop_bit_eq)

lemma shift_count_masks: "mc_masks mc \<Longrightarrow> 0 < w \<Longrightarrow> shift_count mc w k = nat (k mod int w)"
  by (auto simp: shift_count_def mc_masks_def)

lemma count_uint: "nat (uint (y :: 'a::len word) mod int m) = unat y mod m"
  by (metis nat_int uint_nat zmod_int)

lemma count_sint: "nat (sint (y :: 'a::len word) mod int m) = unat y mod m" if "m dvd 2 ^ LENGTH('a)"
proof -
  have "sint y mod int m = uint y mod int m"
  proof -
    have "int m dvd 2 ^ LENGTH('a)"
      using that by (metis int_dvd_int_iff of_nat_numeral of_nat_power)
    moreover have "sint y mod 2 ^ LENGTH('a) = uint y"
      by (simp add: uint_sint take_bit_eq_mod)
    ultimately show ?thesis
      by (metis mod_mod_cancel)
  qed
  then show ?thesis
    by (simp only: count_uint)
qed

lemma rotr_generic:
  fixes v :: "'a::len word"
  assumes "b = (LENGTH('a) - a) mod LENGTH('a)" "a < LENGTH('a)"
  shows "drop_bit a v OR push_bit b v = word_rotr a v"
proof (cases "a = 0")
  case True
  then show ?thesis
    using assms(1) by (intro bit_word_eqI) (simp add: bit_simps)
next
  case False
  then have b: "b = LENGTH('a) - a"
    using assms by simp
  show ?thesis
  proof (rule bit_word_eqI)
    fix n assume n: "n < LENGTH('a)"
    show "bit (drop_bit a v OR push_bit b v) n = bit (word_rotr a v) n"
    proof (cases "n + a < LENGTH('a)")
      case True
      then show ?thesis
        using b n by (auto simp: bit_simps add.commute)
    next
      case False
      then have "(n + a) mod LENGTH('a) = n + a - LENGTH('a)" "n - b = n + a - LENGTH('a)"
        using n assms(2) b by (simp_all add: le_mod_geq)
      then show ?thesis
        using False n b by (auto simp: bit_simps add.commute dest: bit_imp_le_length)
    qed
  qed
qed

lemma word_rotr_mod: "word_rotr (n mod LENGTH('a)) (v :: 'a::len word) = word_rotr n v"
  by (rule bit_word_eqI) (simp add: bit_simps mod_add_right_eq)

lemma word_rotl_rotr: "word_rotl n (v :: 'a::len word) = word_rotr ((LENGTH('a) - n mod LENGTH('a)) mod LENGTH('a)) v"
  by (simp only: word_rotl_eq_word_rotr word_rotr_mod)

lemma minus_count:
  fixes n :: "'a::len word"
  assumes "m dvd 2 ^ LENGTH('a)" "m < 2 ^ LENGTH('a)" "0 < m"
  shows "unat ((of_nat m - n) mod of_nat m) = (m - unat n mod m) mod m"
proof -
  have dvd: "int m dvd 2 ^ LENGTH('a)"
    using assms(1) by (metis int_dvd_int_iff of_nat_numeral of_nat_power)
  have m: "unat (of_nat m :: 'a word) = m"
    using assms(2) by (simp add: unat_of_nat take_bit_nat_eq_self)
  have "int (unat (of_nat m - n)) = (int m - int (unat n)) mod 2 ^ LENGTH('a)"
    using m by (metis uint_nat uint_word_ariths(2))
  then have "int (unat (of_nat m - n) mod m) = (int m - int (unat n)) mod int m"
    using dvd by (simp add: zmod_int mod_mod_cancel)
  also have "\<dots> = (int m - int (unat n mod m)) mod int m"
    by (metis mod_diff_right_eq zmod_int)
  also have "\<dots> = int ((m - unat n mod m) mod m)"
    using assms(3) by (simp add: zmod_int of_nat_diff less_imp_le)
  finally show ?thesis
    by (simp add: unat_mod m)
qed

lemma rotations:
  "s_rotr32 v32 n32 = word_rotr (unat n32) v32" "s_rotl32 v32 n32 = word_rotl (unat n32) v32"
  "s_rotr64 v64 n64 = word_rotr (unat n64) v64" "s_rotl64 v64 n64 = word_rotl (unat n64) v64"
proof -
  have c: "unat (n32 mod 32) = unat n32 mod 32" "unat ((32 - n32) mod 32) = (32 - unat n32 mod 32) mod 32"
    "unat (n64 mod 64) = unat n64 mod 64" "unat ((64 - n64) mod 64) = (64 - unat n64 mod 64) mod 64"
    using minus_count [of 32 n32] minus_count [of 64 n64] by (simp_all add: unat_mod)
  have inv: "k mod m = (m - (m - k mod m) mod m) mod m" if "0 < m" for k m :: nat
    using that by (cases "k mod m = 0") (simp_all add: less_imp_le)
  show "s_rotr32 v32 n32 = word_rotr (unat n32) v32"
    unfolding s_rotr32_def c using rotr_generic [of "(32 - unat n32 mod 32) mod 32" "unat n32 mod 32" v32] word_rotr_mod [of "unat n32" v32] by simp
  show "s_rotr64 v64 n64 = word_rotr (unat n64) v64"
    unfolding s_rotr64_def c using rotr_generic [of "(64 - unat n64 mod 64) mod 64" "unat n64 mod 64" v64] word_rotr_mod [of "unat n64" v64] by simp
  show "s_rotl32 v32 n32 = word_rotl (unat n32) v32"
    unfolding s_rotl32_def c word_rotl_rotr
    using rotr_generic [of "unat n32 mod 32" "(32 - unat n32 mod 32) mod 32" v32] inv [of 32 "unat n32"] by (simp add: or.commute)
  show "s_rotl64 v64 n64 = word_rotl (unat n64) v64"
    unfolding s_rotl64_def c word_rotl_rotr
    using rotr_generic [of "unat n64 mod 64" "(64 - unat n64 mod 64) mod 64" v64] inv [of 64 "unat n64"] by (simp add: or.commute)
qed

subsection \<open>Division\<close>

lemma sint_zero_iff: "sint (y :: 'a::len word) = 0 \<longleftrightarrow> y = 0"
  by (metis signed_0 signed_word_eqI)

lemma quotient_overflow:
  fixes x y :: "'a::len word"
  assumes "y \<noteq> 0"
  shows "toward_zero (real_of_int (sint x) / real_of_int (sint y)) = 2 ^ (LENGTH('a) - 1) \<longleftrightarrow>
    sint x = - (2 ^ (LENGTH('a) - 1)) \<and> sint y = - 1"
proof -
  let ?N = "2 ^ (LENGTH('a) - 1) :: int"
  have r: "- ?N \<le> sint x" "sint x < ?N"
    using sint_ge [of x] sint_lt [of x] by simp_all
  have y: "sint y \<noteq> 0"
    using assms by (simp add: sint_zero_iff)
  have "\<bar>sint x sdiv sint y\<bar> = \<bar>sint x\<bar> div \<bar>sint y\<bar>"
    using y by (simp add: signed_divide_int_def abs_mult abs_sgn_eq abs_of_nonneg div_int_pos_iff) auto
  moreover have "\<bar>sint x\<bar> div \<bar>sint y\<bar> < ?N" if "\<not> (sint x = - ?N \<and> \<bar>sint y\<bar> = 1)"
  proof (cases "\<bar>sint y\<bar> = 1")
    case True
    then show ?thesis using r that by auto
  next
    case False
    then have "\<bar>sint x\<bar> div \<bar>sint y\<bar> \<le> \<bar>sint x\<bar> div 2"
      using y by (intro zdiv_mono2) auto
    also have "\<dots> < ?N"
      using r by auto
    finally show ?thesis .
  qed
  moreover have "sint x sdiv sint y = ?N" if "sint x = - ?N" "sint y = - 1"
    using that by (simp add: signed_divide_int_def)
  moreover have "sint x sdiv sint y = - ?N" if "sint x = - ?N" "sint y = 1"
    using that by (simp add: signed_divide_int_def)
  ultimately have "sint x sdiv sint y = ?N \<longleftrightarrow> sint x = - ?N \<and> sint y = - 1"
    by (smt (verit) zero_less_power)
  then show ?thesis
    using y by (simp add: sdiv_toward_zero)
qed

lemma sdiv_nonneg: "0 \<le> k \<Longrightarrow> 0 \<le> l \<Longrightarrow> k sdiv l = k div (l :: int)"
  by (cases "k = 0 \<or> l = 0") (auto simp: signed_divide_int_def)

lemma uint_sdiv: "word_of_int (uint x sdiv uint y) = (x div y :: 'a::len word)"
  by (simp add: sdiv_nonneg word_div_def)

lemma uint_smod: "y \<noteq> 0 \<Longrightarrow> word_of_int (uint x smod uint y) = (x mod y :: 'a::len word)"
proof -
  assume "y \<noteq> 0"
  have "uint x smod uint y = uint x mod uint y"
    by (simp flip: minus_sdiv_mult_eq_smod minus_div_mult_eq_mod add: sdiv_nonneg)
  then show ?thesis
    by (simp add: word_mod_def)
qed

lemma smod_toward_zero: "l \<noteq> 0 \<Longrightarrow> k smod l = k - l * toward_zero (real_of_int k / real_of_int l)"
  using sdiv_mult_smod_eq [of k l] by (simp add: sdiv_toward_zero algebra_simps)

subsection \<open>The instructions\<close>

lemma less_cases: "k < Suc n \<longleftrightarrow> k = n \<or> k < n" for k n :: nat
  by auto

lemmas table_simps = dt_numeric_def dt_relops_def dt_integer_ops_def dt_float_ops_def dt_convert_ops_def

lemmas int_op_simps = s_add_def s_sub_def s_mul_def s_and_def s_or_def s_xor_def s_div_def s_rem_def s_shl_def s_shr_def
  s_eq_def s_ne_def s_lt_def s_gt_def s_le_def s_ge_def s_eqz_def

lemma word_int_ops:
  "word_of_int (sint x + sint y) = (x + y :: 'a::len word)" "word_of_int (sint x - sint y) = (x - y :: 'a::len word)"
  "word_of_int (sint x * sint y) = (x * y :: 'a::len word)"
  "word_of_int (sint x AND sint y) = (x AND y :: 'a::len word)" "word_of_int (sint x OR sint y) = (x OR y :: 'a::len word)"
  "word_of_int (sint x XOR sint y) = (x XOR y :: 'a::len word)"
  by (simp_all flip: wi_hom_add wi_hom_sub wi_hom_mult) (rule bit_word_eqI, simp add: bit_simps)+

text \<open>A division of either width, against its reference definition.\<close>

lemma div_implements:
  fixes x y :: "'a::len word"
  assumes "\<And>k. get (st k) = (word_of_int k :: 'a word)" and h: "h = LENGTH('a) - 1"
  shows "implements get (if sint x = - (2 ^ h) \<and> sint y = - 1 \<or> sint y = 0 then Inl E_general
      else Inr (st (sint x sdiv sint y))) (idiv_s x y)"
    "implements get (if uint y = 0 then Inl E_general else Inr (st (uint x sdiv uint y))) (if y = 0 then None else Some (x div y))"
    "implements get (if sint x = - (2 ^ h) \<and> sint y = - 1 then Inr (st 0)
      else if sint y = 0 then Inl E_general else Inr (st (sint x smod sint y))) (irem_s x y)"
    "implements get (if uint y = 0 then Inl E_general else Inr (st (uint x smod uint y))) (if y = 0 then None else Some (x mod y))"
proof -
  note ax = assms(1) idiv_s_def irem_s_def Let_def sint_zero_iff uint_sdiv uint_smod uint_0_iff
  show "implements get (if sint x = - (2 ^ h) \<and> sint y = - 1 \<or> sint y = 0 then Inl E_general
      else Inr (st (sint x sdiv sint y))) (idiv_s x y)"
    using quotient_overflow [of y x] h by (cases "y = 0") (auto simp: ax sdiv_toward_zero simp del: of_int_sint)
  show "implements get (if uint y = 0 then Inl E_general else Inr (st (uint x sdiv uint y))) (if y = 0 then None else Some (x div y))"
    by (simp add: ax)
  show "implements get (if uint y = 0 then Inl E_general else Inr (st (uint x smod uint y))) (if y = 0 then None else Some (x mod y))"
    by (simp add: ax)
  show "implements get (if sint x = - (2 ^ h) \<and> sint y = - 1 then Inr (st 0)
      else if sint y = 0 then Inl E_general else Inr (st (sint x smod sint y))) (irem_s x y)"
  proof (cases "sint x = - (2 ^ h) \<and> sint y = - 1")
    case True
    then have "y \<noteq> 0" "sint x smod sint y = 0"
      by (auto simp: signed_modulo_int_def)
    then show ?thesis
      using True smod_toward_zero [of "sint y" "sint x"] by (simp add: irem_s_def assms(1) sint_zero_iff del: of_int_sint)
  next
    case False
    then show ?thesis
      by (auto simp: ax smod_toward_zero simp del: of_int_sint)
  qed
qed

lemma int_lookup:
  "map_of (dt_numeric mc) 0x45 = Some (UNOP (st_i32 mc) get_i32 s_eqz)"
  "map_of (dt_numeric mc) 0x46 = Some (RELOP mc get_i32 s_eq)"
  "map_of (dt_numeric mc) 0x47 = Some (RELOP mc get_i32 s_ne)"
  "map_of (dt_numeric mc) 0x48 = Some (RELOP mc get_i32 s_lt)"
  "map_of (dt_numeric mc) 0x49 = Some (RELOP mc get_u32 s_lt)"
  "map_of (dt_numeric mc) 0x4a = Some (RELOP mc get_i32 s_gt)"
  "map_of (dt_numeric mc) 0x4b = Some (RELOP mc get_u32 s_gt)"
  "map_of (dt_numeric mc) 0x4c = Some (RELOP mc get_i32 s_le)"
  "map_of (dt_numeric mc) 0x4d = Some (RELOP mc get_u32 s_le)"
  "map_of (dt_numeric mc) 0x4e = Some (RELOP mc get_i32 s_ge)"
  "map_of (dt_numeric mc) 0x4f = Some (RELOP mc get_u32 s_ge)"
  "map_of (dt_numeric mc) 0x50 = Some (UNOP (st_i64 mc) get_i64 s_eqz)"
  "map_of (dt_numeric mc) 0x51 = Some (RELOP mc get_i64 s_eq)"
  "map_of (dt_numeric mc) 0x52 = Some (RELOP mc get_i64 s_ne)"
  "map_of (dt_numeric mc) 0x53 = Some (RELOP mc get_i64 s_lt)"
  "map_of (dt_numeric mc) 0x54 = Some (RELOP mc get_u64 s_lt)"
  "map_of (dt_numeric mc) 0x55 = Some (RELOP mc get_i64 s_gt)"
  "map_of (dt_numeric mc) 0x56 = Some (RELOP mc get_u64 s_gt)"
  "map_of (dt_numeric mc) 0x57 = Some (RELOP mc get_i64 s_le)"
  "map_of (dt_numeric mc) 0x58 = Some (RELOP mc get_u64 s_le)"
  "map_of (dt_numeric mc) 0x59 = Some (RELOP mc get_i64 s_ge)"
  "map_of (dt_numeric mc) 0x5a = Some (RELOP mc get_u64 s_ge)"
  "map_of (dt_numeric mc) 0x67 = Some (UNOP (st_i32 mc) get_w32 s_clz32)"
  "map_of (dt_numeric mc) 0x68 = Some (UNOP (st_i32 mc) get_w32 s_ctz32)"
  "map_of (dt_numeric mc) 0x69 = Some (UNOP (st_i32 mc) get_w32 s_popcnt32)"
  "map_of (dt_numeric mc) 0x6a = Some (BINOP (st_i32 mc) get_i32 s_add mc)"
  "map_of (dt_numeric mc) 0x6b = Some (BINOP (st_i32 mc) get_i32 s_sub mc)"
  "map_of (dt_numeric mc) 0x6c = Some (BINOP (st_i32 mc) get_i32 s_mul mc)"
  "map_of (dt_numeric mc) 0x6d = Some (Binop (i32_div_s mc))"
  "map_of (dt_numeric mc) 0x6e = Some (Binop (i32_div_u mc))"
  "map_of (dt_numeric mc) 0x6f = Some (Binop (i32_rem_s mc))"
  "map_of (dt_numeric mc) 0x70 = Some (Binop (i32_rem_u mc))"
  "map_of (dt_numeric mc) 0x71 = Some (BINOP (st_i32 mc) get_i32 s_and mc)"
  "map_of (dt_numeric mc) 0x72 = Some (BINOP (st_i32 mc) get_i32 s_or mc)"
  "map_of (dt_numeric mc) 0x73 = Some (BINOP (st_i32 mc) get_i32 s_xor mc)"
  "map_of (dt_numeric mc) 0x74 = Some (BINOP (st_i32 mc) get_i32 (s_shl mc 32) mc)"
  "map_of (dt_numeric mc) 0x75 = Some (BINOP (st_i32 mc) get_i32 (s_shr mc 32) mc)"
  "map_of (dt_numeric mc) 0x76 = Some (BINOP (st_i32 mc) get_u32 (s_shr mc 32) mc)"
  "map_of (dt_numeric mc) 0x77 = Some (BINOP (st_w32 mc) get_w32 s_rotl32 mc)"
  "map_of (dt_numeric mc) 0x78 = Some (BINOP (st_w32 mc) get_w32 s_rotr32 mc)"
  "map_of (dt_numeric mc) 0x79 = Some (UNOP (st_i64 mc) get_w64 s_clz64)"
  "map_of (dt_numeric mc) 0x7a = Some (UNOP (st_i64 mc) get_w64 s_ctz64)"
  "map_of (dt_numeric mc) 0x7b = Some (UNOP (st_i64 mc) get_w64 s_popcnt64)"
  "map_of (dt_numeric mc) 0x7c = Some (BINOP (st_i64 mc) get_i64 s_add mc)"
  "map_of (dt_numeric mc) 0x7d = Some (BINOP (st_i64 mc) get_i64 s_sub mc)"
  "map_of (dt_numeric mc) 0x7e = Some (BINOP (st_i64 mc) get_i64 s_mul mc)"
  "map_of (dt_numeric mc) 0x7f = Some (Binop i64_div_s)"
  "map_of (dt_numeric mc) 0x80 = Some (Binop i64_div_u)"
  "map_of (dt_numeric mc) 0x81 = Some (Binop i64_rem_s)"
  "map_of (dt_numeric mc) 0x82 = Some (Binop i64_rem_u)"
  "map_of (dt_numeric mc) 0x83 = Some (BINOP (st_i64 mc) get_i64 s_and mc)"
  "map_of (dt_numeric mc) 0x84 = Some (BINOP (st_i64 mc) get_i64 s_or mc)"
  "map_of (dt_numeric mc) 0x85 = Some (BINOP (st_i64 mc) get_i64 s_xor mc)"
  "map_of (dt_numeric mc) 0x86 = Some (BINOP (st_i64 mc) get_i64 (s_shl mc 64) mc)"
  "map_of (dt_numeric mc) 0x87 = Some (BINOP (st_i64 mc) get_i64 (s_shr mc 64) mc)"
  "map_of (dt_numeric mc) 0x88 = Some (BINOP (st_i64 mc) get_u64 (s_shr mc 64) mc)"
  "map_of (dt_numeric mc) 0x89 = Some (BINOP (st_w64 mc) get_w64 s_rotl64 mc)"
  "map_of (dt_numeric mc) 0x8a = Some (BINOP (st_w64 mc) get_w64 s_rotr64 mc)"
  by (simp_all add: table_simps)

definition binop_ok :: "machine \<Rightarrow> u8 \<Rightarrow> (value_u \<Rightarrow> 'a::len word) \<Rightarrow> nat \<Rightarrow> bool" where
  "binop_ok mc base get k \<longleftrightarrow>
     (\<exists>f. map_of (dt_numeric mc) (base + of_nat k) = Some (Binop f) \<and>
        (\<forall>v1 v2. implements get (f v1 v2) (ibinop k (get v1) (get v2))))"

definition relop_ok :: "machine \<Rightarrow> u8 \<Rightarrow> (value_u \<Rightarrow> 'a::len word) \<Rightarrow> nat \<Rightarrow> bool" where
  "relop_ok mc base get k \<longleftrightarrow>
     (\<exists>f. map_of (dt_numeric mc) (base + of_nat k) = Some (Binop f) \<and>
        (\<forall>v1 v2. implements get_w32 (f v1 v2) (Some (of_bool (irelop k (get v1) (get v2))))))"

definition unop_ok :: "machine \<Rightarrow> u8 \<Rightarrow> (value_u \<Rightarrow> 'a::len word) \<Rightarrow> nat \<Rightarrow> bool" where
  "unop_ok mc base get k \<longleftrightarrow>
     (\<exists>f. map_of (dt_numeric mc) (base + of_nat k) = Some (Unop f) \<and>
        (\<forall>v. implements get (f v) (Some (of_nat (iunop k (get v))))))"

lemma sint_eq_iff: "sint x = sint y \<longleftrightarrow> x = (y :: 'a::len word)"
  by (metis signed_word_eqI)

lemma word_order_int: "(x :: 'a::len word) < y \<longleftrightarrow> uint x < uint y" "x \<le> y \<longleftrightarrow> uint x \<le> uint y"
  by (simp_all add: word_less_def word_le_def)

lemma bool_word [simp]: "word_of_int (of_bool b) = (of_bool b :: 'a::len word)"
  by (cases b) simp_all

lemma binops_i32:
  assumes "mc_masks mc"
  shows "\<forall>k < 15. binop_ok mc 0x6a get_w32 k"
proof -
  have m: "shift_count mc 32 n = nat (n mod int 32)" for n
    using assms by (simp add: shift_count_masks)
  have c: "nat (sint (y :: u32) mod 32) = unat y mod 32" "nat (uint y mod 32) = unat y mod 32" for y
    using count_sint [of 32 y] count_uint [of y 32] by simp_all
  have d: "implements get_w32 (i32_div_s mc v1 v2) (idiv_s (get_w32 v1) (get_w32 v2))"
      "implements get_w32 (i32_div_u mc v1 v2) (if get_w32 v2 = 0 then None else Some (get_w32 v1 div get_w32 v2))"
      "implements get_w32 (i32_rem_s mc v1 v2) (irem_s (get_w32 v1) (get_w32 v2))"
      "implements get_w32 (i32_rem_u mc v1 v2) (if get_w32 v2 = 0 then None else Some (get_w32 v1 mod get_w32 v2))" for v1 v2
    using div_implements [where get = get_w32 and st = "st_i32 mc (mc_undef mc)" and x = "get_w32 v1" and y = "get_w32 v2" and h = 31, OF get_st_i32]
    by (simp_all only: i32_div_s_def i32_div_u_def i32_rem_s_def i32_rem_u_def get_i32_w32 s_div_def s_rem_def len_simps)
  show ?thesis
    by (simp add: numeral_eq_Suc All_less_Suc)
      (simp add: binop_ok_def ibinop_def int_lookup BINOP_def slot_simps int_op_simps word_int_ops d m c rotations st_w32_def [symmetric]
        word_of_int_push_bit word_of_int_drop_bit_sint word_of_int_drop_bit_uint)
qed

lemma binops_i64:
  assumes "mc_masks mc"
  shows "\<forall>k < 15. binop_ok mc 0x7c get_w64 k"
proof -
  have m: "shift_count mc 64 n = nat (n mod int 64)" for n
    using assms by (simp add: shift_count_masks)
  have c: "nat (sint (y :: u64) mod 64) = unat y mod 64" "nat (uint y mod 64) = unat y mod 64" for y
    using count_sint [of 64 y] count_uint [of y 64] by simp_all
  have d: "implements get_w64 (i64_div_s v1 v2) (idiv_s v1 v2)"
      "implements get_w64 (i64_div_u v1 v2) (if v2 = 0 then None else Some (v1 div v2))"
      "implements get_w64 (i64_rem_s v1 v2) (irem_s v1 v2)"
      "implements get_w64 (i64_rem_u v1 v2) (if v2 = 0 then None else Some (v1 mod v2))" for v1 v2
    using div_implements [where get = get_w64 and st = word_of_int and x = v1 and y = v2 and h = 63, OF get_w64_def]
    by (simp_all only: i64_div_s_def i64_div_u_def i64_rem_s_def i64_rem_u_def get_i64_def get_u64_def s_div_def s_rem_def len_simps of_int_0)
  have d': "implements get_w64 (i64_div_u v1 0) None" "implements get_w64 (i64_rem_u v1 0) None"
      "v2 \<noteq> 0 \<Longrightarrow> implements get_w64 (i64_div_u v1 v2) (Some (v1 div v2))"
      "v2 \<noteq> 0 \<Longrightarrow> implements get_w64 (i64_rem_u v1 v2) (Some (v1 mod v2))" for v1 v2
    using d(2,4) [of v1 0] d(2,4) [of v1 v2] by simp_all
  show ?thesis
    by (simp add: numeral_eq_Suc All_less_Suc)
      (simp add: binop_ok_def ibinop_def int_lookup BINOP_def slot_simps st_w64_def int_op_simps word_int_ops d d' m c rotations
        word_of_int_push_bit word_of_int_drop_bit_sint word_of_int_drop_bit_uint)
qed

lemma relops_int:
  "\<forall>k < 10. relop_ok mc 0x46 get_w32 k" "\<forall>k < 10. relop_ok mc 0x51 get_w64 k"
  by (simp_all add: numeral_eq_Suc All_less_Suc)
    (simp_all add: relop_ok_def irelop_def int_lookup RELOP_def BINOP_def slot_simps int_op_simps word_order_int sint_eq_iff)

lemma bit_counts:
  "s_clz32 x = int (iunop 0 x)" "s_ctz32 x = int (iunop 1 x)" "s_popcnt32 x = int (iunop 2 x)"
  "s_clz64 y = int (iunop 0 y)" "s_ctz64 y = int (iunop 1 y)" "s_popcnt64 y = int (iunop 2 y)"
proof -
  have z: "(LEAST n. (0 :: nat) < 2 ^ n) = 0" "Max {n. n \<le> (m :: nat)} = m" for m
    by (rule Least_equality, simp_all) (rule Max_eqI, simp_all)
  show "s_clz32 x = int (iunop 0 x)" "s_clz64 y = int (iunop 0 y)"
    by (simp_all add: s_clz32_def s_clz64_def iunop_def clz_correct z)
  show "s_ctz32 x = int (iunop 1 x)" "s_ctz64 y = int (iunop 1 y)"
    by (simp_all add: s_ctz32_def s_ctz64_def iunop_def ctz_correct z)
  show "s_popcnt32 x = int (iunop 2 x)" "s_popcnt64 y = int (iunop 2 y)"
    by (simp_all add: s_popcnt32_def s_popcnt64_def iunop_def popcnt_correct)
qed

lemma unops_int:
  "\<forall>k < 3. unop_ok mc 0x67 get_w32 k" "\<forall>k < 3. unop_ok mc 0x79 get_w64 k"
  by (simp_all add: numeral_eq_Suc All_less_Suc)
    (simp_all add: unop_ok_def int_lookup UNOP_def slot_simps bit_counts [simplified numeral_2_eq_2])

section \<open>Conversions to integers\<close>

subsection \<open>What is not a number\<close>

lemma decode_NaN:
  assumes "0 < e" "0 \<le> n"
  shows "fp_decode e m n = NaN \<longleftrightarrow>
    n AND push_bit m (mask e) = push_bit m (mask e) \<and> n AND mask (e + m) \<noteq> push_bit m (mask e)"
proof -
  let ?x = "n div 2 ^ m mod 2 ^ e" and ?f = "n mod 2 ^ m"
  have x: "n AND push_bit m (mask e) = ?x * 2 ^ m"
  proof -
    have "n AND push_bit m (mask e) = push_bit m (take_bit e (drop_bit m n))"
      by (rule bit_eqI) (auto simp: bit_simps)
    then show ?thesis
      by (simp add: push_bit_eq_mult take_bit_eq_mod drop_bit_eq_div)
  qed
  have f: "n AND mask (e + m) = ?x * 2 ^ m + ?f"
  proof -
    have "n AND mask (e + m) = n mod (2 ^ m * 2 ^ e)"
      by (simp add: take_bit_eq_mask [symmetric] take_bit_eq_mod power_add mult.commute)
    then show ?thesis
      using zmod_zmult2_eq [of "2 ^ e" n "2 ^ m"] by (simp add: mult.commute)
  qed
  have "push_bit m (mask e) = (2 ^ e - 1) * (2 :: int) ^ m"
    by (simp add: push_bit_eq_mult mask_eq_exp_minus_1)
  then show ?thesis
    unfolding x f by (auto simp: fp_decode_def Let_def)
qed

lemma isnan_iff: "s_isnan32 v \<longleftrightarrow> f32_of v = NaN" "s_isnan64 w \<longleftrightarrow> f64_of w = NaN"
proof -
  have 32: "push_bit 23 (mask 8) = (0x7f800000 :: int)" "mask 31 = (0x7fffffff :: int)"
    and 64: "push_bit 52 (mask 11) = (0x7ff0000000000000 :: int)" "mask 63 = (0x7fffffffffffffff :: int)"
    by (simp_all add: push_bit_eq_mult mask_eq_exp_minus_1)
  have "s_isnan32 v \<longleftrightarrow> uint v AND 0x7f800000 = 0x7f800000 \<and> uint v AND 0x7fffffff \<noteq> 0x7f800000"
    by (simp add: s_isnan32_def word_uint_eq_iff uint_and)
  then show "s_isnan32 v \<longleftrightarrow> f32_of v = NaN"
    using decode_NaN [of 8 "uint v" 23] by (simp add: f32_of_def 32)
  have "s_isnan64 w \<longleftrightarrow> uint w AND 0x7ff0000000000000 = 0x7ff0000000000000 \<and> uint w AND 0x7fffffffffffffff \<noteq> 0x7ff0000000000000"
    by (simp add: s_isnan64_def word_uint_eq_iff uint_and)
  then show "s_isnan64 w \<longleftrightarrow> f64_of w = NaN"
    using decode_NaN [of 11 "uint w" 52] by (simp add: f64_of_def 64)
qed

subsection \<open>The range of a conversion\<close>

text \<open>The truncated value when it is in the range, and the value that saturation gives.\<close>

definition trunc_spec :: "int \<Rightarrow> int \<Rightarrow> fp \<Rightarrow> int option" where
  "trunc_spec lo hi x =
     (case x of Fin s a e \<Rightarrow>
        let k = toward_zero (fin_val s a e) in if lo \<le> k \<and> k \<le> hi then Some k else None
      | _ \<Rightarrow> None)"

definition sat_spec :: "int \<Rightarrow> int \<Rightarrow> fp \<Rightarrow> int" where
  "sat_spec lo hi x =
     (case x of NaN \<Rightarrow> 0 | Inf s \<Rightarrow> (if s then lo else hi)
      | Fin s a e \<Rightarrow> max lo (min hi (toward_zero (fin_val s a e))))"

lemma fin_val_lit: "fin_val (k < 0) \<bar>k\<bar> 0 = of_int k"
  by (simp add: fin_val_def)

lemma lit_order:
  "fp_lt (Fin s a x) (lit k) \<longleftrightarrow> fin_val s a x < of_int k" "fp_le (Fin s a x) (lit k) \<longleftrightarrow> fin_val s a x \<le> of_int k"
  "fp_le (lit k) (Fin s a x) \<longleftrightarrow> of_int k \<le> fin_val s a x"
  unfolding lit_def fp_lt_val fp_le_val fin_val_lit by (rule refl)+

lemma lit_inf:
  "fp_lt (Inf s) (lit k) = s" "fp_le (Inf s) (lit k) = s" "fp_le (lit k) (Inf s) = (\<not> s)"
  "\<not> fp_lt NaN (lit k)" "\<not> fp_le NaN (lit k)" "\<not> fp_le (lit k) NaN"
  by (simp_all add: lit_def fp_le_def)

lemma decode_bound: "fp_decode e m n = Fin s a x \<Longrightarrow> 0 \<le> a \<and> a < 2 ^ (m + 1)"
proof -
  have p: "(0 :: int) < 2 ^ m"
    by simp
  have "n mod 2 ^ m < 2 * 2 ^ m"
    using pos_mod_bound [OF p, of n] p by linarith
  then show "fp_decode e m n = Fin s a x \<Longrightarrow> ?thesis"
    by (auto simp: fp_decode_def Let_def split: if_splits)
qed

text \<open>A float that is larger than its precision is an integer.\<close>

lemma large_is_integer:
  assumes "0 \<le> a" "a < 2 ^ (m + 1)" "m + 1 \<le> h" "2 ^ h < \<bar>fin_val s a x\<bar>"
  shows "\<exists>k. fin_val s a x = of_int k"
proof -
  have "0 \<le> x"
  proof (rule ccontr)
    assume "\<not> 0 \<le> x"
    then have "(2 :: real) powi x \<le> 1"
      using power_int_increasing [of x 0 "2 :: real"] by simp
    then have "\<bar>fin_val s a x\<bar> \<le> of_int a"
      using assms(1) by (auto simp: fin_val_def abs_mult mult_left_le)
    also have "of_int a < (2 :: real) ^ (m + 1)"
      using assms(2) by (metis of_int_less_iff of_int_numeral of_int_power)
    also have "\<dots> \<le> 2 ^ h"
      using assms(3) by (intro power_increasing) auto
    finally show False
      using assms(4) by simp
  qed
  then have "fin_val s a x = of_int (scaled s a (nat x))"
    using scaled_val [of 0 x s a] by simp
  then show ?thesis by blast
qed

lemma low_guard:
  assumes "0 \<le> a" "a < 2 ^ (m + 1)" "m + 1 \<le> h"
  shows "- (2 ^ h) \<le> toward_zero (fin_val s a x) \<longleftrightarrow> \<not> fin_val s a x < - (2 ^ h)"
proof -
  let ?r = "fin_val s a x"
  have "?r \<le> - (2 ^ h) - 1" if lt: "?r < - (2 ^ h)"
  proof -
    have "2 ^ h < \<bar>?r\<bar>"
      using lt by linarith
    then obtain k where k: "?r = of_int k"
      using large_is_integer [OF assms] by blast
    then have "real_of_int k < real_of_int (- (2 ^ h))"
      using lt by simp
    then have "k \<le> - (2 ^ h) - 1"
      unfolding of_int_less_iff by simp
    then have "real_of_int k \<le> real_of_int (- (2 ^ h) - 1)"
      by (simp only: of_int_le_iff)
    then show ?thesis
      by (simp add: k)
  qed
  then show ?thesis
    by (auto simp: le_toward_zero)
qed

text \<open>The guards of the code are exact.\<close>

definition low_ok :: "int \<Rightarrow> (fp \<Rightarrow> bool) \<Rightarrow> fp \<Rightarrow> bool" where
  "low_ok lo low x \<longleftrightarrow> \<not> low NaN \<and> low (Inf True) \<and> \<not> low (Inf False) \<and>
     (case x of Fin s a e \<Rightarrow> lo \<le> toward_zero (fin_val s a e) \<longleftrightarrow> \<not> low x | _ \<Rightarrow> True)"

lemma guards_exact:
  assumes "x = Fin s a e" "0 \<le> a" "low_ok lo low x" "conv = fp_to_int clo chi x" "clo \<le> lo" "hi \<le> chi" "0 \<le> hi"
  shows "lo \<le> toward_zero (fin_val s a e) \<longleftrightarrow> \<not> low x" "toward_zero (fin_val s a e) \<le> hi \<longleftrightarrow> \<not> fp_le (lit (hi + 1)) x"
    "\<not> low x \<Longrightarrow> \<not> fp_le (lit (hi + 1)) x \<Longrightarrow> conv = Inr (toward_zero (fin_val s a e))"
proof -
  show l: "lo \<le> toward_zero (fin_val s a e) \<longleftrightarrow> \<not> low x"
    using assms(1,3) by (simp add: low_ok_def)
  show h: "toward_zero (fin_val s a e) \<le> hi \<longleftrightarrow> \<not> fp_le (lit (hi + 1)) x"
    using assms(1,7) by (simp add: toward_zero_le lit_order not_le)
  show "conv = Inr (toward_zero (fin_val s a e))" if "\<not> low x" "\<not> fp_le (lit (hi + 1)) x"
    using that l h assms(1,4-6) fp_to_int_val [OF assms(2), of clo chi s e] by (simp add: Let_def del: fp_to_int.simps)
qed

lemma trunc_trap_correct:
  assumes x: "\<And>s a e. x = Fin s a e \<Longrightarrow> 0 \<le> a" and low: "low_ok lo low x"
    and conv: "conv = fp_to_int clo chi x" "clo \<le> lo" "hi \<le> chi" "0 \<le> hi"
    and get: "\<And>k. get (st k) = word_of_int k"
  shows "implements get (trunc_trap (x = NaN \<or> low x \<or> fp_le (lit (hi + 1)) x) conv st) (map_option word_of_int (trunc_spec lo hi x))"
proof (cases x)
  case (Fin s a e)
  note g = guards_exact [OF Fin x [OF Fin] low conv(1-4)]
  show ?thesis
    using g get by (auto simp: trunc_trap_def trunc_spec_def Fin Let_def)
qed (use low in \<open>auto simp: trunc_trap_def trunc_spec_def low_ok_def lit_inf\<close>)

lemma trunc_sat_correct:
  assumes x: "\<And>s a e. x = Fin s a e \<Longrightarrow> 0 \<le> a" and low: "low_ok lo low x"
    and conv: "conv = fp_to_int clo chi x" "clo \<le> lo" "hi \<le> chi" "0 \<le> hi" "lo \<le> 0"
    and get: "\<And>k. get (st k) = word_of_int k"
  shows "implements get (trunc_sat (x = NaN) (low x) (fp_le (lit (hi + 1)) x) lo hi conv st) (Some (word_of_int (sat_spec lo hi x)))"
proof (cases x)
  case (Fin s a e)
  note g = guards_exact [OF Fin x [OF Fin] low conv(1-4)]
  show ?thesis
    using g get conv(4,5) by (auto simp: trunc_sat_def sat_spec_def Fin max_def min_def)
qed (use low get in \<open>auto simp: trunc_sat_def sat_spec_def low_ok_def lit_inf\<close>)

lemma trunc_sat_zero: "trunc_sat (nan \<or> low) False high 0 hi conv st = trunc_sat nan low high 0 hi conv st"
  by (simp add: trunc_sat_def)

lemma low_ok_le: "lo \<le> 0 \<Longrightarrow> low_ok lo (\<lambda>x. fp_le x (lit (lo - 1))) x"
  by (simp add: low_ok_def lit_inf lit_order le_toward_zero not_le split: fp.split)

lemma low_ok_f32: "24 \<le> h \<Longrightarrow> low_ok (- (2 ^ h)) (\<lambda>x. fp_lt x (lit (- (2 ^ h)))) (f32_of v)"
  using low_guard [of _ 23 h] by (auto simp: low_ok_def lit_inf lit_order f32_of_def split: fp.split dest: decode_bound)

lemma low_ok_f64: "53 \<le> h \<Longrightarrow> low_ok (- (2 ^ h)) (\<lambda>x. fp_lt x (lit (- (2 ^ h)))) (f64_of v)"
  using low_guard [of _ 52 h] by (auto simp: low_ok_def lit_inf lit_order f64_of_def split: fp.split dest: decode_bound)

definition trunc_ok :: "numop option \<Rightarrow> (value_u \<Rightarrow> 'a::len word) \<Rightarrow> (value_u \<Rightarrow> fp) \<Rightarrow> int \<Rightarrow> int \<Rightarrow> bool" where
  "trunc_ok oper get src lo hi \<longleftrightarrow>
     (\<exists>f. oper = Some (Unop f) \<and> (\<forall>v. implements get (f v) (map_option word_of_int (trunc_spec lo hi (src v)))))"

definition sat_ok :: "numop option \<Rightarrow> (value_u \<Rightarrow> 'a::len word) \<Rightarrow> (value_u \<Rightarrow> fp) \<Rightarrow> int \<Rightarrow> int \<Rightarrow> bool" where
  "sat_ok oper get src lo hi \<longleftrightarrow>
     (\<exists>f. oper = Some (Unop f) \<and> (\<forall>v. implements get (f v) (Some (word_of_int (sat_spec lo hi (src v))))))"

lemma ok_lookup:
  "trunc_ok (Some (Unop f)) get src lo hi \<longleftrightarrow> (\<forall>v. implements get (f v) (map_option word_of_int (trunc_spec lo hi (src v))))"
  "sat_ok (Some (Unop f)) get src lo hi \<longleftrightarrow> (\<forall>v. implements get (f v) (Some (word_of_int (sat_spec lo hi (src v)))))"
  by (simp_all add: trunc_ok_def sat_ok_def)

lemma trunc_lookup:
  "map_of (dt_numeric mc) 0xa8 = Some (Unop (i32_trunc_f32_s mc))"
  "map_of (dt_numeric mc) 0xa9 = Some (Unop (i32_trunc_f32_u mc))"
  "map_of (dt_numeric mc) 0xaa = Some (Unop (i32_trunc_f64_s mc))"
  "map_of (dt_numeric mc) 0xab = Some (Unop (i32_trunc_f64_u mc))"
  "map_of (dt_numeric mc) 0xae = Some (Unop (i64_trunc_f32_s mc))"
  "map_of (dt_numeric mc) 0xaf = Some (Unop (i64_trunc_f32_u mc))"
  "map_of (dt_numeric mc) 0xb0 = Some (Unop (i64_trunc_f64_s mc))"
  "map_of (dt_numeric mc) 0xb1 = Some (Unop (i64_trunc_f64_u mc))"
  "map_of (dt_sat_ops mc) 0 = Some (Unop (i32_trunc_sat_f32_s mc))"
  "map_of (dt_sat_ops mc) 1 = Some (Unop (i32_trunc_sat_f32_u mc))"
  "map_of (dt_sat_ops mc) 2 = Some (Unop (i32_trunc_sat_f64_s mc))"
  "map_of (dt_sat_ops mc) 3 = Some (Unop (i32_trunc_sat_f64_u mc))"
  "map_of (dt_sat_ops mc) 4 = Some (Unop (i64_trunc_sat_f32_s mc))"
  "map_of (dt_sat_ops mc) 5 = Some (Unop (i64_trunc_sat_f32_u mc))"
  "map_of (dt_sat_ops mc) 6 = Some (Unop (i64_trunc_sat_f64_s mc))"
  "map_of (dt_sat_ops mc) 7 = Some (Unop (i64_trunc_sat_f64_u mc))"
  by (simp_all add: table_simps dt_sat_ops_def)

lemma decoded_nonneg: "f32_of v = Fin s a e \<Longrightarrow> 0 \<le> a" "f64_of w = Fin s a e \<Longrightarrow> 0 \<le> a"
  by (auto simp: f32_of_def f64_of_def dest: decode_bound)

lemma get_st_i64: "get_w64 (st_i64 mc old k) = word_of_int k"
  by (simp add: get_w64_def st_i64_def)

lemmas get_st = get_st_i32 get_st_i64

lemmas conv_defs = s_truncf32i_def s_truncf64i_def s_truncf32u_def s_truncf64u_def isnan_iff trunc_sat_zero

lemma i32_trunc_f32_s_ok: "implements get_w32 (i32_trunc_f32_s mc v) (map_option word_of_int (trunc_spec (- (2 ^ 31)) (2 ^ 31 - 1) (f32_of (get_f32 v))))"
  using trunc_trap_correct [where x = "f32_of (get_f32 v)" and lo = "- (2 ^ 31)" and hi = "2 ^ 31 - 1" and clo = "- (2 ^ 63)" and chi = "2 ^ 63 - 1" and get = get_w32 and st = "st_i32 mc v",
    OF decoded_nonneg(1) low_ok_f32 [of 31] refl _ _ _ get_st_i32]
  by (simp add: i32_trunc_f32_s_def conv_defs)

lemma i32_trunc_f32_u_ok: "implements get_w32 (i32_trunc_f32_u mc v) (map_option word_of_int (trunc_spec (0) (2 ^ 32 - 1) (f32_of (get_f32 v))))"
  using trunc_trap_correct [where x = "f32_of (get_f32 v)" and lo = "0" and hi = "2 ^ 32 - 1" and clo = "0" and chi = "2 ^ 64 - 1" and get = get_w32 and st = "st_i32 mc v",
    OF decoded_nonneg(1) low_ok_le [of "0"] refl _ _ _ get_st_i32]
  by (simp add: i32_trunc_f32_u_def conv_defs)

lemma i32_trunc_f64_s_ok: "implements get_w32 (i32_trunc_f64_s mc v) (map_option word_of_int (trunc_spec (- (2 ^ 31)) (2 ^ 31 - 1) (f64_of (get_f64 v))))"
  using trunc_trap_correct [where x = "f64_of (get_f64 v)" and lo = "- (2 ^ 31)" and hi = "2 ^ 31 - 1" and clo = "- (2 ^ 63)" and chi = "2 ^ 63 - 1" and get = get_w32 and st = "st_i32 mc v",
    OF decoded_nonneg(2) low_ok_le [of "- (2 ^ 31)"] refl _ _ _ get_st_i32]
  by (simp add: i32_trunc_f64_s_def conv_defs)

lemma i32_trunc_f64_u_ok: "implements get_w32 (i32_trunc_f64_u mc v) (map_option word_of_int (trunc_spec (0) (2 ^ 32 - 1) (f64_of (get_f64 v))))"
  using trunc_trap_correct [where x = "f64_of (get_f64 v)" and lo = "0" and hi = "2 ^ 32 - 1" and clo = "0" and chi = "2 ^ 64 - 1" and get = get_w32 and st = "st_i32 mc v",
    OF decoded_nonneg(2) low_ok_le [of "0"] refl _ _ _ get_st_i32]
  by (simp add: i32_trunc_f64_u_def conv_defs)

lemma i64_trunc_f32_s_ok: "implements get_w64 (i64_trunc_f32_s mc v) (map_option word_of_int (trunc_spec (- (2 ^ 63)) (2 ^ 63 - 1) (f32_of (get_f32 v))))"
  using trunc_trap_correct [where x = "f32_of (get_f32 v)" and lo = "- (2 ^ 63)" and hi = "2 ^ 63 - 1" and clo = "- (2 ^ 63)" and chi = "2 ^ 63 - 1" and get = get_w64 and st = "st_i64 mc v",
    OF decoded_nonneg(1) low_ok_f32 [of 63] refl _ _ _ get_st_i64]
  by (simp add: i64_trunc_f32_s_def conv_defs)

lemma i64_trunc_f32_u_ok: "implements get_w64 (i64_trunc_f32_u mc v) (map_option word_of_int (trunc_spec (0) (2 ^ 64 - 1) (f32_of (get_f32 v))))"
  using trunc_trap_correct [where x = "f32_of (get_f32 v)" and lo = "0" and hi = "2 ^ 64 - 1" and clo = "0" and chi = "2 ^ 64 - 1" and get = get_w64 and st = "st_i64 mc v",
    OF decoded_nonneg(1) low_ok_le [of "0"] refl _ _ _ get_st_i64]
  by (simp add: i64_trunc_f32_u_def conv_defs)

lemma i64_trunc_f64_s_ok: "implements get_w64 (i64_trunc_f64_s mc v) (map_option word_of_int (trunc_spec (- (2 ^ 63)) (2 ^ 63 - 1) (f64_of (get_f64 v))))"
  using trunc_trap_correct [where x = "f64_of (get_f64 v)" and lo = "- (2 ^ 63)" and hi = "2 ^ 63 - 1" and clo = "- (2 ^ 63)" and chi = "2 ^ 63 - 1" and get = get_w64 and st = "st_i64 mc v",
    OF decoded_nonneg(2) low_ok_f64 [of 63] refl _ _ _ get_st_i64]
  by (simp add: i64_trunc_f64_s_def conv_defs)

lemma i64_trunc_f64_u_ok: "implements get_w64 (i64_trunc_f64_u mc v) (map_option word_of_int (trunc_spec (0) (2 ^ 64 - 1) (f64_of (get_f64 v))))"
  using trunc_trap_correct [where x = "f64_of (get_f64 v)" and lo = "0" and hi = "2 ^ 64 - 1" and clo = "0" and chi = "2 ^ 64 - 1" and get = get_w64 and st = "st_i64 mc v",
    OF decoded_nonneg(2) low_ok_le [of "0"] refl _ _ _ get_st_i64]
  by (simp add: i64_trunc_f64_u_def conv_defs)

lemma i32_trunc_sat_f32_s_ok: "implements get_w32 (i32_trunc_sat_f32_s mc v) (Some (word_of_int (sat_spec (- (2 ^ 31)) (2 ^ 31 - 1) (f32_of (get_f32 v)))))"
  using trunc_sat_correct [where x = "f32_of (get_f32 v)" and lo = "- (2 ^ 31)" and hi = "2 ^ 31 - 1" and clo = "- (2 ^ 63)" and chi = "2 ^ 63 - 1" and get = get_w32 and st = "st_i32 mc v",
    OF decoded_nonneg(1) low_ok_f32 [of 31] refl _ _ _ _ get_st_i32]
  by (simp add: i32_trunc_sat_f32_s_def conv_defs)

lemma i32_trunc_sat_f32_u_ok: "implements get_w32 (i32_trunc_sat_f32_u mc v) (Some (word_of_int (sat_spec (0) (2 ^ 32 - 1) (f32_of (get_f32 v)))))"
  using trunc_sat_correct [where x = "f32_of (get_f32 v)" and lo = "0" and hi = "2 ^ 32 - 1" and clo = "0" and chi = "2 ^ 64 - 1" and get = get_w32 and st = "st_i32 mc v",
    OF decoded_nonneg(1) low_ok_le [of "0"] refl _ _ _ _ get_st_i32]
  by (simp add: i32_trunc_sat_f32_u_def conv_defs)

lemma i32_trunc_sat_f64_s_ok: "implements get_w32 (i32_trunc_sat_f64_s mc v) (Some (word_of_int (sat_spec (- (2 ^ 31)) (2 ^ 31 - 1) (f64_of (get_f64 v)))))"
  using trunc_sat_correct [where x = "f64_of (get_f64 v)" and lo = "- (2 ^ 31)" and hi = "2 ^ 31 - 1" and clo = "- (2 ^ 63)" and chi = "2 ^ 63 - 1" and get = get_w32 and st = "st_i32 mc v",
    OF decoded_nonneg(2) low_ok_le [of "- (2 ^ 31)"] refl _ _ _ _ get_st_i32]
  by (simp add: i32_trunc_sat_f64_s_def conv_defs)

lemma i32_trunc_sat_f64_u_ok: "implements get_w32 (i32_trunc_sat_f64_u mc v) (Some (word_of_int (sat_spec (0) (2 ^ 32 - 1) (f64_of (get_f64 v)))))"
  using trunc_sat_correct [where x = "f64_of (get_f64 v)" and lo = "0" and hi = "2 ^ 32 - 1" and clo = "0" and chi = "2 ^ 64 - 1" and get = get_w32 and st = "st_i32 mc v",
    OF decoded_nonneg(2) low_ok_le [of "0"] refl _ _ _ _ get_st_i32]
  by (simp add: i32_trunc_sat_f64_u_def conv_defs)

lemma i64_trunc_sat_f32_s_ok: "implements get_w64 (i64_trunc_sat_f32_s mc v) (Some (word_of_int (sat_spec (- (2 ^ 63)) (2 ^ 63 - 1) (f32_of (get_f32 v)))))"
  using trunc_sat_correct [where x = "f32_of (get_f32 v)" and lo = "- (2 ^ 63)" and hi = "2 ^ 63 - 1" and clo = "- (2 ^ 63)" and chi = "2 ^ 63 - 1" and get = get_w64 and st = "st_i64 mc v",
    OF decoded_nonneg(1) low_ok_f32 [of 63] refl _ _ _ _ get_st_i64]
  by (simp add: i64_trunc_sat_f32_s_def conv_defs)

lemma i64_trunc_sat_f32_u_ok: "implements get_w64 (i64_trunc_sat_f32_u mc v) (Some (word_of_int (sat_spec (0) (2 ^ 64 - 1) (f32_of (get_f32 v)))))"
  using trunc_sat_correct [where x = "f32_of (get_f32 v)" and lo = "0" and hi = "2 ^ 64 - 1" and clo = "0" and chi = "2 ^ 64 - 1" and get = get_w64 and st = "st_i64 mc v",
    OF decoded_nonneg(1) low_ok_le [of "0"] refl _ _ _ _ get_st_i64]
  by (simp add: i64_trunc_sat_f32_u_def conv_defs)

lemma i64_trunc_sat_f64_s_ok: "implements get_w64 (i64_trunc_sat_f64_s mc v) (Some (word_of_int (sat_spec (- (2 ^ 63)) (2 ^ 63 - 1) (f64_of (get_f64 v)))))"
  using trunc_sat_correct [where x = "f64_of (get_f64 v)" and lo = "- (2 ^ 63)" and hi = "2 ^ 63 - 1" and clo = "- (2 ^ 63)" and chi = "2 ^ 63 - 1" and get = get_w64 and st = "st_i64 mc v",
    OF decoded_nonneg(2) low_ok_f64 [of 63] refl _ _ _ _ get_st_i64]
  by (simp add: i64_trunc_sat_f64_s_def conv_defs)

lemma i64_trunc_sat_f64_u_ok: "implements get_w64 (i64_trunc_sat_f64_u mc v) (Some (word_of_int (sat_spec (0) (2 ^ 64 - 1) (f64_of (get_f64 v)))))"
  using trunc_sat_correct [where x = "f64_of (get_f64 v)" and lo = "0" and hi = "2 ^ 64 - 1" and clo = "0" and chi = "2 ^ 64 - 1" and get = get_w64 and st = "st_i64 mc v",
    OF decoded_nonneg(2) low_ok_le [of "0"] refl _ _ _ _ get_st_i64]
  by (simp add: i64_trunc_sat_f64_u_def conv_defs)

lemmas trunc_instructions = i32_trunc_f32_s_ok i32_trunc_f32_u_ok i32_trunc_f64_s_ok i32_trunc_f64_u_ok i64_trunc_f32_s_ok i64_trunc_f32_u_ok i64_trunc_f64_s_ok i64_trunc_f64_u_ok i32_trunc_sat_f32_s_ok i32_trunc_sat_f32_u_ok i32_trunc_sat_f64_s_ok i32_trunc_sat_f64_u_ok i64_trunc_sat_f32_s_ok i64_trunc_sat_f32_u_ok i64_trunc_sat_f64_s_ok i64_trunc_sat_f64_u_ok

section \<open>Minimum and maximum\<close>

lemma fin_val_zero: "fin_val s a x = 0 \<longleftrightarrow> a = 0"
  by (simp add: fin_val_def)

lemma decode_zero:
  assumes "0 < e" "0 \<le> n" "n < 2 ^ (e + m + 1)"
  shows "fp_eq (fp_decode e m n) (Fin False 0 0) \<longleftrightarrow> n = 0 \<or> n = 2 ^ (e + m)"
proof -
  let ?x = "n div 2 ^ m mod 2 ^ e" and ?f = "n mod 2 ^ m"
  have split: "n mod 2 ^ (e + m) = 2 ^ m * ?x + ?f"
    using zmod_zmult2_eq [of "2 ^ e" n "2 ^ m"] by (simp add: power_add mult.commute)
  have z: "fp_eq (Fin s a x) (Fin False 0 0) \<longleftrightarrow> a = 0" for s a x
    using fin_val_zero [where s = s and a = a and x = x] by (simp add: fp_eq_val fin_val_def del: fp_eq.simps(2))
  have e: "(2 :: int) ^ e \<noteq> 1"
    using one_less_power [of "2 :: int" e] assms(1) by linarith
  have "fp_eq (fp_decode e m n) (Fin False 0 0) \<longleftrightarrow> ?x = 0 \<and> ?f = 0"
  proof (cases "?x = 2 ^ e - 1 \<or> ?x = 0")
    case True
    then show ?thesis
      using e by (auto simp: fp_decode_def Let_def z simp del: fp_eq.simps(2))
  next
    case False
    moreover have "0 \<le> ?f" "(0 :: int) < 2 ^ m"
      by simp_all
    then have "2 ^ m + ?f \<noteq> 0" by linarith
    ultimately show ?thesis
      by (simp add: fp_decode_def Let_def z del: fp_eq.simps(2))
  qed
  also have "\<dots> \<longleftrightarrow> n mod 2 ^ (e + m) = 0"
  proof -
    have "0 \<le> 2 ^ m * ?x" "0 \<le> ?f"
      by simp_all
    then have "2 ^ m * ?x + ?f = 0 \<longleftrightarrow> 2 ^ m * ?x = 0 \<and> ?f = 0"
      by linarith
    then show ?thesis
      unfolding split by simp
  qed
  also have "\<dots> \<longleftrightarrow> n = 0 \<or> n = 2 ^ (e + m)"
  proof
    assume "n mod 2 ^ (e + m) = 0"
    then obtain q where q: "n = 2 ^ (e + m) * q"
      by (auto simp: mod_eq_0_iff_dvd)
    moreover have pos: "(0 :: int) < 2 ^ (e + m)"
      by simp
    ultimately have "0 \<le> q" "q < 2"
      using assms(2,3) zero_le_mult_iff [of "2 ^ (e + m)" q] mult_less_cancel_left_pos [OF pos, of q 2]
      by (simp_all add: mult.commute not_le [symmetric])
    then have "q = 0 \<or> q = 1" by linarith
    then show "n = 0 \<or> n = 2 ^ (e + m)" using q by auto
  qed auto
  finally show ?thesis .
qed

lemma zero_iff:
  "fp_eq (f32_of x) (Fin False 0 0) \<longleftrightarrow> x = 0 \<or> x = 0x80000000"
  "fp_eq (f64_of y) (Fin False 0 0) \<longleftrightarrow> y = 0 \<or> y = 0x8000000000000000"
  using decode_zero [of 8 "uint x" 23] decode_zero [of 11 "uint y" 52] uint_lt2p [of x] uint_lt2p [of y]
  by (simp_all add: f32_of_def f64_of_def word_uint_eq_iff)

lemma fp_eq_refl: "fp_eq x x \<longleftrightarrow> x \<noteq> NaN"
  by (cases x) simp_all

lemma fp_linear: "x \<noteq> NaN \<Longrightarrow> y \<noteq> NaN \<Longrightarrow> fp_lt x y \<or> fp_le y x"
  by (cases x; cases y) (auto simp: fp_le_val fp_lt_val fp_le_def fp_eq_val simp del: fp_lt.simps(4) fp_eq.simps(2))

lemma fp_le_refl: "x \<noteq> NaN \<Longrightarrow> fp_le x x"
  by (simp add: fp_le_def fp_eq_refl)

lemma fp_lt_le: "fp_lt x y \<Longrightarrow> fp_le x y"
  by (simp add: fp_le_def)

lemma zeros_le: "fp_eq x (Fin False 0 0) \<Longrightarrow> fp_eq y (Fin False 0 0) \<Longrightarrow> fp_le x y"
  by (cases x; cases y) (auto simp: fp_le_val fp_eq_val simp del: fp_eq.simps(2))

text \<open>What a minimum of floats is: one of the two, not above either, and with both signs the negative zero.\<close>

definition is_min :: "('a::len word \<Rightarrow> fp) \<Rightarrow> 'a word \<Rightarrow> 'a word \<Rightarrow> 'a word \<Rightarrow> bool" where
  "is_min val x y r \<longleftrightarrow> (r = x \<or> r = y) \<and> fp_le (val r) (val x) \<and> fp_le (val r) (val y) \<and>
     (fp_eq (val x) (Fin False 0 0) \<and> fp_eq (val y) (Fin False 0 0) \<longrightarrow> r = x OR y)"

definition is_max :: "('a::len word \<Rightarrow> fp) \<Rightarrow> 'a word \<Rightarrow> 'a word \<Rightarrow> 'a word \<Rightarrow> bool" where
  "is_max val x y r \<longleftrightarrow> (r = x \<or> r = y) \<and> fp_le (val x) (val r) \<and> fp_le (val y) (val r) \<and>
     (fp_eq (val x) (Fin False 0 0) \<and> fp_eq (val y) (Fin False 0 0) \<longrightarrow> r = x AND y)"

lemma pick:
  assumes "val x \<noteq> NaN" "val y \<noteq> NaN" "fp_eq (val x) (Fin False 0 0) \<and> fp_eq (val y) (Fin False 0 0) \<Longrightarrow> z = x OR y \<and> z' = x AND y \<and> (z = x \<or> z = y) \<and> (z' = x \<or> z' = y)"
  shows "is_min val x y (if fp_eq (val x) (Fin False 0 0) \<and> fp_eq (val y) (Fin False 0 0) then z else if fp_lt (val x) (val y) then x else y)"
    "is_max val x y (if fp_eq (val x) (Fin False 0 0) \<and> fp_eq (val y) (Fin False 0 0) then z' else if fp_lt (val y) (val x) then x else y)"
  using assms fp_linear [of "val x" "val y"] fp_linear [of "val y" "val x"] zeros_le
  by (auto simp: is_min_def is_max_def fp_le_refl dest: fp_lt_le)

lemma min_max_numbers:
  "f32_of x \<noteq> NaN \<Longrightarrow> f32_of y \<noteq> NaN \<Longrightarrow> is_min f32_of x y (s_fmin32 x y) \<and> is_max f32_of x y (s_fmax32 x y)"
  "f64_of a \<noteq> NaN \<Longrightarrow> f64_of b \<noteq> NaN \<Longrightarrow> is_min f64_of a b (s_fmin64 a b) \<and> is_max f64_of a b (s_fmax64 a b)"
proof -
  assume n: "f32_of x \<noteq> NaN" "f32_of y \<noteq> NaN"
  have "(if x XOR y = 0 then x else 0x80000000) = x OR y \<and> (if x XOR y = 0 then x else 0) = x AND y \<and>
      ((if x XOR y = 0 then x else 0x80000000) = x \<or> (if x XOR y = 0 then x else 0x80000000) = y) \<and>
      ((if x XOR y = 0 then x else 0) = x \<or> (if x XOR y = 0 then x else 0) = y)"
    if "fp_eq (f32_of x) (Fin False 0 0) \<and> fp_eq (f32_of y) (Fin False 0 0)"
    using that by (auto simp: zero_iff)
  from pick [OF n this] show "is_min f32_of x y (s_fmin32 x y) \<and> is_max f32_of x y (s_fmax32 x y)"
    using n by (simp add: s_fmin32_def s_fmax32_def fp_eq_refl)
next
  assume n: "f64_of a \<noteq> NaN" "f64_of b \<noteq> NaN"
  have "(if a XOR b = 0 then a else 0x8000000000000000) = a OR b \<and> (if a XOR b = 0 then a else 0) = a AND b \<and>
      ((if a XOR b = 0 then a else 0x8000000000000000) = a \<or> (if a XOR b = 0 then a else 0x8000000000000000) = b) \<and>
      ((if a XOR b = 0 then a else 0) = a \<or> (if a XOR b = 0 then a else 0) = b)"
    if "fp_eq (f64_of a) (Fin False 0 0) \<and> fp_eq (f64_of b) (Fin False 0 0)"
    using that by (auto simp: zero_iff)
  from pick [OF n this] show "is_min f64_of a b (s_fmin64 a b) \<and> is_max f64_of a b (s_fmax64 a b)"
    using n by (simp add: s_fmin64_def s_fmax64_def fp_eq_refl)
qed


lemma min_max_not_a_number:
  assumes "f32_of x = NaN \<or> f32_of y = NaN"
  shows "s_fmin32 x y = 0x4eff8000" "s_fmax32 x y = 0x4eff8000" "f32_of 0x4eff8000 = Fin False 0xff8000 7"
proof -
  have "int_to_f32 (uint s_qnan32) = 0x4eff8000"
    by code_simp
  then show "s_fmin32 x y = 0x4eff8000" "s_fmax32 x y = 0x4eff8000"
    using assms by (auto simp: s_fmin32_def s_fmax32_def fp_eq_refl)
  show "f32_of 0x4eff8000 = Fin False 0xff8000 7"
    by code_simp
qed

section \<open>Properties\<close>

text \<open>A machine whose shifts take the count modulo the width, as the processors the program is built for do.\<close>

definition masking_machine :: machine where
  "masking_machine = \<lparr>mc_fpu = \<lparr>nan32 = (\<lambda>_ _. 0x7fc00000), nan64 = (\<lambda>_ _. 0x7ff8000000000000),
       nan_promote = (\<lambda>_. 0x7ff8000000000000), nan_demote = (\<lambda>_. 0x7fc00000)\<rparr>,
     mc_upper = (\<lambda>v. ucast (drop_bit 32 v)), mc_undef = 0, mc_count = (\<lambda>w n. nat (n mod int w))\<rparr>"



text \<open>
  C19. The sixteen instructions that convert a float to an integer are exact: the trapping ones
  return the float without its fraction when that is a value of the integer type and trap
  otherwise, also on infinities and on what is not a number; the saturating ones return the nearest
  value of the type, and 0 for what is not a number.
\<close>

theorem float_to_integer:
  "trunc_ok (map_of (dt_numeric mc) 0xa8) get_w32 (\<lambda>v. f32_of (get_f32 v)) (- (2 ^ 31)) (2 ^ 31 - 1) \<and>
   trunc_ok (map_of (dt_numeric mc) 0xa9) get_w32 (\<lambda>v. f32_of (get_f32 v)) 0 (2 ^ 32 - 1) \<and>
   trunc_ok (map_of (dt_numeric mc) 0xaa) get_w32 (\<lambda>v. f64_of (get_f64 v)) (- (2 ^ 31)) (2 ^ 31 - 1) \<and>
   trunc_ok (map_of (dt_numeric mc) 0xab) get_w32 (\<lambda>v. f64_of (get_f64 v)) 0 (2 ^ 32 - 1) \<and>
   trunc_ok (map_of (dt_numeric mc) 0xae) get_w64 (\<lambda>v. f32_of (get_f32 v)) (- (2 ^ 63)) (2 ^ 63 - 1) \<and>
   trunc_ok (map_of (dt_numeric mc) 0xaf) get_w64 (\<lambda>v. f32_of (get_f32 v)) 0 (2 ^ 64 - 1) \<and>
   trunc_ok (map_of (dt_numeric mc) 0xb0) get_w64 (\<lambda>v. f64_of (get_f64 v)) (- (2 ^ 63)) (2 ^ 63 - 1) \<and>
   trunc_ok (map_of (dt_numeric mc) 0xb1) get_w64 (\<lambda>v. f64_of (get_f64 v)) 0 (2 ^ 64 - 1) \<and>
   sat_ok (map_of (dt_sat_ops mc) 0) get_w32 (\<lambda>v. f32_of (get_f32 v)) (- (2 ^ 31)) (2 ^ 31 - 1) \<and>
   sat_ok (map_of (dt_sat_ops mc) 1) get_w32 (\<lambda>v. f32_of (get_f32 v)) 0 (2 ^ 32 - 1) \<and>
   sat_ok (map_of (dt_sat_ops mc) 2) get_w32 (\<lambda>v. f64_of (get_f64 v)) (- (2 ^ 31)) (2 ^ 31 - 1) \<and>
   sat_ok (map_of (dt_sat_ops mc) 3) get_w32 (\<lambda>v. f64_of (get_f64 v)) 0 (2 ^ 32 - 1) \<and>
   sat_ok (map_of (dt_sat_ops mc) 4) get_w64 (\<lambda>v. f32_of (get_f32 v)) (- (2 ^ 63)) (2 ^ 63 - 1) \<and>
   sat_ok (map_of (dt_sat_ops mc) 5) get_w64 (\<lambda>v. f32_of (get_f32 v)) 0 (2 ^ 64 - 1) \<and>
   sat_ok (map_of (dt_sat_ops mc) 6) get_w64 (\<lambda>v. f64_of (get_f64 v)) (- (2 ^ 63)) (2 ^ 63 - 1) \<and>
   sat_ok (map_of (dt_sat_ops mc) 7) get_w64 (\<lambda>v. f64_of (get_f64 v)) 0 (2 ^ 64 - 1)"
  by (simp only: trunc_lookup ok_lookup trunc_instructions simp_thms)

text \<open>
  C20. The minimum and the maximum of two floats that are numbers are one of the two operands,
  not above (not below) either of them, and of two zeros the minimum is the negative one and the maximum the
  positive one, if the operands have one.
\<close>

theorem float_min_max:
  assumes "f32_of x \<noteq> NaN" "f32_of y \<noteq> NaN" "f64_of a \<noteq> NaN" "f64_of b \<noteq> NaN"
  shows "is_min f32_of x y (s_fmin32 x y) \<and> is_max f32_of x y (s_fmax32 x y) \<and>
    is_min f64_of a b (s_fmin64 a b) \<and> is_max f64_of a b (s_fmax64 a b)"
  using min_max_numbers assms by simp

theorem float_min_max_witness:
  "is_min f32_of 0 0x80000000 (s_fmin32 0 0x80000000) \<and> s_fmin32 0 0x80000000 = 0x80000000 \<and>
   is_max f64_of 0x3ff0000000000000 0x7ff0000000000000 (s_fmax64 0x3ff0000000000000 0x7ff0000000000000)"
proof -
  have "f32_of 0 \<noteq> NaN" "f32_of 0x80000000 \<noteq> NaN" "f64_of 0x3ff0000000000000 \<noteq> NaN" "f64_of 0x7ff0000000000000 \<noteq> NaN"
    "s_fmin32 0 0x80000000 = 0x80000000"
    by code_simp+
  then show ?thesis
    using float_min_max [where x = 0 and y = "0x80000000" and a = "0x3ff0000000000000" and b = "0x7ff0000000000000"] by simp
qed

end
