(* ===== verification/Dt_Store.thy ===== *)
theory Dt_Store
  imports Dt_Run Runtime Dt_Numeric_Correct
begin

text \<open>
  What a call of the interpreter does to the store.  The locale \<open>vm_order\<close> is the interface between
  the instructions and a relation on vms: the relation is kept by each kind of write that an
  instruction makes, so it holds between the state before and the state after any call.  It has two
  interpretations, the extension of the store and the limits of memories and tables.
\<close>

section \<open>The interface\<close>

fun out_vm :: "dt_out \<Rightarrow> vm" where
  "out_vm (Next fr v) = v"
| "out_vm (Stop e v) = v"
| "out_vm (Finish fr v) = v"
| "out_vm (Invoke a args own fr v) = v"

abbreviation set_mem :: "memory_inst \<Rightarrow> vm \<Rightarrow> addr option \<Rightarrow> vm res" where
  "set_mem \<equiv> set_addr mi_memories mi_memories_update"

abbreviation set_tab :: "table_inst \<Rightarrow> vm \<Rightarrow> addr option \<Rightarrow> vm res" where
  "set_tab \<equiv> set_addr mi_tables mi_tables_update"

abbreviation set_glob :: "global_inst \<Rightarrow> vm \<Rightarrow> addr option \<Rightarrow> vm res" where
  "set_glob \<equiv> set_addr mi_globals mi_globals_update"

lemma vec_resize_data:
  "vec_resize am z x n = Inr y \<Longrightarrow> vdata y = take n (vdata x) @ replicate (n - length (vdata x)) z"
  by (auto simp: vec_resize_def vec_reserve_def res_simps split: if_splits)

lemma vec_resize_size: "vec_resize am z x n = Inr y \<Longrightarrow> vec_size y = n"
  by (drule vec_resize_data) simp

lemma vec_sets_size:
  "for_res i n (\<lambda>j d. vec_set d (f j) z) d = Inr d' \<Longrightarrow> vec_size d' = vec_size d"
  by (induction n arbitrary: i d) (auto simp: res_simps vec_set_def split: if_splits)

locale vm_order =
  fixes ms :: mods and le :: "vm \<Rightarrow> vm \<Rightarrow> bool"
  assumes le_refl: "le v v"
    and le_trans: "le v w \<Longrightarrow> le w u \<Longrightarrow> le v u"
    and write_memory: "at_addr mi_memories v a = Inr x \<Longrightarrow> vec_size d = vec_size (mdata x) \<Longrightarrow> vcap d = vcap (mdata x) \<Longrightarrow>
      set_mem (x\<lparr>mdata := d\<rparr>) v a = Inr w \<Longrightarrow> le v w"
    and grow_memory: "at_addr mi_memories v a = Inr x \<Longrightarrow> addr_mem ms v a = Inr mem \<Longrightarrow>
      vec_resize am 0 (mdata x) ((vec_size (mdata x) div WASM_PAGE_SIZE + n) * WASM_PAGE_SIZE) = Inr d \<Longrightarrow>
      vec_size (mdata x) div WASM_PAGE_SIZE + n \<le> unat (lim_max (mem_lim mem)) \<Longrightarrow>
      set_mem (x\<lparr>mdata := d\<rparr>) v a = Inr w \<Longrightarrow> le v w"
    and write_table: "at_addr mi_tables v a = Inr y \<Longrightarrow> vec_size t = vec_size (tdata y) \<Longrightarrow>
      set_tab (y\<lparr>tdata := t\<rparr>) v a = Inr w \<Longrightarrow> le v w"
    and grow_table: "at_addr mi_tables v a = Inr y \<Longrightarrow> addr_tab ms v a = Inr tab \<Longrightarrow>
      vec_size t = vec_size (tdata y) + n \<Longrightarrow> vec_size (tdata y) + n \<le> unat (lim_max (tab_lim tab)) \<Longrightarrow>
      set_tab (y\<lparr>tdata := t\<rparr>) v a = Inr w \<Longrightarrow> le v w"
    and write_global: "at_addr mi_globals v a = Inr g \<Longrightarrow> set_glob (g\<lparr>gvalue := z\<rparr>) v a = Inr w \<Longrightarrow> le v w"
    and element_dropped: "drop_element i k v = Inr w \<Longrightarrow> le v w"
    and data_dropped: "drop_data i k v = Inr w \<Longrightarrow> le v w"
begin

definition goes :: "vm \<Rightarrow> dt_out \<Rightarrow> bool" where
  "goes v out \<longleftrightarrow> le v (out_vm out)"

definition may_go :: "vm \<Rightarrow> dt_out option \<Rightarrow> bool" where
  "may_go v x \<longleftrightarrow> (\<forall>out. x = Some out \<longrightarrow> goes v out)"

lemma goes_simps [simp]:
  "goes v (Next fr w) \<longleftrightarrow> le v w" "goes v (Stop e w) \<longleftrightarrow> le v w" "goes v (Finish fr w) \<longleftrightarrow> le v w"
  "goes v (Invoke a args own fr w) \<longleftrightarrow> le v w" "may_go v None" "may_go v (Some out) \<longleftrightarrow> goes v out" "le v v"
  by (simp_all add: goes_def may_go_def le_refl)

lemma goes_let: "(\<And>x. r = Inr x \<Longrightarrow> goes v (f x)) \<Longrightarrow> goes v (dt_let r v f)"
  by (cases r) (simp_all add: dt_let_def)

lemma goes_let_pair: "(\<And>x y. r = Inr (x, y) \<Longrightarrow> goes v (f x y)) \<Longrightarrow> goes v (dt_let r v (\<lambda>(x, y). f x y))"
  by (rule goes_let) auto

lemma goes_let_4: "(\<And>x y z u. r = Inr (x, y, z, u) \<Longrightarrow> goes v (f x y z u)) \<Longrightarrow> goes v (dt_let r v (\<lambda>(x, y, z, u). f x y z u))"
  by (rule goes_let) auto

lemma goes_if: "(b \<Longrightarrow> goes v x) \<Longrightarrow> (\<not> b \<Longrightarrow> goes v y) \<Longrightarrow> goes v (if b then x else y)"
  "may_go v p \<Longrightarrow> may_go v q \<Longrightarrow> may_go v (if b then p else q)"
  by simp_all

lemma goes_option:
  "(\<And>x. m = Some x \<Longrightarrow> goes v (f x)) \<Longrightarrow> (m = None \<Longrightarrow> goes v y) \<Longrightarrow> goes v (case m of Some x \<Rightarrow> f x | None \<Rightarrow> y)"
  "(\<And>x. n = Some x \<Longrightarrow> may_go v (g x)) \<Longrightarrow> (n = None \<Longrightarrow> may_go v z) \<Longrightarrow> may_go v (case n of Some x \<Rightarrow> g x | None \<Rightarrow> z)"
  by (simp_all split: option.split)

lemma may_goD: "may_go v x \<Longrightarrow> x = Some out \<Longrightarrow> goes v out"
  by (simp add: may_go_def)

lemmas goes_rules = goes_if goes_let_4 goes_let_pair goes_let goes_option

lemma tab_elem: "set_tab_elem a n z v = Inr w \<Longrightarrow> le v w"
  by (auto simp: set_tab_elem_def res_simps vec_set_def split: if_splits elim!: write_table [rotated 2])

lemma mem_copied: "mem_copy_in a dst bytes v = Inr w \<Longrightarrow> le v w"
  by (auto simp: mem_copy_in_def res_simps Let_def split: if_splits elim!: write_memory [rotated 3])

lemma tab_copied: "tab_copy_in a dst rs v = Inr w \<Longrightarrow> le v w"
  by (auto simp: tab_copy_in_def res_simps Let_def split: if_splits elim!: write_table [rotated 2])

lemma act_le_for: "(\<And>j u. le u (snd (body j u))) \<Longrightarrow> le v (snd (act_for i n body v))"
proof (induction n arbitrary: i v)
  case (Suc n)
  have "le (snd (body i v)) (snd (act_for (Suc i) n body (snd (body i v))))"
    by (rule Suc.IH) (rule Suc.prems)
  then show ?case
    using Suc.prems [of v i] by (auto simp: act_then_def split: prod.split option.split intro: le_trans)
qed (simp add: le_refl)

lemma global_set_le: "dt_global_set env fr v = Inr (fr', w) \<Longrightarrow> le v w"
  by (auto simp: dt_global_set_def res_simps intro: write_global)

lemma table_set_le: "dt_table_set env fr v = Inr (fr', w) \<Longrightarrow> le v w"
  by (auto simp: dt_table_set_def res_simps split: if_splits intro: tab_elem)

lemma store_le:
  assumes "dt_MEM_STORE env n wr fr v = Inr (fr', w)" "\<And>m i x b. i + n \<le> length b \<Longrightarrow> length (wr m i x b) = length b"
  shows "le v w"
  using assms by (auto simp: dt_MEM_STORE_def mem_range_def res_simps Let_def split: if_splits elim!: write_memory [rotated 3])

lemma memory_grow_le:
  assumes "dt_memory_grow ip ms env fr v = Inr (fr', w)"
  shows "le v w"
proof (cases "v = w")
  case False
  with assms obtain x c mem d where *: "at_addr mi_memories v (de_mem0 env) = Inr x" "addr_mem ms v (de_mem0 env) = Inr mem"
      "vec_size (mdata x) div WASM_PAGE_SIZE + unat (get_w32 c) \<le> unat (lim_max (mem_lim mem))"
      "vec_resize (ip_am ip T_u8) 0 (mdata x) ((vec_size (mdata x) div WASM_PAGE_SIZE + unat (get_w32 c)) * WASM_PAGE_SIZE) = Inr d"
      "set_mem (x\<lparr>mdata := d\<rparr>) v (de_mem0 env) = Inr w"
    by (auto simp: dt_memory_grow_def res_simps Let_def split: if_splits sum.splits)
  then show ?thesis
    by (intro grow_memory [OF *(1,2,4,3,5)])
qed (simp add: le_refl)

lemma table_grow_le:
  assumes "dt_table_grow ip ms env fr v = Inr (fr', w)"
  shows "le v w"
proof (cases "v = w")
  case False
  with assms obtain a i y c tab d d' d'' z where *: "table_addr env v i = Inr a" "at_addr mi_tables v a = Inr y" "addr_tab ms v a = Inr tab"
      "vec_size (tdata y) + unat (get_w32 c) \<le> unat (lim_max (tab_lim tab))"
      "vec_resize (ip_am ip T_ref) 0 (tdata y) (vec_size (tdata y) + unat (get_w32 c)) = Inr d"
      "vec_resize (ip_am ip T_ref) 0 d (vec_size (tdata y) + unat (get_w32 c)) = Inr d'"
      "for_res 0 (unat (get_w32 c)) (\<lambda>i d. vec_set d (vec_size (tdata y) + i) z) d' = Inr d''"
      "set_tab (y\<lparr>tdata := d''\<rparr>) v a = Inr w"
    by (auto simp: dt_table_grow_def res_simps Let_def not_less split: if_splits sum.splits)
  moreover have "vec_size d'' = vec_size (tdata y) + unat (get_w32 c)"
    using vec_sets_size [OF *(7)] vec_resize_size [OF *(6)] by simp
  ultimately show ?thesis
    by (intro grow_table [OF *(2,3) _ *(4,8)])
qed (simp add: le_refl)

lemma table_fill_le: "dt_table_fill env fr v = Inr (fr', w) \<Longrightarrow> le v w"
  by (auto simp: dt_table_fill_def res_simps Let_def split: if_splits dest!: vec_sets_size elim!: write_table [rotated 2])

lemma init_items_le:
  "le v (snd (init_funcidx lay i elem a src dst j v))" "le v (snd (init_expr am lay ms i elem a src dst j v))"
  by (auto simp: init_funcidx_def init_expr_def act_let_def act_set_def act_err_def le_refl split: sum.split intro: tab_elem)

lemma table_init_goes: "goes v (dt_table_init ip ms env fr v)"
proof -
  have out: "goes v (case r of (Some e, v) \<Rightarrow> Stop e v | (None, v) \<Rightarrow> Next fr v)" if "le v (snd r)" for r fr
    using that by (auto split: prod.split option.split)
  have run: "le v (snd ((if c1 then act_for 0 n (init_funcidx lay i elem a src dst) else
      if c2 then act_for 0 n (init_expr am lay ms i elem a src dst) else if c3 then act_err Fault else Pair None) v))"
    for c1 c2 c3 n lay i elem a src dst am
    by (auto simp: act_err_def intro!: act_le_for init_items_le)
  show ?thesis
    unfolding dt_table_init_def Let_def by (intro goes_rules out run) simp_all
qed

lemma memory_init_le: "dt_memory_init ms env fr v = Inr (fr', w) \<Longrightarrow> le v w"
  by (auto simp: dt_memory_init_def res_simps Let_def le_refl split: if_splits intro: mem_copied)

lemma memory_copy_le: "dt_memory_copy env fr v = Inr (fr', w) \<Longrightarrow> le v w"
  by (auto simp: dt_memory_copy_def res_simps Let_def le_refl split: if_splits intro: mem_copied)

lemma memory_fill_le: "dt_memory_fill env fr v = Inr (fr', w) \<Longrightarrow> le v w"
  by (auto simp: dt_memory_fill_def res_simps Let_def le_refl split: if_splits intro: mem_copied)

lemma drops_le: "dt_data_drop env fr v = Inr (fr', w) \<Longrightarrow> le v w" "dt_elem_drop env fr v = Inr (fr', w) \<Longrightarrow> le v w"
  by (auto simp: dt_data_drop_def dt_elem_drop_def res_simps intro: data_dropped element_dropped)

lemma table_copy_le: "dt_table_copy env fr v = Inr (fr', w) \<Longrightarrow> le v w"
  by (auto simp: dt_table_copy_def res_simps Let_def le_refl split: if_splits intro: tab_copied)

lemma stores_le: "map_of (dt_stores ip) opcode = Some (n, wr) \<Longrightarrow> dt_MEM_STORE env n wr fr v = Inr (fr', w) \<Longrightarrow> le v w"
  by (rule store_le, assumption)
    (auto simp: dt_stores_def mem_write_u8_def mem_write_u16_def mem_write_u32_def mem_write_u64_def mem_write_f32_def mem_write_f64_def
      mem_write_length split: if_splits)

lemmas writes_le = global_set_le table_set_le stores_le memory_grow_le memory_init_le memory_copy_le memory_fill_le
  drops_le table_copy_le table_grow_le table_fill_le

lemma go: "goes v (dt_let r v (\<lambda>fr. Next fr v))"
  by (rule goes_let) simp

lemma go2: "(\<And>fr' w. r = Inr (fr', w) \<Longrightarrow> le v w) \<Longrightarrow> goes v (dt_let r v (\<lambda>(fr, v). Next fr v))"
  by (rule goes_let_pair) simp

lemma control_goes: "may_go v (dt_control env opcode fr v)"
  unfolding dt_control_def Let_def by (intro goes_rules) (simp_all add: go)

lemma variable_goes: "may_go v (dt_variable env opcode fr v)"
  unfolding dt_variable_def Let_def by (intro goes_if(2)) (auto simp: go intro!: go2 intro: writes_le)

lemma memory_goes: "may_go v (dt_memory ip ms env opcode fr v)"
  unfolding dt_memory_def Let_def by (intro goes_if(2) goes_option(2)) (auto simp: go intro!: go2 intro: writes_le)

lemma value_goes: "may_go v (dt_value ip env opcode fr v)"
  unfolding dt_value_def Let_def map_option_case by (intro goes_if(2) goes_option(2)) (simp_all add: go)

lemma call_goes: "goes v (dt_call ms env fr v)"
  unfolding dt_call_def by (intro goes_rules) simp_all

lemma call_indirect_goes: "goes v (dt_call_indirect ip ms env fr v)"
  unfolding dt_call_indirect_def Let_def by (intro goes_rules) simp_all

lemma prefix_fc_goes: "goes v (dt_prefix_fc ip ms env fr v)"
  unfolding dt_prefix_fc_def Let_def
  by (rule goes_let_pair, intro goes_if(1) goes_option(1)) (auto simp: go table_init_goes intro!: go2 intro: writes_le)

lemma prefix_fd_goes: "goes v (dt_prefix_fd env fr v)"
  unfolding dt_prefix_fd_def by (intro goes_rules) simp_all

lemma instr_goes: "goes v (dt_instr ip ms env fr v)"
  unfolding dt_instr_def dt_op_def
  by (intro goes_let_pair goes_option(1) goes_if(1) call_goes call_indirect_goes prefix_fc_goes prefix_fd_goes;
      (erule may_goD [rotated], rule control_goes variable_goes memory_goes value_goes)?; simp)

lemma instr_le:
  "dt_instr ip ms env fr v = Next fr' w \<Longrightarrow> le v w" "dt_instr ip ms env fr v = Stop e w \<Longrightarrow> le v w"
  "dt_instr ip ms env fr v = Finish fr' w \<Longrightarrow> le v w" "dt_instr ip ms env fr v = Invoke a args own fr' w \<Longrightarrow> le v w"
  using instr_goes [of v ip env fr] by simp_all

definition host_le :: "host \<Rightarrow> bool" where
  "host_le h \<longleftrightarrow> (\<forall>tr hf v a args m e w buf. h tr hf ms v a args m = Some (e, w, buf) \<longrightarrow> le v w)"

lemma run_le:
  assumes h: "host_le (ip_host ip)"
  shows "dt_run ip ms env fr v t y \<Longrightarrow> le v (fst (snd y))" "dt_called ip ms env fn v t a args y \<Longrightarrow> le v (fst (snd y))"
proof (induction rule: dt_run_dt_called.inducts)
  case (called_host fn v a args env e w buf t)
  then show ?case using h unfolding host_le_def by (metis fst_conv snd_conv)
qed (auto dest!: instr_le intro: le_trans)

lemma call_le:
  assumes h: "host_le (ip_host ip)" and "interp_call_in_thread ip ms v t a argv = Some (e, w, t')"
  shows "le v w"
  using assms(2)
proof (cases rule: interp_call_in_thread_cases)
qed (auto simp: in_place_dt_call_iff split: sum.splits dest: run_le(1) [OF h])

end

section \<open>The extension of the store\<close>

definition whole_pages :: "vm \<Rightarrow> bool" where
  "whole_pages v \<longleftrightarrow> (\<forall>mi \<in> set (instances v). \<forall>m \<in> set (vdata (mi_memories mi)). WASM_PAGE_SIZE dvd vec_size (mdata m))"

definition inst_extends :: "module_inst \<Rightarrow> module_inst \<Rightarrow> bool" where
  "inst_extends x y \<longleftrightarrow>
     mi_state y = mi_state x \<and> mi_mod y = mi_mod x \<and> mi_funcs y = mi_funcs x \<and>
     f_addrs y = f_addrs x \<and> m_addrs y = m_addrs x \<and> t_addrs y = t_addrs x \<and> g_addrs y = g_addrs x \<and>
     list_all2 (\<lambda>a b. ti_tab b = ti_tab a \<and> vec_size (tdata a) \<le> vec_size (tdata b)) (vdata (mi_tables x)) (vdata (mi_tables y)) \<and>
     list_all2 (\<lambda>a b. mi_mem b = mi_mem a \<and> vec_size (mdata a) \<le> vec_size (mdata b)) (vdata (mi_memories x)) (vdata (mi_memories y)) \<and>
     list_all2 (\<lambda>a b. gi_glob b = gi_glob a) (vdata (mi_globals x)) (vdata (mi_globals y)) \<and>
     list_all2 (\<lambda>a b. a \<noteq> 0 \<longrightarrow> b \<noteq> 0) (vdata (dropped_elements x)) (vdata (dropped_elements y)) \<and>
     list_all2 (\<lambda>a b. a \<noteq> 0 \<longrightarrow> b \<noteq> 0) (vdata (dropped_data x)) (vdata (dropped_data y))"

definition store_extends :: "vm \<Rightarrow> vm \<Rightarrow> bool" where
  "store_extends v w \<longleftrightarrow> vm_thread w = vm_thread v \<and> list_all2 inst_extends (instances v) (instances w)"

definition pages_extend :: "vm \<Rightarrow> vm \<Rightarrow> bool" where
  "pages_extend v w \<longleftrightarrow> (whole_pages v \<longrightarrow> whole_pages w \<and> store_extends v w)"

lemma inst_extends_refl [simp]: "inst_extends x x"
  by (simp add: inst_extends_def list.rel_refl)

lemma list_all2_transp: "transp P \<Longrightarrow> list_all2 P xs ys \<Longrightarrow> list_all2 P ys zs \<Longrightarrow> list_all2 P xs zs"
  by (rule transpD [OF list.rel_transp])

lemma inst_extends_trans: "inst_extends x y \<Longrightarrow> inst_extends y z \<Longrightarrow> inst_extends x z"
  unfolding inst_extends_def
  by (elim conjE, intro conjI) (simp_all, (erule (1) list_all2_transp [rotated], simp add: transp_def)+)

lemma store_extends_refl [simp]: "store_extends v v"
  by (simp add: store_extends_def list.rel_refl)

lemma store_extends_trans: "store_extends v w \<Longrightarrow> store_extends w u \<Longrightarrow> store_extends v u"
  unfolding store_extends_def by (auto simp: transp_def intro: inst_extends_trans elim!: list_all2_transp [rotated])

lemma extends_set_inst: "the_inst v i = Inr x \<Longrightarrow> inst_extends x y \<Longrightarrow> store_extends v (set_inst i y v)"
  by (auto simp: store_extends_def set_inst_def the_inst_def list_all2_conv_all_nth nth_list_update split: if_splits)

lemma list_all2_update_refl:
  "i < length xs \<Longrightarrow> P (xs ! i) y \<Longrightarrow> (\<And>x. P x x) \<Longrightarrow> list_all2 P xs (xs[i := y])"
  by (auto simp: list_all2_conv_all_nth nth_list_update)

lemma vec_set_list: "vec_set xs i y = Inr ys \<longleftrightarrow> i < vec_size xs \<and> ys = xs\<lparr>vdata := (vdata xs)[i := y]\<rparr>"
  by (auto simp: vec_set_def)

lemma at_set_addr:
  assumes "at_addr sel v a = Inr x" "set_addr sel upd y v a = Inr w"
  obtains i j mi where "a = Some (i, j)" "the_inst v i = Inr mi" "j < length (vdata (sel mi))" "x = vdata (sel mi) ! j"
    "w = set_inst i (upd (\<lambda>_. (sel mi)\<lparr>vdata := (vdata (sel mi))[j := y]\<rparr>) mi) v"
  using assms by (auto simp: at_addr_def set_addr_def res_simps vec_at_def vec_set_list split: option.splits if_splits)

lemma set_inst_set: "set (instances (set_inst i y v)) \<subseteq> insert y (set (instances v))"
  by (simp add: set_inst_def set_update_subset_insert)

lemma whole_pages_set_inst:
  "whole_pages v \<Longrightarrow> (\<And>m. m \<in> set (vdata (mi_memories y)) \<Longrightarrow> WASM_PAGE_SIZE dvd vec_size (mdata m)) \<Longrightarrow> whole_pages (set_inst i y v)"
  using set_inst_set [of i y v] unfolding whole_pages_def by blast

lemma memory_replaced:
  assumes "at_addr mi_memories v a = Inr x" "set_mem y v a = Inr w" "mi_mem y = mi_mem x"
    "WASM_PAGE_SIZE dvd vec_size (mdata x) \<Longrightarrow> vec_size (mdata x) \<le> vec_size (mdata y) \<and> WASM_PAGE_SIZE dvd vec_size (mdata y)"
  shows "pages_extend v w"
proof -
  obtain i j mi where *: "the_inst v i = Inr mi" "j < length (vdata (mi_memories mi))" "x = vdata (mi_memories mi) ! j"
    "w = set_inst i (mi\<lparr>mi_memories := (mi_memories mi)\<lparr>vdata := (vdata (mi_memories mi))[j := y]\<rparr>\<rparr>) v"
    using at_set_addr [OF assms(1,2)] by metis
  show ?thesis
    unfolding pages_extend_def
  proof (intro impI conjI)
    assume pages: "whole_pages v"
    then have old: "WASM_PAGE_SIZE dvd vec_size (mdata m)" if "m \<in> set (vdata (mi_memories mi))" for m
      using * that by (auto simp: whole_pages_def the_inst_def split: if_splits)
    have new: "vec_size (mdata x) \<le> vec_size (mdata y)" "WASM_PAGE_SIZE dvd vec_size (mdata y)"
      using assms(4) old [OF nth_mem, OF *(2)] *(3) by simp_all
    show "store_extends v w"
      unfolding *(4) using * assms(3) new
      by (intro extends_set_inst) (auto simp: inst_extends_def list.rel_refl intro: list_all2_update_refl)
    show "whole_pages w"
      unfolding *(4) using old new(2) set_update_subset_insert [of "vdata (mi_memories mi)" j y]
      by (intro whole_pages_set_inst pages) auto
  qed
qed

lemma other_replaced:
  assumes "the_inst v i = Inr mi" "inst_extends mi mi'" "mi_memories mi' = mi_memories mi"
  shows "pages_extend v (set_inst i mi' v)"
proof -
  have "whole_pages (set_inst i mi' v)" if "whole_pages v"
    using assms that by (intro whole_pages_set_inst) (auto simp: whole_pages_def the_inst_def split: if_splits)
  then show ?thesis
    using extends_set_inst [OF assms(1,2)] by (simp add: pages_extend_def)
qed

lemma table_replaced:
  assumes "at_addr mi_tables v a = Inr x" "set_tab y v a = Inr w" "ti_tab y = ti_tab x" "vec_size (tdata x) \<le> vec_size (tdata y)"
  shows "pages_extend v w"
  by (rule at_set_addr [OF assms(1,2)])
    (use assms(3,4) in \<open>auto simp: inst_extends_def list.rel_refl intro!: other_replaced list_all2_update_refl\<close>)

interpretation ext: vm_order ms pages_extend for ms
proof (unfold_locales, goal_cases)
  case (2 v w u)
  then show ?case by (auto simp: pages_extend_def intro: store_extends_trans)
next
  case (3 v a x d w)
  then show ?case by (auto intro!: memory_replaced)
next
  case (4 v a x mem am n d w)
  have "vec_size (mdata x) \<le> vec_size d \<and> WASM_PAGE_SIZE dvd vec_size d" if "WASM_PAGE_SIZE dvd vec_size (mdata x)"
    using vec_resize_size [OF 4(3)] that dvd_div_mult_self [OF that] by (simp add: distrib_right)
  then show ?case
    by (intro memory_replaced [OF 4(1,5)]) simp_all
next
  case (5 v a y t w)
  then show ?case by (auto intro!: table_replaced)
next
  case (6 v a y tab t n w)
  then show ?case by (auto intro!: table_replaced)
next
  case (7 v a g z w)
  show ?case
    by (rule at_set_addr [OF 7]) (auto simp: inst_extends_def list.rel_refl intro!: other_replaced list_all2_update_refl)
next
  case (8 i k v w)
  then show ?case
    by (auto simp: drop_element_def res_simps vec_set_list inst_extends_def list.rel_refl intro!: other_replaced list_all2_update_refl)
next
  case (9 i k v w)
  then show ?case
    by (auto simp: drop_data_def res_simps vec_set_list inst_extends_def list.rel_refl intro!: other_replaced list_all2_update_refl)
qed (simp add: pages_extend_def)

section \<open>The limits of memories and tables\<close>

definition limits_kept :: "mods \<Rightarrow> vm \<Rightarrow> bool" where
  "limits_kept ms v \<longleftrightarrow>
     (\<forall>a x mem. at_addr mi_memories v a = Inr x \<longrightarrow> addr_mem ms v a = Inr mem \<longrightarrow>
        vec_size (mdata x) \<le> unat (lim_max (mem_lim mem)) * WASM_PAGE_SIZE) \<and>
     (\<forall>a y tab. at_addr mi_tables v a = Inr y \<longrightarrow> addr_tab ms v a = Inr tab \<longrightarrow>
        vec_size (tdata y) \<le> unat (lim_max (tab_lim tab)))"

lemma addr_module_set_inst: "the_inst v i = Inr x \<Longrightarrow> mi_mod y = mi_mod x \<Longrightarrow> addr_module ms (set_inst i y v) a = addr_module ms v a"
  by (cases a) (auto simp: addr_module_def set_inst_def the_inst_def nth_list_update split: if_splits)

lemma at_addr_set_inst: "the_inst v i = Inr x \<Longrightarrow> sel y = sel x \<Longrightarrow> at_addr sel (set_inst i y v) a = at_addr sel v a"
  by (cases a) (auto simp: at_addr_def set_inst_def the_inst_def nth_list_update split: if_splits)

lemma at_addr_updated:
  "the_inst v i = Inr x \<Longrightarrow> j < length (vdata (sel x)) \<Longrightarrow> vdata (sel y) = (vdata (sel x))[j := z] \<Longrightarrow>
   at_addr sel (set_inst i y v) a = (if a = Some (i, j) then Inr z else at_addr sel v a)"
  by (cases a) (auto simp: at_addr_def set_inst_def the_inst_def vec_at_def nth_list_update split: if_splits)

lemmas set_inst_simps = addr_module_set_inst at_addr_set_inst addr_mem_def addr_tab_def

lemma limits_other:
  "the_inst v i = Inr x \<Longrightarrow> mi_mod y = mi_mod x \<Longrightarrow> mi_memories y = mi_memories x \<Longrightarrow> mi_tables y = mi_tables x \<Longrightarrow>
   limits_kept ms v \<Longrightarrow> limits_kept ms (set_inst i y v)"
  by (simp add: limits_kept_def set_inst_simps)

lemma limits_memory:
  assumes "at_addr mi_memories v a = Inr x" "set_mem y v a = Inr w" "mi_mem y = mi_mem x" "limits_kept ms v"
    "\<And>mem. addr_mem ms v a = Inr mem \<Longrightarrow> vec_size (mdata x) \<le> unat (lim_max (mem_lim mem)) * WASM_PAGE_SIZE \<Longrightarrow>
       vec_size (mdata y) \<le> unat (lim_max (mem_lim mem)) * WASM_PAGE_SIZE"
  shows "limits_kept ms w"
  using at_set_addr [OF assms(1,2)]
proof cases
  case (1 i j mi)
  then show ?thesis
    using assms(1,3-5) unfolding limits_kept_def
    by (auto simp: set_inst_simps at_addr_updated [where z = y and x = mi])
qed

lemma limits_table:
  assumes "at_addr mi_tables v a = Inr x" "set_tab y v a = Inr w" "ti_tab y = ti_tab x" "limits_kept ms v"
    "\<And>tab. addr_tab ms v a = Inr tab \<Longrightarrow> vec_size (tdata x) \<le> unat (lim_max (tab_lim tab)) \<Longrightarrow>
       vec_size (tdata y) \<le> unat (lim_max (tab_lim tab))"
  shows "limits_kept ms w"
  using at_set_addr [OF assms(1,2)]
proof cases
  case (1 i j mi)
  then show ?thesis
    using assms(1,3-5) unfolding limits_kept_def
    by (auto simp: set_inst_simps at_addr_updated [where z = y and x = mi])
qed

interpretation lim: vm_order ms "\<lambda>v w. limits_kept ms v \<longrightarrow> limits_kept ms w" for ms
proof (unfold_locales, goal_cases)
  case (3 v a x d w)
  then show ?case by (auto elim!: limits_memory)
next
  case (4 v a x mem am n d w)
  then show ?case by (auto dest!: vec_resize_size elim!: limits_memory)
next
  case (5 v a y t w)
  then show ?case by (auto elim!: limits_table)
next
  case (6 v a y tab t n w)
  then show ?case by (auto elim!: limits_table)
next
  case (7 v a g z w)
  show ?case
    by (rule at_set_addr [OF 7]) (auto intro: limits_other)
next
  case (8 i k v w)
  then show ?case by (auto simp: drop_element_def res_simps intro: limits_other)
next
  case (9 i k v w)
  then show ?case by (auto simp: drop_data_def res_simps intro: limits_other)
qed simp_all

section \<open>The instances and their modules\<close>

interpretation mds: vm_order ms "\<lambda>v w. imods w = imods v" for ms
proof (unfold_locales, goal_cases)
  case (8 i k v w)
  then show ?case using writes_keep(7) by (auto simp: write_keeps_def)
next
  case (9 i k v w)
  then show ?case using writes_keep(8) by (auto simp: write_keeps_def)
qed (auto elim!: imods_set_addr)

section \<open>The thread\<close>

definition thread_left :: "dt_env \<Rightarrow> thread \<Rightarrow> thread" where
  "thread_left env t = t\<lparr>frame_depth := frame_depth t - 1, stack_size := stack_size t - f_stack_size_max (de_fn env)\<rparr>"

definition depth_ok :: "thread \<Rightarrow> bool" where
  "depth_ok t \<longleftrightarrow> unat (frame_depth t) \<le> Suc SILVERFIR_STACK_FRAME_LIMIT"

lemma depth_step: "unat (frame_depth t) \<le> SILVERFIR_STACK_FRAME_LIMIT \<Longrightarrow> depth_ok (t\<lparr>frame_depth := frame_depth t + 1, stack_size := n\<rparr>)"
  using unat_add_lem [of "frame_depth t" 1] by (simp add: depth_ok_def SILVERFIR_STACK_FRAME_LIMIT_def)

lemma depth_stack_size: "depth_ok (t\<lparr>stack_size := n\<rparr>) = depth_ok t"
  by (simp add: depth_ok_def)

lemma dt_enter_thread:
  assumes "dt_enter ip ms v t a args = Inr (env, fr, t')"
  shows "thread_left env t' = t" "depth_ok t'" "depth_ok t"
  using assms depth_step [of t]
  by (auto simp: dt_enter_def thread_left_def Let_def depth_ok_def split: if_splits sum.splits option.splits)

lemma dt_enter_refused: "dt_enter ip ms v t a args = Inl (e, t') \<Longrightarrow> depth_ok t \<Longrightarrow> depth_ok t'"
  using depth_step [of t "stack_size t"]
  by (auto simp: dt_enter_def Let_def depth_ok_def split: if_splits sum.splits option.splits)

lemma run_thread:
  "dt_run ip ms env fr v t y \<Longrightarrow> depth_ok t \<Longrightarrow> depth_ok (thread_left env t) \<Longrightarrow>
     depth_ok (fst (snd (snd y))) \<and> (fst y = None \<longrightarrow> fst (snd (snd y)) = thread_left env t)"
  "dt_called ip ms env fn v t a args y \<Longrightarrow> depth_ok t \<Longrightarrow>
     depth_ok (fst (snd (snd y))) \<and> (fst y = None \<longrightarrow> fst (snd (snd y)) = t)"
proof (induction rule: dt_run_dt_called.inducts)
  case (run_finish env fr v fr' v' t e t' buf)
  then show ?case
    by (auto simp: dt_leave_def thread_left_def Let_def split: if_splits)
next
  case (called_run fn v t a args env' fr' t' y env)
  then show ?case
    using dt_enter_thread [OF called_run(2)] by simp
next
  case (called_refused fn v t a args e t' env)
  then show ?case
    by (auto dest: dt_enter_refused)
qed auto

lemma call_thread:
  assumes "in_place_dt_call ip ms v t a args = Some (e, w, t', buf)" "depth_ok t"
  shows "depth_ok t' \<and> (e = None \<longrightarrow> t' = t)"
proof (cases "dt_enter ip ms v t a args")
  case (Inr x)
  then obtain env fr t'' where x: "dt_enter ip ms v t a args = Inr (env, fr, t'')"
    by (cases x) auto
  then have "dt_run ip ms env fr v t'' (e, w, t', buf)"
    using assms(1) by (simp add: in_place_dt_call_iff)
  from run_thread(1) [OF this] show ?thesis
    using dt_enter_thread [OF x] by simp
qed (use assms in \<open>auto simp: in_place_dt_call_iff dest: dt_enter_refused\<close>)

lemma collect_results_thread: "collect_results am buf i n st t = (e, t') \<Longrightarrow> \<exists>rs. t' = t\<lparr>th_results := rs\<rparr>"
proof (induction am buf i n st t rule: collect_results.induct)
  case (1 am buf i st t)
  then show ?case by (auto intro: exI [of _ "th_results t"])
next
  case (2 am buf i n st t)
  then show ?case
    by (auto split: sum.splits prod.splits if_splits intro: exI [of _ "th_results t"])
qed

lemma collect_results_values:
  "collect_results am buf i n st t = (None, t') \<Longrightarrow> i \<le> length buf \<Longrightarrow> vec_is_valid (th_results t) \<Longrightarrow>
   map tv_val (vdata (th_results t')) = map tv_val (vdata (th_results t)) @ take n (drop i buf) \<and> i + n \<le> length buf"
proof (induction am buf i n st t rule: collect_results.induct)
  case (2 am buf i n st t)
  then obtain ty st' rs where *: "stream_read_vi7 st = Inr (ty, st')" "i < length buf"
      "vec_push (am T_typed_value) (th_results t) \<lparr>tv_type = ty, tv_val = buf ! i\<rparr> = Inr rs"
      "collect_results am buf (Suc i) n st' (t\<lparr>th_results := rs\<rparr>) = (None, t')"
    by (auto split: sum.splits prod.splits if_splits)
  have "vdata rs = vdata (th_results t) @ [\<lparr>tv_type = ty, tv_val = buf ! i\<rparr>] \<and> vec_is_valid rs"
    using res_okD [OF vec_push_ok [OF 2(4)] *(3)] by simp
  then show ?case
    using 2(1) [OF *(1) refl _ *(3,4)] *(2) by (simp add: Cons_nth_drop_Suc [symmetric])
qed simp

section \<open>Properties\<close>

text \<open>
  What the interpreter relies on in a function of the host: it extends the store as an instruction
  may do, keeps the limits and leaves the modules of the instances alone.
\<close>

definition host_extends :: "host \<Rightarrow> bool" where
  "host_extends h \<longleftrightarrow>
     (\<forall>tr hf ms v a args m e w buf. h tr hf ms v a args m = Some (e, w, buf) \<longrightarrow>
        pages_extend v w \<and> (limits_kept ms v \<longrightarrow> limits_kept ms w) \<and> imods w = imods v)"

lemma host_extendsD:
  assumes "host_extends h"
  shows "ext.host_le ms h" "lim.host_le ms h" "mds.host_le ms h"
  using assms unfolding host_extends_def ext.host_le_def lim.host_le_def mds.host_le_def by blast+

text \<open>
  C21. A call of a function, however it ends, extends the store: instances, functions and the
  addresses they are linked to stay, no memory and no table shrinks, a dropped segment stays dropped, memories stay a
  whole number of pages, and no memory or table outgrows the maximum its module declares.
\<close>

theorem call_extends_store:
  assumes "host_extends (ip_host ip)" "whole_pages v" "limits_kept ms v"
    "interp_call_in_thread ip ms v t a argv = Some (e, w, t')"
  shows "store_extends v w \<and> whole_pages w \<and> limits_kept ms w"
  using ext.call_le [OF host_extendsD(1) [OF assms(1)] assms(4)] lim.call_le [OF host_extendsD(2) [OF assms(1)] assms(4)] assms(2,3)
  by (simp add: pages_extend_def)



section \<open>An instance to run\<close>

definition vec_of :: "'a list \<Rightarrow> 'a vec" where
  "vec_of xs = \<lparr>vdata = xs, vcap = length xs, vnonnull = True, vfixed = False\<rparr>"

definition run_interp :: interp where
  "run_interp = \<lparr>ip_mc = masking_machine, ip_am = (\<lambda>_ _. True), ip_malloc = (\<lambda>_. True), ip_alloca = (\<lambda>_. True),
     ip_lay = (\<lambda>(i, j). of_nat (i + j)), ip_base = (\<lambda>_. 0), ip_little_endian = True,
     ip_host = (\<lambda>_ _ _ v _ args _. Some (None, v, args))\<rparr>"

text \<open>\<open>local.get 0; global.set 0; global.get 0\<close>\<close>

definition run_func :: func where
  "run_func = func_zero\<lparr>fn_type := \<lparr>param_count = 1, result_count = 1, params = [0x7f], results = [0x7f]\<rparr>,
     local_count := 1, f_code := [0x20, 0, 0x24, 0, 0x23, 0, 0x0b], f_stack_size_max := 1\<rparr>"

definition run_mods :: mods where
  "run_mods = [(5, module_zero\<lparr>funcs := vec_of [run_func],
     memories := vec_of [\<lparr>mem_lim = \<lparr>lim_min = 0, lim_max = 0\<rparr>, mem_linkage = 0, mem_path = path_null\<rparr>]\<rparr>)]"

definition run_vm :: vm where
  "run_vm = \<lparr>instances = [(module_inst_zero 5)\<lparr>mi_state := module_inst_ready,
       mi_funcs := vec_of [\<lparr>fi_mod = 5, fi_mod_inst = Some 0, fi_fn = 0\<rparr>], f_addrs := vec_of [Some (0, 0)],
       mi_globals := vec_of [\<lparr>gi_glob = 0, gvalue = 0\<rparr>], g_addrs := vec_of [Some (0, 0)],
       mi_memories := vec_of [\<lparr>mi_mem = 0, mdata = vec_empty\<rparr>], m_addrs := vec_of [Some (0, 0)]\<rparr>],
     vm_thread = thread_zero\<rparr>"

definition run_args :: "typed_value vec" where
  "run_args = vec_of [\<lparr>tv_type = TYPE_ID_i32, tv_val = 7\<rparr>]"

definition run_env :: dt_env where
  "run_env = \<lparr>de_fn = run_func, de_inst = 0, de_mem0 = Some (0, 0)\<rparr>"

definition run_frame :: "value_u \<Rightarrow> nat \<Rightarrow> nat \<Rightarrow> frame" where
  "run_frame x sp pc = \<lparr>fr_local = [7], fr_stack = [x], fr_sp = sp, fr_pc = pc, fr_jt = 0\<rparr>"

definition run_vm' :: vm where
  "run_vm' = set_inst 0 ((instances run_vm ! 0)\<lparr>mi_globals := vec_of [\<lparr>gi_glob = 0, gvalue = 7\<rparr>]\<rparr>) run_vm"

definition run_thread :: thread where
  "run_thread = thread_zero\<lparr>frame_depth := 1, stack_size := 1\<rparr>"

lemma run_steps:
  "read_u8 run_env (run_frame 0 0 0) = Inr (0x20, run_frame 0 0 1)" "dt_local_get run_env (run_frame 0 0 1) = Inr (run_frame 7 1 2)"
  "read_u8 run_env (run_frame 7 1 2) = Inr (0x24, run_frame 7 1 3)" "dt_global_set run_env (run_frame 7 1 3) run_vm = Inr (run_frame 7 0 4, run_vm')"
  "read_u8 run_env (run_frame 7 0 4) = Inr (0x23, run_frame 7 0 5)" "dt_global_get run_env (run_frame 7 0 5) run_vm' = Inr (run_frame 7 1 6)"
  "read_u8 run_env (run_frame 7 1 6) = Inr (0x0b, run_frame 7 1 7)" "dt_leave run_env (run_frame 7 1 7) run_thread = (None, thread_zero, [7])"
  "fr_pc (run_frame 7 1 7) = length (f_code (de_fn run_env))"
  by code_simp+

lemma run_ends: "dt_run run_interp run_mods run_env (run_frame 0 0 0) run_vm run_thread (None, run_vm', thread_zero, [7])"
proof -
  note i = dt_instr_eq [where ip = run_interp and ms = run_mods]
  have 1: "dt_instr run_interp run_mods run_env (run_frame 0 0 0) run_vm = Next (run_frame 7 1 2) run_vm"
    unfolding i [OF run_steps(1)] dispatch_variable run_steps by (simp add: dt_let_def)
  have 2: "dt_instr run_interp run_mods run_env (run_frame 7 1 2) run_vm = Next (run_frame 7 0 4) run_vm'"
    unfolding i [OF run_steps(3)] dispatch_variable run_steps by (simp add: dt_let_def)
  have 3: "dt_instr run_interp run_mods run_env (run_frame 7 0 4) run_vm' = Next (run_frame 7 1 6) run_vm'"
    unfolding i [OF run_steps(5)] dispatch_variable run_steps by (simp add: dt_let_def)
  have 4: "dt_instr run_interp run_mods run_env (run_frame 7 1 6) run_vm' = Finish (run_frame 7 1 7) run_vm'"
    unfolding i [OF run_steps(7)] dispatch_control run_steps(9) by simp
  show ?thesis
    by (rule run_next [OF 1 run_next [OF 2 run_next [OF 3 run_finish [OF 4 run_steps(8)]]]])
qed

lemma run_found: "addr_fn run_mods run_vm (Some (0, 0)) = Inr run_func"
  by (simp add: addr_fn_def at_addr_def the_inst_def the_mod_def run_mods_def run_vm_def vec_of_def vec_at_def)

lemma run_entered: "dt_enter run_interp run_mods run_vm thread_zero (0, 0) [7] = Inr (run_env, run_frame 0 0 0, run_thread)"
  by (simp add: dt_enter_def run_found)
    (simp add: at_addr_def the_inst_def run_vm_def vec_of_def vec_at_def thread_zero_def run_func_def run_interp_def masking_machine_def
      run_env_def run_frame_def run_thread_def SILVERFIR_STACK_FRAME_LIMIT_def SILVERFIR_STACK_SIZE_LIMIT_def)

lemma run_call:
  "interp_call_in_thread run_interp run_mods run_vm thread_zero (Some (0, 0)) run_args =
     Some (None, run_vm', thread_zero\<lparr>th_results := \<lparr>vdata = [\<lparr>tv_type = TYPE_ID_i32, tv_val = 7\<rparr>], vcap = VEC_DEFAULT_CAPACITY, vnonnull = True, vfixed = False\<rparr>\<rparr>)"
proof -
  have 1: "in_place_dt_call run_interp run_mods run_vm thread_zero (0, 0) [7] = Some (None, run_vm', thread_zero, [7])"
    by (simp add: in_place_dt_call_iff run_entered run_ends)
  have 2: "for_res 0 1 (check_arg run_args) (stream_from [0x7f]) = Inr \<lparr>st_s = [0x7f], st_p = 1\<rparr>"
    by code_simp
  have 3: "collect_results (ip_am run_interp) [7] 0 1 (stream_from [0x7f]) (thread_zero\<lparr>th_results := vec_clear (th_results thread_zero)\<rparr>) =
      (None, thread_zero\<lparr>th_results := \<lparr>vdata = [\<lparr>tv_type = TYPE_ID_i32, tv_val = 7\<rparr>], vcap = VEC_DEFAULT_CAPACITY, vnonnull = True, vfixed = False\<rparr>\<rparr>)"
    by code_simp
  have "ip_little_endian run_interp" "ip_alloca run_interp n" "\<not> trapped thread_zero" "unat (local_count run_func) = 1"
      "fn_type run_func = \<lparr>param_count = 1, result_count = 1, params = [0x7f], results = [0x7f]\<rparr>"
      "length (vdata run_args) = 1" "map tv_val (vdata run_args) = [7]" for n
    by (simp_all add: run_interp_def thread_zero_def run_func_def run_args_def vec_of_def)
  then show ?thesis
    unfolding interp_call_in_thread_def interp_call_with_def Let_def run_found
    by (simp add: 1 2 3 del: collect_results.simps for_res.simps One_nat_def)
qed

lemma run_vm_parts:
  "at_addr mi_memories run_vm a = Inr x \<Longrightarrow> vdata (mdata x) = []" "at_addr mi_tables run_vm a = Inr y \<Longrightarrow> False"
  by (auto simp: at_addr_def the_inst_def run_vm_def vec_at_def vec_of_def module_inst_zero_def split: option.splits if_splits)

lemma run_ready: "host_extends (ip_host run_interp)" "whole_pages run_vm" "limits_kept run_mods run_vm" "depth_ok thread_zero"
proof -
  show "host_extends (ip_host run_interp)"
    unfolding host_extends_def
  proof (intro allI impI)
    fix tr hf ms v a args m e w buf
    assume "ip_host run_interp tr hf ms v a args m = Some (e, w, buf)"
    then have "w = v" by (simp add: run_interp_def)
    then show "pages_extend v w \<and> (limits_kept ms v \<longrightarrow> limits_kept ms w) \<and> imods w = imods v"
      by (simp only: ext.le_refl simp_thms)
  qed
  show "whole_pages run_vm"
    by (simp add: whole_pages_def run_vm_def vec_of_def)
  show "limits_kept run_mods run_vm"
    unfolding limits_kept_def
  proof (intro conjI allI impI)
    fix a x mem assume "at_addr mi_memories run_vm a = Inr x"
    from run_vm_parts(1) [OF this] show "vec_size (mdata x) \<le> unat (lim_max (mem_lim mem)) * WASM_PAGE_SIZE"
      by (simp only: vec_size_length list.size le0)
  qed (drule run_vm_parts(2), erule FalseE)
  show "depth_ok thread_zero"
    by (simp add: depth_ok_def thread_zero_def)
qed

theorem call_extends_store_witness:
  "store_extends run_vm run_vm' \<and> whole_pages run_vm' \<and> limits_kept run_mods run_vm' \<and>
   at_addr mi_globals run_vm' (Some (0, 0)) = Inr \<lparr>gi_glob = 0, gvalue = 7\<rparr>"
  using call_extends_store [OF run_ready(1-3) run_call]
  by (simp add: at_addr_def run_vm'_def set_inst_def the_inst_def run_vm_def vec_at_def vec_of_def)



end
