(* ===== verification/Dt_Memory.thy ===== *)
theory Dt_Memory
  imports Dt_Store
begin

text \<open>
  The memory instructions of the interpreter against the specification of WebAssembly: a value in
  memory is the sequence of its bytes, the least significant one first; an access outside the memory
  traps and changes nothing.
\<close>

section \<open>Little-endian bytes\<close>

fun le_nat :: "u8 list \<Rightarrow> nat" where
  "le_nat [] = 0"
| "le_nat (b # bs) = unat b + 256 * le_nat bs"

fun le_bytes :: "nat \<Rightarrow> nat \<Rightarrow> u8 list" where
  "le_bytes 0 x = []"
| "le_bytes (Suc n) x = of_nat x # le_bytes n (x div 256)"

lemma le_bytes_length [simp]: "length (le_bytes n x) = n"
  by (induction n arbitrary: x) simp_all

lemma le_bytes_nth: "i < n \<Longrightarrow> le_bytes n x ! i = of_nat (x div 256 ^ i)"
  by (induction n arbitrary: i x) (simp_all add: nth_Cons div_mult2_eq split: nat.split)

lemma le_nat_bytes: "le_nat (le_bytes n x) = x mod 256 ^ n"
proof (induction n arbitrary: x)
  case (Suc n)
  have "unat (of_nat x :: u8) = x mod 256"
    by (simp add: unat_of_nat)
  then show ?case
    using Suc mod_mult2_eq [of x 256 "256 ^ n"] by simp
qed simp

lemma le_bytes_mod: "n \<le> k \<Longrightarrow> le_bytes n (x mod 256 ^ k) = le_bytes n x"
proof (intro nth_equalityI)
  fix i assume k: "n \<le> k" and "i < length (le_bytes n (x mod 256 ^ k))"
  then have i: "i < n" by simp
  have "(256 :: nat) ^ k = 256 ^ i * (256 * 256 ^ (k - i - 1))"
    using i k by (simp flip: power_Suc power_add)
  then have "x mod 256 ^ k div 256 ^ i = (x div 256 ^ i) mod (256 * 256 ^ (k - i - 1))"
    by (simp add: mod_mult2_eq)
  then have "x mod 256 ^ k div 256 ^ i mod 256 = x div 256 ^ i mod 256"
    by (simp add: mod_mult2_eq)
  then have "(of_nat (x mod 256 ^ k div 256 ^ i) :: u8) = of_nat (x div 256 ^ i)"
    by (simp add: word_of_nat_eq_iff take_bit_eq_mod)
  with i show "le_bytes n (x mod 256 ^ k) ! i = le_bytes n x ! i"
    by (simp add: le_bytes_nth)
qed simp

lemma le_bytes_nat: "le_bytes (length bs) (le_nat bs) = bs"
proof (induction bs)
  case (Cons b bs)
  have "(of_nat (unat b + 256 * le_nat bs) :: u8) = of_nat (unat b)"
    unfolding word_of_nat_eq_iff by (simp add: take_bit_eq_mod)
  then have "(of_nat (unat b + 256 * le_nat bs) :: u8) = b"
    by simp
  moreover have "(unat b + 256 * le_nat bs) div 256 = le_nat bs"
    using unsigned_less [of b] by (simp add: div_add1_eq)
  ultimately show ?case
    using Cons by simp
qed simp

lemma le_nat_less: "le_nat bs < 256 ^ length bs"
  using le_nat_bytes [of "length bs" "le_nat bs"] mod_less_divisor [of "256 ^ length bs" "le_nat bs"] by (simp add: le_bytes_nat)

lemma byte_of:
  fixes w :: "'a::len word"
  shows "(ucast (drop_bit (8 * k) w) :: u8) = of_nat (unat w div 256 ^ k)"
proof -
  have "unat (drop_bit (8 * k) w) = unat w div 2 ^ (8 * k)"
    by (simp add: unsigned_drop_bit_eq drop_bit_eq_div [where 'a = nat] take_bit_nat_eq_self)
  then have "(of_nat (unat (drop_bit (8 * k) w)) :: u8) = of_nat (unat w div 256 ^ k)"
    unfolding power_mult by simp
  then show ?thesis
    by simp
qed

lemma bytes_of_value:
  fixes m :: "u8 list" and w :: "'a::len word"
  assumes "i + n \<le> length m" "w = of_nat (le_nat (take n (drop i m)))" "256 ^ n \<le> (2::nat) ^ LENGTH('a)" "k < n"
  shows "m ! (i + k) = ucast (drop_bit (8 * k) w)"
proof -
  define bs where "bs = take n (drop i m)"
  have bs: "length bs = n" "m ! (i + k) = bs ! k"
    using assms(1,4) by (simp_all add: bs_def)
  have "le_nat bs < 2 ^ LENGTH('a)"
    using le_nat_less [of bs] assms(3) bs(1) by simp
  then have "unat w = le_nat bs"
    using assms(2) by (simp add: bs_def unat_of_nat)
  then show ?thesis
    using le_bytes_nat [of bs] le_bytes_nth [OF assms(4), of "le_nat bs"] bs by (simp add: byte_of)
qed

lemma mem_read_bytes:
  "i + 2 \<le> length m \<Longrightarrow> mem_read_u16 m i = of_nat (le_nat (take 2 (drop i m)))"
  "i + 4 \<le> length m \<Longrightarrow> mem_read_u32 m i = of_nat (le_nat (take 4 (drop i m)))"
  "i + 8 \<le> length m \<Longrightarrow> mem_read_u64 m i = of_nat (le_nat (take 8 (drop i m)))"
proof -
  assume "i + 2 \<le> length m"
  note b = bytes_of_value [OF this, of "of_nat (le_nat (take 2 (drop i m))) :: u16", OF refl, simplified]
  show "mem_read_u16 m i = of_nat (le_nat (take 2 (drop i m)))"
    using b [of 0] b [of 1] by (simp add: mem_read_u16_def ucast_bytes(1))
next
  assume "i + 4 \<le> length m"
  note b = bytes_of_value [OF this, of "of_nat (le_nat (take 4 (drop i m))) :: u32", OF refl, simplified]
  show "mem_read_u32 m i = of_nat (le_nat (take 4 (drop i m)))"
    using b [of 0] b [of 1] b [of 2] b [of 3] by (simp add: mem_read_u32_def ucast_bytes(2))
next
  assume "i + 8 \<le> length m"
  note b = bytes_of_value [OF this, of "of_nat (le_nat (take 8 (drop i m))) :: u64", OF refl, simplified]
  show "mem_read_u64 m i = of_nat (le_nat (take 8 (drop i m)))"
    using b [of 0] b [of 1] b [of 2] b [of 3] b [of 4] b [of 5] b [of 6] b [of 7] by (simp add: mem_read_u64_def ucast_bytes(3))
qed

lemma mem_write_bytes:
  assumes "p + n \<le> length m"
  shows "MEM_WRITE_DEFINE_MB n base p w m = take p m @ le_bytes n (unat w) @ drop (p + n) m"
proof (rule nth_equalityI)
  fix i assume "i < length (MEM_WRITE_DEFINE_MB n base p w m)"
  then have i: "i < length m" using assms by (simp add: mem_write_length)
  show "MEM_WRITE_DEFINE_MB n base p w m ! i = (take p m @ le_bytes n (unat w) @ drop (p + n) m) ! i"
    using assms i by (auto simp: mem_write_nth nth_append byte_of le_bytes_nth)
qed (use assms in \<open>simp add: mem_write_length\<close>)

lemma le_bytes_low:
  fixes x :: "'a::len word"
  assumes "256 ^ n \<le> (2::nat) ^ LENGTH('b::len)" "LENGTH('b) mod 8 = 0"
  shows "le_bytes n (unat (ucast x :: 'b word)) = le_bytes n (unat x)"
proof -
  obtain k where k: "LENGTH('b) = 8 * k" using assms(2) by (auto elim: dvdE dest!: mod_0_imp_dvd)
  have "n \<le> k"
    using assms(1) unfolding k by (simp add: power_mult)
  moreover have "unat (ucast x :: 'b word) = unat x mod 256 ^ k"
    by (simp add: unsigned_ucast_eq take_bit_eq_mod k power_mult)
  ultimately show ?thesis
    by (simp add: le_bytes_mod)
qed

section \<open>Loads and stores\<close>

text \<open>The loads: the number of bytes, whether they are a signed number, the width of the result.\<close>

definition spec_loads :: "(u8 \<times> nat \<times> bool \<times> nat) list" where
  "spec_loads =
    [(0x28, 4, False, 32), (0x29, 8, False, 64), (0x2a, 4, False, 32), (0x2b, 8, False, 64), (0x2c, 1, True, 32), (0x2d, 1, False, 32),
     (0x2e, 2, True, 32), (0x2f, 2, False, 32), (0x30, 1, True, 64), (0x31, 1, False, 64), (0x32, 2, True, 64), (0x33, 2, False, 64),
     (0x34, 4, True, 64), (0x35, 4, False, 64)]"

definition spec_stores :: "(u8 \<times> nat) list" where
  "spec_stores = [(0x36, 4), (0x37, 8), (0x38, 4), (0x39, 8), (0x3a, 1), (0x3b, 2), (0x3c, 1), (0x3d, 2), (0x3e, 4)]"

definition spec_value :: "nat \<Rightarrow> bool \<Rightarrow> u8 list \<Rightarrow> int" where
  "spec_value n sx bs = (if sx then signed_take_bit (8 * n - 1) (int (le_nat bs)) else int (le_nat bs))"

definition holds_value :: "nat \<Rightarrow> value_u \<Rightarrow> int \<Rightarrow> bool" where
  "holds_value bits y k = (if bits = 32 then get_w32 y = word_of_int k else y = word_of_int k)"

lemma st_w32_low: "get_w32 (st_w32 mc old x) = x"
  by (rule bit_word_eqI) (simp add: get_w32_def st_w32_def bit_simps)

lemma le_nat_take: "i + n \<le> length m \<Longrightarrow> le_nat (take n (drop i m)) < 256 ^ n"
  using le_nat_less [of "take n (drop i m)"] by simp

lemma uint_of_nat_less: "k < 2 ^ LENGTH('a) \<Longrightarrow> uint (of_nat k :: 'a::len word) = int k"
  by (simp add: unsigned_of_nat take_bit_nat_eq_self)

lemma read_values:
  assumes "i + n \<le> length m"
  shows "n = 1 \<Longrightarrow> uint (mem_read_u8 m i) = spec_value 1 False (take 1 (drop i m))" "n = 1 \<Longrightarrow> sint (mem_read_u8 m i) = spec_value 1 True (take 1 (drop i m))"
    "n = 2 \<Longrightarrow> uint (mem_read_u16 m i) = spec_value 2 False (take 2 (drop i m))" "n = 2 \<Longrightarrow> sint (mem_read_u16 m i) = spec_value 2 True (take 2 (drop i m))"
    "n = 4 \<Longrightarrow> uint (mem_read_u32 m i) = spec_value 4 False (take 4 (drop i m))" "n = 4 \<Longrightarrow> sint (mem_read_u32 m i) = spec_value 4 True (take 4 (drop i m))"
    "n = 4 \<Longrightarrow> mem_read_u32 m i = word_of_int (spec_value 4 False (take 4 (drop i m)))"
    "n = 8 \<Longrightarrow> mem_read_u64 m i = word_of_int (spec_value 8 False (take 8 (drop i m)))"
proof -
  have one: "mem_read_u8 m i = of_nat (le_nat (take 1 (drop i m)))" if "n = 1"
    using that assms by (simp add: mem_read_u8_def take_Suc_conv_app_nth)
  note rd = one mem_read_bytes [of i m] and less = le_nat_take [OF assms]
  show "n = 1 \<Longrightarrow> uint (mem_read_u8 m i) = spec_value 1 False (take 1 (drop i m))" "n = 1 \<Longrightarrow> sint (mem_read_u8 m i) = spec_value 1 True (take 1 (drop i m))"
    "n = 2 \<Longrightarrow> uint (mem_read_u16 m i) = spec_value 2 False (take 2 (drop i m))" "n = 2 \<Longrightarrow> sint (mem_read_u16 m i) = spec_value 2 True (take 2 (drop i m))"
    "n = 4 \<Longrightarrow> uint (mem_read_u32 m i) = spec_value 4 False (take 4 (drop i m))" "n = 4 \<Longrightarrow> sint (mem_read_u32 m i) = spec_value 4 True (take 4 (drop i m))"
    "n = 4 \<Longrightarrow> mem_read_u32 m i = word_of_int (spec_value 4 False (take 4 (drop i m)))"
    "n = 8 \<Longrightarrow> mem_read_u64 m i = word_of_int (spec_value 8 False (take 8 (drop i m)))"
    using rd less assms by (simp_all add: spec_value_def uint_of_nat_less signed_of_nat)
qed

lemmas read_values' =
  arg_cong [OF read_values(1) [OF _ refl], where f = word_of_int, simplified] arg_cong [OF read_values(2) [OF _ refl], where f = word_of_int, simplified]
  arg_cong [OF read_values(3) [OF _ refl], where f = word_of_int, simplified] arg_cong [OF read_values(4) [OF _ refl], where f = word_of_int, simplified]
  arg_cong [OF read_values(5) [OF _ refl], where f = word_of_int, simplified] arg_cong [OF read_values(6) [OF _ refl], where f = word_of_int, simplified]

lemma read_whole:
  "i + 4 \<le> length m \<Longrightarrow> (of_int (spec_value 4 False (take 4 (drop i m))) :: u32) = mem_read_u32 m i"
  "i + 8 \<le> length m \<Longrightarrow> (of_int (spec_value 8 False (take 8 (drop i m))) :: u64) = mem_read_u64 m i"
  using read_values(7,8) [OF _ refl] by simp_all

lemma load_value:
  assumes "map_of spec_loads opcode = Some (n, sx, bits)"
  obtains rd where "map_of (dt_loads mc) opcode = Some (n, rd)"
    "\<And>m i. i + n \<le> length m \<Longrightarrow> holds_value bits (rd m i) (spec_value n sx (take n (drop i m)))"
proof -
  have "\<exists>rd. map_of (dt_loads mc) opcode = Some (n, rd) \<and>
    (\<forall>m i. i + n \<le> length m \<longrightarrow> holds_value bits (rd m i) (spec_value n sx (take n (drop i m))))"
    using assms unfolding spec_loads_def
    by (simp split: if_split_asm; elim conjE; hypsubst;
        simp add: dt_loads_def holds_value_def st_i32_def st_f32_def st_i64_def st_f64_def st_w32_low read_values' read_whole)
  with that show ?thesis by blast
qed

lemma store_bytes:
  assumes "map_of spec_stores opcode = Some n"
  obtains wr where "map_of (dt_stores ip) opcode = Some (n, wr)" "map_of (dt_loads mc) opcode = None"
    "\<And>m i x b. i + n \<le> length b \<Longrightarrow> wr m i x b = take i b @ le_bytes n (unat x) @ drop (i + n) b"
proof -
  have one: "b[i := y] = take i b @ le_bytes 1 (unat y) @ drop (i + 1) b" if "i + 1 \<le> length b" for b :: "u8 list" and i y
    using that by (simp add: upd_conv_take_nth_drop)
  have "\<exists>wr. map_of (dt_stores ip) opcode = Some (n, wr) \<and> map_of (dt_loads mc) opcode = None \<and>
    (\<forall>m i x b. i + n \<le> length b \<longrightarrow> wr m i x b = take i b @ le_bytes n (unat x) @ drop (i + n) b)"
    using assms unfolding spec_stores_def
    by (simp split: if_split_asm; hypsubst;
        simp add: dt_stores_def dt_loads_def Let_def mem_write_u8_def mem_write_u16_def mem_write_u32_def mem_write_u64_def mem_write_f32_def mem_write_f64_def mem_write_bytes
          get_w32_def get_w64_def get_f32_def get_f64_def one le_bytes_low del: le_bytes.simps)
  with that show ?thesis by blast
qed

lemma dispatch_memory:
  assumes "map_of spec_loads opcode \<noteq> None \<or> map_of spec_stores opcode \<noteq> None"
  shows "dt_op ip ms env opcode fr v = (case dt_memory ip ms env opcode fr v of Some x \<Rightarrow> x | None \<Rightarrow> (case dt_value ip env opcode fr v of Some x \<Rightarrow> x | None \<Rightarrow> Stop E_malformed v))"
proof -
  have "opcode \<in> set (map fst spec_loads @ map fst spec_stores)"
    using assms by (auto dest: map_of_SomeD intro: rev_image_eqI simp del: map_of_eq_None_iff)
  then have "opcode \<notin> {0x00, 0x01, 0x02, 0x03, 0x04, 0x05, 0x0b, 0x0c, 0x0d, 0x0e, 0x0f, 0x10, 0x11, 0xfc, 0xfd,
      0x1a, 0x1b, 0x1c, 0x20, 0x21, 0x22, 0x23, 0x24, 0x25, 0x26}"
    by (auto simp: spec_loads_def spec_stores_def)
  then show ?thesis
    by (simp add: dt_op_def dt_control_def dt_variable_def)
qed

lemma push_after_pop: "pop fr = Inr (x, fr') \<Longrightarrow> \<exists>fr''. push y fr' = Inr fr''"
  by (auto simp: pop_def push_def split: if_splits)

lemma set_mem_found: "at_addr mi_memories v a = Inr m \<Longrightarrow> \<exists>w. set_addr mi_memories mi_memories_update x v a = Inr w"
proof -
  assume "at_addr mi_memories v a = Inr m"
  then obtain i j mi where "a = Some (i, j)" "the_inst v i = Inr mi" "j < length (vdata (mi_memories mi))"
    by (auto simp: at_addr_def vec_at_def res_simps split: option.splits if_splits)
  then show ?thesis
    by (simp add: set_addr_def vec_set_def)
qed

text \<open>
  C25. Loads and stores are those of the specification, for every opcode: with \<open>mem\<close> the bytes of the memory and \<open>ea\<close> the
  sum of address and offset, computed without wrap-around, the instruction traps exactly when the access of \<open>n\<close> bytes at \<open>ea\<close>
  leaves the memory, and then the state is unchanged.  Otherwise a load pushes the little-endian value of these bytes, sign- or
  zero-extended to the width of the result, and a store replaces them by the low bytes of the operand and changes no other byte.
\<close>

theorem memory_accesses:
  assumes "read_vu32 env (stream_seek_unchecked 1 fr) = Inr (offset, fr1)" "at_addr mi_memories v (de_mem0 env) = Inr m"
  defines "mem \<equiv> vdata (mdata m)"
  shows "(\<forall>n sx bits x fr2. map_of spec_loads opcode = Some (n, sx, bits) \<longrightarrow> pop fr1 = Inr (x, fr2) \<longrightarrow>
      (let ea = unat (get_w32 x) + unat offset in
       if length mem < ea + n then dt_op ip ms env opcode fr v = Stop E_general v
       else \<exists>y fr3. dt_op ip ms env opcode fr v = Next fr3 v \<and> push y fr2 = Inr fr3 \<and> holds_value bits y (spec_value n sx (take n (drop ea mem))))) \<and>
    (\<forall>n x y fr2 fr3. map_of spec_stores opcode = Some n \<longrightarrow> pop fr1 = Inr (y, fr2) \<longrightarrow> pop fr2 = Inr (x, fr3) \<longrightarrow>
      (let ea = unat (get_w32 x) + unat offset in
       if length mem < ea + n then dt_op ip ms env opcode fr v = Stop E_general v
       else \<exists>w. dt_op ip ms env opcode fr v = Next fr3 w \<and>
              set_addr mi_memories mi_memories_update
                (m\<lparr>mdata := (mdata m)\<lparr>vdata := take ea mem @ le_bytes n (unat y) @ drop (ea + n) mem\<rparr>\<rparr>) v (de_mem0 env) = Inr w))"
proof (intro conjI allI impI)
  fix n sx bits x fr2 assume o: "map_of spec_loads opcode = Some (n, sx, bits)" and x: "pop fr1 = Inr (x, fr2)"
  obtain rd where rd: "map_of (dt_loads (ip_mc ip)) opcode = Some (n, rd)"
      "\<And>m i. i + n \<le> length m \<Longrightarrow> holds_value bits (rd m i) (spec_value n sx (take n (drop i m)))"
    using load_value [OF o, where mc = "ip_mc ip"] by metis
  have "dt_op ip ms env opcode fr v = go v (dt_MEM_LOAD env n rd fr v)"
    using dispatch_memory [of opcode] o rd(1) by (simp add: dt_memory_def)
  then show "let ea = unat (get_w32 x) + unat offset in
       if length mem < ea + n then dt_op ip ms env opcode fr v = Stop E_general v
       else \<exists>y fr3. dt_op ip ms env opcode fr v = Next fr3 v \<and> push y fr2 = Inr fr3 \<and> holds_value bits y (spec_value n sx (take n (drop ea mem)))"
    using rd(2) [of "unat (get_w32 x) + unat offset" mem] push_after_pop [OF x, of "rd mem (unat (get_w32 x) + unat offset)"]
    by (auto simp: dt_MEM_LOAD_def assms(1) [unfolded One_nat_def] assms(2) mem_range_def x dt_let_def Let_def mem_def)
next
  fix n x y fr2 fr3 assume o: "map_of spec_stores opcode = Some n" and x: "pop fr1 = Inr (y, fr2)" "pop fr2 = Inr (x, fr3)"
  obtain wr where wr: "map_of (dt_stores ip) opcode = Some (n, wr)" "map_of (dt_loads (ip_mc ip)) opcode = None"
      "\<And>m i x b. i + n \<le> length b \<Longrightarrow> wr m i x b = take i b @ le_bytes n (unat x) @ drop (i + n) b"
    using store_bytes [OF o, where mc = "ip_mc ip" and ip = ip] by metis
  have "dt_op ip ms env opcode fr v = go2 v (dt_MEM_STORE env n wr fr v)"
    using dispatch_memory [of opcode] o wr(1,2) by (simp add: dt_memory_def)
  then show "let ea = unat (get_w32 x) + unat offset in
       if length mem < ea + n then dt_op ip ms env opcode fr v = Stop E_general v
       else \<exists>w. dt_op ip ms env opcode fr v = Next fr3 w \<and>
              set_addr mi_memories mi_memories_update
                (m\<lparr>mdata := (mdata m)\<lparr>vdata := take ea mem @ le_bytes n (unat y) @ drop (ea + n) mem\<rparr>\<rparr>) v (de_mem0 env) = Inr w"
    using wr(3) [of "unat (get_w32 x) + unat offset" mem m y]
      set_mem_found [OF assms(2), of "m\<lparr>mdata := (mdata m)\<lparr>vdata := take (unat (get_w32 x) + unat offset) mem @ le_bytes n (unat y) @ drop (unat (get_w32 x) + unat offset + n) mem\<rparr>\<rparr>"]
    by (auto simp: dt_MEM_STORE_def assms(1) [unfolded One_nat_def] assms(2) mem_range_def x dt_let_def Let_def mem_def)
qed

section \<open>Bulk operations\<close>

text \<open>The rules of the specification, one byte at a time; a copy starts at the end that keeps the source intact.\<close>

fun spec_copy :: "nat \<Rightarrow> nat \<Rightarrow> nat \<Rightarrow> u8 list \<Rightarrow> u8 list" where
  "spec_copy 0 d s mem = mem"
| "spec_copy (Suc n) d s mem =
     (if d \<le> s then spec_copy n (Suc d) (Suc s) (mem[d := mem ! s])
      else spec_copy n d s (mem[d + n := mem ! (s + n)]))"

fun spec_fill :: "nat \<Rightarrow> nat \<Rightarrow> u8 \<Rightarrow> u8 list \<Rightarrow> u8 list" where
  "spec_fill 0 d b mem = mem"
| "spec_fill (Suc n) d b mem = spec_fill n (Suc d) b (mem[d := b])"

fun spec_init :: "nat \<Rightarrow> nat \<Rightarrow> nat \<Rightarrow> u8 list \<Rightarrow> u8 list \<Rightarrow> u8 list" where
  "spec_init 0 d s bytes mem = mem"
| "spec_init (Suc n) d s bytes mem = spec_init n (Suc d) (Suc s) bytes (mem[d := bytes ! s])"

definition patch :: "nat \<Rightarrow> u8 list \<Rightarrow> u8 list \<Rightarrow> u8 list" where
  "patch d bs mem = take d mem @ bs @ drop (d + length bs) mem"

lemma patch_nth: "d + length bs \<le> length mem \<Longrightarrow> i < length mem \<Longrightarrow> patch d bs mem ! i = (if d \<le> i \<and> i < d + length bs then bs ! (i - d) else mem ! i)"
  by (auto simp: patch_def nth_append)

lemma patch_Nil [simp]: "patch d [] mem = mem"
  by (simp add: patch_def)

lemma patch_length: "d + length bs \<le> length mem \<Longrightarrow> length (patch d bs mem) = length mem"
  by (simp add: patch_def)

lemma spec_copy_length [simp]: "length (spec_copy n d s mem) = length mem"
  by (induction n d s mem rule: spec_copy.induct) simp_all

lemma spec_copy_nth:
  "s + n \<le> length mem \<Longrightarrow> d + n \<le> length mem \<Longrightarrow> i < length mem \<Longrightarrow>
   spec_copy n d s mem ! i = (if d \<le> i \<and> i < d + n then mem ! (s + (i - d)) else mem ! i)"
proof (induction n d s mem rule: spec_copy.induct)
  case (2 n d s mem)
  then show ?case
    by (auto simp: nth_list_update Suc_diff_Suc less_Suc_eq)
qed auto

lemma spec_copy_patch:
  assumes "s + n \<le> length mem" "d + n \<le> length mem"
  shows "spec_copy n d s mem = patch d (take n (drop s mem)) mem"
  by (rule nth_equalityI) (use assms in \<open>auto simp: patch_length spec_copy_nth patch_nth\<close>)

lemma spec_fill_patch: "d + n \<le> length mem \<Longrightarrow> spec_fill n d b mem = patch d (replicate n b) mem"
proof (induction n d b mem rule: spec_fill.induct)
  case (2 n d b mem)
  then show ?case
    by (intro nth_equalityI) (auto simp: patch_length patch_nth nth_list_update nth_Cons' simp del: replicate.simps)
qed (simp add: patch_def)

lemma spec_init_patch:
  "d + n \<le> length mem \<Longrightarrow> s + n \<le> length bytes \<Longrightarrow> spec_init n d s bytes mem = patch d (take n (drop s bytes)) mem"
proof (induction n d s bytes mem rule: spec_init.induct)
  case (2 n d s bytes mem)
  then show ?case
    by (intro nth_equalityI) (auto simp: patch_length patch_nth nth_list_update intro!: arg_cong [where f = "nth bytes"])
qed (simp add: patch_def)

text \<open>The vm in which the memory at an address holds other bytes.\<close>

definition with_bytes :: "vm \<Rightarrow> addr option \<Rightarrow> memory_inst \<Rightarrow> u8 list \<Rightarrow> vm res" where
  "with_bytes v a m bytes = set_addr mi_memories mi_memories_update (m\<lparr>mdata := (mdata m)\<lparr>vdata := bytes\<rparr>\<rparr>) v a"

lemma with_same_bytes: "at_addr mi_memories v a = Inr m \<Longrightarrow> with_bytes v a m (vdata (mdata m)) = Inr v"
proof -
  assume "at_addr mi_memories v a = Inr m"
  then obtain i j mi where a: "a = Some (i, j)" "the_inst v i = Inr mi" "j < length (vdata (mi_memories mi))" "m = vdata (mi_memories mi) ! j"
    by (auto simp: at_addr_def vec_at_def res_simps split: option.splits if_splits)
  have "m\<lparr>mdata := (mdata m)\<lparr>vdata := vdata (mdata m)\<rparr>\<rparr> = m"
    by simp
  then have "with_bytes v a m (vdata (mdata m)) = Inr (set_inst i mi v)"
    using a by (simp add: with_bytes_def set_addr_def vec_set_def)
  also have "set_inst i mi v = v"
    using a(2) by (auto simp: set_inst_def the_inst_def split: if_splits)
  finally show ?thesis .
qed

lemma mem_copy_in_bytes:
  "at_addr mi_memories v a = Inr m \<Longrightarrow> d + length bs \<le> length (vdata (mdata m)) \<Longrightarrow> mem_copy_in a d bs v = with_bytes v a m (patch d bs (vdata (mdata m)))"
  by (simp add: mem_copy_in_def with_bytes_def patch_def Let_def)

lemma with_bytes_found:
  "at_addr mi_memories v a = Inr m \<Longrightarrow> \<exists>w. with_bytes v a m bs = Inr w \<and> unwrap (with_bytes v a m bs) (\<lambda>v. Inr (fr, v)) = Inr (fr :: frame, w)"
  using set_mem_found unfolding with_bytes_def by force

text \<open>
  C26. The bulk instructions on a memory of bytes \<open>mem\<close>: they trap exactly when a range leaves the memory or the segment, or a
  segment that has been dropped is read, and otherwise leave the bytes that the rules of the specification produce one byte at a time;
  in particular overlapping ranges are copied correctly.
\<close>

theorem bulk_memory:
  assumes "at_addr mi_memories v (de_mem0 env) = Inr m"
  defines "mem \<equiv> vdata (mdata m)"
  shows "(\<forall>x y z fr1. pop3 (stream_seek_unchecked 2 fr) = Inr (x, y, z, fr1) \<longrightarrow>
      (let n = unat (get_w32 x); s = unat (get_w32 y); d = unat (get_w32 z) in
       if length mem < s + n \<or> length mem < d + n then dt_memory_copy env fr v = Inl E_general
       else \<exists>w. with_bytes v (de_mem0 env) m (spec_copy n d s mem) = Inr w \<and> dt_memory_copy env fr v = Inr (fr1, w))) \<and>
    (\<forall>x y z fr1. pop3 (stream_seek_unchecked 1 fr) = Inr (x, y, z, fr1) \<longrightarrow>
      (let n = unat (get_w32 x); d = unat (get_w32 z) in
       if length mem < d + n then dt_memory_fill env fr v = Inl E_general
       else \<exists>w. with_bytes v (de_mem0 env) m (spec_fill n d (ucast y) mem) = Inr w \<and> dt_memory_fill env fr v = Inr (fr1, w))) \<and>
    (\<forall>i fr0 mi md seg dropped x y z fr1. read_vu32 env fr = Inr (i, fr0) \<longrightarrow> the_inst v (de_inst env) = Inr mi \<longrightarrow> the_mod ms (mi_mod mi) = Inr md \<longrightarrow>
      vec_at (m_data md) (unat i) = Inr seg \<longrightarrow> vec_at (dropped_data mi) (unat i) = Inr dropped \<longrightarrow>
      pop3 (stream_seek_unchecked 1 fr0) = Inr (x, y, z, fr1) \<longrightarrow>
      (let n = unat (get_w32 x); s = unat (get_w32 y); d = unat (get_w32 z); bytes = d_bytes seg in
       if length bytes < s + n \<or> length mem < d + n \<or> dropped \<noteq> 0 \<and> n \<noteq> 0 then dt_memory_init ms env fr v = Inl E_general
       else \<exists>w. with_bytes v (de_mem0 env) m (spec_init n d s bytes mem) = Inr w \<and> dt_memory_init ms env fr v = Inr (fr1, w)))"
proof (intro conjI allI impI, goal_cases)
  case (1 x y z fr1)
  then show ?case
    using assms(1) with_same_bytes [OF assms(1)] with_bytes_found [OF assms(1)]
    by (auto simp: dt_memory_copy_def Let_def mem_def spec_copy_patch mem_copy_in_bytes [OF assms(1)])
next
  case (2 x y z fr1)
  have "(ucast (get_w32 y) :: u8) = ucast y"
    by (rule bit_word_eqI) (simp add: get_w32_def bit_simps)
  with 2 show ?case
    using assms(1) with_same_bytes [OF assms(1)] with_bytes_found [OF assms(1)]
    by (auto simp: dt_memory_fill_def Let_def mem_def spec_fill_patch mem_copy_in_bytes [OF assms(1)])
next
  case (3 i fr0 mi md seg dropped x y z fr1)
  then show ?case
    using assms(1) with_same_bytes [OF assms(1)] with_bytes_found [OF assms(1)]
    by (auto simp: dt_memory_init_def Let_def mem_def spec_init_patch mem_copy_in_bytes [OF assms(1)])
qed

section \<open>Growing\<close>

text \<open>
  C27. The size of a memory and its growth, on a memory of whole pages: \<open>memory.size\<close> is the number of pages.  \<open>memory.grow\<close>
  never fails otherwise than by the result -1, which leaves the vm unchanged; while memory can be allocated it gives -1 exactly when
  the maximum of the memory would be exceeded, and otherwise the number of pages before, with as many zero pages as were asked for appended
  to the bytes.
\<close>

theorem memory_growth:
  assumes "at_addr mi_memories v (de_mem0 env) = Inr m" "addr_mem ms v (de_mem0 env) = Inr decl" "WASM_PAGE_SIZE dvd vec_size (mdata m)"
    "pop (stream_seek_unchecked 1 fr) = Inr (x, fr1)"
  defines "pages \<equiv> vec_size (mdata m) div WASM_PAGE_SIZE" and "n \<equiv> unat (get_w32 x)"
  shows "dt_memory_size ip env fr v = push_i32 ip (int pages) (stream_seek_unchecked 1 fr) \<and>
    (\<exists>k fr2 w. dt_memory_grow ip ms env fr v = Inr (fr2, w) \<and> push_i32 ip k fr1 = Inr fr2 \<and>
       (k = - 1 \<and> w = v \<or>
        k = int pages \<and> pages + n \<le> unat (lim_max (mem_lim decl)) \<and>
          (\<exists>m'. at_addr mi_memories w (de_mem0 env) = Inr m' \<and> vdata (mdata m') = vdata (mdata m) @ replicate (n * WASM_PAGE_SIZE) 0)) \<and>
       ((\<forall>z. ip_am ip T_u8 z) \<longrightarrow> \<not> vfixed (mdata m) \<longrightarrow> (k = - 1 \<longleftrightarrow> unat (lim_max (mem_lim decl)) < pages + n)))"
proof -
  have size: "vec_size (mdata m) = pages * WASM_PAGE_SIZE"
    unfolding pages_def using assms(3) by (rule dvd_div_mult_self [symmetric])
  obtain fr2 where push1: "push_i32 ip (- 1) fr1 = Inr fr2"
    using push_after_pop [OF assms(4)] by (auto simp: push_i32_def)
  obtain fr3 where push2: "push_i32 ip (int pages) fr1 = Inr fr3"
    using push_after_pop [OF assms(4)] by (auto simp: push_i32_def)
  have one: "dt_memory_size ip env fr v = push_i32 ip (int pages) (stream_seek_unchecked 1 fr)"
    by (simp add: dt_memory_size_def assms(1) pages_def)
  let ?r = "if pages + n \<le> unat (lim_max (mem_lim decl)) then vec_resize (ip_am ip T_u8) 0 (mdata m) ((pages + n) * WASM_PAGE_SIZE) else Inl E_general"
  have grow: "dt_memory_grow ip ms env fr v = (case ?r of Inl e \<Rightarrow> Inr (fr2, v)
      | Inr d \<Rightarrow> unwrap (set_addr mi_memories mi_memories_update (m\<lparr>mdata := d\<rparr>) v (de_mem0 env)) (\<lambda>w. Inr (fr3, w)))"
    using push1 push2 assms(1,2,4) by (simp add: dt_memory_grow_def pages_def n_def Let_def split: sum.split)
  show ?thesis
  proof (cases ?r)
    case (Inl e)
    then have "unat (lim_max (mem_lim decl)) < pages + n" if "\<forall>z. ip_am ip T_u8 z" "\<not> vfixed (mdata m)"
      using that by (auto simp: vec_resize_def vec_reserve_def res_simps split: if_splits)
    with one grow Inl push1 show ?thesis by auto
  next
    case (Inr d)
    then have d: "vec_resize (ip_am ip T_u8) 0 (mdata m) ((pages + n) * WASM_PAGE_SIZE) = Inr d" and le: "pages + n \<le> unat (lim_max (mem_lim decl))"
      by (auto split: if_splits)
    have bytes: "vdata d = vdata (mdata m) @ replicate (n * WASM_PAGE_SIZE) 0"
      using vec_resize_data [OF d] size by (simp add: distrib_right)
    obtain w where w: "set_addr mi_memories mi_memories_update (m\<lparr>mdata := d\<rparr>) v (de_mem0 env) = Inr w"
      using set_mem_found [OF assms(1)] by blast
    have "at_addr mi_memories w (de_mem0 env) = Inr (m\<lparr>mdata := d\<rparr>)"
      using at_set_addr [OF assms(1) w]
    proof cases
      case (1 i j mi)
      then show ?thesis by (simp add: at_addr_updated [where x = mi and z = "m\<lparr>mdata := d\<rparr>"])
    qed
    with one grow Inr push2 bytes le w show ?thesis by force
  qed
qed

section \<open>Examples\<close>

definition bytes_vm :: "u8 list \<Rightarrow> vm" where
  "bytes_vm bs = run_vm\<lparr>instances := [(instances run_vm ! 0)\<lparr>mi_memories := vec_of [\<lparr>mi_mem = 0, mdata = vec_of bs\<rparr>]\<rparr>]\<rparr>"

definition bytes_env :: dt_env where
  "bytes_env = \<lparr>de_fn = func_zero\<lparr>f_code := [0, 1, 0]\<rparr>, de_inst = 0, de_mem0 = Some (0, 0)\<rparr>"

definition bytes_frame :: "value_u list \<Rightarrow> nat \<Rightarrow> frame" where
  "bytes_frame st pc = \<lparr>fr_local = [], fr_stack = st, fr_sp = length st, fr_pc = pc, fr_jt = 0\<rparr>"

lemma bytes_found: "at_addr mi_memories (bytes_vm bs) (de_mem0 bytes_env) = Inr \<lparr>mi_mem = 0, mdata = vec_of bs\<rparr>"
  by (simp add: at_addr_def the_inst_def bytes_vm_def bytes_env_def vec_at_def vec_of_def)

text \<open>\<open>i32.load16_s offset=1\<close> at address 1 of the bytes 0, 1, 2, 0xff\<close>

theorem memory_accesses_witness:
  "\<exists>y. dt_op run_interp run_mods bytes_env 0x2e (bytes_frame [1] 0) (bytes_vm [0, 1, 2, 0xff]) =
         Next \<lparr>fr_local = [], fr_stack = [y], fr_sp = 1, fr_pc = 2, fr_jt = 0\<rparr> (bytes_vm [0, 1, 2, 0xff]) \<and> get_i32 y = - 254 \<and>
   dt_op run_interp run_mods bytes_env 0x28 (bytes_frame [1] 0) (bytes_vm [0, 1, 2, 0xff]) = Stop E_general (bytes_vm [0, 1, 2, 0xff])"
proof -
  let ?v = "bytes_vm [0, 1, 2, 0xff]"
  have rd: "read_vu32 bytes_env (stream_seek_unchecked 1 (bytes_frame [1] 0)) = Inr (1, bytes_frame [1] 2)" "pop (bytes_frame [1] 2) = Inr (1, (bytes_frame [1] 2)\<lparr>fr_sp := 0\<rparr>)"
      "get_w32 1 = 1" "map_of spec_loads 0x2e = Some (2, True, 32)" "map_of spec_loads 0x28 = Some (4, False, 32)"
    by code_simp+
  note * = memory_accesses [OF rd(1) bytes_found [of "[0, 1, 2, 0xff]"], where ip = run_interp and ms = run_mods, THEN conjunct1, rule_format, OF _ rd(2), unfolded Let_def]
  have "dt_op run_interp run_mods bytes_env 0x28 (bytes_frame [1] 0) ?v = Stop E_general ?v"
    using * [OF rd(5)] by (simp add: rd(3) vec_of_def)
  moreover obtain y where y: "dt_op run_interp run_mods bytes_env 0x2e (bytes_frame [1] 0) ?v = Next ((bytes_frame [1] 2)\<lparr>fr_stack := [y]\<rparr>) ?v"
      "holds_value 32 y (spec_value 2 True [2, 0xff])"
    using * [OF rd(4)] by (auto simp: rd(3) vec_of_def push_def bytes_frame_def)
  moreover have "spec_value 2 True [2, 0xff] = - 254"
    by (simp add: spec_value_def)
  ultimately show ?thesis
    by (auto simp: bytes_frame_def holds_value_def get_i32_def get_w32_def)
qed

text \<open>Copying three bytes from 0 to 1 over themselves\<close>

theorem bulk_memory_witness:
  "\<exists>w. dt_memory_copy bytes_env (bytes_frame [1, 0, 3] 0) (bytes_vm [1, 2, 3, 4]) = Inr (\<lparr>fr_local = [], fr_stack = [1, 0, 3], fr_sp = 0, fr_pc = 2, fr_jt = 0\<rparr>, w) \<and>
     with_bytes (bytes_vm [1, 2, 3, 4]) (Some (0, 0)) \<lparr>mi_mem = 0, mdata = vec_of [1, 2, 3, 4]\<rparr> [1, 1, 2, 3] = Inr w"
proof -
  have 1: "pop3 (stream_seek_unchecked 2 (bytes_frame [1, 0, 3] 0)) = Inr (3, 0, 1, \<lparr>fr_local = [], fr_stack = [1, 0, 3], fr_sp = 0, fr_pc = 2, fr_jt = 0\<rparr>)"
      "unat (get_w32 3) = 3" "unat (get_w32 0) = 0" "unat (get_w32 1) = 1" "spec_copy 3 1 0 [1, 2, 3, 4] = [1, 1, 2, 3]"
    by code_simp+
  from bulk_memory [OF bytes_found [of "[1, 2, 3, 4]"], THEN conjunct1, rule_format, OF 1(1), unfolded Let_def 1(2-4)]
  show ?thesis
    by (auto simp: 1(5) [unfolded One_nat_def] vec_of_def bytes_env_def)
qed

text \<open>A memory of no pages and no maximum above zero\<close>

theorem memory_growth_witness:
  "\<exists>fr2. dt_memory_grow run_interp run_mods bytes_env (bytes_frame [1] 0) (bytes_vm []) = Inr (fr2, bytes_vm [])"
proof -
  have 1: "pop (stream_seek_unchecked 1 (bytes_frame [1] 0)) = Inr (1, (bytes_frame [1] 1)\<lparr>fr_sp := 0\<rparr>)" "unat (get_w32 1) = 1"
    by code_simp+
  have 2: "addr_mem run_mods (bytes_vm []) (de_mem0 bytes_env) = Inr \<lparr>mem_lim = \<lparr>lim_min = 0, lim_max = 0\<rparr>, mem_linkage = 0, mem_path = path_null\<rparr>"
    by (simp add: addr_mem_def bytes_found addr_module_def)
      (simp add: bytes_env_def the_inst_def the_mod_def bytes_vm_def run_vm_def run_mods_def vec_of_def vec_at_def module_inst_zero_def)
  have 3: "WASM_PAGE_SIZE dvd vec_size (mdata \<lparr>mi_mem = 0, mdata = vec_of ([] :: u8 list)\<rparr>)"
    by (simp add: vec_of_def)
  from memory_growth [OF bytes_found 2 3 1(1), of run_interp] 1(2) show ?thesis
    by (auto simp: vec_of_def run_interp_def)
qed

end
