(* ===== verification/In_Place_Tco.thy ===== *)
theory In_Place_Tco
  imports In_Place_Dt
begin

text \<open>
  The second interpreter: src/src/interpreter/in_place_tco.c, where every instruction is a function
  that ends in a call of the function of the next instruction.

  A handler reads the opcode of its successor (\<open>READ_NEXT_OP\<close>) before it has done its own work, so
  a state of the interpreter holds an opcode that has been fetched, and \<open>pc\<close> behind it.  The
  operand stack, the locals, \<open>pc\<close> and \<open>next_jt_idx\<close> are the \<open>frame\<close> of the first interpreter; the rest of
  \<open>call_ctx\<close> that stays the same during a call is its \<open>dt_env\<close>.  What is new is the cache of the memory
  in \<open>call_ctx\<close>: \<open>mem0_size\<close> and the data pointer \<open>mem0\<close>.  The data pointer of a vector changes when
  \<open>vec_reserve\<close> allocates, which is when the capacity grows, so the model of \<open>mem0\<close> is the capacity at the time it
  was read; an access through a pointer that is no longer the vector's is \<open>Fault\<close>.

  A handler returns a plain message, without a category: \<open>E_plain\<close>.
\<close>

section \<open>State\<close>

record mem_cache =
  mem0 :: nat
  mem0_size :: nat

datatype tco_out =
    TNext u8 frame mem_cache vm
  | TStop err vm
  | TReturn frame vm
  | TInvoke addr "value_u list" bool bool u8 frame vm

definition tco_let :: "'a res \<Rightarrow> vm \<Rightarrow> ('a \<Rightarrow> tco_out) \<Rightarrow> tco_out" where
  "tco_let r v f = (case r of Inl e \<Rightarrow> TStop e v | Inr x \<Rightarrow> f x)"

text \<open>\<open>handler = ((op_handler *)handler_base)[stream_read_u8_unchecked(pc)]\<close>\<close>

definition READ_NEXT_OP :: "dt_env \<Rightarrow> frame \<Rightarrow> (u8 \<times> frame) res" where
  "READ_NEXT_OP env fr = read_u8 env fr"

text \<open>The operations that both interpreters share stop with a category; here it is dropped.\<close>

definition plain :: "'a res \<Rightarrow> 'a res" where
  "plain r = (case r of Inl e \<Rightarrow> Inl (if e = Fault then Fault else E_plain) | Inr x \<Rightarrow> Inr x)"

section \<open>Control\<close>

definition tco_if :: "dt_env \<Rightarrow> frame \<Rightarrow> (u8 \<times> frame) res" where
  "tco_if env fr =
     unwrap (pop fr) (\<lambda>(c, fr).
     if get_i32 c \<noteq> 0 then
       unwrap (READ_NEXT_OP env (stream_seek_unchecked 1 fr)) (\<lambda>(handler, fr). Inr (handler, fr\<lparr>fr_jt := fr_jt fr + 1\<rparr>))
     else unwrap (slot_here env fr) (\<lambda>tbl. unwrap (jump env tbl fr) (READ_NEXT_OP env)))"

definition tco_else :: "dt_env \<Rightarrow> frame \<Rightarrow> (u8 \<times> frame) res" where
  "tco_else env fr = unwrap (slot_here env fr) (\<lambda>tbl. unwrap (jump env tbl fr) (READ_NEXT_OP env))"

definition tco_br :: "dt_env \<Rightarrow> frame \<Rightarrow> (u8 \<times> frame) res" where
  "tco_br env fr =
     unwrap (slot_here env fr) (\<lambda>tbl.
     unwrap (jump env tbl fr) (\<lambda>fr.
     unwrap (READ_NEXT_OP env fr) (\<lambda>(handler, fr).
     unwrap (unwind tbl fr) (\<lambda>fr. Inr (handler, fr)))))"

definition tco_br_if :: "dt_env \<Rightarrow> frame \<Rightarrow> (u8 \<times> frame) res" where
  "tco_br_if env fr =
     unwrap (pop fr) (\<lambda>(c, fr).
     if get_i32 c \<noteq> 0 then tco_br env fr
     else
       unwrap (READ_NEXT_OP env (stream_seek_unchecked 1 fr)) (\<lambda>(handler, fr). Inr (handler, fr\<lparr>fr_jt := fr_jt fr + 1\<rparr>)))"

definition tco_br_table :: "dt_env \<Rightarrow> frame \<Rightarrow> (u8 \<times> frame) res" where
  "tco_br_table env fr =
     unwrap (pop fr) (\<lambda>(c, fr).
     unwrap (read_vu32 env fr) (\<lambda>(table_len, fr).
     let i = (if get_w32 c > table_len then table_len else get_w32 c);
         fr = stream_seek_unchecked (unat (table_len + 1)) fr in
     tco_br env (fr\<lparr>fr_jt := fr_jt fr + ucast i\<rparr>)))"

definition tco_control :: "dt_env \<Rightarrow> u8 \<Rightarrow> frame \<Rightarrow> mem_cache \<Rightarrow> vm \<Rightarrow> tco_out option" where
  "tco_control env opcode fr c v =
     (let go = (\<lambda>r. Some (tco_let r v (\<lambda>(handler, fr). TNext handler fr c v))) in
      if opcode = 0x00 then Some (TStop E_plain v)
      else if opcode = 0x01 then go (READ_NEXT_OP env fr)
      else if opcode = 0x02 then go (READ_NEXT_OP env (stream_seek_unchecked 1 fr))
      else if opcode = 0x03 then go (READ_NEXT_OP env (stream_seek_unchecked 1 fr))
      else if opcode = 0x04 then go (tco_if env fr)
      else if opcode = 0x05 then go (tco_else env fr)
      else if opcode = 0x0b then
        (if fr_pc fr = length (f_code (de_fn env)) then Some (TReturn fr v) else go (READ_NEXT_OP env fr))
      else if opcode = 0x0c then go (tco_br env fr)
      else if opcode = 0x0d then go (tco_br_if env fr)
      else if opcode = 0x0e then go (tco_br_table env fr)
      else if opcode = 0x0f then Some (TReturn fr v)
      else None)"

section \<open>Calls\<close>

definition tco_op_call :: "mods \<Rightarrow> dt_env \<Rightarrow> frame \<Rightarrow> vm \<Rightarrow> tco_out" where
  "tco_op_call ms env fr v =
     tco_let (read_vu32 env fr) v (\<lambda>(fn_idx_local, fr).
     tco_let (READ_NEXT_OP env fr) v (\<lambda>(handler, fr).
     tco_let (unwrap (the_inst v (de_inst env)) (\<lambda>mi. vec_at (f_addrs mi) (unat fn_idx_local))) v (\<lambda>callee_addr.
     tco_let (addr_fn ms v callee_addr) v (\<lambda>callee_fn.
     tco_let (drop_args callee_fn fr) v (\<lambda>fr.
     if fr_sp fr + unat (local_count callee_fn) > unat (f_stack_size_max (de_fn env)) then TStop Fault v
     else TInvoke (the callee_addr) (drop (fr_sp fr) (fr_stack fr)) False True handler fr v)))))"

definition tco_call_indirect :: "interp \<Rightarrow> mods \<Rightarrow> dt_env \<Rightarrow> frame \<Rightarrow> vm \<Rightarrow> tco_out" where
  "tco_call_indirect ip ms env fr v =
     tco_let (read_vu32 env fr) v (\<lambda>(type_idx, fr).
     tco_let (the_inst v (de_inst env)) v (\<lambda>mi.
     tco_let (unwrap (the_mod ms (mi_mod mi)) (\<lambda>m. vec_at (func_types m) (unat type_idx))) v (\<lambda>src_type.
     tco_let (read_vu32 env fr) v (\<lambda>(table_idx, fr).
     tco_let (READ_NEXT_OP env fr) v (\<lambda>(handler, fr).
     tco_let (vec_at (t_addrs mi) (unat table_idx)) v (\<lambda>t_addr.
     tco_let (pop fr) v (\<lambda>(x, fr).
     tco_let (at_addr mi_tables v t_addr) v (\<lambda>ti.
     let i = get_i32 x in
     if i < 0 \<or> nat i \<ge> vec_size (tdata ti) then TStop E_plain v
     else
       tco_let (vec_at (tdata ti) (nat i)) v (\<lambda>fref.
       if fref = nullref then TStop E_plain v
       else
         tco_let (to_func_addr (ip_lay ip) v fref) v (\<lambda>callee_addr.
         tco_let (addr_fn ms v (Some callee_addr)) v (\<lambda>callee_fn.
         if \<not> func_type_eq (fn_type callee_fn) src_type then TStop E_plain v
         else
           tco_let (drop_args callee_fn fr) v (\<lambda>fr.
           let n = unat (param_count (fn_type callee_fn)); args = drop (fr_sp fr) (fr_stack fr) in
           if local_count callee_fn - ucast (param_count (fn_type callee_fn)) \<noteq> 0 then
             if \<not> ip_malloc ip (unat (local_count callee_fn)) then TStop E_plain v
             else if unat (local_count callee_fn) < n then TStop Fault v
             else TInvoke callee_addr
                    (take n args @ replicate (unat (local_count callee_fn) - n) (mc_undef (ip_mc ip))) True False handler fr v
           else TInvoke callee_addr args False False handler fr v))))))))))))"

section \<open>Variables\<close>

definition tco_select :: "dt_env \<Rightarrow> frame \<Rightarrow> (u8 \<times> frame) res" where
  "tco_select env fr =
     unwrap (READ_NEXT_OP env fr) (\<lambda>(handler, fr).
     unwrap (pop3 fr) (\<lambda>(cond, false_val, true_val, fr).
     unwrap (if get_i32 cond \<noteq> 0 then push true_val fr else push false_val fr) (\<lambda>fr. Inr (handler, fr))))"

definition tco_local_get :: "dt_env \<Rightarrow> frame \<Rightarrow> (u8 \<times> frame) res" where
  "tco_local_get env fr =
     unwrap (read_vu32 env fr) (\<lambda>(i, fr).
     unwrap (local_read fr i) (\<lambda>x.
     unwrap (READ_NEXT_OP env fr) (\<lambda>(handler, fr).
     unwrap (push x fr) (\<lambda>fr. Inr (handler, fr)))))"

definition tco_local_set :: "dt_env \<Rightarrow> frame \<Rightarrow> (u8 \<times> frame) res" where
  "tco_local_set env fr =
     unwrap (pop fr) (\<lambda>(x, fr).
     unwrap (read_vu32 env fr) (\<lambda>(i, fr).
     unwrap (READ_NEXT_OP env fr) (\<lambda>(handler, fr).
     unwrap (local_write i x fr) (\<lambda>fr. Inr (handler, fr)))))"

definition tco_local_tee :: "dt_env \<Rightarrow> frame \<Rightarrow> (u8 \<times> frame) res" where
  "tco_local_tee env fr =
     unwrap (pop fr) (\<lambda>(x, _).
     unwrap (read_vu32 env fr) (\<lambda>(i, fr).
     unwrap (READ_NEXT_OP env fr) (\<lambda>(handler, fr).
     unwrap (local_write i x fr) (\<lambda>fr. Inr (handler, fr)))))"

definition tco_global_get :: "dt_env \<Rightarrow> frame \<Rightarrow> vm \<Rightarrow> (u8 \<times> frame) res" where
  "tco_global_get env fr v =
     unwrap (read_vu32 env fr) (\<lambda>(i, fr).
     unwrap (READ_NEXT_OP env fr) (\<lambda>(handler, fr).
     unwrap (global_addr env v i) (\<lambda>g_addr.
     unwrap (at_addr mi_globals v g_addr) (\<lambda>gi.
     unwrap (push (gvalue gi) fr) (\<lambda>fr. Inr (handler, fr))))))"

definition tco_global_set :: "dt_env \<Rightarrow> frame \<Rightarrow> vm \<Rightarrow> (u8 \<times> frame \<times> vm) res" where
  "tco_global_set env fr v =
     unwrap (read_vu32 env fr) (\<lambda>(i, fr).
     unwrap (READ_NEXT_OP env fr) (\<lambda>(handler, fr).
     unwrap (global_addr env v i) (\<lambda>g_addr.
     unwrap (pop fr) (\<lambda>(x, fr).
     unwrap (at_addr mi_globals v g_addr) (\<lambda>gi.
     unwrap (set_addr mi_globals mi_globals_update (gi\<lparr>gvalue := x\<rparr>) v g_addr) (\<lambda>v. Inr (handler, fr, v)))))))"

definition tco_table_get :: "dt_env \<Rightarrow> frame \<Rightarrow> vm \<Rightarrow> (u8 \<times> frame) res" where
  "tco_table_get env fr v =
     unwrap (read_vu32 env fr) (\<lambda>(i, fr).
     unwrap (READ_NEXT_OP env fr) (\<lambda>(handler, fr).
     unwrap (table_addr env v i) (\<lambda>t_addr.
     unwrap (pop fr) (\<lambda>(x, fr).
     unwrap (at_addr mi_tables v t_addr) (\<lambda>ti.
     if unat (get_w32 x) \<ge> vec_size (tdata ti) then Inl E_plain
     else unwrap (vec_at (tdata ti) (unat (get_w32 x))) (\<lambda>y. unwrap (push y fr) (\<lambda>fr. Inr (handler, fr))))))))"

definition tco_table_set :: "dt_env \<Rightarrow> frame \<Rightarrow> vm \<Rightarrow> (u8 \<times> frame \<times> vm) res" where
  "tco_table_set env fr v =
     unwrap (read_vu32 env fr) (\<lambda>(i, fr).
     unwrap (READ_NEXT_OP env fr) (\<lambda>(handler, fr).
     unwrap (table_addr env v i) (\<lambda>t_addr.
     unwrap (pop fr) (\<lambda>(y, fr).
     unwrap (pop fr) (\<lambda>(x, fr).
     unwrap (at_addr mi_tables v t_addr) (\<lambda>ti.
     if unat (get_w32 x) \<ge> vec_size (tdata ti) then Inl E_plain
     else unwrap (set_tab_elem t_addr (unat (get_w32 x)) y v) (\<lambda>v. Inr (handler, fr, v))))))))"

definition tco_variable :: "dt_env \<Rightarrow> u8 \<Rightarrow> frame \<Rightarrow> mem_cache \<Rightarrow> vm \<Rightarrow> tco_out option" where
  "tco_variable env opcode fr c v =
     (let go = (\<lambda>r. Some (tco_let r v (\<lambda>(handler, fr). TNext handler fr c v)));
          go2 = (\<lambda>r. Some (tco_let r v (\<lambda>(handler, fr, v). TNext handler fr c v))) in
      if opcode = 0x1a then
        go (unwrap (READ_NEXT_OP env fr) (\<lambda>(handler, fr). unwrap (pop fr) (\<lambda>(x, fr). Inr (handler, fr))))
      else if opcode = 0x1b then go (tco_select env fr)
      else if opcode = 0x1c then go (tco_select env (stream_seek_unchecked 2 fr))
      else if opcode = 0x20 then go (tco_local_get env fr)
      else if opcode = 0x21 then go (tco_local_set env fr)
      else if opcode = 0x22 then go (tco_local_tee env fr)
      else if opcode = 0x23 then go (tco_global_get env fr v)
      else if opcode = 0x24 then go2 (tco_global_set env fr v)
      else if opcode = 0x25 then go (tco_table_get env fr v)
      else if opcode = 0x26 then go2 (tco_table_set env fr v)
      else None)"

section \<open>Memory\<close>

text \<open>The memory behind the cached pointer.\<close>

definition mem0_data :: "dt_env \<Rightarrow> mem_cache \<Rightarrow> vm \<Rightarrow> memory_inst res" where
  "mem0_data env c v =
     unwrap (at_addr mi_memories v (de_mem0 env)) (\<lambda>m. if vcap (mdata m) \<noteq> mem0 c then Inl Fault else Inr m)"

definition tco_range :: "dt_env \<Rightarrow> mem_cache \<Rightarrow> vm \<Rightarrow> value_u \<Rightarrow> u32 \<Rightarrow> nat \<Rightarrow> (memory_inst \<times> nat) res" where
  "tco_range env c v x offset n =
     (let mem_idx = unat (get_w32 x) + unat offset in
      if mem_idx + n > mem0_size c then Inl E_plain
      else unwrap (mem0_data env c v) (\<lambda>m. if mem_idx + n > vec_size (mdata m) then Inl Fault else Inr (m, mem_idx)))"

definition MEM_LOAD_OP ::
  "dt_env \<Rightarrow> nat \<Rightarrow> (u8 list \<Rightarrow> nat \<Rightarrow> value_u) \<Rightarrow> frame \<Rightarrow> mem_cache \<Rightarrow> vm \<Rightarrow> (u8 \<times> frame) res" where
  "MEM_LOAD_OP env n rd fr c v =
     unwrap (read_vu32 env (stream_seek_unchecked 1 fr)) (\<lambda>(offset, fr).
     unwrap (READ_NEXT_OP env fr) (\<lambda>(handler, fr).
     unwrap (pop fr) (\<lambda>(x, fr).
     unwrap (tco_range env c v x offset n) (\<lambda>(m, mem_idx).
     unwrap (push (rd (vdata (mdata m)) mem_idx) fr) (\<lambda>fr. Inr (handler, fr))))))"

definition MEM_STORE_OP ::
  "dt_env \<Rightarrow> nat \<Rightarrow> (memory_inst \<Rightarrow> nat \<Rightarrow> value_u \<Rightarrow> u8 list \<Rightarrow> u8 list) \<Rightarrow> frame \<Rightarrow> mem_cache \<Rightarrow> vm \<Rightarrow> (u8 \<times> frame \<times> vm) res" where
  "MEM_STORE_OP env n wr fr c v =
     unwrap (read_vu32 env (stream_seek_unchecked 1 fr)) (\<lambda>(offset, fr).
     unwrap (READ_NEXT_OP env fr) (\<lambda>(handler, fr).
     unwrap (pop fr) (\<lambda>(val, fr).
     unwrap (pop fr) (\<lambda>(x, fr).
     unwrap (tco_range env c v x offset n) (\<lambda>(m, mem_idx).
     unwrap (set_addr mi_memories mi_memories_update
               (m\<lparr>mdata := (mdata m)\<lparr>vdata := wr m mem_idx val (vdata (mdata m))\<rparr>\<rparr>) v (de_mem0 env)) (\<lambda>v.
     Inr (handler, fr, v)))))))"

definition tco_loads :: "machine \<Rightarrow> (u8 \<times> nat \<times> (u8 list \<Rightarrow> nat \<Rightarrow> value_u)) list" where
  "tco_loads mc =
    (let i32 = st_i32 mc (mc_undef mc); i64 = st_i64 mc (mc_undef mc) in
     [(0x28, 4, \<lambda>m i. i32 (sint (mem_read_u32 m i))),
      (0x29, 8, \<lambda>m i. i64 (sint (mem_read_u64 m i))),
      (0x2a, 4, \<lambda>m i. st_f32 mc (mc_undef mc) (mem_read_u32 m i)),
      (0x2b, 8, \<lambda>m i. st_f64 mc (mc_undef mc) (mem_read_u64 m i)),
      (0x2c, 1, \<lambda>m i. i32 (sint (mem_read_u8 m i))),
      (0x2d, 1, \<lambda>m i. i32 (uint (mem_read_u8 m i))),
      (0x2e, 2, \<lambda>m i. i32 (sint (mem_read_u16 m i))),
      (0x2f, 2, \<lambda>m i. i32 (uint (mem_read_u16 m i))),
      (0x30, 1, \<lambda>m i. i64 (sint (mem_read_u8 m i))),
      (0x31, 1, \<lambda>m i. i64 (uint (mem_read_u8 m i))),
      (0x32, 2, \<lambda>m i. i64 (sint (mem_read_u16 m i))),
      (0x33, 2, \<lambda>m i. i64 (uint (mem_read_u16 m i))),
      (0x34, 4, \<lambda>m i. i64 (sint (mem_read_u32 m i))),
      (0x35, 4, \<lambda>m i. i64 (uint (mem_read_u32 m i)))])"

definition tco_stores :: "interp \<Rightarrow> (u8 \<times> nat \<times> (memory_inst \<Rightarrow> nat \<Rightarrow> value_u \<Rightarrow> u8 list \<Rightarrow> u8 list)) list" where
  "tco_stores ip =
     [(0x36, 4, \<lambda>m i x. mem_write_u32 (ip_base ip m) i (get_w32 x)),
      (0x37, 8, \<lambda>m i x. mem_write_u64 (ip_base ip m) i (get_w64 x)),
      (0x38, 4, \<lambda>m i x. mem_write_f32 (ip_base ip m) i (get_f32 x)),
      (0x39, 8, \<lambda>m i x. mem_write_f64 (ip_base ip m) i (get_f64 x)),
      (0x3a, 1, \<lambda>m i x. mem_write_u8 i (ucast (get_w32 x))),
      (0x3b, 2, \<lambda>m i x. mem_write_u16 (ip_base ip m) i (ucast (get_w32 x))),
      (0x3c, 1, \<lambda>m i x. mem_write_u8 i (ucast (get_w64 x))),
      (0x3d, 2, \<lambda>m i x. mem_write_u16 (ip_base ip m) i (ucast (get_w64 x))),
      (0x3e, 4, \<lambda>m i x. mem_write_u32 (ip_base ip m) i (ucast (get_w64 x)))]"

definition tco_memory_size :: "interp \<Rightarrow> dt_env \<Rightarrow> frame \<Rightarrow> mem_cache \<Rightarrow> (u8 \<times> frame) res" where
  "tco_memory_size ip env fr c =
     unwrap (READ_NEXT_OP env (stream_seek_unchecked 1 fr)) (\<lambda>(handler, fr).
     unwrap (push_i32 ip (int (mem0_size c div WASM_PAGE_SIZE)) fr) (\<lambda>fr. Inr (handler, fr)))"

text \<open>\<open>pages\<close> is a \<open>u32\<close>, the sums are of \<open>size_t\<close>; \<open>vec_at_u8(.., 0)\<close> asserts that the memory is not empty.\<close>

definition tco_memory_grow ::
  "interp \<Rightarrow> mods \<Rightarrow> dt_env \<Rightarrow> frame \<Rightarrow> mem_cache \<Rightarrow> vm \<Rightarrow> (u8 \<times> frame \<times> mem_cache \<times> vm) res" where
  "tco_memory_grow ip ms env fr c v =
     unwrap (READ_NEXT_OP env (stream_seek_unchecked 1 fr)) (\<lambda>(handler, fr).
     unwrap (pop fr) (\<lambda>(x, fr).
     unwrap (addr_mem ms v (de_mem0 env)) (\<lambda>mem.
     unwrap (at_addr mi_memories v (de_mem0 env)) (\<lambda>m.
     let pages = of_nat (mem0_size c div WASM_PAGE_SIZE) :: u32; n_pages = unat (get_w32 x);
         new_size = (unat pages + n_pages) * WASM_PAGE_SIZE in
     case (if unat pages + n_pages \<le> unat (lim_max (mem_lim mem))
           then vec_resize (ip_am ip T_u8) 0 (mdata m) new_size else Inl E_general) of
       Inl e \<Rightarrow> unwrap (push_i32 ip (- 1) fr) (\<lambda>fr. Inr (handler, fr, c, v))
     | Inr d \<Rightarrow>
         unwrap (set_addr mi_memories mi_memories_update (m\<lparr>mdata := d\<rparr>) v (de_mem0 env)) (\<lambda>v.
         unwrap (vec_at d 0) (\<lambda>_.
         unwrap (push_i32 ip (sint pages) fr) (\<lambda>fr. Inr (handler, fr, \<lparr>mem0 = vcap d, mem0_size = new_size\<rparr>, v))))))))"

definition tco_memory :: "interp \<Rightarrow> mods \<Rightarrow> dt_env \<Rightarrow> u8 \<Rightarrow> frame \<Rightarrow> mem_cache \<Rightarrow> vm \<Rightarrow> tco_out option" where
  "tco_memory ip ms env opcode fr c v =
     (let go = (\<lambda>r. Some (tco_let r v (\<lambda>(handler, fr). TNext handler fr c v)));
          go2 = (\<lambda>r. Some (tco_let r v (\<lambda>(handler, fr, v). TNext handler fr c v))) in
      case map_of (tco_loads (ip_mc ip)) opcode of Some (n, rd) \<Rightarrow> go (MEM_LOAD_OP env n rd fr c v)
      | None \<Rightarrow>
      (case map_of (tco_stores ip) opcode of Some (n, wr) \<Rightarrow> go2 (MEM_STORE_OP env n wr fr c v)
       | None \<Rightarrow>
         if opcode = 0x3f then go (tco_memory_size ip env fr c)
         else if opcode = 0x40 then
           Some (tco_let (tco_memory_grow ip ms env fr c v) v (\<lambda>(handler, fr, c, v). TNext handler fr c v))
         else None))"

section \<open>Values\<close>

definition tco_relops :: "machine \<Rightarrow> (u8 \<times> numop) list" where
  "tco_relops mc =
    [(0x45, UNOP (st_i32 mc) get_i32 s_eqz),
     (0x46, RELOP mc get_i32 s_eq),
     (0x47, RELOP mc get_i32 s_ne),
     (0x48, RELOP mc get_i32 s_lt),
     (0x49, RELOP mc get_u32 s_lt),
     (0x4a, RELOP mc get_i32 s_gt),
     (0x4b, RELOP mc get_u32 s_gt),
     (0x4c, RELOP mc get_i32 s_le),
     (0x4d, RELOP mc get_u32 s_le),
     (0x4e, RELOP mc get_i32 s_ge),
     (0x4f, RELOP mc get_u32 s_ge),
     (0x50, UNOP (st_i64 mc) get_i64 s_eqz),
     (0x51, RELOP mc get_i64 s_eq),
     (0x52, RELOP mc get_i64 s_ne),
     (0x53, RELOP mc get_i64 s_lt),
     (0x54, RELOP mc get_u64 s_lt),
     (0x55, RELOP mc get_i64 s_gt),
     (0x56, RELOP mc get_u64 s_gt),
     (0x57, RELOP mc get_i64 s_le),
     (0x58, RELOP mc get_u64 s_le),
     (0x59, RELOP mc get_i64 s_ge),
     (0x5a, RELOP mc get_u64 s_ge),
     (0x5b, RELOP mc get_f32 (rel_f32 c_eq)),
     (0x5c, RELOP mc get_f32 (rel_f32 c_ne)),
     (0x5d, RELOP mc get_f32 (rel_f32 c_lt)),
     (0x5e, RELOP mc get_f32 (rel_f32 c_gt)),
     (0x5f, RELOP mc get_f32 (rel_f32 c_le)),
     (0x60, RELOP mc get_f32 (rel_f32 c_ge)),
     (0x61, RELOP mc get_f64 (rel_f64 c_eq)),
     (0x62, RELOP mc get_f64 (rel_f64 c_ne)),
     (0x63, RELOP mc get_f64 (rel_f64 c_lt)),
     (0x64, RELOP mc get_f64 (rel_f64 c_gt)),
     (0x65, RELOP mc get_f64 (rel_f64 c_le)),
     (0x66, RELOP mc get_f64 (rel_f64 c_ge))]"

definition tco_integer_ops :: "machine \<Rightarrow> (u8 \<times> numop) list" where
  "tco_integer_ops mc =
    [(0x67, UNOP (st_i32 mc) get_w32 s_clz32),
     (0x68, UNOP (st_i32 mc) get_w32 s_ctz32),
     (0x69, UNOP (st_i32 mc) get_w32 s_popcnt32),
     (0x6a, BINOP (st_i32 mc) get_i32 s_add mc),
     (0x6b, BINOP (st_i32 mc) get_i32 s_sub mc),
     (0x6c, BINOP (st_i32 mc) get_i32 s_mul mc),
     (0x6d, Binop (i32_div_s mc)),
     (0x6e, Binop (i32_div_u mc)),
     (0x6f, Binop (i32_rem_s mc)),
     (0x70, Binop (i32_rem_u mc)),
     (0x71, BINOP (st_i32 mc) get_i32 s_and mc),
     (0x72, BINOP (st_i32 mc) get_i32 s_or mc),
     (0x73, BINOP (st_i32 mc) get_i32 s_xor mc),
     (0x74, BINOP (st_i32 mc) get_i32 (s_shl mc 32) mc),
     (0x75, BINOP (st_i32 mc) get_i32 (s_shr mc 32) mc),
     (0x76, BINOP (st_i32 mc) get_u32 (s_shr mc 32) mc),
     (0x77, BINOP (st_w32 mc) get_w32 s_rotl32 mc),
     (0x78, BINOP (st_w32 mc) get_w32 s_rotr32 mc),
     (0x79, UNOP (st_i64 mc) get_w64 s_clz64),
     (0x7a, UNOP (st_i64 mc) get_w64 s_ctz64),
     (0x7b, UNOP (st_i64 mc) get_w64 s_popcnt64),
     (0x7c, BINOP (st_i64 mc) get_i64 s_add mc),
     (0x7d, BINOP (st_i64 mc) get_i64 s_sub mc),
     (0x7e, BINOP (st_i64 mc) get_i64 s_mul mc),
     (0x7f, Binop i64_div_s),
     (0x80, Binop i64_div_u),
     (0x81, Binop i64_rem_s),
     (0x82, Binop i64_rem_u),
     (0x83, BINOP (st_i64 mc) get_i64 s_and mc),
     (0x84, BINOP (st_i64 mc) get_i64 s_or mc),
     (0x85, BINOP (st_i64 mc) get_i64 s_xor mc),
     (0x86, BINOP (st_i64 mc) get_i64 (s_shl mc 64) mc),
     (0x87, BINOP (st_i64 mc) get_i64 (s_shr mc 64) mc),
     (0x88, BINOP (st_i64 mc) get_u64 (s_shr mc 64) mc),
     (0x89, BINOP (st_w64 mc) get_w64 s_rotl64 mc),
     (0x8a, BINOP (st_w64 mc) get_w64 s_rotr64 mc)]"

definition tco_float_ops :: "machine \<Rightarrow> (u8 \<times> numop) list" where
  "tco_float_ops mc =
    [(0x8b, UNOP (st_f32 mc) get_f32 s_fabs32),
     (0x8c, UNOP (st_f32 mc) get_f32 s_fneg32),
     (0x8d, UNOP (st_f32 mc) get_f32 (via_f64 mc (s_ceil mc))),
     (0x8e, UNOP (st_f32 mc) get_f32 (via_f64 mc (s_floor mc))),
     (0x8f, UNOP (st_f32 mc) get_f32 (via_f64 mc (s_trunc mc))),
     (0x90, UNOP (st_f32 mc) get_f32 (via_f64 mc (s_rint mc))),
     (0x91, UNOP (st_f32 mc) get_f32 (via_f64 mc (s_sqrt mc))),
     (0x92, BINOP (st_f32 mc) get_f32 (f32_bin (mc_fpu mc) Op_add fp_add) mc),
     (0x93, BINOP (st_f32 mc) get_f32 (f32_bin (mc_fpu mc) Op_sub fp_sub) mc),
     (0x94, BINOP (st_f32 mc) get_f32 (f32_bin (mc_fpu mc) Op_mul fp_mul) mc),
     (0x95, BINOP (st_f32 mc) get_f32 (f32_bin (mc_fpu mc) Op_div fp_div) mc),
     (0x96, BINOP (st_f32 mc) get_f32 s_fmin32 mc),
     (0x97, BINOP (st_f32 mc) get_f32 s_fmax32 mc),
     (0x98, BINOP (st_f32 mc) get_f32 s_copysign32 mc),
     (0x99, UNOP (st_f64 mc) get_f64 s_fabs64),
     (0x9a, UNOP (st_f64 mc) get_f64 s_fneg64),
     (0x9b, UNOP (st_f64 mc) get_f64 (s_ceil mc)),
     (0x9c, UNOP (st_f64 mc) get_f64 (s_floor mc)),
     (0x9d, UNOP (st_f64 mc) get_f64 (s_trunc mc)),
     (0x9e, UNOP (st_f64 mc) get_f64 (s_rint mc)),
     (0x9f, UNOP (st_f64 mc) get_f64 (s_sqrt mc)),
     (0xa0, BINOP (st_f64 mc) get_f64 (f64_bin (mc_fpu mc) Op_add fp_add) mc),
     (0xa1, BINOP (st_f64 mc) get_f64 (f64_bin (mc_fpu mc) Op_sub fp_sub) mc),
     (0xa2, BINOP (st_f64 mc) get_f64 (f64_bin (mc_fpu mc) Op_mul fp_mul) mc),
     (0xa3, BINOP (st_f64 mc) get_f64 (f64_bin (mc_fpu mc) Op_div fp_div) mc),
     (0xa4, BINOP (st_f64 mc) get_f64 s_fmin64 mc),
     (0xa5, BINOP (st_f64 mc) get_f64 s_fmax64 mc),
     (0xa6, BINOP (st_f64 mc) get_f64 s_copysign64 mc)]"

definition tco_convert_ops :: "machine \<Rightarrow> (u8 \<times> numop) list" where
  "tco_convert_ops mc =
    [(0xa7, UNOP (st_i32 mc) get_i64 s_nop),
     (0xa8, Unop (i32_trunc_f32_s mc)),
     (0xa9, Unop (i32_trunc_f32_u mc)),
     (0xaa, Unop (i32_trunc_f64_s mc)),
     (0xab, Unop (i32_trunc_f64_u mc)),
     (0xac, UNOP (st_i64 mc) id s_as_i32),
     (0xad, UNOP (st_i64 mc) id s_as_i32u),
     (0xae, Unop (i64_trunc_f32_s mc)),
     (0xaf, Unop (i64_trunc_f32_u mc)),
     (0xb0, Unop (i64_trunc_f64_s mc)),
     (0xb1, Unop (i64_trunc_f64_u mc)),
     (0xb2, UNOP (st_f32 mc) get_i32 int_to_f32),
     (0xb3, UNOP (st_f32 mc) get_u32 int_to_f32),
     (0xb4, UNOP (st_f32 mc) get_i64 int_to_f32),
     (0xb5, UNOP (st_f32 mc) get_u64 int_to_f32),
     (0xb6, UNOP (st_f32 mc) get_f64 (f64_to_f32 (mc_fpu mc))),
     (0xb7, UNOP (st_f64 mc) get_i32 int_to_f64),
     (0xb8, UNOP (st_f64 mc) get_u32 int_to_f64),
     (0xb9, UNOP (st_f64 mc) get_i64 int_to_f64),
     (0xba, UNOP (st_f64 mc) get_u64 int_to_f64),
     (0xbb, UNOP (st_f64 mc) get_f32 (f32_to_f64 (mc_fpu mc))),
     (0xbc, UNOP (st_f32 mc) get_f32 id),
     (0xbd, UNOP (st_f64 mc) get_f64 id),
     (0xbe, UNOP (st_f32 mc) get_f32 id),
     (0xbf, UNOP (st_f64 mc) get_f64 id),
     (0xc0, UNOP (st_i32 mc) id s_as_i8),
     (0xc1, UNOP (st_i32 mc) id s_as_i16),
     (0xc2, UNOP (st_i64 mc) id s_as_i8),
     (0xc3, UNOP (st_i64 mc) id s_as_i16),
     (0xc4, UNOP (st_i64 mc) id s_as_i32)]"

definition tco_numeric :: "machine \<Rightarrow> (u8 \<times> numop) list" where
  "tco_numeric mc = tco_relops mc @ tco_integer_ops mc @ tco_float_ops mc @ tco_convert_ops mc"

definition tco_sat_ops :: "machine \<Rightarrow> (u32 \<times> numop) list" where
  "tco_sat_ops mc =
    [(0, Unop (i32_trunc_sat_f32_s mc)),
     (1, Unop (i32_trunc_sat_f32_u mc)),
     (2, Unop (i32_trunc_sat_f64_s mc)),
     (3, Unop (i32_trunc_sat_f64_u mc)),
     (4, Unop (i64_trunc_sat_f32_s mc)),
     (5, Unop (i64_trunc_sat_f32_u mc)),
     (6, Unop (i64_trunc_sat_f64_s mc)),
     (7, Unop (i64_trunc_sat_f64_u mc))]"
definition tco_num :: "numop \<Rightarrow> dt_env \<Rightarrow> frame \<Rightarrow> (u8 \<times> frame) res" where
  "tco_num oper env fr =
     unwrap (READ_NEXT_OP env fr) (\<lambda>(handler, fr). unwrap (plain (dt_num oper fr)) (\<lambda>fr. Inr (handler, fr)))"

text \<open>A constant is read, the next opcode fetched and the constant pushed.\<close>

definition tco_const :: "dt_env \<Rightarrow> (value_u \<times> frame) res \<Rightarrow> (u8 \<times> frame) res" where
  "tco_const env r =
     unwrap r (\<lambda>(x, fr). unwrap (READ_NEXT_OP env fr) (\<lambda>(handler, fr). unwrap (push x fr) (\<lambda>fr. Inr (handler, fr))))"

definition tco_ref_func :: "interp \<Rightarrow> dt_env \<Rightarrow> frame \<Rightarrow> vm \<Rightarrow> (u8 \<times> frame) res" where
  "tco_ref_func ip env fr v =
     unwrap (read_vu32 env fr) (\<lambda>(f_idx, fr).
     unwrap (READ_NEXT_OP env fr) (\<lambda>(handler, fr).
     unwrap (the_inst v (de_inst env)) (\<lambda>mi.
     unwrap (vec_at (f_addrs mi) (unat f_idx)) (\<lambda>a.
     unwrap (push (to_ref (ip_lay ip) a) fr) (\<lambda>fr. Inr (handler, fr))))))"

definition tco_value :: "interp \<Rightarrow> dt_env \<Rightarrow> u8 \<Rightarrow> frame \<Rightarrow> mem_cache \<Rightarrow> vm \<Rightarrow> tco_out option" where
  "tco_value ip env opcode fr c v =
     (let mc = ip_mc ip; go = (\<lambda>r. Some (tco_let r v (\<lambda>(handler, fr). TNext handler fr c v))) in
      if opcode = 0x41 then go (tco_const env (unwrap (read_vi32 env fr) (\<lambda>(x, fr). Inr (st_w32 mc (mc_undef mc) x, fr))))
      else if opcode = 0x42 then go (tco_const env (read_vi64 env fr))
      else if opcode = 0x43 then go (tco_const env (unwrap (read_f32 env fr) (\<lambda>(x, fr). Inr (st_f32 mc (mc_undef mc) x, fr))))
      else if opcode = 0x44 then go (tco_const env (read_f64 env fr))
      else if opcode = 0xd0 then go (tco_const env (Inr (nullref, stream_seek_unchecked 1 fr)))
      else if opcode = 0xd1 then go (tco_num (Unop (\<lambda>x. Inr (st_i32 mc x (of_bool (x = nullref))))) env fr)
      else if opcode = 0xd2 then go (tco_ref_func ip env fr v)
      else map_option (\<lambda>oper. tco_let (tco_num oper env fr) v (\<lambda>(handler, fr). TNext handler fr c v)) (map_of (tco_numeric mc) opcode))"

section \<open>Bulk operations\<close>

text \<open>The cases of \<open>prefix_fc\<close>; the next opcode is read behind the \<open>switch\<close>.\<close>

definition mem0_write :: "dt_env \<Rightarrow> mem_cache \<Rightarrow> nat \<Rightarrow> u8 list \<Rightarrow> vm \<Rightarrow> vm res" where
  "mem0_write env c dst bytes v = unwrap (mem0_data env c v) (\<lambda>m. mem_copy_in (de_mem0 env) dst bytes v)"

definition tco_memory_init :: "mods \<Rightarrow> dt_env \<Rightarrow> frame \<Rightarrow> mem_cache \<Rightarrow> vm \<Rightarrow> (frame \<times> vm) res" where
  "tco_memory_init ms env fr c v =
     unwrap (read_vu32 env fr) (\<lambda>(data_idx, fr).
     unwrap (the_inst v (de_inst env)) (\<lambda>mi.
     unwrap (the_mod ms (mi_mod mi)) (\<lambda>m.
     unwrap (vec_at (m_data m) (unat data_idx)) (\<lambda>d.
     unwrap (pop3 (stream_seek_unchecked 1 fr)) (\<lambda>(x, y, z, fr).
     let size = unat (get_w32 x); src = unat (get_w32 y); dst = unat (get_w32 z) in
     if src + size > length (d_bytes d) \<or> dst + size > mem0_size c then Inl E_plain
     else if size = 0 then Inr (fr, v)
     else
       unwrap (vec_at (dropped_data mi) (unat data_idx)) (\<lambda>dropped.
       if dropped \<noteq> 0 then Inl E_plain
       else unwrap (mem0_write env c dst (take size (drop src (d_bytes d))) v) (\<lambda>v. Inr (fr, v))))))))"

definition tco_memory_copy :: "dt_env \<Rightarrow> frame \<Rightarrow> mem_cache \<Rightarrow> vm \<Rightarrow> (frame \<times> vm) res" where
  "tco_memory_copy env fr c v =
     unwrap (pop3 (stream_seek_unchecked 2 fr)) (\<lambda>(x, y, z, fr).
     let size = unat (get_w32 x); src = unat (get_w32 y); dst = unat (get_w32 z) in
     if src + size > mem0_size c \<or> dst + size > mem0_size c then Inl E_plain
     else if size = 0 then Inr (fr, v)
     else
       unwrap (mem0_data env c v) (\<lambda>m.
       if src + size > vec_size (mdata m) then Inl Fault
       else unwrap (mem0_write env c dst (take size (drop src (vdata (mdata m)))) v) (\<lambda>v. Inr (fr, v))))"

definition tco_memory_fill :: "dt_env \<Rightarrow> frame \<Rightarrow> mem_cache \<Rightarrow> vm \<Rightarrow> (frame \<times> vm) res" where
  "tco_memory_fill env fr c v =
     unwrap (pop3 (stream_seek_unchecked 1 fr)) (\<lambda>(x, y, z, fr).
     let size = unat (get_w32 x); dst = unat (get_w32 z) in
     if dst + size > mem0_size c then Inl E_plain
     else if size = 0 then Inr (fr, v)
     else unwrap (mem0_write env c dst (replicate size (ucast (get_w32 y))) v) (\<lambda>v. Inr (fr, v)))"

definition tco_init_expr :: "alloc \<Rightarrow> (addr \<Rightarrow> ref) \<Rightarrow> mods \<Rightarrow> nat \<Rightarrow> element \<Rightarrow> addr option \<Rightarrow> nat \<Rightarrow> nat \<Rightarrow> nat \<Rightarrow> vm act" where
  "tco_init_expr am lay ms i elem t_addr src dst j v =
     act_let (the_inst v i) (\<lambda>mi.
     act_let (vec_at (v_expr elem) (src + j)) (\<lambda>expr.
     act_let (interp_reduce_const_expr am lay ms v mi (stream_from expr) True) (\<lambda>val.
     if \<not> is_ref (tv_type val) then act_err E_plain
     else (\<lambda>v. act_set (set_tab_elem t_addr (dst + j) (tv_val val) v) v)))) v"

text \<open>An element segment that fails half-way leaves the references it has stored.\<close>

definition tco_table_init :: "interp \<Rightarrow> mods \<Rightarrow> dt_env \<Rightarrow> frame \<Rightarrow> mem_cache \<Rightarrow> vm \<Rightarrow> tco_out" where
  "tco_table_init ip ms env fr c v =
     tco_let (read_vu32 env fr) v (\<lambda>(elem_idx, fr).
     tco_let (read_vu32 env fr) v (\<lambda>(table_idx, fr).
     tco_let (the_inst v (de_inst env)) v (\<lambda>mi.
     tco_let (vec_at (t_addrs mi) (unat table_idx)) v (\<lambda>t_addr.
     tco_let (the_mod ms (mi_mod mi)) v (\<lambda>m.
     tco_let (vec_at (elements m) (unat elem_idx)) v (\<lambda>elem.
     tco_let (pop3 fr) v (\<lambda>(x, y, z, fr).
     let size = unat (get_w32 x); src = unat (get_w32 y); dst = unat (get_w32 z);
         go = (\<lambda>v. tco_let (READ_NEXT_OP env fr) v (\<lambda>(handler, fr). TNext handler fr c v)) in
     tco_let (at_addr mi_tables v t_addr) v (\<lambda>ti.
     if src + size > data_len elem \<or> dst + size > vec_size (tdata ti) then TStop E_plain v
     else if size = 0 then go v
     else
       tco_let (vec_at (dropped_elements mi) (unat elem_idx)) v (\<lambda>dropped.
       if dropped \<noteq> 0 then TStop E_plain v
       else
         (case (if vec_size (v_funcidx elem) \<noteq> 0
                then act_for 0 size (init_funcidx (ip_lay ip) (de_inst env) elem t_addr src dst)
                else if vec_size (v_expr elem) \<noteq> 0
                then act_for 0 size (tco_init_expr (ip_am ip) (ip_lay ip) ms (de_inst env) elem t_addr src dst)
                else if data_len elem \<noteq> 0 then act_err Fault else Pair None) v of
            (Some e, v) \<Rightarrow> TStop e v
          | (None, v) \<Rightarrow> go v))))))))))"

text \<open>The other cases do what those of the first interpreter do, with plain messages.\<close>

definition tco_prefix_fc :: "interp \<Rightarrow> mods \<Rightarrow> dt_env \<Rightarrow> frame \<Rightarrow> mem_cache \<Rightarrow> vm \<Rightarrow> tco_out" where
  "tco_prefix_fc ip ms env fr c v =
     tco_let (read_vu32 env fr) v (\<lambda>(opcode_fc, fr).
     let go = (\<lambda>r. tco_let (unwrap r (READ_NEXT_OP env)) v (\<lambda>(handler, fr). TNext handler fr c v));
         go2 = (\<lambda>r. tco_let r v (\<lambda>(fr, v). tco_let (READ_NEXT_OP env fr) v (\<lambda>(handler, fr). TNext handler fr c v))) in
     case map_of (tco_sat_ops (ip_mc ip)) opcode_fc of Some oper \<Rightarrow> go (dt_num oper fr)
     | None \<Rightarrow>
       if opcode_fc = 0x08 then go2 (tco_memory_init ms env fr c v)
       else if opcode_fc = 0x09 then go2 (dt_data_drop env fr v)
       else if opcode_fc = 0x0a then go2 (tco_memory_copy env fr c v)
       else if opcode_fc = 0x0b then go2 (tco_memory_fill env fr c v)
       else if opcode_fc = 0x0c then tco_table_init ip ms env fr c v
       else if opcode_fc = 0x0d then go2 (dt_elem_drop env fr v)
       else if opcode_fc = 0x0e then go2 (plain (dt_table_copy env fr v))
       else if opcode_fc = 0x0f then go2 (dt_table_grow ip ms env fr v)
       else if opcode_fc = 0x10 then go (dt_table_size ip env fr v)
       else if opcode_fc = 0x11 then go2 (plain (dt_table_fill env fr v))
       else TStop E_plain v)"

section \<open>Calling a function\<close>

text \<open>A byte that is not an opcode has a null pointer in \<open>handlers\<close>.\<close>

definition tco_op :: "interp \<Rightarrow> mods \<Rightarrow> dt_env \<Rightarrow> u8 \<Rightarrow> frame \<Rightarrow> mem_cache \<Rightarrow> vm \<Rightarrow> tco_out" where
  "tco_op ip ms env opcode fr c v =
     (case tco_control env opcode fr c v of Some x \<Rightarrow> x | None \<Rightarrow>
      if opcode = 0x10 then tco_op_call ms env fr v
      else if opcode = 0x11 then tco_call_indirect ip ms env fr v
      else if opcode = 0xfc then tco_prefix_fc ip ms env fr c v
      else if opcode = 0xfd then TStop E_plain v
      else case tco_variable env opcode fr c v of Some x \<Rightarrow> x | None \<Rightarrow>
      (case tco_memory ip ms env opcode fr c v of Some x \<Rightarrow> x | None \<Rightarrow>
      (case tco_value ip env opcode fr c v of Some x \<Rightarrow> x | None \<Rightarrow> TStop Fault v)))"

text \<open>\<open>ctx->mem0 = ctx->mem_inst0->mdata._data\<close> and \<open>ctx->mem0_size\<close>.\<close>

definition mem0_refresh :: "dt_env \<Rightarrow> vm \<Rightarrow> mem_cache res" where
  "mem0_refresh env v =
     unwrap (at_addr mi_memories v (de_mem0 env)) (\<lambda>m. Inr \<lparr>mem0 = vcap (mdata m), mem0_size = vec_size (mdata m)\<rparr>)"

definition tco_enter ::
  "interp \<Rightarrow> mods \<Rightarrow> vm \<Rightarrow> thread \<Rightarrow> addr \<Rightarrow> value_u list \<Rightarrow> (dt_env \<times> mem_cache \<times> u8 \<times> frame \<times> thread) res" where
  "tco_enter ip ms v t f_addr args =
     (if unat (frame_depth t) > SILVERFIR_STACK_FRAME_LIMIT then Inl E_exhaustion
      else if unat (stack_size t) > SILVERFIR_STACK_SIZE_LIMIT then Inl E_exhaustion
      else
        unwrap (addr_fn ms v (Some f_addr)) (\<lambda>fn.
        let n = unat (param_count (fn_type fn)); l = unat (local_count fn) in
        if l < n \<or> length args < l then Inl Fault
        else
          unwrap (at_addr mi_funcs v (Some f_addr)) (\<lambda>fi.
          case fi_mod_inst fi of None \<Rightarrow> Inl Fault | Some i \<Rightarrow>
          unwrap (the_inst v i) (\<lambda>mi.
          let env = \<lparr>de_fn = fn, de_inst = i, de_mem0 = (if vec_size (m_addrs mi) \<noteq> 0 then vdata (m_addrs mi) ! 0 else None)\<rparr> in
          unwrap (READ_NEXT_OP env
                    \<lparr>fr_local = take n args @ replicate (l - n) 0 @ drop l args,
                     fr_stack = replicate (unat (f_stack_size_max fn)) (mc_undef (ip_mc ip)), fr_sp = 0, fr_pc = 0, fr_jt = 0\<rparr>) (\<lambda>(handler, fr).
          if \<not> ip_alloca ip (unat (f_stack_size_max fn)) then Inl E_exhaustion
          else
            unwrap (if vec_size (m_addrs mi) \<noteq> 0 then mem0_refresh env v else Inr \<lparr>mem0 = 0, mem0_size = 0\<rparr>) (\<lambda>c.
            Inr (env, c, handler, fr, t\<lparr>frame_depth := frame_depth t + 1, stack_size := stack_size t + f_stack_size_max fn\<rparr>)))))))"

text \<open>The results are copied to the locals, which are the arguments of the caller.\<close>

definition tco_return :: "dt_env \<Rightarrow> frame \<Rightarrow> err option \<times> value_u list" where
  "tco_return env fr =
     (let n = unat (result_count (fn_type (de_fn env))) in
      if fr_sp fr < n \<or> length (fr_stack fr) < fr_sp fr \<or> length (fr_local fr) < n then (Some Fault, fr_local fr)
      else (None, take n (drop (fr_sp fr - n) (fr_stack fr)) @ drop n (fr_local fr)))"

text \<open>The end of \<open>in_place_tco_call\<close>, which an error reaches too.\<close>

definition tco_leave :: "dt_env \<Rightarrow> err option \<times> vm \<times> thread \<times> value_u list \<Rightarrow> err option \<times> vm \<times> thread \<times> value_u list" where
  "tco_leave env = (\<lambda>(e, v, t, buf).
     (e, v, t\<lparr>frame_depth := frame_depth t - 1, stack_size := stack_size t - f_stack_size_max (de_fn env)\<rparr>, buf))"

partial_function (option) tco_exec ::
  "interp \<Rightarrow> mods \<Rightarrow> dt_env \<Rightarrow> mem_cache \<Rightarrow> u8 \<Rightarrow> frame \<Rightarrow> vm \<Rightarrow> thread \<Rightarrow> (err option \<times> vm \<times> thread \<times> value_u list) option" where
  "tco_exec ip ms env c handler fr v t =
     (case tco_op ip ms env handler fr c v of
        TNext handler fr c v \<Rightarrow> tco_exec ip ms env c handler fr v t
      | TStop e v \<Rightarrow> Some (Some e, v, t, fr_local fr)
      | TReturn fr v \<Rightarrow> (case tco_return env fr of (e, buf) \<Rightarrow> Some (e, v, t, buf))
      | TInvoke a args own direct handler fr v \<Rightarrow>
          (case addr_fn ms v (Some a) of
             Inl e \<Rightarrow> Some (Some e, v, t, fr_local fr)
           | Inr callee_fn \<Rightarrow>
               Option.bind
                 (if f_tr callee_fn \<noteq> 0
                  then map_option (\<lambda>(e, v, buf). (e, v, t, buf))
                         (ip_host ip (f_tr callee_fn) (f_host_func callee_fn) ms v a args (de_mem0 env))
                  else case tco_enter ip ms v t a args of
                         Inl e \<Rightarrow> Some (Some e, v, t, args)
                       | Inr (env', c', handler', fr', t') \<Rightarrow>
                           Option.bind (tco_exec ip ms env' c' handler' fr' v t') (\<lambda>y. Some (tco_leave env' y)))
                 (\<lambda>(e, v, t, buf).
                  case (if direct \<and> f_tr callee_fn = 0 \<and> de_mem0 env \<noteq> None then mem0_refresh env v else Inr c) of
                    Inl e \<Rightarrow> Some (Some e, v, t, fr_local fr)
                  | Inr c \<Rightarrow>
                      (case e of
                         Some e \<Rightarrow> Some (Some e, v, t, fr_local fr)
                       | None \<Rightarrow>
                           (case dt_resume callee_fn own buf fr of
                              Inl e \<Rightarrow> Some (Some e, v, t, fr_local fr)
                            | Inr fr \<Rightarrow> tco_exec ip ms env c handler fr v t)))))"

definition in_place_tco_call ::
  "interp \<Rightarrow> mods \<Rightarrow> vm \<Rightarrow> thread \<Rightarrow> addr \<Rightarrow> value_u list \<Rightarrow> (err option \<times> vm \<times> thread \<times> value_u list) option" where
  "in_place_tco_call ip ms v t f_addr args =
     (case tco_enter ip ms v t f_addr args of
        Inl e \<Rightarrow> Some (Some e, v, t, args)
      | Inr (env, c, handler, fr, t) \<Rightarrow> map_option (tco_leave env) (tco_exec ip ms env c handler fr v t))"

text \<open>\<open>interp_call_in_thread\<close> of a build without the first interpreter.\<close>

definition interp_call_in_thread_tco :: "interp \<Rightarrow> call" where
  "interp_call_in_thread_tco ip ms v t = interp_call_with (in_place_tco_call ip ms v t) ip ms v t"

end
