(* ===== verification/Tco_Correct.thy ===== *)
theory Tco_Correct
  imports In_Place_Tco Dt_Store
begin

text \<open>
  The second interpreter follows the first.  Handler by handler: when the instruction of the first
  interpreter ends in a frame, the handler ends in the same frame with the next opcode fetched from
  it, and when it ends in an error so does the handler (\<open>follows\<close>, \<open>near\<close>, and \<open>out_follows\<close> for the
  dispatch).  This needs a cache that agrees with the memory (\<open>coherent\<close>).  The code refreshes the
  cache after direct calls only, so runs are compared on vms whose memories have reached their
  maximum: the locale \<open>vm_order\<close>, interpreted for the shape of the memories, shows that such
  memories keep size and capacity in every call.
\<close>

section \<open>One instruction\<close>

definition follows :: "dt_env \<Rightarrow> frame res \<Rightarrow> (u8 \<times> frame) res \<Rightarrow> bool" where
  "follows env d h \<longleftrightarrow>
     (case d of Inr fr \<Rightarrow> h = READ_NEXT_OP env fr | Inl e \<Rightarrow> e = Fault \<or> (\<exists>e'. h = Inl e'))"

definition follows2 :: "dt_env \<Rightarrow> (frame \<times> vm) res \<Rightarrow> (u8 \<times> frame \<times> vm) res \<Rightarrow> bool" where
  "follows2 env d h \<longleftrightarrow>
     (case d of
        Inr (fr, v) \<Rightarrow> h = unwrap (READ_NEXT_OP env fr) (\<lambda>(handler, fr). Inr (handler, fr, v))
      | Inl e \<Rightarrow> e = Fault \<or> (\<exists>e'. h = Inl e'))"

lemmas frame_ops = pop_def push_def pop3_def read_u8_def READ_NEXT_OP_def stream_seek_unchecked_def

lemma follows_if: "follows env (dt_if env fr) (tco_if env fr)"
  by (cases fr) (auto simp: follows_def dt_if_def tco_if_def frame_ops slot_here_def vec_at_def jump_def Let_def)

lemma follows_else: "follows env (dt_else env fr) (tco_else env fr)"
  by (cases fr) (auto simp: follows_def dt_else_def tco_else_def frame_ops slot_here_def vec_at_def jump_def Let_def)

lemma follows_br: "follows env (handle_br env fr) (tco_br env fr)"
  by (cases fr) (auto simp: follows_def handle_br_def tco_br_def frame_ops slot_here_def vec_at_def jump_def unwind_def Let_def)

lemma follows_let: "(\<And>x. r = Inr x \<Longrightarrow> follows env (f x) (g x)) \<Longrightarrow> follows env (unwrap r f) (unwrap r g)"
  by (cases r) (auto simp: follows_def)

lemma follows_let_pair:
  "(\<And>x y. r = Inr (x, y) \<Longrightarrow> follows env (f x y) (g x y)) \<Longrightarrow> follows env (unwrap r (\<lambda>(x, y). f x y)) (unwrap r (\<lambda>(x, y). g x y))"
  by (rule follows_let) auto

lemma follows2_let: "(\<And>x. r = Inr x \<Longrightarrow> follows2 env (f x) (g x)) \<Longrightarrow> follows2 env (unwrap r f) (unwrap r g)"
  by (cases r) (auto simp: follows2_def)

lemma follows2_let_pair:
  "(\<And>x y. r = Inr (x, y) \<Longrightarrow> follows2 env (f x y) (g x y)) \<Longrightarrow> follows2 env (unwrap r (\<lambda>(x, y). f x y)) (unwrap r (\<lambda>(x, y). g x y))"
  by (rule follows2_let) auto

lemma follows_cond:
  "(b \<Longrightarrow> follows env x x') \<Longrightarrow> (\<not> b \<Longrightarrow> follows env y y') \<Longrightarrow> follows env (if b then x else y) (if b then x' else y')"
  by simp

lemmas follows_rules = follows_let_pair follows_let follows_cond follows2_let_pair follows2_let

lemma follows_br_if: "follows env (dt_br_if env fr) (tco_br_if env fr)"
  unfolding dt_br_if_def tco_br_if_def
  by (intro follows_rules follows_br) (auto simp: follows_def frame_ops)

lemma follows_br_table: "follows env (dt_br_table env fr) (tco_br_table env fr)"
  unfolding dt_br_table_def tco_br_table_def Let_def by (intro follows_rules follows_br)

text \<open>
  Work on the operand stack and the locals commutes with fetching the next opcode.
\<close>

definition apart :: "(frame \<Rightarrow> frame res) \<Rightarrow> bool" where
  "apart k \<longleftrightarrow> (\<forall>fr p. k (fr\<lparr>fr_pc := p\<rparr>) = unwrap (k fr) (\<lambda>fr. Inr (fr\<lparr>fr_pc := p\<rparr>)) \<and> (\<forall>fr'. k fr = Inr fr' \<longrightarrow> fr_pc fr' = fr_pc fr))"

definition near :: "'a res \<Rightarrow> 'a res \<Rightarrow> bool" where
  "near d h \<longleftrightarrow> (case d of Inr x \<Rightarrow> h = Inr x | Inl e \<Rightarrow> e = Fault \<or> (\<exists>e'. h = Inl e'))"

lemma near_refl [simp]: "near d d"
  by (simp add: near_def split: sum.split)

lemma near_plain [simp]: "near d (plain d)"
  by (simp add: near_def plain_def split: sum.split)

lemma near_let: "near r r' \<Longrightarrow> (\<And>x. r = Inr x \<Longrightarrow> near (f x) (g x)) \<Longrightarrow> near (unwrap r f) (unwrap r' g)"
  by (cases r) (auto simp: near_def)

lemma near_let_pair:
  "near r r' \<Longrightarrow> (\<And>x y. r = Inr (x, y) \<Longrightarrow> near (f x y) (g x y)) \<Longrightarrow> near (unwrap r (\<lambda>(x, y). f x y)) (unwrap r' (\<lambda>(x, y). g x y))"
  by (rule near_let) auto

lemma near_cond: "(b \<Longrightarrow> near x x') \<Longrightarrow> (\<not> b \<Longrightarrow> near y y') \<Longrightarrow> near (if b then x else y) (if b then x' else y')"
  by simp

lemma near_error: "near (Inl e) (Inl e')"
  by (simp add: near_def)

lemmas near_rules = near_let_pair near_let near_cond near_error near_plain near_refl

lemma follows_fetch_near:
  assumes "apart k" "\<And>fr. near (k fr) (k' fr)"
  shows "follows env (k fr) (unwrap (READ_NEXT_OP env fr) (\<lambda>(handler, fr). unwrap (k' fr) (\<lambda>fr. Inr (handler, fr))))"
proof (cases "k fr")
  case (Inr fr')
  have "k (fr\<lparr>fr_pc := p\<rparr>) = Inr (fr'\<lparr>fr_pc := p\<rparr>)" "fr_pc fr' = fr_pc fr" for p
    using assms(1) Inr by (simp_all add: apart_def)
  then have "k' (fr\<lparr>fr_pc := p\<rparr>) = Inr (fr'\<lparr>fr_pc := p\<rparr>)" for p
    using assms(2) [of "fr\<lparr>fr_pc := p\<rparr>"] by (simp add: near_def)
  with Inr \<open>fr_pc fr' = fr_pc fr\<close> show ?thesis
    by (simp add: follows_def READ_NEXT_OP_def read_u8_def)
next
  case (Inl e)
  have "k (fr\<lparr>fr_pc := p\<rparr>) = Inl e" for p
    using assms(1) Inl by (simp add: apart_def)
  then have "e = Fault \<or> (\<exists>e'. k' (fr\<lparr>fr_pc := fr_pc fr + 1\<rparr>) = Inl e')"
    using assms(2) [of "fr\<lparr>fr_pc := fr_pc fr + 1\<rparr>"] by (simp add: near_def)
  with Inl show ?thesis
    by (auto simp: follows_def READ_NEXT_OP_def read_u8_def)
qed

lemmas follows_fetch = follows_fetch_near [OF _ near_refl]

lemma follows2_fetch_near:
  assumes "apart (\<lambda>fr. unwrap (k fr) (\<lambda>(fr, v). Inr fr))" "\<And>fr p. unwrap (k (fr\<lparr>fr_pc := p\<rparr>)) (Inr \<circ> snd) = unwrap (k fr) (Inr \<circ> snd)"
    "\<And>fr. near (k fr) (k' fr)"
  shows "follows2 env (k fr) (unwrap (READ_NEXT_OP env fr) (\<lambda>(handler, fr). unwrap (k' fr) (\<lambda>(fr, v). Inr (handler, fr, v))))"
proof (cases "k fr")
  case (Inr y)
  obtain fr' v where y: "y = (fr', v)" by force
  have 1: "unwrap (k (fr\<lparr>fr_pc := p\<rparr>)) (\<lambda>(fr, v). Inr fr) = Inr (fr'\<lparr>fr_pc := p\<rparr>)" and pc: "fr_pc fr' = fr_pc fr" for p
    using assms(1) Inr y unfolding apart_def by force+
  have 2: "unwrap (k (fr\<lparr>fr_pc := p\<rparr>)) (Inr \<circ> snd) = Inr v" for p
    using assms(2) Inr y by simp
  have k: "k (fr\<lparr>fr_pc := p\<rparr>) = Inr (fr'\<lparr>fr_pc := p\<rparr>, v)" for p
    using 1 [of p] 2 [of p] by (auto simp: res_simps)
  have "k' (fr\<lparr>fr_pc := p\<rparr>) = Inr (fr'\<lparr>fr_pc := p\<rparr>, v)" for p
    using k assms(3) [of "fr\<lparr>fr_pc := p\<rparr>"] by (simp add: near_def)
  with Inr y pc show ?thesis
    by (simp add: follows2_def READ_NEXT_OP_def read_u8_def)
next
  case (Inl e)
  have "unwrap (k (fr\<lparr>fr_pc := p\<rparr>)) (Inr \<circ> snd) = Inl e" for p
    using assms(2) [of p fr] Inl by simp
  then have "k (fr\<lparr>fr_pc := p\<rparr>) = Inl e" for p
    by (simp add: res_simps)
  then have "e = Fault \<or> (\<exists>e'. k' (fr\<lparr>fr_pc := fr_pc fr + 1\<rparr>) = Inl e')"
    using assms(3) [of "fr\<lparr>fr_pc := fr_pc fr + 1\<rparr>"] by (simp add: near_def)
  with Inl show ?thesis
    by (auto simp: follows2_def READ_NEXT_OP_def read_u8_def)
qed

lemma apart_push: "apart (push x)"
  by (simp add: apart_def push_def)

lemma apart_local_write: "apart (local_write i x)"
  by (simp add: apart_def local_write_def)

lemma apart_pop: "(\<And>x. apart (k x)) \<Longrightarrow> apart (\<lambda>fr. unwrap (pop fr) (\<lambda>(x, fr). k x fr))"
proof -
  assume k: "\<And>x. apart (k x)"
  have "k x (fr\<lparr>fr_pc := p, fr_sp := n\<rparr>) = unwrap (k x (fr\<lparr>fr_sp := n\<rparr>)) (\<lambda>fr. Inr (fr\<lparr>fr_pc := p\<rparr>))" for x fr p n
    using k [of x] unfolding apart_def by (cases fr) (metis frame.update_convs(3,4))
  with k show ?thesis
    by (simp add: apart_def pop_def)
qed

lemma apart_ok: "apart Inr"
  by (simp add: apart_def)

lemma apart_let: "(\<And>x. apart (k x)) \<Longrightarrow> apart (\<lambda>fr. unwrap r (\<lambda>x. k x fr))"
  by (cases r) (simp_all add: apart_def)

lemma apart_cond: "apart k \<Longrightarrow> apart k' \<Longrightarrow> apart (\<lambda>fr. if b then k fr else k' fr)"
  by (cases b) simp_all

lemma apart_error: "apart (\<lambda>fr. Inl e)"
  by (simp add: apart_def)

lemmas apart_rules = apart_push apart_local_write apart_pop apart_ok apart_let apart_cond apart_error

lemma apart_num: "apart (dt_num oper)"
  by (cases oper) (auto simp: dt_num_def [abs_def] intro!: apart_rules)

lemma apart_select: "apart dt_select"
proof -
  have eq: "dt_select = (\<lambda>fr. unwrap (pop fr) (\<lambda>(cond, fr). unwrap (pop fr) (\<lambda>(false_val, fr). unwrap (pop fr) (\<lambda>(true_val, fr).
      if get_i32 cond \<noteq> 0 then push true_val fr else push false_val fr))))"
    by (rule ext) (auto simp: dt_select_def pop3_def unwrap_def split: sum.split prod.split)
  show ?thesis
    unfolding eq by (intro apart_rules)
qed

lemma follows_select: "follows env (dt_select fr) (tco_select env fr)"
  using follows_fetch [OF apart_select]
  by (simp add: dt_select_def tco_select_def unwrap_assoc case_prod_unfold)

lemma follows_num: "follows env (dt_num oper fr) (tco_num oper env fr)"
  using follows_fetch [OF apart_num, of env oper fr]
  by (auto simp: tco_num_def follows_def plain_def READ_NEXT_OP_def read_u8_def unwrap_def split: sum.splits prod.splits if_splits)

lemma follows_local_get: "follows env (dt_local_get env fr) (tco_local_get env fr)"
  unfolding dt_local_get_def tco_local_get_def by (intro follows_rules follows_fetch apart_rules)

lemma follows_local_set: "follows env (dt_local_set env fr) (tco_local_set env fr)"
  unfolding dt_local_set_def tco_local_set_def by (intro follows_rules follows_fetch apart_rules)

lemma follows_local_tee: "follows env (dt_local_tee env fr) (tco_local_tee env fr)"
  unfolding dt_local_tee_def tco_local_tee_def by (intro follows_rules follows_fetch apart_rules)

lemma follows_drop:
  "follows env (unwrap (pop fr) (\<lambda>(x, fr). Inr fr)) (unwrap (READ_NEXT_OP env fr) (\<lambda>(handler, fr). unwrap (pop fr) (\<lambda>(x, fr). Inr (handler, fr))))"
  using follows_fetch [OF apart_pop [OF apart_ok], of env fr] by (simp add: unwrap_assoc case_prod_unfold)

lemma apart_global_get: "apart (\<lambda>fr. unwrap (global_addr env v i) (\<lambda>g_addr. unwrap (at_addr mi_globals v g_addr) (\<lambda>gi. push (gvalue gi) fr)))"
  by (intro apart_rules)

lemma follows_global_get: "follows env (dt_global_get env fr v) (tco_global_get env fr v)"
  unfolding dt_global_get_def tco_global_get_def
  by (rule follows_let_pair, cut_tac follows_fetch [OF apart_global_get], simp add: unwrap_assoc)

lemma follows_const:
  "follows env (unwrap r (\<lambda>(x, fr). push x fr)) (tco_const env r)"
  unfolding tco_const_def by (intro follows_rules follows_fetch apart_rules)

lemma follows_ref_func:
  "follows env (unwrap (read_vu32 env fr) (\<lambda>(f_idx, fr). unwrap (the_inst v (de_inst env)) (\<lambda>mi.
      unwrap (vec_at (f_addrs mi) (unat f_idx)) (\<lambda>a. push (to_ref (ip_lay ip) a) fr)))) (tco_ref_func ip env fr v)"
proof -
  have "apart (\<lambda>fr. unwrap (the_inst v (de_inst env)) (\<lambda>mi. unwrap (vec_at (f_addrs mi) (unat i)) (\<lambda>a. push (to_ref (ip_lay ip) a) fr)))" for i
    by (intro apart_rules)
  from follows_fetch [OF this] show ?thesis
    unfolding tco_ref_func_def by (intro follows_let_pair) (simp add: unwrap_assoc)
qed

lemma follows2_global_set: "follows2 env (dt_global_set env fr v) (tco_global_set env fr v)"
  unfolding dt_global_set_def tco_global_set_def
  by (intro follows_rules)
    (auto simp: follows2_def frame_ops unwrap_def split: sum.split)

lemma follows_table_get: "follows env (dt_table_get env fr v) (tco_table_get env fr v)"
  unfolding dt_table_get_def tco_table_get_def
  by (intro follows_rules) (auto simp: follows_def frame_ops unwrap_def split: sum.split)

lemma follows2_table_set: "follows2 env (dt_table_set env fr v) (tco_table_set env fr v)"
  unfolding dt_table_set_def tco_table_set_def
  by (intro follows_rules) (auto simp: follows2_def frame_ops unwrap_def split: sum.split)

section \<open>Memory\<close>

definition coherent :: "dt_env \<Rightarrow> vm \<Rightarrow> mem_cache \<Rightarrow> bool" where
  "coherent env v c \<longleftrightarrow>
     (\<forall>m. at_addr mi_memories v (de_mem0 env) = Inr m \<longrightarrow> mem0 c = vcap (mdata m) \<and> mem0_size c = vec_size (mdata m))"

lemma at_addr_Inl: "at_addr sel v a = Inl e \<Longrightarrow> e = Fault"
  by (auto simp: at_addr_def the_inst_def vec_at_def split: option.splits if_splits)

lemma tco_range_near: "coherent env v c \<Longrightarrow> near (mem_range v (de_mem0 env) x offset n) (tco_range env c v x offset n)"
  using at_addr_Inl [of mi_memories v "de_mem0 env"]
  by (auto simp: near_def tco_range_def mem_range_def coherent_def mem0_data_def Let_def unwrap_def split: sum.splits if_splits)

lemma follows_load: "coherent env v c \<Longrightarrow> follows env (dt_MEM_LOAD env n rd fr v) (MEM_LOAD_OP env n rd fr c v)"
  unfolding dt_MEM_LOAD_def MEM_LOAD_OP_def
proof (rule follows_let_pair, goal_cases)
  case (1 offset fr')
  define k where "k = (\<lambda>fr. unwrap (pop fr) (\<lambda>(x, fr). unwrap (mem_range v (de_mem0 env) x offset n) (\<lambda>(m, i). push (rd (vdata (mdata m)) i) fr)))"
  define k' where "k' = (\<lambda>fr. unwrap (pop fr) (\<lambda>(x, fr). unwrap (tco_range env c v x offset n) (\<lambda>(m, i). push (rd (vdata (mdata m)) i) fr)))"
  have "apart k"
    unfolding k_def case_prod_unfold by (intro apart_rules apart_pop [unfolded case_prod_unfold])
  moreover have "near (k fr) (k' fr)" for fr
    unfolding k_def k'_def by (intro near_rules tco_range_near 1(1))
  ultimately have "follows env (k fr') (unwrap (READ_NEXT_OP env fr') (\<lambda>(handler, fr). unwrap (k' fr) (\<lambda>fr. Inr (handler, fr))))"
    by (rule follows_fetch_near)
  then show ?case
    by (simp add: k_def k'_def unwrap_assoc case_prod_unfold)
qed

lemma follows2_store: "coherent env v c \<Longrightarrow> follows2 env (dt_MEM_STORE env n wr fr v) (MEM_STORE_OP env n wr fr c v)"
  unfolding dt_MEM_STORE_def MEM_STORE_OP_def
proof (rule follows2_let_pair, goal_cases)
  case (1 offset fr')
  define rest where "rest = (\<lambda>fr val (m, i). unwrap (set_mem (m\<lparr>mdata := (mdata m)\<lparr>vdata := wr m i val (vdata (mdata m))\<rparr>\<rparr>) v (de_mem0 env)) (\<lambda>v. Inr (fr :: frame, v)))"
  define k where "k = (\<lambda>fr. unwrap (pop fr) (\<lambda>(val, fr). unwrap (pop fr) (\<lambda>(x, fr). unwrap (mem_range v (de_mem0 env) x offset n) (rest fr val))))"
  define k' where "k' = (\<lambda>fr. unwrap (pop fr) (\<lambda>(val, fr). unwrap (pop fr) (\<lambda>(x, fr). unwrap (tco_range env c v x offset n) (rest fr val))))"
  have "apart (\<lambda>fr. unwrap (k fr) (\<lambda>(fr, v). Inr fr))"
    unfolding k_def rest_def case_prod_unfold unwrap_assoc
    by (intro apart_rules apart_pop [unfolded case_prod_unfold]) (simp add: apart_ok)
  moreover have "unwrap (k (fr\<lparr>fr_pc := p\<rparr>)) (Inr \<circ> snd) = unwrap (k fr) (Inr \<circ> snd)" for fr p
    by (auto simp: k_def rest_def pop_def unwrap_assoc case_prod_unfold)
  moreover have "near (k fr) (k' fr)" for fr
    unfolding k_def k'_def by (intro near_rules tco_range_near 1(1))
  ultimately have "follows2 env (k fr') (unwrap (READ_NEXT_OP env fr') (\<lambda>(handler, fr). unwrap (k' fr) (\<lambda>(fr, v). Inr (handler, fr, v))))"
    by (rule follows2_fetch_near)
  then show ?case
    by (simp add: k_def k'_def rest_def unwrap_assoc case_prod_unfold)
qed

lemma follows_memory_size: "coherent env v c \<Longrightarrow> follows env (dt_memory_size ip env fr v) (tco_memory_size ip env fr c)"
  unfolding dt_memory_size_def tco_memory_size_def push_i32_def
  using follows_fetch [OF apart_push, of env "st_i32 (ip_mc ip) (mc_undef (ip_mc ip)) (int (mem0_size c div WASM_PAGE_SIZE))"]
    at_addr_Inl [of mi_memories v "de_mem0 env"]
  by (cases "at_addr mi_memories v (de_mem0 env)") (auto simp: coherent_def, simp add: follows_def)

text \<open>A vm whose memories have reached their maximum and are not empty.\<close>

definition full_memories :: "mods \<Rightarrow> vm \<Rightarrow> bool" where
  "full_memories ms v \<longleftrightarrow>
     (\<forall>a x mem. at_addr mi_memories v a = Inr x \<longrightarrow> addr_mem ms v a = Inr mem \<longrightarrow>
        vec_size (mdata x) = unat (lim_max (mem_lim mem)) * WASM_PAGE_SIZE \<and> lim_max (mem_lim mem) \<noteq> 0)"

lemma page_pos: "0 < WASM_PAGE_SIZE"
  by (simp add: WASM_PAGE_SIZE_def)

text \<open>Computations that fail only by a fault.\<close>

definition only_fault :: "'a res \<Rightarrow> bool" where
  "only_fault r \<longleftrightarrow> (\<forall>e. r = Inl e \<longrightarrow> e = Fault)"

lemma only_fault_let: "only_fault r \<Longrightarrow> (\<And>x. only_fault (f x)) \<Longrightarrow> only_fault (unwrap r f)"
  by (cases r) (simp_all add: only_fault_def)

lemma only_fault_cases: "(\<And>e. only_fault (f e)) \<Longrightarrow> (\<And>x. only_fault (g x)) \<Longrightarrow> only_fault (case r of Inl e \<Rightarrow> f e | Inr x \<Rightarrow> g x)"
  by (cases r) simp_all

lemma only_fault_prims:
  "only_fault (Inr x)" "only_fault (pop fr)" "only_fault (push y fr)" "only_fault (at_addr sel v a)" "only_fault (set_addr sel upd z v a)"
  "only_fault (addr_mem ms v a)" "only_fault (push_i32 ip k fr)" "only_fault (addr_fn ms v a)"
  by (auto simp: only_fault_def pop_def push_def push_i32_def set_addr_def at_addr_def the_inst_def vec_set_def vec_at_def addr_mem_def addr_fn_def
      addr_module_def the_mod_def res_simps split: option.splits if_splits)

lemma memory_grow_fault: "only_fault (dt_memory_grow ip ms env fr v)"
  unfolding dt_memory_grow_def Let_def case_prod_unfold by (intro only_fault_let only_fault_cases only_fault_prims)

lemma vec_resize_same: "vec_resize am z d (vec_size d) = Inr d"
  by (simp add: vec_resize_def)

text \<open>Growing a memory that is full changes nothing but the operand stack.\<close>

lemma memory_grow_full:
  assumes "dt_memory_grow ip ms env fr v = Inr (fr', w)" "full_memories ms v"
  obtains m mem x fr1 k where "at_addr mi_memories v (de_mem0 env) = Inr m" "addr_mem ms v (de_mem0 env) = Inr mem"
    "vec_size (mdata m) div WASM_PAGE_SIZE = unat (lim_max (mem_lim mem))" "0 < vec_size (mdata m)"
    "pop (stream_seek_unchecked 1 fr) = Inr (x, fr1)" "push_i32 ip k fr1 = Inr fr'" "set_mem m v (de_mem0 env) = Inr w \<or> w = v"
    "if get_w32 x = 0 then set_mem m v (de_mem0 env) = Inr w \<and> k = int (unat (lim_max (mem_lim mem))) else w = v \<and> k = - 1"
proof -
  from assms(1) obtain m mem x fr1 where m: "at_addr mi_memories v (de_mem0 env) = Inr m" "addr_mem ms v (de_mem0 env) = Inr mem"
      "pop (stream_seek_unchecked 1 fr) = Inr (x, fr1)"
    by (auto simp: dt_memory_grow_def res_simps)
  have size: "vec_size (mdata m) = unat (lim_max (mem_lim mem)) * WASM_PAGE_SIZE" "lim_max (mem_lim mem) \<noteq> 0"
    using assms(2) m unfolding full_memories_def by blast+
  then have sz: "vec_size (mdata m) div WASM_PAGE_SIZE = unat (lim_max (mem_lim mem))" "0 < vec_size (mdata m)"
    using page_pos by (simp_all add: unat_gt_0)
  show ?thesis
  proof (cases "get_w32 x = 0")
    case True
    then have "set_mem m v (de_mem0 env) = Inr w \<and> push_i32 ip (int (unat (lim_max (mem_lim mem)))) fr1 = Inr fr'"
      using assms(1) m sz size vec_resize_same [of "ip_am ip T_u8" 0 "mdata m"]
      by (auto simp: dt_memory_grow_def res_simps Let_def simp del: vec_size_length)
    with True that [OF m(1,2) sz m(3)] show ?thesis by simp
  next
    case False
    then have "w = v \<and> push_i32 ip (- 1) fr1 = Inr fr'"
      using assms(1) m sz by (auto simp: dt_memory_grow_def res_simps Let_def unat_eq_zero split: if_splits simp del: vec_size_length)
    with False that [OF m(1,2) sz m(3)] show ?thesis by simp
  qed
qed

lemma follows_grow:
  assumes "full_memories ms v" "coherent env v c"
  shows "case dt_memory_grow ip ms env fr v of
      Inr (fr', w) \<Rightarrow> tco_memory_grow ip ms env fr c v = unwrap (READ_NEXT_OP env fr') (\<lambda>(handler, fr). Inr (handler, fr, c, w))
    | Inl e \<Rightarrow> e = Fault"
proof (cases "dt_memory_grow ip ms env fr v")
  case (Inl e)
  then show ?thesis using memory_grow_fault [of ip ms env fr v] by (simp add: only_fault_def)
next
  case (Inr y)
  obtain fr' w where y: "y = (fr', w)" by force
  from memory_grow_full [OF Inr [unfolded y] assms(1)] show ?thesis
  proof cases
    case (1 m mem x fr1 k)
    have c: "c = \<lparr>mem0 = vcap (mdata m), mem0_size = vec_size (mdata m)\<rparr>"
      using assms(2) 1(1) by (simp add: coherent_def)
    have lim: "vec_size (mdata m) = unat (lim_max (mem_lim mem)) * WASM_PAGE_SIZE"
      using assms(1) 1(1,2) unfolding full_memories_def by blast
    have k: "push_i32 ip (sint (lim_max (mem_lim mem))) fr = push_i32 ip (int (unat (lim_max (mem_lim mem)))) fr" for fr
      by (simp add: push_i32_def st_i32_def)
    have pops: "pop (fr\<lparr>fr_pc := p\<rparr>) = Inr (x, fr1\<lparr>fr_pc := p\<rparr>)" for p
      using 1(5) by (cases fr) (auto simp: pop_def stream_seek_unchecked_def split: if_splits)
    have pcs: "fr_pc fr' = fr_pc fr + 1" "fr_pc fr1 = fr_pc fr + 1"
      using 1(5,6) by (auto simp: pop_def stream_seek_unchecked_def push_i32_def push_def split: if_splits)
    have pushes: "push_i32 ip k (fr1\<lparr>fr_pc := p\<rparr>) = Inr (fr'\<lparr>fr_pc := p\<rparr>)" for p
      using 1(6) by (cases fr1) (auto simp: push_i32_def push_def split: if_splits)
    have same: "vec_resize (ip_am ip T_u8) 0 (mdata m) (unat (lim_max (mem_lim mem)) * WASM_PAGE_SIZE) = Inr (mdata m)"
      using vec_resize_same [of "ip_am ip T_u8" 0 "mdata m"] lim by simp
    have first: "vec_at (mdata m) 0 = Inr (vdata (mdata m) ! 0)"
      using 1(4) by (simp add: vec_at_def)
    show ?thesis
      using 1 pops pushes pcs c lim k unfolding Inr y tco_memory_grow_def READ_NEXT_OP_def read_u8_def
      by (auto simp: Let_def stream_seek_unchecked_def same first unat_eq_zero simp del: vec_size_length split: if_splits)
  qed
qed

lemma near_memory_init: "coherent env v c \<Longrightarrow> near (dt_memory_init ms env fr v) (tco_memory_init ms env fr c v)"
  unfolding dt_memory_init_def tco_memory_init_def Let_def
proof (rule near_let_pair, rule near_refl, (rule near_let, rule near_refl)+, goal_cases)
  case (1 data_idx fr mi m d y)
  then show ?case
    by (cases y, cases "at_addr mi_memories v (de_mem0 env)")
      (auto simp: near_def coherent_def mem0_write_def mem0_data_def unwrap_def dest: at_addr_Inl split: sum.split)
qed

lemma near_memory_copy: "coherent env v c \<Longrightarrow> near (dt_memory_copy env fr v) (tco_memory_copy env fr c v)"
  unfolding dt_memory_copy_def tco_memory_copy_def Let_def
proof (intro near_let near_refl, goal_cases)
  case (1 y)
  then show ?case
    by (cases y, cases "at_addr mi_memories v (de_mem0 env)")
      (auto simp: near_def coherent_def mem0_write_def mem0_data_def unwrap_def dest: at_addr_Inl split: sum.split)
qed

lemma near_memory_fill: "coherent env v c \<Longrightarrow> near (dt_memory_fill env fr v) (tco_memory_fill env fr c v)"
  unfolding dt_memory_fill_def tco_memory_fill_def Let_def
proof (intro near_let near_refl, goal_cases)
  case (1 y)
  then show ?case
    by (cases y, cases "at_addr mi_memories v (de_mem0 env)")
      (auto simp: near_def coherent_def mem0_write_def mem0_data_def unwrap_def dest: at_addr_Inl split: sum.split)
qed

section \<open>The outcome of an instruction\<close>

fun out_follows :: "dt_env \<Rightarrow> mem_cache \<Rightarrow> dt_out \<Rightarrow> tco_out \<Rightarrow> bool" where
  "out_follows env c (Next fr v) out =
     (case READ_NEXT_OP env fr of Inl e \<Rightarrow> \<exists>w. out = TStop Fault w | Inr (handler, fr') \<Rightarrow> out = TNext handler fr' c v)"
| "out_follows env c (Stop e v) out = (e = Fault \<or> (\<exists>e' w. out = TStop e' w \<and> (w = v \<or> e' = Fault)))"
| "out_follows env c (Finish fr v) out = (out = TReturn fr v)"
| "out_follows env c (Invoke a args own fr v) out =
     (case READ_NEXT_OP env fr of
        Inl e \<Rightarrow> \<exists>w. out = TStop Fault w
      | Inr (handler, fr') \<Rightarrow> \<exists>direct. out = TInvoke a args own direct handler fr' v)"

abbreviation tgo :: "mem_cache \<Rightarrow> vm \<Rightarrow> (u8 \<times> frame) res \<Rightarrow> tco_out" where
  "tgo c v r \<equiv> tco_let r v (\<lambda>(handler, fr). TNext handler fr c v)"

abbreviation tgo2 :: "mem_cache \<Rightarrow> vm \<Rightarrow> (u8 \<times> frame \<times> vm) res \<Rightarrow> tco_out" where
  "tgo2 c v r \<equiv> tco_let r v (\<lambda>(handler, fr, v). TNext handler fr c v)"

abbreviation tgo3 :: "dt_env \<Rightarrow> mem_cache \<Rightarrow> vm \<Rightarrow> (frame \<times> vm) res \<Rightarrow> tco_out" where
  "tgo3 env c v r \<equiv> tco_let r v (\<lambda>(fr, v). tco_let (READ_NEXT_OP env fr) v (\<lambda>(handler, fr). TNext handler fr c v))"

lemma next_cases:
  obtains "READ_NEXT_OP env fr = Inl Fault" | handler fr' where "READ_NEXT_OP env fr = Inr (handler, fr')"
  by (cases "READ_NEXT_OP env fr") (auto simp: READ_NEXT_OP_def read_u8_def split: if_splits)

lemma out_go: "follows env d h \<Longrightarrow> out_follows env c (go v d) (tgo c v h)"
proof (cases d)
  case (Inr fr)
  then show "follows env d h \<Longrightarrow> ?thesis"
    by (cases rule: next_cases [of env fr]) (auto simp: follows_def dt_let_def tco_let_def)
qed (auto simp: follows_def dt_let_def tco_let_def)

lemma out_go2: "follows2 env d h \<Longrightarrow> out_follows env c (go2 v d) (tgo2 c v h)"
proof (cases d)
  case (Inr y)
  then show "follows2 env d h \<Longrightarrow> ?thesis"
    by (cases rule: next_cases [of env "fst y"]) (auto simp: follows2_def dt_let_def tco_let_def split: prod.splits)
qed (auto simp: follows2_def dt_let_def tco_let_def)

lemma out_go3: "near d h \<Longrightarrow> out_follows env c (go2 v d) (tgo3 env c v h)"
proof (cases d)
  case (Inr y)
  then show "near d h \<Longrightarrow> ?thesis"
    by (cases rule: next_cases [of env "fst y"]) (auto simp: near_def dt_let_def tco_let_def split: prod.splits)
qed (auto simp: near_def dt_let_def tco_let_def)

lemma out_go1: "near d h \<Longrightarrow> out_follows env c (go v d) (tgo c v (unwrap h (READ_NEXT_OP env)))"
proof (cases d)
  case (Inr fr)
  then show "near d h \<Longrightarrow> ?thesis"
    by (cases rule: next_cases [of env fr]) (auto simp: near_def dt_let_def tco_let_def)
qed (auto simp: near_def dt_let_def tco_let_def)

lemma out_let: "(\<And>x. r = Inr x \<Longrightarrow> out_follows env c (f x) (g x)) \<Longrightarrow> out_follows env c (dt_let r v f) (tco_let r v g)"
  by (cases r) (auto simp: dt_let_def tco_let_def)

lemma out_let_pair:
  "(\<And>x y. r = Inr (x, y) \<Longrightarrow> out_follows env c (f x y) (g x y)) \<Longrightarrow> out_follows env c (dt_let r v (\<lambda>(x, y). f x y)) (tco_let r v (\<lambda>(x, y). g x y))"
  by (rule out_let) auto

lemma out_cond:
  "(b \<Longrightarrow> out_follows env c x x') \<Longrightarrow> (\<not> b \<Longrightarrow> out_follows env c y y') \<Longrightarrow> out_follows env c (if b then x else y) (if b then x' else y')"
  by simp

lemmas out_rules = out_cond out_let_pair out_let out_go out_go2 out_go3

definition opt_follows :: "dt_env \<Rightarrow> mem_cache \<Rightarrow> dt_out option \<Rightarrow> tco_out option \<Rightarrow> bool" where
  "opt_follows env c d h \<longleftrightarrow> rel_option (out_follows env c) d h"

lemma opt_cond:
  "(b \<Longrightarrow> opt_follows env c x x') \<Longrightarrow> (\<not> b \<Longrightarrow> opt_follows env c y y') \<Longrightarrow> opt_follows env c (if b then x else y) (if b then x' else y')"
  by simp

lemma opt_some: "out_follows env c d h \<Longrightarrow> opt_follows env c (Some d) (Some h)" "opt_follows env c None None"
  by (simp_all add: opt_follows_def)

lemmas opt_rules = opt_cond opt_some out_go out_go2 out_go3

lemma follows_fetched: "follows env (Inr fr) (READ_NEXT_OP env fr)"
  by (simp add: follows_def)

lemma control_follows: "opt_follows env c (dt_control env opcode fr v) (tco_control env opcode fr c v)"
  unfolding dt_control_def tco_control_def Let_def
  by (intro opt_rules follows_if follows_else follows_br follows_br_if follows_br_table follows_fetched) simp_all

lemma variable_follows: "opt_follows env c (dt_variable env opcode fr v) (tco_variable env opcode fr c v)"
  unfolding dt_variable_def tco_variable_def Let_def
  by (intro opt_rules follows_drop follows_select follows_local_get follows_local_set follows_local_tee follows_global_get
      follows2_global_set follows_table_get follows2_table_set)

lemma tables_eq:
  "tco_loads = dt_loads" "tco_stores = dt_stores" "tco_numeric = dt_numeric" "tco_sat_ops = dt_sat_ops"
  by (simp_all add: fun_eq_iff tco_loads_def dt_loads_def tco_stores_def dt_stores_def tco_numeric_def dt_numeric_def tco_relops_def dt_relops_def
      tco_integer_ops_def dt_integer_ops_def tco_float_ops_def dt_float_ops_def tco_convert_ops_def dt_convert_ops_def tco_sat_ops_def dt_sat_ops_def)

lemma grow_follows:
  assumes "full_memories ms v" "coherent env v c"
  shows "out_follows env c (go2 v (dt_memory_grow ip ms env fr v))
    (tco_let (tco_memory_grow ip ms env fr c v) v (\<lambda>(handler, fr, c, v). TNext handler fr c v))"
proof (cases "dt_memory_grow ip ms env fr v")
  case (Inr y)
  with follows_grow [OF assms, of ip fr] show ?thesis
    by (cases rule: next_cases [of env "fst y"]) (auto simp: dt_let_def tco_let_def split: prod.splits)
qed (use follows_grow [OF assms, of ip fr] in \<open>simp add: dt_let_def\<close>)

lemma memory_follows:
  assumes "full_memories ms v" "coherent env v c"
  shows "opt_follows env c (dt_memory ip ms env opcode fr v) (tco_memory ip ms env opcode fr c v)"
proof -
  have "opt_follows env c (case map_of t opcode of None \<Rightarrow> d | Some x \<Rightarrow> f x) (case map_of t opcode of None \<Rightarrow> h | Some x \<Rightarrow> g x)"
    if "\<And>x y. opt_follows env c (f (x, y)) (g (x, y))" "opt_follows env c d h" for t :: "(u8 \<times> nat \<times> 'x) list" and f g d h
    using that by (auto split: option.split)
  note * = this
  show ?thesis
    unfolding dt_memory_def tco_memory_def Let_def tables_eq
    by (intro *; (simp only: prod.case)?; intro opt_rules grow_follows assms follows_memory_size follows_load follows2_store)
qed

lemma follows_const_of: "follows env (unwrap r (\<lambda>(x, fr). push (k x) fr)) (tco_const env (unwrap r (\<lambda>(x, fr). Inr (k x, fr))))"
  using follows_const [of env "unwrap r (\<lambda>(x, fr). Inr (k x, fr))"] by (simp add: unwrap_assoc case_prod_unfold)

lemma follows_const_here: "follows env (push x fr) (tco_const env (Inr (x, fr)))"
  using follows_const [of env "Inr (x, fr)"] by simp

lemma value_follows: "opt_follows env c (dt_value ip env opcode fr v) (tco_value ip env opcode fr c v)"
proof -
  have "opt_follows env c (map_option (\<lambda>oper. go v (dt_num oper fr)) m) (map_option (\<lambda>oper. tgo c v (tco_num oper env fr)) m)" for m
    by (cases m) (simp_all add: opt_some out_go follows_num)
  then show ?thesis
    unfolding dt_value_def tco_value_def Let_def tables_eq
    by (intro opt_cond opt_some(1) out_go follows_num follows_ref_func follows_const_of follows_const follows_const_here)
qed

lemma table_init_follows: "out_follows env c (dt_table_init ip ms env fr v) (tco_table_init ip ms env fr c v)"
proof -
  have items: "snd (act_for i n (tco_init_expr am lay ms k elem a src dst) v) = snd (act_for i n (init_expr am lay ms k elem a src dst) v) \<and>
      (fst (act_for i n (tco_init_expr am lay ms k elem a src dst) v) = None \<longleftrightarrow> fst (act_for i n (init_expr am lay ms k elem a src dst) v) = None)"
    for i n am lay k elem a src dst v
  proof (induction n arbitrary: i v)
    case (Suc n)
    have "snd (tco_init_expr am lay ms k elem a src dst i v) = snd (init_expr am lay ms k elem a src dst i v) \<and>
      (fst (tco_init_expr am lay ms k elem a src dst i v) = None \<longleftrightarrow> fst (init_expr am lay ms k elem a src dst i v) = None)"
      by (auto simp: tco_init_expr_def init_expr_def act_let_def act_set_def act_err_def split: sum.split)
    with Suc show ?case
      by (auto simp: act_then_def split: prod.split option.split)
  qed simp
  have done_: "out_follows env c (case r of (Some e, v) \<Rightarrow> Stop e v | (None, v) \<Rightarrow> Next fr v)
      (case r' of (Some e, v) \<Rightarrow> TStop e v | (None, v) \<Rightarrow> tco_let (READ_NEXT_OP env fr) v (\<lambda>(handler, fr). TNext handler fr c v))"
    if "snd r' = snd r \<and> (fst r' = None \<longleftrightarrow> fst r = None)" for r r' fr
    using that by (cases rule: next_cases [of env fr]) (auto simp: tco_let_def split: prod.splits option.splits)
  have next_: "out_follows env c (Next fr v) (tco_let (READ_NEXT_OP env fr) v (\<lambda>(handler, fr). TNext handler fr c v))" for fr
    by (cases rule: next_cases [of env fr]) (auto simp: tco_let_def)
  have stop: "out_follows env c (Stop e v) (TStop e' v)" for e e'
    by simp
  have "out_follows env c (dt_let r v (\<lambda>(x, y, z, fr). f x y z fr)) (tco_let r v (\<lambda>(x, y, z, fr). g x y z fr))"
    if "\<And>x y z fr. r = Inr (x, y, z, fr) \<Longrightarrow> out_follows env c (f x y z fr) (g x y z fr)" for r :: "(value_u \<times> value_u \<times> value_u \<times> frame) res" and f g
    using that by (intro out_let) auto
  note four = this
  show ?thesis
    unfolding dt_table_init_def tco_table_init_def Let_def
    by (rule four out_let_pair out_let)+ (intro out_cond out_let stop next_ done_; simp add: items)
qed

lemma prefix_fc_follows:
  assumes "coherent env v c"
  shows "out_follows env c (dt_prefix_fc ip ms env fr v) (tco_prefix_fc ip ms env fr c v)"
proof -
  have "out_follows env c (case m of None \<Rightarrow> d | Some oper \<Rightarrow> go v (dt_num oper fr)) (case m of None \<Rightarrow> h | Some oper \<Rightarrow> tgo c v (unwrap (dt_num oper fr) (READ_NEXT_OP env)))"
    if "out_follows env c d h" for m d h fr
    using that by (cases m) (simp_all add: out_go1 del: out_follows.simps)
  note sat = this
  have stop: "out_follows env c (Stop e v) (TStop e' v)" for e e'
    by simp
  show ?thesis
    unfolding dt_prefix_fc_def tco_prefix_fc_def Let_def tables_eq
    by (rule out_let_pair) (intro sat out_cond out_go1 out_go3 stop table_init_follows near_memory_init near_memory_copy near_memory_fill
        near_refl near_plain assms)
qed

text \<open>The calls: fetching the next opcode early does not change the arguments.\<close>

lemma call_follows: "out_follows env c (dt_call ms env fr v) (tco_op_call ms env fr v)"
  unfolding dt_call_def tco_op_call_def
proof (rule out_let_pair, goal_cases)
  case (1 i fr')
  show ?case
  proof (cases rule: next_cases [of env fr'])
    case 1
    then show ?thesis
      by (auto simp: tco_let_def dt_let_def drop_args_def READ_NEXT_OP_def read_u8_def Let_def split: sum.split if_splits)
  next
    case (2 handler fr'')
    then show ?thesis
      by (cases fr') (auto simp: tco_let_def dt_let_def drop_args_def READ_NEXT_OP_def read_u8_def Let_def split: sum.split if_splits)
  qed
qed

lemma pop_pc: "pop (fr\<lparr>fr_pc := p\<rparr>) = unwrap (pop fr) (\<lambda>(x, fr). Inr (x, fr\<lparr>fr_pc := p\<rparr>))"
  and drop_args_pc: "drop_args fn (fr\<lparr>fr_pc := p\<rparr>) = unwrap (drop_args fn fr) (\<lambda>fr. Inr (fr\<lparr>fr_pc := p\<rparr>))"
  by (cases fr, simp add: pop_def, cases fr, simp add: drop_args_def Let_def)

lemma same_pc: "pop fr = Inr (x, fr') \<Longrightarrow> fr_pc fr' = fr_pc fr" "drop_args fn fr = Inr fr' \<Longrightarrow> fr_pc fr' = fr_pc fr"
  by (auto simp: pop_def drop_args_def Let_def split: if_splits)

lemma pc_selects: "fr_sp (fr\<lparr>fr_pc := p\<rparr>) = fr_sp fr" "fr_stack (fr\<lparr>fr_pc := p\<rparr>) = fr_stack fr"
  by simp_all

lemma out_let_pc:
  "(\<And>x fr. r = Inr (x, fr) \<Longrightarrow> out_follows env c (f x fr) (g x (fr\<lparr>fr_pc := p\<rparr>))) \<Longrightarrow>
     out_follows env c (dt_let r v (\<lambda>(x, fr). f x fr)) (tco_let (unwrap r (\<lambda>(x, fr). Inr (x, fr\<lparr>fr_pc := p\<rparr>))) v (\<lambda>(x, fr). g x fr))"
  "(\<And>fr. s = Inr fr \<Longrightarrow> out_follows env c (f' fr) (g' (fr\<lparr>fr_pc := p\<rparr>))) \<Longrightarrow>
     out_follows env c (dt_let s v f') (tco_let (unwrap s (\<lambda>fr. Inr (fr\<lparr>fr_pc := p\<rparr>))) v g')"
  by (cases r, auto simp: dt_let_def tco_let_def, cases s, auto)

lemma out_fault_let:
  "(\<And>x y. r = Inr (x, y) \<Longrightarrow> out_follows env c (f x y) (TStop Fault w)) \<Longrightarrow> out_follows env c (dt_let r v (\<lambda>(x, y). f x y)) (TStop Fault w)"
  "(\<And>x. s = Inr x \<Longrightarrow> out_follows env c (f' x) (TStop Fault w)) \<Longrightarrow> out_follows env c (dt_let s v f') (TStop Fault w)"
  by (cases r, auto simp: dt_let_def, cases s, auto)

lemma out_fault_cond:
  "out_follows env c x y \<Longrightarrow> out_follows env c x' y \<Longrightarrow> out_follows env c (if b then x else x') y"
  by simp

lemma out_stop: "out_follows env c (Stop e v) (TStop e' v)" "out_follows env c (Stop e v) (TStop Fault w)"
  by simp_all

lemma call_indirect_follows: "out_follows env c (dt_call_indirect ip ms env fr v) (tco_call_indirect ip ms env fr v)"
  unfolding dt_call_indirect_def tco_call_indirect_def Let_def
proof (rule out_let_pair, rule out_let, rule out_let, rule out_let_pair, goal_cases)
  case (1 type_idx fr0 mi src_type table_idx fr')
  have invoked: "out_follows env c (Invoke a args own fr v) (if b then TInvoke a args own direct handler (fr\<lparr>fr_pc := p\<rparr>) v else TStop Fault v)"
    if "READ_NEXT_OP env fr' = (if b then Inr (handler, fr'\<lparr>fr_pc := p\<rparr>) else Inl Fault)" "fr_pc fr = fr_pc fr'" for fr a args own direct b handler p
    using that by (auto simp: READ_NEXT_OP_def read_u8_def dest!: arg_cong [where f = fr_pc] split: if_splits)
  show ?case
  proof (cases rule: next_cases [of env fr'])
    case 1
    then have inv: "out_follows env c (Invoke a args own fr v) (TStop Fault v)" if "fr_pc fr = fr_pc fr'" for fr a args own
      using invoked [of False _ _ fr a args own] that by simp
    show ?thesis
      unfolding 1 tco_let_def sum.case
      by (intro out_fault_let out_fault_cond out_stop inv) (simp_all add: same_pc)
  next
    case (2 handler fr'')
    then obtain p where p: "fr'' = fr'\<lparr>fr_pc := p\<rparr>" "READ_NEXT_OP env fr' = Inr (handler, fr'\<lparr>fr_pc := p\<rparr>)"
      by (auto simp: READ_NEXT_OP_def read_u8_def split: if_splits)
    then have inv: "out_follows env c (Invoke a args own fr v) (TInvoke a args own direct handler (fr\<lparr>fr_pc := p\<rparr>) v)" if "fr_pc fr = fr_pc fr'" for fr a args own direct
      using invoked [of True _ _ fr a args own direct] that by simp
    have fetched: "tco_let (Inr (handler, fr'\<lparr>fr_pc := p\<rparr>)) v (\<lambda>(handler, fr). g handler fr) = g handler (fr'\<lparr>fr_pc := p\<rparr>)" for g
      by (simp add: tco_let_def)
    show ?thesis
      unfolding p(2) fetched pop_pc drop_args_pc
      by (rule out_let, rule out_let_pc, rule out_let, rule out_cond, rule out_stop, rule out_let, rule out_cond, rule out_stop, rule out_let,
          rule out_let, rule out_cond, rule out_stop, unfold drop_args_pc, rule out_let_pc, unfold pc_selects, intro out_cond out_stop inv)
        (simp_all add: same_pc)
  qed
qed

section \<open>The dispatch\<close>

definition v128_load_here :: "dt_env \<Rightarrow> frame \<Rightarrow> bool" where
  "v128_load_here env fr = (case read_vu32 env fr of Inl e \<Rightarrow> False | Inr (opcode_fd, _) \<Rightarrow> opcode_fd = 0)"

lemma prefix_fd_follows: "\<not> v128_load_here env fr \<Longrightarrow> out_follows env c (dt_prefix_fd env fr v) (TStop E_plain v)"
  by (auto simp: dt_prefix_fd_def dt_let_def v128_load_here_def split: sum.splits prod.splits)

lemma opt_case:
  "opt_follows env c d h \<Longrightarrow> out_follows env c x y \<Longrightarrow> out_follows env c (case d of Some x \<Rightarrow> x | None \<Rightarrow> x) (case h of Some x \<Rightarrow> x | None \<Rightarrow> y)"
  by (auto simp: opt_follows_def split: option.split elim: option.rel_cases)

lemma op_follows:
  assumes "full_memories ms v" "coherent env v c" "opcode = 0xfd \<Longrightarrow> \<not> v128_load_here env fr"
  shows "out_follows env c (dt_op ip ms env opcode fr v) (tco_op ip ms env opcode fr c v)"
  unfolding dt_op_def tco_op_def
  by (intro opt_case out_cond control_follows variable_follows memory_follows value_follows call_follows call_indirect_follows
      prefix_fc_follows prefix_fd_follows out_stop assms)

section \<open>The shape of the memories\<close>

definition mem_shape :: "vm \<Rightarrow> (ptr \<times> addr option vec \<times> (nat \<times> nat \<times> nat) list) list" where
  "mem_shape v = map (\<lambda>mi. (mi_mod mi, m_addrs mi, map (\<lambda>x. (mi_mem x, vec_size (mdata x), vcap (mdata x))) (vdata (mi_memories mi)))) (instances v)"

lemma shape_inst:
  assumes "mem_shape w = mem_shape v" "the_inst v i = Inr mi"
  obtains mi' where "the_inst w i = Inr mi'" "mi_mod mi' = mi_mod mi" "m_addrs mi' = m_addrs mi"
    "map (\<lambda>x. (mi_mem x, vec_size (mdata x), vcap (mdata x))) (vdata (mi_memories mi')) =
     map (\<lambda>x. (mi_mem x, vec_size (mdata x), vcap (mdata x))) (vdata (mi_memories mi))"
proof -
  have "length (instances w) = length (instances v)"
    using arg_cong [OF assms(1), of length] by (simp add: mem_shape_def)
  moreover have i: "i < length (instances v)" "mi = instances v ! i"
    using assms(2) by (auto simp: the_inst_def split: if_splits)
  moreover have "mem_shape w ! i = mem_shape v ! i"
    using assms(1) by simp
  ultimately show ?thesis
    using that [of "instances w ! i"] by (simp add: mem_shape_def the_inst_def)
qed

lemma shape_memory:
  assumes "mem_shape w = mem_shape v" "at_addr mi_memories v a = Inr x"
  obtains y where "at_addr mi_memories w a = Inr y" "mi_mem y = mi_mem x" "vec_size (mdata y) = vec_size (mdata x)" "vcap (mdata y) = vcap (mdata x)"
proof -
  from assms(2) obtain i j mi where a: "a = Some (i, j)" "the_inst v i = Inr mi" "j < length (vdata (mi_memories mi))" "x = vdata (mi_memories mi) ! j"
    by (auto simp: at_addr_def vec_at_def res_simps split: option.splits if_splits)
  obtain mi' where mi': "the_inst w i = Inr mi'"
      "map (\<lambda>x. (mi_mem x, vec_size (mdata x), vcap (mdata x))) (vdata (mi_memories mi')) =
       map (\<lambda>x. (mi_mem x, vec_size (mdata x), vcap (mdata x))) (vdata (mi_memories mi))"
    by (rule shape_inst [OF assms(1) a(2)])
  from mi'(2) have "length (vdata (mi_memories mi')) = length (vdata (mi_memories mi))"
    by (rule map_eq_imp_length_eq)
  moreover from arg_cong [OF mi'(2), of "\<lambda>xs. xs ! j"] this a(3)
  have "mi_mem (vdata (mi_memories mi') ! j) = mi_mem x \<and> vec_size (mdata (vdata (mi_memories mi') ! j)) = vec_size (mdata x) \<and>
      vcap (mdata (vdata (mi_memories mi') ! j)) = vcap (mdata x)"
    by (simp add: a(4))
  ultimately show ?thesis
    using that [of "vdata (mi_memories mi') ! j"] a mi'(1) by (simp add: at_addr_def vec_at_def)
qed

lemma shape_addr_mem:
  assumes "mem_shape w = mem_shape v" "at_addr mi_memories v a = Inr x"
  shows "addr_mem ms w a = addr_mem ms v a"
proof -
  obtain y where "at_addr mi_memories w a = Inr y" "mi_mem y = mi_mem x"
    by (rule shape_memory [OF assms])
  moreover obtain i j mi where "a = Some (i, j)" "the_inst v i = Inr mi"
    using assms(2) by (auto simp: at_addr_def res_simps split: option.splits)
  moreover obtain mi' where "the_inst w i = Inr mi'" "mi_mod mi' = mi_mod mi"
    using shape_inst [OF assms(1) calculation(4)] by metis
  ultimately show ?thesis
    using assms(2) by (simp add: addr_mem_def addr_module_def)
qed

lemma full_shape: "mem_shape w = mem_shape v \<Longrightarrow> full_memories ms v \<Longrightarrow> full_memories ms w"
  unfolding full_memories_def
proof (intro allI impI, goal_cases)
  case (1 a x mem)
  obtain y where "at_addr mi_memories v a = Inr y" "vec_size (mdata y) = vec_size (mdata x)"
    using shape_memory [OF 1(1) [symmetric] 1(3)] by metis
  moreover have "addr_mem ms v a = Inr mem"
    using shape_addr_mem [OF 1(1) [symmetric] 1(3), of ms] 1(4) by simp
  ultimately show ?case
    using 1(2) by metis
qed

lemma coherent_shape: "mem_shape w = mem_shape v \<Longrightarrow> coherent env v c \<Longrightarrow> coherent env w c"
  unfolding coherent_def
proof (intro allI impI, goal_cases)
  case (1 x)
  then show ?case
    using shape_memory [OF 1(1) [symmetric] 1(3)] by metis
qed

text \<open>The first memory of each instance exists.\<close>

definition mems_linked :: "vm \<Rightarrow> bool" where
  "mems_linked v \<longleftrightarrow> (\<forall>i mi. the_inst v i = Inr mi \<longrightarrow> vec_size (m_addrs mi) \<noteq> 0 \<longrightarrow> (\<exists>x. at_addr mi_memories v (vdata (m_addrs mi) ! 0) = Inr x))"

lemma linked_shape: "mem_shape w = mem_shape v \<Longrightarrow> mems_linked v \<Longrightarrow> mems_linked w"
  unfolding mems_linked_def
proof (intro allI impI, goal_cases)
  case (1 i mi)
  then show ?case
  proof (rule_tac shape_inst [OF 1(1) [symmetric] 1(3)])
    fix mi' assume mi': "the_inst v i = Inr mi'" "m_addrs mi' = m_addrs mi"
    then obtain x where "at_addr mi_memories v (vdata (m_addrs mi) ! 0) = Inr x"
      using 1(2,4) by metis
    from shape_memory [OF 1(1) this] show ?thesis by metis
  qed
qed

lemma shape_set_inst:
  assumes "the_inst v i = Inr mi" "mi_mod mi' = mi_mod mi" "m_addrs mi' = m_addrs mi" "mi_memories mi' = mi_memories mi"
  shows "mem_shape (set_inst i mi' v) = mem_shape v"
  using assms by (auto simp: mem_shape_def set_inst_def the_inst_def map_update split: if_splits intro: list_update_same_conv [THEN iffD2])

lemma shape_set_mem:
  assumes "at_addr mi_memories v a = Inr x" "set_mem y v a = Inr w" "mi_mem y = mi_mem x" "vec_size (mdata y) = vec_size (mdata x)" "vcap (mdata y) = vcap (mdata x)"
  shows "mem_shape w = mem_shape v"
  using at_set_addr [OF assms(1,2)]
proof cases
  case (1 i j mi)
  have "map (\<lambda>x. (mi_mem x, vec_size (mdata x), vcap (mdata x))) ((vdata (mi_memories mi))[j := y]) =
      map (\<lambda>x. (mi_mem x, vec_size (mdata x), vcap (mdata x))) (vdata (mi_memories mi))"
    using 1(3,4) assms(3-5) by (simp add: map_update list_update_same_conv)
  with 1 show ?thesis
    by (auto simp: mem_shape_def set_inst_def the_inst_def map_update split: if_splits intro!: list_update_same_conv [THEN iffD2])
qed

interpretation shp: vm_order ms "\<lambda>v w. full_memories ms v \<longrightarrow> mem_shape w = mem_shape v" for ms
proof (unfold_locales, goal_cases)
  case (2 v w u)
  then show ?case using full_shape by metis
next
  case (3 v a x d w)
  then show ?case by (auto elim!: shape_set_mem)
next
  case (4 v a x mem am n d w)
  show ?case
  proof
    assume full: "full_memories ms v"
    have size: "vec_size (mdata x) = unat (lim_max (mem_lim mem)) * WASM_PAGE_SIZE"
      using full 4(1,2) unfolding full_memories_def by blast
    then have "n = 0"
      using 4(4) page_pos by simp
    then have "d = mdata x"
      using 4(3) size page_pos vec_resize_same [of am 0 "mdata x"] by simp
    then show "mem_shape w = mem_shape v"
      using 4 by (auto elim!: shape_set_mem)
  qed
next
  case (5 v a y t w)
  show ?case by (rule at_set_addr [OF 5(1,3)]) (simp add: shape_set_inst)
next
  case (6 v a y tab t n w)
  show ?case by (rule at_set_addr [OF 6(1,5)]) (simp add: shape_set_inst)
next
  case (7 v a g z w)
  show ?case by (rule at_set_addr [OF 7]) (simp add: shape_set_inst)
next
  case (8 i k v w)
  then show ?case by (auto simp: drop_element_def res_simps intro: shape_set_inst)
next
  case (9 i k v w)
  then show ?case by (auto simp: drop_data_def res_simps intro: shape_set_inst)
qed simp

section \<open>Runs\<close>

text \<open>No place in the code reads as \<open>v128.load\<close>, which only the first interpreter accepts.\<close>

definition v128_free :: "u8 list \<Rightarrow> bool" where
  "v128_free code =
     list_all (\<lambda>p. code ! p = 0xfd \<longrightarrow> (case stream_read_vu32_unchecked code (Suc p) of Inl e \<Rightarrow> True | Inr (x, _) \<Rightarrow> x \<noteq> 0)) [0..<length code]"

definition no_v128 :: "mods \<Rightarrow> bool" where
  "no_v128 ms \<longleftrightarrow> (\<forall>(p, m) \<in> set ms. \<forall>f \<in> set (vdata (funcs m)). v128_free (f_code f))"

definition host_keeps_memories :: "mods \<Rightarrow> host \<Rightarrow> bool" where
  "host_keeps_memories ms h \<longleftrightarrow>
     (\<forall>tr hf v a args m e w buf. h tr hf ms v a args m = Some (e, w, buf) \<longrightarrow> full_memories ms v \<longrightarrow> mem_shape w = mem_shape v)"

definition ready :: "mods \<Rightarrow> vm \<Rightarrow> bool" where
  "ready ms v \<longleftrightarrow> full_memories ms v \<and> mems_linked v"

definition cached :: "dt_env \<Rightarrow> vm \<Rightarrow> mem_cache \<Rightarrow> bool" where
  "cached env v c \<longleftrightarrow> coherent env v c \<and> v128_free (f_code (de_fn env)) \<and> (de_mem0 env \<noteq> None \<longrightarrow> (\<exists>x. at_addr mi_memories v (de_mem0 env) = Inr x))"

definition agrees :: "outcome \<Rightarrow> thread \<Rightarrow> outcome option \<Rightarrow> bool" where
  "agrees y t out \<longleftrightarrow> (case y of (e, w, t', buf) \<Rightarrow>
     \<exists>e' w' buf'. out = Some (e', w', t, buf') \<and>
       (if e = None then e' = None \<and> w' = w \<and> buf' = buf else e' \<noteq> None \<and> (e' = Some Fault \<or> w' = w)))"

definition tco_called ::
  "interp \<Rightarrow> mods \<Rightarrow> dt_env \<Rightarrow> func \<Rightarrow> vm \<Rightarrow> thread \<Rightarrow> addr \<Rightarrow> value_u list \<Rightarrow> outcome option" where
  "tco_called ip ms env fn v t a args =
     (if f_tr fn \<noteq> 0
      then map_option (\<lambda>(e, v, buf). (e, v, t, buf)) (ip_host ip (f_tr fn) (f_host_func fn) ms v a args (de_mem0 env))
      else in_place_tco_call ip ms v t a args)"

lemma tco_exec_steps:
  "tco_op ip ms env h fr c v = TNext h' fr' c' v' \<Longrightarrow> tco_exec ip ms env c h fr v t = tco_exec ip ms env c' h' fr' v' t"
  "tco_op ip ms env h fr c v = TStop e w \<Longrightarrow> tco_exec ip ms env c h fr v t = Some (Some e, w, t, fr_local fr)"
  "tco_op ip ms env h fr c v = TReturn fr' v' \<Longrightarrow> tco_exec ip ms env c h fr v t = (case tco_return env fr' of (e, buf) \<Rightarrow> Some (e, v', t, buf))"
  by (simp_all add: tco_exec.simps [of ip ms env c h fr v t])

lemma tco_exec_invoke:
  assumes "tco_op ip ms env h fr c v = TInvoke a args own direct h' fr' v'" "addr_fn ms v' (Some a) = Inr fn"
  shows "tco_exec ip ms env c h fr v t = Option.bind (tco_called ip ms env fn v' t a args) (\<lambda>(e, v, t, buf).
      case (if direct \<and> f_tr fn = 0 \<and> de_mem0 env \<noteq> None then mem0_refresh env v else Inr c) of
        Inl e \<Rightarrow> Some (Some e, v, t, fr_local fr')
      | Inr c \<Rightarrow>
          (case e of
             Some e \<Rightarrow> Some (Some e, v, t, fr_local fr')
           | None \<Rightarrow>
               (case dt_resume fn own buf fr' of
                  Inl e \<Rightarrow> Some (Some e, v, t, fr_local fr')
                | Inr fr \<Rightarrow> tco_exec ip ms env c h' fr v t)))"
  unfolding tco_exec.simps [of ip ms env c h fr v t] assms tco_out.case sum.case tco_called_def in_place_tco_call_def
  by (simp only: map_conv_bind_option comp_def)

lemma v128_here: "v128_free (f_code (de_fn env)) \<Longrightarrow> READ_NEXT_OP env fr = Inr (0xfd, fr') \<Longrightarrow> \<not> v128_load_here env fr'"
  by (fastforce simp: v128_free_def list_all_iff v128_load_here_def READ_NEXT_OP_def read_u8_def read_vu32_def res_simps split: if_splits sum.splits)

lemma instr_follows:
  assumes "ready ms v" "cached env v c" "READ_NEXT_OP env fr = Inr (h, fr1)"
  shows "out_follows env c (dt_instr ip ms env fr v) (tco_op ip ms env h fr1 c v)"
proof -
  have "dt_instr ip ms env fr v = dt_op ip ms env h fr1 v"
    using assms(3) by (intro dt_instr_eq) (simp add: READ_NEXT_OP_def)
  with op_follows [of ms v env c h fr1 ip] assms v128_here [of env fr fr1] show ?thesis
    by (simp add: ready_def cached_def)
qed

lemma run_off_code: "dt_run ip ms env fr v t y \<Longrightarrow> READ_NEXT_OP env fr = Inl Fault \<Longrightarrow> fst y = Some Fault"
  by (erule dt_run.cases) (auto simp: dt_instr_def dt_let_def READ_NEXT_OP_def)

lemma shape_ready: "mem_shape w = mem_shape v \<Longrightarrow> ready ms v \<Longrightarrow> ready ms w"
  by (auto simp: ready_def intro: full_shape linked_shape)

lemma shape_cached: "mem_shape w = mem_shape v \<Longrightarrow> cached env v c \<Longrightarrow> cached env w c"
  unfolding cached_def using shape_memory [of w v "de_mem0 env"] coherent_shape [of w v env c] by metis

lemma refresh_same: "cached env v c \<Longrightarrow> de_mem0 env \<noteq> None \<Longrightarrow> mem0_refresh env v = Inr c"
  by (auto simp: cached_def coherent_def mem0_refresh_def)

lemma resume_fetched:
  assumes "READ_NEXT_OP env fr = Inr (h, fr1)" "dt_resume fn own buf fr = Inr fr2"
  shows "\<exists>fr3. dt_resume fn own buf fr1 = Inr fr3 \<and> READ_NEXT_OP env fr2 = Inr (h, fr3)"
  using assms by (cases fr) (auto simp: READ_NEXT_OP_def read_u8_def dt_resume_def Let_def split: if_splits)

lemma resume_off_code:
  "READ_NEXT_OP env fr = Inl Fault \<Longrightarrow> dt_resume fn own buf fr = Inr fr2 \<Longrightarrow> READ_NEXT_OP env fr2 = Inl Fault"
  by (auto simp: READ_NEXT_OP_def read_u8_def dt_resume_def Let_def split: if_splits)

lemma addr_fn_code: "no_v128 ms \<Longrightarrow> addr_fn ms v a = Inr fn \<Longrightarrow> v128_free (f_code fn)"
  by (fastforce simp: no_v128_def addr_fn_def the_mod_def vec_at_def res_simps dest: map_of_SomeD split: option.splits if_splits)

lemma tco_enter_follows:
  assumes "ready ms v" "no_v128 ms" "dt_enter ip ms v t a args = Inr (env, fr, t')" "READ_NEXT_OP env fr = Inr (h, fr1)"
  shows "\<exists>c. tco_enter ip ms v t a args = Inr (env, c, h, fr1, t') \<and> cached env v c"
proof -
  from assms(3) obtain fn fi i mi where *: "addr_fn ms v (Some a) = Inr fn" "at_addr mi_funcs v (Some a) = Inr fi" "fi_mod_inst fi = Some i" "the_inst v i = Inr mi"
      "env = \<lparr>de_fn = fn, de_inst = i, de_mem0 = (if vec_size (m_addrs mi) \<noteq> 0 then vdata (m_addrs mi) ! 0 else None)\<rparr>"
    by (auto simp: dt_enter_def Let_def res_simps split: if_splits sum.splits option.splits)
  have "\<exists>c. (if vec_size (m_addrs mi) \<noteq> 0 then mem0_refresh env v else Inr \<lparr>mem0 = 0, mem0_size = 0\<rparr>) = Inr c \<and> cached env v c"
  proof (cases "vec_size (m_addrs mi) = 0")
    case True
    with * addr_fn_code [OF assms(2) *(1)] show ?thesis
      by (simp add: cached_def coherent_def at_addr_def)
  next
    case False
    then obtain x where "at_addr mi_memories v (vdata (m_addrs mi) ! 0) = Inr x"
      using assms(1) *(4) unfolding ready_def mems_linked_def by blast
    with False * addr_fn_code [OF assms(2) *(1)] show ?thesis
      by (simp add: cached_def coherent_def mem0_refresh_def)
  qed
  then show ?thesis
    using assms(3,4) * by (auto simp: dt_enter_def tco_enter_def Let_def split: if_splits)
qed

lemma tco_enter_refused:
  assumes "dt_enter ip ms v t a args = Inl (e, t')" "e \<noteq> Fault"
  shows "\<exists>e'. tco_enter ip ms v t a args = Inl e'"
  using assms
  by (cases "addr_fn ms v (Some a)"; cases "at_addr mi_funcs v (Some a)")
    (auto simp: dt_enter_def tco_enter_def Let_def only_fault_def unwrap_def split: if_splits sum.splits option.splits)

lemma tco_leave_enter: "tco_enter ip ms v t a args = Inr (env, c, h, fr, t') \<Longrightarrow> tco_leave env (e, w, t', buf) = (e, w, t, buf)"
  by (auto simp: tco_enter_def tco_leave_def Let_def res_simps split: if_splits option.splits)

lemma agrees_error: "agrees (Some e, w, t', buf) t (Some (Some e', w', t, buf')) \<longleftrightarrow> e' = Fault \<or> w' = w"
  by (auto simp: agrees_def)

lemma agrees_fault: "agrees (Some e, w, t', buf) t (Some (Some Fault, w', t, buf'))"
  by (simp add: agrees_def)

lemma agrees_step: "agrees (Some e, w, t', buf) t (Some (Some e', w, t, buf'))"
  by (simp add: agrees_def)

lemma run_thread_left:
  "dt_run ip ms env fr v t y \<Longrightarrow> fst y = None \<Longrightarrow> fst (snd (snd y)) = thread_left env t"
  "dt_called ip ms env fn v t a args y \<Longrightarrow> fst y = None \<Longrightarrow> fst (snd (snd y)) = t"
proof (induction rule: dt_run_dt_called.inducts)
  case (run_finish env fr v fr' v' t e t' buf)
  then show ?case by (auto simp: dt_leave_def thread_left_def Let_def split: if_splits)
next
  case (called_run fn v t a args env' fr' t' y env)
  then show ?case using dt_enter_thread(1) by simp
qed auto

lemma run_shape:
  assumes host: "host_keeps_memories ms (ip_host ip)"
  shows "dt_run ip ms env fr v t y \<Longrightarrow> ready ms v \<Longrightarrow> mem_shape (fst (snd y)) = mem_shape v"
  "dt_called ip ms env fn v t a args y \<Longrightarrow> ready ms v \<Longrightarrow> mem_shape (fst (snd y)) = mem_shape v"
proof -
  have "shp.host_le ms (ip_host ip)"
    using host unfolding shp.host_le_def host_keeps_memories_def .
  from shp.run_le [OF this]
  show "dt_run ip ms env fr v t y \<Longrightarrow> ready ms v \<Longrightarrow> mem_shape (fst (snd y)) = mem_shape v"
    "dt_called ip ms env fn v t a args y \<Longrightarrow> ready ms v \<Longrightarrow> mem_shape (fst (snd y)) = mem_shape v"
    unfolding ready_def by blast+
qed

lemma run_agrees:
  assumes host: "host_keeps_memories ms (ip_host ip)" and v128: "no_v128 ms"
  shows "dt_run ip ms env fr v t y \<Longrightarrow> fst y \<noteq> Some Fault \<Longrightarrow> ready ms v \<Longrightarrow>
     (\<forall>c h fr1. cached env v c \<longrightarrow> READ_NEXT_OP env fr = Inr (h, fr1) \<longrightarrow> agrees y t (tco_exec ip ms env c h fr1 v t))"
  "dt_called ip ms env fn v t a args y \<Longrightarrow> fst y \<noteq> Some Fault \<Longrightarrow> ready ms v \<Longrightarrow> agrees y t (tco_called ip ms env fn v t a args)"
proof (induction rule: dt_run_dt_called.inducts)
  case (run_next env fr v fr' v' t y)
  have shape: "mem_shape v' = mem_shape v"
    using shp.instr_le(1) [OF run_next(1)] run_next.prems(2) unfolding ready_def by blast
  show ?case
  proof (intro allI impI)
    fix c h fr1 assume c: "cached env v c" "READ_NEXT_OP env fr = Inr (h, fr1)"
    obtain h' fr2 where n: "READ_NEXT_OP env fr' = Inr (h', fr2)"
      using run_off_code [OF run_next(2)] run_next.prems(1) by (cases rule: next_cases [of env fr']) auto
    then have "tco_op ip ms env h fr1 c v = TNext h' fr2 c v'"
      using instr_follows [OF run_next.prems(2) c, of ip] by (simp add: run_next(1))
    note step = tco_exec_steps(1) [OF this]
    show "agrees y t (tco_exec ip ms env c h fr1 v t)"
      unfolding step using run_next(3) [OF run_next.prems(1) shape_ready [OF shape run_next.prems(2)]] shape_cached [OF shape c(1)] n
      by blast
  qed
next
  case (run_stop env fr v e v' t)
  show ?case
  proof (intro allI impI)
    fix c h fr1 assume c: "cached env v c" "READ_NEXT_OP env fr = Inr (h, fr1)"
    then obtain e' w where "tco_op ip ms env h fr1 c v = TStop e' w" "w = v' \<or> e' = Fault"
      using instr_follows [OF run_stop.prems(2) c, of ip] run_stop by auto
    then show "agrees (Some e, v', t, fr_local fr) t (tco_exec ip ms env c h fr1 v t)"
      by (auto simp: tco_exec_steps agrees_error)
  qed
next
  case (run_finish env fr v fr' v' t e t' buf)
  show ?case
  proof (intro allI impI)
    fix c h fr1 assume c: "cached env v c" "READ_NEXT_OP env fr = Inr (h, fr1)"
    then have "tco_op ip ms env h fr1 c v = TReturn fr' v'"
      using instr_follows [OF run_finish.prems(2) c, of ip] by (simp add: run_finish(1))
    then show "agrees (e, v', t', buf) t (tco_exec ip ms env c h fr1 v t)"
      using run_finish(2) run_finish.prems(1)
      by (auto simp: tco_exec_steps agrees_def dt_leave_def tco_return_def Let_def split: if_splits)
  qed
next
  case (run_null env fr v a args own fr' v' e t)
  then have "e = Fault"
    using only_fault_prims(8) [of ms v' "Some a"] by (simp add: only_fault_def)
  with run_null show ?case by simp
next
  case (run_error env fr v a args own fr' v' fn t e w t' buf)
  have shape: "mem_shape v' = mem_shape v"
    using shp.instr_le(4) [OF run_error(1)] run_error.prems(2) unfolding ready_def by blast
  have agr: "agrees (Some e, w, t', buf) t (tco_called ip ms env fn v' t a args)"
    using run_error(4) run_error.prems shape_ready [OF shape] by simp
  show ?case
  proof (intro allI impI)
    fix c h fr1 assume c: "cached env v c" "READ_NEXT_OP env fr = Inr (h, fr1)"
    note f = instr_follows [OF run_error.prems(2) c, of ip, unfolded run_error(1)]
    show "agrees (Some e, w, t', fr_local fr') t (tco_exec ip ms env c h fr1 v t)"
    proof (cases rule: next_cases [of env fr'])
      case 1
      then show ?thesis using f by (auto simp: tco_exec_steps agrees_error)
    next
      case (2 h' fr2)
      with f obtain direct where "tco_op ip ms env h fr1 c v = TInvoke a args own direct h' fr2 v'" by auto
      then show ?thesis
        using agr unfolding tco_exec_invoke [OF \<open>tco_op ip ms env h fr1 c v = _\<close> run_error(2)]
        by (auto simp: agrees_def mem0_refresh_def unwrap_def dest: at_addr_Inl split: sum.splits)
    qed
  qed
next
  case (run_overflow env fr v a args own fr' v' fn t w t' buf e)
  then have "e = Fault"
    by (auto simp: dt_resume_def Let_def split: if_splits)
  with run_overflow show ?case by simp
next
  case (run_return env fr v a args own fr' v' fn t w t' buf fr'' y)
  have shape: "mem_shape v' = mem_shape v" "mem_shape w = mem_shape v'"
  proof -
    show 1: "mem_shape v' = mem_shape v"
      using shp.instr_le(4) [OF run_return(1)] run_return.prems(2) unfolding ready_def by blast
    show "mem_shape w = mem_shape v'"
      using run_shape(2) [OF host run_return(3) shape_ready [OF 1 run_return.prems(2)]] by simp
  qed
  then have shape': "mem_shape w = mem_shape v" by simp
  have agr: "agrees (None, w, t', buf) t (tco_called ip ms env fn v' t a args)"
    using run_return(4) run_return.prems(2) shape_ready [OF shape(1)] by simp
  have t': "t' = t"
    using run_thread_left(2) [OF run_return(3)] by simp
  show ?case
  proof (intro allI impI)
    fix c h fr1 assume c: "cached env v c" "READ_NEXT_OP env fr = Inr (h, fr1)"
    note f = instr_follows [OF run_return.prems(2) c, of ip, unfolded run_return(1)]
    show "agrees y t (tco_exec ip ms env c h fr1 v t)"
    proof (cases rule: next_cases [of env fr'])
      case 1
      from run_off_code [OF run_return(5) resume_off_code [OF 1 run_return(7)]] run_return.prems(1) show ?thesis by simp
    next
      case (2 h' fr2)
      with f obtain direct where inv: "tco_op ip ms env h fr1 c v = TInvoke a args own direct h' fr2 v'" by auto
      obtain fr3 where res: "dt_resume fn own buf fr2 = Inr fr3" "READ_NEXT_OP env fr'' = Inr (h', fr3)"
        using resume_fetched [OF 2 run_return(7)] by blast
      have "agrees y t' (tco_exec ip ms env c h' fr3 w t')"
        using run_return(6) run_return.prems(1) shape_ready [OF shape' run_return.prems(2)] shape_cached [OF shape' c(1)] res(2) by simp
      then show ?thesis
        using agr res(1) refresh_same [OF shape_cached [OF shape' c(1)]] t' unfolding tco_exec_invoke [OF inv run_return(2)]
        by (auto simp: agrees_def)
    qed
  qed
next
  case (called_host fn v a args env e w buf t)
  then show ?case
    by (cases e) (auto simp: tco_called_def agrees_def)
next
  case (called_refused fn v t a args e t' env)
  then show ?case
    using tco_enter_refused [of ip ms v t a args e t'] by (auto simp: tco_called_def in_place_tco_call_def agrees_def)
next
  case (called_run fn v t a args env' fr' t' y env)
  obtain h fr1 where n: "READ_NEXT_OP env' fr' = Inr (h, fr1)"
    using run_off_code [OF called_run(3)] called_run.prems(1) by (cases rule: next_cases [of env' fr']) auto
  from tco_enter_follows [OF called_run.prems(2) v128 called_run(2) n] obtain c
    where c: "tco_enter ip ms v t a args = Inr (env', c, h, fr1, t')" "cached env' v c" by blast
  have "agrees y t' (tco_exec ip ms env' c h fr1 v t')"
    using called_run(4) called_run.prems c(2) n by blast
  then show ?case
    using called_run(1) c(1) tco_leave_enter [OF c(1)]
    by (cases "fst y") (auto simp: agrees_def tco_called_def in_place_tco_call_def split: if_splits)
qed

lemma call_agrees:
  assumes "host_keeps_memories ms (ip_host ip)" "no_v128 ms" "ready ms v" "in_place_dt_call ip ms v t a args = Some y" "fst y \<noteq> Some Fault"
  shows "agrees y t (in_place_tco_call ip ms v t a args) \<and> (fst y = None \<longrightarrow> fst (snd (snd y)) = t)"
proof (cases "dt_enter ip ms v t a args")
  case (Inl x)
  then obtain e t' where x: "dt_enter ip ms v t a args = Inl (e, t')" by (cases x) auto
  with assms(4,5) tco_enter_refused [OF x] show ?thesis
    by (auto simp: in_place_dt_call_iff in_place_tco_call_def agrees_def)
next
  case (Inr x)
  then obtain env fr t' where x: "dt_enter ip ms v t a args = Inr (env, fr, t')" by (cases x) auto
  then have run: "dt_run ip ms env fr v t' y"
    using assms(4) by (simp add: in_place_dt_call_iff)
  obtain fn :: func where "f_tr fn = 0"
    by (rule that [of "undefined\<lparr>f_tr := 0\<rparr>"]) simp
  note called = called_run [OF this x run, of env]
  show ?thesis
    using run_agrees(2) [OF assms(1,2) called assms(5,3)] run_thread_left(2) [OF called] \<open>f_tr fn = 0\<close> by (simp add: tco_called_def)
qed

section \<open>The property\<close>


section \<open>An example\<close>

text \<open>\<open>local.get 0; i32.load8_u\<close> on a memory of one page\<close>

definition page_func :: func where
  "page_func = run_func\<lparr>f_code := [0x20, 0, 0x2d, 0, 0, 0x0b]\<rparr>"

definition page_mods :: mods where
  "page_mods = [(5, module_zero\<lparr>funcs := vec_of [page_func],
     memories := vec_of [\<lparr>mem_lim = \<lparr>lim_min = 1, lim_max = 1\<rparr>, mem_linkage = 0, mem_path = path_null\<rparr>]\<rparr>)]"

definition page_mem :: memory_inst where
  "page_mem = \<lparr>mi_mem = 0, mdata = vec_of (replicate 65536 0)\<rparr>"

definition page_vm :: vm where
  "page_vm = \<lparr>instances = [(module_inst_zero 5)\<lparr>mi_state := module_inst_ready,
       mi_funcs := vec_of [\<lparr>fi_mod = 5, fi_mod_inst = Some 0, fi_fn = 0\<rparr>], f_addrs := vec_of [Some (0, 0)],
       mi_memories := vec_of [page_mem], m_addrs := vec_of [Some (0, 0)]\<rparr>],
     vm_thread = thread_zero\<rparr>"

definition page_env :: dt_env where
  "page_env = \<lparr>de_fn = page_func, de_inst = 0, de_mem0 = Some (0, 0)\<rparr>"

lemma page_steps:
  "read_u8 page_env (run_frame 0 0 0) = Inr (0x20, run_frame 0 0 1)" "dt_local_get page_env (run_frame 0 0 1) = Inr (run_frame 7 1 2)"
  "read_u8 page_env (run_frame 7 1 2) = Inr (0x2d, run_frame 7 1 3)"
  "read_vu32 page_env (stream_seek_unchecked 1 (run_frame 7 1 3)) = Inr (0, run_frame 7 1 5)" "pop (run_frame 7 1 5) = Inr (7, run_frame 7 0 5)"
  "push 0 (run_frame 7 0 5) = Inr (run_frame 0 1 5)" "get_w32 7 = 7" "st_i32 masking_machine (mc_undef masking_machine) 0 = 0"
  "read_u8 page_env (run_frame 0 1 5) = Inr (0x0b, run_frame 0 1 6)" "dt_leave page_env (run_frame 0 1 6) run_thread = (None, thread_zero, [0])"
  "fr_pc (run_frame 0 1 6) = length (f_code (de_fn page_env))"
  by code_simp+

lemma page_found: "at_addr mi_memories page_vm (Some (0, 0)) = Inr page_mem" "addr_fn page_mods page_vm (Some (0, 0)) = Inr page_func"
  by (simp_all add: addr_fn_def at_addr_def the_inst_def the_mod_def page_mods_def page_vm_def vec_of_def vec_at_def)

lemma page_load: "dt_op ip ms env 0x2d fr v = go v (dt_MEM_LOAD env 1 (\<lambda>m i. st_i32 (ip_mc ip) (mc_undef (ip_mc ip)) (uint (mem_read_u8 m i))) fr v)"
  by (simp add: dt_op_def dt_control_def dt_variable_def dt_memory_def dt_loads_def Let_def)

lemma page_run: "dt_run run_interp page_mods page_env (run_frame 0 0 0) page_vm run_thread (None, page_vm, thread_zero, [0])"
proof -
  note i = dt_instr_eq [where ip = run_interp and ms = page_mods]
  have 1: "dt_instr run_interp page_mods page_env (run_frame 0 0 0) page_vm = Next (run_frame 7 1 2) page_vm"
    unfolding i [OF page_steps(1)] dispatch_variable page_steps by (simp add: dt_let_def)
  have "dt_MEM_LOAD page_env 1 (\<lambda>m i. st_i32 (ip_mc run_interp) (mc_undef (ip_mc run_interp)) (uint (mem_read_u8 m i))) (run_frame 7 1 3) page_vm =
      Inr (run_frame 0 1 5)"
    using page_steps(4-8) page_found(1)
    by (simp add: dt_MEM_LOAD_def mem_range_def page_env_def page_mem_def vec_of_def mem_read_u8_def run_interp_def)
  then have 2: "dt_instr run_interp page_mods page_env (run_frame 7 1 2) page_vm = Next (run_frame 0 1 5) page_vm"
    unfolding i [OF page_steps(3)] page_load by (simp add: dt_let_def)
  have 3: "dt_instr run_interp page_mods page_env (run_frame 0 1 5) page_vm = Finish (run_frame 0 1 6) page_vm"
    unfolding i [OF page_steps(9)] dispatch_control page_steps(11) by simp
  show ?thesis
    by (rule run_next [OF 1 run_next [OF 2 run_finish [OF 3 page_steps(10)]]])
qed

abbreviation page_results :: "typed_value vec" where
  "page_results \<equiv> \<lparr>vdata = [\<lparr>tv_type = TYPE_ID_i32, tv_val = 0\<rparr>], vcap = VEC_DEFAULT_CAPACITY, vnonnull = True, vfixed = False\<rparr>"

lemma page_call:
  "interp_call_in_thread run_interp page_mods page_vm thread_zero (Some (0, 0)) run_args = Some (None, page_vm, thread_zero\<lparr>th_results := page_results\<rparr>)"
proof -
  have "dt_enter run_interp page_mods page_vm thread_zero (0, 0) [7] = Inr (page_env, run_frame 0 0 0, run_thread)"
    by (simp add: dt_enter_def page_found)
      (simp add: at_addr_def the_inst_def page_vm_def vec_of_def vec_at_def thread_zero_def page_func_def run_func_def run_interp_def masking_machine_def
        page_env_def run_frame_def run_thread_def SILVERFIR_STACK_FRAME_LIMIT_def SILVERFIR_STACK_SIZE_LIMIT_def)
  then have 1: "in_place_dt_call run_interp page_mods page_vm thread_zero (0, 0) [7] = Some (None, page_vm, thread_zero, [0])"
    by (simp add: in_place_dt_call_iff page_run)
  have 2: "for_res 0 1 (check_arg run_args) (stream_from [0x7f]) = Inr \<lparr>st_s = [0x7f], st_p = 1\<rparr>"
    by code_simp
  have 3: "collect_results (ip_am run_interp) [0] 0 1 (stream_from [0x7f]) (thread_zero\<lparr>th_results := vec_clear (th_results thread_zero)\<rparr>) =
      (None, thread_zero\<lparr>th_results := page_results\<rparr>)"
    by code_simp
  have "ip_little_endian run_interp" "ip_alloca run_interp n" "\<not> trapped thread_zero" "unat (local_count page_func) = 1"
      "fn_type page_func = \<lparr>param_count = 1, result_count = 1, params = [0x7f], results = [0x7f]\<rparr>"
      "length (vdata run_args) = 1" "map tv_val (vdata run_args) = [7]" for n
    by (simp_all add: run_interp_def thread_zero_def page_func_def run_func_def run_args_def vec_of_def)
  then show ?thesis
    unfolding interp_call_in_thread_def interp_call_with_def Let_def page_found
    by (simp add: 1 2 3 del: collect_results.simps for_res.simps One_nat_def)
qed

lemma page_memory: "at_addr mi_memories page_vm a = Inr x \<Longrightarrow> a = Some (0, 0) \<and> x = page_mem"
  by (auto simp: at_addr_def the_inst_def page_vm_def vec_at_def vec_of_def split: option.splits if_splits)

lemma page_ready:
  "host_keeps_memories page_mods (ip_host run_interp)" "no_v128 page_mods" "full_memories page_mods page_vm" "mems_linked page_vm"
proof -
  show "host_keeps_memories page_mods (ip_host run_interp)"
    unfolding host_keeps_memories_def
  proof (intro allI impI)
    fix tr hf v a args m e w buf
    assume "ip_host run_interp tr hf page_mods v a args m = Some (e, w, buf)"
    then have "w = v" by (simp add: run_interp_def)
    then show "mem_shape w = mem_shape v" by (rule arg_cong)
  qed
  have "v128_free (f_code page_func)"
    by code_simp
  then show "no_v128 page_mods"
    by (simp add: no_v128_def page_mods_def vec_of_def)
  show "full_memories page_mods page_vm"
    unfolding full_memories_def
  proof (intro allI impI)
    fix a x mem assume "at_addr mi_memories page_vm a = Inr x" "addr_mem page_mods page_vm a = Inr mem"
    moreover have "mi_mem page_mem = 0" "vec_size (mdata page_mem) = 65536"
      by (simp_all add: page_mem_def vec_of_def)
    moreover from this have "addr_mem page_mods page_vm (Some (0, 0)) = Inr \<lparr>mem_lim = \<lparr>lim_min = 1, lim_max = 1\<rparr>, mem_linkage = 0, mem_path = path_null\<rparr>"
      by (simp add: addr_mem_def page_found addr_module_def the_mod_def page_mods_def) (simp add: the_inst_def page_vm_def vec_of_def vec_at_def module_inst_zero_def)
    ultimately show "vec_size (mdata x) = unat (lim_max (mem_lim mem)) * WASM_PAGE_SIZE \<and> lim_max (mem_lim mem) \<noteq> 0"
      using page_memory [of a x] by (auto simp: WASM_PAGE_SIZE_def)
  qed
  show "mems_linked page_vm"
    using page_found(1) by (auto simp: mems_linked_def the_inst_def page_vm_def vec_of_def split: if_splits)
qed


end
