(* ===== verification/Sjson.thy ===== *)
theory Sjson
  imports Vstr Fp
begin

text \<open>
  The JSON reader of src/src/utils/sjson.h and src/src/utils/sjson.c.

  A \<open>json_value\<close> is the tagged union of the code; the pointer to the object or array of a value is
  an option (the code leaves it null when the allocation fails) and what it points to is the list
  of elements in its vector.  Every parsing function writes through its out-parameter also on the
  paths that return an error, and \<open>json_parse\<close> then releases the partial tree, so a parsing function
  returns the value it leaves, the number of heap blocks that are allocated, and the result.

  \<open>json_env\<close> holds what the code takes from outside: whether an allocation is granted (which may depend
  on the number of blocks in use), the choice of NaN bit patterns of the machine, and the function
  \<open>pow\<close> of the C library.  A read past the end of the text and an overflow of \<open>i64\<close> are \<open>Fault\<close>.
\<close>

section \<open>Characters\<close>

abbreviation (input) c_quote :: u8 where "c_quote \<equiv> 0x22"
abbreviation (input) c_plus :: u8 where "c_plus \<equiv> 0x2b"
abbreviation (input) c_comma :: u8 where "c_comma \<equiv> 0x2c"
abbreviation (input) c_minus :: u8 where "c_minus \<equiv> 0x2d"
abbreviation (input) c_dot :: u8 where "c_dot \<equiv> 0x2e"
abbreviation (input) c_colon :: u8 where "c_colon \<equiv> 0x3a"
abbreviation (input) c_E :: u8 where "c_E \<equiv> 0x45"
abbreviation (input) c_lbracket :: u8 where "c_lbracket \<equiv> 0x5b"
abbreviation (input) c_backslash :: u8 where "c_backslash \<equiv> 0x5c"
abbreviation (input) c_rbracket :: u8 where "c_rbracket \<equiv> 0x5d"
abbreviation (input) c_e :: u8 where "c_e \<equiv> 0x65"
abbreviation (input) c_f :: u8 where "c_f \<equiv> 0x66"
abbreviation (input) c_n :: u8 where "c_n \<equiv> 0x6e"
abbreviation (input) c_t :: u8 where "c_t \<equiv> 0x74"
abbreviation (input) c_u :: u8 where "c_u \<equiv> 0x75"
abbreviation (input) c_lbrace :: u8 where "c_lbrace \<equiv> 0x7b"
abbreviation (input) c_rbrace :: u8 where "c_rbrace \<equiv> 0x7d"

definition is_ws :: "u8 \<Rightarrow> bool" where
  "is_ws c = (c = 0x20 \<or> c = 0x0a \<or> c = 0x0d \<or> c = 0x09)"

lemma stream_read_remaining:
  "stream_read_u8 st = Inr (c, st') \<Longrightarrow> stream_remaining st' < stream_remaining st"
  by (auto simp: stream_read_u8_def stream_peek_u8_def stream_remaining_def stream_advance_def
      split: if_splits)

function eat_ws :: "stream \<Rightarrow> stream res" where
  "eat_ws st =
     (if 0 < stream_remaining st then
        unwrap (stream_read_u8 st) (\<lambda>(c, st').
          if is_ws c then eat_ws st' else stream_seek st' (- 1))
      else Inr st)"
  by pat_completeness auto
termination
  by (relation "measure stream_remaining") (auto dest: stream_read_remaining)

declare eat_ws.simps [simp del]

definition is_digit :: "u8 \<Rightarrow> bool" where
  "is_digit c = (0x30 \<le> c \<and> c \<le> 0x39)"

definition is_hex :: "u8 \<Rightarrow> bool" where
  "is_hex c = (is_digit c \<or> (0x61 \<le> c \<and> c \<le> 0x66) \<or> (0x41 \<le> c \<and> c \<le> 0x46))"

definition hex_to_u8 :: "u8 \<Rightarrow> u8" where
  "hex_to_u8 h =
     (if is_digit h then h - 0x30
      else if 0x61 \<le> h \<and> h \<le> 0x66 then h - 0x61 + 10
      else h - 0x41 + 10)"

definition stream_ended :: "stream \<Rightarrow> bool res" where
  "stream_ended st =
     (if stream_remaining st = 0 then Inr True
      else unwrap (stream_peek_u8 st) (\<lambda>c. Inr (c = 0)))"

section \<open>Strings\<close>

definition escape_hex :: "nat \<Rightarrow> stream \<Rightarrow> stream res" where
  "escape_hex i st =
     unwrap (stream_read_u8 st) (\<lambda>(h, st). if is_hex h then Inr st else Inl E_general)"

definition json_parse_escape :: "stream \<Rightarrow> stream res" where
  "json_parse_escape st =
     unwrap (stream_read_u8 st) (\<lambda>(c, st).
       if c \<in> {0x5c, 0x22, 0x2f, 0x62, 0x66, 0x6e, 0x72, 0x74} then Inr st
       else if c = c_u then for_res 0 4 escape_hex st
       else Inl E_general)"

definition unescape_hex :: "nat \<Rightarrow> u32 \<times> stream \<Rightarrow> (u32 \<times> stream) res" where
  "unescape_hex i = (\<lambda>(v, input).
     unwrap (stream_read_u8 input) (\<lambda>(h, input).
       if \<not> is_hex h then Inl E_general
       else Inr (v * 16 + ucast (hex_to_u8 h), input)))"

text \<open>One character of \<open>json_unescape_string\<close>: the byte it appends.\<close>

definition json_unescape_char :: "stream \<Rightarrow> (u8 \<times> stream) res" where
  "json_unescape_char input =
     unwrap (stream_read_u8 input) (\<lambda>(c, input).
       if c = c_backslash then
         unwrap (stream_read_u8 input) (\<lambda>(d, input).
           if d \<noteq> c_u then Inl E_general
           else unwrap (for_res 0 4 unescape_hex (0, input)) (\<lambda>(v, input).
             if v > 0xff then Inl E_general else Inr (ucast v, input)))
       else Inr (c, input))"

lemma unescape_hex_remaining:
  "for_res i n unescape_hex (v, st) = Inr (v', st') \<Longrightarrow> stream_remaining st' \<le> stream_remaining st"
  by (induction n arbitrary: i v st)
    (fastforce simp: unescape_hex_def res_simps split: prod.splits if_splits dest: stream_read_remaining)+

lemma json_unescape_char_remaining:
  "json_unescape_char st = Inr (c, st') \<Longrightarrow> stream_remaining st' < stream_remaining st"
  by (fastforce simp: json_unescape_char_def res_simps split: prod.splits if_splits
      dest: stream_read_remaining unescape_hex_remaining)

function json_unescape_loop :: "(nat \<Rightarrow> bool) \<Rightarrow> vstr \<Rightarrow> stream \<Rightarrow> vstr res" where
  "json_unescape_loop am vs input =
     (if 0 < stream_remaining input then
        unwrap (json_unescape_char input) (\<lambda>(c, input').
          unwrap (vstr_append_c am vs c) (\<lambda>vs'. json_unescape_loop am vs' input'))
      else Inr vs)"
  by pat_completeness auto
termination
  by (relation "measure (\<lambda>(am, vs, input). stream_remaining input)")
    (auto dest: json_unescape_char_remaining)

declare json_unescape_loop.simps [simp del]

definition json_unescape_string :: "(nat \<Rightarrow> bool) \<Rightarrow> str \<Rightarrow> vstr res" where
  "json_unescape_string am str = json_unescape_loop am VSTR_NULL (stream_from str)"

text \<open>
  \<open>p\<close> is the position after the opening quote.  An empty string is not written: \<open>string\<close> keeps the
  value it had (\<open>None\<close> when its bytes were written as another member of the union).
\<close>

lemma json_parse_escape_remaining:
  assumes "json_parse_escape st = Inr st'"
  shows "stream_remaining st' < stream_remaining st"
proof -
  have hex: "for_res i n escape_hex s = Inr s' \<Longrightarrow> stream_remaining s' \<le> stream_remaining s" for i n s s'
    by (induction n arbitrary: i s)
      (fastforce simp: escape_hex_def res_simps split: if_splits dest: stream_read_remaining)+
  from assms show ?thesis
    by (fastforce simp: json_parse_escape_def res_simps split: if_splits
        dest: stream_read_remaining hex)
qed

function json_string_loop :: "str option \<Rightarrow> nat \<Rightarrow> stream \<Rightarrow> (str option \<times> stream) res" where
  "json_string_loop string p st =
     unwrap (stream_read_u8 st) (\<lambda>(c, st).
       if c = c_quote then
         Inr (if st_p st \<noteq> p + 1 then Some (take (st_p st - p - 1) (drop p (st_s st))) else string, st)
       else unwrap (if c = c_backslash then json_parse_escape st else Inr st) (\<lambda>st.
         if c < 0x20 then Inl E_general else json_string_loop string p st))"
  by pat_completeness auto
termination
  by (relation "measure (\<lambda>(string, p, st). stream_remaining st)")
    (fastforce dest: stream_read_remaining json_parse_escape_remaining split: if_splits)+

declare json_string_loop.simps [simp del]

definition json_parse_string :: "str option \<Rightarrow> stream \<Rightarrow> (str option \<times> stream) res" where
  "json_parse_string string st =
     unwrap (eat_ws st) (\<lambda>st. unwrap (stream_read_u8 st) (\<lambda>(c, st).
       if c \<noteq> c_quote then Inl E_general else json_string_loop string (st_p st) st))"

section \<open>Numbers\<close>

datatype json_number = json_integer int | json_float u64

record json_env =
  room_value :: "int \<Rightarrow> nat \<Rightarrow> bool"
  room_kv :: "int \<Rightarrow> nat \<Rightarrow> bool"
  room_object :: "int \<Rightarrow> bool"
  room_array :: "int \<Rightarrow> bool"
  json_fpu :: fpu
  c_pow :: "u64 \<Rightarrow> u64 \<Rightarrow> u64"

definition digit_val :: "u8 \<Rightarrow> int" where
  "digit_val d = uint d - 0x30"

abbreviation f64_mul :: "json_env \<Rightarrow> u64 \<Rightarrow> u64 \<Rightarrow> u64" where
  "f64_mul env \<equiv> f64_bin (json_fpu env) Op_mul fp_mul"

abbreviation f64_add :: "json_env \<Rightarrow> u64 \<Rightarrow> u64 \<Rightarrow> u64" where
  "f64_add env \<equiv> f64_bin (json_fpu env) Op_add fp_add"

function json_int_loop :: "int \<Rightarrow> stream \<Rightarrow> (int \<times> stream) res" where
  "json_int_loop num_i st =
     unwrap (stream_read_u8 st) (\<lambda>(d, st').
       if \<not> is_digit d then unwrap (stream_seek st' (- 1)) (\<lambda>st. Inr (num_i, st))
       else let n = num_i * 10 + digit_val d in
         if n \<ge> 2 ^ 63 then Inl Fault
         else unwrap (stream_ended st') (\<lambda>ended.
           if ended then Inr (n, st') else json_int_loop n st'))"
  by pat_completeness auto
termination
  by (relation "measure (\<lambda>(num_i, st). stream_remaining st)") (auto dest: stream_read_remaining)

declare json_int_loop.simps [simp del]

text \<open>The loops over further digits of the fraction and of the exponent; \<open>f\<close> is what they compute.\<close>

function json_digits_loop :: "('s \<Rightarrow> u8 \<Rightarrow> 's) \<Rightarrow> 's \<Rightarrow> stream \<Rightarrow> ('s \<times> stream) res" where
  "json_digits_loop f s st =
     unwrap (stream_ended st) (\<lambda>ended.
       if ended then Inr (s, st)
       else unwrap (stream_read_u8 st) (\<lambda>(e, st').
         if \<not> is_digit e then unwrap (stream_seek st' (- 1)) (\<lambda>st. Inr (s, st))
         else json_digits_loop f (f s e) st'))"
  by pat_completeness auto
termination
  by (relation "measure (\<lambda>(f, s, st). stream_remaining st)") (auto dest: stream_read_remaining)

declare json_digits_loop.simps [simp del]

definition frac_step :: "json_env \<Rightarrow> u64 \<times> u64 \<Rightarrow> u8 \<Rightarrow> u64 \<times> u64" where
  "frac_step env = (\<lambda>(num_f, frac) d.
     (f64_add env num_f (f64_mul env frac (int_to_f64 (uint d))), f64_mul env frac frac))"

definition exp_step :: "json_env \<Rightarrow> u64 \<Rightarrow> u8 \<Rightarrow> u64" where
  "exp_step env ex e = f64_add env (f64_mul env ex (int_to_f64 10)) (int_to_f64 (digit_val e))"

text \<open>\<open>f64 frac = 0.1\<close>\<close>

definition tenth :: u64 where
  "tenth = 0x3fb999999999999a"

definition json_parse_fraction :: "json_env \<Rightarrow> int \<Rightarrow> stream \<Rightarrow> ((bool \<times> u64) \<times> stream) res" where
  "json_parse_fraction env num_i st =
     unwrap (stream_ended st) (\<lambda>ended.
       if ended then Inr ((False, 0), st)
       else unwrap (stream_peek_u8 st) (\<lambda>c.
         if c = c_dot then
           unwrap (stream_seek st 1) (\<lambda>st. unwrap (stream_read_u8 st) (\<lambda>(d, st).
             if \<not> is_digit d then Inl E_general
             else unwrap (json_digits_loop (frac_step env)
                    (frac_step env (int_to_f64 num_i, tenth) d) st) (\<lambda>((num_f, _), st).
               Inr ((True, num_f), st))))
         else Inr ((False, 0), st)))"

definition json_parse_exponent ::
  "json_env \<Rightarrow> int \<Rightarrow> bool \<times> u64 \<Rightarrow> stream \<Rightarrow> ((bool \<times> u64) \<times> stream) res" where
  "json_parse_exponent env num_i = (\<lambda>(is_float, num_f) st.
     unwrap (stream_ended st) (\<lambda>ended.
       if ended then Inr ((is_float, num_f), st)
       else unwrap (stream_peek_u8 st) (\<lambda>c.
         if c = c_E \<or> c = c_e then
           let num_f = (if is_float then num_f else int_to_f64 num_i) in
           unwrap (stream_seek st 1) (\<lambda>st. unwrap (stream_peek_u8 st) (\<lambda>d.
             unwrap (if d = c_plus \<or> d = c_minus then stream_seek st 1 else Inr st) (\<lambda>st.
             unwrap (stream_read_u8 st) (\<lambda>(e, st).
               if \<not> is_digit e then Inl E_general
               else unwrap (json_digits_loop (exp_step env) (exp_step env 0 e) st) (\<lambda>(ex, st).
                 let ex = (if d = c_minus then ex XOR 0x8000000000000000 else ex) in
                 Inr ((True, f64_mul env num_f (c_pow env (int_to_f64 10) ex)), st))))))
         else Inr ((is_float, num_f), st))))"

definition json_parse_number :: "json_env \<Rightarrow> stream \<Rightarrow> (json_number \<times> stream) res" where
  "json_parse_number env st =
     unwrap (stream_peek_u8 st) (\<lambda>c.
     let sign = (if c = c_minus then - 1 else 1) in
     unwrap (if c = c_minus then stream_seek st 1 else Inr st) (\<lambda>st.
     unwrap (stream_peek_u8 st) (\<lambda>c.
     if \<not> is_digit c then Inl E_general
     else unwrap (if c \<noteq> 0x30 then json_int_loop 0 st
                  else unwrap (stream_seek st 1) (\<lambda>st. Inr (0, st))) (\<lambda>(num_i, st).
       unwrap (json_parse_fraction env num_i st) (\<lambda>(num, st).
       unwrap (json_parse_exponent env num_i num st) (\<lambda>((is_float, num_f), st).
       Inr (if \<not> is_float then json_integer (num_i * sign)
            else json_float (f64_mul env num_f (int_to_f64 sign)), st)))))))"

section \<open>Values\<close>

datatype json_value =
    json_type_invalid
  | json_type_object "(str \<times> json_value) list option"
  | json_type_array "json_value list option"
  | json_type_string str
  | json_type_number json_number
  | json_type_boolean bool
  | json_type_null

type_synonym json_kv = "str \<times> json_value"
type_synonym json_object = "json_kv list"
type_synonym json_array = "json_value list"

text \<open>
  \<open>!strncmp(st->p, lit, n)\<close> for a literal of \<open>n\<close> characters: the comparison stops at the first
  difference, and a read outside the text is a fault.
\<close>

fun strncmp_eq :: "str \<Rightarrow> str \<Rightarrow> bool res" where
  "strncmp_eq s [] = Inr True"
| "strncmp_eq [] (x # lit) = Inl Fault"
| "strncmp_eq (c # s) (x # lit) = (if c = x then strncmp_eq s lit else Inr False)"

definition literal_at :: "stream \<Rightarrow> str \<Rightarrow> bool res" where
  "literal_at st lit = strncmp_eq (drop (st_p st) (st_s st)) lit"

definition lit_true :: str where "lit_true = [0x74, 0x72, 0x75, 0x65]"
definition lit_false :: str where "lit_false = [0x66, 0x61, 0x6c, 0x73, 0x65]"
definition lit_null :: str where "lit_null = [0x6e, 0x75, 0x6c, 0x6c]"

text \<open>The result of a parsing function: the value left behind, the blocks in use, the result.\<close>

type_synonym 'a json_out = "'a \<times> int \<times> stream res"

text \<open>\<open>unwrap_drop(stream, stream_slice(st, n), { value->tag = json_type_invalid; })\<close> and the break.\<close>

definition json_skip :: "json_value \<Rightarrow> nat \<Rightarrow> stream \<Rightarrow> int \<Rightarrow> json_value json_out" where
  "json_skip v n st live =
     (case stream_slice st n of Inl e \<Rightarrow> (json_type_invalid, live, Inl e)
      | Inr (_, st) \<Rightarrow> (v, live, Inr st))"

text \<open>The cases of the switch from their label on: each falls through to the next one.\<close>

definition old_string :: "json_value \<Rightarrow> str option" where
  "old_string v =
     (case v of json_type_string s \<Rightarrow> Some s
      | json_type_object _ \<Rightarrow> None | json_type_array _ \<Rightarrow> None | json_type_number _ \<Rightarrow> None
      | _ \<Rightarrow> Some [])"

definition json_case_string :: "json_value \<Rightarrow> stream \<Rightarrow> int \<Rightarrow> json_value json_out" where
  "json_case_string v st live =
     (case json_parse_string (old_string v) st of Inl e \<Rightarrow> (json_type_invalid, live, Inl e)
      | Inr (None, st) \<Rightarrow> (v, live, Inl Fault)
      | Inr (Some string, st) \<Rightarrow> (json_type_string string, live, Inr st))"

definition json_case_n :: "json_value \<Rightarrow> stream \<Rightarrow> int \<Rightarrow> json_value json_out" where
  "json_case_n v st live =
     (case literal_at st lit_null of Inl e \<Rightarrow> (v, live, Inl e)
      | Inr eq \<Rightarrow> if eq then json_skip json_type_null 4 st live else json_case_string v st live)"

definition json_case_f :: "json_value \<Rightarrow> stream \<Rightarrow> int \<Rightarrow> json_value json_out" where
  "json_case_f v st live =
     (case if stream_remaining st \<ge> 5 then literal_at st lit_false else Inr False of
        Inl e \<Rightarrow> (v, live, Inl e)
      | Inr eq \<Rightarrow> if eq then json_skip (json_type_boolean False) 5 st live
                 else json_case_n v st live)"

definition json_case_t :: "json_value \<Rightarrow> stream \<Rightarrow> int \<Rightarrow> json_value json_out" where
  "json_case_t v st live =
     (case literal_at st lit_true of Inl e \<Rightarrow> (v, live, Inl e)
      | Inr eq \<Rightarrow> if eq then json_skip (json_type_boolean True) 4 st live
                 else json_case_f v st live)"

definition json_case_default :: "json_env \<Rightarrow> stream \<Rightarrow> int \<Rightarrow> json_value json_out" where
  "json_case_default env st live =
     (case json_parse_number env st of Inl e \<Rightarrow> (json_type_invalid, live, Inl e)
      | Inr (num, st) \<Rightarrow> (json_type_number num, live, Inr st))"

text \<open>The block that a first push allocates.\<close>

definition new_block :: "'a vec \<Rightarrow> 'a vec \<Rightarrow> int" where
  "new_block old new = (if vnonnull new \<and> \<not> vnonnull old then 1 else 0)"

definition set_back :: "'a vec \<Rightarrow> 'a \<Rightarrow> 'a vec" where
  "set_back v x = v\<lparr>vdata := butlast (vdata v) @ [x]\<rparr>"

text \<open>\<open>check\<close> and \<open>unwrap\<close> in a parsing function: on an error \<open>v\<close> and \<open>live\<close> are what it leaves.\<close>

definition json_try :: "'b res \<Rightarrow> 'a \<Rightarrow> int \<Rightarrow> ('b \<Rightarrow> 'a json_out) \<Rightarrow> 'a json_out" where
  "json_try m v live f = (case m of Inl e \<Rightarrow> (v, live, Inl e) | Inr x \<Rightarrow> f x)"

lemma json_try_cong [fundef_cong]:
  "m = m' \<Longrightarrow> v = v' \<Longrightarrow> live = live' \<Longrightarrow> (\<And>x. m' = Inr x \<Longrightarrow> f x = g x) \<Longrightarrow>
   json_try m v live f = json_try m' v' live' g"
  by (cases m') (auto simp: json_try_def)

text \<open>
  The parts of the loops around the nested call: a new element of the array; a new entry of the object
  with its key and colon, where the result of the push is not looked at; the separator behind
  a value (\<open>True\<close>: another element follows).
\<close>

definition json_array_slot :: "json_env \<Rightarrow> json_value vec \<Rightarrow> stream \<Rightarrow> int \<Rightarrow> json_value vec json_out" where
  "json_array_slot env arr st live =
     json_try (eat_ws st) arr live (\<lambda>st.
     json_try (vec_push (room_value env live) arr json_type_invalid) arr live (\<lambda>arr'.
       (arr', live + new_block arr arr', Inr st)))"

definition json_object_slot :: "json_env \<Rightarrow> json_kv vec \<Rightarrow> stream \<Rightarrow> int \<Rightarrow> json_kv vec json_out" where
  "json_object_slot env kvs st live =
     (let kvs' = (case vec_push (room_kv env live) kvs ([], json_type_invalid) of
                    Inl e \<Rightarrow> kvs | Inr kvs' \<Rightarrow> kvs');
          live = live + new_block kvs kvs' in
      json_try (vec_back kvs') kvs' live (\<lambda>(k, v).
      json_try (unwrap (eat_ws st) (json_parse_string (Some k))) kvs' live (\<lambda>(k', st).
        let kvs = set_back kvs' (the k', v) in
        json_try (unwrap (eat_ws st) stream_read_u8) kvs live (\<lambda>(colon, st).
          if colon \<noteq> c_colon then (kvs, live, Inl E_general) else (kvs, live, eat_ws st)))))"

definition json_separator :: "u8 \<Rightarrow> stream \<Rightarrow> (bool \<times> stream) res" where
  "json_separator closing st =
     unwrap (eat_ws st) (\<lambda>st. unwrap (stream_read_u8 st) (\<lambda>(d, st).
       if d = c_comma then Inr (True, st)
       else if d = closing then Inr (False, st)
       else Inl E_general))"

text \<open>The opening of an array or object: whether it is empty.\<close>

definition json_open :: "u8 \<Rightarrow> u8 \<Rightarrow> stream \<Rightarrow> (bool \<times> stream) res" where
  "json_open opening closing st =
     unwrap (eat_ws st) (\<lambda>st. unwrap (stream_read_u8 st) (\<lambda>(c, st).
       if c \<noteq> opening then Inl E_general
       else unwrap (eat_ws st) (\<lambda>st. unwrap (stream_peek_u8 st) (\<lambda>d.
         if d = closing then unwrap (stream_seek st 1) (\<lambda>st. Inr (True, st)) else Inr (False, st)))))"

function
  json_parse_value :: "json_env \<Rightarrow> json_value \<Rightarrow> stream \<Rightarrow> int \<Rightarrow> json_value json_out"
and json_parse_array :: "json_env \<Rightarrow> stream \<Rightarrow> int \<Rightarrow> json_array json_out"
and json_array_loop :: "json_env \<Rightarrow> json_value vec \<Rightarrow> stream \<Rightarrow> int \<Rightarrow> json_array json_out"
and json_parse_object :: "json_env \<Rightarrow> stream \<Rightarrow> int \<Rightarrow> json_object json_out"
and json_object_loop :: "json_env \<Rightarrow> json_kv vec \<Rightarrow> stream \<Rightarrow> int \<Rightarrow> json_object json_out"
where
  "json_parse_value env v st live =
     json_try (eat_ws st) v live (\<lambda>st.
     json_try (stream_peek_u8 st) v live (\<lambda>c.
       if c = c_lbrace then
         (if \<not> room_object env live then (json_type_object None, live, Inl E_general)
          else case json_parse_object env st (live + 1) of (kvs, live, r) \<Rightarrow>
            (json_type_object (Some kvs), live, r))
       else if c = c_lbracket then
         (if \<not> room_array env live then (json_type_array None, live, Inl E_general)
          else case json_parse_array env st (live + 1) of (vs, live, r) \<Rightarrow>
            (json_type_array (Some vs), live, r))
       else if c = c_t then json_case_t v st live
       else if c = c_f then json_case_f v st live
       else if c = c_n then json_case_n v st live
       else if c = c_quote then json_case_string v st live
       else json_case_default env st live))"
| "json_parse_array env st live =
     json_try (json_open c_lbracket c_rbracket st) [] live (\<lambda>(empty, st).
       if empty then ([], live, Inr st) else json_array_loop env vec_empty st live)"
| "json_array_loop env arr st live =
     (case json_array_slot env arr st live of (arr, live, r) \<Rightarrow>
      json_try r (vdata arr) live (\<lambda>st.
      case json_parse_value env json_type_invalid st live of (v, live, r) \<Rightarrow>
      let arr = set_back arr v in
      json_try (unwrap r (json_separator c_rbracket)) (vdata arr) live (\<lambda>(again, st).
        if again then json_array_loop env arr st live else (vdata arr, live, Inr st))))"
| "json_parse_object env st live =
     json_try (json_open c_lbrace c_rbrace st) [] live (\<lambda>(empty, st).
       if empty then ([], live, Inr st) else json_object_loop env vec_empty st live)"
| "json_object_loop env kvs st live =
     (case json_object_slot env kvs st live of (kvs, live, r) \<Rightarrow>
      json_try r (vdata kvs) live (\<lambda>st.
      let k = fst (last (vdata kvs)); v = snd (last (vdata kvs)) in
      case json_parse_value env v st live of (v, live, r) \<Rightarrow>
      let kvs = set_back kvs (k, v) in
      json_try (unwrap r (json_separator c_rbrace)) (vdata kvs) live (\<lambda>(again, st).
        if again then json_object_loop env kvs st live else (vdata kvs, live, Inr st))))"
  by pat_completeness auto

subsection \<open>Termination\<close>

text \<open>The calls that follow a nested call continue with the stream that it returned.\<close>

lemma read_unread: "stream_read_u8 st = Inr (c, st') \<Longrightarrow> stream_seek st' (- 1) = Inr st"
  by (auto simp: stream_read_u8_def stream_peek_u8_def stream_remaining_def stream_advance_def
      stream_seek_def Let_def split: if_splits)

lemma stream_seek_1_remaining:
  "stream_seek st 1 = Inr st' \<Longrightarrow> stream_remaining st' \<le> stream_remaining st"
  by (auto simp: stream_seek_def Let_def stream_remaining_def split: if_splits)

lemma eat_ws_remaining: "eat_ws st = Inr st' \<Longrightarrow> stream_remaining st' \<le> stream_remaining st"
proof (induction st rule: eat_ws.induct)
  case (1 st)
  show ?case
  proof (cases "0 < stream_remaining st")
    case True
    with 1(2) obtain c s where r: "stream_read_u8 st = Inr (c, s)"
      and e: "(if is_ws c then eat_ws s else stream_seek s (- 1)) = Inr st'"
      by (auto simp: eat_ws.simps [of st] res_simps)
    show ?thesis
      using 1(1) [OF True r refl] e r stream_read_remaining [OF r] read_unread [OF r]
      by (fastforce split: if_splits)
  qed (use 1(2) in \<open>simp add: eat_ws.simps [of st]\<close>)
qed

lemma json_string_loop_remaining:
  "json_string_loop string p st = Inr (s, st') \<Longrightarrow> stream_remaining st' \<le> stream_remaining st"
proof (induction string p st rule: json_string_loop.induct)
  case (1 string p st)
  then show ?case
    by (subst (asm) (2) json_string_loop.simps)
      (fastforce simp: res_simps split: if_splits
        dest: stream_read_remaining json_parse_escape_remaining)
qed

lemma json_parse_string_remaining:
  "json_parse_string string st = Inr (s, st') \<Longrightarrow> stream_remaining st' \<le> stream_remaining st"
  by (fastforce simp: json_parse_string_def res_simps split: if_splits
      dest: eat_ws_remaining stream_read_remaining json_string_loop_remaining)

lemma json_int_loop_remaining:
  "json_int_loop n st = Inr (k, st') \<Longrightarrow> stream_remaining st' \<le> stream_remaining st"
proof (induction n st rule: json_int_loop.induct)
  case (1 n st)
  then show ?case
    by (subst (asm) (2) json_int_loop.simps)
      (fastforce simp: res_simps Let_def split: if_splits dest: stream_read_remaining read_unread)
qed

lemma json_digits_loop_remaining:
  "json_digits_loop f s st = Inr (k, st') \<Longrightarrow> stream_remaining st' \<le> stream_remaining st"
proof (induction f s st rule: json_digits_loop.induct)
  case (1 f s st)
  then show ?case
    by (subst (asm) (2) json_digits_loop.simps)
      (fastforce simp: res_simps Let_def split: if_splits dest: stream_read_remaining read_unread)
qed

lemmas json_remaining = stream_read_remaining stream_seek_1_remaining eat_ws_remaining
  json_parse_string_remaining json_int_loop_remaining json_digits_loop_remaining

lemma json_parse_fraction_remaining:
  "json_parse_fraction env n st = Inr (k, st') \<Longrightarrow> stream_remaining st' \<le> stream_remaining st"
  by (fastforce simp: json_parse_fraction_def res_simps split: if_splits dest: json_remaining)

lemma json_parse_exponent_remaining:
  "json_parse_exponent env n num st = Inr (k, st') \<Longrightarrow> stream_remaining st' \<le> stream_remaining st"
  by (cases num) (fastforce simp: json_parse_exponent_def Let_def res_simps split: if_splits dest: json_remaining)

lemma json_parse_number_remaining:
  "json_parse_number env st = Inr (k, st') \<Longrightarrow> stream_remaining st' \<le> stream_remaining st"
  by (fastforce simp: json_parse_number_def Let_def res_simps split: if_splits
      dest: json_remaining json_parse_fraction_remaining json_parse_exponent_remaining)

lemma json_case_remaining:
  "json_skip w n st live = (v', live', Inr st') \<Longrightarrow> stream_remaining st' \<le> stream_remaining st"
  "json_case_string v st live = (v', live', Inr st') \<Longrightarrow> stream_remaining st' \<le> stream_remaining st"
  "json_case_default env st live = (v', live', Inr st') \<Longrightarrow> stream_remaining st' \<le> stream_remaining st"
  by (auto simp: json_skip_def json_case_string_def json_case_default_def stream_slice_def
      stream_remaining_def stream_advance_def split: sum.splits option.splits if_splits
      dest: json_parse_string_remaining [unfolded stream_remaining_def]
        json_parse_number_remaining [unfolded stream_remaining_def])

lemma json_case_letter_remaining:
  "json_case_n v st live = (v', live', Inr st') \<Longrightarrow> stream_remaining st' \<le> stream_remaining st"
  "json_case_f v st live = (v', live', Inr st') \<Longrightarrow> stream_remaining st' \<le> stream_remaining st"
  "json_case_t v st live = (v', live', Inr st') \<Longrightarrow> stream_remaining st' \<le> stream_remaining st"
  by (auto simp: json_case_n_def json_case_f_def json_case_t_def
      split: sum.splits if_splits dest: json_case_remaining)

lemma json_try_Inr:
  "json_try m v live f = (x, live', Inr st) \<longleftrightarrow> (\<exists>y. m = Inr y \<and> f y = (x, live', Inr st))"
  by (cases m) (auto simp: json_try_def)

lemmas json_psimps = json_parse_value.psimps json_parse_array.psimps json_array_loop.psimps
  json_parse_object.psimps json_object_loop.psimps

lemma json_open_remaining:
  "json_open a b st = Inr (e, st') \<Longrightarrow> stream_remaining st' < stream_remaining st"
  by (fastforce simp: json_open_def res_simps split: if_splits
      dest: eat_ws_remaining stream_read_remaining stream_seek_1_remaining)

lemma json_separator_remaining:
  "json_separator c st = Inr (again, st') \<Longrightarrow> stream_remaining st' < stream_remaining st"
  by (fastforce simp: json_separator_def res_simps split: if_splits
      dest: eat_ws_remaining stream_read_remaining)

lemma json_array_slot_remaining:
  "json_array_slot env arr st live = (arr', live', Inr st') \<Longrightarrow> stream_remaining st' \<le> stream_remaining st"
  by (auto simp: json_array_slot_def json_try_Inr dest: eat_ws_remaining)

lemma json_object_slot_remaining:
  "json_object_slot env kvs st live = (kvs', live', Inr st') \<Longrightarrow> stream_remaining st' \<le> stream_remaining st"
  by (fastforce simp: json_object_slot_def Let_def json_try_Inr res_simps split: if_splits
      dest: eat_ws_remaining stream_read_remaining json_parse_string_remaining)

definition no_longer :: "stream \<Rightarrow> 'a json_out \<Rightarrow> bool" where
  "no_longer st out \<longleftrightarrow> (\<forall>v live st'. out = (v, live, Inr st') \<longrightarrow> stream_remaining st' \<le> stream_remaining st)"

lemma no_longer_try:
  "(\<And>x. m = Inr x \<Longrightarrow> no_longer st (f x)) \<Longrightarrow> no_longer st (json_try m v live f)"
  by (cases m) (auto simp: json_try_def no_longer_def)

lemma no_longer_simps [simp]:
  "no_longer st (v, live, Inl e)"
  "no_longer st (v, live, Inr st') \<longleftrightarrow> stream_remaining st' \<le> stream_remaining st"
  by (auto simp: no_longer_def)

lemma no_longer_trans:
  "no_longer st' out \<Longrightarrow> stream_remaining st' \<le> stream_remaining st \<Longrightarrow> no_longer st out"
  by (fastforce simp: no_longer_def)

lemma no_longer_cases:
  "no_longer st (json_case_t v st live)"
  "no_longer st (json_case_f v st live)"
  "no_longer st (json_case_n v st live)"
  "no_longer st (json_case_string v st live)"
  "no_longer st (json_case_default env st live)"
  by (auto simp: no_longer_def dest: json_case_remaining json_case_letter_remaining)

lemma no_longer_seek: "no_longer st (v, live, stream_seek st 1)"
  by (auto simp: no_longer_def dest: stream_seek_1_remaining)

lemma no_longer_map:
  "no_longer st out \<Longrightarrow> no_longer st (case out of (v, y) \<Rightarrow> (f v, y))"
  by (auto simp: no_longer_def split: prod.splits)

lemma no_longer_try_pair:
  "(\<And>c s. m = Inr (c, s) \<Longrightarrow> no_longer st (f c s)) \<Longrightarrow>
   no_longer st (json_try m v live (\<lambda>(c, s). f c s))"
  by (auto intro: no_longer_try)

lemma no_longer_if:
  "(b \<Longrightarrow> no_longer st x) \<Longrightarrow> (\<not> b \<Longrightarrow> no_longer st y) \<Longrightarrow> no_longer st (if b then x else y)"
  by simp

lemma no_longer_nested:
  "no_longer st out \<Longrightarrow>
   (\<And>v live r. out = (v, live, r) \<Longrightarrow> (\<And>s. r = Inr s \<Longrightarrow> stream_remaining s \<le> stream_remaining st) \<Longrightarrow>
      no_longer st (f v live r)) \<Longrightarrow>
   no_longer st (case out of (v, live, r) \<Rightarrow> f v live r)"
  by (auto simp: no_longer_def split: prod.splits)

lemma parsers_no_longer:
  "json_parse_value_json_parse_array_json_array_loop_json_parse_object_json_object_loop_dom (Inl (Inl (env, v, st, live))) \<Longrightarrow>
    no_longer st (json_parse_value env v st live)"
  "json_parse_value_json_parse_array_json_array_loop_json_parse_object_json_object_loop_dom (Inl (Inr (env, st, live))) \<Longrightarrow>
    no_longer st (json_parse_array env st live)"
  "json_parse_value_json_parse_array_json_array_loop_json_parse_object_json_object_loop_dom (Inr (Inl (env, arr, st, live))) \<Longrightarrow>
    no_longer st (json_array_loop env arr st live)"
  "json_parse_value_json_parse_array_json_array_loop_json_parse_object_json_object_loop_dom (Inr (Inr (Inl (env, st, live)))) \<Longrightarrow>
    no_longer st (json_parse_object env st live)"
  "json_parse_value_json_parse_array_json_array_loop_json_parse_object_json_object_loop_dom (Inr (Inr (Inr (env, kvs, st, live)))) \<Longrightarrow>
    no_longer st (json_object_loop env kvs st live)"
proof (induction env v st live and env st live and env arr st live and env st live and env kvs st live
    rule: json_parse_value_json_parse_array_json_array_loop_json_parse_object_json_object_loop.pinduct)
  case (1 env v st live)
  show ?case
    unfolding json_parse_value.psimps [OF 1(1)]
  proof (intro no_longer_try)
    fix st' c assume p: "eat_ws st = Inr st'" "stream_peek_u8 st' = Inr c"
    show "no_longer st
        (if c = 0x7b then
           (if \<not> room_object env live then (json_type_object None, live, Inl E_general)
            else case json_parse_object env st' (live + 1) of (kvs, live, r) \<Rightarrow>
              (json_type_object (Some kvs), live, r))
         else if c = 0x5b then
           (if \<not> room_array env live then (json_type_array None, live, Inl E_general)
            else case json_parse_array env st' (live + 1) of (vs, live, r) \<Rightarrow>
              (json_type_array (Some vs), live, r))
         else if c = 0x74 then json_case_t v st' live
         else if c = 0x66 then json_case_f v st' live
         else if c = 0x6e then json_case_n v st' live
         else if c = 0x22 then json_case_string v st' live
         else json_case_default env st' live)"
      using 1(2) [OF p] 1(3) [OF p]
      by (intro no_longer_trans [OF _ eat_ws_remaining [OF p(1)]])
        (simp add: no_longer_map no_longer_cases)
  qed
next
  case (2 env st live)
  show ?case
    unfolding json_parse_array.psimps [OF 2(1)]
  proof (rule no_longer_try_pair)
    fix empty s assume s: "json_open 0x5b 0x5d st = Inr (empty, s)"
    then show "no_longer st (if empty then ([], live, Inr s) else json_array_loop env vec_empty s live)"
      using 2(2) [OF s refl] json_open_remaining [OF s] by (auto intro: no_longer_trans)
  qed
next
  case (3 env arr st live)
  obtain arr1 l1 r1 where slot: "json_array_slot env arr st live = (arr1, l1, r1)"
    by (rule prod_cases3)
  show ?case
    unfolding json_array_loop.psimps [OF 3(1)] slot prod.case Let_def
  proof (rule no_longer_try)
    fix s1 assume s1: "r1 = Inr s1"
    obtain v l2 r2 where v: "json_parse_value env json_type_invalid s1 l1 = (v, l2, r2)"
      by (rule prod_cases3)
    note ih = 3(2) [OF slot [symmetric] refl s1] 3(3) [OF slot [symmetric] refl s1 v [symmetric] refl refl]
    have le1: "stream_remaining s1 \<le> stream_remaining st"
      using json_array_slot_remaining slot s1 by blast
    show "no_longer st (case json_parse_value env json_type_invalid s1 l1 of (v, live, r) \<Rightarrow>
        json_try (unwrap r (json_separator 0x5d)) (vdata (set_back arr1 v)) live (\<lambda>(again, st).
          if again then json_array_loop env (set_back arr1 v) st live else (vdata (set_back arr1 v), live, Inr st)))"
      unfolding v prod.case
    proof (rule no_longer_try_pair)
      fix again s2 assume s2: "unwrap r2 (json_separator 0x5d) = Inr (again, s2)"
      have "stream_remaining s2 \<le> stream_remaining s1"
        using s2 ih(1) v by (fastforce simp: res_simps no_longer_def dest: json_separator_remaining)
      then show "no_longer st (if again then json_array_loop env (set_back arr1 v) s2 l2
          else (vdata (set_back arr1 v), l2, Inr s2))"
        using ih(2) [OF s2 refl] le1 by (auto intro: no_longer_trans)
    qed
  qed
next
  case (4 env st live)
  show ?case
    unfolding json_parse_object.psimps [OF 4(1)]
  proof (rule no_longer_try_pair)
    fix empty s assume s: "json_open 0x7b 0x7d st = Inr (empty, s)"
    then show "no_longer st (if empty then ([], live, Inr s) else json_object_loop env vec_empty s live)"
      using 4(2) [OF s refl] json_open_remaining [OF s] by (auto intro: no_longer_trans)
  qed
next
  case (5 env kvs st live)
  obtain kvs1 l1 r1 where slot: "json_object_slot env kvs st live = (kvs1, l1, r1)"
    by (rule prod_cases3)
  show ?case
    unfolding json_object_loop.psimps [OF 5(1)] slot prod.case Let_def
  proof (rule no_longer_try)
    fix s1 assume s1: "r1 = Inr s1"
    obtain v l2 r2 where v: "json_parse_value env (snd (last (vdata kvs1))) s1 l1 = (v, l2, r2)"
      by (rule prod_cases3)
    note ih = 5(2) [OF slot [symmetric] refl s1 refl refl] 5(3) [OF slot [symmetric] refl s1 refl refl v [symmetric] refl refl]
    have le1: "stream_remaining s1 \<le> stream_remaining st"
      using json_object_slot_remaining slot s1 by blast
    show "no_longer st (case json_parse_value env (snd (last (vdata kvs1))) s1 l1 of (v, live, r) \<Rightarrow>
        json_try (unwrap r (json_separator 0x7d)) (vdata (set_back kvs1 (fst (last (vdata kvs1)), v))) live (\<lambda>(again, st).
          if again then json_object_loop env (set_back kvs1 (fst (last (vdata kvs1)), v)) st live else (vdata (set_back kvs1 (fst (last (vdata kvs1)), v)), live, Inr st)))"
      unfolding v prod.case
    proof (rule no_longer_try_pair)
      fix again s2 assume s2: "unwrap r2 (json_separator 0x7d) = Inr (again, s2)"
      have "stream_remaining s2 \<le> stream_remaining s1"
        using s2 ih(1) v by (fastforce simp: res_simps no_longer_def dest: json_separator_remaining)
      then show "no_longer st (if again then json_object_loop env (set_back kvs1 (fst (last (vdata kvs1)), v)) s2 l2
          else (vdata (set_back kvs1 (fst (last (vdata kvs1)), v)), l2, Inr s2))"
        using ih(2) [OF s2 refl] le1 by (auto intro: no_longer_trans)
    qed
  qed
qed

definition json_rank ::
  "((json_env \<times> json_value \<times> stream \<times> int) + (json_env \<times> stream \<times> int)) +
   ((json_env \<times> json_value vec \<times> stream \<times> int) + (json_env \<times> stream \<times> int) +
    (json_env \<times> json_kv vec \<times> stream \<times> int)) \<Rightarrow> nat" where
  "json_rank x =
     (case x of Inl (Inl (_, _, st, _)) \<Rightarrow> 3 * stream_remaining st + 1
      | Inl (Inr (_, st, _)) \<Rightarrow> 3 * stream_remaining st
      | Inr (Inl (_, _, st, _)) \<Rightarrow> 3 * stream_remaining st + 2
      | Inr (Inr (Inl (_, st, _))) \<Rightarrow> 3 * stream_remaining st
      | Inr (Inr (Inr (_, _, st, _))) \<Rightarrow> 3 * stream_remaining st + 2)"

lemma after_value_remaining:
  "no_longer s1 (v, l, r) \<Longrightarrow> unwrap r (json_separator c) = Inr (again, s2) \<Longrightarrow>
   stream_remaining s2 < stream_remaining s1"
  by (fastforce simp: res_simps no_longer_def dest: json_separator_remaining)


lemmas slots_remaining = json_array_slot_remaining [OF sym] json_object_slot_remaining [OF sym]

termination json_parse_value
proof (relation "measure json_rank", simp_all add: json_rank_def, goal_cases)
  case (5 env arr st live x y xa ya xb xc yb xaa yc xab xd xe yd)
  then have "stream_remaining yd < stream_remaining xb"
    using parsers_no_longer(1) [OF 5(10)] 5(4,5,7,8) by (metis after_value_remaining)
  with 5(1,2) show ?case by (auto dest!: slots_remaining)
next
  case (8 env kvs st live x y xa ya xb xc xd xe yb xaa yc xab xf xg yd)
  then have "stream_remaining yd < stream_remaining xb"
    using parsers_no_longer(1) [OF 8(12)] 8(6,7,9,10) by (metis after_value_remaining)
  with 8(1,2) show ?case by (auto dest!: slots_remaining)
qed (auto dest!: eat_ws_remaining json_open_remaining slots_remaining)

declare json_parse_value.simps [simp del] json_parse_array.simps [simp del] json_array_loop.simps [simp del]
  json_parse_object.simps [simp del] json_object_loop.simps [simp del]

subsection \<open>Releasing a tree\<close>

text \<open>
  \<open>vec_clear\<close> frees the buffer of a vector that has one.  The functions return the number of blocks
  left; the value they are given becomes \<open>(json_value){0}\<close>.
\<close>

definition clear_block :: "'a list \<Rightarrow> int" where
  "clear_block xs = (if xs = [] then 0 else 1)"

definition json_free_string :: "str \<Rightarrow> str" where
  "json_free_string string = (if str_is_null string then string else [])"

fun json_free_value :: "json_value \<Rightarrow> int \<Rightarrow> int"
  and json_free_object :: "json_object \<Rightarrow> int \<Rightarrow> int"
  and json_free_array :: "json_array \<Rightarrow> int \<Rightarrow> int"
where
  "json_free_value (json_type_object (Some kvs)) live = json_free_object kvs live - clear_block kvs - 1"
| "json_free_value (json_type_array (Some vs)) live = json_free_array vs live - clear_block vs - 1"
| "json_free_value _ live = live"
| "json_free_object [] live = live"
| "json_free_object ((k, v) # kvs) live = json_free_object kvs (json_free_value v live)"
| "json_free_array [] live = live"
| "json_free_array (v # vs) live = json_free_array vs (json_free_value v live)"

section \<open>Documents\<close>

text \<open>The blocks in use and the result.\<close>

definition json_parse :: "json_env \<Rightarrow> str \<Rightarrow> int \<Rightarrow> int \<times> json_value res" where
  "json_parse env json live =
     (if str_is_null json then (live, Inr json_type_invalid)
      else case unwrap (eat_ws (stream_from json)) (\<lambda>st. unwrap (stream_ended st) (\<lambda>ended. Inr (ended, st))) of
        Inl e \<Rightarrow> (live, Inl e)
      | Inr (ended, st) \<Rightarrow>
          if ended then (live, Inr json_type_invalid)
          else (case json_parse_value env json_type_invalid st live of (value, live, r) \<Rightarrow>
            (case unwrap r (\<lambda>st. unwrap (eat_ws st) stream_ended) of
               Inl e \<Rightarrow> (json_free_value value live, Inl e)
             | Inr ended \<Rightarrow>
                 if ended then (live, Inr value) else (json_free_value value live, Inl E_general))))"

section \<open>Access\<close>

fun json_find_loop :: "json_object \<Rightarrow> str \<Rightarrow> json_value res" where
  "json_find_loop [] key = Inl E_general"
| "json_find_loop ((k, v) # kvs) key = (if str_eq k key then Inr v else json_find_loop kvs key)"

definition json_object_find :: "json_object \<Rightarrow> str \<Rightarrow> json_value res" where
  "json_object_find obj key = (if str_is_null key then Inl E_general else json_find_loop obj key)"

text \<open>\<open>json_to_object\<close> and \<open>json_to_array\<close> dereference the pointer of the value.\<close>

definition json_val_as_object :: "json_value \<Rightarrow> json_object res" where
  "json_val_as_object val =
     (case val of json_type_object p \<Rightarrow> (case p of None \<Rightarrow> Inl Fault | Some kvs \<Rightarrow> Inr kvs)
      | _ \<Rightarrow> Inl E_general)"

definition json_val_as_array :: "json_value \<Rightarrow> json_array res" where
  "json_val_as_array val =
     (case val of json_type_array p \<Rightarrow> (case p of None \<Rightarrow> Inl Fault | Some vs \<Rightarrow> Inr vs)
      | _ \<Rightarrow> Inl E_general)"

definition json_val_as_string :: "json_value \<Rightarrow> str res" where
  "json_val_as_string val = (case val of json_type_string s \<Rightarrow> Inr s | _ \<Rightarrow> Inl E_general)"

definition json_val_as_number :: "json_value \<Rightarrow> json_number res" where
  "json_val_as_number val = (case val of json_type_number n \<Rightarrow> Inr n | _ \<Rightarrow> Inl E_general)"

definition json_val_as_boolean :: "json_value \<Rightarrow> bool res" where
  "json_val_as_boolean val = (case val of json_type_boolean b \<Rightarrow> Inr b | _ \<Rightarrow> Inl E_general)"

definition json_number_i64 :: "json_number \<Rightarrow> int res" where
  "json_number_i64 number = (case number of json_integer i \<Rightarrow> Inr i | json_float f \<Rightarrow> Inl E_general)"

definition json_number_f64 :: "json_number \<Rightarrow> u64 res" where
  "json_number_f64 number = (case number of json_integer i \<Rightarrow> Inl E_general | json_float f \<Rightarrow> Inr f)"

definition json_val_as_i64 :: "json_value \<Rightarrow> int res" where
  "json_val_as_i64 val = unwrap (json_val_as_number val) json_number_i64"

definition json_val_as_f64 :: "json_value \<Rightarrow> u64 res" where
  "json_val_as_f64 val = unwrap (json_val_as_number val) json_number_f64"

text \<open>The macro \<open>JSON_OBJ_GET\<close> and its instances.\<close>

definition JSON_OBJ_GET :: "(json_value \<Rightarrow> 'a res) \<Rightarrow> json_object \<Rightarrow> str \<Rightarrow> 'a res" where
  "JSON_OBJ_GET as obj key =
     (if str_is_null key then Inl E_general else unwrap (json_object_find obj key) as)"

definition json_obj_get_object :: "json_object \<Rightarrow> str \<Rightarrow> json_object res" where
  "json_obj_get_object = JSON_OBJ_GET json_val_as_object"

definition json_obj_get_array :: "json_object \<Rightarrow> str \<Rightarrow> json_array res" where
  "json_obj_get_array = JSON_OBJ_GET json_val_as_array"

definition json_obj_get_string :: "json_object \<Rightarrow> str \<Rightarrow> str res" where
  "json_obj_get_string = JSON_OBJ_GET json_val_as_string"

definition json_obj_get_number :: "json_object \<Rightarrow> str \<Rightarrow> json_number res" where
  "json_obj_get_number = JSON_OBJ_GET json_val_as_number"

definition json_obj_get_boolean :: "json_object \<Rightarrow> str \<Rightarrow> bool res" where
  "json_obj_get_boolean = JSON_OBJ_GET json_val_as_boolean"

definition json_obj_get_i64 :: "json_object \<Rightarrow> str \<Rightarrow> int res" where
  "json_obj_get_i64 obj key = unwrap (json_obj_get_number obj key) json_number_i64"

definition json_obj_get_f64 :: "json_object \<Rightarrow> str \<Rightarrow> u64 res" where
  "json_obj_get_f64 obj key = unwrap (json_obj_get_number obj key) json_number_f64"

end
