(* ===== verification/Stream_At.thy ===== *)
theory Stream_At
  imports Leb128
begin

text \<open>
  A stream seen as the text that has been read and the text that follows, on which the readers
  compute by simplification.  The theories that relate a reader to a grammar or to an encoder
  (\<open>Parser_Roundtrip\<close>, \<open>Json_Grammar\<close>) work on this view.
\<close>

text \<open>\<open>mk p t\<close>: the stream that has read \<open>p\<close> and not yet \<open>t\<close>.\<close>

definition mk :: "str \<Rightarrow> str \<Rightarrow> stream" where
  "mk p t = \<lparr>st_s = p @ t, st_p = length p\<rparr>"

lemma stream_from_mk: "stream_from s = mk [] s"
  by (simp add: stream_from_def mk_def)

lemma mk_simps [simp]:
  "stream_is_valid (mk p t)"
  "stream_remaining (mk p t) = length t"
  "st_p (mk p t) = length p"
  "st_s (mk p t) = p @ t"
  "mk p t = mk p' t' \<longleftrightarrow> p = p' \<and> t = t'"
  by (auto simp: mk_def stream_is_valid_def stream_remaining_def)

lemma stream_advance_mk: "stream_advance (mk p (a @ r)) (length a) = mk (p @ a) r"
  by (simp add: stream_advance_def mk_def)

lemma stream_peek_mk [simp]:
  "stream_peek_u8 (mk p t) = (case t of [] \<Rightarrow> Inl E_malformed | c # r \<Rightarrow> Inr c)"
  by (auto simp: stream_peek_u8_def nth_append split: list.split)

lemma stream_read_mk [simp]:
  "stream_read_u8 (mk p t) = (case t of [] \<Rightarrow> Inl E_malformed | c # r \<Rightarrow> Inr (c, mk (p @ [c]) r))"
  by (cases t) (simp_all add: stream_read_u8_def stream_advance_def mk_def [of "p @ _"])

lemma stream_seek_mk [simp]:
  "stream_seek (mk p (c # r)) 1 = Inr (mk (p @ [c]) r)"
  "stream_seek (mk (p @ [c]) r) (- 1) = Inr (mk p (c # r))"
  by (auto simp: stream_seek_def mk_def nat_add_distrib)

lemma stream_slice_mk:
  "stream_slice (mk p (a @ r)) (length a) = Inr (\<lparr>st_s = a, st_p = 0\<rparr>, mk (p @ a) r)"
  by (simp add: stream_slice_def stream_advance_def mk_def [of "p @ _"])

lemma stream_read_vu7_mk [simp]:
  "stream_read_vu7 (mk p (c # r)) = (if c \<ge> 0x80 then Inl E_malformed else Inr (c, mk (p @ [c]) r))"
  using stream_advance_mk [of p "[c]" r] by (simp add: stream_read_vu7_def Let_def)

text \<open>The number that a byte denotes as a signed LEB128 of one byte.\<close>

definition vi7 :: "u8 \<Rightarrow> int" where
  "vi7 b = sint (if b AND 0x40 \<noteq> 0 then b OR 0x80 else b)"

lemma stream_read_vi7_mk [simp]:
  "stream_read_vi7 (mk p (c # r)) = (if c \<ge> 0x80 then Inl E_malformed else Inr (vi7 c, mk (p @ [c]) r))"
  using stream_advance_mk [of p "[c]" r] by (simp add: stream_read_vi7_def vi7_def Let_def)

lemma stream_read_vu32_mk:
  "n < 2 ^ 32 \<Longrightarrow> stream_read_vu32 (mk p (leb_encode n @ r)) = Inr (of_nat n, mk (p @ leb_encode n) r)"
  using stream_read_vu32_encode [of n p r] by (simp add: mk_def)

text \<open>The texts of signed numbers of \<open>w\<close> bits.\<close>

definition sleb_text :: "nat \<Rightarrow> u8 list \<Rightarrow> bool" where
  "sleb_text w bs \<longleftrightarrow> (\<exists>k. sleb_spec w bs = Some (k, length bs))"

lemma leb_len_append: "leb_len bs = Some n \<Longrightarrow> leb_len (bs @ r) = Some n"
  by (induction bs arbitrary: n) (auto split: if_splits)

lemma sleb_spec_append: "sleb_spec w bs = Some (k, length bs) \<Longrightarrow> sleb_spec w (bs @ r) = Some (k, length bs)"
  by (auto simp: sleb_spec_def leb_len_append split: option.splits if_splits)

lemma stream_read_vi_mk:
  "sleb_text 32 bs \<Longrightarrow> \<exists>k. stream_read_vi32 (mk p (bs @ r)) = Inr (k, mk (p @ bs) r)"
  "sleb_text 64 bs \<Longrightarrow> \<exists>l. stream_read_vi64 (mk p (bs @ r)) = Inr (l, mk (p @ bs) r)"
  using leb_signed_eq [OF leb_widths(1,3), of "mk p (bs @ r)"] leb_signed_eq [OF leb_widths(2,4), of "mk p (bs @ r)"]
  by (auto simp: sleb_text_def stream_read_vi32_def stream_read_vi64_def sleb_spec_append stream_advance_mk)

lemma stream_read_float_mk:
  "length bs = 4 \<Longrightarrow> \<exists>x. stream_read_f32 (mk p (bs @ r)) = Inr (x, mk (p @ bs) r)"
  "length bs = 8 \<Longrightarrow> \<exists>y. stream_read_f64 (mk p (bs @ r)) = Inr (y, mk (p @ bs) r)"
  using stream_advance_mk [of p bs r] by (auto simp: stream_read_f32_def stream_read_f64_def)

end
