(* ===== verification/Json_Grammar.thy ===== *)
theory Json_Grammar
  imports Sjson Stream_At
begin

text \<open>
  The grammar of ECMA-404 for the reader of theory \<open>Sjson\<close>, and its lexical part: strings and numbers
  are read exactly as the grammar has them.  The value of an integer is the number it denotes, which
  must be below \<open>2\<^sup>6\<^sup>3\<close>; the value of a number with a fraction or an exponent is what the code computes
  from its digits.

  A stream is seen as the text that has been read and the text that follows (\<open>mk\<close>, theory \<open>Stream_At\<close>), on which the
  readers compute by simplification.
\<close>

section \<open>Streams\<close>

lemma stream_ended_mk [simp]: "stream_ended (mk p t) = Inr (t = [] \<or> hd t = 0)"
  by (auto simp: stream_ended_def split: list.split)

lemma eat_ws_mk [simp]: "eat_ws (mk p t) = Inr (mk (p @ takeWhile is_ws t) (dropWhile is_ws t))"
proof (induction t arbitrary: p)
  case (Cons c t)
  then show ?case by (subst eat_ws.simps) simp
qed (simp add: eat_ws.simps)

lemma json_digits_loop_mk [simp]:
  "json_digits_loop f s (mk p t) =
     Inr (foldl f s (takeWhile is_digit t), mk (p @ takeWhile is_digit t) (dropWhile is_digit t))"
proof (induction t arbitrary: p s)
  case (Cons c t)
  have "\<not> is_digit 0" by (simp add: is_digit_def)
  with Cons show ?case by (subst json_digits_loop.simps) auto
qed (simp add: json_digits_loop.simps)

definition dec :: "int \<Rightarrow> str \<Rightarrow> int" where
  "dec = foldl (\<lambda>n d. n * 10 + digit_val d)"

lemma dec_simps [simp]: "dec n [] = n" "dec n (d # ds) = dec (n * 10 + digit_val d) ds"
  by (simp_all add: dec_def)

lemma digit_val_range: "is_digit d \<Longrightarrow> 0 \<le> digit_val d \<and> digit_val d \<le> 9"
  by (simp add: is_digit_def digit_val_def word_le_def)

lemma dec_mono: "list_all is_digit ds \<Longrightarrow> 0 \<le> n \<Longrightarrow> n \<le> dec n ds"
proof (induction ds arbitrary: n)
  case (Cons d ds)
  then have "n * 10 + digit_val d \<le> dec (n * 10 + digit_val d) ds" "0 \<le> digit_val d"
    using digit_val_range [of d] by auto
  with Cons.prems(2) show ?case by simp
qed simp

lemma json_int_loop_mk:
  assumes "t \<noteq> []" "0 \<le> n" "n < 2 ^ 63"
  shows "json_int_loop n (mk p t) =
    (if dec n (takeWhile is_digit t) < 2 ^ 63
     then Inr (dec n (takeWhile is_digit t), mk (p @ takeWhile is_digit t) (dropWhile is_digit t))
     else Inl Fault)"
  using assms
proof (induction t arbitrary: p n)
  case (Cons c t)
  have zero: "\<not> is_digit 0" by (simp add: is_digit_def)
  show ?case
  proof (cases "is_digit c")
    case True
    let ?n = "n * 10 + digit_val c" and ?ds = "takeWhile is_digit t"
    have n: "0 \<le> ?n" using digit_val_range [OF True] Cons.prems by simp
    have le: "?n \<le> dec ?n ?ds"
      by (rule dec_mono [OF _ n]) (metis list_all_iff set_takeWhileD)
    show ?thesis
    proof (cases "t = [] \<or> hd t = 0")
      case ended: True
      then have "takeWhile is_digit t = []" "dropWhile is_digit t = t"
        using zero by (cases t; auto)+
      with True ended show ?thesis by (subst json_int_loop.simps) simp
    next
      case False
      with True n le Cons.IH [of ?n "p @ [c]"] show ?thesis
        by (subst json_int_loop.simps) (auto simp: Let_def)
    qed
  qed (use Cons.prems in \<open>subst json_int_loop.simps, simp\<close>)
qed simp

section \<open>Strings\<close>

inductive string_body :: "str \<Rightarrow> bool" where
  body_end: "string_body []"
| body_plain: "0x20 \<le> c \<Longrightarrow> c \<noteq> c_quote \<Longrightarrow> c \<noteq> c_backslash \<Longrightarrow> string_body b \<Longrightarrow> string_body (c # b)"
| body_escape: "d \<in> {0x5c, 0x22, 0x2f, 0x62, 0x66, 0x6e, 0x72, 0x74} \<Longrightarrow> string_body b \<Longrightarrow>
    string_body (c_backslash # d # b)"
| body_unicode: "list_all is_hex [h1, h2, h3, h4] \<Longrightarrow> string_body b \<Longrightarrow>
    string_body (c_backslash # c_u # h1 # h2 # h3 # h4 # b)"

lemma json_string_loop_mk: "json_string_loop string q (mk p (c # t)) =
   (if c = c_quote then
      Inr (if length p \<noteq> q then Some (take (length p - q) (drop q (p @ c # t))) else string, mk (p @ [c]) t)
    else unwrap (if c = c_backslash then json_parse_escape (mk (p @ [c]) t) else Inr (mk (p @ [c]) t)) (\<lambda>st.
      if c < 0x20 then Inl E_general else json_string_loop string q st))"
  by (subst json_string_loop.simps) (simp cong: if_cong)

lemma for_res_4:
  "for_res 0 4 body (s :: 'a) =
     unwrap (body 0 s) (\<lambda>s. unwrap (body 1 s) (\<lambda>s. unwrap (body 2 s) (body 3)))"
proof -
  have "unwrap m Inr = m" for m :: "'a res" by (cases m) simp_all
  then show ?thesis by (simp add: numeral_eq_Suc cong: unwrap_cong)
qed

lemma escape_mk:
  "d \<in> {0x5c, 0x22, 0x2f, 0x62, 0x66, 0x6e, 0x72, 0x74} \<Longrightarrow>
   json_parse_escape (mk p (d # t)) = Inr (mk (p @ [d]) t)"
  "list_all is_hex [h1, h2, h3, h4] \<Longrightarrow>
   json_parse_escape (mk p (c_u # h1 # h2 # h3 # h4 # t)) = Inr (mk (p @ [c_u, h1, h2, h3, h4]) t)"
  by (simp_all add: json_parse_escape_def escape_hex_def for_res_4)

lemma json_string_loop_complete:
  "string_body b \<Longrightarrow>
   json_string_loop string (length p) (mk (p @ a) (b @ c_quote # t)) =
     Inr (if a @ b = [] then string else Some (a @ b), mk (p @ a @ b @ [c_quote]) t)"
proof (induction b arbitrary: a rule: string_body.induct)
  case body_end
  then show ?case by (simp add: json_string_loop_mk)
next
  case (body_plain c b)
  from body_plain.IH [of "a @ [c]"] body_plain.hyps show ?case
    by (simp add: json_string_loop_mk not_less)
next
  case (body_escape d b)
  from body_escape.IH [of "a @ [c_backslash, d]"] show ?case
    by (simp add: json_string_loop_mk escape_mk(1) [OF body_escape.hyps(1)])
next
  case (body_unicode h1 h2 h3 h4 b)
  from body_unicode.IH [of "a @ [c_backslash, c_u, h1, h2, h3, h4]"] show ?case
    by (simp add: json_string_loop_mk escape_mk(2) [OF body_unicode.hyps(1)])
qed

lemma escape_ok:
  "res_ok (\<lambda>st. (\<exists>d r. d \<in> {0x5c, 0x22, 0x2f, 0x62, 0x66, 0x6e, 0x72, 0x74} \<and> t = d # r \<and> st = mk (p @ [d]) r) \<or>
     (\<exists>h1 h2 h3 h4 r. list_all is_hex [h1, h2, h3, h4] \<and> t = c_u # h1 # h2 # h3 # h4 # r \<and>
        st = mk (p @ [c_u, h1, h2, h3, h4]) r))
   (json_parse_escape (mk p t))"
  by (rule res_okI)
    (auto simp: json_parse_escape_def escape_hex_def for_res_4 res_simps split: list.splits if_splits)

definition string_read :: "str option \<Rightarrow> str \<Rightarrow> str \<Rightarrow> str \<Rightarrow> str option \<times> stream \<Rightarrow> bool" where
  "string_read string p a t = (\<lambda>(x, st). \<exists>b r. string_body b \<and> t = b @ c_quote # r \<and>
     st = mk (p @ a @ b @ [c_quote]) r \<and> x = (if a @ b = [] then string else Some (a @ b)))"

lemma string_read_step:
  "string_read string p (a @ u) t o' \<Longrightarrow> u \<noteq> [] \<Longrightarrow> (\<And>b. string_body b \<Longrightarrow> string_body (u @ b)) \<Longrightarrow>
   string_read string p a (u @ t) o'"
  unfolding string_read_def by (cases o') fastforce

lemma json_string_loop_ok:
  "res_ok (string_read string p a t) (json_string_loop string (length p) (mk (p @ a) t))"
proof (induction "length t" arbitrary: a t rule: less_induct)
  case less
  show ?case
  proof (cases t)
    case Nil
    then show ?thesis by (subst json_string_loop.simps) simp
  next
    case (Cons c r)
    have step: "res_ok (string_read string p a t) (json_string_loop string (length p) (mk (p @ a @ u) r'))"
      if "t = u @ r'" "u \<noteq> []" "\<And>b. string_body b \<Longrightarrow> string_body (u @ b)" for u r'
      using less [of r' "a @ u"] that
      by (auto elim!: res_ok_mono intro: string_read_step)
    consider "c = c_quote" | "c = c_backslash" | "c \<noteq> c_quote" "c \<noteq> c_backslash" by blast
    then show ?thesis
    proof cases
      case 1
      with Cons show ?thesis
        by (auto simp: json_string_loop_mk string_read_def intro!: exI [of _ "[]"] body_end)
    next
      case 2
      with Cons have eq: "json_string_loop string (length p) (mk (p @ a) t) =
          unwrap (json_parse_escape (mk (p @ a @ [c_backslash]) r)) (json_string_loop string (length p))"
        by (simp add: json_string_loop_mk)
      show ?thesis
        unfolding eq
      proof (rule res_ok_bind [OF escape_ok], elim disjE exE conjE)
        fix d r' st
        assume "d \<in> {0x5c, 0x22, 0x2f, 0x62, 0x66, 0x6e, 0x72, 0x74}" "r = d # r'"
          "st = mk ((p @ a @ [c_backslash]) @ [d]) r'"
        then show "res_ok (string_read string p a t) (json_string_loop string (length p) st)"
          using step [of "[c_backslash, d]" r'] Cons 2 by (auto intro!: body_escape)
      next
        fix h1 h2 h3 h4 r' st
        assume h: "list_all is_hex [h1, h2, h3, h4]" "r = c_u # h1 # h2 # h3 # h4 # r'"
          "st = mk ((p @ a @ [c_backslash]) @ [c_u, h1, h2, h3, h4]) r'"
        have "string_body ([c_backslash, c_u, h1, h2, h3, h4] @ b)" if "string_body b" for b
          using body_unicode [OF h(1) that] by simp
        with h show "res_ok (string_read string p a t) (json_string_loop string (length p) st)"
          using step [of "[c_backslash, c_u, h1, h2, h3, h4]" r'] Cons 2 by simp
      qed
    next
      case 3
      with step [of "[c]" r] Cons show ?thesis
        by (auto simp: json_string_loop_mk not_less intro!: string_body.intros)
    qed
  qed
qed

definition ws :: "str \<Rightarrow> bool" where
  "ws w = list_all is_ws w"

lemma ws_simps [simp]:
  "ws []"
  "ws (takeWhile is_ws t)"
  "ws w \<Longrightarrow> takeWhile is_ws (w @ t) = w @ takeWhile is_ws t"
  "ws w \<Longrightarrow> dropWhile is_ws (w @ t) = dropWhile is_ws t"
  unfolding ws_def list_all_iff
  by (auto dest: set_takeWhileD simp: takeWhile_append2 dropWhile_append2)

lemma not_ws [simp]:
  "\<not> is_ws c_quote" "\<not> is_ws c_comma" "\<not> is_ws c_minus" "\<not> is_ws c_colon" "\<not> is_ws c_lbracket"
  "\<not> is_ws c_rbracket" "\<not> is_ws c_f" "\<not> is_ws c_n" "\<not> is_ws c_t" "\<not> is_ws c_lbrace" "\<not> is_ws c_rbrace"
  "\<not> is_ws 0"
  by (simp_all add: is_ws_def)

lemma json_parse_string_complete:
  assumes "ws w" "string_body b"
  shows "json_parse_string string (mk p (w @ c_quote # b @ c_quote # t)) =
    Inr (if b = [] then string else Some b, mk (p @ w @ [c_quote] @ b @ [c_quote]) t)"
  using json_string_loop_complete [OF assms(2), of string "p @ w @ [c_quote]" "[]" t] assms(1)
  by (simp add: json_parse_string_def)

lemma json_parse_string_ok:
  "res_ok (\<lambda>(x, st). \<exists>w b r. ws w \<and> string_body b \<and> t = w @ [c_quote] @ b @ [c_quote] @ r \<and>
      st = mk (p @ w @ [c_quote] @ b @ [c_quote]) r \<and> x = (if b = [] then string else Some b))
     (json_parse_string string (mk p t))"
proof (cases "dropWhile is_ws t")
  case (Cons c r)
  define w where "w = takeWhile is_ws t"
  have t: "t = w @ c # r" using takeWhile_dropWhile_id [of is_ws t] Cons by (simp add: w_def)
  have w: "ws w" by (simp add: w_def)
  show ?thesis
  proof (cases "c = c_quote")
    case True
    have "res_ok (string_read string (p @ w @ [c_quote]) [] r)
        (json_string_loop string (length (p @ w @ [c_quote])) (mk ((p @ w @ [c_quote]) @ []) r))"
      by (rule json_string_loop_ok)
    then have "res_ok (string_read string (p @ w @ [c_quote]) [] r) (json_parse_string string (mk p t))"
      using w True by (simp add: json_parse_string_def t)
    then show ?thesis
      by (rule res_ok_mono) (use t w True in \<open>fastforce simp: string_read_def\<close>)
  qed (simp add: json_parse_string_def Cons)
qed (simp add: json_parse_string_def del: dropWhile_eq_Nil_conv)

section \<open>Numbers\<close>

definition digits :: "str \<Rightarrow> bool" where
  "digits ds \<longleftrightarrow> ds \<noteq> [] \<and> list_all is_digit ds"

definition int_part :: "str \<Rightarrow> bool" where
  "int_part ip \<longleftrightarrow> ip = [0x30] \<or> digits ip \<and> hd ip \<noteq> 0x30"

definition frac_part :: "str \<Rightarrow> bool" where
  "frac_part fr \<longleftrightarrow> fr = [] \<or> hd fr = c_dot \<and> digits (tl fr)"

definition exp_part :: "str \<Rightarrow> bool" where
  "exp_part ex \<longleftrightarrow> ex = [] \<or> (\<exists>e sg ds. ex = e # sg @ ds \<and> e \<in> {c_e, c_E} \<and> sg \<in> {[], [c_plus], [c_minus]} \<and> digits ds)"

definition frac_value :: "json_env \<Rightarrow> int \<Rightarrow> str \<Rightarrow> bool \<times> u64" where
  "frac_value env n fr =
     (if fr = [] then (False, 0)
      else (True, fst (foldl (frac_step env) (int_to_f64 n, tenth) (tl fr))))"

definition exp_num :: "json_env \<Rightarrow> str \<Rightarrow> u64" where
  "exp_num env t =
     (let x = foldl (exp_step env) 0 (if hd t \<in> {c_plus, c_minus} then tl t else t)
      in if hd t = c_minus then x XOR 0x8000000000000000 else x)"

definition exp_value :: "json_env \<Rightarrow> int \<Rightarrow> bool \<times> u64 \<Rightarrow> str \<Rightarrow> bool \<times> u64" where
  "exp_value env n m ex =
     (if ex = [] then m
      else (True, f64_mul env (if fst m then snd m else int_to_f64 n)
                   (c_pow env (int_to_f64 10) (exp_num env (tl ex)))))"

definition number_value :: "json_env \<Rightarrow> bool \<Rightarrow> str \<Rightarrow> str \<Rightarrow> str \<Rightarrow> json_number" where
  "number_value env neg ip fr ex =
     (let n = dec 0 ip; sign = (if neg then - 1 else 1); m = exp_value env n (frac_value env n fr) ex
      in if fst m then json_float (f64_mul env (snd m) (int_to_f64 sign)) else json_integer (n * sign))"

definition number_text :: "json_env \<Rightarrow> json_number \<Rightarrow> str \<Rightarrow> bool" where
  "number_text env n t \<longleftrightarrow> (\<exists>neg ip fr ex. t = (if neg then [c_minus] else []) @ ip @ fr @ ex \<and>
     int_part ip \<and> frac_part fr \<and> exp_part ex \<and> dec 0 ip < 2 ^ 63 \<and> n = number_value env neg ip fr ex)"

lemma digits_while:
  "list_all is_digit ds \<Longrightarrow> takeWhile is_digit (ds @ r) = ds @ takeWhile is_digit r"
  "list_all is_digit ds \<Longrightarrow> dropWhile is_digit (ds @ r) = dropWhile is_digit r"
  by (simp_all add: list_all_iff takeWhile_append2 dropWhile_append2)

lemma takeWhile_digits [simp]: "list_all is_digit (takeWhile is_digit t)"
  by (auto simp: list_all_iff dest: set_takeWhileD)

lemma not_digit [simp]: "\<not> is_digit c_dot" "\<not> is_digit c_e" "\<not> is_digit c_E" "\<not> is_digit c_plus"
  "\<not> is_digit c_minus" "is_digit 0x30" "\<not> is_digit 0"
  by (simp_all add: is_digit_def)

lemma json_parse_fraction_ok:
  "res_ok (\<lambda>(m, st). \<exists>fr r. frac_part fr \<and> t = fr @ r \<and> st = mk (p @ fr) r \<and> m = frac_value env n fr)
     (json_parse_fraction env n (mk p t))"
proof (cases t)
  case (Cons c r)
  show ?thesis
  proof (cases "c = c_dot \<and> r \<noteq> [] \<and> is_digit (hd r)")
    case True
    let ?ds = "takeWhile is_digit r"
    have "frac_part (c_dot # ?ds)"
      using True by (cases r) (auto simp: frac_part_def digits_def)
    moreover have "t = (c_dot # ?ds) @ dropWhile is_digit r" using Cons True by simp
    moreover have "json_parse_fraction env n (mk p t) =
        Inr (frac_value env n (c_dot # ?ds), mk (p @ c_dot # ?ds) (dropWhile is_digit r))"
      using True Cons
      by (cases r) (auto simp: json_parse_fraction_def frac_value_def split: prod.splits)
    ultimately show ?thesis by auto
  next
    case False
    then show ?thesis
      using Cons
      by (auto simp: json_parse_fraction_def frac_part_def frac_value_def intro!: exI [of _ "[]"] split: list.splits)
  qed
qed (simp add: json_parse_fraction_def frac_part_def frac_value_def)

lemma json_parse_fraction_complete:
  assumes "frac_part fr" "r = [] \<or> \<not> is_digit (hd r) \<and> hd r \<noteq> c_dot"
  shows "json_parse_fraction env n (mk p (fr @ r)) = Inr (frac_value env n fr, mk (p @ fr) r)"
proof (cases "fr = []")
  case True
  with assms show ?thesis by (cases r) (auto simp: json_parse_fraction_def frac_value_def)
next
  case False
  then obtain d ds where fr: "fr = c_dot # d # ds" "is_digit d" "list_all is_digit ds"
    using assms(1) by (cases fr; cases "tl fr") (auto simp: frac_part_def digits_def)
  have "takeWhile is_digit r = []" "dropWhile is_digit r = r"
    using assms(2) by (cases r; auto)+
  with fr show ?thesis
    by (simp add: json_parse_fraction_def frac_value_def digits_while split: prod.splits)
qed

lemma exp_part_cases:
  assumes "exp_part ex" "ex \<noteq> []"
  obtains e sg d ds where "ex = e # sg @ d # ds" "e = c_e \<or> e = c_E" "sg = [] \<or> sg = [c_plus] \<or> sg = [c_minus]"
    "is_digit d" "list_all is_digit ds"
proof -
  from assms obtain e sg ds where "ex = e # sg @ ds" "e = c_e \<or> e = c_E"
    "sg = [] \<or> sg = [c_plus] \<or> sg = [c_minus]" "digits ds"
    by (auto simp: exp_part_def)
  then show thesis using that by (cases ds) (auto simp: digits_def)
qed

lemma digit_no_sign: "is_digit d \<Longrightarrow> d \<noteq> c_plus \<and> d \<noteq> c_minus"
  by auto

lemma json_parse_exponent_complete:
  assumes "exp_part ex" "r = [] \<or> \<not> is_digit (hd r) \<and> (ex = [] \<longrightarrow> hd r \<noteq> c_e \<and> hd r \<noteq> c_E)"
  shows "json_parse_exponent env n m (mk p (ex @ r)) = Inr (exp_value env n m ex, mk (p @ ex) r)"
proof (cases "ex = []")
  case True
  with assms show ?thesis by (cases m; cases r) (auto simp: json_parse_exponent_def exp_value_def)
next
  case False
  then obtain e sg d ds where ex: "ex = e # sg @ d # ds" "e = c_e \<or> e = c_E"
    "sg = [] \<or> sg = [c_plus] \<or> sg = [c_minus]" "is_digit d" "list_all is_digit ds"
    using exp_part_cases [OF assms(1)] by blast
  have r: "takeWhile is_digit r = []" "dropWhile is_digit r = r"
    using assms(2) by (cases r; auto)+
  have e: "e \<noteq> 0" using ex(2) by auto
  obtain f x where m: "m = (f, x)" by (cases m)
  from ex(3) show ?thesis
    using ex(1,2,4,5) r e digit_no_sign [OF ex(4)]
    by (elim disjE)
      (simp_all add: m json_parse_exponent_def exp_value_def exp_num_def digits_while Let_def)
qed

lemma dropWhile_hd: "dropWhile P xs = [] \<or> \<not> P (hd (dropWhile P xs))"
  by (induction xs) auto

lemma json_parse_exponent_ok:
  "res_ok (\<lambda>(m', st). \<exists>ex r. exp_part ex \<and> t = ex @ r \<and> st = mk (p @ ex) r \<and> m' = exp_value env n m ex)
     (json_parse_exponent env n m (mk p t))"
proof (cases "t \<noteq> [] \<and> (hd t = c_e \<or> hd t = c_E)")
  case False
  then show ?thesis
    using json_parse_exponent_complete [of "[]" t env n m p]
    by (cases m; cases t)
      (auto simp: json_parse_exponent_def exp_part_def exp_value_def)
next
  case True
  then obtain e u where t: "t = e # u" "e = c_e \<or> e = c_E" by (cases t) auto
  define sg where "sg = (if u \<noteq> [] \<and> hd u \<in> {c_plus, c_minus} then [hd u] else [])"
  define v where "v = drop (length sg) u"
  have u: "u = sg @ v" "sg = [] \<or> sg = [c_plus] \<or> sg = [c_minus]" "sg = [] \<Longrightarrow> v = [] \<or> hd v \<notin> {c_plus, c_minus}"
    by (cases u; auto simp: sg_def v_def)+
  show ?thesis
  proof (cases "v \<noteq> [] \<and> is_digit (hd v)")
    case d: True
    let ?ex = "e # sg @ takeWhile is_digit v" and ?r = "dropWhile is_digit v"
    have "digits (takeWhile is_digit v)" using d by (cases v) (auto simp: digits_def)
    with t(2) u(2) have "exp_part ?ex" unfolding exp_part_def by blast
    moreover have "t = ?ex @ ?r" using t u(1) by simp
    ultimately show ?thesis
      using json_parse_exponent_complete [of ?ex ?r env n m p] dropWhile_hd [of is_digit v] by auto
  next
    case no_digit: False
    obtain f x where m: "m = (f, x)" by (cases m)
    from u(2) show ?thesis
      using t u(1,3) no_digit
      by (elim disjE; cases v) (auto simp: m json_parse_exponent_def Let_def)
  qed
qed

definition num_end :: "str \<Rightarrow> bool" where
  "num_end r \<longleftrightarrow> r = [] \<or> \<not> is_digit (hd r) \<and> hd r \<notin> {c_dot, c_e, c_E}"

definition long_number :: "str \<Rightarrow> bool" where
  "long_number t \<longleftrightarrow> (\<exists>a d b. t = a @ d @ b \<and> list_all is_digit d \<and> 19 \<le> length d)"

lemma dec_less: "list_all is_digit ds \<Longrightarrow> n < k \<Longrightarrow> dec n ds < k * 10 ^ length ds"
proof (induction ds arbitrary: n k)
  case (Cons d ds)
  then have "n * 10 + digit_val d < k * 10" using digit_val_range [of d] by auto
  with Cons.IH [of "n * 10 + digit_val d" "k * 10"] Cons.prems show ?case by (simp add: mult.assoc)
qed simp

lemma dec_bound:
  assumes "list_all is_digit ds" "2 ^ 63 \<le> dec 0 ds"
  shows "19 \<le> length ds"
proof (rule ccontr)
  assume "\<not> ?thesis"
  then have "(10 :: int) ^ length ds \<le> 10 ^ 18" by (intro power_increasing) auto
  with dec_less [OF assms(1), of 0 1] assms(2) show False by simp
qed

definition lead_int :: "str \<Rightarrow> str" where
  "lead_int t = (if hd t = 0x30 then [0x30] else takeWhile is_digit t)"

lemma lead_int_part:
  assumes "t \<noteq> []" "is_digit (hd t)"
  shows "int_part (lead_int t)" "t = lead_int t @ drop (length (lead_int t)) t" "list_all is_digit (lead_int t)"
  using assms by (cases t; auto simp: lead_int_def int_part_def digits_def dropWhile_eq_drop [symmetric])+

lemma lead_int_unique:
  assumes "int_part ip" "r = [] \<or> \<not> is_digit (hd r)"
  shows "lead_int (ip @ r) = ip" "ip \<noteq> []" "is_digit (hd ip)" "list_all is_digit ip"
proof -
  have "takeWhile is_digit r = []" using assms(2) by (cases r) auto
  with assms(1) show "lead_int (ip @ r) = ip" "ip \<noteq> []" "is_digit (hd ip)" "list_all is_digit ip"
    by (cases ip; auto simp: lead_int_def int_part_def digits_def digits_while)+
qed

definition parse_sign :: "stream \<Rightarrow> (bool \<times> stream) res" where
  "parse_sign st = unwrap (stream_peek_u8 st) (\<lambda>c.
     unwrap (if c = c_minus then stream_seek st 1 else Inr st) (\<lambda>st. Inr (c = c_minus, st)))"

definition parse_int :: "stream \<Rightarrow> (int \<times> stream) res" where
  "parse_int st = unwrap (stream_peek_u8 st) (\<lambda>c.
     if \<not> is_digit c then Inl E_general
     else if c \<noteq> 0x30 then json_int_loop 0 st else unwrap (stream_seek st 1) (\<lambda>st. Inr (0, st)))"

lemma json_parse_number_eq:
  "json_parse_number env st =
     unwrap (parse_sign st) (\<lambda>(neg, st). unwrap (parse_int st) (\<lambda>(num_i, st).
       unwrap (json_parse_fraction env num_i st) (\<lambda>(num, st).
       unwrap (json_parse_exponent env num_i num st) (\<lambda>((is_float, num_f), st).
       Inr (if \<not> is_float then json_integer (num_i * (if neg then - 1 else 1))
            else json_float (f64_mul env num_f (int_to_f64 (if neg then - 1 else 1))), st)))))"
  by (auto simp: json_parse_number_def parse_sign_def parse_int_def unwrap_assoc Let_def intro!: unwrap_cong
      split: if_splits)

lemma parse_sign_mk:
  "parse_sign (mk p t) = (if t = [] then Inl E_malformed
     else if hd t = c_minus then Inr (True, mk (p @ [c_minus]) (tl t)) else Inr (False, mk p t))"
  by (cases t) (auto simp: parse_sign_def)

lemma parse_int_mk:
  "parse_int (mk p t) = (if t = [] then Inl E_malformed else if \<not> is_digit (hd t) then Inl E_general
     else if dec 0 (lead_int t) < 2 ^ 63
     then Inr (dec 0 (lead_int t), mk (p @ lead_int t) (drop (length (lead_int t)) t)) else Inl Fault)"
proof (cases t)
  case (Cons c u)
  have "dec 0 [0x30] = 0" by (simp add: digit_val_def)
  then show ?thesis
    using Cons by (simp add: parse_int_def lead_int_def json_int_loop_mk dropWhile_eq_drop)
qed (simp add: parse_int_def)

lemma json_parse_number_complete:
  assumes "number_text env n t" "num_end r"
  shows "json_parse_number env (mk p (t @ r)) = Inr (n, mk (p @ t) r)"
proof -
  from assms(1) obtain neg ip fr ex where t: "t = (if neg then [c_minus] else []) @ ip @ fr @ ex"
    and parts: "int_part ip" "frac_part fr" "exp_part ex" "dec 0 ip < 2 ^ 63"
    and n: "n = number_value env neg ip fr ex"
    by (auto simp: number_text_def)
  have ex: "ex @ r = [] \<or> \<not> is_digit (hd (ex @ r)) \<and> hd (ex @ r) \<noteq> c_dot"
    using assms(2) parts(3) by (auto simp: num_end_def exp_part_def)
  have fr: "fr @ ex @ r = [] \<or> \<not> is_digit (hd (fr @ ex @ r))"
    using ex parts(2) by (cases fr) (auto simp: frac_part_def)
  note ip = lead_int_unique [OF parts(1) fr]
  let ?q = "p @ (if neg then [c_minus] else [])"
  have sign: "parse_sign (mk p (t @ r)) = Inr (neg, mk ?q (ip @ fr @ ex @ r))"
    using ip(2,3) by (cases ip) (auto simp: t parse_sign_mk)
  have int: "parse_int (mk ?q (ip @ fr @ ex @ r)) = Inr (dec 0 ip, mk (?q @ ip) (fr @ ex @ r))"
    using ip parts(4) by (simp add: parse_int_mk)
  have frac: "json_parse_fraction env (dec 0 ip) (mk (?q @ ip) (fr @ ex @ r)) =
      Inr (frac_value env (dec 0 ip) fr, mk ((?q @ ip) @ fr) (ex @ r))"
    by (rule json_parse_fraction_complete [OF parts(2) ex])
  have exp: "json_parse_exponent env (dec 0 ip) (frac_value env (dec 0 ip) fr) (mk ((?q @ ip) @ fr) (ex @ r)) =
      Inr (exp_value env (dec 0 ip) (frac_value env (dec 0 ip) fr) ex, mk (((?q @ ip) @ fr) @ ex) r)"
    by (rule json_parse_exponent_complete [OF parts(3)]) (use assms(2) in \<open>auto simp: num_end_def\<close>)
  show ?thesis
    by (simp only: json_parse_number_eq sign int frac exp unwrap_Inr prod.case)
      (auto simp: n t number_value_def Let_def split: prod.splits)
qed

lemma json_parse_number_ok:
  "res_out (long_number t) (\<lambda>(n, st). \<exists>u r. number_text env n u \<and> t = u @ r \<and> st = mk (p @ u) r)
     (json_parse_number env (mk p t))"
proof (cases "t = []")
  case False
  define neg where "neg = (hd t = c_minus)"
  define u where "u = (if neg then tl t else t)"
  let ?sg = "if neg then [c_minus] else []"
  have t: "t = ?sg @ u" using False by (cases t) (auto simp: neg_def u_def)
  have sign: "parse_sign (mk p t) = Inr (neg, mk (p @ ?sg) u)"
    using False by (simp add: parse_sign_mk neg_def u_def)
  show ?thesis
  proof (cases "u \<noteq> [] \<and> is_digit (hd u)")
    case True
    define ip v where "ip = lead_int u" and "v = drop (length ip) u"
    have ip: "int_part ip" "u = ip @ v" "list_all is_digit ip"
      using lead_int_part [of u] True by (simp_all add: ip_def v_def)
    show ?thesis
    proof (cases "dec 0 ip < 2 ^ 63")
      case small: True
      with True have int: "parse_int (mk (p @ ?sg) u) = Inr (dec 0 ip, mk (p @ ?sg @ ip) v)"
        by (simp add: parse_int_mk ip_def v_def)
      have rest: "res_out (long_number t) (\<lambda>(n, st). \<exists>u r. number_text env n u \<and> t = u @ r \<and> st = mk (p @ u) r)
           (unwrap (json_parse_exponent env (dec 0 ip) (frac_value env (dec 0 ip) fr) (mk ((p @ ?sg @ ip) @ fr) v'))
             (\<lambda>((is_float, num_f), st).
               Inr (if \<not> is_float then json_integer (dec 0 ip * (if neg then - 1 else 1))
                    else json_float (f64_mul env num_f (int_to_f64 (if neg then - 1 else 1))), st)))"
        if fr: "frac_part fr" "v = fr @ v'" for fr v'
        proof (rule res_out_ok_bind [OF json_parse_exponent_ok])
          fix y
          assume "case y of (m', st) \<Rightarrow> \<exists>ex r. exp_part ex \<and> v' = ex @ r \<and> st = mk (((p @ ?sg @ ip) @ fr) @ ex) r \<and>
            m' = exp_value env (dec 0 ip) (frac_value env (dec 0 ip) fr) ex"
          then obtain fl x ex r where y: "y = ((fl, x), mk (((p @ ?sg @ ip) @ fr) @ ex) r)"
            and ex: "exp_part ex" "v' = ex @ r"
            and m: "(fl, x) = exp_value env (dec 0 ip) (frac_value env (dec 0 ip) fr) ex"
            by (cases y; cases "fst y") auto
          let ?n = "if \<not> fl then json_integer (dec 0 ip * (if neg then - 1 else 1))
                    else json_float (f64_mul env x (int_to_f64 (if neg then - 1 else 1)))"
          have "number_text env ?n (?sg @ ip @ fr @ ex)"
            unfolding number_text_def
            using ip(1) fr(1) ex(1) small
            by (intro exI conjI refl) (auto simp: number_value_def Let_def m [symmetric])
          moreover have "t = (?sg @ ip @ fr @ ex) @ r"
            using t ip(2) fr(2) ex(2) by simp
          ultimately have "\<exists>u r'. number_text env ?n u \<and> t = u @ r' \<and>
              mk (((p @ ?sg @ ip) @ fr) @ ex) r = mk (p @ u) r'"
            by (intro exI [of _ "?sg @ ip @ fr @ ex"] exI [of _ r]) simp
          then show "res_out (long_number t)
              (\<lambda>(n, st). \<exists>u r. number_text env n u \<and> t = u @ r \<and> st = mk (p @ u) r)
              ((\<lambda>((is_float, num_f), st).
                 Inr (if \<not> is_float then json_integer (dec 0 ip * (if neg then - 1 else 1))
                    else json_float (f64_mul env num_f (int_to_f64 (if neg then - 1 else 1))), st)) y)"
            by (simp only: y prod.case res_out_simps)
        qed
      show ?thesis
        unfolding json_parse_number_eq sign unwrap_Inr prod.case int
        by (rule res_out_ok_bind [OF json_parse_fraction_ok], elim case_prodE exE conjE)
          (simp only: prod.case rest)
    next
      case False
      with dec_bound [OF ip(3)] t ip(2,3) have "long_number t"
        unfolding long_number_def by (metis append.assoc not_less)
      with True False show ?thesis
        by (simp add: json_parse_number_eq sign parse_int_mk ip_def)
    qed
  qed (auto simp: json_parse_number_eq sign parse_int_mk)
qed (simp add: json_parse_number_eq parse_sign_mk)

section \<open>The grammar\<close>

inductive value_text :: "json_env \<Rightarrow> json_value \<Rightarrow> str \<Rightarrow> bool"
  and elements_text :: "json_env \<Rightarrow> json_value list \<Rightarrow> str \<Rightarrow> bool"
  and members_text :: "json_env \<Rightarrow> (str \<times> json_value) list \<Rightarrow> str \<Rightarrow> bool"
  for env where
  text_null: "value_text env json_type_null lit_null"
| text_true: "value_text env (json_type_boolean True) lit_true"
| text_false: "value_text env (json_type_boolean False) lit_false"
| text_string: "string_body b \<Longrightarrow> value_text env (json_type_string b) ([c_quote] @ b @ [c_quote])"
| text_number: "number_text env n t \<Longrightarrow> value_text env (json_type_number n) t"
| text_array_empty: "ws w \<Longrightarrow> value_text env (json_type_array (Some [])) ([c_lbracket] @ w @ [c_rbracket])"
| text_array: "elements_text env vs t \<Longrightarrow>
    value_text env (json_type_array (Some vs)) ([c_lbracket] @ t @ [c_rbracket])"
| text_object_empty: "ws w \<Longrightarrow> value_text env (json_type_object (Some [])) ([c_lbrace] @ w @ [c_rbrace])"
| text_object: "members_text env kvs t \<Longrightarrow>
    value_text env (json_type_object (Some kvs)) ([c_lbrace] @ t @ [c_rbrace])"
| text_element: "ws w \<Longrightarrow> value_text env v t \<Longrightarrow> ws w' \<Longrightarrow> elements_text env [v] (w @ t @ w')"
| text_elements: "ws w \<Longrightarrow> value_text env v t \<Longrightarrow> ws w' \<Longrightarrow> elements_text env vs ts \<Longrightarrow>
    elements_text env (v # vs) (w @ t @ w' @ [c_comma] @ ts)"
| text_member: "ws w \<Longrightarrow> string_body k \<Longrightarrow> ws w1 \<Longrightarrow> ws w2 \<Longrightarrow> value_text env v t \<Longrightarrow> ws w' \<Longrightarrow>
    members_text env [(k, v)] (w @ [c_quote] @ k @ [c_quote] @ w1 @ [c_colon] @ w2 @ t @ w')"
| text_members: "ws w \<Longrightarrow> string_body k \<Longrightarrow> ws w1 \<Longrightarrow> ws w2 \<Longrightarrow> value_text env v t \<Longrightarrow> ws w' \<Longrightarrow>
    members_text env kvs ts \<Longrightarrow>
    members_text env ((k, v) # kvs) (w @ [c_quote] @ k @ [c_quote] @ w1 @ [c_colon] @ w2 @ t @ w' @ [c_comma] @ ts)"

text \<open>A text: blank, or a value between white space; the reader stops at a null character.\<close>

definition at_end :: "str \<Rightarrow> bool" where
  "at_end r \<longleftrightarrow> r = [] \<or> hd r = 0"

definition document :: "json_env \<Rightarrow> json_value \<Rightarrow> str \<Rightarrow> bool" where
  "document env v s \<longleftrightarrow>
     v = json_type_invalid \<and> (\<exists>w r. ws w \<and> at_end r \<and> s = w @ r) \<or>
     (\<exists>w t w' r. ws w \<and> value_text env v t \<and> ws w' \<and> at_end r \<and> s = w @ t @ w' @ r)"

end
