(* ===== verification/Json_Sound.thy ===== *)
theory Json_Sound
  imports Json_Grammar "HOL-Library.Sublist"
begin

text \<open>
  What every run of the JSON parser does, errors included: a text that is accepted is a text of the
  grammar and the value is the one it denotes; the blocks in use are those of the value that is left
  behind; a fault happens only on the texts listed by \<open>hazard\<close>.  The three are one statement, \<open>parse_outcome\<close>,
  proved by induction on the length of the text, with one lemma per function of the parser.

  The only assumption is that a push of an entry of an object is granted, since the code does not
  look at its result.
\<close>

section \<open>Blocks of a tree\<close>

fun owned :: "json_value \<Rightarrow> int" and owned_object :: "json_object \<Rightarrow> int" and owned_array :: "json_array \<Rightarrow> int" where
  "owned (json_type_object (Some kvs)) = owned_object kvs + clear_block kvs + 1"
| "owned (json_type_array (Some vs)) = owned_array vs + clear_block vs + 1"
| "owned _ = 0"
| "owned_object [] = 0"
| "owned_object ((k, v) # kvs) = owned v + owned_object kvs"
| "owned_array [] = 0"
| "owned_array (v # vs) = owned v + owned_array vs"

lemma json_free_owned:
  "json_free_value v live = live - owned v"
  "json_free_object kvs live = live - owned_object kvs"
  "json_free_array vs live = live - owned_array vs"
  by (induction v live and kvs live and vs live rule: json_free_value_json_free_object_json_free_array.induct) simp_all

lemma owned_append [simp]:
  "owned_object (kvs @ kvs') = owned_object kvs + owned_object kvs'"
  "owned_array (vs @ vs') = owned_array vs + owned_array vs'"
  by (induction kvs, auto) (induction vs, auto)

lemma clear_block_simps [simp]:
  "clear_block [] = 0" "clear_block (x # xs) = 1" "clear_block (xs @ [x]) = 1"
  by (simp_all add: clear_block_def)

section \<open>Where the reader leaves defined behaviour\<close>

definition overread :: "str \<Rightarrow> bool" where
  "overread t \<longleftrightarrow> (\<exists>a q. t = a @ q \<and> q \<noteq> [] \<and> (strict_prefix q lit_true \<or> strict_prefix q lit_null))"

definition hazard :: "str \<Rightarrow> bool" where
  "hazard t \<longleftrightarrow> long_number t \<or> overread t"

lemma hazard_append: "hazard t \<Longrightarrow> hazard (u @ t)"
  unfolding hazard_def long_number_def overread_def by (metis append.assoc)

section \<open>Vectors under construction\<close>

definition wfv :: "'a vec \<Rightarrow> bool" where
  "wfv v \<longleftrightarrow> vec_is_valid v \<and> \<not> vfixed v \<and> (vnonnull v \<longleftrightarrow> vdata v \<noteq> []) \<and> vcap v \<le> 2 * length (vdata v) + 10"

lemma wfv_empty [simp]: "wfv vec_empty"
  by (simp add: wfv_def) (simp add: vec_empty_def)

lemma wfv_push:
  assumes "wfv v" "vec_push am v x = Inr v'"
  shows "wfv v'" "vdata v' = vdata v @ [x]" "new_block v v' = 1 - clear_block (vdata v)"
proof -
  have "vdata v' = vdata v @ [x]" "vec_is_valid v'" "\<not> vfixed v'"
    using res_okD [OF vec_push_ok assms(2)] assms(1) by (simp_all add: wfv_def)
  moreover from this have "vnonnull v'" by (auto simp: vec_is_valid_def vec_size_def split: if_splits)
  moreover have "vcap v' \<le> 2 * length (vdata v) + 12"
    using assms
    by (auto simp: wfv_def vec_push_def VEC_DEFAULT_CAPACITY_def vec_grow_capacity_def vec_size_def vec_is_valid_def
        Let_def split: if_splits intro: order_trans [OF mod_less_eq_dividend])
  ultimately show "wfv v'" "vdata v' = vdata v @ [x]" "new_block v v' = 1 - clear_block (vdata v)"
    using assms(1) by (auto simp: wfv_def new_block_def clear_block_def)
qed

lemma push_granted:
  assumes "wfv v" "\<forall>n. am n" "length (vdata v) < 2 ^ 60"
  shows "\<exists>v'. vec_push am v x = Inr v'"
proof -
  have "3 * vcap v div 2 \<le> 3 * vcap v" "vcap v \<le> 2 * length (vdata v) + 10"
    using assms(1) by (simp_all add: wfv_def)
  with assms(3) have "3 * vcap v div 2 + 1 < 2 ^ 64" by simp
  then have "vec_grow_capacity (vcap v) = 3 * vcap v div 2 + 1" by (simp add: vec_grow_capacity_def)
  then show ?thesis
    using assms(1,2) by (auto simp: vec_push_def wfv_def Let_def)
qed

lemma wfv_set_back:
  "wfv v \<Longrightarrow> vdata v \<noteq> [] \<Longrightarrow> wfv (set_back v x)"
  "vdata (set_back v x) = butlast (vdata v) @ [x]"
  by (auto simp: wfv_def set_back_def vec_is_valid_def vec_size_def split: if_splits)

section \<open>The parts of the parser\<close>

definition parse_outcome :: "bool \<Rightarrow> ('a \<Rightarrow> int) \<Rightarrow> ('a \<Rightarrow> stream \<Rightarrow> bool) \<Rightarrow> 'a json_out \<Rightarrow> bool" where
  "parse_outcome hz own Q out \<longleftrightarrow> (case out of (v, live, r) \<Rightarrow> live = own v \<and> res_out hz (Q v) r)"

lemma parse_outcome_simps [simp]: "parse_outcome hz own Q (v, live, r) \<longleftrightarrow> live = own v \<and> res_out hz (Q v) r"
  by (simp add: parse_outcome_def)

lemma parse_outcome_mono:
  "parse_outcome hz own Q out \<Longrightarrow> (hz \<Longrightarrow> hz') \<Longrightarrow> (\<And>v. own v = own' v) \<Longrightarrow> (\<And>v st. Q v st \<Longrightarrow> Q' v st) \<Longrightarrow>
   parse_outcome hz' own' Q' out"
  by (cases out) (auto intro: res_out_mono)

lemma json_try_simps [simp]:
  "json_try (Inl e) v live f = (v, live, Inl e)"
  "json_try (Inr x) v live f = f x"
  by (simp_all add: json_try_def)

lemma json_separator_ok:
  "res_ok (\<lambda>(again, st). \<exists>w r. ws w \<and> t = w @ [if again then c_comma else c] @ r \<and>
       st = mk (p @ w @ [if again then c_comma else c]) r)
     (json_separator c (mk p t))"
proof (cases "dropWhile is_ws t")
  case (Cons d r)
  define w where "w = takeWhile is_ws t"
  have t: "t = w @ d # r" using takeWhile_dropWhile_id [of is_ws t] Cons by (simp add: w_def)
  have w: "ws w" by (simp add: w_def)
  show ?thesis
    unfolding json_separator_def eat_ws_mk unwrap_Inr Cons stream_read_mk list.case prod.case w_def [symmetric]
    using t w by auto
qed (simp add: json_separator_def del: dropWhile_eq_Nil_conv)

lemma json_open_ok:
  "res_ok (\<lambda>(e, st). \<exists>w1 w2 r. ws w1 \<and> ws w2 \<and> t = w1 @ [a] @ w2 @ (if e then [c] else []) @ r \<and>
       st = mk (p @ w1 @ [a] @ w2 @ (if e then [c] else [])) r)
     (json_open a c (mk p t))"
proof (cases "dropWhile is_ws t")
  case (Cons d u)
  define w where "w = takeWhile is_ws t"
  have t: "t = w @ d # u" using takeWhile_dropWhile_id [of is_ws t] Cons by (simp add: w_def)
  have w: "ws w" by (simp add: w_def)
  define w2 where "w2 = takeWhile is_ws u"
  define r where "r = dropWhile is_ws u"
  have u: "u = w2 @ r" and w2: "ws w2" by (simp_all add: w2_def r_def)
  show ?thesis
    unfolding json_open_def eat_ws_mk unwrap_Inr Cons stream_read_mk list.case prod.case w_def [symmetric]
      w2_def [symmetric] r_def [symmetric]
    using t u w w2 by (cases r) auto
qed (simp add: json_open_def del: dropWhile_eq_Nil_conv)

lemma strncmp_eq_cases:
  "strncmp_eq t lit = (if \<exists>r. t = lit @ r then Inr True else if strict_prefix t lit then Inl Fault else Inr False)"
  by (induction t lit rule: strncmp_eq.induct) auto

lemma literal_at_mk: "literal_at (mk p t) lit = strncmp_eq t lit"
  by (simp add: literal_at_def)

definition value_read :: "json_env \<Rightarrow> str \<Rightarrow> str \<Rightarrow> json_value \<Rightarrow> stream \<Rightarrow> bool" where
  "value_read env p t v st \<longleftrightarrow> (\<exists>w x r. ws w \<and> value_text env v x \<and> t = w @ x @ r \<and> st = mk (p @ w @ x) r)"

lemma json_skip_ok:
  assumes "value_text env v lit" "t = lit @ r" "owned v = 0" "n = length lit"
  shows "parse_outcome hz (\<lambda>v. live + owned v) (value_read env p t) (json_skip v n (mk p t) live)"
proof -
  have "value_read env p t v (mk (p @ lit) r)"
    unfolding value_read_def
    by (rule exI [of _ "[]"], rule exI [of _ lit], rule exI [of _ r]) (use assms in simp)
  with assms show ?thesis by (simp add: json_skip_def stream_slice_mk)
qed

lemma json_case_string_ok:
  "parse_outcome hz (\<lambda>v. live + owned v) (value_read env p t) (json_case_string json_type_invalid (mk p t) live)"
proof -
  have "res_ok (\<lambda>(x, st). \<exists>b. x = Some b \<and> value_read env p t (json_type_string b) st)
      (json_parse_string (Some []) (mk p t))"
  proof (rule res_ok_mono [OF json_parse_string_ok], elim case_prodE exE conjE)
    fix y x st w b r
    assume a: "y = (x, st)" "ws w" "string_body b" "t = w @ [c_quote] @ b @ [c_quote] @ r"
      "st = mk (p @ w @ [c_quote] @ b @ [c_quote]) r" "x = (if b = [] then Some [] else Some b)"
    from a have "value_read env p t (json_type_string b) st"
      unfolding value_read_def
      by (intro exI [of _ w] exI [of _ "[c_quote] @ b @ [c_quote]"] exI [of _ r]) (simp add: text_string [simplified])
    with a show "case y of (x, st) \<Rightarrow> \<exists>b. x = Some b \<and> value_read env p t (json_type_string b) st"
      by auto
  qed
  then show ?thesis
    by (auto simp: json_case_string_def old_string_def split: sum.splits option.splits)
qed

lemma overreadI: "t \<noteq> [] \<Longrightarrow> strict_prefix t lit_true \<or> strict_prefix t lit_null \<Longrightarrow> hazard t"
  unfolding hazard_def overread_def by (metis append_Nil)

lemma json_case_n_ok:
  assumes "t \<noteq> []"
  shows "parse_outcome (hazard t) (\<lambda>v. live + owned v) (value_read env p t) (json_case_n json_type_invalid (mk p t) live)"
  unfolding json_case_n_def literal_at_mk strncmp_eq_cases
  using assms
  by (auto simp: json_case_string_ok lit_null_def intro: overreadI intro!: json_skip_ok text_null)

lemma json_case_f_ok:
  assumes "t \<noteq> []"
  shows "parse_outcome (hazard t) (\<lambda>v. live + owned v) (value_read env p t) (json_case_f json_type_invalid (mk p t) live)"
proof -
  have "\<not> strict_prefix t lit_false" if "5 \<le> length t"
    using that by (auto simp: lit_false_def dest: prefix_length_less)
  then show ?thesis
    unfolding json_case_f_def literal_at_mk strncmp_eq_cases
    using json_case_n_ok [OF assms]
    by (auto simp: lit_false_def intro!: json_skip_ok text_false)
qed

lemma json_case_t_ok:
  assumes "t \<noteq> []"
  shows "parse_outcome (hazard t) (\<lambda>v. live + owned v) (value_read env p t) (json_case_t json_type_invalid (mk p t) live)"
  unfolding json_case_t_def literal_at_mk strncmp_eq_cases
  using assms json_case_f_ok [OF assms]
  by (auto simp: lit_true_def intro: overreadI intro!: json_skip_ok text_true)

lemma json_case_default_ok:
  "parse_outcome (hazard t) (\<lambda>v. live + owned v) (value_read env p t) (json_case_default env (mk p t) live)"
proof -
  have "value_read env p t (json_type_number n) st"
    if "\<exists>u r. number_text env n u \<and> t = u @ r \<and> st = mk (p @ u) r" for n st
    using that text_number unfolding value_read_def by (metis append_Nil ws_simps(1))
  moreover note json_parse_number_ok [of t env p]
  ultimately show ?thesis
    by (auto simp: json_case_default_def hazard_def split: sum.splits)
qed

section \<open>Elements and members\<close>

lemma json_array_slot_ok:
  assumes "wfv arr" "json_array_slot env arr (mk p t) live = (arr', live', r)"
  shows "(\<exists>e. r = Inl e \<and> e \<noteq> Fault \<and> arr' = arr \<and> live' = live) \<or>
    (wfv arr' \<and> vdata arr' = vdata arr @ [json_type_invalid] \<and> live' = live + 1 - clear_block (vdata arr) \<and>
     r = Inr (mk (p @ takeWhile is_ws t) (dropWhile is_ws t)))"
proof (cases "vec_push (room_value env live) arr json_type_invalid")
  case (Inl e)
  moreover have "e \<noteq> Fault"
    using vec_push_ok [of arr json_type_invalid "room_value env live"] assms(1) Inl by (auto simp: wfv_def)
  ultimately show ?thesis using assms(2) by (auto simp: json_array_slot_def)
next
  case (Inr arr1)
  from wfv_push [OF assms(1) Inr] assms(2) Inr show ?thesis by (auto simp: json_array_slot_def)
qed

definition key_read :: "str \<Rightarrow> str \<Rightarrow> str \<Rightarrow> stream \<Rightarrow> bool" where
  "key_read p t k st \<longleftrightarrow> (\<exists>w w1 w2 r. ws w \<and> string_body k \<and> ws w1 \<and> ws w2 \<and>
     t = (w @ [c_quote] @ k @ [c_quote] @ w1 @ [c_colon] @ w2) @ r \<and>
     st = mk (p @ w @ [c_quote] @ k @ [c_quote] @ w1 @ [c_colon] @ w2) r)"

lemma ws_twice [simp]:
  "takeWhile is_ws (dropWhile is_ws t) = []" "dropWhile is_ws (dropWhile is_ws t) = dropWhile is_ws t"
  by (induction t) auto

lemma json_parse_key:
  "unwrap (eat_ws (mk p t)) (json_parse_string k) = json_parse_string k (mk p t)"
  by (simp add: json_parse_string_def)

definition json_colon :: "stream \<Rightarrow> stream res" where
  "json_colon st = unwrap (eat_ws st) (\<lambda>st. unwrap (stream_read_u8 st) (\<lambda>(c, st).
     if c \<noteq> c_colon then Inl E_general else eat_ws st))"

lemma json_colon_ok:
  "res_ok (\<lambda>st. \<exists>w1 w2 r. ws w1 \<and> ws w2 \<and> t = w1 @ [c_colon] @ w2 @ r \<and> st = mk (p @ w1 @ [c_colon] @ w2) r)
     (json_colon (mk p t))"
proof (cases "dropWhile is_ws t")
  case (Cons d u)
  define w where "w = takeWhile is_ws t"
  have t: "t = w @ d # u" using takeWhile_dropWhile_id [of is_ws t] Cons by (simp add: w_def)
  have w: "ws w" by (simp add: w_def)
  define w2 where "w2 = takeWhile is_ws u"
  define r where "r = dropWhile is_ws u"
  have u: "u = w2 @ r" and w2: "ws w2" by (simp_all add: w2_def r_def)
  show ?thesis
    unfolding json_colon_def eat_ws_mk unwrap_Inr Cons stream_read_mk list.case prod.case w_def [symmetric]
      w2_def [symmetric] r_def [symmetric]
    using t u w w2 by auto
qed (simp add: json_colon_def del: dropWhile_eq_Nil_conv)

lemma json_object_slot_eq:
  "json_object_slot env kvs st live =
     (let kvs' = (case vec_push (room_kv env live) kvs ([], json_type_invalid) of
                    Inl e \<Rightarrow> kvs | Inr kvs' \<Rightarrow> kvs');
          live = live + new_block kvs kvs' in
      json_try (vec_back kvs') kvs' live (\<lambda>(k, v).
      json_try (unwrap (eat_ws st) (json_parse_string (Some k))) kvs' live (\<lambda>(k', st).
        (set_back kvs' (the k', v), live, json_colon st))))"
proof -
  have "json_try (unwrap (eat_ws st) stream_read_u8) v l (\<lambda>(colon, st).
          if colon \<noteq> c_colon then (v, l, Inl E_general) else (v, l, eat_ws st)) = (v, l, json_colon st)"
    for st and v :: "json_kv vec" and l
    by (cases "eat_ws st")
      (auto simp: json_colon_def json_try_def unwrap_def split: sum.splits)
  then show ?thesis by (simp add: json_object_slot_def Let_def)
qed

text \<open>When the push succeeds: an entry is appended, with its key unless the key could not be read.\<close>

lemma json_object_slot_ok:
  assumes "wfv kvs" "\<forall>l n. room_kv env l n" "length (vdata kvs) < 2 ^ 60"
    and slot: "json_object_slot env kvs (mk p t) live = (kvs', live', r)"
  shows "\<exists>k. wfv kvs' \<and> vdata kvs' = vdata kvs @ [(k, json_type_invalid)] \<and>
    live' = live + 1 - clear_block (vdata kvs) \<and> res_ok (key_read p t k) r"
proof -
  obtain kvs1 where push: "vec_push (room_kv env live) kvs ([], json_type_invalid) = Inr kvs1"
    using push_granted [OF assms(1) _ assms(3), of "room_kv env live"] assms(2) by blast
  note k1 = wfv_push [OF assms(1) push]
  have bk: "vec_back kvs1 = Inr ([], json_type_invalid)" using k1(2) by (simp add: vec_back_def)
  have back1: "wfv (set_back kvs1 (k, json_type_invalid))"
    "vdata (set_back kvs1 (k, json_type_invalid)) = vdata kvs @ [(k, json_type_invalid)]" for k
    using k1 by (simp_all add: wfv_set_back)
  note eq = slot [unfolded json_object_slot_eq push sum.case Let_def bk json_try_simps prod.case json_parse_key k1(3)]
  show ?thesis
  proof (cases "json_parse_string (Some []) (mk p t)")
    case (Inl e)
    with json_parse_string_ok [of t p "Some []"] have "e \<noteq> Fault" by auto
    with eq Inl k1 show ?thesis by (auto intro!: exI [of _ "[]"])
  next
    case (Inr y)
    with json_parse_string_ok [of t p "Some []"] obtain w b u
      where b: "ws w" "string_body b" "t = w @ [c_quote] @ b @ [c_quote] @ u"
        and y: "y = (Some b, mk (p @ w @ [c_quote] @ b @ [c_quote]) u)"
      by (cases y) (auto split: if_splits)
    have "res_ok (key_read p t b) (json_colon (mk (p @ w @ [c_quote] @ b @ [c_quote]) u))"
      by (rule res_ok_mono [OF json_colon_ok]) (use b in \<open>fastforce simp: key_read_def\<close>)
    with eq Inr y back1 [of b] show ?thesis by (auto intro!: exI [of _ b])
  qed
qed
definition elements_read :: "json_env \<Rightarrow> str \<Rightarrow> str \<Rightarrow> json_array \<Rightarrow> json_array \<Rightarrow> stream \<Rightarrow> bool" where
  "elements_read env p t old vs st \<longleftrightarrow> (\<exists>new u r. vs = old @ new \<and> elements_text env new u \<and>
     t = u @ [c_rbracket] @ r \<and> st = mk (p @ u @ [c_rbracket]) r)"

definition members_read :: "json_env \<Rightarrow> str \<Rightarrow> str \<Rightarrow> json_object \<Rightarrow> json_object \<Rightarrow> stream \<Rightarrow> bool" where
  "members_read env p t old kvs st \<longleftrightarrow> (\<exists>new u r. kvs = old @ new \<and> members_text env new u \<and>
     t = u @ [c_rbrace] @ r \<and> st = mk (p @ u @ [c_rbrace]) r)"

definition value_ok :: "json_env \<Rightarrow> nat \<Rightarrow> bool" where
  "value_ok env n \<longleftrightarrow> (\<forall>p t live. length t \<le> n \<longrightarrow> length p + length t < 2 ^ 60 \<longrightarrow>
     parse_outcome (hazard t) (\<lambda>v. live + owned v) (value_read env p t)
       (json_parse_value env json_type_invalid (mk p t) live))"

definition array_ok :: "json_env \<Rightarrow> nat \<Rightarrow> bool" where
  "array_ok env n \<longleftrightarrow> (\<forall>p t live. length t \<le> n \<longrightarrow> length p + length t < 2 ^ 60 \<longrightarrow>
     parse_outcome (hazard t) (\<lambda>vs. live + owned_array vs + clear_block vs)
       (\<lambda>vs. value_read env p t (json_type_array (Some vs))) (json_parse_array env (mk p t) live))"

definition object_ok :: "json_env \<Rightarrow> nat \<Rightarrow> bool" where
  "object_ok env n \<longleftrightarrow> (\<forall>p t live. length t \<le> n \<longrightarrow> length p + length t < 2 ^ 60 \<longrightarrow>
     parse_outcome (hazard t) (\<lambda>kvs. live + owned_object kvs + clear_block kvs)
       (\<lambda>kvs. value_read env p t (json_type_object (Some kvs))) (json_parse_object env (mk p t) live))"

definition elements_ok :: "json_env \<Rightarrow> nat \<Rightarrow> bool" where
  "elements_ok env n \<longleftrightarrow> (\<forall>p t arr live. length t \<le> n \<longrightarrow> length p + length t < 2 ^ 60 \<longrightarrow> wfv arr \<longrightarrow>
     parse_outcome (hazard t)
       (\<lambda>vs. live + owned_array vs + clear_block vs - owned_array (vdata arr) - clear_block (vdata arr))
       (elements_read env p t (vdata arr)) (json_array_loop env arr (mk p t) live))"

definition members_ok :: "json_env \<Rightarrow> nat \<Rightarrow> bool" where
  "members_ok env n \<longleftrightarrow> (\<forall>p t kvs live. length t \<le> n \<longrightarrow> length p + length t < 2 ^ 60 \<longrightarrow> wfv kvs \<longrightarrow>
     length (vdata kvs) \<le> length p \<longrightarrow>
     parse_outcome (hazard t)
       (\<lambda>vs. live + owned_object vs + clear_block vs - owned_object (vdata kvs) - clear_block (vdata kvs))
       (members_read env p t (vdata kvs)) (json_object_loop env kvs (mk p t) live))"

lemma elements_leading_ws: "elements_text env vs u \<Longrightarrow> ws w \<Longrightarrow> elements_text env vs (w @ u)"
  by (cases rule: elements_text.cases, assumption)
    (auto simp: ws_def intro: text_element [of "w @ _", simplified] text_elements [of "w @ _", simplified])

lemma members_leading_ws: "members_text env kvs u \<Longrightarrow> ws w \<Longrightarrow> members_text env kvs (w @ u)"
  by (cases rule: members_text.cases, assumption)
    (auto simp: ws_def intro: text_member [of "w @ _", simplified] text_members [of "w @ _", simplified])

lemma value_okD:
  "value_ok env n \<Longrightarrow> length t \<le> n \<Longrightarrow> length p + length t < 2 ^ 60 \<Longrightarrow>
   parse_outcome (hazard t) (\<lambda>v. live + owned v) (value_read env p t)
       (json_parse_value env json_type_invalid (mk p t) live)"
  by (simp add: value_ok_def)

lemma elements_okD:
  "elements_ok env n \<Longrightarrow> length t \<le> n \<Longrightarrow> length p + length t < 2 ^ 60 \<Longrightarrow> wfv arr \<Longrightarrow>
   parse_outcome (hazard t)
     (\<lambda>vs. live + owned_array vs + clear_block vs - owned_array (vdata arr) - clear_block (vdata arr))
     (elements_read env p t (vdata arr)) (json_array_loop env arr (mk p t) live)"
  by (simp add: elements_ok_def)

lemma members_okD:
  "members_ok env n \<Longrightarrow> length t \<le> n \<Longrightarrow> length p + length t < 2 ^ 60 \<Longrightarrow> wfv kvs \<Longrightarrow>
   length (vdata kvs) \<le> length p \<Longrightarrow>
   parse_outcome (hazard t)
     (\<lambda>vs. live + owned_object vs + clear_block vs - owned_object (vdata kvs) - clear_block (vdata kvs))
     (members_read env p t (vdata kvs)) (json_object_loop env kvs (mk p t) live)"
  by (simp add: members_ok_def)

lemma array_step:
  assumes ih: "\<And>m. m < n \<Longrightarrow> elements_ok env m"
  shows "array_ok env n"
  unfolding array_ok_def
proof (intro allI impI)
  fix p t :: str and live
  assume len: "length t \<le> n" "length p + length t < 2 ^ 60"
  show "parse_outcome (hazard t) (\<lambda>vs. live + owned_array vs + clear_block vs)
      (\<lambda>vs. value_read env p t (json_type_array (Some vs))) (json_parse_array env (mk p t) live)"
  proof (cases "json_open c_lbracket c_rbracket (mk p t)")
    case (Inl e)
    with json_open_ok [of t c_lbracket c_rbracket p] show ?thesis by (simp add: json_parse_array.simps)
  next
    case (Inr y)
    with json_open_ok [of t c_lbracket c_rbracket p] obtain e w1 w2 r where y: "ws w1" "ws w2"
        "t = w1 @ [c_lbracket] @ w2 @ (if e then [c_rbracket] else []) @ r"
        "y = (e, mk (p @ w1 @ [c_lbracket] @ w2 @ (if e then [c_rbracket] else [])) r)"
      by (cases y) auto
    show ?thesis
    proof (cases e)
      case True
      have "value_read env p t (json_type_array (Some [])) (mk (p @ w1 @ [c_lbracket] @ w2 @ [c_rbracket]) r)"
        unfolding value_read_def
        by (rule exI [of _ w1], rule exI [of _ "[c_lbracket] @ w2 @ [c_rbracket]"], rule exI [of _ r])
          (use y True text_array_empty in simp)
      with Inr y(4) True show ?thesis by (simp add: json_parse_array.simps)
    next
      case False
      let ?p = "p @ w1 @ [c_lbracket] @ w2"
      have "parse_outcome (hazard r) (\<lambda>vs. live + owned_array vs + clear_block vs - owned_array (vdata (vec_empty :: json_value vec)) - clear_block (vdata (vec_empty :: json_value vec)))
          (elements_read env ?p r (vdata vec_empty)) (json_array_loop env vec_empty (mk ?p r) live)"
        by (rule elements_okD [OF ih [of "length r"]]) (use len y False in simp_all)
      moreover have "value_read env p t (json_type_array (Some vs)) st"
        if "elements_read env ?p r (vdata vec_empty) vs st" for vs st
      proof -
        from that obtain u r' where u: "elements_text env vs u" "r = u @ [c_rbracket] @ r'"
          "st = mk (?p @ u @ [c_rbracket]) r'" by (auto simp: elements_read_def)
        show ?thesis
          unfolding value_read_def
          by (rule exI [of _ w1], rule exI [of _ "[c_lbracket] @ (w2 @ u) @ [c_rbracket]"], rule exI [of _ r'])
            (use y False u text_array [OF elements_leading_ws [OF u(1) y(2)]] in simp)
      qed
      ultimately show ?thesis
        using Inr y False
        by (auto simp: json_parse_array.simps intro: hazard_append [of r "w1 @ c_lbracket # w2", simplified]
            elim!: parse_outcome_mono)
    qed
  qed
qed
lemma object_step:
  assumes ih: "\<And>m. m < n \<Longrightarrow> members_ok env m"
  shows "object_ok env n"
  unfolding object_ok_def
proof (intro allI impI)
  fix p t :: str and live
  assume len: "length t \<le> n" "length p + length t < 2 ^ 60"
  show "parse_outcome (hazard t) (\<lambda>kvs. live + owned_object kvs + clear_block kvs)
      (\<lambda>kvs. value_read env p t (json_type_object (Some kvs))) (json_parse_object env (mk p t) live)"
  proof (cases "json_open c_lbrace c_rbrace (mk p t)")
    case (Inl e)
    with json_open_ok [of t c_lbrace c_rbrace p] show ?thesis by (simp add: json_parse_object.simps)
  next
    case (Inr y)
    with json_open_ok [of t c_lbrace c_rbrace p] obtain e w1 w2 r where y: "ws w1" "ws w2"
        "t = w1 @ [c_lbrace] @ w2 @ (if e then [c_rbrace] else []) @ r"
        "y = (e, mk (p @ w1 @ [c_lbrace] @ w2 @ (if e then [c_rbrace] else [])) r)"
      by (cases y) auto
    show ?thesis
    proof (cases e)
      case True
      have "value_read env p t (json_type_object (Some [])) (mk (p @ w1 @ [c_lbrace] @ w2 @ [c_rbrace]) r)"
        unfolding value_read_def
        by (rule exI [of _ w1], rule exI [of _ "[c_lbrace] @ w2 @ [c_rbrace]"], rule exI [of _ r])
          (use y True text_object_empty in simp)
      with Inr y(4) True show ?thesis by (simp add: json_parse_object.simps)
    next
      case False
      let ?p = "p @ w1 @ [c_lbrace] @ w2"
      have "parse_outcome (hazard r) (\<lambda>kvs. live + owned_object kvs + clear_block kvs - owned_object (vdata (vec_empty :: json_kv vec)) - clear_block (vdata (vec_empty :: json_kv vec)))
          (members_read env ?p r (vdata vec_empty)) (json_object_loop env vec_empty (mk ?p r) live)"
        by (rule members_okD [OF ih [of "length r"]]) (use len y False in simp_all)
      moreover have "value_read env p t (json_type_object (Some kvs)) st"
        if "members_read env ?p r (vdata vec_empty) kvs st" for kvs st
      proof -
        from that obtain u r' where u: "members_text env kvs u" "r = u @ [c_rbrace] @ r'"
          "st = mk (?p @ u @ [c_rbrace]) r'" by (auto simp: members_read_def)
        show ?thesis
          unfolding value_read_def
          by (rule exI [of _ w1], rule exI [of _ "[c_lbrace] @ (w2 @ u) @ [c_rbrace]"], rule exI [of _ r'])
            (use y False u text_object [OF members_leading_ws [OF u(1) y(2)]] in simp)
      qed
      ultimately show ?thesis
        using Inr y False
        by (auto simp: json_parse_object.simps intro: hazard_append [of r "w1 @ c_lbrace # w2", simplified]
            elim!: parse_outcome_mono)
    qed
  qed
qed
lemma value_step:
  assumes "array_ok env n" "object_ok env n"
  shows "value_ok env n"
  unfolding value_ok_def
proof (intro allI impI)
  fix p t :: str and live
  assume len: "length t \<le> n" "length p + length t < 2 ^ 60"
  define w u where "w = takeWhile is_ws t" and "u = dropWhile is_ws t"
  have t: "t = w @ u" and w: "ws w" by (simp_all add: w_def u_def)
  have lift: "parse_outcome (hazard t) (\<lambda>v. live + owned v) (value_read env p t) out"
    if "parse_outcome (hazard u) (\<lambda>v. live + owned v) (value_read env (p @ w) u) out" for out
    using that
  proof (rule parse_outcome_mono)
    show "hazard u \<Longrightarrow> hazard t" by (simp add: t hazard_append)
    show "value_read env p t v st" if r: "value_read env (p @ w) u v st" for v st
    proof -
      from r obtain w' x r' where "ws w'" "value_text env v x" "u = w' @ x @ r'" "st = mk ((p @ w) @ w' @ x) r'"
        by (auto simp: value_read_def)
      then show ?thesis
        unfolding value_read_def
        by (intro exI [of _ "w @ w'"] exI [of _ x] exI [of _ r']) (use w t in \<open>simp add: ws_def\<close>)
    qed
  qed simp
  show "parse_outcome (hazard t) (\<lambda>v. live + owned v) (value_read env p t)
      (json_parse_value env json_type_invalid (mk p t) live)"
  proof (cases u)
    case Nil
    then show ?thesis
      by (simp add: json_parse_value.simps w_def [symmetric] u_def [symmetric])
  next
    case (Cons c r)
    have arr: "parse_outcome (hazard u) (\<lambda>vs. live + 1 + owned_array vs + clear_block vs)
        (\<lambda>vs. value_read env (p @ w) u (json_type_array (Some vs))) (json_parse_array env (mk (p @ w) u) (live + 1))"
      using assms(1) len unfolding array_ok_def t by simp
    have obj: "parse_outcome (hazard u) (\<lambda>kvs. live + 1 + owned_object kvs + clear_block kvs)
        (\<lambda>kvs. value_read env (p @ w) u (json_type_object (Some kvs))) (json_parse_object env (mk (p @ w) u) (live + 1))"
      using assms(2) len unfolding object_ok_def t by simp
    have u: "u \<noteq> []" using Cons by simp
    note parts = json_case_t_ok [OF u] json_case_f_ok [OF u] json_case_n_ok [OF u] json_case_string_ok json_case_default_ok
    have peek: "stream_peek_u8 (mk (p @ w) u) = Inr c" using Cons by simp
    show ?thesis
      unfolding json_parse_value.simps eat_ws_mk w_def [symmetric] u_def [symmetric] json_try_simps peek
      by (rule lift) (use arr obj in \<open>auto simp: parts split: prod.splits\<close>)
  qed
qed

lemma elements_step:
  assumes val: "value_ok env n" and ih: "\<And>m. m < n \<Longrightarrow> elements_ok env m"
  shows "elements_ok env n"
  unfolding elements_ok_def
proof (intro allI impI)
  fix p t :: str and arr live
  assume len: "length t \<le> n" "length p + length t < 2 ^ 60" and arr: "wfv (arr :: json_value vec)"
  let ?own = "\<lambda>vs. live + owned_array vs + clear_block vs - owned_array (vdata arr) - clear_block (vdata arr)"
  define w u where "w = takeWhile is_ws t" and "u = dropWhile is_ws t"
  have t: "t = w @ u" and w: "ws w" by (simp_all add: w_def u_def)
  obtain arr1 l1 r1 where slot: "json_array_slot env arr (mk p t) live = (arr1, l1, r1)" by (rule prod_cases3)
  from json_array_slot_ok [OF arr slot]
  consider (err) e where "r1 = Inl e" "e \<noteq> Fault" "arr1 = arr" "l1 = live"
    | (ok) "wfv arr1" "vdata arr1 = vdata arr @ [json_type_invalid]" "l1 = live + 1 - clear_block (vdata arr)"
        "r1 = Inr (mk (p @ w) u)"
    by (auto simp: w_def u_def)
  then show "parse_outcome (hazard t) ?own (elements_read env p t (vdata arr)) (json_array_loop env arr (mk p t) live)"
  proof cases
    case err
    then show ?thesis by (simp add: json_array_loop.simps slot)
  next
    case ok
    obtain v l2 r2 where v: "json_parse_value env json_type_invalid (mk (p @ w) u) l1 = (v, l2, r2)"
      by (rule prod_cases3)
    have l2: "l2 = l1 + owned v" and r2: "res_out (hazard u) (value_read env (p @ w) u v) r2"
      using value_okD [OF val, of u "p @ w" l1] len t v by simp_all
    let ?arr = "set_back arr1 v"
    have a2: "wfv ?arr" "vdata ?arr = vdata arr @ [v]" using ok(1,2) by (simp_all add: wfv_set_back)
    have own: "l2 = ?own (vdata ?arr)" by (simp add: a2(2) l2 ok(3))
    have eq: "json_array_loop env arr (mk p t) live =
        json_try (unwrap r2 (json_separator c_rbracket)) (vdata ?arr) l2 (\<lambda>(again, st).
          if again then json_array_loop env ?arr st l2 else (vdata ?arr, l2, Inr st))"
      unfolding json_array_loop.simps [of env arr "mk p t" live] slot prod.case ok(4) json_try_simps v Let_def
      by (rule refl)
    show ?thesis
    proof (cases "unwrap r2 (json_separator c_rbracket)")
      case (Inl e)
      have "res_out (hazard u) (\<lambda>_. True) (unwrap r2 (json_separator c_rbracket))"
      proof (rule res_out_then [OF r2])
        fix st assume "value_read env (p @ w) u v st"
        then obtain q s where "st = mk q s" by (auto simp: value_read_def)
        then show "res_out (hazard u) (\<lambda>_. True) (json_separator c_rbracket st)"
          by (auto intro: res_ok_out [OF json_separator_ok])
      qed
      then have "e = Fault \<longrightarrow> hazard t" using Inl hazard_append [of u w] t by auto
      with own show ?thesis unfolding eq Inl by simp
    next
      case (Inr y)
      then obtain st where st: "r2 = Inr st" "json_separator c_rbracket st = Inr y" by (auto simp: res_simps)
      with r2 obtain w' x r where x: "ws w'" "value_text env v x" "u = w' @ x @ r" "st = mk ((p @ w) @ w' @ x) r"
        by (auto simp: value_read_def)
      let ?q = "(p @ w) @ w' @ x"
      have "res_ok (\<lambda>(again, st). \<exists>w r'. ws w \<and> r = w @ [if again then c_comma else c_rbracket] @ r' \<and>
          st = mk (?q @ w @ [if again then c_comma else c_rbracket]) r') (json_separator c_rbracket (mk ?q r))"
        by (rule json_separator_ok)
      with st(2) x(4) obtain again w2 r' where y: "ws w2" "r = w2 @ [if again then c_comma else c_rbracket] @ r'"
          "y = (again, mk (?q @ w2 @ [if again then c_comma else c_rbracket]) r')"
        by (cases y) auto
      have ww: "ws (w @ w')" using w x(1) by (simp add: ws_def)
      note one = text_element [OF ww x(2) y(1)]
      show ?thesis
      proof (cases again)
        case False
        have "elements_read env p t (vdata arr) (vdata ?arr) (mk (?q @ w2 @ [c_rbracket]) r')"
          unfolding elements_read_def
          by (rule exI [of _ "[v]"], rule exI [of _ "(w @ w') @ x @ w2"], rule exI [of _ r'])
            (use one t x(3) y(2) False a2(2) in simp)
        with Inr y(3) False own show ?thesis by (simp add: eq)
      next
        case True
        let ?p' = "?q @ w2 @ [c_comma]"
        have "parse_outcome (hazard r') (\<lambda>vs. l2 + owned_array vs + clear_block vs - owned_array (vdata ?arr) - clear_block (vdata ?arr))
            (elements_read env ?p' r' (vdata ?arr)) (json_array_loop env ?arr (mk ?p' r') l2)"
          by (rule elements_okD [OF ih [of "length r'"] _ _ a2(1)])
            (use len t x(3) y(2) True in simp_all)
        then have "parse_outcome (hazard t) ?own (elements_read env p t (vdata arr)) (json_array_loop env ?arr (mk ?p' r') l2)"
        proof (rule parse_outcome_mono)
          show "hazard r' \<Longrightarrow> hazard t"
            using hazard_append [of r' "w @ w' @ x @ w2 @ [c_comma]"] t x(3) y(2) True by simp
          show "l2 + owned_array vs + clear_block vs - owned_array (vdata ?arr) - clear_block (vdata ?arr) = ?own vs" for vs
            using own by simp
          fix vs st assume "elements_read env ?p' r' (vdata ?arr) vs st"
          then obtain new b s where n: "vs = vdata ?arr @ new" "elements_text env new b"
            "r' = b @ [c_rbracket] @ s" "st = mk (?p' @ b @ [c_rbracket]) s" by (auto simp: elements_read_def)
          show "elements_read env p t (vdata arr) vs st"
            unfolding elements_read_def
            by (rule exI [of _ "v # new"], rule exI [of _ "(w @ w') @ x @ w2 @ [c_comma] @ b"], rule exI [of _ s])
              (use text_elements [OF ww x(2) y(1) n(2)] t x(3) y(2) True n(1,3,4) a2(2) in simp)
        qed
        with Inr y(3) True show ?thesis by (simp add: eq)
      qed
    qed
  qed
qed
lemma members_step:
  assumes val: "value_ok env n" and ih: "\<And>m. m < n \<Longrightarrow> members_ok env m"
  and room: "\<forall>l n. room_kv env l n"
  shows "members_ok env n"
  unfolding members_ok_def
proof (intro allI impI)
  fix p t :: str and kvs live
  assume len: "length t \<le> n" "length p + length t < 2 ^ 60" and kvs: "wfv (kvs :: json_kv vec)"
    and size: "length (vdata kvs) \<le> length p"
  let ?own = "\<lambda>vs. live + owned_object vs + clear_block vs - owned_object (vdata kvs) - clear_block (vdata kvs)"
  obtain kvs1 l1 r1 where slot: "json_object_slot env kvs (mk p t) live = (kvs1, l1, r1)" by (rule prod_cases3)
  have "length (vdata kvs) < 2 ^ 60" using size len by simp
  from json_object_slot_ok [OF kvs room this slot] obtain k
    where ok: "wfv kvs1" "vdata kvs1 = vdata kvs @ [(k, json_type_invalid)]"
      "l1 = live + 1 - clear_block (vdata kvs)" "res_ok (key_read p t k) r1"
    by blast
  show "parse_outcome (hazard t) ?own (members_read env p t (vdata kvs)) (json_object_loop env kvs (mk p t) live)"
  proof (cases r1)
    case (Inl e)
    with ok(2-4) show ?thesis by (simp add: json_object_loop.simps [of env kvs] slot)
  next
    case (Inr s1)
    with ok(4) obtain w0 w1 w2 u where key: "ws w0" "string_body k" "ws w1" "ws w2"
      and t': "t = (w0 @ [c_quote] @ k @ [c_quote] @ w1 @ [c_colon] @ w2) @ u"
      and s1: "s1 = mk (p @ w0 @ [c_quote] @ k @ [c_quote] @ w1 @ [c_colon] @ w2) u"
      by (auto simp: key_read_def)
    define w where "w = w0 @ [c_quote] @ k @ [c_quote] @ w1 @ [c_colon] @ w2"
    have t: "t = w @ u" and s1: "s1 = mk (p @ w) u" using t' s1 by (simp_all add: w_def)
    obtain v l2 r2 where v: "json_parse_value env json_type_invalid (mk (p @ w) u) l1 = (v, l2, r2)"
      by (rule prod_cases3)
    have l2: "l2 = l1 + owned v" and r2: "res_out (hazard u) (value_read env (p @ w) u v) r2"
      using value_okD [OF val, of u "p @ w" l1] len t v by simp_all
    let ?kvs = "set_back kvs1 (k, v)"
    have a2: "wfv ?kvs" "vdata ?kvs = vdata kvs @ [(k, v)]" using ok(1,2) by (simp_all add: wfv_set_back)
    have own: "l2 = ?own (vdata ?kvs)" by (simp add: a2(2) l2 ok(3))
    have eq: "json_object_loop env kvs (mk p t) live =
        json_try (unwrap r2 (json_separator c_rbrace)) (vdata ?kvs) l2 (\<lambda>(again, st).
          if again then json_object_loop env ?kvs st l2 else (vdata ?kvs, l2, Inr st))"
      unfolding json_object_loop.simps [of env kvs "mk p t" live] slot prod.case Inr s1 json_try_simps v Let_def ok(2) last_snoc fst_conv snd_conv
      by (rule refl)
    show ?thesis
    proof (cases "unwrap r2 (json_separator c_rbrace)")
      case (Inl e)
      have "res_out (hazard u) (\<lambda>_. True) (unwrap r2 (json_separator c_rbrace))"
      proof (rule res_out_then [OF r2])
        fix st assume "value_read env (p @ w) u v st"
        then obtain q s where "st = mk q s" by (auto simp: value_read_def)
        then show "res_out (hazard u) (\<lambda>_. True) (json_separator c_rbrace st)"
          by (auto intro: res_ok_out [OF json_separator_ok])
      qed
      then have "e = Fault \<longrightarrow> hazard t" using Inl hazard_append [of u w] t by auto
      with own show ?thesis unfolding eq Inl by simp
    next
      case (Inr y)
      then obtain st where st: "r2 = Inr st" "json_separator c_rbrace st = Inr y" by (auto simp: res_simps)
      with r2 obtain w' x r where x: "ws w'" "value_text env v x" "u = w' @ x @ r" "st = mk ((p @ w) @ w' @ x) r"
        by (auto simp: value_read_def)
      let ?q = "(p @ w) @ w' @ x"
      have "res_ok (\<lambda>(again, st). \<exists>w r'. ws w \<and> r = w @ [if again then c_comma else c_rbrace] @ r' \<and>
          st = mk (?q @ w @ [if again then c_comma else c_rbrace]) r') (json_separator c_rbrace (mk ?q r))"
        by (rule json_separator_ok)
      with st(2) x(4) obtain again w3 r' where y: "ws w3" "r = w3 @ [if again then c_comma else c_rbrace] @ r'"
          "y = (again, mk (?q @ w3 @ [if again then c_comma else c_rbrace]) r')"
        by (cases y) auto
      have ww: "ws (w2 @ w')" using key(4) x(1) by (simp add: ws_def)
      note one = text_member [OF key(1-3) ww x(2) y(1)]
      show ?thesis
      proof (cases again)
        case False
        have "members_read env p t (vdata kvs) (vdata ?kvs) (mk (?q @ w3 @ [c_rbrace]) r')"
          unfolding members_read_def
          by (rule exI [of _ "[(k, v)]"], rule exI [of _ "w @ w' @ x @ w3"], rule exI [of _ r'])
            (use one w_def t x(3) y(2) False a2(2) in simp)
        with Inr y(3) False own show ?thesis by (simp add: eq)
      next
        case True
        let ?p' = "?q @ w3 @ [c_comma]"
        have "parse_outcome (hazard r') (\<lambda>vs. l2 + owned_object vs + clear_block vs - owned_object (vdata ?kvs) - clear_block (vdata ?kvs))
            (members_read env ?p' r' (vdata ?kvs)) (json_object_loop env ?kvs (mk ?p' r') l2)"
          by (rule members_okD [OF ih [of "length r'"] _ _ a2(1)])
            (use len size t x(3) y(2) True a2(2) in simp_all)
        then have "parse_outcome (hazard t) ?own (members_read env p t (vdata kvs)) (json_object_loop env ?kvs (mk ?p' r') l2)"
        proof (rule parse_outcome_mono)
          show "hazard r' \<Longrightarrow> hazard t"
            using hazard_append [of r' "w @ w' @ x @ w3 @ [c_comma]"] t x(3) y(2) True by simp
          show "l2 + owned_object vs + clear_block vs - owned_object (vdata ?kvs) - clear_block (vdata ?kvs) = ?own vs" for vs
            using own by simp
          fix vs st assume "members_read env ?p' r' (vdata ?kvs) vs st"
          then obtain new b s where n: "vs = vdata ?kvs @ new" "members_text env new b"
            "r' = b @ [c_rbrace] @ s" "st = mk (?p' @ b @ [c_rbrace]) s" by (auto simp: members_read_def)
          show "members_read env p t (vdata kvs) vs st"
            unfolding members_read_def
            by (rule exI [of _ "(k, v) # new"], rule exI [of _ "w @ w' @ x @ w3 @ [c_comma] @ b"], rule exI [of _ s])
              (use text_members [OF key(1-3) ww x(2) y(1) n(2)] w_def t x(3) y(2) True n(1,3,4) a2(2) in simp)
        qed
        with Inr y(3) True show ?thesis by (simp add: eq)
      qed
    qed
  qed
qed

lemma parser_ok:
  assumes "\<forall>l n. room_kv env l n"
  shows "value_ok env n"
proof -
  have "value_ok env n \<and> elements_ok env n \<and> members_ok env n"
  proof (induction n rule: less_induct)
    case (less n)
    then have el: "elements_ok env m" and mem: "members_ok env m" if "m < n" for m using that by auto
    have val: "value_ok env n" by (rule value_step [OF array_step [OF el] object_step [OF mem]])
    show ?case using val elements_step [OF val el] members_step [OF val mem assms] by simp
  qed
  then show ?thesis by simp
qed

end
