(* ===== verification/Json_Complete.thy ===== *)
theory Json_Complete
  imports Json_Sound
begin

text \<open>
  Every text of the grammar is read when memory suffices, by rule induction on the grammar; the
  properties of \<open>json_parse\<close>, of \<open>json_unescape_string\<close> and of the accessors.
\<close>

section \<open>Texts of the grammar are read\<close>

definition roomy :: "json_env \<Rightarrow> bool" where
  "roomy env \<longleftrightarrow> (\<forall>l n. room_value env l n \<and> room_kv env l n \<and> room_object env l \<and> room_array env l)"

lemma num_end_simps [simp]:
  "num_end []" "num_end (c_comma # r)" "num_end (c_rbracket # r)" "num_end (c_rbrace # r)" "at_end r \<Longrightarrow> num_end r"
  by (auto simp: num_end_def is_digit_def at_end_def)

lemma num_end_ws [simp]: "ws w \<Longrightarrow> num_end r \<Longrightarrow> num_end (w @ r)"
  by (cases w) (auto simp: num_end_def ws_def is_ws_def is_digit_def)

lemma number_text_hd:
  assumes "number_text env n t"
  shows "t \<noteq> []" "hd t = c_minus \<or> is_digit (hd t)"
  using assms by (auto simp: number_text_def int_part_def digits_def neq_Nil_conv split: if_splits)

lemma value_text_hd:
  assumes "value_text env v t"
  shows "t \<noteq> [] \<and> \<not> is_ws (hd t) \<and> hd t \<noteq> c_rbracket \<and> hd t \<noteq> 0"
  using assms
proof (cases rule: value_text.cases)
  case (text_number n)
  with number_text_hd [of env n t] show ?thesis by (auto simp: is_digit_def is_ws_def)
qed (simp_all add: lit_null_def lit_true_def lit_false_def)

lemma json_separator_complete:
  "ws w \<Longrightarrow> json_separator c (mk p (w @ c_comma # r)) = Inr (True, mk (p @ w @ [c_comma]) r)"
  "ws w \<Longrightarrow> \<not> is_ws c \<Longrightarrow> c \<noteq> c_comma \<Longrightarrow> json_separator c (mk p (w @ c # r)) = Inr (False, mk (p @ w @ [c]) r)"
  by (simp_all add: json_separator_def)

lemma json_parse_value_hd:
  assumes "ws w" "\<not> is_ws c"
  shows "json_parse_value env v (mk p (w @ c # r)) live =
    (if c = c_lbrace then
       (if \<not> room_object env live then (json_type_object None, live, Inl E_general)
        else case json_parse_object env (mk (p @ w) (c # r)) (live + 1) of (kvs, live, r) \<Rightarrow>
          (json_type_object (Some kvs), live, r))
     else if c = c_lbracket then
       (if \<not> room_array env live then (json_type_array None, live, Inl E_general)
        else case json_parse_array env (mk (p @ w) (c # r)) (live + 1) of (vs, live, r) \<Rightarrow>
          (json_type_array (Some vs), live, r))
     else if c = c_t then json_case_t v (mk (p @ w) (c # r)) live
     else if c = c_f then json_case_f v (mk (p @ w) (c # r)) live
     else if c = c_n then json_case_n v (mk (p @ w) (c # r)) live
     else if c = c_quote then json_case_string v (mk (p @ w) (c # r)) live
     else json_case_default env (mk (p @ w) (c # r)) live)"
  using assms by (simp add: json_parse_value.simps)

definition reads_value :: "json_env \<Rightarrow> json_value \<Rightarrow> str \<Rightarrow> bool" where
  "reads_value env v t \<longleftrightarrow> (\<forall>p w r live. ws w \<longrightarrow> num_end r \<longrightarrow> length p + length w + length t + length r < 2 ^ 60 \<longrightarrow>
     (\<exists>l. json_parse_value env json_type_invalid (mk p (w @ t @ r)) live = (v, l, Inr (mk (p @ w @ t) r))))"

definition reads_elements :: "json_env \<Rightarrow> json_array \<Rightarrow> str \<Rightarrow> bool" where
  "reads_elements env vs t \<longleftrightarrow> (\<forall>p r arr live. wfv arr \<longrightarrow> length (vdata arr) \<le> length p \<longrightarrow>
     length p + length t + length r + 1 < 2 ^ 60 \<longrightarrow>
     (\<exists>l. json_array_loop env arr (mk p (t @ [c_rbracket] @ r)) live = (vdata arr @ vs, l, Inr (mk (p @ t @ [c_rbracket]) r))))"

definition reads_members :: "json_env \<Rightarrow> json_object \<Rightarrow> str \<Rightarrow> bool" where
  "reads_members env kvs t \<longleftrightarrow> (\<forall>p r arr live. wfv arr \<longrightarrow> length (vdata arr) \<le> length p \<longrightarrow>
     length p + length t + length r + 1 < 2 ^ 60 \<longrightarrow>
     (\<exists>l. json_object_loop env arr (mk p (t @ [c_rbrace] @ r)) live = (vdata arr @ kvs, l, Inr (mk (p @ t @ [c_rbrace]) r))))"

lemma json_skip_complete:
  "n = length lit \<Longrightarrow> json_skip v n (mk p (lit @ r)) live = (v, live, Inr (mk (p @ lit) r))"
  by (simp add: json_skip_def stream_slice_mk)

lemmas skips = json_skip_complete [of 4 lit_null, unfolded lit_null_def, simplified]
  json_skip_complete [of 4 lit_true, unfolded lit_true_def, simplified]
  json_skip_complete [of 5 lit_false, unfolded lit_false_def, simplified]

lemma reads_literals:
  "reads_value env json_type_null lit_null"
  "reads_value env (json_type_boolean True) lit_true"
  "reads_value env (json_type_boolean False) lit_false"
  unfolding reads_value_def lit_null_def lit_true_def lit_false_def
  by (auto simp: json_parse_value_hd json_case_n_def json_case_t_def json_case_f_def skips
      literal_at_mk lit_null_def lit_true_def lit_false_def)

lemma reads_string:
  assumes "string_body b"
  shows "reads_value env (json_type_string b) ([c_quote] @ b @ [c_quote])"
  unfolding reads_value_def
  using json_parse_string_complete [of "[]" b _ _ , OF _ assms]
  by (auto simp: json_parse_value_hd json_case_string_def old_string_def)

lemma reads_number:
  assumes "number_text env n t"
  shows "reads_value env (json_type_number n) t"
  unfolding reads_value_def
proof (intro allI impI)
  fix p w r :: str and live :: int
  assume w: "ws w" and r: "num_end r"
  obtain c u where t: "t = c # u" and c: "c = c_minus \<or> is_digit c"
    using number_text_hd [OF assms] by (cases t) auto
  then have "\<not> is_ws c" "c \<notin> {c_lbrace, c_lbracket, c_t, c_f, c_n, c_quote}"
    by (auto simp: is_ws_def is_digit_def)
  then show "\<exists>l. json_parse_value env json_type_invalid (mk p (w @ t @ r)) live = (json_type_number n, l, Inr (mk (p @ w @ t) r))"
    using json_parse_number_complete [OF assms r, of "p @ w"] w
    by (simp add: t json_parse_value_hd json_case_default_def)
qed


lemma json_open_empty:
  "ws w \<Longrightarrow> \<not> is_ws a \<Longrightarrow> \<not> is_ws c \<Longrightarrow> json_open a c (mk p (a # w @ c # r)) = Inr (True, mk (p @ a # w @ [c]) r)"
  by (simp add: json_open_def)

lemma json_open_content:
  "\<not> is_ws a \<Longrightarrow> dropWhile is_ws t = d # u \<Longrightarrow> d \<noteq> c \<Longrightarrow>
   json_open a c (mk p (a # t)) = Inr (False, mk (p @ a # takeWhile is_ws t) (d # u))"
  by (simp add: json_open_def)

lemma reads_array_empty:
  "roomy env \<Longrightarrow> ws w \<Longrightarrow> reads_value env (json_type_array (Some [])) ([c_lbracket] @ w @ [c_rbracket])"
  by (simp add: reads_value_def json_parse_value_hd roomy_def json_parse_array.simps json_open_empty)

lemma reads_object_empty:
  "roomy env \<Longrightarrow> ws w \<Longrightarrow> reads_value env (json_type_object (Some [])) ([c_lbrace] @ w @ [c_rbrace])"
  by (simp add: reads_value_def json_parse_value_hd roomy_def json_parse_object.simps json_open_empty)

lemma loops_skip_ws:
  assumes "ws w"
  shows "json_array_loop env arr (mk p (w @ t)) live = json_array_loop env arr (mk (p @ w) t) live"
    "json_object_loop env kvs (mk p (w @ t)) live = json_object_loop env kvs (mk (p @ w) t) live"
proof -
  have "json_array_slot env arr (mk p (w @ t)) live = json_array_slot env arr (mk (p @ w) t) live"
    "json_object_slot env kvs (mk p (w @ t)) live = json_object_slot env kvs (mk (p @ w) t) live"
    using assms by (simp_all add: json_array_slot_def json_object_slot_def)
  then show "json_array_loop env arr (mk p (w @ t)) live = json_array_loop env arr (mk (p @ w) t) live"
    "json_object_loop env kvs (mk p (w @ t)) live = json_object_loop env kvs (mk (p @ w) t) live"
    by (simp_all only: json_array_loop.simps [of env arr] json_object_loop.simps [of env kvs])
qed

lemma elements_text_hd:
  "elements_text env vs t \<Longrightarrow> \<exists>w d u. ws w \<and> t = w @ d # u \<and> \<not> is_ws d \<and> d \<noteq> c_rbracket"
proof (erule elements_text.cases)
  fix w v x w' assume "ws w" "value_text env v x" "t = w @ x @ w'"
  with value_text_hd [of env v x] show ?thesis by (cases x) auto
next
  fix w v x w' ts assume "ws w" "value_text env v x" "t = w @ x @ w' @ [c_comma] @ ts"
  with value_text_hd [of env v x] show ?thesis by (cases x) auto
qed

lemma members_text_hd: "members_text env kvs t \<Longrightarrow> \<exists>w u. ws w \<and> t = w @ c_quote # u"
  by (cases rule: members_text.cases, assumption) auto

lemma reads_array:
  assumes "roomy env" "elements_text env vs t" "reads_elements env vs t"
  shows "reads_value env (json_type_array (Some vs)) ([c_lbracket] @ t @ [c_rbracket])"
  unfolding reads_value_def
proof (intro allI impI)
  fix p w r :: str and live :: int
  assume w: "ws w" and len: "length p + length w + length ([c_lbracket] @ t @ [c_rbracket]) + length r < 2 ^ 60"
  obtain w1 d u where t: "ws w1" "t = w1 @ d # u" "\<not> is_ws d" "d \<noteq> c_rbracket"
    using elements_text_hd [OF assms(2)] by blast
  let ?p = "p @ w @ [c_lbracket]"
  obtain l where l: "json_array_loop env vec_empty (mk ?p (t @ [c_rbracket] @ r)) (live + 1) =
      (vs, l, Inr (mk (?p @ t @ [c_rbracket]) r))"
    using assms(3) [unfolded reads_elements_def, rule_format, of vec_empty ?p r "live + 1"] len by auto
  have "json_open c_lbracket c_rbracket (mk (p @ w) (c_lbracket # t @ c_rbracket # r)) =
      Inr (False, mk (?p @ w1) (d # u @ c_rbracket # r))"
    using t by (simp add: json_open_def)
  then have "json_parse_array env (mk (p @ w) (c_lbracket # t @ c_rbracket # r)) (live + 1) =
      json_array_loop env vec_empty (mk (?p @ w1) (d # u @ c_rbracket # r)) (live + 1)"
    by (simp add: json_parse_array.simps)
  also have "\<dots> = (vs, l, Inr (mk (?p @ t @ [c_rbracket]) r))"
    using l loops_skip_ws(1) [OF t(1), of env vec_empty ?p "d # u @ c_rbracket # r" "live + 1"] t(2) by simp
  finally show "\<exists>l. json_parse_value env json_type_invalid (mk p (w @ ([c_lbracket] @ t @ [c_rbracket]) @ r)) live =
      (json_type_array (Some vs), l, Inr (mk (p @ w @ [c_lbracket] @ t @ [c_rbracket]) r))"
    using w assms(1) by (simp add: json_parse_value_hd roomy_def)
qed

lemma reads_object:
  assumes "roomy env" "members_text env kvs t" "reads_members env kvs t"
  shows "reads_value env (json_type_object (Some kvs)) ([c_lbrace] @ t @ [c_rbrace])"
  unfolding reads_value_def
proof (intro allI impI)
  fix p w r :: str and live :: int
  assume w: "ws w" and len: "length p + length w + length ([c_lbrace] @ t @ [c_rbrace]) + length r < 2 ^ 60"
  obtain w1 u where t: "ws w1" "t = w1 @ c_quote # u"
    using members_text_hd [OF assms(2)] by blast
  let ?p = "p @ w @ [c_lbrace]"
  obtain l where l: "json_object_loop env vec_empty (mk ?p (t @ [c_rbrace] @ r)) (live + 1) =
      (kvs, l, Inr (mk (?p @ t @ [c_rbrace]) r))"
    using assms(3) [unfolded reads_members_def, rule_format, of vec_empty ?p r "live + 1"] len by auto
  have "json_open c_lbrace c_rbrace (mk (p @ w) (c_lbrace # t @ c_rbrace # r)) =
      Inr (False, mk (?p @ w1) (c_quote # u @ c_rbrace # r))"
    using t by (simp add: json_open_def)
  then have "json_parse_object env (mk (p @ w) (c_lbrace # t @ c_rbrace # r)) (live + 1) =
      json_object_loop env vec_empty (mk (?p @ w1) (c_quote # u @ c_rbrace # r)) (live + 1)"
    by (simp add: json_parse_object.simps)
  also have "\<dots> = (kvs, l, Inr (mk (?p @ t @ [c_rbrace]) r))"
    using l loops_skip_ws(2) [OF t(1), of env vec_empty ?p "c_quote # u @ c_rbrace # r" "live + 1"] t(2) by simp
  finally show "\<exists>l. json_parse_value env json_type_invalid (mk p (w @ ([c_lbrace] @ t @ [c_rbrace]) @ r)) live =
      (json_type_object (Some kvs), l, Inr (mk (p @ w @ [c_lbrace] @ t @ [c_rbrace]) r))"
    using w assms(1) by (simp add: json_parse_value_hd roomy_def)
qed

text \<open>One round of a loop on the text of an element.\<close>

lemma array_round:
  assumes room: "roomy env" and v: "reads_value env v x" "value_text env v x"
    and ws: "ws w" "ws w'" and arr: "wfv arr" "length (vdata arr) \<le> length p"
    and len: "length p + length (w @ x @ w') + length r < 2 ^ 60"
    and sep: "json_separator c_rbracket (mk (p @ w @ x) (w' @ r)) = Inr (again, st)" and r: "num_end r"
  shows "\<exists>arr' l. wfv arr' \<and> vdata arr' = vdata arr @ [v] \<and>
    json_array_loop env arr (mk p (w @ x @ w' @ r)) live =
      (if again then json_array_loop env arr' st l else (vdata arr', l, Inr st))"
proof -
  have "\<exists>arr1. vec_push (room_value env live) arr json_type_invalid = Inr arr1"
    by (rule push_granted [OF arr(1)]) (use room arr(2) len in \<open>auto simp: roomy_def\<close>)
  then obtain arr1 where push: "vec_push (room_value env live) arr json_type_invalid = Inr arr1" by blast
  note a1 = wfv_push [OF arr(1) push]
  have "takeWhile is_ws (x @ w' @ r) = []" "dropWhile is_ws (x @ w' @ r) = x @ w' @ r"
    using value_text_hd [OF v(2)] by (cases x; auto)+
  then have slot: "json_array_slot env arr (mk p (w @ x @ w' @ r)) live =
      (arr1, live + new_block arr arr1, Inr (mk (p @ w) (x @ w' @ r)))"
    using ws(1) push by (simp add: json_array_slot_def)
  obtain l where l: "json_parse_value env json_type_invalid (mk (p @ w) ([] @ x @ w' @ r)) (live + new_block arr arr1) =
      (v, l, Inr (mk ((p @ w) @ [] @ x) (w' @ r)))"
    using v(1) [unfolded reads_value_def, rule_format, of "[]" "w' @ r" "p @ w" "live + new_block arr arr1"] ws(2) r len
    by auto
  have "wfv (set_back arr1 v)" "vdata (set_back arr1 v) = vdata arr @ [v]"
    using a1 by (simp_all add: wfv_set_back)
  moreover have "json_array_loop env arr (mk p (w @ x @ w' @ r)) live =
      (if again then json_array_loop env (set_back arr1 v) st l else (vdata (set_back arr1 v), l, Inr st))"
    unfolding json_array_loop.simps [of env arr] slot prod.case json_try_simps
    using l sep by (simp add: Let_def)
  ultimately show ?thesis by blast
qed

lemma object_round:
  assumes room: "roomy env" and v: "reads_value env v x" "value_text env v x"
    and ws: "ws w" "ws w1" "ws w2" "ws w'" and k: "string_body k"
    and kvs: "wfv kvs" "length (vdata kvs) \<le> length p"
    and key: "key = w @ [c_quote] @ k @ [c_quote] @ w1 @ [c_colon] @ w2"
    and len: "length p + length (key @ x @ w') + length r < 2 ^ 60"
    and sep: "json_separator c_rbrace (mk (p @ key @ x) (w' @ r)) = Inr (again, st)" and r: "num_end r"
  shows "\<exists>kvs' l. wfv kvs' \<and> vdata kvs' = vdata kvs @ [(k, v)] \<and>
    json_object_loop env kvs (mk p (key @ x @ w' @ r)) live =
      (if again then json_object_loop env kvs' st l else (vdata kvs', l, Inr st))"
proof -
  have "\<exists>kvs1. vec_push (room_kv env live) kvs ([], json_type_invalid) = Inr kvs1"
    by (rule push_granted [OF kvs(1)]) (use room kvs(2) len in \<open>auto simp: roomy_def\<close>)
  then obtain kvs1 where push: "vec_push (room_kv env live) kvs ([], json_type_invalid) = Inr kvs1" by blast
  note a1 = wfv_push [OF kvs(1) push]
  let ?live = "live + new_block kvs kvs1" and ?kvs = "set_back kvs1 (k, json_type_invalid)"
  have bk: "vec_back kvs1 = Inr ([], json_type_invalid)" using a1(2) by (simp add: vec_back_def)
  have no_ws: "takeWhile is_ws (x @ w' @ r) = []" "dropWhile is_ws (x @ w' @ r) = x @ w' @ r"
    using value_text_hd [OF v(2)] by (cases x; auto)+
  have string: "json_parse_string (Some []) (mk p (key @ x @ w' @ r)) =
      Inr (Some k, mk (p @ w @ [c_quote] @ k @ [c_quote]) (w1 @ [c_colon] @ w2 @ x @ w' @ r))"
    using json_parse_string_complete [OF ws(1) k, of "Some []" p "w1 @ [c_colon] @ w2 @ x @ w' @ r"] by (simp add: key)
  have colon: "json_colon (mk (p @ w @ [c_quote] @ k @ [c_quote]) (w1 @ [c_colon] @ w2 @ x @ w' @ r)) =
      Inr (mk (p @ key) (x @ w' @ r))"
    using ws no_ws by (simp add: json_colon_def key)
  have slot: "json_object_slot env kvs (mk p (key @ x @ w' @ r)) live = (?kvs, ?live, Inr (mk (p @ key) (x @ w' @ r)))"
    unfolding json_object_slot_eq push sum.case Let_def bk json_try_simps prod.case json_parse_key string colon
    by simp
  have b1: "vdata ?kvs = vdata kvs @ [(k, json_type_invalid)]" "wfv ?kvs"
    using a1 by (simp_all add: wfv_set_back)
  obtain l where l: "json_parse_value env json_type_invalid (mk (p @ key) ([] @ x @ w' @ r)) ?live =
      (v, l, Inr (mk ((p @ key) @ [] @ x) (w' @ r)))"
    using v(1) [unfolded reads_value_def, rule_format, of "[]" "w' @ r" "p @ key" ?live] ws(4) r len by auto
  have "wfv (set_back ?kvs (k, v))" "vdata (set_back ?kvs (k, v)) = vdata kvs @ [(k, v)]"
    using b1 by (simp_all add: wfv_set_back)
  moreover have "json_object_loop env kvs (mk p (key @ x @ w' @ r)) live =
      (if again then json_object_loop env (set_back ?kvs (k, v)) st l else (vdata (set_back ?kvs (k, v)), l, Inr st))"
    unfolding json_object_loop.simps [of env kvs] slot prod.case json_try_simps b1(1) last_snoc fst_conv snd_conv
    using l sep by (simp add: Let_def)
  ultimately show ?thesis by blast
qed

lemma reads_elements_one:
  assumes "roomy env" "reads_value env v x" "value_text env v x" "ws w" "ws w'"
  shows "reads_elements env [v] (w @ x @ w')"
  unfolding reads_elements_def
proof (intro allI impI)
  fix p r :: str and arr and live :: int
  assume a: "wfv (arr :: json_value vec)" "length (vdata arr) \<le> length p"
    and len: "length p + length (w @ x @ w') + length r + 1 < 2 ^ 60"
  have sep: "json_separator c_rbracket (mk (p @ w @ x) (w' @ c_rbracket # r)) = Inr (False, mk ((p @ w @ x) @ w' @ [c_rbracket]) r)"
    using assms(5) by (simp add: json_separator_complete)
  show "\<exists>l. json_array_loop env arr (mk p ((w @ x @ w') @ [c_rbracket] @ r)) live =
      (vdata arr @ [v], l, Inr (mk (p @ (w @ x @ w') @ [c_rbracket]) r))"
    using array_round [OF assms a _ sep, of live] len by auto
qed

lemma reads_elements_more:
  assumes "roomy env" "reads_value env v x" "value_text env v x" "ws w" "ws w'" "reads_elements env vs ts"
  shows "reads_elements env (v # vs) (w @ x @ w' @ [c_comma] @ ts)"
  unfolding reads_elements_def
proof (intro allI impI)
  fix p r :: str and arr and live :: int
  assume a: "wfv (arr :: json_value vec)" "length (vdata arr) \<le> length p"
    and len: "length p + length (w @ x @ w' @ [c_comma] @ ts) + length r + 1 < 2 ^ 60"
  let ?q = "p @ w @ x @ w' @ [c_comma]" and ?r = "ts @ [c_rbracket] @ r"
  have sep: "json_separator c_rbracket (mk (p @ w @ x) (w' @ c_comma # ?r)) = Inr (True, mk ?q ?r)"
    using assms(5) by (simp add: json_separator_complete)
  obtain arr' l where a': "wfv arr'" "vdata arr' = vdata arr @ [v]"
    "json_array_loop env arr (mk p (w @ x @ w' @ c_comma # ?r)) live = json_array_loop env arr' (mk ?q ?r) l"
    using array_round [OF assms(1-5) a _ sep, of live] len by auto
  obtain l' where "json_array_loop env arr' (mk ?q ?r) l = (vdata arr' @ vs, l', Inr (mk (?q @ ts @ [c_rbracket]) r))"
    using assms(6) [unfolded reads_elements_def, rule_format, of arr' ?q r l] a'(1,2) a(2) len by auto
  with a' show "\<exists>l. json_array_loop env arr (mk p ((w @ x @ w' @ [c_comma] @ ts) @ [c_rbracket] @ r)) live =
      (vdata arr @ v # vs, l, Inr (mk (p @ (w @ x @ w' @ [c_comma] @ ts) @ [c_rbracket]) r))"
    by simp
qed

lemma reads_members_one:
  assumes "roomy env" "reads_value env v x" "value_text env v x" "ws w" "ws w1" "ws w2" "ws w'" "string_body k"
  shows "reads_members env [(k, v)] (w @ [c_quote] @ k @ [c_quote] @ w1 @ [c_colon] @ w2 @ x @ w')"
  unfolding reads_members_def
proof (intro allI impI)
  fix p r :: str and kvs and live :: int
  assume a: "wfv (kvs :: json_kv vec)" "length (vdata kvs) \<le> length p"
    and len: "length p + length (w @ [c_quote] @ k @ [c_quote] @ w1 @ [c_colon] @ w2 @ x @ w') + length r + 1 < 2 ^ 60"
  define key where "key = w @ [c_quote] @ k @ [c_quote] @ w1 @ [c_colon] @ w2"
  have sep: "json_separator c_rbrace (mk (p @ key @ x) (w' @ c_rbrace # r)) = Inr (False, mk ((p @ key @ x) @ w' @ [c_rbrace]) r)"
    using assms(7) by (simp add: json_separator_complete)
  have len': "length p + length (key @ x @ w') + length (c_rbrace # r) < 2 ^ 60"
    using len by (simp add: key_def)
  obtain kvs' l where "json_object_loop env kvs (mk p (key @ x @ w' @ c_rbrace # r)) live =
      (vdata kvs @ [(k, v)], l, Inr (mk ((p @ key @ x) @ w' @ [c_rbrace]) r))"
    using object_round [OF assms a key_def len' sep, of live] by auto
  then show "\<exists>l. json_object_loop env kvs
      (mk p ((w @ [c_quote] @ k @ [c_quote] @ w1 @ [c_colon] @ w2 @ x @ w') @ [c_rbrace] @ r)) live =
      (vdata kvs @ [(k, v)], l, Inr (mk (p @ (w @ [c_quote] @ k @ [c_quote] @ w1 @ [c_colon] @ w2 @ x @ w') @ [c_rbrace]) r))"
    by (simp add: key_def)
qed

lemma reads_members_more:
  assumes "roomy env" "reads_value env v x" "value_text env v x" "ws w" "ws w1" "ws w2" "ws w'" "string_body k"
    and more: "reads_members env kvs ts"
  shows "reads_members env ((k, v) # kvs) (w @ [c_quote] @ k @ [c_quote] @ w1 @ [c_colon] @ w2 @ x @ w' @ [c_comma] @ ts)"
  unfolding reads_members_def
proof (intro allI impI)
  fix p r :: str and arr and live :: int
  assume a: "wfv (arr :: json_kv vec)" "length (vdata arr) \<le> length p"
    and len: "length p + length (w @ [c_quote] @ k @ [c_quote] @ w1 @ [c_colon] @ w2 @ x @ w' @ [c_comma] @ ts) + length r + 1 < 2 ^ 60"
  define key where "key = w @ [c_quote] @ k @ [c_quote] @ w1 @ [c_colon] @ w2"
  let ?q = "p @ key @ x @ w' @ [c_comma]" and ?r = "ts @ [c_rbrace] @ r"
  have sep: "json_separator c_rbrace (mk (p @ key @ x) (w' @ c_comma # ?r)) = Inr (True, mk ?q ?r)"
    using assms(7) by (simp add: json_separator_complete)
  have len': "length p + length (key @ x @ w') + length (c_comma # ?r) < 2 ^ 60"
    using len by (simp add: key_def)
  obtain arr' l where a': "wfv arr'" "vdata arr' = vdata arr @ [(k, v)]"
    "json_object_loop env arr (mk p (key @ x @ w' @ c_comma # ?r)) live = json_object_loop env arr' (mk ?q ?r) l"
    using object_round [OF assms(1-8) a key_def len' sep, of live] by auto
  obtain l' where "json_object_loop env arr' (mk ?q ?r) l = (vdata arr' @ kvs, l', Inr (mk (?q @ ts @ [c_rbrace]) r))"
    using more [unfolded reads_members_def, rule_format, of arr' ?q r l] a'(1,2) a(2) len' by auto
  with a' show "\<exists>l. json_object_loop env arr
      (mk p ((w @ [c_quote] @ k @ [c_quote] @ w1 @ [c_colon] @ w2 @ x @ w' @ [c_comma] @ ts) @ [c_rbrace] @ r)) live =
      (vdata arr @ (k, v) # kvs, l,
       Inr (mk (p @ (w @ [c_quote] @ k @ [c_quote] @ w1 @ [c_colon] @ w2 @ x @ w' @ [c_comma] @ ts) @ [c_rbrace]) r))"
    by (simp add: key_def)
qed

lemma grammar_read:
  assumes "roomy env"
  shows "value_text env v t \<Longrightarrow> reads_value env v t"
    and "elements_text env vs t \<Longrightarrow> reads_elements env vs t"
    and "members_text env kvs t \<Longrightarrow> reads_members env kvs t"
proof (induction rule: value_text_elements_text_members_text.inducts)
qed (blast intro: reads_literals reads_string reads_number reads_array_empty [OF assms] reads_array [OF assms]
      reads_object_empty [OF assms] reads_object [OF assms] reads_elements_one [OF assms] reads_elements_more [OF assms]
      reads_members_one [OF assms] reads_members_more [OF assms])+

section \<open>Documents\<close>

lemma json_parse_mk:
  "json_parse env s live =
     (if at_end (dropWhile is_ws s) then (live, Inr json_type_invalid)
      else case json_parse_value env json_type_invalid (mk (takeWhile is_ws s) (dropWhile is_ws s)) live of
        (value, live, r) \<Rightarrow>
          (case unwrap r (\<lambda>st. unwrap (eat_ws st) stream_ended) of
             Inl e \<Rightarrow> (json_free_value value live, Inl e)
           | Inr ended \<Rightarrow> if ended then (live, Inr value) else (json_free_value value live, Inl E_general)))"
  by (simp add: json_parse_def stream_from_mk str_is_null_def at_end_def)

lemma json_parse_outcome:
  assumes "\<forall>l n. room_kv env l n" "length s < 2 ^ 60" "json_parse env s live = (l, r)"
  shows "(\<exists>e. r = Inl e \<and> l = live \<and> (e = Fault \<longrightarrow> hazard s)) \<or>
    (\<exists>v. r = Inr v \<and> l = live + owned v \<and> document env v s)"
proof (cases "at_end (dropWhile is_ws s)")
  case True
  then have "document env json_type_invalid s"
    unfolding document_def by (metis takeWhile_dropWhile_id ws_simps(2))
  with assms(3) True show ?thesis by (auto simp: json_parse_mk)
next
  case False
  define w u where "w = takeWhile is_ws s" and "u = dropWhile is_ws s"
  have s: "s = w @ u" and w: "ws w" by (simp_all add: w_def u_def)
  obtain v l1 r1 where v: "json_parse_value env json_type_invalid (mk w u) live = (v, l1, r1)" by (rule prod_cases3)
  have out: "l1 = live + owned v" "res_out (hazard u) (value_read env w u v) r1"
    using value_okD [OF parser_ok [OF assms(1), of "length u"], of u w live] assms(2) v by (simp_all add: s)
  have eq: "json_parse env s live =
      (case unwrap r1 (\<lambda>st. unwrap (eat_ws st) stream_ended) of
         Inl e \<Rightarrow> (json_free_value v l1, Inl e)
       | Inr ended \<Rightarrow> if ended then (l1, Inr v) else (json_free_value v l1, Inl E_general))"
    using False v by (simp add: json_parse_mk w_def u_def)
  show ?thesis
  proof (cases r1)
    case (Inl e)
    with assms(3) [unfolded eq] out hazard_append [of u w] show ?thesis by (auto simp: s json_free_owned)
  next
    case (Inr st)
    with out(2) obtain w1 x r2 where x: "ws w1" "value_text env v x" "u = w1 @ x @ r2" "st = mk (w @ w1 @ x) r2"
      by (auto simp: value_read_def)
    let ?w2 = "takeWhile is_ws r2" and ?r = "dropWhile is_ws r2"
    have "s = (w @ w1) @ x @ ?w2 @ ?r" "ws (w @ w1)" using s x(1,3) w by (simp_all add: ws_def)
    then have "document env v s" if "at_end ?r"
      unfolding document_def using x(2) that ws_simps(2) by blast
    with assms(3) [unfolded eq] out(1) Inr x(4) show ?thesis
      by (auto simp: json_free_owned at_end_def split: if_splits)
  qed
qed

lemma json_parse_complete:
  assumes "roomy env" "length s < 2 ^ 60" "document env v s"
  shows "\<exists>l. json_parse env s live = (l, Inr v)"
proof -
  have hd0: "dropWhile is_ws r = r" if "at_end r" for r
    using that by (cases r) (auto simp: at_end_def)
  from assms(3) consider w r where "v = json_type_invalid" "ws w" "at_end r" "s = w @ r"
    | w t w' r where "ws w" "value_text env v t" "ws w'" "at_end r" "s = w @ t @ w' @ r"
    unfolding document_def by blast
  then show ?thesis
  proof cases
    case 1
    then show ?thesis by (simp add: json_parse_mk hd0)
  next
    case 2
    note hd = value_text_hd [OF 2(2)]
    have tr: "takeWhile is_ws s = w" "dropWhile is_ws s = t @ w' @ r" "\<not> at_end (t @ w' @ r)"
      using 2 hd by (cases t; auto simp: at_end_def)+
    obtain l where l: "json_parse_value env json_type_invalid (mk w ([] @ t @ w' @ r)) live =
        (v, l, Inr (mk (w @ [] @ t) (w' @ r)))"
      using grammar_read(1) [OF assms(1) 2(2), unfolded reads_value_def, rule_format, of "[]" "w' @ r" w live]
        2 assms(2) by auto
    then show ?thesis using 2(3,4) tr(3) hd0 [OF 2(4)] hd by (simp add: json_parse_mk tr at_end_def)
  qed
qed

section \<open>Escapes\<close>

definition hex_digit :: "u8 \<Rightarrow> u8" where
  "hex_digit n = (if n < 10 then 0x30 + n else 0x61 + (n - 10))"

text \<open>A byte as itself or as an escape of four hexadecimal digits.\<close>

definition escaped :: "(u8 \<Rightarrow> bool) \<Rightarrow> u8 \<Rightarrow> str" where
  "escaped plain c = (if plain c \<and> c \<noteq> c_backslash then [c]
     else [c_backslash, c_u, 0x30, 0x30, hex_digit (c div 16), hex_digit (c mod 16)])"

definition json_escape :: "(u8 \<Rightarrow> bool) \<Rightarrow> str \<Rightarrow> str" where
  "json_escape plain s =
     concat (map (escaped plain) s)"

lemma hex_digit_value:
  assumes "n < 16"
  shows "is_hex (hex_digit n)" "hex_to_u8 (hex_digit n) = n"
proof -
  have "is_digit (hex_digit n) \<longleftrightarrow> n < 10" "\<not> n < 10 \<Longrightarrow> 0x61 \<le> hex_digit n \<and> hex_digit n \<le> 0x66"
    using assms unfolding hex_digit_def is_digit_def by (auto split: if_split; unat_arith)+
  then show "is_hex (hex_digit n)" "hex_to_u8 (hex_digit n) = n"
    by (auto simp: is_hex_def hex_to_u8_def) (simp_all add: hex_digit_def)
qed

lemma byte_less: "unat (c :: u8) < 256"
  using unsigned_less [of c] by simp

lemma unat_ucast_byte: "unat (ucast (c :: u8) :: u32) = unat c"
  using byte_less [of c] by (simp add: unsigned_ucast_eq take_bit_nat_eq_self)

lemma two_digits:
  fixes c :: u8
  shows "c div 16 < 16" "c mod 16 < 16" "(ucast (c div 16) :: u32) * 16 + ucast (c mod 16) = ucast c"
    "\<not> 0xff < (ucast c :: u32)" "ucast (ucast c :: u32) = c"
proof -
  have "unat c div 16 < 16" using byte_less [of c] by simp
  then show "c div 16 < 16" "c mod 16 < 16" "(ucast (c div 16) :: u32) * 16 + ucast (c mod 16) = ucast c"
    using byte_less [of c]
    by (simp_all add: word_less_nat_alt word_unat_eq_iff unat_word_ariths unat_div unat_mod unat_ucast_byte)
  show "\<not> 0xff < (ucast c :: u32)" using byte_less [of c] by (simp add: word_less_nat_alt unat_ucast_byte)
  show "ucast (ucast c :: u32) = c" by (simp add: word_unat_eq_iff unsigned_ucast_eq take_bit_word_eq_self)
qed

lemma json_unescape_char_escape:
  "json_unescape_char (mk p (escaped plain c @ t)) = Inr (c, mk (p @ escaped plain c) t)"
proof -
  have z: "is_hex 0x30" "hex_to_u8 0x30 = 0" by (simp_all add: is_hex_def is_digit_def hex_to_u8_def)
  show ?thesis
    using hex_digit_value [OF two_digits(1) [of c]] hex_digit_value [OF two_digits(2) [of c]] z
    by (simp add: escaped_def json_unescape_char_def for_res_4 unescape_hex_def two_digits)
qed

lemma vstr_append_c_granted:
  assumes "vstr_owned vs" "wfv (vs_v vs)" "\<forall>n. am n" "length (vs_s vs) < 2 ^ 60"
  shows "\<exists>vs'. vstr_append_c am vs c = Inr vs' \<and> vstr_owned vs' \<and> wfv (vs_v vs') \<and> vs_s vs' = vs_s vs @ [c]"
proof -
  have v: "vdata (vs_v vs) = vs_s vs" using assms(1) by (simp add: vstr_owned_def)
  obtain v' where push: "vec_push am (vs_v vs) c = Inr v'"
    using push_granted [OF assms(2,3)] assms(4) v by auto
  note p = wfv_push [OF assms(2) push]
  from p v push show ?thesis
    by (auto simp: vstr_append_c_def vstr_owned_def vec_size_def wfv_def)
qed

lemma json_unescape_loop_escape:
  assumes "\<forall>n. am n" "vstr_owned vs" "wfv (vs_v vs)" "length (vs_s vs) + length s < 2 ^ 60"
  shows "\<exists>vs'. json_unescape_loop am vs (mk p (json_escape plain s)) = Inr vs' \<and> vstr_owned vs' \<and>
    vs_s vs' = vs_s vs @ s"
  using assms(2-4)
proof (induction s arbitrary: vs p)
  case Nil
  then show ?case by (simp add: json_escape_def json_unescape_loop.simps)
next
  case (Cons c s)
  obtain vs1 where vs1: "vstr_append_c am vs c = Inr vs1" "vstr_owned vs1" "wfv (vs_v vs1)" "vs_s vs1 = vs_s vs @ [c]"
    using vstr_append_c_granted [OF Cons.prems(1,2) assms(1)] Cons.prems(3) by auto
  have e: "json_escape plain (c # s) = escaped plain c @ json_escape plain s" "escaped plain c \<noteq> []"
    by (simp_all add: json_escape_def escaped_def)
  from Cons.IH [OF vs1(2,3), of "p @ escaped plain c"] vs1 Cons.prems(3) e show ?case
    by (subst json_unescape_loop.simps) (auto simp: json_unescape_char_escape)
qed

section \<open>Access\<close>

lemma str_eq_iff: "str_eq a b \<longleftrightarrow> a = b"
  by (auto simp: str_eq_def)

lemma json_object_find_map_of:
  "json_object_find obj key =
     (if key = [] then Inl E_general else case map_of obj key of None \<Rightarrow> Inl E_general | Some v \<Rightarrow> Inr v)"
proof -
  have "json_find_loop obj key = (case map_of obj key of None \<Rightarrow> Inl E_general | Some v \<Rightarrow> Inr v)"
    by (induction obj key rule: json_find_loop.induct) (auto simp: str_eq_iff)
  then show ?thesis by (simp add: json_object_find_def str_is_null_def)
qed

section \<open>Properties\<close>




text \<open>
  C31: \<open>json_unescape_string\<close> inverts the escaping of the specification tests: any bytes, each written
  as itself or as a four-digit escape (a backslash always as an escape), are recovered.
\<close>

theorem json_unescape_roundtrip:
  assumes "\<forall>n. am n" "length s < 2 ^ 60"
  shows "\<exists>vs. json_unescape_string am (json_escape plain s) = Inr vs \<and> vstr_owned vs \<and> vs_s vs = s"
proof -
  have "wfv (vs_v VSTR_NULL)" "vs_s VSTR_NULL = []" by (simp_all add: VSTR_NULL_def)
  with json_unescape_loop_escape [OF assms(1) vstr_null_owned, of s "[]" plain] assms(2) show ?thesis
    by (simp add: json_unescape_string_def stream_from_mk)
qed

text \<open>
  C32: a getter returns the first value under a non-empty key when it has the type asked for, and an
  error of category \<open>E_general\<close> in every other case; only a tree that holds the null pointer of a failed
  allocation would fault, and \<open>json_parse\<close> returns none (it fails then).
\<close>

theorem json_getters:
  "(json_obj_get_string obj key =
     (case (if key = [] then None else map_of obj key) of Some (json_type_string x) \<Rightarrow> Inr x | _ \<Rightarrow> Inl E_general)) \<and>
   (json_obj_get_boolean obj key =
     (case (if key = [] then None else map_of obj key) of Some (json_type_boolean x) \<Rightarrow> Inr x | _ \<Rightarrow> Inl E_general)) \<and>
   (json_obj_get_i64 obj key =
     (case (if key = [] then None else map_of obj key) of
        Some (json_type_number (json_integer x)) \<Rightarrow> Inr x | _ \<Rightarrow> Inl E_general)) \<and>
   (json_obj_get_f64 obj key =
     (case (if key = [] then None else map_of obj key) of
        Some (json_type_number (json_float x)) \<Rightarrow> Inr x | _ \<Rightarrow> Inl E_general)) \<and>
   (json_obj_get_object obj key =
     (case (if key = [] then None else map_of obj key) of
        Some (json_type_object (Some x)) \<Rightarrow> Inr x | Some (json_type_object None) \<Rightarrow> Inl Fault | _ \<Rightarrow> Inl E_general)) \<and>
   (json_obj_get_array obj key =
     (case (if key = [] then None else map_of obj key) of
        Some (json_type_array (Some x)) \<Rightarrow> Inr x | Some (json_type_array None) \<Rightarrow> Inl Fault | _ \<Rightarrow> Inl E_general))"
  unfolding json_obj_get_string_def json_obj_get_boolean_def json_obj_get_i64_def json_obj_get_f64_def
    json_obj_get_number_def json_obj_get_object_def json_obj_get_array_def JSON_OBJ_GET_def
    json_val_as_string_def json_val_as_boolean_def json_val_as_number_def json_val_as_object_def
    json_val_as_array_def json_number_i64_def json_number_f64_def json_object_find_map_of str_is_null_def
  by (intro conjI; auto split: option.splits json_value.splits json_number.splits)

subsection \<open>Examples\<close>

definition demo_env :: json_env where
  "demo_env = \<lparr>room_value = \<lambda>_ _. True, room_kv = \<lambda>_ _. True, room_object = \<lambda>_. True, room_array = \<lambda>_. True,
     json_fpu = \<lparr>nan32 = \<lambda>_ _. 0x7fc00000, nan64 = \<lambda>_ _. 0x7ff8000000000000,
       nan_promote = \<lambda>_. 0x7ff8000000000000, nan_demote = \<lambda>_. 0x7fc00000\<rparr>,
     c_pow = \<lambda>x y. x\<rparr>"

lemma demo_roomy: "roomy demo_env" "\<forall>l n. room_kv demo_env l n"
  by (simp_all add: demo_env_def roomy_def)

text \<open>The text \<open>[1]\<close>\<close>

definition demo_text :: str where
  "demo_text = [0x5b, 0x31, 0x5d]"

definition demo_value :: json_value where
  "demo_value = json_type_array (Some [json_type_number (json_integer 1)])"

lemma demo_document: "document demo_env demo_value demo_text"
proof -
  have "number_text demo_env (json_integer 1) [0x31]"
    unfolding number_text_def
    by (rule exI [of _ False], rule exI [of _ "[0x31]"], rule exI [of _ "[]"], rule exI [of _ "[]"])
      (simp add: int_part_def digits_def is_digit_def frac_part_def exp_part_def digit_val_def
        number_value_def frac_value_def exp_value_def)
  from text_array [OF text_element [OF _ text_number [OF this], of "[]" "[]"]]
  have vt: "value_text demo_env demo_value demo_text" by (simp add: demo_value_def demo_text_def)
  show ?thesis
    unfolding document_def at_end_def
    by (rule disjI2, rule exI [of _ "[]"], rule exI [of _ demo_text], rule exI [of _ "[]"], rule exI [of _ "[]"]) (simp add: vt)
qed




theorem json_unescape_roundtrip_witness:
  "\<exists>vs. json_unescape_string (\<lambda>_. True) (json_escape (\<lambda>_. True) [0x5c, 0x41]) = Inr vs \<and> vstr_owned vs \<and> vs_s vs = [0x5c, 0x41]"
  by (rule json_unescape_roundtrip) simp_all

end
