(* ===== verification/Wasi.thy ===== *)
theory Wasi
  imports In_Place_Dt
begin

text \<open>
  The system interface that the runtime offers to programs (src/src/host/wasi/wasi_impl_uv.c).

  Each function of the interface unpacks its arguments, calls the function of the library uvwasi of
  the same name and stores what the library returns in the memory of the caller.  The library is
  the parameter \<open>uvwasi\<close>.  A call of the library is a value of \<open>uv_call\<close>: the name of the function
  without its prefix \<open>uvwasi_\<close>, and the arguments as the code passes them before C converts them to the types of the library, and \<open>uv_do\<close> gives the state
  of the library after the call and its \<open>uv_reply\<close>: the error number and the contents of the output
  parameters, which are arbitrary where the library leaves them unset.  The structures of the
  library have the type \<open>'s\<close>; \<open>uv_ser\<close> is the bytes that a function \<open>uvwasi_serdes_write_T\<close> stores,
  and the remaining fields are the functions that read structures from the memory.

  Memory.  \<open>pmem0\<close> is the contents of the caller's memory; the code reads its own arguments as
  signed numbers, so an address of \<open>2^31\<close> or more is an offset before the memory.
  An access outside the memory, and a pointer and a length that do not
  describe a part of it handed to the library, is \<open>Fault\<close>: the code does not check them.

  A function is an action on \<open>call_state\<close>: the state of the library, the number of heap blocks the
  function owns, the store and the cell that \<open>result\<close> points to.  It returns \<open>None\<close> for \<open>ok_r\<close> or
  an error.  The macro \<open>check_err\<close>, which returns early, is a definition that takes the rest of the
  function as its last argument, and so are the other steps.
\<close>

section \<open>The library\<close>

datatype 's uv_data =
    D_uint32 u32 | D_size u32 | D_timestamp u64 | D_filesize u64 | D_fd u32
  | D_fdstat 's | D_filestat 's | D_prestat 's

type_synonym iovec = "int \<times> nat"

datatype 's uv_arg =
    A32 u32 | A64 u64 | Bytes "u8 list" | Lengths "nat list" | Buffers "u8 list list" | Struct 's

type_synonym 's uv_call = "string \<times> 's uv_arg list"

text \<open>
  \<open>uv_size1\<close>, \<open>uv_size2\<close>, \<open>uv_num\<close> and \<open>uv_struct\<close> are output parameters; \<open>uv_bytes\<close> is what is stored in
  the buffer of the caller, \<open>uv_chunks\<close> what is stored in each buffer of a vector of buffers, \<open>uv_ptrs\<close>
  the offsets in the buffer that the array of pointers of \<open>args_get\<close> and \<open>environ_get\<close> receives.
\<close>

record 's uv_reply =
  uv_errno :: u16
  uv_size1 :: u32
  uv_size2 :: u32
  uv_num :: u64
  uv_struct :: 's
  uv_bytes :: "u8 list"
  uv_chunks :: "u8 list list"
  uv_ptrs :: "u32 list"

record uv_options =
  opt_argc :: nat
  opt_argv :: "str list"
  opt_preopenc :: nat
  opt_mapped_path :: str
  opt_real_path :: str

record ('u, 's) uvwasi =
  uv_do :: "nat \<Rightarrow> 's uv_call \<Rightarrow> 'u \<Rightarrow> 'u \<times> 's uv_reply"
  uv_ser :: "'s uv_data \<Rightarrow> u8 list"
  uv_readv_iovec :: "u8 list \<Rightarrow> nat \<Rightarrow> u64 \<Rightarrow> u32 \<Rightarrow> u16 \<times> iovec list"
  uv_readv_ciovec :: "u8 list \<Rightarrow> nat \<Rightarrow> u64 \<Rightarrow> u32 \<Rightarrow> u16 \<times> iovec list"
  uv_read_subscription :: "u8 list \<Rightarrow> u64 \<Rightarrow> 's option"
  uv_read_event :: "u8 list \<Rightarrow> u64 \<Rightarrow> 's option"
  uv_init :: "nat \<Rightarrow> uv_options \<Rightarrow> 'u \<Rightarrow> 'u \<times> u16"
  uv_destroy :: "nat \<Rightarrow> 'u \<Rightarrow> 'u"
  uv_malloc :: "u32 \<Rightarrow> bool"
  uv_grow :: "nat \<Rightarrow> bool"
  UVWASI_EINVAL :: u32

section \<open>Actions\<close>

record tr_ctx =
  ctx_f_addr :: addr
  ctx_args :: "value_u list"
  ctx_mem0 :: "addr option"

record 'u call_state =
  cs_uv :: 'u
  cs_live :: nat
  cs_vm :: vm
  cs_result :: u32

type_synonym 'u action = "'u call_state \<Rightarrow> err option \<times> 'u call_state"

definition WASI_ERRNO_OK :: u32 where
  "WASI_ERRNO_OK = 0"

definition UVWASI_ESUCCESS :: u16 where
  "UVWASI_ESUCCESS = 0"

definition ok_r :: "'u action" where
  "ok_r s = (None, s)"

definition raise :: "err \<Rightarrow> 'u action" where
  "raise e s = (Some e, s)"

definition set_result :: "u32 \<Rightarrow> 'u action \<Rightarrow> 'u action" where
  "set_result x k s = k (s\<lparr>cs_result := x\<rparr>)"

definition get_res :: "('u call_state \<Rightarrow> 'a res) \<Rightarrow> ('a \<Rightarrow> 'u action) \<Rightarrow> 'u action" where
  "get_res f k s = (case f s of Inl e \<Rightarrow> raise e s | Inr x \<Rightarrow> k x s)"

text \<open>The third argument is what the macro does before it returns.\<close>

definition check_err :: "u16 \<Rightarrow> ('u action \<Rightarrow> 'u action) \<Rightarrow> 'u action \<Rightarrow> 'u action" where
  "check_err e cleanup k = (if e \<noteq> UVWASI_ESUCCESS then set_result (ucast e) (cleanup ok_r) else k)"

definition own_block :: "'u action \<Rightarrow> 'u action" where
  "own_block k s = k (s\<lparr>cs_live := cs_live s + 1\<rparr>)"

definition free_block :: "'u action \<Rightarrow> 'u action" where
  "free_block k s = (if cs_live s = 0 then raise Fault s else k (s\<lparr>cs_live := cs_live s - 1\<rparr>))"

subsection \<open>The library context of the module\<close>

definition to_wasi :: "mods \<Rightarrow> tr_ctx \<Rightarrow> 'u call_state \<Rightarrow> nat res" where
  "to_wasi ms ctx s =
     unwrap (at_addr mi_funcs (cs_vm s) (Some (ctx_f_addr ctx))) (\<lambda>fi.
     unwrap (the_mod ms (fi_mod fi)) (\<lambda>m.
     if resource_payload m = 0 then Inl Fault else Inr (resource_payload m)))"

definition uv :: "('u, 's) uvwasi \<Rightarrow> mods \<Rightarrow> tr_ctx \<Rightarrow> 's uv_call \<Rightarrow> ('s uv_reply \<Rightarrow> 'u action) \<Rightarrow> 'u action" where
  "uv uw ms ctx c k = get_res (to_wasi ms ctx) (\<lambda>p s.
     case uv_do uw p c (cs_uv s) of (u, reply) \<Rightarrow> k reply (s\<lparr>cs_uv := u\<rparr>))"

subsection \<open>The memory of the caller\<close>

definition pmem0 :: "tr_ctx \<Rightarrow> 'u call_state \<Rightarrow> u8 list res" where
  "pmem0 ctx s = unwrap (at_addr mi_memories (cs_vm s) (ctx_mem0 ctx)) (\<lambda>x. Inr (vdata (mdata x)))"

definition in_mem :: "u8 list \<Rightarrow> int \<Rightarrow> nat \<Rightarrow> bool" where
  "in_mem bs off n \<longleftrightarrow> 0 \<le> off \<and> off + int n \<le> int (length bs)"

definition mem_span :: "tr_ctx \<Rightarrow> int \<Rightarrow> nat \<Rightarrow> 'u call_state \<Rightarrow> u8 list res" where
  "mem_span ctx off n s =
     unwrap (pmem0 ctx s) (\<lambda>bs. if in_mem bs off n then Inr (take n (drop (nat off) bs)) else Inl Fault)"

definition mem_put :: "tr_ctx \<Rightarrow> int \<Rightarrow> u8 list \<Rightarrow> 'u call_state \<Rightarrow> vm res" where
  "mem_put ctx off new s =
     unwrap (at_addr mi_memories (cs_vm s) (ctx_mem0 ctx)) (\<lambda>x.
       let bs = vdata (mdata x) in
       if in_mem bs off (length new)
       then set_addr mi_memories mi_memories_update
              (x\<lparr>mdata := (mdata x)\<lparr>vdata := take (nat off) bs @ new @ drop (nat off + length new) bs\<rparr>\<rparr>)
              (cs_vm s) (ctx_mem0 ctx)
       else Inl Fault)"

definition guest_bytes :: "tr_ctx \<Rightarrow> u32 \<Rightarrow> u32 \<Rightarrow> (u8 list \<Rightarrow> 'u action) \<Rightarrow> 'u action" where
  "guest_bytes ctx off n k = get_res (mem_span ctx (sint off) (unat n)) k"

definition guest_write :: "tr_ctx \<Rightarrow> int \<Rightarrow> u8 list \<Rightarrow> 'u action \<Rightarrow> 'u action" where
  "guest_write ctx off bs k = get_res (mem_put ctx off bs) (\<lambda>w s. k (s\<lparr>cs_vm := w\<rparr>))"

text \<open>What the library stores in a buffer of \<open>n\<close> bytes, and in the buffers of a vector.\<close>

definition guest_fill :: "tr_ctx \<Rightarrow> u32 \<Rightarrow> u32 \<Rightarrow> u8 list \<Rightarrow> 'u action \<Rightarrow> 'u action" where
  "guest_fill ctx off n bs k = guest_write ctx (sint off) (take (unat n) bs) k"

fun guest_scatter :: "tr_ctx \<Rightarrow> iovec list \<Rightarrow> u8 list list \<Rightarrow> 'u action \<Rightarrow> 'u action" where
  "guest_scatter ctx ((off, n) # iov) (bs # chunks) k =
     guest_write ctx off (take n bs) (guest_scatter ctx iov chunks k)"
| "guest_scatter ctx iov chunks k = k"

fun guest_gather :: "tr_ctx \<Rightarrow> iovec list \<Rightarrow> (u8 list list \<Rightarrow> 'u action) \<Rightarrow> 'u action" where
  "guest_gather ctx [] k = k []"
| "guest_gather ctx ((off, n) # iov) k =
     get_res (mem_span ctx off n) (\<lambda>bs. guest_gather ctx iov (\<lambda>bss. k (bs # bss)))"

definition serdes_write :: "('u, 's) uvwasi \<Rightarrow> tr_ctx \<Rightarrow> u32 \<Rightarrow> 's uv_data \<Rightarrow> 'u action \<Rightarrow> 'u action" where
  "serdes_write uw ctx off d k = guest_write ctx (sint off) (uv_ser uw d) k"

text \<open>The loops that store the pointers to the arguments and to the environment.\<close>

fun write_pointers :: "('u, 's) uvwasi \<Rightarrow> tr_ctx \<Rightarrow> u32 \<Rightarrow> u32 \<Rightarrow> nat \<Rightarrow> u32 list \<Rightarrow> 'u action \<Rightarrow> 'u action" where
  "write_pointers uw ctx dst buf i [] k = k"
| "write_pointers uw ctx dst buf i (p # ps) k =
     guest_write ctx (sint dst + int i * 4) (uv_ser uw (D_uint32 (buf + p))) (write_pointers uw ctx dst buf (Suc i) ps k)"

text \<open>The vector \<open>v_argv\<close> of \<open>n\<close> pointers, which the library fills with \<open>ps\<close>.\<close>

definition resize_ptrs :: "('u, 's) uvwasi \<Rightarrow> u32 \<Rightarrow> (u32 vec \<Rightarrow> 'u action) \<Rightarrow> 'u action" where
  "resize_ptrs uw n k = get_res (\<lambda>_. vec_resize (uv_grow uw) 0 vec_empty (unat n)) (\<lambda>v. own_block (k v))"

definition fill_ptrs :: "u32 vec \<Rightarrow> u32 list \<Rightarrow> 'u action \<Rightarrow> 'u action" where
  "fill_ptrs v ps k = (if length ps = vec_size v then k else raise Fault)"

text \<open>The arrays of buffers of the functions that read and write files.\<close>

definition alloc_iovec :: "('u, 's) uvwasi \<Rightarrow> u32 \<Rightarrow> 'u action \<Rightarrow> 'u action" where
  "alloc_iovec uw iovs_len k = (if uv_malloc uw iovs_len then own_block k else raise E_general)"

definition readv ::
  "(u8 list \<Rightarrow> nat \<Rightarrow> u64 \<Rightarrow> u32 \<Rightarrow> u16 \<times> iovec list) \<Rightarrow> tr_ctx \<Rightarrow> u32 \<Rightarrow> u32 \<Rightarrow> (u16 \<Rightarrow> iovec list \<Rightarrow> 'u action) \<Rightarrow> 'u action" where
  "readv rd ctx iovs iovs_len k = get_res (pmem0 ctx) (\<lambda>bs. case rd bs (length bs) (scast iovs) iovs_len of (e, iov) \<Rightarrow> k e iov)"

definition return_ok :: "'u action" where
  "return_ok = set_result WASI_ERRNO_OK ok_r"

section \<open>Functions of the interface\<close>

type_synonym ('u, 's) wasi_env = "('u, 's) uvwasi \<times> mods \<times> tr_ctx"

definition wasi_args_get :: "('u, 's) wasi_env \<Rightarrow> u32 \<Rightarrow> u32 \<Rightarrow> 'u action" where
  "wasi_args_get = (\<lambda>(uw, ms, ctx) argv argv_buf.
     uv uw ms ctx (''args_sizes_get'', []) (\<lambda>r.
     check_err (uv_errno r) id (
     if uv_size1 r = 0 then return_ok
     else resize_ptrs uw (uv_size1 r) (\<lambda>v_argv.
       guest_bytes ctx argv_buf (uv_size2 r) (\<lambda>_.
       uv uw ms ctx (''args_get'', []) (\<lambda>r'.
       guest_fill ctx argv_buf (uv_size2 r) (uv_bytes r') (
       check_err (uv_errno r') free_block (
       fill_ptrs v_argv (uv_ptrs r') (
       write_pointers uw ctx argv argv_buf 0 (uv_ptrs r') (
       free_block return_ok))))))))))"

definition wasi_args_sizes_get :: "('u, 's) wasi_env \<Rightarrow> u32 \<Rightarrow> u32 \<Rightarrow> 'u action" where
  "wasi_args_sizes_get = (\<lambda>(uw, ms, ctx) argc bufsize.
     uv uw ms ctx (''args_sizes_get'', []) (\<lambda>r.
     check_err (uv_errno r) id (
     serdes_write uw ctx argc (D_size (uv_size1 r)) (
     serdes_write uw ctx bufsize (D_size (uv_size2 r)) return_ok))))"

definition wasi_clock_res_get :: "('u, 's) wasi_env \<Rightarrow> u32 \<Rightarrow> u32 \<Rightarrow> 'u action" where
  "wasi_clock_res_get = (\<lambda>(uw, ms, ctx) clock_id resolution.
     uv uw ms ctx (''clock_res_get'', [A32 clock_id]) (\<lambda>r.
     check_err (uv_errno r) id (
     serdes_write uw ctx resolution (D_timestamp (uv_num r)) return_ok)))"

definition wasi_clock_time_get :: "('u, 's) wasi_env \<Rightarrow> u32 \<Rightarrow> u64 \<Rightarrow> u32 \<Rightarrow> 'u action" where
  "wasi_clock_time_get = (\<lambda>(uw, ms, ctx) clock_id precision time.
     uv uw ms ctx (''clock_time_get'', [A32 clock_id, A64 precision]) (\<lambda>r.
     check_err (uv_errno r) id (
     serdes_write uw ctx time (D_timestamp (uv_num r)) return_ok)))"

definition wasi_environ_get :: "('u, 's) wasi_env \<Rightarrow> u32 \<Rightarrow> u32 \<Rightarrow> 'u action" where
  "wasi_environ_get = (\<lambda>(uw, ms, ctx) environ_at environ_buf.
     uv uw ms ctx (''environ_sizes_get'', []) (\<lambda>r.
     check_err (uv_errno r) id (
     if uv_size1 r = 0 then return_ok
     else resize_ptrs uw (uv_size1 r) (\<lambda>v_env.
       guest_bytes ctx environ_buf (uv_size2 r) (\<lambda>_.
       uv uw ms ctx (''environ_get'', []) (\<lambda>r'.
       guest_fill ctx environ_buf (uv_size2 r) (uv_bytes r') (
       check_err (uv_errno r') free_block (
       fill_ptrs v_env (uv_ptrs r') (
       write_pointers uw ctx environ_at environ_buf 0 (uv_ptrs r') (
       free_block return_ok))))))))))"

text \<open>This function leaves \<open>result\<close> as it is when it succeeds.\<close>

definition wasi_environ_sizes_get :: "('u, 's) wasi_env \<Rightarrow> u32 \<Rightarrow> u32 \<Rightarrow> 'u action" where
  "wasi_environ_sizes_get = (\<lambda>(uw, ms, ctx) environ_count environ_buf_size.
     uv uw ms ctx (''environ_sizes_get'', []) (\<lambda>r.
     check_err (uv_errno r) id (
     serdes_write uw ctx environ_count (D_size (uv_size1 r)) (
     serdes_write uw ctx environ_buf_size (D_size (uv_size2 r)) ok_r))))"

definition wasi_fd_advise :: "('u, 's) wasi_env \<Rightarrow> u32 \<Rightarrow> u64 \<Rightarrow> u64 \<Rightarrow> u32 \<Rightarrow> 'u action" where
  "wasi_fd_advise = (\<lambda>(uw, ms, ctx) fd offset len advice.
     uv uw ms ctx (''fd_advise'', [A32 fd, A64 offset, A64 len, A32 advice]) (\<lambda>r. check_err (uv_errno r) id return_ok))"

definition wasi_fd_allocate :: "('u, 's) wasi_env \<Rightarrow> u32 \<Rightarrow> u64 \<Rightarrow> u64 \<Rightarrow> 'u action" where
  "wasi_fd_allocate = (\<lambda>(uw, ms, ctx) fd offset len.
     uv uw ms ctx (''fd_allocate'', [A32 fd, A64 offset, A64 len]) (\<lambda>r. check_err (uv_errno r) id return_ok))"

definition wasi_fd_close :: "('u, 's) wasi_env \<Rightarrow> u32 \<Rightarrow> 'u action" where
  "wasi_fd_close = (\<lambda>(uw, ms, ctx) fd.
     uv uw ms ctx (''fd_close'', [A32 fd]) (\<lambda>r. check_err (uv_errno r) id return_ok))"

definition wasi_fd_datasync :: "('u, 's) wasi_env \<Rightarrow> u32 \<Rightarrow> 'u action" where
  "wasi_fd_datasync = (\<lambda>(uw, ms, ctx) fd.
     uv uw ms ctx (''fd_datasync'', [A32 fd]) (\<lambda>r. check_err (uv_errno r) id return_ok))"

definition wasi_fd_fdstat_get :: "('u, 's) wasi_env \<Rightarrow> u32 \<Rightarrow> u32 \<Rightarrow> 'u action" where
  "wasi_fd_fdstat_get = (\<lambda>(uw, ms, ctx) fd fdstat.
     uv uw ms ctx (''fd_fdstat_get'', [A32 fd]) (\<lambda>r.
     check_err (uv_errno r) id (
     serdes_write uw ctx fdstat (D_fdstat (uv_struct r)) return_ok)))"

definition wasi_fd_fdstat_set_flags :: "('u, 's) wasi_env \<Rightarrow> u32 \<Rightarrow> u32 \<Rightarrow> 'u action" where
  "wasi_fd_fdstat_set_flags = (\<lambda>(uw, ms, ctx) fd flags.
     uv uw ms ctx (''fd_fdstat_set_flags'', [A32 fd, A32 flags]) (\<lambda>r. check_err (uv_errno r) id return_ok))"

definition wasi_fd_fdstat_set_rights :: "('u, 's) wasi_env \<Rightarrow> u32 \<Rightarrow> u64 \<Rightarrow> u64 \<Rightarrow> 'u action" where
  "wasi_fd_fdstat_set_rights = (\<lambda>(uw, ms, ctx) fd r_base r_inheriting.
     uv uw ms ctx (''fd_fdstat_set_rights'', [A32 fd, A64 r_base, A64 r_inheriting]) (\<lambda>r. check_err (uv_errno r) id return_ok))"

definition wasi_fd_filestat_get :: "('u, 's) wasi_env \<Rightarrow> u32 \<Rightarrow> u32 \<Rightarrow> 'u action" where
  "wasi_fd_filestat_get = (\<lambda>(uw, ms, ctx) fd filestat.
     uv uw ms ctx (''fd_filestat_get'', [A32 fd]) (\<lambda>r.
     check_err (uv_errno r) id (
     serdes_write uw ctx filestat (D_filestat (uv_struct r)) return_ok)))"

definition wasi_fd_filestat_set_size :: "('u, 's) wasi_env \<Rightarrow> u32 \<Rightarrow> u64 \<Rightarrow> 'u action" where
  "wasi_fd_filestat_set_size = (\<lambda>(uw, ms, ctx) fd size.
     uv uw ms ctx (''fd_filestat_set_size'', [A32 fd, A64 size]) (\<lambda>r. check_err (uv_errno r) id return_ok))"

definition wasi_fd_filestat_set_times :: "('u, 's) wasi_env \<Rightarrow> u32 \<Rightarrow> u64 \<Rightarrow> u64 \<Rightarrow> u32 \<Rightarrow> 'u action" where
  "wasi_fd_filestat_set_times = (\<lambda>(uw, ms, ctx) fd atim mtim flags.
     uv uw ms ctx (''fd_filestat_set_times'', [A32 fd, A64 atim, A64 mtim, A32 flags]) (\<lambda>r. check_err (uv_errno r) id return_ok))"

definition wasi_fd_pread :: "('u, 's) wasi_env \<Rightarrow> u32 \<Rightarrow> u32 \<Rightarrow> u32 \<Rightarrow> u64 \<Rightarrow> u32 \<Rightarrow> 'u action" where
  "wasi_fd_pread = (\<lambda>(uw, ms, ctx) fd iovs iovs_len offset nread.
     alloc_iovec uw iovs_len (
     readv (uv_readv_iovec uw) ctx iovs iovs_len (\<lambda>e iov.
     check_err e free_block (
     uv uw ms ctx (''fd_pread'', [A32 fd, Lengths (map snd iov), A64 offset]) (\<lambda>r.
     guest_scatter ctx iov (uv_chunks r) (
     check_err (uv_errno r) free_block (
     serdes_write uw ctx nread (D_size (uv_size1 r)) (free_block return_ok))))))))"

definition wasi_fd_prestat_get :: "('u, 's) wasi_env \<Rightarrow> u32 \<Rightarrow> u32 \<Rightarrow> 'u action" where
  "wasi_fd_prestat_get = (\<lambda>(uw, ms, ctx) fd prestat.
     uv uw ms ctx (''fd_prestat_get'', [A32 fd]) (\<lambda>r.
     check_err (uv_errno r) id (
     serdes_write uw ctx prestat (D_prestat (uv_struct r)) return_ok)))"

definition wasi_fd_prestat_dir_name :: "('u, 's) wasi_env \<Rightarrow> u32 \<Rightarrow> u32 \<Rightarrow> u32 \<Rightarrow> 'u action" where
  "wasi_fd_prestat_dir_name = (\<lambda>(uw, ms, ctx) fd path path_len.
     guest_bytes ctx path path_len (\<lambda>_.
     uv uw ms ctx (''fd_prestat_dir_name'', [A32 fd, A32 path_len]) (\<lambda>r.
     guest_fill ctx path path_len (uv_bytes r) (
     check_err (uv_errno r) id return_ok))))"

definition wasi_fd_pwrite :: "('u, 's) wasi_env \<Rightarrow> u32 \<Rightarrow> u32 \<Rightarrow> u32 \<Rightarrow> u64 \<Rightarrow> u32 \<Rightarrow> 'u action" where
  "wasi_fd_pwrite = (\<lambda>(uw, ms, ctx) fd iovs iovs_len offset nwritten.
     alloc_iovec uw iovs_len (
     readv (uv_readv_ciovec uw) ctx iovs iovs_len (\<lambda>e iov.
     check_err e free_block (
     guest_gather ctx iov (\<lambda>bss.
     uv uw ms ctx (''fd_pwrite'', [A32 fd, Buffers bss, A64 offset]) (\<lambda>r.
     check_err (uv_errno r) free_block (
     serdes_write uw ctx nwritten (D_size (uv_size1 r)) (free_block return_ok))))))))"

definition wasi_fd_read :: "('u, 's) wasi_env \<Rightarrow> u32 \<Rightarrow> u32 \<Rightarrow> u32 \<Rightarrow> u32 \<Rightarrow> 'u action" where
  "wasi_fd_read = (\<lambda>(uw, ms, ctx) fd iovs iovs_len nread.
     alloc_iovec uw iovs_len (
     readv (uv_readv_iovec uw) ctx iovs iovs_len (\<lambda>e iov.
     check_err e free_block (
     uv uw ms ctx (''fd_read'', [A32 fd, Lengths (map snd iov)]) (\<lambda>r.
     guest_scatter ctx iov (uv_chunks r) (
     check_err (uv_errno r) free_block (
     serdes_write uw ctx nread (D_size (uv_size1 r)) (free_block return_ok))))))))"

definition wasi_fd_readdir :: "('u, 's) wasi_env \<Rightarrow> u32 \<Rightarrow> u32 \<Rightarrow> u32 \<Rightarrow> u64 \<Rightarrow> u32 \<Rightarrow> 'u action" where
  "wasi_fd_readdir = (\<lambda>(uw, ms, ctx) fd buf buf_len cookie bufused.
     guest_bytes ctx buf buf_len (\<lambda>_.
     uv uw ms ctx (''fd_readdir'', [A32 fd, A32 buf_len, A64 cookie]) (\<lambda>r.
     guest_fill ctx buf buf_len (uv_bytes r) (
     check_err (uv_errno r) id (
     serdes_write uw ctx bufused (D_size (uv_size1 r)) return_ok)))))"

definition wasi_fd_renumber :: "('u, 's) wasi_env \<Rightarrow> u32 \<Rightarrow> u32 \<Rightarrow> 'u action" where
  "wasi_fd_renumber = (\<lambda>(uw, ms, ctx) from_fd to_fd.
     uv uw ms ctx (''fd_renumber'', [A32 from_fd, A32 to_fd]) (\<lambda>r. check_err (uv_errno r) id return_ok))"

definition wasi_fd_seek :: "('u, 's) wasi_env \<Rightarrow> u32 \<Rightarrow> u64 \<Rightarrow> u32 \<Rightarrow> u32 \<Rightarrow> 'u action" where
  "wasi_fd_seek = (\<lambda>(uw, ms, ctx) fd offset whence newoffset.
     uv uw ms ctx (''fd_seek'', [A32 fd, A64 offset, A32 whence]) (\<lambda>r.
     check_err (uv_errno r) id (
     serdes_write uw ctx newoffset (D_filesize (uv_num r)) return_ok)))"

definition wasi_fd_sync :: "('u, 's) wasi_env \<Rightarrow> u32 \<Rightarrow> 'u action" where
  "wasi_fd_sync = (\<lambda>(uw, ms, ctx) fd.
     uv uw ms ctx (''fd_sync'', [A32 fd]) (\<lambda>r. check_err (uv_errno r) id return_ok))"

definition wasi_fd_tell :: "('u, 's) wasi_env \<Rightarrow> u32 \<Rightarrow> u32 \<Rightarrow> 'u action" where
  "wasi_fd_tell = (\<lambda>(uw, ms, ctx) fd offset.
     uv uw ms ctx (''fd_tell'', [A32 fd]) (\<lambda>r.
     check_err (uv_errno r) id (
     serdes_write uw ctx offset (D_filesize (uv_num r)) return_ok)))"

definition wasi_fd_write :: "('u, 's) wasi_env \<Rightarrow> u32 \<Rightarrow> u32 \<Rightarrow> u32 \<Rightarrow> u32 \<Rightarrow> 'u action" where
  "wasi_fd_write = (\<lambda>(uw, ms, ctx) fd iovs iovs_len nwritten.
     alloc_iovec uw iovs_len (
     readv (uv_readv_ciovec uw) ctx iovs iovs_len (\<lambda>e iov.
     check_err e free_block (
     guest_gather ctx iov (\<lambda>bss.
     uv uw ms ctx (''fd_write'', [A32 fd, Buffers bss]) (\<lambda>r.
     check_err (uv_errno r) free_block (
     serdes_write uw ctx nwritten (D_size (uv_size1 r)) (free_block return_ok))))))))"

definition wasi_path_create_directory :: "('u, 's) wasi_env \<Rightarrow> u32 \<Rightarrow> u32 \<Rightarrow> u32 \<Rightarrow> 'u action" where
  "wasi_path_create_directory = (\<lambda>(uw, ms, ctx) fd path path_len.
     guest_bytes ctx path path_len (\<lambda>p.
     uv uw ms ctx (''path_create_directory'', [A32 fd, Bytes p]) (\<lambda>r. check_err (uv_errno r) id return_ok)))"

definition wasi_path_filestat_get :: "('u, 's) wasi_env \<Rightarrow> u32 \<Rightarrow> u32 \<Rightarrow> u32 \<Rightarrow> u32 \<Rightarrow> u32 \<Rightarrow> 'u action" where
  "wasi_path_filestat_get = (\<lambda>(uw, ms, ctx) fd flags path path_len buf.
     guest_bytes ctx path path_len (\<lambda>p.
     uv uw ms ctx (''path_filestat_get'', [A32 fd, A32 flags, Bytes p]) (\<lambda>r.
     check_err (uv_errno r) id (
     serdes_write uw ctx buf (D_filestat (uv_struct r)) return_ok))))"

definition wasi_path_filestat_set_times ::
  "('u, 's) wasi_env \<Rightarrow> u32 \<Rightarrow> u32 \<Rightarrow> u32 \<Rightarrow> u32 \<Rightarrow> u64 \<Rightarrow> u64 \<Rightarrow> u32 \<Rightarrow> 'u action" where
  "wasi_path_filestat_set_times = (\<lambda>(uw, ms, ctx) fd flags path path_len st_atim st_mtim fst_flags.
     guest_bytes ctx path path_len (\<lambda>p.
     uv uw ms ctx (''path_filestat_set_times'', [A32 fd, A32 flags, Bytes p, A64 st_atim, A64 st_mtim, A32 fst_flags]) (\<lambda>r.
     check_err (uv_errno r) id return_ok)))"

definition wasi_path_link ::
  "('u, 's) wasi_env \<Rightarrow> u32 \<Rightarrow> u32 \<Rightarrow> u32 \<Rightarrow> u32 \<Rightarrow> u32 \<Rightarrow> u32 \<Rightarrow> u32 \<Rightarrow> 'u action" where
  "wasi_path_link = (\<lambda>(uw, ms, ctx) old_fd old_flags old_path old_path_len new_fd new_path new_path_len.
     guest_bytes ctx old_path old_path_len (\<lambda>p.
     guest_bytes ctx new_path new_path_len (\<lambda>q.
     uv uw ms ctx (''path_link'', [A32 old_fd, A32 old_flags, Bytes p, A32 new_fd, Bytes q]) (\<lambda>r. check_err (uv_errno r) id return_ok))))"

text \<open>The code does not keep the number that \<open>uvwasi_path_open\<close> returns: \<open>err\<close> is still \<open>UVWASI_ESUCCESS\<close>.\<close>

definition wasi_path_open ::
  "('u, 's) wasi_env \<Rightarrow> u32 \<Rightarrow> u32 \<Rightarrow> u32 \<Rightarrow> u32 \<Rightarrow> u32 \<Rightarrow> u64 \<Rightarrow> u64 \<Rightarrow> u32 \<Rightarrow> u32 \<Rightarrow> 'u action" where
  "wasi_path_open = (\<lambda>(uw, ms, ctx) dirfd dirflags path path_len o_flags fs_rights_base fs_rights_inheriting fs_flags fd.
     guest_bytes ctx path path_len (\<lambda>p.
     uv uw ms ctx (''path_open'', [A32 dirfd, A32 dirflags, Bytes p, A32 o_flags, A64 fs_rights_base, A64 fs_rights_inheriting, A32 fs_flags]) (\<lambda>r.
     check_err UVWASI_ESUCCESS id (
     serdes_write uw ctx fd (D_fd (uv_size1 r)) return_ok))))"

definition wasi_path_readlink :: "('u, 's) wasi_env \<Rightarrow> u32 \<Rightarrow> u32 \<Rightarrow> u32 \<Rightarrow> u32 \<Rightarrow> u32 \<Rightarrow> u32 \<Rightarrow> 'u action" where
  "wasi_path_readlink = (\<lambda>(uw, ms, ctx) fd path path_len buf_len buf buf_used.
     guest_bytes ctx path path_len (\<lambda>p.
     guest_bytes ctx buf buf_len (\<lambda>_.
     uv uw ms ctx (''path_readlink'', [A32 fd, Bytes p, A32 buf_len]) (\<lambda>r.
     guest_fill ctx buf buf_len (uv_bytes r) (
     check_err (uv_errno r) id (
     serdes_write uw ctx buf_used (D_size (uv_size1 r)) return_ok))))))"

definition wasi_path_remove_directory :: "('u, 's) wasi_env \<Rightarrow> u32 \<Rightarrow> u32 \<Rightarrow> u32 \<Rightarrow> 'u action" where
  "wasi_path_remove_directory = (\<lambda>(uw, ms, ctx) fd path path_len.
     guest_bytes ctx path path_len (\<lambda>p.
     uv uw ms ctx (''path_remove_directory'', [A32 fd, Bytes p]) (\<lambda>r. check_err (uv_errno r) id return_ok)))"

definition wasi_path_rename ::
  "('u, 's) wasi_env \<Rightarrow> u32 \<Rightarrow> u32 \<Rightarrow> u32 \<Rightarrow> u32 \<Rightarrow> u32 \<Rightarrow> u32 \<Rightarrow> 'u action" where
  "wasi_path_rename = (\<lambda>(uw, ms, ctx) old_fd old_path old_path_len new_fd new_path new_path_len.
     guest_bytes ctx old_path old_path_len (\<lambda>p.
     guest_bytes ctx new_path new_path_len (\<lambda>q.
     uv uw ms ctx (''path_rename'', [A32 old_fd, Bytes p, A32 new_fd, Bytes q]) (\<lambda>r. check_err (uv_errno r) id return_ok))))"

definition wasi_path_symlink :: "('u, 's) wasi_env \<Rightarrow> u32 \<Rightarrow> u32 \<Rightarrow> u32 \<Rightarrow> u32 \<Rightarrow> u32 \<Rightarrow> 'u action" where
  "wasi_path_symlink = (\<lambda>(uw, ms, ctx) old_path old_path_len fd new_path new_path_len.
     guest_bytes ctx old_path old_path_len (\<lambda>p.
     guest_bytes ctx new_path new_path_len (\<lambda>q.
     uv uw ms ctx (''path_symlink'', [Bytes p, A32 fd, Bytes q]) (\<lambda>r. check_err (uv_errno r) id return_ok))))"

definition wasi_path_unlink_file :: "('u, 's) wasi_env \<Rightarrow> u32 \<Rightarrow> u32 \<Rightarrow> u32 \<Rightarrow> 'u action" where
  "wasi_path_unlink_file = (\<lambda>(uw, ms, ctx) fd path path_len.
     guest_bytes ctx path path_len (\<lambda>p.
     uv uw ms ctx (''path_unlink_file'', [A32 fd, Bytes p]) (\<lambda>r. check_err (uv_errno r) id return_ok)))"

text \<open>A structure read from the memory; \<open>None\<close> if it does not lie inside.\<close>

definition in_range :: "'a option \<Rightarrow> 'a res" where
  "in_range x = (case x of None \<Rightarrow> Inl Fault | Some y \<Rightarrow> Inr y)"

text \<open>
  The code passes one subscription and one event, in local variables, as arrays of \<open>nsubscriptions\<close>
  elements; the event is not stored in the memory of the caller.
\<close>

definition wasi_poll_oneoff :: "('u, 's) wasi_env \<Rightarrow> u32 \<Rightarrow> u32 \<Rightarrow> u32 \<Rightarrow> u32 \<Rightarrow> 'u action" where
  "wasi_poll_oneoff = (\<lambda>(uw, ms, ctx) in_ptr out_ptr nsubscriptions nevents.
     get_res (\<lambda>s. unwrap (pmem0 ctx s) (\<lambda>bs. in_range (uv_read_subscription uw bs (scast in_ptr)))) (\<lambda>sub.
     get_res (\<lambda>s. unwrap (pmem0 ctx s) (\<lambda>bs. in_range (uv_read_event uw bs (scast out_ptr)))) (\<lambda>event.
     if unat nsubscriptions > 1 then raise Fault
     else uv uw ms ctx (''poll_oneoff'', [Struct sub, Struct event, A32 nsubscriptions]) (\<lambda>r.
       check_err (uv_errno r) id (
       serdes_write uw ctx nevents (D_size (uv_size1 r)) return_ok)))))"

definition wasi_proc_exit :: "('u, 's) wasi_env \<Rightarrow> u32 \<Rightarrow> 'u action" where
  "wasi_proc_exit = (\<lambda>(uw, ms, ctx) exit_code. raise E_exit)"

definition wasi_proc_raise :: "('u, 's) wasi_env \<Rightarrow> u32 \<Rightarrow> 'u action" where
  "wasi_proc_raise = (\<lambda>(uw, ms, ctx) sig.
     uv uw ms ctx (''proc_raise'', [A32 sig]) (\<lambda>r. check_err (uv_errno r) id return_ok))"

definition wasi_random_get :: "('u, 's) wasi_env \<Rightarrow> u32 \<Rightarrow> u32 \<Rightarrow> 'u action" where
  "wasi_random_get = (\<lambda>(uw, ms, ctx) buf buf_len.
     guest_bytes ctx buf buf_len (\<lambda>_.
     uv uw ms ctx (''random_get'', [A32 buf_len]) (\<lambda>r.
     guest_fill ctx buf buf_len (uv_bytes r) (
     check_err (uv_errno r) id return_ok))))"

definition wasi_sched_yield :: "('u, 's) wasi_env \<Rightarrow> 'u action" where
  "wasi_sched_yield = (\<lambda>(uw, ms, ctx).
     uv uw ms ctx (''sched_yield'', []) (\<lambda>r. check_err (uv_errno r) id return_ok))"

definition wasi_sock_accept :: "('u, 's) wasi_env \<Rightarrow> u32 \<Rightarrow> u32 \<Rightarrow> u32 \<Rightarrow> 'u action" where
  "wasi_sock_accept = (\<lambda>(uw, ms, ctx) a b c. set_result (UVWASI_EINVAL uw) ok_r)"

definition wasi_sock_recv :: "('u, 's) wasi_env \<Rightarrow> u32 \<Rightarrow> u32 \<Rightarrow> u32 \<Rightarrow> u32 \<Rightarrow> u32 \<Rightarrow> u32 \<Rightarrow> 'u action" where
  "wasi_sock_recv = (\<lambda>(uw, ms, ctx) sock ri_data ri_data_len ri_flags ro_datalen ro_flags. set_result (UVWASI_EINVAL uw) ok_r)"

definition wasi_sock_send :: "('u, 's) wasi_env \<Rightarrow> u32 \<Rightarrow> u32 \<Rightarrow> u32 \<Rightarrow> u32 \<Rightarrow> u32 \<Rightarrow> 'u action" where
  "wasi_sock_send = (\<lambda>(uw, ms, ctx) sock si_data si_data_len si_flags so_datalen. set_result (UVWASI_EINVAL uw) ok_r)"

definition wasi_sock_shutdown :: "('u, 's) wasi_env \<Rightarrow> u32 \<Rightarrow> u32 \<Rightarrow> 'u action" where
  "wasi_sock_shutdown = (\<lambda>(uw, ms, ctx) sock how. set_result (UVWASI_EINVAL uw) ok_r)"

section \<open>The context of a module\<close>

text \<open>
  \<open>wasi_args\<close> is the globals \<open>g_argc\<close> and \<open>g_argv\<close>.  \<open>sys\<close> is the state of the library and the number of
  heap blocks that are owned; \<open>calloc_ctx\<close> is what the allocation of the context returns.
\<close>

record wasi_args =
  g_argc :: nat
  g_argv :: "str list"

record 'u sys =
  sys_uv :: 'u
  sys_live :: nat

definition wasi_set_args :: "nat \<Rightarrow> str list \<Rightarrow> wasi_args" where
  "wasi_set_args argc argv = \<lparr>g_argc = argc, g_argv = argv\<rparr>"

definition g_preopens :: "str \<times> str" where
  "g_preopens = ([0x2e], [0x2e])"

definition wasi_ctx_get :: "('u, 's) uvwasi \<Rightarrow> nat \<Rightarrow> wasi_args \<Rightarrow> 'u sys \<Rightarrow> nat res \<times> 'u sys" where
  "wasi_ctx_get uw calloc_ctx g s =
     (if calloc_ctx = 0 then (Inl Fault, s)
      else case uv_init uw calloc_ctx \<lparr>opt_argc = g_argc g, opt_argv = g_argv g, opt_preopenc = 1,
                  opt_mapped_path = fst g_preopens, opt_real_path = snd g_preopens\<rparr> (sys_uv s) of
        (u, e) \<Rightarrow> let s = \<lparr>sys_uv = u, sys_live = sys_live s + 1\<rparr>
                  in if e \<noteq> UVWASI_ESUCCESS then (Inr 0, s) else (Inr calloc_ctx, s))"

definition wasi_ctx_drop :: "('u, 's) uvwasi \<Rightarrow> nat \<Rightarrow> 'u sys \<Rightarrow> unit res \<times> 'u sys" where
  "wasi_ctx_drop uw payload s =
     (if payload = 0 \<or> sys_live s = 0 then (Inl Fault, s)
      else (Inr (), \<lparr>sys_uv = uv_destroy uw payload (sys_uv s), sys_live = sys_live s - 1\<rparr>))"

end
