(* ===== verification/Host_Modules.thy ===== *)
theory Host_Modules
  imports Wasi Parser
begin

text \<open>
  The modules that are built in: src/src/host/host_modules.c, the trampolines, tables and binaries of
  src/src/host/spectest/spectest_gen.c and src/src/host/wasi/wasi_gen.c, and the functions of
  src/src/host/spectest/spectest_impl.c (those of the system interface are in theory \<open>Wasi\<close>).

  A module of the host is an ordinary module whose functions carry two addresses: that of a
  trampoline, which has the signature of the function, and that of the C function itself.  The
  interpreter calls the trampoline; it reads the arguments from the operand stack by their types,
  calls the C function through a pointer of the type that its signature gives and leaves the result
  in the slot of the first argument.  A trampoline is the pair of parameter types and whether there
  is a result (always an \<open>i32\<close>); \<open>run_trampoline\<close> is the code that they have in common.
  Calling a function through a pointer of another type than its own is \<open>Fault\<close>, so the
  prototypes of spectest_gen.h and wasi_gen.h are part of the model.  Where the linker has put the
  functions is the parameter \<open>link\<close>.
\<close>

section \<open>C functions\<close>

datatype ctype = C_i32 | C_i64 | C_f32 | C_f64

datatype cval = V_i32 u32 | V_i64 u64 | V_f32 u32 | V_f64 u64

record trampoline =
  tr_params :: "ctype list"
  tr_result :: bool

record ('u, 's) host_func =
  hf_params :: "ctype list"
  hf_result :: bool
  hf_body :: "('u, 's) wasi_env \<Rightarrow> cval list \<Rightarrow> 'u action"

record host_func_info =
  hi_name :: string
  hi_tr :: trampoline
  hi_func :: string

record link =
  at_tr :: "trampoline \<Rightarrow> nat"
  at_fn :: "string \<Rightarrow> nat"
  at_drop :: nat

subsection \<open>The module spectest\<close>

definition spectest_print :: "('u, 's) wasi_env \<Rightarrow> 'u action" where
  "spectest_print env = ok_r"

definition spectest_print_i32 :: "('u, 's) wasi_env \<Rightarrow> u32 \<Rightarrow> 'u action" where
  "spectest_print_i32 env a = ok_r"

definition spectest_print_i64 :: "('u, 's) wasi_env \<Rightarrow> u64 \<Rightarrow> 'u action" where
  "spectest_print_i64 env a = ok_r"

definition spectest_print_f32 :: "('u, 's) wasi_env \<Rightarrow> u32 \<Rightarrow> 'u action" where
  "spectest_print_f32 env a = ok_r"

definition spectest_print_f64 :: "('u, 's) wasi_env \<Rightarrow> u64 \<Rightarrow> 'u action" where
  "spectest_print_f64 env a = ok_r"

definition spectest_print_i32_f32 :: "('u, 's) wasi_env \<Rightarrow> u32 \<Rightarrow> u32 \<Rightarrow> 'u action" where
  "spectest_print_i32_f32 env a b = ok_r"

definition spectest_print_f64_f64 :: "('u, 's) wasi_env \<Rightarrow> u64 \<Rightarrow> u64 \<Rightarrow> 'u action" where
  "spectest_print_f64_f64 env a b = ok_r"

subsection \<open>Prototypes\<close>

definition spectest_funcs :: "(string \<times> ('u, 's) host_func) list" where
  "spectest_funcs = [
     (''spectest_print'', \<lparr>hf_params = [], hf_result = False,
        hf_body = (\<lambda>env args. case args of [] \<Rightarrow> spectest_print env | _ \<Rightarrow> raise Fault)\<rparr>),
     (''spectest_print_i32'', \<lparr>hf_params = [C_i32], hf_result = False,
        hf_body = (\<lambda>env args. case args of [V_i32 a] \<Rightarrow> spectest_print_i32 env a | _ \<Rightarrow> raise Fault)\<rparr>),
     (''spectest_print_i64'', \<lparr>hf_params = [C_i64], hf_result = False,
        hf_body = (\<lambda>env args. case args of [V_i64 a] \<Rightarrow> spectest_print_i64 env a | _ \<Rightarrow> raise Fault)\<rparr>),
     (''spectest_print_f32'', \<lparr>hf_params = [C_f32], hf_result = False,
        hf_body = (\<lambda>env args. case args of [V_f32 a] \<Rightarrow> spectest_print_f32 env a | _ \<Rightarrow> raise Fault)\<rparr>),
     (''spectest_print_f64'', \<lparr>hf_params = [C_f64], hf_result = False,
        hf_body = (\<lambda>env args. case args of [V_f64 a] \<Rightarrow> spectest_print_f64 env a | _ \<Rightarrow> raise Fault)\<rparr>),
     (''spectest_print_i32_f32'', \<lparr>hf_params = [C_i32, C_f32], hf_result = False,
        hf_body = (\<lambda>env args. case args of [V_i32 a, V_f32 b] \<Rightarrow> spectest_print_i32_f32 env a b | _ \<Rightarrow> raise Fault)\<rparr>),
     (''spectest_print_f64_f64'', \<lparr>hf_params = [C_f64, C_f64], hf_result = False,
        hf_body = (\<lambda>env args. case args of [V_f64 a, V_f64 b] \<Rightarrow> spectest_print_f64_f64 env a b | _ \<Rightarrow> raise Fault)\<rparr>)]"

definition wasi_funcs :: "(string \<times> ('u, 's) host_func) list" where
  "wasi_funcs = [
     (''wasi_args_get'', \<lparr>hf_params = [C_i32, C_i32], hf_result = True,
        hf_body = (\<lambda>env args. case args of [V_i32 a, V_i32 b] \<Rightarrow> wasi_args_get env a b | _ \<Rightarrow> raise Fault)\<rparr>),
     (''wasi_args_sizes_get'', \<lparr>hf_params = [C_i32, C_i32], hf_result = True,
        hf_body = (\<lambda>env args. case args of [V_i32 a, V_i32 b] \<Rightarrow> wasi_args_sizes_get env a b | _ \<Rightarrow> raise Fault)\<rparr>),
     (''wasi_clock_res_get'', \<lparr>hf_params = [C_i32, C_i32], hf_result = True,
        hf_body = (\<lambda>env args. case args of [V_i32 a, V_i32 b] \<Rightarrow> wasi_clock_res_get env a b | _ \<Rightarrow> raise Fault)\<rparr>),
     (''wasi_clock_time_get'', \<lparr>hf_params = [C_i32, C_i64, C_i32], hf_result = True,
        hf_body = (\<lambda>env args. case args of [V_i32 a, V_i64 b, V_i32 c] \<Rightarrow> wasi_clock_time_get env a b c | _ \<Rightarrow> raise Fault)\<rparr>),
     (''wasi_environ_get'', \<lparr>hf_params = [C_i32, C_i32], hf_result = True,
        hf_body = (\<lambda>env args. case args of [V_i32 a, V_i32 b] \<Rightarrow> wasi_environ_get env a b | _ \<Rightarrow> raise Fault)\<rparr>),
     (''wasi_environ_sizes_get'', \<lparr>hf_params = [C_i32, C_i32], hf_result = True,
        hf_body = (\<lambda>env args. case args of [V_i32 a, V_i32 b] \<Rightarrow> wasi_environ_sizes_get env a b | _ \<Rightarrow> raise Fault)\<rparr>),
     (''wasi_fd_advise'', \<lparr>hf_params = [C_i32, C_i64, C_i64, C_i32], hf_result = True,
        hf_body = (\<lambda>env args. case args of [V_i32 a, V_i64 b, V_i64 c, V_i32 d] \<Rightarrow> wasi_fd_advise env a b c d | _ \<Rightarrow> raise Fault)\<rparr>),
     (''wasi_fd_allocate'', \<lparr>hf_params = [C_i32, C_i64, C_i64], hf_result = True,
        hf_body = (\<lambda>env args. case args of [V_i32 a, V_i64 b, V_i64 c] \<Rightarrow> wasi_fd_allocate env a b c | _ \<Rightarrow> raise Fault)\<rparr>),
     (''wasi_fd_close'', \<lparr>hf_params = [C_i32], hf_result = True,
        hf_body = (\<lambda>env args. case args of [V_i32 a] \<Rightarrow> wasi_fd_close env a | _ \<Rightarrow> raise Fault)\<rparr>),
     (''wasi_fd_datasync'', \<lparr>hf_params = [C_i32], hf_result = True,
        hf_body = (\<lambda>env args. case args of [V_i32 a] \<Rightarrow> wasi_fd_datasync env a | _ \<Rightarrow> raise Fault)\<rparr>),
     (''wasi_fd_fdstat_get'', \<lparr>hf_params = [C_i32, C_i32], hf_result = True,
        hf_body = (\<lambda>env args. case args of [V_i32 a, V_i32 b] \<Rightarrow> wasi_fd_fdstat_get env a b | _ \<Rightarrow> raise Fault)\<rparr>),
     (''wasi_fd_fdstat_set_flags'', \<lparr>hf_params = [C_i32, C_i32], hf_result = True,
        hf_body = (\<lambda>env args. case args of [V_i32 a, V_i32 b] \<Rightarrow> wasi_fd_fdstat_set_flags env a b | _ \<Rightarrow> raise Fault)\<rparr>),
     (''wasi_fd_fdstat_set_rights'', \<lparr>hf_params = [C_i32, C_i64, C_i64], hf_result = True,
        hf_body = (\<lambda>env args. case args of [V_i32 a, V_i64 b, V_i64 c] \<Rightarrow> wasi_fd_fdstat_set_rights env a b c | _ \<Rightarrow> raise Fault)\<rparr>),
     (''wasi_fd_filestat_get'', \<lparr>hf_params = [C_i32, C_i32], hf_result = True,
        hf_body = (\<lambda>env args. case args of [V_i32 a, V_i32 b] \<Rightarrow> wasi_fd_filestat_get env a b | _ \<Rightarrow> raise Fault)\<rparr>),
     (''wasi_fd_filestat_set_size'', \<lparr>hf_params = [C_i32, C_i64], hf_result = True,
        hf_body = (\<lambda>env args. case args of [V_i32 a, V_i64 b] \<Rightarrow> wasi_fd_filestat_set_size env a b | _ \<Rightarrow> raise Fault)\<rparr>),
     (''wasi_fd_filestat_set_times'', \<lparr>hf_params = [C_i32, C_i64, C_i64, C_i32], hf_result = True,
        hf_body = (\<lambda>env args. case args of [V_i32 a, V_i64 b, V_i64 c, V_i32 d] \<Rightarrow> wasi_fd_filestat_set_times env a b c d | _ \<Rightarrow> raise Fault)\<rparr>),
     (''wasi_fd_pread'', \<lparr>hf_params = [C_i32, C_i32, C_i32, C_i64, C_i32], hf_result = True,
        hf_body = (\<lambda>env args. case args of [V_i32 a, V_i32 b, V_i32 c, V_i64 d, V_i32 e] \<Rightarrow> wasi_fd_pread env a b c d e | _ \<Rightarrow> raise Fault)\<rparr>),
     (''wasi_fd_prestat_dir_name'', \<lparr>hf_params = [C_i32, C_i32, C_i32], hf_result = True,
        hf_body = (\<lambda>env args. case args of [V_i32 a, V_i32 b, V_i32 c] \<Rightarrow> wasi_fd_prestat_dir_name env a b c | _ \<Rightarrow> raise Fault)\<rparr>),
     (''wasi_fd_prestat_get'', \<lparr>hf_params = [C_i32, C_i32], hf_result = True,
        hf_body = (\<lambda>env args. case args of [V_i32 a, V_i32 b] \<Rightarrow> wasi_fd_prestat_get env a b | _ \<Rightarrow> raise Fault)\<rparr>),
     (''wasi_fd_pwrite'', \<lparr>hf_params = [C_i32, C_i32, C_i32, C_i64, C_i32], hf_result = True,
        hf_body = (\<lambda>env args. case args of [V_i32 a, V_i32 b, V_i32 c, V_i64 d, V_i32 e] \<Rightarrow> wasi_fd_pwrite env a b c d e | _ \<Rightarrow> raise Fault)\<rparr>),
     (''wasi_fd_read'', \<lparr>hf_params = [C_i32, C_i32, C_i32, C_i32], hf_result = True,
        hf_body = (\<lambda>env args. case args of [V_i32 a, V_i32 b, V_i32 c, V_i32 d] \<Rightarrow> wasi_fd_read env a b c d | _ \<Rightarrow> raise Fault)\<rparr>),
     (''wasi_fd_readdir'', \<lparr>hf_params = [C_i32, C_i32, C_i32, C_i64, C_i32], hf_result = True,
        hf_body = (\<lambda>env args. case args of [V_i32 a, V_i32 b, V_i32 c, V_i64 d, V_i32 e] \<Rightarrow> wasi_fd_readdir env a b c d e | _ \<Rightarrow> raise Fault)\<rparr>),
     (''wasi_fd_renumber'', \<lparr>hf_params = [C_i32, C_i32], hf_result = True,
        hf_body = (\<lambda>env args. case args of [V_i32 a, V_i32 b] \<Rightarrow> wasi_fd_renumber env a b | _ \<Rightarrow> raise Fault)\<rparr>),
     (''wasi_fd_seek'', \<lparr>hf_params = [C_i32, C_i64, C_i32, C_i32], hf_result = True,
        hf_body = (\<lambda>env args. case args of [V_i32 a, V_i64 b, V_i32 c, V_i32 d] \<Rightarrow> wasi_fd_seek env a b c d | _ \<Rightarrow> raise Fault)\<rparr>),
     (''wasi_fd_sync'', \<lparr>hf_params = [C_i32], hf_result = True,
        hf_body = (\<lambda>env args. case args of [V_i32 a] \<Rightarrow> wasi_fd_sync env a | _ \<Rightarrow> raise Fault)\<rparr>),
     (''wasi_fd_tell'', \<lparr>hf_params = [C_i32, C_i32], hf_result = True,
        hf_body = (\<lambda>env args. case args of [V_i32 a, V_i32 b] \<Rightarrow> wasi_fd_tell env a b | _ \<Rightarrow> raise Fault)\<rparr>),
     (''wasi_fd_write'', \<lparr>hf_params = [C_i32, C_i32, C_i32, C_i32], hf_result = True,
        hf_body = (\<lambda>env args. case args of [V_i32 a, V_i32 b, V_i32 c, V_i32 d] \<Rightarrow> wasi_fd_write env a b c d | _ \<Rightarrow> raise Fault)\<rparr>),
     (''wasi_path_create_directory'', \<lparr>hf_params = [C_i32, C_i32, C_i32], hf_result = True,
        hf_body = (\<lambda>env args. case args of [V_i32 a, V_i32 b, V_i32 c] \<Rightarrow> wasi_path_create_directory env a b c | _ \<Rightarrow> raise Fault)\<rparr>),
     (''wasi_path_filestat_get'', \<lparr>hf_params = [C_i32, C_i32, C_i32, C_i32, C_i32], hf_result = True,
        hf_body = (\<lambda>env args. case args of [V_i32 a, V_i32 b, V_i32 c, V_i32 d, V_i32 e] \<Rightarrow> wasi_path_filestat_get env a b c d e | _ \<Rightarrow> raise Fault)\<rparr>),
     (''wasi_path_filestat_set_times'', \<lparr>hf_params = [C_i32, C_i32, C_i32, C_i32, C_i64, C_i64, C_i32], hf_result = True,
        hf_body = (\<lambda>env args. case args of [V_i32 a, V_i32 b, V_i32 c, V_i32 d, V_i64 e, V_i64 f, V_i32 g] \<Rightarrow> wasi_path_filestat_set_times env a b c d e f g | _ \<Rightarrow> raise Fault)\<rparr>),
     (''wasi_path_link'', \<lparr>hf_params = [C_i32, C_i32, C_i32, C_i32, C_i32, C_i32, C_i32], hf_result = True,
        hf_body = (\<lambda>env args. case args of [V_i32 a, V_i32 b, V_i32 c, V_i32 d, V_i32 e, V_i32 f, V_i32 g] \<Rightarrow> wasi_path_link env a b c d e f g | _ \<Rightarrow> raise Fault)\<rparr>),
     (''wasi_path_open'', \<lparr>hf_params = [C_i32, C_i32, C_i32, C_i32, C_i32, C_i64, C_i64, C_i32, C_i32], hf_result = True,
        hf_body = (\<lambda>env args. case args of [V_i32 a, V_i32 b, V_i32 c, V_i32 d, V_i32 e, V_i64 f, V_i64 g, V_i32 h, V_i32 i] \<Rightarrow> wasi_path_open env a b c d e f g h i | _ \<Rightarrow> raise Fault)\<rparr>),
     (''wasi_path_readlink'', \<lparr>hf_params = [C_i32, C_i32, C_i32, C_i32, C_i32, C_i32], hf_result = True,
        hf_body = (\<lambda>env args. case args of [V_i32 a, V_i32 b, V_i32 c, V_i32 d, V_i32 e, V_i32 f] \<Rightarrow> wasi_path_readlink env a b c d e f | _ \<Rightarrow> raise Fault)\<rparr>),
     (''wasi_path_remove_directory'', \<lparr>hf_params = [C_i32, C_i32, C_i32], hf_result = True,
        hf_body = (\<lambda>env args. case args of [V_i32 a, V_i32 b, V_i32 c] \<Rightarrow> wasi_path_remove_directory env a b c | _ \<Rightarrow> raise Fault)\<rparr>),
     (''wasi_path_rename'', \<lparr>hf_params = [C_i32, C_i32, C_i32, C_i32, C_i32, C_i32], hf_result = True,
        hf_body = (\<lambda>env args. case args of [V_i32 a, V_i32 b, V_i32 c, V_i32 d, V_i32 e, V_i32 f] \<Rightarrow> wasi_path_rename env a b c d e f | _ \<Rightarrow> raise Fault)\<rparr>),
     (''wasi_path_symlink'', \<lparr>hf_params = [C_i32, C_i32, C_i32, C_i32, C_i32], hf_result = True,
        hf_body = (\<lambda>env args. case args of [V_i32 a, V_i32 b, V_i32 c, V_i32 d, V_i32 e] \<Rightarrow> wasi_path_symlink env a b c d e | _ \<Rightarrow> raise Fault)\<rparr>),
     (''wasi_path_unlink_file'', \<lparr>hf_params = [C_i32, C_i32, C_i32], hf_result = True,
        hf_body = (\<lambda>env args. case args of [V_i32 a, V_i32 b, V_i32 c] \<Rightarrow> wasi_path_unlink_file env a b c | _ \<Rightarrow> raise Fault)\<rparr>),
     (''wasi_poll_oneoff'', \<lparr>hf_params = [C_i32, C_i32, C_i32, C_i32], hf_result = True,
        hf_body = (\<lambda>env args. case args of [V_i32 a, V_i32 b, V_i32 c, V_i32 d] \<Rightarrow> wasi_poll_oneoff env a b c d | _ \<Rightarrow> raise Fault)\<rparr>),
     (''wasi_proc_exit'', \<lparr>hf_params = [C_i32], hf_result = False,
        hf_body = (\<lambda>env args. case args of [V_i32 a] \<Rightarrow> wasi_proc_exit env a | _ \<Rightarrow> raise Fault)\<rparr>),
     (''wasi_proc_raise'', \<lparr>hf_params = [C_i32], hf_result = True,
        hf_body = (\<lambda>env args. case args of [V_i32 a] \<Rightarrow> wasi_proc_raise env a | _ \<Rightarrow> raise Fault)\<rparr>),
     (''wasi_random_get'', \<lparr>hf_params = [C_i32, C_i32], hf_result = True,
        hf_body = (\<lambda>env args. case args of [V_i32 a, V_i32 b] \<Rightarrow> wasi_random_get env a b | _ \<Rightarrow> raise Fault)\<rparr>),
     (''wasi_sched_yield'', \<lparr>hf_params = [], hf_result = True,
        hf_body = (\<lambda>env args. case args of [] \<Rightarrow> wasi_sched_yield env | _ \<Rightarrow> raise Fault)\<rparr>),
     (''wasi_sock_accept'', \<lparr>hf_params = [C_i32, C_i32, C_i32], hf_result = True,
        hf_body = (\<lambda>env args. case args of [V_i32 a, V_i32 b, V_i32 c] \<Rightarrow> wasi_sock_accept env a b c | _ \<Rightarrow> raise Fault)\<rparr>),
     (''wasi_sock_recv'', \<lparr>hf_params = [C_i32, C_i32, C_i32, C_i32, C_i32, C_i32], hf_result = True,
        hf_body = (\<lambda>env args. case args of [V_i32 a, V_i32 b, V_i32 c, V_i32 d, V_i32 e, V_i32 f] \<Rightarrow> wasi_sock_recv env a b c d e f | _ \<Rightarrow> raise Fault)\<rparr>),
     (''wasi_sock_send'', \<lparr>hf_params = [C_i32, C_i32, C_i32, C_i32, C_i32], hf_result = True,
        hf_body = (\<lambda>env args. case args of [V_i32 a, V_i32 b, V_i32 c, V_i32 d, V_i32 e] \<Rightarrow> wasi_sock_send env a b c d e | _ \<Rightarrow> raise Fault)\<rparr>),
     (''wasi_sock_shutdown'', \<lparr>hf_params = [C_i32, C_i32], hf_result = True,
        hf_body = (\<lambda>env args. case args of [V_i32 a, V_i32 b] \<Rightarrow> wasi_sock_shutdown env a b | _ \<Rightarrow> raise Fault)\<rparr>)]"

definition host_funcs :: "(string \<times> ('u, 's) host_func) list" where
  "host_funcs = spectest_funcs @ wasi_funcs"

section \<open>Trampolines\<close>

definition tr_void_result_void :: trampoline where
  "tr_void_result_void = \<lparr>tr_params = [], tr_result = False\<rparr>"

definition tr_i32_result_void :: trampoline where
  "tr_i32_result_void = \<lparr>tr_params = [C_i32], tr_result = False\<rparr>"

definition tr_i64_result_void :: trampoline where
  "tr_i64_result_void = \<lparr>tr_params = [C_i64], tr_result = False\<rparr>"

definition tr_f32_result_void :: trampoline where
  "tr_f32_result_void = \<lparr>tr_params = [C_f32], tr_result = False\<rparr>"

definition tr_f64_result_void :: trampoline where
  "tr_f64_result_void = \<lparr>tr_params = [C_f64], tr_result = False\<rparr>"

definition tr_i32_f32_result_void :: trampoline where
  "tr_i32_f32_result_void = \<lparr>tr_params = [C_i32, C_f32], tr_result = False\<rparr>"

definition tr_f64_f64_result_void :: trampoline where
  "tr_f64_f64_result_void = \<lparr>tr_params = [C_f64, C_f64], tr_result = False\<rparr>"

definition tr_i32_i32_result_i32 :: trampoline where
  "tr_i32_i32_result_i32 = \<lparr>tr_params = [C_i32, C_i32], tr_result = True\<rparr>"

definition tr_i32_i64_i32_result_i32 :: trampoline where
  "tr_i32_i64_i32_result_i32 = \<lparr>tr_params = [C_i32, C_i64, C_i32], tr_result = True\<rparr>"

definition tr_i32_i64_i64_i32_result_i32 :: trampoline where
  "tr_i32_i64_i64_i32_result_i32 = \<lparr>tr_params = [C_i32, C_i64, C_i64, C_i32], tr_result = True\<rparr>"

definition tr_i32_i64_i64_result_i32 :: trampoline where
  "tr_i32_i64_i64_result_i32 = \<lparr>tr_params = [C_i32, C_i64, C_i64], tr_result = True\<rparr>"

definition tr_i32_result_i32 :: trampoline where
  "tr_i32_result_i32 = \<lparr>tr_params = [C_i32], tr_result = True\<rparr>"

definition tr_i32_i64_result_i32 :: trampoline where
  "tr_i32_i64_result_i32 = \<lparr>tr_params = [C_i32, C_i64], tr_result = True\<rparr>"

definition tr_i32_i32_i32_i64_i32_result_i32 :: trampoline where
  "tr_i32_i32_i32_i64_i32_result_i32 = \<lparr>tr_params = [C_i32, C_i32, C_i32, C_i64, C_i32], tr_result = True\<rparr>"

definition tr_i32_i32_i32_result_i32 :: trampoline where
  "tr_i32_i32_i32_result_i32 = \<lparr>tr_params = [C_i32, C_i32, C_i32], tr_result = True\<rparr>"

definition tr_i32_i32_i32_i32_result_i32 :: trampoline where
  "tr_i32_i32_i32_i32_result_i32 = \<lparr>tr_params = [C_i32, C_i32, C_i32, C_i32], tr_result = True\<rparr>"

definition tr_i32_i64_i32_i32_result_i32 :: trampoline where
  "tr_i32_i64_i32_i32_result_i32 = \<lparr>tr_params = [C_i32, C_i64, C_i32, C_i32], tr_result = True\<rparr>"

definition tr_i32_i32_i32_i32_i32_result_i32 :: trampoline where
  "tr_i32_i32_i32_i32_i32_result_i32 = \<lparr>tr_params = [C_i32, C_i32, C_i32, C_i32, C_i32], tr_result = True\<rparr>"

definition tr_i32_i32_i32_i32_i64_i64_i32_result_i32 :: trampoline where
  "tr_i32_i32_i32_i32_i64_i64_i32_result_i32 = \<lparr>tr_params = [C_i32, C_i32, C_i32, C_i32, C_i64, C_i64, C_i32], tr_result = True\<rparr>"

definition tr_i32_i32_i32_i32_i32_i32_i32_result_i32 :: trampoline where
  "tr_i32_i32_i32_i32_i32_i32_i32_result_i32 = \<lparr>tr_params = [C_i32, C_i32, C_i32, C_i32, C_i32, C_i32, C_i32], tr_result = True\<rparr>"

definition tr_i32_i32_i32_i32_i32_i64_i64_i32_i32_result_i32 :: trampoline where
  "tr_i32_i32_i32_i32_i32_i64_i64_i32_i32_result_i32 = \<lparr>tr_params = [C_i32, C_i32, C_i32, C_i32, C_i32, C_i64, C_i64, C_i32, C_i32], tr_result = True\<rparr>"

definition tr_i32_i32_i32_i32_i32_i32_result_i32 :: trampoline where
  "tr_i32_i32_i32_i32_i32_i32_result_i32 = \<lparr>tr_params = [C_i32, C_i32, C_i32, C_i32, C_i32, C_i32], tr_result = True\<rparr>"

definition tr_void_result_i32 :: trampoline where
  "tr_void_result_i32 = \<lparr>tr_params = [], tr_result = True\<rparr>"

definition trampolines :: "trampoline list" where
  "trampolines = [
     tr_void_result_void,
     tr_i32_result_void,
     tr_i64_result_void,
     tr_f32_result_void,
     tr_f64_result_void,
     tr_i32_f32_result_void,
     tr_f64_f64_result_void,
     tr_i32_i32_result_i32,
     tr_i32_i64_i32_result_i32,
     tr_i32_i64_i64_i32_result_i32,
     tr_i32_i64_i64_result_i32,
     tr_i32_result_i32,
     tr_i32_i64_result_i32,
     tr_i32_i32_i32_i64_i32_result_i32,
     tr_i32_i32_i32_result_i32,
     tr_i32_i32_i32_i32_result_i32,
     tr_i32_i64_i32_i32_result_i32,
     tr_i32_i32_i32_i32_i32_result_i32,
     tr_i32_i32_i32_i32_i64_i64_i32_result_i32,
     tr_i32_i32_i32_i32_i32_i32_i32_result_i32,
     tr_i32_i32_i32_i32_i32_i64_i64_i32_i32_result_i32,
     tr_i32_i32_i32_i32_i32_i32_result_i32,
     tr_void_result_i32]"

fun read_arg :: "ctype \<Rightarrow> value_u \<Rightarrow> cval" where
  "read_arg C_i32 x = V_i32 (ucast x)"
| "read_arg C_i64 x = V_i64 x"
| "read_arg C_f32 x = V_f32 (ucast x)"
| "read_arg C_f64 x = V_f64 x"

text \<open>\<open>ctx.args[0].u_i32, ctx.args[1].u_i64, \<dots>\<close>\<close>

definition read_args :: "ctype list \<Rightarrow> value_u list \<Rightarrow> cval list res" where
  "read_args ts args = (if length args < length ts then Inl Fault else Inr (map2 read_arg ts args))"

definition call_host_func :: "trampoline \<Rightarrow> ('u, 's) wasi_env \<Rightarrow> string \<Rightarrow> cval list \<Rightarrow> 'u action" where
  "call_host_func tr env f vals =
     (case map_of host_funcs f of
        None \<Rightarrow> raise Fault
      | Some h \<Rightarrow> if hf_params h = tr_params tr \<and> hf_result h = tr_result tr then hf_body h env vals else raise Fault)"

definition run_trampoline ::
  "machine \<Rightarrow> trampoline \<Rightarrow> ('u, 's) uvwasi \<Rightarrow> mods \<Rightarrow> tr_ctx \<Rightarrow> string \<Rightarrow> 'u call_state \<Rightarrow> err option \<times> 'u call_state \<times> value_u list" where
  "run_trampoline mc tr uw ms ctx f s =
     (let args = ctx_args ctx in
      case read_args (tr_params tr) args of
        Inl e \<Rightarrow> (Some e, s, args)
      | Inr vals \<Rightarrow>
          (case call_host_func tr (uw, ms, ctx) f vals (s\<lparr>cs_result := 0\<rparr>) of
             (Some e, s) \<Rightarrow> (Some e, s, args)
           | (None, s) \<Rightarrow>
               if \<not> tr_result tr then (None, s, args)
               else if args = [] then (Some Fault, s, args)
               else (None, s, args[0 := st_w32 mc (args ! 0) (cs_result s)])))"

text \<open>The call that the interpreter makes: \<open>f->tr((tr_ctx){\<dots>}, f->host_func)\<close>.\<close>

definition host_call ::
  "link \<Rightarrow> machine \<Rightarrow> ('u, 's) uvwasi \<Rightarrow> nat \<Rightarrow> nat \<Rightarrow> mods \<Rightarrow> 'u call_state \<Rightarrow> addr \<Rightarrow> value_u list \<Rightarrow> addr option \<Rightarrow>
   err option \<times> 'u call_state \<times> value_u list" where
  "host_call L mc uw tr hf ms s a args mem0 =
     (case find (\<lambda>t. at_tr L t = tr) trampolines of
        None \<Rightarrow> (Some Fault, s, args)
      | Some t \<Rightarrow>
          (case find (\<lambda>f. at_fn L f = hf) (map fst (host_funcs :: (string \<times> ('u, 's) host_func) list)) of
             None \<Rightarrow> (Some Fault, s, args)
           | Some f \<Rightarrow> run_trampoline mc t uw ms \<lparr>ctx_f_addr = a, ctx_args = args, ctx_mem0 = mem0\<rparr> f s))"

section \<open>Tables and binaries\<close>

definition spectest_host_info :: "host_func_info list" where
  "spectest_host_info = [
     \<lparr>hi_name = ''print'', hi_tr = tr_void_result_void, hi_func = ''spectest_print''\<rparr>,
     \<lparr>hi_name = ''print_i32'', hi_tr = tr_i32_result_void, hi_func = ''spectest_print_i32''\<rparr>,
     \<lparr>hi_name = ''print_i64'', hi_tr = tr_i64_result_void, hi_func = ''spectest_print_i64''\<rparr>,
     \<lparr>hi_name = ''print_f32'', hi_tr = tr_f32_result_void, hi_func = ''spectest_print_f32''\<rparr>,
     \<lparr>hi_name = ''print_f64'', hi_tr = tr_f64_result_void, hi_func = ''spectest_print_f64''\<rparr>,
     \<lparr>hi_name = ''print_i32_f32'', hi_tr = tr_i32_f32_result_void, hi_func = ''spectest_print_i32_f32''\<rparr>,
     \<lparr>hi_name = ''print_f64_f64'', hi_tr = tr_f64_f64_result_void, hi_func = ''spectest_print_f64_f64''\<rparr>]"

definition wasi_host_info :: "host_func_info list" where
  "wasi_host_info = [
     \<lparr>hi_name = ''args_get'', hi_tr = tr_i32_i32_result_i32, hi_func = ''wasi_args_get''\<rparr>,
     \<lparr>hi_name = ''args_sizes_get'', hi_tr = tr_i32_i32_result_i32, hi_func = ''wasi_args_sizes_get''\<rparr>,
     \<lparr>hi_name = ''clock_res_get'', hi_tr = tr_i32_i32_result_i32, hi_func = ''wasi_clock_res_get''\<rparr>,
     \<lparr>hi_name = ''clock_time_get'', hi_tr = tr_i32_i64_i32_result_i32, hi_func = ''wasi_clock_time_get''\<rparr>,
     \<lparr>hi_name = ''environ_get'', hi_tr = tr_i32_i32_result_i32, hi_func = ''wasi_environ_get''\<rparr>,
     \<lparr>hi_name = ''environ_sizes_get'', hi_tr = tr_i32_i32_result_i32, hi_func = ''wasi_environ_sizes_get''\<rparr>,
     \<lparr>hi_name = ''fd_advise'', hi_tr = tr_i32_i64_i64_i32_result_i32, hi_func = ''wasi_fd_advise''\<rparr>,
     \<lparr>hi_name = ''fd_allocate'', hi_tr = tr_i32_i64_i64_result_i32, hi_func = ''wasi_fd_allocate''\<rparr>,
     \<lparr>hi_name = ''fd_close'', hi_tr = tr_i32_result_i32, hi_func = ''wasi_fd_close''\<rparr>,
     \<lparr>hi_name = ''fd_datasync'', hi_tr = tr_i32_result_i32, hi_func = ''wasi_fd_datasync''\<rparr>,
     \<lparr>hi_name = ''fd_fdstat_get'', hi_tr = tr_i32_i32_result_i32, hi_func = ''wasi_fd_fdstat_get''\<rparr>,
     \<lparr>hi_name = ''fd_fdstat_set_flags'', hi_tr = tr_i32_i32_result_i32, hi_func = ''wasi_fd_fdstat_set_flags''\<rparr>,
     \<lparr>hi_name = ''fd_fdstat_set_rights'', hi_tr = tr_i32_i64_i64_result_i32, hi_func = ''wasi_fd_fdstat_set_rights''\<rparr>,
     \<lparr>hi_name = ''fd_filestat_get'', hi_tr = tr_i32_i32_result_i32, hi_func = ''wasi_fd_filestat_get''\<rparr>,
     \<lparr>hi_name = ''fd_filestat_set_size'', hi_tr = tr_i32_i64_result_i32, hi_func = ''wasi_fd_filestat_set_size''\<rparr>,
     \<lparr>hi_name = ''fd_filestat_set_times'', hi_tr = tr_i32_i64_i64_i32_result_i32, hi_func = ''wasi_fd_filestat_set_times''\<rparr>,
     \<lparr>hi_name = ''fd_pread'', hi_tr = tr_i32_i32_i32_i64_i32_result_i32, hi_func = ''wasi_fd_pread''\<rparr>,
     \<lparr>hi_name = ''fd_prestat_dir_name'', hi_tr = tr_i32_i32_i32_result_i32, hi_func = ''wasi_fd_prestat_dir_name''\<rparr>,
     \<lparr>hi_name = ''fd_prestat_get'', hi_tr = tr_i32_i32_result_i32, hi_func = ''wasi_fd_prestat_get''\<rparr>,
     \<lparr>hi_name = ''fd_pwrite'', hi_tr = tr_i32_i32_i32_i64_i32_result_i32, hi_func = ''wasi_fd_pwrite''\<rparr>,
     \<lparr>hi_name = ''fd_read'', hi_tr = tr_i32_i32_i32_i32_result_i32, hi_func = ''wasi_fd_read''\<rparr>,
     \<lparr>hi_name = ''fd_readdir'', hi_tr = tr_i32_i32_i32_i64_i32_result_i32, hi_func = ''wasi_fd_readdir''\<rparr>,
     \<lparr>hi_name = ''fd_renumber'', hi_tr = tr_i32_i32_result_i32, hi_func = ''wasi_fd_renumber''\<rparr>,
     \<lparr>hi_name = ''fd_seek'', hi_tr = tr_i32_i64_i32_i32_result_i32, hi_func = ''wasi_fd_seek''\<rparr>,
     \<lparr>hi_name = ''fd_sync'', hi_tr = tr_i32_result_i32, hi_func = ''wasi_fd_sync''\<rparr>,
     \<lparr>hi_name = ''fd_tell'', hi_tr = tr_i32_i32_result_i32, hi_func = ''wasi_fd_tell''\<rparr>,
     \<lparr>hi_name = ''fd_write'', hi_tr = tr_i32_i32_i32_i32_result_i32, hi_func = ''wasi_fd_write''\<rparr>,
     \<lparr>hi_name = ''path_create_directory'', hi_tr = tr_i32_i32_i32_result_i32, hi_func = ''wasi_path_create_directory''\<rparr>,
     \<lparr>hi_name = ''path_filestat_get'', hi_tr = tr_i32_i32_i32_i32_i32_result_i32, hi_func = ''wasi_path_filestat_get''\<rparr>,
     \<lparr>hi_name = ''path_filestat_set_times'', hi_tr = tr_i32_i32_i32_i32_i64_i64_i32_result_i32, hi_func = ''wasi_path_filestat_set_times''\<rparr>,
     \<lparr>hi_name = ''path_link'', hi_tr = tr_i32_i32_i32_i32_i32_i32_i32_result_i32, hi_func = ''wasi_path_link''\<rparr>,
     \<lparr>hi_name = ''path_open'', hi_tr = tr_i32_i32_i32_i32_i32_i64_i64_i32_i32_result_i32, hi_func = ''wasi_path_open''\<rparr>,
     \<lparr>hi_name = ''path_readlink'', hi_tr = tr_i32_i32_i32_i32_i32_i32_result_i32, hi_func = ''wasi_path_readlink''\<rparr>,
     \<lparr>hi_name = ''path_remove_directory'', hi_tr = tr_i32_i32_i32_result_i32, hi_func = ''wasi_path_remove_directory''\<rparr>,
     \<lparr>hi_name = ''path_rename'', hi_tr = tr_i32_i32_i32_i32_i32_i32_result_i32, hi_func = ''wasi_path_rename''\<rparr>,
     \<lparr>hi_name = ''path_symlink'', hi_tr = tr_i32_i32_i32_i32_i32_result_i32, hi_func = ''wasi_path_symlink''\<rparr>,
     \<lparr>hi_name = ''path_unlink_file'', hi_tr = tr_i32_i32_i32_result_i32, hi_func = ''wasi_path_unlink_file''\<rparr>,
     \<lparr>hi_name = ''poll_oneoff'', hi_tr = tr_i32_i32_i32_i32_result_i32, hi_func = ''wasi_poll_oneoff''\<rparr>,
     \<lparr>hi_name = ''proc_exit'', hi_tr = tr_i32_result_void, hi_func = ''wasi_proc_exit''\<rparr>,
     \<lparr>hi_name = ''proc_raise'', hi_tr = tr_i32_result_i32, hi_func = ''wasi_proc_raise''\<rparr>,
     \<lparr>hi_name = ''random_get'', hi_tr = tr_i32_i32_result_i32, hi_func = ''wasi_random_get''\<rparr>,
     \<lparr>hi_name = ''sched_yield'', hi_tr = tr_void_result_i32, hi_func = ''wasi_sched_yield''\<rparr>,
     \<lparr>hi_name = ''sock_accept'', hi_tr = tr_i32_i32_i32_result_i32, hi_func = ''wasi_sock_accept''\<rparr>,
     \<lparr>hi_name = ''sock_recv'', hi_tr = tr_i32_i32_i32_i32_i32_i32_result_i32, hi_func = ''wasi_sock_recv''\<rparr>,
     \<lparr>hi_name = ''sock_send'', hi_tr = tr_i32_i32_i32_i32_i32_result_i32, hi_func = ''wasi_sock_send''\<rparr>,
     \<lparr>hi_name = ''sock_shutdown'', hi_tr = tr_i32_i32_result_i32, hi_func = ''wasi_sock_shutdown''\<rparr>]"

definition spectest_wasm :: "u8 list" where
  "spectest_wasm =
     [0x00, 0x61, 0x73, 0x6d, 0x01, 0x00, 0x00, 0x00, 0x01, 0x1e, 0x07, 0x60, 0x00, 0x00, 0x60, 0x01,
      0x7f, 0x00, 0x60, 0x01, 0x7e, 0x00, 0x60, 0x01, 0x7d, 0x00, 0x60, 0x01, 0x7c, 0x00, 0x60, 0x02,
      0x7f, 0x7d, 0x00, 0x60, 0x02, 0x7c, 0x7c, 0x00, 0x03, 0x08, 0x07, 0x00, 0x01, 0x02, 0x03, 0x04,
      0x05, 0x06, 0x04, 0x05, 0x01, 0x70, 0x01, 0x0a, 0x14, 0x05, 0x04, 0x01, 0x01, 0x01, 0x02, 0x06,
      0x21, 0x04, 0x7f, 0x00, 0x41, 0x9a, 0x05, 0x0b, 0x7e, 0x00, 0x42, 0x9a, 0x05, 0x0b, 0x7d, 0x00,
      0x43, 0x00, 0x80, 0x26, 0x44, 0x0b, 0x7c, 0x00, 0x44, 0x00, 0x00, 0x00, 0x00, 0x00, 0xd0, 0x84,
      0x40, 0x0b, 0x07, 0x9e, 0x01, 0x0d, 0x05, 0x70, 0x72, 0x69, 0x6e, 0x74, 0x00, 0x00, 0x09, 0x70,
      0x72, 0x69, 0x6e, 0x74, 0x5f, 0x69, 0x33, 0x32, 0x00, 0x01, 0x09, 0x70, 0x72, 0x69, 0x6e, 0x74,
      0x5f, 0x69, 0x36, 0x34, 0x00, 0x02, 0x09, 0x70, 0x72, 0x69, 0x6e, 0x74, 0x5f, 0x66, 0x33, 0x32,
      0x00, 0x03, 0x09, 0x70, 0x72, 0x69, 0x6e, 0x74, 0x5f, 0x66, 0x36, 0x34, 0x00, 0x04, 0x0d, 0x70,
      0x72, 0x69, 0x6e, 0x74, 0x5f, 0x69, 0x33, 0x32, 0x5f, 0x66, 0x33, 0x32, 0x00, 0x05, 0x0d, 0x70,
      0x72, 0x69, 0x6e, 0x74, 0x5f, 0x66, 0x36, 0x34, 0x5f, 0x66, 0x36, 0x34, 0x00, 0x06, 0x05, 0x74,
      0x61, 0x62, 0x6c, 0x65, 0x01, 0x00, 0x06, 0x6d, 0x65, 0x6d, 0x6f, 0x72, 0x79, 0x02, 0x00, 0x0a,
      0x67, 0x6c, 0x6f, 0x62, 0x61, 0x6c, 0x5f, 0x69, 0x33, 0x32, 0x03, 0x00, 0x0a, 0x67, 0x6c, 0x6f,
      0x62, 0x61, 0x6c, 0x5f, 0x69, 0x36, 0x34, 0x03, 0x01, 0x0a, 0x67, 0x6c, 0x6f, 0x62, 0x61, 0x6c,
      0x5f, 0x66, 0x33, 0x32, 0x03, 0x02, 0x0a, 0x67, 0x6c, 0x6f, 0x62, 0x61, 0x6c, 0x5f, 0x66, 0x36,
      0x34, 0x03, 0x03, 0x0a, 0x16, 0x07, 0x02, 0x00, 0x0b, 0x02, 0x00, 0x0b, 0x02, 0x00, 0x0b, 0x02,
      0x00, 0x0b, 0x02, 0x00, 0x0b, 0x02, 0x00, 0x0b, 0x02, 0x00, 0x0b]"

definition wasi_wasm :: "u8 list" where
  "wasi_wasm =
     [0x00, 0x61, 0x73, 0x6d, 0x01, 0x00, 0x00, 0x00, 0x01, 0x86, 0x01, 0x11, 0x60, 0x02, 0x7f, 0x7f,
      0x01, 0x7f, 0x60, 0x03, 0x7f, 0x7e, 0x7f, 0x01, 0x7f, 0x60, 0x04, 0x7f, 0x7e, 0x7e, 0x7f, 0x01,
      0x7f, 0x60, 0x03, 0x7f, 0x7e, 0x7e, 0x01, 0x7f, 0x60, 0x01, 0x7f, 0x01, 0x7f, 0x60, 0x02, 0x7f,
      0x7e, 0x01, 0x7f, 0x60, 0x05, 0x7f, 0x7f, 0x7f, 0x7e, 0x7f, 0x01, 0x7f, 0x60, 0x03, 0x7f, 0x7f,
      0x7f, 0x01, 0x7f, 0x60, 0x04, 0x7f, 0x7f, 0x7f, 0x7f, 0x01, 0x7f, 0x60, 0x04, 0x7f, 0x7e, 0x7f,
      0x7f, 0x01, 0x7f, 0x60, 0x05, 0x7f, 0x7f, 0x7f, 0x7f, 0x7f, 0x01, 0x7f, 0x60, 0x07, 0x7f, 0x7f,
      0x7f, 0x7f, 0x7e, 0x7e, 0x7f, 0x01, 0x7f, 0x60, 0x07, 0x7f, 0x7f, 0x7f, 0x7f, 0x7f, 0x7f, 0x7f,
      0x01, 0x7f, 0x60, 0x09, 0x7f, 0x7f, 0x7f, 0x7f, 0x7f, 0x7e, 0x7e, 0x7f, 0x7f, 0x01, 0x7f, 0x60,
      0x06, 0x7f, 0x7f, 0x7f, 0x7f, 0x7f, 0x7f, 0x01, 0x7f, 0x60, 0x01, 0x7f, 0x00, 0x60, 0x00, 0x01,
      0x7f, 0x03, 0x2f, 0x2e, 0x00, 0x00, 0x00, 0x01, 0x00, 0x00, 0x02, 0x03, 0x04, 0x04, 0x00, 0x00,
      0x03, 0x00, 0x05, 0x02, 0x06, 0x07, 0x00, 0x06, 0x08, 0x06, 0x00, 0x09, 0x04, 0x00, 0x08, 0x07,
      0x0a, 0x0b, 0x0c, 0x0d, 0x0e, 0x07, 0x0e, 0x0a, 0x07, 0x08, 0x0f, 0x04, 0x00, 0x10, 0x07, 0x0e,
      0x0a, 0x00, 0x07, 0xcb, 0x05, 0x2e, 0x08, 0x61, 0x72, 0x67, 0x73, 0x5f, 0x67, 0x65, 0x74, 0x00,
      0x00, 0x0e, 0x61, 0x72, 0x67, 0x73, 0x5f, 0x73, 0x69, 0x7a, 0x65, 0x73, 0x5f, 0x67, 0x65, 0x74,
      0x00, 0x01, 0x0d, 0x63, 0x6c, 0x6f, 0x63, 0x6b, 0x5f, 0x72, 0x65, 0x73, 0x5f, 0x67, 0x65, 0x74,
      0x00, 0x02, 0x0e, 0x63, 0x6c, 0x6f, 0x63, 0x6b, 0x5f, 0x74, 0x69, 0x6d, 0x65, 0x5f, 0x67, 0x65,
      0x74, 0x00, 0x03, 0x0b, 0x65, 0x6e, 0x76, 0x69, 0x72, 0x6f, 0x6e, 0x5f, 0x67, 0x65, 0x74, 0x00,
      0x04, 0x11, 0x65, 0x6e, 0x76, 0x69, 0x72, 0x6f, 0x6e, 0x5f, 0x73, 0x69, 0x7a, 0x65, 0x73, 0x5f,
      0x67, 0x65, 0x74, 0x00, 0x05, 0x09, 0x66, 0x64, 0x5f, 0x61, 0x64, 0x76, 0x69, 0x73, 0x65, 0x00,
      0x06, 0x0b, 0x66, 0x64, 0x5f, 0x61, 0x6c, 0x6c, 0x6f, 0x63, 0x61, 0x74, 0x65, 0x00, 0x07, 0x08,
      0x66, 0x64, 0x5f, 0x63, 0x6c, 0x6f, 0x73, 0x65, 0x00, 0x08, 0x0b, 0x66, 0x64, 0x5f, 0x64, 0x61,
      0x74, 0x61, 0x73, 0x79, 0x6e, 0x63, 0x00, 0x09, 0x0d, 0x66, 0x64, 0x5f, 0x66, 0x64, 0x73, 0x74,
      0x61, 0x74, 0x5f, 0x67, 0x65, 0x74, 0x00, 0x0a, 0x13, 0x66, 0x64, 0x5f, 0x66, 0x64, 0x73, 0x74,
      0x61, 0x74, 0x5f, 0x73, 0x65, 0x74, 0x5f, 0x66, 0x6c, 0x61, 0x67, 0x73, 0x00, 0x0b, 0x14, 0x66,
      0x64, 0x5f, 0x66, 0x64, 0x73, 0x74, 0x61, 0x74, 0x5f, 0x73, 0x65, 0x74, 0x5f, 0x72, 0x69, 0x67,
      0x68, 0x74, 0x73, 0x00, 0x0c, 0x0f, 0x66, 0x64, 0x5f, 0x66, 0x69, 0x6c, 0x65, 0x73, 0x74, 0x61,
      0x74, 0x5f, 0x67, 0x65, 0x74, 0x00, 0x0d, 0x14, 0x66, 0x64, 0x5f, 0x66, 0x69, 0x6c, 0x65, 0x73,
      0x74, 0x61, 0x74, 0x5f, 0x73, 0x65, 0x74, 0x5f, 0x73, 0x69, 0x7a, 0x65, 0x00, 0x0e, 0x15, 0x66,
      0x64, 0x5f, 0x66, 0x69, 0x6c, 0x65, 0x73, 0x74, 0x61, 0x74, 0x5f, 0x73, 0x65, 0x74, 0x5f, 0x74,
      0x69, 0x6d, 0x65, 0x73, 0x00, 0x0f, 0x08, 0x66, 0x64, 0x5f, 0x70, 0x72, 0x65, 0x61, 0x64, 0x00,
      0x10, 0x13, 0x66, 0x64, 0x5f, 0x70, 0x72, 0x65, 0x73, 0x74, 0x61, 0x74, 0x5f, 0x64, 0x69, 0x72,
      0x5f, 0x6e, 0x61, 0x6d, 0x65, 0x00, 0x11, 0x0e, 0x66, 0x64, 0x5f, 0x70, 0x72, 0x65, 0x73, 0x74,
      0x61, 0x74, 0x5f, 0x67, 0x65, 0x74, 0x00, 0x12, 0x09, 0x66, 0x64, 0x5f, 0x70, 0x77, 0x72, 0x69,
      0x74, 0x65, 0x00, 0x13, 0x07, 0x66, 0x64, 0x5f, 0x72, 0x65, 0x61, 0x64, 0x00, 0x14, 0x0a, 0x66,
      0x64, 0x5f, 0x72, 0x65, 0x61, 0x64, 0x64, 0x69, 0x72, 0x00, 0x15, 0x0b, 0x66, 0x64, 0x5f, 0x72,
      0x65, 0x6e, 0x75, 0x6d, 0x62, 0x65, 0x72, 0x00, 0x16, 0x07, 0x66, 0x64, 0x5f, 0x73, 0x65, 0x65,
      0x6b, 0x00, 0x17, 0x07, 0x66, 0x64, 0x5f, 0x73, 0x79, 0x6e, 0x63, 0x00, 0x18, 0x07, 0x66, 0x64,
      0x5f, 0x74, 0x65, 0x6c, 0x6c, 0x00, 0x19, 0x08, 0x66, 0x64, 0x5f, 0x77, 0x72, 0x69, 0x74, 0x65,
      0x00, 0x1a, 0x15, 0x70, 0x61, 0x74, 0x68, 0x5f, 0x63, 0x72, 0x65, 0x61, 0x74, 0x65, 0x5f, 0x64,
      0x69, 0x72, 0x65, 0x63, 0x74, 0x6f, 0x72, 0x79, 0x00, 0x1b, 0x11, 0x70, 0x61, 0x74, 0x68, 0x5f,
      0x66, 0x69, 0x6c, 0x65, 0x73, 0x74, 0x61, 0x74, 0x5f, 0x67, 0x65, 0x74, 0x00, 0x1c, 0x17, 0x70,
      0x61, 0x74, 0x68, 0x5f, 0x66, 0x69, 0x6c, 0x65, 0x73, 0x74, 0x61, 0x74, 0x5f, 0x73, 0x65, 0x74,
      0x5f, 0x74, 0x69, 0x6d, 0x65, 0x73, 0x00, 0x1d, 0x09, 0x70, 0x61, 0x74, 0x68, 0x5f, 0x6c, 0x69,
      0x6e, 0x6b, 0x00, 0x1e, 0x09, 0x70, 0x61, 0x74, 0x68, 0x5f, 0x6f, 0x70, 0x65, 0x6e, 0x00, 0x1f,
      0x0d, 0x70, 0x61, 0x74, 0x68, 0x5f, 0x72, 0x65, 0x61, 0x64, 0x6c, 0x69, 0x6e, 0x6b, 0x00, 0x20,
      0x15, 0x70, 0x61, 0x74, 0x68, 0x5f, 0x72, 0x65, 0x6d, 0x6f, 0x76, 0x65, 0x5f, 0x64, 0x69, 0x72,
      0x65, 0x63, 0x74, 0x6f, 0x72, 0x79, 0x00, 0x21, 0x0b, 0x70, 0x61, 0x74, 0x68, 0x5f, 0x72, 0x65,
      0x6e, 0x61, 0x6d, 0x65, 0x00, 0x22, 0x0c, 0x70, 0x61, 0x74, 0x68, 0x5f, 0x73, 0x79, 0x6d, 0x6c,
      0x69, 0x6e, 0x6b, 0x00, 0x23, 0x10, 0x70, 0x61, 0x74, 0x68, 0x5f, 0x75, 0x6e, 0x6c, 0x69, 0x6e,
      0x6b, 0x5f, 0x66, 0x69, 0x6c, 0x65, 0x00, 0x24, 0x0b, 0x70, 0x6f, 0x6c, 0x6c, 0x5f, 0x6f, 0x6e,
      0x65, 0x6f, 0x66, 0x66, 0x00, 0x25, 0x09, 0x70, 0x72, 0x6f, 0x63, 0x5f, 0x65, 0x78, 0x69, 0x74,
      0x00, 0x26, 0x0a, 0x70, 0x72, 0x6f, 0x63, 0x5f, 0x72, 0x61, 0x69, 0x73, 0x65, 0x00, 0x27, 0x0a,
      0x72, 0x61, 0x6e, 0x64, 0x6f, 0x6d, 0x5f, 0x67, 0x65, 0x74, 0x00, 0x28, 0x0b, 0x73, 0x63, 0x68,
      0x65, 0x64, 0x5f, 0x79, 0x69, 0x65, 0x6c, 0x64, 0x00, 0x29, 0x0b, 0x73, 0x6f, 0x63, 0x6b, 0x5f,
      0x61, 0x63, 0x63, 0x65, 0x70, 0x74, 0x00, 0x2a, 0x09, 0x73, 0x6f, 0x63, 0x6b, 0x5f, 0x72, 0x65,
      0x63, 0x76, 0x00, 0x2b, 0x09, 0x73, 0x6f, 0x63, 0x6b, 0x5f, 0x73, 0x65, 0x6e, 0x64, 0x00, 0x2c,
      0x0d, 0x73, 0x6f, 0x63, 0x6b, 0x5f, 0x73, 0x68, 0x75, 0x74, 0x64, 0x6f, 0x77, 0x6e, 0x00, 0x2d,
      0x0a, 0xe5, 0x01, 0x2e, 0x04, 0x00, 0x41, 0x01, 0x0b, 0x04, 0x00, 0x41, 0x01, 0x0b, 0x04, 0x00,
      0x41, 0x01, 0x0b, 0x04, 0x00, 0x41, 0x01, 0x0b, 0x04, 0x00, 0x41, 0x01, 0x0b, 0x04, 0x00, 0x41,
      0x01, 0x0b, 0x04, 0x00, 0x41, 0x01, 0x0b, 0x04, 0x00, 0x41, 0x01, 0x0b, 0x04, 0x00, 0x41, 0x01,
      0x0b, 0x04, 0x00, 0x41, 0x01, 0x0b, 0x04, 0x00, 0x41, 0x01, 0x0b, 0x04, 0x00, 0x41, 0x01, 0x0b,
      0x04, 0x00, 0x41, 0x01, 0x0b, 0x04, 0x00, 0x41, 0x01, 0x0b, 0x04, 0x00, 0x41, 0x01, 0x0b, 0x04,
      0x00, 0x41, 0x01, 0x0b, 0x04, 0x00, 0x41, 0x01, 0x0b, 0x04, 0x00, 0x41, 0x01, 0x0b, 0x04, 0x00,
      0x41, 0x01, 0x0b, 0x04, 0x00, 0x41, 0x01, 0x0b, 0x04, 0x00, 0x41, 0x01, 0x0b, 0x04, 0x00, 0x41,
      0x01, 0x0b, 0x04, 0x00, 0x41, 0x01, 0x0b, 0x04, 0x00, 0x41, 0x01, 0x0b, 0x04, 0x00, 0x41, 0x01,
      0x0b, 0x04, 0x00, 0x41, 0x01, 0x0b, 0x04, 0x00, 0x41, 0x01, 0x0b, 0x04, 0x00, 0x41, 0x01, 0x0b,
      0x04, 0x00, 0x41, 0x01, 0x0b, 0x04, 0x00, 0x41, 0x01, 0x0b, 0x04, 0x00, 0x41, 0x01, 0x0b, 0x04,
      0x00, 0x41, 0x01, 0x0b, 0x04, 0x00, 0x41, 0x01, 0x0b, 0x04, 0x00, 0x41, 0x01, 0x0b, 0x04, 0x00,
      0x41, 0x01, 0x0b, 0x04, 0x00, 0x41, 0x01, 0x0b, 0x04, 0x00, 0x41, 0x01, 0x0b, 0x04, 0x00, 0x41,
      0x01, 0x0b, 0x02, 0x00, 0x0b, 0x04, 0x00, 0x41, 0x01, 0x0b, 0x04, 0x00, 0x41, 0x01, 0x0b, 0x04,
      0x00, 0x41, 0x01, 0x0b, 0x04, 0x00, 0x41, 0x01, 0x0b, 0x04, 0x00, 0x41, 0x01, 0x0b, 0x04, 0x00,
      0x41, 0x01, 0x0b, 0x04, 0x00, 0x41, 0x01, 0x0b]"

section \<open>Modules\<close>

text \<open>The bytes of a C string.\<close>

definition cstr :: "string \<Rightarrow> str" where
  "cstr s = map of_char s"

fun find_host_func_info :: "str \<Rightarrow> host_func_info list \<Rightarrow> host_func_info option" where
  "find_host_func_info name [] = None"
| "find_host_func_info name (i # info) = (if str_eq name (cstr (hi_name i)) then Some i else find_host_func_info name info)"

definition inject_step :: "link \<Rightarrow> host_func_info list \<Rightarrow> export \<Rightarrow> module \<Rightarrow> module res" where
  "inject_step L info ex m =
     (if exp_kind ex = EXTERNAL_KIND_Function then
        unwrap (vec_at (funcs m) (unat (external_idx ex))) (\<lambda>f.
        if is_imported (f_linkage f) then Inl E_general
        else case find_host_func_info (exp_name ex) info of
               None \<Rightarrow> Inl E_general
             | Some i \<Rightarrow>
                 unwrap (vec_set (funcs m) (unat (external_idx ex)) (f\<lparr>f_tr := at_tr L (hi_tr i), f_host_func := at_fn L (hi_func i)\<rparr>)) (\<lambda>v.
                 Inr (m\<lparr>funcs := v\<rparr>)))
      else Inr m)"

definition inject_host_functions :: "link \<Rightarrow> module \<Rightarrow> host_func_info list \<Rightarrow> module res" where
  "inject_host_functions L m info = foreach_res (inject_step L info) (vdata (exports m)) m"

text \<open>
  The options \<open>SILVERFIR_ENABLE_SPECTEST\<close> and \<open>SILVERFIR_ENABLE_WASI\<close> are arguments.  When a step fails the
  module is dropped, which calls \<open>wasi_ctx_drop\<close> if the module has a context.
\<close>

definition host_mod_spectest :: "alloc \<Rightarrow> link \<Rightarrow> module res" where
  "host_mod_spectest am L =
     unwrap (module_init am module_zero (vstr_static spectest_wasm) (vstr_static (cstr ''spectest''))) (\<lambda>m.
     inject_host_functions L m spectest_host_info)"

definition host_mod_wasi ::
  "alloc \<Rightarrow> link \<Rightarrow> ('u, 's) uvwasi \<Rightarrow> nat \<Rightarrow> wasi_args \<Rightarrow> 'u sys \<Rightarrow> module res \<times> 'u sys" where
  "host_mod_wasi am L uw calloc_ctx g s =
     (case wasi_ctx_get uw calloc_ctx g s of
        (Inl e, s) \<Rightarrow> (Inl e, s)
      | (Inr wctx, s) \<Rightarrow>
          if wctx = 0 then (Inl E_general, s)
          else
            (case unwrap (module_init am (module_zero\<lparr>resource_payload := wctx, resource_drop_cb := at_drop L\<rparr>)
                            (vstr_static wasi_wasm) (vstr_static (cstr ''wasi_snapshot_preview1''))) (\<lambda>m.
                  unwrap (inject_host_functions L m wasi_host_info) (\<lambda>m.
                  module_register_name am m (vstr_static (cstr ''wasi_unstable'')))) of
               Inr m \<Rightarrow> (Inr m, s)
             | Inl e \<Rightarrow> (case wasi_ctx_drop uw wctx s of (Inl f, s) \<Rightarrow> (Inl f, s) | (Inr _, s) \<Rightarrow> (Inl e, s))))"

definition host_mod_new ::
  "bool \<Rightarrow> bool \<Rightarrow> alloc \<Rightarrow> link \<Rightarrow> ('u, 's) uvwasi \<Rightarrow> nat \<Rightarrow> wasi_args \<Rightarrow> str \<Rightarrow> 'u sys \<Rightarrow> module res \<times> 'u sys" where
  "host_mod_new enable_spectest enable_wasi am L uw calloc_ctx g name s =
     (if enable_spectest \<and> str_eq name (cstr ''spectest'') then (host_mod_spectest am L, s)
      else if enable_wasi \<and> str_eq name (cstr ''wasi_snapshot_preview1'') then host_mod_wasi am L uw calloc_ctx g s
      else (Inl E_general, s))"

end
