(* ===== verification/Parser_Roundtrip.thy ===== *)
theory Parser_Roundtrip
  imports Stream_At Parser_Correct
begin

text \<open>
  Encoding of modules in the binary format and the parser as its inverse.

  \<open>module_text\<close> is the abstract syntax of a module without imports, start function, elements and
  data: its types, functions, tables, memories, globals, exports and function bodies.
  \<open>encode_module\<close> writes it down as the binary format prescribes, with the shortest LEB128 for every
  number and no section for an empty list.  \<open>decode_module\<close> is the module that the program should
  hold for it, \<open>res\<close> being the resource of the host that it carries.  Every parser of a part and of a section is shown to invert the encoder of that part
  (\<open>step\<close> lemmas, combined by \<open>texts_loop\<close>), at any place of a stream.
\<close>

section \<open>Encoding\<close>

type_synonym limits_text = "nat \<times> nat option"
type_synonym body_text = "(nat \<times> u8) list \<times> u8 list"

record module_text =
  mt_types :: "(u8 list \<times> u8 list) list"
  mt_funcs :: "nat list"
  mt_tables :: "(u8 \<times> limits_text) list"
  mt_memories :: "limits_text list"
  mt_globals :: "(u8 \<times> bool \<times> u8 list) list"
  mt_exports :: "(u8 list \<times> u8 \<times> nat) list"
  mt_bodies :: "body_text list"

definition enc_vec :: "u8 list \<Rightarrow> u8 list" where
  "enc_vec bs = leb_encode (length bs) @ bs"

definition enc_type :: "u8 list \<times> u8 list \<Rightarrow> u8 list" where
  "enc_type = (\<lambda>(ps, rs). 0x60 # enc_vec ps @ enc_vec rs)"

definition enc_limits :: "limits_text \<Rightarrow> u8 list" where
  "enc_limits = (\<lambda>(mn, mx). case mx of None \<Rightarrow> 0 # leb_encode mn | Some x \<Rightarrow> 1 # leb_encode mn @ leb_encode x)"

definition enc_table :: "u8 \<times> limits_text \<Rightarrow> u8 list" where
  "enc_table = (\<lambda>(t, lim). t # enc_limits lim)"

definition enc_global :: "u8 \<times> bool \<times> u8 list \<Rightarrow> u8 list" where
  "enc_global = (\<lambda>(t, mut, e). t # (if mut then 1 else 0) # e)"

definition enc_export :: "u8 list \<times> u8 \<times> nat \<Rightarrow> u8 list" where
  "enc_export = (\<lambda>(name, kind, i). enc_vec name @ kind # leb_encode i)"

definition enc_local :: "nat \<times> u8 \<Rightarrow> u8 list" where
  "enc_local = (\<lambda>(n, t). leb_encode n @ [t])"

definition enc_items :: "('a \<Rightarrow> u8 list) \<Rightarrow> 'a list \<Rightarrow> u8 list" where
  "enc_items enc xs = leb_encode (length xs) @ concat (map enc xs)"

definition enc_body :: "body_text \<Rightarrow> u8 list" where
  "enc_body = (\<lambda>(ls, code). enc_vec (enc_items enc_local ls @ code))"

definition enc_section :: "u8 \<Rightarrow> ('a \<Rightarrow> u8 list) \<Rightarrow> 'a list \<Rightarrow> u8 list" where
  "enc_section sid enc xs = (if xs = [] then [] else sid # enc_vec (enc_items enc xs))"

definition encode_module :: "module_text \<Rightarrow> u8 list" where
  "encode_module t =
     [0x00, 0x61, 0x73, 0x6d, 0x01, 0x00, 0x00, 0x00] @
     enc_section 1 enc_type (mt_types t) @ enc_section 3 leb_encode (mt_funcs t) @
     enc_section 4 enc_table (mt_tables t) @ enc_section 5 enc_limits (mt_memories t) @
     enc_section 6 enc_global (mt_globals t) @ enc_section 7 enc_export (mt_exports t) @
     enc_section 10 enc_body (mt_bodies t)"

section \<open>Modules that can be written down\<close>

text \<open>The texts of constant expressions.\<close>

inductive const_text :: "u8 list \<Rightarrow> bool" where
  const_end: "const_text [0x0b]"
| const_i32: "sleb_text 32 bs \<Longrightarrow> const_text e \<Longrightarrow> const_text (0x41 # bs @ e)"
| const_i64: "sleb_text 64 bs \<Longrightarrow> const_text e \<Longrightarrow> const_text (0x42 # bs @ e)"
| const_f32: "length bs = 4 \<Longrightarrow> const_text e \<Longrightarrow> const_text (0x43 # bs @ e)"
| const_f64: "length bs = 8 \<Longrightarrow> const_text e \<Longrightarrow> const_text (0x44 # bs @ e)"
| const_null: "t < 0x80 \<Longrightarrow> const_text e \<Longrightarrow> const_text (0xd0 # t # e)"
| const_func: "i < 2 ^ 32 \<Longrightarrow> const_text e \<Longrightarrow> const_text (0xd2 # leb_encode i @ e)"
| const_global: "i < 2 ^ 32 \<Longrightarrow> const_text e \<Longrightarrow> const_text (0x23 # leb_encode i @ e)"

definition value_byte :: "u8 \<Rightarrow> bool" where
  "value_byte b \<longleftrightarrow> b < 0x80 \<and> is_value_type (vi7 b)"

definition ref_byte :: "u8 \<Rightarrow> bool" where
  "ref_byte b \<longleftrightarrow> b < 0x80 \<and> is_ref (vi7 b)"

definition limits_ok :: "nat \<Rightarrow> limits_text \<Rightarrow> bool" where
  "limits_ok cap = (\<lambda>(mn, mx). case mx of None \<Rightarrow> mn \<le> cap | Some x \<Rightarrow> mn \<le> x \<and> x \<le> cap)"

definition body_ok :: "body_text \<Rightarrow> bool" where
  "body_ok = (\<lambda>(ls, code). code \<noteq> [] \<and> list_all (value_byte \<circ> snd) ls \<and> sum_list (map fst ls) < 2 ^ 32)"

definition export_ok :: "module_text \<Rightarrow> u8 list \<times> u8 \<times> nat \<Rightarrow> bool" where
  "export_ok t = (\<lambda>(name, kind, i). is_valid_utf8 name \<and>
     (kind = 0 \<and> i < length (mt_funcs t) \<or> kind = 1 \<and> i < length (mt_tables t) \<or>
      kind = 2 \<and> i < length (mt_memories t) \<or> kind = 3 \<and> i < length (mt_globals t)))"

definition text_ok :: "module_text \<Rightarrow> bool" where
  "text_ok t \<longleftrightarrow>
     length (encode_module t) < 2 ^ 32 \<and>
     list_all (\<lambda>(ps, rs). list_all value_byte (ps @ rs) \<and> length ps \<le> 65535 \<and> length rs \<le> 65535) (mt_types t) \<and>
     list_all (\<lambda>i. i < length (mt_types t)) (mt_funcs t) \<and>
     list_all (\<lambda>(b, lim). ref_byte b \<and> limits_ok (2 ^ 32 - 1) lim) (mt_tables t) \<and>
     list_all (limits_ok 65536) (mt_memories t) \<and>
     list_all (\<lambda>(b, _, e). value_byte b \<and> const_text e) (mt_globals t) \<and>
     list_all (export_ok t) (mt_exports t) \<and>
     length (mt_bodies t) = length (mt_funcs t) \<and> list_all body_ok (mt_bodies t)"

section \<open>The module in the program\<close>

definition filled :: "nat \<Rightarrow> 'a list \<Rightarrow> 'a vec" where
  "filled n xs = (if n = 0 then vec_empty else \<lparr>vdata = xs, vcap = n, vnonnull = True, vfixed = True\<rparr>)"

definition dec_type :: "u8 list \<times> u8 list \<Rightarrow> func_type" where
  "dec_type = (\<lambda>(ps, rs). \<lparr>param_count = of_nat (length ps), result_count = of_nat (length rs), params = ps, results = rs\<rparr>)"

definition dec_limits :: "u32 \<Rightarrow> limits_text \<Rightarrow> limits" where
  "dec_limits cap = (\<lambda>(mn, mx). \<lparr>lim_min = of_nat mn, lim_max = (case mx of None \<Rightarrow> cap | Some x \<Rightarrow> of_nat x)\<rparr>)"

text \<open>The linkage of the element \<open>i\<close> of a kind when the exports \<open>exps\<close> have been read.\<close>

definition dec_linkage :: "(u8 list \<times> u8 \<times> nat) list \<Rightarrow> u8 \<Rightarrow> nat \<Rightarrow> u32" where
  "dec_linkage exps kind i = (if \<exists>name. (name, kind, i) \<in> set exps then linkage_exported else linkage_none)"

definition dec_func :: "module_text \<Rightarrow> nat \<Rightarrow> func" where
  "dec_func t i = (let ft = dec_type (mt_types t ! (mt_funcs t ! i)) in func_zero\<lparr>fn_type := ft, local_count := param_count ft\<rparr>)"

definition dec_table :: "u8 \<times> limits_text \<Rightarrow> table" where
  "dec_table = (\<lambda>(b, lim). \<lparr>tab_valtype = vi7 b, tab_lim = dec_limits u32_MAX lim, tab_linkage = linkage_none, tab_path = path_null\<rparr>)"

definition dec_memory :: "limits_text \<Rightarrow> memory" where
  "dec_memory lim = \<lparr>mem_lim = dec_limits WASM_MEM_MAX_PAGES lim, mem_linkage = linkage_none, mem_path = path_null\<rparr>"

definition dec_global :: "u8 \<times> bool \<times> u8 list \<Rightarrow> global" where
  "dec_global = (\<lambda>(b, mut, e). \<lparr>g_valtype = vi7 b, g_mut = mut, g_expr = e, g_linkage = linkage_none, g_path = path_null\<rparr>)"

definition dec_export :: "u8 list \<times> u8 \<times> nat \<Rightarrow> export" where
  "dec_export = (\<lambda>(name, kind, i).
     \<lparr>exp_name = name, exp_kind = the (external_kind_of kind), external_idx = of_nat i\<rparr>)"

definition dec_body :: "body_text \<Rightarrow> func \<Rightarrow> func" where
  "dec_body = (\<lambda>(ls, code) fn.
     let lts = concat (map (\<lambda>(n, b). replicate n (vi7 b)) ls) in
     fn\<lparr>f_code := code, local_types := \<lparr>vdata = lts, vcap = length lts, vnonnull = (lts \<noteq> []), vfixed = True\<rparr>,
        local_count := local_count fn + of_nat (length lts)\<rparr>)"

text \<open>The module after \<open>exps\<close> of the exports and \<open>k\<close> of the bodies.\<close>

definition dec_funcs :: "module_text \<Rightarrow> (u8 list \<times> u8 \<times> nat) list \<Rightarrow> nat \<Rightarrow> func vec" where
  "dec_funcs t exps k = filled (length (mt_funcs t)) (map (\<lambda>i.
     let fn = (dec_func t i)\<lparr>f_linkage := dec_linkage exps 0 i\<rparr> in if i < k then dec_body (mt_bodies t ! i) fn else fn)
     [0..<length (mt_funcs t)])"

definition dec_tables :: "module_text \<Rightarrow> (u8 list \<times> u8 \<times> nat) list \<Rightarrow> table vec" where
  "dec_tables t exps = filled (length (mt_tables t))
     (map (\<lambda>i. (dec_table (mt_tables t ! i))\<lparr>tab_linkage := dec_linkage exps 1 i\<rparr>) [0..<length (mt_tables t)])"

definition dec_memories :: "module_text \<Rightarrow> (u8 list \<times> u8 \<times> nat) list \<Rightarrow> memory vec" where
  "dec_memories t exps = filled (length (mt_memories t))
     (map (\<lambda>i. (dec_memory (mt_memories t ! i))\<lparr>mem_linkage := dec_linkage exps 2 i\<rparr>) [0..<length (mt_memories t)])"

definition dec_globals :: "module_text \<Rightarrow> (u8 list \<times> u8 \<times> nat) list \<Rightarrow> global vec" where
  "dec_globals t exps = filled (length (mt_globals t))
     (map (\<lambda>i. (dec_global (mt_globals t ! i))\<lparr>g_linkage := dec_linkage exps 3 i\<rparr>) [0..<length (mt_globals t)])"

definition decode_module :: "nat \<times> nat \<Rightarrow> vstr \<Rightarrow> module_text \<Rightarrow> module" where
  "decode_module res name t =
     module_zero\<lparr>
       wasm_bin := vstr_static (encode_module t),
       names := \<lparr>vdata = [name], vcap = 1, vnonnull = True, vfixed = False\<rparr>,
       format_version := 1,
       func_types := filled (length (mt_types t)) (map dec_type (mt_types t)),
       funcs := dec_funcs t (mt_exports t) (length (mt_bodies t)),
       tables := dec_tables t (mt_exports t), memories := dec_memories t (mt_exports t),
       globals := dec_globals t (mt_exports t),
       exports := filled (length (mt_exports t)) (map dec_export (mt_exports t)),
       resource_payload := fst res, resource_drop_cb := snd res\<rparr>"

section \<open>Loops\<close>

text \<open>A loop that reads the texts of the elements of a list: \<open>S i\<close> is the state after \<open>i\<close> rounds.\<close>

lemma texts_loop_from:
  assumes "P i s" "\<And>j s p r. i \<le> j \<Longrightarrow> j < i + length ys \<Longrightarrow> P j s \<Longrightarrow>
      \<exists>s'. step j (s, mk p (enc (ys ! (j - i)) @ r)) = Inr (s', mk (p @ enc (ys ! (j - i))) r) \<and> P (Suc j) s'"
  shows "\<exists>s'. for_res i (length ys) step (s, mk p (concat (map enc ys) @ r)) = Inr (s', mk (p @ concat (map enc ys)) r) \<and> P (i + length ys) s'"
  using assms
proof (induction ys arbitrary: i p s)
  case (Cons y ys)
  obtain s1 where s1: "step i (s, mk p (enc y @ concat (map enc ys) @ r)) = Inr (s1, mk (p @ enc y) (concat (map enc ys) @ r))" "P (Suc i) s1"
    using Cons.prems(2) [of i s p "concat (map enc ys) @ r"] Cons.prems(1) by auto
  have "\<exists>s'. for_res (Suc i) (length ys) step (s1, mk (p @ enc y) (concat (map enc ys) @ r)) =
      Inr (s', mk ((p @ enc y) @ concat (map enc ys)) r) \<and> P (Suc i + length ys) s'"
  proof (rule Cons.IH)
    fix j s p r assume *: "Suc i \<le> j" "j < Suc i + length ys" "P j s"
    then have "j - i = Suc (j - Suc i)" by simp
    with * Cons.prems(2) [of j s p r]
    show "\<exists>s'. step j (s, mk p (enc (ys ! (j - Suc i)) @ r)) = Inr (s', mk (p @ enc (ys ! (j - Suc i))) r) \<and> P (Suc j) s'"
      by (simp only: nth_Cons_Suc) simp
  qed (rule s1)
  with s1(1) show ?case by simp
qed auto

lemma texts_loop_inv:
  assumes "P 0 s" "\<And>i s p r. i < length xs \<Longrightarrow> P i s \<Longrightarrow>
    \<exists>s'. step i (s, mk p (enc (xs ! i) @ r)) = Inr (s', mk (p @ enc (xs ! i)) r) \<and> P (Suc i) s'"
  shows "\<exists>s'. for_res 0 (length xs) step (s, mk p (concat (map enc xs) @ r)) = Inr (s', mk (p @ concat (map enc xs)) r) \<and> P (length xs) s'"
  using texts_loop_from [of P 0 s xs step enc p r] assms by simp

lemma texts_loop:
  assumes "\<And>i p r. i < length xs \<Longrightarrow> step i (S i, mk p (enc (xs ! i) @ r)) = Inr (S (Suc i), mk (p @ enc (xs ! i)) r)"
  shows "for_res 0 (length xs) step (S 0, mk p (concat (map enc xs) @ r)) = Inr (S (length xs), mk (p @ concat (map enc xs)) r)"
  using texts_loop_inv [of "\<lambda>i s. s = S i" "S 0" xs step enc p r] assms by auto

text \<open>The same for a whole section that reserves and fills one vector.\<close>

lemma vec_push_filled [simp]: "length xs < n \<Longrightarrow> vec_push am (filled n xs) x = Inr (filled n (xs @ [x]))"
  by (cases n) (simp_all add: filled_def vec_push_def vec_size_def)

lemma filled_simps [simp]:
  "length xs = n \<Longrightarrow> vdata (filled n xs) = xs" "length xs = n \<Longrightarrow> vec_size (filled n xs) = n"
  "length xs = n \<Longrightarrow> i < n \<Longrightarrow> vec_at (filled n xs) i = Inr (xs ! i)"
  "length xs = n \<Longrightarrow> i < n \<Longrightarrow> vec_set (filled n xs) i x = Inr (filled n (xs[i := x]))"
  "filled 0 xs = vec_empty"
  by (auto simp: filled_def vec_empty_def vec_size_def vec_at_def vec_set_def)

lemma reserve_filled [simp]:
  "n \<noteq> 0 \<Longrightarrow> vec_reserve (\<lambda>_. True) vec_empty n = Inr \<lparr>vdata = [], vcap = n, vnonnull = True, vfixed = False\<rparr>"
  "n \<noteq> 0 \<Longrightarrow> vec_set_fixed \<lparr>vdata = [], vcap = n, vnonnull = True, vfixed = False\<rparr> True = filled n []"
  by (simp_all add: vec_reserve_def vec_empty_def vec_set_fixed_def filled_def)

lemma section_end_mk [simp]: "section_end (m, mk p []) = Inr m"
  by (simp add: section_end_def)

section \<open>Parts\<close>

lemma leb_encode_pos: "0 < length (leb_encode n)"
  by (subst leb_encode.simps) simp

lemma items_lengths:
  assumes "length (enc_items enc xs @ r) < 2 ^ 32" "\<And>x. x \<in> set xs \<Longrightarrow> 0 < length (enc x)"
  shows "length xs < 2 ^ 32" "\<And>x. x \<in> set xs \<Longrightarrow> length (enc x) < 2 ^ 32"
proof -
  have "length xs \<le> length (concat (map enc xs))"
    using assms(2)
  proof (induction xs)
    case (Cons x xs)
    then have "length xs \<le> length (concat (map enc xs))" "0 < length (enc x)" by auto
    then show ?case by (simp only: list.map concat.simps length_append list.size)
  qed simp
  then show "length xs < 2 ^ 32"
    using assms(1) by (simp add: enc_items_def)
  show "length (enc x) < 2 ^ 32" if "x \<in> set xs" for x
    using assms(1) member_le_sum_list [of "length (enc x)" "map (length \<circ> enc) xs"] that
    by (auto simp: enc_items_def length_concat)
qed

lemma unat_of_nat32 [simp]: "n < 2 ^ 32 \<Longrightarrow> unat (of_nat n :: u32) = n"
  by (simp add: unat_of_nat take_bit_nat_eq_self)

lemma of_nat32_zero: "n < 2 ^ 32 \<Longrightarrow> (of_nat n :: u32) = 0 \<longleftrightarrow> n = 0"
proof
  assume "n < 2 ^ 32" "(of_nat n :: u32) = 0"
  then show "n = 0" using unat_of_nat32 [of n] by simp
qed simp

lemma types_loop:
  "list_all value_byte bs \<Longrightarrow> for_res i (length bs) check_value_type_step (mk p (bs @ r)) = Inr (mk (p @ bs) r)"
  by (induction bs arbitrary: i p)
    (auto simp: check_value_type_step_def value_byte_def not_le)

lemma parse_type_vec_text:
  assumes "list_all value_byte bs" "length bs \<le> 65535"
  shows "parse_type_vec (mk p (enc_vec bs @ r)) = Inr ((of_nat (length bs), bs), mk (p @ enc_vec bs) r)"
proof -
  have n: "length bs < 2 ^ 32" using assms(2) by simp
  then have "\<not> RESULT_TYPE_COUNT_MAX < of_nat (length bs)"
    using assms(2) by (simp add: RESULT_TYPE_COUNT_MAX_def word_less_nat_alt)
  moreover have "(of_nat (length bs) :: u32) = 0 \<longleftrightarrow> bs = []"
    using of_nat32_zero [OF n] by simp
  ultimately show ?thesis
    using n types_loop [OF assms(1), of 0 "p @ leb_encode (length bs)" r]
    by (simp add: parse_type_vec_def enc_vec_def stream_read_vu32_mk Let_def)
qed

lemma type_step:
  assumes "list_all value_byte (ps @ rs)" "length ps \<le> 65535" "length rs \<le> 65535"
  shows "parse_section_type_step am i (m, mk p (enc_type (ps, rs) @ r)) =
    unwrap (vec_push (am T_func_type) (func_types m) (dec_type (ps, rs))) (\<lambda>v. Inr (m\<lparr>func_types := v\<rparr>, mk (p @ enc_type (ps, rs)) r))"
  using assms parse_type_vec_text [of ps "p @ [0x60]" "enc_vec rs @ r"] parse_type_vec_text [of rs "p @ 0x60 # enc_vec ps" r]
  by (simp add: parse_section_type_step_def enc_type_def dec_type_def)

lemma parse_limits_text:
  assumes "limits_ok (unat cap) lim"
  shows "parse_limits (mk p (enc_limits lim @ r)) cap = Inr (dec_limits cap lim, mk (p @ enc_limits lim) r)"
proof -
  obtain mn mx where lim: "lim = (mn, mx)" by (cases lim)
  have cap: "unat cap < 2 ^ LENGTH(32)" by (rule unsigned_less)
  show ?thesis
  proof (cases mx)
    case None
    then have "mn < 2 ^ 32" "\<not> cap < of_nat mn"
      using assms cap lim by (simp_all add: limits_ok_def word_less_nat_alt)
    with None show ?thesis
      by (simp add: lim parse_limits_def enc_limits_def dec_limits_def stream_read_vu32_mk)
  next
    case (Some x)
    then have "mn < 2 ^ 32" "x < 2 ^ 32" "(of_nat x :: u32) \<le> cap" "\<not> (of_nat x :: u32) < of_nat mn"
      using assms cap lim by (simp_all add: limits_ok_def word_less_nat_alt word_le_nat_alt)
    with Some show ?thesis
      using stream_read_vu32_mk [of x "p @ 1 # leb_encode mn" r]
      by (simp add: lim parse_limits_def enc_limits_def dec_limits_def stream_read_vu32_mk)
  qed
qed

lemma const_loop_text:
  "const_text e \<Longrightarrow> parse_const_expr_loop (mk p (e @ r)) = Inr (mk (p @ e) r)"
proof (induction e arbitrary: p rule: const_text.induct)
  case (const_i32 bs e)
  then obtain k where "stream_read_vi32 (mk (p @ [0x41]) (bs @ e @ r)) = Inr (k, mk (p @ 0x41 # bs) (e @ r))"
    using stream_read_vi_mk(1) [of bs "p @ [0x41]" "e @ r"] by auto
  with const_i32(3) show ?case by (subst parse_const_expr_loop.simps) simp
next
  case (const_i64 bs e)
  then obtain k where "stream_read_vi64 (mk (p @ [0x42]) (bs @ e @ r)) = Inr (k, mk (p @ 0x42 # bs) (e @ r))"
    using stream_read_vi_mk(2) [of bs "p @ [0x42]" "e @ r"] by auto
  with const_i64(3) show ?case by (subst parse_const_expr_loop.simps) simp
next
  case (const_f32 bs e)
  then obtain k where "stream_read_f32 (mk (p @ [0x43]) (bs @ e @ r)) = Inr (k, mk (p @ 0x43 # bs) (e @ r))"
    using stream_read_float_mk(1) [of bs "p @ [0x43]" "e @ r"] by auto
  with const_f32(3) show ?case by (subst parse_const_expr_loop.simps) simp
next
  case (const_f64 bs e)
  then obtain k where "stream_read_f64 (mk (p @ [0x44]) (bs @ e @ r)) = Inr (k, mk (p @ 0x44 # bs) (e @ r))"
    using stream_read_float_mk(2) [of bs "p @ [0x44]" "e @ r"] by auto
  with const_f64(3) show ?case by (subst parse_const_expr_loop.simps) simp
qed (subst parse_const_expr_loop.simps; simp add: stream_read_vu32_mk not_le)+

lemma parse_const_expr_text:
  "const_text e \<Longrightarrow> parse_const_expr (mk p (e @ r)) = Inr (e, mk (p @ e) r)"
  by (simp add: parse_const_expr_def const_loop_text)

lemma parse_name_text:
  assumes "is_valid_utf8 name" "length name < 2 ^ 32"
  shows "parse_name (mk p (enc_vec name @ r)) = Inr (name, mk (p @ enc_vec name) r)"
proof -
  have "(of_nat (length name) :: u32) = 0 \<longleftrightarrow> name = []"
    using of_nat32_zero [OF assms(2)] by simp
  then show ?thesis
    using assms stream_slice_mk [of "p @ leb_encode (length name)" name r]
    by (simp add: parse_name_def enc_vec_def stream_read_vu32_mk)
qed

section \<open>Sections\<close>

text \<open>A section that reserves one vector and fills it, \<open>put\<close> being its place in the module.\<close>

lemma section_texts:
  assumes "xs \<noteq> []" "length xs < 2 ^ 32" "S 0 = put (filled (length xs) [])"
    "\<And>i p r. i < length xs \<Longrightarrow> step i (S i, mk p (enc (xs ! i) @ r)) = Inr (S (Suc i), mk (p @ enc (xs ! i)) r)"
  shows "unwrap (stream_read_vu32 (stream_from (enc_items enc xs))) (\<lambda>(count, st).
     unwrap (vec_reserve (\<lambda>_. True) vec_empty (unat count)) (\<lambda>v.
     unwrap (for_res 0 (unat count) step (put (vec_set_fixed v True), st)) section_end)) = Inr (S (length xs))"
  using assms(1-3) texts_loop [of xs step S enc "leb_encode (length xs)" "[]", OF assms(4)]
  by (simp add: stream_from_mk enc_items_def stream_read_vu32_mk)

lemma section_type_text:
  assumes "text_ok t" "mt_types t \<noteq> []" "func_types m = vec_empty" "length (mt_types t) < 2 ^ 32"
  shows "parse_section_type (\<lambda>_ _. True) m (stream_from (enc_items enc_type (mt_types t))) =
    Inr (m\<lparr>func_types := filled (length (mt_types t)) (map dec_type (mt_types t))\<rparr>)"
proof -
  let ?n = "length (mt_types t)"
  define S where "S i = m\<lparr>func_types := filled ?n (map dec_type (take i (mt_types t)))\<rparr>" for i
  have "parse_section_type_step (\<lambda>_ _. True) i (S i, mk p (enc_type (mt_types t ! i) @ r)) =
      Inr (S (Suc i), mk (p @ enc_type (mt_types t ! i)) r)" if "i < ?n" for i p r
  proof -
    obtain ps rs where e: "mt_types t ! i = (ps, rs)" by fastforce
    then show ?thesis
      using assms(1) that type_step [of ps rs "\<lambda>_ _. True" i "S i" p r]
      by (auto simp: text_ok_def list_all_length S_def take_Suc_conv_app_nth)
  qed
  from section_texts [of _ S "\<lambda>v. m\<lparr>func_types := v\<rparr>", OF assms(2,4) _ this] show ?thesis
    using assms(3) by (simp add: parse_section_type_def S_def)
qed

lemma section_function_text:
  assumes "text_ok t" "mt_funcs t \<noteq> []" "funcs m = vec_empty" "length (mt_funcs t) < 2 ^ 32" "length (mt_types t) < 2 ^ 32"
    "func_types m = filled (length (mt_types t)) (map dec_type (mt_types t))"
  shows "parse_section_function (\<lambda>_ _. True) m (stream_from (enc_items leb_encode (mt_funcs t))) =
    Inr (m\<lparr>funcs := filled (length (mt_funcs t)) (map (dec_func t) [0..<length (mt_funcs t)])\<rparr>)"
proof -
  let ?n = "length (mt_funcs t)"
  define S where "S i = m\<lparr>funcs := filled ?n (map (dec_func t) [0..<i])\<rparr>" for i
  have "parse_section_function_step (\<lambda>_ _. True) i (S i, mk p (leb_encode (mt_funcs t ! i) @ r)) =
      Inr (S (Suc i), mk (p @ leb_encode (mt_funcs t ! i)) r)" if i: "i < ?n" for i p r
  proof -
    have "mt_funcs t ! i < length (mt_types t)" "mt_funcs t ! i < 2 ^ 32"
      using assms(1,5) i by (auto simp: text_ok_def list_all_length)
    then show ?thesis
      using i assms(6)
      by (simp add: parse_section_function_step_def stream_read_vu32_mk dec_func_def Let_def linkage_none_def func_zero_def S_def)
  qed
  from section_texts [of _ S "\<lambda>v. m\<lparr>funcs := v\<rparr>", OF assms(2,4) _ this] show ?thesis
    using assms(3) by (simp add: parse_section_function_def S_def)
qed

lemma section_table_text:
  assumes "text_ok t" "mt_tables t \<noteq> []" "tables m = vec_empty" "length (mt_tables t) < 2 ^ 32"
  shows "parse_section_table (\<lambda>_ _. True) m (stream_from (enc_items enc_table (mt_tables t))) =
    Inr (m\<lparr>tables := filled (length (mt_tables t)) (map dec_table (mt_tables t))\<rparr>)"
proof -
  let ?n = "length (mt_tables t)"
  define S where "S i = m\<lparr>tables := filled ?n (map dec_table (take i (mt_tables t)))\<rparr>" for i
  have "parse_section_table_step (\<lambda>_ _. True) i (S i, mk p (enc_table (mt_tables t ! i) @ r)) =
      Inr (S (Suc i), mk (p @ enc_table (mt_tables t ! i)) r)" if i: "i < ?n" for i p r
  proof -
    obtain b lim where e: "mt_tables t ! i = (b, lim)" by (cases "mt_tables t ! i")
    have "ref_byte b" "limits_ok (unat u32_MAX) lim"
      using assms(1) i e by (auto simp: text_ok_def list_all_length u32_MAX_def)
    then show ?thesis
      using i e parse_limits_text [of u32_MAX lim "p @ [b]" r]
      by (simp add: parse_section_table_step_def enc_table_def dec_table_def ref_byte_def not_le S_def take_Suc_conv_app_nth)
  qed
  from section_texts [of _ S "\<lambda>v. m\<lparr>tables := v\<rparr>", OF assms(2,4) _ this] show ?thesis
    using assms(3) by (simp add: parse_section_table_def S_def)
qed

lemma section_memory_text:
  assumes "text_ok t" "mt_memories t \<noteq> []" "memories m = vec_empty" "length (mt_memories t) < 2 ^ 32"
  shows "parse_section_memory (\<lambda>_ _. True) m (stream_from (enc_items enc_limits (mt_memories t))) =
    Inr (m\<lparr>memories := filled (length (mt_memories t)) (map dec_memory (mt_memories t))\<rparr>)"
proof -
  let ?n = "length (mt_memories t)"
  define S where "S i = m\<lparr>memories := filled ?n (map dec_memory (take i (mt_memories t)))\<rparr>" for i
  have "parse_section_memory_step (\<lambda>_ _. True) i (S i, mk p (enc_limits (mt_memories t ! i) @ r)) =
      Inr (S (Suc i), mk (p @ enc_limits (mt_memories t ! i)) r)" if i: "i < ?n" for i p r
  proof -
    have "limits_ok (unat WASM_MEM_MAX_PAGES) (mt_memories t ! i)"
      using assms(1) i by (auto simp: text_ok_def list_all_length WASM_MEM_MAX_PAGES_def)
    then show ?thesis
      using i by (simp add: parse_section_memory_step_def dec_memory_def parse_limits_text S_def take_Suc_conv_app_nth)
  qed
  from section_texts [of _ S "\<lambda>v. m\<lparr>memories := v\<rparr>", OF assms(2,4) _ this] show ?thesis
    using assms(3) by (simp add: parse_section_memory_def S_def)
qed

lemma section_global_text:
  assumes "text_ok t" "mt_globals t \<noteq> []" "globals m = vec_empty" "length (mt_globals t) < 2 ^ 32"
  shows "parse_section_global (\<lambda>_ _. True) m (stream_from (enc_items enc_global (mt_globals t))) =
    Inr (m\<lparr>globals := filled (length (mt_globals t)) (map dec_global (mt_globals t))\<rparr>)"
proof -
  let ?n = "length (mt_globals t)"
  define S where "S i = m\<lparr>globals := filled ?n (map dec_global (take i (mt_globals t)))\<rparr>" for i
  have "parse_section_global_step (\<lambda>_ _. True) i (S i, mk p (enc_global (mt_globals t ! i) @ r)) =
      Inr (S (Suc i), mk (p @ enc_global (mt_globals t ! i)) r)" if i: "i < ?n" for i p r
  proof -
    obtain b mut e where g: "mt_globals t ! i = (b, mut, e)" by (metis prod_cases3)
    have "value_byte b" "const_text e"
      using assms(1) i g by (auto simp: text_ok_def list_all_length)
    then show ?thesis
      using i g by (simp add: parse_section_global_step_def enc_global_def dec_global_def value_byte_def not_le
          parse_const_expr_text S_def take_Suc_conv_app_nth)
  qed
  from section_texts [of _ S "\<lambda>v. m\<lparr>globals := v\<rparr>", OF assms(2,4) _ this] show ?thesis
    using assms(3) by (simp add: parse_section_global_def S_def)
qed

subsection \<open>Exports\<close>

lemma dec_linkage_simps [simp]:
  "dec_linkage [] k i = linkage_none"
  "dec_linkage (e @ [(name, k', j)]) k i = (if k' = k \<and> j = i then linkage_exported else dec_linkage e k i)"
  "dec_linkage e k i OR linkage_exported = linkage_exported"
  by (auto simp: dec_linkage_def linkage_none_def)

lemma no_exports:
  "dec_funcs t [] 0 = filled (length (mt_funcs t)) (map (dec_func t) [0..<length (mt_funcs t)])"
  "dec_tables t [] = filled (length (mt_tables t)) (map dec_table (mt_tables t))"
  "dec_memories t [] = filled (length (mt_memories t)) (map dec_memory (mt_memories t))"
  "dec_globals t [] = filled (length (mt_globals t)) (map dec_global (mt_globals t))"
proof -
  have "(dec_func t i)\<lparr>f_linkage := linkage_none\<rparr> = dec_func t i" for i
    by (simp add: dec_func_def Let_def func_zero_def)
  then show "dec_funcs t [] 0 = filled (length (mt_funcs t)) (map (dec_func t) [0..<length (mt_funcs t)])"
    by (simp add: dec_funcs_def Let_def)
qed (auto simp: dec_tables_def dec_memories_def dec_globals_def dec_table_def dec_memory_def dec_global_def
    intro!: arg_cong2 [where f = filled] nth_equalityI split: prod.splits)

text \<open>The module when the exports \<open>e\<close> have been read.\<close>

definition exported :: "module_text \<Rightarrow> module \<Rightarrow> (u8 list \<times> u8 \<times> nat) list \<Rightarrow> module" where
  "exported t m e = m\<lparr>funcs := dec_funcs t e 0, tables := dec_tables t e, memories := dec_memories t e, globals := dec_globals t e,
     exports := filled (length (mt_exports t)) (map dec_export e)\<rparr>"

lemma map_upt_update: "(map f [0..<n])[j := x] = map (\<lambda>i. if i = j then x else f i) [0..<n]"
  by (auto intro!: nth_equalityI simp: nth_list_update)

lemma filled_cong: "(\<And>i. i < n \<Longrightarrow> f i = g i) \<Longrightarrow> filled n (map f [0..<n]) = filled n (map g [0..<n])"
  by (rule arg_cong2 [where f = filled]) auto

lemma dec_at:
  "i < length (mt_funcs t) \<Longrightarrow> vec_at (dec_funcs t e 0) i = Inr ((dec_func t i)\<lparr>f_linkage := dec_linkage e 0 i\<rparr>)"
  "i < length (mt_tables t) \<Longrightarrow> vec_at (dec_tables t e) i = Inr ((dec_table (mt_tables t ! i))\<lparr>tab_linkage := dec_linkage e 1 i\<rparr>)"
  "i < length (mt_memories t) \<Longrightarrow> vec_at (dec_memories t e) i = Inr ((dec_memory (mt_memories t ! i))\<lparr>mem_linkage := dec_linkage e 2 i\<rparr>)"
  "i < length (mt_globals t) \<Longrightarrow> vec_at (dec_globals t e) i = Inr ((dec_global (mt_globals t ! i))\<lparr>g_linkage := dec_linkage e 3 i\<rparr>)"
  "length (vdata (dec_funcs t e k)) = length (mt_funcs t)" "length (vdata (dec_tables t e)) = length (mt_tables t)"
  "length (vdata (dec_memories t e)) = length (mt_memories t)" "length (vdata (dec_globals t e)) = length (mt_globals t)"
  by (simp_all add: dec_funcs_def dec_tables_def dec_memories_def dec_globals_def Let_def)

lemma dec_marked:
  "i < length (mt_funcs t) \<Longrightarrow> vec_set (dec_funcs t e 0) i ((dec_func t i)\<lparr>f_linkage := linkage_exported\<rparr>) = Inr (dec_funcs t (e @ [(name, 0, i)]) 0)"
  "i < length (mt_tables t) \<Longrightarrow> vec_set (dec_tables t e) i ((dec_table (mt_tables t ! i))\<lparr>tab_linkage := linkage_exported\<rparr>) = Inr (dec_tables t (e @ [(name, 1, i)]))"
  "i < length (mt_memories t) \<Longrightarrow> vec_set (dec_memories t e) i ((dec_memory (mt_memories t ! i))\<lparr>mem_linkage := linkage_exported\<rparr>) = Inr (dec_memories t (e @ [(name, 2, i)]))"
  "i < length (mt_globals t) \<Longrightarrow> vec_set (dec_globals t e) i ((dec_global (mt_globals t ! i))\<lparr>g_linkage := linkage_exported\<rparr>) = Inr (dec_globals t (e @ [(name, 3, i)]))"
  by (auto simp: dec_funcs_def dec_tables_def dec_memories_def dec_globals_def Let_def map_upt_update intro!: filled_cong)

lemma dec_unmarked:
  "k \<noteq> 0 \<Longrightarrow> dec_funcs t (e @ [(name, k, i)]) j = dec_funcs t e j" "k \<noteq> 1 \<Longrightarrow> dec_tables t (e @ [(name, k, i)]) = dec_tables t e"
  "k \<noteq> 2 \<Longrightarrow> dec_memories t (e @ [(name, k, i)]) = dec_memories t e" "k \<noteq> 3 \<Longrightarrow> dec_globals t (e @ [(name, k, i)]) = dec_globals t e"
  by (simp_all add: dec_funcs_def dec_tables_def dec_memories_def dec_globals_def)

lemma mark_exported_text:
  assumes "export_ok t (name, kind, i)"
  shows "\<exists>k. external_kind_of kind = Some k \<and>
    mark_exported (exported t m e) k i = Inr ((exported t m (e @ [(name, kind, i)]))\<lparr>exports := filled (length (mt_exports t)) (map dec_export e)\<rparr>)"
proof -
  have "kind = 0 \<and> i < length (mt_funcs t) \<or> kind = 1 \<and> i < length (mt_tables t) \<or>
      kind = 2 \<and> i < length (mt_memories t) \<or> kind = 3 \<and> i < length (mt_globals t)"
    using assms by (simp add: export_ok_def)
  then show ?thesis
    by (elim disjE conjE)
      (simp_all add: external_kind_of_def mark_exported_def exported_def dec_at dec_marked [where name = name] dec_unmarked)
qed

lemma section_export_text:
  assumes "text_ok t" "mt_exports t \<noteq> []" "exports m = vec_empty" "length (mt_exports t) < 2 ^ 32"
    "\<And>name k i. (name, k, i) \<in> set (mt_exports t) \<Longrightarrow> length name < 2 ^ 32 \<and> i < 2 ^ 32"
    "funcs m = dec_funcs t [] 0" "tables m = dec_tables t []" "memories m = dec_memories t []" "globals m = dec_globals t []"
  shows "parse_section_export (\<lambda>_ _. True) m (stream_from (enc_items enc_export (mt_exports t))) = Inr (exported t m (mt_exports t))"
proof -
  let ?n = "length (mt_exports t)"
  define S where "S i = exported t m (take i (mt_exports t))" for i
  have "parse_section_export_step (\<lambda>_ _. True) i (S i, mk p (enc_export (mt_exports t ! i) @ r)) =
      Inr (S (Suc i), mk (p @ enc_export (mt_exports t ! i)) r)" if i: "i < ?n" for i p r
  proof -
    obtain name kind j where e: "mt_exports t ! i = (name, kind, j)" by (metis prod_cases3)
    have ok: "export_ok t (name, kind, j)"
      using assms(1) i e by (auto simp: text_ok_def list_all_length)
    obtain k where k: "external_kind_of kind = Some k" "mark_exported (S i) k j =
        Inr ((exported t m (take i (mt_exports t) @ [(name, kind, j)]))\<lparr>exports := filled ?n (map dec_export (take i (mt_exports t)))\<rparr>)"
      using mark_exported_text [OF ok, of m "take i (mt_exports t)"] by (auto simp: S_def)
    have "S (Suc i) = exported t m (take i (mt_exports t) @ [(name, kind, j)])"
      using i e by (simp add: S_def take_Suc_conv_app_nth)
    moreover have "is_valid_utf8 name" "length name < 2 ^ 32" "j < 2 ^ 32"
      using ok assms(5) [of name kind j] nth_mem [OF i] e by (auto simp: export_ok_def)
    ultimately show ?thesis
      using i e k stream_read_vu32_mk [of j "p @ enc_vec name @ [kind]" r]
      by (simp add: parse_section_export_step_def enc_export_def parse_name_text dec_export_def) (simp add: exported_def dec_export_def)
  qed
  moreover have "S 0 = m\<lparr>exports := filled ?n []\<rparr>"
    using assms(6-9) by (simp add: S_def exported_def)
  ultimately show ?thesis
    using section_texts [of _ S "\<lambda>v. m\<lparr>exports := v\<rparr>" _ enc_export, OF assms(2,4)] assms(3)
    by (simp add: parse_section_export_def) (simp add: S_def)
qed

subsection \<open>Function bodies\<close>

lemma count_locals_text:
  assumes "list_all (value_byte \<circ> snd) ls" "sum_list (map fst ls) < 2 ^ 32"
  shows "\<exists>k. for_res 0 (length ls) count_locals_step (0, mk p (concat (map enc_local ls) @ r)) = Inr (k, mk (p @ concat (map enc_local ls)) r)"
proof -
  define S :: "nat \<Rightarrow> u64" where "S i = of_nat (sum_list (map fst (take i ls)))" for i
  have "count_locals_step i (S i, mk p (enc_local (ls ! i) @ r)) = Inr (S (Suc i), mk (p @ enc_local (ls ! i)) r)"
    if i: "i < length ls" for i p r
  proof -
    obtain n b where e: "ls ! i = (n, b)" by (cases "ls ! i")
    have sum: "sum_list (map fst (take i ls)) + n \<le> sum_list (map fst ls)"
      using i e arg_cong [OF id_take_nth_drop [OF i], of "\<lambda>l. sum_list (map fst l)"] by simp
    then have n: "n < 2 ^ 32" using assms(2) by simp
    have Suc: "S i + ucast (of_nat n :: u32) = S (Suc i)"
      using i e n by (simp add: S_def take_Suc_conv_app_nth unsigned_of_nat take_bit_nat_eq_self)
    have "\<not> ucast u32_MAX < S (Suc i)"
    proof -
      define x where "x = sum_list (map fst (take (Suc i) ls))"
      have "x < 2 ^ 32" using sum i e assms(2) by (simp add: x_def take_Suc_conv_app_nth)
      then show ?thesis
        by (simp add: S_def word_less_nat_alt unat_of_nat take_bit_nat_eq_self u32_MAX_def flip: x_def)
    qed
    moreover have "b < 0x80"
      using assms(1) i e by (auto simp: list_all_length value_byte_def)
    ultimately show ?thesis
      using e n Suc by (simp add: count_locals_step_def enc_local_def stream_read_vu32_mk not_le Let_def)
  qed
  from texts_loop [of ls _ S enc_local, OF this, of p r] show ?thesis
    by (auto simp: S_def)
qed

text \<open>A vector of local types that grows.\<close>

definition growing :: "func \<Rightarrow> type_id list \<Rightarrow> func \<Rightarrow> bool" where
  "growing fn lts f \<longleftrightarrow> f = fn\<lparr>local_types := local_types f, local_count := local_count fn + of_nat (length lts)\<rparr> \<and>
     vdata (local_types f) = lts \<and> vec_is_valid (local_types f) \<and> \<not> vfixed (local_types f) \<and> (vnonnull (local_types f) \<longleftrightarrow> lts \<noteq> []) \<and>
     vcap (local_types f) \<le> 2 * length lts + 10"

lemma push_local_text:
  assumes "growing fn lts f" "length lts < 2 ^ 32"
  shows "\<exists>f'. push_local_step (\<lambda>_ _. True) x k f = Inr f' \<and> growing fn (lts @ [x]) f'"
proof -
  let ?v = "local_types f"
  have v: "vdata ?v = lts" "vec_is_valid ?v" "\<not> vfixed ?v" "vnonnull ?v \<longleftrightarrow> lts \<noteq> []" "vcap ?v \<le> 2 * length lts + 10"
    and f: "f = fn\<lparr>local_types := ?v, local_count := local_count fn + of_nat (length lts)\<rparr>"
    using assms(1) by (simp_all add: growing_def)
  have grow: "vcap ?v < vec_grow_capacity (vcap ?v) \<and> vec_grow_capacity (vcap ?v) \<le> 2 * Suc (length lts) + 10"
    if "vcap ?v = length lts" "lts \<noteq> []"
  proof -
    have "0 < length lts" using that(2) by simp
    then show ?thesis using that(1) assms(2) by (simp add: vec_grow_capacity_def) arith
  qed
  have "\<exists>v'. vec_push (\<lambda>_. True) ?v x = Inr v' \<and> vdata v' = lts @ [x] \<and> vec_is_valid v' \<and> \<not> vfixed v' \<and> vnonnull v' \<and> vcap v' \<le> 2 * Suc (length lts) + 10"
    using v grow by (cases "lts = []"; cases "vcap ?v = length lts") (auto simp: vec_push_def vec_is_valid_def vec_size_def VEC_DEFAULT_CAPACITY_def Let_def)
  then obtain v' where v': "vec_push (\<lambda>_. True) ?v x = Inr v'" "vdata v' = lts @ [x]" "vec_is_valid v'" "\<not> vfixed v'" "vnonnull v'"
      "vcap v' \<le> 2 * Suc (length lts) + 10"
    by blast
  have "growing fn (lts @ [x]) (f\<lparr>local_types := v', local_count := local_count f + 1\<rparr>)"
    unfolding growing_def using v' by (subst f, subst (2) f) simp
  then show ?thesis
    using v'(1) by (auto simp: push_local_step_def)
qed

lemma push_locals_text:
  assumes "growing fn lts f" "length lts + n < 2 ^ 32"
  shows "\<exists>f'. for_res i n (push_local_step (\<lambda>_ _. True) x) f = Inr f' \<and> growing fn (lts @ replicate n x) f'"
  using assms
proof (induction n arbitrary: i lts f)
  case (Suc n)
  then obtain f1 where "push_local_step (\<lambda>_ _. True) x i f = Inr f1" "growing fn (lts @ [x]) f1"
    using push_local_text [of fn lts f x i] by auto
  with Suc.IH [of "lts @ [x]" f1 "Suc i"] Suc.prems show ?case by simp
qed simp

abbreviation locals_of :: "(nat \<times> u8) list \<Rightarrow> type_id list" where
  "locals_of ls \<equiv> concat (map (\<lambda>(n, b). replicate n (vi7 b)) ls)"

lemma length_locals_of: "length (locals_of ls) = sum_list (map fst ls)"
  by (induction ls) auto

lemma declare_locals_text:
  assumes "list_all (value_byte \<circ> snd) ls" "sum_list (map fst ls) < 2 ^ 32" "local_types fn = vec_empty"
  shows "\<exists>f'. for_res 0 (length ls) (declare_locals_step (\<lambda>_ _. True)) (fn, mk p (concat (map enc_local ls) @ r)) =
    Inr (f', mk (p @ concat (map enc_local ls)) r) \<and> growing fn (locals_of ls) f'"
proof -
  have "\<exists>f'. declare_locals_step (\<lambda>_ _. True) i (f, mk p (enc_local (ls ! i) @ r)) = Inr (f', mk (p @ enc_local (ls ! i)) r) \<and>
      growing fn (locals_of (take (Suc i) ls)) f'"
    if i: "i < length ls" and f: "growing fn (locals_of (take i ls)) f" for i f p r
  proof -
    obtain n b where e: "ls ! i = (n, b)" by (cases "ls ! i")
    have sum: "length (locals_of (take i ls)) + n < 2 ^ 32"
      using i e assms(2) arg_cong [OF id_take_nth_drop [OF i], of "\<lambda>l. sum_list (map fst l)"] by (simp add: length_locals_of)
    obtain f' where "for_res 0 n (push_local_step (\<lambda>_ _. True) (vi7 b)) f = Inr f'" "growing fn (locals_of (take (Suc i) ls)) f'"
      using push_locals_text [OF f sum, of 0 "vi7 b"] i e by (auto simp: take_Suc_conv_app_nth)
    moreover have "b < 0x80" "is_value_type (vi7 b)" "n < 2 ^ 32"
      using assms(1) i e sum by (auto simp: list_all_length value_byte_def)
    ultimately show ?thesis
      using e by (simp add: declare_locals_step_def enc_local_def stream_read_vu32_mk not_le)
  qed
  moreover have "growing fn (locals_of (take 0 ls)) fn"
    using assms(3) by (simp add: growing_def vec_empty_def vec_is_valid_def vec_size_def)
  ultimately show ?thesis
    using texts_loop_inv [of "\<lambda>i. growing fn (locals_of (take i ls))" fn ls _ enc_local p r] by simp
qed

lemma shrink_grown:
  "vec_is_valid v \<Longrightarrow> \<not> vfixed v \<Longrightarrow> vnonnull v \<longleftrightarrow> vdata v \<noteq> [] \<Longrightarrow>
   vec_shrink_to_fit (\<lambda>_. True) v = Inr \<lparr>vdata = vdata v, vcap = length (vdata v), vnonnull = (vdata v \<noteq> []), vfixed = False\<rparr>"
  by (cases v) (auto simp: vec_shrink_to_fit_def vec_is_valid_def vec_size_def Let_def le_Suc_eq)

lemma parse_func_body_text:
  assumes "body_ok (ls, code)" "local_types fn = vec_empty" "length ls < 2 ^ 32"
  shows "parse_func_body (\<lambda>_ _. True) fn (mk [] (enc_items enc_local ls @ code)) = Inr (dec_body (ls, code) fn)"
proof -
  let ?p = "leb_encode (length ls)"
  have ok: "list_all (value_byte \<circ> snd) ls" "sum_list (map fst ls) < 2 ^ 32" "code \<noteq> []"
    using assms(1) by (simp_all add: body_ok_def)
  obtain k where k: "for_res 0 (length ls) count_locals_step (0, mk ?p (concat (map enc_local ls) @ code)) =
      Inr (k, mk (?p @ concat (map enc_local ls)) code)"
    using count_locals_text [OF ok(1,2)] by blast
  obtain f where f: "for_res 0 (length ls) (declare_locals_step (\<lambda>_ _. True)) (fn, mk ?p (concat (map enc_local ls) @ code)) =
      Inr (f, mk (?p @ concat (map enc_local ls)) code)" "growing fn (locals_of ls) f"
    using declare_locals_text [OF ok(1,2) assms(2)] by blast
  define v where "v = local_types f"
  have v: "vdata v = locals_of ls" "vec_is_valid v" "\<not> vfixed v" "vnonnull v \<longleftrightarrow> locals_of ls \<noteq> []"
    and fn: "f = fn\<lparr>local_types := v, local_count := local_count fn + of_nat (length (locals_of ls))\<rparr>"
    using f(2) by (simp_all add: growing_def v_def)
  have "vec_shrink_to_fit (\<lambda>_. True) v = Inr \<lparr>vdata = locals_of ls, vcap = length (locals_of ls), vnonnull = (locals_of ls \<noteq> []), vfixed = False\<rparr>"
    using shrink_grown [OF v(2,3)] v(4) unfolding v(1) by blast
  then show ?thesis
    using k f(1) ok(3) assms(3)
    by (simp add: parse_func_body_def enc_items_def stream_read_vu32_mk fn dec_body_def Let_def vec_set_fixed_def)
qed

lemma section_code_text:
  assumes "text_ok t" "mt_bodies t \<noteq> []" "imported_func_count m = 0" "funcs m = dec_funcs t e 0" "length (mt_bodies t) < 2 ^ 32"
    "\<And>ls code. (ls, code) \<in> set (mt_bodies t) \<Longrightarrow> length (enc_items enc_local ls @ code) < 2 ^ 32"
  shows "parse_section_code (\<lambda>_ _. True) m (stream_from (enc_items enc_body (mt_bodies t))) = Inr (m\<lparr>funcs := dec_funcs t e (length (mt_bodies t))\<rparr>)"
proof -
  let ?n = "length (mt_bodies t)"
  have n: "length (mt_funcs t) = ?n" using assms(1) by (simp add: text_ok_def)
  define S where "S i = m\<lparr>funcs := dec_funcs t e i\<rparr>" for i
  have "parse_section_code_step (\<lambda>_ _. True) i (S i, mk p (enc_body (mt_bodies t ! i) @ r)) =
      Inr (S (Suc i), mk (p @ enc_body (mt_bodies t ! i)) r)" if i: "i < ?n" for i p r
  proof -
    obtain ls code where b: "mt_bodies t ! i = (ls, code)" by (cases "mt_bodies t ! i")
    let ?fn = "(dec_func t i)\<lparr>f_linkage := dec_linkage e 0 i\<rparr>"
    have ok: "body_ok (ls, code)"
      using assms(1) i b by (auto simp: text_ok_def list_all_length)
    have len: "length (enc_items enc_local ls @ code) < 2 ^ 32"
      using assms(6) [of ls code] nth_mem [OF i] b by simp
    have "length ls < 2 ^ 32"
      by (rule items_lengths(1) [OF len]) (auto simp: enc_local_def)
    then have body: "parse_func_body (\<lambda>_ _. True) ?fn (mk [] (enc_items enc_local ls @ code)) = Inr (dec_body (ls, code) ?fn)"
      by (intro parse_func_body_text ok) (simp_all add: dec_func_def func_zero_def Let_def)
    have at: "vec_at (dec_funcs t e i) i = Inr ?fn" "vec_set (dec_funcs t e i) i (dec_body (ls, code) ?fn) = Inr (dec_funcs t e (Suc i))"
      using i n b by (auto simp: dec_funcs_def Let_def map_upt_update less_Suc_eq intro!: filled_cong)
    have idx: "unat (imported_func_count (S i) + of_nat i) = i"
      using i assms(3,5) by (simp add: S_def)
    define bt where "bt = enc_items enc_local ls @ code"
    have "enc_body (ls, code) = leb_encode (length bt) @ bt" "length bt < 2 ^ 32"
      "parse_func_body (\<lambda>_ _. True) ?fn \<lparr>st_s = bt, st_p = 0\<rparr> = Inr (dec_body (ls, code) ?fn)"
      using len body by (simp_all add: bt_def enc_body_def enc_vec_def mk_def)
    then show ?thesis
      using at stream_slice_mk [of "p @ leb_encode (length bt)" bt r]
      unfolding parse_section_code_step_def prod.case Let_def idx b
      by (simp add: stream_read_vu32_mk S_def)
  qed
  from texts_loop [of "mt_bodies t" _ S enc_body, OF this, of "leb_encode ?n" "[]"]
  have "for_res 0 ?n (parse_section_code_step (\<lambda>_ _. True)) (m, mk (leb_encode ?n) (concat (map enc_body (mt_bodies t)))) =
      Inr (S ?n, mk (leb_encode ?n @ concat (map enc_body (mt_bodies t))) [])"
    by (simp add: S_def flip: assms(4))
  then show ?thesis
    using assms(3-5) n by (simp add: parse_section_code_def stream_from_mk enc_items_def stream_read_vu32_mk dec_at) (simp add: S_def)
qed

section \<open>The module\<close>

lemma order_scan_at: "k \<le> sid \<Longrightarrow> sid \<in> {1, 3, 4, 5, 6, 7} \<Longrightarrow> order_scan k sid = sid"
  "k \<le> 11 \<Longrightarrow> order_scan k 10 = 11"
proof -
  have "\<forall>k \<in> {0..11}. order_scan k 10 = 11" "\<forall>sid \<in> {1, 3, 4, 5, 6, 7}. \<forall>k \<in> {0..sid}. order_scan k sid = sid"
    by code_simp+
  then show "k \<le> sid \<Longrightarrow> sid \<in> {1, 3, 4, 5, 6, 7} \<Longrightarrow> order_scan k sid = sid" "k \<le> 11 \<Longrightarrow> order_scan k 10 = 11"
    by auto
qed

text \<open>One section: absent when it has no elements, and then nothing is read.\<close>

lemma section_read:
  assumes "length (enc_section sid enc xs) < 2 ^ 32" "0 < sid" "sid < 0x80" "order_scan k (unat sid) = k'" "k' < length section_order"
    "xs \<noteq> [] \<Longrightarrow> parse_section am (unat sid) m (stream_from (enc_items enc xs)) = Inr m'" "xs = [] \<Longrightarrow> m' = m"
  shows "\<exists>j p'. (j = k \<or> j = k') \<and> parse_module_loop am k m (mk p (enc_section sid enc xs @ r)) = parse_module_loop am j m' (mk p' r)"
proof (cases "xs = []")
  case True
  with assms(7) show ?thesis by (auto simp: enc_section_def)
next
  case False
  let ?b = "enc_items enc xs" let ?l = "leb_encode (length ?b)"
  have len: "length ?b < 2 ^ 32" "length ?b \<noteq> 0"
    using assms(1) False leb_encode_pos [of "length xs"] by (auto simp: enc_section_def enc_vec_def enc_items_def)
  have "unat sid \<noteq> 0" using assms(2) by (simp add: word_less_nat_alt)
  then
  have "parse_module_step am k m (mk p (sid # ?l @ ?b @ r)) = Inr (k', m', mk (p @ sid # ?l @ ?b) r)"
    using assms(2-6) False len stream_read_vu32_mk [OF len(1), of "p @ [sid]" "?b @ r"] stream_slice_mk [of "p @ sid # ?l" ?b r]
    by (simp add: parse_module_step_def Let_def not_le of_nat32_zero stream_from_def)
  then have "parse_module_loop am k m (mk p (enc_section sid enc xs @ r)) = parse_module_loop am k' m' (mk (p @ sid # ?l @ ?b) r)"
    using False by (subst parse_module_loop.simps) (simp add: enc_section_def enc_vec_def)
  then show ?thesis by blast
qed

text \<open>The module after the first \<open>n\<close> of the seven sections.\<close>

definition stage :: "nat \<times> nat \<Rightarrow> vstr \<Rightarrow> module_text \<Rightarrow> nat \<Rightarrow> module" where
  "stage res name t n =
     (let m = decode_module res name t in
      m\<lparr>func_types := (if 1 \<le> n then func_types m else vec_empty),
        funcs := (if 7 \<le> n then funcs m else if 6 \<le> n then dec_funcs t (mt_exports t) 0 else if 2 \<le> n then dec_funcs t [] 0 else vec_empty),
        tables := (if 6 \<le> n then tables m else if 3 \<le> n then dec_tables t [] else vec_empty),
        memories := (if 6 \<le> n then memories m else if 4 \<le> n then dec_memories t [] else vec_empty),
        globals := (if 6 \<le> n then globals m else if 5 \<le> n then dec_globals t [] else vec_empty),
        exports := (if 6 \<le> n then exports m else vec_empty)\<rparr>)"

lemma section_bounds:
  assumes "length (enc_section sid enc xs) < 2 ^ 32" "\<And>x. 0 < length (enc x)"
  shows "length xs < 2 ^ 32" "x \<in> set xs \<Longrightarrow> length (enc x) < 2 ^ 32"
proof -
  have "xs = [] \<or> length (enc_items enc xs @ []) < 2 ^ 32"
    using assms(1) by (auto simp: enc_section_def enc_vec_def split: if_splits)
  then show "length xs < 2 ^ 32" "x \<in> set xs \<Longrightarrow> length (enc x) < 2 ^ 32"
    using items_lengths [of enc xs "[]"] assms(2) by auto
qed

lemma enc_pos:
  "0 < length (enc_type x)" "0 < length (enc_limits l)" "0 < length (enc_table y)" "0 < length (enc_global z)"
  "0 < length (enc_export e)" "0 < length (enc_body b)"
  using leb_encode_pos
  by (auto simp: enc_type_def enc_limits_def enc_table_def enc_global_def enc_export_def enc_body_def enc_vec_def
      split: prod.splits option.splits)

lemma text_bounds:
  assumes "text_ok t"
  shows "length (enc_section 1 enc_type (mt_types t)) < 2 ^ 32" "length (enc_section 3 leb_encode (mt_funcs t)) < 2 ^ 32"
    "length (enc_section 4 enc_table (mt_tables t)) < 2 ^ 32" "length (enc_section 5 enc_limits (mt_memories t)) < 2 ^ 32"
    "length (enc_section 6 enc_global (mt_globals t)) < 2 ^ 32" "length (enc_section 7 enc_export (mt_exports t)) < 2 ^ 32"
    "length (enc_section 10 enc_body (mt_bodies t)) < 2 ^ 32"
  using assms by (simp_all add: text_ok_def encode_module_def)

lemmas stage_defs = stage_def decode_module_def Let_def no_exports

lemma stage_sections:
  assumes "text_ok t"
  shows "mt_types t \<noteq> [] \<Longrightarrow> parse_section (\<lambda>_ _. True) 1 (stage res name t 0) (stream_from (enc_items enc_type (mt_types t))) = Inr (stage res name t 1)"
    "mt_funcs t \<noteq> [] \<Longrightarrow> parse_section (\<lambda>_ _. True) 3 (stage res name t 1) (stream_from (enc_items leb_encode (mt_funcs t))) = Inr (stage res name t 2)"
    "mt_tables t \<noteq> [] \<Longrightarrow> parse_section (\<lambda>_ _. True) 4 (stage res name t 2) (stream_from (enc_items enc_table (mt_tables t))) = Inr (stage res name t 3)"
    "mt_memories t \<noteq> [] \<Longrightarrow> parse_section (\<lambda>_ _. True) 5 (stage res name t 3) (stream_from (enc_items enc_limits (mt_memories t))) = Inr (stage res name t 4)"
    "mt_globals t \<noteq> [] \<Longrightarrow> parse_section (\<lambda>_ _. True) 6 (stage res name t 4) (stream_from (enc_items enc_global (mt_globals t))) = Inr (stage res name t 5)"
  using section_bounds(1) [OF text_bounds(1) [OF assms] enc_pos(1)] section_bounds(1) [OF text_bounds(2) [OF assms] leb_encode_pos]
    section_bounds(1) [OF text_bounds(3) [OF assms] enc_pos(3)] section_bounds(1) [OF text_bounds(4) [OF assms] enc_pos(2)]
    section_bounds(1) [OF text_bounds(5) [OF assms] enc_pos(4)]
  by (simp_all add: parse_section_def section_type_text [OF assms] section_function_text [OF assms] section_table_text [OF assms]
      section_memory_text [OF assms] section_global_text [OF assms] stage_defs)

lemma export_bounds:
  assumes "text_ok t" "(name, k, i) \<in> set (mt_exports t)"
  shows "length name < 2 ^ 32 \<and> i < 2 ^ 32"
proof -
  have "length (enc_export (name, k, i)) < 2 ^ 32"
    by (rule section_bounds(2) [OF text_bounds(6) [OF assms(1)] enc_pos(5) assms(2)])
  moreover have "export_ok t (name, k, i)"
    using assms by (auto simp: text_ok_def list_all_iff)
  ultimately show ?thesis
    using section_bounds(1) [OF text_bounds(2) [OF assms(1)] leb_encode_pos] section_bounds(1) [OF text_bounds(3) [OF assms(1)] enc_pos(3)]
      section_bounds(1) [OF text_bounds(4) [OF assms(1)] enc_pos(2)] section_bounds(1) [OF text_bounds(5) [OF assms(1)] enc_pos(4)]
    by (auto simp: export_ok_def enc_export_def enc_vec_def)
qed

lemma stage_export:
  assumes "text_ok t" "mt_exports t \<noteq> []"
  shows "parse_section (\<lambda>_ _. True) 7 (stage res name t 5) (stream_from (enc_items enc_export (mt_exports t))) = Inr (stage res name t 6)"
proof -
  have "parse_section_export (\<lambda>_ _. True) (stage res name t 5) (stream_from (enc_items enc_export (mt_exports t))) =
      Inr (exported t (stage res name t 5) (mt_exports t))"
    using assms section_bounds(1) [OF text_bounds(6) [OF assms(1)] enc_pos(5)] export_bounds [OF assms(1)]
    by (intro section_export_text) (simp_all add: stage_def Let_def decode_module_def module_zero_def)
  then show ?thesis
    by (simp add: parse_section_def exported_def) (simp add: stage_def Let_def decode_module_def)
qed

lemma stage_code:
  assumes "text_ok t" "mt_bodies t \<noteq> []"
  shows "parse_section (\<lambda>_ _. True) 10 (stage res name t 6) (stream_from (enc_items enc_body (mt_bodies t))) = Inr (stage res name t 7)"
proof -
  have "length (enc_items enc_local ls @ code) < 2 ^ 32" if "(ls, code) \<in> set (mt_bodies t)" for ls code
    using section_bounds(2) [OF text_bounds(7) [OF assms(1)] enc_pos(6) that] by (simp add: enc_body_def enc_vec_def)
  then have "parse_section_code (\<lambda>_ _. True) (stage res name t 6) (stream_from (enc_items enc_body (mt_bodies t))) =
      Inr ((stage res name t 6)\<lparr>funcs := dec_funcs t (mt_exports t) (length (mt_bodies t))\<rparr>)"
    using assms section_bounds(1) [OF text_bounds(7) [OF assms(1)] enc_pos(6)]
    by (intro section_code_text) (simp_all add: stage_def Let_def decode_module_def module_zero_def)
  then show ?thesis
    by (simp add: parse_section_def) (simp add: stage_def Let_def decode_module_def)
qed

lemma stage_absent:
  assumes "text_ok t"
  shows "mt_types t = [] \<Longrightarrow> stage res name t 1 = stage res name t 0" "mt_funcs t = [] \<Longrightarrow> stage res name t 2 = stage res name t 1"
    "mt_tables t = [] \<Longrightarrow> stage res name t 3 = stage res name t 2" "mt_memories t = [] \<Longrightarrow> stage res name t 4 = stage res name t 3"
    "mt_globals t = [] \<Longrightarrow> stage res name t 5 = stage res name t 4" "mt_exports t = [] \<Longrightarrow> stage res name t 6 = stage res name t 5"
    "mt_bodies t = [] \<Longrightarrow> stage res name t 7 = stage res name t 6"
proof -
  show "mt_bodies t = [] \<Longrightarrow> stage res name t 7 = stage res name t 6"
    by (simp add: stage_def Let_def decode_module_def)
qed (simp_all add: stage_def Let_def decode_module_def no_exports module_zero_def)

text \<open>\<open>reads m a s m' b\<close>: the loop, at most at the section order \<open>a\<close>, goes from \<open>m\<close> to \<open>m'\<close> over the text \<open>s\<close>.\<close>

definition reads :: "module \<Rightarrow> nat \<Rightarrow> u8 list \<Rightarrow> module \<Rightarrow> nat \<Rightarrow> bool" where
  "reads m a s m' b \<longleftrightarrow> (\<forall>k p r. k \<le> a \<longrightarrow> (\<exists>k' p'. k' \<le> b \<and>
     parse_module_loop (\<lambda>_ _. True) k m (mk p (s @ r)) = parse_module_loop (\<lambda>_ _. True) k' m' (mk p' r)))"

lemma reads_append: "reads m a s m' b \<Longrightarrow> reads m' b s' m'' c \<Longrightarrow> reads m a (s @ s') m'' c"
  unfolding reads_def by (metis append.assoc)

lemma reads_section:
  assumes "length (enc_section sid enc xs) < 2 ^ 32" "0 < sid" "sid < 0x80"
    "\<And>k. k \<le> a \<Longrightarrow> order_scan k (unat sid) = b" "a \<le> b" "b < 13"
    "xs \<noteq> [] \<Longrightarrow> parse_section (\<lambda>_ _. True) (unat sid) m (stream_from (enc_items enc xs)) = Inr m'" "xs = [] \<Longrightarrow> m' = m"
  shows "reads m a (enc_section sid enc xs) m' b"
  unfolding reads_def
proof (intro allI impI)
  fix k p r assume k: "k \<le> a"
  have "b < length section_order" using assms(6) by (simp add: section_order_def)
  from section_read [OF assms(1-3) assms(4) [OF k] this assms(7,8), of p r]
  obtain j p' where "j = k \<or> j = b" "parse_module_loop (\<lambda>_ _. True) k m (mk p (enc_section sid enc xs @ r)) = parse_module_loop (\<lambda>_ _. True) j m' (mk p' r)"
    by blast
  with k assms(5) show "\<exists>k' p'. k' \<le> b \<and> parse_module_loop (\<lambda>_ _. True) k m (mk p (enc_section sid enc xs @ r)) = parse_module_loop (\<lambda>_ _. True) k' m' (mk p' r)"
    by (intro exI [of _ j] exI [of _ p']) auto
qed

lemma stage_loop:
  assumes "text_ok t"
  shows "reads (stage res name t 0) 0 (drop 8 (encode_module t)) (stage res name t 7) 11"
proof -
  note b = text_bounds [OF assms] and s = stage_sections [OF assms, of res name] and e = stage_absent [OF assms, of res name]
  have "reads (stage res name t 0) 0 (enc_section 1 enc_type (mt_types t)) (stage res name t 1) 1"
    using s(1) e(1) by (intro reads_section [OF b(1)]) (simp_all add: order_scan_at)
  moreover have "reads (stage res name t 1) 1 (enc_section 3 leb_encode (mt_funcs t)) (stage res name t 2) 3"
    using s(2) e(2) by (intro reads_section [OF b(2)]) (simp_all add: order_scan_at)
  moreover have "reads (stage res name t 2) 3 (enc_section 4 enc_table (mt_tables t)) (stage res name t 3) 4"
    by (rule reads_section [OF b(3)]) (simp_all add: s e order_scan_at)
  moreover have "reads (stage res name t 3) 4 (enc_section 5 enc_limits (mt_memories t)) (stage res name t 4) 5"
    by (rule reads_section [OF b(4)]) (simp_all add: s e order_scan_at)
  moreover have "reads (stage res name t 4) 5 (enc_section 6 enc_global (mt_globals t)) (stage res name t 5) 6"
    by (rule reads_section [OF b(5)]) (simp_all add: s e order_scan_at)
  moreover have "reads (stage res name t 5) 6 (enc_section 7 enc_export (mt_exports t)) (stage res name t 6) 7"
    by (rule reads_section [OF b(6)]) (simp_all add: stage_export [OF assms] e order_scan_at)
  moreover have "reads (stage res name t 6) 7 (enc_section 10 enc_body (mt_bodies t)) (stage res name t 7) 11"
    by (rule reads_section [OF b(7)]) (simp_all add: stage_code [OF assms] e order_scan_at)
  ultimately show ?thesis
    unfolding encode_module_def by (simp add: reads_append)
qed

lemma stream_read_u32_mk:
  "stream_read_u32 (mk p (a # b # c # d # r)) =
     Inr (ucast a OR push_bit 8 (ucast b) OR push_bit 16 (ucast c) OR push_bit 24 (ucast d), mk (p @ [a, b, c, d]) r)"
  using stream_advance_mk [of p "[a, b, c, d]" r] by (simp add: stream_read_u32_def nth_append eval_nat_numeral)

lemma parse_encoded:
  assumes "text_ok t"
  shows "module_init (\<lambda>_ _. True) (module_zero\<lparr>resource_payload := fst res, resource_drop_cb := snd res\<rparr>) (vstr_static (encode_module t)) name = Inr (decode_module res name t)"
proof -
  let ?v = "\<lparr>vdata = [name], vcap = 1, vnonnull = True, vfixed = False\<rparr>"
  let ?m = "module_zero\<lparr>resource_payload := fst res, resource_drop_cb := snd res, wasm_bin := vstr_static (encode_module t), names := ?v\<rparr>"
  let ?h = "[0x00, 0x61, 0x73, 0x6d, 0x01, 0x00, 0x00, 0x00] :: u8 list"
  have names: "unwrap (vec_push (\<lambda>_. True) vec_empty name) (\<lambda>v. vec_shrink_to_fit (\<lambda>_. True) v) = Inr ?v"
    by (simp add: vec_push_def vec_shrink_to_fit_def vec_empty_def vec_size_def VEC_DEFAULT_CAPACITY_def)
  have enc: "encode_module t = ?h @ drop 8 (encode_module t)"
    by (simp add: encode_module_def)
  have stages: "?m\<lparr>format_version := 1\<rparr> = stage res name t 0" "stage res name t 7 = decode_module res name t"
    by (simp_all add: stage_def Let_def) (simp_all add: decode_module_def module_zero_def)
  obtain k p where "parse_module_loop (\<lambda>_ _. True) 0 (stage res name t 0) (mk ?h (drop 8 (encode_module t) @ [])) = parse_module_loop (\<lambda>_ _. True) k (stage res name t 7) (mk p [])"
    using stage_loop [OF assms, of res name] unfolding reads_def by blast
  then have loop: "parse_module_loop (\<lambda>_ _. True) 0 (?m\<lparr>format_version := 1\<rparr>) (mk ?h (drop 8 (encode_module t))) = Inr (decode_module res name t)"
    unfolding stages append_Nil2 by (simp add: parse_module_loop.simps)
  have "parse_module (\<lambda>_ _. True) ?m = Inr (decode_module res name t)"
  proof -
    have "stream_from (vs_s (wasm_bin ?m)) = mk [] (?h @ drop 8 (encode_module t))" "\<not> vstr_is_null (wasm_bin ?m)"
      using enc by (simp_all add: vstr_static_def stream_from_mk vstr_is_null_def str_is_null_def VSTR_NULL_def) (simp add: encode_module_def)
    then show ?thesis
      using loop by (simp add: parse_module_def stream_read_u32_mk del: drop_append)
  qed
  then show ?thesis
    using names by (auto simp: module_init_def module_zero_def res_simps split: sum.splits)
qed

text \<open>
  C33. The parser inverts the encoder: from the binary form of any module of the modelled syntax it
  builds exactly the module that the text describes, in a module that may already carry a resource, with every type, function, table, memory,
  global, export and function body at its place, the exported elements marked, the vectors
  of the sizes that were reserved, and nothing else.
\<close>

theorem parser_roundtrip:
  assumes "text_ok t"
  shows "module_init (\<lambda>_ _. True) (module_zero\<lparr>resource_payload := fst res, resource_drop_cb := snd res\<rparr>) (vstr_static (encode_module t)) name = Inr (decode_module res name t)"
  by (rule parse_encoded [OF assms])

text \<open>A module with one exported function that has two locals.\<close>

definition demo_text :: module_text where
  "demo_text = \<lparr>mt_types = [([0x7f], [0x7f])], mt_funcs = [0], mt_tables = [], mt_memories = [(1, Some 2)],
     mt_globals = [], mt_exports = [([0x66], 0, 0)], mt_bodies = [([(2, 0x7e)], [0x20, 0x00, 0x0b])]\<rparr>"

lemma demo_encoded:
  "encode_module demo_text =
     [0x00, 0x61, 0x73, 0x6d, 0x01, 0x00, 0x00, 0x00, 1, 6, 1, 0x60, 1, 0x7f, 1, 0x7f, 3, 2, 1, 0, 5, 4, 1, 1, 1, 2,
      7, 5, 1, 1, 0x66, 0, 0, 10, 8, 1, 6, 1, 2, 0x7e, 0x20, 0x00, 0x0b]"
  by (simp add: demo_text_def encode_module_def enc_section_def enc_vec_def enc_items_def enc_type_def enc_limits_def enc_export_def
      enc_body_def enc_local_def leb_encode.simps)

lemma demo_text_ok: "text_ok demo_text"
proof -
  have "is_valid_utf8 [0x66]" "value_byte 0x7f" "value_byte 0x7e" by code_simp+
  then show ?thesis
    unfolding text_ok_def demo_encoded by (simp add: demo_text_def limits_ok_def export_ok_def body_ok_def)
qed

theorem parser_roundtrip_witness:
  "text_ok demo_text \<and> module_init (\<lambda>_ _. True) (module_zero\<lparr>resource_payload := 0, resource_drop_cb := 0\<rparr>) (vstr_static (encode_module demo_text)) VSTR_NULL = Inr (decode_module (0, 0) VSTR_NULL demo_text) \<and>
   map f_code (vdata (funcs (decode_module (0, 0) VSTR_NULL demo_text))) = [[0x20, 0x00, 0x0b]]"
  using demo_text_ok parser_roundtrip [OF demo_text_ok, of "(0, 0)" VSTR_NULL]
  by (simp add: decode_module_def dec_funcs_def demo_text_def dec_body_def Let_def)

end
