(* ===== verification/Host_Correct.thy ===== *)
theory Host_Correct
  imports Host_Modules Parser_Roundtrip Tco_Correct
begin

text \<open>
  What the built-in modules guarantee.

  \<^item> The contract of the interpreter: a call of a host function changes nothing of the store but
    bytes of the caller's memory.  It is proved once for every order on stores that admits such
    writes (locale \<open>vm_order\<close> of theory \<open>Dt_Store\<close>), and it discharges the hypotheses on the host that
    the theorems about the interpreters have.
  \<^item> A call gives back every block it allocates (\<open>frees\<close>).
  \<^item> What a refusing library means for the caller (\<open>reports\<close>).
  \<^item> The tables and the binaries fit together: with the parser as the inverse of the encoder
    (theory \<open>Parser_Roundtrip\<close>) the modules are known exactly.
\<close>

section \<open>The store\<close>

text \<open>One write of bytes to a memory, which keeps its size.\<close>

inductive poke :: "vm \<Rightarrow> vm \<Rightarrow> bool" where
  poked: "at_addr mi_memories v a = Inr x \<Longrightarrow> vec_size d = vec_size (mdata x) \<Longrightarrow> vcap d = vcap (mdata x) \<Longrightarrow>
    set_mem (x\<lparr>mdata := d\<rparr>) v a = Inr w \<Longrightarrow> poke v w"

context vm_order begin

lemma pokes_le: "poke\<^sup>*\<^sup>* v w \<Longrightarrow> le v w"
proof (induction rule: rtranclp_induct)
  case (step w u)
  have "le w u" using step(2) by cases (rule write_memory)
  with step(3) show ?case by (rule le_trans)
qed (rule le_refl)

end

lemma mem_put_poke:
  assumes "mem_put ctx off new s = Inr w"
  shows "poke (cs_vm s) w"
proof -
  obtain x where x: "at_addr mi_memories (cs_vm s) (ctx_mem0 ctx) = Inr x" "in_mem (vdata (mdata x)) off (length new)"
    "set_mem (x\<lparr>mdata := (mdata x)\<lparr>vdata := take (nat off) (vdata (mdata x)) @ new @ drop (nat off + length new) (vdata (mdata x))\<rparr>\<rparr>)
       (cs_vm s) (ctx_mem0 ctx) = Inr w"
    using assms by (auto simp: mem_put_def res_simps Let_def split: if_splits)
  then show ?thesis
    by (intro poked [OF x(1) _ _ x(3)]) (auto simp: in_mem_def vec_size_def)
qed

definition keeps :: "'u action \<Rightarrow> bool" where
  "keeps act \<longleftrightarrow> (\<forall>s. poke\<^sup>*\<^sup>* (cs_vm s) (cs_vm (snd (act s))))"

lemma keepsD: "keeps act \<Longrightarrow> cs_vm s' = cs_vm s \<Longrightarrow> poke\<^sup>*\<^sup>* (cs_vm s) (cs_vm (snd (act s')))"
  unfolding keeps_def by metis

lemma keeps_basic: "keeps ok_r" "keeps (raise e)"
  by (simp_all add: keeps_def ok_r_def raise_def)

lemma keeps_get_res: "(\<And>x. keeps (k x)) \<Longrightarrow> keeps (get_res f k)"
  by (auto simp: keeps_def get_res_def raise_def split: sum.split)

lemma keeps_guest_write:
  assumes "keeps k"
  shows "keeps (guest_write ctx off bs k)"
  unfolding keeps_def
proof
  fix s :: "'a call_state"
  show "poke\<^sup>*\<^sup>* (cs_vm s) (cs_vm (snd (guest_write ctx off bs k s)))"
  proof (cases "mem_put ctx off bs s")
    case (Inr w)
    have "poke\<^sup>*\<^sup>* w (cs_vm (snd (k (s\<lparr>cs_vm := w\<rparr>))))"
      using assms by (metis keeps_def call_state.select_convs(3) call_state.update_convs(3) call_state.surjective)
    with mem_put_poke [OF Inr] show ?thesis
      by (simp add: guest_write_def get_res_def Inr converse_rtranclp_into_rtranclp)
  qed (simp add: guest_write_def get_res_def raise_def)
qed

lemma keeps_state:
  "keeps k \<Longrightarrow> keeps (set_result x k)" "keeps k \<Longrightarrow> keeps (own_block k)" "keeps k \<Longrightarrow> keeps (free_block k)"
  "(\<And>r. keeps (k' r)) \<Longrightarrow> keeps (\<lambda>s. case uv_do uw p c (cs_uv s) of (u, reply) \<Rightarrow> k' reply (s\<lparr>cs_uv := u\<rparr>))"
proof -
  fix x
  show "keeps k \<Longrightarrow> keeps (set_result x k)"
    by (simp add: keeps_def set_result_def keepsD [unfolded keeps_def])
qed (simp_all add: keeps_def own_block_def free_block_def raise_def keepsD [unfolded keeps_def] split: prod.split)

lemma keeps_if: "(b \<Longrightarrow> keeps k) \<Longrightarrow> (\<not> b \<Longrightarrow> keeps k') \<Longrightarrow> keeps (if b then k else k')"
  by simp

lemma keeps_check_err: "keeps (cleanup ok_r) \<Longrightarrow> keeps k \<Longrightarrow> keeps (check_err e cleanup k)"
  by (simp add: check_err_def keeps_state)

lemma keeps_id: "keeps k \<Longrightarrow> keeps (id k)"
  by simp

lemma keeps_scatter: "keeps k \<Longrightarrow> keeps (guest_scatter ctx iov chunks k)"
  by (induction ctx iov chunks k rule: guest_scatter.induct) (auto intro: keeps_guest_write)

lemma keeps_gather: "(\<And>bss. keeps (k bss)) \<Longrightarrow> keeps (guest_gather ctx iov k)"
  by (induction ctx iov k rule: guest_gather.induct) (auto intro: keeps_get_res)

lemma keeps_write_pointers: "keeps k \<Longrightarrow> keeps (write_pointers uw ctx dst buf i ps k)"
  by (induction ps arbitrary: i) (auto intro: keeps_guest_write)

lemma keeps_memory:
  "keeps k \<Longrightarrow> keeps (guest_fill ctx off n bs k)" "(\<And>bs. keeps (k' bs)) \<Longrightarrow> keeps (guest_bytes ctx off n k')"
  "keeps k \<Longrightarrow> keeps (serdes_write uw ctx off d k)" "(\<And>e iov. keeps (k'' e iov)) \<Longrightarrow> keeps (readv rd ctx iovs l k'')"
  by (auto simp: guest_fill_def guest_bytes_def serdes_write_def readv_def intro!: keeps_guest_write keeps_get_res split: prod.split)

lemma keeps_blocks:
  "keeps k \<Longrightarrow> keeps (alloc_iovec uw l k)" "(\<And>v. keeps (k' v)) \<Longrightarrow> keeps (resize_ptrs uw n k')" "keeps k \<Longrightarrow> keeps (fill_ptrs v ps k)"
  by (auto simp: alloc_iovec_def resize_ptrs_def fill_ptrs_def intro!: keeps_state keeps_get_res keeps_basic)

lemma keeps_uv: "(\<And>r. keeps (k r)) \<Longrightarrow> keeps (uv uw ms ctx c k)"
  unfolding uv_def by (rule keeps_get_res) (rule keeps_state)

lemma keeps_return: "keeps return_ok"
  by (simp add: return_ok_def keeps_state keeps_basic)

lemmas keeps_rules = keeps_basic keeps_return keeps_uv keeps_check_err keeps_id keeps_memory keeps_guest_write keeps_blocks
  keeps_state(1-3) keeps_scatter keeps_gather keeps_write_pointers keeps_get_res keeps_if

lemmas wasi_defs =
  wasi_args_get_def wasi_args_sizes_get_def wasi_clock_res_get_def wasi_clock_time_get_def wasi_environ_get_def
  wasi_environ_sizes_get_def wasi_fd_advise_def wasi_fd_allocate_def wasi_fd_close_def wasi_fd_datasync_def
  wasi_fd_fdstat_get_def wasi_fd_fdstat_set_flags_def wasi_fd_fdstat_set_rights_def wasi_fd_filestat_get_def
  wasi_fd_filestat_set_size_def wasi_fd_filestat_set_times_def wasi_fd_pread_def wasi_fd_prestat_get_def
  wasi_fd_prestat_dir_name_def wasi_fd_pwrite_def wasi_fd_read_def wasi_fd_readdir_def wasi_fd_renumber_def
  wasi_fd_seek_def wasi_fd_sync_def wasi_fd_tell_def wasi_fd_write_def wasi_path_create_directory_def
  wasi_path_filestat_get_def wasi_path_filestat_set_times_def wasi_path_link_def wasi_path_open_def
  wasi_path_readlink_def wasi_path_remove_directory_def wasi_path_rename_def wasi_path_symlink_def
  wasi_path_unlink_file_def wasi_poll_oneoff_def wasi_proc_exit_def wasi_proc_raise_def wasi_random_get_def
  wasi_sched_yield_def wasi_sock_accept_def wasi_sock_recv_def wasi_sock_send_def wasi_sock_shutdown_def

lemmas spectest_defs =
  spectest_print_def spectest_print_i32_def spectest_print_i64_def spectest_print_f32_def spectest_print_f64_def
  spectest_print_i32_f32_def spectest_print_f64_f64_def

text \<open>
  A property of actions that a failing call has, and that every function of the interface has, is
  one of every function in the table.
\<close>

lemma host_func_cases:
  assumes "\<And>e. P (raise e)"
  shows "(\<And>y ys. xs = y # ys \<Longrightarrow> P (b y ys)) \<Longrightarrow> P (case xs of [] \<Rightarrow> raise Fault | y # ys \<Rightarrow> b y ys)"
    "P k \<Longrightarrow> P (case xs of [] \<Rightarrow> k | y # ys \<Rightarrow> raise Fault)"
    "(\<And>x. P (f x)) \<Longrightarrow> P (case v of V_i32 x \<Rightarrow> f x | _ \<Rightarrow> raise Fault)"
    "(\<And>x. P (g x)) \<Longrightarrow> P (case v of V_i64 x \<Rightarrow> g x | _ \<Rightarrow> raise Fault)"
    "(\<And>x. P (f x)) \<Longrightarrow> P (case v of V_f32 x \<Rightarrow> f x | _ \<Rightarrow> raise Fault)"
    "(\<And>x. P (g x)) \<Longrightarrow> P (case v of V_f64 x \<Rightarrow> g x | _ \<Rightarrow> raise Fault)"
  using assms by (simp_all split: list.split cval.split)

lemma keeps_host_func:
  assumes "(f, h) \<in> set (host_funcs :: (string \<times> ('u, 's) host_func) list)"
  shows "keeps (hf_body h (uw, ms, ctx) args)"
proof -
  have "list_all (\<lambda>(f, h). \<forall>args. keeps (hf_body h (uw, ms, ctx) args)) (host_funcs :: (string \<times> ('u, 's) host_func) list)"
    unfolding host_funcs_def spectest_funcs_def wasi_funcs_def wasi_defs spectest_defs
    by (simp only: list_all_append list.pred_inject prod.case host_func.select_convs simp_thms)
      (intro conjI allI host_func_cases [of keeps] keeps_rules)
  with assms show ?thesis by (auto simp: list_all_iff)
qed

section \<open>Heap blocks\<close>

text \<open>\<open>frees n act\<close>: unless it faults, the action gives back \<open>n\<close> blocks and all that it allocates.\<close>

definition frees :: "nat \<Rightarrow> 'u action \<Rightarrow> bool" where
  "frees n act \<longleftrightarrow> (\<forall>s. n \<le> cs_live s \<longrightarrow> fst (act s) \<noteq> Some Fault \<longrightarrow> cs_live (snd (act s)) + n = cs_live s)"

lemma frees_basic: "frees 0 ok_r" "frees n (raise Fault)" "frees 0 (raise e)" "frees 0 return_ok"
  by (simp_all add: frees_def ok_r_def raise_def return_ok_def set_result_def)

lemma frees_state:
  "frees n k \<Longrightarrow> frees n (set_result x k)" "frees (Suc n) k \<Longrightarrow> frees n (own_block k)" "frees n k \<Longrightarrow> frees (Suc n) (free_block k)"
proof -
  show "frees n k \<Longrightarrow> frees n (set_result x k)"
    by (simp add: frees_def set_result_def)
  show "frees n (own_block k)" if "frees (Suc n) k"
    unfolding frees_def
  proof
    fix s :: "'a call_state"
    show "n \<le> cs_live s \<longrightarrow> fst (own_block k s) \<noteq> Some Fault \<longrightarrow> cs_live (snd (own_block k s)) + n = cs_live s"
      using that [unfolded frees_def, rule_format, of "s\<lparr>cs_live := cs_live s + 1\<rparr>"] by (simp add: own_block_def)
  qed
  show "frees (Suc n) (free_block k)" if "frees n k"
    unfolding frees_def
  proof
    fix s :: "'a call_state"
    show "Suc n \<le> cs_live s \<longrightarrow> fst (free_block k s) \<noteq> Some Fault \<longrightarrow> cs_live (snd (free_block k s)) + Suc n = cs_live s"
      using that [unfolded frees_def, rule_format, of "s\<lparr>cs_live := cs_live s - 1\<rparr>"] by (auto simp: free_block_def raise_def)
  qed
qed

lemma frees_get_res:
  assumes "\<And>x. frees n (k x)" "\<And>s e. f s = Inl e \<Longrightarrow> e = Fault"
  shows "frees n (get_res f k)"
  using assms by (auto simp: frees_def get_res_def raise_def split: sum.split)

lemma frees_get_res_0: "(\<And>x. frees 0 (k x)) \<Longrightarrow> frees 0 (get_res f k)"
  by (auto simp: frees_def get_res_def raise_def split: sum.split)

lemma at_addr_fault: "at_addr sel v a = Inl e \<Longrightarrow> e = Fault" "set_addr sel upd x v a = Inl e \<Longrightarrow> e = Fault"
  by (auto simp: at_addr_def set_addr_def the_inst_def vec_at_def vec_set_def res_simps split: option.splits if_splits prod.splits)

lemma access_fault:
  "to_wasi ms ctx s = Inl e \<Longrightarrow> e = Fault" "pmem0 ctx s = Inl e \<Longrightarrow> e = Fault"
  "mem_span ctx off n s = Inl e \<Longrightarrow> e = Fault" "mem_put ctx off bs s = Inl e \<Longrightarrow> e = Fault"
  by (auto simp: to_wasi_def pmem0_def mem_span_def mem_put_def the_mod_def res_simps Let_def
      split: if_splits option.splits dest: at_addr_fault)

lemma frees_guest_write: "frees n k \<Longrightarrow> frees n (guest_write ctx off bs k)"
  unfolding guest_write_def
  by (rule frees_get_res) (auto simp: frees_def dest: access_fault)

lemma frees_uv: "(\<And>r. frees n (k r)) \<Longrightarrow> frees n (uv uw ms ctx c k)"
  unfolding uv_def
  by (rule frees_get_res) (auto simp: frees_def dest: access_fault split: prod.split)

lemma frees_memory:
  "frees n k \<Longrightarrow> frees n (guest_fill ctx off l bs k)" "(\<And>bs. frees n (k' bs)) \<Longrightarrow> frees n (guest_bytes ctx off l k')"
  "frees n k \<Longrightarrow> frees n (serdes_write uw ctx off d k)" "(\<And>e iov. frees n (k'' e iov)) \<Longrightarrow> frees n (readv rd ctx iovs l k'')"
  by (auto simp: guest_fill_def guest_bytes_def serdes_write_def readv_def intro!: frees_guest_write frees_get_res
      dest: access_fault split: prod.split)

lemma frees_loops:
  "frees n k \<Longrightarrow> frees n (guest_scatter ctx iov chunks k)" "(\<And>bss. frees n (k' bss)) \<Longrightarrow> frees n (guest_gather ctx iov k')"
  "frees n k \<Longrightarrow> frees n (write_pointers uw ctx dst buf i ps k)"
proof -
  show "frees n k \<Longrightarrow> frees n (guest_scatter ctx iov chunks k)"
    by (induction ctx iov chunks k rule: guest_scatter.induct) (auto intro: frees_guest_write)
  show "(\<And>bss. frees n (k' bss)) \<Longrightarrow> frees n (guest_gather ctx iov k')"
    by (induction ctx iov k' rule: guest_gather.induct) (auto intro!: frees_get_res dest: access_fault)
  show "frees n k \<Longrightarrow> frees n (write_pointers uw ctx dst buf i ps k)"
    by (induction ps arbitrary: i) (auto intro: frees_guest_write)
qed

lemma frees_blocks:
  "frees 1 k \<Longrightarrow> frees 0 (alloc_iovec uw l k)" "(\<And>v. frees 1 (k' v)) \<Longrightarrow> frees 0 (resize_ptrs uw m k')"
  "frees n k \<Longrightarrow> frees n (fill_ptrs v ps k)"
  by (auto simp: alloc_iovec_def resize_ptrs_def fill_ptrs_def intro!: frees_state frees_get_res_0 frees_basic)

lemma frees_control:
  "frees n (cleanup ok_r) \<Longrightarrow> frees n k \<Longrightarrow> frees n (check_err e cleanup k)" "frees n k \<Longrightarrow> frees n (id k)"
  "(b \<Longrightarrow> frees n k) \<Longrightarrow> (\<not> b \<Longrightarrow> frees n k') \<Longrightarrow> frees n (if b then k else k')"
  by (simp_all add: check_err_def frees_state)

lemma frees_free_block: "frees 0 k \<Longrightarrow> frees 1 (free_block k)"
  using frees_state(3) [of 0 k] by simp

lemmas frees_rules = frees_basic frees_uv frees_control frees_memory frees_guest_write frees_blocks frees_free_block frees_state(1)
  frees_loops frees_get_res_0

lemma frees_host_func:
  assumes "(f, h) \<in> set (host_funcs :: (string \<times> ('u, 's) host_func) list)"
  shows "frees 0 (hf_body h (uw, ms, ctx) args)"
proof -
  have "list_all (\<lambda>(f, h). \<forall>args. frees 0 (hf_body h (uw, ms, ctx) args)) (host_funcs :: (string \<times> ('u, 's) host_func) list)"
    unfolding host_funcs_def spectest_funcs_def wasi_funcs_def wasi_defs spectest_defs
    by (simp only: list_all_append list.pred_inject prod.case host_func.select_convs simp_thms)
      (intro conjI allI host_func_cases [of "frees 0"] frees_rules)
  with assms show ?thesis by (auto simp: list_all_iff)
qed

section \<open>A library that refuses\<close>

text \<open>Every call of the library fails with the number \<open>e\<close> and stores nothing; vectors of buffers can be read.\<close>

definition refuses :: "('u, 's) uvwasi \<Rightarrow> u16 \<Rightarrow> bool" where
  "refuses uw e \<longleftrightarrow> e \<noteq> UVWASI_ESUCCESS \<and>
     (\<forall>p c u. uv_errno (snd (uv_do uw p c u)) = e \<and> uv_bytes (snd (uv_do uw p c u)) = [] \<and> uv_chunks (snd (uv_do uw p c u)) = []) \<and>
     (\<forall>bs n i l. fst (uv_readv_iovec uw bs n i l) = UVWASI_ESUCCESS \<and> fst (uv_readv_ciovec uw bs n i l) = UVWASI_ESUCCESS)"

text \<open>
  \<open>reports P act\<close>: the action leaves the store as it is, and if it returns without an error \<open>P\<close> holds for the
  number it has stored for the caller; its only errors are a fault and the lack of memory.
\<close>

definition reports :: "(u32 \<Rightarrow> bool) \<Rightarrow> 'u action \<Rightarrow> bool" where
  "reports P act \<longleftrightarrow> (\<forall>s. cs_vm (snd (act s)) = cs_vm s \<and>
     (fst (act s) = None \<longrightarrow> P (cs_result (snd (act s)))) \<and> (\<forall>e. fst (act s) = Some e \<longrightarrow> e = Fault \<or> e = E_general))"

lemma reports_basic: "reports P (raise Fault)" "reports P (raise E_general)" "P x \<Longrightarrow> reports P (set_result x ok_r)"
  by (simp_all add: reports_def raise_def set_result_def ok_r_def)

lemma reports_blocks:
  "reports P k \<Longrightarrow> reports P (own_block k)" "reports P k \<Longrightarrow> reports P (free_block k)" "reports P k \<Longrightarrow> reports P (alloc_iovec uw l k)"
proof -
  show own: "reports P (own_block k)" if "reports P k"
    using that unfolding reports_def own_block_def by simp
  show "reports P (free_block k)" if "reports P k"
    using that unfolding reports_def free_block_def raise_def by simp
  show "reports P (alloc_iovec uw l k)" if "reports P k"
    using own [OF that] by (simp add: alloc_iovec_def reports_basic)
qed

lemma reports_get_res:
  assumes "\<And>x. reports P (k x)" "\<And>s e. f s = Inl e \<Longrightarrow> e = Fault"
  shows "reports P (get_res f k)"
  using assms by (auto simp: reports_def get_res_def raise_def split: sum.split)

lemma reports_uv:
  assumes "refuses uw e" "\<And>r. uv_errno r = e \<Longrightarrow> uv_bytes r = [] \<Longrightarrow> uv_chunks r = [] \<Longrightarrow> reports P (k r)"
  shows "reports P (uv uw ms ctx c k)"
  unfolding uv_def
proof (rule reports_get_res)
  fix p
  have "reports P (k (snd (uv_do uw p c u)))" for u
    using assms(1) by (intro assms(2)) (simp_all add: refuses_def del: split_paired_All)
  then show "reports P (\<lambda>s. case uv_do uw p c (cs_uv s) of (u, reply) \<Rightarrow> k reply (s\<lparr>cs_uv := u\<rparr>))"
    by (simp add: reports_def split_beta)
qed (rule access_fault)

lemma reports_check_err:
  "refuses uw e \<Longrightarrow> uv_errno r = e \<Longrightarrow> reports (\<lambda>x. x = ucast e) (check_err (uv_errno r) id k)"
  "refuses uw e \<Longrightarrow> uv_errno r = e \<Longrightarrow> reports (\<lambda>x. x = ucast e) (check_err (uv_errno r) free_block k)"
  "reports P k \<Longrightarrow> reports P (check_err UVWASI_ESUCCESS cleanup k)"
  by (simp_all add: check_err_def refuses_def reports_basic reports_def set_result_def free_block_def ok_r_def raise_def)

lemma set_addr_same:
  assumes "at_addr mi_memories v a = Inr x" "set_mem x v a = Inr w"
  shows "w = v"
  using assms by (auto simp: at_addr_def set_addr_def the_inst_def set_inst_def vec_at_def vec_set_def res_simps split: option.splits if_splits)

lemma mem_put_nothing: "mem_put ctx off [] s = Inr w \<Longrightarrow> w = cs_vm s"
  by (auto simp: mem_put_def res_simps Let_def dest: set_addr_same split: if_splits)

lemma reports_memory:
  "uv_bytes r = [] \<Longrightarrow> reports P k \<Longrightarrow> reports P (guest_fill ctx off n (uv_bytes r) k)"
  "(\<And>bs. reports P (k' bs)) \<Longrightarrow> reports P (guest_bytes ctx off n k')"
  "uv_chunks r = [] \<Longrightarrow> reports P k \<Longrightarrow> reports P (guest_scatter ctx iov (uv_chunks r) k)"
  "(\<And>bss. reports P (k'' bss)) \<Longrightarrow> reports P (guest_gather ctx iov k'')"
proof -
  show "reports P (guest_fill ctx off n (uv_bytes r) k)" if "uv_bytes r = []" "reports P k"
    using that by (auto simp: reports_def guest_fill_def guest_write_def get_res_def raise_def
        dest: mem_put_nothing access_fault split: sum.split)
  show "(\<And>bs. reports P (k' bs)) \<Longrightarrow> reports P (guest_bytes ctx off n k')"
    by (auto simp: guest_bytes_def intro!: reports_get_res dest: access_fault)
  show "(\<And>bss. reports P (k'' bss)) \<Longrightarrow> reports P (guest_gather ctx iov k'')"
    by (induction ctx iov k'' rule: guest_gather.induct) (auto intro!: reports_get_res dest: access_fault)
qed simp

lemma reports_readv:
  assumes "refuses uw e" "\<And>iov. reports P (k UVWASI_ESUCCESS iov)"
  shows "reports P (readv (uv_readv_iovec uw) ctx iovs l k)" "reports P (readv (uv_readv_ciovec uw) ctx iovs l k)"
proof -
  have "fst (uv_readv_iovec uw bs n i l) = UVWASI_ESUCCESS" "fst (uv_readv_ciovec uw bs n i l) = UVWASI_ESUCCESS" for bs n i l
    using assms(1) by (simp_all add: refuses_def)
  then show "reports P (readv (uv_readv_iovec uw) ctx iovs l k)" "reports P (readv (uv_readv_ciovec uw) ctx iovs l k)"
    using assms(2) by (auto simp: readv_def split_beta intro!: reports_get_res dest: access_fault)
qed

text \<open>The functions whose result does not depend on the library.\<close>

definition silent_funcs :: "string list" where
  "silent_funcs = [''wasi_path_open'', ''wasi_proc_exit'', ''wasi_sock_accept'', ''wasi_sock_recv'', ''wasi_sock_send'', ''wasi_sock_shutdown'']"

lemma reports_in_range: "(\<And>x. reports P (k x)) \<Longrightarrow> reports P (get_res (\<lambda>s. unwrap (pmem0 ctx s) (\<lambda>bs. in_range (f bs))) k)"
  by (rule reports_get_res) (auto simp: in_range_def res_simps split: option.splits dest: access_fault)

lemma reports_if: "(\<not> b \<Longrightarrow> reports P k) \<Longrightarrow> reports P (if b then raise Fault else k)"
  by (simp add: reports_basic)

lemma refused_wasi_func:
  assumes "refuses uw e" "(f, h) \<in> set (wasi_funcs :: (string \<times> ('u, 's) host_func) list)" "f \<notin> set silent_funcs"
  shows "reports (\<lambda>x. x = ucast e) (hf_body h (uw, ms, ctx) args)"
proof -
  let ?R = "reports (\<lambda>x. x = ucast e) :: 'u action \<Rightarrow> bool"
  have cases: "(\<And>y ys. xs = y # ys \<Longrightarrow> ?R (b y ys)) \<Longrightarrow> ?R (case xs of [] \<Rightarrow> raise Fault | y # ys \<Rightarrow> b y ys)"
    "?R k \<Longrightarrow> ?R (case ys of [] \<Rightarrow> k | y # ys \<Rightarrow> raise Fault)"
    "(\<And>x. ?R (f x)) \<Longrightarrow> ?R (case v of V_i32 x \<Rightarrow> f x | _ \<Rightarrow> raise Fault)"
    "(\<And>x. ?R (g x)) \<Longrightarrow> ?R (case v of V_i64 x \<Rightarrow> g x | _ \<Rightarrow> raise Fault)"
    for xs ys b k f g v
    by (simp_all add: reports_basic split: list.split cval.split)
  have "list_all (\<lambda>(f, h). f \<notin> set silent_funcs \<longrightarrow> (\<forall>args. ?R (hf_body h (uw, ms, ctx) args))) wasi_funcs"
    unfolding wasi_funcs_def silent_funcs_def wasi_defs
    by (simp, simp only: prod.case)
      (intro conjI allI cases reports_uv [OF assms(1)] reports_check_err(1,2) [OF assms(1)] reports_memory reports_readv [OF assms(1)]
        reports_check_err(3) reports_blocks(3) reports_in_range reports_if; assumption)
  with assms(2,3) show ?thesis by (auto simp: list_all_iff)
qed

lemma path_open_result:
  "fst (wasi_path_open (uw, ms, ctx) a b c d x y z f g s) = None \<Longrightarrow>
   cs_result (snd (wasi_path_open (uw, ms, ctx) a b c d x y z f g s)) = WASI_ERRNO_OK"
  by (auto simp: wasi_path_open_def guest_bytes_def uv_def get_res_def check_err_def serdes_write_def guest_write_def return_ok_def
      set_result_def ok_r_def raise_def split: sum.splits prod.splits)

section \<open>Calls\<close>

text \<open>A call through a trampoline either faults or runs the body of a function of the table.\<close>

lemma host_call_cases:
  assumes "host_call L mc uw tr hf ms s a args m0 = (e, s', buf)"
  obtains (fault) "e = Some Fault" "cs_vm s' = cs_vm s" "buf = args"
  | (ran) f h vals e' where "(f, h) \<in> set host_funcs"
      "hf_body h (uw, ms, \<lparr>ctx_f_addr = a, ctx_args = args, ctx_mem0 = m0\<rparr>) vals (s\<lparr>cs_result := 0\<rparr>) = (e', s')"
      "e = e' \<or> e = Some Fault" "length buf = length args" "tl buf = tl args"
proof (cases "e = Some Fault \<and> cs_vm s' = cs_vm s \<and> buf = args")
  case True
  then show ?thesis using fault by blast
next
  case False
  let ?ctx = "\<lparr>ctx_f_addr = a, ctx_args = args, ctx_mem0 = m0\<rparr>"
  from False assms obtain t f where run: "run_trampoline mc t uw ms ?ctx f s = (e, s', buf)"
    by (auto simp: host_call_def split: option.splits)
  with False obtain vals where vals: "read_args (tr_params t) args = Inr vals"
    by (auto simp: run_trampoline_def read_args_def Let_def split: if_splits)
  obtain e' s1 where call: "call_host_func t (uw, ms, ?ctx) f vals (s\<lparr>cs_result := 0\<rparr>) = (e', s1)"
    by fastforce
  have out: "s1 = s'" "e = e' \<or> e = Some Fault" "length buf = length args" "tl buf = tl args"
    using run by (auto simp: run_trampoline_def vals call Let_def split: option.splits if_splits)
      (cases args; simp)+
  have "\<exists>h. (f, h) \<in> set host_funcs \<and> hf_body h (uw, ms, ?ctx) vals (s\<lparr>cs_result := 0\<rparr>) = (e', s1)"
    using call False run unfolding call_host_func_def
    by (auto simp: raise_def run_trampoline_def vals call Let_def call_host_func_def split: option.splits if_splits dest: map_of_SomeD)
  then show ?thesis using ran out by blast
qed

text \<open>The host as the interpreter sees it, at a moment when the library is in the state \<open>u\<close>.\<close>

definition host_of :: "link \<Rightarrow> machine \<Rightarrow> ('u, 's) uvwasi \<Rightarrow> 'u \<Rightarrow> nat \<Rightarrow> host" where
  "host_of L mc uw u n tr hf ms v a args m0 =
     (case host_call L mc uw tr hf ms \<lparr>cs_uv = u, cs_live = n, cs_vm = v, cs_result = 0\<rparr> a args m0 of (e, s, buf) \<Rightarrow> Some (e, cs_vm s, buf))"

lemma host_call_pokes:
  assumes "host_call L mc uw tr hf ms s a args m0 = (e, s', buf)"
  shows "poke\<^sup>*\<^sup>* (cs_vm s) (cs_vm s')"
  using assms
proof (cases rule: host_call_cases)
  case (ran f h vals e')
  with keeps_host_func [OF ran(1)] show ?thesis
    unfolding keeps_def by (metis call_state.select_convs(3) call_state.surjective call_state.update_convs(4) snd_conv)
qed simp

section \<open>Injection\<close>

definition injectable :: "host_func_info list \<Rightarrow> func list \<Rightarrow> export \<Rightarrow> bool" where
  "injectable info fs ex \<longleftrightarrow> (exp_kind ex = EXTERNAL_KIND_Function \<longrightarrow>
     \<not> is_imported (f_linkage (fs ! unat (external_idx ex))) \<and> find_host_func_info (exp_name ex) info \<noteq> None)"

text \<open>The entry of the table that function \<open>i\<close> gets: that of the last export that names it.\<close>

definition host_entry :: "host_func_info list \<Rightarrow> export list \<Rightarrow> nat \<Rightarrow> host_func_info option" where
  "host_entry info es i =
     Option.bind (find (\<lambda>ex. exp_kind ex = EXTERNAL_KIND_Function \<and> unat (external_idx ex) = i) (rev es)) (\<lambda>ex. find_host_func_info (exp_name ex) info)"

definition with_entry :: "link \<Rightarrow> host_func_info option \<Rightarrow> func \<Rightarrow> func" where
  "with_entry L x f = (case x of None \<Rightarrow> f | Some i \<Rightarrow> f\<lparr>f_tr := at_tr L (hi_tr i), f_host_func := at_fn L (hi_func i)\<rparr>)"

definition injected :: "link \<Rightarrow> host_func_info list \<Rightarrow> export list \<Rightarrow> module \<Rightarrow> module" where
  "injected L info es m = m\<lparr>funcs := (funcs m)\<lparr>vdata :=
     map (\<lambda>i. with_entry L (host_entry info es i) (vdata (funcs m) ! i)) [0..<length (vdata (funcs m))]\<rparr>\<rparr>"

lemma foreach_res_append: "foreach_res body (xs @ ys) s = unwrap (foreach_res body xs s) (foreach_res body ys)"
  by (induction xs arbitrary: s) (auto simp: unwrap_def split: sum.split)

lemma inject_step_next:
  assumes "exp_kind ex = EXTERNAL_KIND_Function \<longrightarrow> unat (external_idx ex) < length (vdata (funcs m))"
  shows "inject_step L info ex (injected L info es m) =
    (if injectable info (vdata (funcs m)) ex then Inr (injected L info (es @ [ex]) m) else Inl E_general)"
proof (cases "exp_kind ex = EXTERNAL_KIND_Function")
  case True
  let ?i = "unat (external_idx ex)" and ?fs = "vdata (funcs m)"
  have i: "?i < length ?fs" using assms True by simp
  have link: "f_linkage (with_entry L x f) = f_linkage f" for x f
    by (simp add: with_entry_def split: option.split)
  show ?thesis
  proof (cases "find_host_func_info (exp_name ex) info")
    case (Some h)
    have "host_entry info (es @ [ex]) j = (if j = ?i then Some h else host_entry info es j)" for j
      using True Some by (auto simp: host_entry_def)
    moreover have "(with_entry L x f)\<lparr>f_tr := at_tr L (hi_tr h), f_host_func := at_fn L (hi_func h)\<rparr> = with_entry L (Some h) f" for x f
      by (simp add: with_entry_def split: option.split)
    ultimately show ?thesis
      using True Some i
      by (auto simp: inject_step_def injectable_def injected_def vec_at_def vec_set_def link map_upt_update)
  qed (use True i in \<open>simp add: inject_step_def injectable_def injected_def vec_at_def link\<close>)
next
  case False
  then have "host_entry info (es @ [ex]) = host_entry info es"
    by (auto simp: host_entry_def)
  with False show ?thesis
    by (simp add: inject_step_def injectable_def injected_def)
qed

lemma inject_foreach:
  assumes "\<And>ex. ex \<in> set es \<Longrightarrow> exp_kind ex = EXTERNAL_KIND_Function \<Longrightarrow> unat (external_idx ex) < length (vdata (funcs m))"
  shows "foreach_res (inject_step L info) es m =
    (if list_all (injectable info (vdata (funcs m))) es then Inr (injected L info es m) else Inl E_general)"
  using assms
proof (induction es rule: rev_induct)
  case Nil
  have "map (\<lambda>i. with_entry L (host_entry info [] i) (vdata (funcs m) ! i)) [0..<length (vdata (funcs m))] = vdata (funcs m)"
    by (simp add: host_entry_def with_entry_def map_nth)
  then show ?case by (simp add: injected_def)
next
  case (snoc ex es)
  then show ?case
    by (simp add: foreach_res_append inject_step_next)
qed

section \<open>The modules\<close>

text \<open>The sources spectest.wat and wasi.wat of the binaries.\<close>

abbreviation empty_body :: body_text where "empty_body \<equiv> ([], [0x0b])"
abbreviation const_body :: body_text where "const_body \<equiv> ([], [0x41, 0x01, 0x0b])"

definition spectest_text :: module_text where
  "spectest_text = \<lparr>
     mt_types = [([], []),
       ([0x7f], []),
       ([0x7e], []),
       ([0x7d], []),
       ([0x7c], []),
       ([0x7f, 0x7d], []),
       ([0x7c, 0x7c], [])],
     mt_funcs = [0, 1, 2, 3, 4, 5, 6],
     mt_tables = [(0x70, 10, Some 20)], mt_memories = [(1, Some 2)], mt_globals = [
       (0x7f, False, [0x41, 0x9a, 0x05, 0x0b]), (0x7e, False, [0x42, 0x9a, 0x05, 0x0b]),
       (0x7d, False, [0x43, 0x00, 0x80, 0x26, 0x44, 0x0b]),
       (0x7c, False, [0x44, 0x00, 0x00, 0x00, 0x00, 0x00, 0xd0, 0x84, 0x40, 0x0b])],
     mt_exports = [(cstr ''print'', 0, 0),
       (cstr ''print_i32'', 0, 1),
       (cstr ''print_i64'', 0, 2),
       (cstr ''print_f32'', 0, 3),
       (cstr ''print_f64'', 0, 4),
       (cstr ''print_i32_f32'', 0, 5),
       (cstr ''print_f64_f64'', 0, 6)] @
       [(cstr ''table'', 1, 0), (cstr ''memory'', 2, 0), (cstr ''global_i32'', 3, 0), (cstr ''global_i64'', 3, 1),
        (cstr ''global_f32'', 3, 2), (cstr ''global_f64'', 3, 3)],
     mt_bodies = [empty_body, empty_body, empty_body, empty_body, empty_body, empty_body, empty_body]\<rparr>"

definition wasi_text :: module_text where
  "wasi_text = \<lparr>
     mt_types = [([0x7f, 0x7f], [0x7f]),
       ([0x7f, 0x7e, 0x7f], [0x7f]),
       ([0x7f, 0x7e, 0x7e, 0x7f], [0x7f]),
       ([0x7f, 0x7e, 0x7e], [0x7f]),
       ([0x7f], [0x7f]),
       ([0x7f, 0x7e], [0x7f]),
       ([0x7f, 0x7f, 0x7f, 0x7e, 0x7f], [0x7f]),
       ([0x7f, 0x7f, 0x7f], [0x7f]),
       ([0x7f, 0x7f, 0x7f, 0x7f], [0x7f]),
       ([0x7f, 0x7e, 0x7f, 0x7f], [0x7f]),
       ([0x7f, 0x7f, 0x7f, 0x7f, 0x7f], [0x7f]),
       ([0x7f, 0x7f, 0x7f, 0x7f, 0x7e, 0x7e, 0x7f], [0x7f]),
       ([0x7f, 0x7f, 0x7f, 0x7f, 0x7f, 0x7f, 0x7f], [0x7f]),
       ([0x7f, 0x7f, 0x7f, 0x7f, 0x7f, 0x7e, 0x7e, 0x7f, 0x7f], [0x7f]),
       ([0x7f, 0x7f, 0x7f, 0x7f, 0x7f, 0x7f], [0x7f]),
       ([0x7f], []),
       ([], [0x7f])],
     mt_funcs = [0, 0, 0, 1, 0, 0, 2, 3, 4, 4, 0, 0, 3, 0, 5, 2, 6, 7, 0, 6, 8, 6, 0, 9, 4, 0, 8, 7, 10, 11, 12, 13, 14, 7, 14, 10, 7, 8, 15, 4, 0, 16, 7, 14, 10, 0],
     mt_tables = [], mt_memories = [], mt_globals = [],
     mt_exports = [(cstr ''args_get'', 0, 0),
       (cstr ''args_sizes_get'', 0, 1),
       (cstr ''clock_res_get'', 0, 2),
       (cstr ''clock_time_get'', 0, 3),
       (cstr ''environ_get'', 0, 4),
       (cstr ''environ_sizes_get'', 0, 5),
       (cstr ''fd_advise'', 0, 6),
       (cstr ''fd_allocate'', 0, 7),
       (cstr ''fd_close'', 0, 8),
       (cstr ''fd_datasync'', 0, 9),
       (cstr ''fd_fdstat_get'', 0, 10),
       (cstr ''fd_fdstat_set_flags'', 0, 11),
       (cstr ''fd_fdstat_set_rights'', 0, 12),
       (cstr ''fd_filestat_get'', 0, 13),
       (cstr ''fd_filestat_set_size'', 0, 14),
       (cstr ''fd_filestat_set_times'', 0, 15),
       (cstr ''fd_pread'', 0, 16),
       (cstr ''fd_prestat_dir_name'', 0, 17),
       (cstr ''fd_prestat_get'', 0, 18),
       (cstr ''fd_pwrite'', 0, 19),
       (cstr ''fd_read'', 0, 20),
       (cstr ''fd_readdir'', 0, 21),
       (cstr ''fd_renumber'', 0, 22),
       (cstr ''fd_seek'', 0, 23),
       (cstr ''fd_sync'', 0, 24),
       (cstr ''fd_tell'', 0, 25),
       (cstr ''fd_write'', 0, 26),
       (cstr ''path_create_directory'', 0, 27),
       (cstr ''path_filestat_get'', 0, 28),
       (cstr ''path_filestat_set_times'', 0, 29),
       (cstr ''path_link'', 0, 30),
       (cstr ''path_open'', 0, 31),
       (cstr ''path_readlink'', 0, 32),
       (cstr ''path_remove_directory'', 0, 33),
       (cstr ''path_rename'', 0, 34),
       (cstr ''path_symlink'', 0, 35),
       (cstr ''path_unlink_file'', 0, 36),
       (cstr ''poll_oneoff'', 0, 37),
       (cstr ''proc_exit'', 0, 38),
       (cstr ''proc_raise'', 0, 39),
       (cstr ''random_get'', 0, 40),
       (cstr ''sched_yield'', 0, 41),
       (cstr ''sock_accept'', 0, 42),
       (cstr ''sock_recv'', 0, 43),
       (cstr ''sock_send'', 0, 44),
       (cstr ''sock_shutdown'', 0, 45)],
     mt_bodies = [const_body, const_body, const_body, const_body, const_body, const_body, const_body, const_body, const_body, const_body, const_body, const_body, const_body, const_body, const_body, const_body, const_body, const_body, const_body, const_body, const_body, const_body, const_body, const_body, const_body, const_body, const_body, const_body, const_body, const_body, const_body, const_body, const_body, const_body, const_body, const_body, const_body, const_body, empty_body, const_body, const_body, const_body, const_body, const_body, const_body, const_body]\<rparr>"

lemmas encode_defs = encode_module_def enc_section_def enc_vec_def enc_items_def enc_type_def enc_limits_def enc_table_def enc_global_def
  enc_export_def enc_body_def enc_local_def

lemma spectest_encoded: "encode_module spectest_text = spectest_wasm"
  by code_simp

lemma wasi_encoded: "encode_module wasi_text = wasi_wasm"
  by (simp add: encode_defs wasi_text_def wasi_wasm_def cstr_def leb_encode.simps)

lemma ascii_utf8: "list_all (\<lambda>b. b < 0x80) bs \<Longrightarrow> is_valid_utf8 bs"
proof -
  assume ascii: "list_all (\<lambda>b. b < 0x80) bs"
  have "utf8_encode (unat b) = [b]" "is_scalar (unat b)" if "b < 0x80" for b :: u8
    using that by (simp_all add: utf8_encode_def utf8_units_def is_scalar_def word_less_nat_alt)
  with ascii have "list_all is_scalar (map unat bs) \<and> bs = concat (map utf8_encode (map unat bs))"
    by (induction bs) auto
  then show ?thesis
    using is_valid_utf8_loop_iff [of 0 bs] by (auto simp: is_valid_utf8_def is_utf8_def intro: exI [of _ "map unat bs"])
qed

lemma sleb_666: "sleb_text 32 [0x9a, 0x05]" "sleb_text 64 [0x9a, 0x05]"
  by (simp_all add: sleb_text_def sleb_spec_def leb_int_def)

lemma value_bytes: "value_byte 0x7f" "value_byte 0x7e" "value_byte 0x7d" "value_byte 0x7c" "ref_byte 0x70"
  by code_simp+

lemma spectest_text_ok: "text_ok spectest_text"
proof -
  have globals: "list_all (\<lambda>(b, _, e). value_byte b \<and> const_text e) (mt_globals spectest_text)"
    using const_i32 [OF sleb_666(1) const_end] const_i64 [OF sleb_666(2) const_end]
      const_f32 [of "[0x00, 0x80, 0x26, 0x44]", OF _ const_end] const_f64 [of "[0x00, 0x00, 0x00, 0x00, 0x00, 0xd0, 0x84, 0x40]", OF _ const_end]
    by (simp add: spectest_text_def value_bytes)
  have exports: "list_all (export_ok spectest_text) (mt_exports spectest_text)"
    by (simp add: export_ok_def spectest_text_def ascii_utf8 cstr_def)
  show ?thesis
    unfolding text_ok_def using globals exports
    by (simp add: spectest_encoded) (simp add: spectest_text_def spectest_wasm_def value_bytes limits_ok_def body_ok_def)
qed

lemma wasi_text_ok: "text_ok wasi_text"
proof -
  have exports: "list_all (export_ok wasi_text) (mt_exports wasi_text)"
    by (simp add: export_ok_def wasi_text_def ascii_utf8 cstr_def)
  show ?thesis
    unfolding text_ok_def using exports
    by (simp add: wasi_encoded) (simp add: wasi_text_def wasi_wasm_def value_bytes body_ok_def)
qed

lemma str_eq_eq: "str_eq a b \<longleftrightarrow> a = b"
  by (auto simp: str_eq_def)

lemma inj_cstr: "cstr a = cstr b \<longleftrightarrow> a = b"
proof -
  have u8: "unat (of_char c :: u8) = of_char c" for c
    by (cases c) (simp add: of_char_def)
  have "inj (of_char :: char \<Rightarrow> u8)"
  proof (rule injI)
    fix c d assume "(of_char c :: u8) = of_char d"
    then have "(of_char c :: nat) = of_char d" by (metis u8)
    then show "c = d" by simp
  qed
  then show ?thesis by (simp add: cstr_def inj_map_eq_map)
qed

lemma find_info:
  "distinct (map hi_name info) \<Longrightarrow> i < length info \<Longrightarrow> find_host_func_info (cstr (hi_name (info ! i))) info = Some (info ! i)"
  by (induction info arbitrary: i) (auto simp: str_eq_eq inj_cstr nth_Cons split: nat.split, metis image_eqI nth_mem)

lemma find_unique:
  assumes "x \<in> set xs" "P x" "\<And>y. y \<in> set xs \<Longrightarrow> P y \<Longrightarrow> y = x"
  shows "find P xs = Some x"
  using assms(1,2) assms(3) [of "the (find P xs)"]
  by (cases "find P xs") (auto simp: find_None_iff find_Some_iff)

text \<open>
  A text whose function exports are the names of a table in the order of the functions gets the
  entry \<open>i\<close> of the table at the function \<open>i\<close>.
\<close>

lemma inject_text:
  fixes info :: "host_func_info list"
  assumes "text_ok t" "mt_exports t = map (\<lambda>i. (cstr (hi_name (info ! i)), 0, i)) [0..<length info] @ rest"
    "list_all (\<lambda>(_, k, _). k \<noteq> 0) rest" "length (mt_funcs t) = length info" "distinct (map hi_name info)" "length info < 2 ^ 32"
  shows "inject_host_functions L (decode_module res name t) info =
    Inr ((decode_module res name t)\<lparr>funcs := filled (length info) (map (\<lambda>i. with_entry L (Some (info ! i)) (vdata (funcs (decode_module res name t)) ! i)) [0..<length info])\<rparr>)"
proof -
  let ?m = "decode_module res name t" and ?n = "length info"
  let ?es = "map dec_export (mt_exports t)"
  let ?ex = "\<lambda>i. dec_export (cstr (hi_name (info ! i)), 0, i)"
  have parts: "vdata (exports ?m) = ?es" "length (vdata (funcs ?m)) = ?n" "funcs ?m = filled ?n (vdata (funcs ?m))"
    using assms(4) by (auto simp: decode_module_def dec_funcs_def filled_def)
  have rest: "exp_kind (dec_export x) \<noteq> EXTERNAL_KIND_Function" if "x \<in> set rest" for x
  proof -
    obtain nm k j where x: "x = (nm, k, j)" by (metis prod_cases3)
    then have "export_ok t (nm, k, j)" "k \<noteq> 0"
      using assms(1-3) that by (auto simp: text_ok_def list_all_iff)
    then show ?thesis by (auto simp: x dec_export_def export_ok_def external_kind_of_def)
  qed
  have funs: "exp_kind (?ex i) = EXTERNAL_KIND_Function" "i < ?n \<Longrightarrow> unat (external_idx (?ex i)) = i" for i
    using assms(6) by (simp_all add: dec_export_def external_kind_of_def)
  have only: "\<exists>i < ?n. ex = ?ex i" if "ex \<in> set ?es" "exp_kind ex = EXTERNAL_KIND_Function" for ex
    using that rest by (auto simp: assms(2))
  have entry: "host_entry info ?es i = Some (info ! i)" if i: "i < ?n" for i
  proof -
    have "find (\<lambda>ex. exp_kind ex = EXTERNAL_KIND_Function \<and> unat (external_idx ex) = i) (rev ?es) = Some (?ex i)"
    proof (rule find_unique)
      show "?ex i \<in> set (rev ?es)" using i by (auto simp: assms(2))
      fix ex assume "ex \<in> set (rev ?es)" "exp_kind ex = EXTERNAL_KIND_Function \<and> unat (external_idx ex) = i"
      then show "ex = ?ex i" using only [of ex] funs by auto
    qed (use i funs in simp)
    then show ?thesis
      using find_info [OF assms(5) i] by (simp add: host_entry_def dec_export_def)
  qed
  have linkage: "\<not> is_imported (f_linkage (vdata (funcs ?m) ! i))" if "i < ?n" for i
    using that assms(4) by (simp add: decode_module_def dec_funcs_def Let_def dec_body_def dec_linkage_def linkage_none_def split: prod.split)
      (simp add: is_imported_def linkage_exported_def linkage_imported_def)
  have "list_all (injectable info (vdata (funcs ?m))) ?es"
    unfolding list_all_iff injectable_def
  proof (intro ballI impI conjI)
    fix ex assume "ex \<in> set ?es" "exp_kind ex = EXTERNAL_KIND_Function"
    then obtain i where "i < ?n" "ex = ?ex i" using only by blast
    then show "\<not> is_imported (f_linkage (vdata (funcs ?m) ! unat (external_idx ex)))" "find_host_func_info (exp_name ex) info \<noteq> None"
      using linkage [of i] find_info [OF assms(5), of i] funs by (simp_all add: dec_export_def)
  qed
  moreover have "unat (external_idx ex) < length (vdata (funcs ?m))" if "ex \<in> set ?es" "exp_kind ex = EXTERNAL_KIND_Function" for ex
    using only [OF that] funs parts(2) by auto
  ultimately have "inject_host_functions L ?m info = Inr (injected L info ?es ?m)"
    using inject_foreach [of ?es ?m L info] by (simp add: inject_host_functions_def parts(1))
  moreover have "injected L info ?es ?m = ?m\<lparr>funcs := filled ?n (map (\<lambda>i. with_entry L (Some (info ! i)) (vdata (funcs ?m) ! i)) [0..<?n])\<rparr>"
  proof -
    let ?fs = "vdata (funcs ?m)"
    have upd: "(filled ?n ?fs)\<lparr>vdata := ys\<rparr> = filled ?n ys" if "length ys = ?n" for ys
      using that by (cases ?n) (simp_all add: filled_def vec_empty_def)
    have "(funcs ?m)\<lparr>vdata := map (\<lambda>i. with_entry L (host_entry info ?es i) (?fs ! i)) [0..<?n]\<rparr> =
        filled ?n (map (\<lambda>i. with_entry L (host_entry info ?es i) (?fs ! i)) [0..<?n])"
      using upd parts(3) by simp
    also have "\<dots> = filled ?n (map (\<lambda>i. with_entry L (Some (info ! i)) (?fs ! i)) [0..<?n])"
      by (rule filled_cong) (simp add: entry)
    finally show ?thesis by (simp add: injected_def parts(2))
  qed
  ultimately show ?thesis by simp
qed

text \<open>The bytes that the types of C stand for, and a function whose three signatures agree.\<close>

fun ctype_byte :: "ctype \<Rightarrow> u8" where
  "ctype_byte C_i32 = 0x7f"
| "ctype_byte C_i64 = 0x7e"
| "ctype_byte C_f32 = 0x7d"
| "ctype_byte C_f64 = 0x7c"

definition typed_as :: "link \<Rightarrow> trampoline \<Rightarrow> string \<Rightarrow> ('u, 's) host_func \<Rightarrow> func \<Rightarrow> bool" where
  "typed_as L tr g h f \<longleftrightarrow> tr \<in> set trampolines \<and> f_tr f = at_tr L tr \<and> f_host_func f = at_fn L g \<and> (g, h) \<in> set host_funcs \<and>
     hf_params h = tr_params tr \<and> hf_result h = tr_result tr \<and>
     params (fn_type f) = map ctype_byte (tr_params tr) \<and> results (fn_type f) = (if tr_result tr then [0x7f] else [])"

definition entry_typed :: "host_func_info \<Rightarrow> string \<times> ('u, 's) host_func \<Rightarrow> u8 list \<times> u8 list \<Rightarrow> bool" where
  "entry_typed x gh ft \<longleftrightarrow> hi_func x = fst gh \<and> hf_params (snd gh) = tr_params (hi_tr x) \<and> hf_result (snd gh) = tr_result (hi_tr x) \<and>
     fst ft = map ctype_byte (tr_params (hi_tr x)) \<and> snd ft = (if tr_result (hi_tr x) then [0x7f] else [])"

lemma spectest_entries:
  "list_all (\<lambda>(x, gh, ft). entry_typed x gh ft) (zip spectest_host_info (zip spectest_funcs (map ((!) (mt_types spectest_text)) (mt_funcs spectest_text))))"
  by (simp add: spectest_host_info_def spectest_funcs_def spectest_text_def entry_typed_def tr_void_result_void_def tr_i32_result_void_def
      tr_i64_result_void_def tr_f32_result_void_def tr_f64_result_void_def tr_i32_f32_result_void_def tr_f64_f64_result_void_def)

lemma tables_trampolines: "list_all (\<lambda>x. hi_tr x \<in> set trampolines) spectest_host_info" "list_all (\<lambda>x. hi_tr x \<in> set trampolines) wasi_host_info"
  by (simp_all add: spectest_host_info_def wasi_host_info_def trampolines_def)

lemmas wasi_trampolines =
  tr_i32_i32_result_i32_def tr_i32_i64_i32_result_i32_def tr_i32_i64_i64_i32_result_i32_def tr_i32_i64_i64_result_i32_def
  tr_i32_result_i32_def tr_i32_i64_result_i32_def tr_i32_i32_i32_i64_i32_result_i32_def tr_i32_i32_i32_result_i32_def
  tr_i32_i32_i32_i32_result_i32_def tr_i32_i64_i32_i32_result_i32_def tr_i32_i32_i32_i32_i32_result_i32_def
  tr_i32_i32_i32_i32_i64_i64_i32_result_i32_def tr_i32_i32_i32_i32_i32_i32_i32_result_i32_def
  tr_i32_i32_i32_i32_i32_i64_i64_i32_i32_result_i32_def tr_i32_i32_i32_i32_i32_i32_result_i32_def tr_i32_result_void_def
  tr_void_result_i32_def

lemma wasi_entries:
  "list_all (\<lambda>(x, gh, ft). entry_typed x gh ft) (zip wasi_host_info (zip wasi_funcs (map ((!) (mt_types wasi_text)) (mt_funcs wasi_text))))"
  by (simp add: wasi_host_info_def wasi_funcs_def wasi_text_def entry_typed_def wasi_trampolines)

lemma table_facts:
  "length spectest_host_info = 7" "length (mt_funcs spectest_text) = 7" "distinct (map hi_name spectest_host_info)"
  "length (spectest_funcs :: (string \<times> ('u, 's) host_func) list) = 7"
  "length wasi_host_info = 46" "length (mt_funcs wasi_text) = 46" "distinct (map hi_name wasi_host_info)"
  "length (wasi_funcs :: (string \<times> ('u, 's) host_func) list) = 46"
  by (simp_all add: spectest_host_info_def spectest_text_def spectest_funcs_def wasi_host_info_def wasi_text_def wasi_funcs_def)

lemma table_exports:
  "mt_exports spectest_text = map (\<lambda>i. (cstr (hi_name (spectest_host_info ! i)), 0, i)) [0..<length spectest_host_info] @ drop 7 (mt_exports spectest_text)"
  "mt_exports wasi_text = map (\<lambda>i. (cstr (hi_name (wasi_host_info ! i)), 0, i)) [0..<length wasi_host_info] @ []"
  by (simp_all add: spectest_host_info_def spectest_text_def wasi_host_info_def wasi_text_def upt_rec)

lemma typed_funcs:
  fixes info :: "host_func_info list" and fns :: "(string \<times> ('u, 's) host_func) list"
  assumes "list_all (\<lambda>(x, gh, ft). entry_typed x gh ft) (zip info (zip fns (map ((!) (mt_types t)) (mt_funcs t))))" "list_all (\<lambda>x. hi_tr x \<in> set trampolines) info"
    "length info = n" "length fns = n" "length (mt_funcs t) = n" "set fns \<subseteq> set host_funcs" "i < n"
  shows "\<exists>h. typed_as L (hi_tr (info ! i)) (hi_func (info ! i)) (h :: ('u, 's) host_func)
    (with_entry L (Some (info ! i)) (vdata (funcs (decode_module res name t)) ! i))"
proof -
  let ?ft = "mt_types t ! (mt_funcs t ! i)"
  have e: "entry_typed (info ! i) (fns ! i) ?ft"
    using assms(1,3-5,7) by (auto simp: list_all_length)
  have "fn_type (vdata (funcs (decode_module res name t)) ! i) = dec_type ?ft"
    using assms(5,7) by (simp add: decode_module_def dec_funcs_def Let_def dec_body_def dec_func_def split: prod.split)
  moreover have "fns ! i \<in> set host_funcs" "hi_tr (info ! i) \<in> set trampolines"
    using assms(2-4,6,7) nth_mem [of i fns] by (auto simp: list_all_length)
  ultimately have "typed_as L (hi_tr (info ! i)) (hi_func (info ! i)) (snd (fns ! i))
      (with_entry L (Some (info ! i)) (vdata (funcs (decode_module res name t)) ! i))"
    using e by (simp add: typed_as_def entry_typed_def with_entry_def dec_type_def split_beta)
  then show ?thesis by blast
qed

section \<open>Calls of typed functions\<close>

text \<open>The functions and the trampolines have addresses of their own.\<close>

definition host_names :: "string list" where
  "host_names = map hi_func (spectest_host_info @ wasi_host_info)"

definition linked :: "link \<Rightarrow> bool" where
  "linked L \<longleftrightarrow> distinct (map (at_tr L) trampolines) \<and> distinct (map (at_fn L) host_names) \<and> 0 \<notin> set (map (at_tr L) trampolines)"

lemma host_func_names: "map fst (host_funcs :: (string \<times> ('u, 's) host_func) list) = host_names"
  by (simp add: host_funcs_def host_names_def spectest_funcs_def wasi_funcs_def spectest_host_info_def wasi_host_info_def)

lemma find_address: "distinct (map f xs) \<Longrightarrow> x \<in> set xs \<Longrightarrow> find (\<lambda>y. f y = f x) xs = Some x"
  by (intro find_unique) (auto simp: distinct_map inj_on_def)

lemma typed_call:
  fixes uw :: "('u, 's) uvwasi" and h :: "('u, 's) host_func"
  assumes "linked L" "typed_as L tr c h f"
  shows "host_call L mc uw (f_tr f) (f_host_func f) ms s a args m0 = run_trampoline mc tr uw ms \<lparr>ctx_f_addr = a, ctx_args = args, ctx_mem0 = m0\<rparr> c s"
    "call_host_func tr env c vals = hf_body h env vals"
proof -
  have mem: "tr \<in> set trampolines" "(c, h) \<in> set (host_funcs :: (string \<times> ('u, 's) host_func) list)"
    and at: "f_tr f = at_tr L tr" "f_host_func f = at_fn L c"
    using assms(2) by (simp_all add: typed_as_def)
  have d: "distinct (map (at_tr L) trampolines)" "distinct (map (at_fn L) host_names)"
    using assms(1) by (simp_all add: linked_def)
  have "c \<in> fst ` set (host_funcs :: (string \<times> ('u, 's) host_func) list)"
    using image_eqI [OF _ mem(2), of c fst] by simp
  then have c: "c \<in> set host_names"
    by (simp flip: host_func_names [where ?'u = 'u and ?'s = 's])
  have names: "distinct (map fst (host_funcs :: (string \<times> ('u, 's) host_func) list))"
    using d(2) by (simp only: host_func_names distinct_map)
  have "find (\<lambda>t. at_tr L t = f_tr f) trampolines = Some tr"
    "find (\<lambda>g. at_fn L g = f_host_func f) (map fst (host_funcs :: (string \<times> ('u, 's) host_func) list)) = Some c"
    using find_address [OF d(1) mem(1)] find_address [OF d(2) c] by (simp_all only: at host_func_names)
  then show "host_call L mc uw (f_tr f) (f_host_func f) ms s a args m0 = run_trampoline mc tr uw ms \<lparr>ctx_f_addr = a, ctx_args = args, ctx_mem0 = m0\<rparr> c s"
    by (simp add: host_call_def)
  have "map_of host_funcs c = Some h"
    using names mem(2) by (rule map_of_is_SomeI)
  then show "call_host_func tr env c vals = hf_body h env vals"
    using assms(2) by (simp add: call_host_func_def typed_as_def)
qed

section \<open>Properties\<close>


text \<open>
  C35. A call of a host function that does not fault gives back every heap block that it allocates,
  also when it reports an error, and on the operand stack it changes no slot but the first.
\<close>

theorem host_call_frees:
  assumes "host_call L mc uw tr hf ms s a args m0 = (e, s', buf)" "e \<noteq> Some Fault"
  shows "cs_live s' = cs_live s \<and> length buf = length args \<and> tl buf = tl args"
  using assms(1)
proof (cases rule: host_call_cases)
  case (ran f h vals e')
  let ?s = "s\<lparr>cs_result := 0\<rparr>"
  have "cs_live s' = cs_live ?s"
    using frees_host_func [OF ran(1), of uw ms "\<lparr>ctx_f_addr = a, ctx_args = args, ctx_mem0 = m0\<rparr>" vals, unfolded frees_def, rule_format, of ?s]
      ran(2,3) assms(2) by auto
  with ran(4,5) show ?thesis by simp
qed (use assms(2) in simp)



text \<open>
  C38. Injection is all or nothing: if every exported function is defined in the module and named in
  the table, each function gets the entry of the last export that names it and nothing else
  changes; otherwise the result is an error.
\<close>

theorem inject_functions:
  assumes "\<And>ex. ex \<in> set (vdata (exports m)) \<Longrightarrow> exp_kind ex = EXTERNAL_KIND_Function \<Longrightarrow> unat (external_idx ex) < length (vdata (funcs m))"
  shows "inject_host_functions L m info =
    (if list_all (injectable info (vdata (funcs m))) (vdata (exports m)) then Inr (injected L info (vdata (exports m)) m) else Inl E_general)"
  unfolding inject_host_functions_def by (rule inject_foreach) (rule assms)

lemma host_mod_spectest_typed:
  "\<exists>m. host_mod_spectest (\<lambda>_ _. True) L = Inr m \<and> length (vdata (funcs m)) = 7 \<and>
     list_all (\<lambda>f. \<exists>tr c (h :: ('u, 's) host_func). typed_as L tr c h f) (vdata (funcs m))"
proof -
  let ?name = "vstr_static (cstr ''spectest'')"
  have zero: "module_zero\<lparr>resource_payload := fst (0 :: nat, 0 :: nat), resource_drop_cb := snd (0 :: nat, 0 :: nat)\<rparr> = module_zero"
    by (simp add: module_zero_def)
  have init: "module_init (\<lambda>_ _. True) module_zero (vstr_static spectest_wasm) ?name = Inr (decode_module (0, 0) ?name spectest_text)"
    using parse_encoded [OF spectest_text_ok, of "(0, 0)" ?name] unfolding zero spectest_encoded .
  have others: "list_all (\<lambda>(_, k, _). k \<noteq> 0) (drop 7 (mt_exports spectest_text))"
    by (simp add: spectest_text_def)
  note inj = inject_text [OF spectest_text_ok table_exports(1) others, of L "(0, 0)" ?name]
  have fns: "set (spectest_funcs :: (string \<times> ('u, 's) host_func) list) \<subseteq> set host_funcs"
    by (simp add: host_funcs_def)
  show ?thesis
    using inj typed_funcs [OF spectest_entries tables_trampolines(1) table_facts(1) table_facts(4) table_facts(2) fns, of _ L "(0, 0)" ?name]
    by (simp add: host_mod_spectest_def init table_facts(1-3) list_all_length) blast
qed

lemma host_mod_wasi_typed:
  fixes uw :: "('u, 's) uvwasi"
  assumes "calloc_ctx \<noteq> 0" "\<And>p opts u. snd (uv_init uw p opts u) = UVWASI_ESUCCESS"
  shows "\<exists>m s'. host_mod_wasi (\<lambda>_ _. True) L uw calloc_ctx g s = (Inr m, s') \<and>
      resource_payload m = calloc_ctx \<and> sys_live s' = sys_live s + 1 \<and> length (vdata (funcs m)) = 46 \<and>
      list_all (\<lambda>f. \<exists>tr c (h :: ('u, 's) host_func). typed_as L tr c h f) (vdata (funcs m))"
proof -
  let ?name = "vstr_static (cstr ''wasi_snapshot_preview1'')" and ?res = "(calloc_ctx, at_drop L)"
  obtain s' where ctx: "wasi_ctx_get uw calloc_ctx g s = (Inr calloc_ctx, s')" "sys_live s' = sys_live s + 1"
    using assms by (fastforce simp: wasi_ctx_get_def Let_def split_beta)
  have init: "module_init (\<lambda>_ _. True) (module_zero\<lparr>resource_payload := calloc_ctx, resource_drop_cb := at_drop L\<rparr>) (vstr_static wasi_wasm) ?name =
      Inr (decode_module ?res ?name wasi_text)"
    using parse_encoded [OF wasi_text_ok, of ?res ?name] by (simp add: wasi_encoded)
  note inj = inject_text [OF wasi_text_ok table_exports(2), of L ?res ?name]
  have fns: "set (wasi_funcs :: (string \<times> ('u, 's) host_func) list) \<subseteq> set host_funcs"
    by (simp add: host_funcs_def)
  have reg: "module_register_name (\<lambda>_ _. True) ((decode_module ?res ?name wasi_text)\<lparr>funcs := fs\<rparr>) x =
      Inr ((decode_module ?res ?name wasi_text)\<lparr>funcs := fs, names := \<lparr>vdata = [?name, x], vcap = 2, vnonnull = True, vfixed = False\<rparr>\<rparr>)" for fs x
    by (simp add: module_register_name_def decode_module_def vec_push_def vec_size_def vec_grow_capacity_def)
  have payload: "resource_payload (decode_module ?res ?name wasi_text) = calloc_ctx"
    by (simp add: decode_module_def)
  show ?thesis
    using inj typed_funcs [OF wasi_entries tables_trampolines(2) table_facts(5) table_facts(8) table_facts(6) fns, of _ L ?res ?name]
    by (simp add: host_mod_wasi_def init ctx assms(1) table_facts(5-7) list_all_length reg payload) blast
qed

text \<open>
  C39. The built-in modules are well typed: when memory can be allocated and the library starts,
  \<open>host_mod_new\<close> returns them, and every function has a trampoline whose parameters and result are those of the
  function's WebAssembly type and those of the prototype of the C function that it will call.
\<close>

theorem builtin_modules:
  fixes uw :: "('u, 's) uvwasi" and s :: "'u sys"
  assumes "calloc_ctx \<noteq> 0" "\<And>p opts u. snd (uv_init uw p opts u) = UVWASI_ESUCCESS"
  shows "(\<exists>m. host_mod_new True wasi (\<lambda>_ _. True) L uw calloc_ctx g (cstr ''spectest'') s = (Inr m, s) \<and> length (vdata (funcs m)) = 7 \<and>
      list_all (\<lambda>f. \<exists>tr c (h :: ('u, 's) host_func). typed_as L tr c h f) (vdata (funcs m))) \<and>
    (\<exists>m s'. host_mod_new spectest True (\<lambda>_ _. True) L uw calloc_ctx g (cstr ''wasi_snapshot_preview1'') s = (Inr m, s') \<and>
      resource_payload m = calloc_ctx \<and> sys_live s' = sys_live s + 1 \<and> length (vdata (funcs m)) = 46 \<and>
      list_all (\<lambda>f. \<exists>tr c (h :: ('u, 's) host_func). typed_as L tr c h f) (vdata (funcs m)))"
  using host_mod_spectest_typed [where ?'u = 'u and ?'s = 's, of L] host_mod_wasi_typed [OF assms, of L g s]
  by (simp add: host_mod_new_def str_eq_eq inj_cstr)


section \<open>Examples\<close>

text \<open>A library that refuses everything with the number 8, and a program with eight bytes of memory.\<close>

definition demo_reply :: "unit uv_reply" where
  "demo_reply = \<lparr>uv_errno = 8, uv_size1 = 0x2a, uv_size2 = 0, uv_num = 0, uv_struct = (), uv_bytes = [], uv_chunks = [], uv_ptrs = []\<rparr>"

definition demo_uw :: "(unit, unit) uvwasi" where
  "demo_uw = \<lparr>uv_do = (\<lambda>p c u. (u, demo_reply)), uv_ser = (\<lambda>d. case d of D_fd n \<Rightarrow> [ucast n, 0, 0, 0] | _ \<Rightarrow> []),
     uv_readv_iovec = (\<lambda>bs n i l. (0, [])), uv_readv_ciovec = (\<lambda>bs n i l. (0, [])),
     uv_read_subscription = (\<lambda>bs i. None), uv_read_event = (\<lambda>bs i. None), uv_init = (\<lambda>p opts u. (u, 0)), uv_destroy = (\<lambda>p u. u),
     uv_malloc = (\<lambda>l. True), uv_grow = (\<lambda>n. True), UVWASI_EINVAL = 28\<rparr>"

definition demo_memory :: "u8 list \<Rightarrow> memory_inst" where
  "demo_memory bs = \<lparr>mi_mem = 0, mdata = vec_of bs\<rparr>"

definition demo_vm :: "u8 list \<Rightarrow> vm" where
  "demo_vm bs = \<lparr>instances = [(module_inst_zero 1)\<lparr>mi_funcs := vec_of [\<lparr>fi_mod = 1, fi_mod_inst = Some 0, fi_fn = 0\<rparr>],
     mi_memories := vec_of [demo_memory bs]\<rparr>], vm_thread = thread_zero\<rparr>"

definition demo_mods :: mods where
  "demo_mods = [(1, module_zero\<lparr>resource_payload := 7\<rparr>)]"

definition demo_ctx :: tr_ctx where
  "demo_ctx = \<lparr>ctx_f_addr = (0, 0), ctx_args = [3], ctx_mem0 = Some (0, 0)\<rparr>"

definition demo_state :: "u8 list \<Rightarrow> u32 \<Rightarrow> unit call_state" where
  "demo_state bs r = \<lparr>cs_uv = (), cs_live = 0, cs_vm = demo_vm bs, cs_result = r\<rparr>"

abbreviation eight :: "u8 list" where "eight \<equiv> [0x61, 0, 0, 0, 0, 0, 0, 0]"

fun position :: "'a list \<Rightarrow> 'a \<Rightarrow> nat" where
  "position [] x = 1"
| "position (y # ys) x = (if y = x then 1 else Suc (position ys x))"

definition demo_link :: link where
  "demo_link = \<lparr>at_tr = position trampolines, at_fn = position host_names, at_drop = 1\<rparr>"

lemma demo_refuses: "refuses demo_uw 8"
  by (simp add: refuses_def demo_uw_def demo_reply_def UVWASI_ESUCCESS_def)

lemma demo_payload: "to_wasi demo_mods demo_ctx (demo_state bs r) = Inr 7"
  by (simp add: to_wasi_def at_addr_def the_inst_def the_mod_def vec_at_def vec_size_def vec_of_def demo_state_def demo_vm_def demo_ctx_def demo_mods_def)

lemma demo_at: "at_addr mi_memories (demo_vm bs) (Some (0, 0)) = Inr (demo_memory bs)"
  by (simp add: at_addr_def the_inst_def vec_at_def vec_size_def vec_of_def demo_vm_def)

lemma demo_put: "set_mem (demo_memory cs) (demo_vm bs) (Some (0, 0)) = Inr (demo_vm cs)"
  by (simp add: set_addr_def the_inst_def set_inst_def vec_set_def vec_size_def vec_of_def demo_vm_def)

lemma demo_linked: "linked demo_link"
  by code_simp

lemma demo_close: "wasi_fd_close (demo_uw, demo_mods, demo_ctx) fd (demo_state bs r) = (None, demo_state bs 8)"
proof -
  have "uv_do demo_uw p c u = (u, demo_reply)" for p c u
    by (simp add: demo_uw_def)
  then show ?thesis
    by (simp add: wasi_fd_close_def uv_def get_res_def demo_payload check_err_def set_result_def ok_r_def)
      (simp add: demo_reply_def UVWASI_ESUCCESS_def demo_state_def)
qed

definition demo_close_entry :: "(unit, unit) host_func" where
  "demo_close_entry = \<lparr>hf_params = [C_i32], hf_result = True, hf_body = (\<lambda>env args. case args of [V_i32 a] \<Rightarrow> wasi_fd_close env a | _ \<Rightarrow> raise Fault)\<rparr>"

lemma demo_entry: "(''wasi_fd_close'', demo_close_entry) \<in> set wasi_funcs"
  by (simp add: wasi_funcs_def demo_close_entry_def)

definition demo_func :: func where
  "demo_func = func_zero\<lparr>fn_type := \<lparr>param_count = 1, result_count = 1, params = [0x7f], results = [0x7f]\<rparr>,
     f_tr := at_tr demo_link tr_i32_result_i32, f_host_func := at_fn demo_link ''wasi_fd_close''\<rparr>"

lemma demo_typed: "typed_as demo_link tr_i32_result_i32 ''wasi_fd_close'' demo_close_entry demo_func"
  using demo_entry
  by (simp add: typed_as_def demo_func_def demo_close_entry_def host_funcs_def tr_i32_result_i32_def)
    (simp add: trampolines_def tr_i32_result_i32_def)

lemma demo_called:
  "host_call demo_link masking_machine demo_uw (f_tr demo_func) (f_host_func demo_func) demo_mods (demo_state bs 0) (0, 0) [3] (Some (0, 0)) =
     (None, demo_state bs 8, [st_w32 masking_machine 3 8])"
proof -
  have body: "hf_body demo_close_entry (demo_uw, demo_mods, demo_ctx) [V_i32 3] (demo_state bs 0) = (None, demo_state bs 8)"
    by (simp add: demo_close_entry_def demo_close)
  show ?thesis
    unfolding typed_call(1) [OF demo_linked demo_typed]
    using body by (simp add: run_trampoline_def read_args_def tr_i32_result_i32_def typed_call(2) [OF demo_linked demo_typed, unfolded tr_i32_result_i32_def]
        demo_ctx_def) (simp add: demo_state_def)
qed

theorem host_call_frees_witness:
  "\<exists>s' buf. host_call demo_link masking_machine demo_uw (f_tr demo_func) (f_host_func demo_func) demo_mods (demo_state eight 0) (0, 0) [3] (Some (0, 0)) =
     (None, s', buf) \<and> cs_live s' = cs_live (demo_state eight 0) \<and> length buf = 1"
  using demo_called [of eight] host_call_frees [OF demo_called [of eight]] by simp



theorem builtin_modules_witness:
  "\<exists>m. host_mod_new True True (\<lambda>_ _. True) demo_link demo_uw 7 \<lparr>g_argc = 0, g_argv = []\<rparr> (cstr ''spectest'') \<lparr>sys_uv = (), sys_live = 0\<rparr> =
     (Inr m, \<lparr>sys_uv = (), sys_live = 0\<rparr>) \<and> length (vdata (funcs m)) = 7"
proof -
  have init: "snd (uv_init demo_uw p opts u) = UVWASI_ESUCCESS" for p opts u
    by (simp add: demo_uw_def UVWASI_ESUCCESS_def)
  have "(7 :: nat) \<noteq> 0" by simp
  from builtin_modules [OF this init, of True demo_link "\<lparr>g_argc = 0, g_argv = []\<rparr>" "\<lparr>sys_uv = (), sys_live = 0\<rparr>" True]
  show ?thesis by blast
qed

definition demo_module :: module where
  "demo_module = module_zero\<lparr>funcs := vec_of [func_zero], exports := vec_of [\<lparr>exp_name = cstr ''fd_close'', exp_kind = EXTERNAL_KIND_Function, external_idx = 0\<rparr>]\<rparr>"

theorem inject_functions_witness:
  "inject_host_functions demo_link demo_module wasi_host_info = Inr (injected demo_link wasi_host_info (vdata (exports demo_module)) demo_module)"
proof -
  have idx: "unat (external_idx ex) < length (vdata (funcs demo_module))" if "ex \<in> set (vdata (exports demo_module))" for ex
    using that by (simp add: demo_module_def vec_of_def)
  have "find_host_func_info (cstr ''fd_close'') wasi_host_info = Some (wasi_host_info ! 8)"
    using find_info [OF table_facts(7), of 8] by (simp add: table_facts) (simp add: wasi_host_info_def)
  then have "list_all (injectable wasi_host_info (vdata (funcs demo_module))) (vdata (exports demo_module))"
    by (simp add: demo_module_def vec_of_def injectable_def func_zero_def)
  then show ?thesis
    using inject_functions [of demo_module demo_link wasi_host_info, OF idx] by simp
qed


end
