(* ===== verification/Spec2Isabelle.thy ===== *)
theory Spec2Isabelle
  imports Leb128 Utf8 Jump_Table Typing Linked_List Mem_Util Vm_Link Dt_Memory Tco_Correct Json_Complete Host_Correct
begin

text \<open>
  A verification development of Silverfir, an in-place WebAssembly interpreter in C (src/src).

  \<^bold>\<open>The program.\<close>  A client adds modules to a \<open>runtime\<close> (runtime/runtime.c): the bytes of a module are
  parsed (runtime/parser.c, over utils/stream.h and utils/utf8.c) into a \<open>module\<close>
  (runtime/module.c).  A \<open>vm\<close> (runtime/vm.c) instantiates modules: it allocates the instances,
  validates every function (runtime/validator.c, driven by the decoder common/op_decoder.c), links
  the imports, evaluates constant expressions (interpreter/const_expr_eval.c), copies the element
  and data segments and calls the start function.  The validator also leaves a jump table in each
  function, with which the interpreters (interpreter/in_place_dt.c, a loop over a switch, and
  interpreter/in_place_tco.c, handlers that tail-call each other) branch without decoding.
  \<open>interp_call_in_thread\<close> (interpreter/interpreter.c) calls a function in a thread.  Two modules are built
  in (host/host_modules.c): their functions are written in C and are called through trampolines, and
  those of the module wasi_snapshot_preview1 (host/wasi/wasi_impl_uv.c) call the library uvwasi.

  \<^bold>\<open>Conventions.\<close>  A function of the program is a definition of the same name.  Results with an error
  message are \<open>err + 'a\<close>, where the error is the category of the message; \<open>Fault\<close> stands for what C
  leaves undefined (an access outside an array, a null pointer, a violated assertion), so that a
  theorem that excludes \<open>Fault\<close> is one about memory safety.  Unsigned machine integers are words.
  Structures that the program mutates are passed and returned.  Whether an allocation succeeds is
  a parameter (\<open>alloc\<close>), as are the machine below the interpreter (\<open>interp\<close>) and the functions of the
  host; \<open>host_of\<close> is what the built-in modules put for the latter.  The library uvwasi, which is not
  part of the repository, is the parameter \<open>uvwasi\<close>.  Code under \<open>LOG_INFO_ENABLED\<close> and \<open>SILVERFIR_ENABLE_TRACER\<close> is left out; it changes no state.

  \<^bold>\<open>The theories.\<close>
  \<^item> \<open>Prelude\<close>: results, loops, and the lemmas on lists and words that the others share.
  \<^item> \<open>Vec\<close>: utils/vec.h and vec_impl.h, with an invariant that every operation keeps.
  \<^item> \<open>Stream\<close>, \<open>Leb128\<close>: utils/stream.h; the checked decoders compute LEB128 (C1), the unrolled
    ones of the interpreter agree with them (C2), decoding inverts encoding (C3).
  \<^item> \<open>Utf8\<close>: utils/utf8.c accepts exactly the UTF-8 encodings (C4).  \<open>Vstr\<close>: utils/vstr.c.
  \<^item> \<open>Module\<close>, \<open>Parser\<close>, \<open>Parser_Correct\<close>: the data of a module and the whole parser.  No input makes
    it fault, what it accepts is well formed (C5), the header (C6), custom sections (C7) and the
    order of sections (C8) are as the format says.  \<open>Stream_At\<close>: reads from a stream that stands at a
    position of a text.  \<open>Parser_Roundtrip\<close>: a syntax of modules with its binary encoding, of which the
    parser is the inverse (C33); imports, segments, the start function and custom sections have no
    encoding there.
  \<^item> \<open>Op_Decoder\<close>, \<open>Validator\<close>: the decoder calls back for each instruction; a callback is an \<open>event\<close>,
    and the validator is its interpretation over operand stack, control stack and jump table.
    \<open>Validator_Correct\<close>: targets lie in the code (C9), the stack bound is an upper bound (C10), the
    cases in which it faults are listed (C11).  \<open>Jump_Table\<close>: the slots are linked in order (C12).
    \<open>Typing\<close>: the handlers of straight-line instructions implement their typing rule (C13).
  \<^item> \<open>Linked_List\<close>: utils/list.h and list_impl.h on a heap, refining sequences (C14).
  \<^item> \<open>Mem_Util\<close>: utils/mem_util.h, reads after writes (C15).
  \<^item> \<open>Store\<close>, \<open>Vm\<close>, \<open>Vm_Link\<close>: the instances, constant expressions, runtime/vm.c; linking connects
    matching types (C16).  \<open>Runtime\<close>: runtime/runtime.c, reference counts and lifetimes in every
    state that a client reaches (C17).
  \<^item> \<open>Fp\<close>, \<open>Smath\<close>, \<open>Dt_Numeric\<close>, \<open>Dt_Numeric_Correct\<close>: floats as IEEE bit patterns, utils/smath.h
    and the numeric instructions; integer instructions (C18), conversions (C19), minimum and
    maximum (C20) against the specification of WebAssembly.
  \<^item> \<open>In_Place_Dt\<close>: every instruction of in_place_dt.c, the loop as a partial function (a run that does
    not end has the value \<open>None\<close>) and interpreter.c.  \<open>Dt_Run\<close>: the same as a big-step relation, for
    rule induction, and evaluation with fuel for the examples.  \<open>Dt_Store\<close>: what a call keeps of the
    store (C21), of the thread (C22), and the runtime with the interpreter plugged in (C23).
    \<open>Dt_Memory\<close>: loads and stores (C25), bulk operations (C26) and growth of memory (C27) against
    the specification of WebAssembly.
  \<^item> \<open>In_Place_Tco\<close>: every handler of in_place_tco.c with the cached view of memory 0 and the opcode
    that is fetched early (the native stack that a compiler without tail calls would use is not
    modelled).  \<open>Tco_Correct\<close>: a call that the switch interpreter returns from returns with the same
    store and values in this one (C24).
  \<^item> \<open>Sjson\<close>: the JSON reader of the test harness, utils/sjson.c, with a count of the heap blocks in use;
    the parser terminates because a nested call never lengthens the rest of the text.  \<open>Json_Grammar\<close>:
    the grammar, and strings and numbers against it.  \<open>Json_Sound\<close>, \<open>Json_Complete\<close>: the reader accepts
    exactly the JSON texts (C28), does not leak (C29), faults only on the texts listed (C30);
    escapes (C31) and getters (C32).
  \<^item> \<open>Wasi\<close>: every function of host/wasi/wasi_impl_uv.c, as an action on the state of the library, the heap
    blocks in use, the store and the result.  \<open>Host_Modules\<close>: trampolines, tables and binaries of the
    generated files in host/spectest and host/wasi, and host/host_modules.c.  \<open>Host_Correct\<close>: these host
    functions keep the contract under which C21 to C24 were proved (C34), give back what they
    allocate (C35), report refused calls (C36) except for \<open>path_open\<close> (C37); injection (C38), the
    types of the built-in modules (C39) and calls of them (C40).

  \<^bold>\<open>Interfaces.\<close>  Locales state what a client relies on: \<open>vm_order\<close> in \<open>Dt_Store\<close> is a reflexive and
  transitive relation on stores that the primitive writes respect; its lemmas lift it to whole
  calls, and it is interpreted for four relations
  (three in \<open>Dt_Store\<close>, the shape of memories in \<open>Tco_Correct\<close>).  A host function writes bytes of
  memories only, so \<open>Host_Correct\<close> has the contract of the host for each of the four at once.

  \<^bold>\<open>Bounds.\<close>  Loops over a count are structural recursion on it; the parser and the decoder loops
  terminate because the stream position grows.  Only the examples of the interpreter use fuel.

  \<^bold>\<open>Not modelled.\<close>  The unfinished jit/ir_builder.c, which nothing calls; logging, coverage counters and
  the names of opcodes, which change no state; the platform headers; the command-line programs and
  test programs.
\<close>

end
